(* ===== verification/Prelude.thy ===== *)
theory Prelude
  imports Main "HOL-Library.Word" "HOL-Library.Monad_Syntax"
begin

unbundle bit_operations_syntax

text \<open>
  Shared ground of the development: the C integer types at their width, the error codes of
  \<^verbatim>\<open>Lib_Board/inc/board.h\<close>, checked array access, the linear searches the drivers are
  built from, observations of volatile locations, and the generic lemmas on lists and words
  that the component theories use.

  Conventions of the model:
  \<^item> \<open>uint8_t\<close>, \<open>uint16_t\<close> and \<open>uint32_t\<close> are words of 8, 16 and 32 bits, so
    arithmetic wraps as it does in C;
  \<^item> a C array is a list of fixed length; where the source can index outside it, the access is
    \<open>rd\<close> or \<open>wr\<close> and an access outside the array is \<^const>\<open>None\<close>;
  \<^item> a call that does not return normally is \<^const>\<open>None\<close>: an access outside an array, a failed
    \<^verbatim>\<open>CHECK_PARAM\<close> (whose \<^verbatim>\<open>check_failed\<close> is an endless loop), or a polling loop that is
    still running when the supplied observations of the hardware end;
  \<^item> a busy-wait loop reads volatile locations; the values it observes are a list, one element
    per read, so that a finite list describes a finite prefix of the run.
\<close>

type_synonym u8 = "8 word"
type_synonym u16 = "16 word"
type_synonym u32 = "32 word"

named_theorems can_defs \<open>definitions of the CAN driver that its proofs unfold\<close>
named_theorems inv_intros \<open>preservation of the invariants by the operations\<close>

datatype error_t =
    ERR_OK | ERR_ARGUMENT | ERR_TIMEOUT | ERR_NOT_INIT
  | ERR_CAN_SEND | ERR_RF_CMD_ERROR | ERR_RF_READ_ERROR

text \<open>\<^verbatim>\<open>Status\<close> and \<^verbatim>\<open>FunctionalState\<close> of \<^verbatim>\<open>Lib_MCU/inc/lpc_types.h\<close>.\<close>

datatype Status = ERROR | SUCCESS

datatype FunctionalState = DISABLE | ENABLE

section \<open>Arrays with checked access\<close>

definition rd :: "'a list \<Rightarrow> nat \<Rightarrow> 'a option" where
  "rd xs i = (if i < length xs then Some (xs ! i) else None)"

definition wr :: "'a list \<Rightarrow> nat \<Rightarrow> 'a \<Rightarrow> 'a list option" where
  "wr xs i v = (if i < length xs then Some (xs[i := v]) else None)"

lemma rd_in [simp]: "i < length xs \<Longrightarrow> rd xs i = Some (xs ! i)"
  by (simp add: rd_def)

lemma wr_in [simp]: "i < length xs \<Longrightarrow> wr xs i v = Some (xs[i := v])"
  by (simp add: wr_def)

lemma rd_out [simp]: "length xs \<le> i \<Longrightarrow> rd xs i = None"
  by (simp add: rd_def)

lemma wr_out [simp]: "length xs \<le> i \<Longrightarrow> wr xs i v = None"
  by (simp add: wr_def)

lemma wr_SomeD: "wr xs i v = Some ys \<Longrightarrow> i < length xs \<and> ys = xs[i := v]"
  by (auto simp: wr_def split: if_splits)

lemma rd_SomeD: "rd xs i = Some v \<Longrightarrow> i < length xs \<and> v = xs ! i"
  by (auto simp: rd_def split: if_splits)

section \<open>CHECK_PARAM\<close>

definition CHECK_PARAM :: "bool \<Rightarrow> unit option" where
  "CHECK_PARAM b = (if b then Some () else None)"

lemma CHECK_PARAM_simps [simp]: "CHECK_PARAM True = Some ()" "CHECK_PARAM False = None"
  by (simp_all add: CHECK_PARAM_def)

section \<open>Observations of volatile locations\<close>

fun vread :: "'a list \<Rightarrow> ('a \<times> 'a list) option" where
  "vread [] = None"
| "vread (r # rs) = Some (r, rs)"

section \<open>Linear search with break\<close>

text \<open>
  \<^verbatim>\<open>for (i = 0; i < N; i++) if (P(a[i])) break;\<close> is \<open>find_idx P a\<close>: the index the loop
  stops at, or \<^const>\<open>None\<close> when it runs to the end of the array.
\<close>

fun find_idx :: "('a \<Rightarrow> bool) \<Rightarrow> 'a list \<Rightarrow> nat option" where
  "find_idx P [] = None"
| "find_idx P (x # xs) = (if P x then Some 0 else map_option Suc (find_idx P xs))"

lemma find_idx_None_iff: "find_idx P xs = None \<longleftrightarrow> (\<forall>x \<in> set xs. \<not> P x)"
  by (induction xs) auto

lemma find_idx_Some_iff:
  "find_idx P xs = Some i \<longleftrightarrow> i < length xs \<and> P (xs ! i) \<and> (\<forall>j < i. \<not> P (xs ! j))"
proof (induction xs arbitrary: i)
  case Nil
  then show ?case by simp
next
  case (Cons x xs)
  then show ?case by (cases i) (auto simp: less_Suc_eq_0_disj)
qed

lemma find_idx_SomeD:
  assumes "find_idx P xs = Some i"
  shows "i < length xs" "P (xs ! i)"
  using assms by (simp_all add: find_idx_Some_iff)

lemma find_idx_cong:
  "length xs = length ys \<Longrightarrow> (\<And>i. i < length xs \<Longrightarrow> P (xs ! i) = Q (ys ! i)) \<Longrightarrow>
    find_idx P xs = find_idx Q ys"
proof (induction xs ys rule: list_induct2)
  case Nil
  then show ?case by simp
next
  case (Cons x xs y ys)
  from Cons.prems[of 0] have "P x = Q y" by simp
  moreover have "find_idx P xs = find_idx Q ys"
    using Cons.prems[of "Suc _"] by (intro Cons.IH) auto
  ultimately show ?case by simp
qed

section \<open>Lists\<close>

lemma list4_cases:
  assumes "length xs = 4"
  obtains a b c d where "xs = [a, b, c, d]"
  using assms by (auto simp: numeral_eq_Suc length_Suc_conv)

lemma distinct_list_update_fresh:
  "distinct xs \<Longrightarrow> v \<notin> set xs \<Longrightarrow> distinct (xs[i := v])"
  by (induction xs arbitrary: i) (auto split: nat.splits dest: set_update_subset_insert [THEN subsetD])

lemma filter_ne0_full_iff: "length (filter (\<lambda>r. r \<noteq> z) xs) = length xs \<longleftrightarrow> z \<notin> set xs"
proof
  assume "length (filter (\<lambda>r. r \<noteq> z) xs) = length xs"
  then show "z \<notin> set xs" using length_filter_less[of z xs "\<lambda>r. r \<noteq> z"] by fastforce
next
  assume "z \<notin> set xs"
  then have "filter (\<lambda>r. r \<noteq> z) xs = xs" by (auto simp: filter_id_conv)
  then show "length (filter (\<lambda>r. r \<noteq> z) xs) = length xs" by simp
qed

lemma filter_update_fresh:
  assumes "i < length xs" "xs ! i = z" "r \<noteq> z"
  shows "set (filter (\<lambda>r. r \<noteq> z) (xs[i := r])) = insert r (set (filter (\<lambda>r. r \<noteq> z) xs))"
    and "r \<notin> set xs \<Longrightarrow> distinct (filter (\<lambda>r. r \<noteq> z) xs) \<Longrightarrow> distinct (filter (\<lambda>r. r \<noteq> z) (xs[i := r]))"
proof -
  have x: "xs = take i xs @ z # drop (Suc i) xs" "xs[i := r] = take i xs @ r # drop (Suc i) xs"
    using assms id_take_nth_drop[of i xs] by (simp_all add: upd_conv_take_nth_drop)
  show "set (filter (\<lambda>r. r \<noteq> z) (xs[i := r])) = insert r (set (filter (\<lambda>r. r \<noteq> z) xs))"
    unfolding x(2) using assms(3) by (subst (3) x(1)) auto
  show "distinct (filter (\<lambda>r. r \<noteq> z) (xs[i := r]))"
    if "r \<notin> set xs" "distinct (filter (\<lambda>r. r \<noteq> z) xs)"
    using that assms(3) unfolding x(2)
    by (subst (asm) (2) x(1), subst (asm) x(1)) auto
qed

lemma take_wr: "pos < length buf \<Longrightarrow> take (Suc pos) (buf[pos := x]) = take pos buf @ [x]"
  by (simp add: take_Suc_conv_app_nth)

lemma distinct_filter_zeroed:
  assumes "distinct (filter (\<lambda>r. r \<noteq> z) xs)" "length ys = length xs"
    and "\<And>i. i < length xs \<Longrightarrow> ys ! i \<in> {z, xs ! i}"
  shows "distinct (filter (\<lambda>r. r \<noteq> z) ys) \<and> set (filter (\<lambda>r. r \<noteq> z) ys) \<subseteq> set (filter (\<lambda>r. r \<noteq> z) xs)"
  using assms(2,1,3)
proof (induction ys xs rule: list_induct2)
  case (Cons y ys x xs)
  have "distinct (filter (\<lambda>r. r \<noteq> z) ys) \<and> set (filter (\<lambda>r. r \<noteq> z) ys) \<subseteq> set (filter (\<lambda>r. r \<noteq> z) xs)"
    using Cons.prems(1) Cons.prems(2)[of "Suc _"] by (intro Cons.IH) (auto split: if_splits)
  moreover have "y \<in> {z, x}" using Cons.prems(2)[of 0] by simp
  ultimately show ?case using Cons.prems(1) by (auto split: if_splits)
qed simp

section \<open>Words\<close>

lemma mask_numerals:
  "(0xFF :: 'a :: len word) = mask 8" "(0xFFFF :: 'a word) = mask 16" "(0xF :: 'a word) = mask 4"
  by (simp_all add: mask_eq_decr_exp flip: mask_eq_exp_minus_1)

lemma and_FF_u8 [simp]: "x AND 0xFF = (x :: u8)"
  unfolding mask_numerals by (rule bit_word_eqI) (simp add: bit_simps)

lemma byte_of_le [simp]: "ucast (w AND 0xFF :: u32) = (ucast w :: u8)"
  unfolding mask_numerals by (intro bit_word_eqI) (auto simp: bit_simps)

lemma unat_u8_lt [simp]: "unat (x :: u8) < 256"
  using unsigned_less [of x, where 'a = nat] by simp

lemma unat_u8_eq_iff [simp]: "unat (x :: u8) = unat y \<longleftrightarrow> x = y"
  by (simp add: word_unat_eq_iff)

lemma unat_u16_lt [simp]: "unat (x :: u16) < 65536"
  using unsigned_less [of x, where 'a = nat] by simp

lemma unat_of_nat_u8: "n < 256 \<Longrightarrow> unat (word_of_nat n :: u8) = n"
  by (simp add: unat_of_nat take_bit_nat_eq_self)

end
