(* ===== verification/Clkpwr.thy ===== *)
theory Clkpwr
  imports Prelude
begin

unbundle bit_operations_syntax

text \<open>
  Peripheral clock selection and power control: the routines of
  \<^verbatim>\<open>Lib_MCU/src/lpc17xx_clkpwr.c\<close> that the other drivers call, on the registers of the system
  control block they use, and the entry to the low-power modes.
\<close>

record LPC_SC_TypeDef =
  PCLKSEL0 :: u32
  PCLKSEL1 :: u32
  PCONP :: u32

text \<open>
  A shift by a register operand on the Cortex-M3 uses the low byte of the amount and yields 0
  for amounts of 32 and more. The driver shifts by such amounts because it passes power-control
  bits (\<^verbatim>\<open>CLKPWR_PCONP_PCAN1\<close> is \<open>2 ^ 13\<close>) where a clock-selection position is expected.
\<close>

definition shl_reg :: "u32 \<Rightarrow> u32 \<Rightarrow> u32" where
  "shl_reg x n = push_bit (unat n mod 256) x"

definition shr_reg :: "u32 \<Rightarrow> u32 \<Rightarrow> u32" where
  "shr_reg x n = drop_bit (unat n mod 256) x"

abbreviation (input) CLKPWR_PCONP_BITMASK :: u32 where "CLKPWR_PCONP_BITMASK \<equiv> 0xEFEFF7DE"
abbreviation (input) CLKPWR_PCLKSEL_CCLK_DIV_4 :: u32 where "CLKPWR_PCLKSEL_CCLK_DIV_4 \<equiv> 0"

definition CLKPWR_SetPCLKDiv :: "u32 \<Rightarrow> u32 \<Rightarrow> LPC_SC_TypeDef \<Rightarrow> LPC_SC_TypeDef" where
  "CLKPWR_SetPCLKDiv ClkType DivVal sc =
     (let bitpos = (if ClkType < 32 then ClkType else ClkType - 32) in
      if ClkType < 32
      then sc\<lparr>PCLKSEL0 := (PCLKSEL0 sc AND NOT (shl_reg 0x03 bitpos)) OR shl_reg DivVal bitpos\<rparr>
      else sc\<lparr>PCLKSEL1 := (PCLKSEL1 sc AND NOT (shl_reg 0x03 bitpos)) OR shl_reg DivVal bitpos\<rparr>)"

definition CLKPWR_GetPCLKSEL :: "u32 \<Rightarrow> LPC_SC_TypeDef \<Rightarrow> u32" where
  "CLKPWR_GetPCLKSEL ClkType sc =
     (if ClkType < 32 then shr_reg (PCLKSEL0 sc) ClkType AND 0x03
      else shr_reg (PCLKSEL1 sc) (ClkType - 32) AND 0x03)"

definition CLKPWR_GetPCLK :: "u32 \<Rightarrow> u32 \<Rightarrow> LPC_SC_TypeDef \<Rightarrow> u32" where
  "CLKPWR_GetPCLK core_clock ClkType sc =
     (let div0 = CLKPWR_GetPCLKSEL ClkType sc;
          divi = (if div0 = 0 then 4 else if div0 = 1 then 1 else if div0 = 2 then 2
                  else if div0 = 3 then 8 else div0)
      in core_clock div divi)"

definition CLKPWR_ConfigPPWR :: "u32 \<Rightarrow> FunctionalState \<Rightarrow> LPC_SC_TypeDef \<Rightarrow> LPC_SC_TypeDef" where
  "CLKPWR_ConfigPPWR PPType st sc = (case st of
     ENABLE \<Rightarrow> sc\<lparr>PCONP := PCONP sc OR (PPType AND CLKPWR_PCONP_BITMASK)\<rparr>
   | DISABLE \<Rightarrow> sc\<lparr>PCONP := PCONP sc AND ((NOT PPType) AND CLKPWR_PCONP_BITMASK)\<rparr>)"

section \<open>Low-power modes\<close>

text \<open>
  The registers that choose the mode which the instruction WFI enters: \<^verbatim>\<open>LPC_SC->PCON\<close> and
  \<^verbatim>\<open>SCB->SCR\<close>, the system control register of the processor. Each function gives the registers with
  which it executes WFI.
\<close>

record power_regs =
  PCON :: u32
  SCR :: u32

definition CLKPWR_Sleep :: "power_regs \<Rightarrow> power_regs" where
  "CLKPWR_Sleep p = p\<lparr>PCON := 0x00\<rparr>"

definition CLKPWR_DeepSleep :: "power_regs \<Rightarrow> power_regs" where
  "CLKPWR_DeepSleep p = p\<lparr>SCR := 0x4, PCON := 0x00\<rparr>"

definition CLKPWR_PowerDown :: "power_regs \<Rightarrow> power_regs" where
  "CLKPWR_PowerDown p = p\<lparr>SCR := 0x4, PCON := 0x01\<rparr>"

definition CLKPWR_DeepPowerDown :: "power_regs \<Rightarrow> power_regs" where
  "CLKPWR_DeepPowerDown p = p\<lparr>SCR := 0x4, PCON := 0x03\<rparr>"

text \<open>
  The mode that the user manual of the processor gives for the bit SLEEPDEEP of SCR and the two low
  bits of PCON (the combination 2 is reserved).
\<close>

datatype power_mode = Sleep | Deep_Sleep | Power_Down | Deep_Power_Down | Reserved_Mode

definition wfi_mode :: "power_regs \<Rightarrow> power_mode" where
  "wfi_mode p =
     (if SCR p AND 0x4 = 0 then Sleep
      else let m = PCON p AND 0x3 in
        if m = 0 then Deep_Sleep else if m = 1 then Power_Down else if m = 3 then Deep_Power_Down
        else Reserved_Mode)"

text \<open>
  The deep modes are entered from every state. \<^verbatim>\<open>CLKPWR_Sleep\<close> does not clear SLEEPDEEP, so that it
  enters deep sleep once one of the others has been called.
\<close>

lemma deep_modes_entered:
  "wfi_mode (CLKPWR_DeepSleep p) = Deep_Sleep"
  "wfi_mode (CLKPWR_PowerDown p) = Power_Down"
  "wfi_mode (CLKPWR_DeepPowerDown p) = Deep_Power_Down"
  by (simp_all add: wfi_mode_def CLKPWR_DeepSleep_def CLKPWR_PowerDown_def CLKPWR_DeepPowerDown_def)

lemma sleep_mode_entered: "wfi_mode (CLKPWR_Sleep p) = (if SCR p AND 0x4 = 0 then Sleep else Deep_Sleep)"
  by (simp add: wfi_mode_def CLKPWR_Sleep_def)

lemma sleep_after_deep:
  "wfi_mode (CLKPWR_Sleep (CLKPWR_DeepSleep p)) = Deep_Sleep"
  "wfi_mode (CLKPWR_Sleep (CLKPWR_PowerDown p)) = Deep_Sleep"
  by (simp_all add: sleep_mode_entered CLKPWR_DeepSleep_def CLKPWR_PowerDown_def)

end
