(* ===== verification/UartDriver.thy ===== *)
theory UartDriver
  imports Clkpwr
begin

unbundle bit_operations_syntax

text \<open>
  The UART driver \<^verbatim>\<open>Lib_MCU/src/lpc17xx_uart.c\<close> as far as the board uses it: the divisor search,
  initialisation, transmission and reception, interrupt configuration and the interrupt router.
  The transmit holding register is the list of the bytes written to it. Reads of the line status
  register are lists of observed values; a read that finds data is followed by a read of the
  receive buffer, so a reception poll observes \<open>Some\<close> byte or \<^const>\<open>None\<close>.
\<close>

section \<open>State\<close>

datatype UARTx = UART0 | UART1 | UART2 | UART3

record LPC_UART_TypeDef =
  U_THR :: "u8 list"
  U_DLL :: u32
  U_DLM :: u32
  U_IER :: u32
  U_FCR :: u32
  U_LCR :: u32
  U_ACR :: u32
  U_ICR :: u32
  U_FDR :: u32
  U_TER :: u32
  U_MCR :: u32
  U_RS485CTRL :: u32
  U_RS485DLY :: u32
  U_ADRMATCH :: u32

record uart_hw =
  u_regs :: "UARTx \<Rightarrow> LPC_UART_TypeDef"
  u_sc :: LPC_SC_TypeDef
  u_clk :: u32
  u_nvic :: "nat set"

definition u_upd :: "UARTx \<Rightarrow> (LPC_UART_TypeDef \<Rightarrow> LPC_UART_TypeDef) \<Rightarrow> uart_hw \<Rightarrow> uart_hw" where
  "u_upd u f h = h\<lparr>u_regs := (u_regs h)(u := f (u_regs h u))\<rparr>"

fun getUartNum :: "UARTx \<Rightarrow> nat" where
  "getUartNum UART0 = 0"
| "getUartNum UART1 = 1"
| "getUartNum UART2 = 2"
| "getUartNum UART3 = 3"

fun CLKPWR_PCLKSEL_UART :: "UARTx \<Rightarrow> u32" where
  "CLKPWR_PCLKSEL_UART UART0 = 6"
| "CLKPWR_PCLKSEL_UART UART1 = 8"
| "CLKPWR_PCLKSEL_UART UART2 = 48"
| "CLKPWR_PCLKSEL_UART UART3 = 50"

fun CLKPWR_PCONP_PCUART :: "UARTx \<Rightarrow> u32" where
  "CLKPWR_PCONP_PCUART UART0 = 0x8"
| "CLKPWR_PCONP_PCUART UART1 = 0x10"
| "CLKPWR_PCONP_PCUART UART2 = 0x1000000"
| "CLKPWR_PCONP_PCUART UART3 = 0x2000000"

abbreviation (input) UART_LCR_DLAB_EN :: u32 where "UART_LCR_DLAB_EN \<equiv> 0x80"
abbreviation (input) UART_LCR_BREAK_EN :: u32 where "UART_LCR_BREAK_EN \<equiv> 0x40"
abbreviation (input) UART_LCR_BITMASK :: u32 where "UART_LCR_BITMASK \<equiv> 0xFF"
abbreviation (input) UART_LSR_RDR :: u8 where "UART_LSR_RDR \<equiv> 0x01"
abbreviation (input) UART_LSR_THRE :: u8 where "UART_LSR_THRE \<equiv> 0x20"
abbreviation (input) UART_LSR_TEMT :: u8 where "UART_LSR_TEMT \<equiv> 0x40"
abbreviation (input) UART_TER_TXEN :: u32 where "UART_TER_TXEN \<equiv> 0x80"
abbreviation (input) UART_TER_BITMASK :: u32 where "UART_TER_BITMASK \<equiv> 0x80"
abbreviation (input) UART_TX_FIFO_SIZE :: nat where "UART_TX_FIFO_SIZE \<equiv> 16"
abbreviation (input) UART_BLOCKING_TIMEOUT :: u32 where "UART_BLOCKING_TIMEOUT \<equiv> 0xFFFFFFFF"

section \<open>Divisor search\<close>

text \<open>The variables of \<^verbatim>\<open>uart_set_divisors\<close> that survive an iteration.\<close>

record divs =
  mulFracDivOptimal :: u32
  dividerAddOptimal :: u32
  diviserOptimal :: u32
  relativeError :: u32
  relativeOptimalError :: u32

definition divs0 :: divs where
  "divs0 = \<lparr>mulFracDivOptimal = 1, dividerAddOptimal = 0, diviserOptimal = 0, relativeError = 0,
     relativeOptimalError = 100000\<rparr>"

definition frac_clk :: "u32 \<Rightarrow> u32 \<Rightarrow> u32 \<Rightarrow> u32" where
  "frac_clk uClk mul add = (mul * uClk) div (mul + add)"

definition frac_div :: "u32 \<Rightarrow> u32 \<Rightarrow> u32" where
  "frac_div temp baudrate =
     (let d = temp div baudrate in if temp mod baudrate > baudrate div 2 then d + 1 else d)"

definition rel_error :: "u32 \<Rightarrow> u32 \<Rightarrow> u32" where
  "rel_error calcBaudrate baudrate =
     (if calcBaudrate \<le> baudrate then baudrate - calcBaudrate else calcBaudrate - baudrate)"

text \<open>The inner loop over \<^verbatim>\<open>dividerAddFracDiv\<close>, with its break.\<close>

fun div_inner :: "u32 \<Rightarrow> u32 \<Rightarrow> u32 \<Rightarrow> u32 list \<Rightarrow> divs \<Rightarrow> divs" where
  "div_inner uClk baudrate mul [] d = d"
| "div_inner uClk baudrate mul (add # adds) d =
     (let temp = frac_clk uClk mul add; diviser = frac_div temp baudrate in
      if diviser > 2 \<and> diviser < 65536 then
        let err = rel_error (temp div diviser) baudrate; d1 = d\<lparr>relativeError := err\<rparr> in
        if err < relativeOptimalError d then
          let d2 = d1\<lparr>mulFracDivOptimal := mul, dividerAddOptimal := add, diviserOptimal := diviser,
                      relativeOptimalError := err\<rparr>
          in if err = 0 then d2 else div_inner uClk baudrate mul adds d2
        else div_inner uClk baudrate mul adds d1
      else div_inner uClk baudrate mul adds d)"

fun div_outer :: "u32 \<Rightarrow> u32 \<Rightarrow> u32 list \<Rightarrow> divs \<Rightarrow> divs" where
  "div_outer uClk baudrate [] d = d"
| "div_outer uClk baudrate (mul # muls) d =
     (let d' = div_inner uClk baudrate mul (map word_of_nat [0..<16]) d in
      if relativeError d' = 0 then d' else div_outer uClk baudrate muls d')"

text \<open>A zero baud rate is a division by zero: \<^const>\<open>None\<close>.\<close>

definition uart_set_divisors :: "UARTx \<Rightarrow> u32 \<Rightarrow> uart_hw \<Rightarrow> (Status \<times> uart_hw) option" where
  "uart_set_divisors u baudrate h =
     (if baudrate = 0 then None
      else
        let uClk = drop_bit 4 (CLKPWR_GetPCLK (u_clk h) (CLKPWR_PCLKSEL_UART u) (u_sc h));
            d = div_outer uClk baudrate (map word_of_nat [1..<16]) divs0
        in if relativeOptimalError d < (baudrate * 3) div 100 then
             Some (SUCCESS, u_upd u (\<lambda>r. r\<lparr>
               U_DLM := drop_bit 8 (diviserOptimal d) AND 0xFF,
               U_DLL := diviserOptimal d AND 0xFF,
               U_LCR := (U_LCR r OR UART_LCR_DLAB_EN) AND ((NOT UART_LCR_DLAB_EN) AND UART_LCR_BITMASK),
               U_FDR := ((push_bit 4 (mulFracDivOptimal d) AND 0xF0) OR (dividerAddOptimal d AND 0x0F))
                          AND 0xFF\<rparr>) h)
           else Some (ERROR, h))"

section \<open>Initialisation\<close>

datatype UART_DATABIT_Type = UART_DATABIT_5 | UART_DATABIT_6 | UART_DATABIT_7 | UART_DATABIT_8
datatype UART_STOPBIT_Type = UART_STOPBIT_1 | UART_STOPBIT_2
datatype UART_PARITY_Type =
  UART_PARITY_NONE | UART_PARITY_ODD | UART_PARITY_EVEN | UART_PARITY_SP_1 | UART_PARITY_SP_0

record UART_CFG_Type =
  Baud_rate :: u32
  Parity :: UART_PARITY_Type
  Databits :: UART_DATABIT_Type
  Stopbits :: UART_STOPBIT_Type

definition UART_ConfigStructInit :: UART_CFG_Type where
  "UART_ConfigStructInit = \<lparr>Baud_rate = 9600, Parity = UART_PARITY_NONE, Databits = UART_DATABIT_8,
     Stopbits = UART_STOPBIT_1\<rparr>"

definition lcr_bits :: "UART_CFG_Type \<Rightarrow> u32" where
  "lcr_bits cfg =
     (case Databits cfg of UART_DATABIT_5 \<Rightarrow> 0 | UART_DATABIT_6 \<Rightarrow> 1 | UART_DATABIT_7 \<Rightarrow> 2
        | UART_DATABIT_8 \<Rightarrow> 3) OR
     (case Parity cfg of UART_PARITY_NONE \<Rightarrow> 0 | UART_PARITY_ODD \<Rightarrow> 0x08 OR 0
        | UART_PARITY_EVEN \<Rightarrow> 0x08 OR 0x10 | UART_PARITY_SP_1 \<Rightarrow> 0x08 OR 0x20
        | UART_PARITY_SP_0 \<Rightarrow> 0x08 OR 0x30) OR
     (case Stopbits cfg of UART_STOPBIT_1 \<Rightarrow> 0 | UART_STOPBIT_2 \<Rightarrow> 0x04)"

text \<open>\<^verbatim>\<open>while (LSR & UART_LSR_RDR) tmp = RBR;\<close> and \<^verbatim>\<open>while (!(LSR & UART_LSR_THRE));\<close>\<close>

fun drain_rx :: "u8 list \<Rightarrow> u8 list option" where
  "drain_rx [] = None"
| "drain_rx (l # ls) = (if l AND UART_LSR_RDR \<noteq> 0 then drain_rx ls else Some ls)"

fun wait_thre :: "u8 list \<Rightarrow> u8 list option" where
  "wait_thre [] = None"
| "wait_thre (l # ls) = (if l AND UART_LSR_THRE \<noteq> 0 then Some ls else wait_thre ls)"

definition UART_Init :: "UARTx \<Rightarrow> UART_CFG_Type \<Rightarrow> u8 list \<Rightarrow> uart_hw \<Rightarrow> uart_hw option" where
  "UART_Init u cfg lsr h = do {
     let h1 = h\<lparr>u_sc := CLKPWR_ConfigPPWR (CLKPWR_PCONP_PCUART u) ENABLE (u_sc h)\<rparr>;
     lsr1 \<leftarrow> drain_rx lsr;
     lsr2 \<leftarrow> wait_thre lsr1;
     let h2 = u_upd u (\<lambda>r. r\<lparr>U_FCR := 0, U_TER := 0, U_IER := 0, U_LCR := 0, U_ACR := 0\<rparr>) h1;
     let h3 = (if u = UART1
               then u_upd u (\<lambda>r. r\<lparr>U_MCR := 0, U_RS485CTRL := 0, U_RS485DLY := 0, U_ADRMATCH := 0\<rparr>) h2
               else h2);
     let h4 = (if u = UART3 then u_upd u (\<lambda>r. r\<lparr>U_ICR := 0\<rparr>) h3 else h3);
     (st, h5) \<leftarrow> uart_set_divisors u (Baud_rate cfg) h4;
     let tmp = (U_LCR (u_regs h5 u) AND (UART_LCR_DLAB_EN OR UART_LCR_BREAK_EN)) AND UART_LCR_BITMASK;
     Some (u_upd u (\<lambda>r. r\<lparr>U_LCR := (tmp OR lcr_bits cfg) AND UART_LCR_BITMASK\<rparr>) h5)
   }"

definition UART_TxCmd :: "UARTx \<Rightarrow> FunctionalState \<Rightarrow> uart_hw \<Rightarrow> uart_hw" where
  "UART_TxCmd u st = u_upd u (\<lambda>r. r\<lparr>U_TER :=
     (if st = ENABLE then U_TER r OR UART_TER_TXEN
      else U_TER r AND ((NOT UART_TER_TXEN) AND UART_TER_BITMASK))\<rparr>)"

definition UART_DeInit :: "UARTx \<Rightarrow> uart_hw \<Rightarrow> uart_hw" where
  "UART_DeInit u h = (let h1 = UART_TxCmd u DISABLE h in
     h1\<lparr>u_sc := CLKPWR_ConfigPPWR (CLKPWR_PCONP_PCUART u) DISABLE (u_sc h1)\<rparr>)"

definition UART_ForceBreak :: "UARTx \<Rightarrow> uart_hw \<Rightarrow> uart_hw" where
  "UART_ForceBreak u = u_upd u (\<lambda>r. r\<lparr>U_LCR := U_LCR r OR UART_LCR_BREAK_EN\<rparr>)"

section \<open>Interrupt configuration and status\<close>

datatype UART_INT_Type =
    UART_INTCFG_RBR | UART_INTCFG_THRE | UART_INTCFG_RLS | UART1_INTCFG_MS | UART1_INTCFG_CTS
  | UART_INTCFG_ABEO | UART_INTCFG_ABTO

fun ier_bit :: "UART_INT_Type \<Rightarrow> u32" where
  "ier_bit UART_INTCFG_RBR = 0x001"
| "ier_bit UART_INTCFG_THRE = 0x002"
| "ier_bit UART_INTCFG_RLS = 0x004"
| "ier_bit UART1_INTCFG_MS = 0x008"
| "ier_bit UART1_INTCFG_CTS = 0x080"
| "ier_bit UART_INTCFG_ABEO = 0x100"
| "ier_bit UART_INTCFG_ABTO = 0x200"

definition UART_IntConfig ::
  "UARTx \<Rightarrow> UART_INT_Type \<Rightarrow> FunctionalState \<Rightarrow> uart_hw \<Rightarrow> uart_hw option" where
  "UART_IntConfig u cfg st h = do {
     CHECK_PARAM (u = UART1 \<or> (cfg \<noteq> UART1_INTCFG_MS \<and> cfg \<noteq> UART1_INTCFG_CTS));
     Some (u_upd u (\<lambda>r. r\<lparr>U_IER :=
       (if st = ENABLE then U_IER r OR ier_bit cfg
        else U_IER r AND ((NOT (ier_bit cfg)) AND (if u = UART1 then 0x38F else 0x307)))\<rparr>) h)
   }"

definition UART_GetLineStatus :: "u8 \<Rightarrow> u8" where
  "UART_GetLineStatus lsr = lsr AND 0xFF"

definition UART_CheckBusy :: "u8 \<Rightarrow> bool" where
  "UART_CheckBusy lsr \<longleftrightarrow> lsr AND UART_LSR_TEMT = 0"

record UART_FIFO_CFG_Type =
  FIFO_ResetRxBuf :: FunctionalState
  FIFO_ResetTxBuf :: FunctionalState
  FIFO_DMAMode :: FunctionalState
  FIFO_Level :: nat

definition UART_FIFOConfigStructInit :: UART_FIFO_CFG_Type where
  "UART_FIFOConfigStructInit = \<lparr>FIFO_ResetRxBuf = ENABLE, FIFO_ResetTxBuf = ENABLE,
     FIFO_DMAMode = DISABLE, FIFO_Level = 0\<rparr>"

definition UART_FIFOConfig :: "UARTx \<Rightarrow> UART_FIFO_CFG_Type \<Rightarrow> uart_hw \<Rightarrow> uart_hw option" where
  "UART_FIFOConfig u c h = do {
     CHECK_PARAM (FIFO_Level c \<le> 3);
     Some (u_upd u (\<lambda>r. r\<lparr>U_FCR := (0x01 OR
       (if FIFO_Level c = 0 then 0 else if FIFO_Level c = 1 then 0x40 else if FIFO_Level c = 2 then 0x80 else 0xC0) OR
       (if FIFO_ResetTxBuf c = ENABLE then 0x04 else 0) OR
       (if FIFO_ResetRxBuf c = ENABLE then 0x02 else 0) OR
       (if FIFO_DMAMode c = ENABLE then 0x08 else 0)) AND 0xCF\<rparr>) h)
   }"

section \<open>Transmission and reception\<close>

datatype TRANSFER_BLOCK_Type = NONE_BLOCKING | BLOCKING

definition UART_SendData :: "UARTx \<Rightarrow> u8 \<Rightarrow> uart_hw \<Rightarrow> uart_hw" where
  "UART_SendData u d = u_upd u (\<lambda>r. r\<lparr>U_THR := U_THR r @ [d AND 0xFF]\<rparr>)"

definition UART_ReceiveData :: "u8 \<Rightarrow> u8" where
  "UART_ReceiveData rbr = rbr AND 0xFF"

text \<open>The wait for a free transmit register with a down-counter; the result is the counter.\<close>

fun wait_thre_to :: "u32 \<Rightarrow> u8 list \<Rightarrow> (u32 \<times> u8 list) option" where
  "wait_thre_to timeOut [] = None"
| "wait_thre_to timeOut (l # ls) =
     (if l AND UART_LSR_THRE \<noteq> 0 then Some (timeOut, ls)
      else if timeOut = 0 then Some (0, ls)
      else wait_thre_to (timeOut - 1) ls)"

text \<open>
  The two send loops over the bytes that remain: up to 16 bytes are written each time the transmit
  register is found empty. The result is the number of bytes written.
\<close>

function send_blocking :: "UARTx \<Rightarrow> u8 list \<Rightarrow> u8 list \<Rightarrow> uart_hw \<Rightarrow> (nat \<times> uart_hw) option" where
  "send_blocking u lsr bs h =
     (if bs = [] then Some (0, h)
      else do {
        (timeOut, lsr') \<leftarrow> wait_thre_to UART_BLOCKING_TIMEOUT lsr;
        (if timeOut = 0 then Some (0, h)
         else do {
           (n, h') \<leftarrow> send_blocking u lsr' (drop UART_TX_FIFO_SIZE bs)
                       (fold (UART_SendData u) (take UART_TX_FIFO_SIZE bs) h);
           Some (length (take UART_TX_FIFO_SIZE bs) + n, h')
         })
      })"
  by pat_completeness auto
termination by (relation "measure (\<lambda>(u, lsr, bs, h). length bs)") auto

function send_nonblocking :: "UARTx \<Rightarrow> u8 list \<Rightarrow> u8 list \<Rightarrow> uart_hw \<Rightarrow> (nat \<times> uart_hw) option" where
  "send_nonblocking u lsr bs h =
     (if bs = [] then Some (0, h)
      else do {
        (l, lsr') \<leftarrow> vread lsr;
        (if l AND UART_LSR_THRE = 0 then Some (0, h)
         else do {
           (n, h') \<leftarrow> send_nonblocking u lsr' (drop UART_TX_FIFO_SIZE bs)
                       (fold (UART_SendData u) (take UART_TX_FIFO_SIZE bs) h);
           Some (length (take UART_TX_FIFO_SIZE bs) + n, h')
         })
      })"
  by pat_completeness auto
termination by (relation "measure (\<lambda>(u, lsr, bs, h). length bs)") auto

declare send_blocking.simps [simp del] send_nonblocking.simps [simp del]

text \<open>A length beyond the buffer reads outside it: \<^const>\<open>None\<close>.\<close>

definition UART_Send ::
  "UARTx \<Rightarrow> u8 list \<Rightarrow> nat \<Rightarrow> TRANSFER_BLOCK_Type \<Rightarrow> u8 list \<Rightarrow> uart_hw \<Rightarrow> (nat \<times> uart_hw) option" where
  "UART_Send u txbuf buflen flag lsr h =
     (if buflen > length txbuf then None
      else case flag of
        BLOCKING \<Rightarrow> send_blocking u lsr (take buflen txbuf) h
      | NONE_BLOCKING \<Rightarrow> send_nonblocking u lsr (take buflen txbuf) h)"

text \<open>\<^verbatim>\<open>strlen\<close> of a buffer without a zero byte reads outside it: \<^const>\<open>None\<close>.\<close>

definition UART_SendString :: "UARTx \<Rightarrow> u8 list \<Rightarrow> u8 list \<Rightarrow> uart_hw \<Rightarrow> (nat \<times> uart_hw) option" where
  "UART_SendString u txbuf lsr h = do {
     n \<leftarrow> find_idx (\<lambda>b. b = 0) txbuf;
     UART_Send u txbuf n BLOCKING lsr h
   }"

fun recv_wait :: "u32 \<Rightarrow> u8 option list \<Rightarrow> (u8 option \<times> u8 option list) option" where
  "recv_wait timeOut [] = None"
| "recv_wait timeOut (p # ps) =
     (case p of
        Some d \<Rightarrow> Some (if timeOut = 0 then None else Some d, ps)
      | None \<Rightarrow> if timeOut = 0 then Some (None, ps) else recv_wait (timeOut - 1) ps)"

fun recv_blocking :: "nat \<Rightarrow> u8 option list \<Rightarrow> (u8 list \<times> u8 option list) option" where
  "recv_blocking 0 ps = Some ([], ps)"
| "recv_blocking (Suc n) ps = do {
     (r, ps') \<leftarrow> recv_wait UART_BLOCKING_TIMEOUT ps;
     (case r of
        None \<Rightarrow> Some ([], ps')
      | Some d \<Rightarrow> do { (ds, ps'') \<leftarrow> recv_blocking n ps'; Some (UART_ReceiveData d # ds, ps'') })
   }"

fun recv_nonblocking :: "nat \<Rightarrow> u8 option list \<Rightarrow> (u8 list \<times> u8 option list) option" where
  "recv_nonblocking 0 ps = Some ([], ps)"
| "recv_nonblocking (Suc n) ps = do {
     (r, ps') \<leftarrow> vread ps;
     (case r of
        None \<Rightarrow> Some ([], ps')
      | Some d \<Rightarrow> do { (ds, ps'') \<leftarrow> recv_nonblocking n ps'; Some (UART_ReceiveData d # ds, ps'') })
   }"

text \<open>The bytes stored to \<^verbatim>\<open>rxbuf\<close>; the returned count is their number.\<close>

definition UART_Receive ::
  "nat \<Rightarrow> TRANSFER_BLOCK_Type \<Rightarrow> u8 option list \<Rightarrow> (u8 list \<times> u8 option list) option" where
  "UART_Receive buflen flag ps = (case flag of
     BLOCKING \<Rightarrow> recv_blocking buflen ps
   | NONE_BLOCKING \<Rightarrow> recv_nonblocking buflen ps)"

section \<open>Interrupt router\<close>

text \<open>
  Call-backs act on the hardware and a client state and may fail. \<open>iir\<close>, \<open>lsr\<close> and \<open>msr\<close> are the
  values read from the identification, line status and modem status registers.
\<close>

record 'w uart_cbs =
  pfnTxCbs :: "('w \<Rightarrow> 'w option) option"
  pfnRxCbs :: "('w \<Rightarrow> 'w option) option"
  pfnABCbs :: "(u32 \<Rightarrow> 'w \<Rightarrow> 'w option) option"
  pfnErrCbs :: "(u32 \<Rightarrow> 'w \<Rightarrow> 'w option) option"

record 'w uart_cb_state =
  uartCbsDat :: "UARTx \<Rightarrow> 'w uart_cbs"
  pfnModemCbs :: "(u8 \<Rightarrow> 'w \<Rightarrow> 'w option) option"

text \<open>Installing a receive or a transmit call-back (\<^verbatim>\<open>CbType\<close> 0 and 1).\<close>

definition UART_SetupCbs ::
  "UARTx \<Rightarrow> u8 \<Rightarrow> ('w \<Rightarrow> 'w option) option \<Rightarrow> 'w uart_cb_state \<Rightarrow> 'w uart_cb_state" where
  "UART_SetupCbs u CbType f cs =
     (let d = uartCbsDat cs u in
      if CbType = 0 then cs\<lparr>uartCbsDat := (uartCbsDat cs)(u := d\<lparr>pfnRxCbs := f\<rparr>)\<rparr>
      else if CbType = 1 then cs\<lparr>uartCbsDat := (uartCbsDat cs)(u := d\<lparr>pfnTxCbs := f\<rparr>)\<rparr>
      else cs)"

definition clear_ier :: "UARTx \<Rightarrow> u32 \<Rightarrow> uart_hw \<times> 'c \<Rightarrow> (uart_hw \<times> 'c) option" where
  "clear_ier u b w = Some (u_upd u (\<lambda>r. r\<lparr>U_IER := U_IER r AND NOT b\<rparr>) (fst w), snd w)"

definition UART_GenIntHandler ::
  "UARTx \<Rightarrow> u32 \<Rightarrow> u32 \<Rightarrow> u8 \<Rightarrow> (uart_hw \<times> 'c) uart_cb_state \<Rightarrow> uart_hw \<times> 'c \<Rightarrow> (uart_hw \<times> 'c) option" where
  "UART_GenIntHandler u iir lsr msr cs w0 = do {
     let tmp = iir AND 0x0E;
     let cb = uartCbsDat cs u;
     w1 \<leftarrow> (if u = UART1 \<and> tmp = 0 then
              (case pfnModemCbs cs of Some f \<Rightarrow> f (msr AND 0xFF) w0 | None \<Rightarrow> clear_ier u (0x08 OR 0x80) w0)
            else Some w0);
     w2 \<leftarrow> (if tmp = 0x06 \<and> lsr AND 0x9E \<noteq> 0 then
              (case pfnErrCbs cb of Some f \<Rightarrow> f (lsr AND 0x9E) w1 | None \<Rightarrow> clear_ier u 0x04 w1)
            else Some w1);
     w3 \<leftarrow> (if tmp = 0x04 \<or> tmp = 0x0C then
              (case pfnRxCbs cb of Some f \<Rightarrow> f w2 | None \<Rightarrow> clear_ier u 0x01 w2)
            else Some w2);
     w4 \<leftarrow> (if tmp = 0x02 then
              (case pfnTxCbs cb of Some f \<Rightarrow> f w3 | None \<Rightarrow> clear_ier u 0x02 w3)
            else Some w3);
     let intsrc = iir AND 0x300;
     (if intsrc \<noteq> 0 then
        let w5 = (u_upd u (\<lambda>r. r\<lparr>U_ACR := U_ACR r OR ((if intsrc AND 0x100 \<noteq> 0 then 0x100 else 0) OR
                     (if intsrc AND 0x200 \<noteq> 0 then 0x200 else 0))\<rparr>) (fst w4), snd w4)
        in (case pfnABCbs cb of Some f \<Rightarrow> f intsrc w5 | None \<Rightarrow> clear_ier u 0x300 w5)
      else Some w4)
   }"

section \<open>Accuracy of the divisor search\<close>

definition cand_ok :: "u32 \<Rightarrow> u32 \<Rightarrow> divs \<Rightarrow> bool" where
  "cand_ok uClk baud d \<longleftrightarrow>
     0 < mulFracDivOptimal d \<and> mulFracDivOptimal d < 16 \<and> dividerAddOptimal d < 16 \<and>
     2 < diviserOptimal d \<and> diviserOptimal d < 65536 \<and>
     relativeOptimalError d =
       rel_error (frac_clk uClk (mulFracDivOptimal d) (dividerAddOptimal d) div diviserOptimal d) baud"

definition divs_inv :: "u32 \<Rightarrow> u32 \<Rightarrow> divs \<Rightarrow> bool" where
  "divs_inv uClk baud d \<longleftrightarrow> (relativeOptimalError d < 100000 \<longrightarrow> cand_ok uClk baud d)"

lemma divs_inv_upd [simp]: "divs_inv uClk baud (d\<lparr>relativeError := e\<rparr>) = divs_inv uClk baud d"
  by (simp add: divs_inv_def cand_ok_def)

lemma div_inner_inv:
  "divs_inv uClk baud d \<Longrightarrow> 0 < mul \<Longrightarrow> mul < 16 \<Longrightarrow> \<forall>a \<in> set adds. a < 16 \<Longrightarrow>
    divs_inv uClk baud (div_inner uClk baud mul adds d)"
proof (induction adds arbitrary: d)
  case (Cons a adds)
  define v where "v = frac_div (frac_clk uClk mul a) baud"
  define e where "e = rel_error (frac_clk uClk mul a div v) baud"
  define d1 where "d1 = d\<lparr>relativeError := e\<rparr>"
  define d2 where "d2 = d1\<lparr>mulFracDivOptimal := mul, dividerAddOptimal := a, diviserOptimal := v, relativeOptimalError := e\<rparr>"
  have step: "div_inner uClk baud mul (a # adds) d =
     (if 2 < v \<and> v < 65536 then
        if e < relativeOptimalError d then (if e = 0 then d2 else div_inner uClk baud mul adds d2)
        else div_inner uClk baud mul adds d1
      else div_inner uClk baud mul adds d)"
    by (simp only: div_inner.simps Let_def v_def e_def d1_def d2_def)
  have "divs_inv uClk baud d1" using Cons.prems(1) by (simp add: d1_def)
  moreover have "divs_inv uClk baud d2" if "2 < v" "v < 65536"
    using that Cons.prems by (simp add: divs_inv_def cand_ok_def d2_def d1_def e_def)
  ultimately show ?case
    unfolding step using Cons.IH Cons.prems by simp
qed simp

lemma words16: "\<forall>a \<in> set (map word_of_nat [0..<16]). (a :: u32) < 16"
  "\<forall>m \<in> set (map word_of_nat [1..<16]). (m :: u32) < 16 \<and> 0 < m"
  by code_simp+

lemma div_outer_inv:
  "divs_inv uClk baud d \<Longrightarrow> \<forall>m \<in> set muls. m < 16 \<and> 0 < m \<Longrightarrow> divs_inv uClk baud (div_outer uClk baud muls d)"
proof (induction muls arbitrary: d)
  case (Cons m muls)
  then have "divs_inv uClk baud (div_inner uClk baud m (map word_of_nat [0..<16]) d)"
    by (intro div_inner_inv words16(1)) auto
  then show ?case using Cons by (simp add: Let_def del: upt.simps)
qed simp

lemma join_bytes: "(d :: u32) < 65536 \<Longrightarrow> push_bit 8 (drop_bit 8 d AND 0xFF) OR (d AND 0xFF) = d"
proof -
  assume "d < 65536"
  then have "d AND mask 16 = d" by (intro less_mask_eq) simp
  then have b: "bit d n \<Longrightarrow> n < 16" for n using bit_and_iff[of d "mask 16" n] by (simp add: bit_mask_iff)
  show ?thesis
    unfolding mask_numerals by (rule bit_word_eqI) (auto simp: bit_simps dest: b)
qed

lemma nibbles:
  assumes "(m :: u32) < 16" "a < 16"
  shows "drop_bit 4 (((push_bit 4 m AND 0xF0) OR (a AND 0x0F)) AND 0xFF) = m"
    and "(((push_bit 4 m AND 0xF0) OR (a AND 0x0F)) AND 0xFF) AND 0x0F = a"
proof -
  have "x AND mask 4 = x" if "x < 16" for x :: u32 using that by (intro less_mask_eq) simp
  then have b: "bit x n \<Longrightarrow> n < 4" if "x < 16" for x :: u32 and n
    using that bit_and_iff[of x "mask 4" n] by (simp add: bit_mask_iff)
  have f0: "(0xF0 :: u32) = push_bit 4 (mask 4)" by (simp add: mask_eq_exp_minus_1)
  show "drop_bit 4 (((push_bit 4 m AND 0xF0) OR (a AND 0x0F)) AND 0xFF) = m"
    unfolding f0 mask_numerals by (rule bit_word_eqI) (use assms in \<open>auto simp: bit_simps dest: b\<close>)
  show "(((push_bit 4 m AND 0xF0) OR (a AND 0x0F)) AND 0xFF) AND 0x0F = a"
    unfolding f0 mask_numerals by (rule bit_word_eqI) (use assms in \<open>auto simp: bit_simps dest: b\<close>)
qed

text \<open>
  When \<^verbatim>\<open>uart_set_divisors\<close> reports success, the divisor latch and the fractional divider it
  wrote hold legal values (divisor above 2, multiplier 1 to 15, added divider 0 to 15) and the
  baud rate they give, in the arithmetic of the driver, is off by less than three per cent.
\<close>

theorem uart_set_divisors_accuracy:
  assumes "uart_set_divisors u baud h = Some (SUCCESS, h')" "(baud * 3) div 100 \<le> 100000"
    and "uClk = drop_bit 4 (CLKPWR_GetPCLK (u_clk h) (CLKPWR_PCLKSEL_UART u) (u_sc h))"
  shows "let r = u_regs h' u; divisor = push_bit 8 (U_DLM r) OR U_DLL r;
      mul = drop_bit 4 (U_FDR r); add = U_FDR r AND 0x0F
    in 2 < divisor \<and> divisor < 65536 \<and> 0 < mul \<and> mul < 16 \<and> add < 16 \<and>
       rel_error (frac_clk uClk mul add div divisor) baud < (baud * 3) div 100"
proof -
  define d where "d = div_outer uClk baud (map word_of_nat [1..<16]) divs0"
  have succ: "relativeOptimalError d < (baud * 3) div 100" and r:
      "U_DLM (u_regs h' u) = drop_bit 8 (diviserOptimal d) AND 0xFF" "U_DLL (u_regs h' u) = diviserOptimal d AND 0xFF"
      "U_FDR (u_regs h' u) = ((push_bit 4 (mulFracDivOptimal d) AND 0xF0) OR (dividerAddOptimal d AND 0x0F)) AND 0xFF"
    using assms(1) unfolding uart_set_divisors_def assms(3)[symmetric] Let_def d_def
    by (auto simp: u_upd_def split: if_splits simp del: upt.simps)
  have "divs_inv uClk baud d"
    unfolding d_def using words16(2) by (intro div_outer_inv) (simp_all add: divs_inv_def divs0_def del: upt.simps)
  moreover have "relativeOptimalError d < 100000" using succ assms(2) by simp
  ultimately have c: "cand_ok uClk baud d" by (simp add: divs_inv_def)
  then have "push_bit 8 (U_DLM (u_regs h' u)) OR U_DLL (u_regs h' u) = diviserOptimal d"
    "drop_bit 4 (U_FDR (u_regs h' u)) = mulFracDivOptimal d" "U_FDR (u_regs h' u) AND 0x0F = dividerAddOptimal d"
    by (simp_all only: r cand_ok_def join_bytes nibbles)
  then show ?thesis using succ c by (simp add: Let_def cand_ok_def)
qed

definition uart_hw0 :: uart_hw where
  "uart_hw0 = \<lparr>u_regs = (\<lambda>_. \<lparr>U_THR = [], U_DLL = 0, U_DLM = 0, U_IER = 0, U_FCR = 0, U_LCR = 0, U_ACR = 0,
       U_ICR = 0, U_FDR = 0, U_TER = 0, U_MCR = 0, U_RS485CTRL = 0, U_RS485DLY = 0, U_ADRMATCH = 0\<rparr>),
     u_sc = \<lparr>PCLKSEL0 = 0, PCLKSEL1 = 0, PCONP = 0\<rparr>, u_clk = 100000000, u_nvic = {}\<rparr>"

theorem uart_set_divisors_accuracy_example:
  "\<exists>h'. uart_set_divisors UART1 9600 uart_hw0 = Some (SUCCESS, h') \<and>
    2 < push_bit 8 (U_DLM (u_regs h' UART1)) OR U_DLL (u_regs h' UART1)"
proof -
  let ?r = "uart_set_divisors UART1 9600 uart_hw0"
  have "map_option fst ?r = Some SUCCESS" by code_simp
  then obtain h' where r: "?r = Some (SUCCESS, h')" by auto
  from uart_set_divisors_accuracy[OF r _ refl] r show ?thesis by (simp add: Let_def)
qed

section \<open>What is transmitted and received\<close>

lemma fold_UART_SendData:
  "u_regs (fold (UART_SendData u) bs h) v =
     (if v = u then (u_regs h u)\<lparr>U_THR := U_THR (u_regs h u) @ bs\<rparr> else u_regs h v)"
  by (induction bs arbitrary: h) (auto simp: UART_SendData_def u_upd_def)

lemma send_blocking_prefix:
  "send_blocking u lsr bs h = Some (n, h') \<Longrightarrow>
    n \<le> length bs \<and> U_THR (u_regs h' u) = U_THR (u_regs h u) @ take n bs"
proof (induction u lsr bs h arbitrary: n h' rule: send_blocking.induct)
  case (1 u lsr bs h)
  show ?case
  proof (cases "bs = []")
    case True
    then show ?thesis using 1(2) by (auto simp: send_blocking.simps[of u lsr])
  next
    case False
    with 1(2) obtain t lsr' where w: "wait_thre_to UART_BLOCKING_TIMEOUT lsr = Some (t, lsr')"
      by (auto simp: send_blocking.simps[of u lsr] split: bind_splits)
    show ?thesis
    proof (cases "t = 0")
      case True
      then show ?thesis using 1(2) False w by (auto simp: send_blocking.simps[of u lsr])
    next
      case t: False
      with 1(2) False w obtain k where k: "n = length (take 16 bs) + k"
        "send_blocking u lsr' (drop 16 bs) (fold (UART_SendData u) (take 16 bs) h) = Some (k, h')"
        by (auto simp: send_blocking.simps[of u lsr] split: bind_splits)
      from 1(1)[OF False w refl t k(2)] show ?thesis
        using k(1) by (auto simp: fold_UART_SendData take_add min_def split: if_splits)
    qed
  qed
qed

lemma send_nonblocking_prefix:
  "send_nonblocking u lsr bs h = Some (n, h') \<Longrightarrow>
    n \<le> length bs \<and> U_THR (u_regs h' u) = U_THR (u_regs h u) @ take n bs"
proof (induction u lsr bs h arbitrary: n h' rule: send_nonblocking.induct)
  case (1 u lsr bs h)
  show ?case
  proof (cases "bs = []")
    case True
    then show ?thesis using 1(2) by (auto simp: send_nonblocking.simps[of u lsr])
  next
    case False
    with 1(2) obtain l lsr' where w: "vread lsr = Some (l, lsr')"
      by (auto simp: send_nonblocking.simps[of u lsr] split: bind_splits)
    show ?thesis
    proof (cases "l AND UART_LSR_THRE = 0")
      case True
      then show ?thesis using 1(2) False w by (auto simp: send_nonblocking.simps[of u lsr])
    next
      case t: False
      with 1(2) False w obtain k where k: "n = length (take 16 bs) + k"
        "send_nonblocking u lsr' (drop 16 bs) (fold (UART_SendData u) (take 16 bs) h) = Some (k, h')"
        by (auto simp: send_nonblocking.simps[of u lsr] split: bind_splits)
      from 1(1)[OF False w refl t k(2)] show ?thesis
        using k(1) by (auto simp: fold_UART_SendData take_add min_def split: if_splits)
    qed
  qed
qed

lemma send_all:
  assumes "\<forall>l \<in> set lsr. l AND UART_LSR_THRE \<noteq> 0" "length bs \<le> 16 * length lsr"
  shows "(\<exists>h'. send_blocking u lsr bs h = Some (length bs, h')) \<and>
         (\<exists>h'. send_nonblocking u lsr bs h = Some (length bs, h'))"
  using assms
proof (induction lsr arbitrary: bs h)
  case Nil
  then show ?case by (simp add: send_blocking.simps send_nonblocking.simps)
next
  case (Cons l lsr)
  have ih: "(\<exists>h'. send_blocking u lsr (drop 16 bs) k = Some (length (drop 16 bs), h')) \<and>
         (\<exists>h'. send_nonblocking u lsr (drop 16 bs) k = Some (length (drop 16 bs), h'))" for k
    using Cons.prems by (intro Cons.IH) auto
  have l: "l AND UART_LSR_THRE \<noteq> 0" using Cons.prems by simp
  show ?case
    using ih[of "fold (UART_SendData u) (take 16 bs) h"] l
    by (auto simp: send_blocking.simps[of u "l # lsr"] send_nonblocking.simps[of u "l # lsr"])
qed

lemma UART_Send_prefix:
  assumes "UART_Send u txbuf buflen flag lsr h = Some (n, h')"
  shows "n \<le> buflen \<and> U_THR (u_regs h' u) = U_THR (u_regs h u) @ take n txbuf"
proof -
  from assms have l: "buflen \<le> length txbuf" by (auto simp: UART_Send_def split: if_splits)
  have "n \<le> length (take buflen txbuf) \<and> U_THR (u_regs h' u) = U_THR (u_regs h u) @ take n (take buflen txbuf)"
  proof (cases flag)
    case NONE_BLOCKING
    then show ?thesis using assms l send_nonblocking_prefix[of u lsr "take buflen txbuf" h n h'] by (simp add: UART_Send_def)
  next
    case BLOCKING
    then show ?thesis using assms l send_blocking_prefix[of u lsr "take buflen txbuf" h n h'] by (simp add: UART_Send_def)
  qed
  then show ?thesis using min_absorb2[OF l] by (auto simp: min_absorb1)
qed

text \<open>
  \<^verbatim>\<open>UART_Send\<close>, blocking or not, writes exactly the first \<^verbatim>\<open>buflen\<close> bytes of the buffer to
  the transmit register, in order, and returns \<^verbatim>\<open>buflen\<close>, whenever the transmit register is found
  empty each time it is looked at.
\<close>

lemma UART_Send_complete:
  assumes "buflen \<le> length txbuf" "\<forall>l \<in> set lsr. l AND UART_LSR_THRE \<noteq> 0" "buflen \<le> 16 * length lsr"
  shows "\<exists>h'. UART_Send u txbuf buflen flag lsr h = Some (buflen, h') \<and>
    U_THR (u_regs h' u) = U_THR (u_regs h u) @ take buflen txbuf"
proof -
  have "\<exists>h'. UART_Send u txbuf buflen flag lsr h = Some (buflen, h')"
    using send_all[OF assms(2), of "take buflen txbuf" u h] assms(1,3) min_absorb2[OF assms(1)]
    by (cases flag) (simp_all add: UART_Send_def)
  then show ?thesis using UART_Send_prefix by blast
qed

lemma UART_Send_complete_example:
  "\<exists>h'. UART_Send UART1 [1, 2, 3] 2 BLOCKING [0x20] uart_hw0 = Some (2, h') \<and> U_THR (u_regs h' UART1) = [1, 2]"
  using UART_Send_complete[of 2 "[1, 2, 3]" "[0x20]" UART1 BLOCKING uart_hw0] by (simp add: uart_hw0_def)

lemma recv_nonblocking_eq:
  "recv_nonblocking n (map Some ds @ None # ps) =
     Some (if length ds < n then (ds, ps) else (take n ds, map Some (drop n ds) @ None # ps))"
  by (induction n arbitrary: ds; case_tac ds) (auto simp: UART_ReceiveData_def)

end
