(* ===== verification/Ring.thy ===== *)
theory Ring
  imports Prelude
begin

text \<open>
  Index arithmetic of a ring buffer with \<open>N\<close> slots, a write index \<open>i\<close> and a read index
  \<open>out\<close>: the list of stored elements, and how a write at \<open>i\<close> and a read at \<open>out\<close> change it. Shared by
  the CAN receive queue and the UART receive queue.
\<close>

definition ring_next :: "nat \<Rightarrow> nat \<Rightarrow> nat" where
  "ring_next N i = (if Suc i = N then 0 else Suc i)"

definition ring_len :: "nat \<Rightarrow> nat \<Rightarrow> nat \<Rightarrow> nat" where
  "ring_len N i out = (if out \<le> i then i - out else i + N - out)"

definition ring_idx :: "nat \<Rightarrow> nat \<Rightarrow> nat \<Rightarrow> nat" where
  "ring_idx N out k = (if out + k < N then out + k else out + k - N)"

definition ring_list :: "nat \<Rightarrow> 'a list \<Rightarrow> nat \<Rightarrow> nat \<Rightarrow> 'a list" where
  "ring_list N buf i out = map (\<lambda>k. buf ! ring_idx N out k) [0..<ring_len N i out]"

lemma ring_next_mod: "i < N \<Longrightarrow> (i + 1) mod N = ring_next N i"
  by (auto simp: ring_next_def)

lemma ring_next_less [simp]: "i < N \<Longrightarrow> ring_next N i < N"
  by (auto simp: ring_next_def)

lemma ring_next_inj: "i < N \<Longrightarrow> j < N \<Longrightarrow> ring_next N i = ring_next N j \<longleftrightarrow> i = j"
  by (auto simp: ring_next_def)

lemma length_ring_list [simp]: "length (ring_list N buf i out) = ring_len N i out"
  by (simp add: ring_list_def)

lemma ring_len_less: "i < N \<Longrightarrow> out < N \<Longrightarrow> ring_len N i out < N"
  by (auto simp: ring_len_def)

lemma ring_list_Nil_iff: "i < N \<Longrightarrow> out < N \<Longrightarrow> ring_list N buf i out = [] \<longleftrightarrow> i = out"
  by (auto simp: ring_list_def ring_len_def)

lemma ring_len_put:
  "i < N \<Longrightarrow> out < N \<Longrightarrow> ring_next N i \<noteq> out \<Longrightarrow>
    ring_len N (ring_next N i) out = Suc (ring_len N i out)"
  by (auto simp: ring_len_def ring_next_def split: if_splits)

lemma ring_full_iff:
  "i < N \<Longrightarrow> out < N \<Longrightarrow> ring_len N i out = N - 1 \<longleftrightarrow> out = ring_next N i"
  by (auto simp: ring_len_def ring_next_def split: if_splits)

lemma ring_idx_len: "i < N \<Longrightarrow> out < N \<Longrightarrow> ring_idx N out (ring_len N i out) = i"
  by (auto simp: ring_len_def ring_idx_def)

lemma ring_idx_neq:
  "i < N \<Longrightarrow> out < N \<Longrightarrow> k < ring_len N i out \<Longrightarrow> ring_idx N out k \<noteq> i"
  by (auto simp: ring_len_def ring_idx_def split: if_splits)

lemma ring_list_put:
  assumes "i < N" "out < N" "N \<le> length buf" "ring_next N i \<noteq> out"
  shows "ring_list N (buf[i := x]) (ring_next N i) out = ring_list N buf i out @ [x]"
proof -
  have "map (\<lambda>k. buf[i := x] ! ring_idx N out k) [0..<ring_len N i out]
      = map (\<lambda>k. buf ! ring_idx N out k) [0..<ring_len N i out]"
    using ring_idx_neq[OF assms(1,2)] by (intro map_cong refl nth_list_update_neq) fastforce
  then show ?thesis
    using assms by (simp add: ring_list_def ring_len_put ring_idx_len)
qed

lemma ring_len_get:
  "i < N \<Longrightarrow> out < N \<Longrightarrow> i \<noteq> out \<Longrightarrow> ring_len N i out = Suc (ring_len N i (ring_next N out))"
  by (auto simp: ring_len_def ring_next_def split: if_splits)

lemma ring_idx_next: "out < N \<Longrightarrow> k < N \<Longrightarrow> ring_idx N (ring_next N out) k = ring_idx N out (Suc k)"
  by (auto simp: ring_idx_def ring_next_def)

lemma ring_list_get:
  assumes "i < N" "out < N" "i \<noteq> out"
  shows "ring_list N buf i out = buf ! out # ring_list N buf i (ring_next N out)"
proof -
  let ?n = "ring_len N i (ring_next N out)"
  have "?n < N" using assms by (simp add: ring_len_less)
  then have "map (\<lambda>k. buf ! ring_idx N out (Suc k)) [0..<?n] = ring_list N buf i (ring_next N out)"
    using assms by (auto simp: ring_list_def ring_idx_next)
  moreover have "[0..<ring_len N i out] = 0 # map Suc [0..<?n]"
    unfolding ring_len_get[OF assms] map_Suc_upt by (simp add: upt_conv_Cons)
  ultimately show ?thesis using assms by (simp add: ring_list_def[of N buf i out] ring_idx_def comp_def)
qed

end
