(* ===== verification/Interfaces.thy ===== *)
theory Interfaces
  imports Prelude
begin

text \<open>
  The contracts between the components, as locales. A provider interprets a locale on its own
  operations; a client uses the lemmas proved here once, through the interpretation:
  \<^item> \<open>codec\<close>: a fixed-width encoding of a value into an array of bytes and back (the data
    registers of the CAN controller, the 32-bit addresses of the XBee frames);
  \<^item> \<open>bounded_fifo\<close>: a ring buffer with put, get and emptiness test, seen as the list of its
    elements; \<open>dropping_fifo\<close> adds that a put on a full buffer changes nothing (the CAN receive
    queue; the UART receive queue provides the first contract only);
  \<^item> \<open>registry\<close>: a table of nodes with a limited number of entries, keyed by an address, to
    which nodes are added when they announce themselves (the CAN node table); \<open>slot_table\<close> is the
    table as an array of slots with a marker for the free ones, which gives a \<open>registry\<close> (the
    radio node table);
  \<^item> \<open>memory_pool\<close>: a pool of bytes from which blocks are allocated, written and released (the
    pool of the USB host stack, in which the pipe buffers live).
\<close>

section \<open>Fixed-width encodings\<close>

locale codec =
  fixes enc :: "'a \<Rightarrow> 'b list" and dec :: "'b list \<Rightarrow> 'a" and width :: nat
  assumes length_enc: "length (enc a) = width"
    and dec_enc: "dec (enc a) = a"
    and enc_dec: "length bs = width \<Longrightarrow> enc (dec bs) = bs"
begin

lemma enc_eq_iff: "enc a = enc b \<longleftrightarrow> a = b"
  using dec_enc by metis

lemma dec_eq_iff: "length bs = width \<Longrightarrow> length cs = width \<Longrightarrow> dec bs = dec cs \<longleftrightarrow> bs = cs"
  using enc_dec by metis

lemma dec_take_enc: "dec (take width (enc a @ rest)) = a"
  by (simp add: length_enc dec_enc)

lemma drop_enc: "drop width (enc a @ rest) = rest"
  by (simp add: length_enc)

lemma dec_second: "dec (take width (drop width (enc a @ enc b @ rest))) = b"
  by (simp add: length_enc dec_enc)

end

section \<open>Ring buffers\<close>

locale bounded_fifo =
  fixes put :: "'a \<Rightarrow> 's \<Rightarrow> 's" and get :: "'s \<Rightarrow> 'a option \<times> 's" and is_empty :: "'s \<Rightarrow> bool"
    and elems :: "'s \<Rightarrow> 'a list" and inv :: "'s \<Rightarrow> bool" and cap :: nat
  assumes put_elems: "inv s \<Longrightarrow> length (elems s) < cap \<Longrightarrow> elems (put x s) = elems s @ [x]"
    and put_inv: "inv s \<Longrightarrow> inv (put x s)"
    and get_Nil: "inv s \<Longrightarrow> elems s = [] \<Longrightarrow> get s = (None, s)"
    and get_Cons: "inv s \<Longrightarrow> elems s = x # xs \<Longrightarrow> fst (get s) = Some x \<and> elems (snd (get s)) = xs"
    and get_inv: "inv s \<Longrightarrow> inv (snd (get s))"
    and empty_iff: "inv s \<Longrightarrow> is_empty s \<longleftrightarrow> elems s = []"
    and elems_cap: "inv s \<Longrightarrow> length (elems s) \<le> cap"
begin

fun get_n :: "nat \<Rightarrow> 's \<Rightarrow> 'a list \<times> 's" where
  "get_n 0 s = ([], s)"
| "get_n (Suc n) s = (case get s of
     (None, s') \<Rightarrow> ([], s')
   | (Some x, s') \<Rightarrow> (case get_n n s' of (xs, s'') \<Rightarrow> (x # xs, s'')))"

lemma fold_put_elems:
  "inv s \<Longrightarrow> length (elems s) + length xs \<le> cap \<Longrightarrow>
    elems (fold put xs s) = elems s @ xs \<and> inv (fold put xs s)"
  by (induction xs arbitrary: s) (auto simp: put_elems put_inv)

lemma get_n_elems:
  "inv s \<Longrightarrow> elems s = xs @ ys \<Longrightarrow>
    fst (get_n (length xs) s) = xs \<and> elems (snd (get_n (length xs) s)) = ys"
proof (induction xs arbitrary: s)
  case Nil
  then show ?case by simp
next
  case (Cons x xs)
  obtain s' where g: "get s = (Some x, s')" and e: "elems s' = xs @ ys"
    using get_Cons[OF Cons.prems(1), of x "xs @ ys"] Cons.prems(2) by (cases "get s") auto
  have "inv s'" using get_inv[OF Cons.prems(1)] g by simp
  from Cons.IH[OF this e] show ?case using g by (auto split: prod.splits)
qed

lemma fifo_order:
  assumes "inv s" "elems s = []" "length xs \<le> cap"
  shows "fst (get_n (length xs) (fold put xs s)) = xs"
proof -
  from fold_put_elems[of s xs] assms have "elems (fold put xs s) = xs @ []" "inv (fold put xs s)"
    by auto
  then show ?thesis using get_n_elems by blast
qed

end

locale dropping_fifo = bounded_fifo +
  assumes put_full: "inv s \<Longrightarrow> length (elems s) = cap \<Longrightarrow> put x s = s"
begin

lemma fold_put_take:
  "inv s \<Longrightarrow> elems (fold put xs s) = take cap (elems s @ xs)"
proof (induction xs arbitrary: s)
  case Nil
  then show ?case using elems_cap by simp
next
  case (Cons x xs)
  show ?case
  proof (cases "length (elems s) < cap")
    case True
    then show ?thesis using Cons put_elems put_inv by (simp add: take_Cons')
  next
    case False
    then have full: "length (elems s) = cap" using elems_cap[OF Cons.prems] by simp
    then show ?thesis using Cons put_full by simp
  qed
qed

end

section \<open>Node tables\<close>

locale registry =
  fixes add :: "'a \<Rightarrow> 's \<Rightarrow> 's" and key :: "'a \<Rightarrow> 'k" and keys :: "'s \<Rightarrow> 'k list"
    and inv :: "'s \<Rightarrow> bool" and ok :: "'a \<Rightarrow> bool" and cap :: nat
  assumes keys_distinct: "inv s \<Longrightarrow> distinct (keys s)"
    and keys_cap: "inv s \<Longrightarrow> length (keys s) \<le> cap"
    and add_inv: "inv s \<Longrightarrow> ok a \<Longrightarrow> inv (add a s)"
    and add_known: "inv s \<Longrightarrow> ok a \<Longrightarrow> key a \<in> set (keys s) \<Longrightarrow> keys (add a s) = keys s"
    and add_new: "inv s \<Longrightarrow> ok a \<Longrightarrow> key a \<notin> set (keys s) \<Longrightarrow> length (keys s) < cap \<Longrightarrow>
          set (keys (add a s)) = insert (key a) (set (keys s))"
    and add_full: "inv s \<Longrightarrow> ok a \<Longrightarrow> key a \<notin> set (keys s) \<Longrightarrow> length (keys s) = cap \<Longrightarrow>
          keys (add a s) = keys s"
begin

lemma add_cases:
  assumes "inv s" "ok a"
  shows "set (keys (add a s)) = set (keys s) \<or> set (keys (add a s)) = insert (key a) (set (keys s))"
  using add_known[OF assms] add_new[OF assms] add_full[OF assms] keys_cap[OF assms(1)]
  by (cases "key a \<in> set (keys s)"; cases "length (keys s) = cap") auto

lemma fold_add_inv: "inv s \<Longrightarrow> list_all ok as \<Longrightarrow> inv (fold add as s)"
  by (induction as arbitrary: s) (auto intro: add_inv)

lemma fold_add_mono: "inv s \<Longrightarrow> list_all ok as \<Longrightarrow> set (keys s) \<subseteq> set (keys (fold add as s))"
proof (induction as arbitrary: s)
  case Nil
  then show ?case by simp
next
  case (Cons a as)
  then have "set (keys s) \<subseteq> set (keys (add a s))" using add_cases[of s a] by auto
  also have "\<dots> \<subseteq> set (keys (fold add as (add a s)))"
    using Cons by (intro Cons.IH) (auto intro: add_inv)
  finally show ?case by simp
qed

lemma fold_add_keys:
  assumes "inv s" "list_all ok as" "card (set (keys s) \<union> key ` set as) \<le> cap"
  shows "set (keys (fold add as s)) = set (keys s) \<union> key ` set as"
  using assms
proof (induction as arbitrary: s)
  case Nil
  then show ?case by simp
next
  case (Cons a as)
  have ok: "ok a" and oks: "list_all ok as" using Cons.prems(2) by auto
  have "set (keys (add a s)) = insert (key a) (set (keys s))"
  proof (cases "key a \<in> set (keys s)")
    case True
    then show ?thesis using add_known[OF Cons.prems(1) ok] by auto
  next
    case False
    have "length (keys s) = card (set (keys s))"
      using keys_distinct[OF Cons.prems(1)] by (simp add: distinct_card)
    also have "\<dots> < card (set (keys s) \<union> key ` set (a # as))"
      using False by (intro psubset_card_mono) auto
    finally have "length (keys s) < cap" using Cons.prems(3) by simp
    then show ?thesis using add_new[OF Cons.prems(1) ok False] by simp
  qed
  then show ?case
    using Cons.IH[OF add_inv[OF Cons.prems(1) ok] oks] Cons.prems(3) by simp
qed

end

locale slot_table =
  fixes add :: "'a \<Rightarrow> 's \<Rightarrow> 's" and key :: "'a \<Rightarrow> 'k" and slots :: "'s \<Rightarrow> 'k list"
    and inv :: "'s \<Rightarrow> bool" and ok :: "'a \<Rightarrow> bool" and free :: 'k and cap :: nat
  assumes slots_length: "inv s \<Longrightarrow> length (slots s) = cap"
    and slots_distinct: "inv s \<Longrightarrow> distinct (filter (\<lambda>k. k \<noteq> free) (slots s))"
    and key_used: "ok a \<Longrightarrow> key a \<noteq> free"
    and add_same: "inv s \<Longrightarrow> ok a \<Longrightarrow> key a \<in> set (slots s) \<or> free \<notin> set (slots s) \<Longrightarrow>
          slots (add a s) = slots s"
    and add_slot: "inv s \<Longrightarrow> ok a \<Longrightarrow> key a \<notin> set (slots s) \<Longrightarrow> free \<in> set (slots s) \<Longrightarrow>
          \<exists>i < cap. slots s ! i = free \<and> slots (add a s) = (slots s)[i := key a]"
    and add_keeps: "inv s \<Longrightarrow> ok a \<Longrightarrow> distinct (filter (\<lambda>k. k \<noteq> free) (slots (add a s))) \<Longrightarrow> inv (add a s)"

sublocale slot_table \<subseteq> registry add key "\<lambda>s. filter (\<lambda>k. k \<noteq> free) (slots s)" inv ok cap
proof
  fix s a
  let ?keys = "\<lambda>s. filter (\<lambda>k. k \<noteq> free) (slots s)"
  assume inv: "inv s"
  show "distinct (?keys s)" by (rule slots_distinct[OF inv])
  show "length (?keys s) \<le> cap" using length_filter_le[of "\<lambda>k. k \<noteq> free" "slots s"] slots_length[OF inv] by simp
  assume ok: "ok a"
  have full: "length (?keys s) = cap \<longleftrightarrow> free \<notin> set (slots s)"
    using filter_ne0_full_iff[of free "slots s"] slots_length[OF inv] by simp
  have fresh: "set (?keys (add a s)) = insert (key a) (set (?keys s)) \<and> distinct (?keys (add a s))"
    if new: "key a \<notin> set (slots s)" and fr: "free \<in> set (slots s)"
  proof -
    obtain i where i: "i < cap" "slots s ! i = free" "slots (add a s) = (slots s)[i := key a]"
      using add_slot[OF inv ok new fr] by blast
    have "i < length (slots s)" using i(1) slots_length[OF inv] by simp
    then show ?thesis
      unfolding i(3) using filter_update_fresh[OF _ i(2) key_used[OF ok]] new slots_distinct[OF inv] by blast
  qed
  have same: "slots (add a s) = slots s" if "key a \<in> set (slots s) \<or> free \<notin> set (slots s)"
    using add_same[OF inv ok that] .
  have "distinct (?keys (add a s))" using fresh same slots_distinct[OF inv] by metis
  then show "inv (add a s)" by (rule add_keeps[OF inv ok])
  show "?keys (add a s) = ?keys s" if "key a \<in> set (?keys s)" using same that by simp
  show "set (?keys (add a s)) = insert (key a) (set (?keys s))"
    if "key a \<notin> set (?keys s)" "length (?keys s) < cap"
    using fresh that full key_used[OF ok] by auto
  show "?keys (add a s) = ?keys s" if "key a \<notin> set (?keys s)" "length (?keys s) = cap"
    using same that full by simp
qed

section \<open>Memory pools\<close>

text \<open>
  A pool of bytes from which clients allocate blocks: \<open>owns m p ds\<close> tells that an allocated block
  with contents \<open>ds\<close> starts at offset \<open>p\<close>. An allocation yields a block no one owned and leaves
  the contents of all others alone; so does a write inside a block, and a release.
\<close>

locale memory_pool =
  fixes alloc :: "u32 \<Rightarrow> u8 list \<Rightarrow> (nat option \<times> u8 list) option"
    and free :: "nat option \<Rightarrow> u8 list \<Rightarrow> u8 list option"
    and ok :: "u8 list \<Rightarrow> bool" and owns :: "u8 list \<Rightarrow> nat \<Rightarrow> u8 list \<Rightarrow> bool"
  assumes alloc_total: "ok m \<Longrightarrow> unat s \<le> 2 ^ 31 \<Longrightarrow> \<exists>r m'. alloc s m = Some (r, m')"
    and alloc_fail: "ok m \<Longrightarrow> unat s \<le> 2 ^ 31 \<Longrightarrow> alloc s m = Some (None, m') \<Longrightarrow> m' = m"
    and alloc_new: "ok m \<Longrightarrow> unat s \<le> 2 ^ 31 \<Longrightarrow> alloc s m = Some (Some p, m') \<Longrightarrow>
          ok m' \<and> (\<exists>ds. owns m' p ds \<and> unat s \<le> length ds)"
    and alloc_keeps: "ok m \<Longrightarrow> unat s \<le> 2 ^ 31 \<Longrightarrow> alloc s m = Some (Some p, m') \<Longrightarrow> owns m q es \<Longrightarrow>
          q \<noteq> p \<and> owns m' q es"
    and free_null: "free None m = Some m"
    and free_owned: "ok m \<Longrightarrow> owns m p ds \<Longrightarrow> \<exists>m'. free (Some p) m = Some m' \<and> ok m' \<and>
          (\<forall>q es. q \<noteq> p \<longrightarrow> owns m q es \<longrightarrow> owns m' q es)"
    and write_owned: "ok m \<Longrightarrow> owns m p ds \<Longrightarrow> i < length ds \<Longrightarrow>
          ok (m[p + i := v]) \<and> owns (m[p + i := v]) p (ds[i := v]) \<and>
          (\<forall>q es. q \<noteq> p \<longrightarrow> owns m q es \<longrightarrow> owns (m[p + i := v]) q es)"
    and owns_nth: "owns m p ds \<Longrightarrow> i < length ds \<Longrightarrow> p + i < length m \<and> m ! (p + i) = ds ! i"
begin

lemma owns_unique: "owns m p ds \<Longrightarrow> owns m p es \<Longrightarrow> length ds = length es \<Longrightarrow> ds = es"
  by (rule nth_equalityI) (simp_all add: owns_nth [THEN conjunct2, symmetric])

text \<open>Storing a list of bytes from the start of an owned block.\<close>

fun store :: "nat \<Rightarrow> u8 list \<Rightarrow> u8 list \<Rightarrow> u8 list" where
  "store p [] m = m"
| "store p (b # bs) m = store (p + 1) bs (m[p := b])"

lemma store_owned:
  assumes "ok m" "owns m p ds" "k + length bs \<le> length ds"
  shows "ok (store (p + k) bs m) \<and> owns (store (p + k) bs m) p (take k ds @ bs @ drop (k + length bs) ds) \<and>
    (\<forall>q es. q \<noteq> p \<longrightarrow> owns m q es \<longrightarrow> owns (store (p + k) bs m) q es)"
  using assms
proof (induction bs arbitrary: k m ds)
  case Nil
  then show ?case by simp
next
  case (Cons b bs)
  have w: "ok (m[p + k := b])" "owns (m[p + k := b]) p (ds[k := b])"
      "\<And>q es. q \<noteq> p \<Longrightarrow> owns m q es \<Longrightarrow> owns (m[p + k := b]) q es"
    using write_owned[of m p ds k b] Cons.prems by auto
  have "take (Suc k) (ds[k := b]) @ bs @ drop (Suc k + length bs) (ds[k := b]) =
      take k ds @ (b # bs) @ drop (k + length (b # bs)) ds"
    using Cons.prems(3) by (simp add: take_Suc_conv_app_nth)
  then show ?case using Cons.IH[OF w(1,2), of "Suc k"] Cons.prems(3) w(3) by simp
qed

end

end
