(* ===== verification/Pins.thy ===== *)
theory Pins
  imports Prelude
begin

unbundle bit_operations_syntax

text \<open>
  Pin multiplexing: \<^verbatim>\<open>Lib_MCU/src/lpc17xx_pinsel.c\<close> and the pin configuration routines of
  \<^verbatim>\<open>Lib_Board/src/board.c\<close>. The register arrays are indexed by pointer arithmetic, so an index
  outside the array is \<^const>\<open>None\<close>. The board code leaves the fields \<^verbatim>\<open>Pinmode\<close> and
  \<^verbatim>\<open>OpenDrain\<close> of its stack variable uninitialised in most places; their values are then the
  arguments \<open>pm\<close> and \<open>od\<close>.
\<close>

record LPC_PINCON_TypeDef =
  PINSEL :: "u32 list"
  PINMODE :: "u32 list"
  PINMODE_OD :: "u32 list"
  I2CPADCFG :: u32

record PINSEL_CFG_Type =
  Portnum :: u8
  Pinnum :: u8
  Funcnum :: u8
  Pinmode :: u8
  OpenDrain :: u8

text \<open>Clear and set a two-bit field, as both \<^verbatim>\<open>PINSEL_SetPinFunc\<close> and
  \<^verbatim>\<open>PINSEL_SetResistorMode\<close> do.\<close>

definition set_field :: "nat \<Rightarrow> u8 \<Rightarrow> u32 \<Rightarrow> u32" where
  "set_field p v w = (w AND NOT (push_bit (p * 2) 3)) OR push_bit (p * 2) (ucast v)"

definition reg_pos :: "u8 \<Rightarrow> u8 \<Rightarrow> nat \<times> nat" where
  "reg_pos portnum pinnum =
     (if unat pinnum \<ge> 16 then (2 * unat portnum + 1, unat pinnum - 16)
      else (2 * unat portnum, unat pinnum))"

text \<open>A shift by 32 and more (a pin number of 32 and more) has no defined result: \<^const>\<open>None\<close>.\<close>

definition PINSEL_SetPinFunc ::
  "u8 \<Rightarrow> u8 \<Rightarrow> u8 \<Rightarrow> LPC_PINCON_TypeDef \<Rightarrow> LPC_PINCON_TypeDef option" where
  "PINSEL_SetPinFunc portnum pinnum funcnum pc = (case reg_pos portnum pinnum of (idx, p) \<Rightarrow>
     if p \<ge> 16 then None
     else do {
       w \<leftarrow> rd (PINSEL pc) idx;
       ws \<leftarrow> wr (PINSEL pc) idx (set_field p funcnum w);
       Some (pc\<lparr>PINSEL := ws\<rparr>)
     })"

definition PINSEL_ConfigTraceFunc :: "FunctionalState \<Rightarrow> LPC_PINCON_TypeDef \<Rightarrow> LPC_PINCON_TypeDef option" where
  "PINSEL_ConfigTraceFunc st pc = do {
     w \<leftarrow> rd (PINSEL pc) 10;
     ws \<leftarrow> wr (PINSEL pc) 10 (if st = ENABLE then w OR push_bit 3 1 else w AND NOT (push_bit 3 1));
     Some (pc\<lparr>PINSEL := ws\<rparr>)
   }"

definition PINSEL_SetResistorMode ::
  "u8 \<Rightarrow> u8 \<Rightarrow> u8 \<Rightarrow> LPC_PINCON_TypeDef \<Rightarrow> LPC_PINCON_TypeDef option" where
  "PINSEL_SetResistorMode portnum pinnum modenum pc = (case reg_pos portnum pinnum of (idx, p) \<Rightarrow>
     if p \<ge> 16 then None
     else do {
       w \<leftarrow> rd (PINMODE pc) idx;
       ws \<leftarrow> wr (PINMODE pc) idx (set_field p modenum w);
       Some (pc\<lparr>PINMODE := ws\<rparr>)
     })"

abbreviation (input) PINSEL_PINMODE_OPENDRAIN :: u8 where "PINSEL_PINMODE_OPENDRAIN \<equiv> 1"

definition PINSEL_SetOpenDrainMode ::
  "u8 \<Rightarrow> u8 \<Rightarrow> u8 \<Rightarrow> LPC_PINCON_TypeDef \<Rightarrow> LPC_PINCON_TypeDef option" where
  "PINSEL_SetOpenDrainMode portnum pinnum modenum pc =
     (if unat pinnum \<ge> 32 then None
      else do {
        w \<leftarrow> rd (PINMODE_OD pc) (unat portnum);
        ws \<leftarrow> wr (PINMODE_OD pc) (unat portnum)
               (if modenum = PINSEL_PINMODE_OPENDRAIN then w OR push_bit (unat pinnum) 1
                else w AND NOT (push_bit (unat pinnum) 1));
        Some (pc\<lparr>PINMODE_OD := ws\<rparr>)
      })"

abbreviation (input) PINSEL_I2C_Fast_Mode :: u8 where "PINSEL_I2C_Fast_Mode \<equiv> 1"

text \<open>\<^verbatim>\<open>regVal\<close> is assigned on two conditions only; \<open>garbage\<close> is its value otherwise.\<close>

definition PINSEL_SetI2C0Pins ::
  "u8 \<Rightarrow> FunctionalState \<Rightarrow> u32 \<Rightarrow> LPC_PINCON_TypeDef \<Rightarrow> LPC_PINCON_TypeDef" where
  "PINSEL_SetI2C0Pins i2cPinMode filterSlewRateEnable garbage pc =
     pc\<lparr>I2CPADCFG :=
       (if filterSlewRateEnable = DISABLE then 0x02 OR 0x08
        else if i2cPinMode = PINSEL_I2C_Fast_Mode then 0x01 OR 0x04
        else garbage)\<rparr>"

definition PINSEL_ConfigPin :: "PINSEL_CFG_Type \<Rightarrow> LPC_PINCON_TypeDef \<Rightarrow> LPC_PINCON_TypeDef option" where
  "PINSEL_ConfigPin cfg pc = do {
     pc1 \<leftarrow> PINSEL_SetPinFunc (Portnum cfg) (Pinnum cfg) (Funcnum cfg) pc;
     pc2 \<leftarrow> PINSEL_SetResistorMode (Portnum cfg) (Pinnum cfg) (Pinmode cfg) pc1;
     PINSEL_SetOpenDrainMode (Portnum cfg) (Pinnum cfg) (OpenDrain cfg) pc2
   }"

text \<open>The same configuration on several pins of one port, in order.\<close>

fun config_pins :: "PINSEL_CFG_Type \<Rightarrow> u8 list \<Rightarrow> LPC_PINCON_TypeDef \<Rightarrow> LPC_PINCON_TypeDef option" where
  "config_pins cfg [] pc = Some pc"
| "config_pins cfg (p # ps) pc = do {
     pc' \<leftarrow> PINSEL_ConfigPin (cfg\<lparr>Pinnum := p\<rparr>) pc;
     config_pins cfg ps pc'
   }"

definition can1_pinConfig :: "u8 \<Rightarrow> u8 \<Rightarrow> LPC_PINCON_TypeDef \<Rightarrow> LPC_PINCON_TypeDef option" where
  "can1_pinConfig pm od = config_pins
     \<lparr>Portnum = 0, Pinnum = 0, Funcnum = 1, Pinmode = pm, OpenDrain = od\<rparr> [0, 1]"

definition can2_pinConfig :: "u8 \<Rightarrow> u8 \<Rightarrow> LPC_PINCON_TypeDef \<Rightarrow> LPC_PINCON_TypeDef option" where
  "can2_pinConfig pm od = config_pins
     \<lparr>Portnum = 2, Pinnum = 7, Funcnum = 1, Pinmode = pm, OpenDrain = od\<rparr> [7, 8]"

definition emac_pinConfig :: "LPC_PINCON_TypeDef \<Rightarrow> LPC_PINCON_TypeDef option" where
  "emac_pinConfig = config_pins
     \<lparr>Portnum = 1, Pinnum = 0, Funcnum = 1, Pinmode = 0, OpenDrain = 0\<rparr>
     [0, 1, 4, 8, 9, 10, 14, 15, 16, 17]"

section \<open>Effect of the pin configuration\<close>

definition pincon_wf :: "LPC_PINCON_TypeDef \<Rightarrow> bool" where
  "pincon_wf pc \<longleftrightarrow> length (PINSEL pc) = 11 \<and> length (PINMODE pc) = 10 \<and> length (PINMODE_OD pc) = 5"

text \<open>The function selected for a pin.\<close>

definition pin_func :: "LPC_PINCON_TypeDef \<Rightarrow> u8 \<Rightarrow> u8 \<Rightarrow> u8" where
  "pin_func pc portnum pinnum = (case reg_pos portnum pinnum of (idx, p) \<Rightarrow>
     ucast (drop_bit (2 * p) (PINSEL pc ! idx) AND 3))"

lemma field_get_set:
  assumes "p < 16" "q < 16" "v < 4"
  shows "(ucast (drop_bit (2 * q) (set_field p v w) AND 3) :: u8) =
    (if p = q then v else ucast (drop_bit (2 * q) w AND 3))"
proof (rule bit_word_eqI)
  have m3: "(3 :: u32) = mask 2" by (simp add: mask_eq_exp_minus_1)
  have v: "bit v n \<Longrightarrow> n < 2" for n
    using less_mask_eq[of v 2] assms(3) bit_and_iff[of v "mask 2" n] by (simp add: bit_mask_iff)
  fix n assume "n < LENGTH(8)"
  then show "bit (ucast (drop_bit (2 * q) (set_field p v w) AND 3) :: u8) n =
    bit (if p = q then v else ucast (drop_bit (2 * q) w AND 3)) n"
    using assms v unfolding set_field_def m3
    by (auto simp: bit_simps not_le mult.commute dest: v)
qed

lemma PINSEL_SetPinFunc_eq:
  assumes "pincon_wf pc" "portnum < 5" "pinnum < 32"
  obtains idx p where "reg_pos portnum pinnum = (idx, p)" "idx < 10" "p < 16"
    "PINSEL_SetPinFunc portnum pinnum v pc =
      Some (pc\<lparr>PINSEL := (PINSEL pc)[idx := set_field p v (PINSEL pc ! idx)]\<rparr>)"
proof -
  have u: "unat portnum < 5" "unat pinnum < 32" using assms by (simp_all add: word_less_nat_alt)
  obtain idx p where r: "reg_pos portnum pinnum = (idx, p)" by (cases "reg_pos portnum pinnum")
  then have "idx < 10" "p < 16" using u by (auto simp: reg_pos_def split: if_splits)
  then show thesis using that r assms(1) by (auto simp: PINSEL_SetPinFunc_def pincon_wf_def)
qed

lemma reg_pos_inj:
  "pin < 32 \<Longrightarrow> pin' < 32 \<Longrightarrow> reg_pos port pin = reg_pos port' pin' \<longleftrightarrow> port = port' \<and> pin = pin'"
  unfolding unat_u8_eq_iff[symmetric] word_less_nat_alt
  by (auto simp: reg_pos_def simp del: unat_u8_eq_iff split: if_splits) presburger+

text \<open>
  \<^verbatim>\<open>PINSEL_SetPinFunc\<close> selects the function of the given pin and leaves the function of
  every other pin of the five ports as it was.
\<close>

lemma PINSEL_SetPinFunc_frame:
  assumes "pincon_wf pc" "portnum < 5" "pinnum < 32" "v < 4" "port' < 5" "pin' < 32"
  shows "\<exists>pc'. PINSEL_SetPinFunc portnum pinnum v pc = Some pc' \<and> pincon_wf pc' \<and>
    pin_func pc' port' pin' = (if port' = portnum \<and> pin' = pinnum then v else pin_func pc port' pin')"
proof -
  obtain idx p where r: "reg_pos portnum pinnum = (idx, p)" "idx < 10" "p < 16"
    and e: "PINSEL_SetPinFunc portnum pinnum v pc =
      Some (pc\<lparr>PINSEL := (PINSEL pc)[idx := set_field p v (PINSEL pc ! idx)]\<rparr>)"
    using PINSEL_SetPinFunc_eq[OF assms(1-3)] by metis
  obtain jdx q where r': "reg_pos port' pin' = (jdx, q)" "jdx < 10" "q < 16"
    using PINSEL_SetPinFunc_eq[OF assms(1,5,6)] by metis
  have same: "idx = jdx \<and> p = q \<longleftrightarrow> port' = portnum \<and> pin' = pinnum"
    using reg_pos_inj[OF assms(6,3), of port' portnum] r r' by auto
  let ?pc = "pc\<lparr>PINSEL := (PINSEL pc)[idx := set_field p v (PINSEL pc ! idx)]\<rparr>"
  have "pin_func ?pc port' pin' = (if idx = jdx \<and> p = q then v else pin_func pc port' pin')"
    using r r' assms(1,4) by (auto simp: pin_func_def field_get_set pincon_wf_def nth_list_update)
  then show ?thesis using e assms(1) unfolding same by (auto simp: pincon_wf_def)
qed

definition pincon0 :: LPC_PINCON_TypeDef where
  "pincon0 = \<lparr>PINSEL = replicate 11 0, PINMODE = replicate 10 0, PINMODE_OD = replicate 5 0, I2CPADCFG = 0\<rparr>"

lemma PINSEL_SetPinFunc_frame_example:
  "\<exists>pc'. PINSEL_SetPinFunc 0 1 1 pincon0 = Some pc' \<and> pincon_wf pc' \<and> pin_func pc' 0 1 = 1"
proof -
  have "pincon_wf pincon0" by code_simp
  from PINSEL_SetPinFunc_frame[OF this, of 0 1 1 0 1] show ?thesis by simp
qed

end
