(* ===== verification/BoardUart.thy ===== *)
theory BoardUart
  imports UartDriver Ring Interfaces Pins
begin

unbundle bit_operations_syntax

text \<open>
  The radio UART of \<^verbatim>\<open>Lib_Board/src/board.c\<close>: the receive queue \<^verbatim>\<open>rxq\<close>, filled by the receive
  call-back in interrupt context and read by the XBee driver, and the send functions. The buffer has
  512 bytes, the indices are \<^verbatim>\<open>uint8_t\<close> and are reduced modulo 512 in \<^verbatim>\<open>int\<close> arithmetic before
  they are stored back to 8 bits.
\<close>

record rxq_state =
  rxqIn :: u8
  rxqOut :: u8
  rxq :: "u8 list"

definition rxq_state0 :: rxq_state where
  "rxq_state0 = \<lparr>rxqIn = 0, rxqOut = 0, rxq = replicate 512 0\<rparr>"

abbreviation (input) RX_BUF_SIZE :: nat where "RX_BUF_SIZE \<equiv> 512"

definition rxq_put :: "u8 \<Rightarrow> rxq_state \<Rightarrow> rxq_state" where
  "rxq_put data q =
     (if unat (rxqOut q) = (unat (rxqIn q) + 1) mod RX_BUF_SIZE then q
      else q\<lparr>rxq := (rxq q)[unat (rxqIn q) := data],
             rxqIn := word_of_nat ((unat (rxqIn q) + 1) mod RX_BUF_SIZE)\<rparr>)"

definition rxq_get :: "rxq_state \<Rightarrow> u8 \<times> rxq_state" where
  "rxq_get q =
     (if rxqIn q = rxqOut q then (0, q)
      else (rxq q ! unat (rxqOut q), q\<lparr>rxqOut := word_of_nat ((unat (rxqOut q) + 1) mod RX_BUF_SIZE)\<rparr>))"

definition rxq_isEmpty :: "rxq_state \<Rightarrow> bool" where
  "rxq_isEmpty q \<longleftrightarrow> rxqIn q = rxqOut q"

text \<open>
  The receive call-back reads one byte at a time without blocking until a read finds none; a list
  of polls that ends before that is \<^const>\<open>None\<close>.
\<close>

fun rf_uartRecvCb :: "u8 option list \<Rightarrow> rxq_state \<Rightarrow> (u8 option list \<times> rxq_state) option" where
  "rf_uartRecvCb [] q = None"
| "rf_uartRecvCb (p # ps) q = (case UART_Receive 1 NONE_BLOCKING [p] of
       None \<Rightarrow> None
     | Some (ds, _) \<Rightarrow> (case ds of [] \<Rightarrow> Some (ps, q) | d # _ \<Rightarrow> rf_uartRecvCb ps (rxq_put d q)))"

definition rf_uart_send ::
  "u8 list \<Rightarrow> nat \<Rightarrow> TRANSFER_BLOCK_Type \<Rightarrow> u8 list \<Rightarrow> uart_hw \<Rightarrow> (nat \<times> uart_hw) option" where
  "rf_uart_send txbuf buflen flag lsr h = UART_Send UART1 txbuf buflen flag lsr h"

definition rf_uart_sendString :: "u8 list \<Rightarrow> u8 list \<Rightarrow> uart_hw \<Rightarrow> (nat \<times> uart_hw) option" where
  "rf_uart_sendString str lsr h = UART_SendString UART1 str lsr h"

text \<open>The loop of \<^verbatim>\<open>rf_uart_receive\<close>: the bytes stored to the buffer; their number is returned.\<close>

fun rf_uart_receive :: "nat \<Rightarrow> rxq_state \<Rightarrow> u8 list \<times> rxq_state" where
  "rf_uart_receive 0 q = ([], q)"
| "rf_uart_receive (Suc n) q =
     (if rxq_isEmpty q then ([], q)
      else case rxq_get q of (d, q') \<Rightarrow>
             (case rf_uart_receive n q' of (ds, q'') \<Rightarrow> (d # ds, q'')))"

definition rf_uart_recvIsEmpty :: "rxq_state \<Rightarrow> bool" where
  "rf_uart_recvIsEmpty q = rxq_isEmpty q"

section \<open>Initialisation and interrupt handler\<close>

text \<open>
  The world of the UART call-backs is the hardware, the polls the receive register will answer, and
  the queue.
\<close>

type_synonym rf_world = "uart_hw \<times> (u8 option list \<times> rxq_state)"

definition rf_cb :: "rf_world \<Rightarrow> rf_world option" where
  "rf_cb w = (case w of (h, ps, q) \<Rightarrow>
     (case rf_uartRecvCb ps q of None \<Rightarrow> None | Some (ps', q') \<Rightarrow> Some (h, ps', q')))"

abbreviation (input) UART1_IRQn :: nat where "UART1_IRQn \<equiv> 6"

definition console_init ::
  "u8 \<Rightarrow> u8 \<Rightarrow> u8 list \<Rightarrow> LPC_PINCON_TypeDef \<Rightarrow> uart_hw \<Rightarrow> (LPC_PINCON_TypeDef \<times> uart_hw) option" where
  "console_init pm od lsr pc h = do {
     pc' \<leftarrow> config_pins \<lparr>Portnum = 0, Pinnum = 2, Funcnum = 1, Pinmode = pm, OpenDrain = od\<rparr> [2, 3] pc;
     h' \<leftarrow> UART_Init UART0 \<lparr>Baud_rate = 115200, Parity = UART_PARITY_NONE, Databits = UART_DATABIT_8,
            Stopbits = UART_STOPBIT_1\<rparr> lsr h;
     Some (pc', UART_TxCmd UART0 ENABLE h')
   }"

definition console_send ::
  "u8 list \<Rightarrow> nat \<Rightarrow> TRANSFER_BLOCK_Type \<Rightarrow> u8 list \<Rightarrow> uart_hw \<Rightarrow> (nat \<times> uart_hw) option" where
  "console_send txbuf buflen flag lsr h = UART_Send UART0 txbuf buflen flag lsr h"

definition console_sendString :: "u8 list \<Rightarrow> u8 list \<Rightarrow> uart_hw \<Rightarrow> (nat \<times> uart_hw) option" where
  "console_sendString str lsr h = UART_SendString UART0 str lsr h"

definition console_receive ::
  "nat \<Rightarrow> TRANSFER_BLOCK_Type \<Rightarrow> u8 option list \<Rightarrow> (u8 list \<times> u8 option list) option" where
  "console_receive buflen flag ps = UART_Receive buflen flag ps"

definition rf_uart_init ::
  "u8 \<Rightarrow> u8 \<Rightarrow> u8 list \<Rightarrow> LPC_PINCON_TypeDef \<Rightarrow> rf_world uart_cb_state \<Rightarrow> uart_hw
    \<Rightarrow> (LPC_PINCON_TypeDef \<times> rf_world uart_cb_state \<times> uart_hw) option" where
  "rf_uart_init pm od lsr pc cs h = do {
     pc' \<leftarrow> config_pins \<lparr>Portnum = 0, Pinnum = 15, Funcnum = 1, Pinmode = pm, OpenDrain = od\<rparr> [15, 16] pc;
     h1 \<leftarrow> UART_Init UART1 \<lparr>Baud_rate = 9600, Parity = UART_PARITY_NONE, Databits = UART_DATABIT_8,
             Stopbits = UART_STOPBIT_1\<rparr> lsr h;
     let cs' = UART_SetupCbs UART1 0 (Some rf_cb) cs;
     let h2 = UART_TxCmd UART1 ENABLE h1;
     h3 \<leftarrow> UART_IntConfig UART1 UART_INTCFG_RBR ENABLE h2;
     Some (pc', cs', h3\<lparr>u_nvic := insert UART1_IRQn (u_nvic h3)\<rparr>)
   }"

definition UART1_IRQHandler ::
  "u32 \<Rightarrow> u32 \<Rightarrow> u8 \<Rightarrow> rf_world uart_cb_state \<Rightarrow> rf_world \<Rightarrow> rf_world option" where
  "UART1_IRQHandler iir lsr msr cs w = UART_GenIntHandler UART1 iir lsr msr cs w"

section \<open>The receive queue as a bounded buffer\<close>

definition rxq_inv :: "rxq_state \<Rightarrow> bool" where
  "rxq_inv q \<longleftrightarrow> length (rxq q) = 512"

definition rxq_list :: "rxq_state \<Rightarrow> u8 list" where
  "rxq_list q = ring_list 256 (rxq q) (unat (rxqIn q)) (unat (rxqOut q))"

definition rxq_take :: "rxq_state \<Rightarrow> u8 option \<times> rxq_state" where
  "rxq_take q = (if rxq_isEmpty q then (None, q) else case rxq_get q of (d, q') \<Rightarrow> (Some d, q'))"

lemma idx_next: "word_of_nat ((unat (i :: u8) + 1) mod 512) = i + 1"
proof -
  have "(unat i + 1) mod 512 = unat i + 1" using unat_u8_lt[of i] by (intro mod_less) linarith
  then show ?thesis by simp
qed

lemma unat_Suc_u8: "unat (i + 1 :: u8) = ring_next 256 (unat i)"
proof -
  have "unat (i + 1) = (unat i + 1) mod 256" by (simp add: unat_word_ariths)
  then show ?thesis using ring_next_mod[of "unat i" 256] by simp
qed

lemma rxq_put_alt:
  "rxq_put d q = (if unat (rxqOut q) = unat (rxqIn q) + 1 then q
     else q\<lparr>rxq := (rxq q)[unat (rxqIn q) := d], rxqIn := rxqIn q + 1\<rparr>)"
proof -
  have "(unat (rxqIn q) + 1) mod 512 = unat (rxqIn q) + 1"
    using unat_u8_lt[of "rxqIn q"] by (intro mod_less) linarith
  then show ?thesis unfolding rxq_put_def idx_next by simp
qed

lemma rxq_get_alt:
  "rxq_get q = (if rxqIn q = rxqOut q then (0, q)
     else (rxq q ! unat (rxqOut q), q\<lparr>rxqOut := rxqOut q + 1\<rparr>))"
  unfolding rxq_get_def idx_next ..

lemma rxq_Nil_iff: "rxq_list q = [] \<longleftrightarrow> rxqIn q = rxqOut q"
  by (simp add: rxq_list_def ring_list_Nil_iff)

lemma rxq_full_cases:
  "length (rxq_list q) = 255 \<longleftrightarrow> unat (rxqOut q) = unat (rxqIn q) + 1 \<or> rxqIn q = 255 \<and> rxqOut q = 0"
proof -
  have "rxqIn q = 255 \<longleftrightarrow> unat (rxqIn q) = 255" "rxqOut q = 0 \<longleftrightarrow> unat (rxqOut q) = 0"
    by (auto simp: word_unat_eq_iff simp del: unat_u8_eq_iff)
  moreover have "unat (rxqOut q) \<noteq> 256" using unat_u8_lt[of "rxqOut q"] by linarith
  ultimately show ?thesis
    using ring_full_iff[of "unat (rxqIn q)" 256 "unat (rxqOut q)"] by (auto simp: rxq_list_def ring_next_def)
qed

lemma rxq_put_elems:
  assumes "rxq_inv q" "length (rxq_list q) < 255"
  shows "rxq_list (rxq_put d q) = rxq_list q @ [d]"
proof -
  have ne: "\<not> (unat (rxqOut q) = unat (rxqIn q) + 1)" using assms(2) rxq_full_cases[of q] by auto
  have "ring_next 256 (unat (rxqIn q)) \<noteq> unat (rxqOut q)"
    using assms(2) ring_full_iff[of "unat (rxqIn q)" 256 "unat (rxqOut q)"] by (auto simp: rxq_list_def)
  from ring_list_put[OF _ _ _ this, of "rxq q" d] show ?thesis
    using ne assms(1) by (simp add: rxq_put_alt rxq_list_def unat_Suc_u8 rxq_inv_def)
qed

interpretation uartq: bounded_fifo rxq_put rxq_take rxq_isEmpty rxq_list rxq_inv 255
proof
  fix q :: rxq_state and d :: u8 and ds
  assume inv: "rxq_inv q"
  show "rxq_list (rxq_put d q) = rxq_list q @ [d]" if "length (rxq_list q) < 255"
    using rxq_put_elems[OF inv that] .
  show "rxq_inv (rxq_put d q)" using inv by (simp add: rxq_put_alt rxq_inv_def)
  show "rxq_take q = (None, q)" if "rxq_list q = []"
    using that by (simp add: rxq_take_def rxq_isEmpty_def rxq_Nil_iff)
  show "rxq_inv (snd (rxq_take q))"
    using inv by (simp add: rxq_take_def rxq_get_alt rxq_inv_def)
  show "rxq_isEmpty q \<longleftrightarrow> rxq_list q = []" by (simp add: rxq_isEmpty_def rxq_Nil_iff)
  show "length (rxq_list q) \<le> 255"
    using ring_len_less[of "unat (rxqIn q)" 256 "unat (rxqOut q)"] by (simp add: rxq_list_def)
  show "fst (rxq_take q) = Some d \<and> rxq_list (snd (rxq_take q)) = ds" if "rxq_list q = d # ds"
  proof -
    have ne: "rxqIn q \<noteq> rxqOut q" using that rxq_Nil_iff[of q] by auto
    then have "unat (rxqIn q) \<noteq> unat (rxqOut q)" by simp
    from ring_list_get[OF _ _ this, of 256 "rxq q"] show ?thesis
      using that ne by (simp add: rxq_take_def rxq_isEmpty_def rxq_get_alt rxq_list_def unat_Suc_u8)
  qed
qed

lemma recvCb_eq:
  "rf_uartRecvCb (map Some ds @ None # ps) q = Some (ps, fold rxq_put ds q)"
  by (induction ds arbitrary: q) (simp_all add: UART_Receive_def UART_ReceiveData_def)

lemma rf_uart_receive_eq:
  "rxq_inv q \<Longrightarrow> rxq_list q = xs @ ys \<Longrightarrow> n = length xs \<Longrightarrow>
    \<exists>q'. rf_uart_receive n q = (xs, q') \<and> rxq_list q' = ys \<and> rxq_inv q'"
proof (induction xs arbitrary: n q)
  case Nil
  then show ?case by simp
next
  case (Cons x xs)
  have ne: "\<not> rxq_isEmpty q" using Cons.prems uartq.empty_iff by simp
  obtain q1 where g: "rxq_get q = (x, q1)" "rxq_list q1 = xs @ ys"
    using uartq.get_Cons[OF Cons.prems(1), of x "xs @ ys"] Cons.prems(2) ne
    by (cases "rxq_get q") (auto simp: rxq_take_def)
  have "rxq_inv q1" using uartq.get_inv[OF Cons.prems(1)] ne g by (simp add: rxq_take_def)
  from Cons.IH[OF this g(2) refl] show ?case using ne g Cons.prems(3) by auto
qed



text \<open>
  The 256th waiting byte is dropped, except when the write index stands at 255 and the
  read index at 0: there the full test misses, the index wraps to the read index, and all 255
  waiting bytes are lost.
\<close>

lemma rxq_put_full:
  assumes "rxq_inv q" "length (rxq_list q) = 255"
  shows "(if rxqIn q = 255 then rxq_list (rxq_put d q) = [] else rxq_put d q = q)"
proof (cases "rxqIn q = 255")
  case True
  moreover have "unat (rxqOut q) \<noteq> 256" using unat_u8_lt[of "rxqOut q"] by linarith
  ultimately have "rxqOut q = 0" using assms(2) rxq_full_cases[of q] by auto
  then have "rxqIn (rxq_put d q) = rxqOut (rxq_put d q)" using True by (simp add: rxq_put_alt)
  then show ?thesis using True by (simp add: rxq_Nil_iff)
next
  case False
  then show ?thesis using assms(2) rxq_full_cases[of q] by (simp add: rxq_put_alt)
qed

lemma rxq_put_full_example:
  "rxq_list (rxq_put 7 \<lparr>rxqIn = 255, rxqOut = 0, rxq = replicate 512 0\<rparr>) = []"
proof -
  let ?q = "\<lparr>rxqIn = 255, rxqOut = 0, rxq = replicate 512 0\<rparr>"
  have "rxq_inv ?q" "length (rxq_list ?q) = 255" by (simp_all add: rxq_inv_def rxq_list_def ring_len_def)
  from rxq_put_full[OF this, of 7] show ?thesis by simp
qed

text \<open>
  After \<^verbatim>\<open>rf_uart_init\<close> a "receive data available" interrupt of UART1 moves all bytes
  that are ready into the receive queue, up to the first read that finds none, and touches no
  register.
\<close>

lemma rf_irq_enqueues:
  assumes "rf_uart_init pm od lsr0 pc cs h = Some (pc', cs', h')"
  shows "UART1_IRQHandler 0x04 lsr msr cs' (h', map Some ds @ None # ps, q) =
    Some (h', ps, fold rxq_put ds q)"
proof -
  have "pfnRxCbs (uartCbsDat cs' UART1) = Some rf_cb"
    using assms by (auto simp: rf_uart_init_def UART_SetupCbs_def Let_def split: bind_splits)
  then show ?thesis
    by (simp add: UART1_IRQHandler_def UART_GenIntHandler_def Let_def rf_cb_def recvCb_eq)
qed

definition cb_state0 :: "rf_world uart_cb_state" where
  "cb_state0 = \<lparr>uartCbsDat = (\<lambda>_. \<lparr>pfnTxCbs = None, pfnRxCbs = None, pfnABCbs = None, pfnErrCbs = None\<rparr>),
     pfnModemCbs = None\<rparr>"

lemma rf_irq_enqueues_example:
  "\<exists>cs' h'. UART1_IRQHandler 0x04 0 0 cs' (h', [Some 7, Some 9, None], rxq_state0) =
    Some (h', [], rxq_put 9 (rxq_put 7 rxq_state0))"
proof -
  have "map_option (\<lambda>_. ()) (rf_uart_init 0 0 [0, 0x20] pincon0 cb_state0 uart_hw0) = Some ()" by code_simp
  then obtain pc' cs' h' where "rf_uart_init 0 0 [0, 0x20] pincon0 cb_state0 uart_hw0 = Some (pc', cs', h')"
    by auto
  from rf_irq_enqueues[OF this, of 0 0 "[7, 9]" "[]" rxq_state0] show ?thesis by auto
qed

end
