(* ===== verification/Xbee.thy ===== *)
theory Xbee
  imports BoardUart
begin

unbundle bit_operations_syntax

text \<open>
  The XBee radio driver \<^verbatim>\<open>Lib_Board/src/xbee.c\<close>: the API frame encoder, the byte-wise frame
  receiver, the dispatch of received frames to the call-backs, and the AT command dialogue of the
  initialisation. The file-static variables are the record \<open>xbee_state\<close>.

  A call-back maps the world to a new world and may fail; the world is the driver state, the UART
  and the state of the client. The line status values that the blocking UART transfers observe are
  supplied as one list per transfer. A dereference of the null pointer \<^verbatim>\<open>_cb\<close> is
  \<^const>\<open>None\<close>.
\<close>

section \<open>State\<close>

abbreviation (input) CR :: u8 where "CR \<equiv> 0x0D"
abbreviation (input) XBEE_START_DEL :: u8 where "XBEE_START_DEL \<equiv> 0x7E"
abbreviation (input) XBEE_BUF_SZ :: nat where "XBEE_BUF_SZ \<equiv> 200"
abbreviation (input) XBEE_API_ID_TX_64 :: u8 where "XBEE_API_ID_TX_64 \<equiv> 0x00"
abbreviation (input) XBEE_API_ID_AT_CMD :: u8 where "XBEE_API_ID_AT_CMD \<equiv> 0x08"
abbreviation (input) XBEE_API_ID_AT_RESP :: u8 where "XBEE_API_ID_AT_RESP \<equiv> 0x88"
abbreviation (input) XBEE_API_ID_TX_STAT :: u8 where "XBEE_API_ID_TX_STAT \<equiv> 0x89"
abbreviation (input) XBEE_API_ID_RX_64 :: u8 where "XBEE_API_ID_RX_64 \<equiv> 0x80"
abbreviation (input) XBEE_API_ID_MOD_STAT :: u8 where "XBEE_API_ID_MOD_STAT \<equiv> 0x8A"
abbreviation (input) XBEE_MOD_STAT_ASSOC :: u8 where "XBEE_MOD_STAT_ASSOC \<equiv> 2"
abbreviation (input) XBEE_MOD_STAT_DIASSOC :: u8 where "XBEE_MOD_STAT_DIASSOC \<equiv> 3"
abbreviation (input) XBEE_MOD_STAT_COORD_START :: u8 where "XBEE_MOD_STAT_COORD_START \<equiv> 6"
abbreviation (input) XBEE_RECV_FRAME_TO :: u32 where "XBEE_RECV_FRAME_TO \<equiv> 2000"

datatype xbeeType_t = XBEE_END_DEVICE | XBEE_COORDINATOR

datatype xbeeTxStatus_t = XBEE_TX_STAT_OK | XBEE_TX_STAT_NO_ACK | XBEE_TX_STAT_CCA | XBEE_TX_STAT_PURGED

datatype rfState_t = XBEE_FRAME | XBEE_LENGTH | XBEE_DATA

record xbee_state =
  rfState :: rfState_t
  rfFrameLen :: u32
  rfPos :: u32
  rfBuf :: "u8 list"
  rfFrameId :: u8
  rfFrameTimer :: u32
  isCoordinator :: bool
  initialized :: bool

definition xbee_state0 :: xbee_state where
  "xbee_state0 = \<lparr>rfState = XBEE_FRAME, rfFrameLen = 0, rfPos = 0, rfBuf = replicate 200 0,
     rfFrameId = 1, rfFrameTimer = 0, isCoordinator = False, initialized = False\<rparr>"

record xio =
  uhw :: uart_hw
  lsrs :: "u8 list list"
  rq :: rxq_state

record 'c xworld =
  xb :: xbee_state
  io :: xio
  cl :: 'c

record 'w xbee_callb_t =
  up_cb :: "(bool \<Rightarrow> 'w \<Rightarrow> 'w option) option"
  node_cb :: "(u32 \<Rightarrow> u32 \<Rightarrow> u8 \<Rightarrow> 'w \<Rightarrow> 'w option) option"
  txStat_cb :: "(u8 \<Rightarrow> xbeeTxStatus_t \<Rightarrow> 'w \<Rightarrow> 'w option) option"
  data_cb :: "(u32 \<Rightarrow> u32 \<Rightarrow> u8 \<Rightarrow> u8 list \<Rightarrow> u8 \<Rightarrow> 'w \<Rightarrow> 'w option) option"

definition call_opt :: "('w \<Rightarrow> 'w option) option \<Rightarrow> 'w \<Rightarrow> 'w option" where
  "call_opt f w = (case f of None \<Rightarrow> Some w | Some g \<Rightarrow> g w)"

text \<open>A blocking transfer of a byte sequence to the module; its result is ignored by the driver.\<close>

definition rf_transmit :: "u8 list \<Rightarrow> xio \<Rightarrow> xio option" where
  "rf_transmit bs i = (case lsrs i of
     [] \<Rightarrow> None
   | l # ls \<Rightarrow> (case rf_uart_send bs (length bs) BLOCKING l (uhw i) of
       None \<Rightarrow> None | Some (n, h) \<Rightarrow> Some (i\<lparr>uhw := h, lsrs := ls\<rparr>)))"

section \<open>Encoding\<close>

definition bufTo32bitInt :: "u8 list \<Rightarrow> u32" where
  "bufTo32bitInt buf = push_bit 24 (ucast (buf ! 0)) OR push_bit 16 (ucast (buf ! 1)) OR
     push_bit 8 (ucast (buf ! 2)) OR ucast (buf ! 3)"

definition int32bitToBuf :: "u32 \<Rightarrow> u8 list" where
  "int32bitToBuf v = [ucast (drop_bit 24 v AND 0xFF), ucast (drop_bit 16 v AND 0xFF),
     ucast (drop_bit 8 v AND 0xFF), ucast (v AND 0xFF)]"

definition getFrameId :: "xbee_state \<Rightarrow> u8 \<times> xbee_state" where
  "getFrameId s = (let i = rfFrameId s + 1; i' = (if i = 0 then 1 else i) in (i', s\<lparr>rfFrameId := i'\<rparr>))"

definition checksum :: "u8 list \<Rightarrow> u8" where
  "checksum buf = 0xFF - sum_list buf"

definition apiAtCmd :: "u8 list \<Rightarrow> u32 \<Rightarrow> bool \<Rightarrow> 'c xworld \<Rightarrow> (error_t \<times> 'c xworld) option" where
  "apiAtCmd atCmd param setParam w = do {
     let (fid, s') = getFrameId (xb w);
     let body = [XBEE_API_ID_AT_CMD, fid, atCmd ! 0, atCmd ! 1] @ (if setParam then int32bitToBuf param else []);
     i' \<leftarrow> rf_transmit ([XBEE_START_DEL, 0, if setParam then 8 else 4] @ body @ [checksum body]) (io w);
     Some (ERR_OK, w\<lparr>xb := s', io := i'\<rparr>)
   }"

text \<open>The frame that \<^verbatim>\<open>apiTx64\<close> builds in its local buffer.\<close>

definition tx64_frame :: "u8 \<Rightarrow> u32 \<Rightarrow> u32 \<Rightarrow> u8 list \<Rightarrow> u8 list" where
  "tx64_frame fid addrHi addrLo payload =
     (let body = [XBEE_API_ID_TX_64, fid] @ int32bitToBuf addrHi @ int32bitToBuf addrLo @ [0] @ payload
      in [XBEE_START_DEL, 0, 11 + word_of_nat (length payload)] @ body @ [checksum body])"

text \<open>The second component is the frame identifier stored through the pointer \<^verbatim>\<open>frameId\<close>, if set.\<close>

definition apiTx64 ::
  "u32 \<Rightarrow> u32 \<Rightarrow> u8 list \<Rightarrow> nat \<Rightarrow> 'c xworld \<Rightarrow> (error_t \<times> u8 option \<times> 'c xworld) option" where
  "apiTx64 addrHi addrLo data len w =
     (if len > 20 then Some (ERR_ARGUMENT, None, w)
      else if len > length data then None
      else do {
        let (fid, s') = getFrameId (xb w);
        i' \<leftarrow> rf_transmit (tx64_frame fid addrHi addrLo (take len data)) (io w);
        Some (ERR_OK, Some fid, w\<lparr>xb := s', io := i'\<rparr>)
      })"

section \<open>Received frames\<close>

definition handleTxStatus ::
  "'c xworld xbee_callb_t option \<Rightarrow> u8 \<Rightarrow> u8 \<Rightarrow> 'c xworld \<Rightarrow> 'c xworld option" where
  "handleTxStatus cb frameId status w = (case cb of None \<Rightarrow> None | Some t \<Rightarrow>
     (case txStat_cb t of None \<Rightarrow> Some w | Some f \<Rightarrow>
        if status = 0 then f frameId XBEE_TX_STAT_OK w
        else if status = 1 then f frameId XBEE_TX_STAT_NO_ACK w
        else if status = 2 then f frameId XBEE_TX_STAT_CCA w
        else if status = 3 then f frameId XBEE_TX_STAT_PURGED w
        else Some w))"

definition processData ::
  "'c xworld xbee_callb_t option \<Rightarrow> u32 \<Rightarrow> u32 \<Rightarrow> u8 \<Rightarrow> u8 list \<Rightarrow> nat \<Rightarrow> 'c xworld \<Rightarrow> 'c xworld option" where
  "processData cb addrHi addrLo rssi buf len w = (case cb of None \<Rightarrow> None | Some t \<Rightarrow>
     (case data_cb t of None \<Rightarrow> Some w | Some f \<Rightarrow> f addrHi addrLo rssi buf (word_of_nat len) w))"

definition handleDiscovery ::
  "'c xworld xbee_callb_t option \<Rightarrow> u8 \<Rightarrow> u8 list \<Rightarrow> nat \<Rightarrow> 'c xworld \<Rightarrow> 'c xworld option" where
  "handleDiscovery cb status buf len w =
     (if status = 0 \<and> len \<ge> 11 then
        (case cb of None \<Rightarrow> None | Some t \<Rightarrow>
          (case node_cb t of None \<Rightarrow> Some w | Some f \<Rightarrow>
             f (bufTo32bitInt (drop 2 buf)) (bufTo32bitInt (drop 6 buf)) (buf ! 10) w))
      else Some w)"

definition handleAtResponse ::
  "'c xworld xbee_callb_t option \<Rightarrow> u8 \<Rightarrow> u8 list \<Rightarrow> u8 \<Rightarrow> u8 list \<Rightarrow> nat \<Rightarrow> 'c xworld \<Rightarrow> 'c xworld option" where
  "handleAtResponse cb frameId atBuf status valueBuf valueLen w =
     (if atBuf ! 0 = 0x4E \<and> atBuf ! 1 = 0x44 then handleDiscovery cb status valueBuf valueLen w else Some w)"

definition handleModemStatus ::
  "'c xworld xbee_callb_t option \<Rightarrow> u8 \<Rightarrow> 'c xworld \<Rightarrow> 'c xworld option" where
  "handleModemStatus cb status w =
     (let s = xb w;
          notify = (\<lambda>b w'. case cb of None \<Rightarrow> None | Some t \<Rightarrow> call_opt (map_option (\<lambda>f. f b) (up_cb t)) w')
      in if isCoordinator s \<and> status = XBEE_MOD_STAT_COORD_START then
           notify True (w\<lparr>xb := s\<lparr>initialized := True\<rparr>\<rparr>)
         else if \<not> isCoordinator s \<and> status = XBEE_MOD_STAT_ASSOC then
           notify True (w\<lparr>xb := s\<lparr>initialized := True\<rparr>\<rparr>)
         else if \<not> isCoordinator s \<and> status = XBEE_MOD_STAT_DIASSOC then
           notify False (w\<lparr>xb := s\<lparr>initialized := False\<rparr>\<rparr>)
         else Some w)"

text \<open>\<open>buf\<close> is the receive buffer, \<open>len\<close> the number of bytes of the frame including its checksum.\<close>

definition processFrame ::
  "'c xworld xbee_callb_t option \<Rightarrow> u8 list \<Rightarrow> nat \<Rightarrow> 'c xworld \<Rightarrow> 'c xworld option" where
  "processFrame cb buf len w =
     (if len < 2 then Some w
      else if len > length buf then None
      else if checksum (take len buf) \<noteq> 0 then Some w
      else if buf ! 0 = XBEE_API_ID_AT_RESP then
        (if len < 5 then Some w
         else handleAtResponse cb (buf ! 1) (drop 2 buf) (buf ! 4)
                (if len > 6 then drop 5 buf else []) (if len > 6 then len - 5 - 1 else 0) w)
      else if buf ! 0 = XBEE_API_ID_TX_STAT then handleTxStatus cb (buf ! 1) (buf ! 2) w
      else if buf ! 0 = XBEE_API_ID_RX_64 then
        (if len < 12 then Some w
         else processData cb (bufTo32bitInt (drop 1 buf)) (bufTo32bitInt (drop 5 buf)) (buf ! 9)
                (drop 11 buf) (len - 11 - 1) w)
      else if buf ! 0 = XBEE_API_ID_MOD_STAT then handleModemStatus cb (buf ! 1) w
      else Some w)"

definition processByte ::
  "'c xworld xbee_callb_t option \<Rightarrow> u32 \<Rightarrow> u8 \<Rightarrow> 'c xworld \<Rightarrow> 'c xworld option" where
  "processByte cb now data w =
     (let s = xb w in
      case rfState s of
        XBEE_FRAME \<Rightarrow>
          (if data = XBEE_START_DEL
           then Some (w\<lparr>xb := s\<lparr>rfPos := 0, rfFrameLen := 0, rfState := XBEE_LENGTH,
                  rfFrameTimer := now + XBEE_RECV_FRAME_TO\<rparr>\<rparr>)
           else Some w)
      | XBEE_LENGTH \<Rightarrow>
          let l = rfFrameLen s OR push_bit (unat (8 * (1 - rfPos s))) (ucast data); p = rfPos s + 1 in
          (if p = 2
           then Some (w\<lparr>xb := s\<lparr>rfPos := 0, rfState := XBEE_DATA,
                  rfFrameLen := (if l > 200 then 200 else l)\<rparr>\<rparr>)
           else Some (w\<lparr>xb := s\<lparr>rfPos := p, rfFrameLen := l\<rparr>\<rparr>))
      | XBEE_DATA \<Rightarrow> do {
          buf \<leftarrow> wr (rfBuf s) (unat (rfPos s)) data;
          let p = rfPos s + 1;
          (if p = rfFrameLen s + 1
           then processFrame cb buf (unat p)
                  (w\<lparr>xb := s\<lparr>rfBuf := buf, rfPos := p, rfState := XBEE_FRAME, rfFrameTimer := 0\<rparr>\<rparr>)
           else Some (w\<lparr>xb := s\<lparr>rfBuf := buf, rfPos := p\<rparr>\<rparr>))
        })"

section \<open>AT command dialogue\<close>

text \<open>
  The loop of \<^verbatim>\<open>readLine\<close>. An observation is the time its condition reads and the bytes that the
  receive interrupt queues before the following read of the queue.
\<close>

type_synonym rl_obs = "(u32 \<times> u8 list) list"

fun rl_loop ::
  "u32 \<Rightarrow> nat \<Rightarrow> nat \<Rightarrow> u8 list \<Rightarrow> rl_obs \<Rightarrow> rxq_state \<Rightarrow> (nat \<times> u8 list \<times> rl_obs \<times> rxq_state) option" where
  "rl_loop t bufLen pos buf [] q = (if pos < bufLen then None else Some (pos, buf, [], q))"
| "rl_loop t bufLen pos buf ((now, bs) # obs) q =
     (if pos < bufLen then
        if t > now then
          (case rf_uart_receive 1 (fold rxq_put bs q) of
             ([], q') \<Rightarrow> rl_loop t bufLen pos buf obs q'
           | (d # _, q') \<Rightarrow> do {
               buf' \<leftarrow> wr buf pos d;
               (if d = CR then do { buf'' \<leftarrow> wr buf' pos 0; Some (pos, buf'', obs, q') }
                else rl_loop t bufLen (pos + 1) buf' obs q')
             })
        else Some (pos, buf, obs, q)
      else Some (pos, buf, (now, bs) # obs, q))"

definition readLine ::
  "u8 list \<Rightarrow> nat \<Rightarrow> u32 \<Rightarrow> rl_obs \<Rightarrow> rxq_state \<Rightarrow> (int \<times> u8 list \<times> rl_obs \<times> rxq_state) option" where
  "readLine buf bufLen timeout obs q = do {
     ((now, bs), obs1) \<leftarrow> vread obs;
     let t = now + timeout;
     (pos, buf', obs2, q') \<leftarrow> rl_loop t bufLen 0 buf obs1 (fold rxq_put bs q);
     (if pos \<ge> bufLen then Some (- 1, buf', obs2, q')
      else do {
        ((now', bs'), obs3) \<leftarrow> vread obs2;
        (if t \<le> now' then Some (- 2, buf', obs3, fold rxq_put bs' q')
         else Some (int pos, buf', obs3, fold rxq_put bs' q'))
      })
   }"

text \<open>\<^verbatim>\<open>strcmp("OK", buf) == 0\<close>.\<close>

definition is_OK :: "u8 list \<Rightarrow> bool option" where
  "is_OK buf = do {
     a \<leftarrow> rd buf 0;
     (if a \<noteq> 0x4F then Some False
      else do {
        b \<leftarrow> rd buf 1;
        (if b \<noteq> 0x4B then Some False
         else do { c \<leftarrow> rd buf 2; Some (c = 0) })
      })
   }"

text \<open>\<open>g\<close> is the content of the uninitialised local buffer of 10 bytes.\<close>

definition commandMode ::
  "u8 list \<Rightarrow> rl_obs \<Rightarrow> 'c xworld \<Rightarrow> (error_t \<times> rl_obs \<times> 'c xworld) option" where
  "commandMode g obs w = do {
     i1 \<leftarrow> rf_transmit [0x2B, 0x2B, 0x2B] (io w);
     (lineLen, ebuf, obs', q) \<leftarrow> readLine g 10 1200 obs (rq i1);
     let w' = w\<lparr>io := i1\<lparr>rq := q\<rparr>\<rparr>;
     (if lineLen < 0 then Some (ERR_RF_READ_ERROR, obs', w')
      else do {
        ok \<leftarrow> is_OK ebuf;
        Some (if ok then ERR_OK else ERR_RF_CMD_ERROR, obs', w')
      })
   }"

definition atGet ::
  "u8 list \<Rightarrow> u8 list option \<Rightarrow> nat \<Rightarrow> rl_obs \<Rightarrow> 'c xworld
    \<Rightarrow> (error_t \<times> u8 list option \<times> rl_obs \<times> 'c xworld) option" where
  "atGet atCmd resp respLen obs w = do {
     i1 \<leftarrow> rf_transmit atCmd (io w);
     i2 \<leftarrow> rf_transmit [CR] i1;
     (case resp of
        Some buf \<Rightarrow>
          (if respLen > 0 then do {
             (lineLen, buf', obs', q) \<leftarrow> readLine buf respLen 1000 obs (rq i2);
             Some (if lineLen < 0 then ERR_RF_READ_ERROR else ERR_OK, Some buf', obs', w\<lparr>io := i2\<lparr>rq := q\<rparr>\<rparr>)
           }
           else Some (ERR_OK, resp, obs, w\<lparr>io := i2\<rparr>))
      | None \<Rightarrow> Some (ERR_OK, resp, obs, w\<lparr>io := i2\<rparr>))
   }"

definition atSet :: "u8 list \<Rightarrow> u8 list \<Rightarrow> rl_obs \<Rightarrow> 'c xworld \<Rightarrow> (error_t \<times> rl_obs \<times> 'c xworld) option" where
  "atSet g atCmd obs w = do {
     (err, b, obs', w') \<leftarrow> atGet atCmd (Some g) 10 obs w;
     (if err = ERR_OK then do {
        buf \<leftarrow> b;
        ok \<leftarrow> is_OK buf;
        Some (if ok then ERR_OK else ERR_RF_CMD_ERROR, obs', w')
      }
      else Some (err, obs', w'))
   }"

text \<open>The AT commands of the initialisation, as ASCII codes.\<close>

definition ascii :: "string \<Rightarrow> u8 list" where
  "ascii s = map (\<lambda>c. word_of_nat (of_char c)) s"

definition init_cmds :: "xbeeType_t \<Rightarrow> u8 list list" where
  "init_cmds type = [ascii ''ATIDEAEA'', ascii ''ATMYFFFE''] @
     (if type = XBEE_COORDINATOR then [ascii ''ATA24'', ascii ''ATCE1''] else [ascii ''ATA14'']) @
     [ascii ''ATAP1'']"

fun at_sequence :: "u8 list \<Rightarrow> u8 list list \<Rightarrow> rl_obs \<Rightarrow> 'c xworld \<Rightarrow> (error_t \<times> rl_obs \<times> 'c xworld) option" where
  "at_sequence g [] obs w = Some (ERR_OK, obs, w)"
| "at_sequence g (c # cs) obs w = do {
     (err, obs', w') \<leftarrow> atSet g c obs w;
     (if err \<noteq> ERR_OK then Some (err, obs', w') else at_sequence g cs obs' w')
   }"

definition xbee_init ::
  "u8 list \<Rightarrow> xbeeType_t \<Rightarrow> rl_obs \<Rightarrow> 'c xworld \<Rightarrow> (error_t \<times> rl_obs \<times> 'c xworld) option" where
  "xbee_init g type obs w = do {
     let w0 = w\<lparr>xb := (xb w)\<lparr>isCoordinator := (type = XBEE_COORDINATOR)\<rparr>\<rparr>;
     (err, obs', w') \<leftarrow> commandMode g obs w0;
     (if err \<noteq> ERR_OK then Some (err, obs', w') else at_sequence g (init_cmds type) obs' w')
   }"

section \<open>Public operations\<close>

definition xbee_send ::
  "u32 \<Rightarrow> u32 \<Rightarrow> u8 list \<Rightarrow> u8 \<Rightarrow> 'c xworld \<Rightarrow> (error_t \<times> u8 option \<times> 'c xworld) option" where
  "xbee_send addrHi addrLo data len w =
     (if \<not> initialized (xb w) then Some (ERR_NOT_INIT, None, w)
      else apiTx64 addrHi addrLo data (unat len) w)"

definition xbee_nodeDiscover :: "'c xworld \<Rightarrow> (error_t \<times> 'c xworld) option" where
  "xbee_nodeDiscover w =
     (if \<not> initialized (xb w) then Some (ERR_NOT_INIT, w) else apiAtCmd (ascii ''ND'') 0 False w)"

definition xbee_task ::
  "'c xworld xbee_callb_t option \<Rightarrow> u32 \<Rightarrow> u32 \<Rightarrow> 'c xworld \<Rightarrow> 'c xworld option" where
  "xbee_task cb now now' w =
     (let s = xb w;
          w1 = (if rfFrameTimer s > 0 \<and> rfFrameTimer s < now
                then w\<lparr>xb := s\<lparr>rfState := XBEE_FRAME, rfFrameTimer := 0\<rparr>\<rparr> else w)
      in if \<not> rf_uart_recvIsEmpty (rq (io w1)) then
           (case rf_uart_receive 1 (rq (io w1)) of
              ([], q) \<Rightarrow> Some (w1\<lparr>io := (io w1)\<lparr>rq := q\<rparr>\<rparr>)
            | (d # _, q) \<Rightarrow> processByte cb now' d (w1\<lparr>io := (io w1)\<lparr>rq := q\<rparr>\<rparr>))
         else Some w1)"

section \<open>Encoding laws\<close>

lemma bufTo32bitInt_app: "length b = 4 \<Longrightarrow> bufTo32bitInt (b @ rest) = bufTo32bitInt b"
  by (simp add: bufTo32bitInt_def nth_append)

lemma int_buf_int: "bufTo32bitInt (int32bitToBuf v) = v"
proof (rule bit_word_eqI)
  fix n assume "n < LENGTH(32)"
  then consider "n < 8" | "8 \<le> n" "n < 16" | "16 \<le> n" "n < 24" | "24 \<le> n" "n < 32"
    by fastforce
  then show "bit (bufTo32bitInt (int32bitToBuf v)) n = bit v n"
    by cases (auto simp: int32bitToBuf_def bufTo32bitInt_def bit_simps)
qed

lemma buf_int_buf: "length b = 4 \<Longrightarrow> int32bitToBuf (bufTo32bitInt b) = b"
proof -
  assume "length b = 4"
  then obtain x y z u where b: "b = [x, y, z, u]" by (rule list4_cases)
  have u8: "\<not> bit (a :: u8) n" if "8 \<le> n" for a n using that by (auto dest: bit_imp_le_length)
  show ?thesis unfolding b int32bitToBuf_def bufTo32bitInt_def
    by (auto intro!: bit_word_eqI simp: bit_simps u8)
qed

interpretation xaddr: codec int32bitToBuf bufTo32bitInt 4
  by unfold_locales (simp add: int32bitToBuf_def, rule int_buf_int, rule buf_int_buf)

lemma checksum_append: "checksum (b @ [checksum b]) = 0"
  by (simp add: checksum_def)

lemma getFrameId_nonzero: "fst (getFrameId s) \<noteq> 0"
  by (simp add: getFrameId_def Let_def)

section \<open>Reception of a frame\<close>

definition in_data :: "nat \<Rightarrow> nat \<Rightarrow> u8 list \<Rightarrow> 'c xworld \<Rightarrow> 'c xworld" where
  "in_data n pos buf w = w\<lparr>xb := (xb w)\<lparr>rfPos := word_of_nat pos, rfState := XBEE_DATA,
     rfFrameLen := word_of_nat n, rfBuf := buf\<rparr>\<rparr>"

lemma unat_small32: "n < 4294967296 \<Longrightarrow> unat (word_of_nat n :: u32) = n"
  by (simp add: unat_of_nat take_bit_nat_eq_self)

lemma word_eq32: "m < 4294967296 \<Longrightarrow> n < 4294967296 \<Longrightarrow> (word_of_nat m :: u32) = word_of_nat n \<longleftrightarrow> m = n"
  using unat_small32 by metis

lemma processByte_data:
  assumes "length buf = 200" "pos < n" "n \<le> 200"
  shows "processByte cb now b (in_data n pos buf w) = Some (in_data n (pos + 1) (buf[pos := b]) w)"
proof -
  have "unat (word_of_nat pos :: u32) = pos" using assms by (intro unat_small32) simp
  moreover have "(word_of_nat pos :: u32) + 1 \<noteq> word_of_nat n + 1"
    using assms word_eq32[of pos n] by simp
  ultimately show ?thesis using assms by (simp add: processByte_def in_data_def Let_def)
qed

lemma length_bytes:
  "push_bit 8 (ucast (hi :: u8)) OR ucast (lo :: u8) = (word_of_nat (256 * unat hi + unat lo) :: u32)"
proof -
  have u8: "\<not> bit (a :: u8) n" if "8 \<le> n" for a n using that by (auto dest: bit_imp_le_length)
  have "push_bit 8 (ucast hi) OR ucast lo = (push_bit 8 (ucast hi) + ucast lo :: u32)"
    by (rule disjunctive_add [symmetric]) (auto simp: bit_simps u8)
  also have "\<dots> = word_of_nat (256 * unat hi + unat lo)"
    by (simp add: push_bit_eq_mult mult.commute)
  finally show ?thesis .
qed

text \<open>The frame a module sends for a received packet with a 64-bit source address.\<close>

definition rx64_body :: "u32 \<Rightarrow> u32 \<Rightarrow> u8 \<Rightarrow> u8 \<Rightarrow> u8 list \<Rightarrow> u8 list" where
  "rx64_body addrHi addrLo rssi opt payload =
     [XBEE_API_ID_RX_64] @ int32bitToBuf addrHi @ int32bitToBuf addrLo @ [rssi, opt] @ payload"

lemma processFrame_rx64:
  assumes "body = rx64_body addrHi addrLo rssi opt payload" "data_cb t = Some f" "length payload < 180"
  shows "processFrame (Some t) (body @ [checksum body] @ rest) (length body + 1) w =
    f addrHi addrLo rssi (payload @ [checksum body] @ rest) (word_of_nat (length payload)) w"
proof -
  have l: "length body = 11 + length payload" by (simp add: assms(1) rx64_body_def xaddr.length_enc)
  have cs: "checksum (take (length body + 1) (body @ [checksum body] @ rest)) = 0"
    using checksum_append[of body] by simp
  let ?buf = "body @ [checksum body] @ rest"
  have b0: "?buf ! 0 = 0x80" by (simp add: assms(1) rx64_body_def)
  have hi: "bufTo32bitInt (drop 1 ?buf) = addrHi"
    by (simp add: assms(1) rx64_body_def bufTo32bitInt_app xaddr.length_enc xaddr.dec_enc)
  have lo: "bufTo32bitInt (drop 5 ?buf) = addrLo"
    by (simp add: assms(1) rx64_body_def bufTo32bitInt_app xaddr.length_enc xaddr.dec_enc)
  have r: "?buf ! 9 = rssi" "drop 11 ?buf = payload @ [checksum body] @ rest"
    by (simp_all add: assms(1) rx64_body_def int32bitToBuf_def)
  have "processFrame (Some t) ?buf (length body + 1) w =
      processData (Some t) (bufTo32bitInt (drop 1 ?buf)) (bufTo32bitInt (drop 5 ?buf)) (?buf ! 9) (drop 11 ?buf)
        (length body + 1 - 11 - 1) w"
    unfolding processFrame_def using cs b0 l by simp
  then show ?thesis unfolding hi lo r by (simp add: processData_def assms(2) l)
qed

section \<open>The task\<close>

text \<open>Successive calls of \<^verbatim>\<open>xbee_task\<close>, each with the two times it reads.\<close>

fun xbee_run :: "'c xworld xbee_callb_t option \<Rightarrow> (u32 \<times> u32) list \<Rightarrow> 'c xworld \<Rightarrow> 'c xworld option" where
  "xbee_run cb [] w = Some w"
| "xbee_run cb ((now, now') # ts) w = do { w' \<leftarrow> xbee_task cb now now' w; xbee_run cb ts w' }"

lemma xbee_run_append:
  "xbee_run cb (ts @ us) w = do { w' \<leftarrow> xbee_run cb ts w; xbee_run cb us w' }"
proof (induction cb ts w rule: xbee_run.induct)
  case (2 cb now now' ts w)
  then show ?case by (cases "xbee_task cb now now' w") auto
qed simp

definition set_rq :: "rxq_state \<Rightarrow> 'c xworld \<Rightarrow> 'c xworld" where
  "set_rq q w = w\<lparr>io := (io w)\<lparr>rq := q\<rparr>\<rparr>"

definition queued :: "u8 list \<Rightarrow> 'c xworld \<Rightarrow> bool" where
  "queued bs w \<longleftrightarrow> rxq_inv (rq (io w)) \<and> rxq_list (rq (io w)) = bs"

lemma set_rq_simps [simp]: "xb (set_rq q w) = xb w" "cl (set_rq q w) = cl w" "rq (io (set_rq q w)) = q"
  "set_rq q (in_data n pos buf w) = in_data n pos buf (set_rq q w)"
  "set_rq q (set_rq q' w) = set_rq q w"
  by (simp_all add: set_rq_def in_data_def)

lemma set_rq_xb [simp]: "set_rq q (w\<lparr>xb := s\<rparr>) = (set_rq q w)\<lparr>xb := s\<rparr>"
  by (simp add: set_rq_def)

lemma queued_xb [simp]: "queued bs (w\<lparr>xb := s\<rparr>) = queued bs w" "queued bs (in_data n pos buf w) = queued bs w"
  by (simp_all add: queued_def in_data_def)

lemma xbee_task_byte:
  assumes "queued (d # ds) w" "rfFrameTimer (xb w) = 0 \<or> now \<le> rfFrameTimer (xb w)"
  shows "\<exists>q. xbee_task cb now now' w = processByte cb now' d (set_rq q w) \<and> queued ds (set_rq q w)"
proof -
  have ne: "\<not> rf_uart_recvIsEmpty (rq (io w))"
    using assms(1) uartq.empty_iff by (auto simp: queued_def rf_uart_recvIsEmpty_def)
  obtain q where q: "rf_uart_receive 1 (rq (io w)) = ([d], q)" "rxq_list q = ds" "rxq_inv q"
    using assms(1) rf_uart_receive_eq[of "rq (io w)" "[d]" ds 1] by (auto simp: queued_def)
  have "(rfFrameTimer (xb w) > 0 \<and> rfFrameTimer (xb w) < now) = False" using assms(2) by auto
  then have "xbee_task cb now now' w = processByte cb now' d (set_rq q w)"
    using ne q(1) by (simp only: xbee_task_def Let_def set_rq_def if_False not_False_eq_True if_True) simp
  then show ?thesis using q by (auto simp: queued_def)
qed

lemma xbee_run_step:
  assumes "queued (d # ds) w" "rfFrameTimer (xb w) = 0 \<or> now \<le> rfFrameTimer (xb w)"
    and "\<And>q. queued ds (set_rq q w) \<Longrightarrow> P (processByte cb now' d (set_rq q w) \<bind> xbee_run cb ts)"
  shows "P (xbee_run cb ((now, now') # ts) w)"
  using xbee_task_byte[OF assms(1,2), of cb now'] assms(3) by auto

lemma processByte_start:
  assumes "rfState (xb w) = XBEE_FRAME"
  shows "processByte cb now XBEE_START_DEL w =
    Some (w\<lparr>xb := (xb w)\<lparr>rfPos := 0, rfFrameLen := 0, rfState := XBEE_LENGTH,
      rfFrameTimer := now + XBEE_RECV_FRAME_TO\<rparr>\<rparr>)"
  using assms by (simp add: processByte_def)

lemma processByte_length:
  assumes "rfState (xb w) = XBEE_LENGTH" "rfPos (xb w) = 0" "rfFrameLen (xb w) = 0"
  shows "processByte cb now hi w = Some (w\<lparr>xb := (xb w)\<lparr>rfPos := 1, rfFrameLen := push_bit 8 (ucast hi)\<rparr>\<rparr>)"
    and "processByte cb now lo (w\<lparr>xb := (xb w)\<lparr>rfPos := 1, rfFrameLen := push_bit 8 (ucast hi)\<rparr>\<rparr>) =
      Some (in_data (min 200 (256 * unat hi + unat lo)) 0 (rfBuf (xb w)) w)"
proof -
  show "processByte cb now hi w = Some (w\<lparr>xb := (xb w)\<lparr>rfPos := 1, rfFrameLen := push_bit 8 (ucast hi)\<rparr>\<rparr>)"
    using assms by (simp add: processByte_def)
  define n where "n = 256 * unat hi + unat lo"
  have "n < 4294967296" using unat_u8_lt[of hi] unat_u8_lt[of lo] unfolding n_def by linarith
  then have "word_of_nat n > (200 :: u32) \<longleftrightarrow> n > 200"
    using unat_small32[of n] by (simp add: word_less_nat_alt)
  then have l: "(if (word_of_nat n :: u32) > 200 then 200 else word_of_nat n) = (word_of_nat (min 200 n) :: u32)"
    by (auto simp: min_def)
  have lb: "push_bit 8 (ucast hi) OR ucast lo = (word_of_nat n :: u32)"
    unfolding n_def by (rule length_bytes)
  show "processByte cb now lo (w\<lparr>xb := (xb w)\<lparr>rfPos := 1, rfFrameLen := push_bit 8 (ucast hi)\<rparr>\<rparr>) =
      Some (in_data (min 200 (256 * unat hi + unat lo)) 0 (rfBuf (xb w)) w)"
    unfolding n_def[symmetric]
    using assms lb l by (simp add: processByte_def Let_def in_data_def split del: if_split)
qed

lemma run_header:
  assumes "rfState (xb w) = XBEE_FRAME" "rfFrameTimer (xb w) = 0" "queued ([XBEE_START_DEL, hi, lo] @ bs) w"
    and "n1 \<le> t0 + 2000" "n2 \<le> t0 + 2000"
  shows "\<exists>q. xbee_run cb [(n0, t0), (n1, t1), (n2, t2)] w =
    Some (in_data (min 200 (256 * unat hi + unat lo)) 0 (rfBuf (xb w))
      ((set_rq q w)\<lparr>xb := (xb w)\<lparr>rfPos := 0, rfFrameLen := 0, rfState := XBEE_LENGTH,
         rfFrameTimer := t0 + XBEE_RECV_FRAME_TO\<rparr>\<rparr>)) \<and> queued bs (set_rq q w)"
    (is "?P (xbee_run cb [(n0, t0), (n1, t1), (n2, t2)] w)")
proof -
  let ?s1 = "(xb w)\<lparr>rfPos := 0, rfFrameLen := 0, rfState := XBEE_LENGTH, rfFrameTimer := t0 + XBEE_RECV_FRAME_TO\<rparr>"
  let ?s2 = "?s1\<lparr>rfPos := 1, rfFrameLen := push_bit 8 (ucast hi)\<rparr>"
  have 3: "?P (xbee_run cb [(n2, t2)] ((set_rq q w)\<lparr>xb := ?s2\<rparr>))" if "queued (lo # bs) (set_rq q w)" for q
  proof (rule xbee_run_step[where P = ?P])
    show "queued (lo # bs) ((set_rq q w)\<lparr>xb := ?s2\<rparr>)" using that by simp
    show "?P (processByte cb t2 lo (set_rq q' ((set_rq q w)\<lparr>xb := ?s2\<rparr>)) \<bind> xbee_run cb [])"
      if "queued bs (set_rq q' ((set_rq q w)\<lparr>xb := ?s2\<rparr>))" for q'
      using that processByte_length(2)[of "(set_rq q' w)\<lparr>xb := ?s1\<rparr>" cb t2 lo hi] by auto
  qed (use assms in simp)
  have 2: "?P (xbee_run cb [(n1, t1), (n2, t2)] ((set_rq q w)\<lparr>xb := ?s1\<rparr>))" if "queued (hi # lo # bs) (set_rq q w)" for q
  proof (rule xbee_run_step[where P = ?P])
    show "queued (hi # lo # bs) ((set_rq q w)\<lparr>xb := ?s1\<rparr>)" using that by simp
    show "?P (processByte cb t1 hi (set_rq q' ((set_rq q w)\<lparr>xb := ?s1\<rparr>)) \<bind> xbee_run cb [(n2, t2)])"
      if "queued (lo # bs) (set_rq q' ((set_rq q w)\<lparr>xb := ?s1\<rparr>))" for q'
      using that 3[of q'] processByte_length(1)[of "(set_rq q' w)\<lparr>xb := ?s1\<rparr>" cb t1 hi] by simp
  qed (use assms in simp)
  show ?thesis
  proof (rule xbee_run_step[where P = ?P])
    show "queued (XBEE_START_DEL # hi # lo # bs) w" using assms(3) by simp
    show "?P (processByte cb t0 XBEE_START_DEL (set_rq q w) \<bind> xbee_run cb [(n1, t1), (n2, t2)])"
      if "queued (hi # lo # bs) (set_rq q w)" for q
      using 2[OF that] assms(1) by (simp add: processByte_start)
  qed (use assms in simp)
qed

lemma run_data:
  assumes "length buf = 200" "pos + length bs \<le> n" "n \<le> 200" "queued (bs @ rest) w"
    and "\<forall>t \<in> set ts. fst t \<le> rfFrameTimer (xb w)" "length ts = length bs"
  shows "\<exists>q. xbee_run cb ts (in_data n pos buf w) =
    Some (in_data n (pos + length bs) (take pos buf @ bs @ drop (pos + length bs) buf) (set_rq q w)) \<and>
    queued rest (set_rq q w)"
  using assms
proof (induction bs arbitrary: pos buf ts w)
  case Nil
  then show ?case by (auto simp: set_rq_def queued_def intro!: exI[of _ "rq (io w)"])
next
  case (Cons b bs)
  obtain now now' ts' where ts: "ts = (now, now') # ts'" using Cons.prems(6) by (cases ts) auto
  let ?R = "\<lambda>r. \<exists>q. r = Some (in_data n (pos + length (b # bs)) (take pos buf @ (b # bs) @ drop (pos + length (b # bs)) buf) (set_rq q w)) \<and>
    queued rest (set_rq q w)"
  have "?R (xbee_run cb ((now, now') # ts') (in_data n pos buf w))"
  proof (rule xbee_run_step[where P = ?R])
    show "queued (b # bs @ rest) (in_data n pos buf w)" using Cons.prems(4) by simp
    show "rfFrameTimer (xb (in_data n pos buf w)) = 0 \<or> now \<le> rfFrameTimer (xb (in_data n pos buf w))"
      using Cons.prems(5) ts by (simp add: in_data_def)
    fix q assume q: "queued (bs @ rest) (set_rq q (in_data n pos buf w))"
    have "processByte cb now' b (in_data n pos buf (set_rq q w)) = Some (in_data n (pos + 1) (buf[pos := b]) (set_rq q w))"
      using Cons.prems by (intro processByte_data) simp_all
    moreover have "\<exists>q'. xbee_run cb ts' (in_data n (pos + 1) (buf[pos := b]) (set_rq q w)) =
        Some (in_data n (pos + 1 + length bs) (take (pos + 1) (buf[pos := b]) @ bs @ drop (pos + 1 + length bs) (buf[pos := b]))
          (set_rq q' (set_rq q w))) \<and> queued rest (set_rq q' (set_rq q w))"
      using Cons.prems q ts by (intro Cons.IH) auto
    ultimately show "?R (processByte cb now' b (set_rq q (in_data n pos buf w)) \<bind> xbee_run cb ts')"
      using Cons.prems by (simp add: take_wr)
  qed
  then show ?case unfolding ts .
qed

lemma processByte_last:
  assumes "length body < 200" "length buf = 200" "take (length body) buf = body"
  shows "processByte cb now c (in_data (length body) (length body) buf w) =
    processFrame cb (body @ [c] @ drop (length body + 1) buf) (length body + 1)
      (w\<lparr>xb := (xb w)\<lparr>rfFrameLen := word_of_nat (length body), rfBuf := body @ [c] @ drop (length body + 1) buf,
         rfPos := word_of_nat (length body + 1), rfState := XBEE_FRAME, rfFrameTimer := 0\<rparr>\<rparr>)"
proof -
  have u: "unat (word_of_nat (length body) :: u32) = length body" "unat (word_of_nat (length body) + 1 :: u32) = length body + 1"
    using assms(1) unat_small32[of "length body"] unat_small32[of "length body + 1"] by (simp_all add: add.commute)
  have "wr buf (length body) c = Some (body @ [c] @ drop (length body + 1) buf)"
    using assms by (simp add: upd_conv_take_nth_drop)
  then show ?thesis using u by (simp add: processByte_def in_data_def Let_def add.commute)
qed

lemma list_ends: "length ts = 4 + n \<Longrightarrow> \<exists>a b c us z. ts = a # b # c # us @ [z] \<and> length us = n"
  by (cases ts rule: rev_cases; auto simp: length_Suc_conv numeral_eq_Suc)

text \<open>The schedule of a frame: one call of the task for each byte, all within the frame time-out.\<close>

definition frame_schedule :: "nat \<Rightarrow> (u32 \<times> u32) list \<Rightarrow> bool" where
  "frame_schedule n ts \<longleftrightarrow> length ts = 4 + n \<and> (\<forall>t \<in> set (tl ts). fst t \<le> snd (hd ts) + XBEE_RECV_FRAME_TO)"

lemma run_body:
  assumes "rfState (xb w) = XBEE_FRAME" "rfFrameTimer (xb w) = 0" "length (rfBuf (xb w)) = 200"
    and "length body = min 200 (256 * unat hi + unat lo)"
    and "queued ([XBEE_START_DEL, hi, lo] @ body @ c # rest) w" "frame_schedule (length body) ts"
  shows "\<exists>q s. xbee_run cb ts w = processByte cb (snd (last ts)) c
      (in_data (length body) (length body) (body @ drop (length body) (rfBuf (xb w))) ((set_rq q w)\<lparr>xb := s\<rparr>)) \<and>
    queued rest (set_rq q w)"
proof -
  obtain n0 t0 n1 t1 n2 t2 us n3 t3 where ts: "ts = [(n0, t0), (n1, t1), (n2, t2)] @ us @ [(n3, t3)]" "length us = length body"
    using list_ends[of ts "length body"] assms(6) unfolding frame_schedule_def by auto
  let ?P = "\<lambda>r. \<exists>q s. r = processByte cb t3 c
      (in_data (length body) (length body) (body @ drop (length body) (rfBuf (xb w))) ((set_rq q w)\<lparr>xb := s\<rparr>)) \<and>
    queued rest (set_rq q w)"
  let ?s = "(xb w)\<lparr>rfPos := 0, rfFrameLen := 0, rfState := XBEE_LENGTH, rfFrameTimer := t0 + XBEE_RECV_FRAME_TO\<rparr>"
  have le: "n1 \<le> t0 + 2000" "n2 \<le> t0 + 2000" "n3 \<le> t0 + 2000" "\<forall>t\<in>set us. fst t \<le> t0 + 2000"
    using assms(6) by (auto simp: ts frame_schedule_def)
  obtain q1 where q1: "xbee_run cb [(n0, t0), (n1, t1), (n2, t2)] w =
      Some (in_data (length body) 0 (rfBuf (xb w)) ((set_rq q1 w)\<lparr>xb := ?s\<rparr>))" "queued (body @ c # rest) (set_rq q1 w)"
    using run_header[OF assms(1,2,5) le(1,2), of cb n0 t1 t2] unfolding assms(4) by auto
  obtain q2 where q2: "xbee_run cb us (in_data (length body) 0 (rfBuf (xb w)) ((set_rq q1 w)\<lparr>xb := ?s\<rparr>)) =
      Some (in_data (length body) (length body) (body @ drop (length body) (rfBuf (xb w))) ((set_rq q2 w)\<lparr>xb := ?s\<rparr>))"
      "queued (c # rest) (set_rq q2 w)"
    using run_data[of "rfBuf (xb w)" 0 body "length body" "c # rest" "(set_rq q1 w)\<lparr>xb := ?s\<rparr>" us cb]
      assms(3,4) q1(2) le(4) ts(2) by auto
  let ?w = "in_data (length body) (length body) (body @ drop (length body) (rfBuf (xb w))) ((set_rq q2 w)\<lparr>xb := ?s\<rparr>)"
  have "?P (xbee_run cb [(n3, t3)] ?w)"
  proof (rule xbee_run_step[where P = ?P])
    show "queued (c # rest) ?w" using q2(2) by simp
    show "rfFrameTimer (xb ?w) = 0 \<or> n3 \<le> rfFrameTimer (xb ?w)" using le(3) by (simp add: in_data_def)
    fix q assume "queued rest (set_rq q ?w)"
    then show "?P (processByte cb t3 c (set_rq q ?w) \<bind> xbee_run cb [])"
      by (intro exI[of _ q] exI[of _ ?s]) (auto split: bind_split)
  qed
  then show ?thesis unfolding ts(1) xbee_run_append q1(1) using q2(1) by simp
qed

text \<open>
  A frame that announces 200 bytes or more makes the receiver write behind its buffer of
  200 bytes: the clipped length does not leave room for the checksum byte.
\<close>

theorem long_frame_overflow:
  assumes "rfState (xb w) = XBEE_FRAME" "rfFrameTimer (xb w) = 0" "length (rfBuf (xb w)) = 200"
    and "200 \<le> 256 * unat hi + unat lo" "length body = 200"
    and "queued ([XBEE_START_DEL, hi, lo] @ body @ c # rest) w" "frame_schedule 200 ts"
  shows "xbee_run cb ts w = None"
proof -
  have "length body = min 200 (256 * unat hi + unat lo)" "frame_schedule (length body) ts" using assms by simp_all
  from run_body[OF assms(1-3) this(1) assms(6) this(2), of cb] assms(3,5) show ?thesis
    by (auto simp: processByte_def in_data_def Let_def)
qed

lemma run_frame:
  assumes "rfState (xb w) = XBEE_FRAME" "rfFrameTimer (xb w) = 0" "length (rfBuf (xb w)) = 200"
    and "length body = 256 * unat hi + unat lo" "length body < 200"
    and "queued ([XBEE_START_DEL, hi, lo] @ body @ c # rest) w" "frame_schedule (length body) ts"
  shows "\<exists>q s. xbee_run cb ts w = processFrame cb (body @ [c] @ drop (length body + 1) (rfBuf (xb w))) (length body + 1)
      ((set_rq q w)\<lparr>xb := s\<rparr>) \<and>
    rfState s = XBEE_FRAME \<and> rfFrameTimer s = 0 \<and> queued rest (set_rq q w)"
proof -
  have "length body = min 200 (256 * unat hi + unat lo)" using assms by simp
  from run_body[OF assms(1-3) this assms(6,7), of cb] obtain q s where
    q: "queued rest (set_rq q w)" "xbee_run cb ts w = processByte cb (snd (last ts)) c
      (in_data (length body) (length body) (body @ drop (length body) (rfBuf (xb w))) ((set_rq q w)\<lparr>xb := s\<rparr>))"
    by blast
  show ?thesis
    unfolding q(2) using q(1) assms(3,5)
    by (subst processByte_last) (auto intro!: exI[of _ q])
qed

text \<open>
  \<^bold>\<open>C3\<close>. A packet that the module delivers as an API frame into the UART queue of an idle receiver
  reaches the data call-back, once and with the address, signal strength and payload it was sent
  with, after one call of \<^verbatim>\<open>xbee_task\<close> for each byte within the frame time-out; the bytes behind
  the frame stay queued and the receiver is ready for the next frame.
\<close>

theorem rx64_delivered:
  assumes "rfState (xb w) = XBEE_FRAME" "rfFrameTimer (xb w) = 0" "length (rfBuf (xb w)) = 200"
    and "length payload < 180" "data_cb t = Some f" "body = rx64_body addrHi addrLo rssi opt payload"
    and "queued ([XBEE_START_DEL, 0, word_of_nat (length body)] @ body @ checksum body # rest) w"
    and "frame_schedule (length body) ts"
  shows "\<exists>w' pad. xbee_run (Some t) ts w = f addrHi addrLo rssi (payload @ pad) (word_of_nat (length payload)) w' \<and>
    rfState (xb w') = XBEE_FRAME \<and> rfFrameTimer (xb w') = 0 \<and> queued rest w' \<and> cl w' = cl w"
proof -
  have l: "length body = 11 + length payload" by (simp add: assms(6) rx64_body_def xaddr.length_enc)
  have h: "length body = 256 * unat (0 :: u8) + unat (word_of_nat (length body) :: u8)"
    using l assms(4) unat_of_nat_u8[of "length body"] by simp
  have "length body < 200" using l assms(4) by simp
  from run_frame[OF assms(1-3) h this assms(7,8), of "Some t"] obtain q s where
    q: "xbee_run (Some t) ts w = f addrHi addrLo rssi
        (payload @ [checksum body] @ drop (length body + 1) (rfBuf (xb w))) (word_of_nat (length payload)) ((set_rq q w)\<lparr>xb := s\<rparr>)"
      "rfState s = XBEE_FRAME" "rfFrameTimer s = 0" "queued rest (set_rq q w)"
    unfolding processFrame_rx64[OF assms(6,5,4)] by blast
  show ?thesis
    by (rule exI[of _ "(set_rq q w)\<lparr>xb := s\<rparr>"]) (use q in auto)
qed

text \<open>
  A frame whose checksum byte is not the checksum of its bytes is dropped: no call-back runs,
  the client state is unchanged and the receiver is ready for the next frame.
\<close>

theorem corrupt_frame_dropped:
  assumes "rfState (xb w) = XBEE_FRAME" "rfFrameTimer (xb w) = 0" "length (rfBuf (xb w)) = 200"
    and "length body = 256 * unat hi + unat lo" "length body < 200" "c \<noteq> checksum body"
    and "queued ([XBEE_START_DEL, hi, lo] @ body @ c # rest) w" "frame_schedule (length body) ts"
  shows "\<exists>w'. xbee_run cb ts w = Some w' \<and> cl w' = cl w \<and> queued rest w' \<and>
    rfState (xb w') = XBEE_FRAME \<and> rfFrameTimer (xb w') = 0"
proof -
  have "checksum (body @ [c]) \<noteq> 0" using assms(6) by (simp add: checksum_def eq_diff_eq add.commute)
  then have "processFrame cb (body @ [c] @ drop (length body + 1) (rfBuf (xb w))) (length body + 1) v = Some v" for v :: "'a xworld"
    by (simp add: processFrame_def)
  with run_frame[OF assms(1-5,7,8), of cb] show ?thesis by fastforce
qed

section \<open>Transmission\<close>

text \<open>Line status observations that let a transfer of \<open>n\<close> bytes complete.\<close>

definition lsr_ready :: "nat \<Rightarrow> u8 list \<Rightarrow> bool" where
  "lsr_ready n l \<longleftrightarrow> (\<forall>x \<in> set l. x AND UART_LSR_THRE \<noteq> 0) \<and> n \<le> 16 * length l"

definition sent :: "'c xworld \<Rightarrow> u8 list" where
  "sent w = U_THR (u_regs (uhw (io w)) UART1)"

lemma rf_transmit_ready:
  assumes "lsrs i = l # ls" "lsr_ready (length bs) l"
  shows "\<exists>h. rf_transmit bs i = Some (i\<lparr>uhw := h, lsrs := ls\<rparr>) \<and>
    U_THR (u_regs h UART1) = U_THR (u_regs (uhw i) UART1) @ bs"
proof -
  have "\<exists>h. rf_uart_send bs (length bs) BLOCKING l (uhw i) = Some (length bs, h)"
    using send_all[of l bs UART1 "uhw i"] assms(2) by (auto simp: rf_uart_send_def UART_Send_def lsr_ready_def)
  then obtain h where h: "rf_uart_send bs (length bs) BLOCKING l (uhw i) = Some (length bs, h)" by blast
  then have "U_THR (u_regs h UART1) = U_THR (u_regs (uhw i) UART1) @ bs"
    using UART_Send_prefix unfolding rf_uart_send_def by fastforce
  then show ?thesis using h assms(1) by (intro exI[of _ h]) (simp add: rf_transmit_def)
qed

text \<open>
  \<^bold>\<open>C25\<close>. \<^verbatim>\<open>xbee_send\<close> of up to 20 bytes on an initialised driver writes to the UART exactly one
  well-formed API frame that carries the address, a frame identifier that is not 0 and the
  payload, and stores that identifier for the caller; the length byte counts the frame body and
  the checksum byte completes the byte sum of the body to 0xFF.
\<close>

theorem xbee_send_frame:
  assumes "initialized (xb w)" "unat len \<le> 20" "unat len \<le> length data"
    and "lsrs (io w) = l # ls" "lsr_ready (unat len + 15) l"
  shows "\<exists>fid w' body. xbee_send addrHi addrLo data len w = Some (ERR_OK, Some fid, w') \<and> fid \<noteq> 0 \<and>
    body = [XBEE_API_ID_TX_64, fid] @ int32bitToBuf addrHi @ int32bitToBuf addrLo @ [0] @ take (unat len) data \<and>
    sent w' = sent w @ [XBEE_START_DEL, 0, word_of_nat (length body)] @ body @ [checksum body] \<and>
    sum_list body + checksum body = 0xFF \<and> unat (word_of_nat (length body) :: u8) = length body"
proof -
  obtain fid s where g: "getFrameId (xb w) = (fid, s)" by fastforce
  let ?fr = "tx64_frame fid addrHi addrLo (take (unat len) data)"
  let ?body = "[XBEE_API_ID_TX_64, fid] @ int32bitToBuf addrHi @ int32bitToBuf addrLo @ [0] @ take (unat len) data"
  have lb: "length ?body = unat len + 11" using assms(3) by (simp add: xaddr.length_enc)
  have fr: "?fr = [XBEE_START_DEL, 0, word_of_nat (length ?body)] @ ?body @ [checksum ?body]"
    unfolding tx64_frame_def Let_def lb using assms(3) by (simp add: add.commute)
  then have "length ?fr = unat len + 15" using lb by simp
  with rf_transmit_ready[OF assms(4), of ?fr] assms(5) obtain h where
    h: "rf_transmit ?fr (io w) = Some ((io w)\<lparr>uhw := h, lsrs := ls\<rparr>)"
      "U_THR (u_regs h UART1) = U_THR (u_regs (uhw (io w)) UART1) @ ?fr" by auto
  have "unat (word_of_nat (length ?body) :: u8) = length ?body"
    using assms(2) lb by (intro unat_of_nat_u8) simp
  moreover have "sum_list ?body + checksum ?body = 0xFF" unfolding checksum_def by simp
  moreover have "fid \<noteq> 0" using getFrameId_nonzero[of "xb w"] g by simp
  moreover have "xbee_send addrHi addrLo data len w =
      Some (ERR_OK, Some fid, w\<lparr>xb := s, io := (io w)\<lparr>uhw := h, lsrs := ls\<rparr>\<rparr>)"
    using assms(1-3) g h(1) by (simp add: xbee_send_def apiTx64_def not_less)
  ultimately show ?thesis using h(2) fr by (auto simp: sent_def)
qed

section \<open>Initialisation dialogue\<close>

lemma rl_loop_step:
  assumes "rxq_inv q" "rxq_list q = d # ds" "now < t" "pos < bufLen" "bufLen \<le> length buf"
  shows "\<exists>q'. rxq_inv q' \<and> rxq_list q' = ds \<and> rl_loop t bufLen pos buf ((now, []) # obs) q =
    (if d = CR then Some (pos, buf[pos := 0], obs, q') else rl_loop t bufLen (pos + 1) (buf[pos := d]) obs q')"
proof -
  obtain q' where q: "rf_uart_receive 1 q = ([d], q')" "rxq_list q' = ds" "rxq_inv q'"
    using assms(1,2) rf_uart_receive_eq[of q "[d]" ds 1] by auto
  then show ?thesis using assms(3-5) by (intro exI[of _ q']) (simp del: rf_uart_receive.simps)
qed

lemma rl_loop_line:
  assumes "rxq_inv q" "rxq_list q = line @ CR # ds" "CR \<notin> set line" "\<forall>n \<in> set ns. n < t"
    and "length ns = length line + 1" "pos + length line < bufLen" "bufLen \<le> length buf"
  shows "\<exists>q'. rxq_inv q' \<and> rxq_list q' = ds \<and>
    rl_loop t bufLen pos buf (map (\<lambda>n. (n, [])) ns @ obs) q =
      Some (pos + length line, take pos buf @ line @ 0 # drop (pos + length line + 1) buf, obs, q')"
  using assms
proof (induction line arbitrary: q ns pos buf)
  case Nil
  then obtain n where ns: "ns = [n]" by (auto simp: length_Suc_conv)
  with Nil rl_loop_step[of q CR ds n t pos bufLen buf obs] show ?case
    by (auto simp: upd_conv_take_nth_drop)
next
  case (Cons d line)
  then obtain n ns' where ns: "ns = n # ns'" by (auto simp: length_Suc_conv)
  obtain q1 where q1: "rxq_inv q1" "rxq_list q1 = line @ CR # ds"
     "rl_loop t bufLen pos buf ((n, []) # map (\<lambda>n. (n, [])) ns' @ obs) q =
      rl_loop t bufLen (pos + 1) (buf[pos := d]) (map (\<lambda>n. (n, [])) ns' @ obs) q1"
    using Cons.prems ns rl_loop_step[of q d "line @ CR # ds" n t pos bufLen buf "map (\<lambda>n. (n, [])) ns' @ obs"] by auto
  from Cons.IH[OF q1(1,2), of ns' "pos + 1" "buf[pos := d]"] show ?case
    unfolding ns using q1(3) Cons.prems ns by (auto simp: take_wr)
qed

text \<open>
  What \<^verbatim>\<open>readLine\<close> observes when the module answers \<^verbatim>\<open>OK\<close> before the first look at the clock:
  \<open>t0\<close> is the time of the first look, \<open>ns\<close> the times of the following ones.
\<close>

definition ok_reply :: "u32 \<times> u32 list \<Rightarrow> rl_obs" where
  "ok_reply r = (fst r, [0x4F, 0x4B, CR]) # map (\<lambda>n. (n, [])) (snd r)"

definition timely :: "u32 \<Rightarrow> u32 \<times> u32 list \<Rightarrow> bool" where
  "timely timeout r \<longleftrightarrow> length (snd r) = 4 \<and> (\<forall>n \<in> set (snd r). n < fst r + timeout)"

lemma readLine_OK:
  assumes "timely timeout r" "rxq_inv q" "rxq_list q = []" "length g = 10"
  shows "\<exists>q'. readLine g 10 timeout (ok_reply r @ obs) q = Some (2, [0x4F, 0x4B, 0] @ drop 3 g, obs, q') \<and>
    rxq_inv q' \<and> rxq_list q' = []"
proof -
  obtain t0 n1 n2 n3 n4 where r: "r = (t0, [n1, n2, n3, n4])"
    using assms(1) by (cases r) (auto simp: timely_def length_Suc_conv numeral_eq_Suc)
  let ?q = "fold rxq_put [0x4F, 0x4B, CR] q" and ?t = "t0 + timeout"
  have q: "rxq_inv ?q" "rxq_list ?q = [0x4F, 0x4B] @ CR # []"
    using uartq.fold_put_elems[OF assms(2), of "[0x4F, 0x4B, CR]"] assms(3) by simp_all
  have "\<exists>q'. rxq_inv q' \<and> rxq_list q' = [] \<and>
    rl_loop ?t 10 0 g (map (\<lambda>n. (n, [])) [n1, n2, n3] @ (n4, []) # obs) ?q =
      Some (0 + length [0x4F, 0x4B :: u8], take 0 g @ [0x4F, 0x4B] @ 0 # drop (0 + length [0x4F, 0x4B :: u8] + 1) g, (n4, []) # obs, q')"
    using assms(1,4) unfolding r by (intro rl_loop_line[OF q]) (auto simp: timely_def)
  then obtain q' where q': "rxq_inv q'" "rxq_list q' = []"
    "rl_loop ?t 10 0 g ((n1, []) # (n2, []) # (n3, []) # (n4, []) # obs) ?q =
      Some (2, [0x4F, 0x4B, 0] @ drop 3 g, (n4, []) # obs, q')" by (auto simp: numeral_eq_Suc)
  have "n4 < ?t" using assms(1) by (simp add: r timely_def)
  then have "\<not> ?t \<le> n4" by simp
  then show ?thesis
    using q' by (intro exI[of _ q']) (simp add: readLine_def ok_reply_def r Let_def del: rl_loop.simps fold_simps)
qed

lemma is_OK_OK: "is_OK ([0x4F, 0x4B, 0] @ rest) = Some True"
  by (simp add: is_OK_def)

lemma commandMode_OK:
  assumes "queued [] w" "length g = 10" "timely 1200 r" "lsrs (io w) = l # ls" "lsr_ready 16 l"
  shows "\<exists>w'. commandMode g (ok_reply r @ obs) w = Some (ERR_OK, obs, w') \<and> queued [] w' \<and>
    lsrs (io w') = ls \<and> sent w' = sent w @ [0x2B, 0x2B, 0x2B] \<and> xb w' = xb w"
proof -
  have "lsr_ready (length [0x2B, 0x2B, 0x2B :: u8]) l" using assms(5) by (simp add: lsr_ready_def)
  from rf_transmit_ready[OF assms(4) this] obtain h where
    h: "rf_transmit [0x2B, 0x2B, 0x2B] (io w) = Some ((io w)\<lparr>uhw := h, lsrs := ls\<rparr>)"
      "U_THR (u_regs h UART1) = sent w @ [0x2B, 0x2B, 0x2B]" by (auto simp: sent_def)
  obtain q where "readLine g 10 1200 (ok_reply r @ obs) (rq (io w)) = Some (2, [0x4F, 0x4B, 0] @ drop 3 g, obs, q)"
    "rxq_inv q" "rxq_list q = []"
    using readLine_OK[OF assms(3) _ _ assms(2)] assms(1) by (auto simp: queued_def)
  then show ?thesis using h is_OK_OK[of "drop 3 g"]
    by (simp add: commandMode_def Let_def queued_def sent_def)
qed

lemma atSet_OK:
  assumes "queued [] w" "length g = 10" "timely 1000 r" "lsrs (io w) = l1 # l2 # ls"
    and "lsr_ready 16 l1" "lsr_ready 16 l2" "length c \<le> 16"
  shows "\<exists>w'. atSet g c (ok_reply r @ obs) w = Some (ERR_OK, obs, w') \<and> queued [] w' \<and>
    lsrs (io w') = ls \<and> sent w' = sent w @ c @ [CR] \<and> xb w' = xb w"
proof -
  have "lsr_ready (length c) l1" using assms(5,7) by (simp add: lsr_ready_def)
  from rf_transmit_ready[OF assms(4) this] obtain h1 where
    h1: "rf_transmit c (io w) = Some ((io w)\<lparr>uhw := h1, lsrs := l2 # ls\<rparr>)"
      "U_THR (u_regs h1 UART1) = sent w @ c" by (auto simp: sent_def)
  have "lsr_ready (length [CR]) l2" using assms(6) by (simp add: lsr_ready_def)
  from rf_transmit_ready[of "(io w)\<lparr>uhw := h1, lsrs := l2 # ls\<rparr>", OF _ this] obtain h2 where
    h2: "rf_transmit [CR] ((io w)\<lparr>uhw := h1, lsrs := l2 # ls\<rparr>) = Some ((io w)\<lparr>uhw := h2, lsrs := ls\<rparr>)"
      "U_THR (u_regs h2 UART1) = sent w @ c @ [CR]" using h1(2) by auto
  obtain q where "readLine g 10 1000 (ok_reply r @ obs) (rq (io w)) = Some (2, [0x4F, 0x4B, 0] @ drop 3 g, obs, q)"
    "rxq_inv q" "rxq_list q = []"
    using readLine_OK[OF assms(3) _ _ assms(2)] assms(1) by (auto simp: queued_def)
  then show ?thesis using h1(1) h2 is_OK_OK[of "drop 3 g"]
    by (simp add: atSet_def atGet_def Let_def queued_def sent_def)
qed

lemma at_sequence_OK:
  assumes "queued [] w" "length g = 10" "length rs = length cs" "\<forall>r \<in> set rs. timely 1000 r"
    and "length (lsrs (io w)) = 2 * length cs" "\<forall>l \<in> set (lsrs (io w)). lsr_ready 16 l" "\<forall>c \<in> set cs. length c \<le> 16"
  shows "\<exists>w'. at_sequence g cs (concat (map ok_reply rs) @ obs) w = Some (ERR_OK, obs, w') \<and> queued [] w' \<and>
    sent w' = sent w @ concat (map (\<lambda>c. c @ [CR]) cs) \<and> xb w' = xb w"
  using assms
proof (induction cs arbitrary: rs w)
  case Nil
  then show ?case by simp
next
  case (Cons c cs)
  obtain r rs' where rs: "rs = r # rs'" using Cons.prems(3) by (cases rs) auto
  obtain l1 l2 ls where l: "lsrs (io w) = l1 # l2 # ls"
    using Cons.prems(5) by (cases "lsrs (io w)" rule: remdups_adj.cases) auto
  from atSet_OK[OF Cons.prems(1,2) _ l, of r c "concat (map ok_reply rs') @ obs"] Cons.prems rs l obtain w1 where
    w1: "atSet g c (ok_reply r @ concat (map ok_reply rs') @ obs) w = Some (ERR_OK, concat (map ok_reply rs') @ obs, w1)"
      "queued [] w1" "lsrs (io w1) = ls" "sent w1 = sent w @ c @ [CR]" "xb w1 = xb w" by auto
  have "\<exists>w'. at_sequence g cs (concat (map ok_reply rs') @ obs) w1 = Some (ERR_OK, obs, w') \<and> queued [] w' \<and>
    sent w' = sent w1 @ concat (map (\<lambda>c. c @ [CR]) cs) \<and> xb w' = xb w1"
    using Cons.prems rs l w1 by (intro Cons.IH) auto
  with w1 rs show ?case by auto
qed

lemma init_cmds_length: "\<forall>c \<in> set (init_cmds type). length c \<le> 16"
  by (simp add: init_cmds_def ascii_def)


section \<open>Witnesses\<close>

text \<open>A client that records the packets it is given, and a world with given bytes in the UART queue.\<close>

type_synonym rx_log = "(u32 \<times> u32 \<times> u8 \<times> u8 list) list"

definition log_data :: "u32 \<Rightarrow> u32 \<Rightarrow> u8 \<Rightarrow> u8 list \<Rightarrow> u8 \<Rightarrow> rx_log xworld \<Rightarrow> rx_log xworld option" where
  "log_data hi lo rssi buf len w = Some (w\<lparr>cl := cl w @ [(hi, lo, rssi, take (unat len) buf)]\<rparr>)"

definition log_cbs :: "rx_log xworld xbee_callb_t" where
  "log_cbs = \<lparr>up_cb = None, node_cb = None, txStat_cb = None, data_cb = Some log_data\<rparr>"

definition xworld0 :: "u8 list list \<Rightarrow> u8 list \<Rightarrow> rx_log xworld" where
  "xworld0 ls bs = \<lparr>xb = xbee_state0\<lparr>initialized := True\<rparr>,
     io = \<lparr>uhw = uart_hw0, lsrs = ls, rq = fold rxq_put bs rxq_state0\<rparr>, cl = []\<rparr>"

lemma xworld0_simps [simp]:
  "rfState (xb (xworld0 ls bs)) = XBEE_FRAME" "length (rfBuf (xb (xworld0 ls bs))) = 200"
  "initialized (xb (xworld0 ls bs))" "rfFrameTimer (xb (xworld0 ls bs)) = 0" "cl (xworld0 ls bs) = []"
  "lsrs (io (xworld0 ls bs)) = ls" "sent (xworld0 ls bs) = []"
  by (simp_all add: xworld0_def xbee_state0_def sent_def uart_hw0_def)

lemma queued_xworld0: "length bs \<le> 255 \<Longrightarrow> queued bs (xworld0 ls bs)"
  using uartq.fold_put_elems[of rxq_state0 bs]
  by (simp add: queued_def xworld0_def rxq_inv_def rxq_state0_def rxq_list_def ring_list_def ring_len_def)

theorem long_frame_overflow_example:
  "xbee_run (Some log_cbs) (replicate 204 (0, 0)) (xworld0 [] ([0x7E, 0xFF, 0xFF] @ replicate 200 1 @ [0])) = None"
  by (rule long_frame_overflow[of _ "0xFF" "0xFF" "replicate 200 1" 0 "[]"])
    (simp_all add: queued_xworld0 frame_schedule_def)

theorem rx64_delivered_witness:
  "\<exists>w' pad. xbee_run (Some log_cbs) (replicate 17 (0, 0))
      (xworld0 [] ([0x7E, 0, 13] @ rx64_body 1 2 40 0 [3, 4] @ [checksum (rx64_body 1 2 40 0 [3, 4])])) =
    log_data 1 2 40 ([3, 4] @ pad) 2 w' \<and> cl w' = []"
proof -
  have l: "length (rx64_body 1 2 40 0 [3, 4]) = 13" by (simp add: rx64_body_def xaddr.length_enc)
  from rx64_delivered[OF _ _ _ _ _ refl queued_xworld0, of "[]" 1 2 40 0 "[3, 4]" "[]" log_cbs log_data "replicate 17 (0, 0)"]
  show ?thesis unfolding l by (auto simp: l log_cbs_def frame_schedule_def)
qed

theorem corrupt_frame_dropped_example:
  "\<exists>w'. xbee_run (Some log_cbs) (replicate 6 (0, 0)) (xworld0 [] [0x7E, 0, 2, 0x8A, 6, 0]) = Some w' \<and> cl w' = []"
  using corrupt_frame_dropped[of "xworld0 [] [0x7E, 0, 2, 0x8A, 6, 0]" "[0x8A, 6]" 0 2 0 "[]" "replicate 6 (0, 0)" "Some log_cbs"]
  by (auto simp: queued_xworld0 frame_schedule_def checksum_def)

theorem xbee_send_frame_witness:
  "\<exists>fid w'. xbee_send 1 2 [9, 8] 2 (xworld0 [[0x20, 0x20]] []) = Some (ERR_OK, Some fid, w') \<and> fid \<noteq> 0"
  using xbee_send_frame[of "xworld0 [[0x20, 0x20]] []" 2 "[9, 8]" "[0x20, 0x20]" "[]" 1 2]
  by (auto simp: lsr_ready_def)

end
