(* ===== verification/BoardIo.thy ===== *)
theory BoardIo
  imports Clkpwr Pins
begin

unbundle bit_operations_syntax

text \<open>
  The small drivers of the board: GPIO ports (\<^verbatim>\<open>Lib_MCU/src/lpc17xx_gpio.c\<close>, word access), the two
  RGB LEDs (\<^verbatim>\<open>rgb.c\<close>), the buttons (\<^verbatim>\<open>btn.c\<close>), the millisecond clock (\<^verbatim>\<open>time.c\<close>) and the
  trimming potentiometer on the A/D converter (\<^verbatim>\<open>board.c\<close>, \<^verbatim>\<open>lpc17xx_adc.c\<close>).

  A GPIO port is its direction register, its mask register and its output latch, which is what
  writes to FIOSET and FIOCLR change, except for masked bits. Reads of FIOPIN and of the A/D data
  registers are observations.
\<close>

section \<open>GPIO\<close>

record LPC_GPIO_TypeDef =
  FIODIR :: u32
  FIOMASK :: u32
  FIOLATCH :: u32

type_synonym gpio_ports = "nat \<Rightarrow> LPC_GPIO_TypeDef"

text \<open>
  Access through \<^verbatim>\<open>GPIO_GetPointer\<close>: a port number above 4 gives the null pointer, which every
  function checks before the access.
\<close>

definition with_port :: "u8 \<Rightarrow> (LPC_GPIO_TypeDef \<Rightarrow> LPC_GPIO_TypeDef) \<Rightarrow> gpio_ports \<Rightarrow> gpio_ports" where
  "with_port portNum f g = (if unat portNum \<le> 4 then g(unat portNum := f (g (unat portNum))) else g)"

definition GPIO_SetDir :: "u8 \<Rightarrow> u32 \<Rightarrow> u8 \<Rightarrow> gpio_ports \<Rightarrow> gpio_ports" where
  "GPIO_SetDir portNum bitValue dir = with_port portNum (\<lambda>p.
     if dir \<noteq> 0 then p\<lparr>FIODIR := FIODIR p OR bitValue\<rparr> else p\<lparr>FIODIR := FIODIR p AND NOT bitValue\<rparr>)"

definition GPIO_SetValue :: "u8 \<Rightarrow> u32 \<Rightarrow> gpio_ports \<Rightarrow> gpio_ports" where
  "GPIO_SetValue portNum bitValue = with_port portNum (\<lambda>p.
     p\<lparr>FIOLATCH := FIOLATCH p OR (bitValue AND NOT (FIOMASK p))\<rparr>)"

definition GPIO_ClearValue :: "u8 \<Rightarrow> u32 \<Rightarrow> gpio_ports \<Rightarrow> gpio_ports" where
  "GPIO_ClearValue portNum bitValue = with_port portNum (\<lambda>p.
     p\<lparr>FIOLATCH := FIOLATCH p AND NOT (bitValue AND NOT (FIOMASK p))\<rparr>)"

text \<open>\<open>pin\<close> is the value that a read of FIOPIN of that port gives.\<close>

definition GPIO_ReadValue :: "u8 \<Rightarrow> u32 \<Rightarrow> u32" where
  "GPIO_ReadValue portNum pin = (if unat portNum \<le> 4 then pin else 0)"

definition FIO_SetMask :: "u8 \<Rightarrow> u32 \<Rightarrow> u8 \<Rightarrow> gpio_ports \<Rightarrow> gpio_ports" where
  "FIO_SetMask portNum bitValue maskValue = with_port portNum (\<lambda>p.
     if maskValue \<noteq> 0 then p\<lparr>FIOMASK := FIOMASK p OR bitValue\<rparr> else p\<lparr>FIOMASK := FIOMASK p AND NOT bitValue\<rparr>)"

section \<open>RGB LEDs\<close>

datatype rgb_led_t = LED_6 | LED_7

abbreviation (input) RGB_RED :: u8 where "RGB_RED \<equiv> 0x01"
abbreviation (input) RGB_BLUE :: u8 where "RGB_BLUE \<equiv> 0x02"
abbreviation (input) RGB_GREEN :: u8 where "RGB_GREEN \<equiv> 0x04"

definition rgb_init :: "gpio_ports \<Rightarrow> gpio_ports" where
  "rgb_init g =
     (let g1 = GPIO_SetDir 2 (push_bit 2 1) 1 (GPIO_SetDir 2 (push_bit 1 1) 1 (GPIO_SetDir 2 (push_bit 0 1) 1 g));
          g2 = GPIO_SetValue 2 (push_bit 0 1 OR push_bit 1 1 OR push_bit 2 1) g1;
          g3 = GPIO_SetDir 2 (push_bit 5 1) 1 (GPIO_SetDir 2 (push_bit 4 1) 1 (GPIO_SetDir 2 (push_bit 3 1) 1 g2))
      in GPIO_SetValue 2 (push_bit 3 1 OR push_bit 4 1 OR push_bit 5 1) g3)"

text \<open>\<^verbatim>\<open>if (cond) action\<close>\<close>

definition do_if :: "bool \<Rightarrow> ('a \<Rightarrow> 'a) \<Rightarrow> 'a \<Rightarrow> 'a" where
  "do_if b f x = (if b then f x else x)"

definition rgb_setLeds :: "rgb_led_t \<Rightarrow> u8 \<Rightarrow> u8 \<Rightarrow> gpio_ports \<Rightarrow> gpio_ports" where
  "rgb_setLeds led ledOnMask ledOffMask g =
     (let r = (if led = LED_6 then 0 else 3);
          g1 = do_if (ledOffMask AND RGB_RED \<noteq> 0) (GPIO_SetValue 2 (push_bit r 1)) g;
          g2 = do_if (ledOffMask AND RGB_BLUE \<noteq> 0) (GPIO_SetValue 2 (push_bit (r + 1) 1)) g1;
          g3 = do_if (ledOffMask AND RGB_GREEN \<noteq> 0) (GPIO_SetValue 2 (push_bit (r + 2) 1)) g2;
          g4 = do_if (ledOnMask AND RGB_RED \<noteq> 0) (GPIO_ClearValue 2 (push_bit r 1)) g3;
          g5 = do_if (ledOnMask AND RGB_BLUE \<noteq> 0) (GPIO_ClearValue 2 (push_bit (r + 1) 1)) g4
      in do_if (ledOnMask AND RGB_GREEN \<noteq> 0) (GPIO_ClearValue 2 (push_bit (r + 2) 1)) g5)"

section \<open>Buttons\<close>

abbreviation (input) BTN_SW2 :: u8 where "BTN_SW2 \<equiv> 0x01"
abbreviation (input) BTN_SW3 :: u8 where "BTN_SW3 \<equiv> 0x02"

definition btn_init :: "gpio_ports \<Rightarrow> gpio_ports" where
  "btn_init g = GPIO_SetDir 2 (push_bit 12 1) 0 (GPIO_SetDir 2 (push_bit 11 1) 0 g)"

text \<open>\<open>pin\<close> is the observed value of the pins of port 2.\<close>

definition btn_get :: "u32 \<Rightarrow> u8" where
  "btn_get pin =
     (let v = GPIO_ReadValue 2 pin;
          res = (if v AND push_bit 11 1 = 0 then 0 OR BTN_SW2 else 0)
      in if v AND push_bit 12 1 = 0 then res OR BTN_SW3 else res)"

section \<open>Time\<close>

record time_state =
  timeMs :: u32
  t1_ir :: u32

definition time_get :: "time_state \<Rightarrow> u32" where
  "time_get t = timeMs t"

text \<open>The interrupt handler; writing a 1 to the interrupt register clears the pending bit of MR0.\<close>

definition TIMER1_IRQHandler :: "time_state \<Rightarrow> time_state" where
  "TIMER1_IRQHandler t = t\<lparr>timeMs := timeMs t + 1, t1_ir := t1_ir t AND NOT 1\<rparr>"

section \<open>A/D converter and trimming potentiometer\<close>

record LPC_ADC_TypeDef =
  ADCR :: u32
  ADINTEN :: u32

abbreviation (input) ADC_CHANNEL_5 :: u8 where "ADC_CHANNEL_5 \<equiv> 5"
abbreviation (input) ADC_START_NOW :: u8 where "ADC_START_NOW \<equiv> 1"

definition ADC_Init :: "u32 \<Rightarrow> u32 \<Rightarrow> LPC_SC_TypeDef \<Rightarrow> LPC_ADC_TypeDef \<Rightarrow> (LPC_SC_TypeDef \<times> LPC_ADC_TypeDef) option" where
  "ADC_Init core_clock ConvFreq sc a = do {
     CHECK_PARAM (ConvFreq \<le> 13000000);
     let sc' = CLKPWR_ConfigPPWR (push_bit 12 1) ENABLE sc;
     (if ConvFreq = 0 then None
      else Some (sc', a\<lparr>ADCR := push_bit 21 1 OR push_bit 8 (CLKPWR_GetPCLK core_clock 24 sc' div ConvFreq - 1)\<rparr>))
   }"

definition ADC_StartCmd :: "u8 \<Rightarrow> LPC_ADC_TypeDef \<Rightarrow> LPC_ADC_TypeDef option" where
  "ADC_StartCmd start_mode a = do {
     CHECK_PARAM (start_mode \<le> 7);
     Some (a\<lparr>ADCR := (ADCR a AND NOT (push_bit 24 7)) OR push_bit 24 (ucast start_mode)\<rparr>)
   }"

definition ADC_IntConfig :: "u8 \<Rightarrow> FunctionalState \<Rightarrow> LPC_ADC_TypeDef \<Rightarrow> LPC_ADC_TypeDef option" where
  "ADC_IntConfig IntType st a = do {
     CHECK_PARAM (IntType \<le> 8);
     let cleared = ADINTEN a AND NOT (push_bit (unat IntType) 1);
     Some (a\<lparr>ADINTEN := (if st = ENABLE then cleared OR push_bit (unat IntType) 1 else cleared)\<rparr>)
   }"

text \<open>
  \<^verbatim>\<open>PARAM_ADC_CHANNEL_SELECTION\<close> is true for every value, because four of its disjuncts are
  non-zero constants; a channel above 31 makes the shift undefined.
\<close>

definition ADC_ChannelCmd :: "u8 \<Rightarrow> FunctionalState \<Rightarrow> LPC_ADC_TypeDef \<Rightarrow> LPC_ADC_TypeDef option" where
  "ADC_ChannelCmd Channel st a =
     (if unat Channel \<ge> 32 then None
      else Some (a\<lparr>ADCR := (if st = ENABLE then ADCR a OR push_bit (unat Channel) 1
                            else ADCR a AND NOT (push_bit (unat Channel) 1))\<rparr>))"

text \<open>\<open>v\<close> is the value read from the data register of the channel.\<close>

definition ADC_ChannelGetData :: "u32 \<Rightarrow> u16" where
  "ADC_ChannelGetData v = ucast (drop_bit 4 v AND 0xFFF)"

definition ADC_ChannelGetStatus :: "u32 \<Rightarrow> u32 \<Rightarrow> bool option" where
  "ADC_ChannelGetStatus v StatusType = do {
     CHECK_PARAM (StatusType \<le> 1);
     Some (v AND (if StatusType \<noteq> 0 then push_bit 31 1 else push_bit 30 1) \<noteq> 0)
   }"

text \<open>
  The functions of the A/D driver that the potentiometer does not use. \<open>v\<close> is again the value read from
  the data register, and \<open>gdr\<close> that of the global data register; the channel given to
  \<^verbatim>\<open>ADC_GlobalGetData\<close> is not used.
\<close>

definition ADC_DeInit :: "LPC_SC_TypeDef \<Rightarrow> LPC_ADC_TypeDef \<Rightarrow> LPC_SC_TypeDef \<times> LPC_ADC_TypeDef" where
  "ADC_DeInit sc a = (CLKPWR_ConfigPPWR (push_bit 12 1) DISABLE sc, a\<lparr>ADCR := ADCR a AND NOT (push_bit 21 1)\<rparr>)"

definition ADC_GetData :: "u32 \<Rightarrow> u32" where
  "ADC_GetData v = drop_bit 4 v AND 0xFFF"

definition set_adcr :: "nat \<Rightarrow> bool \<Rightarrow> LPC_ADC_TypeDef \<Rightarrow> LPC_ADC_TypeDef" where
  "set_adcr k b a = (let cleared = ADCR a AND NOT (push_bit k 1) in
     a\<lparr>ADCR := (if b then cleared OR push_bit k 1 else cleared)\<rparr>)"

definition ADC_BurstCmd :: "FunctionalState \<Rightarrow> LPC_ADC_TypeDef \<Rightarrow> LPC_ADC_TypeDef" where
  "ADC_BurstCmd st = set_adcr 16 (st = ENABLE)"

definition ADC_PowerdownCmd :: "FunctionalState \<Rightarrow> LPC_ADC_TypeDef \<Rightarrow> LPC_ADC_TypeDef" where
  "ADC_PowerdownCmd st = set_adcr 21 (st = ENABLE)"

definition ADC_EdgeStartConfig :: "u8 \<Rightarrow> LPC_ADC_TypeDef \<Rightarrow> LPC_ADC_TypeDef option" where
  "ADC_EdgeStartConfig EdgeOption a = do {
     CHECK_PARAM (EdgeOption \<le> 1);
     Some (set_adcr 27 (EdgeOption \<noteq> 0) a)
   }"

definition ADC_GlobalGetData :: "u8 \<Rightarrow> u32 \<Rightarrow> u16" where
  "ADC_GlobalGetData channel gdr = ucast (drop_bit 4 gdr AND 0xFFF)"

definition ADC_GlobalGetStatus :: "u32 \<Rightarrow> u32 \<Rightarrow> bool option" where
  "ADC_GlobalGetStatus gdr StatusType = do {
     CHECK_PARAM (StatusType \<le> 1);
     Some (gdr AND (if StatusType \<noteq> 0 then push_bit 31 1 else push_bit 30 1) \<noteq> 0)
   }"

definition trimpot_init ::
  "u32 \<Rightarrow> LPC_PINCON_TypeDef \<Rightarrow> LPC_SC_TypeDef \<Rightarrow> LPC_ADC_TypeDef
    \<Rightarrow> (LPC_PINCON_TypeDef \<times> LPC_SC_TypeDef \<times> LPC_ADC_TypeDef) option" where
  "trimpot_init core_clock pc sc a = do {
     pc' \<leftarrow> PINSEL_ConfigPin \<lparr>Portnum = 1, Pinnum = 31, Funcnum = 3, Pinmode = 0, OpenDrain = 0\<rparr> pc;
     (sc', a1) \<leftarrow> ADC_Init core_clock 1000000 sc a;
     a2 \<leftarrow> ADC_IntConfig ADC_CHANNEL_5 DISABLE a1;
     a3 \<leftarrow> ADC_ChannelCmd ADC_CHANNEL_5 ENABLE a2;
     Some (pc', sc', a3)
   }"

text \<open>The wait for the end of the conversion: \<open>obs\<close> are the values read from the data register.\<close>

fun adc_wait :: "u32 list \<Rightarrow> u32 list option" where
  "adc_wait [] = None"
| "adc_wait (v # obs) = do {
     done \<leftarrow> ADC_ChannelGetStatus v 1;
     (if done then Some obs else adc_wait obs)
   }"

definition trimpot_get :: "u32 list \<Rightarrow> LPC_ADC_TypeDef \<Rightarrow> (u16 \<times> u32 list \<times> LPC_ADC_TypeDef) option" where
  "trimpot_get obs a = do {
     a' \<leftarrow> ADC_StartCmd ADC_START_NOW a;
     obs1 \<leftarrow> adc_wait obs;
     (v, obs2) \<leftarrow> vread obs1;
     Some (ADC_ChannelGetData v, obs2, a')
   }"

section \<open>Properties\<close>

text \<open>The bits of port 2 that a colour mask of an LED stands for.\<close>

definition led_bits :: "rgb_led_t \<Rightarrow> u8 \<Rightarrow> u32" where
  "led_bits led m = push_bit (if led = LED_6 then 0 else 3) (ucast (m AND 7))"

lemma led_bits_alt:
  "led_bits led m = (let r = (if led = LED_6 then 0 else 3) in
     (if m AND RGB_RED \<noteq> 0 then push_bit r 1 else 0) OR (if m AND RGB_BLUE \<noteq> 0 then push_bit (r + 1) 1 else 0) OR
     (if m AND RGB_GREEN \<noteq> 0 then push_bit (r + 2) 1 else 0))"
proof -
  have b: "m AND RGB_RED \<noteq> 0 \<longleftrightarrow> bit m 0" "m AND RGB_BLUE \<noteq> 0 \<longleftrightarrow> bit m 1" "m AND RGB_GREEN \<noteq> 0 \<longleftrightarrow> bit m 2"
    using and_exp_eq_0_iff_not_bit[of m 0] and_exp_eq_0_iff_not_bit[of m 1] and_exp_eq_0_iff_not_bit[of m 2] by simp_all
  have 7: "(7 :: u8) = mask 3" by (simp add: mask_eq_exp_minus_1)
  have pb: "bit (if c then push_bit k (1 :: u32) else 0) n \<longleftrightarrow> c \<and> n = k \<and> k < 32" for c k n
    by (auto simp: bit_exp_iff)
  define r :: nat where "r = (if led = LED_6 then 0 else 3)"
  have r: "r \<le> 3" by (simp add: r_def)
  have "push_bit r (ucast (m AND 7)) = (if bit m 0 then push_bit r 1 else 0) OR (if bit m 1 then push_bit (r + 1) 1 else 0) OR
     (if bit m 2 then push_bit (r + 2) 1 else 0 :: u32)" (is "?l = ?r")
  proof (rule bit_word_eqI)
    fix n :: nat
    assume n: "n < LENGTH(32)"
    have l: "bit ?l n \<longleftrightarrow> r \<le> n \<and> bit m (n - r) \<and> n - r < 3"
      unfolding 7 using n by (auto simp: bit_simps)
    have rr: "bit ?r n \<longleftrightarrow> (bit m 0 \<and> n = r) \<or> (bit m 1 \<and> n = r + 1) \<or> (bit m 2 \<and> n = r + 2)"
      unfolding bit_or_iff pb using r by auto
    consider "n = r" | "n = r + 1" | "n = r + 2" | "n < r" | "r + 3 \<le> n" by linarith
    then show "bit ?l n = bit ?r n" unfolding l rr by cases auto
  qed
  then show ?thesis unfolding led_bits_def b by (simp only: r_def Let_def)
qed


text \<open>A conversion result has 12 bits, and the two ways to read a channel agree.\<close>

lemma adc_result_bound: "ADC_GetData v \<le> 0xFFF" "ucast (ADC_ChannelGetData v) = ADC_GetData v"
proof -
  show "ADC_GetData v \<le> 0xFFF" unfolding ADC_GetData_def by (rule word_and_le1)
  have m: "(0xFFF :: u32) = mask 12" by (simp add: mask_eq_exp_minus_1)
  show "ucast (ADC_ChannelGetData v) = ADC_GetData v"
    unfolding ADC_ChannelGetData_def ADC_GetData_def m
    by (rule bit_word_eqI) (auto simp: bit_simps)
qed

lemma do_if_set:
  "FIOMASK (g 2) = 0 \<Longrightarrow> do_if c (GPIO_SetValue 2 v) g = g(2 := (g 2)\<lparr>FIOLATCH := FIOLATCH (g 2) OR (if c then v else 0)\<rparr>)"
  "FIOMASK (g 2) = 0 \<Longrightarrow> do_if c (GPIO_ClearValue 2 v) g = g(2 := (g 2)\<lparr>FIOLATCH := FIOLATCH (g 2) AND NOT (if c then v else 0)\<rparr>)"
  by (simp_all add: do_if_def GPIO_SetValue_def GPIO_ClearValue_def with_port_def)

text \<open>
  \<^verbatim>\<open>rgb_setLeds\<close> drives exactly the three output bits of the chosen LED: it sets (turns off)
  those of the off mask and then clears (turns on) those of the on mask, which wins when a colour is
  in both; every other output bit, direction and port is unchanged.
\<close>

lemma rgb_setLeds_effect:
  assumes "FIOMASK (g 2) = 0"
  shows "rgb_setLeds led on off g =
    g(2 := (g 2)\<lparr>FIOLATCH := (FIOLATCH (g 2) OR led_bits led off) AND NOT (led_bits led on)\<rparr>)"
proof -
  define r :: nat where "r = (if led = LED_6 then 0 else 3)"
  define b0 b1 b2 :: u32 where b: "b0 = push_bit r 1" "b1 = push_bit (r + 1) 1" "b2 = push_bit (r + 2) 1"
  show ?thesis
    unfolding rgb_setLeds_def led_bits_alt Let_def r_def[symmetric] b[symmetric] using assms
    by (simp add: do_if_set or.assoc and.assoc split del: if_split)
qed

lemma rgb_setLeds_effect_example:
  "FIOLATCH (rgb_setLeds LED_7 RGB_RED RGB_BLUE (\<lambda>_. \<lparr>FIODIR = 0xFF, FIOMASK = 0, FIOLATCH = 0x3F\<rparr>) 2) = 0x37"
  using rgb_setLeds_effect[of "\<lambda>_. \<lparr>FIODIR = 0xFF, FIOMASK = 0, FIOLATCH = 0x3F\<rparr>" LED_7 RGB_RED RGB_BLUE]
  by (simp add: led_bits_def)

lemma adc_wait_done:
  "(\<forall>v \<in> set vs. \<not> bit v 31) \<Longrightarrow> bit w 31 \<Longrightarrow> adc_wait (vs @ w # obs) = Some obs"
proof (induction vs)
  case Nil
  then show ?case using and_exp_eq_0_iff_not_bit[of w 31] by (simp add: ADC_ChannelGetStatus_def)
next
  case (Cons v vs)
  then show ?case using and_exp_eq_0_iff_not_bit[of v 31] by (simp add: ADC_ChannelGetStatus_def)
qed

end
