(* ===== verification/Rfpt.thy ===== *)
theory Rfpt
  imports Xbee BoardIo
begin

unbundle bit_operations_syntax

text \<open>
  The radio node protocol \<^verbatim>\<open>Lib_Board/src/rfpt.c\<close>: the coordinator's table of nodes that published
  their capabilities, the end device's table of subscriptions, the dispatch of received packets, the
  requests to remote nodes and the task.

  The file-static variables are the record \<open>rfpt_state\<close>. It is part of the client state of the radio
  driver (\<^verbatim>\<open>xbee.c\<close>), whose data call-back is \<open>xbeeData\<close>; together with the I/O of the board and the
  state of the application they form the world that the call-backs transform. Readings of the
  A/D converter, of the button port and of the clock are lists of observations; a list that is
  exhausted makes the call \<^const>\<open>None\<close>, as does a dereference of the null pointer \<^verbatim>\<open>_cb\<close>. The debug
  output \<^verbatim>\<open>dbg\<close> is not modelled.
\<close>

section \<open>State\<close>

abbreviation (input) RFPT_MSG_GET :: u8 where "RFPT_MSG_GET \<equiv> 0x01"
abbreviation (input) RFPT_MSG_SET :: u8 where "RFPT_MSG_SET \<equiv> 0x02"
abbreviation (input) RFPT_MSG_SUB :: u8 where "RFPT_MSG_SUB \<equiv> 0x03"
abbreviation (input) RFPT_MSG_UNSUB :: u8 where "RFPT_MSG_UNSUB \<equiv> 0x04"
abbreviation (input) RFPT_MSG_VAL :: u8 where "RFPT_MSG_VAL \<equiv> 0x05"
abbreviation (input) RFPT_MSG_POLL :: u8 where "RFPT_MSG_POLL \<equiv> 0x06"
abbreviation (input) RFPT_MSG_PUBLISH :: u8 where "RFPT_MSG_PUBLISH \<equiv> 0x07"
abbreviation (input) RFPT_MSG_DISCOVER :: u8 where "RFPT_MSG_DISCOVER \<equiv> 0x08"
abbreviation (input) RFPT_MSG_POLL_RESP :: u8 where "RFPT_MSG_POLL_RESP \<equiv> 0x80"
abbreviation (input) RFPT_MSG_SUB_GTE :: u8 where "RFPT_MSG_SUB_GTE \<equiv> 0x10"
abbreviation (input) RFPT_MSG_SUB_LTE :: u8 where "RFPT_MSG_SUB_LTE \<equiv> 0x20"
abbreviation (input) RFPT_MSG_SUB_DIF :: u8 where "RFPT_MSG_SUB_DIF \<equiv> 0x30"
abbreviation (input) RFPT_MSG_SUB_RESP :: u8 where "RFPT_MSG_SUB_RESP \<equiv> 0xF0"
abbreviation (input) RFPT_MSG_DEV_MASK :: u8 where "RFPT_MSG_DEV_MASK \<equiv> 0xF0"
abbreviation (input) RFPT_MSG_DEV_TEMP :: u8 where "RFPT_MSG_DEV_TEMP \<equiv> 0x10"
abbreviation (input) RFPT_MSG_DEV_LIGHT :: u8 where "RFPT_MSG_DEV_LIGHT \<equiv> 0x20"
abbreviation (input) RFPT_MSG_DEV_BTN :: u8 where "RFPT_MSG_DEV_BTN \<equiv> 0x30"
abbreviation (input) RFPT_MSG_DEV_RGB :: u8 where "RFPT_MSG_DEV_RGB \<equiv> 0x40"
abbreviation (input) RFPT_MSG_DEV_LED :: u8 where "RFPT_MSG_DEV_LED \<equiv> 0x50"
abbreviation (input) RF_MAX_NODES :: nat where "RF_MAX_NODES \<equiv> 10"
abbreviation (input) RF_NODE_MAX_CAPS :: nat where "RF_NODE_MAX_CAPS \<equiv> 12"
abbreviation (input) RF_MAX_SUBS :: nat where "RF_MAX_SUBS \<equiv> 20"
abbreviation (input) RF_NODE_POLL_TIME :: u32 where "RF_NODE_POLL_TIME \<equiv> 1000"
abbreviation (input) RF_NODE_ALIVE_TIME :: u32 where "RF_NODE_ALIVE_TIME \<equiv> 3000"
abbreviation (input) DISCOVER_TIME_MS :: u32 where "DISCOVER_TIME_MS \<equiv> 6000"

record rf_node_t =
  addrHi :: u32
  addrLo :: u32
  aliveTime :: u32
  lastPoll :: u32
  caps :: "u8 list"
  numCaps :: u8

record sub_t =
  sub_addrHi :: u32
  sub_addrLo :: u32
  sub_periphId :: u8
  sub_act :: u8
  sub_value :: u32
  sub_last :: u32

record rfpt_state =
  lastDiscover :: u32
  rf_isCoordinator :: bool
  rf_nodes :: "rf_node_t list"
  subNumRegistered :: u8
  subscribers :: "sub_t list"

definition rfpt_state0 :: rfpt_state where
  "rfpt_state0 = \<lparr>lastDiscover = 0, rf_isCoordinator = False,
     rf_nodes = replicate 10 \<lparr>addrHi = 0, addrLo = 0, aliveTime = 0, lastPoll = 0, caps = replicate 12 0, numCaps = 0\<rparr>,
     subNumRegistered = 0,
     subscribers = replicate 20 \<lparr>sub_addrHi = 0, sub_addrLo = 0, sub_periphId = 0, sub_act = 0, sub_value = 0, sub_last = 0\<rparr>\<rparr>"

text \<open>The board as the protocol sees it: LED outputs, the A/D converter with the values its data register shows, the pins of port 2 and the clock.\<close>

record rf_env =
  leds :: gpio_ports
  adc :: LPC_ADC_TypeDef
  adcObs :: "u32 list"
  pinObs :: "u32 list"
  clk :: "u32 list"

record 'a rf_cl =
  rp :: rfpt_state
  env :: rf_env
  app :: 'a

type_synonym 'a rfw = "'a rf_cl xworld"

record 'w rfpt_callb_t =
  rf_nodeAttached :: "(u8 \<Rightarrow> 'w \<Rightarrow> 'w option) option"
  rf_nodeDetached :: "(u8 \<Rightarrow> 'w \<Rightarrow> 'w option) option"
  rf_value :: "(u8 \<Rightarrow> u8 \<Rightarrow> u8 list \<Rightarrow> u8 \<Rightarrow> 'w \<Rightarrow> 'w option) option"
  rf_subStarted :: "(u8 \<Rightarrow> u8 \<Rightarrow> 'w \<Rightarrow> 'w option) option"

definition upd_rp :: "(rfpt_state \<Rightarrow> rfpt_state) \<Rightarrow> 'a rfw \<Rightarrow> 'a rfw" where
  "upd_rp f w = w\<lparr>cl := (cl w)\<lparr>rp := f (rp (cl w))\<rparr>\<rparr>"

definition upd_env :: "(rf_env \<Rightarrow> rf_env) \<Rightarrow> 'a rfw \<Rightarrow> 'a rfw" where
  "upd_env f w = w\<lparr>cl := (cl w)\<lparr>env := f (env (cl w))\<rparr>\<rparr>"

text \<open>Calls of \<^verbatim>\<open>time_get\<close>, \<^verbatim>\<open>trimpot_get\<close> and \<^verbatim>\<open>btn_get\<close>.\<close>

definition rf_time :: "'a rfw \<Rightarrow> (u32 \<times> 'a rfw) option" where
  "rf_time w = do { (t, ts) \<leftarrow> vread (clk (env (cl w))); Some (t, upd_env (clk_update (\<lambda>_. ts)) w) }"

definition rf_trimpot :: "'a rfw \<Rightarrow> (u16 \<times> 'a rfw) option" where
  "rf_trimpot w = do {
     (v, obs, a) \<leftarrow> trimpot_get (adcObs (env (cl w))) (adc (env (cl w)));
     Some (v, upd_env (\<lambda>e. e\<lparr>adc := a, adcObs := obs\<rparr>) w)
   }"

definition rf_btn :: "'a rfw \<Rightarrow> (u8 \<times> 'a rfw) option" where
  "rf_btn w = do { (p, ps) \<leftarrow> vread (pinObs (env (cl w))); Some (btn_get p, upd_env (pinObs_update (\<lambda>_. ps)) w) }"

text \<open>\<^verbatim>\<open>xbee_send\<close> of a whole local buffer; the frame identifier it stores is not used.\<close>

definition rf_send :: "u32 \<Rightarrow> u32 \<Rightarrow> u8 list \<Rightarrow> 'a rfw \<Rightarrow> (error_t \<times> 'a rfw) option" where
  "rf_send aHi aLo buf w = do {
     (err, fid, w') \<leftarrow> xbee_send aHi aLo buf (word_of_nat (length buf)) w;
     Some (err, w')
   }"

section \<open>Subscriptions\<close>

definition subInit :: "rfpt_state \<Rightarrow> rfpt_state" where
  "subInit s = s\<lparr>subNumRegistered := 0,
     subscribers := map (\<lambda>x. x\<lparr>sub_addrHi := 0, sub_addrLo := 0\<rparr>) (subscribers s)\<rparr>"

definition subscriptionExists :: "u32 \<Rightarrow> u32 \<Rightarrow> u8 \<Rightarrow> u8 \<Rightarrow> u32 \<Rightarrow> rfpt_state \<Rightarrow> u8" where
  "subscriptionExists aHi aLo action pId value s =
     (case find_idx (\<lambda>x. sub_addrHi x = aHi \<and> sub_addrLo x = aLo \<and> sub_periphId x = pId \<and>
             sub_act x = action \<and> sub_value x = value) (subscribers s) of
        None \<Rightarrow> 0 | Some i \<Rightarrow> word_of_nat (i + 1))"

section \<open>Messages\<close>

definition sendPublish :: "u32 \<Rightarrow> u32 \<Rightarrow> 'a rfw \<Rightarrow> (error_t \<times> 'a rfw) option" where
  "sendPublish aHi aLo = rf_send aHi aLo
     [RFPT_MSG_PUBLISH, RFPT_MSG_DEV_BTN, RFPT_MSG_DEV_RGB, RFPT_MSG_DEV_TEMP, RFPT_MSG_DEV_LED]"

definition sendPoll :: "u32 \<Rightarrow> u32 \<Rightarrow> 'a rfw \<Rightarrow> (error_t \<times> 'a rfw) option" where
  "sendPoll aHi aLo = rf_send aHi aLo [RFPT_MSG_POLL]"

definition sendPollResponse :: "u32 \<Rightarrow> u32 \<Rightarrow> 'a rfw \<Rightarrow> (error_t \<times> 'a rfw) option" where
  "sendPollResponse aHi aLo = rf_send aHi aLo [RFPT_MSG_POLL OR RFPT_MSG_POLL_RESP]"

definition sendTemperature :: "u32 \<Rightarrow> u32 \<Rightarrow> 'a rfw \<Rightarrow> (error_t \<times> 'a rfw) option" where
  "sendTemperature aHi aLo w = do {
     (v, w') \<leftarrow> rf_trimpot w;
     rf_send aHi aLo [RFPT_MSG_VAL OR RFPT_MSG_DEV_TEMP, ucast (drop_bit 8 v AND 0xFF), ucast (v AND 0xFF)] w'
   }"

definition sendBtn :: "u32 \<Rightarrow> u32 \<Rightarrow> 'a rfw \<Rightarrow> (error_t \<times> 'a rfw) option" where
  "sendBtn aHi aLo w = do {
     (v, w') \<leftarrow> rf_btn w;
     rf_send aHi aLo [RFPT_MSG_VAL OR RFPT_MSG_DEV_BTN, v AND BTN_SW2] w'
   }"

definition sendSubResponse :: "u32 \<Rightarrow> u32 \<Rightarrow> u8 \<Rightarrow> 'a rfw \<Rightarrow> (error_t \<times> 'a rfw) option" where
  "sendSubResponse aHi aLo subId = rf_send aHi aLo [RFPT_MSG_SUB OR RFPT_MSG_SUB_RESP, subId]"

definition discover :: "'a rfw \<Rightarrow> (error_t \<times> 'a rfw) option" where
  "discover = rf_send 0 0xFFFF [RFPT_MSG_DISCOVER]"

section \<open>Handlers\<close>

text \<open>The loop that copies the published capabilities.\<close>

fun copy_caps :: "nat list \<Rightarrow> u8 list \<Rightarrow> u8 list \<Rightarrow> u8 list option" where
  "copy_caps [] buf cs = Some cs"
| "copy_caps (i # is) buf cs = do {
     b \<leftarrow> rd buf i;
     cs' \<leftarrow> wr cs i b;
     copy_caps is buf cs'
   }"

definition handlePublish ::
  "'a rfw rfpt_callb_t option \<Rightarrow> u32 \<Rightarrow> u32 \<Rightarrow> u8 list \<Rightarrow> u8 \<Rightarrow> 'a rfw \<Rightarrow> 'a rfw option" where
  "handlePublish cb aHi aLo buf len w =
     (let ns = rf_nodes (rp (cl w)) in
      case find_idx (\<lambda>n. addrHi n = aHi \<and> addrLo n = aLo) ns of
        Some _ \<Rightarrow> Some w
      | None \<Rightarrow>
          (case find_idx (\<lambda>n. addrHi n = 0 \<and> addrLo n = 0) ns of
             None \<Rightarrow> Some w
           | Some i \<Rightarrow> do {
               (alive, w1) \<leftarrow> rf_time w;
               (t, w2) \<leftarrow> rf_time w1;
               cs \<leftarrow> copy_caps [0..<min 12 (unat len)] buf (caps (ns ! i));
               let w3 = upd_rp (\<lambda>s. s\<lparr>rf_nodes := (rf_nodes s)[i := (rf_nodes s ! i)\<lparr>addrHi := aHi, addrLo := aLo,
                     aliveTime := alive, caps := cs, numCaps := (if unat len > 12 then 12 else len)\<rparr>]\<rparr>) w2;
               t' \<leftarrow> cb;
               call_opt (map_option (\<lambda>f. f (word_of_nat (i + 1))) (rf_nodeAttached t')) w3
             }))"

definition handlePollResponse :: "u32 \<Rightarrow> u32 \<Rightarrow> 'a rfw \<Rightarrow> 'a rfw option" where
  "handlePollResponse aHi aLo w =
     (case find_idx (\<lambda>n. addrHi n = aHi \<and> addrLo n = aLo) (rf_nodes (rp (cl w))) of
        None \<Rightarrow> Some w
      | Some i \<Rightarrow> do {
          (t, w1) \<leftarrow> rf_time w;
          Some (upd_rp (\<lambda>s. s\<lparr>rf_nodes := (rf_nodes s)[i := (rf_nodes s ! i)\<lparr>aliveTime := t\<rparr>]\<rparr>) w1)
        })"

definition handleValueUpdate ::
  "'a rfw rfpt_callb_t option \<Rightarrow> u32 \<Rightarrow> u32 \<Rightarrow> u8 \<Rightarrow> u8 list \<Rightarrow> u8 \<Rightarrow> 'a rfw \<Rightarrow> 'a rfw option" where
  "handleValueUpdate cb aHi aLo periphId buf len w = do {
     t \<leftarrow> cb;
     (case rf_value t of
        None \<Rightarrow> Some w
      | Some f \<Rightarrow>
          (case find_idx (\<lambda>n. addrHi n = aHi \<and> addrLo n = aLo) (rf_nodes (rp (cl w))) of
             None \<Rightarrow> Some w
           | Some i \<Rightarrow> f (word_of_nat (i + 1)) periphId buf len w))
   }"

text \<open>
  The value a subscription request carries, the peripheral it names (0 when the request is not
  valid) and the current reading of that peripheral. The temperature value is sign-extended.
\<close>

definition sub_request :: "u8 list \<Rightarrow> 'a rfw \<Rightarrow> (u8 \<times> u32 \<times> u32 \<times> 'a rfw) option" where
  "sub_request buf w = do {
     d \<leftarrow> rd buf 0;
     (if d = RFPT_MSG_DEV_TEMP then do {
        b1 \<leftarrow> rd buf 1;
        b2 \<leftarrow> rd buf 2;
        (v, w') \<leftarrow> rf_trimpot w;
        Some (RFPT_MSG_DEV_TEMP, scast (push_bit 8 (ucast b1) OR ucast b2 :: u16), ucast v, w')
      }
      else if d = RFPT_MSG_DEV_BTN then do {
        b1 \<leftarrow> rd buf 1;
        (if b1 = 0 \<or> b1 = 1 then do {
           (v, w') \<leftarrow> rf_btn w;
           Some (RFPT_MSG_DEV_BTN, ucast b1, ucast v, w')
         }
         else Some (0, ucast b1, 0, w))
      }
      else Some (0, 0, 0, w))
   }"

definition handleSubscribe :: "u32 \<Rightarrow> u32 \<Rightarrow> u8 \<Rightarrow> u8 list \<Rightarrow> nat \<Rightarrow> 'a rfw \<Rightarrow> 'a rfw option" where
  "handleSubscribe aHi aLo action buf len w =
     (if len < 2 then Some w
      else do {
        (pId, val, cval, w1) \<leftarrow> sub_request buf w;
        (if pId = 0 then Some w1
         else let subId = subscriptionExists aHi aLo action pId val (rp (cl w1)) in
              if subId \<noteq> 0 then map_option snd (sendSubResponse aHi aLo subId w1)
              else (case find_idx (\<lambda>x. sub_addrHi x = 0 \<and> sub_addrLo x = 0) (subscribers (rp (cl w1))) of
                      None \<Rightarrow> Some w1
                    | Some i \<Rightarrow>
                        let w2 = upd_rp (\<lambda>s. s\<lparr>subscribers := (subscribers s)[i := \<lparr>sub_addrHi = aHi, sub_addrLo = aLo,
                              sub_periphId = pId, sub_act = action, sub_value = val, sub_last = cval\<rparr>],
                              subNumRegistered := subNumRegistered s + 1\<rparr>) w1
                        in map_option snd (sendSubResponse aHi aLo (word_of_nat (i + 1)) w2)))
      })"

definition handleUnsubscribe :: "u32 \<Rightarrow> u32 \<Rightarrow> u8 \<Rightarrow> rfpt_state \<Rightarrow> rfpt_state" where
  "handleUnsubscribe aHi aLo subId s =
     (if subId = 0 then s
      else let i = unat (subId - 1) in
        if i \<ge> 20 then s
        else if sub_addrHi (subscribers s ! i) = aHi \<and> sub_addrLo (subscribers s ! i) = aLo
        then s\<lparr>subNumRegistered := subNumRegistered s - 1,
               subscribers := (subscribers s)[i := (subscribers s ! i)\<lparr>sub_addrHi := 0, sub_addrLo := 0\<rparr>]\<rparr>
        else s)"

definition handleSubscribeResponse ::
  "'a rfw rfpt_callb_t option \<Rightarrow> u32 \<Rightarrow> u32 \<Rightarrow> u8 \<Rightarrow> 'a rfw \<Rightarrow> 'a rfw option" where
  "handleSubscribeResponse cb aHi aLo subId w =
     (case find_idx (\<lambda>n. addrHi n = aHi \<and> addrLo n = aLo) (rf_nodes (rp (cl w))) of
        None \<Rightarrow> Some w
      | Some i \<Rightarrow> do {
          t \<leftarrow> cb;
          call_opt (map_option (\<lambda>f. f (word_of_nat (i + 1)) subId) (rf_subStarted t)) w
        })"

definition getValue :: "u32 \<Rightarrow> u32 \<Rightarrow> u8 \<Rightarrow> 'a rfw \<Rightarrow> 'a rfw option" where
  "getValue aHi aLo periphId w =
     (if periphId = RFPT_MSG_DEV_TEMP then map_option snd (sendTemperature aHi aLo w)
      else if periphId = RFPT_MSG_DEV_BTN then map_option snd (sendBtn aHi aLo w)
      else Some w)"

definition setValue :: "u32 \<Rightarrow> u32 \<Rightarrow> u8 \<Rightarrow> u8 list \<Rightarrow> nat \<Rightarrow> 'a rfw \<Rightarrow> 'a rfw option" where
  "setValue aHi aLo periphId buf len w =
     (if periphId = RFPT_MSG_DEV_RGB then
        (if len < 2 then Some w
         else do {
           b0 \<leftarrow> rd buf 0;
           b1 \<leftarrow> rd buf 1;
           let (on, off) = (if b1 > 0 then (b0, 0) else (0, b0));
           Some (upd_env (\<lambda>e. e\<lparr>leds := rgb_setLeds LED_6 on off (leds e)\<rparr>) w)
         })
      else if periphId = RFPT_MSG_DEV_LED then
        (if len < 1 then Some w
         else do {
           b0 \<leftarrow> rd buf 0;
           let (on, off) = (if b0 = 1 then (RGB_RED, 0) else (0, RGB_RED));
           Some (upd_env (\<lambda>e. e\<lparr>leds := rgb_setLeds LED_7 on off (leds e)\<rparr>) w)
         })
      else Some w)"

text \<open>The loop of \<^verbatim>\<open>checkIfNodesAlive\<close>; the call-back may change the table, which is read again afterwards.\<close>

fun rf_check_nodes :: "'a rfw rfpt_callb_t option \<Rightarrow> nat list \<Rightarrow> 'a rfw \<Rightarrow> 'a rfw option" where
  "rf_check_nodes cb [] w = Some w"
| "rf_check_nodes cb (i # is) w =
     (let n = rf_nodes (rp (cl w)) ! i in
      if addrHi n \<noteq> 0 \<and> addrLo n \<noteq> 0 then do {
        (time, w1) \<leftarrow> rf_time w;
        w2 \<leftarrow> (if aliveTime n > 0 \<and> aliveTime n + RF_NODE_ALIVE_TIME < time then do {
                 t \<leftarrow> cb;
                 w' \<leftarrow> call_opt (map_option (\<lambda>f. f (word_of_nat (i + 1))) (rf_nodeDetached t)) w1;
                 Some (upd_rp (\<lambda>s. s\<lparr>rf_nodes := (rf_nodes s)[i := (rf_nodes s ! i)\<lparr>addrHi := 0, addrLo := 0,
                   numCaps := 0\<rparr>]\<rparr>) w')
               }
               else if lastPoll n + RF_NODE_POLL_TIME < time then
                 map_option snd (sendPoll (addrHi n) (addrLo n)
                   (upd_rp (\<lambda>s. s\<lparr>rf_nodes := (rf_nodes s)[i := (rf_nodes s ! i)\<lparr>lastPoll := time\<rparr>]\<rparr>) w1))
               else Some w1);
        rf_check_nodes cb is w2
      }
      else rf_check_nodes cb is w)"

definition checkIfNodesAlive :: "'a rfw rfpt_callb_t option \<Rightarrow> 'a rfw \<Rightarrow> 'a rfw option" where
  "checkIfNodesAlive cb w = rf_check_nodes cb [0..<10] w"

section \<open>Call-backs of the radio driver\<close>

definition xbeeUp :: "bool \<Rightarrow> 'a rfw \<Rightarrow> 'a rfw option" where
  "xbeeUp up w = Some w"

definition xbeeNode :: "u32 \<Rightarrow> u32 \<Rightarrow> u8 \<Rightarrow> 'a rfw \<Rightarrow> 'a rfw option" where
  "xbeeNode aHi aLo rssi w = Some w"

definition xbeeTxStatus :: "u8 \<Rightarrow> xbeeTxStatus_t \<Rightarrow> 'a rfw \<Rightarrow> 'a rfw option" where
  "xbeeTxStatus frameId status w = Some w"

definition xbeeData ::
  "'a rfw rfpt_callb_t option \<Rightarrow> u32 \<Rightarrow> u32 \<Rightarrow> u8 \<Rightarrow> u8 list \<Rightarrow> u8 \<Rightarrow> 'a rfw \<Rightarrow> 'a rfw option" where
  "xbeeData cb aHi aLo rssi buf len w =
     (if len < 1 then Some w
      else do {
        b0 \<leftarrow> rd buf 0;
        let typ = b0 AND 0x0F;
        let coord = rf_isCoordinator (rp (cl w));
        (if typ = RFPT_MSG_GET then
           (if \<not> coord then getValue aHi aLo (b0 AND RFPT_MSG_DEV_MASK) w else Some w)
         else if typ = RFPT_MSG_SET then
           (if \<not> coord then setValue aHi aLo (b0 AND RFPT_MSG_DEV_MASK) (drop 1 buf) (unat len - 1) w else Some w)
         else if typ = RFPT_MSG_SUB then
           (if b0 AND 0xF0 = RFPT_MSG_SUB_RESP then do { b1 \<leftarrow> rd buf 1; handleSubscribeResponse cb aHi aLo b1 w }
            else if \<not> coord then handleSubscribe aHi aLo (b0 AND RFPT_MSG_DEV_MASK) (drop 1 buf) (unat len - 1) w
            else Some w)
         else if typ = RFPT_MSG_UNSUB then
           (if \<not> coord then do { b1 \<leftarrow> rd buf 1; Some (upd_rp (handleUnsubscribe aHi aLo b1) w) } else Some w)
         else if typ = RFPT_MSG_VAL then
           handleValueUpdate cb aHi aLo (b0 AND RFPT_MSG_DEV_MASK) (drop 1 buf) (len - 1) w
         else if typ = RFPT_MSG_POLL then
           (if b0 AND RFPT_MSG_POLL_RESP \<noteq> 0 then handlePollResponse aHi aLo w
            else map_option snd (sendPollResponse aHi aLo w))
         else if typ = RFPT_MSG_PUBLISH then
           (if coord then handlePublish cb aHi aLo (drop 1 buf) (len - 1) w else Some w)
         else if typ = RFPT_MSG_DISCOVER then
           (if \<not> coord then map_option snd (sendPublish aHi aLo w) else Some w)
         else Some w)
      })"

definition rf_callbacks :: "'a rfw rfpt_callb_t option \<Rightarrow> 'a rfw xbee_callb_t" where
  "rf_callbacks cb = \<lparr>up_cb = Some xbeeUp, node_cb = Some xbeeNode, txStat_cb = Some xbeeTxStatus, data_cb = Some (xbeeData cb)\<rparr>"

section \<open>Public operations\<close>

text \<open>The result includes the new value of \<^verbatim>\<open>_cb\<close>.\<close>

definition rf_init ::
  "u8 list \<Rightarrow> u8 \<Rightarrow> 'a rfw rfpt_callb_t option \<Rightarrow> 'a rfw rfpt_callb_t option \<Rightarrow> rl_obs \<Rightarrow> 'a rfw
    \<Rightarrow> (error_t \<times> 'a rfw rfpt_callb_t option \<times> rl_obs \<times> 'a rfw) option" where
  "rf_init g coordinator cbs cb obs w = (case cbs of
     None \<Rightarrow> Some (ERR_ARGUMENT, cb, obs, w)
   | Some _ \<Rightarrow> do {
       let w1 = upd_rp (\<lambda>s. subInit (s\<lparr>rf_isCoordinator := (coordinator \<noteq> 0),
              rf_nodes := map (\<lambda>n. n\<lparr>addrHi := 0, addrLo := 0\<rparr>) (rf_nodes s)\<rparr>)) w;
       (err, obs', w2) \<leftarrow> xbee_init g (if coordinator \<noteq> 0 then XBEE_COORDINATOR else XBEE_END_DEVICE) obs w1;
       Some (err, cbs, obs', w2)
     })"

definition getAddress :: "u8 \<Rightarrow> rfpt_state \<Rightarrow> u32 \<times> u32" where
  "getAddress nodeId s =
     (if nodeId > 0 \<and> unat nodeId \<le> 10
      then (addrHi (rf_nodes s ! (unat nodeId - 1)), addrLo (rf_nodes s ! (unat nodeId - 1)))
      else (0, 0))"

definition rf_request :: "u8 \<Rightarrow> u8 list \<Rightarrow> 'a rfw \<Rightarrow> (error_t \<times> 'a rfw) option" where
  "rf_request nodeId buf w = (case getAddress nodeId (rp (cl w)) of (aHi, aLo) \<Rightarrow> rf_send aHi aLo buf w)"

definition rf_getTemperature :: "u8 \<Rightarrow> 'a rfw \<Rightarrow> (error_t \<times> 'a rfw) option" where
  "rf_getTemperature nodeId = rf_request nodeId [RFPT_MSG_GET OR RFPT_MSG_DEV_TEMP]"

definition rf_getButton :: "u8 \<Rightarrow> 'a rfw \<Rightarrow> (error_t \<times> 'a rfw) option" where
  "rf_getButton nodeId = rf_request nodeId [RFPT_MSG_GET OR RFPT_MSG_DEV_BTN]"

definition rf_getLight :: "u8 \<Rightarrow> 'a rfw \<Rightarrow> (error_t \<times> 'a rfw) option" where
  "rf_getLight nodeId = rf_request nodeId [RFPT_MSG_GET OR RFPT_MSG_DEV_LIGHT]"

definition rf_setRGB :: "u8 \<Rightarrow> u8 \<Rightarrow> u8 \<Rightarrow> 'a rfw \<Rightarrow> (error_t \<times> 'a rfw) option" where
  "rf_setRGB nodeId ledMask on = rf_request nodeId [RFPT_MSG_SET OR RFPT_MSG_DEV_RGB, ledMask, on]"

definition rf_setLed :: "u8 \<Rightarrow> u8 \<Rightarrow> 'a rfw \<Rightarrow> (error_t \<times> 'a rfw) option" where
  "rf_setLed nodeId on = rf_request nodeId [RFPT_MSG_SET OR RFPT_MSG_DEV_LED, on]"

definition rf_subscribe :: "u8 \<Rightarrow> u8 \<Rightarrow> u8 \<Rightarrow> u8 list \<Rightarrow> u8 \<Rightarrow> 'a rfw \<Rightarrow> (error_t \<times> 'a rfw) option" where
  "rf_subscribe nodeId periphId subAct valBuf len w =
     (if periphId < RFPT_MSG_DEV_TEMP \<or> periphId > RFPT_MSG_DEV_LED then Some (ERR_ARGUMENT, w)
      else if subAct < RFPT_MSG_SUB_GTE \<or> subAct > RFPT_MSG_SUB_DIF then Some (ERR_ARGUMENT, w)
      else if len > 4 then Some (ERR_ARGUMENT, w)
      else if unat len > length valBuf then None
      else rf_request nodeId ([RFPT_MSG_SUB OR subAct, periphId] @ take (unat len) valBuf) w)"

definition rf_unsubscribe :: "u8 \<Rightarrow> u8 \<Rightarrow> 'a rfw \<Rightarrow> (error_t \<times> 'a rfw) option" where
  "rf_unsubscribe nodeId subId = rf_request nodeId [RFPT_MSG_UNSUB, subId]"

text \<open>The loop of \<^verbatim>\<open>rf_getNodes\<close> over the table positions. The pointers to the result counts are not null.\<close>

fun rf_nodes_loop :: "(nat \<times> rf_node_t) list \<Rightarrow> nat \<Rightarrow> u8 list \<Rightarrow> nat \<Rightarrow> (u8 list \<times> nat) option" where
  "rf_nodes_loop [] len buf pos = Some (buf, pos)"
| "rf_nodes_loop ((i, n) # ns) len buf pos =
     (if addrHi n \<noteq> 0 \<and> addrLo n \<noteq> 0 \<and> pos < len then do {
        buf' \<leftarrow> wr buf pos (word_of_nat (i + 1));
        rf_nodes_loop ns len buf' (pos + 1)
      }
      else rf_nodes_loop ns len buf pos)"

definition rf_getNodes :: "u8 list option \<Rightarrow> u8 \<Rightarrow> rfpt_state \<Rightarrow> (error_t \<times> u8 list option \<times> u8) option" where
  "rf_getNodes nodeIdBuf len s = (case nodeIdBuf of
     None \<Rightarrow> Some (ERR_ARGUMENT, None, 0)
   | Some buf \<Rightarrow>
       if len = 0 then Some (ERR_ARGUMENT, Some buf, 0)
       else do {
         (buf', pos) \<leftarrow> rf_nodes_loop (enumerate 0 (rf_nodes s)) (unat len) buf 0;
         Some (ERR_OK, Some buf', word_of_nat pos)
       })"

fun rf_caps_loop :: "u8 list \<Rightarrow> nat \<Rightarrow> nat \<Rightarrow> u8 list \<Rightarrow> nat \<Rightarrow> (u8 list \<times> nat) option" where
  "rf_caps_loop [] len num buf pos = Some (buf, pos)"
| "rf_caps_loop (c # cs) len num buf pos =
     (if pos \<ge> len then Some (buf, pos)
      else if pos \<ge> num then Some (buf, pos)
      else do { buf' \<leftarrow> wr buf pos c; rf_caps_loop cs len num buf' (pos + 1) })"

definition rf_getNodeCaps :: "u8 \<Rightarrow> u8 list option \<Rightarrow> u8 \<Rightarrow> rfpt_state \<Rightarrow> (error_t \<times> u8 list option \<times> u8) option" where
  "rf_getNodeCaps nodeId nodeCapBuf len s = (case nodeCapBuf of
     None \<Rightarrow> Some (ERR_ARGUMENT, None, 0)
   | Some buf \<Rightarrow>
       if len = 0 then Some (ERR_ARGUMENT, Some buf, 0)
       else if nodeId > 0 \<and> unat nodeId \<le> 10 \<and>
            addrHi (rf_nodes s ! (unat nodeId - 1)) \<noteq> 0 \<and> addrLo (rf_nodes s ! (unat nodeId - 1)) \<noteq> 0
       then do {
         let n = rf_nodes s ! (unat nodeId - 1);
         (buf', pos) \<leftarrow> rf_caps_loop (caps n) (unat len) (unat (numCaps n)) buf 0;
         Some (ERR_OK, Some buf', word_of_nat pos)
       }
       else Some (ERR_ARGUMENT, Some buf, 0))"

section \<open>Task\<close>

text \<open>Whether a reading triggers a notification, and the remembered reading afterwards.\<close>

definition sub_eval :: "u8 \<Rightarrow> u32 \<Rightarrow> u32 \<Rightarrow> u32 \<Rightarrow> bool \<times> u32" where
  "sub_eval act lst val reading =
     (if act = RFPT_MSG_SUB_GTE then (lst < val \<and> reading \<ge> val, reading)
      else if act = RFPT_MSG_SUB_LTE then (lst > val \<and> reading \<le> val, reading)
      else if act = RFPT_MSG_SUB_DIF then
        (if (lst > reading \<and> lst - reading > val) \<or> (reading > lst \<and> reading - lst > val) then (True, reading) else (False, lst))
      else (False, lst))"

text \<open>The loop over the subscriptions; \<open>reading\<close> is the local variable \<^verbatim>\<open>read\<close>, which keeps its value.\<close>

fun sub_loop :: "nat list \<Rightarrow> u32 \<Rightarrow> 'a rfw \<Rightarrow> 'a rfw option" where
  "sub_loop [] reading w = Some w"
| "sub_loop (i # is) reading w =
     (let x = subscribers (rp (cl w)) ! i in
      if sub_addrHi x \<noteq> 0 \<and> sub_addrLo x \<noteq> 0 then do {
        (r, w1) \<leftarrow> (if sub_periphId x = RFPT_MSG_DEV_TEMP then map_option (\<lambda>(v, w'). (ucast v, w')) (rf_trimpot w)
                   else if sub_periphId x = RFPT_MSG_DEV_BTN then map_option (\<lambda>(v, w'). (ucast v, w')) (rf_btn w)
                   else Some (reading, w));
        let (update, lst) = sub_eval (sub_act x) (sub_last x) (sub_value x) r;
        let w2 = upd_rp (\<lambda>s. s\<lparr>subscribers := (subscribers s)[i := x\<lparr>sub_last := lst\<rparr>]\<rparr>) w1;
        w3 \<leftarrow> (if update then
                 if sub_periphId x = RFPT_MSG_DEV_TEMP then map_option snd (sendTemperature (sub_addrHi x) (sub_addrLo x) w2)
                 else if sub_periphId x = RFPT_MSG_DEV_BTN then map_option snd (sendBtn (sub_addrHi x) (sub_addrLo x) w2)
                 else Some w2
               else Some w2);
        sub_loop is r w3
      }
      else sub_loop is reading w)"

definition rf_task :: "'a rfw rfpt_callb_t option \<Rightarrow> u32 \<Rightarrow> u32 \<Rightarrow> 'a rfw \<Rightarrow> 'a rfw option" where
  "rf_task cb now now' w = do {
     w1 \<leftarrow> (if rf_isCoordinator (rp (cl w)) then do {
              (t, wa) \<leftarrow> rf_time w;
              wb \<leftarrow> (if lastDiscover (rp (cl wa)) + DISCOVER_TIME_MS < t then do {
                       (t', wc) \<leftarrow> rf_time wa;
                       map_option snd (discover (upd_rp (lastDiscover_update (\<lambda>_. t')) wc))
                     } else Some wa);
              checkIfNodesAlive cb wb
            }
            else if subNumRegistered (rp (cl w)) \<noteq> 0 then sub_loop [0..<20] 0 w
            else Some w);
     xbee_task (Some (rf_callbacks cb)) now now' w1
   }"

section \<open>The node table\<close>

definition node_addr :: "rf_node_t \<Rightarrow> u32 \<times> u32" where
  "node_addr n = (addrHi n, addrLo n)"

definition node_slots :: "rfpt_state \<Rightarrow> (u32 \<times> u32) list" where
  "node_slots s = map node_addr (rf_nodes s)"

definition rf_nodes_inv :: "rfpt_state \<Rightarrow> bool" where
  "rf_nodes_inv s \<longleftrightarrow> length (rf_nodes s) = 10 \<and> (\<forall>n \<in> set (rf_nodes s). length (caps n) = 12 \<and> unat (numCaps n) \<le> 12) \<and>
     distinct (filter (\<lambda>k. k \<noteq> (0, 0)) (node_slots s))"

text \<open>A published announcement: address, capabilities and the time it is handled.\<close>

type_synonym publication = "(u32 \<times> u32) \<times> u8 list \<times> u32"

definition publication_ok :: "publication \<Rightarrow> bool" where
  "publication_ok p = (case p of (a, cs, now) \<Rightarrow> a \<noteq> (0, 0) \<and> length cs < 256)"

text \<open>The effect of a publication on the table.\<close>

definition publish :: "publication \<Rightarrow> rfpt_state \<Rightarrow> rfpt_state" where
  "publish p s = (case p of ((aHi, aLo), cs, now) \<Rightarrow>
     (case find_idx (\<lambda>n. addrHi n = aHi \<and> addrLo n = aLo) (rf_nodes s) of
        Some _ \<Rightarrow> s
      | None \<Rightarrow> (case find_idx (\<lambda>n. addrHi n = 0 \<and> addrLo n = 0) (rf_nodes s) of
          None \<Rightarrow> s
        | Some i \<Rightarrow> s\<lparr>rf_nodes := (rf_nodes s)[i := (rf_nodes s ! i)\<lparr>addrHi := aHi, addrLo := aLo, aliveTime := now,
            caps := take 12 cs @ drop (length (take 12 cs)) (caps (rf_nodes s ! i)),
            numCaps := word_of_nat (min 12 (length cs))\<rparr>]\<rparr>)))"

lemma copy_caps_eq:
  "m + k \<le> length buf \<Longrightarrow> m + k \<le> length cs \<Longrightarrow>
    copy_caps [m..<m + k] buf cs = Some (take m cs @ take k (drop m buf) @ drop (m + k) cs)"
proof (induction k arbitrary: m cs)
  case 0
  then show ?case by simp
next
  case (Suc k)
  have "[m..<m + Suc k] = m # [Suc m..<Suc m + k]" by (simp add: upt_conv_Cons)
  moreover have "copy_caps [Suc m..<Suc m + k] buf (cs[m := buf ! m]) =
      Some (take (Suc m) (cs[m := buf ! m]) @ take k (drop (Suc m) buf) @ drop (Suc m + k) (cs[m := buf ! m]))"
    using Suc.prems by (intro Suc.IH) auto
  moreover have "drop m buf = buf ! m # drop (Suc m) buf" using Suc.prems by (simp add: Cons_nth_drop_Suc)
  ultimately show ?case using Suc.prems by (simp add: take_wr)
qed

lemma copy_caps_min:
  assumes "length cs = 12"
  shows "copy_caps [0..<min 12 (length buf)] (buf @ rest) cs = Some (take 12 buf @ drop (length (take 12 buf)) cs)"
  using copy_caps_eq[of 0 "min 12 (length buf)" "buf @ rest" cs] assms by (simp add: min_def)

lemma publish_new_unfold:
  assumes "find_idx (\<lambda>n. addrHi n = aHi \<and> addrLo n = aLo) (rf_nodes s) = None"
    "find_idx (\<lambda>n. addrHi n = 0 \<and> addrLo n = 0) (rf_nodes s) = Some i"
  shows "node_slots (publish ((aHi, aLo), cs, now) s) = (node_slots s)[i := (aHi, aLo)]"
  using assms by (simp add: publish_def node_slots_def map_update node_addr_def)

lemma addr_in_slots: "find_idx (\<lambda>n. addrHi n = aHi \<and> addrLo n = aLo) (rf_nodes s) = None \<longleftrightarrow> (aHi, aLo) \<notin> set (node_slots s)"
  by (auto simp: find_idx_None_iff node_slots_def node_addr_def)

interpretation rfreg: slot_table publish fst node_slots rf_nodes_inv publication_ok "(0, 0)" 10
proof
  fix s :: rfpt_state and p :: publication
  obtain aHi aLo cs now where p: "p = ((aHi, aLo), cs, now)" by (metis prod.exhaust)
  show "publication_ok p \<Longrightarrow> fst p \<noteq> (0, 0)" by (auto simp: publication_ok_def)
  assume inv: "rf_nodes_inv s"
  then show "length (node_slots s) = 10" "distinct (filter (\<lambda>k. k \<noteq> (0, 0)) (node_slots s))"
    by (simp_all add: rf_nodes_inv_def node_slots_def)
  assume ok: "publication_ok p"
  show "node_slots (publish p s) = node_slots s" if "fst p \<in> set (node_slots s) \<or> (0, 0) \<notin> set (node_slots s)"
    using that addr_in_slots[of aHi aLo s] addr_in_slots[of 0 0 s] by (auto simp: publish_def p split: option.split)
  show "\<exists>i < 10. node_slots s ! i = (0, 0) \<and> node_slots (publish p s) = (node_slots s)[i := fst p]"
    if new: "fst p \<notin> set (node_slots s)" "(0, 0) \<in> set (node_slots s)"
  proof -
    obtain i where i: "find_idx (\<lambda>n. addrHi n = 0 \<and> addrLo n = 0) (rf_nodes s) = Some i"
      using new(2) addr_in_slots[of 0 0 s] by auto
    have f: "find_idx (\<lambda>n. addrHi n = aHi \<and> addrLo n = aLo) (rf_nodes s) = None"
      using new(1) addr_in_slots[of aHi aLo s] p by simp
    from publish_new_unfold[OF f i, of cs now] find_idx_SomeD[OF i] inv p show ?thesis
      by (intro exI[of _ i]) (simp add: rf_nodes_inv_def node_slots_def node_addr_def)
  qed
  show "rf_nodes_inv (publish p s)" if "distinct (filter (\<lambda>k. k \<noteq> (0, 0)) (node_slots (publish p s)))"
  proof -
    have "\<forall>n \<in> set (rf_nodes (publish p s)). length (caps n) = 12 \<and> unat (numCaps n) \<le> 12"
      using inv by (auto simp: rf_nodes_inv_def publish_def p unat_of_nat_u8 split: option.split
          dest!: set_update_subset_insert[THEN subsetD] find_idx_SomeD(1))
    moreover have "length (rf_nodes (publish p s)) = 10"
      using inv by (auto simp: rf_nodes_inv_def publish_def p split: option.split)
    ultimately show ?thesis using that by (simp add: rf_nodes_inv_def)
  qed
qed

section \<open>Frame conditions\<close>

lemma upd_simps [simp]:
  "rp (cl (upd_rp f w)) = f (rp (cl w))" "env (cl (upd_rp f w)) = env (cl w)"
  "rp (cl (upd_env g w)) = rp (cl w)" "env (cl (upd_env g w)) = g (env (cl w))"
  by (simp_all add: upd_rp_def upd_env_def)

lemma xbee_send_cl: "xbee_send aHi aLo buf len w = Some (err, fid, w') \<Longrightarrow> cl w' = cl w"
  by (auto simp: xbee_send_def apiTx64_def Let_def split: if_splits prod.splits bind_splits)

lemma rf_send_cl: "rf_send aHi aLo buf w = Some (err, w') \<Longrightarrow> cl w' = cl w"
  by (auto simp: rf_send_def split: bind_splits dest: xbee_send_cl)

lemma reads_rp:
  "rf_time w = Some (t, w') \<Longrightarrow> rp (cl w') = rp (cl w)"
  "rf_trimpot w = Some (v, w') \<Longrightarrow> rp (cl w') = rp (cl w)"
  "rf_btn w = Some (b, w') \<Longrightarrow> rp (cl w') = rp (cl w)"
  by (auto simp: rf_time_def rf_trimpot_def rf_btn_def split: bind_splits)

lemma sends_rp:
  "sendSubResponse aHi aLo i w = Some (err, w') \<Longrightarrow> rp (cl w') = rp (cl w)"
  "sendPollResponse aHi aLo w = Some (err, w') \<Longrightarrow> rp (cl w') = rp (cl w)"
  "sendPublish aHi aLo w = Some (err, w') \<Longrightarrow> rp (cl w') = rp (cl w)"
  "sendTemperature aHi aLo w = Some (err, w') \<Longrightarrow> rp (cl w') = rp (cl w)"
  "sendBtn aHi aLo w = Some (err, w') \<Longrightarrow> rp (cl w') = rp (cl w)"
  by (auto simp: sendSubResponse_def sendPollResponse_def sendPublish_def sendTemperature_def sendBtn_def
    split: bind_splits dest!: rf_send_cl dest: reads_rp)

text \<open>An application whose call-backs return and leave the state of the protocol and the readings of the board alone.\<close>

definition app_frame :: "'a rfw rfpt_callb_t \<Rightarrow> bool" where
  "app_frame t \<longleftrightarrow>
     (\<forall>f i w. rf_nodeAttached t = Some f \<longrightarrow> (\<exists>w'. f i w = Some w' \<and> rp (cl w') = rp (cl w) \<and> env (cl w') = env (cl w))) \<and>
     (\<forall>f i p b l w. rf_value t = Some f \<longrightarrow> (\<exists>w'. f i p b l w = Some w' \<and> rp (cl w') = rp (cl w) \<and> env (cl w') = env (cl w))) \<and>
     (\<forall>f i j w. rf_subStarted t = Some f \<longrightarrow> (\<exists>w'. f i j w = Some w' \<and> rp (cl w') = rp (cl w) \<and> env (cl w') = env (cl w)))"

lemma call_attached:
  "app_frame t \<Longrightarrow> \<exists>w'. call_opt (map_option (\<lambda>f. f i) (rf_nodeAttached t)) w = Some w' \<and>
    rp (cl w') = rp (cl w) \<and> env (cl w') = env (cl w)"
  by (cases "rf_nodeAttached t") (auto simp: call_opt_def app_frame_def)

lemma handlePublish_publish:
  assumes "app_frame t" "rf_nodes_inv (rp (cl w))" "clk (env (cl w)) = t1 # t2 # ts"
    and "len = word_of_nat (length cs)" "length cs < 256"
  shows "\<exists>w'. handlePublish (Some t) aHi aLo (cs @ rest) len w = Some w' \<and>
    rp (cl w') = publish ((aHi, aLo), cs, t1) (rp (cl w)) \<and> (clk (env (cl w')) = clk (env (cl w)) \<or> clk (env (cl w')) = ts)"
proof -
  let ?ns = "rf_nodes (rp (cl w))"
  have len: "unat len = length cs" using assms(4,5) by (simp add: unat_of_nat_u8)
  show ?thesis
  proof (cases "find_idx (\<lambda>n. addrHi n = aHi \<and> addrLo n = aLo) ?ns")
    case (Some i)
    then show ?thesis by (simp add: handlePublish_def publish_def)
  next
    case known: None
    show ?thesis
    proof (cases "find_idx (\<lambda>n. addrHi n = 0 \<and> addrLo n = 0) ?ns")
      case None
      then show ?thesis using known by (simp add: handlePublish_def publish_def)
    next
      case (Some i)
      note i = find_idx_SomeD[OF Some]
      have "length (caps (?ns ! i)) = 12" using assms(2) i(1) by (simp add: rf_nodes_inv_def)
      note cc = copy_caps_min[OF this, of cs rest]
      define w1 where "w1 = upd_env (clk_update (\<lambda>_. t2 # ts)) w"
      define w2 where "w2 = upd_env (clk_update (\<lambda>_. ts)) w1"
      have t: "rf_time w = Some (t1, w1)" "rf_time w1 = Some (t2, w2)"
        using assms(3) by (simp_all add: rf_time_def w1_def w2_def)
      have num: "(if unat len > 12 then 12 else len) = word_of_nat (min 12 (length cs))"
        using len assms(4) by (auto simp: min_def)
      let ?w3 = "upd_rp (\<lambda>s. s\<lparr>rf_nodes := (rf_nodes s)[i := (rf_nodes s ! i)\<lparr>addrHi := aHi, addrLo := aLo,
           aliveTime := t1, caps := take 12 cs @ drop (length (take 12 cs)) (caps (?ns ! i)),
           numCaps := word_of_nat (min 12 (length cs))\<rparr>]\<rparr>) w2"
      have "rp (cl ?w3) = publish ((aHi, aLo), cs, t1) (rp (cl w))"
        using known Some by (simp add: publish_def w1_def w2_def)
      moreover have "clk (env (cl ?w3)) = ts" by (simp add: w2_def)
      moreover have "handlePublish (Some t) aHi aLo (cs @ rest) len w =
          call_opt (map_option (\<lambda>f. f (word_of_nat (i + 1))) (rf_nodeAttached t)) ?w3"
        using known Some t cc unfolding handlePublish_def Let_def num len by (simp add: assms(4))
      ultimately show ?thesis
        using call_attached[OF assms(1), of "word_of_nat (i + 1)" ?w3] by metis
    qed
  qed
qed

text \<open>Packets from several nodes, in the order the radio driver delivers them.\<close>

fun deliver ::
  "'a rfw rfpt_callb_t option \<Rightarrow> ((u32 \<times> u32) \<times> u8 list) list \<Rightarrow> 'a rfw \<Rightarrow> 'a rfw option" where
  "deliver cb [] w = Some w"
| "deliver cb ((a, buf) # ps) w = do {
     w' \<leftarrow> xbeeData cb (fst a) (snd a) 0 buf (word_of_nat (length buf)) w;
     deliver cb ps w'
   }"

lemma xbeeData_publish:
  assumes "app_frame t" "rf_nodes_inv (rp (cl w))" "rf_isCoordinator (rp (cl w))" "clk (env (cl w)) = t1 # t2 # ts"
    and "length cs < 255" "len = word_of_nat (length cs + 1)"
  shows "\<exists>w'. xbeeData (Some t) aHi aLo rssi (RFPT_MSG_PUBLISH # cs @ rest) len w = Some w' \<and>
    rp (cl w') = publish ((aHi, aLo), cs, t1) (rp (cl w)) \<and> (clk (env (cl w')) = clk (env (cl w)) \<or> clk (env (cl w')) = ts)"
proof -
  have "unat len = length cs + 1" using assms(5,6) unat_of_nat_u8[of "length cs + 1"] by simp
  then have "\<not> len < 1" by (simp add: word_less_nat_alt)
  moreover have "len - 1 = word_of_nat (length cs)" using assms(6) by simp
  ultimately have "xbeeData (Some t) aHi aLo rssi (RFPT_MSG_PUBLISH # cs @ rest) len w =
      handlePublish (Some t) aHi aLo (cs @ rest) (word_of_nat (length cs)) w"
    using assms(3) by (simp add: xbeeData_def)
  then show ?thesis using handlePublish_publish[OF assms(1,2,4) refl] assms(5) by simp
qed

lemma publish_coordinator [simp]: "rf_isCoordinator (publish p s) = rf_isCoordinator s"
  by (auto simp: publish_def split: prod.split option.split)

lemma deliver_publish:
  assumes "app_frame t" "rf_nodes_inv (rp (cl w))" "rf_isCoordinator (rp (cl w))" "2 * length ps \<le> length (clk (env (cl w)))"
    and "\<forall>p \<in> set ps. fst p \<noteq> (0, 0) \<and> length (snd p) < 255"
  shows "\<exists>w' pubs. deliver (Some t) (map (\<lambda>(a, cs). (a, RFPT_MSG_PUBLISH # cs)) ps) w = Some w' \<and>
    map fst pubs = map fst ps \<and> list_all publication_ok pubs \<and> rp (cl w') = fold publish pubs (rp (cl w))"
  using assms(2-)
proof (induction ps arbitrary: w)
  case Nil
  then show ?case by simp
next
  case (Cons p ps)
  obtain aHi aLo cs where p: "p = ((aHi, aLo), cs)" by (metis prod.exhaust)
  obtain t1 t2 ts where clk: "clk (env (cl w)) = t1 # t2 # ts"
    using Cons.prems(3) by (cases "clk (env (cl w))" rule: remdups_adj.cases) auto
  have lcs: "length cs < 255" "(aHi, aLo) \<noteq> (0, 0)" using Cons.prems(4) p by auto
  obtain w1 where w1: "xbeeData (Some t) aHi aLo 0 (RFPT_MSG_PUBLISH # cs) (word_of_nat (length cs + 1)) w = Some w1"
    "rp (cl w1) = publish ((aHi, aLo), cs, t1) (rp (cl w))" "clk (env (cl w1)) = clk (env (cl w)) \<or> clk (env (cl w1)) = ts"
    using xbeeData_publish[OF assms(1) Cons.prems(1,2) clk lcs(1) refl, of aHi aLo 0 "[]"] by auto
  have ok: "publication_ok ((aHi, aLo), cs, t1)" using lcs by (simp add: publication_ok_def)
  have "rf_nodes_inv (rp (cl w1))" using w1(2) rfreg.add_inv[OF Cons.prems(1) ok] by simp
  moreover have "2 * length ps \<le> length (clk (env (cl w1)))" using w1(3) Cons.prems(3) clk by auto
  moreover have "rf_isCoordinator (rp (cl w1))" using w1(2) Cons.prems(2) by simp
  ultimately obtain w' pubs where "deliver (Some t) (map (\<lambda>(a, cs). (a, RFPT_MSG_PUBLISH # cs)) ps) w1 = Some w'"
    "map fst pubs = map fst ps" "list_all publication_ok pubs" "rp (cl w') = fold publish pubs (rp (cl w1))"
    using Cons.IH[of w1] Cons.prems(4) by auto
  then show ?case
    using w1 ok p by (intro exI[of _ w'] exI[of _ "((aHi, aLo), cs, t1) # pubs"]) simp
qed

text \<open>
  \<^bold>\<open>C20\<close>. A coordinator that receives publish packets which together with the nodes it knows name at
  most 10 nodes has exactly these nodes in its table afterwards, each once, whatever the order and
  the repetition of the packets.
\<close>

theorem publications_registered:
  assumes "app_frame t" "rf_nodes_inv (rp (cl w))" "rf_isCoordinator (rp (cl w))" "2 * length ps \<le> length (clk (env (cl w)))"
    and "\<forall>p \<in> set ps. fst p \<noteq> (0, 0) \<and> length (snd p) < 255"
    and "card (set (filter (\<lambda>k. k \<noteq> (0, 0)) (node_slots (rp (cl w)))) \<union> fst ` set ps) \<le> 10"
  shows "\<exists>w'. deliver (Some t) (map (\<lambda>(a, cs). (a, RFPT_MSG_PUBLISH # cs)) ps) w = Some w' \<and>
    set (filter (\<lambda>k. k \<noteq> (0, 0)) (node_slots (rp (cl w')))) =
      set (filter (\<lambda>k. k \<noteq> (0, 0)) (node_slots (rp (cl w)))) \<union> fst ` set ps \<and>
    rf_nodes_inv (rp (cl w'))"
proof -
  obtain w' pubs where d: "deliver (Some t) (map (\<lambda>(a, cs). (a, RFPT_MSG_PUBLISH # cs)) ps) w = Some w'"
    "map fst pubs = map fst ps" "list_all publication_ok pubs" "rp (cl w') = fold publish pubs (rp (cl w))"
    using deliver_publish[OF assms(1-5)] by blast
  have "fst ` set pubs = fst ` set ps" using d(2) by (metis list.set_map)
  then show ?thesis
    using d rfreg.fold_add_keys[OF assms(2) d(3)] rfreg.fold_add_inv[OF assms(2) d(3)] assms(6) by auto
qed

lemma rf_caps_loop_eq:
  "min len num \<le> length buf \<Longrightarrow> pos \<le> min len num \<Longrightarrow> rf_caps_loop xs len num buf pos =
    (let ys = take (min len num - pos) xs in Some (take pos buf @ ys @ drop (pos + length ys) buf, pos + length ys))"
proof (induction xs arbitrary: buf pos)
  case (Cons x xs)
  show ?case
  proof (cases "pos < min len num")
    case True
    have "rf_caps_loop xs len num (buf[pos := x]) (pos + 1) =
      (let ys = take (min len num - (pos + 1)) xs in
        Some (take (pos + 1) (buf[pos := x]) @ ys @ drop (pos + 1 + length ys) (buf[pos := x]), pos + 1 + length ys))"
      using True Cons.prems by (intro Cons.IH) auto
    moreover have "min len num - pos = Suc (min len num - (pos + 1))" using Suc_diff_Suc[OF True] by simp
    ultimately show ?thesis using True Cons.prems by (simp add: Let_def take_wr)
  next
    case False
    then show ?thesis using Cons.prems by (cases "len \<le> pos") auto
  qed
qed simp


section \<open>The subscription table\<close>

definition sub_used :: "sub_t \<Rightarrow> bool" where
  "sub_used x \<longleftrightarrow> \<not> (sub_addrHi x = 0 \<and> sub_addrLo x = 0)"

definition sub_inv :: "rfpt_state \<Rightarrow> bool" where
  "sub_inv s \<longleftrightarrow> length (subscribers s) = 20 \<and> unat (subNumRegistered s) = length (filter sub_used (subscribers s))"

lemma length_filter_update:
  assumes "i < length xs"
  shows "length (filter P (xs[i := x])) + (if P (xs ! i) then 1 else 0) = length (filter P xs) + (if P x then 1 else 0)"
proof -
  have x: "xs = take i xs @ xs ! i # drop (Suc i) xs" using assms by (rule id_take_nth_drop)
  show ?thesis
    using arg_cong[OF x, of "\<lambda>l. length (filter P l)"] assms by (simp add: upd_conv_take_nth_drop)
qed

lemma handleUnsubscribe_inv:
  assumes "sub_inv s" "(aHi, aLo) \<noteq> (0, 0)"
  shows "sub_inv (handleUnsubscribe aHi aLo subId s)"
proof (cases "subId \<noteq> 0 \<and> unat (subId - 1) < 20 \<and> sub_addrHi (subscribers s ! unat (subId - 1)) = aHi \<and>
    sub_addrLo (subscribers s ! unat (subId - 1)) = aLo")
  case True
  let ?i = "unat (subId - 1)"
  let ?x = "(subscribers s ! ?i)\<lparr>sub_addrHi := 0, sub_addrLo := 0\<rparr>"
  have u: "sub_used (subscribers s ! ?i)" "\<not> sub_used ?x" using True assms(2) by (auto simp: sub_used_def)
  have i: "?i < length (subscribers s)" using True assms(1) by (simp add: sub_inv_def)
  have "length (filter sub_used ((subscribers s)[?i := ?x])) + 1 = length (filter sub_used (subscribers s))"
    using length_filter_update[OF i, of sub_used ?x] u by simp
  moreover from this have "unat (subNumRegistered s - 1) = unat (subNumRegistered s) - 1"
    using assms(1) by (intro unat_minus_one) (auto simp: sub_inv_def)
  ultimately show ?thesis using True assms(1) by (simp add: handleUnsubscribe_def Let_def sub_inv_def)
next
  case False
  then show ?thesis using assms(1) by (auto simp: handleUnsubscribe_def Let_def)
qed

lemma add_sub_inv:
  assumes "sub_inv s" "find_idx (\<lambda>x. sub_addrHi x = 0 \<and> sub_addrLo x = 0) (subscribers s) = Some i" "sub_used x"
  shows "sub_inv (s\<lparr>subscribers := (subscribers s)[i := x], subNumRegistered := subNumRegistered s + 1\<rparr>)"
proof -
  note i = find_idx_SomeD[OF assms(2)]
  have "length (filter sub_used ((subscribers s)[i := x])) = length (filter sub_used (subscribers s)) + 1"
    using length_filter_update[OF i(1), of sub_used x] i(2) assms(3) by (simp add: sub_used_def)
  moreover have "length (filter sub_used (subscribers s)) \<le> 20"
    using assms(1) length_filter_le[of sub_used "subscribers s"] by (simp add: sub_inv_def)
  then have "unat (subNumRegistered s + 1) = unat (subNumRegistered s) + 1"
    using assms(1) by (simp add: sub_inv_def unat_word_ariths)
  ultimately show ?thesis using assms(1) by (simp add: sub_inv_def)
qed

lemma sub_request_rp: "sub_request buf w = Some (p, v, c, w') \<Longrightarrow> rp (cl w') = rp (cl w)"
  by (auto simp: sub_request_def split: bind_splits if_splits dest: reads_rp)

lemma handleSubscribe_inv:
  assumes "sub_inv (rp (cl w))" "(aHi, aLo) \<noteq> (0, 0)" "handleSubscribe aHi aLo action buf len w = Some w'"
  shows "sub_inv (rp (cl w'))"
proof (cases "len < 2")
  case True
  then show ?thesis using assms by (simp add: handleSubscribe_def)
next
  case False
  then obtain pId v c w1 where r: "sub_request buf w = Some (pId, v, c, w1)"
    using assms(3) by (auto simp: handleSubscribe_def split: bind_splits)
  have i1: "sub_inv (rp (cl w1))" using sub_request_rp[OF r] assms(1) by simp
  have u: "sub_used \<lparr>sub_addrHi = aHi, sub_addrLo = aLo, sub_periphId = pId, sub_act = action, sub_value = v, sub_last = c\<rparr>"
    using assms(2) by (auto simp: sub_used_def)
  show ?thesis
  proof (cases "pId = 0 \<or> subscriptionExists aHi aLo action pId v (rp (cl w1)) \<noteq> 0")
    case True
    then show ?thesis using assms(3) False r i1
      by (auto simp: handleSubscribe_def Let_def split: if_splits dest: sends_rp)
  next
    case neu: False
    show ?thesis
    proof (cases "find_idx (\<lambda>x. sub_addrHi x = 0 \<and> sub_addrLo x = 0) (subscribers (rp (cl w1)))")
      case None
      then show ?thesis using assms(3) False r i1 neu by (simp add: handleSubscribe_def Let_def)
    next
      case (Some i)
      then show ?thesis using assms(3) False r neu add_sub_inv[OF i1 Some u]
        by (auto simp: handleSubscribe_def Let_def dest!: sends_rp(1))
    qed
  qed
qed

lemma other_handlers_inv:
  "getValue aHi aLo p w = Some w' \<Longrightarrow> rp (cl w') = rp (cl w)"
  "setValue aHi aLo p buf n w = Some w' \<Longrightarrow> rp (cl w') = rp (cl w)"
  "handlePollResponse aHi aLo w = Some w' \<Longrightarrow> sub_inv (rp (cl w')) = sub_inv (rp (cl w))"
  by (auto simp: getValue_def setValue_def handlePollResponse_def sub_inv_def split: if_splits option.splits bind_splits
    dest: sends_rp dest!: reads_rp)

lemma app_handlers_inv:
  assumes "app_frame t"
  shows "handleValueUpdate (Some t) aHi aLo p buf n w = Some w' \<Longrightarrow> rp (cl w') = rp (cl w)"
    and "handleSubscribeResponse (Some t) aHi aLo i w = Some w' \<Longrightarrow> rp (cl w') = rp (cl w)"
proof -
  assume "handleValueUpdate (Some t) aHi aLo p buf n w = Some w'"
  then show "rp (cl w') = rp (cl w)"
    using assms by (auto simp: handleValueUpdate_def app_frame_def split: option.splits) (metis option.inject)
next
  assume "handleSubscribeResponse (Some t) aHi aLo i w = Some w'"
  then show "rp (cl w') = rp (cl w)"
    using assms by (cases "rf_subStarted t")
      (auto simp: handleSubscribeResponse_def call_opt_def app_frame_def split: option.splits, metis option.inject)
qed

text \<open>
  On an end device, every packet from a non-zero address keeps the subscription table
  consistent: the number of registered subscriptions is the number of table entries in use, so the
  task looks at the table whenever there is a subscription.
\<close>

theorem packets_keep_subscriptions:
  assumes "app_frame t" "sub_inv (rp (cl w))" "\<not> rf_isCoordinator (rp (cl w))" "(aHi, aLo) \<noteq> (0, 0)"
    and "xbeeData (Some t) aHi aLo rssi buf len w = Some w'"
  shows "sub_inv (rp (cl w'))"
proof (cases "len < 1")
  case True
  then show ?thesis using assms(2,5) by (simp add: xbeeData_def)
next
  case False
  then obtain b0 where b: "rd buf 0 = Some b0" using assms(5) by (auto simp: xbeeData_def split: bind_splits)
  note d = assms(5)[unfolded xbeeData_def, simplified False b, simplified, unfolded Let_def, simplified assms(3), simplified]
  show ?thesis
    using d assms(2,4)
    by (auto split: if_splits bind_splits dest: other_handlers_inv(1,2) sends_rp handleSubscribe_inv app_handlers_inv[OF assms(1)]
      simp: other_handlers_inv(3) handleUnsubscribe_inv)
qed

section \<open>Witnesses\<close>

definition no_app :: "unit rfw rfpt_callb_t" where
  "no_app = \<lparr>rf_nodeAttached = None, rf_nodeDetached = None, rf_value = None, rf_subStarted = None\<rparr>"

definition rf_env0 :: rf_env where
  "rf_env0 = \<lparr>leds = (\<lambda>_. \<lparr>FIODIR = 0, FIOMASK = 0, FIOLATCH = 0\<rparr>), adc = \<lparr>ADCR = 0, ADINTEN = 0\<rparr>,
     adcObs = [0x80001230, 0x80001230], pinObs = [0], clk = [1, 2, 3, 4]\<rparr>"

definition rfw0 :: "bool \<Rightarrow> u8 list \<Rightarrow> unit rfw" where
  "rfw0 coord bs = \<lparr>xb = xbee_state0\<lparr>initialized := True\<rparr>,
     io = \<lparr>uhw = uart_hw0, lsrs = [[0x20, 0x20]], rq = fold rxq_put bs rxq_state0\<rparr>,
     cl = \<lparr>rp = rfpt_state0\<lparr>rf_isCoordinator := coord\<rparr>, env = rf_env0, app = ()\<rparr>\<rparr>"

lemma app_frame_no_app: "app_frame no_app"
  by (simp add: app_frame_def no_app_def)

lemma node_slots0: "node_slots (rp (cl (rfw0 c bs))) = replicate 10 (0, 0)"
  by (simp add: node_slots_def rfw0_def rfpt_state0_def node_addr_def)

lemma rfw0_simps [simp]:
  "rf_isCoordinator (rp (cl (rfw0 c bs))) = c" "clk (env (cl (rfw0 c bs))) = [1, 2, 3, 4]"
  "rfState (xb (rfw0 c bs)) = XBEE_FRAME" "rfFrameTimer (xb (rfw0 c bs)) = 0" "length (rfBuf (xb (rfw0 c bs))) = 200"
  by (simp_all add: rfw0_def rf_env0_def xbee_state0_def)

lemma rf_nodes_inv0: "rf_nodes_inv (rp (cl (rfw0 c bs)))"
  using node_slots0[of c bs] by (simp add: rf_nodes_inv_def) (simp add: rfw0_def rfpt_state0_def)

lemma queued_rfw0: "length bs \<le> 255 \<Longrightarrow> queued bs (rfw0 c bs)"
  using uartq.fold_put_elems[of rxq_state0 bs]
  by (simp add: queued_def rfw0_def rxq_inv_def rxq_state0_def rxq_list_def ring_list_def ring_len_def)

theorem publications_registered_witness:
  "\<exists>w'. deliver (Some no_app) [((1, 2), [0x07, 0x30]), ((3, 4), [0x07])] (rfw0 True []) = Some w' \<and>
    set (filter (\<lambda>k. k \<noteq> (0, 0)) (node_slots (rp (cl w')))) = {(1, 2), (3, 4)}"
  using publications_registered[OF app_frame_no_app, of "rfw0 True []" "[((1, 2), [0x30]), ((3, 4), [])]"]
  by (simp add: rf_nodes_inv0 node_slots0) blast


theorem packets_keep_subscriptions_example:
  "\<exists>w'. xbeeData (Some no_app) 1 2 40 [0x13, 0x30, 1] 3 (rfw0 False []) = Some w' \<and>
    subNumRegistered (rp (cl w')) = 1 \<and> sub_inv (rp (cl w'))"
proof -
  let ?r = "xbeeData (Some no_app) 1 2 40 [0x13, 0x30, 1] 3 (rfw0 False [])"
  have "map_option (\<lambda>w. subNumRegistered (rp (cl w))) ?r = Some 1" by code_simp
  then obtain w' where w': "?r = Some w'" "subNumRegistered (rp (cl w')) = 1" by auto
  have "sub_inv (rp (cl (rfw0 False [])))" by code_simp
  from packets_keep_subscriptions[OF app_frame_no_app this _ _ w'(1)] w' show ?thesis by simp
qed

end
