(* ===== verification/UsbMemory.thy ===== *)
theory UsbMemory
  imports Interfaces
begin

unbundle bit_operations_syntax

text \<open>
  The memory pool of the USB host stack, \<^verbatim>\<open>nxpUSBlib/Drivers/USB/Core/USBMemory.c\<close>: a first-fit
  allocator in the static array \<^verbatim>\<open>USB_Mem_Buffer\<close>. The pool is the list of its bytes; a pointer
  into it is a byte offset (\<^const>\<open>None\<close> is \<^verbatim>\<open>NULL\<close>). Block headers live in the pool: the
  bit-field structure \<^verbatim>\<open>MemBlockInfo_t\<close> is a record whose fields have the widths of the bit
  fields, stored in four bytes. The loops over the chain of blocks follow the \<^verbatim>\<open>next\<close> fields found
  in memory, so they are partial functions; the specification is a list of blocks with their
  contents, which the chain in memory tiles without gaps.
\<close>

section \<open>Block headers\<close>

record MemBlockInfo_t =
  blk_size :: "15 word"
  isFree :: bool
  nxt :: "16 word"

abbreviation (input) ALIGN_FOUR_BYTES :: u32 where "ALIGN_FOUR_BYTES \<equiv> 4"
abbreviation (input) HEADER_SIZE :: u32 where "HEADER_SIZE \<equiv> 4"

text \<open>The layout of the bit fields, least significant bit first, in four little-endian bytes.\<close>

definition enc_hdr :: "MemBlockInfo_t \<Rightarrow> u8 list" where
  "enc_hdr r = [ucast (blk_size r), ucast (drop_bit 8 (blk_size r)) OR push_bit 7 (of_bool (isFree r)),
     ucast (nxt r), ucast (drop_bit 8 (nxt r))]"

definition dec_hdr :: "u8 list \<Rightarrow> MemBlockInfo_t" where
  "dec_hdr bs = \<lparr>blk_size = ucast (bs ! 0) OR push_bit 8 (ucast (bs ! 1)), isFree = bit (bs ! 1) 7,
     nxt = ucast (bs ! 2) OR push_bit 8 (ucast (bs ! 3))\<rparr>"

interpretation hdr: codec enc_hdr dec_hdr 4
proof
  fix a
  show "length (enc_hdr a) = 4" by (simp add: enc_hdr_def)
  have "ucast (ucast (blk_size a) :: u8) OR push_bit 8 (ucast (ucast (drop_bit 8 (blk_size a)) OR push_bit 7 (of_bool (isFree a)) :: u8)) = blk_size a"
    by (rule bit_word_eqI) (auto simp: bit_simps)
  moreover have "bit (ucast (drop_bit 8 (blk_size a)) OR push_bit 7 (of_bool (isFree a)) :: u8) 7 = isFree a"
    by (auto simp: bit_simps dest: bit_imp_le_length)
  moreover have "ucast (ucast (nxt a) :: u8) OR push_bit 8 (ucast (ucast (drop_bit 8 (nxt a)) :: u8)) = nxt a"
    by (rule bit_word_eqI) (auto simp: bit_simps)
  ultimately show "dec_hdr (enc_hdr a) = a" by (simp add: enc_hdr_def dec_hdr_def)
next
  fix bs :: "u8 list"
  assume "length bs = 4"
  then obtain a b c d where bs: "bs = [a, b, c, d]" by (rule list4_cases)
  have "(ucast (ucast a OR push_bit 8 (ucast b) :: 15 word) :: u8) = a"
    by (rule bit_word_eqI) (auto simp: bit_simps dest: bit_imp_le_length)
  moreover have "ucast (drop_bit 8 (ucast a OR push_bit 8 (ucast b) :: 15 word)) OR push_bit 7 (of_bool (bit b 7)) = b"
  proof (rule bit_word_eqI)
    fix n
    assume "n < LENGTH(8)"
    then have "n = 7 \<or> n < 7" by auto
    then show "bit (ucast (drop_bit 8 (ucast a OR push_bit 8 (ucast b) :: 15 word)) OR push_bit 7 (of_bool (bit b 7)) :: u8) n = bit b n"
      by (auto simp: bit_simps dest: bit_imp_le_length)
  qed
  moreover have "(ucast (ucast c OR push_bit 8 (ucast d) :: 16 word) :: u8) = c"
    by (rule bit_word_eqI) (auto simp: bit_simps dest: bit_imp_le_length)
  moreover have "ucast (drop_bit 8 (ucast c OR push_bit 8 (ucast d) :: 16 word)) = d"
    by (rule bit_word_eqI) (auto simp: bit_simps dest: bit_imp_le_length)
  ultimately show "enc_hdr (dec_hdr bs) = bs" by (simp add: enc_hdr_def dec_hdr_def bs)
qed

text \<open>Reading and updating a header in the pool.\<close>

definition hd_at :: "u8 list \<Rightarrow> nat \<Rightarrow> MemBlockInfo_t option" where
  "hd_at m a = (if a + 4 \<le> length m then Some (dec_hdr (take 4 (drop a m))) else None)"

definition hd_upd :: "(MemBlockInfo_t \<Rightarrow> MemBlockInfo_t) \<Rightarrow> nat \<Rightarrow> u8 list \<Rightarrow> u8 list option" where
  "hd_upd f a m = do { r \<leftarrow> hd_at m a; Some (take a m @ enc_hdr (f r) @ drop (a + 4) m) }"

text \<open>\<^verbatim>\<open>head + next\<close> is pointer arithmetic on four-byte structures.\<close>

definition NEXT_BLOCK :: "MemBlockInfo_t \<Rightarrow> nat option" where
  "NEXT_BLOCK r = (if nxt r = 0 then None else Some (4 * unat (nxt r)))"

section \<open>The allocator\<close>

definition USB_Memory_Init :: "u32 \<Rightarrow> u8 list \<Rightarrow> u8 list option" where
  "USB_Memory_Init Memory_Pool_Size m = do {
     m \<leftarrow> hd_upd (nxt_update (\<lambda>_. 0)) 0 m;
     m \<leftarrow> hd_upd (blk_size_update (\<lambda>_. ucast ((Memory_Pool_Size AND 0xFFFFFFFC) - HEADER_SIZE))) 0 m;
     hd_upd (isFree_update (\<lambda>_. True)) 0 m
   }"

text \<open>The first-fit loop: the block it breaks at, or no block at the end of the chain.\<close>

partial_function (option) find_fit :: "u8 list \<Rightarrow> u32 \<Rightarrow> nat \<Rightarrow> nat option option" where
  "find_fit m sz a = Option.bind (hd_at m a) (\<lambda>r.
     if isFree r \<and> ucast (blk_size r) \<ge> sz then Some (Some a)
     else (case NEXT_BLOCK r of None \<Rightarrow> Some None | Some b \<Rightarrow> find_fit m sz b))"

declare find_fit.simps [code]

definition USB_Memory_Alloc :: "u32 \<Rightarrow> u8 list \<Rightarrow> (nat option \<times> u8 list) option" where
  "USB_Memory_Alloc size0 m = do {
     let sz = (if size0 mod ALIGN_FOUR_BYTES \<noteq> 0
               then push_bit 2 (drop_bit 2 size0) + ALIGN_FOUR_BYTES else size0);
     blk_ptr \<leftarrow> find_fit m sz 0;
     (case blk_ptr of
        None \<Rightarrow> Some (None, m)
      | Some b \<Rightarrow> do {
          r \<leftarrow> hd_at m b;
          (if ucast (blk_size r) \<le> HEADER_SIZE + sz then do {
             m \<leftarrow> hd_upd (isFree_update (\<lambda>_. False)) b m;
             Some (Some (b + 4), m)
           }
           else do {
             let freeBlock = b + unat sz + 4;
             m \<leftarrow> hd_upd (nxt_update (\<lambda>_. nxt r)) freeBlock m;
             r \<leftarrow> hd_at m b;
             m \<leftarrow> hd_upd (blk_size_update (\<lambda>_. ucast (ucast (blk_size r) - (HEADER_SIZE + sz)))) freeBlock m;
             m \<leftarrow> hd_upd (isFree_update (\<lambda>_. True)) freeBlock m;
             m \<leftarrow> hd_upd (blk_size_update (\<lambda>_. ucast sz)) b m;
             m \<leftarrow> hd_upd (nxt_update (\<lambda>_. word_of_nat (freeBlock div 4))) b m;
             m \<leftarrow> hd_upd (isFree_update (\<lambda>_. False)) b m;
             Some (Some (b + 4), m)
           })
        })
   }"

text \<open>The search for the predecessor of a block.\<close>

partial_function (option) find_prev :: "u8 list \<Rightarrow> nat \<Rightarrow> nat \<Rightarrow> nat option option" where
  "find_prev m b p = Option.bind (hd_at m p) (\<lambda>r.
     case NEXT_BLOCK r of
       None \<Rightarrow> Some None
     | Some q \<Rightarrow> if q = b then Some (Some p) else find_prev m b q)"

declare find_prev.simps [code]

definition merge_next :: "nat \<Rightarrow> u8 list \<Rightarrow> u8 list option" where
  "merge_next b m = do {
     r \<leftarrow> hd_at m b;
     (case NEXT_BLOCK r of
        None \<Rightarrow> Some m
      | Some n \<Rightarrow> do {
          q \<leftarrow> hd_at m n;
          (if isFree q then do {
             m \<leftarrow> hd_upd (blk_size_update (\<lambda>_. ucast (ucast (blk_size r) + ucast (blk_size q) + HEADER_SIZE))) b m;
             q \<leftarrow> hd_at m n;
             hd_upd (nxt_update (\<lambda>_. nxt q)) b m
           }
           else Some m)
        })
   }"

definition USB_Memory_Free :: "nat option \<Rightarrow> u8 list \<Rightarrow> u8 list option" where
  "USB_Memory_Free ptr m =
     (case ptr of
        None \<Rightarrow> Some m
      | Some p \<Rightarrow>
          if p < 4 then None
          else do {
            let b = p - 4;
            m \<leftarrow> merge_next b m;
            prev \<leftarrow> find_prev m b 0;
            (case prev of
               None \<Rightarrow> hd_upd (isFree_update (\<lambda>_. True)) b m
             | Some p \<Rightarrow> do {
                 r \<leftarrow> hd_at m p;
                 (if isFree r then do {
                    q \<leftarrow> hd_at m b;
                    m \<leftarrow> hd_upd (blk_size_update (\<lambda>_. ucast (ucast (blk_size r) + ucast (blk_size q) + HEADER_SIZE))) p m;
                    q \<leftarrow> hd_at m b;
                    m \<leftarrow> hd_upd (nxt_update (\<lambda>_. nxt q)) p m;
                    hd_upd (isFree_update (\<lambda>_. True)) p m
                  }
                  else hd_upd (isFree_update (\<lambda>_. True)) b m)
               })
          })"


section \<open>Headers in the pool\<close>

lemma hd_upd_SomeD:
  assumes "hd_upd f a m = Some m'"
  shows "a + 4 \<le> length m" "length m' = length m"
  using assms by (auto simp: hd_upd_def hd_at_def hdr.length_enc split: if_splits)

lemma hd_upd_eq:
  "hd_at m a = Some r \<Longrightarrow> hd_upd f a m = Some (take a m @ enc_hdr (f r) @ drop (a + 4) m)"
  by (simp add: hd_upd_def)

definition put_hd :: "nat \<Rightarrow> MemBlockInfo_t \<Rightarrow> u8 list \<Rightarrow> u8 list" where
  "put_hd a r m = take a m @ enc_hdr r @ drop (a + 4) m"

lemma hd_upd_put: "hd_at m a = Some r \<Longrightarrow> hd_upd f a m = Some (put_hd a (f r) m)"
  by (simp add: hd_upd_eq put_hd_def)

lemma hd_at_bound: "hd_at m a = Some r \<Longrightarrow> a + 4 \<le> length m"
  by (simp add: hd_at_def split: if_splits)

lemma length_put_hd [simp]: "a + 4 \<le> length m \<Longrightarrow> length (put_hd a r m) = length m"
  by (simp add: put_hd_def hdr.length_enc)

lemma hd_at_put_same [simp]: "a + 4 \<le> length m \<Longrightarrow> hd_at (put_hd a r m) a = Some r"
  by (simp add: hd_at_def put_hd_def hdr.length_enc hdr.dec_enc)

lemma put_hd_put_hd [simp]: "a + 4 \<le> length m \<Longrightarrow> put_hd a r (put_hd a q m) = put_hd a r m"
  by (simp add: put_hd_def hdr.length_enc)

lemma nth_put_hd:
  "a + 4 \<le> length m \<Longrightarrow> i < a \<or> a + 4 \<le> i \<Longrightarrow> i < length m \<Longrightarrow> put_hd a r m ! i = m ! i"
  by (auto simp: put_hd_def hdr.length_enc nth_append)

lemma hd_at_cong:
  assumes "length m' = length m" "\<And>i. a \<le> i \<Longrightarrow> i < a + 4 \<Longrightarrow> i < length m \<Longrightarrow> m' ! i = m ! i"
  shows "hd_at m' a = hd_at m a"
proof -
  have "take 4 (drop a m') = take 4 (drop a m)"
    using assms by (intro nth_equalityI) auto
  then show ?thesis using assms(1) by (simp add: hd_at_def)
qed

lemma hd_at_put_other [simp]:
  "a + 4 \<le> length m \<Longrightarrow> b + 4 \<le> a \<or> a + 4 \<le> b \<Longrightarrow> hd_at (put_hd a r m) b = hd_at m b"
  by (rule hd_at_cong) (auto intro!: nth_put_hd)

section \<open>Specification: a list of blocks\<close>

datatype block = Free nat | Used "u8 list"

fun words :: "block \<Rightarrow> nat" where
  "words (Free n) = n"
| "words (Used ds) = length ds div 4"

fun free_blk :: "block \<Rightarrow> bool" where
  "free_blk (Free n) = True"
| "free_blk (Used ds) = False"

fun stored :: "u8 list \<Rightarrow> nat \<Rightarrow> block \<Rightarrow> bool" where
  "stored m a (Free n) = True"
| "stored m a (Used ds) = (4 dvd length ds \<and> take (length ds) (drop (a + 4) m) = ds)"

definition span :: "block \<Rightarrow> nat" where
  "span b = 4 + 4 * words b"

definition addr :: "block list \<Rightarrow> nat" where
  "addr bs = sum_list (map span bs)"

lemma addr_simps [simp]: "addr [] = 0" "addr (b # bs) = span b + addr bs" "addr (xs @ ys) = addr xs + addr ys"
  by (simp_all add: addr_def)

lemma addr_dvd [simp]: "4 dvd addr bs"
  by (induction bs) (auto simp: span_def)

lemma span_dvd [simp]: "4 dvd span b"
  by (simp add: span_def)

lemma span_ge: "4 \<le> span b"
  by (simp add: span_def)

definition header :: "nat \<Rightarrow> bool \<Rightarrow> nat \<Rightarrow> MemBlockInfo_t" where
  "header w f n = \<lparr>blk_size = word_of_nat (4 * w), isFree = f, nxt = word_of_nat (n div 4)\<rparr>"

text \<open>
  The blocks tile the pool from offset \<open>a\<close>; \<open>fol\<close> tells whether further blocks follow, which
  decides the link of the last one.
\<close>

fun seg :: "u8 list \<Rightarrow> nat \<Rightarrow> block list \<Rightarrow> bool \<Rightarrow> bool" where
  "seg m a [] fol = True"
| "seg m a (b # bs) fol =
     (hd_at m a = Some (header (words b) (free_blk b) (if bs = [] \<and> \<not> fol then 0 else a + span b)) \<and>
      stored m a b \<and> seg m (a + span b) bs fol)"

fun no_adj :: "block list \<Rightarrow> bool" where
  "no_adj (b # c # bs) = (\<not> (free_blk b \<and> free_blk c) \<and> no_adj (c # bs))"
| "no_adj _ = True"

definition heap :: "u8 list \<Rightarrow> block list \<Rightarrow> bool" where
  "heap m bs \<longleftrightarrow> seg m 0 bs False \<and> addr bs = length m \<and> bs \<noteq> [] \<and> length m \<le> 32768 \<and> no_adj bs"

lemma seg_append:
  "seg m a (xs @ ys) fol \<longleftrightarrow> seg m a xs (ys \<noteq> [] \<or> fol) \<and> seg m (a + addr xs) ys fol"
  by (induction xs arbitrary: a) (auto simp: add.assoc)

lemma seg_cong:
  assumes "length m' = length m" "a + addr bs \<le> length m" "seg m a bs fol"
    and "\<And>i. a \<le> i \<Longrightarrow> i < a + addr bs \<Longrightarrow> m' ! i = m ! i"
  shows "seg m' a bs fol"
  using assms(2-)
proof (induction bs arbitrary: a)
  case (Cons b bs)
  have "hd_at m' a = hd_at m a"
    using Cons.prems(1,3) by (intro hd_at_cong) (auto simp: assms(1) span_def)
  moreover have "stored m' a b"
  proof (cases b)
    case (Used ds)
    have "take (length ds) (drop (a + 4) m') = take (length ds) (drop (a + 4) m)"
    proof (rule nth_equalityI)
      have "4 dvd length ds" using Cons.prems(2) Used by simp
      then show "take (length ds) (drop (a + 4) m') ! i = take (length ds) (drop (a + 4) m) ! i"
        if "i < length (take (length ds) (drop (a + 4) m'))" for i
        using that Cons.prems(1,3) Used by (simp add: assms(1) span_def)
    qed (simp add: assms(1))
    then show ?thesis using Cons.prems(2) Used by simp
  qed simp
  moreover have "seg m' (a + span b) bs fol"
    using Cons.prems by (intro Cons.IH) auto
  ultimately show ?case using Cons.prems(2) by simp
qed simp


lemma header_simps [simp]:
  "isFree (header w f n) = f"
  "header w f n\<lparr>isFree := g\<rparr> = header w g n"
  by (simp_all add: header_def)

lemma ucast_of_nat_15: "n < 2 ^ 15 \<Longrightarrow> ucast (word_of_nat n :: 15 word) = (word_of_nat n :: u32)"
  by (simp add: unsigned_of_nat take_bit_nat_eq_self)

lemma blk_size_header: "4 * w < 2 ^ 15 \<Longrightarrow> (ucast (blk_size (header w f n)) :: u32) = word_of_nat (4 * w)"
  unfolding header_def MemBlockInfo_t.select_convs by (rule ucast_of_nat_15)

lemma NEXT_BLOCK_header:
  assumes "4 dvd n" "n \<le> 32768"
  shows "NEXT_BLOCK (header w f n) = (if n = 0 then None else Some n)"
proof -
  have "n div 4 < 2 ^ 16" using assms(2) by simp
  then have u: "unat (word_of_nat (n div 4) :: 16 word) = n div 4"
    by (simp add: unat_of_nat take_bit_nat_eq_self)
  then have "(word_of_nat (n div 4) :: 16 word) = 0 \<longleftrightarrow> n div 4 = 0"
    by (metis unat_0 word_unat_eq_iff)
  then show ?thesis using u assms(1) by (auto simp: NEXT_BLOCK_def header_def)
qed

text \<open>The pool as three parts around some blocks in the middle.\<close>

lemma heap_parts:
  "heap m (pre @ mid @ post) \<longleftrightarrow>
     seg m 0 pre (mid \<noteq> [] \<or> post \<noteq> []) \<and> seg m (addr pre) mid (post \<noteq> []) \<and>
     seg m (addr pre + addr mid) post False \<and>
     addr pre + addr mid + addr post = length m \<and> pre @ mid @ post \<noteq> [] \<and> length m \<le> 32768 \<and>
     no_adj (pre @ mid @ post)"
  by (auto simp: heap_def seg_append add.assoc)

lemma heap_replace:
  assumes "heap m (pre @ mid @ post)" "mid \<noteq> []" "mid' \<noteq> []"
    and "length m' = length m" "addr mid' = addr mid"
    and "\<And>i. i < addr pre \<or> addr pre + addr mid \<le> i \<Longrightarrow> i < length m \<Longrightarrow> m' ! i = m ! i"
    and "seg m' (addr pre) mid' (post \<noteq> [])" "no_adj (pre @ mid' @ post)"
  shows "heap m' (pre @ mid' @ post)"
proof -
  note h = assms(1)[unfolded heap_parts]
  have "seg m' 0 pre (mid' \<noteq> [] \<or> post \<noteq> [])"
    using h assms(2-6) by (intro seg_cong[of m' m]) auto
  moreover have "seg m' (addr pre + addr mid) post False"
    using h assms(4-6) by (intro seg_cong[of m' m]) auto
  ultimately show ?thesis unfolding heap_parts using h assms by auto
qed

lemma heap_hd:
  assumes "heap m (pre @ b # post)"
  shows "hd_at m (addr pre) = Some (header (words b) (free_blk b) (if post = [] then 0 else addr pre + span b))"
    "addr pre + span b + addr post = length m" "addr pre + span b \<le> 32768" "4 * words b < 2 ^ 15"
  using assms heap_parts[of m pre "[b]" post] by (auto simp: span_def)


lemma header_upd [simp]:
  "header w f n\<lparr>nxt := nxt (header w2 f2 n2)\<rparr> = header w f n2"
  "header w f n\<lparr>blk_size := word_of_nat (4 * w2)\<rparr> = header w2 f n"
  "header w f n\<lparr>nxt := word_of_nat (k div 4)\<rparr> = header w f k"
  by (simp_all add: header_def del: of_nat_mult)

lemma ucast_of_nat_u32: "n < 2 ^ 32 \<Longrightarrow> (ucast (word_of_nat n :: u32) :: 15 word) = word_of_nat n"
  by (simp add: unsigned_of_nat take_bit_nat_eq_self)

lemma ucast_sum_u32:
  assumes "v + w < 2 ^ 20"
  shows "ucast (word_of_nat (4 * v) + word_of_nat (4 * w) + HEADER_SIZE) = (word_of_nat (4 * (v + w + 1)) :: 15 word)"
proof -
  have "word_of_nat (4 * v) + word_of_nat (4 * w) + (4 :: u32) = word_of_nat (4 * (v + w + 1))" by simp
  then show ?thesis using ucast_of_nat_u32[of "4 * (v + w + 1)"] assms by (simp only:) simp
qed

section \<open>Searches along the chain\<close>

fun first_fit :: "nat \<Rightarrow> nat \<Rightarrow> block list \<Rightarrow> nat option" where
  "first_fit k a [] = None"
| "first_fit k a (b # bs) = (if free_blk b \<and> k \<le> 4 * words b then Some a else first_fit k (a + span b) bs)"

lemma find_fit_seg:
  assumes "seg m a bs False" "bs \<noteq> []" "4 dvd a" "a + addr bs \<le> 32768"
  shows "find_fit m sz a = Some (first_fit (unat sz) a bs)"
  using assms
proof (induction bs arbitrary: a)
  case (Cons b bs)
  have w: "4 * words b < 2 ^ 15" using Cons.prems(4) by (simp add: span_def)
  then have le: "sz \<le> word_of_nat (4 * words b) \<longleftrightarrow> unat sz \<le> 4 * words b"
    by (simp add: word_le_nat_alt unat_of_nat take_bit_nat_eq_self del: of_nat_mult)
  have nb: "NEXT_BLOCK (header (words b) (free_blk b) (if bs = [] then 0 else a + span b)) =
      (if bs = [] then None else Some (a + span b))"
    using NEXT_BLOCK_header[of "if bs = [] then 0 else a + span b"] Cons.prems(3,4) by (auto simp: span_def)
  show ?case
  proof (cases "bs = []")
    case True
    then show ?thesis using Cons.prems(1) nb
      by (subst find_fit.simps) (simp add: blk_size_header[OF w] le del: of_nat_mult)
  next
    case False
    have "find_fit m sz (a + span b) = Some (first_fit (unat sz) (a + span b) bs)"
      using Cons.prems False by (intro Cons.IH) auto
    then show ?thesis using Cons.prems(1) nb False
      by (subst find_fit.simps) (simp add: blk_size_header[OF w] le del: of_nat_mult)
  qed
qed simp

lemma first_fit_Some:
  "first_fit k a bs = Some x \<Longrightarrow> \<exists>pre n post. bs = pre @ Free n # post \<and> x = a + addr pre \<and> k \<le> 4 * n \<and>
     (\<forall>b \<in> set pre. \<not> (free_blk b \<and> k \<le> 4 * words b))"
proof (induction bs arbitrary: a)
  case (Cons b bs)
  show ?case
  proof (cases "free_blk b \<and> k \<le> 4 * words b")
    case True
    then obtain n where "b = Free n" by (cases b) auto
    then show ?thesis using True Cons.prems by (intro exI[of _ "[]"]) simp
  next
    case False
    then obtain pre n post where "bs = pre @ Free n # post" "x = a + span b + addr pre" "k \<le> 4 * n"
      "\<forall>b \<in> set pre. \<not> (free_blk b \<and> k \<le> 4 * words b)"
      using Cons.IH[of "a + span b"] Cons.prems by auto
    then show ?thesis using False by (intro exI[of _ "b # pre"] exI[of _ n] exI[of _ post]) auto
  qed
qed simp

lemma first_fit_None: "first_fit k a bs = None \<longleftrightarrow> (\<forall>b \<in> set bs. \<not> (free_blk b \<and> k \<le> 4 * words b))"
  by (induction bs arbitrary: a) auto

lemma first_fit_app:
  "\<forall>b \<in> set pre. \<not> (free_blk b \<and> k \<le> 4 * words b) \<Longrightarrow> k \<le> 4 * n \<Longrightarrow>
     first_fit k a (pre @ Free n # post) = Some (a + addr pre)"
  by (induction pre arbitrary: a) (auto simp: add.assoc)

lemma find_prev_seg:
  assumes "seg m a (pre @ p # b # post) False" "4 dvd a" "a + addr pre + span p \<le> 32768"
  shows "find_prev m (a + addr pre + span p) a = Some (Some (a + addr pre))"
  using assms
proof (induction pre arbitrary: a)
  case Nil
  then show ?case
    by (subst find_prev.simps) (auto simp: NEXT_BLOCK_header span_def)
next
  case (Cons c pre)
  have "NEXT_BLOCK (header (words c) (free_blk c) (a + span c)) = Some (a + span c)"
    using Cons.prems(2,3) by (auto simp: NEXT_BLOCK_header span_def)
  moreover have "find_prev m (a + span c + addr pre + span p) (a + span c) = Some (Some (a + span c + addr pre))"
    using Cons.prems by (intro Cons.IH) auto
  ultimately show ?case using Cons.prems(1)
    by (subst find_prev.simps) (auto simp: span_def algebra_simps)
qed

lemma find_prev_head:
  assumes "seg m a bs False" "bs \<noteq> []" "4 dvd a" "a + addr bs \<le> 32768"
  shows "find_prev m 0 a = Some None"
  using assms
proof (induction bs arbitrary: a)
  case (Cons b bs)
  have nb: "NEXT_BLOCK (header (words b) (free_blk b) (if bs = [] then 0 else a + span b)) =
      (if bs = [] then None else Some (a + span b))"
    using NEXT_BLOCK_header[of "if bs = [] then 0 else a + span b"] Cons.prems(3,4) by (auto simp: span_def)
  have "bs \<noteq> [] \<Longrightarrow> find_prev m 0 (a + span b) = Some None"
    using Cons.prems by (intro Cons.IH) auto
  then show ?case using Cons.prems(1) nb by (subst find_prev.simps) (auto simp: span_def)
qed simp


section \<open>The allocator refines the list of blocks\<close>


lemma no_adj_Cons: "no_adj (b # bs) \<longleftrightarrow> no_adj bs \<and> \<not> (bs \<noteq> [] \<and> free_blk b \<and> free_blk (hd bs))"
  by (cases bs) auto

lemma no_adj_append:
  "no_adj (xs @ ys) \<longleftrightarrow> no_adj xs \<and> no_adj ys \<and>
     \<not> (xs \<noteq> [] \<and> ys \<noteq> [] \<and> free_blk (last xs) \<and> free_blk (hd ys))"
  by (induction xs) (auto simp: no_adj_Cons)

lemma unat_align4: "unat (push_bit 2 (drop_bit 2 (x :: u32))) = 4 * (unat x div 4)"
proof -
  have "push_bit 2 (drop_bit 2 x) = (x div 4) * 4"
    by (simp add: push_bit_eq_mult drop_bit_eq_div)
  moreover have "unat (x div 4) = unat x div 4" by (simp add: unat_div)
  moreover have "4 * (unat x div 4) < 2 ^ 32"
    using unsigned_less[of x, where 'a = nat] by simp
  ultimately show ?thesis by (simp add: unat_word_ariths)
qed

lemma aligned_size:
  assumes "unat s \<le> 2 ^ 31"
  shows "unat (if s mod ALIGN_FOUR_BYTES \<noteq> 0 then push_bit 2 (drop_bit 2 s) + ALIGN_FOUR_BYTES else s)
    = 4 * ((unat s + 3) div 4)"
proof (cases "s mod 4 = 0")
  case True
  then have "unat s mod 4 = 0" using unat_mod[of s 4] by simp
  then have "unat s = 4 * ((unat s + 3) div 4)" by presburger
  then show ?thesis using True by simp
next
  case False
  then have "unat s mod 4 \<noteq> 0" using unat_mod[of s 4] by (simp add: word_unat_eq_iff)
  then have "(unat s + 3) div 4 = unat s div 4 + 1" by presburger
  then show ?thesis using False assms unat_align4[of s] by (simp add: unat_word_ariths)
qed

lemma and_not_mask2: "(x :: u32) AND NOT (mask 2) = push_bit 2 (drop_bit 2 x)"
proof (rule bit_word_eqI)
  fix n :: nat
  have "2 \<le> n \<Longrightarrow> 2 + (n - 2) = n" by simp
  then show "bit (x AND NOT (mask 2)) n = bit (push_bit 2 (drop_bit 2 x)) n" if "n < LENGTH(32)"
    using that by (auto simp only: bit_simps comp_def not_less)
qed

lemma and_align: "(x :: u32) AND 0xFFFFFFFC = push_bit 2 (drop_bit 2 x)"
proof -
  have "(0xFFFFFFFC :: u32) = NOT (mask 2)" by (simp add: mask_eq_exp_minus_1)
  then show ?thesis unfolding and_not_mask2 [symmetric] by (simp only:)
qed

lemma hdr_fields:
  "r\<lparr>nxt := nxt (header v g n), blk_size := word_of_nat (4 * w), isFree := f\<rparr> = header w f n"
  "r\<lparr>nxt := 0, blk_size := word_of_nat (4 * w), isFree := f\<rparr> = header w f 0"
  by (simp_all add: header_def del: of_nat_mult)

lemma init_heap:
  assumes "length m = unat sz" "4 dvd length m" "4 \<le> length m" "length m \<le> 32768"
  shows "\<exists>m'. USB_Memory_Init sz m = Some m' \<and> length m' = length m \<and> heap m' [Free ((length m - 4) div 4)]"
proof -
  have "unat (sz AND 0xFFFFFFFC) = unat sz" using assms(1,2) by (simp add: and_align unat_align4)
  then have al: "sz AND 0xFFFFFFFC = sz" by (simp only: word_unat_eq_iff)
  have "sz - 4 = word_of_nat (4 * ((length m - 4) div 4))"
    using assms by (simp add: word_unat_eq_iff)
  then have s: "ucast (sz - 4) = (word_of_nat (4 * ((length m - 4) div 4)) :: 15 word)"
    using ucast_of_nat_u32[of "4 * ((length m - 4) div 4)"] assms(4) by (simp only:) simp
  obtain r where r: "hd_at m 0 = Some r" using assms(3) by (simp add: hd_at_def)
  let ?r = "header ((length m - 4) div 4) True 0"
  have "USB_Memory_Init sz m = Some (put_hd 0 ?r m)"
    unfolding USB_Memory_Init_def al s using r assms(3)
    by (simp add: hd_upd_put hdr_fields del: of_nat_mult)
  moreover have "heap (put_hd 0 ?r m) [Free ((length m - 4) div 4)]"
    using assms by (auto simp: heap_def span_def)
  ultimately show ?thesis using assms(3) by simp
qed


lemma alloc_whole:
  assumes h: "heap m (pre @ [Free s] @ post)"
  shows "\<exists>ds. length ds = 4 * s \<and>
    heap (put_hd (addr pre) (header s False (if post = [] then 0 else addr pre + span (Free s))) m)
      (pre @ [Used ds] @ post)"
proof -
  let ?b = "addr pre"
  let ?m = "put_hd ?b (header s False (if post = [] then 0 else ?b + span (Free s))) m"
  let ?ds = "take (4 * s) (drop (?b + 4) m)"
  have len: "?b + span (Free s) + addr post = length m" using heap_hd(2)[of m pre "Free s" post] h by simp
  have lds: "length ?ds = 4 * s" using len by (simp add: span_def)
  have sp: "span (Used ?ds) = span (Free s)" using lds by (simp add: span_def)
  have "take (4 * s) (drop (?b + 4) ?m) = ?ds"
    using len by (intro nth_equalityI) (auto simp: span_def intro!: nth_put_hd)
  then have "stored ?m ?b (Used ?ds)" using lds by (simp del: length_take length_drop)
  then have "heap ?m (pre @ [Used ?ds] @ post)"
    using len sp lds h
    by (intro heap_replace[OF h]) (auto simp: span_def heap_def no_adj_append no_adj_Cons intro!: nth_put_hd)
  then show ?thesis using lds by blast
qed


lemma alloc_split:
  assumes h: "heap m (pre @ [Free s] @ post)" and n: "n + 1 < s"
  defines "f \<equiv> addr pre + 4 * n + 4"
  shows "\<exists>ds. length ds = 4 * n \<and>
    heap (put_hd (addr pre) (header n False f)
       (put_hd f (header (s - n - 1) True (if post = [] then 0 else addr pre + span (Free s))) m))
      (pre @ [Used ds, Free (s - n - 1)] @ post)"
proof -
  let ?b = "addr pre"
  let ?m1 = "put_hd f (header (s - n - 1) True (if post = [] then 0 else ?b + span (Free s))) m"
  let ?m = "put_hd ?b (header n False f) ?m1"
  let ?ds = "take (4 * n) (drop (?b + 4) m)"
  have len: "?b + span (Free s) + addr post = length m" using heap_hd(2)[of m pre "Free s" post] h by simp
  have lds: "length ?ds = 4 * n" using len n by (simp add: span_def)
  have f4: "f + 4 \<le> length m" and b4: "?b + 4 \<le> length m" using len n by (simp_all add: span_def f_def)
  have out: "?m ! i = m ! i" if "i < ?b \<or> ?b + 4 \<le> i" "i < f \<or> f + 4 \<le> i" "i < length m" for i
    using that f4 b4 nth_put_hd[of ?b ?m1 i] nth_put_hd[of f m i] by simp
  have "take (4 * n) (drop (?b + 4) ?m) = ?ds"
  proof (rule nth_equalityI)
    show "take (4 * n) (drop (?b + 4) ?m) ! i = ?ds ! i" if "i < length (take (4 * n) (drop (?b + 4) ?m))" for i
      using that f4 b4 len n out[of "?b + 4 + i"] by (simp add: f_def span_def)
  qed (use f4 b4 in simp)
  then have "stored ?m ?b (Used ?ds)" using lds by (simp del: length_take length_drop)
  moreover have "4 * n div 4 = n" by simp
  moreover have "?b + 4 \<le> f" by (simp add: f_def)
  moreover have "?b + span (Used ?ds) = f" "f + span (Free (s - n - 1)) = ?b + span (Free s)"
    using lds n by (simp_all add: span_def f_def)
  ultimately have sg: "seg ?m ?b [Used ?ds, Free (s - n - 1)] (post \<noteq> [])"
    using f4 b4 lds by (simp del: length_take length_drop)
  have "heap ?m (pre @ [Used ?ds, Free (s - n - 1)] @ post)"
  proof (rule heap_replace[OF h _ _ _ _ _ sg])
    show "addr [Used ?ds, Free (s - n - 1)] = addr [Free s]"
      using lds n by (simp add: span_def del: length_take length_drop)
    show "?m ! i = m ! i" if "i < ?b \<or> ?b + addr [Free s] \<le> i" "i < length m" for i
      using that n by (intro out) (auto simp: f_def span_def)
    show "no_adj (pre @ [Used ?ds, Free (s - n - 1)] @ post)"
      using h by (auto simp: heap_def no_adj_append no_adj_Cons)
  qed (use f4 b4 in auto)
  then show ?thesis using lds by blast
qed

lemma alloc_none:
  assumes "heap m bs" "unat s0 \<le> 2 ^ 31"
    and "\<forall>b \<in> set bs. \<not> (free_blk b \<and> (unat s0 + 3) div 4 \<le> words b)"
  shows "USB_Memory_Alloc s0 m = Some (None, m)"
proof -
  let ?sz = "if s0 mod ALIGN_FOUR_BYTES \<noteq> 0 then push_bit 2 (drop_bit 2 s0) + ALIGN_FOUR_BYTES else s0"
  have "find_fit m ?sz 0 = Some (first_fit (unat ?sz) 0 bs)"
    using assms(1) by (intro find_fit_seg) (auto simp: heap_def)
  moreover have "first_fit (unat ?sz) 0 bs = None"
    unfolding first_fit_None aligned_size[OF assms(2)] using assms(3) by auto
  ultimately show ?thesis unfolding USB_Memory_Alloc_def Let_def by simp
qed

lemma alloc_fit:
  assumes h: "heap m (pre @ Free s # post)" and s0: "unat s0 \<le> 2 ^ 31"
    and n: "n = (unat s0 + 3) div 4" "n \<le> s"
    and pre: "\<forall>b \<in> set pre. \<not> (free_blk b \<and> n \<le> words b)"
  shows "\<exists>m' ds. USB_Memory_Alloc s0 m = Some (Some (addr pre + 4), m') \<and>
    length ds = 4 * (if s \<le> n + 1 then s else n) \<and>
    heap m' (pre @ Used ds # (if s \<le> n + 1 then [] else [Free (s - n - 1)]) @ post)"
proof -
  define sz where "sz = (if s0 mod ALIGN_FOUR_BYTES \<noteq> 0 then push_bit 2 (drop_bit 2 s0) + ALIGN_FOUR_BYTES else s0)"
  have usz: "unat sz = 4 * n" unfolding sz_def aligned_size[OF s0] n(1) ..
  then have sz: "sz = word_of_nat (4 * n)" by (metis of_nat_unat ucast_id)
  let ?b = "addr pre" and ?nx = "if post = [] then 0 else addr pre + span (Free s)"
  note hh = heap_hd[OF h]
  have "find_fit m sz 0 = Some (first_fit (unat sz) 0 (pre @ Free s # post))"
    using h by (intro find_fit_seg) (auto simp: heap_def)
  moreover have "first_fit (unat sz) 0 (pre @ Free s # post) = Some ?b"
    using first_fit_app[of pre "unat sz" s 0 post] pre n(2) usz by simp
  ultimately have ff: "find_fit m sz 0 = Some (Some ?b)" by simp
  have hb: "hd_at m ?b = Some (header s True ?nx)" using hh(1) by simp
  have s15: "4 * s < 2 ^ 15" using hh(4) by simp
  have le: "(word_of_nat (4 * s) :: u32) \<le> HEADER_SIZE + sz \<longleftrightarrow> s \<le> n + 1"
  proof -
    have "HEADER_SIZE + sz = word_of_nat (4 * n + 4)" unfolding sz by simp
    moreover have "4 * n + 4 < 2 ^ 32" using s15 n(2) by simp
    ultimately show ?thesis using s15
      by (simp only: word_le_nat_alt unat_of_nat) (simp add: take_bit_nat_eq_self, arith)
  qed
  show ?thesis
  proof (cases "s \<le> n + 1")
    case True
    have "USB_Memory_Alloc s0 m = Some (Some (?b + 4), put_hd ?b (header s False ?nx) m)"
      unfolding USB_Memory_Alloc_def Let_def sz_def[symmetric]
      using ff hb le True by (simp add: blk_size_header[OF s15] hd_upd_put del: of_nat_mult)
    then show ?thesis using alloc_whole[of m pre s post] h True by auto
  next
    case False
    define f where "f = ?b + 4 * n + 4"
    have len: "?b + span (Free s) + addr post = length m" using hh(2) .
    have f4: "f + 4 \<le> length m" "?b + 4 \<le> length m" "?b + 4 \<le> f"
      using len False by (simp_all add: span_def f_def)
    then obtain r where r: "hd_at m f = Some r" by (simp add: hd_at_def)
    have sub: "ucast (word_of_nat (4 * s) - (HEADER_SIZE + sz)) = (word_of_nat (4 * (s - n - 1)) :: 15 word)"
    proof -
      have "(word_of_nat (4 * s) :: u32) - (HEADER_SIZE + sz) = word_of_nat (4 * (s - n - 1))"
        using False unfolding sz by (simp add: of_nat_diff algebra_simps)
      then show ?thesis using ucast_of_nat_u32[of "4 * (s - n - 1)"] s15 by (simp only:) simp
    qed
    have usz15: "(ucast sz :: 15 word) = word_of_nat (4 * n)"
      unfolding sz by (rule ucast_of_nat_u32) (use s15 n(2) in simp)
    have "USB_Memory_Alloc s0 m = Some (Some (?b + 4), put_hd ?b (header n False f) (put_hd f (header (s - n - 1) True ?nx) m))"
      unfolding USB_Memory_Alloc_def Let_def sz_def[symmetric] usz
      using ff hb le False r f4
      by (simp add: blk_size_header[OF s15] hd_upd_put f_def[symmetric] usz15 sub hdr_fields add.assoc[symmetric] del: of_nat_mult)
    then show ?thesis using alloc_split[of m pre s post n] h False unfolding f_def by auto
  qed
qed


text \<open>Freeing merges the block with free neighbours on both sides.\<close>

fun absorb :: "nat \<Rightarrow> block list \<Rightarrow> nat \<times> block list" where
  "absorb w (Free q # bs) = (w + q + 1, bs)"
| "absorb w bs = (w, bs)"

definition coalesce :: "block list \<Rightarrow> nat \<Rightarrow> block list \<Rightarrow> block list" where
  "coalesce pre w post = (case absorb w post of (w', post') \<Rightarrow>
     (if pre \<noteq> [] \<and> free_blk (last pre) then butlast pre @ Free (words (last pre) + w' + 1) # post'
      else pre @ Free w' # post'))"

lemma absorb_used: "no_adj (Free n # post) \<or> no_adj post \<Longrightarrow> absorb w post = (w', post') \<Longrightarrow> post' = [] \<or> \<not> free_blk (hd post')"
  by (cases "(w, post)" rule: absorb.cases) (auto simp: no_adj_Cons)

text \<open>Two neighbours become one block: the header of the first covers both.\<close>

lemma heap_join:
  assumes h: "heap m (pre @ [b, c] @ post)"
    and d: "span d = span b + span c"
      "stored (put_hd (addr pre) (header (words d) (free_blk d) (if post = [] then 0 else addr pre + span d)) m) (addr pre) d"
      "no_adj (pre @ [d] @ post)"
  shows "heap (put_hd (addr pre) (header (words d) (free_blk d) (if post = [] then 0 else addr pre + span d)) m)
    (pre @ [d] @ post)"
proof -
  have len: "addr pre + span b + span c + addr post = length m"
    using heap_hd(2)[of m pre b "c # post"] h by simp
  then have b4: "addr pre + 4 \<le> length m" using span_ge[of b] by linarith
  show ?thesis
    using d len b4 span_ge[of b] by (intro heap_replace[OF h]) (auto intro!: nth_put_hd)
qed

lemma merge_next_heap:
  assumes h: "heap m (pre @ Used ds # post)" and a: "absorb (length ds div 4) post = (w', post')"
  shows "\<exists>m' ds'. merge_next (addr pre) m = Some m' \<and> length ds' = 4 * w' \<and> length m' = length m \<and>
     heap m' (pre @ Used ds' # post')"
proof (cases "\<exists>q r. post = Free q # r")
  case False
  then have w: "w' = length ds div 4" "post' = post" using a by (auto elim: absorb.elims)
  let ?r = "header (length ds div 4) False (if post = [] then 0 else addr pre + span (Used ds))"
  have hb: "hd_at m (addr pre) = Some ?r" using heap_hd(1)[OF h] by simp
  have dv: "4 dvd length ds" using h heap_parts[of m pre "[Used ds]" post] by simp
  have "merge_next (addr pre) m = Some m"
  proof (cases post)
    case Nil
    then show ?thesis using hb by (simp add: merge_next_def NEXT_BLOCK_header)
  next
    case (Cons b r)
    then have nf: "\<not> free_blk b" using False by (cases b) auto
    have "NEXT_BLOCK ?r = Some (addr pre + span (Used ds))"
      using heap_hd(3)[OF h] Cons by (simp add: NEXT_BLOCK_header span_def)
    moreover have "hd_at m (addr pre + span (Used ds)) = Some (header (words b) (free_blk b)
        (if r = [] then 0 else addr (pre @ [Used ds]) + span b))"
      using heap_hd(1)[of m "pre @ [Used ds]" b r] h Cons by simp
    ultimately show ?thesis using hb nf by (simp add: merge_next_def)
  qed
  then show ?thesis using h w dv by auto
next
  case True
  then obtain q r where post: "post = Free q # r" by blast
  then have w: "w' = length ds div 4 + q + 1" "post' = r" using a by auto
  let ?b = "addr pre" and ?n = "addr pre + span (Used ds)"
  let ?nx = "if r = [] then 0 else ?n + span (Free q)"
  have hb: "hd_at m ?b = Some (header (length ds div 4) False ?n)" using heap_hd(1)[OF h] post by simp
  have h2: "heap m ((pre @ [Used ds]) @ Free q # r)" using h post by simp
  have hn: "hd_at m ?n = Some (header q True ?nx)" using heap_hd(1)[OF h2] by (simp add: add.assoc)
  have len: "?n + span (Free q) + addr r = length m" using heap_hd(2)[OF h2] by simp
  have le: "length m \<le> 32768" using h by (simp add: heap_def)
  have nb: "NEXT_BLOCK (header (length ds div 4) False ?n) = Some ?n"
    using len le by (simp add: NEXT_BLOCK_header span_def)
  have w4: "4 * (length ds div 4) < 2 ^ 15" "4 * q < 2 ^ 15" using len le by (auto simp: span_def)
  have dv: "4 dvd length ds" using h heap_parts[of m pre "[Used ds]" post] by simp
  define ds' where "ds' = take (4 * w') (drop (?b + 4) m)"
  have lds: "length ds' = 4 * w'" using len dv by (auto simp: ds'_def span_def w(1))
  let ?m = "put_hd ?b (header w' False ?nx) m"
  have b4: "?b + 4 \<le> length m" using len by (simp add: span_def)
  have sum: "ucast (ucast (blk_size (header (length ds div 4) False ?n)) + ucast (blk_size (header q True ?nx)) + HEADER_SIZE)
      = (word_of_nat (4 * w') :: 15 word)"
    unfolding blk_size_header[OF w4(1)] blk_size_header[OF w4(2)] w(1) using w4 by (intro ucast_sum_u32) simp
  have bn: "?b + 4 \<le> ?n" using span_ge by simp
  have "merge_next ?b m = Some ?m"
    unfolding merge_next_def using hb hn nb b4 bn sum by (simp add: hd_upd_put del: of_nat_mult)
  moreover have "heap ?m (pre @ [Used ds'] @ r)"
  proof -
    have sp: "span (Used ds') = span (Used ds) + span (Free q)"
      using lds w(1) by (simp add: span_def)
    have "take (4 * w') (drop (?b + 4) ?m) = ds'"
      unfolding ds'_def using b4 by (intro nth_equalityI) (auto intro!: nth_put_hd)
    then have st: "stored ?m ?b (Used ds')" using lds by simp
    have wd: "words (Used ds') = w'" using lds by simp
    have nx: "(if r = [] then 0 else ?b + span (Used ds')) = ?nx" by (simp add: sp)
    have na: "no_adj (pre @ [Used ds'] @ r)" using h post by (auto simp: heap_def no_adj_append no_adj_Cons)
    have h3: "heap m (pre @ [Used ds, Free q] @ r)" using h2 by simp
    show ?thesis
      using heap_join[OF h3 sp _ na] st unfolding wd nx by simp
  qed
  ultimately show ?thesis using lds w(2) b4 by auto
qed


lemma free_mark:
  assumes h: "heap m (pre @ [Used ds] @ post)"
    and nb: "pre = [] \<or> \<not> free_blk (last pre)" "post = [] \<or> \<not> free_blk (hd post)"
  shows "\<exists>m'. hd_upd (isFree_update (\<lambda>_. True)) (addr pre) m = Some m' \<and> length m' = length m \<and>
    heap m' (pre @ [Free (length ds div 4)] @ post)"
proof -
  let ?nx = "if post = [] then 0 else addr pre + span (Used ds)"
  let ?m = "put_hd (addr pre) (header (length ds div 4) True ?nx) m"
  have h': "heap m (pre @ Used ds # post)" using h by simp
  have b4: "addr pre + 4 \<le> length m" and hd: "hd_at m (addr pre) = Some (header (length ds div 4) False ?nx)"
    using heap_hd(1,2)[OF h'] by (auto simp: span_def)
  have "hd_upd (isFree_update (\<lambda>_. True)) (addr pre) m = Some ?m"
    using hd by (simp add: hd_upd_put)
  moreover have "heap ?m (pre @ [Free (length ds div 4)] @ post)"
    using h b4 nb
    by (intro heap_replace[OF h]) (auto simp: heap_def no_adj_append no_adj_Cons span_def intro!: nth_put_hd)
  ultimately show ?thesis using b4 by simp
qed

lemma free_used:
  assumes h: "heap m (pre @ Used ds # post)"
  shows "\<exists>m'. USB_Memory_Free (Some (addr pre + 4)) m = Some m' \<and> length m' = length m \<and>
    heap m' (coalesce pre (length ds div 4) post)"
proof -
  obtain w' post' where a: "absorb (length ds div 4) post = (w', post')" by fastforce
  obtain m1 ds' where m1: "merge_next (addr pre) m = Some m1" "length ds' = 4 * w'" "length m1 = length m"
      "heap m1 (pre @ Used ds' # post')"
    using merge_next_heap[OF h a] by blast
  have npost: "post' = [] \<or> \<not> free_blk (hd post')"
    using absorb_used[OF _ a] h by (auto simp: heap_def no_adj_append no_adj_Cons)
  note seg1 = m1(4)[unfolded heap_def]
  have h1: "heap m1 (pre @ [Used ds'] @ post')" using m1(4) by simp
  show ?thesis
  proof (cases "pre = []")
    case True
    have "find_prev m1 0 0 = Some None" using seg1 by (intro find_prev_head) auto
    moreover obtain m' where "hd_upd (isFree_update (\<lambda>_. True)) 0 m1 = Some m'" "length m' = length m1"
        "heap m' ([] @ [Free (length ds' div 4)] @ post')"
      using free_mark[OF h1 _ npost] True by auto
    ultimately show ?thesis using m1 True a by (simp add: USB_Memory_Free_def coalesce_def)
  next
    case False
    then obtain pre0 p where pre: "pre = pre0 @ [p]" by (metis rev_exhaust)
    let ?b = "addr pre" and ?p = "addr pre0"
    have bp: "?b = ?p + span p" by (simp add: pre)
    have fp: "find_prev m1 ?b 0 = Some (Some ?p)"
      using find_prev_seg[of m1 0 pre0 p "Used ds'" post'] seg1 unfolding bp by (simp add: pre)
    have h0: "heap m1 (pre0 @ p # Used ds' # post')" using m1(4) by (simp add: pre)
    have hp: "hd_at m1 ?p = Some (header (words p) (free_blk p) ?b)" using heap_hd(1)[OF h0] by (simp add: bp)
    show ?thesis
    proof (cases "free_blk p")
      case f: False
      obtain m' where "hd_upd (isFree_update (\<lambda>_. True)) ?b m1 = Some m'" "length m' = length m1"
          "heap m' (pre @ [Free (length ds' div 4)] @ post')"
        using free_mark[OF h1 _ npost] f pre by auto
      then show ?thesis using m1 fp hp f a pre
        by (simp add: USB_Memory_Free_def coalesce_def)
    next
      case True
      define nx where "nx = (if post' = [] then 0 else ?b + span (Used ds'))"
      define w where "w = words p + w' + 1"
      have hb: "hd_at m1 ?b = Some (header w' False nx)" using heap_hd(1)[OF m1(4)] m1(2) by (simp add: nx_def)
      have w4: "4 * words p < 2 ^ 15" "4 * w' < 2 ^ 15"
        using heap_hd(4)[OF h0] heap_hd(4)[OF m1(4)] m1(2) by simp_all
      have sum: "ucast (ucast (blk_size (header (words p) True ?b)) + ucast (blk_size (header w' False nx)) + HEADER_SIZE)
          = (word_of_nat (4 * w) :: 15 word)"
        unfolding w_def blk_size_header[OF w4(1)] blk_size_header[OF w4(2)] using w4 by (intro ucast_sum_u32) simp
      have p4: "?p + 4 \<le> ?b" "?p + 4 \<le> length m1"
        using span_ge[of p] heap_hd(2)[OF h0] by (auto simp: bp)
      let ?m = "put_hd ?p (header w True nx) m1"
      have "USB_Memory_Free (Some (?b + 4)) m = Some ?m"
        unfolding USB_Memory_Free_def
        using m1(1) fp hp True hb p4 sum by (simp add: hd_upd_put del: of_nat_mult)
      moreover have "heap ?m (pre0 @ [Free w] @ post')"
      proof -
        have sp: "span (Free w) = span p + span (Used ds')" using m1(2) by (simp add: span_def w_def)
        have nx: "(if post' = [] then 0 else ?p + span (Free w)) = nx" by (simp add: sp bp nx_def)
        have na: "no_adj (pre0 @ [Free w] @ post')"
          using h0 True npost by (auto simp: heap_def no_adj_append no_adj_Cons)
        have h3: "heap m1 (pre0 @ [p, Used ds'] @ post')" using h0 by simp
        show ?thesis using heap_join[OF h3 sp _ na] unfolding nx by simp
      qed
      ultimately show ?thesis using p4 m1(3) a pre True by (simp add: coalesce_def w_def)
    qed
  qed
qed

text \<open>A byte written inside an allocated block stays inside it.\<close>

lemma write_used:
  assumes h: "heap m (pre @ Used ds # post)" and i: "i < length ds"
  shows "heap (m[addr pre + 4 + i := v]) (pre @ Used (ds[i := v]) # post)"
proof -
  let ?b = "addr pre" and ?m = "m[addr pre + 4 + i := v]"
  have h': "heap m (pre @ [Used ds] @ post)" using h by simp
  have d: "4 dvd length ds" "take (length ds) (drop (?b + 4) m) = ds" "hd_at m ?b = Some (header (length ds div 4) False (if post = [] then 0 else ?b + span (Used ds)))"
    using h' heap_parts[of m pre "[Used ds]" post] by auto
  have hd: "hd_at ?m ?b = hd_at m ?b" by (rule hd_at_cong) auto
  have len: "?b + span (Used ds) + addr post = length m" using heap_hd(2)[OF h] .
  have sp: "span (Used (ds[i := v])) = span (Used ds)" by (simp add: span_def)
  have "take (length ds) (drop (?b + 4) ?m) = ds[i := v]"
    using d(2) by (simp add: drop_update_swap take_update_swap i)
  then have "heap ?m (pre @ [Used (ds[i := v])] @ post)"
    using d hd sp h i by (intro heap_replace[OF h']) (auto simp: heap_def span_def no_adj_append no_adj_Cons)
  then show ?thesis by simp
qed


section \<open>The pool as an interface\<close>

fun owned :: "nat \<Rightarrow> block list \<Rightarrow> (nat \<times> u8 list) set" where
  "owned a [] = {}"
| "owned a (b # bs) = (case b of Free _ \<Rightarrow> {} | Used ds \<Rightarrow> {(a + 4, ds)}) \<union> owned (a + span b) bs"

definition pool_ok :: "u8 list \<Rightarrow> bool" where
  "pool_ok m \<longleftrightarrow> (\<exists>bs. heap m bs)"

definition pool_owns :: "u8 list \<Rightarrow> nat \<Rightarrow> u8 list \<Rightarrow> bool" where
  "pool_owns m p ds \<longleftrightarrow> (\<exists>bs. heap m bs \<and> (p, ds) \<in> owned 0 bs)"

lemma owned_append: "owned a (xs @ ys) = owned a xs \<union> owned (a + addr xs) ys"
  by (induction xs arbitrary: a) (auto simp: add.assoc)

lemma owned_split:
  "(p, ds) \<in> owned a bs \<Longrightarrow> \<exists>pre post. bs = pre @ Used ds # post \<and> p = a + addr pre + 4"
proof (induction bs arbitrary: a)
  case (Cons b bs)
  show ?case
  proof (cases "(p, ds) \<in> owned (a + span b) bs")
    case True
    then obtain pre post where "bs = pre @ Used ds # post" "p = a + span b + addr pre + 4"
      using Cons.IH by blast
    then show ?thesis by (intro exI[of _ "b # pre"] exI[of _ post]) simp
  next
    case False
    then have "b = Used ds" "p = a + 4" using Cons.prems by (auto split: block.splits)
    then show ?thesis by (intro exI[of _ "[]"] exI[of _ bs]) simp
  qed
qed simp

lemma owned_range: "(p, ds) \<in> owned a bs \<Longrightarrow> a + 4 \<le> p \<and> p \<le> a + addr bs"
  using owned_split[of p ds a bs] by (auto simp: span_def)

lemma owned_other:
  "(q, es) \<in> owned a (pre @ Used ds # post) \<Longrightarrow> q \<noteq> a + addr pre + 4 \<Longrightarrow>
    (q, es) \<in> owned a pre \<or> (q, es) \<in> owned (a + addr pre + span (Used ds)) post"
  by (auto simp: owned_append)

lemma header_last:
  assumes "4 dvd n" "n \<le> 32768"
  shows "header w f 0 = header v g n \<Longrightarrow> n = 0"
  using NEXT_BLOCK_header[OF assms, of v g] NEXT_BLOCK_header[of 0 w f] by (auto split: if_splits)

lemma header_words: "header w f n = header v g k \<Longrightarrow> 4 * w < 2 ^ 15 \<Longrightarrow> 4 * v < 2 ^ 15 \<Longrightarrow> w = v \<and> f = g"
proof -
  assume h: "header w f n = header v g k" and b: "4 * w < 2 ^ 15" "4 * v < 2 ^ 15"
  have "(word_of_nat (4 * w) :: u32) = word_of_nat (4 * v)"
    using blk_size_header[OF b(1)] blk_size_header[OF b(2)] h by metis
  then have "4 * w = 4 * v" using b by (simp add: word_unat_eq_iff unat_of_nat take_bit_nat_eq_self del: of_nat_mult)
  moreover have "f = g" using h by (metis header_simps(1))
  ultimately show "w = v \<and> f = g" by simp
qed

lemma seg_unique:
  assumes "seg m a bs False" "seg m a cs False" "4 dvd a" "a + addr bs \<le> 32768" "a + addr cs \<le> 32768"
    and "bs \<noteq> []" "cs \<noteq> []"
  shows "bs = cs"
  using assms
proof (induction bs arbitrary: a cs)
  case (Cons b bs)
  then obtain c cs' where cs: "cs = c # cs'" by (cases cs) auto
  let ?nb = "if bs = [] then 0 else a + span b" and ?nc = "if cs' = [] then 0 else a + span c"
  have eq: "header (words b) (free_blk b) ?nb = header (words c) (free_blk c) ?nc"
    using Cons.prems(1,2) cs by simp
  have bd: "4 * words b < 2 ^ 15" "4 * words c < 2 ^ 15" "a + span b \<le> 32768" "a + span c \<le> 32768"
    using Cons.prems(4,5) cs by (auto simp: span_def)
  note wf = header_words[OF eq bd(1,2)]
  then have sp: "span b = span c" by (simp add: span_def)
  have nil: "bs = [] \<longleftrightarrow> cs' = []"
  proof
    assume "bs = []"
    then have "header (words b) (free_blk b) 0 = header (words c) (free_blk c) ?nc" using eq by simp
    then have "?nc = 0" using header_last[of ?nc] Cons.prems(3) bd(4) by (auto split: if_splits)
    then show "cs' = []" using span_ge[of c] by (auto split: if_splits)
  next
    assume "cs' = []"
    then have "header (words c) (free_blk c) 0 = header (words b) (free_blk b) ?nb" using eq by simp
    then have "?nb = 0" using header_last[of ?nb] Cons.prems(3) bd(3) by (auto split: if_splits)
    then show "bs = []" using span_ge[of b] by (auto split: if_splits)
  qed
  have "b = c"
  proof (cases b)
    case (Free n)
    then show ?thesis using wf by (cases c) auto
  next
    case (Used ds)
    then obtain es where c: "c = Used es" using wf by (cases c) auto
    have d: "4 dvd length ds" "take (length ds) (drop (a + 4) m) = ds"
      and e: "4 dvd length es" "take (length es) (drop (a + 4) m) = es"
      using Cons.prems(1,2) cs c Used by simp_all
    have "length ds = length es" using d(1) e(1) wf c Used by auto
    then show ?thesis using d(2) e(2) c Used by metis
  qed
  moreover have "bs = cs'"
  proof (cases "bs = []")
    case False
    then show ?thesis using Cons.prems cs sp nil by (intro Cons.IH[of "a + span b"]) auto
  qed (use nil in simp)
  ultimately show ?case using cs by simp
qed simp

lemma heap_unique: "heap m bs \<Longrightarrow> heap m cs \<Longrightarrow> bs = cs"
  by (rule seg_unique[of m 0]) (auto simp: heap_def)

lemma owns_iff: "heap m bs \<Longrightarrow> pool_owns m p ds \<longleftrightarrow> (p, ds) \<in> owned 0 bs"
  unfolding pool_owns_def using heap_unique by blast

lemma alloc_cases:
  assumes h: "heap m bs" and s: "unat s \<le> 2 ^ 31"
  obtains (none) "USB_Memory_Alloc s m = Some (None, m)"
  | (some) pre f post m' ds rest where "bs = pre @ Free f # post"
      "USB_Memory_Alloc s m = Some (Some (addr pre + 4), m')" "unat s \<le> length ds"
      "heap m' (pre @ Used ds # rest @ post)" "\<forall>b \<in> set rest. free_blk b"
      "span (Used ds) + addr rest = span (Free f)"
proof (cases "first_fit (4 * ((unat s + 3) div 4)) 0 bs")
  case None
  then have "USB_Memory_Alloc s m = Some (None, m)"
    using h s by (intro alloc_none) (auto simp: first_fit_None)
  then show ?thesis by (rule none)
next
  case (Some x)
  let ?n = "(unat s + 3) div 4"
  obtain pre f post where b: "bs = pre @ Free f # post" "?n \<le> f"
      "\<forall>b \<in> set pre. \<not> (free_blk b \<and> ?n \<le> words b)"
    using first_fit_Some[OF Some] by auto
  obtain m' ds where a: "USB_Memory_Alloc s m = Some (Some (addr pre + 4), m')"
      "length ds = 4 * (if f \<le> ?n + 1 then f else ?n)"
      "heap m' (pre @ Used ds # (if f \<le> ?n + 1 then [] else [Free (f - ?n - 1)]) @ post)"
    using alloc_fit[OF h[unfolded b(1)] s refl b(2,3)] by blast
  have "unat s \<le> 4 * ?n" by presburger
  then have "unat s \<le> length ds" using a(2) b(2) by (auto split: if_splits)
  then show ?thesis using some[OF b(1) a(1) _ a(3)] a(2) b(2) by (auto simp: span_def split: if_splits)
qed


lemma owned_coalesce:
  assumes "(q, es) \<in> owned 0 pre \<or> (q, es) \<in> owned (addr pre + 4 + 4 * w) post"
  shows "(q, es) \<in> owned 0 (coalesce pre w post)"
proof -
  obtain w' post' where a: "absorb w post = (w', post')" by fastforce
  have post: "owned (addr pre + 4 + 4 * w) post = owned (addr pre + 4 + 4 * w') post'"
    using a by (cases "(w, post)" rule: absorb.cases) (auto simp: span_def algebra_simps)
  show ?thesis
  proof (cases "pre \<noteq> [] \<and> free_blk (last pre)")
    case True
    then obtain pre0 n where p: "pre = pre0 @ [Free n]"
      by (metis append_butlast_last_id block.exhaust free_blk.simps(2))
    then show ?thesis using assms a post by (auto simp: coalesce_def owned_append span_def algebra_simps)
  next
    case False
    then show ?thesis using assms a post by (auto simp: coalesce_def owned_append span_def algebra_simps)
  qed
qed

interpretation pool: memory_pool USB_Memory_Alloc USB_Memory_Free pool_ok pool_owns
proof
  fix m s assume ok: "pool_ok m" and s: "unat (s :: u32) \<le> 2 ^ 31"
  then obtain bs where h: "heap m bs" by (auto simp: pool_ok_def)
  show "\<exists>r m'. USB_Memory_Alloc s m = Some (r, m')"
    by (rule alloc_cases[OF h s]) auto
  show "m' = m" if "USB_Memory_Alloc s m = Some (None, m')" for m'
    by (rule alloc_cases[OF h s]) (use that in auto)
  fix p m' assume a: "USB_Memory_Alloc s m = Some (Some p, m')"
  show "pool_ok m' \<and> (\<exists>ds. pool_owns m' p ds \<and> unat s \<le> length ds)"
  proof (rule alloc_cases[OF h s])
    fix pre f post m'' ds rest
    assume "USB_Memory_Alloc s m = Some (Some (addr pre + 4), m'')" "unat s \<le> length ds"
      and h': "heap m'' (pre @ Used ds # rest @ post)"
    then show ?thesis using a by (auto simp: pool_ok_def owns_iff[OF h'] owned_append)
  qed (use a in simp)
  show "q \<noteq> p \<and> pool_owns m' q es" if q: "pool_owns m q es" for q es
  proof (rule alloc_cases[OF h s])
    fix pre f post m'' ds rest
    assume bs: "bs = pre @ Free f # post" and al: "USB_Memory_Alloc s m = Some (Some (addr pre + 4), m'')"
      and h': "heap m'' (pre @ Used ds # rest @ post)" and sp: "span (Used ds) + addr rest = span (Free f)"
    have "(q, es) \<in> owned 0 pre \<or> (q, es) \<in> owned (addr pre + span (Free f)) post"
      using q unfolding owns_iff[OF h] bs by (auto simp: owned_append)
    moreover from this have "q \<noteq> addr pre + 4"
      using owned_range[of q es 0 pre] owned_range[of q es "addr pre + span (Free f)" post] span_ge[of "Free f"] by auto
    moreover have "m'' = m'" "p = addr pre + 4" using a al by auto
    ultimately show ?thesis using sp owns_iff[OF h'] by (auto simp: owned_append add.assoc)
  qed (use a in simp)
next
  fix m show "USB_Memory_Free None m = Some m" by (simp add: USB_Memory_Free_def)
next
  fix m p ds assume "pool_ok m" and o: "pool_owns m p ds"
  then obtain bs where h: "heap m bs" and i: "(p, ds) \<in> owned 0 bs" by (auto simp: pool_owns_def)
  obtain pre post where bs: "bs = pre @ Used ds # post" "p = addr pre + 4" using owned_split[OF i] by auto
  note h1 = h[unfolded bs(1)]
  have dv: "4 dvd length ds" using h1 heap_parts[of m pre "[Used ds]" post] by simp
  show "\<exists>m'. USB_Memory_Free (Some p) m = Some m' \<and> pool_ok m' \<and>
      (\<forall>q es. q \<noteq> p \<longrightarrow> pool_owns m q es \<longrightarrow> pool_owns m' q es)"
  proof -
    obtain m' where m': "USB_Memory_Free (Some p) m = Some m'" "heap m' (coalesce pre (length ds div 4) post)"
      using free_used[OF h1] bs(2) by auto
    have "(q, es) \<in> owned 0 (coalesce pre (length ds div 4) post)" if "q \<noteq> p" "pool_owns m q es" for q es
      using that bs owned_other[of q es 0 pre ds post] owns_iff[OF h] dv
        owned_coalesce[of q es pre "length ds div 4" post] by (auto simp: span_def add.assoc)
    then show ?thesis using m' by (auto simp: pool_ok_def owns_iff[OF m'(2)])
  qed
  fix i v assume i: "i < length ds"
  have h': "heap (m[p + i := v]) (pre @ Used (ds[i := v]) # post)"
    using write_used[OF h1 i] bs(2) by simp
  then show "pool_ok (m[p + i := v]) \<and> pool_owns (m[p + i := v]) p (ds[i := v]) \<and>
     (\<forall>q es. q \<noteq> p \<longrightarrow> pool_owns m q es \<longrightarrow> pool_owns (m[p + i := v]) q es)"
    unfolding owns_iff[OF h'] owns_iff[OF h] bs(1) pool_ok_def using bs(2)
    by (auto simp: owned_append span_def)
next
  fix m p ds i assume o: "pool_owns m p ds" and i: "i < length (ds :: u8 list)"
  then obtain bs where h: "heap m bs" and k: "(p, ds) \<in> owned 0 bs" by (auto simp: pool_owns_def)
  obtain pre post where bs: "bs = pre @ Used ds # post" "p = addr pre + 4" using owned_split[OF k] by auto
  have d: "take (length ds) (drop (addr pre + 4) m) = ds" "4 dvd length ds"
    using h bs heap_parts[of m pre "[Used ds]" post] by simp_all
  have len: "addr pre + span (Used ds) + addr post = length m"
    using heap_hd(2)[of m pre "Used ds" post] h bs by simp
  have "ds ! i = take (length ds) (drop (addr pre + 4) m) ! i" by (simp only: d(1))
  also have "\<dots> = m ! (p + i)" using i bs(2) len d(2) by (simp add: span_def)
  finally show "p + i < length m \<and> m ! (p + i) = ds ! i" using i bs(2) len d(2) by (simp add: span_def)
qed


section \<open>Properties\<close>

text \<open>
  \<^bold>\<open>C30\<close>. The pool allocator refines the list of blocks that tiles the pool. An allocation takes the
  first free block that is large enough for the request rounded up to words, leaves the rest as a
  free block when a header and at least one word fit, and returns \<^verbatim>\<open>NULL\<close> with the pool unchanged
  exactly when no free block is large enough; a release turns a used block into a free one, merged
  with its free neighbours on both sides. In each case the call returns, and every other block keeps
  its place and its contents.
\<close>

theorem usb_memory_refines:
  assumes "heap m bs" "unat s \<le> 2 ^ 31" "n = (unat s + 3) div 4"
  shows "((\<forall>b \<in> set bs. \<not> (free_blk b \<and> n \<le> words b)) \<longrightarrow> USB_Memory_Alloc s m = Some (None, m)) \<and>
    (\<forall>pre f post. bs = pre @ Free f # post \<longrightarrow> n \<le> f \<longrightarrow> (\<forall>b \<in> set pre. \<not> (free_blk b \<and> n \<le> words b)) \<longrightarrow>
      (\<exists>m' ds. USB_Memory_Alloc s m = Some (Some (addr pre + 4), m') \<and>
         length ds = 4 * (if f \<le> n + 1 then f else n) \<and>
         heap m' (pre @ Used ds # (if f \<le> n + 1 then [] else [Free (f - n - 1)]) @ post))) \<and>
    (\<forall>pre ds post. bs = pre @ Used ds # post \<longrightarrow>
      (\<exists>m'. USB_Memory_Free (Some (addr pre + 4)) m = Some m' \<and>
         heap m' (coalesce pre (length ds div 4) post)))"
proof (intro conjI allI impI)
  show "USB_Memory_Alloc s m = Some (None, m)" if "\<forall>b \<in> set bs. \<not> (free_blk b \<and> n \<le> words b)"
    using alloc_none[OF assms(1,2)] that assms(3) by simp
next
  fix pre f post
  assume "bs = pre @ Free f # post" "n \<le> f" "\<forall>b \<in> set pre. \<not> (free_blk b \<and> n \<le> words b)"
  then show "\<exists>m' ds. USB_Memory_Alloc s m = Some (Some (addr pre + 4), m') \<and>
      length ds = 4 * (if f \<le> n + 1 then f else n) \<and>
      heap m' (pre @ Used ds # (if f \<le> n + 1 then [] else [Free (f - n - 1)]) @ post)"
    using alloc_fit[of m pre f post s n] assms by blast
next
  fix pre ds post
  assume "bs = pre @ Used ds # post"
  then show "\<exists>m'. USB_Memory_Free (Some (addr pre + 4)) m = Some m' \<and>
      heap m' (coalesce pre (length ds div 4) post)"
    using free_used[of m pre ds post] assms(1) by auto
qed

definition pool28 :: "u8 list" where
  "pool28 = enc_hdr (header 6 True 0) @ replicate 24 0"

lemma heap_pool28: "heap pool28 [Free 6]"
  by (simp add: heap_def pool28_def hd_at_def hdr.length_enc hdr.dec_enc span_def)

theorem usb_memory_refines_witness:
  "heap pool28 [Free 6] \<and> (\<exists>m' ds. USB_Memory_Alloc 7 pool28 = Some (Some 4, m') \<and> length ds = 8 \<and>
     heap m' [Used ds, Free 3])"
proof -
  have "\<exists>m' ds. USB_Memory_Alloc 7 pool28 = Some (Some (addr [] + 4), m') \<and> length ds = 4 * (if (6 :: nat) \<le> 2 + 1 then 6 else 2) \<and>
     heap m' ([] @ Used ds # (if (6 :: nat) \<le> 2 + 1 then [] else [Free (6 - 2 - 1)]) @ [])"
    by (rule usb_memory_refines[OF heap_pool28, THEN conjunct2, THEN conjunct1, rule_format]) simp_all
  then show ?thesis using heap_pool28 by simp
qed

end
