(* ===== verification/UsbPipe.thy ===== *)
theory UsbPipe
  imports UsbMemory
begin

unbundle bit_operations_syntax

text \<open>
  The pipe layer of the USB host stack, \<^verbatim>\<open>nxpUSBlib/Drivers/USB/Core/LPC/Pipe_LPC.c\<close>,
  \<^verbatim>\<open>Pipe_LPC.h\<close> and \<^verbatim>\<open>PipeStream_LPC.c\<close>, built for the LPC17xx (one host controller, eight
  pipes). The global variables of the stack are the record \<open>usb\<close>; the pipe buffers are offsets into
  the memory pool of \<^verbatim>\<open>USBMemory.c\<close>, so that a write through a pipe is a write into the pool.

  The host controller driver below (\<^verbatim>\<open>HcdOpenPipe\<close>, \<^verbatim>\<open>HcdDataTransfer\<close> and the others of
  \<^verbatim>\<open>HCD.h\<close>) works on descriptor lists shared with the controller hardware; it is a parameter, the
  record \<open>hcd\<close> of its entry points on a hardware state of any type. Interrupts that arrive while a
  loop polls are a list of state changes, one per iteration; the loop is \<^const>\<open>None\<close> when it is
  still polling at the end of the list. The functions of the layer whose body is empty
  (\<^verbatim>\<open>Pipe_Freeze\<close>, \<^verbatim>\<open>Pipe_Unfreeze\<close> and the like) have no model.
\<close>

section \<open>Types and state\<close>

datatype HCD_STATUS =
    HCD_STATUS_OK | HCD_STATUS_TRANSFER_CRC | HCD_STATUS_TRANSFER_BitStuffing
  | HCD_STATUS_TRANSFER_DataToggleMismatch | HCD_STATUS_TRANSFER_Stall
  | HCD_STATUS_TRANSFER_DeviceNotResponding | HCD_STATUS_TRANSFER_PIDCheckFailure
  | HCD_STATUS_TRANSFER_UnexpectedPID | HCD_STATUS_TRANSFER_DataOverrun
  | HCD_STATUS_TRANSFER_DataUnderrun | HCD_STATUS_TRANSFER_CC_Reserved1
  | HCD_STATUS_TRANSFER_CC_Reserved2 | HCD_STATUS_TRANSFER_BufferOverrun
  | HCD_STATUS_TRANSFER_BufferUnderrun | HCD_STATUS_TRANSFER_NotAccessed
  | HCD_STATUS_TRANSFER_Reserved | HCD_STATUS_STRUCTURE_IS_FREE | HCD_STATUS_TO_BE_REMOVED
  | HCD_STATUS_TRANSFER_QUEUED | HCD_STATUS_TRANSFER_COMPLETED | HCD_STATUS_TRANSFER_ERROR
  | HCD_STATUS_NOT_ENOUGH_MEMORY | HCD_STATUS_NOT_ENOUGH_ENDPOINT | HCD_STATUS_NOT_ENOUGH_GTD
  | HCD_STATUS_NOT_ENOUGH_ITD | HCD_STATUS_NOT_ENOUGH_QTD | HCD_STATUS_NOT_ENOUGH_HS_ITD
  | HCD_STATUS_NOT_ENOUGH_SITD | HCD_STATUS_DATA_OVERFLOW | HCD_STATUS_DEVICE_DISCONNECTED
  | HCD_STATUS_TRANSFER_TYPE_NOT_SUPPORTED | HCD_STATUS_PIPEHANDLE_INVALID
  | HCD_STATUS_PARAMETER_INVALID

record USB_Request_Header_t =
  bmRequestType :: u8
  bRequest :: u8
  wValue :: u16
  wIndex :: u16
  wLength :: u16

record USB_Pipe_Data_t =
  PipeHandle :: u32
  Buffer :: "nat option"
  BufferSize :: u16
  StartIdx :: u16
  ByteTransfered :: u16
  EndponitAddress :: u8

record 'h usb =
  usb_pool :: "u8 list"
  pipeselected :: "u8 list"
  PipeInfo :: "USB_Pipe_Data_t list list"
  hostportspeed :: "u8 list"
  USB_HostState :: "u8 list"
  USB_ControlRequest :: USB_Request_Header_t
  USB_Host_ConfigurationNumber :: u8
  USB_Host_ControlPipeSize :: "u8 list"
  USB_IsInitialized :: bool
  WaitMSRemaining :: u16
  PostWaitState :: u8
  hcd_state :: 'h

text \<open>
  The entry points of the host controller driver. A pipe handle that is not assigned is
  \<^const>\<open>None\<close>. \<open>HcdDataTransfer\<close> receives the buffer pointer, the pool it points into, the length and
  whether the count of transferred bytes is to be stored; the transfer itself completes later.
  \<open>HcdControlTransfer\<close> waits for completion and may change the pool, into which the controller
  writes.
\<close>

record 'h hcd =
  HcdOpenPipe :: "u8 \<Rightarrow> u8 \<Rightarrow> u8 \<Rightarrow> u8 \<Rightarrow> u8 \<Rightarrow> u8 \<Rightarrow> u16 \<Rightarrow> 'h \<Rightarrow> HCD_STATUS \<times> u32 option \<times> 'h"
  HcdClosePipe :: "u32 \<Rightarrow> 'h \<Rightarrow> 'h"
  HcdGetPipeStatus :: "u32 \<Rightarrow> 'h \<Rightarrow> HCD_STATUS \<times> 'h"
  HcdDataTransfer :: "u32 \<Rightarrow> nat option \<Rightarrow> u8 list \<Rightarrow> u32 \<Rightarrow> bool \<Rightarrow> 'h \<Rightarrow> 'h"
  HcdControlTransfer :: "u32 \<Rightarrow> USB_Request_Header_t \<Rightarrow> nat option \<Rightarrow> u8 list \<Rightarrow> 'h \<Rightarrow> HCD_STATUS \<times> u8 list \<times> 'h"
  HcdClearEndpointHalt :: "u32 \<Rightarrow> 'h \<Rightarrow> 'h"
  HcdRhPortReset :: "u8 \<Rightarrow> 'h \<Rightarrow> 'h"
  HcdGetDeviceSpeed :: "u8 \<Rightarrow> 'h \<Rightarrow> u8 option \<times> 'h"
  HcdInitDriver :: "u8 \<Rightarrow> 'h \<Rightarrow> HCD_STATUS \<times> 'h"
  HcdDeInitDriver :: "u8 \<Rightarrow> 'h \<Rightarrow> 'h"

abbreviation (input) PIPE_TOTAL_PIPES :: nat where "PIPE_TOTAL_PIPES \<equiv> 8"
abbreviation (input) PIPE_MAX_SIZE :: u16 where "PIPE_MAX_SIZE \<equiv> 512"
abbreviation (input) PIPE_CONTROLPIPE :: u8 where "PIPE_CONTROLPIPE \<equiv> 0"
abbreviation (input) PIPE_EPDIR_MASK :: u8 where "PIPE_EPDIR_MASK \<equiv> 0x80"
abbreviation (input) PIPE_TOKEN_SETUP :: u8 where "PIPE_TOKEN_SETUP \<equiv> 0"
abbreviation (input) PIPE_TOKEN_IN :: u8 where "PIPE_TOKEN_IN \<equiv> 1"
abbreviation (input) PIPE_TOKEN_OUT :: u8 where "PIPE_TOKEN_OUT \<equiv> 2"
abbreviation (input) EP_TYPE_CONTROL :: u8 where "EP_TYPE_CONTROL \<equiv> 0"
abbreviation (input) EP_TYPE_BULK :: u8 where "EP_TYPE_BULK \<equiv> 2"
abbreviation (input) USB_HOST_DEVICEADDRESS :: u8 where "USB_HOST_DEVICEADDRESS \<equiv> 1"
abbreviation (input) HCD_ENDPOINT_MAXPACKET_XFER_LEN :: u32 where "HCD_ENDPOINT_MAXPACKET_XFER_LEN \<equiv> 0xFFEEFFEE"
abbreviation (input) HOST_STATE_WaitForDevice :: u8 where "HOST_STATE_WaitForDevice \<equiv> 0"
abbreviation (input) HOST_STATE_Unattached :: u8 where "HOST_STATE_Unattached \<equiv> 1"
abbreviation (input) HOST_STATE_Powered :: u8 where "HOST_STATE_Powered \<equiv> 2"
abbreviation (input) HOST_STATE_Powered_WaitForDeviceSettle :: u8 where "HOST_STATE_Powered_WaitForDeviceSettle \<equiv> 3"
abbreviation (input) HOST_STATE_Powered_WaitForConnect :: u8 where "HOST_STATE_Powered_WaitForConnect \<equiv> 4"
abbreviation (input) HOST_STATE_Powered_DoReset :: u8 where "HOST_STATE_Powered_DoReset \<equiv> 5"
abbreviation (input) HOST_STATE_Powered_ConfigPipe :: u8 where "HOST_STATE_Powered_ConfigPipe \<equiv> 6"
abbreviation (input) HOST_STATE_Default :: u8 where "HOST_STATE_Default \<equiv> 7"
abbreviation (input) HOST_STATE_Default_PostReset :: u8 where "HOST_STATE_Default_PostReset \<equiv> 8"
abbreviation (input) HOST_STATE_Default_PostAddressSet :: u8 where "HOST_STATE_Default_PostAddressSet \<equiv> 9"
abbreviation (input) HOST_STATE_Addressed :: u8 where "HOST_STATE_Addressed \<equiv> 10"
abbreviation (input) HOST_STATE_Configured :: u8 where "HOST_STATE_Configured \<equiv> 11"
abbreviation (input) PIPE_READYWAIT_NoError :: u8 where "PIPE_READYWAIT_NoError \<equiv> 0"
abbreviation (input) PIPE_READYWAIT_PipeStalled :: u8 where "PIPE_READYWAIT_PipeStalled \<equiv> 1"
abbreviation (input) PIPE_READYWAIT_DeviceDisconnected :: u8 where "PIPE_READYWAIT_DeviceDisconnected \<equiv> 2"
abbreviation (input) PIPE_RWSTREAM_NoError :: u8 where "PIPE_RWSTREAM_NoError \<equiv> 0"
abbreviation (input) PIPE_RWSTREAM_IncompleteTransfer :: u8 where "PIPE_RWSTREAM_IncompleteTransfer \<equiv> 5"

text \<open>Static storage is zero-initialised.\<close>

definition pipe0 :: USB_Pipe_Data_t where
  "pipe0 = \<lparr>PipeHandle = 0, Buffer = None, BufferSize = 0, StartIdx = 0, ByteTransfered = 0,
     EndponitAddress = 0\<rparr>"

text \<open>\<^verbatim>\<open>PipeInfo[corenum][n]\<close>, and the pipe that is selected.\<close>

definition pipe_at :: "u8 \<Rightarrow> u8 \<Rightarrow> 'h usb \<Rightarrow> USB_Pipe_Data_t option" where
  "pipe_at c n u = do { row \<leftarrow> rd (PipeInfo u) (unat c); rd row (unat n) }"

definition pipe_upd :: "u8 \<Rightarrow> u8 \<Rightarrow> (USB_Pipe_Data_t \<Rightarrow> USB_Pipe_Data_t) \<Rightarrow> 'h usb \<Rightarrow> 'h usb option" where
  "pipe_upd c n f u = do {
     row \<leftarrow> rd (PipeInfo u) (unat c);
     p \<leftarrow> rd row (unat n);
     Some (u\<lparr>PipeInfo := (PipeInfo u)[unat c := row[unat n := f p]]\<rparr>)
   }"

definition cur_pipe :: "u8 \<Rightarrow> 'h usb \<Rightarrow> USB_Pipe_Data_t option" where
  "cur_pipe c u = do { n \<leftarrow> rd (pipeselected u) (unat c); pipe_at c n u }"

definition cur_upd :: "u8 \<Rightarrow> (USB_Pipe_Data_t \<Rightarrow> USB_Pipe_Data_t) \<Rightarrow> 'h usb \<Rightarrow> 'h usb option" where
  "cur_upd c f u = do { n \<leftarrow> rd (pipeselected u) (unat c); pipe_upd c n f u }"

section \<open>Inline functions\<close>

definition Pipe_BytesInPipe :: "u8 \<Rightarrow> 'h usb \<Rightarrow> u16 option" where
  "Pipe_BytesInPipe c u = do { p \<leftarrow> cur_pipe c u; Some (ByteTransfered p - StartIdx p) }"

definition Pipe_GetCurrentPipe :: "u8 \<Rightarrow> 'h usb \<Rightarrow> u8 option" where
  "Pipe_GetCurrentPipe c u = rd (pipeselected u) (unat c)"

definition Pipe_SelectPipe :: "u8 \<Rightarrow> u8 \<Rightarrow> 'h usb \<Rightarrow> 'h usb option" where
  "Pipe_SelectPipe c n u = do { s \<leftarrow> wr (pipeselected u) (unat c) n; Some (u\<lparr>pipeselected := s\<rparr>) }"

definition clear_pipe :: "USB_Pipe_Data_t \<Rightarrow> USB_Pipe_Data_t" where
  "clear_pipe p = p\<lparr>StartIdx := 0, ByteTransfered := 0\<rparr>"

definition Pipe_ResetPipe :: "u8 \<Rightarrow> u8 \<Rightarrow> 'h usb \<Rightarrow> 'h usb option" where
  "Pipe_ResetPipe c n u = cur_upd c clear_pipe u"

definition Pipe_GetPipeToken :: "u8 \<Rightarrow> 'h usb \<Rightarrow> u8 option" where
  "Pipe_GetPipeToken c u = do {
     p \<leftarrow> cur_pipe c u;
     Some (if EndponitAddress p AND PIPE_EPDIR_MASK \<noteq> 0 then PIPE_TOKEN_IN else PIPE_TOKEN_OUT)
   }"

definition Pipe_IsConfigured :: "u8 \<Rightarrow> 'h usb \<Rightarrow> bool option" where
  "Pipe_IsConfigured c u = do { p \<leftarrow> cur_pipe c u; Some (Buffer p \<noteq> None) }"

definition Pipe_GetBoundEndpointAddress :: "u8 \<Rightarrow> 'h usb \<Rightarrow> u8 option" where
  "Pipe_GetBoundEndpointAddress c u = do { p \<leftarrow> cur_pipe c u; Some (EndponitAddress p) }"

definition get_status :: "'h hcd \<Rightarrow> u8 \<Rightarrow> 'h usb \<Rightarrow> (HCD_STATUS \<times> 'h usb) option" where
  "get_status d c u = do {
     p \<leftarrow> cur_pipe c u;
     let (st, h) = HcdGetPipeStatus d (PipeHandle p) (hcd_state u);
     Some (st, u\<lparr>hcd_state := h\<rparr>)
   }"

definition Pipe_IsOUTReady :: "'h hcd \<Rightarrow> u8 \<Rightarrow> 'h usb \<Rightarrow> (bool \<times> 'h usb) option" where
  "Pipe_IsOUTReady d c u = do {
     (st, u) \<leftarrow> get_status d c u;
     p \<leftarrow> cur_pipe c u;
     Some (st = HCD_STATUS_OK \<and> ByteTransfered p < BufferSize p, u)
   }"

definition Pipe_IsReadWriteAllowed :: "'h hcd \<Rightarrow> u8 \<Rightarrow> 'h usb \<Rightarrow> (bool \<times> 'h usb) option" where
  "Pipe_IsReadWriteAllowed d c u = do {
     t \<leftarrow> Pipe_GetPipeToken c u;
     (if t = PIPE_TOKEN_IN then do {
        (st, u) \<leftarrow> get_status d c u;
        n \<leftarrow> Pipe_BytesInPipe c u;
        Some (st = HCD_STATUS_OK \<and> n \<noteq> 0, u)
      }
      else Pipe_IsOUTReady d c u)
   }"

definition Pipe_ClearIN :: "u8 \<Rightarrow> 'h usb \<Rightarrow> 'h usb option" where
  "Pipe_ClearIN c u = cur_upd c clear_pipe u"

definition Pipe_ClearOUT :: "'h hcd \<Rightarrow> u8 \<Rightarrow> 'h usb \<Rightarrow> 'h usb option" where
  "Pipe_ClearOUT d c u = do {
     p \<leftarrow> cur_pipe c u;
     let h = HcdDataTransfer d (PipeHandle p) (Buffer p) (usb_pool u) (ucast (ByteTransfered p)) False (hcd_state u);
     cur_upd c clear_pipe (u\<lparr>hcd_state := h\<rparr>)
   }"

definition Pipe_IsStalled :: "'h hcd \<Rightarrow> u8 \<Rightarrow> 'h usb \<Rightarrow> (bool \<times> 'h usb) option" where
  "Pipe_IsStalled d c u = do { (st, u) \<leftarrow> get_status d c u; Some (st = HCD_STATUS_TRANSFER_Stall, u) }"

definition Pipe_ClearStall :: "'h hcd \<Rightarrow> u8 \<Rightarrow> 'h usb \<Rightarrow> 'h usb option" where
  "Pipe_ClearStall d c u = do {
     p \<leftarrow> cur_pipe c u;
     Some (u\<lparr>hcd_state := HcdClearEndpointHalt d (PipeHandle p) (hcd_state u)\<rparr>)
   }"

definition Pipe_Read_8 :: "u8 \<Rightarrow> 'h usb \<Rightarrow> (u8 \<times> 'h usb) option" where
  "Pipe_Read_8 c u = do {
     p \<leftarrow> cur_pipe c u;
     (if StartIdx p < ByteTransfered p then do {
        b \<leftarrow> Buffer p;
        v \<leftarrow> rd (usb_pool u) (b + unat (StartIdx p));
        u \<leftarrow> cur_upd c (\<lambda>p. p\<lparr>StartIdx := StartIdx p + 1\<rparr>) u;
        Some (v, u)
      }
      else Some (0, u))
   }"

definition Pipe_Write_8 :: "u8 \<Rightarrow> u8 \<Rightarrow> 'h usb \<Rightarrow> 'h usb option" where
  "Pipe_Write_8 c v u = do {
     p \<leftarrow> cur_pipe c u;
     (if ByteTransfered p < BufferSize p then do {
        b \<leftarrow> Buffer p;
        m \<leftarrow> wr (usb_pool u) (b + unat (ByteTransfered p)) v;
        cur_upd c (\<lambda>p. p\<lparr>ByteTransfered := ByteTransfered p + 1\<rparr>) (u\<lparr>usb_pool := m\<rparr>)
      }
      else Some u)
   }"

definition Pipe_Read_16_LE :: "u8 \<Rightarrow> 'h usb \<Rightarrow> (u16 \<times> 'h usb) option" where
  "Pipe_Read_16_LE c u = do {
     (t1, u) \<leftarrow> Pipe_Read_8 c u;
     (t2, u) \<leftarrow> Pipe_Read_8 c u;
     Some (push_bit 8 (ucast t2) OR ucast t1, u)
   }"

definition Pipe_Read_16_BE :: "u8 \<Rightarrow> 'h usb \<Rightarrow> (u16 \<times> 'h usb) option" where
  "Pipe_Read_16_BE c u = do {
     (t1, u) \<leftarrow> Pipe_Read_8 c u;
     (t2, u) \<leftarrow> Pipe_Read_8 c u;
     Some (push_bit 8 (ucast t1) OR ucast t2, u)
   }"

definition Pipe_Write_16_LE :: "u8 \<Rightarrow> u16 \<Rightarrow> 'h usb \<Rightarrow> 'h usb option" where
  "Pipe_Write_16_LE c v u = do {
     u \<leftarrow> Pipe_Write_8 c (ucast (v AND 0xFF)) u;
     Pipe_Write_8 c (ucast (drop_bit 8 v AND 0xFF)) u
   }"

definition Pipe_Write_16_BE :: "u8 \<Rightarrow> u16 \<Rightarrow> 'h usb \<Rightarrow> 'h usb option" where
  "Pipe_Write_16_BE c v u = do {
     u \<leftarrow> Pipe_Write_8 c (ucast (drop_bit 8 v AND 0xFF)) u;
     Pipe_Write_8 c (ucast (v AND 0xFF)) u
   }"

definition Pipe_Read_32_LE :: "u8 \<Rightarrow> 'h usb \<Rightarrow> (u32 \<times> 'h usb) option" where
  "Pipe_Read_32_LE c u = do {
     (t1, u) \<leftarrow> Pipe_Read_8 c u;
     (t2, u) \<leftarrow> Pipe_Read_8 c u;
     (t3, u) \<leftarrow> Pipe_Read_8 c u;
     (t4, u) \<leftarrow> Pipe_Read_8 c u;
     Some (push_bit 24 (ucast t4) OR push_bit 16 (ucast t3) OR push_bit 8 (ucast t2) OR ucast t1, u)
   }"

definition Pipe_Read_32_BE :: "u8 \<Rightarrow> 'h usb \<Rightarrow> (u32 \<times> 'h usb) option" where
  "Pipe_Read_32_BE c u = do {
     (t1, u) \<leftarrow> Pipe_Read_8 c u;
     (t2, u) \<leftarrow> Pipe_Read_8 c u;
     (t3, u) \<leftarrow> Pipe_Read_8 c u;
     (t4, u) \<leftarrow> Pipe_Read_8 c u;
     Some (push_bit 24 (ucast t1) OR push_bit 16 (ucast t2) OR push_bit 8 (ucast t3) OR ucast t4, u)
   }"

definition Pipe_Write_32_LE :: "u8 \<Rightarrow> u32 \<Rightarrow> 'h usb \<Rightarrow> 'h usb option" where
  "Pipe_Write_32_LE c v u = do {
     u \<leftarrow> Pipe_Write_8 c (ucast (v AND 0xFF)) u;
     u \<leftarrow> Pipe_Write_8 c (ucast (drop_bit 8 v AND 0xFF)) u;
     u \<leftarrow> Pipe_Write_8 c (ucast (drop_bit 16 v AND 0xFF)) u;
     Pipe_Write_8 c (ucast (drop_bit 24 v AND 0xFF)) u
   }"

definition Pipe_Write_32_BE :: "u8 \<Rightarrow> u32 \<Rightarrow> 'h usb \<Rightarrow> 'h usb option" where
  "Pipe_Write_32_BE c v u = do {
     u \<leftarrow> Pipe_Write_8 c (ucast (drop_bit 24 v AND 0xFF)) u;
     u \<leftarrow> Pipe_Write_8 c (ucast (drop_bit 16 v AND 0xFF)) u;
     u \<leftarrow> Pipe_Write_8 c (ucast (drop_bit 8 v AND 0xFF)) u;
     Pipe_Write_8 c (ucast (v AND 0xFF)) u
   }"

section \<open>Opening, closing and waiting\<close>

definition Pipe_ConfigurePipe ::
  "'h hcd \<Rightarrow> u8 \<Rightarrow> u8 \<Rightarrow> u8 \<Rightarrow> u8 \<Rightarrow> u8 \<Rightarrow> u16 \<Rightarrow> 'h usb \<Rightarrow> (bool \<times> 'h usb) option" where
  "Pipe_ConfigurePipe d c Number Type Token EndpointNumber Size u = do {
     hs \<leftarrow> rd (USB_HostState u) (unat c);
     sp \<leftarrow> rd (hostportspeed u) (unat c);
     p \<leftarrow> pipe_at c Number u;
     let dev = (if Type = EP_TYPE_CONTROL \<and> hs < HOST_STATE_Default_PostAddressSet then 0
                else USB_HOST_DEVICEADDRESS);
     let (st, hdl, h) = HcdOpenPipe d c dev sp EndpointNumber Type Token Size (hcd_state u);
     u \<leftarrow> pipe_upd c Number (\<lambda>p. case hdl of None \<Rightarrow> p | Some x \<Rightarrow> p\<lparr>PipeHandle := x\<rparr>) (u\<lparr>hcd_state := h\<rparr>);
     (if st = HCD_STATUS_OK then do {
        let bs = (if Type = EP_TYPE_BULK \<or> Type = EP_TYPE_CONTROL then PIPE_MAX_SIZE else Size);
        u \<leftarrow> pipe_upd c Number (\<lambda>p. (clear_pipe p)\<lparr>BufferSize := bs\<rparr>) u;
        (b, m) \<leftarrow> USB_Memory_Alloc (ucast bs) (usb_pool u);
        u \<leftarrow> pipe_upd c Number (\<lambda>p. p\<lparr>Buffer := b, EndponitAddress := EndpointNumber\<rparr>) (u\<lparr>usb_pool := m\<rparr>);
        Some (b \<noteq> None, u)
      }
      else Some (False, u))
   }"

definition Pipe_ClosePipe :: "'h hcd \<Rightarrow> u8 \<Rightarrow> u8 \<Rightarrow> 'h usb \<Rightarrow> 'h usb option" where
  "Pipe_ClosePipe d c n u =
     (if unat n < PIPE_TOTAL_PIPES then do {
        p \<leftarrow> pipe_at c n u;
        let u = u\<lparr>hcd_state := HcdClosePipe d (PipeHandle p) (hcd_state u)\<rparr>;
        m \<leftarrow> USB_Memory_Free (Buffer p) (usb_pool u);
        pipe_upd c n (\<lambda>p. p\<lparr>PipeHandle := 0, Buffer := None, BufferSize := 0\<rparr>) (u\<lparr>usb_pool := m\<rparr>)
      }
      else Some u)"

definition Pipe_IsEndpointBound :: "u8 \<Rightarrow> bool" where
  "Pipe_IsEndpointBound EndpointAddress = False"

text \<open>One round of the endless loop; its result when it returns.\<close>

definition wait_round :: "'h hcd \<Rightarrow> u8 \<Rightarrow> 'h usb \<Rightarrow> (u8 option \<times> 'h usb) option" where
  "wait_round d c u = do {
     (ok, u) \<leftarrow> Pipe_IsReadWriteAllowed d c u;
     (if ok then Some (Some PIPE_READYWAIT_NoError, u)
      else do {
        (stalled, u) \<leftarrow> Pipe_IsStalled d c u;
        (if stalled then Some (Some PIPE_READYWAIT_PipeStalled, u)
         else do {
           hs \<leftarrow> rd (USB_HostState u) (unat c);
           Some (if hs = HOST_STATE_Unattached then Some PIPE_READYWAIT_DeviceDisconnected else None, u)
         })
      })
   }"

fun Pipe_WaitUntilReady ::
  "'h hcd \<Rightarrow> u8 \<Rightarrow> ('h usb \<Rightarrow> 'h usb) list \<Rightarrow> 'h usb \<Rightarrow> (u8 \<times> ('h usb \<Rightarrow> 'h usb) list \<times> 'h usb) option" where
  "Pipe_WaitUntilReady d c irqs u = do {
     (r, u) \<leftarrow> wait_round d c u;
     (case r of
        Some e \<Rightarrow> Some (e, irqs, u)
      | None \<Rightarrow> (case irqs of [] \<Rightarrow> None | f # fs \<Rightarrow> Pipe_WaitUntilReady d c fs (f u)))
   }"

definition Pipe_IsINReceived :: "'h hcd \<Rightarrow> u8 \<Rightarrow> 'h usb \<Rightarrow> (bool \<times> 'h usb) option" where
  "Pipe_IsINReceived d c u = do {
     (st, u) \<leftarrow> get_status d c u;
     (if st \<noteq> HCD_STATUS_OK then Some (False, u)
      else do {
        n \<leftarrow> Pipe_BytesInPipe c u;
        (if n \<noteq> 0 then Some (True, u)
         else do {
           p \<leftarrow> cur_pipe c u;
           Some (False, u\<lparr>hcd_state := HcdDataTransfer d (PipeHandle p) (Buffer p) (usb_pool u)
                            HCD_ENDPOINT_MAXPACKET_XFER_LEN True (hcd_state u)\<rparr>)
         })
      })
   }"

section \<open>Streams\<close>

text \<open>
  The streams take an optional \<^verbatim>\<open>BytesProcessed\<close> pointer: the count behind it, or \<^const>\<open>None\<close>. The
  data of a write stream is the memory behind \<^verbatim>\<open>Buffer\<close> (read with bounds check).
\<close>

fun write_bytes :: "u8 \<Rightarrow> u8 list \<Rightarrow> nat list \<Rightarrow> 'h usb \<Rightarrow> 'h usb option" where
  "write_bytes c buf [] u = Some u"
| "write_bytes c buf (i # is) u = do {
     v \<leftarrow> rd buf i;
     u \<leftarrow> Pipe_Write_8 c v u;
     write_bytes c buf is u
   }"

definition Pipe_Write_Stream_LE :: "u8 \<Rightarrow> u8 list \<Rightarrow> u16 \<Rightarrow> u16 option \<Rightarrow> 'h usb \<Rightarrow> (u8 \<times> 'h usb) option" where
  "Pipe_Write_Stream_LE c buf Length BytesProcessed u = do {
     let (len, start) = (case BytesProcessed of None \<Rightarrow> (Length, 0) | Some k \<Rightarrow> (Length - k, unat k));
     u \<leftarrow> write_bytes c buf [start..<start + unat len] u;
     Some (PIPE_RWSTREAM_NoError, u)
   }"

definition Pipe_Null_Stream :: "u8 \<Rightarrow> u16 \<Rightarrow> u16 option \<Rightarrow> 'h usb \<Rightarrow> (u8 \<times> 'h usb) option" where
  "Pipe_Null_Stream c Length BytesProcessed u = do {
     let len = (case BytesProcessed of None \<Rightarrow> Length | Some k \<Rightarrow> Length - k);
     u \<leftarrow> write_bytes c (replicate (unat len) 0) [0..<unat len] u;
     Some (PIPE_RWSTREAM_NoError, u)
   }"


section \<open>Well-formed pipes\<close>

definition pipe_ok :: "u8 list \<Rightarrow> USB_Pipe_Data_t \<Rightarrow> bool" where
  "pipe_ok m p \<longleftrightarrow> (case Buffer p of
     None \<Rightarrow> BufferSize p = 0
   | Some b \<Rightarrow> (\<exists>ds. pool_owns m b ds \<and> unat (BufferSize p) \<le> length ds) \<and>
       StartIdx p \<le> ByteTransfered p \<and> ByteTransfered p \<le> BufferSize p)"

definition row_ok :: "u8 list \<Rightarrow> USB_Pipe_Data_t list \<Rightarrow> bool" where
  "row_ok m ps \<longleftrightarrow> length ps = PIPE_TOTAL_PIPES \<and> (\<forall>i < 8. pipe_ok m (ps ! i)) \<and>
     (\<forall>i < 8. \<forall>j < 8. i \<noteq> j \<longrightarrow> Buffer (ps ! i) \<noteq> None \<longrightarrow> Buffer (ps ! i) \<noteq> Buffer (ps ! j))"

text \<open>The arrays of the stack have the sizes of their declarations.\<close>

definition usb_shape :: "'h usb \<Rightarrow> bool" where
  "usb_shape u \<longleftrightarrow> length (PipeInfo u) = 1 \<and> length (PipeInfo u ! 0) = PIPE_TOTAL_PIPES \<and>
     length (pipeselected u) = 1 \<and> unat (pipeselected u ! 0) < PIPE_TOTAL_PIPES \<and>
     length (USB_HostState u) = 1 \<and> length (hostportspeed u) = 1 \<and> length (USB_Host_ControlPipeSize u) = 1"

definition usb_ok :: "'h usb \<Rightarrow> bool" where
  "usb_ok u \<longleftrightarrow> usb_shape u \<and> pool_ok (usb_pool u) \<and> row_ok (usb_pool u) (PipeInfo u ! 0)"

text \<open>The pipes of the only controller, and the selected one.\<close>

abbreviation row :: "'h usb \<Rightarrow> USB_Pipe_Data_t list" where "row u \<equiv> PipeInfo u ! 0"
abbreviation sel :: "'h usb \<Rightarrow> nat" where "sel u \<equiv> unat (pipeselected u ! 0)"

lemma usb_shapeD:
  assumes "usb_shape u"
  shows "PipeInfo u = [row u]" "length (row u) = 8" "pipeselected u = [pipeselected u ! 0]" "sel u < 8"
    "length (USB_HostState u) = 1" "length (hostportspeed u) = 1" "length (USB_Host_ControlPipeSize u) = 1"
    "length (PipeInfo u) = 1" "length (pipeselected u) = 1"
  using assms by (auto simp: usb_shape_def length_Suc_conv)

lemma usb_okD:
  assumes "usb_ok u"
  shows "pool_ok (usb_pool u)" "row_ok (usb_pool u) (row u)" "usb_shape u" "sel u < 8" "pipe_ok (usb_pool u) (row u ! sel u)"
  using assms by (auto simp: usb_ok_def usb_shape_def row_ok_def)

lemma usb_shape_frame [simp]:
  "usb_shape (u\<lparr>hcd_state := h\<rparr>) = usb_shape u"
  "usb_shape (u\<lparr>usb_pool := m\<rparr>) = usb_shape u"
  "usb_shape (u\<lparr>USB_ControlRequest := r\<rparr>) = usb_shape u"
  "usb_shape (u\<lparr>USB_Host_ConfigurationNumber := k\<rparr>) = usb_shape u"
  "usb_shape (u\<lparr>USB_IsInitialized := b\<rparr>) = usb_shape u"
  "usb_shape (u\<lparr>WaitMSRemaining := w\<rparr>) = usb_shape u"
  "usb_shape (u\<lparr>PostWaitState := s\<rparr>) = usb_shape u"
  by (simp_all add: usb_shape_def)

lemma usb_shape_row [simp]: "usb_shape u \<Longrightarrow> length ps = 8 \<Longrightarrow> usb_shape (u\<lparr>PipeInfo := [ps]\<rparr>)"
  by (simp add: usb_shape_def)

lemma usb_shape_sel [simp]: "usb_shape u \<Longrightarrow> unat n < 8 \<Longrightarrow> usb_shape (u\<lparr>pipeselected := [n]\<rparr>)"
  by (simp add: usb_shape_def)

lemma usb_ok_frame [simp]:
  "usb_ok (u\<lparr>hcd_state := h\<rparr>) = usb_ok u"
  "usb_ok (u\<lparr>USB_ControlRequest := r\<rparr>) = usb_ok u"
  "usb_ok (u\<lparr>USB_Host_ConfigurationNumber := k\<rparr>) = usb_ok u"
  "usb_ok (u\<lparr>USB_IsInitialized := b\<rparr>) = usb_ok u"
  "usb_ok (u\<lparr>WaitMSRemaining := w\<rparr>) = usb_ok u"
  "usb_ok (u\<lparr>PostWaitState := s\<rparr>) = usb_ok u"
  by (simp_all add: usb_ok_def)

lemma pipe_ops [simp]:
  assumes "usb_shape u"
  shows "unat n < 8 \<Longrightarrow> pipe_at 0 n u = Some (row u ! unat n)"
    "unat n < 8 \<Longrightarrow> pipe_upd 0 n f u = Some (u\<lparr>PipeInfo := [(row u)[unat n := f (row u ! unat n)]]\<rparr>)"
    "cur_pipe 0 u = Some (row u ! sel u)"
    "cur_upd 0 f u = Some (u\<lparr>PipeInfo := [(row u)[sel u := f (row u ! sel u)]]\<rparr>)"
  using usb_shapeD[OF assms]
  by (auto simp: pipe_at_def pipe_upd_def cur_pipe_def cur_upd_def length_Suc_conv)

lemma pipe_ok_closed: "Buffer p = None \<Longrightarrow> pipe_ok m p \<longleftrightarrow> BufferSize p = 0"
  by (simp add: pipe_ok_def)

lemma pipe_ok_open:
  "Buffer p = Some b \<Longrightarrow> pipe_ok m p \<longleftrightarrow> (\<exists>ds. pool_owns m b ds \<and> unat (BufferSize p) \<le> length ds) \<and>
     StartIdx p \<le> ByteTransfered p \<and> ByteTransfered p \<le> BufferSize p"
  by (simp add: pipe_ok_def)

text \<open>Replacing one pipe and the pool.\<close>

lemma row_ok_update:
  assumes "row_ok m ps" "n < 8" "pipe_ok m' q"
    and others: "\<And>i. i < 8 \<Longrightarrow> i \<noteq> n \<Longrightarrow> pipe_ok m (ps ! i) \<Longrightarrow> pipe_ok m' (ps ! i)"
    and buf: "Buffer q \<noteq> None \<Longrightarrow> (\<And>i. i < 8 \<Longrightarrow> i \<noteq> n \<Longrightarrow> Buffer (ps ! i) \<noteq> Buffer q)"
  shows "row_ok m' (ps[n := q])"
proof -
  have "length ps = 8" using assms(1) by (simp add: row_ok_def)
  then have upd: "\<And>i. i < 8 \<Longrightarrow> ps[n := q] ! i = (if i = n then q else ps ! i)" by simp
  show ?thesis
    unfolding row_ok_def
  proof (intro conjI allI impI)
    show "length (ps[n := q]) = 8" using assms(1) by (simp add: row_ok_def)
    fix i assume i: "i < (8 :: nat)"
    then show "pipe_ok m' (ps[n := q] ! i)" using assms by (auto simp: upd row_ok_def)
    fix j assume "j < (8 :: nat)" "i \<noteq> j" "Buffer (ps[n := q] ! i) \<noteq> None"
    then show "Buffer (ps[n := q] ! i) \<noteq> Buffer (ps[n := q] ! j)"
      using i assms(1,2) buf by (auto simp: upd row_ok_def split: if_splits)
  qed
qed

lemma pipe_ok_keep:
  assumes "pipe_ok m p" "\<And>b ds. Buffer p = Some b \<Longrightarrow> pool_owns m b ds \<Longrightarrow> pool_owns m' b ds"
  shows "pipe_ok m' p"
proof (cases "Buffer p")
  case None
  then show ?thesis using assms(1) by (simp add: pipe_ok_closed)
next
  case (Some b)
  then show ?thesis using assms(1) assms(2)[OF Some] unfolding pipe_ok_open[OF Some] by blast
qed

lemma usb_ok_row:
  assumes "usb_ok u" "pool_ok m'" "row_ok m' ps"
  shows "usb_ok (u\<lparr>usb_pool := m', PipeInfo := [ps]\<rparr>)"
  using assms by (simp add: usb_ok_def usb_shape_def row_ok_def)

lemma usb_ok_row':
  assumes "usb_ok u" "row_ok (usb_pool u) ps"
  shows "usb_ok (u\<lparr>PipeInfo := [ps]\<rparr>)"
  using assms by (simp add: usb_ok_def usb_shape_def row_ok_def)

text \<open>The buffers of two pipes differ.\<close>

lemma row_ok_buffers:
  "row_ok m ps \<Longrightarrow> i < 8 \<Longrightarrow> j < 8 \<Longrightarrow> i \<noteq> j \<Longrightarrow> Buffer (ps ! i) = Some b \<Longrightarrow> Buffer (ps ! j) \<noteq> Some b"
  unfolding row_ok_def by (metis option.distinct(1))

lemma select_ok:
  "usb_ok u \<Longrightarrow> unat n < 8 \<Longrightarrow>
     Pipe_SelectPipe 0 n u = Some (u\<lparr>pipeselected := [n]\<rparr>) \<and> usb_ok (u\<lparr>pipeselected := [n]\<rparr>)"
  by (auto simp: Pipe_SelectPipe_def usb_ok_def usb_shape_def length_Suc_conv)

lemma clear_ok:
  assumes u: "usb_ok u"
  shows "usb_ok (u\<lparr>PipeInfo := [(row u)[sel u := clear_pipe (row u ! sel u)]]\<rparr>)"
proof -
  note d = usb_okD[OF u]
  have q: "pipe_ok (usb_pool u) (clear_pipe (row u ! sel u))"
    using d(5) by (cases "Buffer (row u ! sel u)") (auto simp: pipe_ok_def clear_pipe_def)
  have "row_ok (usb_pool u) ((row u)[sel u := clear_pipe (row u ! sel u)])"
    by (rule row_ok_update[OF d(2,4) q]) (auto simp: clear_pipe_def dest: row_ok_buffers[OF d(2,4)])
  then show ?thesis by (rule usb_ok_row'[OF u])
qed

lemma u16_succ: "(k :: u16) < n \<Longrightarrow> unat (k + 1) = Suc (unat k)"
proof -
  assume "k < n"
  then have "unat k + 1 < 65536" using unat_u16_lt[of n] unfolding word_less_nat_alt by linarith
  then show ?thesis by (simp add: unat_word_ariths)
qed

text \<open>A byte read, and a byte written, of a pipe that is open.\<close>

lemma read_ok:
  assumes u: "usb_ok u" and p: "p = row u ! sel u" and b: "Buffer p = Some b"
    and o: "pool_owns (usb_pool u) b ds" "unat (BufferSize p) \<le> length ds"
    and lt: "StartIdx p < ByteTransfered p"
    and u': "u' = u\<lparr>PipeInfo := [(row u)[sel u := p\<lparr>StartIdx := StartIdx p + 1\<rparr>]]\<rparr>"
  shows "Pipe_Read_8 0 u = Some (ds ! unat (StartIdx p), u')" "usb_ok u'"
proof -
  note d = usb_okD[OF u]
  have ok: "ByteTransfered p \<le> BufferSize p" using d(5) b unfolding p[symmetric] by (simp add: pipe_ok_def)
  then have l: "unat (StartIdx p) < length ds"
    using lt o(2) by (simp add: word_less_nat_alt word_le_nat_alt)
  show "Pipe_Read_8 0 u = Some (ds ! unat (StartIdx p), u')"
    using d(3) lt b pool.owns_nth[OF o(1) l] unfolding Pipe_Read_8_def u' p[symmetric] by (simp add: p[symmetric])
  have q: "pipe_ok (usb_pool u) (p\<lparr>StartIdx := StartIdx p + 1\<rparr>)"
    using d(5) b lt unfolding p[symmetric] by (simp add: pipe_ok_def inc_le)
  have "row_ok (usb_pool u) ((row u)[sel u := p\<lparr>StartIdx := StartIdx p + 1\<rparr>])"
    by (rule row_ok_update[OF d(2,4) q]) (auto simp: p dest: row_ok_buffers[OF d(2,4)])
  then show "usb_ok u'" unfolding u' by (rule usb_ok_row'[OF u])
qed

lemma write_ok:
  assumes u: "usb_ok u" and p: "p = row u ! sel u" and b: "Buffer p = Some b"
    and o: "pool_owns (usb_pool u) b ds" "unat (BufferSize p) \<le> length ds"
    and lt: "ByteTransfered p < BufferSize p"
    and m': "m' = (usb_pool u)[b + unat (ByteTransfered p) := v]"
    and u': "u' = u\<lparr>usb_pool := m', PipeInfo := [(row u)[sel u := p\<lparr>ByteTransfered := ByteTransfered p + 1\<rparr>]]\<rparr>"
  shows "Pipe_Write_8 0 v u = Some u'" "usb_ok u'" "pool_owns m' b (ds[unat (ByteTransfered p) := v])"
    "\<And>q es. q \<noteq> b \<Longrightarrow> pool_owns (usb_pool u) q es \<Longrightarrow> pool_owns m' q es"
proof -
  note d = usb_okD[OF u]
  have l: "unat (ByteTransfered p) < length ds" using lt o(2) by (simp add: word_less_nat_alt)
  note w = pool.write_owned[OF d(1) o(1) l, of v, folded m']
  show "pool_owns m' b (ds[unat (ByteTransfered p) := v])" using w by blast
  show k: "\<And>q es. q \<noteq> b \<Longrightarrow> pool_owns (usb_pool u) q es \<Longrightarrow> pool_owns m' q es" using w by blast
  show "Pipe_Write_8 0 v u = Some u'"
    using d(3) lt b pool.owns_nth[OF o(1) l] unfolding Pipe_Write_8_def u' m' p[symmetric] by (simp add: p[symmetric])
  have "StartIdx p \<le> ByteTransfered p" using d(5) b unfolding p[symmetric] by (simp add: pipe_ok_def)
  then have "StartIdx p \<le> ByteTransfered p + 1" using u16_succ[OF lt] by (simp add: word_le_nat_alt)
  moreover have "pool_owns m' b (ds[unat (ByteTransfered p) := v])" using w by blast
  ultimately have q: "pipe_ok m' (p\<lparr>ByteTransfered := ByteTransfered p + 1\<rparr>)"
    using b o(2) inc_le[OF lt] by (auto simp: pipe_ok_def)
  have "row_ok m' ((row u)[sel u := p\<lparr>ByteTransfered := ByteTransfered p + 1\<rparr>])"
  proof (rule row_ok_update[OF d(2,4) q])
    fix i assume i: "i < 8" "i \<noteq> sel u" "pipe_ok (usb_pool u) (row u ! i)"
    have "Buffer (row u ! i) \<noteq> Some b" using row_ok_buffers[OF d(2,4) i(1)] i(2) b p by auto
    then show "pipe_ok m' (row u ! i)" using i(3) k by (auto intro: pipe_ok_keep)
  next
    show "Buffer (row u ! i) \<noteq> Buffer (p\<lparr>ByteTransfered := ByteTransfered p + 1\<rparr>)" if "i < 8" "i \<noteq> sel u" for i
      using row_ok_buffers[OF d(2,4) that(1)] that(2) b p by auto
  qed
  then show "usb_ok u'" unfolding u' using w usb_ok_row[OF u] by blast
qed


text \<open>
  The bytes written since the pipe was cleared, and how a stream of bytes that fits extends them;
  the buffers of all other pipes keep their contents.
\<close>

fun put_bytes :: "u8 \<Rightarrow> u8 list \<Rightarrow> 'h usb \<Rightarrow> 'h usb option" where
  "put_bytes c [] u = Some u"
| "put_bytes c (v # vs) u = do { u \<leftarrow> Pipe_Write_8 c v u; put_bytes c vs u }"

lemma write_bytes_put: "k + n \<le> length buf \<Longrightarrow> write_bytes c buf [k..<k + n] u = put_bytes c (take n (drop k buf)) u"
proof (induction n arbitrary: k u)
  case 0
  then show ?case by simp
next
  case (Suc n)
  then have "[k..<k + Suc n] = k # [Suc k..<Suc k + n]" by (simp add: upt_conv_Cons)
  moreover have "take (Suc n) (drop k buf) = buf ! k # take n (drop (Suc k) buf)"
    using Suc.prems by (simp add: Cons_nth_drop_Suc[symmetric])
  ultimately show ?case using Suc.prems Suc.IH[of "Suc k"]
    by (cases "Pipe_Write_8 c (buf ! k) u") (simp_all del: upt_Suc)
qed

lemma put_bytes_ok:
  assumes "usb_ok u" "p = row u ! sel u" "Buffer p = Some b" "pool_owns (usb_pool u) b ds"
    "unat (BufferSize p) \<le> length ds" "unat (ByteTransfered p) + length vs \<le> unat (BufferSize p)"
  shows "\<exists>m' u'. put_bytes 0 vs u = Some u' \<and>
    u' = u\<lparr>usb_pool := m', PipeInfo := [(row u)[sel u := p\<lparr>ByteTransfered := ByteTransfered p + word_of_nat (length vs)\<rparr>]]\<rparr> \<and>
    usb_ok u' \<and>
    pool_owns m' b (take (unat (ByteTransfered p)) ds @ vs @ drop (unat (ByteTransfered p) + length vs) ds) \<and>
    (\<forall>q es. q \<noteq> b \<longrightarrow> pool_owns (usb_pool u) q es \<longrightarrow> pool_owns m' q es)"
  using assms
proof (induction vs arbitrary: u p ds)
  case Nil
  have "u\<lparr>PipeInfo := [(row u)[sel u := p]]\<rparr> = u"
    using Nil(2) usb_shapeD(1)[OF usb_okD(3)[OF Nil(1)]] by simp
  then show ?case using Nil by (intro exI[of _ "usb_pool u"] exI[of _ u]) simp
next
  case (Cons v vs)
  note d = usb_okD[OF Cons.prems(1)]
  let ?k = "unat (ByteTransfered p)"
  have lt: "ByteTransfered p < BufferSize p" using Cons.prems(6) by (simp add: word_less_nat_alt)
  define m1 where "m1 = (usb_pool u)[b + ?k := v]"
  define p1 where "p1 = p\<lparr>ByteTransfered := ByteTransfered p + 1\<rparr>"
  define u1 where "u1 = u\<lparr>usb_pool := m1, PipeInfo := [(row u)[sel u := p1]]\<rparr>"
  note w = write_ok[OF Cons.prems(1-5) lt m1_def u1_def[unfolded p1_def]]
  have s1: "sel u1 = sel u" "row u1 = (row u)[sel u := p1]" "usb_pool u1 = m1" by (simp_all add: u1_def)
  have pp: "p1 = row u1 ! sel u1" using d(4) usb_shapeD(2)[OF d(3)] by (simp add: s1)
  have k1: "unat (ByteTransfered p1) = Suc ?k" using u16_succ[OF lt] by (simp add: p1_def)
  have b1: "Buffer p1 = Some b" "unat (BufferSize p1) \<le> length (ds[?k := v])"
      "unat (ByteTransfered p1) + length vs \<le> unat (BufferSize p1)"
    unfolding k1 using Cons.prems by (simp_all add: p1_def)
  have o1: "pool_owns (usb_pool u1) b (ds[?k := v])" unfolding s1 by (rule w(3))
  obtain m' u' where m': "put_bytes 0 vs u1 = Some u'"
    "u' = u1\<lparr>usb_pool := m', PipeInfo := [(row u1)[sel u1 := p1\<lparr>ByteTransfered := ByteTransfered p1 + word_of_nat (length vs)\<rparr>]]\<rparr>"
    "usb_ok u'" "pool_owns m' b (take (Suc ?k) (ds[?k := v]) @ vs @ drop (Suc ?k + length vs) (ds[?k := v]))"
    "\<forall>q es. q \<noteq> b \<longrightarrow> pool_owns m1 q es \<longrightarrow> pool_owns m' q es"
    using Cons.IH[OF w(2) pp b1(1) o1 b1(2,3)] unfolding k1 s1(3) by blast
  have "u' = u\<lparr>usb_pool := m', PipeInfo := [(row u)[sel u := p\<lparr>ByteTransfered := ByteTransfered p + word_of_nat (length (v # vs))\<rparr>]]\<rparr>"
    unfolding m'(2) s1 by (simp add: u1_def p1_def add.assoc)
  moreover have "take (Suc ?k) (ds[?k := v]) @ vs @ drop (Suc ?k + length vs) (ds[?k := v]) =
      take ?k ds @ (v # vs) @ drop (?k + length (v # vs)) ds"
    using Cons.prems(5,6) by (simp add: take_Suc_conv_app_nth)
  moreover have "put_bytes 0 (v # vs) u = Some u'" using w(1) m'(1) by simp
  ultimately show ?case using m'(3-5) w(4) by (intro exI[of _ m'] exI[of _ u']) auto
qed

lemma close_ok:
  assumes u: "usb_ok u" and n: "unat n < 8"
  shows "\<exists>u'. Pipe_ClosePipe d 0 n u = Some u' \<and> usb_ok u' \<and> sel u' = sel u \<and> USB_HostState u' = USB_HostState u \<and>
    row u' = (row u)[unat n := (row u ! unat n)\<lparr>PipeHandle := 0, Buffer := None, BufferSize := 0\<rparr>]"
proof -
  note k = usb_okD[OF u]
  let ?p = "row u ! unat n"
  let ?q = "?p\<lparr>PipeHandle := 0, Buffer := None, BufferSize := 0\<rparr>"
  obtain m' where m': "USB_Memory_Free (Buffer ?p) (usb_pool u) = Some m'" "pool_ok m'"
      "\<And>q es. Some q \<noteq> Buffer ?p \<Longrightarrow> pool_owns (usb_pool u) q es \<Longrightarrow> pool_owns m' q es"
  proof (cases "Buffer ?p")
    case None
    then show ?thesis using that[of "usb_pool u"] pool.free_null k(1) by simp
  next
    case (Some b)
    moreover have "pipe_ok (usb_pool u) ?p" using k(2) n by (simp add: row_ok_def)
    ultimately have "\<exists>ds. pool_owns (usb_pool u) b ds" by (auto simp: pipe_ok_open)
    then show ?thesis using that pool.free_owned[OF k(1)] Some by (metis option.inject)
  qed
  have q: "pipe_ok m' ?q" by (simp add: pipe_ok_def)
  have "row_ok m' ((row u)[unat n := ?q])"
  proof (rule row_ok_update[OF k(2) n q])
    fix i assume i: "i < 8" "i \<noteq> unat n" "pipe_ok (usb_pool u) (row u ! i)"
    then show "pipe_ok m' (row u ! i)"
      using m'(3) row_ok_buffers[OF k(2) i(1) n i(2)] by (intro pipe_ok_keep[OF i(3)]) metis
  qed simp
  then have "usb_ok (u\<lparr>hcd_state := HcdClosePipe d (PipeHandle ?p) (hcd_state u), usb_pool := m', PipeInfo := [(row u)[unat n := ?q]]\<rparr>)"
    using usb_ok_row[of "u\<lparr>hcd_state := HcdClosePipe d (PipeHandle ?p) (hcd_state u)\<rparr>" m'] u m'(2) by simp
  then show ?thesis using k(3) n m'(1) by (simp add: Pipe_ClosePipe_def Let_def)
qed


lemma unat_ucast_u16: "unat (ucast (x :: u16) :: u32) = unat x"
proof -
  have "unat x < 2 ^ 32" by (rule order.strict_trans[OF unat_u16_lt]) simp
  then show ?thesis by (simp add: unsigned_ucast_eq take_bit_nat_eq_self)
qed

definition buf_size :: "u8 \<Rightarrow> u16 \<Rightarrow> u16" where
  "buf_size Type Size = (if Type = EP_TYPE_BULK \<or> Type = EP_TYPE_CONTROL then PIPE_MAX_SIZE else Size)"

lemma pipe_fields:
  "(q :: USB_Pipe_Data_t)\<lparr>StartIdx := 0, ByteTransfered := 0, BufferSize := s, Buffer := b, EndponitAddress := e\<rparr> =
     \<lparr>PipeHandle = PipeHandle q, Buffer = b, BufferSize = s, StartIdx = 0, ByteTransfered = 0, EndponitAddress = e\<rparr>"
  "q\<lparr>PipeHandle := x, StartIdx := 0, ByteTransfered := 0, BufferSize := s, Buffer := b, EndponitAddress := e\<rparr> =
     \<lparr>PipeHandle = x, Buffer = b, BufferSize = s, StartIdx = 0, ByteTransfered = 0, EndponitAddress = e\<rparr>"
  by simp_all

lemma configure_cases:
  assumes u: "usb_ok u" and n: "unat n < 8"
    and hcd: "HcdOpenPipe d 0 (if ty = EP_TYPE_CONTROL \<and> USB_HostState u ! 0 < HOST_STATE_Default_PostAddressSet then 0 else 1)
       (hostportspeed u ! 0) ep ty tok sz (hcd_state u) = (st, hdl, h)"
    and p: "p = (row u ! unat n)\<lparr>PipeHandle := (case hdl of None \<Rightarrow> PipeHandle (row u ! unat n) | Some x \<Rightarrow> x)\<rparr>"
  shows "st \<noteq> HCD_STATUS_OK \<Longrightarrow>
      Pipe_ConfigurePipe d 0 n ty tok ep sz u = Some (False, u\<lparr>hcd_state := h, PipeInfo := [(row u)[unat n := p]]\<rparr>) \<and>
      usb_ok (u\<lparr>hcd_state := h, PipeInfo := [(row u)[unat n := p]]\<rparr>)"
    and "st = HCD_STATUS_OK \<Longrightarrow> USB_Memory_Alloc (ucast (buf_size ty sz)) (usb_pool u) = Some (None, m) \<Longrightarrow>
      \<exists>u'. Pipe_ConfigurePipe d 0 n ty tok ep sz u = Some (False, u')"
    and "st = HCD_STATUS_OK \<Longrightarrow> USB_Memory_Alloc (ucast (buf_size ty sz)) (usb_pool u) = Some (Some b, m) \<Longrightarrow>
      \<exists>u'. Pipe_ConfigurePipe d 0 n ty tok ep sz u = Some (True, u') \<and> usb_ok u' \<and>
        u' = u\<lparr>hcd_state := h, usb_pool := m, PipeInfo := [(row u)[unat n := \<lparr>PipeHandle = PipeHandle p, Buffer = Some b,
           BufferSize = buf_size ty sz, StartIdx = 0, ByteTransfered = 0, EndponitAddress = ep\<rparr>]]\<rparr>"
proof -
  note k = usb_okD[OF u]
  have len: "length (row u) = 8" "length (USB_HostState u) = 1" "length (hostportspeed u) = 1"
    using usb_shapeD[OF k(3)] by auto
  have pu: "(case hdl of None \<Rightarrow> q | Some x \<Rightarrow> q\<lparr>PipeHandle := x\<rparr>) = q\<lparr>PipeHandle := (case hdl of None \<Rightarrow> PipeHandle q | Some x \<Rightarrow> x)\<rparr>" for q :: USB_Pipe_Data_t
    by (cases hdl) auto
  have pok: "pipe_ok (usb_pool u) (row u ! unat n)" using k(2) n by (simp add: row_ok_def)
  {
    assume st: "st \<noteq> HCD_STATUS_OK"
    have q: "pipe_ok (usb_pool u) p"
      using pok unfolding p by (cases "Buffer (row u ! unat n)") (auto simp: pipe_ok_def)
    have "row_ok (usb_pool u) ((row u)[unat n := p])"
      by (rule row_ok_update[OF k(2) n q]) (auto simp: p dest: row_ok_buffers[OF k(2) n])
    then have "usb_ok (u\<lparr>hcd_state := h, PipeInfo := [(row u)[unat n := p]]\<rparr>)"
      using usb_ok_row'[of "u\<lparr>hcd_state := h\<rparr>"] u by simp
    then show "Pipe_ConfigurePipe d 0 n ty tok ep sz u = Some (False, u\<lparr>hcd_state := h, PipeInfo := [(row u)[unat n := p]]\<rparr>) \<and>
      usb_ok (u\<lparr>hcd_state := h, PipeInfo := [(row u)[unat n := p]]\<rparr>)"
      using st k(3) n len hcd unfolding Pipe_ConfigurePipe_def Let_def by (cases hdl) (simp_all add: p)
  next
    assume st: "st = HCD_STATUS_OK" and a: "USB_Memory_Alloc (ucast (buf_size ty sz)) (usb_pool u) = Some (None, m)"
    then show "\<exists>u'. Pipe_ConfigurePipe d 0 n ty tok ep sz u = Some (False, u')"
      using k(3) n len hcd unfolding Pipe_ConfigurePipe_def Let_def buf_size_def by (simp add: pu)
  next
    assume st: "st = HCD_STATUS_OK" and a: "USB_Memory_Alloc (ucast (buf_size ty sz)) (usb_pool u) = Some (Some b, m)"
    let ?q = "\<lparr>PipeHandle = PipeHandle p, Buffer = Some b, BufferSize = buf_size ty sz, StartIdx = 0, ByteTransfered = 0, EndponitAddress = ep\<rparr>"
    let ?u = "u\<lparr>hcd_state := h, usb_pool := m, PipeInfo := [(row u)[unat n := ?q]]\<rparr>"
    have ub: "unat (ucast (buf_size ty sz) :: u32) = unat (buf_size ty sz)" by (rule unat_ucast_u16)
    have le: "unat (ucast (buf_size ty sz) :: u32) \<le> 2 ^ 31" unfolding ub
      by (rule less_imp_le, rule order.strict_trans[OF unat_u16_lt]) simp
    obtain ds where o: "pool_ok m" "pool_owns m b ds" "unat (buf_size ty sz) \<le> length ds"
      using pool.alloc_new[OF k(1) le a] unfolding ub by blast
    note keep = pool.alloc_keeps[OF k(1) le a]
    have q: "pipe_ok m ?q" using o by (auto simp: pipe_ok_def)
    have "row_ok m ((row u)[unat n := ?q])"
    proof (rule row_ok_update[OF k(2) n q])
      fix i assume "i < 8" "i \<noteq> unat n" "pipe_ok (usb_pool u) (row u ! i)"
      then show "pipe_ok m (row u ! i)" using keep by (auto intro: pipe_ok_keep)
    next
      fix i assume "i < (8 :: nat)"
      then have "pipe_ok (usb_pool u) (row u ! i)" using k(2) by (simp add: row_ok_def)
      then show "Buffer (row u ! i) \<noteq> Buffer ?q" using keep
        by (cases "Buffer (row u ! i)") (auto simp: pipe_ok_open)
    qed
    then have "usb_ok ?u" using u o(1) by (simp add: usb_ok_def usb_shape_def row_ok_def)
    moreover have "Pipe_ConfigurePipe d 0 n ty tok ep sz u = Some (True, ?u)"
      using k(3) n len hcd st a unfolding Pipe_ConfigurePipe_def Let_def buf_size_def[symmetric]
      by (cases hdl) (simp_all add: p clear_pipe_def pipe_fields)
    ultimately show "\<exists>u'. Pipe_ConfigurePipe d 0 n ty tok ep sz u = Some (True, u') \<and> usb_ok u' \<and> u' = ?u" by blast
  }
qed


lemma configure_total:
  assumes u: "usb_ok u" and n: "unat n < 8"
  shows "\<exists>r u'. Pipe_ConfigurePipe d 0 n ty tok ep sz u = Some (r, u') \<and> (r \<longrightarrow> usb_ok u' \<and> Buffer (row u' ! unat n) \<noteq> None)"
proof -
  obtain st hdl h where hcd: "HcdOpenPipe d 0 (if ty = EP_TYPE_CONTROL \<and> USB_HostState u ! 0 < HOST_STATE_Default_PostAddressSet then 0 else 1)
       (hostportspeed u ! 0) ep ty tok sz (hcd_state u) = (st, hdl, h)" by (metis prod_cases3)
  note c = configure_cases[OF u n hcd refl]
  have "unat (ucast (buf_size ty sz) :: u32) \<le> 2 ^ 31" unfolding unat_ucast_u16
    by (rule less_imp_le, rule order.strict_trans[OF unat_u16_lt]) simp
  from pool.alloc_total[OF usb_okD(1)[OF u] this] obtain b m
    where a: "USB_Memory_Alloc (ucast (buf_size ty sz)) (usb_pool u) = Some (b, m)" by blast
  have len: "length (row u) = 8" using usb_shapeD(2)[OF usb_okD(3)[OF u]] .
  show ?thesis
  proof (cases "st = HCD_STATUS_OK")
    case True
    show ?thesis
    proof (cases b)
      case None
      then show ?thesis using c(2)[OF True] a by blast
    next
      case (Some b')
      then show ?thesis using c(3)[OF True, of b' m] a n len by auto
    qed
  qed (use c(1) in blast)
qed

lemma write_total:
  assumes u: "usb_ok u"
  shows "\<exists>u'. Pipe_Write_8 0 v u = Some u' \<and> usb_ok u' \<and>
    (\<forall>i < 8. \<forall>b ds. i \<noteq> sel u \<longrightarrow> Buffer (row u ! i) = Some b \<longrightarrow> pool_owns (usb_pool u) b ds \<longrightarrow> pool_owns (usb_pool u') b ds)"
proof (cases "ByteTransfered (row u ! sel u) < BufferSize (row u ! sel u)")
  case False
  then show ?thesis using u usb_okD(3)[OF u] by (intro exI[of _ u]) (simp add: Pipe_Write_8_def)
next
  case True
  note d = usb_okD[OF u]
  obtain b where b: "Buffer (row u ! sel u) = Some b"
    using d(5) True by (cases "Buffer (row u ! sel u)") (auto simp: pipe_ok_closed)
  obtain ds where o: "pool_owns (usb_pool u) b ds" "unat (BufferSize (row u ! sel u)) \<le> length ds"
    using d(5) pipe_ok_open[OF b] by auto
  note w = write_ok[OF u refl b o True refl refl, where v = v]
  show ?thesis
  proof (intro exI conjI allI impI)
    fix i c es assume i: "i < 8" "i \<noteq> sel u" and c: "Buffer (row u ! i) = Some c" and es: "pool_owns (usb_pool u) c es"
    have "c \<noteq> b" using row_ok_buffers[OF d(2) i(1) d(4) i(2) c] b by auto
    from w(4)[OF this es] show "pool_owns (usb_pool (u\<lparr>usb_pool := (usb_pool u)[b + unat (ByteTransfered (row u ! sel u)) := v],
        PipeInfo := [(row u)[sel u := (row u ! sel u)\<lparr>ByteTransfered := ByteTransfered (row u ! sel u) + 1\<rparr>]]\<rparr>)) c es" by simp
  qed (use w(1,2) in auto)
qed

lemma read_total:
  assumes u: "usb_ok u" and b: "Buffer (row u ! sel u) = Some b"
  shows "\<exists>v u'. Pipe_Read_8 0 u = Some (v, u') \<and> usb_ok u'"
proof (cases "StartIdx (row u ! sel u) < ByteTransfered (row u ! sel u)")
  case False
  then show ?thesis using u usb_okD(3)[OF u] by (intro exI[of _ 0] exI[of _ u]) (simp add: Pipe_Read_8_def)
next
  case True
  obtain ds where o: "pool_owns (usb_pool u) b ds" "unat (BufferSize (row u ! sel u)) \<le> length ds"
    using usb_okD(5)[OF u] pipe_ok_open[OF b] by auto
  show ?thesis using read_ok[OF u refl b o True refl] by blast
qed


definition usb_idle :: "'h \<Rightarrow> 'h usb" where
  "usb_idle h = \<lparr>usb_pool = pool28, pipeselected = [0], PipeInfo = [replicate 8 pipe0], hostportspeed = [0],
     USB_HostState = [1], USB_ControlRequest = \<lparr>bmRequestType = 0, bRequest = 0, wValue = 0, wIndex = 0, wLength = 0\<rparr>,
     USB_Host_ConfigurationNumber = 0, USB_Host_ControlPipeSize = [8], USB_IsInitialized = True,
     WaitMSRemaining = 0, PostWaitState = 0, hcd_state = h\<rparr>"

lemma usb_idle_ok: "usb_ok (usb_idle h)"
  using heap_pool28 by (auto simp: usb_ok_def usb_shape_def row_ok_def usb_idle_def pipe0_def pipe_ok_def pool_ok_def)


end
