(* ===== verification/OhciDriver.thy ===== *)
theory OhciDriver
  imports UsbPipe
begin

unbundle bit_operations_syntax

text \<open>
  The host controller driver of the USB stack for the OHCI controller of the LPC17xx,
  \<^verbatim>\<open>nxpUSBlib/Drivers/USB/Core/LPC/HCD/OHCI/OHCI.c\<close>, \<^verbatim>\<open>OHCI.h\<close> and \<^verbatim>\<open>HCD/HCD.c\<close>: endpoint
  descriptors (EDs) and transfer descriptors (TDs) allocated from the arrays of \<^verbatim>\<open>ohci_data\<close> and
  linked into the lists the controller walks; opening, cancelling and closing pipes; control and data
  transfers; the interrupt handler with its done queue; start-up and the root hub port.

  Representation:
  \<^item> a pointer to a TD is \<open>Gtd i\<close> or \<open>Itd i\<close> (an element of \<open>gTDs\<close> or \<open>iTDs\<close>), a pointer to an ED
    \<open>Static i\<close> or \<open>Ed i\<close>; a null pointer is \<^const>\<open>None\<close>. An address below the end of \<open>iTDs\<close>, the
    test of \<^verbatim>\<open>ProcessDoneQueue\<close>, is an \<open>Itd\<close>, because the array \<open>gTDs\<close> follows \<open>iTDs\<close> in the structure;
  \<^item> descriptors are aligned to 16 bytes and more, so that the word \<^verbatim>\<open>HeadP\<close> is a pointer and the two
    flags \<open>Halted\<close> and \<open>ToggleCarry\<close> in its low bits: a store to \<^verbatim>\<open>HeadP.HeadTD\<close> of an aligned pointer
    clears both (\<open>set_HeadTD\<close>), and \<^verbatim>\<open>Align16\<close> is the pointer;
  \<^item> a condition code is the \<open>HCD_STATUS\<close> of its number: the enumeration starts with the 16 codes of
    the controller. Data buffers are not looked into by the driver, only their addresses, of 32 bits;
  \<^item> a TD used as the wrong kind (an isochronous one as a general one or the reverse), and a null
    pointer that is followed, make the call \<^const>\<open>None\<close>. Indices of descriptors come from the
    search loops of the driver and are numbers;
  \<^item> \<open>HcDoneHead\<close> is the register of the controller in which it collects the TDs it has retired; the
    driver does not use it, but sees it in \<open>HccaDoneHead\<close> when the controller writes it back;
  \<^item> the registers the driver only writes are the log \<open>ohci_io\<close>, in which the calls into the USB host
    core stand as well; the values it reads from volatile registers are arguments.
  The target has one controller (\<^verbatim>\<open>MAX_USB_CORE\<close> is 1), and the isochronous and interrupt lists are
  enabled, as \<^verbatim>\<open>HCD.h\<close> sets them.
\<close>

section \<open>Data\<close>

datatype td = Gtd nat | Itd nat

datatype ed = Static nat | Ed nat

record HC_ED =
  FunctionAddr :: u8
  EndpointNumber :: u8
  Direction :: u8
  Speed :: u8
  Skip :: bool
  Format :: bool
  MaxPackageSize :: u16
  TailP :: "td option"
  HeadTD :: "td option"
  Halted :: bool
  ToggleCarry :: bool
  NextED :: "ed option"

record HCD_EndpointDescriptor = HC_ED +
  ed_inUse :: bool
  ListIndex :: nat
  Interval :: u8
  ed_status :: HCD_STATUS
  pActualTransferCount :: u32

record HCD_GeneralTransferDescriptor =
  BufferRounding :: bool
  DirectionPID :: u8
  g_DelayInterrupt :: u8
  DataToggle :: u8
  ErrorCount :: u8
  g_ConditionCode :: HCD_STATUS
  CurrentBufferPointer :: u32
  g_NextTD :: "td option"
  BufferEnd :: u32
  g_inUse :: bool
  g_EdIdx :: nat
  TransferCount :: u16

record HCD_IsoTransferDescriptor =
  StartingFrame :: u16
  i_DelayInterrupt :: u8
  FrameCount :: u8
  i_ConditionCode :: HCD_STATUS
  BufferPage0 :: u32
  i_NextTD :: "td option"
  i_BufferEnd :: u32
  OffsetPSW :: "u16 list"
  i_inUse :: bool
  i_EdIdx :: nat

datatype ohci_reg =
    OTGClkCtrl | OTGStCtrl | HcCommandStatus | HcInterruptStatus | HcInterruptEnable
  | HcInterruptDisable | HcFmInterval | HcPeriodicStart | HcRhStatus | HcRhPortStatus1

datatype ohci_event = Wr ohci_reg u32 | HostEnumerate u8 | HostDeEnumerate u8 | DelayMS u32

record ohci =
  HccaIntTable :: "ed option list"
  HccaFrameNumber :: u16
  HccaDoneHead :: "td option"
  iTDs :: "HCD_IsoTransferDescriptor list"
  gTDs :: "HCD_GeneralTransferDescriptor list"
  EDs :: "HCD_EndpointDescriptor list"
  staticEDs :: "HC_ED list"
  xfer_counts :: "u32 \<Rightarrow> u16"
  HcControl :: u32
  HcControlHeadED :: "ed option"
  HcBulkHeadED :: "ed option"
  HcHCCA :: bool
  HcDoneHead :: "td option"
  ohci_io :: "ohci_event list"

abbreviation (input) MAX_USB_CORE :: u8 where "MAX_USB_CORE \<equiv> 1"
abbreviation (input) MAX_ED :: nat where "MAX_ED \<equiv> 8"
abbreviation (input) MAX_GTD :: nat where "MAX_GTD \<equiv> 11"
abbreviation (input) MAX_ITD :: nat where "MAX_ITD \<equiv> 4"
abbreviation (input) MAX_STATIC_ED :: nat where "MAX_STATIC_ED \<equiv> 3"
abbreviation (input) ISO_LIST_HEAD :: nat where "ISO_LIST_HEAD \<equiv> 0"
abbreviation (input) INTERRUPT_1ms_LIST_HEAD :: nat where "INTERRUPT_1ms_LIST_HEAD \<equiv> 0"
abbreviation (input) CONTROL_LIST_HEAD :: nat where "CONTROL_LIST_HEAD \<equiv> 1"
abbreviation (input) BULK_LIST_HEAD :: nat where "BULK_LIST_HEAD \<equiv> 2"
abbreviation (input) TD_MAX_XFER_LENGTH :: u32 where "TD_MAX_XFER_LENGTH \<equiv> 0x2000"
abbreviation (input) TD_NoInterruptOnComplete :: u8 where "TD_NoInterruptOnComplete \<equiv> 7"
abbreviation (input) FULL_SPEED :: u8 where "FULL_SPEED \<equiv> 0"
abbreviation (input) LOW_SPEED :: u8 where "LOW_SPEED \<equiv> 1"
abbreviation (input) HIGH_SPEED :: u8 where "HIGH_SPEED \<equiv> 2"
abbreviation (input) CONTROL_TRANSFER :: u8 where "CONTROL_TRANSFER \<equiv> 0"
abbreviation (input) ISOCHRONOUS_TRANSFER :: u8 where "ISOCHRONOUS_TRANSFER \<equiv> 1"
abbreviation (input) BULK_TRANSFER :: u8 where "BULK_TRANSFER \<equiv> 2"
abbreviation (input) INTERRUPT_TRANSFER :: u8 where "INTERRUPT_TRANSFER \<equiv> 3"
abbreviation (input) OUT_TRANSFER :: u8 where "OUT_TRANSFER \<equiv> 2"

section \<open>Access to the descriptors\<close>

definition Align4k :: "u32 \<Rightarrow> u32" where
  "Align4k v = v AND 0xFFFFF000"

definition Offset4k :: "u32 \<Rightarrow> u32" where
  "Offset4k v = v AND 0xFFF"

definition HcdED :: "ohci \<Rightarrow> nat \<Rightarrow> HCD_EndpointDescriptor" where
  "HcdED s e = EDs s ! e"

definition HcdGTD :: "ohci \<Rightarrow> nat \<Rightarrow> HCD_GeneralTransferDescriptor" where
  "HcdGTD s i = gTDs s ! i"

definition HcdITD :: "ohci \<Rightarrow> nat \<Rightarrow> HCD_IsoTransferDescriptor" where
  "HcdITD s i = iTDs s ! i"

definition upd_ED :: "nat \<Rightarrow> (HCD_EndpointDescriptor \<Rightarrow> HCD_EndpointDescriptor) \<Rightarrow> ohci \<Rightarrow> ohci" where
  "upd_ED e f s = s\<lparr>EDs := (EDs s)[e := f (EDs s ! e)]\<rparr>"

definition upd_GTD :: "nat \<Rightarrow> (HCD_GeneralTransferDescriptor \<Rightarrow> HCD_GeneralTransferDescriptor) \<Rightarrow> ohci \<Rightarrow> ohci" where
  "upd_GTD i f s = s\<lparr>gTDs := (gTDs s)[i := f (gTDs s ! i)]\<rparr>"

definition upd_ITD :: "nat \<Rightarrow> (HCD_IsoTransferDescriptor \<Rightarrow> HCD_IsoTransferDescriptor) \<Rightarrow> ohci \<Rightarrow> ohci" where
  "upd_ITD i f s = s\<lparr>iTDs := (iTDs s)[i := f (iTDs s ! i)]\<rparr>"

definition set_HeadTD :: "td option \<Rightarrow> HCD_EndpointDescriptor \<Rightarrow> HCD_EndpointDescriptor" where
  "set_HeadTD p d = d\<lparr>HeadTD := p, Halted := False, ToggleCarry := False\<rparr>"

definition IsIsoEndpoint :: "nat \<Rightarrow> ohci \<Rightarrow> bool" where
  "IsIsoEndpoint e s = Format (HcdED s e)"

definition IsInterruptEndpoint :: "nat \<Rightarrow> ohci \<Rightarrow> bool" where
  "IsInterruptEndpoint e s \<longleftrightarrow> ListIndex (HcdED s e) < CONTROL_LIST_HEAD \<and> \<not> IsIsoEndpoint e s"

text \<open>The fields that general and isochronous TDs have at the same offset.\<close>

definition td_next :: "ohci \<Rightarrow> td \<Rightarrow> td option" where
  "td_next s t = (case t of Gtd i \<Rightarrow> g_NextTD (HcdGTD s i) | Itd i \<Rightarrow> i_NextTD (HcdITD s i))"

definition set_next :: "td \<Rightarrow> td option \<Rightarrow> ohci \<Rightarrow> ohci" where
  "set_next t n = (case t of Gtd i \<Rightarrow> upd_GTD i (\<lambda>g. g\<lparr>g_NextTD := n\<rparr>)
                           | Itd i \<Rightarrow> upd_ITD i (\<lambda>g. g\<lparr>i_NextTD := n\<rparr>))"

definition td_cc :: "ohci \<Rightarrow> td \<Rightarrow> HCD_STATUS" where
  "td_cc s t = (case t of Gtd i \<Rightarrow> g_ConditionCode (HcdGTD s i) | Itd i \<Rightarrow> i_ConditionCode (HcdITD s i))"

definition td_delay :: "ohci \<Rightarrow> td \<Rightarrow> u8" where
  "td_delay s t = (case t of Gtd i \<Rightarrow> g_DelayInterrupt (HcdGTD s i) | Itd i \<Rightarrow> i_DelayInterrupt (HcdITD s i))"

definition log_io :: "ohci_event \<Rightarrow> ohci \<Rightarrow> ohci" where
  "log_io x s = s\<lparr>ohci_io := ohci_io s @ [x]\<rparr>"

section \<open>Allocation\<close>

definition blank_gtd :: HCD_GeneralTransferDescriptor where
  "blank_gtd = \<lparr>BufferRounding = False, DirectionPID = 0, g_DelayInterrupt = 0, DataToggle = 0, ErrorCount = 0,
     g_ConditionCode = HCD_STATUS_OK, CurrentBufferPointer = 0, g_NextTD = None, BufferEnd = 0,
     g_inUse = False, g_EdIdx = 0, TransferCount = 0\<rparr>"

definition blank_itd :: HCD_IsoTransferDescriptor where
  "blank_itd = \<lparr>StartingFrame = 0, i_DelayInterrupt = 0, FrameCount = 0, i_ConditionCode = HCD_STATUS_OK,
     BufferPage0 = 0, i_NextTD = None, i_BufferEnd = 0, OffsetPSW = replicate 8 0, i_inUse = False, i_EdIdx = 0\<rparr>"

definition blank_hced :: HC_ED where
  "blank_hced = \<lparr>FunctionAddr = 0, EndpointNumber = 0, Direction = 0, Speed = 0, Skip = False, Format = False,
     MaxPackageSize = 0, TailP = None, HeadTD = None, Halted = False, ToggleCarry = False, NextED = None\<rparr>"

definition blank_ed :: HCD_EndpointDescriptor where
  "blank_ed = \<lparr>FunctionAddr = 0, EndpointNumber = 0, Direction = 0, Speed = 0, Skip = False, Format = False,
     MaxPackageSize = 0, TailP = None, HeadTD = None, Halted = False, ToggleCarry = False, NextED = None,
     ed_inUse = False, ListIndex = 0, Interval = 0, ed_status = HCD_STATUS_OK, pActualTransferCount = 0\<rparr>"

definition AllocGtdForEd :: "nat \<Rightarrow> ohci \<Rightarrow> (HCD_STATUS \<times> ohci) option" where
  "AllocGtdForEd e s = (case find_idx (\<lambda>g. \<not> g_inUse g) (gTDs s) of
     None \<Rightarrow> Some (HCD_STATUS_NOT_ENOUGH_GTD, s)
   | Some i \<Rightarrow>
       let s = upd_GTD i (\<lambda>_. blank_gtd\<lparr>g_inUse := True, g_EdIdx := e, BufferRounding := True,
                                g_ConditionCode := HCD_STATUS_TRANSFER_NotAccessed\<rparr>) s
       in (case TailP (HcdED s e) of
             Some (Gtd j) \<Rightarrow> Some (HCD_STATUS_OK,
               upd_ED e (\<lambda>d. d\<lparr>TailP := Some (Gtd i)\<rparr>) (upd_GTD j (\<lambda>g. g\<lparr>g_NextTD := Some (Gtd i)\<rparr>) s))
           | Some (Itd j) \<Rightarrow> None
           | None \<Rightarrow> Some (HCD_STATUS_OK,
               upd_ED e (\<lambda>d. (set_HeadTD (Some (Gtd i)) d)\<lparr>TailP := Some (Gtd i)\<rparr>) s)))"

definition AllocItdForEd :: "nat \<Rightarrow> ohci \<Rightarrow> (HCD_STATUS \<times> ohci) option" where
  "AllocItdForEd e s = (case find_idx (\<lambda>g. \<not> i_inUse g) (iTDs s) of
     None \<Rightarrow> Some (HCD_STATUS_NOT_ENOUGH_ITD, s)
   | Some i \<Rightarrow>
       let s = upd_ITD i (\<lambda>_. blank_itd\<lparr>i_inUse := True, i_EdIdx := e,
                                i_ConditionCode := HCD_STATUS_TRANSFER_NotAccessed\<rparr>) s
       in (case TailP (HcdED s e) of
             Some (Itd j) \<Rightarrow> Some (HCD_STATUS_OK,
               upd_ED e (\<lambda>d. d\<lparr>TailP := Some (Itd i)\<rparr>) (upd_ITD j (\<lambda>g. g\<lparr>i_NextTD := Some (Itd i)\<rparr>) s))
           | Some (Gtd j) \<Rightarrow> None
           | None \<Rightarrow> Some (HCD_STATUS_OK,
               upd_ED e (\<lambda>d. (set_HeadTD (Some (Itd i)) d)\<lparr>TailP := Some (Itd i)\<rparr>) s)))"

definition FreeGtd :: "td option \<Rightarrow> ohci \<Rightarrow> ohci option" where
  "FreeGtd p s = (case p of Some (Gtd i) \<Rightarrow> Some (upd_GTD i (\<lambda>g. g\<lparr>g_inUse := False\<rparr>) s) | _ \<Rightarrow> None)"

definition FreeItd :: "td option \<Rightarrow> ohci \<Rightarrow> ohci option" where
  "FreeItd p s = (case p of Some (Itd i) \<Rightarrow> Some (upd_ITD i (\<lambda>g. g\<lparr>i_inUse := False\<rparr>) s) | _ \<Rightarrow> None)"

text \<open>The choice between the two by the format of the endpoint, as \<^verbatim>\<open>HcdCancelTransfer\<close>,
  \<^verbatim>\<open>FreeED\<close> and \<^verbatim>\<open>ProcessDoneQueue\<close> make it.\<close>

definition free_td :: "nat \<Rightarrow> td option \<Rightarrow> ohci \<Rightarrow> ohci option" where
  "free_td e p s = (if IsIsoEndpoint e s then FreeItd p s else FreeGtd p s)"

definition FreeED :: "nat \<Rightarrow> ohci \<Rightarrow> ohci option" where
  "FreeED e s = do {
     s \<leftarrow> free_td e (TailP (HcdED s e)) s;
     Some (upd_ED e (\<lambda>d. d\<lparr>ed_status := HCD_STATUS_TRANSFER_NotAccessed, ed_inUse := False\<rparr>) s)
   }"

definition init_ed :: "u8 \<Rightarrow> u8 \<Rightarrow> u8 \<Rightarrow> u8 \<Rightarrow> u8 \<Rightarrow> u16 \<Rightarrow> u8 \<Rightarrow> HCD_EndpointDescriptor" where
  "init_ed dev speed ep ty dir mps interval = blank_ed\<lparr>ed_inUse := True,
     FunctionAddr := dev AND 0x7F, EndpointNumber := ep AND 0xF,
     Direction := (if ty = CONTROL_TRANSFER then 0 else if dir = OUT_TRANSFER then 1 else 2),
     Speed := (if speed = FULL_SPEED then 0 else 1), Skip := False,
     Format := (ty = ISOCHRONOUS_TRANSFER), MaxPackageSize := mps AND 0x7FF, Interval := interval\<rparr>"

definition AllocEd :: "u8 \<Rightarrow> u8 \<Rightarrow> u8 \<Rightarrow> u8 \<Rightarrow> u8 \<Rightarrow> u16 \<Rightarrow> u8 \<Rightarrow> ohci \<Rightarrow> (HCD_STATUS \<times> nat \<times> ohci) option" where
  "AllocEd dev speed ep ty dir mps interval s = (case find_idx (\<lambda>d. \<not> ed_inUse d) (EDs s) of
     None \<Rightarrow> Some (HCD_STATUS_NOT_ENOUGH_ENDPOINT, MAX_ED, s)
   | Some e \<Rightarrow> do {
       let s = upd_ED e (\<lambda>_. init_ed dev speed ep ty dir mps interval) s;
       (st, s) \<leftarrow> (if ty \<noteq> ISOCHRONOUS_TRANSFER then AllocGtdForEd e s else AllocItdForEd e s);
       Some (st, e, s)
     })"

section \<open>The lists of endpoints\<close>

definition ed_next :: "ohci \<Rightarrow> ed \<Rightarrow> ed option" where
  "ed_next s p = (case p of Static i \<Rightarrow> NextED (staticEDs s ! i) | Ed e \<Rightarrow> NextED (HcdED s e))"

definition set_NextED :: "ed \<Rightarrow> ed option \<Rightarrow> ohci \<Rightarrow> ohci" where
  "set_NextED p n s = (case p of
     Static i \<Rightarrow> s\<lparr>staticEDs := (staticEDs s)[i := (staticEDs s ! i)\<lparr>NextED := n\<rparr>]\<rparr>
   | Ed e \<Rightarrow> upd_ED e (\<lambda>d. d\<lparr>NextED := n\<rparr>) s)"

definition InsertEndpoint :: "nat \<Rightarrow> nat \<Rightarrow> ohci \<Rightarrow> ohci" where
  "InsertEndpoint e l s =
     set_NextED (Static l) (Some (Ed e)) (set_NextED (Ed e) (ed_next s (Static l)) s)"

text \<open>The walk of \<^verbatim>\<open>RemoveEndpoint\<close> to the predecessor of the endpoint.\<close>

partial_function (option) prev_ED :: "ohci \<Rightarrow> nat \<Rightarrow> ed \<Rightarrow> ed option" where
  "prev_ED s e p = (if ed_next s p = Some (Ed e) then Some p
     else (case ed_next s p of None \<Rightarrow> None | Some q \<Rightarrow> prev_ED s e q))"

definition RemoveEndpoint :: "nat \<Rightarrow> ohci \<Rightarrow> ohci option" where
  "RemoveEndpoint e s = do {
     p \<leftarrow> prev_ED s e (Static (ListIndex (HcdED s e)));
     Some (set_NextED p (NextED (HcdED s e)) s)
   }"

section \<open>Pipe handles\<close>

definition PipehandleCreate :: "u8 \<Rightarrow> nat \<Rightarrow> u32" where
  "PipehandleCreate HostID e = push_bit 8 (ucast HostID) + of_nat e"

definition PipehandleParse :: "u32 \<Rightarrow> ohci \<Rightarrow> HCD_STATUS \<times> u8 \<times> nat" where
  "PipehandleParse hdl s =
     (let HostID = ucast (drop_bit 8 hdl); e = unat (hdl AND 0xFF)
      in (if HostID \<ge> MAX_USB_CORE \<or> e \<ge> MAX_ED \<or> \<not> ed_inUse (HcdED s e) then HCD_STATUS_PIPEHANDLE_INVALID
          else HCD_STATUS_OK, HostID, e))"

section \<open>Opening a pipe\<close>

definition OpenPipe_VerifyParameters :: "u8 \<Rightarrow> u8 \<Rightarrow> u8 \<Rightarrow> u8 \<Rightarrow> u8 \<Rightarrow> u8 \<Rightarrow> u16 \<Rightarrow> u8 \<Rightarrow> u8 \<Rightarrow> HCD_STATUS" where
  "OpenPipe_VerifyParameters HostID dev speed ep ty dir mps interval mult =
     (if HostID \<ge> MAX_USB_CORE \<or> dev > 127 \<or> speed > HIGH_SPEED \<or> ep AND 0x70 \<noteq> 0 \<or>
         ty > INTERRUPT_TRANSFER \<or> dir > OUT_TRANSFER
      then HCD_STATUS_PARAMETER_INVALID
      else if speed = LOW_SPEED \<and> (ty = BULK_TRANSFER \<or> ty = ISOCHRONOUS_TRANSFER)
      then HCD_STATUS_PARAMETER_INVALID
      else if ty = CONTROL_TRANSFER then
        (if mps > 64 then HCD_STATUS_PARAMETER_INVALID else HCD_STATUS_OK)
      else if ty = BULK_TRANSFER then
        (if speed = FULL_SPEED \<and> mps > 64 \<or> speed = HIGH_SPEED \<and> mps > 512
         then HCD_STATUS_PARAMETER_INVALID else HCD_STATUS_OK)
      else if ty = INTERRUPT_TRANSFER then
        (if interval = 0 \<or> speed = FULL_SPEED \<and> mps > 64 \<or>
            speed = HIGH_SPEED \<and> (mps > 1024 \<or> interval > 16 \<or> mult = 0)
         then HCD_STATUS_PARAMETER_INVALID else HCD_STATUS_OK)
      else
        (if interval = 0 \<or> interval > 16 \<or> speed = FULL_SPEED \<and> mps > 1023 \<or>
            speed = HIGH_SPEED \<and> (mps > 1024 \<or> mult = 0)
         then HCD_STATUS_PARAMETER_INVALID else HCD_STATUS_OK))"

definition list_of_type :: "u8 \<Rightarrow> nat" where
  "list_of_type ty =
     (if ty = CONTROL_TRANSFER then CONTROL_LIST_HEAD else if ty = BULK_TRANSFER then BULK_LIST_HEAD
      else if ty = INTERRUPT_TRANSFER then INTERRUPT_1ms_LIST_HEAD else ISO_LIST_HEAD)"

definition HcdOpenPipe_ohci ::
  "u8 \<Rightarrow> u8 \<Rightarrow> u8 \<Rightarrow> u8 \<Rightarrow> u8 \<Rightarrow> u8 \<Rightarrow> u16 \<Rightarrow> u8 \<Rightarrow> ohci \<Rightarrow> (HCD_STATUS \<times> u32 option \<times> ohci) option" where
  "HcdOpenPipe_ohci HostID dev speed ep ty dir mps interval s =
     (let v = OpenPipe_VerifyParameters HostID dev speed ep ty dir mps interval 0
      in if v \<noteq> HCD_STATUS_OK then Some (v, None, s)
         else do {
           let l = list_of_type ty;
           (st, e, s) \<leftarrow> AllocEd dev speed (ep AND 0xF) ty dir (mps AND 0x3FF) interval s;
           (if st \<noteq> HCD_STATUS_OK then Some (st, None, s)
            else do {
              let s = InsertEndpoint e l (upd_ED e (\<lambda>d. d\<lparr>ListIndex := l\<rparr>) s);
              Some (HCD_STATUS_OK, Some (PipehandleCreate HostID e), s)
            })
         })"

section \<open>Cancelling and closing\<close>

text \<open>The loop that walks the TDs of an endpoint from its head to its tail and frees them.\<close>

partial_function (option) cancel_tds :: "nat \<Rightarrow> ohci \<Rightarrow> ohci option" where
  "cancel_tds e s = (if HeadTD (HcdED s e) = TailP (HcdED s e) then Some s
     else (case HeadTD (HcdED s e) of
             None \<Rightarrow> None
           | Some h \<Rightarrow> Option.bind (free_td e (Some h) (upd_ED e (set_HeadTD (td_next s h)) s)) (cancel_tds e)))"

text \<open>
  The wait for the start of a frame. The source has no semicolon after the condition, so the loop that
  frees the TDs is its body: it runs whenever the flag is read as clear. The argument is the
  flag at each read.
\<close>

fun cancel_wait :: "nat \<Rightarrow> bool list \<Rightarrow> ohci \<Rightarrow> ohci option" where
  "cancel_wait e [] s = None"
| "cancel_wait e (sof # sofs) s = (if sof then Some s else Option.bind (cancel_tds e s) (cancel_wait e sofs))"

definition HcdCancelTransfer :: "u32 \<Rightarrow> bool list \<Rightarrow> ohci \<Rightarrow> (HCD_STATUS \<times> ohci) option" where
  "HcdCancelTransfer hdl sofs s = (case PipehandleParse hdl s of (st, _, e) \<Rightarrow>
     if st \<noteq> HCD_STATUS_OK then Some (st, s)
     else do {
       let s = upd_ED e (\<lambda>d. d\<lparr>Skip := True\<rparr>) s;
       let s = log_io (Wr HcInterruptStatus 0x4) s;
       s \<leftarrow> cancel_wait e sofs s;
       let s = upd_ED e (\<lambda>d. set_HeadTD (TailP d) d) s;
       let s = upd_ED e (\<lambda>d. d\<lparr>ToggleCarry := False\<rparr>) s;
       Some (HCD_STATUS_OK, upd_ED e (\<lambda>d. d\<lparr>Skip := False\<rparr>) s)
     })"

definition HcdClosePipe_ohci :: "u32 \<Rightarrow> bool list \<Rightarrow> ohci \<Rightarrow> (HCD_STATUS \<times> ohci) option" where
  "HcdClosePipe_ohci hdl sofs s = (case PipehandleParse hdl s of (st, _, e) \<Rightarrow>
     if st \<noteq> HCD_STATUS_OK then Some (st, s)
     else do {
       (st, s) \<leftarrow> HcdCancelTransfer hdl sofs s;
       (if st \<noteq> HCD_STATUS_OK then Some (st, s)
        else do {
          s \<leftarrow> RemoveEndpoint e (upd_ED e (\<lambda>d. d\<lparr>Skip := True\<rparr>) s);
          s \<leftarrow> FreeED e s;
          Some (HCD_STATUS_OK, s)
        })
     })"

definition HcdClearEndpointHalt_ohci :: "u32 \<Rightarrow> ohci \<Rightarrow> HCD_STATUS \<times> ohci" where
  "HcdClearEndpointHalt_ohci hdl s = (case PipehandleParse hdl s of (st, _, e) \<Rightarrow>
     if st \<noteq> HCD_STATUS_OK then (st, s)
     else (HCD_STATUS_OK, upd_ED e (\<lambda>d. d\<lparr>Halted := False, ToggleCarry := False, ed_status := HCD_STATUS_OK\<rparr>) s))"

definition HcdGetPipeStatus_ohci :: "u32 \<Rightarrow> ohci \<Rightarrow> HCD_STATUS" where
  "HcdGetPipeStatus_ohci hdl s = (case PipehandleParse hdl s of (st, _, e) \<Rightarrow>
     if st \<noteq> HCD_STATUS_OK then st else ed_status (HcdED s e))"

section \<open>Queueing transfers\<close>

definition QueueOneGTD :: "nat \<Rightarrow> u32 \<Rightarrow> u32 \<Rightarrow> u8 \<Rightarrow> u8 \<Rightarrow> bool \<Rightarrow> ohci \<Rightarrow> (HCD_STATUS \<times> ohci) option" where
  "QueueOneGTD e buf len pid toggle ioc s = (case TailP (HcdED s e) of
     Some (Gtd i) \<Rightarrow> AllocGtdForEd e (upd_GTD i (\<lambda>g. g\<lparr>DirectionPID := pid AND 3, DataToggle := toggle AND 3,
         CurrentBufferPointer := buf, BufferEnd := (if len \<noteq> 0 then buf + len - 1 else 0),
         TransferCount := ucast len,
         g_DelayInterrupt := (if ioc then g_DelayInterrupt g else TD_NoInterruptOnComplete)\<rparr>) s)
   | _ \<Rightarrow> None)"

text \<open>The length of the next piece of a transfer: up to two pages of memory.\<close>

definition gtd_chunk :: "u32 \<Rightarrow> u32 \<Rightarrow> u32" where
  "gtd_chunk buf len = (let mx = TD_MAX_XFER_LENGTH - Offset4k buf
                        in ucast (ucast (if len < mx then len else mx) :: u16))"

lemma ucast_u16_small: "unat (x::u32) < 2 ^ 16 \<Longrightarrow> (ucast (ucast x :: u16) :: u32) = x"
  by (rule word_unat_eq_iff[THEN iffD2]) (simp add: unsigned_ucast_eq unsigned_take_bit_eq take_bit_nat_eq_self)

lemma Offset4k_le: "Offset4k v \<le> 0xFFF"
  by (simp add: Offset4k_def word_and_le1)

lemma gtd_chunk_eq: "gtd_chunk buf len = (if len < 0x2000 - Offset4k buf then len else 0x2000 - Offset4k buf)"
proof -
  let ?x = "if len < 0x2000 - Offset4k buf then len else 0x2000 - Offset4k buf"
  have "?x \<le> 0x2000" using Offset4k_le[of buf] by (auto simp: word_le_nat_alt word_less_nat_alt unat_sub)
  then have "unat ?x < 2 ^ 16" by (simp add: word_le_nat_alt)
  then have "(ucast (ucast ?x :: u16) :: u32) = ?x"
    by (rule ucast_u16_small)
  then show ?thesis by (simp add: gtd_chunk_def Let_def)
qed

lemma gtd_chunk_le: "gtd_chunk buf len \<le> len" "0 < len \<Longrightarrow> 0 < gtd_chunk buf len"
proof -
  have "0 < 0x2000 - Offset4k buf"
    using Offset4k_le[of buf] by (simp add: word_le_nat_alt word_less_nat_alt unat_sub)
  then show "gtd_chunk buf len \<le> len" "0 < len \<Longrightarrow> 0 < gtd_chunk buf len"
    by (auto simp: gtd_chunk_eq not_less)
qed

function (sequential) QueueGTDs :: "nat \<Rightarrow> u32 \<Rightarrow> u32 \<Rightarrow> u8 \<Rightarrow> ohci \<Rightarrow> (HCD_STATUS \<times> ohci) option" where
  "QueueGTDs e buf len dir s =
     (if 0 < len
      then (let n = gtd_chunk buf len; left = len - n
            in case QueueOneGTD e buf n dir 0 (left = 0) s of
                 None \<Rightarrow> None
               | Some (st, s') \<Rightarrow> if st \<noteq> HCD_STATUS_OK then Some (st, s') else QueueGTDs e (buf + n) left dir s')
      else Some (HCD_STATUS_OK, s))"
  by pat_completeness auto

termination QueueGTDs
proof (relation "measure (\<lambda>(e, buf, len, dir, s). unat len)", simp)
  fix e :: nat and buf len n left :: u32 and dir :: u8 and s s' :: ohci
  assume a: "0 < len" "n = gtd_chunk buf len" "left = len - n"
  have "unat (len - n) < unat len"
    using gtd_chunk_le(1)[of buf len] gtd_chunk_le(2)[of len buf] a
    by (simp add: unat_sub word_less_nat_alt word_le_nat_alt)
  then show "((e, buf + n, left, dir, s'), e, buf, len, dir, s) \<in> measure (\<lambda>(e, buf, len, dir, s). unat len)"
    using a by simp
qed

declare QueueGTDs.simps [simp del]

text \<open>
  Isochronous transfers. \<open>itd_psw\<close> is the loop that fills the eight packet words: \<open>n\<close> passes left,
  the buffer page of the descriptor, the rest of the length and of the buffer.
\<close>

fun itd_psw :: "nat \<Rightarrow> u32 \<Rightarrow> u32 \<Rightarrow> u32 \<Rightarrow> u32 \<Rightarrow> u16 list \<Rightarrow> u16 list" where
  "itd_psw 0 page mps len buf psw = psw"
| "itd_psw (Suc n) page mps len buf psw =
     (if 0 < len
      then (let x = (if len < mps then len else mps);
                w = ucast (0xE000 OR (if Align4k buf \<noteq> Align4k page then 0x1000 else 0) OR Offset4k buf)
            in itd_psw n page mps (len - x) (buf + x) (psw[7 - n := w]))
      else psw)"

definition QueueOneITD :: "nat \<Rightarrow> u32 \<Rightarrow> u32 \<Rightarrow> u16 \<Rightarrow> ohci \<Rightarrow> (HCD_STATUS \<times> ohci) option" where
  "QueueOneITD e buf len frame s = (case TailP (HcdED s e) of
     Some (Itd i) \<Rightarrow>
       (let mps = ucast (MaxPackageSize (HcdED s e)) :: u32
        in if mps = 0 then None
           else AllocItdForEd e (upd_ITD i (\<lambda>d. d\<lparr>StartingFrame := frame,
             FrameCount := ucast (len div mps + (if len mod mps \<noteq> 0 then 1 else 0) - 1) AND 7,
             BufferPage0 := Align4k buf, i_BufferEnd := buf + len - 1,
             OffsetPSW := itd_psw 8 (Align4k buf) mps len buf (OffsetPSW d)\<rparr>) s))
   | _ \<Rightarrow> None)"

definition itd_chunk :: "u32 \<Rightarrow> u32 \<Rightarrow> u32 \<Rightarrow> u32" where
  "itd_chunk maxdata buf len = (let mx = TD_MAX_XFER_LENGTH - Offset4k buf;
     mx = (if maxdata < mx then maxdata else mx)
     in ucast (ucast (if len < mx then len else mx) :: u16))"

lemma itd_chunk_gtd: "itd_chunk maxdata buf len = (let n = gtd_chunk buf len in if maxdata < n then maxdata else n)"
proof -
  let ?m = "0x2000 - Offset4k buf"
  let ?x = "if len < (if maxdata < ?m then maxdata else ?m) then len else (if maxdata < ?m then maxdata else ?m)"
  have "?x \<le> 0x2000" using Offset4k_le[of buf] by (auto simp: word_le_nat_alt word_less_nat_alt unat_sub)
  then have "unat ?x < 2 ^ 16" by (simp add: word_le_nat_alt)
  then have "(ucast (ucast ?x :: u16) :: u32) = ?x"
    by (rule ucast_u16_small)
  then have "itd_chunk maxdata buf len = ?x" by (simp only: itd_chunk_def Let_def)
  then show ?thesis by (auto simp: gtd_chunk_eq Let_def)
qed

text \<open>With packets of size 0 the first descriptor divides by zero, and the call is \<^const>\<open>None\<close>.\<close>

function (sequential) queue_itds :: "nat \<Rightarrow> u32 \<Rightarrow> u32 \<Rightarrow> u32 \<Rightarrow> u32 \<Rightarrow> ohci \<Rightarrow> (HCD_STATUS \<times> ohci) option" where
  "queue_itds e maxdata frame buf len s =
     (if 0 < len
      then if maxdata = 0 then None
      else (let n = itd_chunk maxdata buf len; left = len - n
            in case QueueOneITD e buf n (ucast frame) s of
                 None \<Rightarrow> None
               | Some (st, s') \<Rightarrow> if st \<noteq> HCD_STATUS_OK then Some (st, s')
                   else queue_itds e maxdata ((frame + 1) mod 0x10000) (buf + n) left s')
      else Some (HCD_STATUS_OK, s))"
  by pat_completeness auto

termination queue_itds
proof (relation "measure (\<lambda>(e, maxdata, frame, buf, len, s). unat len)", simp)
  fix e :: nat and buf len n left maxdata frame :: u32 and s s' :: ohci
  assume a: "0 < len" "maxdata \<noteq> 0" "n = itd_chunk maxdata buf len" "left = len - n"
  have "0 < n \<and> n \<le> len"
    using gtd_chunk_le(1)[of buf len] gtd_chunk_le(2)[of len buf] a
    by (auto simp: itd_chunk_gtd Let_def word_gt_0 not_less)
  then have "unat (len - n) < unat len"
    using a by (simp add: unat_sub word_less_nat_alt word_le_nat_alt)
  then show "((e, maxdata, (frame + 1) mod 0x10000, buf + n, left, s'), e, maxdata, frame, buf, len, s)
      \<in> measure (\<lambda>(e, maxdata, frame, buf, len, s). unat len)"
    using a by simp
qed

declare queue_itds.simps [simp del]

definition HcdGetFrameNumber :: "ohci \<Rightarrow> u32" where
  "HcdGetFrameNumber s = ucast (HccaFrameNumber s)"

definition QueueITDs :: "nat \<Rightarrow> u32 \<Rightarrow> u32 \<Rightarrow> ohci \<Rightarrow> (HCD_STATUS \<times> ohci) option" where
  "QueueITDs e buf len s =
     queue_itds e (8 * ucast (MaxPackageSize (HcdED s e))) (HcdGetFrameNumber s + 1) buf len s"

text \<open>
  \<^verbatim>\<open>OHCI_REG->HcCommandStatus |= x\<close>: the write has the bits of \<open>x\<close>; what the register read before
  is the argument \<open>cs\<close>.
\<close>

definition HcdDataTransfer_ohci ::
  "u32 \<Rightarrow> u32 \<Rightarrow> u32 \<Rightarrow> u32 \<Rightarrow> u32 \<Rightarrow> ohci \<Rightarrow> (HCD_STATUS \<times> ohci) option" where
  "HcdDataTransfer_ohci hdl buf len pActual cs s =
     (if buf = 0 \<or> len = 0 then Some (HCD_STATUS_PARAMETER_INVALID, s)
      else case PipehandleParse hdl s of (st, _, e) \<Rightarrow>
        if st \<noteq> HCD_STATUS_OK then Some (st, s)
        else if Halted (HcdED s e) then Some (HCD_STATUS_TRANSFER_Stall, s)
        else do {
          let n = (if len \<noteq> HCD_ENDPOINT_MAXPACKET_XFER_LEN then len else ucast (MaxPackageSize (HcdED s e)));
          (st, s) \<leftarrow> (if IsIsoEndpoint e s then QueueITDs e buf n s
                     else do {
                       (st, s) \<leftarrow> QueueGTDs e buf n 0 s;
                       Some (st, if st = HCD_STATUS_OK \<and> ListIndex (HcdED s e) = BULK_LIST_HEAD
                                 then log_io (Wr HcCommandStatus (cs OR 0x4)) s else s)
                     });
          (if st \<noteq> HCD_STATUS_OK then Some (st, s)
           else Some (HCD_STATUS_OK,
             upd_ED e (\<lambda>d. d\<lparr>ed_status := HCD_STATUS_TRANSFER_QUEUED, pActualTransferCount := pActual\<rparr>) s))
        })"

text \<open>
  \<^verbatim>\<open>WaitForTransferComplete\<close> spins on the status word that the interrupt handler writes. What happens
  between two reads (steps of the controller, and the interrupts they raise) is a list of changes of
  the state, one per read.
\<close>

fun WaitForTransferComplete :: "nat \<Rightarrow> (ohci \<Rightarrow> ohci option) list \<Rightarrow> ohci \<Rightarrow> (HCD_STATUS \<times> ohci) option" where
  "WaitForTransferComplete e [] s =
     (if ed_status (HcdED s e) = HCD_STATUS_TRANSFER_QUEUED then None else Some (ed_status (HcdED s e), s))"
| "WaitForTransferComplete e (f # fs) s =
     (if ed_status (HcdED s e) = HCD_STATUS_TRANSFER_QUEUED then Option.bind (f s) (WaitForTransferComplete e fs)
      else Some (ed_status (HcdED s e), s))"

definition queue_control :: "nat \<Rightarrow> u32 \<Rightarrow> USB_Request_Header_t \<Rightarrow> u32 \<Rightarrow> ohci \<Rightarrow> (HCD_STATUS \<times> ohci) option" where
  "queue_control e preq req buf s = do {
     let is_in = (bmRequestType req AND 0x80 \<noteq> 0);
     (st, s) \<leftarrow> QueueOneGTD e preq 8 0 2 False s;
     (if st \<noteq> HCD_STATUS_OK then Some (st, s) else do {
       (st, s) \<leftarrow> (if wLength req \<noteq> 0
                  then QueueOneGTD e buf (ucast (wLength req)) (if is_in then 2 else 1) 3 False s
                  else Some (HCD_STATUS_OK, s));
       (if st \<noteq> HCD_STATUS_OK then Some (st, s)
        else QueueOneGTD e 0 0 (if is_in then 1 else 2) 3 True s)
     })
   }"

definition HcdControlTransfer_ohci ::
  "u32 \<Rightarrow> u32 \<Rightarrow> USB_Request_Header_t \<Rightarrow> u32 \<Rightarrow> u32 \<Rightarrow> (ohci \<Rightarrow> ohci option) list \<Rightarrow> ohci \<Rightarrow> (HCD_STATUS \<times> ohci) option" where
  "HcdControlTransfer_ohci hdl preq req buf cs fs s =
     (if preq = 0 \<or> buf = 0 then Some (HCD_STATUS_PARAMETER_INVALID, s)
      else case PipehandleParse hdl s of (st, _, e) \<Rightarrow>
        if st \<noteq> HCD_STATUS_OK then Some (st, s)
        else do {
          (st, s) \<leftarrow> queue_control e preq req buf s;
          (if st \<noteq> HCD_STATUS_OK then Some (st, s)
           else WaitForTransferComplete e fs
                  (upd_ED e (\<lambda>d. d\<lparr>ed_status := HCD_STATUS_TRANSFER_QUEUED\<rparr>)
                    (log_io (Wr HcCommandStatus (cs OR 0x2)) s)))
        })"

section \<open>The done queue\<close>

partial_function (option) done_reverse :: "td \<Rightarrow> td option \<Rightarrow> ohci \<Rightarrow> (td \<times> ohci) option" where
  "done_reverse t acc s = (let s' = set_next t acc s
     in case td_next s t of None \<Rightarrow> Some (t, s') | Some n \<Rightarrow> done_reverse n (Some t) s')"

definition xfer_count :: "u16 \<Rightarrow> u32 \<Rightarrow> u32 \<Rightarrow> u16" where
  "xfer_count tc cbp bend = (if cbp \<noteq> 0
     then ucast (ucast tc - ((if Align4k (bend XOR cbp) \<noteq> 0 then 0x1000 else 0) + Offset4k bend - Offset4k cbp + 1) :: u32)
     else tc)"

definition store_count :: "nat \<Rightarrow> nat \<Rightarrow> ohci \<Rightarrow> ohci" where
  "store_count e i s =
     (let s = upd_GTD i (\<lambda>g. g\<lparr>TransferCount := xfer_count (TransferCount g) (CurrentBufferPointer g) (BufferEnd g)\<rparr>) s;
          p = pActualTransferCount (HcdED s e)
      in if p \<noteq> 0 then s\<lparr>xfer_counts := (xfer_counts s)(p := TransferCount (HcdGTD s i))\<rparr> else s)"

definition note_status :: "nat \<Rightarrow> td \<Rightarrow> ohci \<Rightarrow> ohci" where
  "note_status e t s =
     (let s = (if td_delay s t \<noteq> TD_NoInterruptOnComplete then upd_ED e (\<lambda>d. d\<lparr>ed_status := td_cc s t\<rparr>) s else s)
      in if td_cc s t \<noteq> HCD_STATUS_OK
         then upd_ED e (\<lambda>d. d\<lparr>ed_status := (if Halted d then HCD_STATUS_TRANSFER_Stall else td_cc s t), Halted := False\<rparr>) s
         else s)"

definition done_td :: "td \<Rightarrow> ohci \<Rightarrow> ohci option" where
  "done_td t s = (case t of
     Itd i \<Rightarrow> (let e = i_EdIdx (HcdITD s i) in free_td e (Some t) (note_status e t s))
   | Gtd i \<Rightarrow> (let e = g_EdIdx (HcdGTD s i) in free_td e (Some t) (note_status e t (store_count e i s))))"

partial_function (option) done_process :: "td option \<Rightarrow> ohci \<Rightarrow> ohci option" where
  "done_process p s = (case p of None \<Rightarrow> Some s
     | Some t \<Rightarrow> (let n = td_next s t in Option.bind (done_td t s) (done_process n)))"

definition ProcessDoneQueue :: "td option \<Rightarrow> ohci \<Rightarrow> ohci option" where
  "ProcessDoneQueue donehead s = (case donehead of None \<Rightarrow> Some s
     | Some t \<Rightarrow> do { (h, s) \<leftarrow> done_reverse t None s; done_process (Some h) s })"

section \<open>Interrupts\<close>

text \<open>The values the interrupt handler reads: the status and enable registers, and the port status at
  each of its reads.\<close>

record irq_reads =
  rd_IntStatus :: u32
  rd_IntEnable :: u32
  rd_csc :: u32
  rd_connect :: u32
  rd_pesc :: u32
  rd_pssc :: u32
  rd_ocic :: u32
  rd_prsc :: u32

definition OHciRhStatusChangeIsr :: "u8 \<Rightarrow> u32 \<Rightarrow> ohci \<Rightarrow> ohci" where
  "OHciRhStatusChangeIsr HostID deviceConnect =
     (if deviceConnect \<noteq> 0 then log_io (HostEnumerate HostID) else log_io (HostDeEnumerate HostID))"

definition ack_port :: "u32 \<Rightarrow> u32 \<Rightarrow> ohci \<Rightarrow> ohci" where
  "ack_port r m s = (if r AND m \<noteq> 0 then log_io (Wr HcRhPortStatus1 m) s else s)"

definition port_change :: "u8 \<Rightarrow> irq_reads \<Rightarrow> ohci \<Rightarrow> ohci" where
  "port_change HostID r s =
     ack_port (rd_prsc r) 0x100000 (ack_port (rd_ocic r) 0x80000 (ack_port (rd_pssc r) 0x40000
       (ack_port (rd_pesc r) 0x20000
         (if rd_csc r AND 0x10000 \<noteq> 0
          then OHciRhStatusChangeIsr HostID (rd_connect r AND 0x1) (log_io (Wr HcRhPortStatus1 0x10000) s)
          else s))))"

definition HcdIrqHandler :: "u8 \<Rightarrow> irq_reads \<Rightarrow> ohci \<Rightarrow> ohci option" where
  "HcdIrqHandler HostID r s =
     (let IntStatus = rd_IntStatus r AND rd_IntEnable r
      in if IntStatus = 0 then Some s
         else do {
           let s = log_io (Wr HcInterruptDisable 0x80000000) s;
           let s = (if IntStatus AND 0x40 \<noteq> 0 then port_change HostID r s else s);
           s \<leftarrow> (if IntStatus AND 0x2 \<noteq> 0 then ProcessDoneQueue (HccaDoneHead s) s else Some s);
           let s = log_io (Wr HcInterruptStatus IntStatus) s;
           Some (log_io (Wr HcInterruptEnable 0x80000000) s)
         })"

section \<open>Start-up and the root hub port\<close>

fun poll_until :: "(u32 \<Rightarrow> bool) \<Rightarrow> u32 list \<Rightarrow> unit option" where
  "poll_until P [] = None"
| "poll_until P (r # rs) = (if P r then Some () else poll_until P rs)"

definition OHciHostReset :: "u32 list \<Rightarrow> ohci \<Rightarrow> ohci option" where
  "OHciHostReset rs s = do {
     let s = log_io (Wr HcCommandStatus 0x1) s;
     _ \<leftarrow> poll_until (\<lambda>r. r AND 0x1 = 0) rs;
     Some s
   }"

definition set_HCFS :: "u32 \<Rightarrow> ohci \<Rightarrow> ohci" where
  "set_HCFS st s = s\<lparr>HcControl := (HcControl s AND NOT 0xC0) OR push_bit 6 st\<rparr>"

definition OHciHostOperational :: "ohci \<Rightarrow> ohci" where
  "OHciHostOperational = set_HCFS 2"

definition OHciHostSuspend :: "ohci \<Rightarrow> ohci" where
  "OHciHostSuspend = set_HCFS 3"

definition BuildPeriodicStaticEdTree :: "ohci \<Rightarrow> ohci" where
  "BuildPeriodicStaticEdTree s = s\<lparr>HccaIntTable := replicate 32 (Some (Static INTERRUPT_1ms_LIST_HEAD))\<rparr>"

definition zero_host_data :: "ohci \<Rightarrow> ohci" where
  "zero_host_data s = s\<lparr>HccaIntTable := replicate 32 None, HccaFrameNumber := 0, HccaDoneHead := None,
     iTDs := replicate MAX_ITD blank_itd, gTDs := replicate MAX_GTD blank_gtd, EDs := replicate MAX_ED blank_ed,
     staticEDs := replicate MAX_STATIC_ED blank_hced\<rparr>"

text \<open>The size test at the start of \<^verbatim>\<open>OHciHostInit\<close> compares constants (1168 bytes with 16384) and never
  fails; \<open>is\<close> is what \<^verbatim>\<open>HcInterruptStatus\<close> reads when its bits are cleared. Only core 0 has data.\<close>

definition OHciHostInit :: "u8 \<Rightarrow> u32 \<Rightarrow> ohci \<Rightarrow> (HCD_STATUS \<times> ohci) option" where
  "OHciHostInit HostID is s = (if HostID \<ge> MAX_USB_CORE then None else do {
     let s = zero_host_data s;
     let s = s\<lparr>staticEDs := map (\<lambda>d. d\<lparr>Skip := True\<rparr>) (staticEDs s)\<rparr>;
     let s = BuildPeriodicStaticEdTree s;
     let s = OHciHostOperational (s\<lparr>HcControl := 0\<rparr>);
     let s = log_io (Wr HcFmInterval 0x27782EDF) s;
     let s = log_io (Wr HcPeriodicStart 0x2A27) s;
     let s = s\<lparr>HcControlHeadED := Some (Static CONTROL_LIST_HEAD), HcBulkHeadED := Some (Static BULK_LIST_HEAD), HcHCCA := True\<rparr>;
     let s = s\<lparr>HcControl := HcControl s OR (0x3 OR 0x10 OR 0x20 OR (0x4 OR 0x8))\<rparr>;
     let s = log_io (Wr HcRhStatus 0x10000) s;
     let s = log_io (Wr HcInterruptStatus (is OR is)) s;
     let s = log_io (Wr HcInterruptDisable 0xC000007F) s;
     Some (HCD_STATUS_OK, log_io (Wr HcInterruptEnable (0x80000000 OR 0x2 OR 0x40)) s)
   })"

definition HcdInitDriver_ohci :: "u8 \<Rightarrow> u32 list \<Rightarrow> u32 list \<Rightarrow> u32 \<Rightarrow> ohci \<Rightarrow> (HCD_STATUS \<times> ohci) option" where
  "HcdInitDriver_ohci HostID clk cmd is s = do {
     let s = log_io (Wr OTGClkCtrl 0x19) s;
     _ \<leftarrow> poll_until (\<lambda>r. r AND 0x19 = 0x19) clk;
     let s = log_io (Wr OTGStCtrl 0x3) s;
     s \<leftarrow> OHciHostReset cmd s;
     OHciHostInit HostID is s
   }"

definition HcdDeInitDriver_ohci :: "u8 \<Rightarrow> ohci \<Rightarrow> HCD_STATUS \<times> ohci" where
  "HcdDeInitDriver_ohci HostID s = (HCD_STATUS_OK, log_io (Wr OTGStCtrl 0) s)"

definition HcdGetDeviceSpeed_ohci :: "u32 \<Rightarrow> u32 \<Rightarrow> HCD_STATUS \<times> u8 option" where
  "HcdGetDeviceSpeed_ohci r1 r2 =
     (if r1 AND 0x1 \<noteq> 0 then (HCD_STATUS_OK, Some (if r2 AND 0x200 \<noteq> 0 then LOW_SPEED else FULL_SPEED))
      else (HCD_STATUS_DEVICE_DISCONNECTED, None))"

definition HcdRhPortReset_ohci :: "u8 \<Rightarrow> u32 list \<Rightarrow> ohci \<Rightarrow> (HCD_STATUS \<times> ohci) option" where
  "HcdRhPortReset_ohci HostID rs s = do {
     let s = log_io (Wr HcRhPortStatus1 0x10) (log_io (DelayMS 400) s);
     _ \<leftarrow> poll_until (\<lambda>r. r AND 0x10 = 0) rs;
     Some (HCD_STATUS_OK, log_io (DelayMS 400) (log_io (Wr HcRhPortStatus1 0x100000) s))
   }"

definition HcdRhPortEnable :: "u8 \<Rightarrow> ohci \<Rightarrow> HCD_STATUS \<times> ohci" where
  "HcdRhPortEnable HostID s = (HCD_STATUS_OK, log_io (Wr HcRhPortStatus1 0x2) s)"

definition HcdRhPortDisable :: "u8 \<Rightarrow> ohci \<Rightarrow> HCD_STATUS \<times> ohci" where
  "HcdRhPortDisable HostID s = (HCD_STATUS_OK, log_io (Wr HcRhPortStatus1 0x1) s)"

definition OHciRhPortPowerOn :: "u8 \<Rightarrow> u32 \<Rightarrow> ohci \<Rightarrow> HCD_STATUS \<times> ohci" where
  "OHciRhPortPowerOn HostID descA s =
     (HCD_STATUS_OK, log_io (DelayMS (2 * drop_bit 24 (descA AND 0xFF000000))) (log_io (Wr HcRhPortStatus1 0x100) s))"

definition OHciRhPortPowerOff :: "u8 \<Rightarrow> ohci \<Rightarrow> HCD_STATUS \<times> ohci" where
  "OHciRhPortPowerOff HostID s = (HCD_STATUS_OK, log_io (Wr HcRhPortStatus1 0x200) s)"

definition OHciRhPortSuspend :: "u8 \<Rightarrow> u32 \<Rightarrow> ohci \<Rightarrow> HCD_STATUS \<times> ohci" where
  "OHciRhPortSuspend HostID r s =
     (HCD_STATUS_OK, log_io (DelayMS 3) (if r AND 0x1 \<noteq> 0 then log_io (Wr HcRhPortStatus1 0x4) s else s))"

definition OHciRhPortResume :: "u8 \<Rightarrow> u32 \<Rightarrow> ohci \<Rightarrow> HCD_STATUS \<times> ohci" where
  "OHciRhPortResume HostID r s =
     (HCD_STATUS_OK, log_io (DelayMS 20) (if r AND 0x1 \<noteq> 0 then log_io (Wr HcRhPortStatus1 0x8) s else s))"

end
