(* ===== verification/OhciQueues.thy ===== *)
theory OhciQueues
  imports OhciDriver
begin

unbundle bit_operations_syntax

text \<open>
  The lists of the OHCI driver: which transfer descriptor belongs to whom. Every descriptor in use is
  either in the queue of exactly one open endpoint (from its head pointer to the placeholder at its
  tail) or on the done queue of the controller, and every open endpoint is on the list of its type
  (\<open>td_rel\<close>, \<open>ed_rel\<close>, with the queues as lists). All operations of the driver keep this, and so do
  the steps of the controller, which are stated here as the contract \<open>hc_retire\<close> (it takes the
  descriptor at the head of a queue and puts it on its done list) and \<open>hc_irq\<close> (it writes the done
  list back and raises the interrupt).
\<close>

section \<open>Paths through pointers\<close>

fun path :: "('a \<Rightarrow> 'a option) \<Rightarrow> 'a option \<Rightarrow> 'a list \<Rightarrow> 'a option \<Rightarrow> bool" where
  "path nx p [] q \<longleftrightarrow> p = q"
| "path nx p (x # xs) q \<longleftrightarrow> p = Some x \<and> path nx (nx x) xs q"

lemma path_cong: "(\<And>x. x \<in> set xs \<Longrightarrow> f x = g x) \<Longrightarrow> path f p xs q = path g p xs q"
  by (induction xs arbitrary: p) auto

lemma path_append: "path nx p (xs @ ys) q \<longleftrightarrow> (\<exists>m. path nx p xs m \<and> path nx m ys q)"
  by (induction xs arbitrary: p) auto

lemma path_upd [simp]: "x \<notin> set xs \<Longrightarrow> path (f(x := v)) p xs q = path f p xs q"
  by (induction xs arbitrary: p) auto

lemma path_None [simp]: "path nx None xs q \<longleftrightarrow> xs = [] \<and> q = None"
  by (cases xs) auto

lemma path_neq:
  assumes "path nx p xs q" "p \<noteq> q"
  obtains x ys where "xs = x # ys" "p = Some x" "path nx (nx x) ys q"
  using assms by (cases xs) auto

lemma path_end: "path nx p (xs @ [x]) q \<longleftrightarrow> path nx p xs (Some x) \<and> nx x = q"
  by (auto simp: path_append)

section \<open>Effects of the updates\<close>

definition td_in :: "ohci \<Rightarrow> td \<Rightarrow> bool" where
  "td_in s t = (case t of Gtd i \<Rightarrow> i < length (gTDs s) | Itd i \<Rightarrow> i < length (iTDs s))"

definition td_inUse :: "ohci \<Rightarrow> td \<Rightarrow> bool" where
  "td_inUse s t = (case t of Gtd i \<Rightarrow> g_inUse (HcdGTD s i) | Itd i \<Rightarrow> i_inUse (HcdITD s i))"

definition td_ed :: "ohci \<Rightarrow> td \<Rightarrow> nat" where
  "td_ed s t = (case t of Gtd i \<Rightarrow> g_EdIdx (HcdGTD s i) | Itd i \<Rightarrow> i_EdIdx (HcdITD s i))"

fun is_Itd :: "td \<Rightarrow> bool" where
  "is_Itd (Gtd i) = False"
| "is_Itd (Itd i) = True"

lemmas td_defs = td_in_def td_inUse_def td_ed_def td_next_def td_cc_def td_delay_def

lemma upd_ED_same [simp]:
  "gTDs (upd_ED e f s) = gTDs s" "iTDs (upd_ED e f s) = iTDs s" "staticEDs (upd_ED e f s) = staticEDs s"
  "HcDoneHead (upd_ED e f s) = HcDoneHead s" "HccaDoneHead (upd_ED e f s) = HccaDoneHead s"
  "length (EDs (upd_ED e f s)) = length (EDs s)"
  "HcdGTD (upd_ED e f s) = HcdGTD s" "HcdITD (upd_ED e f s) = HcdITD s"
  "td_in (upd_ED e f s) = td_in s" "td_inUse (upd_ED e f s) = td_inUse s" "td_ed (upd_ED e f s) = td_ed s"
  "td_next (upd_ED e f s) = td_next s" "td_cc (upd_ED e f s) = td_cc s" "td_delay (upd_ED e f s) = td_delay s"
  by (simp_all add: upd_ED_def HcdGTD_def HcdITD_def td_defs fun_eq_iff split: td.split)

lemma upd_out:
  "length (EDs s) \<le> e \<Longrightarrow> upd_ED e f s = s" "length (gTDs s) \<le> i \<Longrightarrow> upd_GTD i g s = s"
  "length (iTDs s) \<le> i \<Longrightarrow> upd_ITD i h s = s"
  by (cases s; simp add: upd_ED_def upd_GTD_def upd_ITD_def list_update_beyond)+

lemma HcdED_upd_ED:
  "e < length (EDs s) \<Longrightarrow> HcdED (upd_ED e f s) = (HcdED s)(e := f (HcdED s e))"
  by (auto simp: upd_ED_def HcdED_def fun_eq_iff)

lemma upd_GTD_same [simp]:
  "EDs (upd_GTD i f s) = EDs s" "iTDs (upd_GTD i f s) = iTDs s" "staticEDs (upd_GTD i f s) = staticEDs s"
  "HcDoneHead (upd_GTD i f s) = HcDoneHead s" "HccaDoneHead (upd_GTD i f s) = HccaDoneHead s"
  "length (gTDs (upd_GTD i f s)) = length (gTDs s)"
  "HcdED (upd_GTD i f s) = HcdED s" "HcdITD (upd_GTD i f s) = HcdITD s" "td_in (upd_GTD i f s) = td_in s"
  by (simp_all add: upd_GTD_def HcdED_def HcdITD_def td_defs fun_eq_iff split: td.split)

lemma upd_ITD_same [simp]:
  "EDs (upd_ITD i f s) = EDs s" "gTDs (upd_ITD i f s) = gTDs s" "staticEDs (upd_ITD i f s) = staticEDs s"
  "HcDoneHead (upd_ITD i f s) = HcDoneHead s" "HccaDoneHead (upd_ITD i f s) = HccaDoneHead s"
  "length (iTDs (upd_ITD i f s)) = length (iTDs s)"
  "HcdED (upd_ITD i f s) = HcdED s" "HcdGTD (upd_ITD i f s) = HcdGTD s" "td_in (upd_ITD i f s) = td_in s"
  by (simp_all add: upd_ITD_def HcdED_def HcdGTD_def td_defs fun_eq_iff split: td.split)

lemma HcdGTD_upd_GTD:
  "i < length (gTDs s) \<Longrightarrow> HcdGTD (upd_GTD i f s) = (HcdGTD s)(i := f (HcdGTD s i))"
  by (auto simp: upd_GTD_def HcdGTD_def fun_eq_iff)

lemma HcdITD_upd_ITD:
  "i < length (iTDs s) \<Longrightarrow> HcdITD (upd_ITD i f s) = (HcdITD s)(i := f (HcdITD s i))"
  by (auto simp: upd_ITD_def HcdITD_def fun_eq_iff)

lemma upd_GTD_td:
  assumes "i < length (gTDs s)"
  shows "td_inUse (upd_GTD i f s) = (td_inUse s)(Gtd i := g_inUse (f (HcdGTD s i)))"
    "td_ed (upd_GTD i f s) = (td_ed s)(Gtd i := g_EdIdx (f (HcdGTD s i)))"
    "td_next (upd_GTD i f s) = (td_next s)(Gtd i := g_NextTD (f (HcdGTD s i)))"
  using assms by (auto simp: td_defs HcdGTD_upd_GTD fun_eq_iff split: td.split)

lemma upd_ITD_td:
  assumes "i < length (iTDs s)"
  shows "td_inUse (upd_ITD i f s) = (td_inUse s)(Itd i := i_inUse (f (HcdITD s i)))"
    "td_ed (upd_ITD i f s) = (td_ed s)(Itd i := i_EdIdx (f (HcdITD s i)))"
    "td_next (upd_ITD i f s) = (td_next s)(Itd i := i_NextTD (f (HcdITD s i)))"
  using assms by (auto simp: td_defs HcdITD_upd_ITD fun_eq_iff split: td.split)

lemma set_next_same [simp]:
  "EDs (set_next t n s) = EDs s" "HcdED (set_next t n s) = HcdED s" "td_in (set_next t n s) = td_in s"
  "staticEDs (set_next t n s) = staticEDs s" "HcDoneHead (set_next t n s) = HcDoneHead s"
  "length (gTDs (set_next t n s)) = length (gTDs s)" "length (iTDs (set_next t n s)) = length (iTDs s)"
  by (simp_all add: set_next_def split: td.split)

lemma set_next_td:
  assumes "td_in s t"
  shows "td_next (set_next t n s) = (td_next s)(t := n)" "td_inUse (set_next t n s) = td_inUse s"
    "td_ed (set_next t n s) = td_ed s" "td_cc (set_next t n s) = td_cc s" "td_delay (set_next t n s) = td_delay s"
  using assms by (auto simp: set_next_def td_defs HcdGTD_upd_GTD HcdITD_upd_ITD fun_eq_iff split: td.split if_splits)

lemma log_io_same [simp]:
  "EDs (log_io x s) = EDs s" "gTDs (log_io x s) = gTDs s" "iTDs (log_io x s) = iTDs s"
  "staticEDs (log_io x s) = staticEDs s" "HcDoneHead (log_io x s) = HcDoneHead s"
  "HccaDoneHead (log_io x s) = HccaDoneHead s"
  "HcdED (log_io x s) = HcdED s" "HcdGTD (log_io x s) = HcdGTD s" "HcdITD (log_io x s) = HcdITD s"
  "td_in (log_io x s) = td_in s" "td_inUse (log_io x s) = td_inUse s" "td_ed (log_io x s) = td_ed s"
  "td_next (log_io x s) = td_next s" "td_cc (log_io x s) = td_cc s" "td_delay (log_io x s) = td_delay s"
  by (simp_all add: log_io_def HcdED_def HcdGTD_def HcdITD_def td_defs fun_eq_iff split: td.split)

section \<open>The ownership of transfer descriptors\<close>

definition ohci_sizes :: "ohci \<Rightarrow> bool" where
  "ohci_sizes s \<longleftrightarrow> length (gTDs s) = MAX_GTD \<and> length (iTDs s) = MAX_ITD \<and> length (EDs s) = MAX_ED \<and>
     length (staticEDs s) = MAX_STATIC_ED"

text \<open>An open endpoint: allocated, with a placeholder at the tail of its queue.\<close>

definition live :: "ohci \<Rightarrow> nat \<Rightarrow> bool" where
  "live s e \<longleftrightarrow> e < MAX_ED \<and> ed_inUse (HcdED s e) \<and> TailP (HcdED s e) \<noteq> None"

definition td_owned :: "ohci \<Rightarrow> (nat \<Rightarrow> td list) \<Rightarrow> nat \<Rightarrow> td list" where
  "td_owned s Q e = Q e @ [the (TailP (HcdED s e))]"

definition td_at :: "ohci \<Rightarrow> nat \<Rightarrow> td \<Rightarrow> bool" where
  "td_at s e t \<longleftrightarrow> td_in s t \<and> td_inUse s t \<and> td_ed s t = e \<and> e < MAX_ED \<and> is_Itd t = Format (HcdED s e)"

definition queue_ok :: "ohci \<Rightarrow> (nat \<Rightarrow> td list) \<Rightarrow> td list \<Rightarrow> nat \<Rightarrow> bool" where
  "queue_ok s Q D e \<longleftrightarrow> path (td_next s) (HeadTD (HcdED s e)) (Q e) (TailP (HcdED s e)) \<and>
     distinct (td_owned s Q e) \<and> (\<forall>t \<in> set (td_owned s Q e). td_at s e t \<and> t \<notin> set D)"

definition done_ok :: "ohci \<Rightarrow> td option \<Rightarrow> td list \<Rightarrow> bool" where
  "done_ok s dh D \<longleftrightarrow> path (td_next s) dh D None \<and> distinct D \<and> (\<forall>t \<in> set D. td_at s (td_ed s t) t)"

definition td_rel :: "ohci \<Rightarrow> (nat \<Rightarrow> td list) \<Rightarrow> td option \<Rightarrow> td list \<Rightarrow> bool" where
  "td_rel s Q dh D \<longleftrightarrow> ohci_sizes s \<and> (\<forall>e. live s e \<longrightarrow> queue_ok s Q D e) \<and> done_ok s dh D \<and>
     (\<forall>t. td_in s t \<longrightarrow> td_inUse s t \<longrightarrow> t \<in> set D \<or> (\<exists>e. live s e \<and> t \<in> set (td_owned s Q e)))"

lemma td_relD:
  assumes "td_rel s Q dh D"
  shows "ohci_sizes s" "live s e \<Longrightarrow> queue_ok s Q D e" "done_ok s dh D" "distinct D"
    "t \<in> set D \<Longrightarrow> td_at s (td_ed s t) t"
    "td_in s t \<Longrightarrow> td_inUse s t \<Longrightarrow> t \<in> set D \<or> (\<exists>e. live s e \<and> t \<in> set (td_owned s Q e))"
    "path (td_next s) dh D None"
  using assms by (auto simp: td_rel_def done_ok_def)

text \<open>Changes that touch neither the links nor the marks of the descriptors keep the relation.\<close>

definition ed_view :: "HCD_EndpointDescriptor \<Rightarrow> bool \<times> td option \<times> td option \<times> bool" where
  "ed_view d = (ed_inUse d, TailP d, HeadTD d, Format d)"

definition same_links :: "ohci \<Rightarrow> ohci \<Rightarrow> bool" where
  "same_links s s' \<longleftrightarrow> (ohci_sizes s \<longrightarrow> ohci_sizes s') \<and> td_in s' = td_in s \<and> td_next s' = td_next s \<and>
     td_inUse s' = td_inUse s \<and> td_ed s' = td_ed s \<and> (\<forall>e < MAX_ED. ed_view (HcdED s' e) = ed_view (HcdED s e))"

lemma td_rel_frame:
  assumes "td_rel s Q dh D" "same_links s s'"
  shows "td_rel s' Q dh D"
proof -
  have v: "ed_view (HcdED s' e) = ed_view (HcdED s e)" if "e < MAX_ED" for e
    using assms(2) that by (simp add: same_links_def)
  have live: "live s' = live s"
    using v by (auto simp: live_def ed_view_def fun_eq_iff)
  have own: "td_owned s' Q e = td_owned s Q e" if "e < MAX_ED" for e
    using v[OF that] by (simp add: td_owned_def ed_view_def)
  have at: "td_at s' e t = td_at s e t" for e t
    using assms(2) v by (auto simp: td_at_def same_links_def ed_view_def)
  have q: "queue_ok s' Q D e = queue_ok s Q D e" if "e < MAX_ED" for e
    using assms(2) v[OF that] own[OF that] at by (simp add: queue_ok_def same_links_def ed_view_def)
  have cover: "(\<exists>e. live s e \<and> t \<in> set (td_owned s' Q e)) = (\<exists>e. live s e \<and> t \<in> set (td_owned s Q e))" for t
    using own by (auto simp: live_def)
  have qs: "(\<forall>e. live s e \<longrightarrow> queue_ok s' Q D e) = (\<forall>e. live s e \<longrightarrow> queue_ok s Q D e)"
    using q by (auto simp: live_def)
  show ?thesis
    using assms(1) same_links_def[THEN iffD1, OF assms(2)]
    unfolding td_rel_def done_ok_def live cover qs at by simp
qed

lemma same_links_trans: "same_links s s' \<Longrightarrow> same_links s' s'' \<Longrightarrow> same_links s s''"
  by (auto simp: same_links_def)

lemma same_links_refl [simp]: "same_links s s"
  by (simp add: same_links_def)

lemma same_links_log [simp]: "same_links s (log_io x s)"
  by (simp add: same_links_def ohci_sizes_def)

lemma same_links_upd_ED:
  assumes "\<And>d. ed_view (f d) = ed_view d"
  shows "same_links s (upd_ED e f s)"
proof (cases "e < length (EDs s)")
  case True
  then show ?thesis using assms by (simp add: same_links_def ohci_sizes_def HcdED_upd_ED)
qed (simp add: upd_out)

lemma same_links_upd_GTD:
  assumes "\<And>g. g_NextTD (f g) = g_NextTD g \<and> g_inUse (f g) = g_inUse g \<and> g_EdIdx (f g) = g_EdIdx g"
  shows "same_links s (upd_GTD i f s)"
proof (cases "i < length (gTDs s)")
  case True
  have "td_next s (Gtd i) = g_NextTD (HcdGTD s i)" "td_inUse s (Gtd i) = g_inUse (HcdGTD s i)"
    "td_ed s (Gtd i) = g_EdIdx (HcdGTD s i)" by (simp_all add: td_defs)
  then show ?thesis using assms True
    by (simp add: same_links_def ohci_sizes_def upd_GTD_td fun_upd_idem_iff)
qed (simp add: upd_out)

lemma same_links_upd_ITD:
  assumes "\<And>g. i_NextTD (f g) = i_NextTD g \<and> i_inUse (f g) = i_inUse g \<and> i_EdIdx (f g) = i_EdIdx g"
  shows "same_links s (upd_ITD i f s)"
proof (cases "i < length (iTDs s)")
  case True
  have "td_next s (Itd i) = i_NextTD (HcdITD s i)" "td_inUse s (Itd i) = i_inUse (HcdITD s i)"
    "td_ed s (Itd i) = i_EdIdx (HcdITD s i)" by (simp_all add: td_defs)
  then show ?thesis using assms True
    by (simp add: same_links_def ohci_sizes_def upd_ITD_td fun_upd_idem_iff)
qed (simp add: upd_out)

section \<open>How the queues change\<close>

lemma queue_okD:
  assumes "td_rel s Q dh D" "live s e"
  shows "path (td_next s) (HeadTD (HcdED s e)) (Q e) (TailP (HcdED s e))" "distinct (Q e)"
    "the (TailP (HcdED s e)) \<notin> set (Q e)"
    "t \<in> set (td_owned s Q e) \<Longrightarrow> td_at s e t" "t \<in> set (td_owned s Q e) \<Longrightarrow> t \<notin> set D"
  using td_relD(2)[OF assms] by (auto simp: queue_ok_def td_owned_def)

text \<open>A descriptor that is not in use is in no queue, and one of another endpoint not in this one.\<close>

lemma td_owned_other:
  assumes "td_rel s Q dh D" "live s e" "\<not> td_inUse s t \<or> td_ed s t \<noteq> e"
  shows "t \<notin> set (td_owned s Q e)"
  using queue_okD(4)[OF assms(1,2), of t] assms(3) by (auto simp: td_at_def)

text \<open>What the queue of an endpoint says does not depend on the other endpoints.\<close>

lemma queue_ok_frame:
  assumes "queue_ok s Q D e" "HcdED s' e = HcdED s e" "Q' e = Q e" "td_in s' = td_in s"
    and "\<And>t. t \<in> set (td_owned s Q e) \<Longrightarrow> td_inUse s' t = td_inUse s t \<and> td_ed s' t = td_ed s t \<and> t \<notin> set D'"
    and "\<And>t. t \<in> set (Q e) \<Longrightarrow> td_next s' t = td_next s t"
  shows "queue_ok s' Q' D' e"
proof -
  have o: "td_owned s' Q' e = td_owned s Q e" using assms(2,3) by (simp add: td_owned_def)
  have "path (td_next s') (HeadTD (HcdED s e)) (Q e) (TailP (HcdED s e))"
    using assms(1) path_cong[of "Q e" "td_next s" "td_next s'"] assms(6) by (simp add: queue_ok_def)
  moreover have "td_at s' e t = td_at s e t" if "t \<in> set (td_owned s Q e)" for t
    using assms(2,4,5) that by (simp add: td_at_def)
  ultimately show ?thesis using assms(1,2,3,5) o by (auto simp: queue_ok_def)
qed

lemma done_frame:
  assumes "done_ok s dh D" "td_in s' = td_in s"
    and same: "\<And>t. t \<in> set D \<Longrightarrow> td_inUse s' t = td_inUse s t \<and> td_ed s' t = td_ed s t \<and> td_next s' t = td_next s t
      \<and> Format (HcdED s' (td_ed s t)) = Format (HcdED s (td_ed s t))"
  shows "done_ok s' dh D"
proof -
  have "path (td_next s') dh D None"
    using assms(1) path_cong[of D "td_next s" "td_next s'"] same by (simp add: done_ok_def)
  moreover have "td_at s' (td_ed s' t) t" if "t \<in> set D" for t
    using assms(1,2) same[OF that] that by (simp add: done_ok_def td_at_def)
  ultimately show ?thesis using assms(1) by (simp add: done_ok_def)
qed

text \<open>A new placeholder: the old one joins the queue.\<close>

lemma td_rel_extend:
  assumes rel: "td_rel s Q dh D" and e: "live s e" and q: "TailP (HcdED s e) = Some q"
    and t: "td_in s t" "\<not> td_inUse s t" "is_Itd t = Format (HcdED s e)"
    and s': "ohci_sizes s'" "td_in s' = td_in s" "td_next s' = (td_next s)(t := None, q := Some t)"
      "td_inUse s' = (td_inUse s)(t := True)" "td_ed s' = (td_ed s)(t := e)"
      "HcdED s' = (HcdED s)(e := (HcdED s e)\<lparr>TailP := Some t\<rparr>)"
  shows "td_rel s' (Q(e := Q e @ [q])) dh D"
proof -
  let ?Q = "Q(e := Q e @ [q])"
  note qk = queue_okD[OF rel e]
  have own: "td_owned s Q e = Q e @ [q]" and own': "td_owned s' ?Q e = Q e @ [q, t]"
    using q s'(6) by (simp_all add: td_owned_def)
  have live: "live s' = live s" using s'(6) e by (auto simp: live_def fun_eq_iff)
  have qt: "td_at s e q" "q \<notin> set D" "q \<notin> set (Q e)" using qk(4,5)[of q] qk(3) own q by auto
  have tn: "t \<notin> set (td_owned s Q e')" if "live s e'" for e' using td_owned_other[OF rel that] t(2) by blast
  have tD: "t \<notin> set D" using td_relD(5)[OF rel, of t] t(2) by (auto simp: td_at_def)
  have "queue_ok s' ?Q D e'" if l: "live s e'" for e'
  proof (cases "e' = e")
    case True
    have n: "td_next s' x = td_next s x" if "x \<in> set (Q e)" for x
      using that tn[OF e] own qt(3) s'(3) by auto
    have "path (td_next s') (HeadTD (HcdED s e)) (Q e) (Some q)"
      using qk(1) q path_cong[of "Q e" "td_next s" "td_next s'"] n by simp
    then have "path (td_next s') (HeadTD (HcdED s e)) (Q e @ [q]) (Some t)"
      using s'(3) by (simp add: path_end)
    moreover have "td_at s' e x \<and> x \<notin> set D" if "x \<in> set (Q e @ [q, t])" for x
      using that qk(4,5)[of x] own t s'(2,4,5,6) e tD by (auto simp: td_at_def live_def)
    moreover have "distinct (Q e @ [q, t])"
      using qk(2) qt(3) tn[OF e] own by auto
    ultimately show ?thesis
      using True s'(6) own' by (simp add: queue_ok_def)
  next
    case False
    have "x \<noteq> q \<and> x \<noteq> t" if "x \<in> set (td_owned s Q e')" for x
      using queue_okD(4)[OF rel l that] qt(1) False tn[OF l] that by (auto simp: td_at_def)
    then show ?thesis
      using False l s' queue_okD(5)[OF rel l]
      by (intro queue_ok_frame[OF td_relD(2)[OF rel l]]) (auto simp: td_owned_def)
  qed
  moreover have "x \<in> set D \<or> (\<exists>e. live s e \<and> x \<in> set (td_owned s' ?Q e))" if "td_in s x" "td_inUse s' x" for x
  proof (cases "x = t")
    case True
    then show ?thesis using own' e by auto
  next
    case False
    then have "x \<in> set D \<or> (\<exists>e. live s e \<and> x \<in> set (td_owned s Q e))"
      using td_relD(6)[OF rel] that s'(4) by auto
    moreover have "x \<in> set (td_owned s' ?Q e')" if "x \<in> set (td_owned s Q e')" for e'
      using that own own' s'(6) by (cases "e' = e") (auto simp: td_owned_def)
    ultimately show ?thesis by blast
  qed
  moreover have "done_ok s' dh D"
    by (rule done_frame[OF td_relD(3)[OF rel] s'(2)]) (use tD qt(2) s'(3-6) in auto)
  ultimately show ?thesis using s'(1,2) live by (auto simp: td_rel_def)
qed

text \<open>The first placeholder of an endpoint that is being opened; nothing of it may be on the done
  queue.\<close>

lemma td_rel_first:
  assumes rel: "td_rel s Q dh D" and e: "e < MAX_ED" "\<not> live s e" and D: "\<And>d. d \<in> set D \<Longrightarrow> td_ed s d \<noteq> e"
    and t: "td_in s t" "\<not> td_inUse s t"
    and s': "ohci_sizes s'" "td_in s' = td_in s" "td_next s' = (td_next s)(t := None)"
      "td_inUse s' = (td_inUse s)(t := True)" "td_ed s' = (td_ed s)(t := e)"
      "\<And>e'. e' \<noteq> e \<Longrightarrow> HcdED s' e' = HcdED s e'" "ed_view (HcdED s' e) = (True, Some t, Some t, is_Itd t)"
  shows "td_rel s' (Q(e := [])) dh D"
proof -
  let ?Q = "Q(e := [])"
  have own': "td_owned s' ?Q e = [t]" using s'(7) by (simp add: td_owned_def ed_view_def)
  have live: "live s' e' \<longleftrightarrow> e' = e \<or> live s e'" for e'
    using s'(6)[of e'] s'(7) e by (cases "e' = e") (auto simp: live_def ed_view_def)
  have tn: "t \<notin> set (td_owned s Q e')" if "live s e'" for e' using td_owned_other[OF rel that] t(2) by blast
  have tD: "t \<notin> set D" using td_relD(5)[OF rel, of t] t(2) by (auto simp: td_at_def)
  have own: "td_owned s' ?Q e' = td_owned s Q e'" if "live s e'" for e'
    using that e(2) s'(6)[of e'] by (cases "e' = e") (auto simp: td_owned_def)
  have "queue_ok s' ?Q D e'" if l: "live s' e'" for e'
  proof (cases "e' = e")
    case True
    then show ?thesis
      using own' s' t e tD by (simp add: queue_ok_def td_at_def ed_view_def)
  next
    case False
    then have l': "live s e'" using l live by simp
    have "x \<noteq> t" if "x \<in> set (td_owned s Q e')" for x using tn[OF l'] that by auto
    then show ?thesis
      using False s' queue_okD(5)[OF rel l']
      by (intro queue_ok_frame[OF td_relD(2)[OF rel l']]) (auto simp: td_owned_def)
  qed
  moreover have "x \<in> set D \<or> (\<exists>e. live s' e \<and> x \<in> set (td_owned s' ?Q e))" if "td_in s x" "td_inUse s' x" for x
  proof (cases "x = t")
    case True
    then show ?thesis using own' live by auto
  next
    case False
    then show ?thesis using td_relD(6)[OF rel, of x] that s'(4) own live by auto
  qed
  moreover have "done_ok s' dh D"
    by (rule done_frame[OF td_relD(3)[OF rel] s'(2)]) (use tD D s' in auto)
  ultimately show ?thesis using s'(1,2) by (auto simp: td_rel_def)
qed

text \<open>The head of a queue leaves it: freed by a cancellation, or retired by the controller.\<close>

lemma td_rel_pop:
  assumes rel: "td_rel s Q dh D" and e: "live s e" and q: "Q e = h # ts"
    and s': "ohci_sizes s'" "td_in s' = td_in s" "td_ed s' = td_ed s"
      "\<And>x. x \<noteq> h \<Longrightarrow> td_next s' x = td_next s x" "\<And>x. x \<noteq> h \<Longrightarrow> td_inUse s' x = td_inUse s x"
      "\<And>e'. e' \<noteq> e \<Longrightarrow> HcdED s' e' = HcdED s e'"
      "ed_view (HcdED s' e) = (True, TailP (HcdED s e), td_next s h, Format (HcdED s e))"
    and D': "done_ok s' dh' D'" "set D' - {h} = set D" "h \<in> set D' \<or> \<not> td_inUse s' h"
  shows "td_rel s' (Q(e := ts)) dh' D'"
proof -
  let ?Q = "Q(e := ts)"
  note qk = queue_okD[OF rel e]
  have own: "td_owned s Q e = h # td_owned s' ?Q e" using q s'(7) by (simp add: td_owned_def ed_view_def)
  have live: "live s' e' = live s e'" for e'
    using s'(6)[of e'] s'(7) e by (cases "e' = e") (auto simp: live_def ed_view_def)
  have dis: "distinct (h # td_owned s' ?Q e)"
    using td_relD(2)[OF rel e] own by (simp add: queue_ok_def)
  have h: "td_at s e h" "h \<notin> set D" using qk(4,5)[of h] own by auto
  have "queue_ok s' ?Q D' e'" if l: "live s e'" for e'
  proof (cases "e' = e")
    case True
    have "path (td_next s) (td_next s h) ts (TailP (HcdED s e))" using qk(1) q by simp
    moreover have "td_next s x = td_next s' x" if "x \<in> set ts" for x
      using that dis s'(4)[of x] by (cases "x = h") (auto simp: td_owned_def)
    ultimately have "path (td_next s') (td_next s h) ts (TailP (HcdED s e))"
      using path_cong[of ts "td_next s" "td_next s'"] by simp
    moreover have "td_at s' e x \<and> x \<notin> set D'" if x: "x \<in> set (td_owned s' ?Q e)" for x
    proof -
      have "x \<noteq> h" using x dis by auto
      then show ?thesis using x qk(4,5)[of x] own s'(2,3,5,7) D'(2) by (auto simp: td_at_def ed_view_def)
    qed
    ultimately show ?thesis using True s'(7) dis by (simp add: queue_ok_def ed_view_def)
  next
    case False
    have "x \<noteq> h \<and> x \<notin> set D'" if "x \<in> set (td_owned s Q e')" for x
      using queue_okD(4,5)[OF rel l that] h(1) False D'(2) by (auto simp: td_at_def)
    then show ?thesis
      using False s'
      by (intro queue_ok_frame[OF td_relD(2)[OF rel l]]) (auto simp: td_owned_def)
  qed
  moreover have "x \<in> set D' \<or> (\<exists>e. live s e \<and> x \<in> set (td_owned s' ?Q e))" if "td_in s x" "td_inUse s' x" for x
  proof (cases "x = h")
    case False
    then have "x \<in> set D \<or> (\<exists>e. live s e \<and> x \<in> set (td_owned s Q e))"
      using td_relD(6)[OF rel] that s'(5) by auto
    moreover have "x \<in> set (td_owned s' ?Q e')" if "x \<in> set (td_owned s Q e')" for e'
      using that own False s'(6) by (cases "e' = e") (auto simp: td_owned_def)
    ultimately show ?thesis using D'(2) by blast
  qed (use D'(3) that in auto)
  ultimately show ?thesis using s'(1,2) D'(1) live by (auto simp: td_rel_def)
qed

text \<open>An endpoint with an empty queue is closed: its placeholder is freed.\<close>

lemma td_rel_close:
  assumes rel: "td_rel s Q dh D" and e: "live s e" and q: "Q e = []" "TailP (HcdED s e) = Some h"
    and s': "ohci_sizes s'" "td_in s' = td_in s" "td_ed s' = td_ed s" "td_next s' = td_next s"
      "td_inUse s' = (td_inUse s)(h := False)" "\<And>e'. e' \<noteq> e \<Longrightarrow> HcdED s' e' = HcdED s e'"
      "\<not> ed_inUse (HcdED s' e)" "Format (HcdED s' e) = Format (HcdED s e)"
  shows "td_rel s' Q dh D"
proof -
  have own: "td_owned s Q e = [h]" using q by (simp add: td_owned_def)
  have live: "live s' e' \<longleftrightarrow> live s e' \<and> e' \<noteq> e" for e'
    using s'(6)[of e'] s'(7) by (cases "e' = e") (auto simp: live_def)
  have h: "td_at s e h" "h \<notin> set D" using queue_okD(4,5)[OF rel e, of h] own by auto
  have "queue_ok s' Q D e'" if l: "live s e'" "e' \<noteq> e" for e'
  proof -
    have "x \<noteq> h" if "x \<in> set (td_owned s Q e')" for x
      using queue_okD(4)[OF rel l(1) that] h(1) l(2) by (auto simp: td_at_def)
    then show ?thesis
      using l(2) s' queue_okD(5)[OF rel l(1)]
      by (intro queue_ok_frame[OF td_relD(2)[OF rel l(1)]]) (auto simp: td_owned_def)
  qed
  moreover have "x \<in> set D \<or> (\<exists>e'. live s' e' \<and> x \<in> set (td_owned s' Q e'))" if "td_in s x" "td_inUse s' x" for x
  proof -
    have "td_owned s' Q e' = td_owned s Q e'" if "e' \<noteq> e" for e' using s'(6)[OF that] by (simp add: td_owned_def)
    moreover have "x \<noteq> h" "td_inUse s x" using that(2) s'(5) by (auto split: if_splits)
    ultimately show ?thesis using td_relD(6)[OF rel that(1)] own live by (metis list.set(1,2) singletonD)
  qed
  moreover have "done_ok s' dh D"
  proof (rule done_frame[OF td_relD(3)[OF rel] s'(2)])
    fix t assume "t \<in> set D"
    then show "td_inUse s' t = td_inUse s t \<and> td_ed s' t = td_ed s t \<and> td_next s' t = td_next s t \<and>
        Format (HcdED s' (td_ed s t)) = Format (HcdED s (td_ed s t))"
      using h(2) s' by (cases "td_ed s t = e") auto
  qed
  ultimately show ?thesis using s'(1,2) live by (auto simp: td_rel_def)
qed

text \<open>A descriptor of the done queue is freed.\<close>

lemma td_rel_done:
  assumes rel: "td_rel s Q (Some h) (h # D)"
    and s': "ohci_sizes s'" "td_in s' = td_in s" "td_ed s' = td_ed s" "td_next s' = td_next s"
      "td_inUse s' = (td_inUse s)(h := False)" "\<And>e'. e' < MAX_ED \<Longrightarrow> ed_view (HcdED s' e') = ed_view (HcdED s e')"
  shows "td_rel s' Q (td_next s h) D"
proof -
  have v: "ed_inUse (HcdED s' e') = ed_inUse (HcdED s e') \<and> TailP (HcdED s' e') = TailP (HcdED s e') \<and>
    HeadTD (HcdED s' e') = HeadTD (HcdED s e') \<and> Format (HcdED s' e') = Format (HcdED s e')" if "e' < MAX_ED" for e'
    using s'(6)[OF that] by (simp add: ed_view_def)
  have live: "live s' = live s" using v by (auto simp: live_def fun_eq_iff)
  have own: "td_owned s' Q e = td_owned s Q e" if "live s e" for e
    using v that by (simp add: td_owned_def live_def)
  have at: "td_at s' e t = td_at s e t" if "t \<noteq> h" for e t
    using that s' v by (auto simp: td_at_def)
  have "queue_ok s' Q D e" if l: "live s e" for e
    using td_relD(2)[OF rel l] own[OF l] v[of e] at s'(4) l
    by (auto simp: queue_ok_def live_def)
  moreover have "done_ok s' (td_next s h) D"
  proof -
    have "td_at s' (td_ed s t) t" if "t \<in> set D" for t
      using that td_relD(3)[OF rel] at[of t] by (auto simp: done_ok_def)
    then show ?thesis using td_relD(3)[OF rel] s'(3,4) by (auto simp: done_ok_def)
  qed
  moreover have "x \<in> set D \<or> (\<exists>e. live s e \<and> x \<in> set (td_owned s' Q e))" if "td_in s x" "td_inUse s' x" for x
    using td_relD(6)[OF rel, of x] that own s'(5) by (auto split: if_splits)
  ultimately show ?thesis using s'(1,2) live by (auto simp: td_rel_def)
qed

end
