(* ===== verification/OhciOps.thy ===== *)
theory OhciOps
  imports OhciQueues
begin

unbundle bit_operations_syntax

text \<open>
  The operations of the OHCI driver on the lists of \<^verbatim>\<open>OhciQueues\<close>: each one as a change of the
  queues, with what it leaves alone, and that it returns.
\<close>

section \<open>Allocation of a placeholder\<close>

text \<open>What a general TD tells the controller, and the number of free ones.\<close>

type_synonym xfer = "u32 \<times> u32 \<times> u16 \<times> u8 \<times> u8 \<times> u8"

definition gtd_xfer :: "HCD_GeneralTransferDescriptor \<Rightarrow> xfer" where
  "gtd_xfer g = (CurrentBufferPointer g, BufferEnd g, TransferCount g, DirectionPID g, DataToggle g, g_DelayInterrupt g)"

definition td_xfer :: "ohci \<Rightarrow> td \<Rightarrow> xfer option" where
  "td_xfer s t = (case t of Gtd i \<Rightarrow> Some (gtd_xfer (HcdGTD s i)) | Itd i \<Rightarrow> None)"

definition free_gtds :: "ohci \<Rightarrow> nat" where
  "free_gtds s = length (filter (\<lambda>g. \<not> g_inUse g) (gTDs s))"

lemma td_xfer_same [simp]:
  "td_xfer (upd_ED e f s) = td_xfer s" "td_xfer (log_io x s) = td_xfer s" "td_xfer (upd_ITD i g s) = td_xfer s"
  "free_gtds (upd_ED e f s) = free_gtds s" "free_gtds (log_io x s) = free_gtds s" "free_gtds (upd_ITD i g s) = free_gtds s"
  by (simp_all add: td_xfer_def fun_eq_iff free_gtds_def split: td.split)

lemma td_xfer_upd_GTD:
  "i < length (gTDs s) \<Longrightarrow> td_xfer (upd_GTD i f s) = (td_xfer s)(Gtd i := Some (gtd_xfer (f (HcdGTD s i))))"
  by (auto simp: td_xfer_def fun_eq_iff HcdGTD_upd_GTD split: td.split)

lemma filter_update_flag:
  assumes "i < length xs" "P (xs ! i)" "\<not> P y"
  shows "length (filter P (xs[i := y])) + 1 = length (filter P xs)"
proof -
  have x: "xs = take i xs @ xs ! i # drop (Suc i) xs" using assms(1) by (simp add: id_take_nth_drop)
  then have "length (filter P xs) = length (filter P (take i xs @ xs ! i # drop (Suc i) xs))" by metis
  then show ?thesis using assms by (simp add: upd_conv_take_nth_drop)
qed

lemma filter_update_same:
  "i < length xs \<Longrightarrow> P y = P (xs ! i) \<Longrightarrow> length (filter P (xs[i := y])) = length (filter P xs)"
proof -
  assume a: "i < length xs" "P y = P (xs ! i)"
  have "xs = take i xs @ xs ! i # drop (Suc i) xs" using a(1) by (simp add: id_take_nth_drop)
  then have "length (filter P xs) = length (filter P (take i xs @ xs ! i # drop (Suc i) xs))" by metis
  then show ?thesis using a by (simp add: upd_conv_take_nth_drop)
qed

lemma free_gtds_upd:
  assumes "i < length (gTDs s)"
  shows "g_inUse (f (HcdGTD s i)) = g_inUse (HcdGTD s i) \<Longrightarrow> free_gtds (upd_GTD i f s) = free_gtds s"
    "g_inUse (f (HcdGTD s i)) \<Longrightarrow> \<not> g_inUse (HcdGTD s i) \<Longrightarrow> free_gtds (upd_GTD i f s) + 1 = free_gtds s"
    "\<not> g_inUse (f (HcdGTD s i)) \<Longrightarrow> g_inUse (HcdGTD s i) \<Longrightarrow> free_gtds (upd_GTD i f s) = free_gtds s + 1"
proof -
  show "g_inUse (f (HcdGTD s i)) = g_inUse (HcdGTD s i) \<Longrightarrow> free_gtds (upd_GTD i f s) = free_gtds s"
    using filter_update_same[OF assms, of "\<lambda>g. \<not> g_inUse g"] by (simp add: free_gtds_def upd_GTD_def HcdGTD_def)
  show "g_inUse (f (HcdGTD s i)) \<Longrightarrow> \<not> g_inUse (HcdGTD s i) \<Longrightarrow> free_gtds (upd_GTD i f s) + 1 = free_gtds s"
    using filter_update_flag[OF assms, of "\<lambda>g. \<not> g_inUse g"] by (simp add: free_gtds_def upd_GTD_def HcdGTD_def)
  show "free_gtds (upd_GTD i f s) = free_gtds s + 1" if "\<not> g_inUse (f (HcdGTD s i))" "g_inUse (HcdGTD s i)"
    using filter_update_flag[of i "gTDs (upd_GTD i f s)" "\<lambda>g. \<not> g_inUse g" "HcdGTD s i"] assms that
    by (simp add: free_gtds_def upd_GTD_def HcdGTD_def)
qed

text \<open>The outcome of an allocation for endpoint \<open>e\<close> with placeholder \<open>q\<close>: \<open>t\<close> is the new one.\<close>

definition extended :: "nat \<Rightarrow> td \<Rightarrow> td \<Rightarrow> ohci \<Rightarrow> ohci \<Rightarrow> bool" where
  "extended e q t s s' \<longleftrightarrow> td_in s t \<and> \<not> td_inUse s t \<and> is_Itd t = is_Itd q \<and> (ohci_sizes s \<longrightarrow> ohci_sizes s') \<and>
     td_in s' = td_in s \<and> td_next s' = (td_next s)(t := None, q := Some t) \<and>
     td_inUse s' = (td_inUse s)(t := True) \<and> td_ed s' = (td_ed s)(t := e) \<and>
     HcdED s' = (HcdED s)(e := (HcdED s e)\<lparr>TailP := Some t\<rparr>) \<and>
     (\<forall>x. x \<noteq> t \<longrightarrow> td_xfer s' x = td_xfer s x \<and> td_cc s' x = td_cc s x \<and> td_delay s' x = td_delay s x) \<and>
     staticEDs s' = staticEDs s \<and> HcDoneHead s' = HcDoneHead s \<and>
     free_gtds s' + (if is_Itd q then 0 else 1) = free_gtds s \<and>
     td_xfer s' t = (if is_Itd t then None else Some (0, 0, 0, 0, 0, 0)) \<and> td_cc s' t = HCD_STATUS_TRANSFER_NotAccessed \<and> td_delay s' t = 0"

lemma AllocGtdForEd_full:
  assumes "free_gtds s = 0"
  shows "AllocGtdForEd e s = Some (HCD_STATUS_NOT_ENOUGH_GTD, s)"
proof -
  have "find_idx (\<lambda>g. \<not> g_inUse g) (gTDs s) = None"
    using assms by (simp add: free_gtds_def filter_empty_conv find_idx_None_iff)
  then show ?thesis by (simp add: AllocGtdForEd_def)
qed

lemma AllocGtdForEd_extend:
  assumes "ohci_sizes s" "e < MAX_ED" "TailP (HcdED s e) = Some (Gtd j)" "j < MAX_GTD" "td_inUse s (Gtd j)"
  shows "free_gtds s = 0 \<Longrightarrow> AllocGtdForEd e s = Some (HCD_STATUS_NOT_ENOUGH_GTD, s)"
    "0 < free_gtds s \<Longrightarrow> \<exists>i s'. AllocGtdForEd e s = Some (HCD_STATUS_OK, s') \<and> extended e (Gtd j) (Gtd i) s s'"
proof -
  show "free_gtds s = 0 \<Longrightarrow> AllocGtdForEd e s = Some (HCD_STATUS_NOT_ENOUGH_GTD, s)"
    by (rule AllocGtdForEd_full)
  assume "0 < free_gtds s"
  then obtain i where i: "find_idx (\<lambda>g. \<not> g_inUse g) (gTDs s) = Some i"
    by (cases "find_idx (\<lambda>g. \<not> g_inUse g) (gTDs s)") (auto simp: free_gtds_def find_idx_None_iff)
  note i' = find_idx_SomeD[OF i]
  have ij: "i \<noteq> j" using i'(2) assms(5) by (auto simp: td_inUse_def HcdGTD_def)
  have u: "\<not> td_inUse s (Gtd i)" "td_in s (Gtd i)" using i' by (auto simp: td_inUse_def HcdGTD_def td_in_def)
  let ?n = "blank_gtd\<lparr>g_inUse := True, g_EdIdx := e, BufferRounding := True, g_ConditionCode := HCD_STATUS_TRANSFER_NotAccessed\<rparr>"
  let ?s = "upd_ED e (\<lambda>d. d\<lparr>TailP := Some (Gtd i)\<rparr>) (upd_GTD j (\<lambda>g. g\<lparr>g_NextTD := Some (Gtd i)\<rparr>) (upd_GTD i (\<lambda>_. ?n) s))"
  have j: "j < length (gTDs s)" using assms(1,4) by (simp add: ohci_sizes_def)
  have f: "free_gtds ?s + 1 = free_gtds s"
    using free_gtds_upd[of i s "\<lambda>_. ?n"] free_gtds_upd(1)[of j "upd_GTD i (\<lambda>_. ?n) s" "\<lambda>g. g\<lparr>g_NextTD := Some (Gtd i)\<rparr>"]
      i'(1) j u by (simp add: td_inUse_def)
  have "AllocGtdForEd e s = Some (HCD_STATUS_OK, ?s)"
    using assms(3) by (simp add: AllocGtdForEd_def i)
  moreover have "extended e (Gtd j) (Gtd i) s ?s"
    using assms i' ij u j f
    by (simp add: extended_def ohci_sizes_def upd_GTD_td HcdED_upd_ED td_xfer_upd_GTD HcdGTD_upd_GTD blank_gtd_def
      gtd_xfer_def td_cc_def td_delay_def split: td.split) (auto simp: fun_eq_iff td_defs HcdGTD_upd_GTD td_xfer_def gtd_xfer_def)
  ultimately show "\<exists>i s'. AllocGtdForEd e s = Some (HCD_STATUS_OK, s') \<and> extended e (Gtd j) (Gtd i) s s'" by blast
qed

lemma blank_itd_simps [simp]: "i_NextTD blank_itd = None" "i_DelayInterrupt blank_itd = 0"
  by (simp_all add: blank_itd_def)

lemma AllocItdForEd_extend:
  assumes "ohci_sizes s" "e < MAX_ED" "TailP (HcdED s e) = Some (Itd j)" "j < MAX_ITD" "td_inUse s (Itd j)"
  shows "AllocItdForEd e s = Some (HCD_STATUS_NOT_ENOUGH_ITD, s) \<or>
    (\<exists>i s'. AllocItdForEd e s = Some (HCD_STATUS_OK, s') \<and> extended e (Itd j) (Itd i) s s')"
proof (cases "find_idx (\<lambda>g. \<not> i_inUse g) (iTDs s)")
  case None
  then show ?thesis by (simp add: AllocItdForEd_def)
next
  case (Some i)
  note i' = find_idx_SomeD[OF Some]
  have ij: "i \<noteq> j" using i'(2) assms(5) by (auto simp: td_inUse_def HcdITD_def)
  have u: "\<not> td_inUse s (Itd i)" "td_in s (Itd i)" using i' by (auto simp: td_inUse_def HcdITD_def td_in_def)
  let ?n = "blank_itd\<lparr>i_inUse := True, i_EdIdx := e, i_ConditionCode := HCD_STATUS_TRANSFER_NotAccessed\<rparr>"
  let ?s = "upd_ED e (\<lambda>d. d\<lparr>TailP := Some (Itd i)\<rparr>) (upd_ITD j (\<lambda>g. g\<lparr>i_NextTD := Some (Itd i)\<rparr>) (upd_ITD i (\<lambda>_. ?n) s))"
  have j: "j < length (iTDs s)" using assms(1,4) by (simp add: ohci_sizes_def)
  have "AllocItdForEd e s = Some (HCD_STATUS_OK, ?s)"
    using assms(3) by (simp add: AllocItdForEd_def Some)
  moreover have "i_inUse (HcdITD s j) = td_inUse s (Itd j)" "i_EdIdx (HcdITD s j) = td_ed s (Itd j)"
    by (simp_all add: td_defs)
  then have "extended e (Itd j) (Itd i) s ?s"
    using assms i' ij u j
    by (simp add: extended_def ohci_sizes_def upd_ITD_td HcdED_upd_ED HcdITD_upd_ITD td_cc_def td_delay_def
      td_xfer_def fun_upd_idem_iff split: td.split)
  ultimately show ?thesis by blast
qed

lemma extended_td_rel:
  assumes "td_rel s Q dh D" "live s e" "TailP (HcdED s e) = Some q" "is_Itd q = Format (HcdED s e)" "extended e q t s s'"
  shows "td_rel s' (Q(e := Q e @ [q])) dh D"
  using assms(5) td_relD(1)[OF assms(1)] assms(4)
  by (intro td_rel_extend[OF assms(1-3), of t]) (auto simp: extended_def)

lemma placeholder_at:
  assumes "td_rel s Q dh D" "live s e"
  obtains q where "TailP (HcdED s e) = Some q" "is_Itd q = Format (HcdED s e)" "td_at s e q" "q \<notin> set (Q e)" "q \<notin> set D"
proof -
  obtain q where q: "TailP (HcdED s e) = Some q" using assms(2) by (auto simp: live_def)
  have "q \<in> set (td_owned s Q e)" using q by (simp add: td_owned_def)
  then have "td_at s e q" "q \<notin> set D" using queue_okD(4,5)[OF assms] by auto
  moreover have "q \<notin> set (Q e)" using queue_okD(3)[OF assms] q by simp
  ultimately show thesis using q that by (auto simp: td_at_def)
qed

section \<open>Queueing\<close>

text \<open>What a queueing operation on endpoint \<open>e\<close> leaves alone: the other endpoints and all of \<open>e\<close> but its
  tail, the lists, the done queue and the contents of the descriptors \<open>X\<close>.\<close>

definition no_tail :: "HCD_EndpointDescriptor \<Rightarrow> HCD_EndpointDescriptor" where
  "no_tail d = d\<lparr>TailP := None\<rparr>"

lemma no_tail_upd [simp]: "no_tail (d\<lparr>TailP := p\<rparr>) = no_tail d"
  by (simp add: no_tail_def)

lemma no_tailD:
  assumes "no_tail d = no_tail d'"
  shows "ed_inUse d = ed_inUse d'" "Format d = Format d'" "HeadTD d = HeadTD d'" "Halted d = Halted d'"
    "ListIndex d = ListIndex d'" "MaxPackageSize d = MaxPackageSize d'" "NextED d = NextED d'" "ed_status d = ed_status d'"
    "Skip d = Skip d'" "pActualTransferCount d = pActualTransferCount d'"
proof -
  have f: "f d = f d'" if "\<And>x. f x = f (no_tail x)" for f :: "HCD_EndpointDescriptor \<Rightarrow> 'a"
    using that[of d] that[of d'] assms by simp
  show "ed_inUse d = ed_inUse d'" "Format d = Format d'" "HeadTD d = HeadTD d'" "Halted d = Halted d'"
    "ListIndex d = ListIndex d'" "MaxPackageSize d = MaxPackageSize d'" "NextED d = NextED d'" "ed_status d = ed_status d'"
    "Skip d = Skip d'" "pActualTransferCount d = pActualTransferCount d'"
    by (rule f, simp add: no_tail_def)+
qed

definition queue_frame :: "nat \<Rightarrow> td set \<Rightarrow> ohci \<Rightarrow> ohci \<Rightarrow> bool" where
  "queue_frame e X s s' \<longleftrightarrow> (\<forall>e'. e' \<noteq> e \<longrightarrow> HcdED s' e' = HcdED s e') \<and>
     no_tail (HcdED s' e) = no_tail (HcdED s e) \<and> (TailP (HcdED s' e) = None \<longleftrightarrow> TailP (HcdED s e) = None) \<and>
     staticEDs s' = staticEDs s \<and> HcDoneHead s' = HcDoneHead s \<and>
     (\<forall>t \<in> X. td_xfer s' t = td_xfer s t \<and> td_cc s' t = td_cc s t \<and> td_delay s' t = td_delay s t)"

lemma queue_frame_refl [simp]: "queue_frame e X s s"
  by (simp add: queue_frame_def)

lemma queue_frame_trans: "queue_frame e X s s' \<Longrightarrow> queue_frame e Y s' s'' \<Longrightarrow> X \<subseteq> Y \<Longrightarrow> queue_frame e X s s''"
  by (simp add: queue_frame_def subset_iff)

lemma queue_frame_no_tail: "queue_frame e X s s' \<Longrightarrow> no_tail (HcdED s' e') = no_tail (HcdED s e')"
  by (cases "e' = e") (auto simp: queue_frame_def)

lemmas queue_frame_ED = queue_frame_no_tail[THEN no_tailD(1)] queue_frame_no_tail[THEN no_tailD(2)]
  queue_frame_no_tail[THEN no_tailD(3)] queue_frame_no_tail[THEN no_tailD(4)]
  queue_frame_no_tail[THEN no_tailD(5)] queue_frame_no_tail[THEN no_tailD(6)]
  queue_frame_no_tail[THEN no_tailD(7)] queue_frame_no_tail[THEN no_tailD(8)]

lemma queue_frame_live: "queue_frame e X s s' \<Longrightarrow> live s' e' = live s e'"
  using queue_frame_ED(1)[of e X s s' e'] by (cases "e' = e") (auto simp: queue_frame_def live_def)

text \<open>The members of all the queues and of the done queue.\<close>

definition queued_tds :: "ohci \<Rightarrow> (nat \<Rightarrow> td list) \<Rightarrow> td list \<Rightarrow> td set" where
  "queued_tds s Q D = set D \<union> (\<Union>e \<in> {e. live s e}. set (Q e))"

lemma queued_tds_not_tail:
  assumes "td_rel s Q dh D" "live s e" "TailP (HcdED s e) = Some q"
  shows "q \<notin> queued_tds s Q D"
proof -
  obtain q' where q': "TailP (HcdED s e) = Some q'" "td_at s e q'" "q' \<notin> set (Q e)" "q' \<notin> set D"
    using placeholder_at[OF assms(1,2)] by metis
  have "q \<notin> set (Q e')" if "live s e'" for e'
  proof
    assume m: "q \<in> set (Q e')"
    then have "td_at s e' q" using queue_okD(4)[OF assms(1) that, of q] by (simp add: td_owned_def)
    then show False using q' assms(3) m by (auto simp: td_at_def)
  qed
  then show ?thesis using q' assms(3) by (auto simp: queued_tds_def)
qed

lemma queued_tds_inUse:
  assumes "td_rel s Q dh D" "t \<in> queued_tds s Q D"
  shows "td_in s t \<and> td_inUse s t"
  using assms td_relD(5)[OF assms(1)] queue_okD(4)[OF assms(1)]
  by (auto simp: queued_tds_def td_at_def td_owned_def)

lemma extended_frame:
  assumes "td_rel s Q dh D" "extended e q t s s'" "TailP (HcdED s e) = Some q"
  shows "queue_frame e (queued_tds s Q D) s s'"
proof -
  have "x \<noteq> t" if "x \<in> queued_tds s Q D" for x
    using queued_tds_inUse[OF assms(1) that] assms(2) by (auto simp: extended_def)
  moreover have "HcdED s' e = (HcdED s e)\<lparr>TailP := Some t\<rparr>" using assms(2) by (simp add: extended_def)
  ultimately show ?thesis
    using assms(2,3) unfolding queue_frame_def extended_def by auto
qed

definition filled :: "u32 \<Rightarrow> u32 \<Rightarrow> u8 \<Rightarrow> u8 \<Rightarrow> bool \<Rightarrow> HCD_GeneralTransferDescriptor \<Rightarrow> HCD_GeneralTransferDescriptor" where
  "filled buf len pid toggle ioc g = g\<lparr>DirectionPID := pid AND 3, DataToggle := toggle AND 3,
     CurrentBufferPointer := buf, BufferEnd := (if len \<noteq> 0 then buf + len - 1 else 0), TransferCount := ucast len,
     g_DelayInterrupt := (if ioc then g_DelayInterrupt g else TD_NoInterruptOnComplete)\<rparr>"

definition xfer_of :: "u32 \<Rightarrow> u32 \<Rightarrow> u8 \<Rightarrow> u8 \<Rightarrow> u8 \<Rightarrow> xfer" where
  "xfer_of buf len pid toggle delay =
     (buf, if len \<noteq> 0 then buf + len - 1 else 0, ucast len, pid AND 3, toggle AND 3, delay)"

lemma QueueOneGTD_eq:
  "TailP (HcdED s e) = Some (Gtd i) \<Longrightarrow>
    QueueOneGTD e buf len pid toggle ioc s = AllocGtdForEd e (upd_GTD i (filled buf len pid toggle ioc) s)"
  by (simp only: QueueOneGTD_def filled_def[abs_def] option.case td.case)

lemma filled_frame:
  assumes rel: "td_rel s Q dh D" and e: "live s e" and q: "TailP (HcdED s e) = Some (Gtd i)"
    and s': "s' = upd_GTD i (filled buf len pid toggle ioc) s"
  shows "td_rel s' Q dh D"
    and "queue_frame e (queued_tds s Q D) s s'" and "free_gtds s' = free_gtds s"
    and "td_xfer s' (Gtd i) = Some (xfer_of buf len pid toggle (if ioc then td_delay s (Gtd i) else 7))"
    and "queued_tds s' = queued_tds s" and "same_links s s'"
proof -
  show l: "same_links s s'" unfolding s' by (rule same_links_upd_GTD) (simp add: filled_def)
  show "td_rel s' Q dh D" by (rule td_rel_frame[OF rel l])
  have i: "i < length (gTDs s)"
    using placeholder_at[OF rel e] q by (metis option.inject td.case(1) td_at_def td_in_def)
  then show "free_gtds s' = free_gtds s" unfolding s' by (intro free_gtds_upd(1)) (simp_all add: filled_def)
  show "td_xfer s' (Gtd i) = Some (xfer_of buf len pid toggle (if ioc then td_delay s (Gtd i) else 7))"
    using i by (simp add: s' td_xfer_upd_GTD gtd_xfer_def xfer_of_def filled_def td_delay_def)
  show "queued_tds s' = queued_tds s" by (simp add: s' queued_tds_def live_def fun_eq_iff)
  have "Gtd i \<notin> queued_tds s Q D" by (rule queued_tds_not_tail[OF rel e q])
  then show "queue_frame e (queued_tds s Q D) s s'"
    using i by (auto simp: s' queue_frame_def td_xfer_upd_GTD td_cc_def td_delay_def HcdGTD_upd_GTD split: td.split)
qed

lemma QueueOneGTD_full:
  assumes rel: "td_rel s Q dh D" and e: "live s e" "\<not> Format (HcdED s e)" and free: "free_gtds s = 0"
  shows "\<exists>s'. QueueOneGTD e buf len pid toggle ioc s = Some (HCD_STATUS_NOT_ENOUGH_GTD, s') \<and>
    td_rel s' Q dh D \<and> queue_frame e (queued_tds s Q D) s s' \<and> free_gtds s' = 0"
proof -
  obtain q where q: "TailP (HcdED s e) = Some q" "is_Itd q = Format (HcdED s e)" "td_at s e q"
    using placeholder_at[OF rel e(1)] by metis
  then obtain i where i: "q = Gtd i" using e(2) by (cases q) auto
  let ?s = "upd_GTD i (filled buf len pid toggle ioc) s"
  note f = filled_frame[OF rel e(1) q(1)[unfolded i] refl, of buf len pid toggle ioc]
  have u: "td_inUse ?s (Gtd i)" "i < MAX_GTD"
    using q(3) i f(6) td_relD(1)[OF rel] by (auto simp: same_links_def td_at_def td_in_def ohci_sizes_def)
  have "AllocGtdForEd e ?s = Some (HCD_STATUS_NOT_ENOUGH_GTD, ?s)"
    using e(1) q(1) i u f(3) free by (intro AllocGtdForEd_extend(1)[OF td_relD(1)[OF f(1)]]) (auto simp: live_def)
  then show ?thesis using f free QueueOneGTD_eq[OF q(1)[unfolded i]] by auto
qed

lemma QueueOneGTD_ok:
  assumes rel: "td_rel s Q dh D" and e: "live s e" "\<not> Format (HcdED s e)" and free: "0 < free_gtds s"
  obtains s' i where "TailP (HcdED s e) = Some (Gtd i)"
    "QueueOneGTD e buf len pid toggle ioc s = Some (HCD_STATUS_OK, s')"
    "td_rel s' (Q(e := Q e @ [Gtd i])) dh D" "free_gtds s' + 1 = free_gtds s"
    "td_xfer s' (Gtd i) = Some (xfer_of buf len pid toggle (if ioc then td_delay s (Gtd i) else 7))"
    "td_delay s' (the (TailP (HcdED s' e))) = 0" "queue_frame e (queued_tds s Q D) s s'"
proof -
  obtain q where q: "TailP (HcdED s e) = Some q" "is_Itd q = Format (HcdED s e)" "td_at s e q"
    using placeholder_at[OF rel e(1)] by metis
  then obtain i where i: "q = Gtd i" using e(2) by (cases q) auto
  let ?s = "upd_GTD i (filled buf len pid toggle ioc) s"
  note f = filled_frame[OF rel e(1) q(1)[unfolded i] refl, of buf len pid toggle ioc]
  have u: "td_inUse ?s (Gtd i)" "i < MAX_GTD"
    using q(3) i f(6) td_relD(1)[OF rel] by (auto simp: same_links_def td_at_def td_in_def ohci_sizes_def)
  have e': "live ?s e" using queue_frame_live[OF f(2)] e(1) by simp
  have "\<exists>j s'. AllocGtdForEd e ?s = Some (HCD_STATUS_OK, s') \<and> extended e (Gtd i) (Gtd j) ?s s'"
    using e(1) q(1) i u f(3) free by (intro AllocGtdForEd_extend(2)[OF td_relD(1)[OF f(1)]]) (auto simp: live_def)
  then obtain j s' where a: "AllocGtdForEd e ?s = Some (HCD_STATUS_OK, s')" "extended e (Gtd i) (Gtd j) ?s s'" by blast
  have tail: "TailP (HcdED ?s e) = Some (Gtd i)" using q(1) i by simp
  have ij: "i \<noteq> j" using a(2) u by (auto simp: extended_def)
  show thesis
  proof (rule that)
    show "TailP (HcdED s e) = Some (Gtd i)" using q(1) i by simp
    show "QueueOneGTD e buf len pid toggle ioc s = Some (HCD_STATUS_OK, s')"
      using a(1) QueueOneGTD_eq[OF q(1)[unfolded i]] by simp
    show "td_rel s' (Q(e := Q e @ [Gtd i])) dh D"
      by (rule extended_td_rel[OF f(1) e' tail _ a(2)]) (use e(2) in simp)
    show "free_gtds s' + 1 = free_gtds s" using a(2) f(3) by (simp add: extended_def)
    show "td_xfer s' (Gtd i) = Some (xfer_of buf len pid toggle (if ioc then td_delay s (Gtd i) else 7))"
      using a(2) f(4) ij by (simp add: extended_def)
    show "td_delay s' (the (TailP (HcdED s' e))) = 0" using a(2) by (simp add: extended_def)
    show "queue_frame e (queued_tds s Q D) s s'"
      using queue_frame_trans[OF f(2) extended_frame[OF f(1) a(2) tail]] f(5) by simp
  qed
qed

text \<open>The pieces of a transfer: each reaches over at most two pages, one after the other they are the
  buffer. The descriptor of the last one interrupts, those of the others do not.\<close>

lemma len_minus_chunk: "0 < len \<Longrightarrow> unat (len - gtd_chunk buf len) < unat len"
  using gtd_chunk_le(1)[of buf len] gtd_chunk_le(2)[of len buf]
  by (simp add: unat_sub word_less_nat_alt word_le_nat_alt)

function gtd_pieces :: "u32 \<Rightarrow> u32 \<Rightarrow> (u32 \<times> u32) list" where
  "gtd_pieces buf len =
     (if 0 < len then (buf, gtd_chunk buf len) # gtd_pieces (buf + gtd_chunk buf len) (len - gtd_chunk buf len) else [])"
  by pat_completeness auto
termination by (relation "measure (\<lambda>(buf, len). unat len)") (simp_all add: len_minus_chunk)

declare gtd_pieces.simps [simp del]

fun piece_xfers :: "u8 \<Rightarrow> (u32 \<times> u32) list \<Rightarrow> xfer list" where
  "piece_xfers dir [] = []"
| "piece_xfers dir ((b, n) # ps) = xfer_of b n dir 0 (if ps = [] then 0 else 7) # piece_xfers dir ps"

lemma gtd_pieces_Nil_iff: "gtd_pieces buf len = [] \<longleftrightarrow> len = 0"
  by (subst gtd_pieces.simps) (simp add: word_gt_0)

lemma length_piece_xfers [simp]: "length (piece_xfers dir ps) = length ps"
  by (induction dir ps rule: piece_xfers.induct) auto

lemma queued_tds_mono: "queue_frame e X s s' \<Longrightarrow> queued_tds s Q D \<subseteq> queued_tds s' (Q(e := Q e @ ts)) D"
  by (auto simp: queued_tds_def queue_frame_live)

lemma QueueGTDs_step:
  assumes "0 < len"
  shows "QueueGTDs e buf len dir s = (case QueueOneGTD e buf (gtd_chunk buf len) dir 0 (len - gtd_chunk buf len = 0) s of
     None \<Rightarrow> None
   | Some (st, s') \<Rightarrow> if st \<noteq> HCD_STATUS_OK then Some (st, s')
                    else QueueGTDs e (buf + gtd_chunk buf len) (len - gtd_chunk buf len) dir s')"
  using assms by (subst QueueGTDs.simps) (simp add: Let_def)

lemma QueueGTDs_queue:
  assumes "td_rel s Q dh D" "live s e" "\<not> Format (HcdED s e)" "td_delay s (the (TailP (HcdED s e))) = 0"
  shows "\<exists>s' ts. QueueGTDs e buf len dir s =
      Some (if length (gtd_pieces buf len) \<le> free_gtds s then HCD_STATUS_OK else HCD_STATUS_NOT_ENOUGH_GTD, s') \<and>
    td_rel s' (Q(e := Q e @ ts)) dh D \<and>
    map (td_xfer s') ts = map Some (take (free_gtds s) (piece_xfers dir (gtd_pieces buf len))) \<and>
    free_gtds s' + length ts = free_gtds s \<and> queue_frame e (queued_tds s Q D) s s'"
  using assms
proof (induction buf len arbitrary: s Q rule: gtd_pieces.induct)
  case (1 buf len)
  note rel = 1(2) and e = 1(3,4) and d0 = 1(5)
  show ?case
  proof (cases "0 < len")
    case False
    then have "QueueGTDs e buf len dir s = Some (HCD_STATUS_OK, s)" "gtd_pieces buf len = []"
      by (simp_all add: QueueGTDs.simps gtd_pieces.simps)
    then show ?thesis using rel by (intro exI[of _ s] exI[of _ "[]"]) simp
  next
    case len: True
    let ?n = "gtd_chunk buf len" and ?ps = "gtd_pieces (buf + gtd_chunk buf len) (len - gtd_chunk buf len)"
    have ps: "gtd_pieces buf len = (buf, ?n) # ?ps" using len by (subst gtd_pieces.simps) simp
    show ?thesis
    proof (cases "free_gtds s = 0")
      case True
      then obtain s' where "QueueOneGTD e buf ?n dir 0 (len - ?n = 0) s = Some (HCD_STATUS_NOT_ENOUGH_GTD, s')"
        "td_rel s' Q dh D" "queue_frame e (queued_tds s Q D) s s'" "free_gtds s' = 0"
        using QueueOneGTD_full[OF rel e] by metis
      then show ?thesis using True ps
        by (intro exI[of _ s'] exI[of _ "[]"]) (simp add: QueueGTDs_step[OF len])
    next
      case False
      then have fr: "0 < free_gtds s" by simp
      obtain s1 i where s1: "TailP (HcdED s e) = Some (Gtd i)"
          "QueueOneGTD e buf ?n dir 0 (len - ?n = 0) s = Some (HCD_STATUS_OK, s1)"
          "td_rel s1 (Q(e := Q e @ [Gtd i])) dh D" "free_gtds s1 + 1 = free_gtds s"
          "td_xfer s1 (Gtd i) = Some (xfer_of buf ?n dir 0 (if len - ?n = 0 then td_delay s (Gtd i) else 7))"
          "td_delay s1 (the (TailP (HcdED s1 e))) = 0" "queue_frame e (queued_tds s Q D) s s1"
        by (rule QueueOneGTD_ok[OF rel e fr, of buf ?n dir 0 "len - ?n = 0"])
      let ?Q = "Q(e := Q e @ [Gtd i])"
      have e1: "live s1 e" "\<not> Format (HcdED s1 e)"
        using e queue_frame_live[OF s1(7)] queue_frame_ED(2)[OF s1(7)] by simp_all
      obtain s2 ts where s2: "QueueGTDs e (buf + ?n) (len - ?n) dir s1 =
          Some (if length ?ps \<le> free_gtds s1 then HCD_STATUS_OK else HCD_STATUS_NOT_ENOUGH_GTD, s2)"
          "td_rel s2 (?Q(e := ?Q e @ ts)) dh D"
          "map (td_xfer s2) ts = map Some (take (free_gtds s1) (piece_xfers dir ?ps))"
          "free_gtds s2 + length ts = free_gtds s1" "queue_frame e (queued_tds s1 ?Q D) s1 s2"
        using 1(1)[OF len s1(3) e1 s1(6)] by metis
      have "Gtd i \<in> queued_tds s1 ?Q D" using e1 by (auto simp: queued_tds_def)
      then have x: "td_xfer s2 (Gtd i) = Some (xfer_of buf ?n dir 0 (if ?ps = [] then 0 else 7))"
        using s2(5) s1(1,5) d0 by (simp add: queue_frame_def gtd_pieces_Nil_iff)
      have "queue_frame e (queued_tds s Q D) s s2"
        by (rule queue_frame_trans[OF s1(7) s2(5) queued_tds_mono[OF s1(7)]])
      moreover have "td_rel s2 (Q(e := Q e @ Gtd i # ts)) dh D" using s2(2) by simp
      ultimately show ?thesis
        using s1(2) s2(1,3,4) x ps
        by (intro exI[of _ s2] exI[of _ "Gtd i # ts"])
          (simp add: QueueGTDs_step[OF len] s1(4)[symmetric] del: fun_upd_apply)
    qed
  qed
qed

end
