(* ===== verification/OhciDone.thy ===== *)
theory OhciDone
  imports OhciOps
begin

unbundle bit_operations_syntax

text \<open>
  Taking descriptors out of the lists of the OHCI driver: cancelling and closing a pipe, and the done
  queue of the interrupt handler. The loops end, because the lists are finite paths, and every
  descriptor that leaves a list is free afterwards.
\<close>

section \<open>Freeing one descriptor\<close>

definition freed :: "td \<Rightarrow> ohci \<Rightarrow> ohci \<Rightarrow> bool" where
  "freed t s s' \<longleftrightarrow> (ohci_sizes s \<longrightarrow> ohci_sizes s') \<and> td_in s' = td_in s \<and> td_next s' = td_next s \<and> td_ed s' = td_ed s \<and>
     td_inUse s' = (td_inUse s)(t := False) \<and> EDs s' = EDs s \<and> HcdED s' = HcdED s \<and> staticEDs s' = staticEDs s \<and>
     HcDoneHead s' = HcDoneHead s \<and> td_cc s' = td_cc s \<and> td_delay s' = td_delay s \<and> td_xfer s' = td_xfer s \<and>
     (td_inUse s t \<longrightarrow> free_gtds s' = free_gtds s + (if is_Itd t then 0 else 1))"

lemma free_td_freed:
  assumes "td_in s t" "is_Itd t = Format (HcdED s e)"
  obtains s' where "free_td e (Some t) s = Some s'" "freed t s s'"
proof (cases t)
  case (Gtd i)
  let ?s = "upd_GTD i (\<lambda>g. g\<lparr>g_inUse := False\<rparr>) s"
  have i: "i < length (gTDs s)" using assms(1) Gtd by (simp add: td_in_def)
  have "free_td e (Some t) s = Some ?s" using assms(2) Gtd by (simp add: free_td_def IsIsoEndpoint_def FreeGtd_def)
  moreover have "td_next s (Gtd i) = g_NextTD (HcdGTD s i)" "td_ed s (Gtd i) = g_EdIdx (HcdGTD s i)"
    "td_xfer s (Gtd i) = Some (gtd_xfer (HcdGTD s i))" by (simp_all add: td_defs td_xfer_def)
  then have "freed t s ?s"
    using Gtd i free_gtds_upd(3)[OF i, of "\<lambda>g. g\<lparr>g_inUse := False\<rparr>"]
    by (simp add: freed_def ohci_sizes_def upd_GTD_td td_xfer_upd_GTD fun_upd_idem_iff gtd_xfer_def td_inUse_def)
      (auto simp: fun_eq_iff td_cc_def td_delay_def HcdGTD_upd_GTD split: td.split)
  ultimately show thesis by (rule that)
next
  case (Itd i)
  let ?s = "upd_ITD i (\<lambda>g. g\<lparr>i_inUse := False\<rparr>) s"
  have i: "i < length (iTDs s)" using assms(1) Itd by (simp add: td_in_def)
  have "free_td e (Some t) s = Some ?s" using assms(2) Itd by (simp add: free_td_def IsIsoEndpoint_def FreeItd_def)
  moreover have "td_next s (Itd i) = i_NextTD (HcdITD s i)" "td_ed s (Itd i) = i_EdIdx (HcdITD s i)" by (simp_all add: td_defs)
  then have "freed t s ?s"
    using Itd i
    by (simp add: freed_def ohci_sizes_def upd_ITD_td fun_upd_idem_iff)
      (auto simp: fun_eq_iff td_cc_def td_delay_def HcdITD_upd_ITD split: td.split)
  ultimately show thesis by (rule that)
qed

section \<open>Cancelling the queue of an endpoint\<close>

text \<open>What cancelling leaves alone of an endpoint.\<close>

definition no_head :: "HCD_EndpointDescriptor \<Rightarrow> HCD_EndpointDescriptor" where
  "no_head d = set_HeadTD None d"

lemma no_head_set [simp]: "no_head (set_HeadTD p d) = no_head d"
  by (simp add: no_head_def set_HeadTD_def)

lemma no_headD:
  assumes "no_head d = no_head d'"
  shows "ed_inUse d = ed_inUse d'" "Format d = Format d'" "TailP d = TailP d'" "ListIndex d = ListIndex d'"
    "NextED d = NextED d'" "ed_status d = ed_status d'" "Skip d = Skip d'"
proof -
  have f: "f d = f d'" if "\<And>x. f x = f (no_head x)" for f :: "HCD_EndpointDescriptor \<Rightarrow> 'a"
    using that[of d] that[of d'] assms by simp
  show "ed_inUse d = ed_inUse d'" "Format d = Format d'" "TailP d = TailP d'" "ListIndex d = ListIndex d'"
    "NextED d = NextED d'" "ed_status d = ed_status d'" "Skip d = Skip d'"
    by (rule f, simp add: no_head_def set_HeadTD_def)+
qed

lemma cancel_step:
  assumes rel: "td_rel s Q dh D" and e: "live s e" and q: "Q e = h # ts"
  obtains s' where "free_td e (Some h) (upd_ED e (set_HeadTD (td_next s h)) s) = Some s'"
    "td_rel s' (Q(e := ts)) dh D" "HcdED s' = (HcdED s)(e := set_HeadTD (td_next s h) (HcdED s e))"
    "staticEDs s' = staticEDs s" "HcDoneHead s' = HcDoneHead s"
    "free_gtds s' = free_gtds s + (if is_Itd h then 0 else 1)"
proof -
  let ?s = "upd_ED e (set_HeadTD (td_next s h)) s"
  have sz: "e < length (EDs s)" using td_relD(1)[OF rel] e by (simp add: ohci_sizes_def live_def)
  note E = HcdED_upd_ED[OF sz, of "set_HeadTD (td_next s h)"]
  have h: "td_at s e h" "h \<notin> set D" using queue_okD(4,5)[OF rel e, of h] q by (simp_all add: td_owned_def)
  have "td_in ?s h" "is_Itd h = Format (HcdED ?s e)" using h(1) E by (simp_all add: td_at_def set_HeadTD_def)
  then obtain s' where s': "free_td e (Some h) ?s = Some s'" "freed h ?s s'" by (rule free_td_freed)
  have "done_ok s' dh D"
  proof (rule done_frame[OF td_relD(3)[OF rel]])
    show "td_in s' = td_in s" using s'(2) by (simp add: freed_def)
    fix t assume "t \<in> set D"
    then have "t \<noteq> h" using h(2) by auto
    then show "td_inUse s' t = td_inUse s t \<and> td_ed s' t = td_ed s t \<and> td_next s' t = td_next s t \<and>
        Format (HcdED s' (td_ed s t)) = Format (HcdED s (td_ed s t))"
      using s'(2) E by (simp add: freed_def set_HeadTD_def)
  qed
  then have "td_rel s' (Q(e := ts)) dh D"
    using s'(2) E h e td_relD(1)[OF rel]
    by (intro td_rel_pop[OF rel e q]) (auto simp: freed_def ed_view_def set_HeadTD_def live_def ohci_sizes_def)
  then show thesis
    using s'(2) E h(1) by (intro that[OF s'(1)]) (simp_all add: freed_def td_at_def)
qed

lemma cancel_tds_ok:
  assumes "td_rel s Q dh D" "live s e"
  shows "\<exists>s'. cancel_tds e s = Some s' \<and> td_rel s' (Q(e := [])) dh D \<and>
    (\<forall>e'. e' \<noteq> e \<longrightarrow> HcdED s' e' = HcdED s e') \<and> no_head (HcdED s' e) = no_head (HcdED s e) \<and>
    staticEDs s' = staticEDs s \<and> HcDoneHead s' = HcDoneHead s \<and>
    free_gtds s' = free_gtds s + (if Format (HcdED s e) then 0 else length (Q e))"
  using assms
proof (induction "Q e" arbitrary: s Q)
  case Nil
  have "HeadTD (HcdED s e) = TailP (HcdED s e)" using queue_okD(1)[OF Nil(2,3)] Nil(1)[symmetric] by simp
  moreover have "Q(e := []) = Q" using Nil(1) by auto
  ultimately show ?case using Nil by (intro exI[of _ s]) (simp add: cancel_tds.simps del: fun_upd_apply)
next
  case (Cons h ts)
  note rel = Cons(3) and e = Cons(4) and q = Cons(2)[symmetric]
  obtain s1 where s1: "free_td e (Some h) (upd_ED e (set_HeadTD (td_next s h)) s) = Some s1"
    "td_rel s1 (Q(e := ts)) dh D" "HcdED s1 = (HcdED s)(e := set_HeadTD (td_next s h) (HcdED s e))"
    "staticEDs s1 = staticEDs s" "HcDoneHead s1 = HcDoneHead s"
    "free_gtds s1 = free_gtds s + (if is_Itd h then 0 else 1)"
    by (rule cancel_step[OF rel e q])
  have k: "is_Itd h = Format (HcdED s e)" using queue_okD(4)[OF rel e, of h] q by (simp add: td_owned_def td_at_def)
  have hd: "HeadTD (HcdED s e) = Some h" "HeadTD (HcdED s e) \<noteq> TailP (HcdED s e)"
    using queue_okD(1,3)[OF rel e] q e by (auto simp: live_def)
  have e1: "live s1 e" using e s1(3) by (simp add: live_def set_HeadTD_def)
  obtain s2 where s2: "cancel_tds e s1 = Some s2" "td_rel s2 (Q(e := ts, e := [])) dh D"
    "\<forall>e'. e' \<noteq> e \<longrightarrow> HcdED s2 e' = HcdED s1 e'" "no_head (HcdED s2 e) = no_head (HcdED s1 e)"
    "staticEDs s2 = staticEDs s1" "HcDoneHead s2 = HcDoneHead s1"
    "free_gtds s2 = free_gtds s1 + (if Format (HcdED s1 e) then 0 else length ts)"
    using Cons(1)[OF _ s1(2) e1] by auto
  have "cancel_tds e s = Some s2"
    using hd s1(1) s2(1) by (subst cancel_tds.simps) simp
  moreover have "td_rel s2 (Q(e := [])) dh D" using s2(2) by simp
  moreover have "Format (HcdED s1 e) = Format (HcdED s e)" using s1(3) by (simp add: set_HeadTD_def)
  moreover have "no_head (HcdED s2 e) = no_head (HcdED s e)" using s1(3) s2(4) by simp
  moreover have "\<forall>e'. e' \<noteq> e \<longrightarrow> HcdED s2 e' = HcdED s e'" using s1(3) s2(3) by simp
  ultimately show ?case using s1(4-6) s2(5-7) q k by simp
qed

section \<open>The lists of endpoints\<close>

text \<open>\<open>P\<close> are the endpoints that stand in the lists.\<close>

definition ed_lists :: "ohci \<Rightarrow> (nat \<Rightarrow> nat list) \<Rightarrow> (nat \<Rightarrow> bool) \<Rightarrow> bool" where
  "ed_lists s L P \<longleftrightarrow> (\<forall>l < MAX_STATIC_ED. path (ed_next s) (ed_next s (Static l)) (map Ed (L l)) None \<and> distinct (L l) \<and>
       set (L l) = {e. P e \<and> ListIndex (HcdED s e) = l}) \<and>
     (\<forall>e. P e \<longrightarrow> e < MAX_ED \<and> ListIndex (HcdED s e) < MAX_STATIC_ED)"

definition ed_rel :: "ohci \<Rightarrow> (nat \<Rightarrow> nat list) \<Rightarrow> bool" where
  "ed_rel s L \<longleftrightarrow> ed_lists s L (live s)"

lemma ed_listsD:
  assumes "ed_lists s L P"
  shows "l < MAX_STATIC_ED \<Longrightarrow> path (ed_next s) (ed_next s (Static l)) (map Ed (L l)) None"
    "l < MAX_STATIC_ED \<Longrightarrow> distinct (L l)"
    "l < MAX_STATIC_ED \<Longrightarrow> x \<in> set (L l) \<longleftrightarrow> P x \<and> ListIndex (HcdED s x) = l"
    "P x \<Longrightarrow> x < MAX_ED" "P x \<Longrightarrow> ListIndex (HcdED s x) < MAX_STATIC_ED"
  using assms by (auto simp: ed_lists_def)

lemma ed_lists_frame:
  assumes "ed_lists s L P" "staticEDs s' = staticEDs s"
    and "\<And>e. P e \<Longrightarrow> NextED (HcdED s' e) = NextED (HcdED s e) \<and> ListIndex (HcdED s' e) = ListIndex (HcdED s e)"
  shows "ed_lists s' L P"
proof -
  have "path (ed_next s') (ed_next s' (Static l)) (map Ed (L l)) None \<and> distinct (L l) \<and>
      set (L l) = {e. P e \<and> ListIndex (HcdED s' e) = l}" if l: "l < MAX_STATIC_ED" for l
  proof -
    note L = ed_listsD[OF assms(1)]
    have "ed_next s x = ed_next s' x" if "x \<in> set (map Ed (L l))" for x
      using that L(3)[OF l] assms(3) by (auto simp: ed_next_def)
    then have "path (ed_next s') (ed_next s (Static l)) (map Ed (L l)) None"
      using L(1)[OF l] path_cong[of "map Ed (L l)" "ed_next s" "ed_next s'"] by simp
    moreover have "ed_next s' (Static l) = ed_next s (Static l)" using assms(2) by (simp add: ed_next_def)
    ultimately show ?thesis using L(2,3)[OF l] assms(3) by auto
  qed
  then show ?thesis using assms(1,3) by (auto simp: ed_lists_def)
qed

definition ed_in :: "ohci \<Rightarrow> ed \<Rightarrow> bool" where
  "ed_in s p = (case p of Static i \<Rightarrow> i < length (staticEDs s) | Ed e \<Rightarrow> e < length (EDs s))"

lemma set_NextED_same [simp]:
  "td_in (set_NextED p n s) = td_in s" "td_next (set_NextED p n s) = td_next s"
  "td_inUse (set_NextED p n s) = td_inUse s" "td_ed (set_NextED p n s) = td_ed s"
  "HcDoneHead (set_NextED p n s) = HcDoneHead s" "free_gtds (set_NextED p n s) = free_gtds s"
  "length (EDs (set_NextED p n s)) = length (EDs s)" "length (staticEDs (set_NextED p n s)) = length (staticEDs s)"
  "gTDs (set_NextED p n s) = gTDs s" "iTDs (set_NextED p n s) = iTDs s"
  by (auto simp: set_NextED_def td_defs fun_eq_iff HcdGTD_def HcdITD_def free_gtds_def split: ed.split td.split)

lemma HcdED_set_NextED:
  assumes "ed_in s p"
  shows "HcdED (set_NextED p n s) e = (if p = Ed e then (HcdED s e)\<lparr>NextED := n\<rparr> else HcdED s e)"
  using assms by (auto simp: set_NextED_def ed_in_def HcdED_upd_ED split: ed.split) (simp add: HcdED_def)

lemma ed_next_set_NextED:
  assumes "ed_in s p"
  shows "ed_next (set_NextED p n s) = (ed_next s)(p := n)"
  using assms by (auto simp: fun_eq_iff ed_next_def HcdED_set_NextED split: ed.split)
    (auto simp: set_NextED_def ed_in_def nth_list_update split: ed.splits)

lemma same_links_set_NextED: "ed_in s p \<Longrightarrow> same_links s (set_NextED p n s)"
  by (auto simp: same_links_def ohci_sizes_def HcdED_set_NextED ed_view_def)

lemma live_set_NextED: "ed_in s p \<Longrightarrow> live (set_NextED p n s) e = live s e"
  by (auto simp: live_def HcdED_set_NextED)

lemma ListIndex_set_NextED: "ed_in s p \<Longrightarrow> ListIndex (HcdED (set_NextED p n s) e) = ListIndex (HcdED s e)"
  by (auto simp: HcdED_set_NextED)

text \<open>Insertion at the head of a list, and removal from it.\<close>

lemma path_skip:
  assumes "path nx (nx a) (xs @ x # ys) q" "distinct (a # xs @ x # ys)"
  shows "path (nx(last (a # xs) := nx x)) ((nx(last (a # xs) := nx x)) a) (xs @ ys) q"
  using assms
proof (induction xs arbitrary: a)
  case Nil
  then show ?case by (simp del: fun_upd_apply) simp
next
  case (Cons b xs)
  have "path nx (nx b) (xs @ x # ys) q" "distinct (b # xs @ x # ys)" "nx a = Some b" using Cons.prems by auto
  moreover have "last (b # xs) \<noteq> a" using Cons.prems(2) last_in_set[of "b # xs"] by auto
  ultimately show ?case using Cons.IH[of b] by auto
qed

lemma find_prev_path:
  assumes "path (ed_next s) (ed_next s p) (xs @ Ed e # ys) q" "Ed e \<notin> set xs"
  shows "prev_ED s e p = Some (last (p # xs))"
  using assms
proof (induction xs arbitrary: p)
  case Nil
  then show ?case by (subst prev_ED.simps) simp
next
  case (Cons b xs)
  then show ?case by (subst prev_ED.simps) auto
qed

lemma InsertEndpoint_lists:
  assumes "ed_lists s L P" "\<not> P e" "e < MAX_ED" "l < MAX_STATIC_ED" "ListIndex (HcdED s e) = l" "ohci_sizes s"
  shows "ed_lists (InsertEndpoint e l s) (L(l := e # L l)) (\<lambda>x. x = e \<or> P x)"
proof -
  note L = ed_listsD[OF assms(1)]
  let ?s1 = "set_NextED (Ed e) (ed_next s (Static l)) s"
  have i: "ed_in s (Ed e)" "ed_in ?s1 (Static l)" using assms(3,4,6) by (auto simp: ed_in_def ohci_sizes_def)
  have nx: "ed_next (InsertEndpoint e l s) = (ed_next s)(Ed e := ed_next s (Static l), Static l := Some (Ed e))"
    using ed_next_set_NextED[OF i(1)] ed_next_set_NextED[OF i(2)] by (simp add: InsertEndpoint_def)
  have li: "ListIndex (HcdED (InsertEndpoint e l s) x) = ListIndex (HcdED s x)" for x
    using ListIndex_set_NextED[OF i(1)] ListIndex_set_NextED[OF i(2)] by (simp add: InsertEndpoint_def)
  have en: "e \<notin> set (L m)" if "m < MAX_STATIC_ED" for m using L(3)[OF that] assms(2) by simp
  have "path (ed_next (InsertEndpoint e l s)) (ed_next (InsertEndpoint e l s) (Static m)) (map Ed ((L(l := e # L l)) m)) None \<and>
      distinct ((L(l := e # L l)) m) \<and> set ((L(l := e # L l)) m) = {x. (x = e \<or> P x) \<and> ListIndex (HcdED s x) = m}"
    if m: "m < MAX_STATIC_ED" for m
  proof -
    have f: "ed_next s x = ed_next (InsertEndpoint e l s) x" if "x \<in> set (map Ed (L m))" for x
      using that en[OF m] nx by auto
    have p: "path (ed_next (InsertEndpoint e l s)) (ed_next s (Static m)) (map Ed (L m)) None"
      using L(1)[OF m] path_cong[of "map Ed (L m)" "ed_next s", OF f] by simp
    then show ?thesis
      using L(2)[OF m] L(3)[OF m] en[OF m] assms(5) nx by (cases "m = l") auto
  qed
  then show ?thesis using L(4,5) assms(3,4,5) li by (auto simp: ed_lists_def)
qed

lemma RemoveEndpoint_lists:
  assumes "ed_lists s L P" "P e" "ohci_sizes s"
  obtains p s' L' where "RemoveEndpoint e s = Some s'" "ed_in s p" "s' = set_NextED p (NextED (HcdED s e)) s"
    "ed_lists s' L' (\<lambda>x. P x \<and> x \<noteq> e)"
proof -
  note L = ed_listsD[OF assms(1)]
  let ?l = "ListIndex (HcdED s e)"
  have l: "?l < MAX_STATIC_ED" by (rule L(5)[OF assms(2)])
  obtain xs ys where xy: "L ?l = xs @ e # ys" "e \<notin> set xs"
    using L(3)[OF l] assms(2) split_list_first[of e "L ?l"] by auto
  have path: "path (ed_next s) (ed_next s (Static ?l)) (map Ed xs @ Ed e # map Ed ys) None"
    using L(1)[OF l] xy(1) by simp
  define p where "p = last (Static ?l # map Ed xs)"
  have fp: "prev_ED s e (Static ?l) = Some p"
    unfolding p_def by (rule find_prev_path[OF path]) (use xy(2) in auto)
  have pin: "p = Static ?l \<or> (\<exists>x \<in> set xs. p = Ed x)" by (cases xs rule: rev_cases) (auto simp: p_def)
  have "x < MAX_ED" if "x \<in> set xs" for x using that L(3)[OF l, of x] L(4)[of x] xy(1) by simp
  then have i: "ed_in s p" using pin l assms(3) by (auto simp: ed_in_def ohci_sizes_def)
  let ?s = "set_NextED p (NextED (HcdED s e)) s" and ?L = "L(?l := xs @ ys)"
  have nx: "ed_next ?s = (ed_next s)(p := ed_next s (Ed e))"
    using ed_next_set_NextED[OF i] by (simp add: ed_next_def)
  have "path (ed_next ?s) (ed_next ?s (Static m)) (map Ed (?L m)) None \<and> distinct (?L m) \<and>
      set (?L m) = {x. (P x \<and> x \<noteq> e) \<and> ListIndex (HcdED ?s x) = m}" if m: "m < MAX_STATIC_ED" for m
  proof (cases "m = ?l")
    case True
    have d: "distinct (Static ?l # map Ed xs @ Ed e # map Ed ys)"
      using L(2)[OF l] xy(1) by (auto simp: distinct_map inj_on_def)
    show ?thesis
      using path_skip[OF path d] True nx L(2)[OF l] L(3)[OF l] xy ListIndex_set_NextED[OF i]
      by (auto simp: p_def simp del: fun_upd_apply) (auto simp: fun_upd_def)
  next
    case False
    have "ListIndex (HcdED s x) = ?l" if "x \<in> set xs" for x using L(3)[OF l, of x] that xy(1) by simp
    then have np: "p \<noteq> Static m" "p \<notin> set (map Ed (L m))"
      using pin False L(3)[OF m] by auto
    then have "path (ed_next ?s) (ed_next ?s (Static m)) (map Ed (L m)) None"
      using L(1)[OF m] nx by simp
    then show ?thesis
      using False L(2)[OF m] L(3)[OF m] ListIndex_set_NextED[OF i] by auto
  qed
  then have "ed_lists ?s ?L (\<lambda>x. P x \<and> x \<noteq> e)"
    using L(4,5) ListIndex_set_NextED[OF i] by (auto simp: ed_lists_def)
  moreover have "RemoveEndpoint e s = Some ?s" by (simp add: RemoveEndpoint_def fp)
  ultimately show thesis using i that by blast
qed

section \<open>The done queue\<close>

text \<open>Relinking the done queue changes nothing else.\<close>

definition same_but_next :: "td set \<Rightarrow> ohci \<Rightarrow> ohci \<Rightarrow> bool" where
  "same_but_next X s s' \<longleftrightarrow> (ohci_sizes s \<longrightarrow> ohci_sizes s') \<and> td_in s' = td_in s \<and> (\<forall>x. x \<notin> X \<longrightarrow> td_next s' x = td_next s x) \<and>
     td_inUse s' = td_inUse s \<and> td_ed s' = td_ed s \<and> td_cc s' = td_cc s \<and> td_delay s' = td_delay s \<and> HcdED s' = HcdED s \<and>
     staticEDs s' = staticEDs s \<and> HcDoneHead s' = HcDoneHead s \<and> free_gtds s' = free_gtds s"

lemma free_gtds_set_next [simp]: "free_gtds (set_next t n s) = free_gtds s"
proof (cases t)
  case (Gtd i)
  then show ?thesis
    by (cases "i < length (gTDs s)") (simp_all add: set_next_def free_gtds_upd(1) upd_out)
qed (simp add: set_next_def)

lemma same_but_next_set: "td_in s t \<Longrightarrow> same_but_next {t} s (set_next t n s)"
  by (simp add: same_but_next_def set_next_td ohci_sizes_def)

lemma same_but_next_trans: "same_but_next X s s' \<Longrightarrow> same_but_next Y s' s'' \<Longrightarrow> same_but_next (X \<union> Y) s s''"
  by (simp add: same_but_next_def)

lemma done_reverse_ok:
  assumes "path (td_next s) (Some t) D None" "path (td_next s) acc R None" "distinct (D @ R)" "\<forall>x \<in> set D. td_in s x"
  shows "\<exists>h s'. done_reverse t acc s = Some (h, s') \<and> path (td_next s') (Some h) (rev D @ R) None \<and>
    same_but_next (set D) s s'"
  using assms
proof (induction D arbitrary: t acc R s)
  case Nil
  then show ?case by simp
next
  case (Cons x D)
  let ?s = "set_next t acc s"
  have x: "x = t" "td_in s t" using Cons.prems by auto
  have nx: "td_next ?s = (td_next s)(t := acc)" by (rule set_next_td(1)[OF x(2)])
  have R: "path (td_next ?s) (Some t) (t # R) None"
    using Cons.prems(2,3) x(1) by (simp add: nx del: fun_upd_apply) simp
  show ?case
  proof (cases "td_next s t")
    case None
    then have "D = []" using Cons.prems(1) x(1) by simp
    then show ?thesis
      using None R x same_but_next_set[OF x(2), of acc] by (subst done_reverse.simps) (simp add: Let_def)
  next
    case (Some n)
    have "path (td_next ?s) (Some n) D None"
      using Cons.prems(1,3) x(1) Some by (simp add: nx del: fun_upd_apply)
    then obtain h s' where "done_reverse n (Some t) ?s = Some (h, s')" "path (td_next s') (Some h) (rev D @ t # R) None"
        "same_but_next (set D) ?s s'"
      using Cons.IH[of ?s n "Some t" "t # R"] R Cons.prems(3,4) x by auto
    then show ?thesis
      using Some x(1) same_but_next_trans[OF same_but_next_set[OF x(2), of acc]]
      by (subst done_reverse.simps) (auto simp: Let_def)
  qed
qed

lemma td_rel_relink:
  assumes rel: "td_rel s Q dh D" and s': "same_but_next (set D) s s'" and D': "path (td_next s') dh' D' None" "distinct D'" "set D' = set D"
  shows "td_rel s' Q dh' D'"
proof -
  have same: "td_in s' = td_in s" "td_inUse s' = td_inUse s" "td_ed s' = td_ed s" "HcdED s' = HcdED s"
    "x \<notin> set D \<Longrightarrow> td_next s' x = td_next s x" "ohci_sizes s'" for x
    using s' td_relD(1)[OF rel] by (auto simp: same_but_next_def)
  have live: "live s' = live s" and own: "td_owned s' = td_owned s" and at: "td_at s' = td_at s"
    using same by (auto simp: live_def td_owned_def td_at_def fun_eq_iff)
  have "queue_ok s' Q D' e" if l: "live s e" for e
    using queue_okD(5)[OF rel l] same D'(3)
    by (intro queue_ok_frame[OF td_relD(2)[OF rel l]]) (auto simp: td_owned_def)
  moreover have "done_ok s' dh' D'"
    using td_relD(5)[OF rel] D' at same(3) by (auto simp: done_ok_def)
  ultimately show ?thesis using td_relD(6)[OF rel] same live own D'(3) by (auto simp: td_rel_def)
qed

text \<open>What a retired descriptor does to the status of its endpoint.\<close>

definition settle :: "HCD_STATUS \<Rightarrow> u8 \<Rightarrow> HCD_EndpointDescriptor \<Rightarrow> HCD_EndpointDescriptor" where
  "settle cc delay d =
     (let d = (if delay \<noteq> TD_NoInterruptOnComplete then d\<lparr>ed_status := cc\<rparr> else d)
      in if cc \<noteq> HCD_STATUS_OK
         then d\<lparr>ed_status := (if Halted d then HCD_STATUS_TRANSFER_Stall else cc), Halted := False\<rparr> else d)"

lemma settle_view [simp]: "ed_view (settle cc delay d) = ed_view d"
  by (simp add: settle_def ed_view_def)

lemma settle_fields [simp]:
  "NextED (settle cc delay d) = NextED d" "ListIndex (settle cc delay d) = ListIndex d"
  "Format (settle cc delay d) = Format d" "ed_inUse (settle cc delay d) = ed_inUse d"
  "TailP (settle cc delay d) = TailP d" "HeadTD (settle cc delay d) = HeadTD d"
  "pActualTransferCount (settle cc delay d) = pActualTransferCount d"
  by (simp_all add: settle_def)

lemma xfer_counts_same [simp]:
  "td_in (s\<lparr>xfer_counts := c\<rparr>) = td_in s" "td_next (s\<lparr>xfer_counts := c\<rparr>) = td_next s"
  "td_inUse (s\<lparr>xfer_counts := c\<rparr>) = td_inUse s" "td_ed (s\<lparr>xfer_counts := c\<rparr>) = td_ed s"
  "td_cc (s\<lparr>xfer_counts := c\<rparr>) = td_cc s" "td_delay (s\<lparr>xfer_counts := c\<rparr>) = td_delay s"
  "HcdED (s\<lparr>xfer_counts := c\<rparr>) = HcdED s" "ohci_sizes (s\<lparr>xfer_counts := c\<rparr>) = ohci_sizes s"
  "free_gtds (s\<lparr>xfer_counts := c\<rparr>) = free_gtds s"
  by (simp_all add: td_defs HcdGTD_def HcdITD_def HcdED_def ohci_sizes_def free_gtds_def fun_eq_iff split: td.split)

definition td_settled :: "nat \<Rightarrow> td \<Rightarrow> ohci \<Rightarrow> ohci \<Rightarrow> bool" where
  "td_settled e t s s' \<longleftrightarrow> (ohci_sizes s \<longrightarrow> ohci_sizes s') \<and> td_in s' = td_in s \<and> td_next s' = td_next s \<and> td_ed s' = td_ed s \<and>
     td_inUse s' = td_inUse s \<and> td_cc s' = td_cc s \<and> td_delay s' = td_delay s \<and> staticEDs s' = staticEDs s \<and>
     HcDoneHead s' = HcDoneHead s \<and> free_gtds s' = free_gtds s \<and>
     HcdED s' = (HcdED s)(e := settle (td_cc s t) (td_delay s t) (HcdED s e))"

lemma note_status_settled:
  assumes "e < length (EDs s)"
  shows "td_settled e t s (note_status e t s)"
proof -
  have u: "HcdED (upd_ED e f s) = (HcdED s)(e := f (HcdED s e))" for f by (rule HcdED_upd_ED[OF assms])
  have u2: "HcdED (upd_ED e g (upd_ED e f s)) = (HcdED s)(e := g (f (HcdED s e)))" for f g
    using HcdED_upd_ED[of e "upd_ED e f s" g] u assms by simp
  show ?thesis
    by (simp add: td_settled_def note_status_def Let_def ohci_sizes_def u u2 settle_def)
qed

lemma store_count_same:
  assumes "i < length (gTDs s)"
  shows "td_in (store_count e i s) = td_in s" "td_next (store_count e i s) = td_next s"
    "td_inUse (store_count e i s) = td_inUse s" "td_ed (store_count e i s) = td_ed s"
    "td_cc (store_count e i s) = td_cc s" "td_delay (store_count e i s) = td_delay s"
    "HcdED (store_count e i s) = HcdED s" "ohci_sizes s \<Longrightarrow> ohci_sizes (store_count e i s)"
    "free_gtds (store_count e i s) = free_gtds s" "staticEDs (store_count e i s) = staticEDs s"
    "HcDoneHead (store_count e i s) = HcDoneHead s" "length (EDs (store_count e i s)) = length (EDs s)"
proof -
  let ?f = "\<lambda>g. g\<lparr>TransferCount := xfer_count (TransferCount g) (CurrentBufferPointer g) (BufferEnd g)\<rparr>"
  let ?s = "upd_GTD i ?f s"
  have "same_links s ?s" by (rule same_links_upd_GTD) simp
  moreover have "td_cc ?s = td_cc s" "td_delay ?s = td_delay s"
    using assms by (auto simp: fun_eq_iff td_cc_def td_delay_def HcdGTD_upd_GTD split: td.split)
  moreover have "free_gtds ?s = free_gtds s" using free_gtds_upd(1)[OF assms, of ?f] by simp
  ultimately show "td_in (store_count e i s) = td_in s" "td_next (store_count e i s) = td_next s"
    "td_inUse (store_count e i s) = td_inUse s" "td_ed (store_count e i s) = td_ed s"
    "td_cc (store_count e i s) = td_cc s" "td_delay (store_count e i s) = td_delay s"
    "HcdED (store_count e i s) = HcdED s" "ohci_sizes s \<Longrightarrow> ohci_sizes (store_count e i s)"
    "free_gtds (store_count e i s) = free_gtds s" "staticEDs (store_count e i s) = staticEDs s"
    "HcDoneHead (store_count e i s) = HcDoneHead s" "length (EDs (store_count e i s)) = length (EDs s)"
    by (simp_all add: store_count_def Let_def same_links_def)
qed

lemma done_td_ok:
  assumes "td_at s e t" "ohci_sizes s"
  obtains s1 s' where "done_td t s = Some s'" "td_settled e t s s1" "freed t s1 s'"
proof -
  have e: "td_ed s t = e" "e < length (EDs s)" "is_Itd t = Format (HcdED s e)" "td_in s t"
    using assms by (auto simp: td_at_def ohci_sizes_def)
  define s0 where "s0 = (case t of Gtd i \<Rightarrow> store_count e i s | Itd i \<Rightarrow> s)"
  have s0: "td_in s0 = td_in s" "td_next s0 = td_next s" "td_inUse s0 = td_inUse s" "td_ed s0 = td_ed s"
    "td_cc s0 = td_cc s" "td_delay s0 = td_delay s" "HcdED s0 = HcdED s" "ohci_sizes s0" "free_gtds s0 = free_gtds s"
    "staticEDs s0 = staticEDs s" "HcDoneHead s0 = HcDoneHead s" "length (EDs s0) = length (EDs s)"
    using e(4) assms(2) by (auto simp: s0_def store_count_same td_in_def split: td.splits)
  have n: "td_settled e t s (note_status e t s0)"
    using note_status_settled[of e s0 t] e(2) s0 by (simp add: td_settled_def)
  have "td_in (note_status e t s0) t" "is_Itd t = Format (HcdED (note_status e t s0) e)"
    using n e by (simp_all add: td_settled_def)
  then obtain s' where s': "free_td e (Some t) (note_status e t s0) = Some s'" "freed t (note_status e t s0) s'"
    by (rule free_td_freed)
  have "done_td t s = Some s'" using s'(1) e(1) by (auto simp: done_td_def s0_def td_ed_def split: td.splits)
  then show thesis using n s'(2) by (rule that)
qed

text \<open>The status of endpoint \<open>e\<close> after the descriptors \<open>ts\<close> have been processed in this order.\<close>

definition settle_all :: "ohci \<Rightarrow> td list \<Rightarrow> nat \<Rightarrow> HCD_EndpointDescriptor \<Rightarrow> HCD_EndpointDescriptor" where
  "settle_all s ts e = fold (\<lambda>t. settle (td_cc s t) (td_delay s t)) (filter (\<lambda>t. td_ed s t = e) ts)"

lemma settle_all_simps [simp]:
  "settle_all s [] e d = d"
  "settle_all s (t # ts) e d = settle_all s ts e (if td_ed s t = e then settle (td_cc s t) (td_delay s t) d else d)"
  by (simp_all add: settle_all_def)

lemma settle_all_cong:
  "td_cc s' = td_cc s \<Longrightarrow> td_delay s' = td_delay s \<Longrightarrow> td_ed s' = td_ed s \<Longrightarrow> settle_all s' ts e d = settle_all s ts e d"
  by (simp add: settle_all_def)

lemma settle_all_view [simp]: "ed_view (settle_all s ts e d) = ed_view d"
  by (induction ts arbitrary: d) auto

lemma settle_all_fields [simp]:
  "NextED (settle_all s ts e d) = NextED d" "ListIndex (settle_all s ts e d) = ListIndex d"
  "ed_inUse (settle_all s ts e d) = ed_inUse d" "TailP (settle_all s ts e d) = TailP d"
  by (induction ts arbitrary: d) auto

lemma done_process_ok:
  assumes "td_rel s Q p D"
  shows "\<exists>s'. done_process p s = Some s' \<and> td_rel s' Q None [] \<and>
    (\<forall>e < MAX_ED. HcdED s' e = settle_all s D e (HcdED s e)) \<and> staticEDs s' = staticEDs s \<and>
    HcDoneHead s' = HcDoneHead s \<and> free_gtds s' = free_gtds s + length (filter (\<lambda>t. \<not> is_Itd t) D)"
  using assms
proof (induction D arbitrary: p s)
  case Nil
  then have "p = None" using td_relD(7)[OF Nil] by simp
  then show ?case using Nil by (subst done_process.simps) simp
next
  case (Cons t D)
  let ?e = "td_ed s t"
  have p: "p = Some t" using td_relD(7)[OF Cons.prems] by simp
  have at: "td_at s ?e t" using td_relD(5)[OF Cons.prems, of t] by simp
  obtain s1 s2 where s12: "done_td t s = Some s2" "td_settled ?e t s s1" "freed t s1 s2"
    by (rule done_td_ok[OF at td_relD(1)[OF Cons.prems]])
  have E: "HcdED s2 = (HcdED s)(?e := settle (td_cc s t) (td_delay s t) (HcdED s ?e))"
    using s12(2,3) by (simp add: td_settled_def freed_def)
  have same: "td_cc s2 = td_cc s" "td_delay s2 = td_delay s" "td_ed s2 = td_ed s"
    using s12(2,3) by (simp_all add: td_settled_def freed_def)
  have "td_rel s2 Q (td_next s t) D"
    using s12(2,3) td_relD(1)[OF Cons.prems] E
    by (intro td_rel_done[OF Cons.prems[unfolded p]]) (auto simp: td_settled_def freed_def)
  from Cons.IH[OF this] obtain s' where s': "done_process (td_next s t) s2 = Some s'" "td_rel s' Q None []"
    "\<forall>e < MAX_ED. HcdED s' e = settle_all s2 D e (HcdED s2 e)" "staticEDs s' = staticEDs s2"
    "HcDoneHead s' = HcDoneHead s2" "free_gtds s' = free_gtds s2 + length (filter (\<lambda>t. \<not> is_Itd t) D)" by blast
  have "done_process p s = Some s'" using s'(1) s12(1) p by (subst done_process.simps) (simp add: Let_def)
  moreover have "\<forall>e < MAX_ED. HcdED s' e = settle_all s (t # D) e (HcdED s e)"
    using s'(3) E by (simp add: settle_all_cong[OF same])
  moreover have "free_gtds s2 = free_gtds s + (if is_Itd t then 0 else 1)" "staticEDs s2 = staticEDs s" "HcDoneHead s2 = HcDoneHead s"
    using s12(2,3) at by (simp_all add: td_settled_def freed_def td_at_def)
  ultimately show ?case using s' by auto
qed

lemma ProcessDoneQueue_ok:
  assumes rel: "td_rel s Q dh D"
  obtains s' where "ProcessDoneQueue dh s = Some s'" "td_rel s' Q None []"
    "\<forall>e < MAX_ED. HcdED s' e = settle_all s (rev D) e (HcdED s e)" "staticEDs s' = staticEDs s"
    "HcDoneHead s' = HcDoneHead s" "free_gtds s' = free_gtds s + length (filter (\<lambda>t. \<not> is_Itd t) D)"
proof (cases dh)
  case None
  then have "D = []" using td_relD(7)[OF rel] by simp
  then show thesis using rel None by (intro that[of s]) (auto simp: ProcessDoneQueue_def)
next
  case (Some t)
  have "\<forall>x \<in> set D. td_in s x" using td_relD(5)[OF rel] by (auto simp: td_at_def)
  then obtain h s1 where s1: "done_reverse t None s = Some (h, s1)" "path (td_next s1) (Some h) (rev D @ []) None"
    "same_but_next (set D) s s1"
    using done_reverse_ok[of s t D None "[]"] td_relD(4,7)[OF rel] Some by auto
  have r1: "td_rel s1 Q (Some h) (rev D)"
    using s1(2) td_relD(4)[OF rel] by (intro td_rel_relink[OF rel s1(3)]) simp_all
  have same: "td_cc s1 = td_cc s" "td_delay s1 = td_delay s" "td_ed s1 = td_ed s" "HcdED s1 = HcdED s"
    "staticEDs s1 = staticEDs s" "HcDoneHead s1 = HcDoneHead s" "free_gtds s1 = free_gtds s"
    using s1(3) by (simp_all add: same_but_next_def)
  have len: "length (filter (\<lambda>t. \<not> is_Itd t) (rev D)) = length (filter (\<lambda>t. \<not> is_Itd t) D)"
    by (simp add: rev_filter[symmetric])
  obtain s' where "done_process (Some h) s1 = Some s'" "td_rel s' Q None []"
    "\<forall>e < MAX_ED. HcdED s' e = settle_all s1 (rev D) e (HcdED s1 e)" "staticEDs s' = staticEDs s1"
    "HcDoneHead s' = HcDoneHead s1" "free_gtds s' = free_gtds s1 + length (filter (\<lambda>t. \<not> is_Itd t) (rev D))"
    using done_process_ok[OF r1] by blast
  then show thesis
    using s1(1) Some same(4-7) len
    by (intro that[of s']) (simp_all add: ProcessDoneQueue_def settle_all_cong[OF same(1-3)])
qed

end
