(* ===== verification/OhciSystem.thy ===== *)
theory OhciSystem
  imports OhciDone
begin

unbundle bit_operations_syntax

text \<open>
  The OHCI driver together with the controller: the states that can be reached by calls of the driver,
  retirements by the controller and interrupts in any order, the ownership of the descriptors as their
  invariant, and the properties of the driver that follow.
\<close>

section \<open>The controller\<close>

text \<open>
  The contract of the controller, from the OHCI specification: it takes the descriptor at the head of
  the queue of an endpoint that is neither skipped nor halted, stores the condition code and (for a
  general one) the current buffer pointer, advances the queue, halts the endpoint when the code is an
  error, and puts the descriptor in front of its done list. When it raises the write-back interrupt it
  hands the done list over and starts an empty one.
\<close>

definition hc_complete :: "td \<Rightarrow> HCD_STATUS \<Rightarrow> u32 \<Rightarrow> ohci \<Rightarrow> ohci" where
  "hc_complete t cc cbp = (case t of
     Gtd i \<Rightarrow> upd_GTD i (\<lambda>g. g\<lparr>g_ConditionCode := cc, CurrentBufferPointer := cbp\<rparr>)
   | Itd i \<Rightarrow> upd_ITD i (\<lambda>g. g\<lparr>i_ConditionCode := cc\<rparr>))"

definition hc_retire :: "nat \<Rightarrow> HCD_STATUS \<Rightarrow> u32 \<Rightarrow> ohci \<Rightarrow> ohci option" where
  "hc_retire e cc cbp s = (case HeadTD (HcdED s e) of
     None \<Rightarrow> None
   | Some t \<Rightarrow>
       if \<not> live s e \<or> Skip (HcdED s e) \<or> Halted (HcdED s e) \<or> TailP (HcdED s e) = Some t then None
       else (let s = upd_ED e (\<lambda>d. d\<lparr>HeadTD := td_next s t, Halted := (cc \<noteq> HCD_STATUS_OK)\<rparr>) s;
                 s = set_next t (HcDoneHead s) (hc_complete t cc cbp s)
             in Some (s\<lparr>HcDoneHead := Some t\<rparr>)))"

abbreviation irq_status :: "irq_reads \<Rightarrow> u32" where
  "irq_status r \<equiv> rd_IntStatus r AND rd_IntEnable r"

definition hc_irq :: "irq_reads \<Rightarrow> ohci \<Rightarrow> ohci option" where
  "hc_irq r s = HcdIrqHandler 0 r
     (if irq_status r AND 0x2 \<noteq> 0 then s\<lparr>HccaDoneHead := HcDoneHead s, HcDoneHead := None\<rparr> else s)"

datatype hc_action = Retire nat HCD_STATUS u32 | Irq irq_reads

fun hc_act :: "hc_action \<Rightarrow> ohci \<Rightarrow> ohci option" where
  "hc_act (Retire e cc cbp) s = hc_retire e cc cbp s"
| "hc_act (Irq r) s = hc_irq r s"

section \<open>The invariant\<close>

definition ohci_inv :: "ohci \<Rightarrow> bool" where
  "ohci_inv s \<longleftrightarrow> (\<exists>Q D L. td_rel s Q (HcDoneHead s) D \<and> ed_rel s L)"

lemma ohci_invI: "td_rel s Q (HcDoneHead s) D \<Longrightarrow> ed_rel s L \<Longrightarrow> ohci_inv s"
  by (auto simp: ohci_inv_def)

lemma ed_rel_frame:
  assumes "ed_rel s L" "staticEDs s' = staticEDs s"
    and "\<And>e. live s' e = live s e"
    and "\<And>e. live s e \<Longrightarrow> NextED (HcdED s' e) = NextED (HcdED s e) \<and> ListIndex (HcdED s' e) = ListIndex (HcdED s e)"
  shows "ed_rel s' L"
proof -
  have "live s' = live s" using assms(3) by auto
  then show ?thesis using ed_lists_frame[of s L "live s" s'] assms(1,2,4) by (simp add: ed_rel_def)
qed

lemma live_same_links: "same_links s s' \<Longrightarrow> live s' e = live s e"
  by (auto simp: same_links_def live_def ed_view_def)

text \<open>A change that keeps the links, the lists and the done list.\<close>

definition hcd_quiet :: "ohci \<Rightarrow> ohci \<Rightarrow> bool" where
  "hcd_quiet s s' \<longleftrightarrow> same_links s s' \<and> staticEDs s' = staticEDs s \<and> HcDoneHead s' = HcDoneHead s \<and>
     (\<forall>e < MAX_ED. NextED (HcdED s' e) = NextED (HcdED s e) \<and> ListIndex (HcdED s' e) = ListIndex (HcdED s e))"

lemma quiet_live: "hcd_quiet s s' \<Longrightarrow> live s' e = live s e"
  by (rule live_same_links) (simp add: hcd_quiet_def)

lemma quiet_td_rel: "hcd_quiet s s' \<Longrightarrow> td_rel s Q dh D \<Longrightarrow> td_rel s' Q dh D"
  using td_rel_frame by (auto simp: hcd_quiet_def)

lemma quiet_ed_rel: "hcd_quiet s s' \<Longrightarrow> ed_rel s L \<Longrightarrow> ed_rel s' L"
  using live_same_links by (intro ed_rel_frame[of s L s']) (auto simp: hcd_quiet_def live_def)

lemma quiet_inv:
  assumes "hcd_quiet s s'" "ohci_inv s"
  shows "ohci_inv s'"
proof -
  obtain Q D L where "td_rel s Q (HcDoneHead s) D" "ed_rel s L" using assms(2) by (auto simp: ohci_inv_def)
  moreover have "HcDoneHead s' = HcDoneHead s" using assms(1) by (simp add: hcd_quiet_def)
  ultimately show ?thesis
    using quiet_td_rel[OF assms(1)] quiet_ed_rel[OF assms(1)] by (intro ohci_invI[of s' Q D L]) simp_all
qed

lemma quiet_trans: "hcd_quiet s s' \<Longrightarrow> hcd_quiet s' s'' \<Longrightarrow> hcd_quiet s s''"
  using same_links_trans by (auto simp: hcd_quiet_def)

lemma quiet_log [simp]: "hcd_quiet s (log_io x s)"
  by (simp add: hcd_quiet_def)

lemma quiet_upd_ED:
  assumes "\<And>d. ed_view (f d) = ed_view d \<and> NextED (f d) = NextED d \<and> ListIndex (f d) = ListIndex d"
  shows "hcd_quiet s (upd_ED e f s)"
proof (cases "e < length (EDs s)")
  case True
  then show ?thesis using assms same_links_upd_ED[of f s e] by (simp add: hcd_quiet_def HcdED_upd_ED)
next
  case False
  then show ?thesis by (simp add: upd_out hcd_quiet_def)
qed

text \<open>An operation on the queue of one endpoint.\<close>

lemma queue_frame_ed_rel:
  assumes "queue_frame e X s s'" "ed_rel s L"
  shows "ed_rel s' L"
proof (rule ed_rel_frame[OF assms(2)])
  show "staticEDs s' = staticEDs s" using assms(1) by (simp add: queue_frame_def)
  show "live s' e' = live s e'" for e' by (rule queue_frame_live[OF assms(1)])
  show "NextED (HcdED s' e') = NextED (HcdED s e') \<and> ListIndex (HcdED s' e') = ListIndex (HcdED s e')" for e'
    using queue_frame_ED(7)[OF assms(1)] queue_frame_ED(5)[OF assms(1)] by (rule conjI)
qed

lemma queue_frame_inv:
  assumes "queue_frame e X s s'" "td_rel s' Q (HcDoneHead s) D" "ed_rel s L"
  shows "ohci_inv s'"
proof (rule ohci_invI)
  show "td_rel s' Q (HcDoneHead s') D" using assms(1,2) by (simp add: queue_frame_def)
  show "ed_rel s' L" by (rule queue_frame_ed_rel[OF assms(1,3)])
qed

section \<open>Interrupts and retirement\<close>

lemma hc_retire_rel:
  assumes rel: "td_rel s Q (HcDoneHead s) D" and r: "hc_retire e cc cbp s = Some s'"
  obtains t ts where "Q e = t # ts" "live s e" "td_rel s' (Q(e := ts)) (HcDoneHead s') (t # D)" "HcDoneHead s' = Some t"
    "HcdED s' = (HcdED s)(e := (HcdED s e)\<lparr>HeadTD := td_next s t, Halted := (cc \<noteq> HCD_STATUS_OK)\<rparr>)"
    "staticEDs s' = staticEDs s" "td_cc s' = (td_cc s)(t := cc)" "td_delay s' = td_delay s" "td_ed s' = td_ed s"
    "free_gtds s' = free_gtds s"
proof -
  obtain t where t: "HeadTD (HcdED s e) = Some t" "live s e" "TailP (HcdED s e) \<noteq> Some t"
    using r by (auto simp: hc_retire_def split: option.splits if_splits)
  note q = queue_okD[OF rel t(2)]
  obtain ts where ts: "Q e = t # ts" using q(1) t(1,3) by (cases "Q e") auto
  have at: "td_at s e t" "t \<notin> set D" using q(4,5)[of t] ts by (simp_all add: td_owned_def)
  have e: "e < length (EDs s)" using t(2) td_relD(1)[OF rel] by (simp add: live_def ohci_sizes_def)
  let ?s1 = "upd_ED e (\<lambda>d. d\<lparr>HeadTD := td_next s t, Halted := (cc \<noteq> HCD_STATUS_OK)\<rparr>) s"
  let ?s2 = "hc_complete t cc cbp ?s1"
  have s': "s' = (set_next t (HcDoneHead s) ?s2)\<lparr>HcDoneHead := Some t\<rparr>"
    using r t by (auto simp: hc_retire_def Let_def hc_complete_def split: if_splits td.splits)
  have l2: "same_links ?s1 ?s2"
    by (cases t) (simp_all add: hc_complete_def same_links_upd_GTD same_links_upd_ITD)
  have c2: "td_cc ?s2 = (td_cc s)(t := cc)" "td_delay ?s2 = td_delay s" "HcdED ?s2 = HcdED ?s1"
    "staticEDs ?s2 = staticEDs s" "free_gtds ?s2 = free_gtds s"
    using at(1)
    by (cases t; auto simp: hc_complete_def td_cc_def td_delay_def fun_eq_iff HcdGTD_upd_GTD HcdITD_upd_ITD td_at_def td_in_def
        free_gtds_upd(1) split: td.split)+
  have dn: "td_in (x\<lparr>HcDoneHead := h\<rparr>) = td_in x \<and> td_next (x\<lparr>HcDoneHead := h\<rparr>) = td_next x \<and>
      td_inUse (x\<lparr>HcDoneHead := h\<rparr>) = td_inUse x \<and> td_ed (x\<lparr>HcDoneHead := h\<rparr>) = td_ed x \<and>
      td_cc (x\<lparr>HcDoneHead := h\<rparr>) = td_cc x \<and> td_delay (x\<lparr>HcDoneHead := h\<rparr>) = td_delay x \<and>
      HcdED (x\<lparr>HcDoneHead := h\<rparr>) = HcdED x \<and> ohci_sizes (x\<lparr>HcDoneHead := h\<rparr>) = ohci_sizes x \<and>
      free_gtds (x\<lparr>HcDoneHead := h\<rparr>) = free_gtds x" for x h
    by (simp add: td_defs HcdGTD_def HcdITD_def HcdED_def ohci_sizes_def free_gtds_def fun_eq_iff split: td.split)
  have t2: "td_in ?s2 t" using at(1) l2 by (simp add: same_links_def td_at_def)
  have E: "HcdED s' = (HcdED s)(e := (HcdED s e)\<lparr>HeadTD := td_next s t, Halted := (cc \<noteq> HCD_STATUS_OK)\<rparr>)"
    using s' dn c2(3) HcdED_upd_ED[OF e] by simp
  have N: "td_in s' = td_in s" "td_next s' = (td_next s)(t := HcDoneHead s)" "td_inUse s' = td_inUse s"
    "td_ed s' = td_ed s" "ohci_sizes s'" "td_cc s' = (td_cc s)(t := cc)" "td_delay s' = td_delay s"
    "staticEDs s' = staticEDs s" "free_gtds s' = free_gtds s" "HcDoneHead s' = Some t"
    using s' dn l2 c2 set_next_td[OF t2] td_relD(1)[OF rel] by (auto simp: same_links_def ohci_sizes_def)
  have "td_at s' (td_ed s' x) x" if "x \<in> set (t # D)" for x
    using that td_relD(5)[OF rel, of x] at(1) N E by (auto simp: td_at_def)
  then have "done_ok s' (Some t) (t # D)"
    using td_relD(4,7)[OF rel] at(2) N(2) by (simp add: done_ok_def del: fun_upd_apply) simp
  then have "td_rel s' (Q(e := ts)) (Some t) (t # D)"
    using N E at t(2) by (intro td_rel_pop[OF rel t(2) ts]) (auto simp: ed_view_def live_def)
  then show thesis using that[OF ts t(2)] N E by simp
qed

lemma hc_retire_inv:
  assumes "ohci_inv s" "hc_retire e cc cbp s = Some s'"
  shows "ohci_inv s'"
proof -
  obtain Q D L where QDL: "td_rel s Q (HcDoneHead s) D" "ed_rel s L" using assms(1) by (auto simp: ohci_inv_def)
  from QDL(1) assms(2) obtain t ts where r: "live s e" "td_rel s' (Q(e := ts)) (HcDoneHead s') (t # D)"
    "HcdED s' = (HcdED s)(e := (HcdED s e)\<lparr>HeadTD := td_next s t, Halted := (cc \<noteq> HCD_STATUS_OK)\<rparr>)"
    "staticEDs s' = staticEDs s" by (rule hc_retire_rel)
  have "ed_rel s' L" using r(3,4) by (intro ed_rel_frame[OF QDL(2)]) (auto simp: live_def)
  with r(2) show ?thesis by (rule ohci_invI)
qed

lemma quiet_port_change: "hcd_quiet s (port_change HostID r s)"
proof -
  have ack: "hcd_quiet s (ack_port x m s)" for x m s by (simp add: ack_port_def hcd_quiet_def)
  have "hcd_quiet s (if rd_csc r AND 0x10000 \<noteq> 0
     then OHciRhStatusChangeIsr HostID (rd_connect r AND 1) (log_io (Wr HcRhPortStatus1 0x10000) s) else s)"
    by (simp add: OHciRhStatusChangeIsr_def hcd_quiet_def same_links_def ohci_sizes_def)
  then show ?thesis unfolding port_change_def by (intro quiet_trans[OF _ ack])
qed

lemma done_head_same [simp]:
  "td_in (s\<lparr>HccaDoneHead := p, HcDoneHead := q\<rparr>) = td_in s" "td_next (s\<lparr>HccaDoneHead := p, HcDoneHead := q\<rparr>) = td_next s"
  "td_inUse (s\<lparr>HccaDoneHead := p, HcDoneHead := q\<rparr>) = td_inUse s" "td_ed (s\<lparr>HccaDoneHead := p, HcDoneHead := q\<rparr>) = td_ed s"
  "td_cc (s\<lparr>HccaDoneHead := p, HcDoneHead := q\<rparr>) = td_cc s" "td_delay (s\<lparr>HccaDoneHead := p, HcDoneHead := q\<rparr>) = td_delay s"
  "HcdED (s\<lparr>HccaDoneHead := p, HcDoneHead := q\<rparr>) = HcdED s" "ohci_sizes (s\<lparr>HccaDoneHead := p, HcDoneHead := q\<rparr>) = ohci_sizes s"
  "free_gtds (s\<lparr>HccaDoneHead := p, HcDoneHead := q\<rparr>) = free_gtds s"
  by (simp_all add: td_defs HcdGTD_def HcdITD_def HcdED_def ohci_sizes_def free_gtds_def fun_eq_iff split: td.split)

text \<open>The interrupt with a write-back: the done list is processed in the order in which its descriptors
  retired, the last one of an endpoint deciding its status, and all of them are free afterwards.\<close>

lemma hc_irq_done:
  assumes rel: "td_rel s Q (HcDoneHead s) D" and ed: "ed_rel s L"
    and w: "irq_status r AND 0x2 \<noteq> 0"
  obtains s' where "hc_irq r s = Some s'" "td_rel s' Q None []" "ed_rel s' L" "HcDoneHead s' = None"
    "\<forall>e < MAX_ED. HcdED s' e = settle_all s (rev D) e (HcdED s e)"
    "free_gtds s' = free_gtds s + length (filter (\<lambda>t. \<not> is_Itd t) D)"
proof -
  let ?st = "irq_status r"
  define s1 where "s1 = s\<lparr>HccaDoneHead := HcDoneHead s, HcDoneHead := None\<rparr>"
  have l1: "same_links s s1" by (simp add: s1_def same_links_def)
  define s2 where "s2 = (if ?st AND 0x40 \<noteq> 0 then port_change 0 r (log_io (Wr HcInterruptDisable 0x80000000) s1)
                          else log_io (Wr HcInterruptDisable 0x80000000) s1)"
  have q2: "hcd_quiet s1 s2"
    using quiet_trans[OF quiet_log quiet_port_change] by (simp add: s2_def)
  have acks: "HccaDoneHead (port_change 0 r x) = HccaDoneHead x \<and> HcdED (port_change 0 r x) = HcdED x \<and>
      td_cc (port_change 0 r x) = td_cc x \<and> td_delay (port_change 0 r x) = td_delay x \<and> free_gtds (port_change 0 r x) = free_gtds x" for x
    by (simp add: port_change_def ack_port_def OHciRhStatusChangeIsr_def)
  have f2: "HccaDoneHead s2 = HcDoneHead s" "HcdED s2 = HcdED s" "td_cc s2 = td_cc s" "td_delay s2 = td_delay s"
    "td_ed s2 = td_ed s" "free_gtds s2 = free_gtds s" "staticEDs s2 = staticEDs s" "HcDoneHead s2 = None"
    using acks q2 by (simp_all add: s2_def s1_def hcd_quiet_def same_links_def)
  have rel2: "td_rel s2 Q (HcDoneHead s) D"
    by (rule quiet_td_rel[OF q2 td_rel_frame[OF rel l1]])
  obtain s3 where s3: "ProcessDoneQueue (HcDoneHead s) s2 = Some s3" "td_rel s3 Q None []"
    "\<forall>e < MAX_ED. HcdED s3 e = settle_all s2 (rev D) e (HcdED s2 e)" "staticEDs s3 = staticEDs s2"
    "HcDoneHead s3 = HcDoneHead s2" "free_gtds s3 = free_gtds s2 + length (filter (\<lambda>t. \<not> is_Itd t) D)"
    by (rule ProcessDoneQueue_ok[OF rel2])
  let ?s4 = "log_io (Wr HcInterruptEnable 0x80000000) (log_io (Wr HcInterruptStatus ?st) s3)"
  have q4: "hcd_quiet s3 ?s4" by (simp add: hcd_quiet_def same_links_def ohci_sizes_def)
  have ne: "?st \<noteq> 0" using w by auto
  have "hc_irq r s = Some ?s4"
    using w ne s3(1) f2(1) by (simp add: hc_irq_def HcdIrqHandler_def s1_def[symmetric] Let_def s2_def[symmetric])
  moreover have "td_rel ?s4 Q None []" by (rule quiet_td_rel[OF q4 s3(2)])
  moreover have "ed_rel ?s4 L"
    using s3(3,4) f2 by (intro ed_rel_frame[OF ed]) (auto simp: live_def)
  moreover have "settle_all s2 (rev D) e d = settle_all s (rev D) e d" for e d by (rule settle_all_cong) (use f2 in auto)
  ultimately show thesis using that[of ?s4] s3(3,5,6) f2 by simp
qed

lemma hc_irq_other:
  assumes "\<not> irq_status r AND 0x2 \<noteq> 0"
  obtains s' where "hc_irq r s = Some s'" "hcd_quiet s s'"
proof (cases "irq_status r = 0")
  case True
  then show thesis using assms that[of s] by (simp add: hc_irq_def HcdIrqHandler_def hcd_quiet_def)
next
  case False
  let ?s1 = "log_io (Wr HcInterruptDisable 0x80000000) s"
  have "hcd_quiet ?s1 (if irq_status r AND 0x40 \<noteq> 0 then port_change 0 r ?s1 else ?s1)"
    using quiet_port_change by (simp add: hcd_quiet_def)
  from quiet_trans[OF quiet_trans[OF quiet_trans[OF quiet_log this] quiet_log] quiet_log]
  show thesis using that assms False by (simp add: hc_irq_def HcdIrqHandler_def Let_def)
qed

lemma hc_irq_inv:
  assumes "ohci_inv s"
  obtains s' where "hc_irq r s = Some s'" "ohci_inv s'"
proof (cases "irq_status r AND 0x2 \<noteq> 0")
  case True
  obtain Q D L where QDL: "td_rel s Q (HcDoneHead s) D" "ed_rel s L" using assms by (auto simp: ohci_inv_def)
  obtain s' where s': "hc_irq r s = Some s'" "td_rel s' Q None []" "ed_rel s' L" "HcDoneHead s' = None"
    by (rule hc_irq_done[OF QDL True])
  then have "ohci_inv s'" by (intro ohci_invI[of s' Q "[]" L]) simp_all
  with s'(1) show thesis by (rule that)
next
  case False
  then obtain s' where "hc_irq r s = Some s'" "hcd_quiet s s'" by (rule hc_irq_other)
  then show thesis using that quiet_inv assms by blast
qed

lemma hc_act_inv: "ohci_inv s \<Longrightarrow> hc_act a s = Some s' \<Longrightarrow> ohci_inv s'"
  using hc_retire_inv hc_irq_inv by (cases a) (auto, metis option.inject)

section \<open>Pipe handles\<close>

definition handle_ed :: "u32 \<Rightarrow> nat" where
  "handle_ed hdl = unat (hdl AND 0xFF)"

lemma PipehandleParse_cases:
  obtains "PipehandleParse hdl s = (HCD_STATUS_OK, ucast (drop_bit 8 hdl), handle_ed hdl)" "handle_ed hdl < MAX_ED"
      "ed_inUse (HcdED s (handle_ed hdl))"
  | "PipehandleParse hdl s = (HCD_STATUS_PIPEHANDLE_INVALID, ucast (drop_bit 8 hdl), handle_ed hdl)"
proof (cases "(ucast (drop_bit 8 hdl) :: u8) \<ge> MAX_USB_CORE \<or> handle_ed hdl \<ge> MAX_ED \<or> \<not> ed_inUse (HcdED s (handle_ed hdl))")
  case True
  then show thesis by (intro that(2)) (simp only: PipehandleParse_def Let_def handle_ed_def if_True)
next
  case False
  show thesis
  proof (rule that(1))
    show "PipehandleParse hdl s = (HCD_STATUS_OK, ucast (drop_bit 8 hdl), handle_ed hdl)"
      using False by (simp only: PipehandleParse_def Let_def handle_ed_def if_False)
    show "handle_ed hdl < MAX_ED" "ed_inUse (HcdED s (handle_ed hdl))" using False by simp_all
  qed
qed

lemma PipehandleParse_Create:
  assumes "e < MAX_ED" "ed_inUse (HcdED s e)"
  shows "PipehandleParse (PipehandleCreate 0 e) s = (HCD_STATUS_OK, 0, e)"
proof -
  have "e \<in> {0, 1, 2, 3, 4, 5, 6, 7}" using assms(1) by auto
  then show ?thesis using assms(2) by (auto simp: PipehandleParse_def PipehandleCreate_def Let_def)
qed

text \<open>A handle that the driver accepts and that is one of an open endpoint.\<close>

definition pipe_open :: "u32 \<Rightarrow> ohci \<Rightarrow> bool" where
  "pipe_open hdl s \<longleftrightarrow> fst (PipehandleParse hdl s) = HCD_STATUS_OK \<and> live s (handle_ed hdl)"

lemma pipe_open_parse: "pipe_open hdl s \<Longrightarrow> PipehandleParse hdl s = (HCD_STATUS_OK, ucast (drop_bit 8 hdl), handle_ed hdl)"
  by (cases rule: PipehandleParse_cases[of hdl s]) (auto simp: pipe_open_def)

section \<open>Cancelling and closing\<close>

lemma cancel_wait_empty:
  "HeadTD (HcdED s e) = TailP (HcdED s e) \<Longrightarrow> cancel_wait e sofs s = (if True \<in> set sofs then Some s else None)"
proof (induction sofs)
  case (Cons x xs)
  then show ?case by (cases x) (auto simp: cancel_tds.simps)
qed simp

lemma HcdCancelTransfer_rel:
  assumes rel: "td_rel s Q (HcDoneHead s) D" and ed: "ed_rel s L" and h: "pipe_open hdl s" and w: "True \<in> set sofs"
  obtains s' where "HcdCancelTransfer hdl (False # sofs) s = Some (HCD_STATUS_OK, s')"
    "td_rel s' (Q(handle_ed hdl := [])) (HcDoneHead s') D" "ed_rel s' L" "HcDoneHead s' = HcDoneHead s"
    "free_gtds s' = free_gtds s + (if Format (HcdED s (handle_ed hdl)) then 0 else length (Q (handle_ed hdl)))"
    "\<forall>e. live s' e = live s e \<and> Format (HcdED s' e) = Format (HcdED s e)"
proof -
  let ?e = "handle_ed hdl"
  have e: "live s ?e" using h by (simp add: pipe_open_def)
  have E: "?e < length (EDs s)" using e td_relD(1)[OF rel] by (simp add: live_def ohci_sizes_def)
  define s1 where "s1 = log_io (Wr HcInterruptStatus 0x4) (upd_ED ?e (\<lambda>d. d\<lparr>Skip := True\<rparr>) s)"
  have q1: "hcd_quiet s s1"
    unfolding s1_def by (rule quiet_trans[OF quiet_upd_ED quiet_log]) (simp add: ed_view_def)
  have e1: "live s1 ?e" using e quiet_live[OF q1] by simp
  have rel1: "td_rel s1 Q (HcDoneHead s) D" by (rule quiet_td_rel[OF q1 rel])
  obtain s2 where s2: "cancel_tds ?e s1 = Some s2" "td_rel s2 (Q(?e := [])) (HcDoneHead s) D"
    "\<forall>e'. e' \<noteq> ?e \<longrightarrow> HcdED s2 e' = HcdED s1 e'" "no_head (HcdED s2 ?e) = no_head (HcdED s1 ?e)"
    "staticEDs s2 = staticEDs s1" "HcDoneHead s2 = HcDoneHead s1"
    "free_gtds s2 = free_gtds s1 + (if Format (HcdED s1 ?e) then 0 else length (Q ?e))"
    using cancel_tds_ok[OF rel1 e1] by blast
  note nh = no_headD[OF s2(4)]
  have live2: "live s2 e' = live s1 e'" for e' using s2(3) nh by (cases "e' = ?e") (auto simp: live_def)
  have ed2: "ed_rel s2 L"
  proof (rule ed_rel_frame[OF quiet_ed_rel[OF q1 ed] s2(5) live2])
    show "NextED (HcdED s2 e') = NextED (HcdED s1 e') \<and> ListIndex (HcdED s2 e') = ListIndex (HcdED s1 e')" for e'
      using s2(3) nh by (cases "e' = ?e") auto
  qed
  have e2: "live s2 ?e" using e1 live2 by simp
  have ht: "HeadTD (HcdED s2 ?e) = TailP (HcdED s2 ?e)" using queue_okD(1)[OF s2(2) e2] by simp
  define s3 where "s3 = upd_ED ?e (\<lambda>d. d\<lparr>Skip := False\<rparr>) (upd_ED ?e (\<lambda>d. d\<lparr>ToggleCarry := False\<rparr>)
      (upd_ED ?e (\<lambda>d. set_HeadTD (TailP d) d) s2))"
  have E2: "?e < length (EDs s2)" using td_relD(1)[OF s2(2)] e by (simp add: live_def ohci_sizes_def)
  have q3: "hcd_quiet s2 s3"
  proof -
    have "hcd_quiet s2 (upd_ED ?e (\<lambda>d. set_HeadTD (TailP d) d) s2)"
      using ht by (simp add: hcd_quiet_def same_links_def ohci_sizes_def HcdED_upd_ED[OF E2] ed_view_def set_HeadTD_def)
    from quiet_trans[OF quiet_trans[OF this quiet_upd_ED] quiet_upd_ED]
    show ?thesis unfolding s3_def by (simp add: ed_view_def)
  qed
  have "HcdCancelTransfer hdl (False # sofs) s = Some (HCD_STATUS_OK, s3)"
    using w s2(1) cancel_wait_empty[OF ht]
    by (simp add: HcdCancelTransfer_def pipe_open_parse[OF h] s1_def[symmetric] s3_def[symmetric] Let_def)
  moreover have "\<forall>e'. live s3 e' = live s e' \<and> Format (HcdED s3 e') = Format (HcdED s e')"
  proof (intro allI conjI)
    fix e'
    show "live s3 e' = live s e'" using quiet_live[OF q3] quiet_live[OF q1] live2 by simp
    have "Format (HcdED s2 e') = Format (HcdED s1 e')" using s2(3) nh(2) by (cases "e' = ?e") auto
    then show "Format (HcdED s3 e') = Format (HcdED s e')"
      by (cases "e' = ?e") (simp_all add: s3_def s1_def HcdED_upd_ED[OF E] HcdED_upd_ED E2 set_HeadTD_def)
  qed
  moreover have "HcDoneHead s3 = HcDoneHead s" using q1 q3 s2(6) by (simp add: hcd_quiet_def)
  moreover have "free_gtds s3 = free_gtds s + (if Format (HcdED s ?e) then 0 else length (Q ?e))"
    using s2(7) by (simp add: s3_def s1_def HcdED_upd_ED[OF E])
  ultimately show thesis using quiet_td_rel[OF q3 s2(2)] quiet_ed_rel[OF q3 ed2] by (intro that[of s3]) simp_all
qed

text \<open>It ends only when the flag is seen set.\<close>

lemma HcdCancelTransfer_needs_sof:
  assumes rel: "td_rel s Q (HcDoneHead s) D" and h: "pipe_open hdl s"
    and r: "HcdCancelTransfer hdl (False # sofs) s = Some x"
  shows "True \<in> set sofs"
proof -
  let ?e = "handle_ed hdl"
  define s1 where "s1 = log_io (Wr HcInterruptStatus 0x4) (upd_ED ?e (\<lambda>d. d\<lparr>Skip := True\<rparr>) s)"
  have q1: "hcd_quiet s s1"
    unfolding s1_def by (rule quiet_trans[OF quiet_upd_ED quiet_log]) (simp add: ed_view_def)
  have e1: "live s1 ?e" using h quiet_live[OF q1] by (simp add: pipe_open_def)
  obtain s2 where s2: "cancel_tds ?e s1 = Some s2" "td_rel s2 (Q(?e := [])) (HcDoneHead s) D"
    "\<forall>e'. e' \<noteq> ?e \<longrightarrow> HcdED s2 e' = HcdED s1 e'" "no_head (HcdED s2 ?e) = no_head (HcdED s1 ?e)"
    using cancel_tds_ok[OF quiet_td_rel[OF q1 rel] e1] by blast
  have "live s2 ?e" using e1 no_headD(1)[OF s2(4)] no_headD(3)[OF s2(4)] by (simp add: live_def)
  from queue_okD(1)[OF s2(2) this] have ht: "HeadTD (HcdED s2 ?e) = TailP (HcdED s2 ?e)" by simp
  show ?thesis
    using r s2(1) cancel_wait_empty[OF ht, of sofs]
    by (simp add: HcdCancelTransfer_def pipe_open_parse[OF h] s1_def[symmetric] Let_def split: if_splits)
qed

lemma close_ed:
  assumes rel: "td_rel s Q dh D" and ed: "ed_rel s L" and e: "live s e" and Q: "Q e = []"
  obtains s1 s' L' where "RemoveEndpoint e s = Some s1" "FreeED e s1 = Some s'" "td_rel s' Q dh D" "ed_rel s' L'"
    "\<forall>x. live s' x \<longleftrightarrow> live s x \<and> x \<noteq> e" "HcDoneHead s' = HcDoneHead s"
    "free_gtds s' = free_gtds s + (if Format (HcdED s e) then 0 else 1)"
proof -
  note sz = td_relD(1)[OF rel]
  obtain p s3 L' where s3: "RemoveEndpoint e s = Some s3" "ed_in s p" "s3 = set_NextED p (NextED (HcdED s e)) s"
    "ed_lists s3 L' (\<lambda>x. live s x \<and> x \<noteq> e)"
    by (rule RemoveEndpoint_lists[OF ed[unfolded ed_rel_def] e sz])
  have l3: "same_links s s3" unfolding s3(3) by (rule same_links_set_NextED[OF s3(2)])
  have rel3: "td_rel s3 Q dh D" by (rule td_rel_frame[OF rel l3])
  have live3: "live s3 x = live s x" for x by (rule live_same_links[OF l3])
  have e3: "live s3 e" using live3 e by simp
  obtain q where q: "TailP (HcdED s3 e) = Some q" "is_Itd q = Format (HcdED s3 e)" "td_at s3 e q"
    by (rule placeholder_at[OF rel3 e3])
  have qin: "td_in s3 q" "td_inUse s3 q" using q(3) by (simp_all add: td_at_def)
  obtain s4 where s4: "free_td e (Some q) s3 = Some s4" "freed q s3 s4" by (rule free_td_freed[OF qin(1) q(2)])
  define s5 where "s5 = upd_ED e (\<lambda>d. d\<lparr>ed_status := HCD_STATUS_TRANSFER_NotAccessed, ed_inUse := False\<rparr>) s4"
  have E: "e < length (EDs s4)" using s4(2) td_relD(1)[OF rel3] e3 by (simp add: freed_def live_def ohci_sizes_def)
  have E5: "HcdED s5 = (HcdED s3)(e := (HcdED s3 e)\<lparr>ed_status := HCD_STATUS_TRANSFER_NotAccessed, ed_inUse := False\<rparr>)"
    using s4(2) by (simp add: s5_def HcdED_upd_ED[OF E] freed_def)
  have f5: "ohci_sizes s5" "td_in s5 = td_in s3" "td_ed s5 = td_ed s3" "td_next s5 = td_next s3"
    "td_inUse s5 = (td_inUse s3)(q := False)" "staticEDs s5 = staticEDs s3" "HcDoneHead s5 = HcDoneHead s"
    "free_gtds s5 = free_gtds s + (if is_Itd q then 0 else 1)"
    using s4(2) td_relD(1)[OF rel3] qin(2) by (simp_all add: s5_def freed_def ohci_sizes_def s3(3))
  have rel5: "td_rel s5 Q dh D"
    by (rule td_rel_close[OF rel3 e3 Q q(1) f5(1-5)]) (simp_all add: E5)
  have live5: "live s5 x \<longleftrightarrow> live s x \<and> x \<noteq> e" for x
    using E5 live3[of x] by (cases "x = e") (simp_all add: live_def)
  have "ed_lists s5 L' (\<lambda>x. live s x \<and> x \<noteq> e)"
    by (rule ed_lists_frame[OF s3(4) f5(6)]) (simp add: E5)
  moreover have "live s5 = (\<lambda>x. live s x \<and> x \<noteq> e)" using live5 by (rule ext)
  ultimately have "ed_rel s5 L'" by (simp add: ed_rel_def)
  moreover have "FreeED e s3 = Some s5" using s4(1) q(1) by (simp add: FreeED_def s5_def)
  moreover have "is_Itd q = Format (HcdED s e)" using q(2) s3(2,3) by (simp add: HcdED_set_NextED split: if_splits)
  ultimately show thesis using that[OF s3(1)] rel5 live5 f5(7,8) by simp
qed

lemma HcdClosePipe_rel:
  assumes rel: "td_rel s Q (HcDoneHead s) D" and ed: "ed_rel s L" and h: "pipe_open hdl s" and w: "True \<in> set sofs"
  obtains s' Q' L' where "HcdClosePipe_ohci hdl (False # sofs) s = Some (HCD_STATUS_OK, s')"
    "td_rel s' Q' (HcDoneHead s') D" "ed_rel s' L'"
    "free_gtds s' = free_gtds s + (if Format (HcdED s (handle_ed hdl)) then 0 else length (Q (handle_ed hdl)) + 1)"
    "\<forall>e. live s' e \<longleftrightarrow> live s e \<and> e \<noteq> handle_ed hdl"
proof -
  let ?e = "handle_ed hdl"
  have e: "live s ?e" using h by (simp add: pipe_open_def)
  obtain s1 where s1: "HcdCancelTransfer hdl (False # sofs) s = Some (HCD_STATUS_OK, s1)"
    "td_rel s1 (Q(?e := [])) (HcDoneHead s1) D" "ed_rel s1 L" "HcDoneHead s1 = HcDoneHead s"
    "free_gtds s1 = free_gtds s + (if Format (HcdED s ?e) then 0 else length (Q ?e))"
    "\<forall>e. live s1 e = live s e \<and> Format (HcdED s1 e) = Format (HcdED s e)"
    by (rule HcdCancelTransfer_rel[OF rel ed h w])
  define s2 where "s2 = upd_ED ?e (\<lambda>d. d\<lparr>Skip := True\<rparr>) s1"
  have q2: "hcd_quiet s1 s2" unfolding s2_def by (rule quiet_upd_ED) (simp add: ed_view_def)
  have e2: "live s2 ?e" using e s1(6) quiet_live[OF q2] by simp
  have E1: "?e < length (EDs s1)" using td_relD(1)[OF s1(2)] e by (simp add: live_def ohci_sizes_def)
  obtain s3 s4 L' where s4: "RemoveEndpoint ?e s2 = Some s3" "FreeED ?e s3 = Some s4"
    "td_rel s4 (Q(?e := [])) (HcDoneHead s1) D" "ed_rel s4 L'" "\<forall>x. live s4 x \<longleftrightarrow> live s2 x \<and> x \<noteq> ?e"
    "HcDoneHead s4 = HcDoneHead s2" "free_gtds s4 = free_gtds s2 + (if Format (HcdED s2 ?e) then 0 else 1)"
    by (rule close_ed[OF quiet_td_rel[OF q2 s1(2)] quiet_ed_rel[OF q2 s1(3)] e2]) simp_all
  show thesis
  proof (rule that)
    show "HcdClosePipe_ohci hdl (False # sofs) s = Some (HCD_STATUS_OK, s4)"
      using s1(1) s4(1,2) by (simp add: HcdClosePipe_ohci_def pipe_open_parse[OF h] s2_def[symmetric])
    have "HcDoneHead s2 = HcDoneHead s1" using q2 by (simp add: hcd_quiet_def)
    then show "td_rel s4 (Q(?e := [])) (HcDoneHead s4) D" using s4(3,6) by simp
    show "ed_rel s4 L'" by (rule s4(4))
    show "free_gtds s4 = free_gtds s + (if Format (HcdED s ?e) then 0 else length (Q ?e) + 1)"
      using s4(7) s1(5,6) by (simp add: s2_def HcdED_upd_ED[OF E1])
    show "\<forall>e. live s4 e \<longleftrightarrow> live s e \<and> e \<noteq> ?e" using s4(5) s1(6) quiet_live[OF q2] by simp
  qed
qed

section \<open>Transfers\<close>

lemma QueueOneITD_rel:
  assumes rel: "td_rel s Q dh D" and e: "live s e" "Format (HcdED s e)" and m: "MaxPackageSize (HcdED s e) \<noteq> 0"
  obtains st s' Q' where "QueueOneITD e buf len frame s = Some (st, s')" "td_rel s' Q' dh D"
    "queue_frame e {} s s'" "free_gtds s' = free_gtds s"
proof -
  obtain q where q: "TailP (HcdED s e) = Some q" "is_Itd q = Format (HcdED s e)" "td_at s e q"
    by (rule placeholder_at[OF rel e(1)])
  obtain i where i: "q = Itd i" using q(2) e(2) by (cases q) auto
  let ?mps = "ucast (MaxPackageSize (HcdED s e)) :: u32"
  have m0: "?mps \<noteq> 0" using m by (simp add: word_unat_eq_iff unat_ucast_u16)
  define f where "f = (\<lambda>d :: HCD_IsoTransferDescriptor. d\<lparr>StartingFrame := frame,
       FrameCount := ucast (len div ?mps + (if len mod ?mps \<noteq> 0 then 1 else 0) - 1) AND 7,
       BufferPage0 := Align4k buf, i_BufferEnd := buf + len - 1,
       OffsetPSW := itd_psw 8 (Align4k buf) ?mps len buf (OffsetPSW d)\<rparr>)"
  let ?s = "upd_ITD i f s"
  have l: "same_links s ?s" by (rule same_links_upd_ITD) (simp add: f_def)
  have rel1: "td_rel ?s Q dh D" by (rule td_rel_frame[OF rel l])
  have u: "td_inUse ?s (Itd i)" "i < MAX_ITD" "e < MAX_ED"
    using q(3) i l td_relD(1)[OF rel] by (auto simp: same_links_def td_at_def td_in_def ohci_sizes_def)
  have one: "QueueOneITD e buf len frame s = AllocItdForEd e ?s"
    unfolding QueueOneITD_def Let_def f_def using q(1) i m0 by (simp only: option.case td.case if_False)
  have t: "TailP (HcdED ?s e) = Some (Itd i)" using q(1) i by simp
  from AllocItdForEd_extend[OF td_relD(1)[OF rel1] u(3) t u(2,1)]
  consider "AllocItdForEd e ?s = Some (HCD_STATUS_NOT_ENOUGH_ITD, ?s)"
    | j s' where "AllocItdForEd e ?s = Some (HCD_STATUS_OK, s')" "extended e (Itd i) (Itd j) ?s s'" by blast
  then show thesis
  proof cases
    case 1
    then show thesis by (rule that[OF one[THEN trans] rel1]) (simp_all add: queue_frame_def)
  next
    case 2
    have e1: "live ?s e" using live_same_links[OF l] e(1) by simp
    have "td_rel s' (Q(e := Q e @ [Itd i])) dh D"
      by (rule extended_td_rel[OF rel1 e1 t _ 2(2)]) (use e(2) in simp)
    moreover have "queue_frame e {} s s'"
      using 2(2) q(1) by (simp add: extended_def queue_frame_def)
    moreover have "free_gtds s' = free_gtds s" using 2(2) by (simp add: extended_def)
    ultimately show thesis using that one 2(1) by simp
  qed
qed

lemma queue_itds_rel:
  assumes "td_rel s Q dh D" "live s e" "Format (HcdED s e)" "MaxPackageSize (HcdED s e) \<noteq> 0" "maxdata \<noteq> 0"
  shows "\<exists>st s' Q'. queue_itds e maxdata frame buf len s = Some (st, s') \<and> td_rel s' Q' dh D \<and>
    queue_frame e {} s s' \<and> free_gtds s' = free_gtds s"
  using assms
proof (induction e maxdata frame buf len s arbitrary: Q rule: queue_itds.induct)
  case (1 e maxdata frame buf len s)
  note rel = 1(2) and e = 1(3,4) and m = 1(5) and x = 1(6)
  show ?case
  proof (cases "0 < len")
    case False
    then show ?thesis using rel by (auto simp: queue_itds.simps)
  next
    case len: True
    let ?n = "itd_chunk maxdata buf len"
    obtain st s1 Q1 where s1: "QueueOneITD e buf ?n (ucast frame) s = Some (st, s1)" "td_rel s1 Q1 dh D"
      "queue_frame e {} s s1" "free_gtds s1 = free_gtds s"
      by (rule QueueOneITD_rel[OF rel e m])
    show ?thesis
    proof (cases "st = HCD_STATUS_OK")
      case False
      then show ?thesis using s1 len x by (subst queue_itds.simps) (auto simp: Let_def)
    next
      case True
      have e1: "live s1 e" "Format (HcdED s1 e)" "MaxPackageSize (HcdED s1 e) \<noteq> 0"
        using e m queue_frame_live[OF s1(3)] queue_frame_ED(2)[OF s1(3)] queue_frame_ED(6)[OF s1(3)] by simp_all
      obtain st' s2 Q2 where s2: "queue_itds e maxdata ((frame + 1) mod 0x10000) (buf + ?n) (len - ?n) s1 = Some (st', s2)"
        "td_rel s2 Q2 dh D" "queue_frame e {} s1 s2" "free_gtds s2 = free_gtds s1"
        using 1(1)[OF len x refl refl s1(1) refl _ s1(2) e1 x] True by auto
      have "queue_itds e maxdata frame buf len s = Some (st', s2)"
        using len x s1(1) s2(1) True by (subst queue_itds.simps) (simp add: Let_def)
      then show ?thesis using s1(4) s2(2,4) queue_frame_trans[OF s1(3) s2(3)] by auto
    qed
  qed
qed

text \<open>An unfinished pipe set-up cannot be transferred on; for the others a data transfer returns and keeps
  the lists, whether or not the descriptors suffice.\<close>

lemma MaxPackageSize_ucast: "(x :: u16) \<noteq> 0 \<Longrightarrow> (8 * ucast x :: u32) \<noteq> 0"
proof -
  assume a: "x \<noteq> 0"
  have "unat x < 65536" using unat_u16_lt[of x] by simp
  then have "8 * unat x < 4294967296" by linarith
  then have "unat (8 * ucast x :: u32) = 8 * unat x"
    by (simp add: unat_ucast_u16 unat_word_ariths)
  then show ?thesis using a by (auto simp: word_unat_eq_iff)
qed

lemma QueueGTDs_rel:
  assumes "td_rel s Q dh D" "live s e" "\<not> Format (HcdED s e)"
  shows "\<exists>st s' Q'. QueueGTDs e buf len dir s = Some (st, s') \<and> td_rel s' Q' dh D \<and> queue_frame e {} s s'"
  using assms
proof (induction buf len arbitrary: s Q rule: gtd_pieces.induct)
  case (1 buf len)
  note rel = 1(2) and e = 1(3,4)
  show ?case
  proof (cases "0 < len")
    case False
    then show ?thesis using rel by (auto simp: QueueGTDs.simps)
  next
    case len: True
    let ?n = "gtd_chunk buf len"
    show ?thesis
    proof (cases "free_gtds s = 0")
      case True
      obtain s' where "QueueOneGTD e buf ?n dir 0 (len - ?n = 0) s = Some (HCD_STATUS_NOT_ENOUGH_GTD, s')"
        "td_rel s' Q dh D" "queue_frame e (queued_tds s Q D) s s'"
        using QueueOneGTD_full[OF rel e True] by blast
      moreover from this(3) have "queue_frame e {} s s'" by (simp add: queue_frame_def)
      ultimately show ?thesis by (auto simp: QueueGTDs_step[OF len])
    next
      case False
      then have fr: "0 < free_gtds s" by simp
      obtain s1 i where s1: "QueueOneGTD e buf ?n dir 0 (len - ?n = 0) s = Some (HCD_STATUS_OK, s1)"
        "td_rel s1 (Q(e := Q e @ [Gtd i])) dh D" "queue_frame e (queued_tds s Q D) s s1"
        by (rule QueueOneGTD_ok[OF rel e fr, of buf ?n dir 0 "len - ?n = 0"])
      have f1: "queue_frame e {} s s1" using s1(3) by (simp add: queue_frame_def)
      have e1: "live s1 e" "\<not> Format (HcdED s1 e)"
        using e queue_frame_live[OF s1(3)] queue_frame_ED(2)[OF s1(3)] by simp_all
      obtain st s2 Q2 where s2: "QueueGTDs e (buf + ?n) (len - ?n) dir s1 = Some (st, s2)" "td_rel s2 Q2 dh D" "queue_frame e {} s1 s2"
        using 1(1)[OF len s1(2) e1] by blast
      then show ?thesis
        using queue_frame_trans[OF f1 s2(3)] s1(1) by (auto simp: QueueGTDs_step[OF len])
    qed
  qed
qed

lemma HcdDataTransfer_inv:
  assumes inv: "ohci_inv s" and h: "pipe_open hdl s"
    and iso: "Format (HcdED s (handle_ed hdl)) \<longrightarrow> MaxPackageSize (HcdED s (handle_ed hdl)) \<noteq> 0"
  obtains st s' where "HcdDataTransfer_ohci hdl buf len pActual cs s = Some (st, s')" "ohci_inv s'"
proof -
  let ?e = "handle_ed hdl"
  let ?n = "if len \<noteq> HCD_ENDPOINT_MAXPACKET_XFER_LEN then len else ucast (MaxPackageSize (HcdED s ?e))"
  obtain Q D L where QDL: "td_rel s Q (HcDoneHead s) D" "ed_rel s L" using inv by (auto simp: ohci_inv_def)
  have e: "live s ?e" using h by (simp add: pipe_open_def)
  have "\<exists>st s1 Q'. (if IsIsoEndpoint ?e s then QueueITDs ?e buf ?n s else QueueGTDs ?e buf ?n 0 s) = Some (st, s1) \<and>
      td_rel s1 Q' (HcDoneHead s) D \<and> queue_frame ?e {} s s1"
  proof (cases "Format (HcdED s ?e)")
    case True
    then show ?thesis
      using queue_itds_rel[OF QDL(1) e True _ MaxPackageSize_ucast] iso
      by (simp add: IsIsoEndpoint_def QueueITDs_def) blast
  next
    case False
    then show ?thesis using QueueGTDs_rel[OF QDL(1) e False] by (simp add: IsIsoEndpoint_def)
  qed
  then obtain st s1 Q' where s1:
    "(if IsIsoEndpoint ?e s then QueueITDs ?e buf ?n s else QueueGTDs ?e buf ?n 0 s) = Some (st, s1)"
    "td_rel s1 Q' (HcDoneHead s) D" "queue_frame ?e {} s s1" by blast
  have inv1: "ohci_inv s1" by (rule queue_frame_inv[OF s1(3,2) QDL(2)])
  let ?f = "upd_ED ?e (\<lambda>d. d\<lparr>ed_status := HCD_STATUS_TRANSFER_QUEUED, pActualTransferCount := pActual\<rparr>)"
  have q: "hcd_quiet x (?f x)" for x by (rule quiet_upd_ED) (simp add: ed_view_def)
  have inv2: "ohci_inv (?f s1)" "ohci_inv (?f (log_io y s1))" "ohci_inv (log_io y s1)" for y
    using quiet_inv[OF q inv1] quiet_inv[OF quiet_trans[OF quiet_log q] inv1] quiet_inv[OF quiet_log inv1] by auto
  show thesis
    using that inv inv1 inv2 s1(1)
    by (cases "buf = 0 \<or> len = 0"; cases "Halted (HcdED s ?e)"; cases "IsIsoEndpoint ?e s"; cases "st = HCD_STATUS_OK";
        cases "ListIndex (HcdED s1 ?e) = BULK_LIST_HEAD")
      (simp_all add: HcdDataTransfer_ohci_def pipe_open_parse[OF h] Let_def)
qed

lemma QueueOneGTD_rel:
  assumes rel: "td_rel s Q dh D" and e: "live s e" "\<not> Format (HcdED s e)"
  obtains st s' Q' where "QueueOneGTD e buf len pid toggle ioc s = Some (st, s')" "td_rel s' Q' dh D" "queue_frame e {} s s'"
proof (cases "free_gtds s = 0")
  case True
  obtain s' where "QueueOneGTD e buf len pid toggle ioc s = Some (HCD_STATUS_NOT_ENOUGH_GTD, s')"
    "td_rel s' Q dh D" "queue_frame e (queued_tds s Q D) s s'"
    using QueueOneGTD_full[OF rel e True] by blast
  then show thesis using that by (simp add: queue_frame_def)
next
  case False
  then have fr: "0 < free_gtds s" by simp
  obtain s' i where "QueueOneGTD e buf len pid toggle ioc s = Some (HCD_STATUS_OK, s')"
    "td_rel s' (Q(e := Q e @ [Gtd i])) dh D" "queue_frame e (queued_tds s Q D) s s'"
    by (rule QueueOneGTD_ok[OF rel e fr, of buf len pid toggle ioc])
  then show thesis using that by (simp add: queue_frame_def)
qed

lemma queue_control_rel:
  assumes rel: "td_rel s Q dh D" and e: "live s e" "\<not> Format (HcdED s e)"
  obtains st s' Q' where "queue_control e preq req buf s = Some (st, s')" "td_rel s' Q' dh D" "queue_frame e {} s s'"
proof -
  let ?in = "bmRequestType req AND 0x80 \<noteq> 0"
  have next_e: "live x e \<and> \<not> Format (HcdED x e)" if "queue_frame e {} s x" for x
    using e queue_frame_live[OF that] queue_frame_ED(2)[OF that] by simp
  obtain st1 s1 Q1 where s1: "QueueOneGTD e preq 8 0 2 False s = Some (st1, s1)" "td_rel s1 Q1 dh D" "queue_frame e {} s s1"
    by (rule QueueOneGTD_rel[OF rel e])
  have "\<exists>st2 s2 Q2. (if wLength req \<noteq> 0 then QueueOneGTD e buf (ucast (wLength req)) (if ?in then 2 else 1) 3 False s1
      else Some (HCD_STATUS_OK, s1)) = Some (st2, s2) \<and> td_rel s2 Q2 dh D \<and> queue_frame e {} s s2"
  proof (cases "wLength req = 0")
    case False
    obtain st2 s2 Q2 where "QueueOneGTD e buf (ucast (wLength req)) (if ?in then 2 else 1) 3 False s1 = Some (st2, s2)"
      "td_rel s2 Q2 dh D" "queue_frame e {} s1 s2"
      using QueueOneGTD_rel[OF s1(2)] next_e[OF s1(3)] by metis
    then show ?thesis using False queue_frame_trans[OF s1(3)] by auto
  qed (use s1 in auto)
  then obtain st2 s2 Q2 where s2: "(if wLength req \<noteq> 0 then QueueOneGTD e buf (ucast (wLength req)) (if ?in then 2 else 1) 3 False s1
      else Some (HCD_STATUS_OK, s1)) = Some (st2, s2)" "td_rel s2 Q2 dh D" "queue_frame e {} s s2" by blast
  obtain st3 s3 Q3 where s3: "QueueOneGTD e 0 0 (if ?in then 1 else 2) 3 True s2 = Some (st3, s3)"
      "td_rel s3 Q3 dh D" "queue_frame e {} s2 s3"
    using QueueOneGTD_rel[OF s2(2)] next_e[OF s2(3)] by metis
  have f3: "queue_frame e {} s s3" using queue_frame_trans[OF s2(3) s3(3)] by simp
  show thesis
  proof (cases "st1 = HCD_STATUS_OK")
    case False
    then show thesis using that[OF _ s1(2,3)] s1(1) by (simp add: queue_control_def Let_def)
  next
    case True
    note q = queue_control_def Let_def s1(1) True s2(1) Option.bind_lunit prod.case simp_thms if_True if_False
    show thesis
    proof (cases "st2 = HCD_STATUS_OK")
      case False
      have "queue_control e preq req buf s = Some (st2, s2)" by (simp only: q False)
      then show thesis using that s2(2,3) by blast
    next
      case ok2: True
      have "queue_control e preq req buf s = Some (st3, s3)" by (simp only: q ok2 s3(1))
      then show thesis using that s3(2) f3 by blast
    qed
  qed
qed

lemma WaitForTransferComplete_inv:
  "ohci_inv s \<Longrightarrow> WaitForTransferComplete e (map hc_act as) s = Some (st, s') \<Longrightarrow> ohci_inv s'"
proof (induction as arbitrary: s)
  case (Cons a as)
  show ?case
  proof (cases "ed_status (HcdED s e) = HCD_STATUS_TRANSFER_QUEUED")
    case True
    then obtain s1 where "hc_act a s = Some s1" "WaitForTransferComplete e (map hc_act as) s1 = Some (st, s')"
      using Cons.prems(2) by (auto split: Option.bind_splits)
    then show ?thesis using Cons.IH hc_act_inv[OF Cons.prems(1)] by blast
  qed (use Cons.prems in auto)
qed (auto split: if_splits)

lemma HcdControlTransfer_inv:
  assumes inv: "ohci_inv s" and h: "pipe_open hdl s" and iso: "\<not> Format (HcdED s (handle_ed hdl))"
    and r: "HcdControlTransfer_ohci hdl preq req buf cs (map hc_act as) s = Some (st, s')"
  shows "ohci_inv s'"
proof -
  let ?e = "handle_ed hdl"
  obtain Q D L where QDL: "td_rel s Q (HcDoneHead s) D" "ed_rel s L" using inv by (auto simp: ohci_inv_def)
  have e: "live s ?e" using h by (simp add: pipe_open_def)
  obtain st1 s1 Q1 where s1: "queue_control ?e preq req buf s = Some (st1, s1)" "td_rel s1 Q1 (HcDoneHead s) D"
    "queue_frame ?e {} s s1" by (rule queue_control_rel[OF QDL(1) e iso])
  have inv1: "ohci_inv s1" by (rule queue_frame_inv[OF s1(3,2) QDL(2)])
  let ?s2 = "upd_ED ?e (\<lambda>d. d\<lparr>ed_status := HCD_STATUS_TRANSFER_QUEUED\<rparr>) (log_io (Wr HcCommandStatus (cs OR 0x2)) s1)"
  have "hcd_quiet s1 ?s2" by (rule quiet_trans[OF quiet_log quiet_upd_ED]) (simp add: ed_view_def)
  then have inv2: "ohci_inv ?s2" using quiet_inv inv1 by blast
  show ?thesis
    using r inv inv1 s1(1) WaitForTransferComplete_inv[OF inv2, of ?e as st s']
    by (auto simp: HcdControlTransfer_ohci_def pipe_open_parse[OF h] split: if_splits)
qed

section \<open>Opening a pipe\<close>

text \<open>An endpoint without a queue can be written over, when nothing of it is on the done list.\<close>

lemma td_rel_dead:
  assumes rel: "td_rel s Q dh D" and e: "e < MAX_ED" "\<not> live s e" and D: "\<And>d. d \<in> set D \<Longrightarrow> td_ed s d \<noteq> e"
    and s': "s' = upd_ED e f s" "\<not> live s' e"
  shows "td_rel s' Q dh D"
proof -
  have E: "HcdED s' = (HcdED s)(e := f (HcdED s e))"
    using td_relD(1)[OF rel] e(1) by (simp add: s'(1) HcdED_upd_ED ohci_sizes_def)
  have live: "live s' x = live s x" for x using E e(2) s'(2) by (cases "x = e") (auto simp: live_def)
  have own: "td_owned s' Q x = td_owned s Q x" if "live s x" for x
    using that e(2) E by (cases "x = e") (auto simp: td_owned_def)
  have "queue_ok s' Q D x" if l: "live s x" for x
  proof -
    have "x \<noteq> e" using l e(2) by auto
    then show ?thesis
      using queue_okD(5)[OF rel l] E s'(1)
      by (intro queue_ok_frame[OF td_relD(2)[OF rel l]]) (auto simp: td_owned_def)
  qed
  moreover have "done_ok s' dh D"
    by (rule done_frame[OF td_relD(3)[OF rel]]) (use E D s'(1) in auto)
  moreover have "x \<in> set D \<or> (\<exists>e. live s e \<and> x \<in> set (td_owned s' Q e))" if "td_in s x" "td_inUse s x" for x
    using td_relD(6)[OF rel that] own by auto
  moreover have "ohci_sizes s'" using td_relD(1)[OF rel] by (simp add: s'(1) ohci_sizes_def)
  ultimately show ?thesis using s'(1) live by (simp add: td_rel_def)
qed

lemma init_ed_fields [simp]:
  "TailP (init_ed dev speed ep ty dir mps i) = None" "ed_inUse (init_ed dev speed ep ty dir mps i)"
  "Format (init_ed dev speed ep ty dir mps i) \<longleftrightarrow> ty = ISOCHRONOUS_TRANSFER"
  by (simp_all add: init_ed_def blank_ed_def)

text \<open>The first placeholder, of either kind.\<close>

lemma alloc_first:
  assumes sz: "ohci_sizes s" and e: "e < MAX_ED" "TailP (HcdED s e) = None"
  obtains st where "st \<noteq> HCD_STATUS_OK"
      "(if isoc then AllocItdForEd e s else AllocGtdForEd e s) = Some (st, s)"
  | t s' where "(if isoc then AllocItdForEd e s else AllocGtdForEd e s) = Some (HCD_STATUS_OK, s')"
      "td_in s t" "\<not> td_inUse s t" "is_Itd t = isoc" "ohci_sizes s'" "td_in s' = td_in s" "td_next s' = (td_next s)(t := None)"
      "td_inUse s' = (td_inUse s)(t := True)" "td_ed s' = (td_ed s)(t := e)"
      "HcdED s' = (HcdED s)(e := (set_HeadTD (Some t) (HcdED s e))\<lparr>TailP := Some t\<rparr>)"
      "staticEDs s' = staticEDs s" "HcDoneHead s' = HcDoneHead s" "td_delay s' t = 0"
proof (cases isoc)
  case True
  show thesis
  proof (cases "find_idx (\<lambda>g. \<not> i_inUse g) (iTDs s)")
    case None
    then show thesis using True by (intro that(1)[of HCD_STATUS_NOT_ENOUGH_ITD]) (simp_all add: AllocItdForEd_def)
  next
    case (Some i)
    note i' = find_idx_SomeD[OF Some]
    define s1 where "s1 = upd_ITD i (\<lambda>_. blank_itd\<lparr>i_inUse := True, i_EdIdx := e, i_ConditionCode := HCD_STATUS_TRANSFER_NotAccessed\<rparr>) s"
    define s2 where "s2 = upd_ED e (\<lambda>d. (set_HeadTD (Some (Itd i)) d)\<lparr>TailP := Some (Itd i)\<rparr>) s1"
    have E: "e < length (EDs s1)" using e sz by (simp add: s1_def ohci_sizes_def)
    have "AllocItdForEd e s = Some (HCD_STATUS_OK, s2)"
      using Some e(2) by (simp add: AllocItdForEd_def Let_def s1_def s2_def)
    then show thesis
      using True i' sz HcdED_upd_ED[OF E]
      by (intro that(2)[of s2 "Itd i"])
        (simp_all add: s2_def s1_def upd_ITD_td[OF i'(1)] td_in_def td_inUse_def HcdITD_def ohci_sizes_def,
         simp_all add: td_delay_def HcdITD_upd_ITD[OF i'(1)])
  qed
next
  case False
  show thesis
  proof (cases "find_idx (\<lambda>g. \<not> g_inUse g) (gTDs s)")
    case None
    then show thesis using False by (intro that(1)[of HCD_STATUS_NOT_ENOUGH_GTD]) (simp_all add: AllocGtdForEd_def)
  next
    case (Some i)
    note i' = find_idx_SomeD[OF Some]
    define s1 where "s1 = upd_GTD i (\<lambda>_. blank_gtd\<lparr>g_inUse := True, g_EdIdx := e, BufferRounding := True, g_ConditionCode := HCD_STATUS_TRANSFER_NotAccessed\<rparr>) s"
    define s2 where "s2 = upd_ED e (\<lambda>d. (set_HeadTD (Some (Gtd i)) d)\<lparr>TailP := Some (Gtd i)\<rparr>) s1"
    have E: "e < length (EDs s1)" using e sz by (simp add: s1_def ohci_sizes_def)
    have "AllocGtdForEd e s = Some (HCD_STATUS_OK, s2)"
      using Some e(2) by (simp add: AllocGtdForEd_def Let_def s1_def s2_def)
    then show thesis
      using False i' sz HcdED_upd_ED[OF E]
      by (intro that(2)[of s2 "Gtd i"])
        (simp_all add: s2_def s1_def upd_GTD_td[OF i'(1)] td_in_def td_inUse_def HcdGTD_def ohci_sizes_def blank_gtd_def,
         simp_all add: td_delay_def HcdGTD_upd_GTD[OF i'(1)])
  qed
qed

lemma Verify_OK_HostID: "OpenPipe_VerifyParameters HostID dev speed ep ty dir mps i m = HCD_STATUS_OK \<Longrightarrow> HostID = 0"
  by (simp add: OpenPipe_VerifyParameters_def word_less_1 not_le split: if_splits)

text \<open>The allocation of an endpoint: it fails and leaves the lists as they were (except that an endpoint
  without a descriptor stays allocated), or it gives an endpoint that was not in use, with a placeholder
  as its queue.\<close>

lemma AllocEd_rel:
  assumes rel: "td_rel s Q None []" and ed: "ed_lists s L (live s)"
  obtains st e s' where "st \<noteq> HCD_STATUS_OK" "AllocEd dev speed ep ty dir mps i s = Some (st, e, s')"
      "td_rel s' Q None []" "ed_lists s' L (live s)" "live s' = live s" "HcDoneHead s' = HcDoneHead s"
  | e s' where "AllocEd dev speed ep ty dir mps i s = Some (HCD_STATUS_OK, e, s')" "e < MAX_ED" "\<not> live s e"
      "td_rel s' (Q(e := [])) None []" "ed_lists s' L (live s)" "live s' = (\<lambda>x. x = e \<or> live s x)" "HcDoneHead s' = HcDoneHead s"
      "td_delay s' (the (TailP (HcdED s' e))) = 0" "Format (HcdED s' e) \<longleftrightarrow> ty = ISOCHRONOUS_TRANSFER"
proof (cases "find_idx (\<lambda>d. \<not> ed_inUse d) (EDs s)")
  case None
  then show thesis using rel ed by (intro that(1)[of HCD_STATUS_NOT_ENOUGH_ENDPOINT 8 s]) (simp_all add: AllocEd_def)
next
  case (Some e)
  note sz = td_relD(1)[OF rel]
  have e: "e < MAX_ED" "\<not> live s e"
    using find_idx_SomeD[OF Some] sz by (simp_all add: ohci_sizes_def live_def HcdED_def)
  define s1 where "s1 = upd_ED e (\<lambda>_. init_ed dev speed ep ty dir mps i) s"
  have E1: "HcdED s1 = (HcdED s)(e := init_ed dev speed ep ty dir mps i)"
    using sz e(1) by (simp add: s1_def HcdED_upd_ED ohci_sizes_def)
  have nl: "\<not> live s1 e" using E1 by (simp add: live_def)
  have rel1: "td_rel s1 Q None []" by (rule td_rel_dead[OF rel e _ s1_def nl]) simp
  have live1: "live s1 = live s" using E1 e(2) by (auto simp: live_def fun_eq_iff)
  have ed1: "ed_lists s1 L (live s)"
    by (rule ed_lists_frame[OF ed]) (use E1 e(2) in \<open>auto simp: s1_def\<close>)
  have T: "TailP (HcdED s1 e) = None" using E1 by simp
  have A: "AllocEd dev speed ep ty dir mps i s =
      Option.bind (if ty = ISOCHRONOUS_TRANSFER then AllocItdForEd e s1 else AllocGtdForEd e s1) (\<lambda>(st, s). Some (st, e, s))"
    using Some by (simp add: AllocEd_def s1_def Let_def)
  show thesis
  proof (rule alloc_first[OF td_relD(1)[OF rel1] e(1) T, of "ty = ISOCHRONOUS_TRANSFER"])
    fix st assume "st \<noteq> HCD_STATUS_OK"
      "(if ty = ISOCHRONOUS_TRANSFER then AllocItdForEd e s1 else AllocGtdForEd e s1) = Some (st, s1)"
    then show thesis using A rel1 ed1 live1 by (intro that(1)[of st e s1]) (simp_all add: s1_def)
  next
    fix t s'
    assume a: "(if ty = ISOCHRONOUS_TRANSFER then AllocItdForEd e s1 else AllocGtdForEd e s1) = Some (HCD_STATUS_OK, s')"
      "td_in s1 t" "\<not> td_inUse s1 t" "is_Itd t = (ty = ISOCHRONOUS_TRANSFER)" "ohci_sizes s'" "td_in s' = td_in s1"
      "td_next s' = (td_next s1)(t := None)" "td_inUse s' = (td_inUse s1)(t := True)" "td_ed s' = (td_ed s1)(t := e)"
      "HcdED s' = (HcdED s1)(e := (set_HeadTD (Some t) (HcdED s1 e))\<lparr>TailP := Some t\<rparr>)"
      "staticEDs s' = staticEDs s1" "HcDoneHead s' = HcDoneHead s1" "td_delay s' t = 0"
    have E2: "HcdED s' e = (set_HeadTD (Some t) (init_ed dev speed ep ty dir mps i))\<lparr>TailP := Some t\<rparr>"
      using a(10) E1 by simp
    have "td_rel s' (Q(e := [])) None []"
      using a(10) E2 a(4)
      by (intro td_rel_first[OF rel1 e(1) nl _ a(2,3,5-9)]) (simp_all add: ed_view_def set_HeadTD_def)
    moreover have "ed_lists s' L (live s)"
      by (rule ed_lists_frame[OF ed1 a(11)]) (use a(10) e(2) in auto)
    moreover have "live s' x \<longleftrightarrow> x = e \<or> live s x" for x
      using a(10) E2 E1 e by (cases "x = e") (simp_all add: live_def set_HeadTD_def)
    then have "live s' = (\<lambda>x. x = e \<or> live s x)" by (rule ext)
    moreover have "AllocEd dev speed ep ty dir mps i s = Some (HCD_STATUS_OK, e, s')" using A a(1) by simp
    ultimately show thesis
      using a(12,13) E2 e by (intro that(2)[of e s']) (simp_all add: s1_def set_HeadTD_def)
  qed
qed

lemma HcdOpenPipe_rel:
  assumes inv: "ohci_inv s" and d: "HcDoneHead s = None"
  obtains st hdl s' where "HcdOpenPipe_ohci HostID dev speed ep ty dir mps i s = Some (st, hdl, s')" "ohci_inv s'"
    "st = HCD_STATUS_OK \<Longrightarrow> \<exists>e. hdl = Some (PipehandleCreate 0 e) \<and> \<not> live s e \<and> live s' = (\<lambda>x. x = e \<or> live s x)"
    "st \<noteq> HCD_STATUS_OK \<Longrightarrow> live s' = live s"
proof -
  obtain Q D L where QDL: "td_rel s Q (HcDoneHead s) D" "ed_rel s L" using inv by (auto simp: ohci_inv_def)
  have "D = []" using td_relD(7)[OF QDL(1)] d by simp
  then have rel: "td_rel s Q None []" using QDL(1) d by simp
  let ?v = "OpenPipe_VerifyParameters HostID dev speed ep ty dir mps i 0"
  show thesis
  proof (cases "?v = HCD_STATUS_OK")
    case False
    then show thesis using inv by (intro that[of ?v None s]) (simp_all add: HcdOpenPipe_ohci_def Let_def)
  next
    case ok: True
    have h0: "HostID = 0" by (rule Verify_OK_HostID[OF ok])
    show thesis
    proof (rule AllocEd_rel[OF rel QDL(2)[unfolded ed_rel_def], of dev speed "ep AND 0xF" ty dir "mps AND 0x3FF" i])
      fix st e s' assume a: "st \<noteq> HCD_STATUS_OK" "AllocEd dev speed (ep AND 0xF) ty dir (mps AND 0x3FF) i s = Some (st, e, s')"
        "td_rel s' Q None []" "ed_lists s' L (live s)" "live s' = live s" "HcDoneHead s' = HcDoneHead s"
      have "ohci_inv s'" using a(3-6) d by (intro ohci_invI[of s' Q "[]" L]) (simp_all add: ed_rel_def)
      then show thesis using a(1,2,5) ok by (intro that[of st None s']) (simp_all add: HcdOpenPipe_ohci_def Let_def)
    next
      fix e s' assume a: "AllocEd dev speed (ep AND 0xF) ty dir (mps AND 0x3FF) i s = Some (HCD_STATUS_OK, e, s')"
        "e < MAX_ED" "\<not> live s e" "td_rel s' (Q(e := [])) None []" "ed_lists s' L (live s)" "live s' = (\<lambda>x. x = e \<or> live s x)"
        "HcDoneHead s' = HcDoneHead s" "td_delay s' (the (TailP (HcdED s' e))) = 0"
      let ?l = "list_of_type ty"
      define s1 where "s1 = upd_ED e (\<lambda>d. d\<lparr>ListIndex := ?l\<rparr>) s'"
      define s2 where "s2 = InsertEndpoint e ?l s1"
      have l: "?l < MAX_STATIC_ED" by (simp add: list_of_type_def)
      note sz = td_relD(1)[OF a(4)]
      have E1: "HcdED s1 = (HcdED s')(e := (HcdED s' e)\<lparr>ListIndex := ?l\<rparr>)"
        using sz a(2) by (simp add: s1_def HcdED_upd_ED ohci_sizes_def)
      have l1: "same_links s' s1" unfolding s1_def by (rule same_links_upd_ED) (simp add: ed_view_def)
      have ed1: "ed_lists s1 L (live s)"
        by (rule ed_lists_frame[OF a(5)]) (use E1 a(3) in \<open>auto simp: s1_def\<close>)
      have sz1: "ohci_sizes s1" using sz by (simp add: s1_def ohci_sizes_def)
      have ed2: "ed_lists s2 (L(?l := e # L ?l)) (\<lambda>x. x = e \<or> live s x)"
        unfolding s2_def by (rule InsertEndpoint_lists[OF ed1 a(3,2) l _ sz1]) (simp add: E1)
      have in1: "ed_in s1 (Ed e)" "ed_in (set_NextED (Ed e) x s1) (Static ?l)" for x
        using sz1 a(2) l by (simp_all add: ed_in_def ohci_sizes_def)
      have l2: "same_links s1 s2" unfolding s2_def InsertEndpoint_def
        by (rule same_links_trans[OF same_links_set_NextED[OF in1(1)] same_links_set_NextED[OF in1(2)]])
      have rel2: "td_rel s2 (Q(e := [])) None []" by (rule td_rel_frame[OF td_rel_frame[OF a(4) l1] l2])
      have live2: "live s2 = (\<lambda>x. x = e \<or> live s x)"
        using a(6) live_same_links[OF l1] live_same_links[OF l2] by (simp add: fun_eq_iff)
      have "HcDoneHead s2 = None" using a(7) d by (simp add: s2_def s1_def InsertEndpoint_def)
      then have "ohci_inv s2" using rel2 ed2 live2 by (intro ohci_invI[of s2 "Q(e := [])" "[]" "L(?l := e # L ?l)"]) (simp_all add: ed_rel_def)
      moreover have "HcdOpenPipe_ohci HostID dev speed ep ty dir mps i s = Some (HCD_STATUS_OK, Some (PipehandleCreate 0 e), s2)"
        using ok a(1) h0 by (simp add: HcdOpenPipe_ohci_def Let_def s1_def s2_def)
      ultimately show thesis using a(3) live2 by (intro that[of HCD_STATUS_OK "Some (PipehandleCreate 0 e)" s2]) auto
    qed
  qed
qed

section \<open>Start-up and reachability\<close>

lemma OHciHostInit_rel:
  assumes "HcDoneHead s = None"
  obtains s' where "OHciHostInit 0 is s = Some (HCD_STATUS_OK, s')" "td_rel s' (\<lambda>_. []) None []" "ed_rel s' (\<lambda>_. [])"
    "HcDoneHead s' = None" "free_gtds s' = MAX_GTD" "\<And>e. e < MAX_ED \<Longrightarrow> \<not> ed_inUse (HcdED s' e)"
proof -
  obtain s' where s': "OHciHostInit 0 is s = Some (HCD_STATUS_OK, s')"
    by (simp add: OHciHostInit_def Let_def)
  have f: "gTDs s' = replicate MAX_GTD blank_gtd" "iTDs s' = replicate MAX_ITD blank_itd" "EDs s' = replicate MAX_ED blank_ed"
    "staticEDs s' = replicate MAX_STATIC_ED (blank_hced\<lparr>Skip := True\<rparr>)" "HcDoneHead s' = None"
    using s' assms
    by (auto simp: OHciHostInit_def Let_def zero_host_data_def BuildPeriodicStaticEdTree_def OHciHostOperational_def set_HCFS_def log_io_def)
  have u: "\<not> td_inUse s' t" if "td_in s' t" for t
    using that f by (auto simp: td_in_def td_inUse_def HcdGTD_def HcdITD_def blank_gtd_def blank_itd_def split: td.splits)
  have e: "\<not> ed_inUse (HcdED s' e)" if "e < MAX_ED" for e
    using that f(3) by (simp add: HcdED_def blank_ed_def)
  have "td_rel s' (\<lambda>_. []) None []"
    using u e by (auto simp: td_rel_def ohci_sizes_def f done_ok_def live_def)
  moreover have "ed_rel s' (\<lambda>_. [])"
    using e f(4) by (auto simp: ed_rel_def ed_lists_def live_def ed_next_def blank_hced_def)
  ultimately show thesis using s' f e by (intro that[of s']) (simp_all add: free_gtds_def blank_gtd_def)
qed

text \<open>
  The calls of the pipe layer and the actions of the controller. A pipe is opened when the done list of
  the controller is empty; a cancellation is one that sees the start-of-frame flag clear at first.
\<close>

inductive ohci_reach :: "ohci \<Rightarrow> bool" where
  init: "HcDoneHead s0 = None \<Longrightarrow> HcdInitDriver_ohci 0 clk cmd is s0 = Some (HCD_STATUS_OK, s) \<Longrightarrow> ohci_reach s"
| opened: "ohci_reach s \<Longrightarrow> HcDoneHead s = None \<Longrightarrow>
    HcdOpenPipe_ohci HostID dev speed ep ty dir mps i s = Some (st, hdl, s') \<Longrightarrow> ohci_reach s'"
| closed: "ohci_reach s \<Longrightarrow> pipe_open hdl s \<Longrightarrow> HcdClosePipe_ohci hdl (False # sofs) s = Some (st, s') \<Longrightarrow> ohci_reach s'"
| cancelled: "ohci_reach s \<Longrightarrow> pipe_open hdl s \<Longrightarrow> HcdCancelTransfer hdl (False # sofs) s = Some (st, s') \<Longrightarrow> ohci_reach s'"
| cleared: "ohci_reach s \<Longrightarrow> HcdClearEndpointHalt_ohci hdl s = (st, s') \<Longrightarrow> ohci_reach s'"
| data: "ohci_reach s \<Longrightarrow> pipe_open hdl s \<Longrightarrow>
    (Format (HcdED s (handle_ed hdl)) \<longrightarrow> MaxPackageSize (HcdED s (handle_ed hdl)) \<noteq> 0) \<Longrightarrow>
    HcdDataTransfer_ohci hdl buf len pActual cs s = Some (st, s') \<Longrightarrow> ohci_reach s'"
| control: "ohci_reach s \<Longrightarrow> pipe_open hdl s \<Longrightarrow> \<not> Format (HcdED s (handle_ed hdl)) \<Longrightarrow>
    HcdControlTransfer_ohci hdl preq req buf cs (map hc_act acts) s = Some (st, s') \<Longrightarrow> ohci_reach s'"
| hardware: "ohci_reach s \<Longrightarrow> hc_act a s = Some s' \<Longrightarrow> ohci_reach s'"

lemma ohci_reach_inv: "ohci_reach s \<Longrightarrow> ohci_inv s"
proof (induction rule: ohci_reach.induct)
  case (init s0 clk cmd "is" s)
  obtain x where x: "OHciHostInit 0 is x = Some (HCD_STATUS_OK, s)" "HcDoneHead x = HcDoneHead s0"
    using init(2) by (auto simp: HcdInitDriver_ohci_def OHciHostReset_def Let_def split: Option.bind_splits)
  have "HcDoneHead x = None" using x(2) init(1) by simp
  then obtain s' where s': "OHciHostInit 0 is x = Some (HCD_STATUS_OK, s')" "td_rel s' (\<lambda>_. []) None []" "ed_rel s' (\<lambda>_. [])"
    "HcDoneHead s' = None" by (rule OHciHostInit_rel)
  then have "s' = s" using x(1) by simp
  then show ?case using s' by (intro ohci_invI[of s "\<lambda>_. []" "[]" "\<lambda>_. []"]) simp_all
next
  case (opened s HostID dev speed ep ty dir mps i st hdl s')
  obtain st1 hdl1 s1 where "HcdOpenPipe_ohci HostID dev speed ep ty dir mps i s = Some (st1, hdl1, s1)" "ohci_inv s1"
    by (rule HcdOpenPipe_rel[OF opened.IH opened(2)])
  then show ?case using opened(3) by simp
next
  case (closed s hdl sofs st s')
  obtain Q D L where QDL: "td_rel s Q (HcDoneHead s) D" "ed_rel s L" using closed.IH by (auto simp: ohci_inv_def)
  have w: "True \<in> set sofs"
  proof -
    obtain x where "HcdCancelTransfer hdl (False # sofs) s = Some x"
      using closed(3) by (auto simp: HcdClosePipe_ohci_def pipe_open_parse[OF closed(2)] split: Option.bind_splits)
    then show ?thesis by (rule HcdCancelTransfer_needs_sof[OF QDL(1) closed(2)])
  qed
  obtain s1 Q' L' where "HcdClosePipe_ohci hdl (False # sofs) s = Some (HCD_STATUS_OK, s1)"
    "td_rel s1 Q' (HcDoneHead s1) D" "ed_rel s1 L'" by (rule HcdClosePipe_rel[OF QDL closed(2) w])
  then show ?case using closed(3) by (auto intro: ohci_invI)
next
  case (cancelled s hdl sofs st s')
  obtain Q D L where QDL: "td_rel s Q (HcDoneHead s) D" "ed_rel s L" using cancelled.IH by (auto simp: ohci_inv_def)
  have w: "True \<in> set sofs" by (rule HcdCancelTransfer_needs_sof[OF QDL(1) cancelled(2,3)])
  obtain s1 where "HcdCancelTransfer hdl (False # sofs) s = Some (HCD_STATUS_OK, s1)"
    "td_rel s1 (Q(handle_ed hdl := [])) (HcDoneHead s1) D" "ed_rel s1 L" by (rule HcdCancelTransfer_rel[OF QDL cancelled(2) w])
  then show ?case using cancelled(3) by (auto intro: ohci_invI)
next
  case (cleared s hdl st s')
  have "hcd_quiet s (upd_ED e (\<lambda>d. d\<lparr>Halted := False, ToggleCarry := False, ed_status := HCD_STATUS_OK\<rparr>) s)" for e
    by (rule quiet_upd_ED) (simp add: ed_view_def)
  then show ?case using cleared quiet_inv
    by (cases rule: PipehandleParse_cases[of hdl s]) (auto simp: HcdClearEndpointHalt_ohci_def)
next
  case (data s hdl buf len pActual cs st s')
  obtain st1 s1 where "HcdDataTransfer_ohci hdl buf len pActual cs s = Some (st1, s1)" "ohci_inv s1"
    by (rule HcdDataTransfer_inv[OF data.IH data(2,3)])
  then show ?case using data(4) by simp
next
  case (control s hdl preq req buf cs acts st s')
  show ?case by (rule HcdControlTransfer_inv[OF control.IH control(2-4)])
next
  case (hardware s a s')
  show ?case by (rule hc_act_inv[OF hardware.IH hardware(2)])
qed

end
