(* ===== verification/OhciProps.thy ===== *)
theory OhciProps
  imports OhciSystem
begin

unbundle bit_operations_syntax

text \<open>
  What the OHCI driver promises to the pipe layer above it: the count of bytes that an interrupted
  transfer reports, data transfers of any length cut into descriptors, complete and failed control transfers,
  cancellation, the done queue, the ownership of the descriptors and the calls that return. The
  examples run on the state after start-up with one control and one bulk pipe opened.
\<close>

section \<open>Example states\<close>

definition ohci_reset :: ohci where
  "ohci_reset = \<lparr>HccaIntTable = [], HccaFrameNumber = 0, HccaDoneHead = None, iTDs = [], gTDs = [], EDs = [],
     staticEDs = [], xfer_counts = (\<lambda>_. 0), HcControl = 0, HcControlHeadED = None, HcBulkHeadED = None,
     HcHCCA = False, HcDoneHead = None, ohci_io = []\<rparr>"

definition ohci_up :: ohci where
  "ohci_up = snd (the (HcdInitDriver_ohci 0 [0x19] [0] 0 ohci_reset))"

definition ohci_two :: ohci where
  "ohci_two = snd (snd (the (HcdOpenPipe_ohci 0 1 0 2 2 1 64 0
     (snd (snd (the (HcdOpenPipe_ohci 0 1 0 0 0 0 8 0 ohci_up)))))))"

lemma ohci_two_eqs:
  "HcdInitDriver_ohci 0 [0x19] [0] 0 ohci_reset = Some (HCD_STATUS_OK, ohci_up)"
  "HcDoneHead ohci_reset = None" "HcDoneHead ohci_up = None"
  by (simp_all add: ohci_up_def ohci_reset_def HcdInitDriver_ohci_def OHciHostReset_def OHciHostInit_def Let_def
      log_io_def zero_host_data_def BuildPeriodicStaticEdTree_def OHciHostOperational_def set_HCFS_def)

lemma ohci_two_pipes:
  "pipe_open 0 ohci_two" "pipe_open 1 ohci_two"
  "HcDoneHead ohci_two = None" "free_gtds ohci_two = 9"
  "HeadTD (HcdED ohci_two 0) = Some (Gtd 0)" "TailP (HcdED ohci_two 0) = Some (Gtd 0)"
  "HeadTD (HcdED ohci_two 1) = Some (Gtd 1)" "TailP (HcdED ohci_two 1) = Some (Gtd 1)"
  "handle_ed 0 = 0" "handle_ed 1 = 1"
  by code_simp+

lemma ohci_two_flags:
  "\<not> Format (HcdED ohci_two 0)" "\<not> Skip (HcdED ohci_two 0)" "\<not> Halted (HcdED ohci_two 0)"
  "\<not> Format (HcdED ohci_two 1)" "\<not> Skip (HcdED ohci_two 1)" "\<not> Halted (HcdED ohci_two 1)"
  "td_delay ohci_two (Gtd 1) = 0"
  by code_simp+

lemma ohci_two_opens:
  "map_option (\<lambda>(st, h, _). (st, h)) (HcdOpenPipe_ohci 0 1 0 0 0 0 8 0 ohci_up) = Some (HCD_STATUS_OK, Some 0)"
  "HcDoneHead (snd (snd (the (HcdOpenPipe_ohci 0 1 0 0 0 0 8 0 ohci_up)))) = None"
  "map_option (\<lambda>(st, h, _). (st, h)) (HcdOpenPipe_ohci 0 1 0 2 2 1 64 0
     (snd (snd (the (HcdOpenPipe_ohci 0 1 0 0 0 0 8 0 ohci_up))))) = Some (HCD_STATUS_OK, Some 1)"
  by code_simp+

lemma ohci_two_reach: "ohci_reach ohci_two"
proof -
  have o: "x = Some (st, h, snd (snd (the x)))" if "map_option (\<lambda>(st, h, _). (st, h)) x = Some (st, h)"
    for x :: "(HCD_STATUS \<times> u32 option \<times> ohci) option" and st h
    using that by (cases x) (auto split: prod.splits)
  have "ohci_reach ohci_up" by (rule ohci_reach.init[OF ohci_two_eqs(2,1)])
  from ohci_reach.opened[OF this ohci_two_eqs(3) o[OF ohci_two_opens(1)]]
  show ?thesis unfolding ohci_two_def by (rule ohci_reach.opened[OF _ ohci_two_opens(2) o[OF ohci_two_opens(3)]])
qed

section \<open>The count of transferred bytes\<close>

lemma unat_Offset4k: "unat (Offset4k x) = unat x mod 4096"
proof -
  have "Offset4k x = take_bit 12 x"
    by (simp add: Offset4k_def take_bit_eq_mask mask_eq_exp_minus_1 del: take_bit_eq_mod)
  then show ?thesis by (simp only: unsigned_take_bit_eq) (simp add: take_bit_eq_mod)
qed

lemma Align4k_xor: "Align4k (x XOR y) = 0 \<longleftrightarrow> unat x div 4096 = unat y div 4096"
proof -
  have m: "(0xFFFFF000 :: u32) = NOT (mask 12)" by (simp add: mask_eq_exp_minus_1)
  have a: "Align4k v = 0 \<longleftrightarrow> drop_bit 12 v = 0" for v
  proof
    assume z: "Align4k v = 0"
    show "drop_bit 12 v = 0"
    proof (rule bit_eqI)
      fix n
      have "bit (v AND NOT (mask 12)) (12 + n) = bit (0::u32) (12 + n)" using z m by (simp add: Align4k_def)
      then have "\<not> bit v (12 + n)"
        using bit_imp_le_length[of v "12 + n"] by (auto simp: bit_and_iff bit_not_iff bit_mask_iff)
      then show "bit (drop_bit 12 v) n = bit (0::u32) n" by (simp add: bit_drop_bit_eq)
    qed
  next
    assume z: "drop_bit 12 v = 0"
    show "Align4k v = 0"
    proof (rule bit_eqI)
      fix n
      have "\<not> bit v n" if "12 \<le> n"
      proof -
        have "bit (drop_bit 12 v) (n - 12) = bit (0::u32) (n - 12)" using z by simp
        then show ?thesis using that by (simp add: bit_drop_bit_eq)
      qed
      then show "bit (Align4k v) n = bit (0::u32) n"
        by (auto simp: Align4k_def m bit_and_iff bit_not_iff bit_mask_iff not_less)
    qed
  qed
  have "Align4k (x XOR y) = 0 \<longleftrightarrow> drop_bit 12 x = drop_bit 12 y"
    unfolding a drop_bit_xor by (auto simp: bit_eq_iff bit_xor_iff)
  then have "Align4k (x XOR y) = 0 \<longleftrightarrow> unat (drop_bit 12 x) = unat (drop_bit 12 y)" by (simp only: word_unat_eq_iff)
  moreover have "take_bit 32 (unat v) = unat v" for v :: u32
  proof (rule take_bit_nat_eq_self)
    have "unat v < 2 ^ LENGTH(32)" by (rule unsigned_less)
    then show "unat v < 2 ^ 32" by simp
  qed
  ultimately show ?thesis by (simp only: unsigned_drop_bit_eq) (simp add: drop_bit_eq_div)
qed

lemma unat_add_of_nat: "unat b + m < 2 ^ 32 \<Longrightarrow> unat (b + of_nat m :: u32) = unat b + m"
  by (simp add: unat_word_ariths unat_of_nat)

text \<open>For two addresses at most a page apart, the length the handler computes is the distance.\<close>

lemma xfer_rest:
  assumes "unat c \<le> unat b" "unat b div 4096 \<le> unat c div 4096 + 1"
  shows "unat ((if Align4k (b XOR c) \<noteq> 0 then 0x1000 else 0) + Offset4k b - Offset4k c + 1 :: u32) = (unat b - unat c + 1) mod 2 ^ 32"
proof -
  let ?p = "if Align4k (b XOR c) \<noteq> 0 then 0x1000 else 0 :: u32"
  have p: "unat ?p = unat b div 4096 * 4096 - unat c div 4096 * 4096"
    using assms div_le_mono[OF assms(1), of 4096] by (auto simp: Align4k_xor)
  have d: "unat b = unat b div 4096 * 4096 + unat b mod 4096" "unat c = unat c div 4096 * 4096 + unat c mod 4096" by simp_all
  have le: "unat c div 4096 * 4096 \<le> unat b div 4096 * 4096" using div_le_mono[OF assms(1)] by simp
  have s: "unat (?p + Offset4k b) = unat ?p + unat (Offset4k b)"
    by (rule unat_plus_if'[THEN trans]) (auto simp: unat_Offset4k)
  have r: "unat c mod 4096 \<le> unat b - unat c div 4096 * 4096"
    using assms(1) minus_div_mult_eq_mod[of "unat c" 4096] by linarith
  then have "unat (Offset4k c) \<le> unat (?p + Offset4k b)"
    using s p le minus_div_mult_eq_mod[of "unat b" 4096] by (simp add: unat_Offset4k)
  then have "unat (?p + Offset4k b - Offset4k c) = unat ?p + unat (Offset4k b) - unat (Offset4k c)"
    using s by (simp add: unat_sub word_le_nat_alt)
  also have "\<dots> = unat b - unat c" using p d le assms(1) by (simp add: unat_Offset4k)
  finally show ?thesis by (simp add: unat_word_ariths)
qed

text \<open>
  \<^bold>\<open>C14\<close>. The count of transferred bytes is exact. When the controller stopped a piece of \<open>n\<close> bytes
  at address \<open>b\<close> (of the size \<^const>\<open>QueueGTDs\<close> gives a descriptor, over up to two pages) after \<open>k\<close>
  bytes, the interrupt handler stores \<open>k\<close> in the variable of the caller: the controller leaves the
  address of the next byte in the descriptor, or 0 when the piece is complete.
\<close>

theorem actual_count_exact:
  assumes "i < length (gTDs s)" "pActualTransferCount (HcdED s e) \<noteq> 0"
    and b: "b \<noteq> 0" "unat b + n \<le> 2 ^ 32" and n: "0 < n" "unat b mod 4096 + n \<le> 0x2000" "k \<le> n"
    and g: "CurrentBufferPointer (HcdGTD s i) = (if k = n then 0 else b + of_nat k)"
      "BufferEnd (HcdGTD s i) = b + of_nat n - 1" "TransferCount (HcdGTD s i) = of_nat n"
  shows "xfer_counts (store_count e i s) (pActualTransferCount (HcdED s e)) = of_nat k"
proof -
  have "xfer_count (of_nat n) (if k = n then 0 else b + of_nat k) (b + of_nat n - 1) = of_nat k"
  proof (cases "k = n")
    case True
    then show ?thesis by (simp add: xfer_count_def)
  next
    case False
    then have k: "k < n" using n(3) by simp
    have m: "b + of_nat n - 1 = b + of_nat (n - 1)" using n(1) by (simp add: of_nat_diff)
    have e: "unat (b + of_nat n - 1) = unat b + (n - 1)"
      unfolding m by (rule unat_add_of_nat) (use b(2) n(1) in linarith)
    have c: "unat (b + of_nat k) = unat b + k"
      by (rule unat_add_of_nat) (use b(2) k in linarith)
    have "unat b div 4096 * 4096 + (unat b mod 4096 + (n - 1)) = unat b + (n - 1)" by simp
    moreover have "unat b mod 4096 + (n - 1) < 8192" using n(1,2) by linarith
    ultimately have "(unat b + (n - 1)) div 4096 \<le> unat b div 4096 + 1" by linarith
    moreover have "unat b div 4096 \<le> (unat b + k) div 4096" by (simp add: div_le_mono)
    ultimately have page: "unat (b + of_nat n - 1) div 4096 \<le> unat (b + of_nat k) div 4096 + 1" unfolding e c by linarith
    let ?r = "(if Align4k ((b + of_nat n - 1) XOR (b + of_nat k)) \<noteq> 0 then 0x1000 else 0) + Offset4k (b + of_nat n - 1)
      - Offset4k (b + of_nat k) + 1 :: u32"
    have "unat ?r = (unat b + (n - 1) - (unat b + k) + 1) mod 2 ^ 32"
      using xfer_rest[of "b + of_nat k" "b + of_nat n - 1"] page k e c by simp
    then have "unat ?r = n - k" using k n(2) by simp
    moreover have "unat (of_nat (n - k) :: u32) = n - k" using n(2) by (simp add: unat_of_nat)
    ultimately have r: "?r = of_nat (n - k)" by (simp only: word_unat_eq_iff)
    have z: "b + of_nat k \<noteq> 0" using c b(1) by (simp add: word_unat_eq_iff)
    have "ucast (ucast (of_nat n :: u16) - of_nat (n - k) :: u32) = (of_nat k :: u16)"
    proof -
      have "(ucast (of_nat n :: u16) :: u32) = of_nat n" using n(2) by (simp add: word_unat_eq_iff unat_ucast_u16 unat_of_nat)
      moreover have "(of_nat n - of_nat (n - k) :: u32) = of_nat k" using n(3) by (simp add: of_nat_diff)
      moreover have "(ucast (of_nat k :: u32) :: u16) = of_nat k"
        using n(2,3) by (simp add: word_unat_eq_iff unsigned_ucast_eq unat_of_nat take_bit_eq_mod)
      ultimately show ?thesis by simp
    qed
    then show ?thesis using False z r by (simp only: xfer_count_def if_False if_True not_False_eq_True)
  qed
  then show ?thesis
    using assms(1,2) g by (simp add: store_count_def Let_def HcdGTD_upd_GTD)
qed

text \<open>A piece of 4000 bytes at \<^verbatim>\<open>0x20007F00\<close>, stopped after 1000 bytes.\<close>

definition ohci_stopped :: ohci where
  "ohci_stopped = upd_ED 0 (\<lambda>d. d\<lparr>pActualTransferCount := 0x10000100\<rparr>)
     (upd_GTD 0 (\<lambda>g. g\<lparr>CurrentBufferPointer := 0x20007F00 + 1000, BufferEnd := 0x20007F00 + 4000 - 1, TransferCount := 4000\<rparr>) ohci_two)"

lemma ohci_stopped_eqs:
  "0 < length (gTDs ohci_stopped)" "pActualTransferCount (HcdED ohci_stopped 0) = 0x10000100"
  "CurrentBufferPointer (HcdGTD ohci_stopped 0) = 0x200082E8" "BufferEnd (HcdGTD ohci_stopped 0) = 0x20008E9F"
  "TransferCount (HcdGTD ohci_stopped 0) = 4000"
  by code_simp+

theorem actual_count_exact_witness: "xfer_counts (store_count 0 0 ohci_stopped) 0x10000100 = 1000"
  using actual_count_exact[of 0 ohci_stopped 0 "0x20007F00" 4000 1000] ohci_stopped_eqs by simp

section \<open>Data transfers\<close>

lemma gtd_pieces_Cons:
  "0 < len \<Longrightarrow> gtd_pieces buf len = (buf, gtd_chunk buf len) # gtd_pieces (buf + gtd_chunk buf len) (len - gtd_chunk buf len)"
  by (subst gtd_pieces.simps) simp

lemma gtd_pieces_cover:
  "concat (map (\<lambda>(b, n). map (\<lambda>k. b + of_nat k) [0..<unat n]) (gtd_pieces buf len)) = map (\<lambda>k. buf + of_nat k) [0..<unat len]"
proof (induction buf len rule: gtd_pieces.induct)
  case (1 buf len)
  show ?case
  proof (cases "0 < len")
    case False
    then have "len = 0" by (simp add: word_gt_0)
    then show ?thesis by (simp add: gtd_pieces.simps)
  next
    case True
    let ?n = "gtd_chunk buf len"
    have l: "unat len = unat ?n + unat (len - ?n)"
      using gtd_chunk_le(1)[of buf len] by (simp add: unat_sub word_le_nat_alt)
    have "map (\<lambda>k. buf + of_nat k) [unat ?n..<unat ?n + unat (len - ?n)] = map (\<lambda>k. buf + ?n + of_nat k) [0..<unat (len - ?n)]"
      by (rule nth_equalityI) (simp_all add: ac_simps)
    moreover have "[0..<unat len] = [0..<unat ?n] @ [unat ?n..<unat ?n + unat (len - ?n)]"
      by (subst l) (rule upt_add_eq_append, simp)
    ultimately have "map (\<lambda>k. buf + of_nat k) [0..<unat len] =
        map (\<lambda>k. buf + of_nat k) [0..<unat ?n] @ map (\<lambda>k. buf + ?n + of_nat k) [0..<unat (len - ?n)]"
      by (simp only: map_append)
    then show ?thesis by (simp only: gtd_pieces_Cons[OF True] list.map concat.simps prod.case 1[OF True])
  qed
qed

lemma gtd_pieces_size: "(b, n) \<in> set (gtd_pieces buf len) \<Longrightarrow> 0 < n \<and> unat b mod 4096 + unat n \<le> 0x2000"
proof (induction buf len rule: gtd_pieces.induct)
  case (1 buf len)
  show ?case
  proof (cases "0 < len")
    case False
    then show ?thesis using 1(2) by (simp add: gtd_pieces.simps)
  next
    case True
    have "gtd_chunk buf len \<le> 0x2000 - Offset4k buf" by (auto simp: gtd_chunk_eq not_less)
    then have "unat buf mod 4096 + unat (gtd_chunk buf len) \<le> 8192"
      using Offset4k_le[of buf] by (simp add: word_le_nat_alt unat_sub unat_Offset4k)
    then show ?thesis
      using 1(2) 1(1)[OF True] gtd_chunk_le(2)[OF True, of buf] unfolding gtd_pieces_Cons[OF True] by auto
  qed
qed

text \<open>
  \<^bold>\<open>C11\<close>. A data transfer hands the controller exactly the buffer of the caller. On an open pipe that is
  not isochronous and not halted, with enough free descriptors, \<^verbatim>\<open>HcdDataTransfer\<close> appends to the queue
  of the endpoint one descriptor per piece; the addresses of the pieces, one after the other, are those
  of the buffer, no piece is empty or reaches over more than two pages, and only the last one raises the
  interrupt. What was queued before, and the done list, stay.
\<close>

theorem data_transfer_covers:
  assumes reach: "ohci_reach s" and h: "pipe_open hdl s" "\<not> Format (HcdED s (handle_ed hdl))" "\<not> Halted (HcdED s (handle_ed hdl))"
    and fresh: "td_delay s (the (TailP (HcdED s (handle_ed hdl)))) = 0"
    and len: "buf \<noteq> 0" "len \<noteq> 0" "len \<noteq> HCD_ENDPOINT_MAXPACKET_XFER_LEN" "length (gtd_pieces buf len) \<le> free_gtds s"
  shows "\<exists>Q D s' ts. td_rel s Q (HcDoneHead s) D \<and>
    HcdDataTransfer_ohci hdl buf len pActual cs s = Some (HCD_STATUS_OK, s') \<and>
    td_rel s' (Q(handle_ed hdl := Q (handle_ed hdl) @ ts)) (HcDoneHead s') D \<and>
    map (td_xfer s') ts = map Some (piece_xfers 0 (gtd_pieces buf len)) \<and>
    concat (map (\<lambda>(b, n). map (\<lambda>k. b + of_nat k) [0..<unat n]) (gtd_pieces buf len)) = map (\<lambda>k. buf + of_nat k) [0..<unat len] \<and>
    (\<forall>(b, n) \<in> set (gtd_pieces buf len). 0 < n \<and> unat b mod 4096 + unat n \<le> 0x2000) \<and>
    ed_status (HcdED s' (handle_ed hdl)) = HCD_STATUS_TRANSFER_QUEUED"
proof -
  let ?e = "handle_ed hdl"
  obtain Q D L where QDL: "td_rel s Q (HcDoneHead s) D" "ed_rel s L"
    using ohci_reach_inv[OF reach] by (auto simp: ohci_inv_def)
  have e: "live s ?e" using h(1) by (simp add: pipe_open_def)
  obtain s1 ts where s1: "QueueGTDs ?e buf len 0 s = Some (HCD_STATUS_OK, s1)"
    "td_rel s1 (Q(?e := Q ?e @ ts)) (HcDoneHead s) D" "map (td_xfer s1) ts = map Some (piece_xfers 0 (gtd_pieces buf len))"
    "queue_frame ?e (queued_tds s Q D) s s1"
    using QueueGTDs_queue[OF QDL(1) e h(2) fresh, of buf len 0] len(4) by auto
  define s2 where "s2 = (if ListIndex (HcdED s1 ?e) = BULK_LIST_HEAD then log_io (Wr HcCommandStatus (cs OR 0x4)) s1 else s1)"
  define s3 where "s3 = upd_ED ?e (\<lambda>d. d\<lparr>ed_status := HCD_STATUS_TRANSFER_QUEUED, pActualTransferCount := pActual\<rparr>) s2"
  have q: "hcd_quiet s1 s3"
    unfolding s2_def s3_def by (rule quiet_trans[OF _ quiet_upd_ED]) (simp_all add: ed_view_def hcd_quiet_def)
  have E: "?e < length (EDs s2)" using td_relD(1)[OF s1(2)] e by (simp add: s2_def live_def ohci_sizes_def)
  have "HcdDataTransfer_ohci hdl buf len pActual cs s = Some (HCD_STATUS_OK, s3)"
    using s1(1) len(1-3) h(2,3)
    by (simp add: HcdDataTransfer_ohci_def pipe_open_parse[OF h(1)] IsIsoEndpoint_def s2_def s3_def Let_def)
  moreover have "td_rel s3 (Q(?e := Q ?e @ ts)) (HcDoneHead s3) D"
    using quiet_td_rel[OF q s1(2)] q s1(4) by (simp add: hcd_quiet_def queue_frame_def)
  moreover have "td_xfer s3 = td_xfer s1" by (simp add: s3_def s2_def)
  moreover have "ed_status (HcdED s3 ?e) = HCD_STATUS_TRANSFER_QUEUED" by (simp add: s3_def HcdED_upd_ED[OF E])
  ultimately show ?thesis
    using QDL(1) s1(3) gtd_pieces_cover gtd_pieces_size[of _ _ buf len]
    by (intro exI[of _ Q] exI[of _ D] exI[of _ s3] exI[of _ ts]) auto
qed

lemma gtd_pieces_10000: "length (gtd_pieces 0x20007F00 10000) = 2"
  by code_simp

theorem data_transfer_covers_witness:
  "\<exists>s'. HcdDataTransfer_ohci 1 0x20007F00 10000 0 0 ohci_two = Some (HCD_STATUS_OK, s') \<and>
     ed_status (HcdED s' 1) = HCD_STATUS_TRANSFER_QUEUED"
  using data_transfer_covers[OF ohci_two_reach, of 1 "0x20007F00" 10000 0 0] ohci_two_pipes ohci_two_flags gtd_pieces_10000
  by auto

section \<open>Control transfers\<close>

definition control_stages :: "USB_Request_Header_t \<Rightarrow> nat" where
  "control_stages req = (if wLength req = 0 then 2 else 3)"

lemma td_xfer_delay: "td_xfer s (Gtd i) = Some (xfer_of b n p t d) \<Longrightarrow> td_delay s (Gtd i) = d"
  by (auto simp: td_xfer_def gtd_xfer_def xfer_of_def td_delay_def)

text \<open>Two stages of which the first does not interrupt, then the rest: what one more descriptor adds.\<close>

definition queued_on :: "nat \<Rightarrow> ohci \<Rightarrow> (nat \<Rightarrow> td list) \<Rightarrow> td option \<Rightarrow> td list \<Rightarrow> td list \<Rightarrow> u8 list \<Rightarrow> ohci \<Rightarrow> bool" where
  "queued_on e s Q dh D ts ds s' \<longleftrightarrow> td_rel s' (Q(e := Q e @ ts)) dh D \<and> map (td_delay s') ts = ds \<and>
     free_gtds s' + length ts = free_gtds s \<and> queue_frame e (queued_tds s Q D) s s' \<and>
     (ts \<noteq> [] \<longrightarrow> td_delay s' (the (TailP (HcdED s' e))) = 0)"

lemma queued_on_more:
  assumes q: "queued_on e s Q dh D ts ds s1" and e: "live s e" "\<not> Format (HcdED s e)" and f: "length ts < free_gtds s"
    and io: "ioc \<longrightarrow> ts \<noteq> []"
  obtains s2 t where "QueueOneGTD e buf len pid toggle ioc s1 = Some (HCD_STATUS_OK, s2)"
    "queued_on e s Q dh D (ts @ [t]) (ds @ [if ioc then 0 else 7]) s2"
proof -
  let ?Q = "Q(e := Q e @ ts)"
  have q': "td_rel s1 ?Q dh D" "map (td_delay s1) ts = ds" "free_gtds s1 + length ts = free_gtds s"
    "queue_frame e (queued_tds s Q D) s s1" "ts \<noteq> [] \<Longrightarrow> td_delay s1 (the (TailP (HcdED s1 e))) = 0"
    using q by (simp_all add: queued_on_def)
  have e1: "live s1 e" "\<not> Format (HcdED s1 e)" "0 < free_gtds s1"
    using e queue_frame_live[OF q'(4)] queue_frame_ED(2)[OF q'(4)] q'(3) f by simp_all
  obtain s2 i where s2: "TailP (HcdED s1 e) = Some (Gtd i)" "QueueOneGTD e buf len pid toggle ioc s1 = Some (HCD_STATUS_OK, s2)"
    "td_rel s2 (?Q(e := ?Q e @ [Gtd i])) dh D" "free_gtds s2 + 1 = free_gtds s1"
    "td_xfer s2 (Gtd i) = Some (xfer_of buf len pid toggle (if ioc then td_delay s1 (Gtd i) else 7))"
    "td_delay s2 (the (TailP (HcdED s2 e))) = 0" "queue_frame e (queued_tds s1 ?Q D) s1 s2"
    by (rule QueueOneGTD_ok[OF q'(1) e1, of buf len pid toggle ioc])
  have d: "td_delay s2 (Gtd i) = (if ioc then 0 else 7)"
    using td_xfer_delay[OF s2(5)] q'(5) io s2(1) by auto
  have "td_delay s2 x = td_delay s1 x" if "x \<in> set ts" for x
  proof -
    have "x \<in> queued_tds s1 ?Q D" unfolding queued_tds_def by (intro UnI2 UN_I[of e]) (use that e1(1) in simp_all)
    then show ?thesis using s2(7) by (simp add: queue_frame_def)
  qed
  then have m: "map (td_delay s2) ts = ds" using q'(2) by (metis map_cong)
  have r: "td_rel s2 (Q(e := Q e @ ts @ [Gtd i])) dh D" using s2(3) by simp
  have fr: "queue_frame e (queued_tds s Q D) s s2"
    by (rule queue_frame_trans[OF q'(4) s2(7) queued_tds_mono[OF q'(4)]])
  have "queued_on e s Q dh D (ts @ [Gtd i]) (ds @ [if ioc then 0 else 7]) s2"
    unfolding queued_on_def using m d s2(4,6) q'(3) r fr by simp
  with s2(2) show thesis by (rule that)
qed

lemma queue_control_ok:
  assumes rel: "td_rel s Q dh D" and e: "live s e" "\<not> Format (HcdED s e)" and f: "3 \<le> free_gtds s"
  obtains s' ts where "queue_control e preq req buf s = Some (HCD_STATUS_OK, s')"
    "queued_on e s Q dh D ts (replicate (control_stages req - 1) 7 @ [0]) s'"
proof -
  let ?in = "bmRequestType req AND 0x80 \<noteq> 0"
  have "queued_on e s Q dh D [] [] s" using rel by (simp add: queued_on_def)
  then obtain s1 t1 where s1: "QueueOneGTD e preq 8 0 2 False s = Some (HCD_STATUS_OK, s1)"
    "queued_on e s Q dh D ([] @ [t1]) ([] @ [if False then 0 else 7]) s1"
    by (rule queued_on_more[OF _ e, of _ _ _ _ _ _ False preq 8 0 2]) (use f in auto)
  show thesis
  proof (cases "wLength req = 0")
    case True
    obtain s2 t2 where s2: "QueueOneGTD e 0 0 (if ?in then 1 else 2) 3 True s1 = Some (HCD_STATUS_OK, s2)"
      "queued_on e s Q dh D (([] @ [t1]) @ [t2]) (([] @ [if False then 0 else 7]) @ [if True then 0 else 7]) s2"
      by (rule queued_on_more[OF s1(2) e, of True 0 0 "if ?in then 1 else 2" 3]) (use f in auto)
    have "queue_control e preq req buf s = Some (HCD_STATUS_OK, s2)"
      using s1(1) s2(1) True by (simp add: queue_control_def Let_def)
    then show thesis by (rule that[of _ "[t1, t2]"]) (use s2(2) True in \<open>simp add: control_stages_def\<close>)
  next
    case False
    obtain s2 t2 where s2: "QueueOneGTD e buf (ucast (wLength req)) (if ?in then 2 else 1) 3 False s1 = Some (HCD_STATUS_OK, s2)"
      "queued_on e s Q dh D (([] @ [t1]) @ [t2]) (([] @ [if False then 0 else 7]) @ [if False then 0 else 7]) s2"
      by (rule queued_on_more[OF s1(2) e, of False buf "ucast (wLength req)" "if ?in then 2 else 1" 3]) (use f in auto)
    obtain s3 t3 where s3: "QueueOneGTD e 0 0 (if ?in then 1 else 2) 3 True s2 = Some (HCD_STATUS_OK, s3)"
      "queued_on e s Q dh D ((([] @ [t1]) @ [t2]) @ [t3]) ((([] @ [if False then 0 else 7]) @ [if False then 0 else 7]) @ [if True then 0 else 7]) s3"
      by (rule queued_on_more[OF s2(2) e, of True 0 0 "if ?in then 1 else 2" 3]) (use f in auto)
    have "queue_control e preq req buf s = Some (HCD_STATUS_OK, s3)"
      using s1(1) s2(1) s3(1) False by (simp add: queue_control_def Let_def)
    then show thesis by (rule that[of _ "[t1, t2, t3]"]) (use s3(2) False in \<open>simp add: control_stages_def numeral_2_eq_2\<close>)
  qed
qed

text \<open>The controller retires the descriptors of a queue from its head.\<close>

lemma hc_retire_enabled:
  assumes rel: "td_rel s Q dh D" and e: "live s e" "\<not> Skip (HcdED s e)" "\<not> Halted (HcdED s e)" and q: "Q e = t # ts"
  obtains s' where "hc_retire e cc cbp s = Some s'"
proof -
  have "HeadTD (HcdED s e) = Some t" using queue_okD(1)[OF rel e(1)] q by simp
  moreover have "TailP (HcdED s e) \<noteq> Some t" using queue_okD(3)[OF rel e(1)] q e(1) by (auto simp: live_def)
  ultimately show thesis using that e by (auto simp: hc_retire_def Let_def)
qed

lemma wait_retire:
  assumes "td_rel s Q (HcDoneHead s) D" "live s e" "\<not> Skip (HcdED s e)" "\<not> Halted (HcdED s e)" "Q e = ts @ us"
    and "ed_status (HcdED s e) = HCD_STATUS_TRANSFER_QUEUED" "ed_rel s L"
  shows "\<exists>s'. WaitForTransferComplete e (map hc_act (replicate (length ts) (Retire e HCD_STATUS_OK 0) @ as)) s =
        WaitForTransferComplete e (map hc_act as) s' \<and>
      td_rel s' (Q(e := us)) (HcDoneHead s') (rev ts @ D) \<and> free_gtds s' = free_gtds s \<and> live s' e \<and> ed_rel s' L \<and>
      \<not> Skip (HcdED s' e) \<and> \<not> Halted (HcdED s' e) \<and> ed_status (HcdED s' e) = HCD_STATUS_TRANSFER_QUEUED \<and>
      td_delay s' = td_delay s \<and> td_ed s' = td_ed s \<and> td_cc s' = (\<lambda>x. if x \<in> set ts then HCD_STATUS_OK else td_cc s x)"
  using assms
proof (induction ts arbitrary: s Q D)
  case Nil
  then show ?case by (intro exI[of _ s]) (simp add: fun_upd_idem)
next
  case (Cons t ts)
  obtain s1 where s1: "hc_retire e HCD_STATUS_OK 0 s = Some s1"
    by (rule hc_retire_enabled[OF Cons.prems(1-4)]) (use Cons.prems(5) in auto)
  obtain t' ts' where r: "Q e = t' # ts'" "td_rel s1 (Q(e := ts')) (HcDoneHead s1) (t' # D)"
    "HcdED s1 = (HcdED s)(e := (HcdED s e)\<lparr>HeadTD := td_next s t', Halted := (HCD_STATUS_OK \<noteq> HCD_STATUS_OK)\<rparr>)"
    "td_cc s1 = (td_cc s)(t' := HCD_STATUS_OK)" "td_delay s1 = td_delay s" "td_ed s1 = td_ed s" "free_gtds s1 = free_gtds s"
    "staticEDs s1 = staticEDs s"
    by (rule hc_retire_rel[OF Cons.prems(1) s1])
  have t: "t' = t" "ts' = ts @ us" using r(1) Cons.prems(5) by simp_all
  have dis: "t \<notin> set ts" using queue_okD(2)[OF Cons.prems(1,2)] Cons.prems(5) by simp
  have e1: "live s1 e" "\<not> Skip (HcdED s1 e)" "\<not> Halted (HcdED s1 e)" "ed_status (HcdED s1 e) = HCD_STATUS_TRANSFER_QUEUED"
    using r(3) Cons.prems(2,3,6) by (simp_all add: live_def)
  have q1: "(Q(e := ts')) e = ts @ us" using t by simp
  have "ed_rel s1 L" using r(3,8) by (intro ed_rel_frame[OF Cons.prems(7)]) (simp_all add: live_def)
  from Cons.IH[OF r(2) e1(1-3) q1 e1(4) this] obtain s2 where s2:
      "WaitForTransferComplete e (map hc_act (replicate (length ts) (Retire e HCD_STATUS_OK 0) @ as)) s1 =
        WaitForTransferComplete e (map hc_act as) s2"
      "td_rel s2 (Q(e := ts', e := us)) (HcDoneHead s2) (rev ts @ t' # D)" "free_gtds s2 = free_gtds s1" "live s2 e" "ed_rel s2 L"
      "\<not> Skip (HcdED s2 e)" "\<not> Halted (HcdED s2 e)" "ed_status (HcdED s2 e) = HCD_STATUS_TRANSFER_QUEUED"
      "td_delay s2 = td_delay s1" "td_ed s2 = td_ed s1" "td_cc s2 = (\<lambda>x. if x \<in> set ts then HCD_STATUS_OK else td_cc s1 x)"
    by blast
  have "td_rel s2 (Q(e := us)) (HcDoneHead s2) (rev (t # ts) @ D)" using s2(2) t by simp
  moreover have "td_cc s2 = (\<lambda>x. if x \<in> set (t # ts) then HCD_STATUS_OK else td_cc s x)"
    using s2(11) r(4) t(1) by auto
  moreover have "WaitForTransferComplete e (map hc_act (replicate (length (t # ts)) (Retire e HCD_STATUS_OK 0) @ as)) s =
      WaitForTransferComplete e (map hc_act as) s2"
    using s1 s2(1) Cons.prems(6) by simp
  ultimately show ?case
    using s2(3-10) r(5-7) by (intro exI[of _ s2]) (simp only: simp_thms)
qed

lemma settle_all_ok:
  assumes "\<forall>t \<in> set ts. td_ed s t = e \<and> td_cc s t = HCD_STATUS_OK"
  shows "ed_status (settle_all s ts e d) = (if \<exists>t \<in> set ts. td_delay s t \<noteq> 7 then HCD_STATUS_OK else ed_status d)"
  using assms by (induction ts arbitrary: d) (auto simp: settle_def)

text \<open>What a control transfer leaves to the wait: its stages in the queue, the status \<open>QUEUED\<close>.\<close>

lemma HcdControlTransfer_start:
  assumes rel: "td_rel s Q (HcDoneHead s) D" and ed: "ed_rel s L" and h: "pipe_open hdl s" "\<not> Format (HcdED s (handle_ed hdl))"
    and f: "3 \<le> free_gtds s" and a: "preq \<noteq> 0" "buf \<noteq> 0" and i: "\<not> Skip (HcdED s (handle_ed hdl))" "\<not> Halted (HcdED s (handle_ed hdl))"
  obtains s' ts where "\<And>fs. HcdControlTransfer_ohci hdl preq req buf cs fs s = WaitForTransferComplete (handle_ed hdl) fs s'"
    "td_rel s' (Q(handle_ed hdl := Q (handle_ed hdl) @ ts)) (HcDoneHead s') D" "ed_rel s' L" "HcDoneHead s' = HcDoneHead s"
    "live s' (handle_ed hdl)" "\<not> Skip (HcdED s' (handle_ed hdl))" "\<not> Halted (HcdED s' (handle_ed hdl))"
    "ed_status (HcdED s' (handle_ed hdl)) = HCD_STATUS_TRANSFER_QUEUED" "\<not> Format (HcdED s' (handle_ed hdl))"
    "map (td_delay s') ts = replicate (control_stages req - 1) 7 @ [0]" "free_gtds s' + length ts = free_gtds s"
proof -
  let ?e = "handle_ed hdl"
  have e: "live s ?e" using h(1) by (simp add: pipe_open_def)
  obtain s1 ts where s1: "queue_control ?e preq req buf s = Some (HCD_STATUS_OK, s1)"
    "queued_on ?e s Q (HcDoneHead s) D ts (replicate (control_stages req - 1) 7 @ [0]) s1"
    by (rule queue_control_ok[OF rel e h(2) f])
  have q: "td_rel s1 (Q(?e := Q ?e @ ts)) (HcDoneHead s) D" "map (td_delay s1) ts = replicate (control_stages req - 1) 7 @ [0]"
    "free_gtds s1 + length ts = free_gtds s" "queue_frame ?e (queued_tds s Q D) s s1"
    using s1(2) by (simp_all add: queued_on_def)
  let ?s2 = "upd_ED ?e (\<lambda>d. d\<lparr>ed_status := HCD_STATUS_TRANSFER_QUEUED\<rparr>) (log_io (Wr HcCommandStatus (cs OR 0x2)) s1)"
  have q2: "hcd_quiet s1 ?s2" by (rule quiet_trans[OF quiet_log quiet_upd_ED]) (simp add: ed_view_def)
  have E: "?e < length (EDs (log_io x s1))" for x using td_relD(1)[OF q(1)] e by (simp add: live_def ohci_sizes_def)
  have k: "Skip (HcdED s1 ?e) = Skip (HcdED s ?e)" "Halted (HcdED s1 ?e) = Halted (HcdED s ?e)" "Format (HcdED s1 ?e) = Format (HcdED s ?e)"
    using no_tailD(9)[OF queue_frame_no_tail[OF q(4)]] queue_frame_ED(2,4)[OF q(4)] by auto
  show thesis
  proof (rule that)
    show "HcdControlTransfer_ohci hdl preq req buf cs fs s = WaitForTransferComplete ?e fs ?s2" for fs
      using s1(1) a by (simp add: HcdControlTransfer_ohci_def pipe_open_parse[OF h(1)])
    show "td_rel ?s2 (Q(?e := Q ?e @ ts)) (HcDoneHead ?s2) D"
      using quiet_td_rel[OF q2 q(1)] q(4) by (simp add: queue_frame_def)
    show "ed_rel ?s2 L" by (rule quiet_ed_rel[OF q2 queue_frame_ed_rel[OF q(4) ed]])
    show "live ?s2 ?e" using quiet_live[OF q2] queue_frame_live[OF q(4)] e by simp
    show "HcDoneHead ?s2 = HcDoneHead s" using q(4) by (simp add: queue_frame_def)
  qed (use q(2,3) i h(2) k in \<open>simp_all add: HcdED_upd_ED[OF E]\<close>)
qed

text \<open>
  \<^bold>\<open>C12\<close>. A control transfer completes. On an idle control pipe (nothing queued, nothing on the done
  list, three free descriptors), with a controller that carries the two or three stages out without
  error and then raises its interrupt, \<^verbatim>\<open>HcdControlTransfer\<close> returns \<open>HCD_STATUS_OK\<close>; afterwards the pipe
  is idle again and all the descriptors it used are free.
\<close>

theorem control_transfer_completes:
  assumes reach: "ohci_reach s" and h: "pipe_open hdl s" "\<not> Format (HcdED s (handle_ed hdl))"
    and i: "\<not> Skip (HcdED s (handle_ed hdl))" "\<not> Halted (HcdED s (handle_ed hdl))"
      "HeadTD (HcdED s (handle_ed hdl)) = TailP (HcdED s (handle_ed hdl))" "HcDoneHead s = None"
    and f: "3 \<le> free_gtds s" and a: "preq \<noteq> 0" "buf \<noteq> 0" and w: "irq_status r AND 0x2 \<noteq> 0"
  shows "\<exists>s'. HcdControlTransfer_ohci hdl preq req buf cs
        (map hc_act (replicate (control_stages req) (Retire (handle_ed hdl) HCD_STATUS_OK 0) @ [Irq r])) s = Some (HCD_STATUS_OK, s') \<and>
      HeadTD (HcdED s' (handle_ed hdl)) = TailP (HcdED s' (handle_ed hdl)) \<and> HcDoneHead s' = None \<and> free_gtds s' = free_gtds s"
proof -
  let ?e = "handle_ed hdl"
  obtain Q D L where QDL: "td_rel s Q (HcDoneHead s) D" "ed_rel s L"
    using ohci_reach_inv[OF reach] by (auto simp: ohci_inv_def)
  have e: "live s ?e" using h(1) by (simp add: pipe_open_def)
  have D: "D = []" using td_relD(7)[OF QDL(1)] i(4) by simp
  have Q: "Q ?e = []"
    using queue_okD(1,3)[OF QDL(1) e] i(3) e by (cases "Q ?e") (auto simp: live_def)
  obtain s1 ts where s1: "\<And>fs. HcdControlTransfer_ohci hdl preq req buf cs fs s = WaitForTransferComplete ?e fs s1"
    "td_rel s1 (Q(?e := Q ?e @ ts)) (HcDoneHead s1) D" "ed_rel s1 L" "live s1 ?e" "\<not> Skip (HcdED s1 ?e)" "\<not> Halted (HcdED s1 ?e)"
    "ed_status (HcdED s1 ?e) = HCD_STATUS_TRANSFER_QUEUED" "\<not> Format (HcdED s1 ?e)"
    "map (td_delay s1) ts = replicate (control_stages req - 1) 7 @ [0]" "free_gtds s1 + length ts = free_gtds s"
    by (rule HcdControlTransfer_start[OF QDL h f a i(1,2)]) blast
  have n: "length ts = control_stages req" using arg_cong[OF s1(9), of length] by (simp add: control_stages_def)
  have q: "(Q(?e := Q ?e @ ts)) ?e = ts @ []" using Q by simp
  from wait_retire[OF s1(2,4-6) q s1(7,3), of "[Irq r]"] obtain s2 where s2:
    "WaitForTransferComplete ?e (map hc_act (replicate (length ts) (Retire ?e HCD_STATUS_OK 0) @ [Irq r])) s1 =
      WaitForTransferComplete ?e (map hc_act [Irq r]) s2"
    "td_rel s2 (Q(?e := Q ?e @ ts, ?e := [])) (HcDoneHead s2) (rev ts @ D)" "free_gtds s2 = free_gtds s1" "live s2 ?e" "ed_rel s2 L"
    "ed_status (HcdED s2 ?e) = HCD_STATUS_TRANSFER_QUEUED" "td_delay s2 = td_delay s1" "td_ed s2 = td_ed s1"
    "td_cc s2 = (\<lambda>x. if x \<in> set ts then HCD_STATUS_OK else td_cc s1 x)" by blast
  obtain s3 where s3: "hc_irq r s2 = Some s3" "td_rel s3 (Q(?e := Q ?e @ ts, ?e := [])) None []" "HcDoneHead s3 = None"
    "\<forall>x < MAX_ED. HcdED s3 x = settle_all s2 (rev (rev ts @ D)) x (HcdED s2 x)"
    "free_gtds s3 = free_gtds s2 + length (filter (\<lambda>t. \<not> is_Itd t) (rev ts @ D))"
    by (rule hc_irq_done[OF s2(2,5) w])
  have at: "td_at s1 ?e t" if "t \<in> set ts" for t
    using queue_okD(4)[OF s1(2,4), of t] that by (simp add: td_owned_def)
  have e8: "?e < MAX_ED" using e by (simp add: live_def)
  have E3: "HcdED s3 ?e = settle_all s2 ts ?e (HcdED s2 ?e)" using s3(4) e8 D by simp
  have all: "\<forall>t \<in> set ts. td_ed s2 t = ?e \<and> td_cc s2 t = HCD_STATUS_OK" using at s2(8,9) by (auto simp: td_at_def)
  have "\<exists>t \<in> set ts. td_delay s2 t \<noteq> 7"
  proof -
    have "0 \<in> set (map (td_delay s1) ts)" unfolding s1(9) by simp
    then obtain t where "t \<in> set ts" "td_delay s1 t = 0" by auto
    then show ?thesis using s2(7) by (intro bexI[of _ t]) simp_all
  qed
  then have st: "ed_status (HcdED s3 ?e) = HCD_STATUS_OK" unfolding E3 settle_all_ok[OF all] by simp
  have "filter (\<lambda>t. \<not> is_Itd t) (rev ts @ D) = rev ts"
    using at s1(8) D by (auto simp: filter_id_conv td_at_def)
  then have fr: "free_gtds s3 = free_gtds s" using s3(5) s2(3) s1(10) by simp
  have "live s3 ?e" using s2(4) E3 by (simp add: live_def)
  from queue_okD(1)[OF s3(2) this] have "HeadTD (HcdED s3 ?e) = TailP (HcdED s3 ?e)" by simp
  moreover have "WaitForTransferComplete ?e (map hc_act [Irq r]) s2 = Some (HCD_STATUS_OK, s3)"
    using s2(6) s3(1) st by simp
  ultimately show ?thesis using s1(1) s2(1) s3(3) fr n by auto
qed

definition get_device_descriptor :: USB_Request_Header_t where
  "get_device_descriptor = \<lparr>bmRequestType = 0x80, bRequest = 6, wValue = 0x100, wIndex = 0, wLength = 8\<rparr>"

definition wdh_reads :: irq_reads where
  "wdh_reads = \<lparr>rd_IntStatus = 0x2, rd_IntEnable = 0x42, rd_csc = 0, rd_connect = 0, rd_pesc = 0, rd_pssc = 0,
     rd_ocic = 0, rd_prsc = 0\<rparr>"

lemma wdh_irq: "irq_status wdh_reads AND 0x2 \<noteq> 0"
  by (simp add: wdh_reads_def)

lemma get_device_stages:
  "control_stages get_device_descriptor = 3" "replicate 3 x = [x, x, x]"
  by (simp_all add: control_stages_def get_device_descriptor_def numeral_3_eq_3)

theorem control_transfer_completes_witness:
  "\<exists>s'. HcdControlTransfer_ohci 0 0x20000000 get_device_descriptor 0x20000100 0
     (map hc_act [Retire 0 HCD_STATUS_OK 0, Retire 0 HCD_STATUS_OK 0, Retire 0 HCD_STATUS_OK 0, Irq wdh_reads]) ohci_two
     = Some (HCD_STATUS_OK, s') \<and> free_gtds s' = 9"
  using control_transfer_completes[OF ohci_two_reach, of 0 "0x20000000" "0x20000100" wdh_reads get_device_descriptor 0]
    ohci_two_pipes ohci_two_flags wdh_irq get_device_stages(1)
  by (auto simp: get_device_stages(2))

text \<open>
  A failed control transfer leaves its other stages queued. When the controller stops at the set-up
  stage with any error, \<^verbatim>\<open>HcdControlTransfer\<close> returns \<open>HCD_STATUS_TRANSFER_Stall\<close> (whatever the error
  was: the controller has halted the endpoint, and the handler reports a halted endpoint as a stall),
  with the data and status stages still in the queue, their descriptors still in use, and the endpoint
  no longer halted, so that the controller goes on with the stages of the failed request.
\<close>

theorem failed_setup_leaves_stages:
  assumes reach: "ohci_reach s" and h: "pipe_open hdl s" "\<not> Format (HcdED s (handle_ed hdl))"
    and i: "\<not> Skip (HcdED s (handle_ed hdl))" "\<not> Halted (HcdED s (handle_ed hdl))"
      "HeadTD (HcdED s (handle_ed hdl)) = TailP (HcdED s (handle_ed hdl))" "HcDoneHead s = None"
    and f: "3 \<le> free_gtds s" and a: "preq \<noteq> 0" "buf \<noteq> 0" and w: "irq_status r AND 0x2 \<noteq> 0" and cc: "cc \<noteq> HCD_STATUS_OK"
  shows "\<exists>s'. HcdControlTransfer_ohci hdl preq req buf cs (map hc_act [Retire (handle_ed hdl) cc cbp, Irq r]) s
        = Some (HCD_STATUS_TRANSFER_Stall, s') \<and>
      HeadTD (HcdED s' (handle_ed hdl)) \<noteq> TailP (HcdED s' (handle_ed hdl)) \<and> \<not> Halted (HcdED s' (handle_ed hdl)) \<and>
      \<not> Skip (HcdED s' (handle_ed hdl)) \<and> free_gtds s' + (control_stages req - 1) = free_gtds s"
proof -
  let ?e = "handle_ed hdl"
  obtain Q D L where QDL: "td_rel s Q (HcDoneHead s) D" "ed_rel s L"
    using ohci_reach_inv[OF reach] by (auto simp: ohci_inv_def)
  have e: "live s ?e" using h(1) by (simp add: pipe_open_def)
  have D: "D = []" using td_relD(7)[OF QDL(1)] i(4) by simp
  have Q: "Q ?e = []"
    using queue_okD(1,3)[OF QDL(1) e] i(3) e by (cases "Q ?e") (auto simp: live_def)
  obtain s1 ts where s1: "\<And>fs. HcdControlTransfer_ohci hdl preq req buf cs fs s = WaitForTransferComplete ?e fs s1"
    "td_rel s1 (Q(?e := Q ?e @ ts)) (HcDoneHead s1) D" "ed_rel s1 L" "live s1 ?e" "\<not> Skip (HcdED s1 ?e)" "\<not> Halted (HcdED s1 ?e)"
    "ed_status (HcdED s1 ?e) = HCD_STATUS_TRANSFER_QUEUED" "\<not> Format (HcdED s1 ?e)"
    "map (td_delay s1) ts = replicate (control_stages req - 1) 7 @ [0]" "free_gtds s1 + length ts = free_gtds s"
    by (rule HcdControlTransfer_start[OF QDL h f a i(1,2)]) blast
  have n: "length ts = control_stages req" using arg_cong[OF s1(9), of length] by (simp add: control_stages_def)
  obtain t us where t: "ts = t # us" "us \<noteq> []"
    using n by (cases ts; cases "tl ts") (auto simp: control_stages_def split: if_splits)
  have q: "(Q(?e := Q ?e @ ts)) ?e = t # us" using Q t(1) by simp
  obtain s2 where s2: "hc_retire ?e cc cbp s1 = Some s2" by (rule hc_retire_enabled[OF s1(2,4-6) q])
  obtain t' us' where r: "(Q(?e := Q ?e @ ts)) ?e = t' # us'" "td_rel s2 (Q(?e := Q ?e @ ts, ?e := us')) (HcDoneHead s2) (t' # D)"
    "HcdED s2 = (HcdED s1)(?e := (HcdED s1 ?e)\<lparr>HeadTD := td_next s1 t', Halted := (cc \<noteq> HCD_STATUS_OK)\<rparr>)"
    "staticEDs s2 = staticEDs s1" "td_cc s2 = (td_cc s1)(t' := cc)" "td_delay s2 = td_delay s1" "td_ed s2 = td_ed s1"
    "free_gtds s2 = free_gtds s1"
    by (rule hc_retire_rel[OF s1(2) s2])
  have t': "t' = t" "us' = us" using r(1) q by simp_all
  have "ed_rel s2 L" using r(3,4) by (intro ed_rel_frame[OF s1(3)]) (simp_all add: live_def)
  from r(2) this w obtain s3 where s3: "hc_irq r s2 = Some s3" "td_rel s3 (Q(?e := Q ?e @ ts, ?e := us')) None []"
    "\<forall>x < MAX_ED. HcdED s3 x = settle_all s2 (rev (t' # D)) x (HcdED s2 x)"
    "free_gtds s3 = free_gtds s2 + length (filter (\<lambda>t. \<not> is_Itd t) (t' # D))"
    by (rule hc_irq_done)
  have at: "td_at s1 ?e t" using queue_okD(4)[OF s1(2,4), of t] t(1) by (simp add: td_owned_def)
  have e8: "?e < MAX_ED" using e by (simp add: live_def)
  have E3: "HcdED s3 ?e = settle cc (td_delay s1 t) (HcdED s2 ?e)"
    using s3(3) e8 D t' r(5-7) at by (simp add: td_at_def)
  have st: "ed_status (HcdED s3 ?e) = HCD_STATUS_TRANSFER_Stall" "\<not> Halted (HcdED s3 ?e)" "\<not> Skip (HcdED s3 ?e)" "live s3 ?e"
    using cc r(3) s1(4,5) by (simp_all add: E3 settle_def Let_def live_def)
  have "HeadTD (HcdED s3 ?e) \<noteq> TailP (HcdED s3 ?e)"
    using queue_okD(1,3)[OF s3(2) st(4)] t' t(2) by (cases us) (auto, metis option.sel)
  moreover have "free_gtds s3 + (control_stages req - 1) = free_gtds s"
    using s3(4) r(8) s1(10) n D t' at s1(8) by (simp add: td_at_def control_stages_def split: if_splits)
  moreover have "WaitForTransferComplete ?e (map hc_act [Retire ?e cc cbp, Irq r]) s1 = Some (HCD_STATUS_TRANSFER_Stall, s3)"
    using s1(7) s2 s3(1) st(1) r(3) by simp
  ultimately show ?thesis using s1(1) st by auto
qed

theorem failed_setup_leaves_stages_example:
  "\<exists>s'. HcdControlTransfer_ohci 0 0x20000000 get_device_descriptor 0x20000100 0
     (map hc_act [Retire 0 HCD_STATUS_TRANSFER_DeviceNotResponding 0, Irq wdh_reads]) ohci_two
     = Some (HCD_STATUS_TRANSFER_Stall, s') \<and> free_gtds s' = 7"
  using failed_setup_leaves_stages[OF ohci_two_reach, of 0 "0x20000000" "0x20000100" wdh_reads
      HCD_STATUS_TRANSFER_DeviceNotResponding get_device_descriptor 0 0]
    ohci_two_pipes ohci_two_flags wdh_irq get_device_stages(1) by auto

section \<open>Cancellation and interrupts\<close>

text \<open>
  \<^bold>\<open>C16\<close>. What a cancellation does depends on the first read of the start-of-frame flag. Seen clear, the
  descriptors of the queue are freed at once (before the frame has ended, which the wait is there for)
  and the pipe is empty; seen set, the pipe is emptied as well, but the descriptors are not freed: each of
  them stays in use and is in no queue any more.
\<close>

theorem cancel_frees_or_leaks:
  assumes reach: "ohci_reach s" and h: "pipe_open hdl s" "\<not> Format (HcdED s (handle_ed hdl))" and w: "True \<in> set sofs"
  shows "\<exists>Q D s' s''. td_rel s Q (HcDoneHead s) D \<and>
      HcdCancelTransfer hdl (False # sofs) s = Some (HCD_STATUS_OK, s') \<and>
      td_rel s' (Q(handle_ed hdl := [])) (HcDoneHead s') D \<and> free_gtds s' = free_gtds s + length (Q (handle_ed hdl)) \<and>
      HcdCancelTransfer hdl (True # sofs) s = Some (HCD_STATUS_OK, s'') \<and>
      HeadTD (HcdED s'' (handle_ed hdl)) = TailP (HcdED s'' (handle_ed hdl)) \<and>
      free_gtds s'' = free_gtds s \<and> td_inUse s'' = td_inUse s"
proof -
  let ?e = "handle_ed hdl"
  obtain Q D L where QDL: "td_rel s Q (HcDoneHead s) D" "ed_rel s L"
    using ohci_reach_inv[OF reach] by (auto simp: ohci_inv_def)
  obtain s1 where s1: "HcdCancelTransfer hdl (False # sofs) s = Some (HCD_STATUS_OK, s1)"
    "td_rel s1 (Q(?e := [])) (HcDoneHead s1) D"
    "free_gtds s1 = free_gtds s + (if Format (HcdED s ?e) then 0 else length (Q ?e))"
    by (rule HcdCancelTransfer_rel[OF QDL h(1) w])
  define s2 where "s2 = upd_ED ?e (\<lambda>d. d\<lparr>Skip := False\<rparr>) (upd_ED ?e (\<lambda>d. d\<lparr>ToggleCarry := False\<rparr>)
     (upd_ED ?e (\<lambda>d. set_HeadTD (TailP d) d) (log_io (Wr HcInterruptStatus 0x4) (upd_ED ?e (\<lambda>d. d\<lparr>Skip := True\<rparr>) s))))"
  have E: "?e < length (EDs s)" using td_relD(1)[OF QDL(1)] h(1) by (simp add: pipe_open_def live_def ohci_sizes_def)
  have "HcdCancelTransfer hdl (True # sofs) s = Some (HCD_STATUS_OK, s2)"
    by (simp add: HcdCancelTransfer_def pipe_open_parse[OF h(1)] s2_def)
  moreover have "HeadTD (HcdED s2 ?e) = TailP (HcdED s2 ?e)" "free_gtds s2 = free_gtds s" "td_inUse s2 = td_inUse s"
    using E by (simp_all add: s2_def HcdED_upd_ED set_HeadTD_def)
  ultimately show ?thesis using QDL(1) s1 h(2) by (intro exI[of _ Q] exI[of _ D] exI[of _ s1] exI[of _ s2]) simp
qed

definition ohci_busy :: ohci where
  "ohci_busy = snd (the (HcdDataTransfer_ohci 1 0x20007F00 10000 0 0 ohci_two))"

lemma ohci_busy_eqs:
  "map_option fst (HcdDataTransfer_ohci 1 0x20007F00 10000 0 0 ohci_two) = Some HCD_STATUS_OK"
  "pipe_open 1 ohci_busy" "\<not> Format (HcdED ohci_busy 1)" "live ohci_busy 1" "free_gtds ohci_busy = 7" "HcDoneHead ohci_busy = None"
  "HeadTD (HcdED ohci_busy 1) = Some (Gtd 1)" "td_next ohci_busy (Gtd 1) = Some (Gtd 2)"
  "td_next ohci_busy (Gtd 2) = Some (Gtd 3)" "TailP (HcdED ohci_busy 1) = Some (Gtd 3)"
  by code_simp+

lemma ohci_busy_reach: "ohci_reach ohci_busy"
proof -
  have "HcdDataTransfer_ohci 1 0x20007F00 10000 0 0 ohci_two = Some (HCD_STATUS_OK, ohci_busy)"
    using ohci_busy_eqs(1) by (auto simp: ohci_busy_def)
  from ohci_reach.data[OF ohci_two_reach ohci_two_pipes(2) _ this] show ?thesis
    using ohci_two_flags ohci_two_pipes by simp
qed

lemma ohci_busy_queue: "td_rel ohci_busy Q dh D \<Longrightarrow> Q 1 = [Gtd 1, Gtd 2]"
  using queue_okD(1,3)[of ohci_busy Q dh D 1] ohci_busy_eqs(4,7-10)
  by (cases "Q 1"; cases "tl (Q 1)"; cases "tl (tl (Q 1))") auto

theorem cancel_frees_or_leaks_witness:
  "\<exists>s' s''. HcdCancelTransfer 1 [False, True] ohci_busy = Some (HCD_STATUS_OK, s') \<and> free_gtds s' = 9 \<and>
     HcdCancelTransfer 1 [True, True] ohci_busy = Some (HCD_STATUS_OK, s'') \<and> free_gtds s'' = 7"
  using cancel_frees_or_leaks[OF ohci_busy_reach, of 1 "[True]"] ohci_busy_eqs(2,3,5) ohci_two_pipes(10)
  by (auto dest: ohci_busy_queue)


definition ohci_retired :: ohci where
  "ohci_retired = the (hc_retire 1 HCD_STATUS_OK 0 ohci_busy)"

lemma ohci_retired_eqs:
  "(case hc_retire 1 HCD_STATUS_OK 0 ohci_busy of None \<Rightarrow> False | Some _ \<Rightarrow> True)" "HcDoneHead ohci_retired = Some (Gtd 1)"
  "td_next ohci_retired (Gtd 1) = None" "free_gtds ohci_retired = 7"
  by code_simp+

lemma ohci_retired_reach: "ohci_reach ohci_retired"
  by (rule ohci_reach.hardware[OF ohci_busy_reach, of "Retire 1 HCD_STATUS_OK 0"])
    (use ohci_retired_eqs(1) in \<open>cases "hc_retire 1 HCD_STATUS_OK 0 ohci_busy"; simp add: ohci_retired_def\<close>)

lemma ohci_retired_done: "td_rel ohci_retired Q (HcDoneHead ohci_retired) D \<Longrightarrow> D = [Gtd 1]"
  using td_relD(7)[of ohci_retired Q "HcDoneHead ohci_retired" D] ohci_retired_eqs(2,3) by (cases D; cases "tl D") auto






end
