(* ===== verification/OhciPipes.thy ===== *)
theory OhciPipes
  imports OhciProps
begin

unbundle bit_operations_syntax

text \<open>
  The pipe layer on the host controller driver. \<open>host_driver\<close> is what the pipes rely on when they open and
  close endpoints: the calls keep the state of the driver, an endpoint that is opened is a new one, and closing
  ends this endpoint and no other. The driver of \<^verbatim>\<open>OHCI.c\<close> provides it, so that \<^verbatim>\<open>Pipe_ConfigurePipe\<close> and
  \<^verbatim>\<open>Pipe_ClosePipe\<close> give every open pipe an endpoint of its own.
\<close>

section \<open>The contract of opening and closing\<close>

definition pipes_match :: "(u32 \<Rightarrow> 'h \<Rightarrow> bool) \<Rightarrow> (u32 \<Rightarrow> nat) \<Rightarrow> 'h usb \<Rightarrow> bool" where
  "pipes_match opened ep_of u \<longleftrightarrow>
     (\<forall>i < 8. Buffer (row u ! i) \<noteq> None \<longrightarrow> opened (PipeHandle (row u ! i)) (hcd_state u)) \<and>
     (\<forall>i < 8. \<forall>j < 8. i \<noteq> j \<longrightarrow> Buffer (row u ! i) \<noteq> None \<longrightarrow> Buffer (row u ! j) \<noteq> None \<longrightarrow>
        ep_of (PipeHandle (row u ! i)) \<noteq> ep_of (PipeHandle (row u ! j)))"

lemma pipe_upd_effect:
  "pipe_upd 0 n f u = Some v \<Longrightarrow>
     hcd_state v = hcd_state u \<and> row v = (row u)[unat n := f (row u ! unat n)] \<and> unat n < length (row u)"
  by (cases "PipeInfo u") (auto simp: pipe_upd_def rd_def split: if_splits Option.bind_splits)

lemma configure_effect:
  assumes r: "Pipe_ConfigurePipe d 0 n ty tok ep sz u = Some (ok, u')" and b: "Buffer (row u ! unat n) = None"
  shows "\<exists>a st hdl h. HcdOpenPipe d 0 a (hostportspeed u ! 0) ep ty tok sz (hcd_state u) = (st, hdl, h) \<and>
    hcd_state u' = h \<and> (\<forall>i. i \<noteq> unat n \<longrightarrow> row u' ! i = row u ! i) \<and>
    PipeHandle (row u' ! unat n) = (case hdl of None \<Rightarrow> PipeHandle (row u ! unat n) | Some x \<Rightarrow> x) \<and>
    (Buffer (row u' ! unat n) \<noteq> None \<longrightarrow> st = HCD_STATUS_OK)"
proof -
  obtain a st hdl h where hcd: "a = (if ty = EP_TYPE_CONTROL \<and> USB_HostState u ! 0 < HOST_STATE_Default_PostAddressSet then 0 else 1)"
    "HcdOpenPipe d 0 a (hostportspeed u ! 0) ep ty tok sz (hcd_state u) = (st, hdl, h)" by (metis prod_cases3)
  have "hcd_state u' = h \<and> (\<forall>i. i \<noteq> unat n \<longrightarrow> row u' ! i = row u ! i) \<and>
    PipeHandle (row u' ! unat n) = (case hdl of None \<Rightarrow> PipeHandle (row u ! unat n) | Some x \<Rightarrow> x) \<and>
    (Buffer (row u' ! unat n) \<noteq> None \<longrightarrow> st = HCD_STATUS_OK)"
    using r b hcd by (cases hdl) (auto simp: Pipe_ConfigurePipe_def Let_def rd_def clear_pipe_def dest!: pipe_upd_effect
        split: Option.bind_splits prod.splits if_splits)
  then show ?thesis using hcd(2) by blast
qed

lemma close_effect:
  "Pipe_ClosePipe d 0 n u = Some u' \<Longrightarrow> unat n < 8 \<Longrightarrow>
     hcd_state u' = HcdClosePipe d (PipeHandle (row u ! unat n)) (hcd_state u) \<and>
     row u' = (row u)[unat n := (row u ! unat n)\<lparr>PipeHandle := 0, Buffer := None, BufferSize := 0\<rparr>]"
  by (cases "PipeInfo u") (auto simp: Pipe_ClosePipe_def pipe_at_def rd_def Let_def dest!: pipe_upd_effect split: Option.bind_splits if_splits)

locale host_driver =
  fixes d :: "'h hcd" and inv idle :: "'h \<Rightarrow> bool" and opened :: "u32 \<Rightarrow> 'h \<Rightarrow> bool" and ep_of :: "u32 \<Rightarrow> nat"
  assumes open_inv: "inv h \<Longrightarrow> idle h \<Longrightarrow> HcdOpenPipe d 0 a sp ep ty dir sz h = (st, hdl, h') \<Longrightarrow> inv h'"
    and open_keeps: "inv h \<Longrightarrow> idle h \<Longrightarrow> HcdOpenPipe d 0 a sp ep ty dir sz h = (st, hdl, h') \<Longrightarrow> opened x h \<Longrightarrow> opened x h'"
    and open_new: "inv h \<Longrightarrow> idle h \<Longrightarrow> HcdOpenPipe d 0 a sp ep ty dir sz h = (HCD_STATUS_OK, hdl, h') \<Longrightarrow>
      \<exists>x. hdl = Some x \<and> opened x h' \<and> (\<forall>y. opened y h \<longrightarrow> ep_of y \<noteq> ep_of x)"
    and close_inv: "inv h \<Longrightarrow> opened x h \<Longrightarrow> inv (HcdClosePipe d x h)"
    and close_only: "inv h \<Longrightarrow> opened x h \<Longrightarrow> opened y (HcdClosePipe d x h) \<longleftrightarrow> opened y h \<and> ep_of y \<noteq> ep_of x"
begin

lemma configure_match:
  assumes u: "usb_ok u" and m: "pipes_match opened ep_of u" and i: "inv (hcd_state u)" "idle (hcd_state u)"
    and n: "unat n < 8" "Buffer (row u ! unat n) = None"
  shows "\<exists>ok u'. Pipe_ConfigurePipe d 0 n ty tok ep sz u = Some (ok, u') \<and> pipes_match opened ep_of u' \<and> inv (hcd_state u') \<and>
    (ok \<longrightarrow> usb_ok u' \<and> Buffer (row u' ! unat n) \<noteq> None \<and> opened (PipeHandle (row u' ! unat n)) (hcd_state u'))"
proof -
  obtain ok u' where r: "Pipe_ConfigurePipe d 0 n ty tok ep sz u = Some (ok, u')"
    "ok \<longrightarrow> usb_ok u' \<and> Buffer (row u' ! unat n) \<noteq> None" using configure_total[OF u n(1)] by blast
  obtain a st hdl h where e: "HcdOpenPipe d 0 a (hostportspeed u ! 0) ep ty tok sz (hcd_state u) = (st, hdl, h)"
    "hcd_state u' = h" "\<And>i. i \<noteq> unat n \<Longrightarrow> row u' ! i = row u ! i"
    "PipeHandle (row u' ! unat n) = (case hdl of None \<Rightarrow> PipeHandle (row u ! unat n) | Some x \<Rightarrow> x)"
    "Buffer (row u' ! unat n) \<noteq> None \<Longrightarrow> st = HCD_STATUS_OK"
    using configure_effect[OF r(1) n(2)] by blast
  have h: "inv h" by (rule open_inv[OF i e(1)])
  have keep: "opened x h" if "opened x (hcd_state u)" for x by (rule open_keeps[OF i e(1) that])
  have new: "opened (PipeHandle (row u' ! unat n)) h \<and> (\<forall>y. opened y (hcd_state u) \<longrightarrow> ep_of y \<noteq> ep_of (PipeHandle (row u' ! unat n)))"
    if "Buffer (row u' ! unat n) \<noteq> None"
    using open_new[OF i e(1)[unfolded e(5)[OF that]]] e(4) by auto
  have o: "opened (PipeHandle (row u ! j)) (hcd_state u)" if "j < 8" "Buffer (row u ! j) \<noteq> None" for j
    using m that by (simp add: pipes_match_def)
  have neq: "ep_of (PipeHandle (row u ! j)) \<noteq> ep_of (PipeHandle (row u' ! unat n))"
    if "Buffer (row u' ! unat n) \<noteq> None" "j < 8" "Buffer (row u ! j) \<noteq> None" for j
    using new[OF that(1)] o[OF that(2,3)] by blast
  have "pipes_match opened ep_of u'"
    unfolding pipes_match_def
  proof (intro conjI allI impI)
    fix j assume "j < 8" "Buffer (row u' ! j) \<noteq> None"
    then show "opened (PipeHandle (row u' ! j)) (hcd_state u')"
      using new o keep e(2,3) by (cases "j = unat n") auto
  next
    fix j k :: nat assume "j < 8" "k < 8" "j \<noteq> k" "Buffer (row u' ! j) \<noteq> None" "Buffer (row u' ! k) \<noteq> None"
    then show "ep_of (PipeHandle (row u' ! j)) \<noteq> ep_of (PipeHandle (row u' ! k))"
      using neq[of k] neq[of j] e(3) m by (cases "j = unat n"; cases "k = unat n") (auto simp: pipes_match_def)
  qed
  then show ?thesis using r h e(2) new by blast
qed

lemma close_match:
  assumes u: "usb_ok u" and m: "pipes_match opened ep_of u" and i: "inv (hcd_state u)"
    and n: "unat n < 8" "Buffer (row u ! unat n) \<noteq> None"
  shows "\<exists>u'. Pipe_ClosePipe d 0 n u = Some u' \<and> usb_ok u' \<and> pipes_match opened ep_of u' \<and> inv (hcd_state u') \<and>
    \<not> opened (PipeHandle (row u ! unat n)) (hcd_state u')"
proof -
  let ?x = "PipeHandle (row u ! unat n)"
  obtain u' where r: "Pipe_ClosePipe d 0 n u = Some u'" "usb_ok u'" using close_ok[OF u n(1)] by blast
  note e = close_effect[OF r(1) n(1)]
  have len: "length (row u) = 8" using usb_shapeD(2)[OF usb_okD(3)[OF u]] .
  have x: "opened ?x (hcd_state u)" using m n by (simp add: pipes_match_def)
  have o: "opened (PipeHandle (row u ! j)) (hcd_state u) \<and> ep_of (PipeHandle (row u ! j)) \<noteq> ep_of ?x"
    if "j < 8" "j \<noteq> unat n" "Buffer (row u ! j) \<noteq> None" for j
    using m n that by (simp add: pipes_match_def)
  have j: "j \<noteq> unat n \<and> row u' ! j = row u ! j" if "j < 8" "Buffer (row u' ! j) \<noteq> None" for j
    using that e len n(1) by (cases "j = unat n") simp_all
  have "pipes_match opened ep_of u'"
    unfolding pipes_match_def
  proof (intro conjI allI impI)
    fix k assume "k < 8" "Buffer (row u' ! k) \<noteq> None"
    then show "opened (PipeHandle (row u' ! k)) (hcd_state u')"
      using j[of k] o[of k] close_only[OF i x] e by auto
  next
    fix k l :: nat assume k: "k < 8" "l < 8" "k \<noteq> l" "Buffer (row u' ! k) \<noteq> None" "Buffer (row u' ! l) \<noteq> None"
    then show "ep_of (PipeHandle (row u' ! k)) \<noteq> ep_of (PipeHandle (row u' ! l))"
      using j[of k] j[of l] m by (simp add: pipes_match_def)
  qed
  then show ?thesis using r e close_inv[OF i x] close_only[OF i x] by auto
qed

end

section \<open>The OHCI driver below the pipes\<close>

text \<open>
  The entry points of \<^verbatim>\<open>OHCI.c\<close> that the pipes open and close endpoints with; the interval is the
  constant of \<^verbatim>\<open>Pipe_ConfigurePipe\<close>. The other entry points are those of any driver \<open>d\<close>. The reads of the start-of-frame
  flag begin with one that finds it clear and end with one that finds it set. Both calls return in every reachable
  state, so that \<^const>\<open>the\<close> is never applied to \<^const>\<open>None\<close> there.
\<close>

definition ohci_below :: "bool list \<Rightarrow> ohci hcd \<Rightarrow> ohci hcd" where
  "ohci_below sofs d = d\<lparr>
     HcdOpenPipe := \<lambda>c dev speed ep ty dir mps s. the (HcdOpenPipe_ohci c dev speed ep ty dir mps 1 s),
     HcdClosePipe := \<lambda>hdl s. snd (the (HcdClosePipe_ohci hdl (False # sofs @ [True]) s))\<rparr>"

lemma pipe_open_iff: "pipe_open hdl s \<longleftrightarrow> ucast (drop_bit 8 hdl) < MAX_USB_CORE \<and> live s (handle_ed hdl)"
  by (auto simp: pipe_open_def PipehandleParse_def Let_def live_def handle_ed_def not_le)

lemma pipe_open_Create:
  assumes "live s e"
  shows "pipe_open (PipehandleCreate 0 e) s" "handle_ed (PipehandleCreate 0 e) = e"
proof -
  have "e \<in> {0, 1, 2, 3, 4, 5, 6, 7}" using assms by (auto simp: live_def)
  then show h: "handle_ed (PipehandleCreate 0 e) = e" by (auto simp: handle_ed_def PipehandleCreate_def)
  show "pipe_open (PipehandleCreate 0 e) s"
    using assms PipehandleParse_Create[of e s] by (simp add: pipe_open_def h live_def)
qed

lemma ohci_open:
  assumes r: "ohci_reach s" "HcDoneHead s = None" and o: "HcdOpenPipe (ohci_below sofs d) c a sp ep ty dir sz s = (st, hdl, s')"
  shows "ohci_reach s'" "pipe_open x s \<Longrightarrow> pipe_open x s'"
    "st = HCD_STATUS_OK \<Longrightarrow> \<exists>x. hdl = Some x \<and> pipe_open x s' \<and> (\<forall>y. pipe_open y s \<longrightarrow> handle_ed y \<noteq> handle_ed x)"
proof -
  obtain st1 hdl1 s1 where e: "HcdOpenPipe_ohci c a sp ep ty dir sz 1 s = Some (st1, hdl1, s1)" "ohci_inv s1"
    "st1 = HCD_STATUS_OK \<Longrightarrow> \<exists>e. hdl1 = Some (PipehandleCreate 0 e) \<and> \<not> live s e \<and> live s1 = (\<lambda>x. x = e \<or> live s x)"
    "st1 \<noteq> HCD_STATUS_OK \<Longrightarrow> live s1 = live s"
    by (rule HcdOpenPipe_rel[OF ohci_reach_inv[OF r(1)] r(2), of c a sp ep ty dir sz 1]) blast
  have q: "st1 = st" "hdl1 = hdl" "s1 = s'" using o e(1) by (simp_all add: ohci_below_def)
  show "ohci_reach s'" using ohci_reach.opened[OF r e(1)] q by simp
  show "pipe_open x s \<Longrightarrow> pipe_open x s'"
    using e(3,4) q by (cases "st = HCD_STATUS_OK") (auto simp: pipe_open_iff)
  assume "st = HCD_STATUS_OK"
  then obtain e where e': "hdl = Some (PipehandleCreate 0 e)" "\<not> live s e" "live s' = (\<lambda>x. x = e \<or> live s x)" using e(3) q by auto
  then have "live s' e" by simp
  from pipe_open_Create[OF this] e'(1,2)
  show "\<exists>x. hdl = Some x \<and> pipe_open x s' \<and> (\<forall>y. pipe_open y s \<longrightarrow> handle_ed y \<noteq> handle_ed x)"
    by (auto simp: pipe_open_iff)
qed

lemma ohci_close:
  assumes r: "ohci_reach s" and o: "pipe_open x s"
  shows "ohci_reach (HcdClosePipe (ohci_below sofs d) x s)"
    "live (HcdClosePipe (ohci_below sofs d) x s) e \<longleftrightarrow> live s e \<and> e \<noteq> handle_ed x"
proof -
  obtain Q D L where QDL: "td_rel s Q (HcDoneHead s) D" "ed_rel s L"
    using ohci_reach_inv[OF r] by (auto simp: ohci_inv_def)
  have t: "True \<in> set (sofs @ [True])" by simp
  obtain s' where s': "HcdClosePipe_ohci x (False # sofs @ [True]) s = Some (HCD_STATUS_OK, s')"
    "\<forall>e. live s' e \<longleftrightarrow> live s e \<and> e \<noteq> handle_ed x"
    by (rule HcdClosePipe_rel[OF QDL o t])
  have q: "HcdClosePipe (ohci_below sofs d) x s = s'" using s'(1) by (simp add: ohci_below_def)
  show "ohci_reach (HcdClosePipe (ohci_below sofs d) x s)" unfolding q by (rule ohci_reach.closed[OF r o s'(1)])
  show "live (HcdClosePipe (ohci_below sofs d) x s) e \<longleftrightarrow> live s e \<and> e \<noteq> handle_ed x" unfolding q using s'(2) by blast
qed

interpretation ohci_pipes: host_driver "ohci_below sofs d" ohci_reach "\<lambda>s. HcDoneHead s = None" pipe_open handle_ed
  for sofs d
proof unfold_locales
  fix h h' :: ohci and a sp ep ty dir :: u8 and sz :: u16 and st hdl
  assume o: "ohci_reach h" "HcDoneHead h = None" "HcdOpenPipe (ohci_below sofs d) 0 a sp ep ty dir sz h = (st, hdl, h')"
  show "ohci_reach h'" by (rule ohci_open(1)[OF o])
  show "pipe_open x h'" if "pipe_open x h" for x by (rule ohci_open(2)[OF o that])
next
  fix h h' :: ohci and a sp ep ty dir :: u8 and sz :: u16 and hdl
  assume o: "ohci_reach h" "HcDoneHead h = None" "HcdOpenPipe (ohci_below sofs d) 0 a sp ep ty dir sz h = (HCD_STATUS_OK, hdl, h')"
  show "\<exists>x. hdl = Some x \<and> pipe_open x h' \<and> (\<forall>y. pipe_open y h \<longrightarrow> handle_ed y \<noteq> handle_ed x)"
    by (rule ohci_open(3)[OF o refl])
next
  fix h x y assume o: "ohci_reach h" "pipe_open x h"
  show "ohci_reach (HcdClosePipe (ohci_below sofs d) x h)" by (rule ohci_close(1)[OF o])
  show "pipe_open y (HcdClosePipe (ohci_below sofs d) x h) \<longleftrightarrow> pipe_open y h \<and> handle_ed y \<noteq> handle_ed x"
    using ohci_close(2)[OF o] by (simp add: pipe_open_iff)
qed

text \<open>
  \<^bold>\<open>C9\<close>. Every open pipe owns an endpoint of the driver. On the OHCI driver \<^verbatim>\<open>Pipe_ConfigurePipe\<close> of an unused pipe
  and \<^verbatim>\<open>Pipe_ClosePipe\<close> of an open one return and keep this: the handle of each open pipe is an open endpoint,
  different pipes have different endpoints, and after closing the endpoint of the pipe is closed. A pipe that is
  not in use has the handle 0, which is the handle of endpoint 0: closing it closes that endpoint, whatever pipe it
  belongs to.
\<close>

theorem pipes_own_endpoints:
  assumes u: "usb_ok u" and m: "pipes_match pipe_open handle_ed u" and r: "ohci_reach (hcd_state u)" and n: "unat n < 8"
  shows "(Buffer (row u ! unat n) = None \<longrightarrow> HcDoneHead (hcd_state u) = None \<longrightarrow>
      (\<exists>ok u'. Pipe_ConfigurePipe (ohci_below sofs d) 0 n ty tok ep sz u = Some (ok, u') \<and>
         pipes_match pipe_open handle_ed u' \<and> ohci_reach (hcd_state u') \<and>
         (ok \<longrightarrow> usb_ok u' \<and> Buffer (row u' ! unat n) \<noteq> None \<and> pipe_open (PipeHandle (row u' ! unat n)) (hcd_state u')))) \<and>
    (Buffer (row u ! unat n) \<noteq> None \<longrightarrow>
      (\<exists>u'. Pipe_ClosePipe (ohci_below sofs d) 0 n u = Some u' \<and> usb_ok u' \<and> pipes_match pipe_open handle_ed u' \<and>
         ohci_reach (hcd_state u') \<and> \<not> pipe_open (PipeHandle (row u ! unat n)) (hcd_state u'))) \<and>
    (PipeHandle (row u ! unat n) = 0 \<longrightarrow> live (hcd_state u) 0 \<longrightarrow>
      (\<exists>u'. Pipe_ClosePipe (ohci_below sofs d) 0 n u = Some u' \<and> \<not> live (hcd_state u') 0))"
proof (intro conjI impI)
  show "\<exists>ok u'. Pipe_ConfigurePipe (ohci_below sofs d) 0 n ty tok ep sz u = Some (ok, u') \<and>
         pipes_match pipe_open handle_ed u' \<and> ohci_reach (hcd_state u') \<and>
         (ok \<longrightarrow> usb_ok u' \<and> Buffer (row u' ! unat n) \<noteq> None \<and> pipe_open (PipeHandle (row u' ! unat n)) (hcd_state u'))"
    if "Buffer (row u ! unat n) = None" "HcDoneHead (hcd_state u) = None"
    by (rule ohci_pipes.configure_match[OF u m r that(2) n that(1)])
  show "\<exists>u'. Pipe_ClosePipe (ohci_below sofs d) 0 n u = Some u' \<and> usb_ok u' \<and> pipes_match pipe_open handle_ed u' \<and>
         ohci_reach (hcd_state u') \<and> \<not> pipe_open (PipeHandle (row u ! unat n)) (hcd_state u')"
    if "Buffer (row u ! unat n) \<noteq> None"
    by (rule ohci_pipes.close_match[OF u m r n that])
  assume z: "PipeHandle (row u ! unat n) = 0" "live (hcd_state u) 0"
  have "pipe_open 0 (hcd_state u)" "handle_ed 0 = 0" using z(2) by (simp_all add: pipe_open_iff handle_ed_def)
  moreover obtain u' where "Pipe_ClosePipe (ohci_below sofs d) 0 n u = Some u'" using close_ok[OF u n] by blast
  ultimately show "\<exists>u'. Pipe_ClosePipe (ohci_below sofs d) 0 n u = Some u' \<and> \<not> live (hcd_state u') 0"
    using close_effect[OF _ n] ohci_close(2)[OF r] z(1) by fastforce
qed

text \<open>With the control endpoint 0 and the bulk endpoint 1 open in the driver and no pipe in use.\<close>

theorem pipes_own_endpoints_witness:
  "\<forall>d. (\<exists>ok u'. Pipe_ConfigurePipe (ohci_below [] d) 0 1 2 1 1 64 (usb_idle ohci_two) = Some (ok, u') \<and>
       pipes_match pipe_open handle_ed u' \<and> ohci_reach (hcd_state u')) \<and>
     (\<exists>u'. Pipe_ClosePipe (ohci_below [] d) 0 1 (usb_idle ohci_two) = Some u' \<and> \<not> live (hcd_state u') 0)"
proof
  fix d
  have m: "pipes_match pipe_open handle_ed (usb_idle ohci_two)" "ohci_reach (hcd_state (usb_idle ohci_two))"
    using ohci_two_reach by (auto simp: pipes_match_def usb_idle_def pipe0_def)
  have l: "live ohci_two 0" using ohci_two_pipes(1,9) by (simp add: pipe_open_def)
  show "(\<exists>ok u'. Pipe_ConfigurePipe (ohci_below [] d) 0 1 2 1 1 64 (usb_idle ohci_two) = Some (ok, u') \<and>
       pipes_match pipe_open handle_ed u' \<and> ohci_reach (hcd_state u')) \<and>
     (\<exists>u'. Pipe_ClosePipe (ohci_below [] d) 0 1 (usb_idle ohci_two) = Some u' \<and> \<not> live (hcd_state u') 0)"
    using pipes_own_endpoints[OF usb_idle_ok m, of 1 "[]" d 2 1 1 64] l ohci_two_pipes(3)
    by (auto simp: usb_idle_def pipe0_def)
qed

end
