(* ===== verification/UsbHost.thy ===== *)
theory UsbHost
  imports UsbPipe
begin

unbundle bit_operations_syntax

text \<open>
  The USB host side above the pipes: control requests (\<^verbatim>\<open>HostStandardReq.c\<close>), retrieval and search of
  configuration descriptors (\<^verbatim>\<open>ConfigDescriptor.c\<close> and \<^verbatim>\<open>ConfigDescriptor.h\<close>), the enumeration state
  machine (\<^verbatim>\<open>LPC/Host_LPC.c\<close>) and its task (\<^verbatim>\<open>USBTask.c\<close>, \<^verbatim>\<open>LPC/USBController_LPC.c\<close>), all under
  \<^verbatim>\<open>nxpUSBlib/Drivers/USB/Core\<close> and built as host only for one controller. The events that the
  stack raises in the application are call-backs on the pair of the stack's and the application's
  state. A buffer in the caller's memory is the list of its bytes (\<^const>\<open>None\<close> is \<^verbatim>\<open>NULL\<close>). The macros
  and functions with an empty body (VBUS control, \<^verbatim>\<open>USB_OTGPAD_On\<close>, \<^verbatim>\<open>USB_Host_SetDeviceAddress\<close>) and
  the delays have no model.
\<close>

abbreviation (input) CONTROL_REQTYPE_DIRECTION :: u8 where "CONTROL_REQTYPE_DIRECTION \<equiv> 0x80"
abbreviation (input) REQDIR_HOSTTODEVICE :: u8 where "REQDIR_HOSTTODEVICE \<equiv> 0"
abbreviation (input) REQDIR_DEVICETOHOST :: u8 where "REQDIR_DEVICETOHOST \<equiv> 0x80"
abbreviation (input) REQTYPE_STANDARD :: u8 where "REQTYPE_STANDARD \<equiv> 0"
abbreviation (input) REQTYPE_VENDOR :: u8 where "REQTYPE_VENDOR \<equiv> 0x40"
abbreviation (input) REQREC_DEVICE :: u8 where "REQREC_DEVICE \<equiv> 0"
abbreviation (input) REQREC_INTERFACE :: u8 where "REQREC_INTERFACE \<equiv> 1"
abbreviation (input) REQREC_ENDPOINT :: u8 where "REQREC_ENDPOINT \<equiv> 2"
abbreviation (input) REQ_GetStatus :: u8 where "REQ_GetStatus \<equiv> 0"
abbreviation (input) REQ_ClearFeature :: u8 where "REQ_ClearFeature \<equiv> 1"
abbreviation (input) REQ_SetAddress :: u8 where "REQ_SetAddress \<equiv> 5"
abbreviation (input) REQ_GetDescriptor :: u8 where "REQ_GetDescriptor \<equiv> 6"
abbreviation (input) REQ_SetConfiguration :: u8 where "REQ_SetConfiguration \<equiv> 9"
abbreviation (input) REQ_SetInterface :: u8 where "REQ_SetInterface \<equiv> 11"
abbreviation (input) FEATURE_SEL_EndpointHalt :: u16 where "FEATURE_SEL_EndpointHalt \<equiv> 0"
abbreviation (input) DTYPE_Device :: u8 where "DTYPE_Device \<equiv> 1"
abbreviation (input) DTYPE_Configuration :: u8 where "DTYPE_Configuration \<equiv> 2"
abbreviation (input) DTYPE_String :: u8 where "DTYPE_String \<equiv> 3"
abbreviation (input) DTYPE_Interface :: u8 where "DTYPE_Interface \<equiv> 4"
abbreviation (input) DTYPE_Endpoint :: u8 where "DTYPE_Endpoint \<equiv> 5"
abbreviation (input) HOST_SENDCONTROL_Successful :: u8 where "HOST_SENDCONTROL_Successful \<equiv> 0"
abbreviation (input) HOST_SENDCONTROL_PipeError :: u8 where "HOST_SENDCONTROL_PipeError \<equiv> 2"
abbreviation (input) HOST_GETCONFIG_Successful :: u8 where "HOST_GETCONFIG_Successful \<equiv> 0"
abbreviation (input) HOST_GETCONFIG_BuffOverflow :: u8 where "HOST_GETCONFIG_BuffOverflow \<equiv> 5"
abbreviation (input) HOST_GETCONFIG_InvalidData :: u8 where "HOST_GETCONFIG_InvalidData \<equiv> 6"
abbreviation (input) DESCRIPTOR_SEARCH_Found :: u8 where "DESCRIPTOR_SEARCH_Found \<equiv> 0"
abbreviation (input) DESCRIPTOR_SEARCH_Fail :: u8 where "DESCRIPTOR_SEARCH_Fail \<equiv> 1"
abbreviation (input) DESCRIPTOR_SEARCH_NotFound :: u8 where "DESCRIPTOR_SEARCH_NotFound \<equiv> 2"
abbreviation (input) DESCRIPTOR_SEARCH_COMP_EndOfDescriptor :: u8 where "DESCRIPTOR_SEARCH_COMP_EndOfDescriptor \<equiv> 2"
abbreviation (input) HOST_ENUMERROR_NoError :: u8 where "HOST_ENUMERROR_NoError \<equiv> 0"
abbreviation (input) HOST_ENUMERROR_WaitStage :: u8 where "HOST_ENUMERROR_WaitStage \<equiv> 1"
abbreviation (input) HOST_ENUMERROR_ControlError :: u8 where "HOST_ENUMERROR_ControlError \<equiv> 3"
abbreviation (input) HOST_ENUMERROR_PipeConfigError :: u8 where "HOST_ENUMERROR_PipeConfigError \<equiv> 4"
abbreviation (input) HOST_WAITERROR_Successful :: u8 where "HOST_WAITERROR_Successful \<equiv> 0"
abbreviation (input) HOST_DEVICE_SETTLE_DELAY_MS :: u16 where "HOST_DEVICE_SETTLE_DELAY_MS \<equiv> 1000"
abbreviation (input) PIPE_CONTROLPIPE_DEFAULT_SIZE :: u8 where "PIPE_CONTROLPIPE_DEFAULT_SIZE \<equiv> 8"
abbreviation (input) ENDPOINT_CONTROLEP :: u8 where "ENDPOINT_CONTROLEP \<equiv> 0"
abbreviation (input) USB_PORT_SELECTED :: u8 where "USB_PORT_SELECTED \<equiv> 0"

section \<open>Control requests\<close>

fun read_bytes :: "u8 \<Rightarrow> nat list \<Rightarrow> u8 list \<Rightarrow> 'h usb \<Rightarrow> (u8 list \<times> 'h usb) option" where
  "read_bytes c [] buf u = Some (buf, u)"
| "read_bytes c (i # is) buf u = do {
     (v, u) \<leftarrow> Pipe_Read_8 c u;
     buf \<leftarrow> wr buf i v;
     read_bytes c is buf u
   }"

definition USB_Host_SendControlRequest ::
  "'h hcd \<Rightarrow> u8 \<Rightarrow> u8 list option \<Rightarrow> 'h usb \<Rightarrow> (u8 \<times> u8 list option \<times> 'h usb) option" where
  "USB_Host_SendControlRequest d c BufferPtr u = do {
     let DataLen = wLength (USB_ControlRequest u);
     let dir = bmRequestType (USB_ControlRequest u) AND CONTROL_REQTYPE_DIRECTION;
     u \<leftarrow> (if dir = REQDIR_HOSTTODEVICE
           then write_bytes c (case BufferPtr of None \<Rightarrow> [] | Some bs \<Rightarrow> bs) [0..<unat DataLen] u else Some u);
     p \<leftarrow> cur_pipe c u;
     let (st, m, h) = HcdControlTransfer d (PipeHandle p) (USB_ControlRequest u) (Buffer p) (usb_pool u) (hcd_state u);
     let u = u\<lparr>usb_pool := m, hcd_state := h\<rparr>;
     (if st = HCD_STATUS_OK then do {
        (buf, u) \<leftarrow> (if dir = REQDIR_DEVICETOHOST then do {
             u \<leftarrow> cur_upd c (ByteTransfered_update (\<lambda>_. wLength (USB_ControlRequest u))) u;
             (case BufferPtr of
                None \<Rightarrow> if DataLen = 0 then Some (None, u) else None
              | Some bs \<Rightarrow> do { (bs, u) \<leftarrow> read_bytes c [0..<unat DataLen] bs u; Some (Some bs, u) })
           } else Some (BufferPtr, u));
        u \<leftarrow> cur_upd c clear_pipe u;
        Some (HOST_SENDCONTROL_Successful, buf, u)
      }
      else Some (HOST_SENDCONTROL_PipeError, BufferPtr, u))
   }"

definition request :: "u8 \<Rightarrow> u8 \<Rightarrow> u16 \<Rightarrow> u16 \<Rightarrow> u16 \<Rightarrow> USB_Request_Header_t" where
  "request t r v i l = \<lparr>bmRequestType = t, bRequest = r, wValue = v, wIndex = i, wLength = l\<rparr>"

definition control_request ::
  "'h hcd \<Rightarrow> u8 \<Rightarrow> USB_Request_Header_t \<Rightarrow> u8 list option \<Rightarrow> 'h usb \<Rightarrow> (u8 \<times> u8 list option \<times> 'h usb) option" where
  "control_request d c r buf u = do {
     u \<leftarrow> Pipe_SelectPipe c PIPE_CONTROLPIPE (u\<lparr>USB_ControlRequest := r\<rparr>);
     USB_Host_SendControlRequest d c buf u
   }"

definition USB_Host_SetDeviceConfiguration :: "'h hcd \<Rightarrow> u8 \<Rightarrow> u8 \<Rightarrow> 'h usb \<Rightarrow> (u8 \<times> 'h usb) option" where
  "USB_Host_SetDeviceConfiguration d c ConfigNumber u = do {
     (e, _, u) \<leftarrow> control_request d c
        (request (REQDIR_HOSTTODEVICE OR REQTYPE_STANDARD OR REQREC_DEVICE) REQ_SetConfiguration (ucast ConfigNumber) 0 0) None u;
     (if e = HOST_SENDCONTROL_Successful then do {
        s \<leftarrow> wr (USB_HostState u) (unat c) (if ConfigNumber \<noteq> 0 then HOST_STATE_Configured else HOST_STATE_Addressed);
        Some (e, u\<lparr>USB_Host_ConfigurationNumber := ConfigNumber, USB_HostState := s\<rparr>)
      }
      else Some (e, u))
   }"

definition USB_Host_GetDeviceDescriptor ::
  "'h hcd \<Rightarrow> u8 \<Rightarrow> u8 list option \<Rightarrow> 'h usb \<Rightarrow> (u8 \<times> u8 list option \<times> 'h usb) option" where
  "USB_Host_GetDeviceDescriptor d c buf u = control_request d c
     (request (REQDIR_DEVICETOHOST OR REQTYPE_STANDARD OR REQREC_DEVICE) REQ_GetDescriptor (push_bit 8 (ucast DTYPE_Device)) 0 18) buf u"

definition USB_Host_GetDeviceStringDescriptor ::
  "'h hcd \<Rightarrow> u8 \<Rightarrow> u8 \<Rightarrow> u8 list option \<Rightarrow> u8 \<Rightarrow> 'h usb \<Rightarrow> (u8 \<times> u8 list option \<times> 'h usb) option" where
  "USB_Host_GetDeviceStringDescriptor d c Index buf BufferLength u = control_request d c
     (request (REQDIR_DEVICETOHOST OR REQTYPE_STANDARD OR REQREC_DEVICE) REQ_GetDescriptor
        (push_bit 8 (ucast DTYPE_String) OR ucast Index) 0 (ucast BufferLength)) buf u"

definition USB_Host_GetDeviceStatus ::
  "'h hcd \<Rightarrow> u8 \<Rightarrow> u8 list option \<Rightarrow> 'h usb \<Rightarrow> (u8 \<times> u8 list option \<times> 'h usb) option" where
  "USB_Host_GetDeviceStatus d c FeatureStatus u = control_request d c
     (request (REQDIR_DEVICETOHOST OR REQTYPE_STANDARD OR REQREC_DEVICE) REQ_GetStatus 0 0 0) FeatureStatus u"

definition USB_Host_ClearEndpointStall :: "'h hcd \<Rightarrow> u8 \<Rightarrow> u8 \<Rightarrow> 'h usb \<Rightarrow> (u8 \<times> u8 list option \<times> 'h usb) option" where
  "USB_Host_ClearEndpointStall d c EndpointAddress u = control_request d c
     (request (REQDIR_HOSTTODEVICE OR REQTYPE_STANDARD OR REQREC_ENDPOINT) REQ_ClearFeature
        FEATURE_SEL_EndpointHalt (ucast EndpointAddress) 0) None u"

definition USB_Host_SetInterfaceAltSetting ::
  "'h hcd \<Rightarrow> u8 \<Rightarrow> u8 \<Rightarrow> u8 \<Rightarrow> 'h usb \<Rightarrow> (u8 \<times> u8 list option \<times> 'h usb) option" where
  "USB_Host_SetInterfaceAltSetting d c InterfaceIndex AltSetting u = control_request d c
     (request (REQDIR_HOSTTODEVICE OR REQTYPE_STANDARD OR REQREC_INTERFACE) REQ_SetInterface
        (ucast AltSetting) (ucast InterfaceIndex) 0) None u"

section \<open>Configuration descriptors\<close>

text \<open>
  The size behind \<^verbatim>\<open>ConfigSizePtr\<close> is \<^const>\<open>None\<close> while it is not assigned; \<open>hdr0\<close> is the initial
  content of the local array \<^verbatim>\<open>ConfigHeader\<close>.
\<close>

definition USB_Host_GetDeviceConfigDescriptor ::
  "'h hcd \<Rightarrow> u8 \<Rightarrow> u8 \<Rightarrow> u8 list \<Rightarrow> u8 list \<Rightarrow> u16 \<Rightarrow> 'h usb \<Rightarrow> (u8 \<times> u16 option \<times> u8 list \<times> 'h usb) option" where
  "USB_Host_GetDeviceConfigDescriptor d c ConfigNumber hdr0 buf BufferSz u = do {
     (e, hb, u) \<leftarrow> control_request d c
        (request (REQDIR_DEVICETOHOST OR REQTYPE_STANDARD OR REQREC_DEVICE) REQ_GetDescriptor
           (push_bit 8 (ucast DTYPE_Configuration) OR ucast (ConfigNumber - 1)) 0 9) (Some hdr0) u;
     (if e \<noteq> HOST_SENDCONTROL_Successful then Some (e, None, buf, u)
      else do {
        hdr \<leftarrow> hb;
        lo \<leftarrow> rd hdr 2;
        hi \<leftarrow> rd hdr 3;
        let sz = (ucast lo OR push_bit 8 (ucast hi) :: u16);
        (if sz > BufferSz then Some (HOST_GETCONFIG_BuffOverflow, Some sz, buf, u)
         else do {
           let u = u\<lparr>USB_ControlRequest := (USB_ControlRequest u)\<lparr>wLength := sz\<rparr>\<rparr>;
           (e, bb, u) \<leftarrow> USB_Host_SendControlRequest d c (Some buf) u;
           buf' \<leftarrow> bb;
           (if e \<noteq> HOST_SENDCONTROL_Successful then Some (e, Some sz, buf', u)
            else do {
              t \<leftarrow> rd buf' 1;
              Some (if t \<noteq> DTYPE_Configuration then HOST_GETCONFIG_InvalidData else HOST_GETCONFIG_Successful,
                    Some sz, buf', u)
            })
         })
      })
   }"

text \<open>
  Descriptors in memory: \<open>mem\<close> is the buffer, a location is an offset into it. The comparator
  receives the memory and the location.
\<close>

definition USB_GetNextDescriptor :: "u8 list \<Rightarrow> u16 \<Rightarrow> nat \<Rightarrow> (u16 \<times> nat) option" where
  "USB_GetNextDescriptor mem BytesRem loc = do {
     s \<leftarrow> rd mem loc;
     let sz = (if BytesRem < ucast s then BytesRem else ucast s);
     Some (BytesRem - sz, loc + unat sz)
   }"

partial_function (option) USB_GetNextDescriptorOfType :: "u8 list \<Rightarrow> u8 \<Rightarrow> u16 \<Rightarrow> nat \<Rightarrow> (u16 \<times> nat) option" where
  "USB_GetNextDescriptorOfType mem Type BytesRem loc =
     (if BytesRem = 0 then Some (BytesRem, loc)
      else Option.bind (USB_GetNextDescriptor mem BytesRem loc) (\<lambda>(rem, loc).
        Option.bind (rd mem (loc + 1)) (\<lambda>t.
        if t = Type then Some (rem, loc) else USB_GetNextDescriptorOfType mem Type rem loc)))"

declare USB_GetNextDescriptorOfType.simps [code]

partial_function (option) USB_GetNextDescriptorOfTypeBefore ::
  "u8 list \<Rightarrow> u8 \<Rightarrow> u8 \<Rightarrow> u16 \<Rightarrow> nat \<Rightarrow> (u16 \<times> nat) option" where
  "USB_GetNextDescriptorOfTypeBefore mem Type BeforeType BytesRem loc =
     (if BytesRem = 0 then Some (BytesRem, loc)
      else Option.bind (USB_GetNextDescriptor mem BytesRem loc) (\<lambda>(rem, loc).
        Option.bind (rd mem (loc + 1)) (\<lambda>t.
        if t = Type then Some (rem, loc)
        else if t = BeforeType then Some (0, loc)
        else USB_GetNextDescriptorOfTypeBefore mem Type BeforeType rem loc)))"

declare USB_GetNextDescriptorOfTypeBefore.simps [code]

definition USB_GetNextDescriptorOfTypeAfter :: "u8 list \<Rightarrow> u8 \<Rightarrow> u8 \<Rightarrow> u16 \<Rightarrow> nat \<Rightarrow> (u16 \<times> nat) option" where
  "USB_GetNextDescriptorOfTypeAfter mem Type AfterType BytesRem loc = do {
     (rem, loc) \<leftarrow> USB_GetNextDescriptorOfType mem AfterType BytesRem loc;
     (if rem \<noteq> 0 then USB_GetNextDescriptorOfType mem Type rem loc else Some (rem, loc))
   }"

type_synonym comparator = "u8 list \<Rightarrow> nat \<Rightarrow> u8 option"

partial_function (option) USB_GetNextDescriptorComp ::
  "comparator \<Rightarrow> u8 list \<Rightarrow> u16 \<Rightarrow> nat \<Rightarrow> (u8 \<times> u16 \<times> nat) option" where
  "USB_GetNextDescriptorComp ComparatorRoutine mem BytesRem loc =
     (if BytesRem = 0 then Some (DESCRIPTOR_SEARCH_COMP_EndOfDescriptor, BytesRem, loc)
      else Option.bind (USB_GetNextDescriptor mem BytesRem loc) (\<lambda>(rem, loc').
        Option.bind (ComparatorRoutine mem loc') (\<lambda>e.
        if e \<noteq> DESCRIPTOR_SEARCH_NotFound then
          (if e = DESCRIPTOR_SEARCH_Fail then Some (e, BytesRem, loc) else Some (e, rem, loc'))
        else USB_GetNextDescriptorComp ComparatorRoutine mem rem loc')))"

declare USB_GetNextDescriptorComp.simps [code]

section \<open>The enumeration state machine\<close>

text \<open>The events raised in the application.\<close>

record ('h, 'a) host_events =
  EVENT_DeviceAttached :: "u8 \<Rightarrow> 'h usb \<times> 'a \<Rightarrow> ('h usb \<times> 'a) option"
  EVENT_DeviceUnattached :: "u8 \<Rightarrow> 'h usb \<times> 'a \<Rightarrow> ('h usb \<times> 'a) option"
  EVENT_DeviceEnumerationComplete :: "u8 \<Rightarrow> 'h usb \<times> 'a \<Rightarrow> ('h usb \<times> 'a) option"
  EVENT_DeviceEnumerationFailed :: "u8 \<Rightarrow> u8 \<Rightarrow> u8 \<Rightarrow> 'h usb \<times> 'a \<Rightarrow> ('h usb \<times> 'a) option"

definition set_host_state :: "u8 \<Rightarrow> u8 \<Rightarrow> 'h usb \<Rightarrow> 'h usb option" where
  "set_host_state c s u = do { l \<leftarrow> wr (USB_HostState u) (unat c) s; Some (u\<lparr>USB_HostState := l\<rparr>) }"

definition HOST_TASK_NONBLOCK_WAIT :: "u8 \<Rightarrow> u16 \<Rightarrow> u8 \<Rightarrow> 'h usb \<Rightarrow> 'h usb option" where
  "HOST_TASK_NONBLOCK_WAIT c Duration NextState u = do {
     u \<leftarrow> set_host_state c HOST_STATE_WaitForDevice u;
     Some (u\<lparr>WaitMSRemaining := Duration, PostWaitState := NextState\<rparr>)
   }"

definition USB_Host_WaitMS :: "u8 \<Rightarrow> u8" where
  "USB_Host_WaitMS MS = HOST_WAITERROR_Successful"

definition USB_Init_Host :: "'h hcd \<Rightarrow> u8 \<Rightarrow> 'h usb \<Rightarrow> 'h usb option" where
  "USB_Init_Host d c u = do {
     u \<leftarrow> Pipe_SelectPipe c PIPE_CONTROLPIPE u;
     let (st, h) = HcdInitDriver d c (hcd_state u);
     let u = (if st = HCD_STATUS_OK then u\<lparr>hcd_state := h, USB_IsInitialized := True\<rparr>
              else u\<lparr>hcd_state := HcdDeInitDriver d c h, USB_IsInitialized := False\<rparr>);
     u \<leftarrow> set_host_state c HOST_STATE_Unattached u;
     l \<leftarrow> wr (USB_Host_ControlPipeSize u) (unat c) PIPE_CONTROLPIPE_DEFAULT_SIZE;
     Some (u\<lparr>USB_Host_ControlPipeSize := l\<rparr>)
   }"

text \<open>In the host-only build \<^verbatim>\<open>USB_CurrentMode\<close> is the constant \<^verbatim>\<open>USB_MODE_Host\<close>.\<close>

definition USB_ResetInterface :: "'h hcd \<Rightarrow> u8 \<Rightarrow> 'h usb \<Rightarrow> 'h usb option" where
  "USB_ResetInterface d c u = USB_Init_Host d c u"

definition USB_Init :: "'h hcd \<Rightarrow> 'h usb \<Rightarrow> 'h usb option" where
  "USB_Init d u = do {
     m \<leftarrow> USB_Memory_Init 2048 (usb_pool u);
     u \<leftarrow> USB_ResetInterface d USB_PORT_SELECTED (u\<lparr>usb_pool := m\<rparr>);
     Some (u\<lparr>USB_IsInitialized := True\<rparr>)
   }"

abbreviation (input) LOW_SPEED :: u8 where "LOW_SPEED \<equiv> 1"

definition USB_Disable :: "'h hcd \<Rightarrow> 'h usb \<Rightarrow> 'h usb" where
  "USB_Disable d u = u\<lparr>USB_IsInitialized := False, hcd_state := HcdDeInitDriver d USB_PORT_SELECTED (hcd_state u)\<rparr>"

definition USB_Host_SetDeviceSpeed :: "u8 \<Rightarrow> u8 \<Rightarrow> 'h usb \<Rightarrow> 'h usb option" where
  [simp]: "USB_Host_SetDeviceSpeed hostid speed u = do {
     l \<leftarrow> wr (hostportspeed u) (unat hostid) speed;
     Some (u\<lparr>hostportspeed := l\<rparr>)
   }"

definition USB_Host_GetDeviceSpeed :: "u8 \<Rightarrow> 'h usb \<Rightarrow> u8 option" where
  "USB_Host_GetDeviceSpeed hostid u = (if hostid \<le> 1 then rd (hostportspeed u) (unat hostid) else Some LOW_SPEED)"

text \<open>
  The selected host is a global variable, here the state of the three functions that use it; the frame
  number comes from the host controller driver (\<open>frame\<close>) and is cut to 16 bits.
\<close>

definition USB_Host_SetActiveHost :: "u8 \<Rightarrow> u8 \<Rightarrow> u8" where
  "USB_Host_SetActiveHost hostid hostselected = hostid"

definition USB_Host_GetActiveHost :: "u8 \<Rightarrow> u8" where
  "USB_Host_GetActiveHost hostselected = hostselected"

definition USB_Host_GetFrameNumber :: "(u8 \<Rightarrow> u32) \<Rightarrow> u8 \<Rightarrow> u16" where
  "USB_Host_GetFrameNumber frame hostselected = ucast (frame (USB_Host_GetActiveHost hostselected))"

text \<open>
  One state of \<^verbatim>\<open>USB_Host_ProcessNextHostState\<close>: the error and sub-error codes and the new state. The
  local \<^verbatim>\<open>DevDescriptor\<close> starts as \<open>dev0\<close>; \<^verbatim>\<open>DeviceSpeed\<close> stays \<open>sp0\<close> when no device is connected.
\<close>

definition host_state_step ::
  "'h hcd \<Rightarrow> ('h, 'a) host_events \<Rightarrow> u8 list \<Rightarrow> u8 \<Rightarrow> u8 \<Rightarrow> 'h usb \<times> 'a \<Rightarrow> (u8 \<times> u8 \<times> 'h usb \<times> 'a) option" where
  "host_state_step d ev dev0 sp0 c w = (case w of (u, a) \<Rightarrow> do {
     s \<leftarrow> rd (USB_HostState u) (unat c);
     (if s = HOST_STATE_WaitForDevice then
        (if WaitMSRemaining u \<noteq> 0 then
           (let sub = USB_Host_WaitMS 1 in
            if sub \<noteq> HOST_WAITERROR_Successful then do {
              u \<leftarrow> set_host_state c (PostWaitState u) u;
              Some (HOST_ENUMERROR_WaitStage, sub, u, a)
            }
            else do {
              let u = u\<lparr>WaitMSRemaining := WaitMSRemaining u - 1\<rparr>;
              u \<leftarrow> (if WaitMSRemaining u = 0 then set_host_state c (PostWaitState u) u else Some u);
              Some (HOST_ENUMERROR_NoError, sub, u, a)
            })
         else Some (HOST_ENUMERROR_NoError, HOST_ENUMERROR_NoError, u, a))
      else if s = HOST_STATE_Powered then do {
        u \<leftarrow> set_host_state c HOST_STATE_Powered_WaitForDeviceSettle (u\<lparr>WaitMSRemaining := HOST_DEVICE_SETTLE_DELAY_MS\<rparr>);
        Some (HOST_ENUMERROR_NoError, HOST_ENUMERROR_NoError, u, a)
      }
      else if s = HOST_STATE_Powered_WaitForDeviceSettle then do {
        let rem = WaitMSRemaining u;
        let u = u\<lparr>WaitMSRemaining := rem - 1\<rparr>;
        u \<leftarrow> (if rem \<noteq> 0 then Some u else set_host_state c HOST_STATE_Powered_WaitForConnect u);
        Some (HOST_ENUMERROR_NoError, HOST_ENUMERROR_NoError, u, a)
      }
      else if s = HOST_STATE_Powered_WaitForConnect then do {
        u \<leftarrow> HOST_TASK_NONBLOCK_WAIT c 100 HOST_STATE_Powered_DoReset u;
        Some (HOST_ENUMERROR_NoError, HOST_ENUMERROR_NoError, u, a)
      }
      else if s = HOST_STATE_Powered_DoReset then do {
        let (sp, h) = HcdGetDeviceSpeed d c (HcdRhPortReset d c (hcd_state u));
        u \<leftarrow> USB_Host_SetDeviceSpeed c (case sp of None \<Rightarrow> sp0 | Some x \<Rightarrow> x) (u\<lparr>hcd_state := h\<rparr>);
        u \<leftarrow> HOST_TASK_NONBLOCK_WAIT c 200 HOST_STATE_Powered_ConfigPipe u;
        Some (HOST_ENUMERROR_NoError, HOST_ENUMERROR_NoError, u, a)
      }
      else if s = HOST_STATE_Powered_ConfigPipe then do {
        (ok, u) \<leftarrow> Pipe_ConfigurePipe d c PIPE_CONTROLPIPE EP_TYPE_CONTROL PIPE_TOKEN_SETUP ENDPOINT_CONTROLEP
                    (ucast PIPE_CONTROLPIPE_DEFAULT_SIZE) u;
        (if \<not> ok then Some (HOST_ENUMERROR_PipeConfigError, 0, u, a)
         else do {
           u \<leftarrow> set_host_state c HOST_STATE_Default u;
           Some (HOST_ENUMERROR_NoError, HOST_ENUMERROR_NoError, u, a)
         })
      }
      else if s = HOST_STATE_Default then do {
        (e, buf, u) \<leftarrow> USB_Host_SendControlRequest d c (Some dev0)
           (u\<lparr>USB_ControlRequest := request (REQDIR_DEVICETOHOST OR REQTYPE_STANDARD OR REQREC_DEVICE)
               REQ_GetDescriptor (push_bit 8 (ucast DTYPE_Device)) 0 8\<rparr>);
        (if e \<noteq> HOST_SENDCONTROL_Successful then Some (HOST_ENUMERROR_ControlError, e, u, a)
         else do {
           bs \<leftarrow> buf;
           sz \<leftarrow> rd bs 7;
           l \<leftarrow> wr (USB_Host_ControlPipeSize u) (unat c) sz;
           u \<leftarrow> Pipe_ClosePipe d c PIPE_CONTROLPIPE (u\<lparr>USB_Host_ControlPipeSize := l\<rparr>);
           u \<leftarrow> HOST_TASK_NONBLOCK_WAIT c 200 HOST_STATE_Default_PostReset
                 (u\<lparr>hcd_state := HcdRhPortReset d c (hcd_state u)\<rparr>);
           Some (HOST_ENUMERROR_NoError, e, u, a)
         })
      }
      else if s = HOST_STATE_Default_PostReset then do {
        sz \<leftarrow> rd (USB_Host_ControlPipeSize u) (unat c);
        (ok, u) \<leftarrow> Pipe_ConfigurePipe d c PIPE_CONTROLPIPE EP_TYPE_CONTROL PIPE_TOKEN_SETUP ENDPOINT_CONTROLEP (ucast sz) u;
        (if \<not> ok then Some (HOST_ENUMERROR_PipeConfigError, 0, u, a)
         else do {
           (e, _, u) \<leftarrow> USB_Host_SendControlRequest d c None
              (u\<lparr>USB_ControlRequest := request (REQDIR_HOSTTODEVICE OR REQTYPE_STANDARD OR REQREC_DEVICE)
                  REQ_SetAddress (ucast USB_HOST_DEVICEADDRESS) 0 0\<rparr>);
           (if e \<noteq> HOST_SENDCONTROL_Successful then Some (HOST_ENUMERROR_ControlError, e, u, a)
            else do {
              u \<leftarrow> Pipe_ClosePipe d c PIPE_CONTROLPIPE u;
              u \<leftarrow> HOST_TASK_NONBLOCK_WAIT c 100 HOST_STATE_Default_PostAddressSet u;
              Some (HOST_ENUMERROR_NoError, e, u, a)
            })
         })
      }
      else if s = HOST_STATE_Default_PostAddressSet then do {
        sz \<leftarrow> rd (USB_Host_ControlPipeSize u) (unat c);
        (ok, u) \<leftarrow> Pipe_ConfigurePipe d c PIPE_CONTROLPIPE EP_TYPE_CONTROL PIPE_TOKEN_SETUP ENDPOINT_CONTROLEP (ucast sz) u;
        u \<leftarrow> set_host_state c HOST_STATE_Addressed u;
        (u, a) \<leftarrow> EVENT_DeviceEnumerationComplete ev c (u, a);
        Some (HOST_ENUMERROR_NoError, HOST_ENUMERROR_NoError, u, a)
      }
      else Some (HOST_ENUMERROR_NoError, HOST_ENUMERROR_NoError, u, a))
   })"

definition USB_Host_ProcessNextHostState ::
  "'h hcd \<Rightarrow> ('h, 'a) host_events \<Rightarrow> u8 list \<Rightarrow> u8 \<Rightarrow> u8 \<Rightarrow> 'h usb \<times> 'a \<Rightarrow> ('h usb \<times> 'a) option" where
  "USB_Host_ProcessNextHostState d ev dev0 sp0 c w = do {
     (e, sub, u, a) \<leftarrow> host_state_step d ev dev0 sp0 c w;
     s \<leftarrow> rd (USB_HostState u) (unat c);
     (if e \<noteq> HOST_ENUMERROR_NoError \<and> s \<noteq> HOST_STATE_Unattached then do {
        w \<leftarrow> EVENT_DeviceEnumerationFailed ev c e sub (u, a);
        (u, a) \<leftarrow> EVENT_DeviceUnattached ev c w;
        u \<leftarrow> USB_ResetInterface d c u;
        Some (u, a)
      }
      else Some (u, a))
   }"

definition USB_HostTask ::
  "'h hcd \<Rightarrow> ('h, 'a) host_events \<Rightarrow> u8 list \<Rightarrow> u8 \<Rightarrow> 'h usb \<times> 'a \<Rightarrow> ('h usb \<times> 'a) option" where
  "USB_HostTask d ev dev0 sp0 w = (case w of (u, a) \<Rightarrow> do {
     PrevPipe \<leftarrow> Pipe_GetCurrentPipe USB_PORT_SELECTED u;
     u \<leftarrow> Pipe_SelectPipe USB_PORT_SELECTED PIPE_CONTROLPIPE u;
     (u, a) \<leftarrow> USB_Host_ProcessNextHostState d ev dev0 sp0 USB_PORT_SELECTED (u, a);
     u \<leftarrow> Pipe_SelectPipe USB_PORT_SELECTED PrevPipe u;
     Some (u, a)
   })"

definition USB_USBTask ::
  "'h hcd \<Rightarrow> ('h, 'a) host_events \<Rightarrow> u8 list \<Rightarrow> u8 \<Rightarrow> 'h usb \<times> 'a \<Rightarrow> ('h usb \<times> 'a) option" where
  "USB_USBTask d ev dev0 sp0 w = USB_HostTask d ev dev0 sp0 w"

text \<open>The parts of the interrupt service routine that follow a change of the connection.\<close>

definition USB_Host_Enumerate :: "('h, 'a) host_events \<Rightarrow> u8 \<Rightarrow> 'h usb \<times> 'a \<Rightarrow> ('h usb \<times> 'a) option" where
  "USB_Host_Enumerate ev HostId w = do {
     (u, a) \<leftarrow> EVENT_DeviceAttached ev HostId w;
     u \<leftarrow> set_host_state HostId HOST_STATE_Powered u;
     Some (u, a)
   }"

fun close_pipes :: "'h hcd \<Rightarrow> u8 \<Rightarrow> nat list \<Rightarrow> 'h usb \<Rightarrow> 'h usb option" where
  "close_pipes d c [] u = Some u"
| "close_pipes d c (i # is) u = do {
     p \<leftarrow> pipe_at c (word_of_nat i) u;
     u \<leftarrow> (if PipeHandle p \<noteq> 0 then Pipe_ClosePipe d c (word_of_nat i) u else Some u);
     close_pipes d c is u
   }"

definition USB_Host_DeEnumerate :: "'h hcd \<Rightarrow> ('h, 'a) host_events \<Rightarrow> u8 \<Rightarrow> 'h usb \<times> 'a \<Rightarrow> ('h usb \<times> 'a) option" where
  "USB_Host_DeEnumerate d ev HostId w = (case w of (u, a) \<Rightarrow> do {
     u \<leftarrow> Pipe_ClosePipe d HostId PIPE_CONTROLPIPE u;
     u \<leftarrow> close_pipes d HostId [1..<PIPE_TOTAL_PIPES] u;
     (u, a) \<leftarrow> EVENT_DeviceUnattached ev HostId (u, a);
     u \<leftarrow> set_host_state HostId HOST_STATE_Unattached u;
     Some (u, a)
   })"

section \<open>Descriptor search\<close>

text \<open>
  A well-formed descriptor starts with its length. \<open>search\<close> is the search over a list of
  descriptors: the first one is skipped, the comparator is applied at the start of each following
  one and once more behind the last; a failing comparator leaves the position where it was.
\<close>

definition wf_desc :: "u8 list \<Rightarrow> bool" where
  "wf_desc d \<longleftrightarrow> d \<noteq> [] \<and> unat (hd d) = length d"

fun search :: "(nat \<Rightarrow> u8) \<Rightarrow> u8 list list \<Rightarrow> nat \<Rightarrow> u8 \<times> u16 \<times> nat" where
  "search cmp [] loc = (DESCRIPTOR_SEARCH_COMP_EndOfDescriptor, 0, loc)"
| "search cmp (d # ds) loc =
     (let loc' = loc + length d; e = cmp loc' in
      if e = DESCRIPTOR_SEARCH_NotFound then search cmp ds loc'
      else if e = DESCRIPTOR_SEARCH_Fail then (e, word_of_nat (length (concat (d # ds))), loc)
      else (e, word_of_nat (length (concat ds)), loc'))"

lemma unat_of_nat_u16: "n < 65536 \<Longrightarrow> unat (word_of_nat n :: u16) = n"
  by (simp add: unat_of_nat take_bit_nat_eq_self)

lemma next_descriptor:
  assumes "drop loc mem = d @ rest" "wf_desc d" "length d + k < 65536"
  shows "USB_GetNextDescriptor mem (word_of_nat (length d + k)) loc = Some (word_of_nat k, loc + length d)"
proof -
  have l: "loc < length mem" using assms(1,2) by (metis append_is_Nil_conv drop_eq_Nil not_le wf_desc_def)
  have "mem ! loc = hd (drop loc mem)" using l by (simp add: hd_drop_conv_nth)
  then have h: "mem ! loc = hd d" using assms(1,2) by (simp add: wf_desc_def)
  have u: "unat (ucast (hd d) :: u16) = length d"
    using assms(2) unat_u8_lt[of "hd d"] by (simp add: unsigned_ucast_eq take_bit_nat_eq_self wf_desc_def)
  have "unat (word_of_nat (length d + k) :: u16) = length d + k"
    using assms(3) by (rule unat_of_nat_u16)
  then have "\<not> (word_of_nat (length d + k) :: u16) < ucast (hd d)" using u by (simp add: word_less_nat_alt)
  moreover have "ucast (hd d) = (word_of_nat (length d) :: u16)" using u by (metis of_nat_unat ucast_id)
  ultimately show ?thesis using l h u by (simp add: USB_GetNextDescriptor_def)
qed

lemma comp_search:
  assumes "drop loc mem = concat ds @ rest" "\<forall>d \<in> set ds. wf_desc d" "length (concat ds) < 65536"
    and "\<And>l. loc \<le> l \<Longrightarrow> l \<le> loc + length (concat ds) \<Longrightarrow> cmp mem l = Some (f l)"
  shows "USB_GetNextDescriptorComp cmp mem (word_of_nat (length (concat ds))) loc = Some (search f ds loc)"
  using assms
proof (induction ds arbitrary: loc)
  case Nil
  then show ?case by (simp add: USB_GetNextDescriptorComp.simps)
next
  case (Cons d ds)
  let ?n = "length (concat ds)"
  have d: "wf_desc d" "drop loc mem = d @ (concat ds @ rest)" using Cons.prems by auto
  have n: "USB_GetNextDescriptor mem (word_of_nat (length (concat (d # ds)))) loc = Some (word_of_nat ?n, loc + length d)"
    using next_descriptor[OF d(2,1)] Cons.prems(3) by simp
  have nz: "(word_of_nat (length (concat (d # ds))) :: u16) \<noteq> 0"
  proof -
    have "unat (word_of_nat (length (concat (d # ds))) :: u16) = length (concat (d # ds))"
      using Cons.prems(3) by (rule unat_of_nat_u16)
    then show ?thesis using d(1) by (auto simp: wf_desc_def)
  qed
  have dr: "drop (loc + length d) mem = concat ds @ rest"
    using d(2) by (metis append_eq_conv_conj drop_drop add.commute)
  have IH: "USB_GetNextDescriptorComp cmp mem (word_of_nat ?n) (loc + length d) = Some (search f ds (loc + length d))"
    using Cons.prems dr by (intro Cons.IH) auto
  have "cmp mem (loc + length d) = Some (f (loc + length d))" using Cons.prems(4) by simp
  then show ?case
    using n nz IH by (subst USB_GetNextDescriptorComp.simps) (auto simp: Let_def simp del: of_nat_add of_nat_Suc)
qed

lemma comp_zero:
  assumes "USB_GetNextDescriptorComp cmp mem rem loc = Some r"
  shows "loc < length mem \<longrightarrow> mem ! loc = 0 \<longrightarrow> rem \<noteq> 0 \<longrightarrow> cmp mem loc \<noteq> Some DESCRIPTOR_SEARCH_NotFound"
  by (rule USB_GetNextDescriptorComp.raw_induct[OF _ assms])
     (auto simp: USB_GetNextDescriptor_def bind_eq_Some_conv split: if_splits)

text \<open>
  \<^bold>\<open>C29\<close>. The search for a descriptor returns on every buffer whose descriptors carry their own
  non-zero length, and it finds what the search over the list of descriptors finds: the first
  descriptor after the current one at which the comparator does not answer "not found", with the
  position unchanged when the comparator gives up. It does not return at all when it meets a
  descriptor of length zero that the comparator does not accept: the position never advances.
\<close>

theorem descriptor_search_terminates:
  assumes "drop loc mem = concat ds @ rest" "\<forall>d \<in> set ds. wf_desc d" "length (concat ds) < 65536"
    and "\<forall>l \<in> {loc..loc + length (concat ds)}. cmp mem l = Some (f l)"
  shows "USB_GetNextDescriptorComp cmp mem (word_of_nat (length (concat ds))) loc = Some (search f ds loc) \<and>
    (\<forall>m r p. p < length m \<longrightarrow> m ! p = 0 \<longrightarrow> r \<noteq> 0 \<longrightarrow> cmp m p = Some DESCRIPTOR_SEARCH_NotFound \<longrightarrow>
       USB_GetNextDescriptorComp cmp m r p = None)"
proof
  show "USB_GetNextDescriptorComp cmp mem (word_of_nat (length (concat ds))) loc = Some (search f ds loc)"
    using assms by (intro comp_search) auto
  show "\<forall>m r p. p < length m \<longrightarrow> m ! p = 0 \<longrightarrow> r \<noteq> 0 \<longrightarrow> cmp m p = Some DESCRIPTOR_SEARCH_NotFound \<longrightarrow>
       USB_GetNextDescriptorComp cmp m r p = None"
    using comp_zero[of cmp] by (metis option.exhaust)
qed


theorem descriptor_search_terminates_witness:
  "drop 0 [2, 9, 3, 4, 7, 0 :: u8] = concat [[2, 9], [3, 4, 7]] @ [0] \<and>
   USB_GetNextDescriptorComp (\<lambda>m l. Some (if l = 2 then 0 else 2)) [2, 9, 3, 4, 7, 0] 5 0 = Some (0, 3, 2)"
  using descriptor_search_terminates[of 0 "[2, 9, 3, 4, 7, 0 :: u8]" "[[2, 9], [3, 4, 7]]" "[0]"
      "\<lambda>m l. Some (if l = 2 then 0 else 2)" "\<lambda>l. if l = 2 then 0 else 2", THEN conjunct1]
  by (simp add: wf_desc_def)

section \<open>Reading a pipe into a buffer\<close>

lemma u16_plus:
  assumes "unat (k :: u16) + n \<le> unat (b :: u16)"
  shows "unat (k + word_of_nat n) = unat k + n"
proof -
  have "unat k + n < 65536" by (rule order.strict_trans1[OF assms unat_u16_lt])
  then show ?thesis by (simp add: unat_word_ariths unat_of_nat take_bit_nat_eq_self unat_of_nat_u16)
qed

lemma read_bytes_ok:
  assumes "usb_shape u" "p = row u ! sel u" "Buffer p = Some b" "b + unat (StartIdx p) + n \<le> length (usb_pool u)"
    "unat (StartIdx p) + n \<le> unat (ByteTransfered p)" "i + n \<le> length buf"
  shows "read_bytes 0 [i..<i + n] buf u =
    Some (take i buf @ take n (drop (b + unat (StartIdx p)) (usb_pool u)) @ drop (i + n) buf,
      u\<lparr>PipeInfo := [(row u)[sel u := p\<lparr>StartIdx := StartIdx p + word_of_nat n\<rparr>]]\<rparr>)"
  using assms
proof (induction n arbitrary: i u p buf)
  case 0
  have "u\<lparr>PipeInfo := [(row u)[sel u := p]]\<rparr> = u"
    using 0(2) usb_shapeD(1)[OF 0(1)] by simp
  then show ?case by simp
next
  case (Suc n)
  let ?k = "unat (StartIdx p)"
  have lt: "StartIdx p < ByteTransfered p" using Suc.prems(5) by (simp add: word_less_nat_alt)
  have k1: "unat (StartIdx p + 1) = Suc ?k" by (rule u16_succ[OF lt])
  define p1 where "p1 = p\<lparr>StartIdx := StartIdx p + 1\<rparr>"
  define u1 where "u1 = u\<lparr>PipeInfo := [(row u)[sel u := p1]]\<rparr>"
  define v where "v = usb_pool u ! (b + ?k)"
  have len: "length (row u) = 8" "sel u < 8" using usb_shapeD[OF Suc.prems(1)] by auto
  have r: "Pipe_Read_8 0 u = Some (v, u1)"
    using Suc.prems(1,3,4) lt unfolding Pipe_Read_8_def u1_def p1_def v_def Suc.prems(2) by simp
  have s1: "usb_shape u1" "row u1 = (row u)[sel u := p1]" "sel u1 = sel u" "usb_pool u1 = usb_pool u"
    using Suc.prems(1) len by (simp_all add: u1_def)
  have "read_bytes 0 [Suc i..<Suc i + n] (buf[i := v]) u1 =
    Some (take (Suc i) (buf[i := v]) @ take n (drop (b + unat (StartIdx p1)) (usb_pool u1)) @ drop (Suc i + n) (buf[i := v]),
      u1\<lparr>PipeInfo := [(row u1)[sel u1 := p1\<lparr>StartIdx := StartIdx p1 + word_of_nat n\<rparr>]]\<rparr>)"
    using Suc.prems s1 len k1 by (intro Suc.IH) (auto simp: p1_def)
  also have "take (Suc i) (buf[i := v]) @ take n (drop (b + unat (StartIdx p1)) (usb_pool u1)) @ drop (Suc i + n) (buf[i := v])
      = take i buf @ take (Suc n) (drop (b + ?k) (usb_pool u)) @ drop (i + Suc n) buf"
    using Suc.prems(4,6) k1
    by (simp add: s1 p1_def v_def take_Suc_conv_app_nth Cons_nth_drop_Suc[symmetric])
  also have "u1\<lparr>PipeInfo := [(row u1)[sel u1 := p1\<lparr>StartIdx := StartIdx p1 + word_of_nat n\<rparr>]]\<rparr>
      = u\<lparr>PipeInfo := [(row u)[sel u := p\<lparr>StartIdx := StartIdx p + word_of_nat (Suc n)\<rparr>]]\<rparr>"
    unfolding s1 by (simp add: u1_def p1_def add.assoc)
  finally have rest: "read_bytes 0 [Suc i..<Suc i + n] (buf[i := v]) u1 =
    Some (take i buf @ take (Suc n) (drop (b + ?k) (usb_pool u)) @ drop (i + Suc n) buf,
      u\<lparr>PipeInfo := [(row u)[sel u := p\<lparr>StartIdx := StartIdx p + word_of_nat (Suc n)\<rparr>]]\<rparr>)" .
  have "[i..<i + Suc n] = i # [Suc i..<Suc i + n]" by (simp add: upt_conv_Cons)
  then show ?case using r rest Suc.prems(6) by (simp del: upt_Suc)
qed

text \<open>
  The speed stored for the only port is read back; for host 1, which \<^verbatim>\<open>USB_Host_GetDeviceSpeed\<close> accepts,
  the access is outside the array of this build.
\<close>

lemma device_speed_access:
  assumes "usb_shape u"
  shows "\<exists>u'. USB_Host_SetDeviceSpeed 0 sp u = Some u' \<and> USB_Host_GetDeviceSpeed 0 u' = Some sp"
    and "USB_Host_GetDeviceSpeed 1 u = None"
  using usb_shapeD(6)[OF assms] by (auto simp: USB_Host_GetDeviceSpeed_def)

end
