(* ===== verification/UsbEnum.thy ===== *)
theory UsbEnum
  imports UsbHost
begin

unbundle bit_operations_syntax

text \<open>
  The enumeration of a device by the state machine of \<^verbatim>\<open>Host_LPC.c\<close>, run by repeated calls of
  \<^verbatim>\<open>USB_USBTask\<close>: what a control transfer does on an open control pipe, one lemma per state of the
  machine in the form \<open>leads k P Q\<close>, and their composition.
\<close>

section \<open>Enumeration\<close>

text \<open>
  A host controller with a device that answers: every pipe can be opened, and a control transfer
  through a block of the pool that is large enough succeeds and changes at most the contents of that
  block.
\<close>

definition hcd_answers :: "'h hcd \<Rightarrow> bool" where
  "hcd_answers d \<longleftrightarrow>
     (\<forall>c a s e ty dir sz h. \<exists>x h'. HcdOpenPipe d c a s e ty dir sz h = (HCD_STATUS_OK, Some x, h')) \<and>
     (\<forall>hdl r m h pre ds post. heap m (pre @ Used ds # post) \<longrightarrow> unat (wLength r) \<le> length ds \<longrightarrow>
        (\<exists>m' h' ds'. HcdControlTransfer d hdl r (Some (addr pre + 4)) m h = (HCD_STATUS_OK, m', h') \<and>
           length ds' = length ds \<and> heap m' (pre @ Used ds' # post)))"

text \<open>The variables of the state machine and the other pipes, which operations on the control pipe leave
  alone.\<close>

definition same_host :: "'h usb \<Rightarrow> 'h usb \<Rightarrow> bool" where
  "same_host u v \<longleftrightarrow> USB_HostState v = USB_HostState u \<and> pipeselected v = pipeselected u \<and>
     WaitMSRemaining v = WaitMSRemaining u \<and> PostWaitState v = PostWaitState u \<and>
     hostportspeed v = hostportspeed u \<and> USB_Host_ControlPipeSize v = USB_Host_ControlPipeSize u \<and>
     USB_ControlRequest v = USB_ControlRequest u \<and> drop 1 (row v) = drop 1 (row u)"

text \<open>The control pipe closed, with the whole pool free, and open, with its buffer in front.\<close>

definition ctl_closed :: "nat \<Rightarrow> 'h usb \<Rightarrow> bool" where
  "ctl_closed n u \<longleftrightarrow> usb_shape u \<and> heap (usb_pool u) [Free n]"

definition ctl_has :: "block list \<Rightarrow> 'h usb \<Rightarrow> bool" where
  "ctl_has post u \<longleftrightarrow> usb_shape u \<and> (\<exists>ds. length ds = 512 \<and> heap (usb_pool u) (Used ds # post)) \<and>
     Buffer (row u ! 0) = Some 4 \<and> BufferSize (row u ! 0) = 512 \<and> StartIdx (row u ! 0) = 0 \<and> ByteTransfered (row u ! 0) = 0"

definition ctl_open :: "nat \<Rightarrow> 'h usb \<Rightarrow> bool" where
  "ctl_open n u \<longleftrightarrow> ctl_has [Free (n - 129)] u"

lemma ctl_configure:
  assumes "hcd_answers d" "ctl_closed n u" "n > 129"
  shows "\<exists>u'. Pipe_ConfigurePipe d 0 PIPE_CONTROLPIPE EP_TYPE_CONTROL tok ep sz u = Some (True, u') \<and> same_host u u' \<and> ctl_open n u'"
proof -
  have sh: "usb_shape u" and h: "heap (usb_pool u) ([] @ Free n # [])" using assms(2) by (auto simp: ctl_closed_def)
  obtain x h' where o: "HcdOpenPipe d 0 (if USB_HostState u ! 0 < HOST_STATE_Default_PostAddressSet then 0 else 1)
      (hostportspeed u ! 0) ep EP_TYPE_CONTROL tok sz (hcd_state u) = (HCD_STATUS_OK, Some x, h')"
    using assms(1) unfolding hcd_answers_def by blast
  obtain m ds where a: "USB_Memory_Alloc 512 (usb_pool u) = Some (Some 4, m)" "length ds = 512"
      "heap m [Used ds, Free (n - 129)]"
    using alloc_fit[OF h, of 512 128] assms(3) by (auto split: if_splits)
  note s = usb_shapeD[OF sh]
  let ?p = "(row u ! 0)\<lparr>PipeHandle := x, StartIdx := 0, ByteTransfered := 0, BufferSize := 512, Buffer := Some 4, EndponitAddress := ep\<rparr>"
  let ?u = "u\<lparr>hcd_state := h', usb_pool := m, PipeInfo := [(row u)[0 := ?p]]\<rparr>"
  have "Pipe_ConfigurePipe d 0 PIPE_CONTROLPIPE EP_TYPE_CONTROL tok ep sz u = Some (True, ?u)"
    using sh s o a(1) unfolding Pipe_ConfigurePipe_def Let_def by (simp add: clear_pipe_def)
  moreover have "same_host u ?u" by (simp add: same_host_def)
  moreover have "ctl_open n ?u" using a sh s by (auto simp: ctl_open_def ctl_has_def)
  ultimately show ?thesis by blast
qed

lemma ctl_close:
  assumes "ctl_open n u" "n > 129"
  shows "\<exists>u'. Pipe_ClosePipe d 0 PIPE_CONTROLPIPE u = Some u' \<and> same_host u u' \<and> ctl_closed n u'"
proof -
  obtain ds where sh: "usb_shape u" and ds: "length ds = 512" and h: "heap (usb_pool u) ([] @ Used ds # [Free (n - 129)])"
      and b: "Buffer (row u ! 0) = Some 4" using assms(1) by (auto simp: ctl_open_def ctl_has_def)
  obtain m where m: "USB_Memory_Free (Some 4) (usb_pool u) = Some m" "heap m [Free n]"
    using free_used[OF h] ds assms(2) by (auto simp: coalesce_def)
  note s = usb_shapeD[OF sh]
  let ?u = "u\<lparr>hcd_state := HcdClosePipe d (PipeHandle (row u ! 0)) (hcd_state u), usb_pool := m,
    PipeInfo := [(row u)[0 := (row u ! 0)\<lparr>PipeHandle := 0, Buffer := None, BufferSize := 0\<rparr>]]\<rparr>"
  have "Pipe_ClosePipe d 0 PIPE_CONTROLPIPE u = Some ?u"
    using sh s b m(1) unfolding Pipe_ClosePipe_def Let_def by simp
  moreover have "same_host u ?u" by (simp add: same_host_def)
  moreover have "ctl_closed n ?u" using m sh s by (auto simp: ctl_closed_def)
  ultimately show ?thesis by blast
qed

lemma ctl_transfer:
  assumes "hcd_answers d" "heap m (Used ds # post)" "length ds = 512" "unat (wLength r) \<le> 512"
  obtains m' h' ds' where "HcdControlTransfer d hdl r (Some 4) m h = (HCD_STATUS_OK, m', h')" "length ds' = 512"
    "heap m' (Used ds' # post)"
proof -
  have "heap m ([] @ Used ds # post)" using assms(2) by simp
  with assms(1) obtain m' h' ds' where "HcdControlTransfer d hdl r (Some (addr [] + 4)) m h = (HCD_STATUS_OK, m', h')"
      "length ds' = length ds" "heap m' ([] @ Used ds' # post)"
    unfolding hcd_answers_def using assms(3,4) by metis
  then show ?thesis using that[of m' h' ds'] assms(3) by simp
qed

lemma ctl_out_has:
  assumes "hcd_answers d" "ctl_has post u" "sel u = 0" "bmRequestType (USB_ControlRequest u) AND 0x80 = 0"
    "wLength (USB_ControlRequest u) = 0"
  shows "\<exists>u'. USB_Host_SendControlRequest d 0 None u = Some (HOST_SENDCONTROL_Successful, None, u') \<and> same_host u u' \<and> ctl_has post u'"
proof -
  obtain ds where sh: "usb_shape u" and ds: "length ds = 512" and h: "heap (usb_pool u) (Used ds # post)"
      and b: "Buffer (row u ! 0) = Some 4" "BufferSize (row u ! 0) = 512" using assms(2) by (auto simp: ctl_has_def)
  have w: "unat (wLength (USB_ControlRequest u)) \<le> 512" using assms(5) by simp
  obtain m h' ds' where t: "HcdControlTransfer d (PipeHandle (row u ! 0)) (USB_ControlRequest u) (Some 4) (usb_pool u) (hcd_state u)
      = (HCD_STATUS_OK, m, h')" "length ds' = 512" "heap m (Used ds' # post)"
    by (rule ctl_transfer[OF assms(1) h ds w])
  note s = usb_shapeD[OF sh]
  let ?u = "u\<lparr>usb_pool := m, hcd_state := h', PipeInfo := [(row u)[0 := clear_pipe (row u ! 0)]]\<rparr>"
  have "USB_Host_SendControlRequest d 0 None u = Some (HOST_SENDCONTROL_Successful, None, ?u)"
    using sh assms(3-5) b t(1) unfolding USB_Host_SendControlRequest_def Let_def by simp
  moreover have "same_host u ?u" by (simp add: same_host_def)
  moreover have "ctl_has post ?u" using t b sh s by (auto simp: ctl_has_def clear_pipe_def)
  ultimately show ?thesis by blast
qed

lemmas ctl_out = ctl_out_has[where post = "[Free (n - 129)]" for n, folded ctl_open_def]

lemma ctl_in_has:
  assumes "ctl_has post u" "sel u = 0" "bmRequestType (USB_ControlRequest u) AND 0x80 = 0x80"
    "k = unat (wLength (USB_ControlRequest u))" "k \<le> 512" "k \<le> length buf"
    and t: "HcdControlTransfer d (PipeHandle (row u ! 0)) (USB_ControlRequest u) (Some 4) (usb_pool u) (hcd_state u)
      = (HCD_STATUS_OK, m, h')" "length ds' = 512" "heap m (Used ds' # post)"
  shows "\<exists>u'. USB_Host_SendControlRequest d 0 (Some buf) u = Some (HOST_SENDCONTROL_Successful, Some (take k ds' @ drop k buf), u') \<and>
    same_host u u' \<and> ctl_has post u'"
proof -
  have sh: "usb_shape u" and b: "Buffer (row u ! 0) = Some 4" "BufferSize (row u ! 0) = 512" "StartIdx (row u ! 0) = 0"
    using assms(1) by (auto simp: ctl_has_def)
  note s = usb_shapeD[OF sh]
  let ?p = "(row u ! 0)\<lparr>ByteTransfered := wLength (USB_ControlRequest u)\<rparr>"
  let ?u1 = "u\<lparr>usb_pool := m, hcd_state := h', PipeInfo := [(row u)[0 := ?p]]\<rparr>"
  have lm: "4 + 512 \<le> length m" "take 512 (drop 4 m) = ds'"
    using heap_hd(2)[of m "[]" "Used ds'" post] heap_parts[of m "[]" "[Used ds']" post] t(2,3) by (auto simp: span_def)
  have tk: "take k (drop 4 m) = take k ds'" using lm(2) assms(5) by (metis min.absorb1 take_take)
  have sh1: "usb_shape ?u1" using sh s by simp
  have "read_bytes 0 [0..<0 + k] buf ?u1 = Some (take 0 buf @ take k (drop (4 + unat (StartIdx ?p)) (usb_pool ?u1)) @ drop (0 + k) buf,
      ?u1\<lparr>PipeInfo := [(row ?u1)[sel ?u1 := ?p\<lparr>StartIdx := StartIdx ?p + word_of_nat k\<rparr>]]\<rparr>)"
    using b assms(2,4-6) lm s by (intro read_bytes_ok[OF sh1]) auto
  then have rb: "read_bytes 0 [0..<k] buf ?u1 = Some (take k ds' @ drop k buf,
      u\<lparr>usb_pool := m, hcd_state := h', PipeInfo := [(row u)[0 := ?p\<lparr>StartIdx := word_of_nat k\<rparr>]]\<rparr>)"
    using b(3) assms(2) tk by simp
  let ?u = "u\<lparr>usb_pool := m, hcd_state := h', PipeInfo := [(row u)[0 := clear_pipe (?p\<lparr>StartIdx := word_of_nat k\<rparr>)]]\<rparr>"
  have sh2: "usb_shape (u\<lparr>usb_pool := m, hcd_state := h', PipeInfo := [(row u)[0 := ?p\<lparr>StartIdx := word_of_nat k\<rparr>]]\<rparr>)"
    using sh s by simp
  have "USB_Host_SendControlRequest d 0 (Some buf) u = Some (HOST_SENDCONTROL_Successful, Some (take k ds' @ drop k buf), ?u)"
    using sh assms(2,3) b(1) t(1) rb sh2 s unfolding USB_Host_SendControlRequest_def Let_def assms(4)[symmetric] by simp
  moreover have "same_host u ?u" by (simp add: same_host_def)
  moreover have "ctl_has post ?u" using t b sh s by (auto simp: ctl_has_def clear_pipe_def)
  ultimately show ?thesis by blast
qed

lemma ctl_in:
  assumes "hcd_answers d" "ctl_open n u" "sel u = 0" "bmRequestType (USB_ControlRequest u) AND 0x80 = 0x80"
    "k = unat (wLength (USB_ControlRequest u))" "k \<le> 512" "k \<le> length buf"
  shows "\<exists>u' buf'. USB_Host_SendControlRequest d 0 (Some buf) u = Some (HOST_SENDCONTROL_Successful, Some buf', u') \<and>
    same_host u u' \<and> ctl_open n u' \<and> length buf' = length buf"
proof -
  obtain ds where ds: "length ds = 512" and h: "heap (usb_pool u) (Used ds # [Free (n - 129)])"
    using assms(2) by (auto simp: ctl_open_def ctl_has_def)
  have w: "unat (wLength (USB_ControlRequest u)) \<le> 512" using assms(5,6) by simp
  obtain m h' ds' where t: "HcdControlTransfer d (PipeHandle (row u ! 0)) (USB_ControlRequest u) (Some 4) (usb_pool u) (hcd_state u)
      = (HCD_STATUS_OK, m, h')" "length ds' = 512" "heap m (Used ds' # [Free (n - 129)])"
    by (rule ctl_transfer[OF assms(1) h ds w])
  have "length (take k ds' @ drop k buf) = length buf" using t(2) assms(6,7) by simp
  then show ?thesis using ctl_in_has[OF assms(2)[unfolded ctl_open_def] assms(3-7) t] unfolding ctl_open_def by blast
qed

section \<open>The task until the device is addressed\<close>

text \<open>
  Repeated calls of the task. The list holds, for each call, the initial content of the local
  descriptor buffer and of the local speed.
\<close>

fun run_task :: "'h hcd \<Rightarrow> ('h, 'a) host_events \<Rightarrow> (u8 list \<times> u8) list \<Rightarrow> 'h usb \<times> 'a \<Rightarrow> ('h usb \<times> 'a) option" where
  "run_task d ev [] w = Some w"
| "run_task d ev ((dev0, sp0) # ls) w = do { w \<leftarrow> USB_USBTask d ev dev0 sp0 w; run_task d ev ls w }"

lemma run_task_append:
  "run_task d ev (xs @ ys) w = do { w \<leftarrow> run_task d ev xs w; run_task d ev ys w }"
proof (induction xs arbitrary: w)
  case (Cons l xs)
  have "run_task d ev (xs @ ys) = (\<lambda>w. run_task d ev xs w \<bind> run_task d ev ys)" by (rule ext) (rule Cons.IH)
  then show ?case by (cases l) simp
qed simp

text \<open>
  \<open>leads k P Q\<close>: from a state with \<open>P\<close>, \<open>k\<close> calls of the task end in a state with \<open>Q\<close>, without an
  event.
\<close>

definition leads :: "'h hcd \<Rightarrow> ('h, 'a) host_events \<Rightarrow> nat \<Rightarrow> ('h usb \<Rightarrow> bool) \<Rightarrow> ('h usb \<Rightarrow> bool) \<Rightarrow> bool" where
  "leads d ev k P Q \<longleftrightarrow> (\<forall>u a ls. P u \<longrightarrow> length ls = k \<longrightarrow> (\<forall>l \<in> set ls. 8 \<le> length (fst l)) \<longrightarrow>
     (\<exists>u'. run_task d ev ls (u, a) = Some (u', a) \<and> Q u'))"

lemma leads_trans:
  assumes "leads d ev j P Q" "leads d ev k Q R"
  shows "leads d ev (j + k) P R"
  unfolding leads_def
proof (intro allI impI)
  fix u a and ls :: "(u8 list \<times> u8) list"
  assume P: "P u" and l: "length ls = j + k" and g: "\<forall>l\<in>set ls. 8 \<le> length (fst l)"
  have s: "ls = take j ls @ drop j ls" by simp
  have gt: "\<forall>l\<in>set (take j ls). 8 \<le> length (fst l)" "\<forall>l\<in>set (drop j ls). 8 \<le> length (fst l)"
    using g by (auto dest: in_set_takeD in_set_dropD)
  have lt: "length (take j ls) = j" "length (drop j ls) = k" using l by auto
  obtain u1 where 1: "run_task d ev (take j ls) (u, a) = Some (u1, a)" "Q u1"
    using assms(1) P lt(1) gt(1) unfolding leads_def by blast
  obtain u2 where 2: "run_task d ev (drop j ls) (u1, a) = Some (u2, a)" "R u2"
    using assms(2) 1(2) lt(2) gt(2) unfolding leads_def by blast
  have "run_task d ev (take j ls @ drop j ls) (u, a) = Some (u2, a)"
    unfolding run_task_append by (simp add: 1 2)
  then show "\<exists>u'. run_task d ev ls (u, a) = Some (u', a) \<and> R u'" using 2(2) by auto
qed

lemma leads_refl: "leads d ev 0 P P" by (simp add: leads_def)

text \<open>A call of the task is one step of the machine with the control pipe selected.\<close>

lemma task_step:
  assumes "usb_shape u" "host_state_step d ev dev0 sp0 0 (u\<lparr>pipeselected := [0]\<rparr>, a) = Some (HOST_ENUMERROR_NoError, sub, u', a')"
    "usb_shape u'"
  shows "USB_USBTask d ev dev0 sp0 (u, a) = Some (u'\<lparr>pipeselected := pipeselected u\<rparr>, a')"
  using assms usb_shapeD[OF assms(1)] usb_shapeD[OF assms(3)]
  by (auto simp: USB_USBTask_def USB_HostTask_def USB_Host_ProcessNextHostState_def Pipe_GetCurrentPipe_def
      Pipe_SelectPipe_def usb_shape_def length_Suc_conv)

lemma leads_step:
  assumes "\<And>u. P u \<Longrightarrow> usb_shape u"
    and "\<And>u dev0 sp0 a. P u \<Longrightarrow> 8 \<le> length dev0 \<Longrightarrow> \<exists>sub u'.
      host_state_step d ev dev0 sp0 0 (u\<lparr>pipeselected := [0]\<rparr>, a) = Some (HOST_ENUMERROR_NoError, sub, u', a) \<and>
      usb_shape u' \<and> Q (u'\<lparr>pipeselected := pipeselected u\<rparr>)"
  shows "leads d ev 1 P Q"
  unfolding leads_def
proof (intro allI impI)
  fix u a and ls :: "(u8 list \<times> u8) list"
  assume P: "P u" and l: "length ls = 1" and g: "\<forall>l\<in>set ls. 8 \<le> length (fst l)"
  then obtain dev0 sp0 where ls: "ls = [(dev0, sp0)]" "8 \<le> length dev0" by (cases ls) auto
  from assms(2)[OF P ls(2)] obtain sub u' where
    s: "host_state_step d ev dev0 sp0 0 (u\<lparr>pipeselected := [0]\<rparr>, a) = Some (HOST_ENUMERROR_NoError, sub, u', a)"
      "usb_shape u'" "Q (u'\<lparr>pipeselected := pipeselected u\<rparr>)" by blast
  from task_step[OF assms(1)[OF P] s(1,2)] s(3) ls
  show "\<exists>u'. run_task d ev ls (u, a) = Some (u', a) \<and> Q u'" by simp
qed

text \<open>
  The state between two calls: the selected pipe and the pipes other than the control pipe (\<open>x\<close>),
  the state of the machine, the control pipe.
\<close>

definition host_at :: "nat \<Rightarrow> u8 \<times> USB_Pipe_Data_t list \<Rightarrow> u8 \<Rightarrow> 'h usb \<Rightarrow> bool" where
  "host_at n x s u \<longleftrightarrow> ctl_closed n u \<and> pipeselected u = [fst x] \<and> drop 1 (row u) = snd x \<and> USB_HostState u = [s]"

definition host_open :: "nat \<Rightarrow> u8 \<times> USB_Pipe_Data_t list \<Rightarrow> u8 \<Rightarrow> 'h usb \<Rightarrow> bool" where
  "host_open n x s u \<longleftrightarrow> ctl_open n u \<and> pipeselected u = [fst x] \<and> drop 1 (row u) = snd x \<and> USB_HostState u = [s]"

definition waiting :: "nat \<Rightarrow> u8 \<times> USB_Pipe_Data_t list \<Rightarrow> u16 \<Rightarrow> u8 \<Rightarrow> 'h usb \<Rightarrow> bool" where
  "waiting n x k s u \<longleftrightarrow> host_at n x HOST_STATE_WaitForDevice u \<and> WaitMSRemaining u = k \<and> PostWaitState u = s"

definition settling :: "nat \<Rightarrow> u8 \<times> USB_Pipe_Data_t list \<Rightarrow> u16 \<Rightarrow> 'h usb \<Rightarrow> bool" where
  "settling n x k u \<longleftrightarrow> host_at n x HOST_STATE_Powered_WaitForDeviceSettle u \<and> WaitMSRemaining u = k"

lemma usb_shape_host [simp]: "usb_shape u \<Longrightarrow> usb_shape (u\<lparr>USB_HostState := [s]\<rparr>)"
  "usb_shape u \<Longrightarrow> usb_shape (u\<lparr>hostportspeed := [x]\<rparr>)" "usb_shape u \<Longrightarrow> usb_shape (u\<lparr>USB_Host_ControlPipeSize := [s]\<rparr>)"
  by (simp_all add: usb_shape_def)

lemma host_at_shape: "host_at n x s u \<Longrightarrow> usb_shape u" "host_open n x s u \<Longrightarrow> usb_shape u"
  by (simp_all add: host_at_def host_open_def ctl_closed_def ctl_open_def ctl_has_def)

lemmas host_defs = waiting_def settling_def host_at_def host_open_def ctl_closed_def

lemma leads_powered: "leads d ev 1 (host_at n x HOST_STATE_Powered) (settling n x 1000)"
  by (rule leads_step) (auto simp: host_state_step_def set_host_state_def host_defs usb_shape_def)

lemma leads_settle1: "k \<noteq> 0 \<Longrightarrow> leads d ev 1 (settling n x k) (settling n x (k - 1))"
  by (rule leads_step) (auto simp: host_state_step_def set_host_state_def host_defs usb_shape_def)

lemma leads_settle0: "leads d ev 1 (settling n x 0) (host_at n x HOST_STATE_Powered_WaitForConnect)"
  by (rule leads_step) (auto simp: host_state_step_def set_host_state_def host_defs usb_shape_def)

lemma leads_settle: "k < 65536 \<Longrightarrow> leads d ev (Suc k) (settling n x (word_of_nat k)) (host_at n x HOST_STATE_Powered_WaitForConnect)"
proof (induction k)
  case (Suc k)
  have "(word_of_nat (Suc k) :: u16) \<noteq> 0" using Suc.prems
    by (simp add: word_unat_eq_iff unat_of_nat_u16 del: of_nat_Suc)
  from leads_settle1[OF this] have "leads d ev 1 (settling n x (word_of_nat (Suc k))) (settling n x (word_of_nat k))" by simp
  from leads_trans[OF this Suc.IH] Suc.prems show ?case by simp
qed (use leads_settle0 in simp)

lemma leads_connect: "leads d ev 1 (host_at n x HOST_STATE_Powered_WaitForConnect) (waiting n x 100 HOST_STATE_Powered_DoReset)"
  by (rule leads_step) (auto simp: host_state_step_def HOST_TASK_NONBLOCK_WAIT_def set_host_state_def host_defs usb_shape_def)

lemma leads_wait1: "k \<noteq> 0 \<Longrightarrow> k \<noteq> 1 \<Longrightarrow> leads d ev 1 (waiting n x k s) (waiting n x (k - 1) s)"
  by (rule leads_step) (auto simp: host_state_step_def USB_Host_WaitMS_def set_host_state_def host_defs usb_shape_def)

lemma leads_wait0: "leads d ev 1 (waiting n x 1 s) (host_at n x s)"
  by (rule leads_step) (auto simp: host_state_step_def USB_Host_WaitMS_def set_host_state_def host_defs usb_shape_def)

lemma leads_wait: "Suc k < 65536 \<Longrightarrow> leads d ev (Suc k) (waiting n x (word_of_nat (Suc k)) s) (host_at n x s)"
proof (induction k)
  case (Suc k)
  have "(word_of_nat (Suc (Suc k)) :: u16) \<noteq> 0" "(word_of_nat (Suc (Suc k)) :: u16) \<noteq> 1" using Suc.prems
    by (simp_all add: word_unat_eq_iff unat_of_nat_u16 del: of_nat_Suc)
  from leads_wait1[OF this] have "leads d ev 1 (waiting n x (word_of_nat (Suc (Suc k))) s) (waiting n x (word_of_nat (Suc k)) s)" by simp
  from leads_trans[OF this Suc.IH] Suc.prems show ?case by simp
qed (use leads_wait0 in simp)

lemma leads_reset: "leads d ev 1 (host_at n x HOST_STATE_Powered_DoReset) (waiting n x 200 HOST_STATE_Powered_ConfigPipe)"
  by (rule leads_step)
    (auto simp: host_state_step_def HOST_TASK_NONBLOCK_WAIT_def set_host_state_def host_defs usb_shape_def length_Suc_conv split: prod.splits)


lemma ctl_frame [simp]:
  "usb_shape u \<Longrightarrow> ctl_has post (u\<lparr>pipeselected := [0]\<rparr>) = ctl_has post u"
  "ctl_has post (u\<lparr>USB_ControlRequest := r\<rparr>) = ctl_has post u"
  "usb_shape u \<Longrightarrow> ctl_open n (u\<lparr>pipeselected := [0]\<rparr>) = ctl_open n u"
  "usb_shape u \<Longrightarrow> ctl_closed n (u\<lparr>pipeselected := [0]\<rparr>) = ctl_closed n u"
  "ctl_open n (u\<lparr>USB_ControlRequest := r\<rparr>) = ctl_open n u"
  "ctl_open n (u\<lparr>hcd_state := h\<rparr>) = ctl_open n u" "ctl_closed n (u\<lparr>hcd_state := h\<rparr>) = ctl_closed n u"
  by (auto simp: ctl_open_def ctl_has_def ctl_closed_def)

lemma leads_config:
  assumes "hcd_answers d" "n > 129"
  shows "leads d ev 1 (host_at n x HOST_STATE_Powered_ConfigPipe) (host_open n x HOST_STATE_Default)"
proof (rule leads_step)
  fix u :: "'a usb" and dev0 sp0 a
  assume h: "host_at n x HOST_STATE_Powered_ConfigPipe u"
  let ?u = "u\<lparr>pipeselected := [0]\<rparr>"
  have c: "ctl_closed n ?u" "USB_HostState u = [HOST_STATE_Powered_ConfigPipe]" "unat (fst x) < 8" "pipeselected u = [fst x]" "drop 1 (row u) = snd x"
    using h by (auto simp: host_at_def ctl_closed_def usb_shape_def)
  from ctl_configure[OF assms(1) c(1) assms(2), of PIPE_TOKEN_SETUP 0 8] obtain u1
    where 1: "Pipe_ConfigurePipe d 0 0 0 0 0 8 ?u = Some (True, u1)" "same_host ?u u1" "ctl_open n u1" by blast
  then have "host_state_step d ev dev0 sp0 0 (?u, a) = Some (0, 0, u1\<lparr>USB_HostState := [HOST_STATE_Default]\<rparr>, a)"
    using c by (simp add: host_state_step_def set_host_state_def same_host_def)
  then show "\<exists>sub u'. host_state_step d ev dev0 sp0 0 (?u, a) = Some (0, sub, u', a) \<and> usb_shape u' \<and>
      host_open n x HOST_STATE_Default (u'\<lparr>pipeselected := pipeselected u\<rparr>)"
    using 1(2,3) c by (auto simp: host_open_def ctl_open_def ctl_has_def same_host_def)
qed (rule host_at_shape)

lemma leads_default:
  assumes "hcd_answers d" "n > 129"
  shows "leads d ev 1 (host_open n x HOST_STATE_Default) (waiting n x 200 HOST_STATE_Default_PostReset)"
proof (rule leads_step)
  fix u :: "'a usb" and dev0 :: "u8 list" and sp0 a
  assume h: "host_open n x HOST_STATE_Default u" and l: "8 \<le> length dev0"
  let ?r = "request 0x80 REQ_GetDescriptor 0x100 0 8"
  let ?u = "u\<lparr>pipeselected := [0], USB_ControlRequest := ?r\<rparr>"
  have c: "ctl_open n ?u" "USB_HostState u = [HOST_STATE_Default]" "unat (fst x) < 8" "pipeselected u = [fst x]" "drop 1 (row u) = snd x" "usb_shape u"
    "length (USB_Host_ControlPipeSize u) = 1"
    using h by (auto simp: host_open_def ctl_open_def ctl_has_def usb_shape_def)
  from ctl_in[OF assms(1) c(1), of 8 dev0] l obtain u1 buf
    where 1: "USB_Host_SendControlRequest d 0 (Some dev0) ?u = Some (0, Some buf, u1)" "same_host ?u u1" "ctl_open n u1"
      "length buf = length dev0" by (auto simp: request_def)
  let ?v = "u1\<lparr>USB_Host_ControlPipeSize := [buf ! 7]\<rparr>"
  have v: "ctl_open n ?v" using 1(3) by (simp add: ctl_open_def ctl_has_def)
  from ctl_close[OF v assms(2)] obtain u2 where 2: "Pipe_ClosePipe d 0 0 ?v = Some u2" "same_host ?v u2" "ctl_closed n u2" by blast
  let ?w = "u2\<lparr>hcd_state := HcdRhPortReset d 0 (hcd_state u2), USB_HostState := [0], WaitMSRemaining := 200, PostWaitState := HOST_STATE_Default_PostReset\<rparr>"
  have "length (USB_Host_ControlPipeSize u1) = 1" using 1(3) by (auto simp: ctl_open_def ctl_has_def usb_shape_def)
  then have "host_state_step d ev dev0 sp0 0 (u\<lparr>pipeselected := [0]\<rparr>, a) = Some (0, 0, ?w, a)"
    using c 1(1,2,4) l 2(1,2)
    by (auto simp: host_state_step_def set_host_state_def same_host_def HOST_TASK_NONBLOCK_WAIT_def length_Suc_conv)
  then show "\<exists>sub u'. host_state_step d ev dev0 sp0 0 (u\<lparr>pipeselected := [0]\<rparr>, a) = Some (0, sub, u', a) \<and> usb_shape u' \<and>
      waiting n x 200 HOST_STATE_Default_PostReset (u'\<lparr>pipeselected := pipeselected u\<rparr>)"
    using 1(2) 2(2,3) c by (auto simp: host_defs same_host_def)
qed (rule host_at_shape)

lemma leads_address:
  assumes "hcd_answers d" "n > 129"
  shows "leads d ev 1 (host_at n x HOST_STATE_Default_PostReset) (waiting n x 100 HOST_STATE_Default_PostAddressSet)"
proof (rule leads_step)
  fix u :: "'a usb" and dev0 sp0 a
  assume h: "host_at n x HOST_STATE_Default_PostReset u"
  let ?u = "u\<lparr>pipeselected := [0]\<rparr>"
  have c: "ctl_closed n ?u" "USB_HostState u = [HOST_STATE_Default_PostReset]" "unat (fst x) < 8" "pipeselected u = [fst x]" "drop 1 (row u) = snd x" "usb_shape u"
    "length (USB_Host_ControlPipeSize u) = 1"
    using h by (auto simp: host_at_def ctl_closed_def usb_shape_def)
  from ctl_configure[OF assms(1) c(1) assms(2)] obtain u1
    where 1: "Pipe_ConfigurePipe d 0 0 0 0 0 (ucast (USB_Host_ControlPipeSize u ! 0)) ?u = Some (True, u1)"
      "same_host ?u u1" "ctl_open n u1" by blast
  let ?v = "u1\<lparr>USB_ControlRequest := request 0 REQ_SetAddress 1 0 0\<rparr>"
  have v: "ctl_open n ?v" "sel ?v = 0" using 1(2,3) by (simp_all add: same_host_def)
  from ctl_out[OF assms(1) v] obtain u2
    where 2: "USB_Host_SendControlRequest d 0 None ?v = Some (0, None, u2)" "same_host ?v u2" "ctl_open n u2" by (auto simp: request_def)
  from ctl_close[OF 2(3) assms(2)] obtain u3 where 3: "Pipe_ClosePipe d 0 0 u2 = Some u3" "same_host u2 u3" "ctl_closed n u3" by blast
  let ?w = "u3\<lparr>USB_HostState := [0], WaitMSRemaining := 100, PostWaitState := HOST_STATE_Default_PostAddressSet\<rparr>"
  have "host_state_step d ev dev0 sp0 0 (?u, a) = Some (0, 0, ?w, a)"
    using c 1(1,2) 2(1,2) 3(1,2)
    by (auto simp: host_state_step_def set_host_state_def same_host_def HOST_TASK_NONBLOCK_WAIT_def length_Suc_conv)
  then show "\<exists>sub u'. host_state_step d ev dev0 sp0 0 (?u, a) = Some (0, sub, u', a) \<and> usb_shape u' \<and>
      waiting n x 100 HOST_STATE_Default_PostAddressSet (u'\<lparr>pipeselected := pipeselected u\<rparr>)"
    using 1(2) 2(2) 3(2,3) c by (auto simp: host_defs same_host_def)
qed (rule host_at_shape)

lemma leads_addressing:
  assumes "hcd_answers d" "n > 129"
  shows "leads d ev 1607 (host_at n x HOST_STATE_Powered) (host_at n x HOST_STATE_Default_PostAddressSet)"
proof -
  note s = leads_settle[of 1000 d ev n x, simplified]
  note w1 = leads_wait[of 99 d ev n x HOST_STATE_Powered_DoReset, simplified]
  note w2 = leads_wait[of 199 d ev n x HOST_STATE_Powered_ConfigPipe, simplified]
  note w3 = leads_wait[of 199 d ev n x HOST_STATE_Default_PostReset, simplified]
  note w4 = leads_wait[of 99 d ev n x HOST_STATE_Default_PostAddressSet, simplified]
  from leads_trans[OF leads_trans[OF leads_trans[OF leads_trans[OF leads_trans[OF leads_trans[OF leads_trans[OF leads_trans[OF
     leads_trans[OF leads_trans[OF leads_powered s] leads_connect] w1] leads_reset] w2] leads_config[OF assms]]
     leads_default[OF assms]] w3] leads_address[OF assms]] w4]
  show ?thesis by simp
qed

lemma enumerated:
  assumes "hcd_answers d" "ctl_closed n u" "n > 129" "USB_HostState u = [HOST_STATE_Powered]"
    and "length ls = 1608" "\<forall>l \<in> set ls. 8 \<le> length (fst l)"
  obtains u1 where "ctl_open n u1" "USB_HostState u1 = [HOST_STATE_Addressed]" "pipeselected u1 = [PIPE_CONTROLPIPE]"
    "drop 1 (row u1) = drop 1 (row u)"
    "\<And>u2 a2. EVENT_DeviceEnumerationComplete ev 0 (u1, a) = Some (u2, a2) \<Longrightarrow> usb_shape u2 \<Longrightarrow>
       run_task d ev ls (u, a) = Some (u2\<lparr>pipeselected := pipeselected u\<rparr>, a2)"
proof -
  obtain x where x: "pipeselected u = [fst x]" "drop 1 (row u) = snd x"
    using assms(2) by (auto simp: ctl_closed_def usb_shape_def length_Suc_conv)
  then have p: "host_at n x HOST_STATE_Powered u" using assms(2,4) by (simp add: host_at_def)
  obtain xs dev0 sp0 where l: "ls = xs @ [(dev0, sp0)]" using assms(5) by (cases ls rule: rev_cases) auto
  have "length xs = 1607" "\<forall>l \<in> set xs. 8 \<le> length (fst l)" using assms(5,6) l by auto
  then obtain v where v: "run_task d ev xs (u, a) = Some (v, a)" "host_at n x HOST_STATE_Default_PostAddressSet v"
    using leads_addressing[OF assms(1,3), of ev x] p unfolding leads_def by blast
  let ?v = "v\<lparr>pipeselected := [0]\<rparr>"
  have c: "ctl_closed n ?v" "USB_HostState v = [HOST_STATE_Default_PostAddressSet]" "pipeselected v = [fst x]" "usb_shape v"
    "length (USB_Host_ControlPipeSize v) = 1" "drop 1 (row v) = snd x"
    using v(2) by (auto simp: host_at_def ctl_closed_def usb_shape_def)
  from ctl_configure[OF assms(1) c(1) assms(3)] obtain u0
    where 0: "Pipe_ConfigurePipe d 0 0 0 0 0 (ucast (USB_Host_ControlPipeSize v ! 0)) ?v = Some (True, u0)"
      "same_host ?v u0" "ctl_open n u0" by blast
  let ?u1 = "u0\<lparr>USB_HostState := [HOST_STATE_Addressed]\<rparr>"
  have "ctl_open n ?u1" using 0(3) by (auto simp: ctl_open_def ctl_has_def)
  moreover have "run_task d ev ls (u, a) = Some (u2\<lparr>pipeselected := pipeselected u\<rparr>, a2)"
    if e: "EVENT_DeviceEnumerationComplete ev 0 (?u1, a) = Some (u2, a2)" "usb_shape u2" for u2 a2
  proof -
    have "host_state_step d ev dev0 sp0 0 (?v, a) = Some (0, 0, u2, a2)"
      using c 0 e(1) by (auto simp: host_state_step_def set_host_state_def same_host_def length_Suc_conv)
    from task_step[OF c(4) this e(2)] show ?thesis using v(1) c(3) x by (simp add: l run_task_append)
  qed
  moreover have "drop 1 (row ?u1) = drop 1 (row u)" using 0(2) c(6) x(2) by (simp add: same_host_def)
  ultimately show ?thesis using that[of ?u1] 0(2) by (simp add: same_host_def)
qed


definition hcd_ideal :: "unit hcd" where
  "hcd_ideal = \<lparr>HcdOpenPipe = (\<lambda>_ _ _ _ _ _ _ h. (HCD_STATUS_OK, Some 1, h)), HcdClosePipe = (\<lambda>_ h. h),
     HcdGetPipeStatus = (\<lambda>_ h. (HCD_STATUS_OK, h)), HcdDataTransfer = (\<lambda>_ _ _ _ _ h. h),
     HcdControlTransfer = (\<lambda>_ _ _ m h. (HCD_STATUS_OK, m, h)), HcdClearEndpointHalt = (\<lambda>_ h. h),
     HcdRhPortReset = (\<lambda>_ h. h), HcdGetDeviceSpeed = (\<lambda>_ h. (Some 0, h)), HcdInitDriver = (\<lambda>_ h. (HCD_STATUS_OK, h)),
     HcdDeInitDriver = (\<lambda>_ h. h)\<rparr>"

definition events_count :: "(unit, nat) host_events" where
  "events_count = \<lparr>EVENT_DeviceAttached = (\<lambda>_ w. Some w), EVENT_DeviceUnattached = (\<lambda>_ w. Some w),
     EVENT_DeviceEnumerationComplete = (\<lambda>_ (u, a). Some (u, Suc a)), EVENT_DeviceEnumerationFailed = (\<lambda>_ _ _ w. Some w)\<rparr>"

lemma hcd_ideal_answers: "hcd_answers hcd_ideal"
  by (auto simp: hcd_answers_def hcd_ideal_def)


end
