(* ===== verification/Accessory.thy ===== *)
theory Accessory
  imports UsbEnum
begin

unbundle bit_operations_syntax

text \<open>
  The Android accessory library \<^verbatim>\<open>Lib_AOA/src\<close>: the three vendor requests of
  \<^verbatim>\<open>AndroidAccessoryCommands.c\<close>, the classification of a device by its device descriptor
  (\<^verbatim>\<open>DeviceDescriptor.c\<close>) and the search for the accessory interface and its two bulk end points in
  the configuration descriptor (\<^verbatim>\<open>ConfigDescriptor.c\<close>). Arguments named after a local variable with
  a \<open>0\<close> are the initial contents of that variable. A structure laid over the descriptor memory is
  read field by field at its byte offsets; 16-bit fields are little endian.
\<close>

abbreviation (input) ANDROID_Req_GetAccessoryProtocol :: u8 where "ANDROID_Req_GetAccessoryProtocol \<equiv> 51"
abbreviation (input) ANDROID_Req_SendString :: u8 where "ANDROID_Req_SendString \<equiv> 52"
abbreviation (input) ANDROID_Req_StartAccessoryMode :: u8 where "ANDROID_Req_StartAccessoryMode \<equiv> 53"
abbreviation (input) ANDROID_PROTOCOL_Accessory :: u16 where "ANDROID_PROTOCOL_Accessory \<equiv> 2"
abbreviation (input) ANDROID_DATA_IN_PIPE :: u8 where "ANDROID_DATA_IN_PIPE \<equiv> 1"
abbreviation (input) ANDROID_DATA_OUT_PIPE :: u8 where "ANDROID_DATA_OUT_PIPE \<equiv> 2"
abbreviation (input) ANDROID_INTERFACE_CLASS :: u8 where "ANDROID_INTERFACE_CLASS \<equiv> 0xFF"
abbreviation (input) ANDROID_INTERFACE_SUBCLASS :: u8 where "ANDROID_INTERFACE_SUBCLASS \<equiv> 0xFF"
abbreviation (input) ANDROID_INTERFACE_PROTOCOL :: u8 where "ANDROID_INTERFACE_PROTOCOL \<equiv> 0x00"
abbreviation (input) ANDROID_ACCESSORY_PRODUCT_ID :: u16 where "ANDROID_ACCESSORY_PRODUCT_ID \<equiv> 0x2D00"
abbreviation (input) ANDROID_ACCESSORY_ADB_PRODUCT_ID :: u16 where "ANDROID_ACCESSORY_ADB_PRODUCT_ID \<equiv> 0x2D01"
abbreviation (input) SuccessfulConfigRead :: u8 where "SuccessfulConfigRead \<equiv> 0"
abbreviation (input) DevControlError :: u8 where "DevControlError \<equiv> 1"
abbreviation (input) DescriptorTooLarge :: u8 where "DescriptorTooLarge \<equiv> 2"
abbreviation (input) InvalidConfigDataReturned :: u8 where "InvalidConfigDataReturned \<equiv> 3"
abbreviation (input) NoCompatibleInterfaceFound :: u8 where "NoCompatibleInterfaceFound \<equiv> 4"
abbreviation (input) InvalidDeviceDataReturned :: u8 where "InvalidDeviceDataReturned \<equiv> 2"
abbreviation (input) NonAccessoryModeAndroidDevice :: u8 where "NonAccessoryModeAndroidDevice \<equiv> 4"
abbreviation (input) AccessoryModeAndroidDevice :: u8 where "AccessoryModeAndroidDevice \<equiv> 5"
abbreviation (input) ENDPOINT_DIR_MASK :: u8 where "ENDPOINT_DIR_MASK \<equiv> 0x80"
abbreviation (input) ENDPOINT_DIR_IN :: u8 where "ENDPOINT_DIR_IN \<equiv> 0x80"
abbreviation (input) EP_TYPE_MASK :: u8 where "EP_TYPE_MASK \<equiv> 3"

section \<open>Vendor requests\<close>

definition le16 :: "u8 \<Rightarrow> u8 \<Rightarrow> u16" where
  "le16 lo hi = ucast lo OR push_bit 8 (ucast hi)"

definition Android_GetAccessoryProtocol :: "'h hcd \<Rightarrow> u8 \<Rightarrow> u16 \<Rightarrow> 'h usb \<Rightarrow> (u8 \<times> u16 \<times> 'h usb) option" where
  "Android_GetAccessoryProtocol d c Protocol u = do {
     (e, buf, u) \<leftarrow> control_request d c
        (request (REQDIR_DEVICETOHOST OR REQTYPE_VENDOR OR REQREC_DEVICE) ANDROID_Req_GetAccessoryProtocol 0 0 2)
        (Some [ucast Protocol, ucast (drop_bit 8 Protocol)]) u;
     bs \<leftarrow> buf;
     lo \<leftarrow> rd bs 0;
     hi \<leftarrow> rd bs 1;
     Some (e, le16 lo hi, u)
   }"

text \<open>A C string is the list of its characters; the terminating zero follows in memory.\<close>

definition Android_SendString :: "'h hcd \<Rightarrow> u8 \<Rightarrow> u8 \<Rightarrow> u8 list \<Rightarrow> 'h usb \<Rightarrow> (u8 \<times> 'h usb) option" where
  "Android_SendString d c StringIndex str u = do {
     (e, _, u) \<leftarrow> control_request d c
        (request (REQDIR_HOSTTODEVICE OR REQTYPE_VENDOR OR REQREC_DEVICE) ANDROID_Req_SendString 0
           (ucast StringIndex) (word_of_nat (length str + 1))) (Some (str @ [0])) u;
     Some (e, u)
   }"

definition Android_StartAccessoryMode :: "'h hcd \<Rightarrow> u8 \<Rightarrow> 'h usb \<Rightarrow> (u8 \<times> 'h usb) option" where
  "Android_StartAccessoryMode d c u = do {
     (e, _, u) \<leftarrow> control_request d c
        (request (REQDIR_HOSTTODEVICE OR REQTYPE_VENDOR OR REQREC_DEVICE) ANDROID_Req_StartAccessoryMode 0 0 0) None u;
     Some (e, u)
   }"

section \<open>Device descriptor\<close>

definition ProcessDeviceDescriptor :: "'h hcd \<Rightarrow> u8 \<Rightarrow> u8 list \<Rightarrow> 'h usb \<Rightarrow> (u8 \<times> 'h usb) option" where
  "ProcessDeviceDescriptor d c dev0 u = do {
     (e, buf, u) \<leftarrow> USB_Host_GetDeviceDescriptor d c (Some dev0) u;
     (if e \<noteq> HOST_SENDCONTROL_Successful then Some (DevControlError, u)
      else do {
        dev \<leftarrow> buf;
        t \<leftarrow> rd dev 1;
        (if t \<noteq> DTYPE_Device then Some (InvalidDeviceDataReturned, u)
         else do {
           lo \<leftarrow> rd dev 10;
           hi \<leftarrow> rd dev 11;
           (if le16 lo hi \<noteq> ANDROID_ACCESSORY_PRODUCT_ID \<and> le16 lo hi \<noteq> ANDROID_ACCESSORY_ADB_PRODUCT_ID
            then Some (NonAccessoryModeAndroidDevice, u)
            else Some (AccessoryModeAndroidDevice, u))
         })
      })
   }"

section \<open>Configuration descriptor\<close>

definition DCOMP_NextAndroidAccessoryInterface :: comparator where
  "DCOMP_NextAndroidAccessoryInterface mem loc = do {
     t \<leftarrow> rd mem (loc + 1);
     (if t = DTYPE_Interface then do {
        cl \<leftarrow> rd mem (loc + 5);
        (if cl = ANDROID_INTERFACE_CLASS then do {
           sc \<leftarrow> rd mem (loc + 6);
           (if sc = ANDROID_INTERFACE_SUBCLASS then do {
              pr \<leftarrow> rd mem (loc + 7);
              Some (if pr = ANDROID_INTERFACE_PROTOCOL then DESCRIPTOR_SEARCH_Found else DESCRIPTOR_SEARCH_NotFound)
            }
            else Some DESCRIPTOR_SEARCH_NotFound)
         }
         else Some DESCRIPTOR_SEARCH_NotFound)
      }
      else Some DESCRIPTOR_SEARCH_NotFound)
   }"

definition DCOMP_NextInterfaceBulkEndpoint :: comparator where
  "DCOMP_NextInterfaceBulkEndpoint mem loc = do {
     t \<leftarrow> rd mem (loc + 1);
     (if t = DTYPE_Endpoint then do {
        at \<leftarrow> rd mem (loc + 3);
        (if at AND EP_TYPE_MASK = EP_TYPE_BULK then do {
           ad \<leftarrow> rd mem (loc + 2);
           Some (if \<not> Pipe_IsEndpointBound ad then DESCRIPTOR_SEARCH_Found else DESCRIPTOR_SEARCH_NotFound)
         }
         else Some DESCRIPTOR_SEARCH_NotFound)
      }
      else if t = DTYPE_Interface then Some DESCRIPTOR_SEARCH_Fail
      else Some DESCRIPTOR_SEARCH_NotFound)
   }"

text \<open>
  The loop of \<^verbatim>\<open>ProcessConfigurationDescriptor\<close>. \<open>i\<close> and \<open>out\<close> are \<^verbatim>\<open>DataINEndpoint\<close> and
  \<^verbatim>\<open>DataOUTEndpoint\<close>; the inner result is \<^const>\<open>None\<close> when the loop is left by the return of
  \<^verbatim>\<open>NoCompatibleInterfaceFound\<close>.
\<close>

partial_function (option) endpoints_loop ::
  "u8 list \<Rightarrow> u16 \<Rightarrow> nat \<Rightarrow> nat option \<Rightarrow> nat option \<Rightarrow> (nat \<times> nat) option option" where
  "endpoints_loop mem rem loc i out =
     (case (i, out) of
        (Some a, Some b) \<Rightarrow> Some (Some (a, b))
      | _ \<Rightarrow> Option.bind (USB_GetNextDescriptorComp DCOMP_NextInterfaceBulkEndpoint mem rem loc) (\<lambda>(e, rem, loc).
          if e \<noteq> DESCRIPTOR_SEARCH_Found then Some None
          else Option.bind (rd mem (loc + 2)) (\<lambda>ad.
            if ad AND ENDPOINT_DIR_MASK = ENDPOINT_DIR_IN then endpoints_loop mem rem loc (Some loc) out
            else endpoints_loop mem rem loc i (Some loc))))"

declare endpoints_loop.simps [code]

definition configure_data_pipe :: "'h hcd \<Rightarrow> u8 \<Rightarrow> u8 \<Rightarrow> u8 \<Rightarrow> u8 list \<Rightarrow> nat \<Rightarrow> 'h usb \<Rightarrow> 'h usb option" where
  "configure_data_pipe d c n tok mem loc u = do {
     ad \<leftarrow> rd mem (loc + 2);
     lo \<leftarrow> rd mem (loc + 4);
     hi \<leftarrow> rd mem (loc + 5);
     (_, u) \<leftarrow> Pipe_ConfigurePipe d c n EP_TYPE_BULK tok ad (le16 lo hi) u;
     Some u
   }"

definition ProcessConfigurationDescriptor :: "'h hcd \<Rightarrow> u8 \<Rightarrow> u8 list \<Rightarrow> u8 list \<Rightarrow> 'h usb \<Rightarrow> (u8 \<times> 'h usb) option" where
  "ProcessConfigurationDescriptor d c hdr0 cfg0 u = do {
     (e, total, mem, u) \<leftarrow> USB_Host_GetDeviceConfigDescriptor d c 1 hdr0 cfg0 512 u;
     (if e = HOST_GETCONFIG_Successful then do {
        rem \<leftarrow> total;
        (r, rem, loc) \<leftarrow> USB_GetNextDescriptorComp DCOMP_NextAndroidAccessoryInterface mem rem 0;
        (if r \<noteq> DESCRIPTOR_SEARCH_Found then Some (NoCompatibleInterfaceFound, u)
         else do {
           eps \<leftarrow> endpoints_loop mem rem loc None None;
           (case eps of
              None \<Rightarrow> Some (NoCompatibleInterfaceFound, u)
            | Some (i, out) \<Rightarrow> do {
                u \<leftarrow> configure_data_pipe d c ANDROID_DATA_IN_PIPE PIPE_TOKEN_IN mem i u;
                u \<leftarrow> configure_data_pipe d c ANDROID_DATA_OUT_PIPE PIPE_TOKEN_OUT mem out u;
                Some (SuccessfulConfigRead, u)
              })
         })
      }
      else if e = HOST_GETCONFIG_InvalidData then Some (InvalidConfigDataReturned, u)
      else if e = HOST_GETCONFIG_BuffOverflow then Some (DescriptorTooLarge, u)
      else Some (DevControlError, u))
   }"

section \<open>What the search finds\<close>

text \<open>
  Descriptors as lists of bytes that start with their length. The accessory interface is the first
  vendor-specific interface with the accessory's codes after the leading configuration descriptor;
  its end points are the bulk end points up to the next interface. The code keeps the last end point
  of the direction that comes first and the first end point of the other direction.
\<close>

definition desc_ok :: "u8 list \<Rightarrow> bool" where
  "desc_ok d \<longleftrightarrow> wf_desc d \<and> 2 \<le> length d \<and> (d ! 1 = DTYPE_Interface \<longrightarrow> 8 \<le> length d) \<and>
     (d ! 1 = DTYPE_Endpoint \<longrightarrow> 6 \<le> length d)"

definition is_accessory :: "u8 list \<Rightarrow> bool" where
  "is_accessory d \<longleftrightarrow> d ! 1 = DTYPE_Interface \<and> d ! 5 = ANDROID_INTERFACE_CLASS \<and>
     d ! 6 = ANDROID_INTERFACE_SUBCLASS \<and> d ! 7 = ANDROID_INTERFACE_PROTOCOL"

definition is_bulk :: "u8 list \<Rightarrow> bool" where
  "is_bulk d \<longleftrightarrow> d ! 1 = DTYPE_Endpoint \<and> d ! 3 AND EP_TYPE_MASK = EP_TYPE_BULK"

definition is_in :: "u8 list \<Rightarrow> bool" where
  "is_in d \<longleftrightarrow> d ! 2 AND ENDPOINT_DIR_MASK = ENDPOINT_DIR_IN"

definition choose_endpoints :: "u8 list list \<Rightarrow> (u8 list \<times> u8 list) option" where
  "choose_endpoints eps = (case eps of [] \<Rightarrow> None
     | e # _ \<Rightarrow> (case dropWhile (\<lambda>x. is_in x = is_in e) eps of [] \<Rightarrow> None
         | f # _ \<Rightarrow> (let l = last (takeWhile (\<lambda>x. is_in x = is_in e) eps) in
             Some (if is_in e then (l, f) else (f, l)))))"

definition accessory_endpoints :: "u8 list list \<Rightarrow> (u8 list \<times> u8 list) option" where
  "accessory_endpoints ds = (case dropWhile (\<lambda>d. \<not> is_accessory d) (drop 1 ds) of [] \<Rightarrow> None
     | _ # is \<Rightarrow> choose_endpoints (filter is_bulk (takeWhile (\<lambda>d. d ! 1 \<noteq> DTYPE_Interface) is)))"

text \<open>The loop over the list of descriptors.\<close>

fun pick :: "u8 list option \<Rightarrow> u8 list option \<Rightarrow> u8 list list \<Rightarrow> (u8 list \<times> u8 list) option" where
  "pick (Some a) (Some b) ds = Some (a, b)"
| "pick i out [] = None"
| "pick i out (e # es) =
     (if e ! 1 = DTYPE_Interface then None
      else if is_bulk e then (if is_in e then pick (Some e) out es else pick i (Some e) es)
      else pick i out es)"

lemma pick_filter:
  "pick i out es = pick i out (filter is_bulk (takeWhile (\<lambda>d. d ! 1 \<noteq> DTYPE_Interface) es))"
proof (induction es arbitrary: i out)
  case (Cons e es)
  show ?case
  proof (cases "i = None \<or> out = None")
    case True
    then show ?thesis
      using Cons.IH[of "Some e" out] Cons.IH[of i "Some e"] Cons.IH[of i out]
      by (cases i; cases out) (auto simp: is_bulk_def)
  qed auto
qed simp

lemma pick_in:
  "\<forall>e \<in> set es. is_bulk e \<Longrightarrow> pick (Some a) None es =
     (case dropWhile is_in es of [] \<Rightarrow> None | f # _ \<Rightarrow> Some (last (a # takeWhile is_in es), f))"
proof (induction es arbitrary: a)
  case (Cons e es)
  then show ?case by (cases "dropWhile is_in es") (auto simp: is_bulk_def simp del: dropWhile_eq_Nil_conv)
qed simp

lemma pick_out:
  "\<forall>e \<in> set es. is_bulk e \<Longrightarrow> pick None (Some b) es =
     (case dropWhile (\<lambda>x. \<not> is_in x) es of [] \<Rightarrow> None | f # _ \<Rightarrow> Some (f, last (b # takeWhile (\<lambda>x. \<not> is_in x) es)))"
proof (induction es arbitrary: b)
  case (Cons e es)
  then show ?case by (cases "dropWhile (\<lambda>x. \<not> is_in x) es") (auto simp: is_bulk_def simp del: dropWhile_eq_Nil_conv)
qed simp

lemma pick_choose: "\<forall>e \<in> set es. is_bulk e \<Longrightarrow> pick None None es = choose_endpoints es"
proof (cases es)
  case (Cons e es')
  moreover assume b: "\<forall>e \<in> set es. is_bulk e"
  ultimately have "e ! 1 \<noteq> DTYPE_Interface" "is_bulk e" "\<forall>x \<in> set es'. is_bulk x" by (auto simp: is_bulk_def)
  then show ?thesis using Cons pick_in[of es' e] pick_out[of es' e]
    by (cases "is_in e"; cases "dropWhile is_in es'"; cases "dropWhile (\<lambda>x. \<not> is_in x) es'")
      (simp_all add: choose_endpoints_def Let_def del: last.simps dropWhile_eq_Nil_conv)
qed (simp add: choose_endpoints_def)

section \<open>Descriptors in memory\<close>

definition holds :: "u8 list \<Rightarrow> nat \<Rightarrow> u8 list \<Rightarrow> bool" where
  "holds mem loc d \<longleftrightarrow> desc_ok d \<and> (\<exists>rest. drop loc mem = d @ rest)"

lemma rd_holds: "holds mem loc d \<Longrightarrow> k < length d \<Longrightarrow> rd mem (loc + k) = Some (d ! k)"
proof -
  assume h: "holds mem loc d" and k: "k < length d"
  then obtain rest where d: "drop loc mem = d @ rest" by (auto simp: holds_def)
  have "length (drop loc mem) = length d + length rest" by (simp add: d)
  then have l: "loc + k < length mem" using k by simp
  have "mem ! (loc + k) = drop loc mem ! k" using l by simp
  then show ?thesis using l k by (simp add: d nth_append)
qed

lemma holdsD:
  assumes "holds mem loc d"
  shows "rd mem (loc + 1) = Some (d ! 1)"
    and "d ! 1 = DTYPE_Interface \<Longrightarrow> rd mem (loc + 5) = Some (d ! 5) \<and> rd mem (loc + 6) = Some (d ! 6) \<and> rd mem (loc + 7) = Some (d ! 7)"
    and "d ! 1 = DTYPE_Endpoint \<Longrightarrow> rd mem (loc + 2) = Some (d ! 2) \<and> rd mem (loc + 3) = Some (d ! 3) \<and>
      rd mem (loc + 4) = Some (d ! 4) \<and> rd mem (loc + 5) = Some (d ! 5)"
  using assms rd_holds[OF assms, of 1] rd_holds[OF assms, of 2] rd_holds[OF assms, of 3] rd_holds[OF assms, of 4]
    rd_holds[OF assms, of 5] rd_holds[OF assms, of 6] rd_holds[OF assms, of 7]
  by (auto simp: holds_def desc_ok_def)

lemma comp_interface: "holds mem loc d \<Longrightarrow>
    DCOMP_NextAndroidAccessoryInterface mem loc = Some (if is_accessory d then DESCRIPTOR_SEARCH_Found else DESCRIPTOR_SEARCH_NotFound)"
  using holdsD[of mem loc d] by (auto simp: DCOMP_NextAndroidAccessoryInterface_def is_accessory_def)

lemma comp_endpoint: "holds mem loc d \<Longrightarrow>
    DCOMP_NextInterfaceBulkEndpoint mem loc = Some (if is_bulk d then DESCRIPTOR_SEARCH_Found
      else if d ! 1 = DTYPE_Interface then DESCRIPTOR_SEARCH_Fail else DESCRIPTOR_SEARCH_NotFound)"
  using holdsD[of mem loc d] by (auto simp: DCOMP_NextInterfaceBulkEndpoint_def is_bulk_def Pipe_IsEndpointBound_def)

text \<open>The byte behind the last descriptor that the comparators look at is no descriptor type they know.\<close>

definition quiet :: "u8 list \<Rightarrow> nat \<Rightarrow> bool" where
  "quiet mem loc \<longleftrightarrow> loc + 1 < length mem \<and> mem ! (loc + 1) \<noteq> DTYPE_Interface \<and> mem ! (loc + 1) \<noteq> DTYPE_Endpoint"

lemma comp_quiet:
  "quiet mem loc \<Longrightarrow> DCOMP_NextAndroidAccessoryInterface mem loc = Some DESCRIPTOR_SEARCH_NotFound"
  "quiet mem loc \<Longrightarrow> DCOMP_NextInterfaceBulkEndpoint mem loc = Some DESCRIPTOR_SEARCH_NotFound"
  by (auto simp: quiet_def DCOMP_NextAndroidAccessoryInterface_def DCOMP_NextInterfaceBulkEndpoint_def)

text \<open>A list of descriptors in memory at a position, ending at \<open>n\<close>.\<close>

definition listed :: "u8 list \<Rightarrow> nat \<Rightarrow> nat \<Rightarrow> u8 list list \<Rightarrow> bool" where
  "listed mem n loc ds \<longleftrightarrow> (\<forall>d \<in> set ds. desc_ok d) \<and> (\<exists>rest. drop loc mem = concat ds @ rest) \<and>
     loc + length (concat ds) = n \<and> n < 65536 \<and> quiet mem n"

lemma listed_Cons: "listed mem n loc (d # ds) \<Longrightarrow> holds mem loc d \<and> listed mem n (loc + length d) ds"
proof -
  assume l: "listed mem n loc (d # ds)"
  then obtain rest where r: "drop loc mem = d @ concat ds @ rest" by (auto simp: listed_def)
  then have "drop (length d) (drop loc mem) = concat ds @ rest" by simp
  then have "drop (loc + length d) mem = concat ds @ rest" by (simp add: add.commute)
  then show ?thesis using l r by (auto simp: listed_def holds_def)
qed

text \<open>The number of bytes left, as the search keeps it.\<close>

abbreviation left :: "u8 list list \<Rightarrow> u16" where "left ds \<equiv> word_of_nat (length (concat ds))"

lemma comp_step:
  assumes "listed mem n loc (d # ds)"
    and "\<And>loc d. holds mem loc d \<Longrightarrow> cmp mem loc = Some (g d)" "cmp mem n = Some DESCRIPTOR_SEARCH_NotFound"
  shows "USB_GetNextDescriptorComp cmp mem (left (d # ds)) loc = (case ds of
     [] \<Rightarrow> Some (DESCRIPTOR_SEARCH_COMP_EndOfDescriptor, 0, n)
   | e # es \<Rightarrow> if g e = DESCRIPTOR_SEARCH_NotFound then USB_GetNextDescriptorComp cmp mem (left ds) (loc + length d)
       else if g e = DESCRIPTOR_SEARCH_Fail then Some (g e, left (d # ds), loc) else Some (g e, left ds, loc + length d))"
proof -
  note c = listed_Cons[OF assms(1)]
  have d: "wf_desc d" "\<exists>rest. drop loc mem = d @ rest" "length d + length (concat ds) < 65536" "loc + length d + length (concat ds) = n"
    using assms(1) by (auto simp: listed_def desc_ok_def)
  have nx: "USB_GetNextDescriptor mem (left (d # ds)) loc = Some (left ds, loc + length d)"
    using next_descriptor[OF _ d(1,3)] d(2) by auto
  have "unat (left (d # ds)) = length (concat (d # ds))" using d(3) by (simp only: concat.simps length_append unat_of_nat_u16)
  then have nz: "left (d # ds) \<noteq> 0" using d(1) by (auto simp: wf_desc_def)
  show ?thesis
  proof (cases ds)
    case Nil
    then have "loc + length d = n" using d(4) by simp
    then show ?thesis using nx nz assms(3) Nil
      by (subst USB_GetNextDescriptorComp.simps) (simp add: USB_GetNextDescriptorComp.simps[of _ _ 0] del: of_nat_add)
  next
    case (Cons e es)
    have "holds mem (loc + length d) e" using c listed_Cons Cons by blast
    then have "cmp mem (loc + length d) = Some (g e)" by (rule assms(2))
    then show ?thesis using nx nz Cons
      by (subst USB_GetNextDescriptorComp.simps) (simp del: of_nat_add concat.simps)
  qed
qed


lemma comp_find:
  assumes "listed mem n loc (d # ds)"
    and "\<And>loc d. holds mem loc d \<Longrightarrow> cmp mem loc = Some (g d)" "cmp mem n = Some DESCRIPTOR_SEARCH_NotFound"
  shows "\<exists>r rem loc'. USB_GetNextDescriptorComp cmp mem (left (d # ds)) loc = Some (r, rem, loc') \<and>
    (case dropWhile (\<lambda>e. g e = DESCRIPTOR_SEARCH_NotFound) ds of
       [] \<Rightarrow> r = DESCRIPTOR_SEARCH_COMP_EndOfDescriptor
     | e # es \<Rightarrow> r = g e \<and> (g e \<noteq> DESCRIPTOR_SEARCH_Fail \<longrightarrow> rem = left (e # es) \<and> listed mem n loc' (e # es)))"
  using assms
proof (induction ds arbitrary: d loc)
  case Nil
  then show ?case using comp_step[where cmp = cmp and g = g, OF Nil] by simp
next
  case (Cons e es)
  note st = comp_step[where cmp = cmp and g = g, OF Cons.prems] and l = listed_Cons[OF Cons.prems(1)]
  show ?case
  proof (cases "g e = DESCRIPTOR_SEARCH_NotFound")
    case True
    then show ?thesis using st Cons.IH[of "loc + length d" e] l Cons.prems(2,3) by simp
  next
    case False
    then show ?thesis using st l by (cases "g e = DESCRIPTOR_SEARCH_Fail") simp_all
  qed
qed

lemma pick_skip:
  "i = None \<or> out = None \<Longrightarrow> pick i out ds = pick i out (dropWhile (\<lambda>e. \<not> is_bulk e \<and> e ! 1 \<noteq> DTYPE_Interface) ds)"
  by (induction ds) (cases i; cases out; simp)+

lemma endpoints_pick:
  assumes "listed mem n loc (d # ds)" "rel_option (holds mem) i i'" "rel_option (holds mem) out out'"
  shows "\<exists>r. endpoints_loop mem (left (d # ds)) loc i out = Some r \<and>
    rel_option (rel_prod (holds mem) (holds mem)) r (pick i' out' ds)"
  using assms
proof (induction "length ds" arbitrary: d ds loc i out i' out' rule: less_induct)
  case less
  show ?case
  proof (cases "i \<noteq> None \<and> out \<noteq> None")
    case True
    then show ?thesis using less.prems(2,3) by (auto simp: endpoints_loop.simps option.rel_sel)
  next
    case False
    let ?g = "\<lambda>e. if is_bulk e then DESCRIPTOR_SEARCH_Found else if e ! 1 = DTYPE_Interface then DESCRIPTOR_SEARCH_Fail
      else DESCRIPTOR_SEARCH_NotFound"
    have q: "quiet mem n" using less.prems(1) by (simp add: listed_def)
    obtain r rem loc' where c: "USB_GetNextDescriptorComp DCOMP_NextInterfaceBulkEndpoint mem (left (d # ds)) loc = Some (r, rem, loc')"
      "case dropWhile (\<lambda>e. ?g e = DESCRIPTOR_SEARCH_NotFound) ds of [] \<Rightarrow> r = DESCRIPTOR_SEARCH_COMP_EndOfDescriptor
       | e # es \<Rightarrow> r = ?g e \<and> (?g e \<noteq> DESCRIPTOR_SEARCH_Fail \<longrightarrow> rem = left (e # es) \<and> listed mem n loc' (e # es))"
      using comp_find[where cmp = DCOMP_NextInterfaceBulkEndpoint and g = ?g, OF less.prems(1) comp_endpoint comp_quiet(2)[OF q]] by blast
    have nb: "endpoints_loop mem (left (d # ds)) loc i out =
        (if r \<noteq> DESCRIPTOR_SEARCH_Found then Some None
         else rd mem (loc' + 2) \<bind> (\<lambda>ad. if ad AND ENDPOINT_DIR_MASK = ENDPOINT_DIR_IN then endpoints_loop mem rem loc' (Some loc') out
            else endpoints_loop mem rem loc' i (Some loc')))"
      using False c(1) by (subst endpoints_loop.simps) (auto split: option.splits)
    have np: "i' = None \<or> out' = None" using False less.prems(2,3) by (auto simp: option.rel_sel)
    have "(\<lambda>e. ?g e = DESCRIPTOR_SEARCH_NotFound) = (\<lambda>e. \<not> is_bulk e \<and> e ! 1 \<noteq> DTYPE_Interface)" by auto
    then have skip: "pick i' out' ds = pick i' out' (dropWhile (\<lambda>e. ?g e = DESCRIPTOR_SEARCH_NotFound) ds)"
      using pick_skip[OF np] by simp
    show ?thesis
    proof (cases "dropWhile (\<lambda>e. ?g e = DESCRIPTOR_SEARCH_NotFound) ds")
      case Nil
      then have "pick i' out' ds = None" "r \<noteq> DESCRIPTOR_SEARCH_Found" using c(2) skip np by (cases i'; cases out'; simp)+
      then show ?thesis using nb by simp
    next
      case (Cons e es)
      show ?thesis
      proof (cases "is_bulk e")
        case False
        then have "e ! 1 = DTYPE_Interface" using hd_dropWhile[of "\<lambda>e. ?g e = DESCRIPTOR_SEARCH_NotFound" ds] Cons by (auto split: if_splits)
        then have "pick i' out' ds = None" "r \<noteq> DESCRIPTOR_SEARCH_Found"
          using c(2) skip np Cons False by (cases i'; cases out'; simp)+
        then show ?thesis using nb by simp
      next
        case True
        then have l: "rem = left (e # es)" "listed mem n loc' (e # es)" "r = DESCRIPTOR_SEARCH_Found" using c(2) Cons by auto
        have h: "holds mem loc' e" using l(2) listed_Cons by blast
        have e1: "e ! 1 = DTYPE_Endpoint" using True by (simp add: is_bulk_def)
        have a: "rd mem (loc' + 2) = Some (e ! 2)" using holdsD(3)[OF h e1] by simp
        have sh: "length es < length ds" using Cons length_dropWhile_le[of "\<lambda>e. ?g e = DESCRIPTOR_SEARCH_NotFound" ds] by simp
        have p: "pick i' out' ds = (if is_in e then pick (Some e) out' es else pick i' (Some e) es)"
          using skip Cons True e1 np by (cases i'; cases out') auto
        show ?thesis
        proof (cases "is_in e")
          case True
          then show ?thesis using less.hyps[OF sh l(2), of "Some loc'" "Some e" out out'] h less.prems(3) nb l(1,3) a p
            by (simp add: is_in_def)
        next
          case False
          then show ?thesis using less.hyps[OF sh l(2), of i i' "Some loc'" "Some e"] h less.prems(2) nb l(1,3) a p
            by (simp add: is_in_def)
        qed
      qed
    qed
  qed
qed


definition desc_size :: "u8 list \<Rightarrow> u16" where
  "desc_size e = le16 (e ! 4) (e ! 5)"

lemma configure_holds:
  "holds mem loc e \<Longrightarrow> e ! 1 = DTYPE_Endpoint \<Longrightarrow> configure_data_pipe d c n tok mem loc u =
     do { (_, u) \<leftarrow> Pipe_ConfigurePipe d c n EP_TYPE_BULK tok (e ! 2) (desc_size e) u; Some u }"
  using holdsD(3)[of mem loc e] by (simp add: configure_data_pipe_def desc_size_def)

lemma choose_endpoints_in:
  assumes "choose_endpoints eps = Some (i, out)"
  shows "i \<in> set eps" "out \<in> set eps"
proof -
  obtain e es where e: "eps = e # es" using assms by (auto simp: choose_endpoints_def split: list.splits)
  let ?P = "\<lambda>x. is_in x = is_in e"
  define tw where "tw = takeWhile ?P eps"
  define dw where "dw = dropWhile ?P eps"
  have "choose_endpoints eps = (case dw of [] \<Rightarrow> None | f # _ \<Rightarrow> Some (if is_in e then (last tw, f) else (f, last tw)))"
    unfolding choose_endpoints_def tw_def dw_def by (simp only: e list.case Let_def)
  then obtain f fs where f: "dw = f # fs" "(i, out) = (if is_in e then (last tw, f) else (f, last tw))"
    using assms by (cases dw) auto
  have "f \<in> set eps" using f(1) unfolding dw_def by (metis list.set_intros(1) set_dropWhileD)
  moreover have "tw \<noteq> []" "set tw \<subseteq> set eps" using e by (auto simp: tw_def dest: set_takeWhileD)
  then have "last tw \<in> set eps" using last_in_set by blast
  ultimately show "i \<in> set eps" "out \<in> set eps" using f(2) by (auto split: if_splits)
qed

lemma process_config:
  assumes "USB_Host_GetDeviceConfigDescriptor d c 1 hdr0 cfg0 512 u = Some (HOST_GETCONFIG_Successful, Some (left ds), mem, u1)"
    and "mem = concat ds @ rest" "ds \<noteq> []" "\<forall>e \<in> set ds. desc_ok e" "length (concat ds) < 65536" "quiet mem (length (concat ds))"
  shows "ProcessConfigurationDescriptor d c hdr0 cfg0 u = (case accessory_endpoints ds of
      None \<Rightarrow> Some (NoCompatibleInterfaceFound, u1)
    | Some (i, out) \<Rightarrow> do {
        (_, u2) \<leftarrow> Pipe_ConfigurePipe d c ANDROID_DATA_IN_PIPE EP_TYPE_BULK PIPE_TOKEN_IN (i ! 2) (desc_size i) u1;
        (_, u3) \<leftarrow> Pipe_ConfigurePipe d c ANDROID_DATA_OUT_PIPE EP_TYPE_BULK PIPE_TOKEN_OUT (out ! 2) (desc_size out) u2;
        Some (SuccessfulConfigRead, u3)
      })"
proof -
  obtain d0 ds' where ds: "ds = d0 # ds'" using assms(3) by (cases ds) auto
  let ?n = "length (concat ds)"
  have l: "listed mem ?n 0 (d0 # ds')" using assms(2,4-6) ds by (auto simp: listed_def)
  let ?g = "\<lambda>e. if is_accessory e then DESCRIPTOR_SEARCH_Found else DESCRIPTOR_SEARCH_NotFound"
  obtain r rem loc where c: "USB_GetNextDescriptorComp DCOMP_NextAndroidAccessoryInterface mem (left ds) 0 = Some (r, rem, loc)"
    "case dropWhile (\<lambda>e. ?g e = DESCRIPTOR_SEARCH_NotFound) ds' of [] \<Rightarrow> r = DESCRIPTOR_SEARCH_COMP_EndOfDescriptor
     | e # es \<Rightarrow> r = ?g e \<and> (?g e \<noteq> DESCRIPTOR_SEARCH_Fail \<longrightarrow> rem = left (e # es) \<and> listed mem ?n loc (e # es))"
    using comp_find[where cmp = DCOMP_NextAndroidAccessoryInterface and g = ?g, OF l comp_interface comp_quiet(1)[OF assms(6)]]
    unfolding ds by blast
  have g: "(\<lambda>e. ?g e = DESCRIPTOR_SEARCH_NotFound) = (\<lambda>e. \<not> is_accessory e)" by auto
  show ?thesis
  proof (cases "dropWhile (\<lambda>e. \<not> is_accessory e) ds'")
    case Nil
    then have "r = DESCRIPTOR_SEARCH_COMP_EndOfDescriptor" "accessory_endpoints ds = None"
      using c(2) unfolding g by (simp_all add: accessory_endpoints_def ds del: dropWhile_eq_Nil_conv)
    then show ?thesis using assms(1) c(1) by (simp add: ProcessConfigurationDescriptor_def)
  next
    case (Cons e es)
    then have a: "is_accessory e" using hd_dropWhile[of "\<lambda>e. \<not> is_accessory e" ds'] by auto
    then have f: "r = DESCRIPTOR_SEARCH_Found" "rem = left (e # es)" "listed mem ?n loc (e # es)"
      using c(2) Cons unfolding g by simp_all
    let ?eps = "filter is_bulk (takeWhile (\<lambda>d. d ! 1 \<noteq> DTYPE_Interface) es)"
    have ae: "accessory_endpoints ds = choose_endpoints ?eps" using Cons by (simp add: accessory_endpoints_def ds)
    have "pick None None es = choose_endpoints ?eps"
      by (subst pick_filter) (rule pick_choose, simp)
    then obtain p where p: "endpoints_loop mem rem loc None None = Some p"
      "rel_option (rel_prod (holds mem) (holds mem)) p (choose_endpoints ?eps)"
      using endpoints_pick[OF f(3), of None None None None] f(2) by auto
    show ?thesis
    proof (cases "choose_endpoints ?eps")
      case None
      then show ?thesis using assms(1) c(1) f(1) p ae by (simp add: ProcessConfigurationDescriptor_def)
    next
      case (Some q)
      then obtain i out a b where q: "q = (i, out)" "p = Some (a, b)" "holds mem a i" "holds mem b out"
        using p(2) by (cases p; cases q) auto
      have "is_bulk i" "is_bulk out" using choose_endpoints_in Some q(1) by fastforce+
      then have "i ! 1 = DTYPE_Endpoint" "out ! 1 = DTYPE_Endpoint" by (simp_all add: is_bulk_def)
      then show ?thesis
        using assms(1) c(1) f(1) p(1) ae Some q(1,2)
        by (simp add: ProcessConfigurationDescriptor_def split_def configure_holds[OF q(3)] configure_holds[OF q(4)])
    qed
  qed
qed

text \<open>
  \<^bold>\<open>C8\<close>. On a configuration descriptor that was read without error,
  \<^verbatim>\<open>ProcessConfigurationDescriptor\<close> is equivalent to the reference over the list of descriptors: it
  finds the accessory interface, chooses its two bulk end points, and opens the data-in and the
  data-out pipe with the addresses and packet sizes stored in them; without such an interface or
  without an end point in each direction it reports that there is no compatible interface and opens
  nothing.
\<close>

theorem accessory_interface_equiv:
  assumes "USB_Host_GetDeviceConfigDescriptor d c 1 hdr0 cfg0 512 u = Some (HOST_GETCONFIG_Successful, Some (left ds), mem, u1)"
    and "mem = concat ds @ rest" "ds \<noteq> []" "\<forall>e \<in> set ds. desc_ok e" "length (concat ds) < 65536" "quiet mem (length (concat ds))"
  shows "ProcessConfigurationDescriptor d c hdr0 cfg0 u = (case accessory_endpoints ds of
      None \<Rightarrow> Some (NoCompatibleInterfaceFound, u1)
    | Some (i, out) \<Rightarrow> do {
        (_, u2) \<leftarrow> Pipe_ConfigurePipe d c ANDROID_DATA_IN_PIPE EP_TYPE_BULK PIPE_TOKEN_IN (i ! 2) (desc_size i) u1;
        (_, u3) \<leftarrow> Pipe_ConfigurePipe d c ANDROID_DATA_OUT_PIPE EP_TYPE_BULK PIPE_TOKEN_OUT (out ! 2) (desc_size out) u2;
        Some (SuccessfulConfigRead, u3)
      })"
  using assms by (rule process_config)

definition config32 :: "u8 list list" where
  "config32 = [[9, 2, 32, 0, 1, 1, 0, 0x80, 250], [9, 4, 0, 0, 2, 0xFF, 0xFF, 0, 0],
     [7, 5, 0x81, 2, 64, 0, 0], [7, 5, 0x02, 2, 64, 0, 0]]"

definition hcd_config :: "unit hcd" where
  "hcd_config = hcd_ideal\<lparr>HcdControlTransfer := (\<lambda>_ r p m h. (HCD_STATUS_OK,
     (let n = unat (wLength r) in take 4 m @ take n (concat config32) @ drop (4 + n) m), h))\<rparr>"

definition usb_control :: "unit usb" where
  "usb_control = (usb_idle ())\<lparr>usb_pool := replicate 36 0,
     PipeInfo := [(replicate 8 pipe0)[0 := pipe0\<lparr>Buffer := Some 4, BufferSize := 32\<rparr>]]\<rparr>"

lemma config32_read:
  "map_option (\<lambda>(e, total, mem, u). (e, total, mem))
     (USB_Host_GetDeviceConfigDescriptor hcd_config 0 1 (replicate 9 0) (replicate 512 0) 512 usb_control) =
   Some (HOST_GETCONFIG_Successful, Some (left config32), concat config32 @ replicate 480 0)"
  by code_simp

lemma config32_ok: "\<forall>e \<in> set config32. desc_ok e" "quiet (concat config32 @ replicate 480 0) (length (concat config32))"
    "length (concat config32) < 65536" "config32 \<noteq> []"
  by (simp_all add: config32_def desc_ok_def wf_desc_def quiet_def nth_append)

lemma config32_endpoints:
  "accessory_endpoints config32 = Some ([7, 5, 0x81, 2, 64, 0, 0], [7, 5, 0x02, 2, 64, 0, 0])"
  by code_simp

theorem accessory_interface_equiv_witness:
  "\<exists>u1. ProcessConfigurationDescriptor hcd_config 0 (replicate 9 0) (replicate 512 0) usb_control = do {
        (_, u2) \<leftarrow> Pipe_ConfigurePipe hcd_config 0 1 EP_TYPE_BULK PIPE_TOKEN_IN 0x81 64 u1;
        (_, u3) \<leftarrow> Pipe_ConfigurePipe hcd_config 0 2 EP_TYPE_BULK PIPE_TOKEN_OUT 2 64 u2;
        Some (SuccessfulConfigRead, u3) }"
proof -
  obtain u1 where "USB_Host_GetDeviceConfigDescriptor hcd_config 0 1 (replicate 9 0) (replicate 512 0) 512 usb_control =
     Some (HOST_GETCONFIG_Successful, Some (left config32), concat config32 @ replicate 480 0, u1)"
    using config32_read by auto
  from accessory_interface_equiv[OF this refl config32_ok(4,1,3,2)] show ?thesis
    unfolding config32_endpoints by (intro exI[of _ u1]) (simp add: desc_size_def le16_def)
qed

end
