(* ===== verification/CanDriver.thy ===== *)
theory CanDriver
  imports Interfaces Clkpwr
begin

unbundle bit_operations_syntax

text \<open>
  The CAN controller driver \<^verbatim>\<open>Lib_MCU/src/lpc17xx_can.c\<close>. The register blocks of
  \<^verbatim>\<open>LPC17xx.h\<close> are records of 32-bit words; a driver call maps the register file to the
  register file. A register that only the hardware changes (\<^verbatim>\<open>SR\<close>, \<^verbatim>\<open>GSR\<close>, \<^verbatim>\<open>ICR\<close>,
  the receive buffer) is an input of the call. The acceptance filter table is modelled in
  \<^verbatim>\<open>CanFilter\<close>.
\<close>

section \<open>Data\<close>

record CAN_MSG_Type =
  msg_id :: u32
  dataA :: "u8 list"
  dataB :: "u8 list"
  msg_len :: u8
  format :: u8
  msg_type :: u8

abbreviation (input) STD_ID_FORMAT :: u8 where "STD_ID_FORMAT \<equiv> 0"
abbreviation (input) EXT_ID_FORMAT :: u8 where "EXT_ID_FORMAT \<equiv> 1"
abbreviation (input) DATA_FRAME :: u8 where "DATA_FRAME \<equiv> 0"
abbreviation (input) REMOTE_FRAME :: u8 where "REMOTE_FRAME \<equiv> 1"

record LPC_CAN_TypeDef =
  MOD :: u32
  CMR :: u32
  GSR :: u32
  ICR :: u32
  IER :: u32
  BTR :: u32
  EWL :: u32
  SR :: u32
  RFS :: u32
  RID :: u32
  RDA :: u32
  RDB :: u32
  TFI1 :: u32
  TID1 :: u32
  TDA1 :: u32
  TDB1 :: u32
  TFI2 :: u32
  TID2 :: u32
  TDA2 :: u32
  TDB2 :: u32
  TFI3 :: u32
  TID3 :: u32
  TDA3 :: u32
  TDB3 :: u32

record LPC_CANAF_TypeDef =
  AFMR :: u32
  SFF_sa :: u32
  SFF_GRP_sa :: u32
  EFF_sa :: u32
  EFF_GRP_sa :: u32
  ENDofTable :: u32
  FCANIE :: u32
  FCANIC0 :: u32
  FCANIC1 :: u32

record LPC_CANCR_TypeDef =
  CANTxSR :: u32
  CANRxSR :: u32
  CANMSR :: u32

datatype CANx = CAN1 | CAN2

text \<open>
  The hardware the driver works on: two controllers, the acceptance filter with its RAM of
  512 words, the clock and power block, and the enabled interrupt numbers of the NVIC.
\<close>

record can_hw =
  LPC_CAN1 :: LPC_CAN_TypeDef
  LPC_CAN2 :: LPC_CAN_TypeDef
  LPC_CANAF :: LPC_CANAF_TypeDef
  CANAF_RAM_mask :: "u32 list"
  LPC_SC :: LPC_SC_TypeDef
  SystemCoreClock :: u32
  NVIC_enabled :: "nat set"

definition can_get :: "CANx \<Rightarrow> can_hw \<Rightarrow> LPC_CAN_TypeDef" where
  "can_get c h = (case c of CAN1 \<Rightarrow> LPC_CAN1 h | CAN2 \<Rightarrow> LPC_CAN2 h)"

definition can_upd :: "CANx \<Rightarrow> (LPC_CAN_TypeDef \<Rightarrow> LPC_CAN_TypeDef) \<Rightarrow> can_hw \<Rightarrow> can_hw" where
  "can_upd c f h = (case c of
     CAN1 \<Rightarrow> h\<lparr>LPC_CAN1 := f (LPC_CAN1 h)\<rparr>
   | CAN2 \<Rightarrow> h\<lparr>LPC_CAN2 := f (LPC_CAN2 h)\<rparr>)"

lemma can_get_upd [simp]:
  "can_get c (can_upd d f h) = (if c = d then f (can_get c h) else can_get c h)"
  by (cases c; cases d) (simp_all add: can_get_def can_upd_def)

section \<open>Sending\<close>

text \<open>
  Four data bytes packed little-endian into one data register
  (\<^verbatim>\<open>data = d[0] | d[1]<<8 | d[2]<<16 | d[3]<<24\<close>).
\<close>

definition pack_data :: "u8 list \<Rightarrow> u32" where
  "pack_data d = ucast (d ! 0) OR push_bit 8 (ucast (d ! 1)) OR push_bit 16 (ucast (d ! 2))
     OR push_bit 24 (ucast (d ! 3))"

text \<open>The read-modify-write sequence on a frame information register \<^verbatim>\<open>TFIx\<close>.\<close>

definition tfi_update :: "CAN_MSG_Type \<Rightarrow> u32 \<Rightarrow> u32" where
  "tfi_update m w =
     (let w1 = w AND NOT 0xF0000;
          w2 = w1 OR push_bit 16 (ucast (msg_len m));
          w3 = (if msg_type m = REMOTE_FRAME then w2 OR push_bit 30 1 else w2 AND NOT (push_bit 30 1))
      in if format m = EXT_ID_FORMAT then w3 OR push_bit 31 1 else w3 AND NOT (push_bit 31 1))"

definition CAN_SendMsg :: "CANx \<Rightarrow> CAN_MSG_Type \<Rightarrow> can_hw \<Rightarrow> (Status \<times> can_hw) option" where
  "CAN_SendMsg c m h = do {
     CHECK_PARAM (format m = STD_ID_FORMAT \<or> format m = EXT_ID_FORMAT);
     (if format m = STD_ID_FORMAT
      then CHECK_PARAM (drop_bit 11 (msg_id m) = 0)
      else CHECK_PARAM (drop_bit 29 (msg_id m) = 0));
     CHECK_PARAM (drop_bit 4 (msg_len m) = 0);
     CHECK_PARAM (msg_type m = DATA_FRAME \<or> msg_type m = REMOTE_FRAME);
     (if drop_bit 2 (SR (can_get c h) AND 4) \<noteq> 0 then
        Some (SUCCESS, can_upd c (\<lambda>r. r\<lparr>TFI1 := tfi_update m (TFI1 r), TID1 := msg_id m,
          TDA1 := pack_data (dataA m), TDB1 := pack_data (dataB m), CMR := 0x21\<rparr>) h)
      else if drop_bit 10 (SR (can_get c h) AND 4) \<noteq> 0 then
        Some (SUCCESS, can_upd c (\<lambda>r. r\<lparr>TFI2 := tfi_update m (TFI2 r), TID2 := msg_id m,
          TDA2 := pack_data (dataA m), TDB2 := pack_data (dataB m), CMR := 0x41\<rparr>) h)
      else if drop_bit 18 (SR (can_get c h) AND 4) \<noteq> 0 then
        Some (SUCCESS, can_upd c (\<lambda>r. r\<lparr>TFI3 := tfi_update m (TFI3 r), TID3 := msg_id m,
          TDA3 := pack_data (dataA m), TDB3 := pack_data (dataB m), CMR := 0x81\<rparr>) h)
      else Some (ERROR, h))
   }"

section \<open>Receiving\<close>

definition unpack_data :: "u32 \<Rightarrow> u8 list" where
  "unpack_data w = [ucast (w AND 0x000000FF), ucast (drop_bit 8 (w AND 0x0000FF00)),
     ucast (drop_bit 16 (w AND 0x00FF0000)), ucast (drop_bit 24 (w AND 0xFF000000))]"

definition CAN_ReceiveMsg ::
  "CANx \<Rightarrow> CAN_MSG_Type \<Rightarrow> can_hw \<Rightarrow> Status \<times> CAN_MSG_Type \<times> can_hw" where
  "CAN_ReceiveMsg c m h =
     (let r = can_get c h in
      if SR r AND 1 \<noteq> 0 then
        let m1 = m\<lparr>format := ucast (drop_bit 31 (RFS r AND 0x80000000)),
                   msg_type := ucast (drop_bit 30 (RFS r AND 0x40000000)),
                   msg_len := ucast (drop_bit 16 (RFS r AND 0x000F0000)),
                   msg_id := RID r\<rparr>
        in if msg_type m1 = DATA_FRAME
           then (SUCCESS, m1\<lparr>dataA := unpack_data (RDA r), dataB := unpack_data (RDB r)\<rparr>,
                 can_upd c (\<lambda>r. r\<lparr>CMR := 0x04\<rparr>) h)
           else (SUCCESS, m1, h)
      else (ERROR, m, h))"

section \<open>Status, interrupt enable, modes\<close>

datatype CAN_CTRL_STS_Type = CANCTRL_GLOBAL_STS | CANCTRL_INT_CAP | CANCTRL_ERR_WRN | CANCTRL_STS

definition CAN_GetCTRLStatus :: "CANx \<Rightarrow> CAN_CTRL_STS_Type \<Rightarrow> can_hw \<Rightarrow> u32" where
  "CAN_GetCTRLStatus c arg h = (case arg of
     CANCTRL_GLOBAL_STS \<Rightarrow> GSR (can_get c h)
   | CANCTRL_INT_CAP \<Rightarrow> ICR (can_get c h)
   | CANCTRL_ERR_WRN \<Rightarrow> EWL (can_get c h)
   | CANCTRL_STS \<Rightarrow> SR (can_get c h))"

datatype CAN_CR_STS_Type = CANCR_TX_STS | CANCR_RX_STS | CANCR_MS

definition CAN_GetCRStatus :: "LPC_CANCR_TypeDef \<Rightarrow> CAN_CR_STS_Type \<Rightarrow> u32" where
  "CAN_GetCRStatus cr arg = (case arg of
     CANCR_TX_STS \<Rightarrow> CANTxSR cr | CANCR_RX_STS \<Rightarrow> CANRxSR cr | CANCR_MS \<Rightarrow> CANMSR cr)"

datatype CAN_INT_EN_Type =
    CANINT_RIE | CANINT_TIE1 | CANINT_EIE | CANINT_DOIE | CANINT_WUIE | CANINT_EPIE
  | CANINT_ALIE | CANINT_BEIE | CANINT_IDIE | CANINT_TIE2 | CANINT_TIE3 | CANINT_FCE

fun canint_num :: "CAN_INT_EN_Type \<Rightarrow> nat" where
  "canint_num CANINT_RIE = 0"
| "canint_num CANINT_TIE1 = 1"
| "canint_num CANINT_EIE = 2"
| "canint_num CANINT_DOIE = 3"
| "canint_num CANINT_WUIE = 4"
| "canint_num CANINT_EPIE = 5"
| "canint_num CANINT_ALIE = 6"
| "canint_num CANINT_BEIE = 7"
| "canint_num CANINT_IDIE = 8"
| "canint_num CANINT_TIE2 = 9"
| "canint_num CANINT_TIE3 = 10"
| "canint_num CANINT_FCE = 11"

definition CAN_IRQCmd :: "CANx \<Rightarrow> CAN_INT_EN_Type \<Rightarrow> FunctionalState \<Rightarrow> can_hw \<Rightarrow> can_hw" where
  "CAN_IRQCmd c arg NewState h =
     (if NewState = ENABLE then
        if arg = CANINT_FCE
        then h\<lparr>LPC_CANAF := (LPC_CANAF h)\<lparr>AFMR := 0x01, FCANIE := 0x01, AFMR := 0x04\<rparr>\<rparr>
        else can_upd c (\<lambda>r. r\<lparr>IER := IER r OR push_bit (canint_num arg) 1\<rparr>) h
      else
        if arg = CANINT_FCE
        then h\<lparr>LPC_CANAF := (LPC_CANAF h)\<lparr>AFMR := 0x01, FCANIE := 0x01, AFMR := 0x00\<rparr>\<rparr>
        else can_upd c (\<lambda>r. r\<lparr>IER := IER r AND NOT (push_bit (canint_num arg) 1)\<rparr>) h)"

datatype CAN_AFMODE_Type = CAN_Normal | CAN_AccOff | CAN_AccBP | CAN_eFCAN

definition CAN_SetAFMode :: "CAN_AFMODE_Type \<Rightarrow> can_hw \<Rightarrow> can_hw" where
  "CAN_SetAFMode m h = h\<lparr>LPC_CANAF := (LPC_CANAF h)\<lparr>AFMR := (case m of
     CAN_Normal \<Rightarrow> 0x00 | CAN_AccOff \<Rightarrow> 0x01 | CAN_AccBP \<Rightarrow> 0x02 | CAN_eFCAN \<Rightarrow> 0x04)\<rparr>\<rparr>"

datatype CAN_MODE_Type =
    CAN_OPERATING_MODE | CAN_RESET_MODE | CAN_LISTENONLY_MODE | CAN_SELFTEST_MODE
  | CAN_TXPRIORITY_MODE | CAN_SLEEP_MODE | CAN_RXPOLARITY_MODE | CAN_TEST_MODE

abbreviation (input) CAN_MOD_RM :: u32 where "CAN_MOD_RM \<equiv> 0x01"
abbreviation (input) CAN_MOD_LOM :: u32 where "CAN_MOD_LOM \<equiv> 0x02"
abbreviation (input) CAN_MOD_STM :: u32 where "CAN_MOD_STM \<equiv> 0x04"
abbreviation (input) CAN_MOD_TPM :: u32 where "CAN_MOD_TPM \<equiv> 0x08"
abbreviation (input) CAN_MOD_SM :: u32 where "CAN_MOD_SM \<equiv> 0x10"
abbreviation (input) CAN_MOD_RPM :: u32 where "CAN_MOD_RPM \<equiv> 0x20"
abbreviation (input) CAN_MOD_TM :: u32 where "CAN_MOD_TM \<equiv> 0x80"

definition set_mode_bit :: "FunctionalState \<Rightarrow> u32 \<Rightarrow> u32 \<Rightarrow> u32" where
  "set_mode_bit st b w = (if st = ENABLE then w OR b else w AND NOT b)"

definition CAN_ModeConfig :: "CANx \<Rightarrow> CAN_MODE_Type \<Rightarrow> FunctionalState \<Rightarrow> can_hw \<Rightarrow> can_hw" where
  "CAN_ModeConfig c mode st h = can_upd c (\<lambda>r. r\<lparr>MOD := (case mode of
       CAN_OPERATING_MODE \<Rightarrow> 0x00
     | CAN_RESET_MODE \<Rightarrow> set_mode_bit st CAN_MOD_RM (MOD r)
     | CAN_LISTENONLY_MODE \<Rightarrow> set_mode_bit st CAN_MOD_LOM (MOD r OR CAN_MOD_RM)
     | CAN_SELFTEST_MODE \<Rightarrow> set_mode_bit st CAN_MOD_STM (MOD r OR CAN_MOD_RM)
     | CAN_TXPRIORITY_MODE \<Rightarrow> set_mode_bit st CAN_MOD_TPM (MOD r)
     | CAN_SLEEP_MODE \<Rightarrow> set_mode_bit st CAN_MOD_SM (MOD r)
     | CAN_RXPOLARITY_MODE \<Rightarrow> set_mode_bit st CAN_MOD_RPM (MOD r)
     | CAN_TEST_MODE \<Rightarrow> set_mode_bit st CAN_MOD_TM (MOD r))\<rparr>) h"

section \<open>Interrupt call-backs\<close>

text \<open>
  \<^verbatim>\<open>_apfnCANCbs\<close> is a table of 12 optional call-backs; a call-back is a function on a client
  state. Calling an entry that is not installed is a call through a null pointer:
  \<^const>\<open>None\<close>. \<^verbatim>\<open>ICR\<close> is read once per tested bit; \<open>icr\<close> gives the value of each read.
\<close>

type_synonym 's can_cbs = "('s \<Rightarrow> 's) option list"

definition CAN_SetupCBS :: "CAN_INT_EN_Type \<Rightarrow> ('s \<Rightarrow> 's) option \<Rightarrow> 's can_cbs \<Rightarrow> 's can_cbs" where
  "CAN_SetupCBS arg f cbs = cbs[canint_num arg := f]"

definition call_cb :: "'s can_cbs \<Rightarrow> nat \<Rightarrow> 's \<Rightarrow> 's option" where
  "call_cb cbs t s = (case cbs ! t of None \<Rightarrow> None | Some f \<Rightarrow> Some (f s))"

fun int_scan :: "'s can_cbs \<Rightarrow> (nat \<Rightarrow> u32) \<Rightarrow> nat list \<Rightarrow> 's \<Rightarrow> 's option" where
  "int_scan cbs icr [] s = Some s"
| "int_scan cbs icr (t # ts) s =
     (if drop_bit t (icr t) AND 1 \<noteq> 0
      then (case call_cb cbs t s of None \<Rightarrow> None | Some s' \<Rightarrow> int_scan cbs icr ts s')
      else int_scan cbs icr ts s)"

definition CAN_IntHandler :: "u32 \<Rightarrow> (nat \<Rightarrow> u32) \<Rightarrow> 's can_cbs \<Rightarrow> 's \<Rightarrow> 's option" where
  "CAN_IntHandler fcanie icr cbs s =
     (case (if fcanie \<noteq> 0 then call_cb cbs 11 s else Some s) of
        None \<Rightarrow> None
      | Some s' \<Rightarrow> int_scan cbs icr [0..<11] s')"

section \<open>Bit timing and initialisation\<close>

abbreviation (input) CLKPWR_PCONP_PCAN1 :: u32 where "CLKPWR_PCONP_PCAN1 \<equiv> 0x2000"
abbreviation (input) CLKPWR_PCONP_PCAN2 :: u32 where "CLKPWR_PCONP_PCAN2 \<equiv> 0x4000"
abbreviation (input) CLKPWR_PCLKSEL_CAN1 :: u32 where "CLKPWR_PCLKSEL_CAN1 \<equiv> 26"
abbreviation (input) CLKPWR_PCLKSEL_CAN2 :: u32 where "CLKPWR_PCLKSEL_CAN2 \<equiv> 28"

definition CAN_BIT_TIME :: "u32 list" where
  "CAN_BIT_TIME = [0, 0, 0, 0, 0x0001C000, 0, 0x0012C000, 0, 0x0023C000, 0, 0x0025C000, 0,
     0x0036C000, 0, 0, 0x0048C000, 0x0049C000]"

definition nominal_time :: "u32 \<Rightarrow> u32 \<Rightarrow> nat" where
  "nominal_time CANPclk baudrate =
     (if baudrate \<le> 500000 then 12
      else if (CANPclk div 1000000) mod 15 = 0 then 15
      else if (CANPclk div 1000000) mod 16 = 0 then 16
      else 10)"

text \<open>A division by a zero baud rate has no defined result in C: \<^const>\<open>None\<close>.\<close>

definition CAN_SetBaudRate :: "CANx \<Rightarrow> u32 \<Rightarrow> can_hw \<Rightarrow> can_hw option" where
  "CAN_SetBaudRate c baudrate h =
     (let CANPclk = CLKPWR_GetPCLK (SystemCoreClock h)
            (case c of CAN1 \<Rightarrow> CLKPWR_PCONP_PCAN1 | CAN2 \<Rightarrow> CLKPWR_PCONP_PCAN2) (LPC_SC h);
          nt = nominal_time CANPclk baudrate
      in if baudrate = 0 then None
         else let result = (CANPclk div word_of_nat nt) div baudrate - 1;
                  result1 = result AND 0x3FF;
                  result2 = result1 OR CAN_BIT_TIME ! nt
              in Some (can_upd c (\<lambda>r. r\<lparr>MOD := 0x01, BTR := result2, MOD := 0\<rparr>) h))"

definition CAN_Init :: "CANx \<Rightarrow> u32 \<Rightarrow> can_hw \<Rightarrow> can_hw option" where
  "CAN_Init c baudrate h =
     (let pp = (case c of CAN1 \<Rightarrow> CLKPWR_PCONP_PCAN1 | CAN2 \<Rightarrow> CLKPWR_PCONP_PCAN2);
          h1 = h\<lparr>LPC_SC := CLKPWR_SetPCLKDiv pp CLKPWR_PCLKSEL_CCLK_DIV_4
                  (CLKPWR_ConfigPPWR pp ENABLE (LPC_SC h))\<rparr>;
          h2 = can_upd c (\<lambda>r. r\<lparr>MOD := 1, IER := 0, GSR := 0, CMR := 0x0E, MOD := 0\<rparr>) h1;
          h3 = h2\<lparr>LPC_CANAF := (LPC_CANAF h2)\<lparr>AFMR := 0x01\<rparr>,
                  CANAF_RAM_mask := replicate 512 0\<rparr>;
          h4 = h3\<lparr>LPC_CANAF := (LPC_CANAF h3)\<lparr>SFF_sa := 0, SFF_GRP_sa := 0, EFF_sa := 0,
                  EFF_GRP_sa := 0, ENDofTable := 0, AFMR := 0x00\<rparr>\<rparr>
      in CAN_SetBaudRate c baudrate h4)"

definition CAN_DeInit :: "CANx \<Rightarrow> can_hw \<Rightarrow> can_hw" where
  "CAN_DeInit c h = h\<lparr>LPC_SC := CLKPWR_ConfigPPWR
     (case c of CAN1 \<Rightarrow> CLKPWR_PCONP_PCAN1 | CAN2 \<Rightarrow> CLKPWR_PCONP_PCAN2) DISABLE (LPC_SC h)\<rparr>"

section \<open>Frame lemmas\<close>

lemma can_upd_other [simp]:
  "CANAF_RAM_mask (can_upd c f h) = CANAF_RAM_mask h" "LPC_CANAF (can_upd c f h) = LPC_CANAF h"
  "NVIC_enabled (can_upd c f h) = NVIC_enabled h"
  by (cases c; simp add: can_upd_def)+

lemma can_get_other [simp]:
  "can_get c (h\<lparr>LPC_CANAF := x\<rparr>) = can_get c h" "can_get c (h\<lparr>CANAF_RAM_mask := y\<rparr>) = can_get c h"
  "can_get c (h\<lparr>LPC_SC := z\<rparr>) = can_get c h" "can_get c (h\<lparr>NVIC_enabled := v\<rparr>) = can_get c h"
  by (cases c; simp add: can_get_def)+

lemma CAN_SetBaudRate_Some:
  assumes "baud \<noteq> 0"
  shows "\<exists>b. CAN_SetBaudRate c baud h = Some (can_upd c (\<lambda>r. r\<lparr>BTR := b, MOD := 0\<rparr>) h)"
  using assms by (simp add: CAN_SetBaudRate_def Let_def) blast

lemma CAN_Init_Some:
  assumes "baud \<noteq> 0"
  obtains h' where "CAN_Init c baud h = Some h'" "CANAF_RAM_mask h' = replicate 512 0"
    "LPC_CANAF h' = (LPC_CANAF h)\<lparr>SFF_sa := 0, SFF_GRP_sa := 0, EFF_sa := 0, EFF_GRP_sa := 0,
       ENDofTable := 0, AFMR := 0\<rparr>"
    "IER (can_get c h') = 0" "MOD (can_get c h') = 0"
    "\<And>d. d \<noteq> c \<Longrightarrow> can_get d h' = can_get d h" "NVIC_enabled h' = NVIC_enabled h"
proof -
  obtain k b where k: "CAN_Init c baud h = Some (can_upd c (\<lambda>r. r\<lparr>BTR := b, MOD := 0\<rparr>) k)"
    "CANAF_RAM_mask k = replicate 512 0"
    "LPC_CANAF k = (LPC_CANAF h)\<lparr>SFF_sa := 0, SFF_GRP_sa := 0, EFF_sa := 0, EFF_GRP_sa := 0,
       ENDofTable := 0, AFMR := 0\<rparr>"
    "IER (can_get c k) = 0" "\<And>d. d \<noteq> c \<Longrightarrow> can_get d k = can_get d h" "NVIC_enabled k = NVIC_enabled h"
  proof -
    define k where "k = (let pp = (case c of CAN1 \<Rightarrow> CLKPWR_PCONP_PCAN1 | CAN2 \<Rightarrow> CLKPWR_PCONP_PCAN2);
          h1 = h\<lparr>LPC_SC := CLKPWR_SetPCLKDiv pp CLKPWR_PCLKSEL_CCLK_DIV_4
                  (CLKPWR_ConfigPPWR pp ENABLE (LPC_SC h))\<rparr>;
          h2 = can_upd c (\<lambda>r. r\<lparr>MOD := 1, IER := 0, GSR := 0, CMR := 0x0E, MOD := 0\<rparr>) h1;
          h3 = h2\<lparr>LPC_CANAF := (LPC_CANAF h2)\<lparr>AFMR := 0x01\<rparr>,
                  CANAF_RAM_mask := replicate 512 0\<rparr>
      in h3\<lparr>LPC_CANAF := (LPC_CANAF h3)\<lparr>SFF_sa := 0, SFF_GRP_sa := 0, EFF_sa := 0,
                  EFF_GRP_sa := 0, ENDofTable := 0, AFMR := 0x00\<rparr>\<rparr>)"
    obtain b where b: "CAN_SetBaudRate c baud k = Some (can_upd c (\<lambda>r. r\<lparr>BTR := b, MOD := 0\<rparr>) k)"
      using CAN_SetBaudRate_Some[OF assms] by blast
    moreover have "CAN_Init c baud h = CAN_SetBaudRate c baud k"
      by (simp only: CAN_Init_def k_def Let_def)
    ultimately have e: "CAN_Init c baud h = Some (can_upd c (\<lambda>r. r\<lparr>BTR := b, MOD := 0\<rparr>) k)" by simp
    show ?thesis
      by (rule that[OF e]) (simp_all add: k_def Let_def)
  qed
  then show ?thesis by (intro that[OF k(1)]) auto
qed

text \<open>A register file with every register zero, for evaluating the model on concrete inputs.\<close>

definition can_regs0 :: LPC_CAN_TypeDef where
  "can_regs0 = \<lparr>MOD = 0, CMR = 0, GSR = 0, ICR = 0, IER = 0, BTR = 0, EWL = 0, SR = 0, RFS = 0,
     RID = 0, RDA = 0, RDB = 0, TFI1 = 0, TID1 = 0, TDA1 = 0, TDB1 = 0, TFI2 = 0, TID2 = 0,
     TDA2 = 0, TDB2 = 0, TFI3 = 0, TID3 = 0, TDA3 = 0, TDB3 = 0\<rparr>"

definition can_hw0 :: can_hw where
  "can_hw0 = \<lparr>LPC_CAN1 = can_regs0, LPC_CAN2 = can_regs0,
     LPC_CANAF = \<lparr>AFMR = 0, SFF_sa = 0, SFF_GRP_sa = 0, EFF_sa = 0, EFF_GRP_sa = 0, ENDofTable = 0,
       FCANIE = 0, FCANIC0 = 0, FCANIC1 = 0\<rparr>,
     CANAF_RAM_mask = replicate 512 0, LPC_SC = \<lparr>PCLKSEL0 = 0, PCLKSEL1 = 0, PCONP = 0\<rparr>,
     SystemCoreClock = 100000000, NVIC_enabled = {}\<rparr>"

section \<open>Bit-level lemmas\<close>

lemma mask_shifted:
  "(0xFF00 :: u32) = push_bit 8 (mask 8)" "(0xFF0000 :: u32) = push_bit 16 (mask 8)"
  "(0xFF000000 :: u32) = push_bit 24 (mask 8)" "(0xF0000 :: u32) = push_bit 16 (mask 4)"
  "(0x80000000 :: u32) = push_bit 31 1" "(0x40000000 :: u32) = push_bit 30 1"
  by (simp_all add: mask_eq_exp_minus_1)

lemma bit_u8_ge: "8 \<le> n \<Longrightarrow> \<not> bit (a :: u8) n"
  by (auto dest: bit_imp_le_length)

lemma unpack_alt: "unpack_data w = [ucast w, ucast (drop_bit 8 w), ucast (drop_bit 16 w), ucast (drop_bit 24 w)]"
  unfolding unpack_data_def mask_shifted
  by (auto intro!: bit_word_eqI simp: bit_simps)

lemma unpack_pack: assumes "length d = 4" shows "unpack_data (pack_data d) = d"
proof -
  from assms obtain a b c e where "d = [a,b,c,e]" by (rule list4_cases)
  then show ?thesis unfolding unpack_alt pack_data_def
  by (auto intro!: bit_word_eqI simp: bit_simps bit_u8_ge)
qed

lemma pack_unpack: "pack_data (unpack_data w) = w"
proof (rule bit_word_eqI)
  fix n assume "n < LENGTH(32)"
  then consider "n < 8" | "8 \<le> n" "n < 16" | "16 \<le> n" "n < 24" | "24 \<le> n" "n < 32"
    by fastforce
  then show "bit (pack_data (unpack_data w)) n = bit w n"
    by cases (auto simp: unpack_alt pack_data_def bit_simps)
qed


interpretation candata: codec unpack_data pack_data 4
  by unfold_locales (simp add: unpack_data_def, rule pack_unpack, rule unpack_pack)

lemma bit_single:
  "bit (0x40000000 :: u32) n \<longleftrightarrow> n = 30" "bit (0x80000000 :: u32) n \<longleftrightarrow> n = 31" "bit (4 :: u32) n \<longleftrightarrow> n = 2"
proof -
  have eqs: "(0x40000000 :: u32) = 2 ^ 30" "(0x80000000 :: u32) = 2 ^ 31" "(4 :: u32) = 2 ^ 2" by simp_all
  show "bit (0x40000000 :: u32) n \<longleftrightarrow> n = 30" "bit (0x80000000 :: u32) n \<longleftrightarrow> n = 31" "bit (4 :: u32) n \<longleftrightarrow> n = 2"
    unfolding eqs bit_exp_iff by auto
qed

lemma bit_len_ge: "drop_bit 4 (x :: u8) = 0 \<Longrightarrow> 4 \<le> n \<Longrightarrow> \<not> bit x n"
proof -
  assume "drop_bit 4 x = 0" "4 \<le> n"
  then have "bit (drop_bit 4 x) (n - 4) = False" by simp
  then show ?thesis using \<open>4 \<le> n\<close> by (simp add: bit_simps)
qed

lemma bit_tfi_update: "drop_bit 4 (msg_len m) = 0 \<Longrightarrow> n < 32 \<Longrightarrow> bit (tfi_update m w) n =
   (if n = 31 then format m = EXT_ID_FORMAT else if n = 30 then msg_type m = REMOTE_FRAME
    else if 16 \<le> n \<and> n < 20 then bit (msg_len m) (n - 16) else bit w n)"
  unfolding tfi_update_def Let_def mask_shifted(4)
  by (auto simp: bit_simps bit_1_iff bit_u8_ge bit_len_ge simp del: push_bit_of_1)
lemma tfi_len: "drop_bit 4 (msg_len m) = 0 \<Longrightarrow> ucast (drop_bit 16 (tfi_update m w AND 0x000F0000)) = msg_len m"
  unfolding mask_shifted(4)
  by (rule bit_word_eqI) (auto simp: bit_simps bit_tfi_update not_less bit_len_ge)
lemma tfi_type: "msg_type m = 0 \<or> msg_type m = 1 \<Longrightarrow> drop_bit 4 (msg_len m) = 0 \<Longrightarrow> (ucast (drop_bit 30 (tfi_update m w AND 0x40000000)) :: u8) = msg_type m"
  by (rule bit_word_eqI) (auto simp: bit_simps bit_single bit_tfi_update)
lemma tfi_fmt: "format m = 0 \<or> format m = 1 \<Longrightarrow> drop_bit 4 (msg_len m) = 0 \<Longrightarrow> (ucast (drop_bit 31 (tfi_update m w AND 0x80000000)) :: u8) = format m"
  by (rule bit_word_eqI) (auto simp: bit_simps bit_single bit_tfi_update)

lemma tx_other: "drop_bit 10 (x AND 4 :: u32) = 0" "drop_bit 18 (x AND 4 :: u32) = 0"
  by (rule bit_word_eqI; simp add: bit_simps bit_single)+

lemma word_neq_0_iff: "(x :: 'a :: len word) \<noteq> 0 \<longleftrightarrow> (\<exists>n. bit x n)"
  using bit_eq_iff[of x 0] by auto

lemma tx1: "drop_bit 2 (x AND 4 :: u32) \<noteq> 0 \<longleftrightarrow> bit x 2"
  by (auto simp: word_neq_0_iff bit_simps bit_single numeral_2_eq_2)

lemma rx1: "(x AND 1 :: u32) \<noteq> 0 \<longleftrightarrow> bit x 0"
  by (auto simp: word_neq_0_iff bit_simps)

section \<open>Functional behaviour of the driver\<close>

definition msg_wf :: "CAN_MSG_Type \<Rightarrow> bool" where
  "msg_wf m \<longleftrightarrow> length (dataA m) = 4 \<and> length (dataB m) = 4 \<and>
     (format m = STD_ID_FORMAT \<and> drop_bit 11 (msg_id m) = 0 \<or>
      format m = EXT_ID_FORMAT \<and> drop_bit 29 (msg_id m) = 0) \<and>
     drop_bit 4 (msg_len m) = 0 \<and> (msg_type m = DATA_FRAME \<or> msg_type m = REMOTE_FRAME)"

definition load_tx1 :: "CAN_MSG_Type \<Rightarrow> LPC_CAN_TypeDef \<Rightarrow> LPC_CAN_TypeDef" where
  "load_tx1 m r = r\<lparr>TFI1 := tfi_update m (TFI1 r), TID1 := msg_id m,
     TDA1 := pack_data (dataA m), TDB1 := pack_data (dataB m), CMR := 0x21\<rparr>"

lemma CAN_SendMsg_eq:
  assumes "msg_wf m"
  shows "CAN_SendMsg c m h =
    (if bit (SR (can_get c h)) 2 then Some (SUCCESS, can_upd c (load_tx1 m) h) else Some (ERROR, h))"
  using assms unfolding CAN_SendMsg_def tx1 tx_other msg_wf_def
  by (auto simp: load_tx1_def[abs_def])

lemma CAN_SendMsg_returns_iff:
  assumes "length (dataA m) = 4" "length (dataB m) = 4"
  shows "CAN_SendMsg c m h \<noteq> None \<longleftrightarrow> msg_wf m"
  using assms by (auto simp: CAN_SendMsg_def msg_wf_def CHECK_PARAM_def split: if_splits)

definition rfs_msg :: "LPC_CAN_TypeDef \<Rightarrow> CAN_MSG_Type \<Rightarrow> CAN_MSG_Type" where
  "rfs_msg r m = m\<lparr>format := of_bool (bit (RFS r) 31), msg_type := of_bool (bit (RFS r) 30),
     msg_len := ucast (take_bit 4 (drop_bit 16 (RFS r))), msg_id := RID r\<rparr>"

lemma rfs_fields:
  "ucast (drop_bit 31 (w AND 0x80000000 :: u32)) = (of_bool (bit w 31) :: u8)"
  "ucast (drop_bit 30 (w AND 0x40000000 :: u32)) = (of_bool (bit w 30) :: u8)"
  "ucast (drop_bit 16 (w AND 0x000F0000 :: u32)) = (ucast (take_bit 4 (drop_bit 16 w)) :: u8)"
proof -
  have top: "bit w (31 + n) \<Longrightarrow> n = 0" for n
    using bit_imp_le_length[of w "31 + n"] by simp
  show "ucast (drop_bit 31 (w AND 0x80000000 :: u32)) = (of_bool (bit w 31) :: u8)"
    by (rule bit_word_eqI) (auto simp: bit_simps bit_single dest: top)
  show "ucast (drop_bit 30 (w AND 0x40000000 :: u32)) = (of_bool (bit w 30) :: u8)"
    by (rule bit_word_eqI) (auto simp: bit_simps bit_single intro!: Nat.gr0I)
  show "ucast (drop_bit 16 (w AND 0x000F0000 :: u32)) = (ucast (take_bit 4 (drop_bit 16 w)) :: u8)"
    unfolding mask_shifted(4) by (rule bit_word_eqI) (auto simp: bit_simps)
qed

lemma CAN_ReceiveMsg_alt:
  "CAN_ReceiveMsg c m h =
     (let r = can_get c h in
      if bit (SR r) 0 then
        if bit (RFS r) 30 then (SUCCESS, rfs_msg r m, h)
        else (SUCCESS, (rfs_msg r m)\<lparr>dataA := unpack_data (RDA r), dataB := unpack_data (RDB r)\<rparr>,
                 can_upd c (\<lambda>r. r\<lparr>CMR := 0x04\<rparr>) h)
      else (ERROR, m, h))"
  unfolding CAN_ReceiveMsg_def rx1 rfs_fields Let_def rfs_msg_def by (simp add: of_bool_def)

lemma rfs_msg_tfi:
  assumes "msg_wf m" "RFS r = tfi_update m w" "RID r = msg_id m"
  shows "rfs_msg r m0 = m0\<lparr>format := format m, msg_type := msg_type m, msg_len := msg_len m, msg_id := msg_id m\<rparr>"
proof -
  have "ucast (take_bit 4 (drop_bit 16 (tfi_update m w))) = msg_len m"
    using assms(1) tfi_len[of m w] by (simp only: rfs_fields msg_wf_def)
  then show ?thesis
    using assms by (auto simp: rfs_msg_def bit_tfi_update msg_wf_def)
qed

text \<open>
  \<^bold>\<open>C23\<close>. A data frame that passes the parameter checks and is handed to \<^verbatim>\<open>CAN_SendMsg\<close> while
  transmit buffer 1 is free is accepted, and a controller that finds the transmitted registers in
  its receive buffer makes \<^verbatim>\<open>CAN_ReceiveMsg\<close> return exactly that message and release the buffer.
\<close>

theorem send_receive_roundtrip:
  assumes "msg_wf m" "msg_type m = DATA_FRAME" "bit (SR (can_get c h)) 2"
    and "CAN_SendMsg c m h = Some (st, h')"
    and "bit (SR (can_get d k)) 0"
    and "RFS (can_get d k) = TFI1 (can_get c h')" "RID (can_get d k) = TID1 (can_get c h')"
    and "RDA (can_get d k) = TDA1 (can_get c h')" "RDB (can_get d k) = TDB1 (can_get c h')"
  shows "st = SUCCESS \<and> CAN_ReceiveMsg d m0 k = (SUCCESS, m, can_upd d (\<lambda>r. r\<lparr>CMR := 0x04\<rparr>) k)"
proof -
  have st: "st = SUCCESS" "h' = can_upd c (load_tx1 m) h"
    using assms(1,3,4) by (simp_all add: CAN_SendMsg_eq)
  have rx: "RFS (can_get d k) = tfi_update m (TFI1 (can_get c h))" "RID (can_get d k) = msg_id m"
    "RDA (can_get d k) = pack_data (dataA m)" "RDB (can_get d k) = pack_data (dataB m)"
    using assms(6-9) st by (simp_all add: load_tx1_def)
  have "\<not> bit (RFS (can_get d k)) 30"
    using assms(1,2) rx by (simp add: bit_tfi_update msg_wf_def)
  then show ?thesis
    using st assms(1,2,5) rfs_msg_tfi[OF assms(1) rx(1,2)]
    by (simp add: CAN_ReceiveMsg_alt rx unpack_pack msg_wf_def)
qed

theorem send_receive_roundtrip_witness:
  "CAN_ReceiveMsg CAN2 \<lparr>msg_id = 0, dataA = [0, 0, 0, 0], dataB = [0, 0, 0, 0], msg_len = 0, format = 0, msg_type = 0\<rparr>
     (can_hw0\<lparr>LPC_CAN2 := can_regs0\<lparr>SR := 1, RFS := 0x80000, RID := 0x123, RDA := 0x04030201, RDB := 0x08070605\<rparr>\<rparr>) =
   (SUCCESS, \<lparr>msg_id = 0x123, dataA = [1, 2, 3, 4], dataB = [5, 6, 7, 8], msg_len = 8, format = 0, msg_type = 0\<rparr>,
     can_hw0\<lparr>LPC_CAN2 := can_regs0\<lparr>SR := 1, RFS := 0x80000, RID := 0x123, RDA := 0x04030201, RDB := 0x08070605, CMR := 4\<rparr>\<rparr>)"
proof -
  let ?m = "\<lparr>msg_id = 0x123, dataA = [1, 2, 3, 4], dataB = [5, 6, 7, 8], msg_len = 8, format = 0, msg_type = 0\<rparr> :: CAN_MSG_Type"
  let ?h = "can_hw0\<lparr>LPC_CAN1 := can_regs0\<lparr>SR := 4\<rparr>\<rparr>"
  let ?k = "can_hw0\<lparr>LPC_CAN2 := can_regs0\<lparr>SR := 1, RFS := 0x80000, RID := 0x123, RDA := 0x04030201, RDB := 0x08070605\<rparr>\<rparr>"
  have wf: "msg_wf ?m" by code_simp
  have b: "bit (SR (can_get CAN1 ?h)) 2" "bit (SR (can_get CAN2 ?k)) 0"
    by (simp_all add: can_get_def bit_single)
  then have s: "CAN_SendMsg CAN1 ?m ?h = Some (SUCCESS, can_upd CAN1 (load_tx1 ?m) ?h)"
    using wf by (simp add: CAN_SendMsg_eq)
  have r: "RFS (can_get CAN2 ?k) = TFI1 (can_get CAN1 (can_upd CAN1 (load_tx1 ?m) ?h))"
    "RID (can_get CAN2 ?k) = TID1 (can_get CAN1 (can_upd CAN1 (load_tx1 ?m) ?h))"
    "RDA (can_get CAN2 ?k) = TDA1 (can_get CAN1 (can_upd CAN1 (load_tx1 ?m) ?h))"
    "RDB (can_get CAN2 ?k) = TDB1 (can_get CAN1 (can_upd CAN1 (load_tx1 ?m) ?h))"
    by code_simp+
  show ?thesis
    using send_receive_roundtrip[OF wf _ b(1) s b(2) r] by (simp add: can_upd_def can_hw0_def can_regs0_def)
qed

lemma rfs_msg_wf:
  assumes "length (dataA m) = 4" "length (dataB m) = 4"
   "drop_bit (if bit (RFS r) 31 then 29 else 11) (RID r) = 0"
 shows "msg_wf (rfs_msg r m)"
proof -
  have "drop_bit 4 (ucast (take_bit 4 (drop_bit 16 (RFS r))) :: u8) = 0"
    by (rule bit_word_eqI) (simp add: bit_simps)
  then show ?thesis using assms by (auto simp: msg_wf_def rfs_msg_def split: if_splits)
qed

lemma ReceiveMsg_wf:
  assumes "CAN_ReceiveMsg c m h = (SUCCESS, m', h')" "length (dataA m) = 4" "length (dataB m) = 4"
   "drop_bit (if bit (RFS (can_get c h)) 31 then 29 else 11) (RID (can_get c h)) = 0"
 shows "msg_wf m'"
  using assms rfs_msg_wf[OF assms(2-4)]
  by (auto simp: CAN_ReceiveMsg_alt Let_def msg_wf_def unpack_alt split: if_splits)

lemma tfi_rfs:
  assumes "msg_len m = ucast (take_bit 4 (drop_bit 16 f))" "format m = of_bool (bit f 31)" "msg_type m = of_bool (bit f 30)"
  shows "tfi_update m w = (w AND NOT 0xC00F0000) OR (f AND 0xC00F0000)"
proof (rule bit_word_eqI)
  have eq: "(0xC00F0000 :: u32) = push_bit 16 (mask 4) OR push_bit 30 (mask 2)" by (simp add: mask_eq_exp_minus_1)
  have l: "drop_bit 4 (msg_len m) = 0" unfolding assms(1) by (rule bit_word_eqI) (simp add: bit_simps)
  fix n assume "n < LENGTH(32)"
  then show "bit (tfi_update m w) n = bit ((w AND NOT 0xC00F0000) OR (f AND 0xC00F0000)) n"
    unfolding eq by (auto simp: bit_tfi_update[OF l] assms bit_simps)
qed

lemma int_scan_all:
  assumes "\<And>t. t \<in> set ts \<Longrightarrow> bit (icr t) t \<Longrightarrow> cbs ! t \<noteq> None"
  shows "int_scan cbs icr ts s = Some (fold (\<lambda>t. the (cbs ! t)) (filter (\<lambda>t. bit (icr t) t) ts) s)"
  using assms
proof (induction ts arbitrary: s)
  case (Cons t ts)
  have [simp]: "drop_bit t (icr t) AND 1 = 0 \<longleftrightarrow> \<not> bit (icr t) t"
    using rx1[of "drop_bit t (icr t)"] unfolding bit_drop_bit_eq comp_def by auto
  show ?case
  proof (cases "bit (icr t) t")
    case True
    with Cons.prems[of t] obtain f where "cbs ! t = Some f" by auto
    then show ?thesis using True Cons by (simp add: call_cb_def)
  next
    case False
    then show ?thesis using Cons by simp
  qed
qed simp


lemma btr_brp: "nt \<in> {10, 12, 15, 16} \<Longrightarrow> (x AND 0x3FF OR CAN_BIT_TIME ! nt) AND 0x3FF = (x AND 0x3FF :: u32)"
  by (auto simp: CAN_BIT_TIME_def bit.conj_disj_distrib2 and.assoc)

lemma mask10: "(0x3FF :: u32) = mask 10"
  by (simp add: mask_eq_exp_minus_1)

lemma drop_bit_brp: "10 \<le> k \<Longrightarrow> drop_bit k (x AND 0x3FF OR w :: u32) = drop_bit k w"
  unfolding mask10 by (auto intro!: bit_word_eqI simp: bit_simps)

lemma btr_segments:
  assumes "nt \<in> {10, 12, 15, 16}"
  shows "unat (drop_bit 16 (x AND 0x3FF OR CAN_BIT_TIME ! nt) AND 0xF) +
    unat (drop_bit 20 (x AND 0x3FF OR CAN_BIT_TIME ! nt) AND 0x7) + 3 = nt"
  using assms by (auto simp: drop_bit_brp CAN_BIT_TIME_def simp del: drop_bit_or)

text \<open>
  For every baud rate up to 500 kbit/s that the 10-bit prescaler can reach, the prescaler
  \<^verbatim>\<open>CAN_SetBaudRate\<close> writes to \<^verbatim>\<open>BTR\<close> is the largest one whose bit rate (12 quanta per bit) is not below
  the requested rate.
\<close>

lemma CAN_SetBaudRate_timing:
  assumes "CAN_SetBaudRate c baud h = Some h'" "baud \<le> 500000"
    and "pclk = unat (CLKPWR_GetPCLK (SystemCoreClock h) (case c of CAN1 \<Rightarrow> CLKPWR_PCONP_PCAN1 | CAN2 \<Rightarrow> CLKPWR_PCONP_PCAN2) (LPC_SC h))"
    and "12 * unat baud \<le> pclk" "pclk < 1025 * 12 * unat baud"
  shows "let brp = unat (BTR (can_get c h') AND 0x3FF) in
     (brp + 1) * 12 * unat baud \<le> pclk \<and> pclk < (brp + 2) * 12 * unat baud"
proof -
  let ?p = "CLKPWR_GetPCLK (SystemCoreClock h) (case c of CAN1 \<Rightarrow> CLKPWR_PCONP_PCAN1 | CAN2 \<Rightarrow> CLKPWR_PCONP_PCAN2) (LPC_SC h)"
  have nt: "nominal_time ?p baud = 12" using assms(2) by (simp add: nominal_time_def)
  let ?q = "?p div 12 div baud"
  have q: "unat ?q = pclk div (12 * unat baud)"
    by (simp add: unat_div assms(3) div_mult2_eq)
  have b0: "0 < 12 * unat baud"
    using assms(5) by (cases "unat baud = 0") auto
  have q1: "1 \<le> unat ?q" unfolding q using assms(4) b0 by (simp add: div_greater_zero_iff Suc_leI)
  have q2: "unat ?q \<le> 1024" unfolding q using assms(5) b0
    by (simp add: less_Suc_eq_le[symmetric] div_less_iff_less_mult mult.assoc)
  have le: "1 \<le> ?q" using q1 by (simp add: word_le_nat_alt)
  have "unat (?q - 1) < 1024" using q1 q2 le by (simp add: unat_sub)
  then have "unat ((?q - 1) AND 0x3FF) = unat (?q - 1)"
    unfolding mask10 take_bit_eq_mask[symmetric]
    by (simp add: unsigned_take_bit_eq take_bit_nat_eq_self)
  then have brp: "unat ((?q - 1) AND 0x3FF) = pclk div (12 * unat baud) - 1"
    using le q by (simp add: unat_sub)
  have btr: "BTR (can_get c h') AND 0x3FF = (?q - 1) AND 0x3FF"
    using assms(1) nt btr_brp[of 12 "?q - 1"]
    by (auto simp: CAN_SetBaudRate_def Let_def split: if_splits)
  define d where "d = 12 * unat baud"
  have "pclk div d * d \<le> pclk" "pclk < (pclk div d + 1) * d"
    using b0 by (simp_all add: d_def dividend_less_div_times)
  moreover have e: "unat (BTR (can_get c h') AND 0x3FF) + 1 = pclk div d"
    using brp btr q1 q by (simp add: d_def)
  moreover have "unat (BTR (can_get c h') AND 0x3FF) + 2 = pclk div d + 1"
    using e by simp
  ultimately show ?thesis
    unfolding Let_def by (simp only: mult.assoc d_def)
qed

lemma CAN_SetBaudRate_timing_example:
  "\<exists>h'. CAN_SetBaudRate CAN1 33333 can_hw0 = Some h' \<and>
    (let brp = unat (BTR (can_get CAN1 h') AND 0x3FF) in
      (brp + 1) * 12 * 33333 \<le> 25000000 \<and> 25000000 < (brp + 2) * 12 * (33333 :: nat))"
proof -
  have "CAN_SetBaudRate CAN1 33333 can_hw0 \<noteq> None" by code_simp
  then obtain h' where h': "CAN_SetBaudRate CAN1 33333 can_hw0 = Some h'" by blast
  have "25000000 = unat (CLKPWR_GetPCLK (SystemCoreClock can_hw0)
      (case CAN1 of CAN1 \<Rightarrow> CLKPWR_PCONP_PCAN1 | CAN2 \<Rightarrow> CLKPWR_PCONP_PCAN2) (LPC_SC can_hw0))"
    by (simp add: CLKPWR_GetPCLK_def CLKPWR_GetPCLKSEL_def can_hw0_def shr_reg_def)
  from CAN_SetBaudRate_timing[OF h' _ this] h' show ?thesis by (simp add: Let_def)
qed

end
