(* ===== verification/Canpt.thy ===== *)
theory Canpt
  imports CanDriver Interfaces Ring
begin

unbundle bit_operations_syntax

text \<open>
  The CAN node protocol \<^verbatim>\<open>Lib_Board/src/canpt.c\<close>: the interrupt-fed receive queue, the table of
  nodes that announced themselves, the protocol messages composed in \<^verbatim>\<open>txMsg\<close>, and the task
  that forwards queued frames to the second controller. The file-static variables are the record
  \<open>canpt_state\<close>. The call-back table \<^verbatim>\<open>_cb\<close> is an argument \<open>cb\<close> of the handlers that use it
  (\<^const>\<open>None\<close> is the null pointer it is initialised with); a call-back maps the world, the pair of
  \<open>canpt_state\<close> and the client's state, to a new world and may itself fail.
  The functions whose \<^verbatim>\<open>return sendMessage\<close> is commented out have no return statement on that
  path; their result is \<^const>\<open>None\<close> there, an \<^verbatim>\<open>error_t\<close> otherwise.
\<close>

section \<open>State\<close>

abbreviation (input) NODE_MAX_NUM :: nat where "NODE_MAX_NUM \<equiv> 10"
abbreviation (input) NODE_MAX_CAPS :: nat where "NODE_MAX_CAPS \<equiv> 12"
abbreviation (input) NODE_POLL_TIME :: u32 where "NODE_POLL_TIME \<equiv> 2500"
abbreviation (input) NODE_ALIVE_TIME :: u32 where "NODE_ALIVE_TIME \<equiv> 500"
abbreviation (input) NUM_RX_MSGS :: nat where "NUM_RX_MSGS \<equiv> 5"

abbreviation (input) CANPT_NODE_UNIQUE_ID :: u8 where "CANPT_NODE_UNIQUE_ID \<equiv> 0x10"
abbreviation (input) CANPT_CAN2_ID :: u32 where "CANPT_CAN2_ID \<equiv> 0x20"
abbreviation (input) CANPT_CAN1_BAUDRATE :: u32 where "CANPT_CAN1_BAUDRATE \<equiv> 33333"
abbreviation (input) CANPT_CAN2_BAUDRATE :: u32 where "CANPT_CAN2_BAUDRATE \<equiv> 33333"
abbreviation (input) CANPT_MSG_CMN_MASK :: u32 where "CANPT_MSG_CMN_MASK \<equiv> 0x7F0"
abbreviation (input) CANPT_MSG_CMN_ID_DISC :: u8 where "CANPT_MSG_CMN_ID_DISC \<equiv> 0x01"
abbreviation (input) CANPT_MSG_TYPE_MASK :: u8 where "CANPT_MSG_TYPE_MASK \<equiv> 0x0F"
abbreviation (input) CANPT_MSG_GET :: u8 where "CANPT_MSG_GET \<equiv> 0x01"
abbreviation (input) CANPT_MSG_SET :: u8 where "CANPT_MSG_SET \<equiv> 0x02"
abbreviation (input) CANPT_MSG_SUB :: u8 where "CANPT_MSG_SUB \<equiv> 0x03"
abbreviation (input) CANPT_MSG_UNSUB :: u8 where "CANPT_MSG_UNSUB \<equiv> 0x04"
abbreviation (input) CANPT_MSG_VAL :: u8 where "CANPT_MSG_VAL \<equiv> 0x05"
abbreviation (input) CANPT_MSG_POLL :: u8 where "CANPT_MSG_POLL \<equiv> 0x06"
abbreviation (input) CANPT_MSG_PUBLISH :: u8 where "CANPT_MSG_PUBLISH \<equiv> 0x07"
abbreviation (input) CANPT_MSG_POLL_RESP :: u8 where "CANPT_MSG_POLL_RESP \<equiv> 0x80"
abbreviation (input) CANPT_MSG_SUB_GTE :: u8 where "CANPT_MSG_SUB_GTE \<equiv> 0x10"
abbreviation (input) CANPT_MSG_SUB_LTE :: u8 where "CANPT_MSG_SUB_LTE \<equiv> 0x20"
abbreviation (input) CANPT_MSG_SUB_DIF :: u8 where "CANPT_MSG_SUB_DIF \<equiv> 0x30"
abbreviation (input) CANPT_MSG_SUB_RESP :: u8 where "CANPT_MSG_SUB_RESP \<equiv> 0xF0"
abbreviation (input) CANPT_MSG_DEV_MASK :: u8 where "CANPT_MSG_DEV_MASK \<equiv> 0xF0"
abbreviation (input) CANPT_MSG_DEV_TEMP :: u8 where "CANPT_MSG_DEV_TEMP \<equiv> 0x10"
abbreviation (input) CANPT_MSG_DEV_LIGHT :: u8 where "CANPT_MSG_DEV_LIGHT \<equiv> 0x20"
abbreviation (input) CANPT_MSG_DEV_BTN :: u8 where "CANPT_MSG_DEV_BTN \<equiv> 0x30"
abbreviation (input) CANPT_MSG_DEV_RGB :: u8 where "CANPT_MSG_DEV_RGB \<equiv> 0x40"
abbreviation (input) CANPT_MSG_DEV_LED :: u8 where "CANPT_MSG_DEV_LED \<equiv> 0x50"

abbreviation (input) CAN_GSR_TCS :: u32 where "CAN_GSR_TCS \<equiv> 8"

record node_t =
  reqId :: u8
  aliveTime :: u32
  lastPoll :: u32
  caps :: "u8 list"

record canpt_state =
  txMsg :: CAN_MSG_Type
  rxMsg :: CAN_MSG_Type
  nodes :: "node_t list"
  numNodes :: u8
  rxMsgs :: "CAN_MSG_Type list"
  rxMsgIn :: u8
  rxMsgOut :: u8

record 'w canpt_callb_t =
  nodeAttached :: "(u8 \<Rightarrow> 'w \<Rightarrow> 'w option) option"
  nodeDetached :: "(u8 \<Rightarrow> 'w \<Rightarrow> 'w option) option"
  value_cb :: "(u8 \<Rightarrow> u8 \<Rightarrow> u8 list \<Rightarrow> u8 \<Rightarrow> 'w \<Rightarrow> 'w option) option"
  subStarted :: "(u8 \<Rightarrow> u8 \<Rightarrow> 'w \<Rightarrow> 'w option) option"

text \<open>Static storage is zero-initialised.\<close>

definition msg0 :: CAN_MSG_Type where
  "msg0 = \<lparr>msg_id = 0, dataA = [0, 0, 0, 0], dataB = [0, 0, 0, 0], msg_len = 0, format = 0,
     msg_type = 0\<rparr>"

definition node0 :: node_t where
  "node0 = \<lparr>reqId = 0, aliveTime = 0, lastPoll = 0, caps = replicate 12 0\<rparr>"

definition canpt_state0 :: canpt_state where
  "canpt_state0 = \<lparr>txMsg = msg0, rxMsg = msg0, nodes = replicate 10 node0, numNodes = 0,
     rxMsgs = replicate 5 msg0, rxMsgIn = 0, rxMsgOut = 0\<rparr>"

section \<open>The receive queue\<close>

definition q_put :: "CAN_MSG_Type \<Rightarrow> canpt_state \<Rightarrow> canpt_state" where
  "q_put d s =
     (if unat (rxMsgOut s) = (unat (rxMsgIn s) + 1) mod NUM_RX_MSGS then s
      else s\<lparr>rxMsgs := (rxMsgs s)[unat (rxMsgIn s) := d],
             rxMsgIn := word_of_nat ((unat (rxMsgIn s) + 1) mod NUM_RX_MSGS)\<rparr>)"

text \<open>\<^verbatim>\<open>q_get\<close> returns a pointer into \<^verbatim>\<open>rxMsgs\<close>: the index of the slot.\<close>

definition q_get :: "canpt_state \<Rightarrow> nat option \<times> canpt_state" where
  "q_get s =
     (if rxMsgIn s = rxMsgOut s then (None, s)
      else (Some (unat (rxMsgOut s)),
            s\<lparr>rxMsgOut := word_of_nat ((unat (rxMsgOut s) + 1) mod NUM_RX_MSGS)\<rparr>))"

definition q_isEmpty :: "canpt_state \<Rightarrow> bool" where
  "q_isEmpty s \<longleftrightarrow> rxMsgIn s = rxMsgOut s"

section \<open>Message handlers\<close>

text \<open>The copy loop of \<^verbatim>\<open>handlePublish\<close> over \<open>j\<close>, with its two breaks.\<close>

fun publish_caps :: "u8 list \<Rightarrow> nat list \<Rightarrow> u8 list \<Rightarrow> u8 list option" where
  "publish_caps buf [] cs = Some cs"
| "publish_caps buf (j # js) cs =
     (if j \<ge> NODE_MAX_CAPS then Some cs
      else do {
        b \<leftarrow> rd buf j;
        cs1 \<leftarrow> wr cs (j * 2) (b AND 0xF0);
        (if j + 1 \<ge> NODE_MAX_CAPS then Some cs1
         else do {
           cs2 \<leftarrow> wr cs1 (j * 2 + 1) (push_bit 4 (b AND 0x0F) AND 0xFF);
           publish_caps buf js cs2
         })
      })"

definition handlePublish ::
  "(canpt_state \<times> 'c) canpt_callb_t option \<Rightarrow> u8 \<Rightarrow> u8 list \<Rightarrow> u8 \<Rightarrow> u32 \<Rightarrow> canpt_state \<times> 'c
    \<Rightarrow> (canpt_state \<times> 'c) option" where
  "handlePublish cb r buf len now w =
     (case w of (s, c) \<Rightarrow>
      case find_idx (\<lambda>n. reqId n = r) (nodes s) of
        Some _ \<Rightarrow> Some w
      | None \<Rightarrow>
          (case find_idx (\<lambda>n. reqId n = 0) (nodes s) of
             None \<Rightarrow> Some w
           | Some i \<Rightarrow> do {
               cs \<leftarrow> publish_caps buf [0..<unat len] (caps (nodes s ! i));
               let w1 = (s\<lparr>nodes := (nodes s)[i := (nodes s ! i)\<lparr>reqId := r, aliveTime := now,
                             caps := cs\<rparr>], numNodes := numNodes s + 1\<rparr>, c);
               (case cb of
                  None \<Rightarrow> Some w1
                | Some t \<Rightarrow> (case nodeAttached t of None \<Rightarrow> Some w1 | Some f \<Rightarrow> f r w1))
             }))"

definition handleValue ::
  "(canpt_state \<times> 'c) canpt_callb_t option \<Rightarrow> u8 \<Rightarrow> u8 \<Rightarrow> u8 list \<Rightarrow> u8 \<Rightarrow> canpt_state \<times> 'c
    \<Rightarrow> (canpt_state \<times> 'c) option" where
  "handleValue cb r periphId buf len w =
     (case cb of None \<Rightarrow> Some w
      | Some t \<Rightarrow> (case value_cb t of None \<Rightarrow> Some w | Some f \<Rightarrow> f r periphId buf len w))"

definition handlePollResponse :: "u8 \<Rightarrow> u32 \<Rightarrow> canpt_state \<Rightarrow> canpt_state" where
  "handlePollResponse r now s =
     (case find_idx (\<lambda>n. reqId n = r) (nodes s) of
        None \<Rightarrow> s
      | Some i \<Rightarrow> s\<lparr>nodes := (nodes s)[i := (nodes s ! i)\<lparr>aliveTime := now\<rparr>]\<rparr>)"

definition handleSubscribeResponse ::
  "(canpt_state \<times> 'c) canpt_callb_t option \<Rightarrow> u8 \<Rightarrow> u8 \<Rightarrow> canpt_state \<times> 'c
    \<Rightarrow> (canpt_state \<times> 'c) option" where
  "handleSubscribeResponse cb r subId w =
     (case cb of None \<Rightarrow> Some w
      | Some t \<Rightarrow> (case subStarted t of None \<Rightarrow> Some w | Some f \<Rightarrow> f r subId w))"

definition set_dataA :: "nat \<Rightarrow> u8 \<Rightarrow> canpt_state \<Rightarrow> canpt_state" where
  "set_dataA i v s = s\<lparr>txMsg := (txMsg s)\<lparr>dataA := (dataA (txMsg s))[i := v]\<rparr>\<rparr>"

definition set_dataB :: "nat \<Rightarrow> u8 \<Rightarrow> canpt_state \<Rightarrow> canpt_state" where
  "set_dataB i v s = s\<lparr>txMsg := (txMsg s)\<lparr>dataB := (dataB (txMsg s))[i := v]\<rparr>\<rparr>"

definition canpt_poll :: "u8 \<Rightarrow> canpt_state \<Rightarrow> error_t option \<times> canpt_state" where
  "canpt_poll r s = (None, set_dataA 1 CANPT_MSG_POLL s)"

text \<open>
  \<^verbatim>\<open>&msg->dataA[2]\<close> with a length beyond 2 runs on into \<^verbatim>\<open>dataB\<close>, which follows
  \<^verbatim>\<open>dataA\<close> in the structure: the buffer is the rest of the eight data bytes.
\<close>

definition payload :: "CAN_MSG_Type \<Rightarrow> u8 list" where
  "payload m = drop 2 (dataA m @ dataB m)"

definition processCmnMessage ::
  "(canpt_state \<times> 'c) canpt_callb_t option \<Rightarrow> CAN_MSG_Type \<Rightarrow> u32 \<Rightarrow> canpt_state \<times> 'c
    \<Rightarrow> (canpt_state \<times> 'c) option" where
  "processCmnMessage cb m now w =
     (if (ucast (msg_id m AND NOT CANPT_MSG_CMN_MASK) :: u8) = CANPT_MSG_CMN_ID_DISC then
        if msg_len m > 2 \<and> dataA m ! 1 = CANPT_MSG_PUBLISH
        then handlePublish cb (dataA m ! 0) (payload m) (msg_len m - 2) now w
        else Some w
      else Some w)"

definition processMessage ::
  "(canpt_state \<times> 'c) canpt_callb_t option \<Rightarrow> CAN_MSG_Type \<Rightarrow> u32 \<Rightarrow> canpt_state \<times> 'c
    \<Rightarrow> (canpt_state \<times> 'c) option" where
  "processMessage cb m now w =
     (let r = dataA m ! 0; t = dataA m ! 1 AND CANPT_MSG_TYPE_MASK in
      if t = CANPT_MSG_VAL then
        handleValue cb r (dataA m ! 1 AND CANPT_MSG_DEV_MASK) (payload m) (msg_len m - 2) w
      else if t = CANPT_MSG_PUBLISH then
        handlePublish cb r (payload m) (msg_len m - 2) now w
      else if t = CANPT_MSG_POLL then
        if dataA m ! 1 AND CANPT_MSG_POLL_RESP \<noteq> 0
        then Some (handlePollResponse r now (fst w), snd w) else Some w
      else if t = CANPT_MSG_SUB then
        if dataA m ! 1 AND CANPT_MSG_SUB_RESP \<noteq> 0
        then handleSubscribeResponse cb r (dataA m ! 2) w else Some w
      else Some w)"

text \<open>
  The liveness check runs over the node table; \<open>tick i\<close> is what \<^verbatim>\<open>time_get()\<close> returns in
  iteration \<open>i\<close>.
\<close>

fun check_nodes ::
  "(canpt_state \<times> 'c) canpt_callb_t option \<Rightarrow> (nat \<Rightarrow> u32) \<Rightarrow> nat list \<Rightarrow> canpt_state \<times> 'c
    \<Rightarrow> (canpt_state \<times> 'c) option" where
  "check_nodes cb tick [] w = Some w"
| "check_nodes cb tick (i # is) w =
     (let n = nodes (fst w) ! i; time = tick i in
      if reqId n \<noteq> 0 then
        if aliveTime n + NODE_ALIVE_TIME + NODE_POLL_TIME < time then do {
          (s1, c1) \<leftarrow> (case cb of None \<Rightarrow> Some w
             | Some t \<Rightarrow> (case nodeDetached t of None \<Rightarrow> Some w | Some f \<Rightarrow> f (reqId n) w));
          check_nodes cb tick is (s1\<lparr>nodes := (nodes s1)[i := (nodes s1 ! i)\<lparr>reqId := 0\<rparr>]\<rparr>, c1)
        }
        else if lastPoll n + NODE_POLL_TIME < time then
          check_nodes cb tick is
            (snd (canpt_poll (reqId n)
               ((fst w)\<lparr>nodes := (nodes (fst w))[i := n\<lparr>lastPoll := time\<rparr>]\<rparr>)), snd w)
        else check_nodes cb tick is w
      else check_nodes cb tick is w)"

definition checkIfNodesAlive ::
  "(canpt_state \<times> 'c) canpt_callb_t option \<Rightarrow> (nat \<Rightarrow> u32) \<Rightarrow> canpt_state \<times> 'c
    \<Rightarrow> (canpt_state \<times> 'c) option" where
  "checkIfNodesAlive cb tick w = check_nodes cb tick [0..<NODE_MAX_NUM] w"

section \<open>Requests to remote nodes\<close>

definition canpt_getValue :: "u8 \<Rightarrow> u8 \<Rightarrow> canpt_state \<Rightarrow> error_t option \<times> canpt_state" where
  "canpt_getValue r periphId s =
     (if periphId < CANPT_MSG_DEV_TEMP \<or> periphId > CANPT_MSG_DEV_LED
      then (Some ERR_ARGUMENT, s)
      else (None, set_dataA 1 (CANPT_MSG_GET OR periphId) s))"

definition canpt_getTemperature :: "u8 \<Rightarrow> canpt_state \<Rightarrow> error_t option \<times> canpt_state" where
  "canpt_getTemperature r s = canpt_getValue r CANPT_MSG_DEV_TEMP s"

definition canpt_getLight :: "u8 \<Rightarrow> canpt_state \<Rightarrow> error_t option \<times> canpt_state" where
  "canpt_getLight r s = canpt_getValue r CANPT_MSG_DEV_LIGHT s"

definition canpt_getButton :: "u8 \<Rightarrow> canpt_state \<Rightarrow> error_t option \<times> canpt_state" where
  "canpt_getButton r s = canpt_getValue r CANPT_MSG_DEV_BTN s"

definition canpt_discover :: "canpt_state \<Rightarrow> error_t option \<times> canpt_state" where
  "canpt_discover s = (None, s)"

definition canpt_setRgb :: "u8 \<Rightarrow> u8 \<Rightarrow> u8 \<Rightarrow> canpt_state \<Rightarrow> error_t option \<times> canpt_state" where
  "canpt_setRgb r msk on s =
     (None, set_dataA 3 on (set_dataA 2 msk (set_dataA 1 (CANPT_MSG_SET OR CANPT_MSG_DEV_RGB) s)))"

definition canpt_setLed :: "u8 \<Rightarrow> u8 \<Rightarrow> canpt_state \<Rightarrow> error_t option \<times> canpt_state" where
  "canpt_setLed r on s =
     (None, set_dataA 2 on (set_dataA 1 (CANPT_MSG_SET OR CANPT_MSG_DEV_LED) s))"

text \<open>
  The value loop of \<^verbatim>\<open>canpt_subscribe\<close>: \<open>inB\<close> tells whether \<^verbatim>\<open>d\<close> points to
  \<^verbatim>\<open>dataB\<close>, \<open>pos\<close> is the write position.
\<close>

fun sub_values :: "u8 list \<Rightarrow> nat list \<Rightarrow> bool \<Rightarrow> nat \<Rightarrow> canpt_state \<Rightarrow> canpt_state option" where
  "sub_values valBuf [] inB pos s = Some s"
| "sub_values valBuf (i # is) inB pos s =
     (let (inB', pos') = (if pos > 3 then (True, 0) else (inB, pos)) in do {
        v \<leftarrow> rd valBuf i;
        sub_values valBuf is inB' (pos' + 1)
          (if inB' then set_dataB pos' v s else set_dataA pos' v s)
      })"

definition canpt_subscribe ::
  "u8 \<Rightarrow> u8 \<Rightarrow> u8 \<Rightarrow> u8 list \<Rightarrow> u8 \<Rightarrow> canpt_state \<Rightarrow> (error_t option \<times> canpt_state) option" where
  "canpt_subscribe r periphId subAct valBuf len s =
     (if periphId < CANPT_MSG_DEV_TEMP \<or> periphId > CANPT_MSG_DEV_LED then
        Some (Some ERR_ARGUMENT, s)
      else if subAct < CANPT_MSG_SUB_GTE \<or> subAct > CANPT_MSG_SUB_DIF then
        Some (Some ERR_ARGUMENT, s)
      else if len > 4 then Some (Some ERR_ARGUMENT, s)
      else do {
        s' \<leftarrow> sub_values valBuf [0..<unat len] False 3
               (set_dataA 2 periphId (set_dataA 1 (CANPT_MSG_SUB OR subAct) s));
        Some (None, s')
      })"

definition canpt_unsubscribe :: "u8 \<Rightarrow> u8 \<Rightarrow> canpt_state \<Rightarrow> error_t option \<times> canpt_state" where
  "canpt_unsubscribe r subId s = (None, set_dataA 2 subId (set_dataA 1 CANPT_MSG_UNSUB s))"

section \<open>Node queries\<close>

text \<open>Pointers are options; the buffer behind a pointer is the list of its bytes.\<close>

fun get_nodes_loop :: "node_t list \<Rightarrow> nat \<Rightarrow> u8 list \<Rightarrow> nat \<Rightarrow> (u8 list \<times> nat) option" where
  "get_nodes_loop [] len buf pos = Some (buf, pos)"
| "get_nodes_loop (n # ns) len buf pos =
     (if reqId n \<noteq> 0 \<and> pos < len
      then do { buf' \<leftarrow> wr buf pos (reqId n); get_nodes_loop ns len buf' (pos + 1) }
      else get_nodes_loop ns len buf pos)"

definition canpt_getNodes ::
  "u8 list option \<Rightarrow> u8 \<Rightarrow> u8 option \<Rightarrow> canpt_state \<Rightarrow> (error_t \<times> u8 list option \<times> u8 option) option" where
  "canpt_getNodes nodeIdBuf len numOut s =
     (case (numOut, nodeIdBuf) of
        (Some _, Some buf) \<Rightarrow>
          (if len = 0 then Some (ERR_ARGUMENT, nodeIdBuf, numOut)
           else do {
             (buf', pos) \<leftarrow> get_nodes_loop (nodes s) (unat len) buf 0;
             Some (ERR_OK, Some buf', Some (word_of_nat pos))
           })
      | _ \<Rightarrow> Some (ERR_ARGUMENT, nodeIdBuf, numOut))"

fun get_caps_loop :: "u8 list \<Rightarrow> nat \<Rightarrow> u8 list \<Rightarrow> nat \<Rightarrow> (u8 list \<times> nat) option" where
  "get_caps_loop [] len buf pos = Some (buf, pos)"
| "get_caps_loop (c # cs) len buf pos =
     (if pos \<ge> len then Some (buf, pos)
      else if c = 0 then Some (buf, pos)
      else do { buf' \<leftarrow> wr buf pos c; get_caps_loop cs len buf' (pos + 1) })"

definition canpt_getNodeCaps ::
  "u8 \<Rightarrow> u8 list option \<Rightarrow> u8 \<Rightarrow> u8 option \<Rightarrow> canpt_state
    \<Rightarrow> (error_t \<times> u8 list option \<times> u8 option) option" where
  "canpt_getNodeCaps nodeId nodeCapBuf len numCaps s =
     (case (numCaps, nodeCapBuf) of
        (Some _, Some buf) \<Rightarrow>
          (if len = 0 then Some (ERR_ARGUMENT, nodeCapBuf, numCaps)
           else (case find_idx (\<lambda>n. reqId n = nodeId) (nodes s) of
                   None \<Rightarrow> Some (ERR_ARGUMENT, nodeCapBuf, Some 0)
                 | Some i \<Rightarrow> do {
                     (buf', pos) \<leftarrow> get_caps_loop (caps (nodes s ! i)) (unat len) buf 0;
                     Some (ERR_OK, Some buf', Some (word_of_nat pos))
                   }))
      | _ \<Rightarrow> Some (ERR_ARGUMENT, nodeCapBuf, numCaps))"

section \<open>Transmission with time-out\<close>

text \<open>
  \<^verbatim>\<open>do s = GSR; while ((s & CAN_GSR_TCS) == 0 && to > time_get());\<close> over the observed values of
  the global status register (\<open>gs\<close>) and of the clock (\<open>ts\<close>); the clock is read only when the
  transmission is not complete.
\<close>

fun wait_tcs :: "u32 \<Rightarrow> u32 list \<Rightarrow> u32 list \<Rightarrow> (u32 list \<times> u32 list) option" where
  "wait_tcs to [] ts = None"
| "wait_tcs to (g # gs) ts =
     (if g AND CAN_GSR_TCS \<noteq> 0 then Some (gs, ts)
      else (case ts of [] \<Rightarrow> None
            | t # ts' \<Rightarrow> if to > t then wait_tcs to gs ts' else Some (gs, ts')))"

definition send_and_wait ::
  "CANx \<Rightarrow> CAN_MSG_Type \<Rightarrow> u32 \<Rightarrow> u32 list \<Rightarrow> u32 list \<Rightarrow> can_hw \<Rightarrow> (error_t \<times> can_hw) option" where
  "send_and_wait c m to gs ts h = do {
     (st, h') \<leftarrow> CAN_SendMsg c m h;
     (if st \<noteq> SUCCESS then Some (ERR_CAN_SEND, h')
      else do {
        (gs', ts') \<leftarrow> wait_tcs to gs ts;
        (t, ts'') \<leftarrow> vread ts';
        Some (if to \<le> t then ERR_TIMEOUT else ERR_OK, h')
      })
   }"

definition sendMessage ::
  "CANx \<Rightarrow> u8 \<Rightarrow> u8 \<Rightarrow> u32 list \<Rightarrow> u32 list \<Rightarrow> can_hw \<Rightarrow> canpt_state
    \<Rightarrow> (error_t \<times> can_hw \<times> canpt_state) option" where
  "sendMessage c r dataLen gs ts h s = do {
     let m = (txMsg s)\<lparr>msg_id := 0x20000, format := EXT_ID_FORMAT,
                dataA := (dataA (txMsg s))[0 := CANPT_NODE_UNIQUE_ID], msg_len := dataLen + 1\<rparr>;
     (t0, ts1) \<leftarrow> vread ts;
     (err, h') \<leftarrow> send_and_wait c m (t0 + 500) gs ts1 h;
     Some (err, h', s\<lparr>txMsg := m\<rparr>)
   }"

text \<open>
  The forwarding task. The result of the transmission is assigned to a local variable that is not
  used; the model returns it beside the state so that the outcome can be stated (\<^const>\<open>None\<close>
  when the queue is empty).
\<close>

definition canpt_task ::
  "u32 list \<Rightarrow> u32 list \<Rightarrow> can_hw \<Rightarrow> canpt_state \<Rightarrow> (error_t option \<times> can_hw \<times> canpt_state) option" where
  "canpt_task gs ts h s =
     (if \<not> q_isEmpty s then
        (case q_get s of
           (None, s') \<Rightarrow> None
         | (Some i, s') \<Rightarrow> do {
             (t0, ts1) \<leftarrow> vread ts;
             (err, h') \<leftarrow> send_and_wait CAN2 (rxMsgs s' ! i) (t0 + 500) gs ts1 h;
             Some (Some err, h', s')
           })
      else Some (None, h, s))"

section \<open>Interrupt handler\<close>

definition CAN_IRQHandler :: "can_hw \<Rightarrow> canpt_state \<Rightarrow> can_hw \<times> canpt_state" where
  "CAN_IRQHandler h s =
     (if ICR (LPC_CAN1 h) AND 0x01 \<noteq> 0 then
        (case CAN_ReceiveMsg CAN1 (rxMsg s) h of
           (st, m, h') \<Rightarrow> (h', q_put m (s\<lparr>rxMsg := m\<rparr>)))
      else if ICR (LPC_CAN2 h) AND 0x01 \<noteq> 0 then
        (case CAN_ReceiveMsg CAN2 (rxMsg s) h of
           (st, m, h') \<Rightarrow> (h', q_put m (s\<lparr>rxMsg := m\<rparr>)))
      else (h, s))"

section \<open>The queue refines a list of at most four messages\<close>

definition q_inv :: "canpt_state \<Rightarrow> bool" where
  "q_inv s \<longleftrightarrow> length (rxMsgs s) = 5 \<and> unat (rxMsgIn s) < 5 \<and> unat (rxMsgOut s) < 5"

definition q_list :: "canpt_state \<Rightarrow> CAN_MSG_Type list" where
  "q_list s = ring_list 5 (rxMsgs s) (unat (rxMsgIn s)) (unat (rxMsgOut s))"

definition q_take :: "canpt_state \<Rightarrow> CAN_MSG_Type option \<times> canpt_state" where
  "q_take s = (case q_get s of (None, s') \<Rightarrow> (None, s') | (Some i, s') \<Rightarrow> (Some (rxMsgs s' ! i), s'))"

lemma unat_ring_next5: "n < 5 \<Longrightarrow> unat (word_of_nat (ring_next 5 n) :: u8) = ring_next 5 n"
  by (auto simp: unat_of_nat_u8 ring_next_def)

lemma q_put_alt:
  "q_inv s \<Longrightarrow> q_put d s =
     (if unat (rxMsgOut s) = ring_next 5 (unat (rxMsgIn s)) then s
      else s\<lparr>rxMsgs := (rxMsgs s)[unat (rxMsgIn s) := d],
             rxMsgIn := word_of_nat (ring_next 5 (unat (rxMsgIn s)))\<rparr>)"
  by (simp only: q_put_def q_inv_def ring_next_mod)

lemma q_get_alt:
  "q_inv s \<Longrightarrow> q_get s =
     (if rxMsgIn s = rxMsgOut s then (None, s)
      else (Some (unat (rxMsgOut s)),
            s\<lparr>rxMsgOut := word_of_nat (ring_next 5 (unat (rxMsgOut s)))\<rparr>))"
  by (simp only: q_get_def q_inv_def ring_next_mod)

lemma q_put_inv: "q_inv s \<Longrightarrow> q_inv (q_put d s)"
  by (auto simp: q_put_alt) (auto simp: q_inv_def unat_ring_next5)

lemma q_get_inv: "q_inv s \<Longrightarrow> q_inv (snd (q_get s))"
  by (auto simp: q_get_alt) (auto simp: q_inv_def unat_ring_next5)

lemma q_list_Nil_iff: "q_inv s \<Longrightarrow> q_list s = [] \<longleftrightarrow> rxMsgIn s = rxMsgOut s"
  by (auto simp: q_list_def q_inv_def ring_list_Nil_iff)

interpretation canq: dropping_fifo q_put q_take q_isEmpty q_list q_inv 4
proof
  fix s :: canpt_state and d :: CAN_MSG_Type
  assume inv: "q_inv s"
  then have b: "length (rxMsgs s) = 5" "unat (rxMsgIn s) < 5" "unat (rxMsgOut s) < 5"
    by (simp_all add: q_inv_def)
  note full = ring_full_iff[OF b(2,3)]
  show "q_list (q_put d s) = q_list s @ [d]" if "length (q_list s) < 4"
    using that inv b full ring_list_put[OF b(2,3), of "rxMsgs s" d]
    by (auto simp: q_put_alt q_list_def unat_ring_next5)
  show "q_put d s = s" if "length (q_list s) = 4"
    using that inv full by (auto simp: q_put_alt q_list_def)
  show "q_inv (q_put d s)" by (rule q_put_inv[OF inv])
  show "q_take s = (None, s)" if "q_list s = []"
    using that inv by (simp add: q_take_def q_get_alt q_list_Nil_iff)
  show "q_inv (snd (q_take s))"
    using q_get_inv[OF inv] by (auto simp: q_take_def split: prod.splits option.splits)
  show "q_isEmpty s \<longleftrightarrow> q_list s = []"
    using inv by (simp add: q_isEmpty_def q_list_Nil_iff)
  show "length (q_list s) \<le> 4"
    using ring_len_less[OF b(2,3)] by (simp add: q_list_def)
  fix ds
  show "fst (q_take s) = Some d \<and> q_list (snd (q_take s)) = ds" if "q_list s = d # ds"
  proof -
    have ne: "rxMsgIn s \<noteq> rxMsgOut s" using that inv q_list_Nil_iff by force
    then have "unat (rxMsgIn s) \<noteq> unat (rxMsgOut s)" by simp
    from ring_list_get[OF b(2,3) this, of "rxMsgs s"] show ?thesis
      using that inv ne b by (simp add: q_take_def q_get_alt q_list_def unat_ring_next5)
  qed
qed

text \<open>
  The slot that \<^verbatim>\<open>q_get\<close> hands out by pointer is not overwritten by any number of
  messages the interrupt handler puts afterwards, so \<^verbatim>\<open>canpt_task\<close> may keep using it while
  reception continues.
\<close>

theorem q_get_slot_stable:
  assumes "q_inv s" "q_get s = (Some i, s')"
  shows "rxMsgs (fold q_put ds s') ! i = rxMsgs s ! i"
proof -
  have i: "i = unat (rxMsgOut s)" "i < 5" and s': "rxMsgs s' = rxMsgs s" "q_inv s'"
    "unat (rxMsgOut s') = ring_next 5 i"
    using assms q_get_inv[OF assms(1)] by (auto simp: q_get_alt q_inv_def unat_ring_next5 split: if_splits)
  have "q_inv t \<Longrightarrow> unat (rxMsgOut t) = ring_next 5 i \<Longrightarrow> rxMsgs (fold q_put ds t) ! i = rxMsgs t ! i" for t
  proof (induction ds arbitrary: t)
    case (Cons d ds)
    have "rxMsgs (q_put d t) ! i = rxMsgs t ! i" "unat (rxMsgOut (q_put d t)) = ring_next 5 i"
      using Cons.prems i ring_next_inj[of "unat (rxMsgIn t)" 5 i]
      by (auto simp: q_put_alt) (auto simp: q_inv_def intro!: nth_list_update_neq)
    then show ?case using Cons.IH[OF q_put_inv[OF Cons.prems(1), of d]] by simp
  qed simp
  then show ?thesis using s' by simp
qed

theorem q_get_slot_stable_example:
  "rxMsgs (fold q_put [msg0, msg0, msg0, msg0]
      (snd (q_get (q_put (msg0\<lparr>msg_id := 7\<rparr>) canpt_state0)))) ! 0 = msg0\<lparr>msg_id := 7\<rparr>"
proof -
  let ?s = "q_put (msg0\<lparr>msg_id := 7\<rparr>) canpt_state0"
  have "q_inv ?s" by code_simp
  moreover have "q_get ?s = (Some 0, snd (q_get ?s))" by code_simp
  ultimately show ?thesis
    by (subst q_get_slot_stable[of ?s 0]) (assumption, assumption, code_simp)
qed

text \<open>
  The receive queue keeps the oldest four messages of any burst, in order of arrival, behind
  what it already held, and drops the rest.
\<close>

lemma q_burst:
  assumes "q_inv s"
  shows "q_list (fold q_put ds s) = take 4 (q_list s @ ds)"
  using assms by (rule canq.fold_put_take)

lemma q_burst_example:
  "q_list (fold q_put [msg0\<lparr>msg_id := 1\<rparr>, msg0\<lparr>msg_id := 2\<rparr>, msg0\<lparr>msg_id := 3\<rparr>,
     msg0\<lparr>msg_id := 4\<rparr>, msg0\<lparr>msg_id := 5\<rparr>] canpt_state0) =
   [msg0\<lparr>msg_id := 1\<rparr>, msg0\<lparr>msg_id := 2\<rparr>, msg0\<lparr>msg_id := 3\<rparr>, msg0\<lparr>msg_id := 4\<rparr>]"
  by (subst q_burst) code_simp+

section \<open>The node table\<close>

definition nodes_inv :: "canpt_state \<Rightarrow> bool" where
  "nodes_inv s \<longleftrightarrow> length (nodes s) = 10 \<and> (\<forall>n \<in> set (nodes s). length (caps n) = 12) \<and>
     distinct (filter (\<lambda>r. r \<noteq> 0) (map reqId (nodes s)))"

definition node_ids :: "canpt_state \<Rightarrow> u8 list" where
  "node_ids s = filter (\<lambda>r. r \<noteq> 0) (map reqId (nodes s))"

definition cap_pair :: "u8 \<Rightarrow> u8 list" where
  "cap_pair b = [b AND 0xF0, push_bit 4 (b AND 0x0F)]"

lemma concat_cap_pair_length [simp]: "length (concat (map cap_pair bs)) = 2 * length bs"
  by (induction bs) (auto simp: cap_pair_def)

lemma publish_caps_from:
  assumes "length cs = 12" "n \<le> 6" "n \<le> length buf" "j \<le> n"
    and "take (2 * j) cs = concat (map cap_pair (take j buf))"
  shows "publish_caps buf [j..<n] cs = Some (concat (map cap_pair (take n buf)) @ drop (2 * n) cs)"
  using assms
proof (induction "n - j" arbitrary: j cs)
  case 0
  then show ?case by simp (metis append_take_drop_id)
next
  case (Suc d)
  then have j: "j < n" by simp
  let ?cs = "cs[j * 2 := buf ! j AND 0xF0, j * 2 + 1 := push_bit 4 (buf ! j AND 0x0F) AND 0xFF]"
  have "take (2 * Suc j) ?cs = take (2 * j) cs @ cap_pair (buf ! j)"
    using Suc.prems(1,2) j
    by (simp add: take_Suc_conv_app_nth cap_pair_def mult.commute)
  then have "take (2 * Suc j) ?cs = concat (map cap_pair (take (Suc j) buf))"
    using Suc.prems j by (simp add: take_Suc_conv_app_nth)
  moreover have "d = n - Suc j" using Suc.hyps(2) by simp
  ultimately have "publish_caps buf [Suc j..<n] ?cs =
      Some (concat (map cap_pair (take n buf)) @ drop (2 * n) ?cs)"
    using Suc.prems j by (intro Suc.hyps(1)) auto
  then show ?case
    using Suc.prems j by (simp add: upt_conv_Cons)
qed

lemma publish_caps_ok:
  "length cs = 12 \<Longrightarrow> n \<le> 6 \<Longrightarrow> n \<le> length buf \<Longrightarrow>
    publish_caps buf [0..<n] cs = Some (concat (map cap_pair (take n buf)) @ drop (2 * n) cs)"
  by (rule publish_caps_from) simp_all

lemma publish_caps_overflow:
  assumes "length cs = 12" "6 < n" "length buf \<ge> 6"
  shows "publish_caps buf [0..<n] cs = None"
proof -
  have e: "[0..<n] = [0..<6] @ [6..<n]" "[6..<n] = 6 # [7..<n]"
    using assms(2) by (simp_all add: upt_conv_Cons numeral_eq_Suc flip: upt_add_eq_append)
  have gen: "publish_caps buf (js @ 6 # ks) cs = None" if "length cs = 12" "\<forall>j \<in> set js. j < 6" for js ks cs
    using that
  proof (induction js arbitrary: cs)
    case Nil
    then show ?case by (simp add: rd_def)
  next
    case (Cons j js)
    then show ?case by (auto simp: rd_def wr_def bind_eq_None_conv)
  qed
  show ?thesis unfolding e using assms(1) by (intro gen) auto
qed

lemma handlePublish_known:
  "r \<in> reqId ` set (nodes s) \<Longrightarrow> handlePublish cb r buf len now (s, c) = Some (s, c)"
  using find_idx_None_iff[of "\<lambda>n. reqId n = r" "nodes s"]
  by (auto simp: handlePublish_def split: option.splits)

lemma handlePublish_full:
  "r \<notin> reqId ` set (nodes s) \<Longrightarrow> 0 \<notin> reqId ` set (nodes s) \<Longrightarrow>
    handlePublish cb r buf len now (s, c) = Some (s, c)"
  by (force simp: handlePublish_def find_idx_Some_iff split: option.splits)

definition register_node :: "nat \<Rightarrow> u8 \<Rightarrow> u8 list \<Rightarrow> u8 \<Rightarrow> u32 \<Rightarrow> canpt_state \<Rightarrow> canpt_state" where
  "register_node i r buf len now s =
     s\<lparr>nodes := (nodes s)[i := (nodes s ! i)\<lparr>reqId := r, aliveTime := now,
         caps := concat (map cap_pair (take (unat len) buf)) @ drop (2 * unat len) (caps (nodes s ! i))\<rparr>],
       numNodes := numNodes s + 1\<rparr>"

lemma handlePublish_new:
  assumes "nodes_inv s" "r \<notin> reqId ` set (nodes s)" "find_idx (\<lambda>n. reqId n = 0) (nodes s) = Some i"
    and "len \<le> 6" "unat len \<le> length buf"
  shows "handlePublish None r buf len now (s, c) = Some (register_node i r buf len now s, c)"
proof -
  have i: "i < length (nodes s)" using find_idx_SomeD[OF assms(3)] by simp
  then have "length (caps (nodes s ! i)) = 12" using assms(1) by (auto simp: nodes_inv_def)
  moreover have "unat len \<le> 6" using assms(4) by (simp add: word_le_nat_alt)
  moreover have "find_idx (\<lambda>n. reqId n = r) (nodes s) = None"
    using assms(2) by (auto simp: find_idx_None_iff)
  ultimately show ?thesis
    using assms(3,5) i by (simp add: handlePublish_def publish_caps_ok register_node_def)
qed

type_synonym announcement = "u8 \<times> u8 list \<times> u8 \<times> u32"

definition announce :: "announcement \<Rightarrow> canpt_state \<Rightarrow> canpt_state" where
  "announce a s = (case a of (r, buf, len, now) \<Rightarrow>
     case handlePublish None r buf len now (s, ()) of None \<Rightarrow> s | Some w \<Rightarrow> fst w)"

definition announcement_ok :: "announcement \<Rightarrow> bool" where
  "announcement_ok a = (case a of (r, buf, len, now) \<Rightarrow> r \<noteq> 0 \<and> len \<le> 6 \<and> unat len \<le> length buf)"

lemma in_node_ids: "r \<noteq> 0 \<Longrightarrow> r \<in> set (node_ids s) \<longleftrightarrow> r \<in> reqId ` set (nodes s)"
  by (auto simp: node_ids_def)

lemma node_ids_full_iff: "length (nodes s) = 10 \<Longrightarrow> length (node_ids s) = 10 \<longleftrightarrow> 0 \<notin> reqId ` set (nodes s)"
  using filter_ne0_full_iff[of 0 "map reqId (nodes s)"] by (simp add: node_ids_def)

lemma register_node_ids:
  assumes "nodes_inv s" "r \<noteq> 0" "r \<notin> set (node_ids s)" "i < length (nodes s)" "reqId (nodes s ! i) = 0"
    and "unat len \<le> 6" "unat len \<le> length buf"
  shows "set (node_ids (register_node i r buf len now s)) = insert r (set (node_ids s))"
    and "nodes_inv (register_node i r buf len now s)"
proof -
  have m: "map reqId (nodes (register_node i r buf len now s)) = (map reqId (nodes s))[i := r]"
    by (simp add: register_node_def map_update)
  show "set (node_ids (register_node i r buf len now s)) = insert r (set (node_ids s))"
    unfolding node_ids_def m using assms by (intro filter_update_fresh) auto
  have "distinct (filter (\<lambda>r. r \<noteq> 0) ((map reqId (nodes s))[i := r]))"
    using assms by (intro filter_update_fresh) (auto simp: nodes_inv_def node_ids_def)
  moreover have "\<forall>n \<in> set (nodes (register_node i r buf len now s)). length (caps n) = 12"
    using assms by (auto simp: register_node_def nodes_inv_def
        dest!: set_update_subset_insert[THEN subsetD])
  ultimately show "nodes_inv (register_node i r buf len now s)"
    using assms(1) m by (simp add: nodes_inv_def register_node_def)
qed

lemma announce_cases:
  assumes "nodes_inv s" "announcement_ok a"
  obtains (known) "fst a \<in> set (node_ids s)" "announce a s = s"
    | (full) "fst a \<notin> set (node_ids s)" "length (node_ids s) = 10" "announce a s = s"
    | (new) i where "fst a \<notin> set (node_ids s)" "length (node_ids s) < 10" "i < length (nodes s)"
        "reqId (nodes s ! i) = 0"
        "announce a s = register_node i (fst a) (fst (snd a)) (fst (snd (snd a))) (snd (snd (snd a))) s"
proof -
  obtain r buf len now where a: "a = (r, buf, len, now)" by (cases a)
  have ok: "r \<noteq> 0" "len \<le> 6" "unat len \<le> length buf" using assms(2) by (simp_all add: announcement_ok_def a)
  have len10: "length (nodes s) = 10" using assms(1) by (simp add: nodes_inv_def)
  have le: "length (node_ids s) \<le> 10"
    using length_filter_le[of "\<lambda>r. r \<noteq> 0" "map reqId (nodes s)"] len10 by (simp add: node_ids_def)
  show thesis
  proof (cases "r \<in> set (node_ids s)")
    case True
    then have "announce a s = s" using in_node_ids ok(1) by (simp add: a announce_def handlePublish_known)
    with True show ?thesis using known by (simp add: a)
  next
    case nw: False
    show ?thesis
    proof (cases "find_idx (\<lambda>n. reqId n = 0) (nodes s)")
      case None
      then have "0 \<notin> reqId ` set (nodes s)" by (auto simp: find_idx_None_iff)
      then have "announce a s = s" "length (node_ids s) = 10"
        using nw in_node_ids ok(1) node_ids_full_iff[OF len10]
        by (simp_all add: a announce_def handlePublish_full)
      with nw show ?thesis using full by (simp add: a)
    next
      case (Some i)
      note i = find_idx_SomeD[OF this]
      then have "length (node_ids s) < 10"
        using node_ids_full_iff[OF len10] le by (force simp: image_iff)
      moreover have "announce a s = register_node i r buf len now s"
        using nw in_node_ids ok(1) by (simp add: a announce_def handlePublish_new[OF assms(1) _ Some ok(2,3)])
      ultimately show ?thesis using new[of i] i nw by (simp add: a)
    qed
  qed
qed

interpretation canreg: registry announce fst node_ids nodes_inv announcement_ok 10
proof
  fix s :: canpt_state and a :: announcement
  assume inv: "nodes_inv s"
  show "distinct (node_ids s)" using inv by (simp add: nodes_inv_def node_ids_def)
  show "length (node_ids s) \<le> 10"
    using inv length_filter_le[of "\<lambda>r. r \<noteq> 0" "map reqId (nodes s)"]
    by (simp add: node_ids_def nodes_inv_def)
  assume ok: "announcement_ok a"
  then have ok': "fst a \<noteq> 0" "unat (fst (snd (snd a))) \<le> 6" "unat (fst (snd (snd a))) \<le> length (fst (snd a))"
    by (auto simp: announcement_ok_def word_le_nat_alt)
  note c = announce_cases[OF inv ok] and reg = register_node_ids[OF inv ok'(1) _ _ _ ok'(2,3)]
  show "nodes_inv (announce a s)" by (rule c) (simp_all add: inv reg)
  show "fst a \<in> set (node_ids s) \<Longrightarrow> node_ids (announce a s) = node_ids s" by (rule c) simp_all
  show "fst a \<notin> set (node_ids s) \<Longrightarrow> length (node_ids s) < 10 \<Longrightarrow>
      set (node_ids (announce a s)) = insert (fst a) (set (node_ids s))" by (rule c) (simp_all add: reg)
  show "fst a \<notin> set (node_ids s) \<Longrightarrow> length (node_ids s) = 10 \<Longrightarrow> node_ids (announce a s) = node_ids s"
    by (rule c) simp_all
qed

lemma nodes_inv_canpt_state0: "nodes_inv canpt_state0"
  by code_simp

text \<open>
  \<^bold>\<open>C19\<close>. Any sequence of announcements that together name at most 10 nodes (with non-zero
  identifiers and at most six capability bytes each) leaves exactly the old and the announced
  identifiers in the node table, each once, and keeps the table well-formed.
\<close>

theorem announcements_registered:
  assumes "nodes_inv s" "list_all announcement_ok as"
    and "card (set (node_ids s) \<union> fst ` set as) \<le> 10"
  shows "set (node_ids (fold announce as s)) = set (node_ids s) \<union> fst ` set as \<and>
    distinct (node_ids (fold announce as s)) \<and> nodes_inv (fold announce as s)"
  using canreg.fold_add_keys[OF assms] canreg.fold_add_inv[OF assms(1,2)] canreg.keys_distinct
  by blast

theorem announcements_registered_witness:
  "set (node_ids (fold announce [(0x21, [0x12, 0x30], 2, 5), (0x22, [], 0, 6), (0x21, [0x40], 1, 7)] canpt_state0))
    = {0x21, 0x22}"
proof -
  let ?as = "[(0x21, [0x12, 0x30], 2, 5), (0x22, [], 0, 6), (0x21, [0x40], 1, 7)] :: announcement list"
  have "list_all announcement_ok ?as" "card (set (node_ids canpt_state0) \<union> fst ` set ?as) \<le> 10" by code_simp+
  note announcements_registered[OF nodes_inv_canpt_state0 this, THEN conjunct1]
  also have "set (node_ids canpt_state0) \<union> fst ` set ?as = {0x21, 0x22}" by code_simp
  finally show ?thesis .
qed

section \<open>Node queries\<close>

lemma get_nodes_loop_eq:
  "len \<le> length buf \<Longrightarrow> pos \<le> len \<Longrightarrow>
   get_nodes_loop ns len buf pos =
     (let ids = take (len - pos) (filter (\<lambda>r. r \<noteq> 0) (map reqId ns))
      in Some (take pos buf @ ids @ drop (pos + length ids) buf, pos + length ids))"
proof (induction ns arbitrary: buf pos)
  case Nil
  then show ?case by simp
next
  case (Cons n ns)
  show ?case
  proof (cases "reqId n \<noteq> 0 \<and> pos < len")
    case True
    then obtain d where d: "len - pos = Suc d" "len - Suc pos = d" by (metis Suc_diff_Suc)
    show ?thesis
      using True Cons.prems Cons.IH[of "buf[pos := reqId n]" "pos + 1"] d
      by (simp add: Let_def take_wr)
  next
    case False
    then show ?thesis using Cons by (cases "pos = len") (auto simp: Let_def)
  qed
qed

text \<open>
  \<^verbatim>\<open>canpt_getNodes\<close> writes the identifiers of the registered nodes, in table order and
  cut off at the length of the buffer, to the front of the buffer, leaves the rest of the buffer
  alone and reports how many it wrote.
\<close>

lemma canpt_getNodes_correct:
  assumes "nodes_inv s" "len \<noteq> 0" "unat len \<le> length buf"
  shows "canpt_getNodes (Some buf) len (Some k) s =
    (let ids = take (unat len) (node_ids s)
     in Some (ERR_OK, Some (ids @ drop (length ids) buf), Some (word_of_nat (length ids))))"
  using assms by (simp add: canpt_getNodes_def get_nodes_loop_eq node_ids_def Let_def)

definition canpt_two_nodes :: canpt_state where
  "canpt_two_nodes = fold announce [(0x21, [0x12, 0x30], 2, 5), (0x22, [0x50], 1, 6)] canpt_state0"

lemma canpt_getNodes_correct_example:
  "canpt_getNodes (Some [9, 9, 9]) 3 (Some 0) canpt_two_nodes = Some (ERR_OK, Some [0x21, 0x22, 9], Some 2)"
proof -
  have "nodes_inv canpt_two_nodes" "node_ids canpt_two_nodes = [0x21, 0x22]" by code_simp+
  then show ?thesis by (simp add: canpt_getNodes_correct)
qed

lemma get_caps_loop_eq:
  "len \<le> length buf \<Longrightarrow> pos \<le> len \<Longrightarrow>
   get_caps_loop cs len buf pos =
     (let xs = take (len - pos) (takeWhile (\<lambda>c. c \<noteq> 0) cs)
      in Some (take pos buf @ xs @ drop (pos + length xs) buf, pos + length xs))"
proof (induction cs arbitrary: buf pos)
  case Nil
  then show ?case by simp
next
  case (Cons c cs)
  show ?case
  proof (cases "c \<noteq> 0 \<and> pos < len")
    case True
    then obtain d where d: "len - pos = Suc d" "len - Suc pos = d" by (metis Suc_diff_Suc)
    show ?thesis
      using True Cons.prems Cons.IH[of "buf[pos := c]" "pos + 1"] d
      by (simp add: Let_def take_wr)
  next
    case False
    then show ?thesis using Cons.prems by (cases "pos = len") (auto simp: Let_def)
  qed
qed

text \<open>
  \<^verbatim>\<open>canpt_getNodeCaps\<close> of a registered node writes its capabilities up to the first zero
  entry, cut off at the length of the buffer, and reports how many it wrote.
\<close>

lemma canpt_getNodeCaps_correct:
  assumes "nodes_inv s" "find_idx (\<lambda>n. reqId n = r) (nodes s) = Some i" "len \<noteq> 0" "unat len \<le> length buf"
  shows "canpt_getNodeCaps r (Some buf) len (Some k) s =
    (let cs = take (unat len) (takeWhile (\<lambda>c. c \<noteq> 0) (caps (nodes s ! i)))
     in Some (ERR_OK, Some (cs @ drop (length cs) buf), Some (word_of_nat (length cs))))"
  using assms by (simp add: canpt_getNodeCaps_def get_caps_loop_eq Let_def)

lemma canpt_getNodeCaps_correct_example:
  "canpt_getNodeCaps 0x21 (Some [9, 9, 9, 9]) 4 (Some 0) canpt_two_nodes =
    Some (ERR_OK, Some [0x10, 0x20, 0x30, 9], Some 3)"
proof -
  have "nodes_inv canpt_two_nodes" "find_idx (\<lambda>n. reqId n = 0x21) (nodes canpt_two_nodes) = Some 0"
    "takeWhile (\<lambda>c. c \<noteq> 0) (caps (nodes canpt_two_nodes ! 0)) = [0x10, 0x20, 0x30]" by code_simp+
  then show ?thesis by (simp add: canpt_getNodeCaps_correct)
qed

section \<open>Faults of the message handlers\<close>

definition free_slot :: "canpt_state \<Rightarrow> bool" where
  "free_slot s \<longleftrightarrow> 0 \<in> reqId ` set (nodes s)"

text \<open>
  \<^verbatim>\<open>processMessage\<close> is free of out-of-bounds accesses on every received frame except one
  kind: an announcement of an unknown node, with a free slot in the table, whose length field minus 2
  (in \<^verbatim>\<open>uint8_t\<close> arithmetic) exceeds 6. That frame overruns the 12 capabilities of the node.
\<close>

theorem processMessage_fault_iff:
  assumes "nodes_inv s" "length (dataA m) = 4" "length (dataB m) = 4"
  shows "processMessage None m now (s, c) = None \<longleftrightarrow>
    dataA m ! 1 AND CANPT_MSG_TYPE_MASK = CANPT_MSG_PUBLISH \<and>
    dataA m ! 0 \<notin> reqId ` set (nodes s) \<and> free_slot s \<and> 6 < msg_len m - 2"
proof -
  have p: "length (payload m) = 6" using assms(2,3) by (simp add: payload_def)
  have *: "handlePublish None r (payload m) len now (s, c) = None \<longleftrightarrow>
    r \<notin> reqId ` set (nodes s) \<and> free_slot s \<and> 6 < len" for r len
  proof (cases "r \<in> reqId ` set (nodes s) \<or> \<not> free_slot s")
    case True
    then have "handlePublish None r (payload m) len now (s, c) = Some (s, c)"
      by (cases "r \<in> reqId ` set (nodes s)") (simp_all add: handlePublish_known handlePublish_full free_slot_def)
    with True show ?thesis by auto
  next
    case False
    then obtain i where i: "find_idx (\<lambda>n. reqId n = 0) (nodes s) = Some i"
      by (cases "find_idx (\<lambda>n. reqId n = 0) (nodes s)") (force simp: find_idx_None_iff free_slot_def)+
    have n: "find_idx (\<lambda>n. reqId n = r) (nodes s) = None" using False by (auto simp: find_idx_None_iff)
    have "length (caps (nodes s ! i)) = 12"
      using assms(1) find_idx_SomeD(1)[OF i] by (auto simp: nodes_inv_def)
    then show ?thesis
      using False i n p publish_caps_overflow[of "caps (nodes s ! i)" "unat len" "payload m"]
        publish_caps_ok[of "caps (nodes s ! i)" "unat len" "payload m"]
      by (auto simp: handlePublish_def word_less_nat_alt)
  qed
  show ?thesis
    by (simp add: processMessage_def Let_def * handleValue_def handleSubscribeResponse_def)
qed

theorem processMessage_fault_iff_example:
  "processMessage None (msg0\<lparr>dataA := [0x21, 0x07, 0, 0], msg_len := 9\<rparr>) 0 (canpt_state0, ()) = None \<and>
   processMessage None (msg0\<lparr>dataA := [0x21, 0x07, 0, 0], msg_len := 8\<rparr>) 0 (canpt_state0, ()) \<noteq> None"
proof -
  let ?m = "\<lambda>l. msg0\<lparr>dataA := [0x21, 0x07, 0, 0], msg_len := l\<rparr>"
  have "0x21 \<notin> reqId ` set (nodes canpt_state0)" "free_slot canpt_state0" by code_simp+
  then show ?thesis
    using nodes_inv_canpt_state0 processMessage_fault_iff[of canpt_state0 "?m 9" 0 "()"]
      processMessage_fault_iff[of canpt_state0 "?m 8" 0 "()"]
    by (simp add: msg0_def)
qed

section \<open>Liveness check\<close>

text \<open>What one iteration does to the node it looks at when no call-back is installed.\<close>

definition age_node :: "u32 \<Rightarrow> node_t \<Rightarrow> node_t" where
  "age_node time n =
     (if reqId n = 0 then n
      else if aliveTime n + 3000 < time then n\<lparr>reqId := 0\<rparr>
      else if lastPoll n + 2500 < time then n\<lparr>lastPoll := time\<rparr> else n)"

definition poll_due :: "u32 \<Rightarrow> node_t \<Rightarrow> bool" where
  "poll_due time n \<longleftrightarrow> reqId n \<noteq> 0 \<and> \<not> aliveTime n + 3000 < time \<and> lastPoll n + 2500 < time"

lemma age_node_caps [simp]: "caps (age_node t n) = caps n"
  by (auto simp: age_node_def)

lemma age_node_reqId: "reqId (age_node t n) \<in> {0, reqId n}"
  by (auto simp: age_node_def)

lemma nodes_inv_age:
  assumes "nodes_inv s" "nodes s' = map (\<lambda>i. age_node (tick i) (nodes s ! i)) [0..<10]"
  shows "nodes_inv s'"
proof -
  have len: "length (nodes s) = 10" using assms(1) by (simp add: nodes_inv_def)
  have "map reqId (nodes s') ! i \<in> {0, map reqId (nodes s) ! i}" if "i < 10" for i
    using that age_node_reqId[of "tick i" "nodes s ! i"] len by (simp add: assms(2))
  then have "distinct (filter (\<lambda>r. r \<noteq> 0) (map reqId (nodes s')))"
    using assms len distinct_filter_zeroed[of 0 "map reqId (nodes s)" "map reqId (nodes s')"]
    by (simp add: nodes_inv_def)
  then show ?thesis using assms by (auto simp: nodes_inv_def)
qed

lemma check_nodes_nodes:
  assumes "distinct is" "\<forall>i \<in> set is. i < length (nodes s)"
  shows "\<exists>s'. check_nodes None tick is (s, c) = Some (s', c) \<and>
    nodes s' = map (\<lambda>i. if i \<in> set is then age_node (tick i) (nodes s ! i) else nodes s ! i) [0..<length (nodes s)] \<and>
    numNodes s' = numNodes s \<and>
    txMsg s' = (if \<exists>i \<in> set is. poll_due (tick i) (nodes s ! i)
                then (txMsg s)\<lparr>dataA := (dataA (txMsg s))[1 := CANPT_MSG_POLL]\<rparr> else txMsg s)"
  using assms
proof (induction "is" arbitrary: s)
  case Nil
  then show ?case by (simp add: map_nth)
next
  case (Cons i js)
  let ?n = "nodes s ! i"
  define t where "t = (if poll_due (tick i) ?n then set_dataA 1 CANPT_MSG_POLL s else s)
     \<lparr>nodes := (nodes s)[i := age_node (tick i) ?n]\<rparr>"
  have i: "i < length (nodes s)" "i \<notin> set js" using Cons.prems by auto
  have step: "check_nodes None tick (i # js) (s, c) = check_nodes None tick js (t, c)"
    by (cases s) (auto simp: t_def age_node_def poll_due_def Let_def canpt_poll_def set_dataA_def algebra_simps)
  obtain s' where s': "check_nodes None tick js (t, c) = Some (s', c)"
    "nodes s' = map (\<lambda>j. if j \<in> set js then age_node (tick j) (nodes t ! j) else nodes t ! j) [0..<length (nodes t)]"
    "numNodes s' = numNodes t"
    "txMsg s' = (if \<exists>j \<in> set js. poll_due (tick j) (nodes t ! j)
                then (txMsg t)\<lparr>dataA := (dataA (txMsg t))[1 := CANPT_MSG_POLL]\<rparr> else txMsg t)"
    using Cons.IH[of t] Cons.prems by (auto simp: t_def)
  have nt: "nodes t ! j = (if j = i then age_node (tick i) ?n else nodes s ! j)" "length (nodes t) = length (nodes s)" for j
    using i by (auto simp: t_def)
  have ex: "(\<exists>j \<in> set js. poll_due (tick j) (nodes t ! j)) \<longleftrightarrow> (\<exists>j \<in> set js. poll_due (tick j) (nodes s ! j))"
    using i by (auto simp: nt)
  have nn: "nodes s' = map (\<lambda>j. if j \<in> set (i # js) then age_node (tick j) (nodes s ! j) else nodes s ! j)
      [0..<length (nodes s)]"
    using s'(2) i(2) by (auto simp: nt)
  have "txMsg t = (if poll_due (tick i) ?n then (txMsg s)\<lparr>dataA := (dataA (txMsg s))[1 := CANPT_MSG_POLL]\<rparr> else txMsg s)"
    "numNodes t = numNodes s" by (simp_all add: t_def set_dataA_def)
  then show ?case
    unfolding step using s'(1,3,4) nn ex by auto
qed

text \<open>
  \<^verbatim>\<open>checkIfNodesAlive\<close> returns, frees exactly the nodes that have not been alive for
  3000 ms, refreshes the poll time of the others that are due, changes nothing else in the table, and
  does not decrement \<^verbatim>\<open>numNodes\<close>.
\<close>

lemma checkIfNodesAlive_effect:
  assumes "nodes_inv s"
  shows "\<exists>s'. checkIfNodesAlive None tick (s, c) = Some (s', c) \<and>
    nodes s' = map (\<lambda>i. age_node (tick i) (nodes s ! i)) [0..<10] \<and> numNodes s' = numNodes s \<and> nodes_inv s'"
proof -
  have len: "length (nodes s) = 10" using assms by (simp add: nodes_inv_def)
  then obtain s' where s': "checkIfNodesAlive None tick (s, c) = Some (s', c)"
    "nodes s' = map (\<lambda>i. age_node (tick i) (nodes s ! i)) [0..<10]" "numNodes s' = numNodes s"
    using check_nodes_nodes[of "[0..<10]" s tick c] unfolding checkIfNodesAlive_def by (auto cong: map_cong)
  have "nodes_inv s'"
    using assms len by (intro nodes_inv_age[OF assms s'(2)])
  with s' show ?thesis by blast
qed

lemma checkIfNodesAlive_effect_example:
  "\<exists>s'. checkIfNodesAlive None (\<lambda>_. 3006) (canpt_two_nodes, ()) = Some (s', ()) \<and>
     node_ids s' = [0x22] \<and> numNodes s' = 2"
proof -
  have "nodes_inv canpt_two_nodes" "numNodes canpt_two_nodes = 2"
    "filter (\<lambda>r. r \<noteq> 0) (map reqId (map (\<lambda>i. age_node 3006 (nodes canpt_two_nodes ! i)) [0..<10])) = [0x22]"
    by code_simp+
  then show ?thesis
    using checkIfNodesAlive_effect[of canpt_two_nodes "\<lambda>_. 3006" "()"] unfolding node_ids_def by fastforce
qed

section \<open>Transmission with time-out\<close>

lemma wait_tcs_done:
  "(\<forall>i < j. gs ! i AND CAN_GSR_TCS = 0 \<and> ts ! i < to) \<Longrightarrow> gs ! j AND CAN_GSR_TCS \<noteq> 0 \<Longrightarrow>
    j < length gs \<Longrightarrow> j \<le> length ts \<Longrightarrow> wait_tcs to gs ts = Some (drop (Suc j) gs, drop j ts)"
proof (induction j arbitrary: gs ts)
  case 0
  then show ?case by (cases gs) auto
next
  case (Suc j)
  obtain g gs' where [simp]: "gs = g # gs'" using Suc.prems by (cases gs) auto
  obtain t ts' where [simp]: "ts = t # ts'" using Suc.prems by (cases ts) auto
  have "\<forall>i < j. gs' ! i AND CAN_GSR_TCS = 0 \<and> ts' ! i < to" using Suc.prems(1) by auto
  then show ?case using Suc.IH[of gs' ts'] Suc.prems by auto
qed

lemma wait_tcs_timeout:
  "(\<forall>i < k. gs ! i AND CAN_GSR_TCS = 0 \<and> ts ! i < to) \<Longrightarrow> gs ! k AND CAN_GSR_TCS = 0 \<Longrightarrow> to \<le> ts ! k \<Longrightarrow>
    k < length gs \<Longrightarrow> k < length ts \<Longrightarrow> wait_tcs to gs ts = Some (drop (Suc k) gs, drop (Suc k) ts)"
proof (induction k arbitrary: gs ts)
  case 0
  then show ?case by (cases gs; cases ts) (auto simp: not_less)
next
  case (Suc k)
  obtain g gs' where [simp]: "gs = g # gs'" using Suc.prems by (cases gs) auto
  obtain t ts' where [simp]: "ts = t # ts'" using Suc.prems by (cases ts) auto
  have "\<forall>i < k. gs' ! i AND CAN_GSR_TCS = 0 \<and> ts' ! i < to" using Suc.prems(1) by auto
  then show ?case using Suc.IH[of gs' ts'] Suc.prems by auto
qed

lemma wait_tcs_returns:
  "k < length gs \<Longrightarrow> Suc k < length ts \<Longrightarrow> to \<le> ts ! k \<Longrightarrow>
    \<exists>gs' t ts'. wait_tcs to gs ts = Some (gs', t # ts')"
proof (induction gs arbitrary: ts k)
  case (Cons g gs)
  obtain t ts' where [simp]: "ts = t # ts'" using Cons.prems by (cases ts) auto
  show ?case
  proof (cases "g AND CAN_GSR_TCS = 0 \<and> t < to")
    case True
    then obtain k' where "k = Suc k'" using Cons.prems(3) by (cases k) auto
    then show ?thesis using True Cons.IH[of k' ts'] Cons.prems by simp
  next
    case False
    then show ?thesis using Cons.prems(2) by (cases ts') (auto simp: not_less)
  qed
qed simp

lemma send_and_wait_busy:
  "msg_wf m \<Longrightarrow> \<not> bit (SR (can_get c h)) 2 \<Longrightarrow> send_and_wait c m to gs ts h = Some (ERR_CAN_SEND, h)"
  by (simp add: send_and_wait_def CAN_SendMsg_eq)

lemma send_and_wait_returns:
  assumes "msg_wf m" "k < length gs" "Suc k < length ts" "to \<le> ts ! k"
  shows "\<exists>err. err \<in> {ERR_OK, ERR_TIMEOUT} \<and>
     send_and_wait c m to gs ts h =
       (if bit (SR (can_get c h)) 2 then Some (err, can_upd c (load_tx1 m) h) else Some (ERR_CAN_SEND, h))"
  using wait_tcs_returns[OF assms(2-4)] assms(1)
  by (auto simp: send_and_wait_def CAN_SendMsg_eq)

lemma send_and_wait_ok:
  assumes "msg_wf m" "bit (SR (can_get c h)) 2" "j < length gs" "j < length ts"
    and "\<forall>i < j. gs ! i AND CAN_GSR_TCS = 0" "gs ! j AND CAN_GSR_TCS \<noteq> 0" "\<forall>i \<le> j. ts ! i < to"
  shows "send_and_wait c m to gs ts h = Some (ERR_OK, can_upd c (load_tx1 m) h)"
proof -
  have w: "wait_tcs to gs ts = Some (drop (Suc j) gs, ts ! j # drop (Suc j) ts)"
    using assms by (subst wait_tcs_done[of j]) (auto simp: Cons_nth_drop_Suc)
  have "ts ! j < to" using assms by simp
  then show ?thesis using assms(1,2) by (simp add: send_and_wait_def CAN_SendMsg_eq w not_le)
qed

lemma send_and_wait_timeout:
  assumes "msg_wf m" "bit (SR (can_get c h)) 2" "k < length gs" "Suc k < length ts"
    and "\<forall>i \<le> k. gs ! i AND CAN_GSR_TCS = 0" "\<forall>i < k. ts ! i < to" "to \<le> ts ! k" "to \<le> ts ! Suc k"
  shows "send_and_wait c m to gs ts h = Some (ERR_TIMEOUT, can_upd c (load_tx1 m) h)"
proof -
  have w: "wait_tcs to gs ts = Some (drop (Suc k) gs, ts ! Suc k # drop (Suc (Suc k)) ts)"
    using assms by (subst wait_tcs_timeout[of k]) (auto simp: Cons_nth_drop_Suc)
  then show ?thesis using assms(1,2,8) by (simp add: send_and_wait_def CAN_SendMsg_eq w)
qed

section \<open>The forwarding task\<close>

lemma q_get_Cons:
  assumes "q_inv s" "q_list s = m # ms"
  obtains i s' where "q_get s = (Some i, s')" "rxMsgs s' ! i = m" "q_list s' = ms" "q_inv s'" "i < 5"
proof -
  have "\<not> q_isEmpty s" using assms canq.empty_iff by simp
  then obtain i s' where g: "q_get s = (Some i, s')" "i < 5"
    using assms(1) by (auto simp: q_get_alt q_isEmpty_def q_inv_def)
  moreover have "rxMsgs s' ! i = m" "q_list s' = ms"
    using canq.get_Cons[OF assms] g by (simp_all add: q_take_def)
  moreover have "q_inv s'" using q_get_inv[OF assms(1)] g by simp
  ultimately show thesis using that by blast
qed

lemma canpt_task_Cons:
  assumes "q_inv s" "q_list s = m # ms" "ts = t0 # ts'"
  obtains s' where "q_list s' = ms" "q_inv s'" "nodes s' = nodes s" "txMsg s' = txMsg s"
    "canpt_task gs ts h s =
       map_option (\<lambda>(err, h'). (Some err, h', s')) (send_and_wait CAN2 m (t0 + 500) gs ts' h)"
proof -
  obtain i s' where g: "q_get s = (Some i, s')" "rxMsgs s' ! i = m" "q_list s' = ms" "q_inv s'"
    using q_get_Cons[OF assms(1,2)] by metis
  have "nodes s' = nodes s" "txMsg s' = txMsg s" using g(1) assms(1) by (auto simp: q_get_alt split: if_splits)
  moreover have "\<not> q_isEmpty s" using assms canq.empty_iff by simp
  then have "canpt_task gs ts h s =
       map_option (\<lambda>(err, h'). (Some err, h', s')) (send_and_wait CAN2 m (t0 + 500) gs ts' h)"
    using g(1,2) assms(3) by (cases "send_and_wait CAN2 m (t0 + 500) gs ts' h") (auto simp: canpt_task_def)
  ultimately show thesis using that g by blast
qed

text \<open>
  \<^bold>\<open>C2\<close>. \<^verbatim>\<open>canpt_task\<close> on a non-empty queue returns once the clock passes the deadline, removes
  the oldest frame, and loads it into transmit buffer 1 of CAN2 when that buffer is free. When it is
  not, the frame is gone without having been sent (\<^verbatim>\<open>ERR_CAN_SEND\<close> is computed and ignored).
\<close>

theorem canpt_task_forwards:
  assumes "q_inv s" "q_list s = m # ms" "msg_wf m"
    and "ts = t0 # ts'" "k < length gs" "Suc k < length ts'" "t0 + 500 \<le> ts' ! k"
  shows "\<exists>err s'. canpt_task gs ts h s =
      Some (Some err, if bit (SR (LPC_CAN2 h)) 2 then can_upd CAN2 (load_tx1 m) h else h, s') \<and>
    (err = ERR_CAN_SEND \<longleftrightarrow> \<not> bit (SR (LPC_CAN2 h)) 2) \<and> q_list s' = ms \<and> q_inv s'"
proof -
  obtain s' where s': "q_list s' = ms" "q_inv s'" "canpt_task gs ts h s =
       map_option (\<lambda>(err, h'). (Some err, h', s')) (send_and_wait CAN2 m (t0 + 500) gs ts' h)"
    using canpt_task_Cons[OF assms(1,2,4)] by metis
  obtain err where err: "err \<in> {ERR_OK, ERR_TIMEOUT}"
     "send_and_wait CAN2 m (t0 + 500) gs ts' h =
       (if bit (SR (can_get CAN2 h)) 2 then Some (err, can_upd CAN2 (load_tx1 m) h) else Some (ERR_CAN_SEND, h))"
    using send_and_wait_returns[OF assms(3,5-7)] by blast
  show ?thesis
  proof (cases "bit (SR (LPC_CAN2 h)) 2")
    case True
    then show ?thesis using s' err by (auto simp: can_get_def)
  next
    case False
    then show ?thesis using s' err by (auto simp: can_get_def)
  qed
qed

theorem canpt_task_forwards_witness:
  "\<exists>err s'. canpt_task [0, 0] [100, 200, 600, 601] (can_hw0\<lparr>LPC_CAN2 := can_regs0\<lparr>SR := 4\<rparr>\<rparr>)
      (q_put (msg0\<lparr>msg_id := 7\<rparr>) canpt_state0) =
    Some (Some err, can_upd CAN2 (load_tx1 (msg0\<lparr>msg_id := 7\<rparr>)) (can_hw0\<lparr>LPC_CAN2 := can_regs0\<lparr>SR := 4\<rparr>\<rparr>), s') \<and>
    q_list s' = []"
proof -
  let ?s = "q_put (msg0\<lparr>msg_id := 7\<rparr>) canpt_state0"
  have "q_inv ?s" "q_list ?s = [msg0\<lparr>msg_id := 7\<rparr>]" "msg_wf (msg0\<lparr>msg_id := 7\<rparr>)" by code_simp+
  from canpt_task_forwards[OF this refl, of 1 "[0, 0]" "[200, 600, 601]" 100
      "can_hw0\<lparr>LPC_CAN2 := can_regs0\<lparr>SR := 4\<rparr>\<rparr>"]
  show ?thesis by (auto simp: bit_single)
qed

end
