(* ===== verification/CanFilter.thy ===== *)
theory CanFilter
  imports CanDriver
begin

unbundle bit_operations_syntax

text \<open>
  The acceptance filter look-up table of \<^verbatim>\<open>Lib_MCU/src/lpc17xx_can.c\<close>: 512 words of RAM that
  hold, one after the other, the FullCAN identifiers and the explicit standard identifiers (two
  16-bit entries per word), the groups of standard identifiers (one word each), the explicit
  extended identifiers (one word each), the groups of extended identifiers (two words each) and
  the FullCAN objects (three words each). The number of entries of each section is a file-scope
  counter.

  The counters are 16-bit values (\<open>mod 65536\<close> is written out). Every access to the RAM is checked:
  an index outside the 512 words is \<^const>\<open>None\<close>. The table size is assigned to an
  \<^verbatim>\<open>int16_t\<close>; a size that does not fit is \<^const>\<open>None\<close>. The loops that run a number of times
  known at their start are recursions over that number.
\<close>

section \<open>Data\<close>

datatype CAN_ERROR =
    CAN_OK | CAN_OBJECTS_FULL_ERROR | CAN_FULL_OBJ_NOT_RCV | CAN_NO_RECEIVE_DATA
  | CAN_AF_ENTRY_ERROR | CAN_CONFLICT_ID_ERROR | CAN_ENTRY_NOT_EXIT_ERROR

datatype AFLUT_ENTRY_Type =
    FULLCAN_ENTRY | EXPLICIT_STANDARD_ENTRY | GROUP_STANDARD_ENTRY | EXPLICIT_EXTEND_ENTRY
  | GROUP_EXTEND_ENTRY

record af_cnt =
  CANAF_FullCAN_cnt :: nat
  CANAF_std_cnt :: nat
  CANAF_gstd_cnt :: nat
  CANAF_ext_cnt :: nat
  CANAF_gext_cnt :: nat
  FULLCAN_ENABLE :: FunctionalState

definition af_cnt0 :: af_cnt where
  "af_cnt0 = \<lparr>CANAF_FullCAN_cnt = 0, CANAF_std_cnt = 0, CANAF_gstd_cnt = 0, CANAF_ext_cnt = 0,
     CANAF_gext_cnt = 0, FULLCAN_ENABLE = DISABLE\<rparr>"

definition inc16 :: "nat \<Rightarrow> nat" where
  "inc16 n = (n + 1) mod 65536"

definition dec16 :: "nat \<Rightarrow> nat" where
  "dec16 n = (n + 65535) mod 65536"

text \<open>Words used by the FullCAN and by the standard section.\<close>

definition fc_words :: "af_cnt \<Rightarrow> nat" where
  "fc_words a = (CANAF_FullCAN_cnt a + 1) div 2"

definition std_words :: "af_cnt \<Rightarrow> nat" where
  "std_words a = (CANAF_std_cnt a + 1) div 2"

text \<open>The words in use, with and without the FullCAN objects.\<close>

definition af_words :: "af_cnt \<Rightarrow> nat" where
  "af_words a = fc_words a + std_words a + CANAF_gstd_cnt a + CANAF_ext_cnt a + 2 * CANAF_gext_cnt a"

definition af_total :: "af_cnt \<Rightarrow> nat" where
  "af_total a = af_words a + CANAF_FullCAN_cnt a * 3"

definition total16 :: "nat \<Rightarrow> nat option" where
  "total16 n = (if n < 32768 then Some n else None)"

definition af_upd :: "(LPC_CANAF_TypeDef \<Rightarrow> LPC_CANAF_TypeDef) \<Rightarrow> can_hw \<Rightarrow> can_hw" where
  "af_upd f h = h\<lparr>LPC_CANAF := f (LPC_CANAF h)\<rparr>"

definition ctrl_num :: "CANx \<Rightarrow> u32" where
  "ctrl_num c = (case c of CAN1 \<Rightarrow> 0 | CAN2 \<Rightarrow> 1)"

section \<open>Loops over the table\<close>

text \<open>
  \<^verbatim>\<open>while (bound1--) { cnt1++; buf1 = mask[cnt1]; mask[cnt1] = buf0; buf0 = buf1; }\<close>
\<close>

fun shift_up :: "nat \<Rightarrow> nat \<Rightarrow> u32 \<Rightarrow> u32 list \<Rightarrow> u32 list option" where
  "shift_up 0 c b ram = Some ram"
| "shift_up (Suc n) c b ram = do {
     b1 \<leftarrow> rd ram (c + 1);
     ram' \<leftarrow> wr ram (c + 1) b;
     shift_up n (c + 1) b1 ram'
   }"

text \<open>
  The search for the 16-bit entry to insert before; \<open>k\<close> iterations remain. The result is the word
  index \<^verbatim>\<open>cnt1\<close> and the half-word index \<^verbatim>\<open>cnt2\<close>.
\<close>

fun half_search :: "nat \<Rightarrow> nat \<Rightarrow> nat \<Rightarrow> u32 \<Rightarrow> u32 list \<Rightarrow> (nat \<times> nat) option" where
  "half_search 0 c1 c2 i ram = Some (c1, c2)"
| "half_search (Suc k) c1 c2 i ram = do {
     w \<leftarrow> rd ram c1;
     (if drop_bit 16 w > i then Some (c1, c1 * 2)
      else if w AND 0x0000FFFF > i then Some (c1, c1 * 2 + 1)
      else half_search k (c1 + 1) c2 i ram)
   }"

text \<open>The loop that moves the remaining 16-bit entries one place up.\<close>

fun half_shift :: "nat \<Rightarrow> nat \<Rightarrow> u32 \<Rightarrow> u32 list \<Rightarrow> (nat \<times> u32 \<times> u32 list) option" where
  "half_shift 0 c b ram = Some (c, b, ram)"
| "half_shift (Suc n) c b ram = do {
     b1 \<leftarrow> rd ram (c + 1);
     ram' \<leftarrow> wr ram (c + 1) (drop_bit 16 b1 OR push_bit 16 b);
     half_shift n (c + 1) b1 ram'
   }"

section \<open>CAN_LoadExplicitEntry\<close>

definition std_insert :: "nat \<Rightarrow> nat \<Rightarrow> u32 \<Rightarrow> u32 list \<Rightarrow> u32 list option" where
  "std_insert fw n i ram =
     (if n = 0 then wr ram fw (0x0000FFFF OR push_bit 16 i)
      else if n = 1 then do {
        w \<leftarrow> rd ram fw;
        wr ram fw (if drop_bit 16 w > i then drop_bit 16 w OR push_bit 16 i
                   else (w AND 0xFFFF0000) OR i)
      }
      else do {
        let bound = fw + (n + 1) div 2;
        (c1, c2) \<leftarrow> half_search (bound - fw) fw n i ram;
        (if c1 = bound then
           (if even n then wr ram c1 (0x0000FFFF OR push_bit 16 i)
            else do { w \<leftarrow> rd ram c1; wr ram c1 ((w AND 0xFFFF0000) OR i) })
         else do {
           b0 \<leftarrow> rd ram c1;
           ram1 \<leftarrow> wr ram c1 (if even c2 then push_bit 16 i OR drop_bit 16 b0
                              else (b0 AND 0xFFFF0000) OR i);
           (c, b, ram2) \<leftarrow> half_shift (bound - 1 - c1) c1 b0 ram1;
           (if even n then wr ram2 (c + 1) (push_bit 16 b OR 0x0000FFFF) else Some ram2)
         })
      })"

definition load_explicit_std ::
  "CANx \<Rightarrow> u32 \<Rightarrow> nat \<Rightarrow> af_cnt \<Rightarrow> can_hw \<Rightarrow> (af_cnt \<times> can_hw) option" where
  "load_explicit_std c i0 tot a h = do {
     let i = (i0 AND 0x07FF) OR push_bit 13 (ctrl_num c);
     let ram = CANAF_RAM_mask h;
     ram1 \<leftarrow> (if even (CANAF_std_cnt a) then do {
                let c1 = fc_words a + std_words a;
                b0 \<leftarrow> rd ram c1;
                shift_up (tot - c1) c1 b0 ram
              } else Some ram);
     ram2 \<leftarrow> std_insert (fc_words a) (CANAF_std_cnt a) i ram1;
     Some (a\<lparr>CANAF_std_cnt := inc16 (CANAF_std_cnt a)\<rparr>,
       af_upd (\<lambda>r. r\<lparr>SFF_GRP_sa := SFF_GRP_sa r + 4, EFF_sa := EFF_sa r + 4,
         EFF_GRP_sa := EFF_GRP_sa r + 4, ENDofTable := ENDofTable r + 4\<rparr>)
         (h\<lparr>CANAF_RAM_mask := ram2\<rparr>))
   }"

fun ext_search :: "nat \<Rightarrow> nat \<Rightarrow> nat \<Rightarrow> u32 \<Rightarrow> u32 list \<Rightarrow> (nat \<times> nat) option" where
  "ext_search 0 c1 c2 i ram = Some (c1, c2)"
| "ext_search (Suc k) c1 c2 i ram = do {
     w \<leftarrow> rd ram c1;
     (if w > i then Some (c1, c2) else ext_search k (c1 + 1) (c2 + 1) i ram)
   }"

definition load_explicit_ext ::
  "CANx \<Rightarrow> u32 \<Rightarrow> nat \<Rightarrow> af_cnt \<Rightarrow> can_hw \<Rightarrow> (af_cnt \<times> can_hw) option" where
  "load_explicit_ext c i0 tot a h = do {
     let i = i0 OR push_bit 29 (ctrl_num c);
     let ram = CANAF_RAM_mask h;
     (c1, c2) \<leftarrow> ext_search (CANAF_ext_cnt a) (fc_words a + (std_words a + CANAF_gstd_cnt a)) 0 i ram;
     b0 \<leftarrow> rd ram c1;
     ram1 \<leftarrow> wr ram c1 i;
     ram2 \<leftarrow> shift_up (tot - c2) c1 b0 ram1;
     Some (a\<lparr>CANAF_ext_cnt := inc16 (CANAF_ext_cnt a)\<rparr>,
       af_upd (\<lambda>r. r\<lparr>EFF_GRP_sa := EFF_GRP_sa r + 4, ENDofTable := ENDofTable r + 4\<rparr>)
         (h\<lparr>CANAF_RAM_mask := ram2\<rparr>))
   }"

definition CAN_LoadExplicitEntry ::
  "CANx \<Rightarrow> u32 \<Rightarrow> u8 \<Rightarrow> af_cnt \<Rightarrow> can_hw \<Rightarrow> (CAN_ERROR \<times> af_cnt \<times> can_hw) option" where
  "CAN_LoadExplicitEntry c i fmt a h = do {
     CHECK_PARAM (fmt = STD_ID_FORMAT \<or> fmt = EXT_ID_FORMAT);
     tot \<leftarrow> total16 (af_total a);
     (if tot \<ge> 512 then Some (CAN_OBJECTS_FULL_ERROR, a, h)
      else do {
        let h1 = af_upd (\<lambda>r. r\<lparr>AFMR := 1\<rparr>) h;
        (a', h') \<leftarrow> (if fmt = STD_ID_FORMAT then load_explicit_std c i tot a h1
                    else load_explicit_ext c i tot a h1);
        Some (CAN_OK, a', af_upd (\<lambda>r. r\<lparr>AFMR := (if CANAF_FullCAN_cnt a' = 0 then 0 else 4)\<rparr>) h')
      })
   }"

section \<open>CAN_LoadFullCANEntry\<close>

definition fc_insert :: "nat \<Rightarrow> u32 \<Rightarrow> u32 list \<Rightarrow> (nat \<times> u32 list) option" where
  "fc_insert n i ram =
     (if n = 0 then do { ram' \<leftarrow> wr ram 0 (0x0000FFFF OR push_bit 16 i); Some (0, ram') }
      else if n = 1 then do {
        w \<leftarrow> rd ram 0;
        ram' \<leftarrow> wr ram 0 (if drop_bit 16 w > i then drop_bit 16 w OR push_bit 16 i
                          else (w AND 0xFFFF0000) OR i);
        Some (0, ram')
      }
      else do {
        let bound = (n - 1) div 2;
        (c1, c2) \<leftarrow> half_search (bound + 1) 0 n i ram;
        (if c1 > bound then do {
           ram' \<leftarrow> (if even n then wr ram c1 (0x0000FFFF OR push_bit 16 i)
                    else do { w \<leftarrow> rd ram c1; wr ram c1 ((w AND 0xFFFF0000) OR i) });
           Some (c2, ram')
         }
         else do {
           b0 \<leftarrow> rd ram c1;
           ram1 \<leftarrow> wr ram c1 (if even c2 then push_bit 16 i OR drop_bit 16 b0
                              else (b0 AND 0xFFFF0000) OR i);
           (c, b, ram2) \<leftarrow> half_shift (n div 2 - c1) c1 b0 ram1;
           ram3 \<leftarrow> (if even n then do { w \<leftarrow> rd ram2 c; wr ram2 c ((w AND 0xFFFF0000) OR 0x0000FFFF) }
                    else Some ram2);
           Some (c2, ram3)
         })
      })"

fun obj_shift :: "nat \<Rightarrow> nat \<Rightarrow> u32 \<Rightarrow> u32 \<Rightarrow> u32 \<Rightarrow> u32 list \<Rightarrow> u32 list option" where
  "obj_shift 0 c b0 b1 b2 ram = Some ram"
| "obj_shift (Suc n) c b0 b1 b2 ram = do {
     t0 \<leftarrow> rd ram c;
     t1 \<leftarrow> rd ram (c + 1);
     t2 \<leftarrow> rd ram (c + 2);
     ram0 \<leftarrow> wr ram c b0;
     ram1 \<leftarrow> wr ram0 (c + 1) b1;
     ram2 \<leftarrow> wr ram1 (c + 2) b2;
     obj_shift n (c + 3) t0 t1 t2 ram2
   }"

definition CAN_LoadFullCANEntry ::
  "CANx \<Rightarrow> u16 \<Rightarrow> af_cnt \<Rightarrow> can_hw \<Rightarrow> (CAN_ERROR \<times> af_cnt \<times> can_hw) option" where
  "CAN_LoadFullCANEntry c id0 a h = do {
     tot \<leftarrow> total16 (af_total a);
     (if tot \<ge> 508 \<or> CANAF_FullCAN_cnt a \<ge> 64 then Some (CAN_OBJECTS_FULL_ERROR, a, h)
      else do {
        let n = CANAF_FullCAN_cnt a;
        let i = ucast (id0 AND 0x07FF) OR push_bit 13 (ctrl_num c) OR push_bit 11 1;
        let ram = CANAF_RAM_mask h;
        ram1 \<leftarrow> (if even n \<and> tot \<noteq> 0 then do {
                   b0 \<leftarrow> rd ram (n div 2);
                   shift_up tot (n div 2) b0 ram
                 } else Some ram);
        (c2, ram2) \<leftarrow> fc_insert n i ram1;
        let c1 = tot - n * 3 + c2 * 3 + 1;
        b0 \<leftarrow> rd ram2 c1;
        b1 \<leftarrow> rd ram2 (c1 + 1);
        b2 \<leftarrow> rd ram2 (c1 + 2);
        ram3 \<leftarrow> wr ram2 (c1 + 2) 0;
        ram4 \<leftarrow> wr ram3 (c1 + 1) 0;
        ram5 \<leftarrow> wr ram4 c1 0;
        ram6 \<leftarrow> obj_shift (n - c2) (c1 + 3) b0 b1 b2 ram5;
        Some (CAN_OK, a\<lparr>CANAF_FullCAN_cnt := inc16 n\<rparr>,
          af_upd (\<lambda>r. r\<lparr>AFMR := 1, SFF_sa := SFF_sa r + 4, SFF_GRP_sa := SFF_GRP_sa r + 4,
            EFF_sa := EFF_sa r + 4, EFF_GRP_sa := EFF_GRP_sa r + 4, ENDofTable := ENDofTable r + 4,
            AFMR := 4\<rparr>) (h\<lparr>CANAF_RAM_mask := ram6\<rparr>))
      })
   }"

section \<open>CAN_LoadGroupEntry\<close>

text \<open>
  The search for the place of a new group. \<open>Inl ()\<close> is the early return with
  \<^verbatim>\<open>CAN_CONFLICT_ID_ERROR\<close>; otherwise the position, the remembered entry and the RAM, in which the
  new entry is already stored when the loop was left by \<^verbatim>\<open>break\<close>.
\<close>

fun gstd_search ::
  "nat \<Rightarrow> nat \<Rightarrow> u32 \<Rightarrow> u32 \<Rightarrow> u32 \<Rightarrow> u32 \<Rightarrow> u32 list \<Rightarrow> (unit + nat \<times> u32 \<times> u32 list) option" where
  "gstd_search 0 c lowerID upperID entry1 buf0 ram = Some (Inr (c, buf0, ram))"
| "gstd_search (Suc k) c lowerID upperID entry1 buf0 ram = do {
     w \<leftarrow> rd ram c;
     let LID = drop_bit 16 w AND 0x7FF;
     let UID = w AND 0x7FF;
     (if upperID \<le> LID then do { ram' \<leftarrow> wr ram c entry1; Some (Inr (c, w, ram')) }
      else if lowerID \<ge> UID then gstd_search k (c + 1) lowerID upperID entry1 w ram
      else Some (Inl ()))
   }"

definition load_group_std ::
  "CANx \<Rightarrow> u32 \<Rightarrow> u32 \<Rightarrow> nat \<Rightarrow> af_cnt \<Rightarrow> can_hw \<Rightarrow> (CAN_ERROR \<times> af_cnt \<times> can_hw) option" where
  "load_group_std c lower0 upper0 tot a h = do {
     let lowerID = lower0 AND 0x7FF;
     let upperID = upper0 AND 0x7FF;
     let tmp = ctrl_num c;
     let entry1 = push_bit 29 tmp OR push_bit 16 lowerID OR push_bit 13 tmp OR upperID;
     let c0 = fc_words a + std_words a;
     let ram = CANAF_RAM_mask h;
     let fin = (\<lambda>ram'. (CAN_OK, a\<lparr>CANAF_gstd_cnt := inc16 (CANAF_gstd_cnt a)\<rparr>,
       af_upd (\<lambda>r. r\<lparr>EFF_sa := EFF_sa r + 4, EFF_GRP_sa := EFF_GRP_sa r + 4,
         ENDofTable := ENDofTable r + 4, AFMR := 4\<rparr>) (h\<lparr>CANAF_RAM_mask := ram'\<rparr>)));
     (if CANAF_gstd_cnt a = 0 then do { ram' \<leftarrow> wr ram c0 entry1; Some (fin ram') }
      else do {
        let bound = c0 + CANAF_gstd_cnt a;
        res \<leftarrow> gstd_search (bound - c0) c0 lowerID upperID entry1 0 ram;
        (case res of
           Inl _ \<Rightarrow> Some (CAN_CONFLICT_ID_ERROR, a, h)
         | Inr (c1, b0, ram1) \<Rightarrow> do {
             (b0', ram2) \<leftarrow> (if c1 \<ge> bound then do {
                                b \<leftarrow> rd ram1 c1;
                                ram' \<leftarrow> wr ram1 c1 entry1;
                                Some (b, ram')
                              } else Some (b0, ram1));
             ram3 \<leftarrow> shift_up (tot - c1) c1 b0' ram2;
             Some (fin ram3)
           })
      })
   }"

fun gext_search ::
  "nat \<Rightarrow> nat \<Rightarrow> u32 \<Rightarrow> u32 \<Rightarrow> u32 \<Rightarrow> u32 \<Rightarrow> u32 \<Rightarrow> u32 \<Rightarrow> u32 list
    \<Rightarrow> (unit + nat \<times> u32 \<times> u32 \<times> u32 list) option" where
  "gext_search 0 c lowerID upperID entry1 entry2 buf0 buf1 ram = Some (Inr (c, buf0, buf1, ram))"
| "gext_search (Suc k) c lowerID upperID entry1 entry2 buf0 buf1 ram = do {
     w0 \<leftarrow> rd ram c;
     w1 \<leftarrow> rd ram (c + 1);
     let LID = w0 AND 0x1FFFFFFF;
     let UID = w1 AND 0x1FFFFFFF;
     (if upperID \<le> LID then do {
        ram1 \<leftarrow> wr ram c entry1;
        ram2 \<leftarrow> wr ram1 (c + 1) entry2;
        Some (Inr (c + 1, w0, w1, ram2))
      }
      else if lowerID \<ge> UID then gext_search k (c + 2) lowerID upperID entry1 entry2 w0 w1 ram
      else Some (Inl ()))
   }"

text \<open>The loop that moves the remaining words two places up, \<open>n\<close> iterations.\<close>

fun shift_up2 :: "nat \<Rightarrow> nat \<Rightarrow> u32 \<Rightarrow> u32 \<Rightarrow> u32 list \<Rightarrow> u32 list option" where
  "shift_up2 0 c b0 b1 ram = Some ram"
| "shift_up2 (Suc n) c b0 b1 ram = do {
     e1 \<leftarrow> rd ram c;
     e2 \<leftarrow> rd ram (c + 1);
     ram1 \<leftarrow> wr ram c b0;
     ram2 \<leftarrow> wr ram1 (c + 1) b1;
     shift_up2 n (c + 2) e1 e2 ram2
   }"

definition load_group_ext ::
  "CANx \<Rightarrow> u32 \<Rightarrow> u32 \<Rightarrow> nat \<Rightarrow> af_cnt \<Rightarrow> can_hw \<Rightarrow> (CAN_ERROR \<times> af_cnt \<times> can_hw) option" where
  "load_group_ext c lower0 upper0 tot a h = do {
     let lowerID = lower0 AND 0x1FFFFFFF;
     let upperID = upper0 AND 0x1FFFFFFF;
     let entry1 = push_bit 29 (ctrl_num c) OR lowerID;
     let entry2 = push_bit 29 (ctrl_num c) OR upperID;
     let c0 = fc_words a + std_words a + CANAF_gstd_cnt a + CANAF_ext_cnt a;
     let ram = CANAF_RAM_mask h;
     let fin = (\<lambda>ram'. (CAN_OK, a\<lparr>CANAF_gext_cnt := inc16 (CANAF_gext_cnt a)\<rparr>,
       af_upd (\<lambda>r. r\<lparr>ENDofTable := ENDofTable r + 8, AFMR := 4\<rparr>) (h\<lparr>CANAF_RAM_mask := ram'\<rparr>)));
     (if CANAF_gext_cnt a = 0 then do {
        ram1 \<leftarrow> wr ram c0 entry1;
        ram2 \<leftarrow> wr ram1 (c0 + 1) entry2;
        Some (fin ram2)
      }
      else do {
        let bound = c0 + 2 * CANAF_gext_cnt a;
        res \<leftarrow> gext_search (CANAF_gext_cnt a) c0 lowerID upperID entry1 entry2 0 0 ram;
        (case res of
           Inl _ \<Rightarrow> Some (CAN_CONFLICT_ID_ERROR, a, h)
         | Inr (c1, b0, b1, ram1) \<Rightarrow> do {
             (c2, b0', b1', ram2) \<leftarrow> (if c1 \<ge> bound then do {
                 x0 \<leftarrow> rd ram1 c1;
                 x1 \<leftarrow> rd ram1 (c1 + 1);
                 r1 \<leftarrow> wr ram1 c1 entry1;
                 r2 \<leftarrow> wr r1 (c1 + 1) entry2;
                 Some (c1 + 1, x0, x1, r2)
               } else Some (c1, b0, b1, ram1));
             ram3 \<leftarrow> shift_up2 ((tot + 1 - c2 + 1) div 2) (c2 + 1) b0' b1' ram2;
             Some (fin ram3)
           })
      })
   }"

definition CAN_LoadGroupEntry ::
  "CANx \<Rightarrow> u32 \<Rightarrow> u32 \<Rightarrow> u8 \<Rightarrow> af_cnt \<Rightarrow> can_hw \<Rightarrow> (CAN_ERROR \<times> af_cnt \<times> can_hw) option" where
  "CAN_LoadGroupEntry c lowerID upperID fmt a h = do {
     CHECK_PARAM (fmt = STD_ID_FORMAT \<or> fmt = EXT_ID_FORMAT);
     (if lowerID > upperID then Some (CAN_CONFLICT_ID_ERROR, a, h)
      else do {
        tot \<leftarrow> total16 (af_total a);
        let h1 = af_upd (\<lambda>r. r\<lparr>AFMR := 1\<rparr>) h;
        (if fmt = STD_ID_FORMAT then
           if tot \<ge> 512 then Some (CAN_OBJECTS_FULL_ERROR, a, h1)
           else load_group_std c lowerID upperID tot a h1
         else
           if tot \<ge> 511 then Some (CAN_OBJECTS_FULL_ERROR, a, h1)
           else load_group_ext c lowerID upperID tot a h1)
      })
   }"

section \<open>CAN_RemoveEntry\<close>

text \<open>
  The loops that move the 16-bit entries behind the removed one down, for an even and for an odd
  position, and the loop that moves the remaining words one place down.
\<close>

fun rem_even :: "nat \<Rightarrow> nat \<Rightarrow> u32 \<Rightarrow> u32 list \<Rightarrow> (nat \<times> u32 \<times> u32 list) option" where
  "rem_even 0 c b0 ram = Some (c, b0, ram)"
| "rem_even (Suc n) c b0 ram = do {
     b1 \<leftarrow> rd ram (c + 1);
     ram' \<leftarrow> wr ram c (drop_bit 16 b1 OR push_bit 16 b0);
     rem_even n (c + 1) b1 ram'
   }"

fun rem_odd :: "nat \<Rightarrow> nat \<Rightarrow> u32 \<Rightarrow> u32 list \<Rightarrow> (nat \<times> u32 \<times> u32 list) option" where
  "rem_odd 0 c b0 ram = Some (c, b0, ram)"
| "rem_odd (Suc n) c b0 ram = do {
     b1 \<leftarrow> rd ram (c + 1);
     ram1 \<leftarrow> wr ram c ((b0 AND 0xFFFF0000) OR drop_bit 16 b1);
     w \<leftarrow> rd ram1 (c + 1);
     ram2 \<leftarrow> wr ram1 (c + 1) (push_bit 16 w);
     rem_odd n (c + 1) (push_bit 16 b1) ram2
   }"

fun move_down :: "nat \<Rightarrow> nat \<Rightarrow> u32 list \<Rightarrow> (nat \<times> u32 list) option" where
  "move_down 0 c ram = Some (c, ram)"
| "move_down (Suc n) c ram = do {
     w \<leftarrow> rd ram c;
     ram' \<leftarrow> wr ram (c - 1) w;
     move_down n (c + 1) ram'
   }"

fun move_down2 :: "nat \<Rightarrow> nat \<Rightarrow> u32 list \<Rightarrow> u32 list option" where
  "move_down2 0 c ram = Some ram"
| "move_down2 (Suc n) c ram = do {
     w0 \<leftarrow> rd ram (c + 2);
     ram1 \<leftarrow> wr ram c w0;
     w1 \<leftarrow> rd ram1 (c + 3);
     ram2 \<leftarrow> wr ram1 (c + 1) w1;
     move_down2 n (c + 2) ram2
   }"

fun move_down3 :: "nat \<Rightarrow> nat \<Rightarrow> u32 list \<Rightarrow> u32 list option" where
  "move_down3 0 c ram = Some ram"
| "move_down3 (Suc n) c ram = do {
     w0 \<leftarrow> rd ram (c + 3);
     ram1 \<leftarrow> wr ram c w0;
     w1 \<leftarrow> rd ram1 (c + 4);
     ram2 \<leftarrow> wr ram1 (c + 1) w1;
     w2 \<leftarrow> rd ram2 (c + 5);
     ram3 \<leftarrow> wr ram2 (c + 2) w2;
     move_down3 n (c + 3) ram3
   }"

text \<open>
  The common part of the removal of a 16-bit entry: \<open>n\<close> entries in the section starting at word
  \<open>fw\<close>, \<open>cend\<close> the first word behind the section, \<open>bound\<close> the end of the table. The second
  component tells whether the section became one word shorter.
\<close>

definition half_remove ::
  "nat \<Rightarrow> nat \<Rightarrow> nat \<Rightarrow> nat \<Rightarrow> nat \<Rightarrow> u32 list \<Rightarrow> (u32 list \<times> bool) option" where
  "half_remove fw n cend bound position ram = do {
     let c0 = fw + position div 2;
     b0 \<leftarrow> rd ram c0;
     (c, b, ram1) \<leftarrow> (if even position then rem_even ((n - position - 1) div 2) c0 b0 ram
                     else rem_odd ((n - position - 1) div 2) c0 b0 ram);
     (if even n then do {
        ram2 \<leftarrow> wr ram1 c (if even position then push_bit 16 b OR 0x0000FFFF else b OR 0x0000FFFF);
        Some (ram2, False)
      }
      else do {
        (c', ram2) \<leftarrow> move_down (bound - cend) cend ram1;
        ram3 \<leftarrow> wr ram2 (c' - 1) 0;
        Some (ram3, True)
      })
   }"

definition remove_fc :: "nat \<Rightarrow> af_cnt \<Rightarrow> can_hw \<Rightarrow> (af_cnt \<times> can_hw) option" where
  "remove_fc position a h = do {
     let n = CANAF_FullCAN_cnt a;
     (ram1, shrunk) \<leftarrow> half_remove 0 n (fc_words a) (af_words a + n * 3) position (CANAF_RAM_mask h);
     let h1 = (if shrunk then af_upd (\<lambda>r. r\<lparr>SFF_sa := SFF_sa r - 4, SFF_GRP_sa := SFF_GRP_sa r - 4,
                 EFF_sa := EFF_sa r - 4, EFF_GRP_sa := EFF_GRP_sa r - 4, ENDofTable := ENDofTable r - 4\<rparr>) h
               else h);
     ram2 \<leftarrow> move_down3 (dec16 n - position + 1) (af_words a + position * 3) ram1;
     Some (a\<lparr>CANAF_FullCAN_cnt := dec16 n\<rparr>, h1\<lparr>CANAF_RAM_mask := ram2\<rparr>)
   }"

definition remove_std :: "nat \<Rightarrow> af_cnt \<Rightarrow> can_hw \<Rightarrow> (af_cnt \<times> can_hw) option" where
  "remove_std position a h = do {
     let n = CANAF_std_cnt a;
     (ram1, shrunk) \<leftarrow> half_remove (fc_words a) n (fc_words a + std_words a)
                        (af_words a + CANAF_FullCAN_cnt a * 3) position (CANAF_RAM_mask h);
     let h1 = (if shrunk then af_upd (\<lambda>r. r\<lparr>SFF_GRP_sa := SFF_GRP_sa r - 4, EFF_sa := EFF_sa r - 4,
                 EFF_GRP_sa := EFF_GRP_sa r - 4, ENDofTable := ENDofTable r - 4\<rparr>) h
               else h);
     Some (a\<lparr>CANAF_std_cnt := dec16 n\<rparr>, h1\<lparr>CANAF_RAM_mask := ram1\<rparr>)
   }"

text \<open>The removal of a one-word entry: words behind \<open>c\<close> move down, the last word is cleared.\<close>

definition word_remove :: "nat \<Rightarrow> nat \<Rightarrow> u32 list \<Rightarrow> u32 list option" where
  "word_remove c bound ram = do {
     (c', ram1) \<leftarrow> move_down (bound - c) c ram;
     wr ram1 (c' - 1) 0
   }"

definition CAN_RemoveEntry ::
  "AFLUT_ENTRY_Type \<Rightarrow> u16 \<Rightarrow> af_cnt \<Rightarrow> can_hw \<Rightarrow> (CAN_ERROR \<times> af_cnt \<times> can_hw) option" where
  "CAN_RemoveEntry EntryType pos a h0 = do {
     CHECK_PARAM (pos < 512);
     let position = unat pos;
     let h = af_upd (\<lambda>r. r\<lparr>AFMR := 1\<rparr>) h0;
     let bound = af_words a + CANAF_FullCAN_cnt a * 3;
     let n = (case EntryType of
                FULLCAN_ENTRY \<Rightarrow> CANAF_FullCAN_cnt a
              | EXPLICIT_STANDARD_ENTRY \<Rightarrow> CANAF_std_cnt a
              | GROUP_STANDARD_ENTRY \<Rightarrow> CANAF_gstd_cnt a
              | EXPLICIT_EXTEND_ENTRY \<Rightarrow> CANAF_ext_cnt a
              | GROUP_EXTEND_ENTRY \<Rightarrow> CANAF_gext_cnt a);
     (if n = 0 \<or> position \<ge> n then Some (CAN_ENTRY_NOT_EXIT_ERROR, a, h)
      else do {
        (a', h') \<leftarrow> (case EntryType of
            FULLCAN_ENTRY \<Rightarrow> remove_fc position a h
          | EXPLICIT_STANDARD_ENTRY \<Rightarrow> remove_std position a h
          | GROUP_STANDARD_ENTRY \<Rightarrow> do {
              ram \<leftarrow> word_remove (fc_words a + std_words a + position + 1) bound (CANAF_RAM_mask h);
              Some (a\<lparr>CANAF_gstd_cnt := dec16 n\<rparr>,
                af_upd (\<lambda>r. r\<lparr>EFF_sa := EFF_sa r - 4, EFF_GRP_sa := EFF_GRP_sa r - 4,
                  ENDofTable := ENDofTable r - 4\<rparr>) (h\<lparr>CANAF_RAM_mask := ram\<rparr>))
            }
          | EXPLICIT_EXTEND_ENTRY \<Rightarrow> do {
              ram \<leftarrow> word_remove (fc_words a + std_words a + CANAF_gstd_cnt a + position + 1) bound
                      (CANAF_RAM_mask h);
              Some (a\<lparr>CANAF_ext_cnt := dec16 n\<rparr>,
                af_upd (\<lambda>r. r\<lparr>EFF_GRP_sa := EFF_GRP_sa r - 4, ENDofTable := ENDofTable r - 4\<rparr>)
                  (h\<lparr>CANAF_RAM_mask := ram\<rparr>))
            }
          | GROUP_EXTEND_ENTRY \<Rightarrow> do {
              let c = af_words a - 2 * n + 2 * position;
              ram \<leftarrow> move_down2 ((bound - c + 1) div 2) c (CANAF_RAM_mask h);
              Some (a\<lparr>CANAF_gext_cnt := dec16 n\<rparr>,
                af_upd (\<lambda>r. r\<lparr>ENDofTable := ENDofTable r - 8\<rparr>) (h\<lparr>CANAF_RAM_mask := ram\<rparr>))
            });
        Some (CAN_OK, a', af_upd (\<lambda>r. r\<lparr>AFMR := 4\<rparr>) h')
      })
   }"

section \<open>CAN_SetupAFLUT\<close>

record FullCAN_Entry =
  controller :: u8
  disable :: u8
  id_11 :: u16

type_synonym SFF_Entry = FullCAN_Entry

record SFF_GPR_Entry =
  controller1 :: u8
  disable1 :: u8
  lowerID :: u16
  controller2 :: u8
  disable2 :: u8
  upperID :: u16

record EFF_Entry =
  eff_controller :: u8
  ID_29 :: u32

record EFF_GPR_Entry =
  eff_controller1 :: u8
  eff_controller2 :: u8
  lowerEID :: u32
  upperEID :: u32

text \<open>
  The section pointers are the lists of the entries from the pointer on (\<^const>\<open>None\<close> is the null
  pointer); the code advances them, so the rest is part of the result. Reading behind the last
  entry is \<^const>\<open>None\<close>.
\<close>

record AF_SectionDef =
  FullCAN_Sec :: "FullCAN_Entry list option"
  FC_NumEntry :: u8
  SFF_Sec :: "SFF_Entry list option"
  SFF_NumEntry :: u8
  SFF_GPR_Sec :: "SFF_GPR_Entry list option"
  SFF_GPR_NumEntry :: u8
  EFF_Sec :: "EFF_Entry list option"
  EFF_NumEntry :: u8
  EFF_GPR_Sec :: "EFF_GPR_Entry list option"
  EFF_GPR_NumEntry :: u8

definition PARAM_CTRL :: "u8 \<Rightarrow> bool" where
  "PARAM_CTRL n \<longleftrightarrow> n = 0 \<or> n = 1"

definition PARAM_MSG_DISABLE :: "u8 \<Rightarrow> bool" where
  "PARAM_MSG_DISABLE n \<longleftrightarrow> n = 0 \<or> n = 1"

text \<open>
  One section each: \<open>k\<close> entries remain, \<open>count\<close> is the next word. The first component of the
  result is the error of an early return.
\<close>

fun setup_fc ::
  "nat \<Rightarrow> FullCAN_Entry list \<Rightarrow> nat \<Rightarrow> nat \<Rightarrow> u32 list
    \<Rightarrow> (CAN_ERROR option \<times> FullCAN_Entry list \<times> nat \<times> nat \<times> u32 list) option" where
  "setup_fc 0 es count n ram = Some (None, es, count, n, ram)"
| "setup_fc (Suc k) es count n ram =
     (if count + 1 > 64 then Some (Some CAN_OBJECTS_FULL_ERROR, es, count, n, ram)
      else (case es of [] \<Rightarrow> None | e # es' \<Rightarrow> do {
        CHECK_PARAM (PARAM_CTRL (controller e));
        CHECK_PARAM (drop_bit 11 (id_11 e) = 0);
        CHECK_PARAM (PARAM_MSG_DISABLE (disable e));
        (if even n then do {
           prev \<leftarrow> (if count \<noteq> 0 then do { b \<leftarrow> rd ram (count - 1); Some (ucast (b AND 0x3FF)) }
                    else Some (0 :: u16));
           (if prev > id_11 e then Some (Some CAN_AF_ENTRY_ERROR, es, count, n, ram)
            else do {
              w \<leftarrow> rd ram count;
              ram' \<leftarrow> wr ram count ((w AND 0x0000FFFF) OR (push_bit 29 (ucast (controller e)) OR
                push_bit 28 (ucast (disable e)) OR push_bit 16 (ucast (id_11 e)) OR push_bit 27 1));
              setup_fc k es' count (inc16 n) ram'
            })
         }
         else do {
           w \<leftarrow> rd ram count;
           (if (ucast (drop_bit 16 (w AND 0x03FF0000)) :: u16) > id_11 e
            then Some (Some CAN_AF_ENTRY_ERROR, es, count, n, ram)
            else do {
              ram' \<leftarrow> wr ram count ((w AND 0xFFFF0000) OR (push_bit 13 (ucast (controller e)) OR
                push_bit 12 (ucast (disable e)) OR ucast (id_11 e) OR push_bit 11 1));
              setup_fc k es' (count + 1) (inc16 n) ram'
            })
         })
      }))"

fun setup_sff ::
  "nat \<Rightarrow> SFF_Entry list \<Rightarrow> nat \<Rightarrow> nat \<Rightarrow> u32 list
    \<Rightarrow> (CAN_ERROR option \<times> SFF_Entry list \<times> nat \<times> nat \<times> u32 list) option" where
  "setup_sff 0 es count n ram = Some (None, es, count, n, ram)"
| "setup_sff (Suc k) es count n ram =
     (if count + 1 > 512 then Some (Some CAN_OBJECTS_FULL_ERROR, es, count, n, ram)
      else (case es of [] \<Rightarrow> None | e # es' \<Rightarrow> do {
        CHECK_PARAM (PARAM_CTRL (controller e));
        CHECK_PARAM (drop_bit 11 (id_11 e) = 0);
        CHECK_PARAM (PARAM_MSG_DISABLE (disable e));
        (if even n then do {
           prev \<leftarrow> (if n \<noteq> 0 then (if count = 0 then None
                      else do { b \<leftarrow> rd ram (count - 1); Some (ucast (b AND 0xFFF)) })
                    else Some (0 :: u16));
           (if prev > id_11 e then Some (Some CAN_AF_ENTRY_ERROR, es, count, n, ram)
            else do {
              w \<leftarrow> rd ram count;
              ram' \<leftarrow> wr ram count ((w AND 0x0000FFFF) OR (push_bit 29 (ucast (controller e)) OR
                push_bit 28 (ucast (disable e)) OR push_bit 16 (ucast (id_11 e))));
              setup_sff k es' count (inc16 n) ram'
            })
         }
         else do {
           w \<leftarrow> rd ram count;
           (if (ucast (drop_bit 16 (w AND 0x0FFF0000)) :: u16) > id_11 e
            then Some (Some CAN_AF_ENTRY_ERROR, es, count, n, ram)
            else do {
              ram' \<leftarrow> wr ram count ((w AND 0xFFFF0000) OR (push_bit 13 (ucast (controller e)) OR
                push_bit 12 (ucast (disable e)) OR ucast (id_11 e)));
              setup_sff k es' (count + 1) (inc16 n) ram'
            })
         })
      }))"

fun setup_gsff ::
  "nat \<Rightarrow> SFF_GPR_Entry list \<Rightarrow> nat \<Rightarrow> nat \<Rightarrow> u32 list
    \<Rightarrow> (CAN_ERROR option \<times> SFF_GPR_Entry list \<times> nat \<times> nat \<times> u32 list) option" where
  "setup_gsff 0 es count n ram = Some (None, es, count, n, ram)"
| "setup_gsff (Suc k) es count n ram =
     (if count + 1 > 512 then Some (Some CAN_OBJECTS_FULL_ERROR, es, count, n, ram)
      else (case es of [] \<Rightarrow> None | e # es' \<Rightarrow> do {
        CHECK_PARAM (PARAM_CTRL (controller1 e));
        CHECK_PARAM (PARAM_CTRL (controller2 e));
        CHECK_PARAM (PARAM_MSG_DISABLE (disable1 e));
        CHECK_PARAM (PARAM_MSG_DISABLE (disable2 e));
        CHECK_PARAM (drop_bit 11 (lowerID e) = 0);
        CHECK_PARAM (drop_bit 11 (upperID e) = 0);
        prev \<leftarrow> (if n \<noteq> 0 then (if count = 0 then None
                   else do { b \<leftarrow> rd ram (count - 1); Some (ucast (b AND 0xFFF)) })
                 else Some (0 :: u16));
        (if prev > lowerID e then Some (Some CAN_AF_ENTRY_ERROR, es, count, n, ram)
         else do {
           ram' \<leftarrow> wr ram count (push_bit 29 (ucast (controller1 e)) OR push_bit 28 (ucast (disable1 e)) OR
             push_bit 16 (ucast (lowerID e)) OR push_bit 13 (ucast (controller2 e)) OR
             push_bit 12 (ucast (disable2 e)) OR ucast (upperID e));
           setup_gsff k es' (count + 1) (inc16 n) ram'
         })
      }))"

fun setup_eff ::
  "nat \<Rightarrow> EFF_Entry list \<Rightarrow> nat \<Rightarrow> nat \<Rightarrow> u32 list
    \<Rightarrow> (CAN_ERROR option \<times> EFF_Entry list \<times> nat \<times> nat \<times> u32 list) option" where
  "setup_eff 0 es count n ram = Some (None, es, count, n, ram)"
| "setup_eff (Suc k) es count n ram =
     (if count + 1 > 512 then Some (Some CAN_OBJECTS_FULL_ERROR, es, count, n, ram)
      else (case es of [] \<Rightarrow> None | e # es' \<Rightarrow> do {
        CHECK_PARAM (drop_bit 29 (ID_29 e) = 0);
        CHECK_PARAM (PARAM_CTRL (eff_controller e));
        prev \<leftarrow> (if n \<noteq> 0 then (if count = 0 then None
                   else do { b \<leftarrow> rd ram (count - 1); Some (b AND 0x0FFFFFFF) })
                 else Some 0);
        (if prev > ID_29 e then Some (Some CAN_AF_ENTRY_ERROR, es, count, n, ram)
         else do {
           ram' \<leftarrow> wr ram count (push_bit 29 (ucast (eff_controller e)) OR ID_29 e);
           setup_eff k es' (count + 1) (inc16 n) ram'
         })
      }))"

fun setup_geff ::
  "nat \<Rightarrow> EFF_GPR_Entry list \<Rightarrow> nat \<Rightarrow> nat \<Rightarrow> u32 list
    \<Rightarrow> (CAN_ERROR option \<times> EFF_GPR_Entry list \<times> nat \<times> nat \<times> u32 list) option" where
  "setup_geff 0 es count n ram = Some (None, es, count, n, ram)"
| "setup_geff (Suc k) es count n ram =
     (if count + 2 > 512 then Some (Some CAN_OBJECTS_FULL_ERROR, es, count, n, ram)
      else (case es of [] \<Rightarrow> None | e # es' \<Rightarrow> do {
        CHECK_PARAM (PARAM_CTRL (eff_controller1 e));
        CHECK_PARAM (PARAM_CTRL (eff_controller2 e));
        CHECK_PARAM (drop_bit 29 (lowerEID e) = 0);
        CHECK_PARAM (drop_bit 29 (upperEID e) = 0);
        prev \<leftarrow> (if n \<noteq> 0 then (if count = 0 then None
                   else do { b \<leftarrow> rd ram (count - 1); Some (b AND 0x0FFFFFFF) })
                 else Some 0);
        (if prev > lowerEID e then Some (Some CAN_AF_ENTRY_ERROR, es, count, n, ram)
         else do {
           ram1 \<leftarrow> wr ram count (push_bit 29 (ucast (eff_controller1 e)) OR lowerEID e);
           ram2 \<leftarrow> wr ram1 (count + 1) (push_bit 29 (ucast (eff_controller2 e)) OR upperEID e);
           setup_geff k es' (count + 2) (inc16 n) ram2
         })
      }))"

text \<open>Running a section: a null pointer skips it, an earlier error ends the setup.\<close>

definition run_section ::
  "(nat \<Rightarrow> 'e list \<Rightarrow> nat \<Rightarrow> nat \<Rightarrow> u32 list
      \<Rightarrow> (CAN_ERROR option \<times> 'e list \<times> nat \<times> nat \<times> u32 list) option)
    \<Rightarrow> u8 \<Rightarrow> 'e list option \<Rightarrow> CAN_ERROR option \<Rightarrow> nat \<Rightarrow> nat \<Rightarrow> u32 list
    \<Rightarrow> (CAN_ERROR option \<times> 'e list option \<times> nat \<times> nat \<times> u32 list) option" where
  "run_section f num sec err count n ram =
     (case (err, sec) of
        (None, Some es) \<Rightarrow> do {
          (err', es', count', n', ram') \<leftarrow> f (unat num) es count n ram;
          Some (err', Some es', count', n', ram')
        }
      | _ \<Rightarrow> Some (err, sec, count, n, ram))"

definition CAN_SetupAFLUT ::
  "AF_SectionDef \<Rightarrow> af_cnt \<Rightarrow> can_hw \<Rightarrow> (CAN_ERROR \<times> AF_SectionDef \<times> af_cnt \<times> can_hw) option" where
  "CAN_SetupAFLUT S a h0 = do {
     let h = af_upd (\<lambda>r. r\<lparr>AFMR := 1\<rparr>) h0;
     (e1, s1, c1, n1, ram1) \<leftarrow> run_section setup_fc (FC_NumEntry S) (FullCAN_Sec S) None 0
        (CANAF_FullCAN_cnt a) (CANAF_RAM_mask h);
     (e2, s2, c2, n2, ram2) \<leftarrow> run_section setup_sff (SFF_NumEntry S) (SFF_Sec S) e1 c1
        (CANAF_std_cnt a) ram1;
     (e3, s3, c3, n3, ram3) \<leftarrow> run_section setup_gsff (SFF_GPR_NumEntry S) (SFF_GPR_Sec S) e2 c2
        (CANAF_gstd_cnt a) ram2;
     (e4, s4, c4, n4, ram4) \<leftarrow> run_section setup_eff (EFF_NumEntry S) (EFF_Sec S) e3 c3
        (CANAF_ext_cnt a) ram3;
     (e5, s5, c5, n5, ram5) \<leftarrow> run_section setup_geff (EFF_GPR_NumEntry S) (EFF_GPR_Sec S) e4 c4
        (CANAF_gext_cnt a) ram4;
     let S' = S\<lparr>FullCAN_Sec := s1, SFF_Sec := s2, SFF_GPR_Sec := s3, EFF_Sec := s4, EFF_GPR_Sec := s5\<rparr>;
     let a' = \<lparr>CANAF_FullCAN_cnt = n1, CANAF_std_cnt = n2, CANAF_gstd_cnt = n3, CANAF_ext_cnt = n4,
               CANAF_gext_cnt = n5,
               FULLCAN_ENABLE = (if FullCAN_Sec S = None then DISABLE else ENABLE)\<rparr>;
     let h' = h\<lparr>CANAF_RAM_mask := ram5\<rparr>;
     (case e5 of
        Some e \<Rightarrow> Some (e, S', a', h')
      | None \<Rightarrow>
          let sff = push_bit 2 (word_of_nat (fc_words a'));
              sffg = sff + push_bit 2 (word_of_nat (std_words a'));
              eff = sffg + push_bit 2 (word_of_nat n3);
              effg = eff + push_bit 2 (word_of_nat n4);
              endt = effg + push_bit 3 (word_of_nat n5)
          in Some (CAN_OK, S', a', af_upd (\<lambda>r. r\<lparr>SFF_sa := sff, SFF_GRP_sa := sffg, EFF_sa := eff,
               EFF_GRP_sa := effg, ENDofTable := endt,
               AFMR := (if FULLCAN_ENABLE a' = DISABLE then 0 else 4)\<rparr>) h'))
   }"

section \<open>FCAN_ReadObj\<close>

text \<open>
  \<open>reread j w\<close> is the first word of object \<open>j\<close> as the final semaphore test reads it, when \<open>w\<close> is
  what the driver left there: the controller may have updated the object in between. The pending
  bits are scanned from bit 0 of the interrupt word; \<open>j\<close> is \<^verbatim>\<open>msg_idx\<close>, \<open>k\<close> the iterations left.
\<close>

fun fcan_scan ::
  "(nat \<Rightarrow> u32 \<Rightarrow> u32) \<Rightarrow> nat \<Rightarrow> nat \<Rightarrow> nat \<Rightarrow> u32 \<Rightarrow> CAN_MSG_Type \<Rightarrow> u32 list
    \<Rightarrow> (CAN_ERROR \<times> CAN_MSG_Type \<times> u32 list) option" where
  "fcan_scan reread base 0 j iw m ram = Some (CAN_FULL_OBJ_NOT_RCV, m, ram)"
| "fcan_scan reread base (Suc k) j iw m ram =
     (if iw AND 1 \<noteq> 0 then do {
        let p = base + 3 * j;
        w \<leftarrow> rd ram p;
        (if w AND 0x03000000 = 0x03000000 then do {
           let w1 = w AND 0xFCFFFFFF;
           ram1 \<leftarrow> wr ram p w1;
           da \<leftarrow> rd ram1 (p + 1);
           db \<leftarrow> rd ram1 (p + 2);
           let m1 = m\<lparr>dataA := unpack_data da, dataB := unpack_data db, msg_id := w1 AND 0x7FF,
                      msg_len := ucast (drop_bit 16 w1) AND 0x0F, format := 0,
                      msg_type := ucast (drop_bit 30 w1) AND 0x01\<rparr>;
           (if reread j w1 AND 0x03000000 = 0
            then Some (CAN_OK, m1, ram1)
            else fcan_scan reread base k (j + 1) (drop_bit 1 iw) m1 ram1)
         }
         else fcan_scan reread base k (j + 1) (drop_bit 1 iw) m ram)
      }
      else fcan_scan reread base k (j + 1) (drop_bit 1 iw) m ram)"

definition FCAN_ReadObj ::
  "(nat \<Rightarrow> u32 \<Rightarrow> u32) \<Rightarrow> CAN_MSG_Type \<Rightarrow> can_hw \<Rightarrow> (CAN_ERROR \<times> CAN_MSG_Type \<times> can_hw) option" where
  "FCAN_ReadObj reread m h =
     (let af = LPC_CANAF h; base = unat (ENDofTable af) div 4 in
      if FCANIC0 af \<noteq> 0 then do {
        (e, m', ram) \<leftarrow> fcan_scan reread base 32 0 (FCANIC0 af) m (CANAF_RAM_mask h);
        Some (e, m', h\<lparr>CANAF_RAM_mask := ram\<rparr>)
      }
      else if FCANIC1 af \<noteq> 0 then do {
        (e, m', ram) \<leftarrow> fcan_scan reread base 32 32 (FCANIC1 af) m (CANAF_RAM_mask h);
        Some (e, m', h\<lparr>CANAF_RAM_mask := ram\<rparr>)
      }
      else Some (CAN_FULL_OBJ_NOT_RCV, m, h))"

section \<open>Insertion of an extended identifier\<close>

lemma rd_app: "rd (xs @ y # ys) (length xs) = Some y"
  by simp

lemma wr_app: "wr (xs @ y # ys) (length xs) v = Some (xs @ v # ys)"
  by simp

lemma shift_up_app:
  "length ws = n \<Longrightarrow> shift_up n (length xs) b (xs @ x # ws @ zs) = Some (xs @ x # take n (b # ws) @ zs)"
proof (induction ws arbitrary: n xs x b)
  case (Cons w ws)
  have "shift_up (Suc (length ws)) (length xs) b (xs @ x # w # ws @ zs) =
    shift_up (length ws) (length (xs @ [x])) w ((xs @ [x]) @ b # ws @ zs)"
    using wr_app[of "xs @ [x]" w "ws @ zs" b] rd_app[of "xs @ [x]" w "ws @ zs"] by simp
  also have "\<dots> = Some ((xs @ [x]) @ b # take (length ws) (w # ws) @ zs)"
    by (rule Cons.IH) simp
  finally show ?case using Cons.prems by auto
qed simp

lemma shift_up_out: "0 < n \<Longrightarrow> length ram \<le> c + n \<Longrightarrow> shift_up n c b ram = None"
proof (induction n arbitrary: c b ram)
  case (Suc n)
  show ?case
  proof (cases "n = 0 \<or> length ram \<le> c + 1")
    case True
    then show ?thesis using Suc.prems by (auto simp: rd_def wr_def)
  next
    case False
    then have "shift_up n (c + 1) (ram ! (c + 1)) (ram[c + 1 := b]) = None" using Suc.prems by (intro Suc.IH) auto
    then show ?thesis using False by simp
  qed
qed simp

lemma ext_search_eq:
  "length es = k \<Longrightarrow> ext_search k (length xs) c2 i (xs @ es @ zs) =
    Some (length xs + length (takeWhile (\<lambda>e. e \<le> i) es), c2 + length (takeWhile (\<lambda>e. e \<le> i) es))"
proof (induction es arbitrary: k xs c2)
  case (Cons e es)
  from Cons.IH[OF refl, of "xs @ [e]" "c2 + 1"] show ?case
    using Cons.prems rd_app[of xs e "es @ zs"] by (auto simp: not_le)
qed simp

lemma insert_takeWhile:
  "sorted es \<Longrightarrow> takeWhile (\<lambda>e. e \<le> i) es @ i # dropWhile (\<lambda>e. e \<le> i) es = insort i es"
  for i :: "'a :: linorder"
proof (induction es)
  case (Cons e es)
  then show ?case by (cases "e = i") (auto simp: insort_is_Cons)
qed simp

definition ext_base :: "af_cnt \<Rightarrow> nat" where
  "ext_base a = fc_words a + (std_words a + CANAF_gstd_cnt a)"

text \<open>The extended identifiers in the table, and the sections behind them.\<close>

definition ext_ids :: "af_cnt \<Rightarrow> u32 list \<Rightarrow> u32 list" where
  "ext_ids a ram = take (CANAF_ext_cnt a) (drop (ext_base a) ram)"

definition behind_ext :: "af_cnt \<Rightarrow> u32 list \<Rightarrow> u32 list" where
  "behind_ext a ram = take (2 * CANAF_gext_cnt a + CANAF_FullCAN_cnt a * 3) (drop (ext_base a + CANAF_ext_cnt a) ram)"

lemma af_total_ext: "af_total a = ext_base a + CANAF_ext_cnt a + 2 * CANAF_gext_cnt a + CANAF_FullCAN_cnt a * 3"
  by (simp add: af_total_def af_words_def ext_base_def)

lemma split_drop: "drop c xs = take n (drop c xs) @ drop (c + n) xs"
  by (metis append_take_drop_id drop_drop add.commute)

lemma take_drop_app: "xs @ ys = zs \<Longrightarrow> length xs = n \<Longrightarrow> take n zs = xs \<and> drop n zs = ys"
  by auto

lemma shift_insert:
  assumes "c + n < length ram"
  shows "shift_up n c (ram ! c) (ram[c := i]) = Some (take c ram @ i # take n (drop c ram) @ drop (c + n + 1) ram)"
proof -
  let ?ws = "take n (drop (c + 1) ram)" and ?zs = "drop (c + n + 1) ram"
  have d: "drop c ram = ram ! c # drop (c + 1) ram" using assms by (simp add: Cons_nth_drop_Suc)
  have "ram[c := i] = take c ram @ i # ?ws @ ?zs"
    using assms split_drop[of "Suc c" ram n] by (simp add: upd_conv_take_nth_drop)
  moreover have "take n (ram ! c # ?ws) = take n (drop c ram)" unfolding d by (cases n) simp_all
  ultimately show ?thesis
    using shift_up_app[of ?ws n "take c ram" "ram ! c" i ?zs] assms by simp
qed

lemma ext_split:
  assumes "length ram = 512" "af_total a < 512"
  shows "ram = take (ext_base a) ram @ ext_ids a ram @ drop (ext_base a + CANAF_ext_cnt a) ram"
    "length (ext_ids a ram) = CANAF_ext_cnt a"
proof -
  have "drop (ext_base a) ram = ext_ids a ram @ drop (ext_base a + CANAF_ext_cnt a) ram"
    unfolding ext_ids_def by (metis append_take_drop_id drop_drop add.commute)
  then show "ram = take (ext_base a) ram @ ext_ids a ram @ drop (ext_base a + CANAF_ext_cnt a) ram"
    by (metis append_take_drop_id)
  show "length (ext_ids a ram) = CANAF_ext_cnt a" using assms by (simp add: ext_ids_def af_total_ext)
qed

lemma ext_search_ram:
  assumes "length ram = 512" "af_total a < 512"
  shows "ext_search (CANAF_ext_cnt a) (ext_base a) 0 i ram =
    Some (ext_base a + length (takeWhile (\<lambda>e. e \<le> i) (ext_ids a ram)), length (takeWhile (\<lambda>e. e \<le> i) (ext_ids a ram)))"
proof -
  note sp = ext_split[OF assms]
  have "length (take (ext_base a) ram) = ext_base a" using assms by (simp add: af_total_ext)
  with ext_search_eq[OF sp(2), of "take (ext_base a) ram" 0 i "drop (ext_base a + CANAF_ext_cnt a) ram"] sp(1)[symmetric]
  show ?thesis by simp
qed

lemma ext_shift:
  assumes "length ram = 512" "af_total a < 512" "sorted (ext_ids a ram)" "ext_base a + af_total a < 512"
    and k: "k = length (takeWhile (\<lambda>e. e \<le> i) (ext_ids a ram))"
  shows "\<exists>zs. shift_up (af_total a - k) (ext_base a + k) (ram ! (ext_base a + k)) (ram[ext_base a + k := i]) =
    Some (take (ext_base a) ram @ insort i (ext_ids a ram) @ behind_ext a ram @ zs)"
proof -
  let ?es = "ext_ids a ram" and ?xs = "take (ext_base a) ram" and ?rest = "drop (ext_base a + CANAF_ext_cnt a) ram"
  let ?tw = "takeWhile (\<lambda>e. e \<le> i) ?es" and ?dw = "dropWhile (\<lambda>e. e \<le> i) ?es"
  note sp = ext_split[OF assms(1,2)]
  have le: "k + length ?dw = CANAF_ext_cnt a" using sp(2) k takeWhile_dropWhile_id length_append by metis
  have n: "af_total a - k - length ?dw = (2 * CANAF_gext_cnt a + CANAF_FullCAN_cnt a * 3) + ext_base a"
    using le by (simp add: af_total_ext)
  have "(?xs @ ?tw) @ (?dw @ ?rest) = ram" using sp(1) by (metis append.assoc takeWhile_dropWhile_id)
  moreover have "length (?xs @ ?tw) = ext_base a + k" using assms(1,2) k by (simp add: af_total_ext)
  ultimately have tk: "take (ext_base a + k) ram = ?xs @ ?tw" "drop (ext_base a + k) ram = ?dw @ ?rest"
    using take_drop_app by blast+
  define m where "m = 2 * CANAF_gext_cnt a + CANAF_FullCAN_cnt a * 3"
  have "take (af_total a - k) (?dw @ ?rest) = ?dw @ take (m + ext_base a) ?rest"
    using n le by (simp add: af_total_ext m_def ac_simps)
  then have "take (af_total a - k) (?dw @ ?rest) = ?dw @ behind_ext a ram @ take (ext_base a) (drop m ?rest)"
    unfolding behind_ext_def m_def[symmetric] take_add .
  moreover have "af_total a - k + (ext_base a + k) < length ram" using le assms(1,4) by (simp add: af_total_ext)
  ultimately show ?thesis
    using shift_insert[of "ext_base a + k" "af_total a - k" ram i] tk
    unfolding insert_takeWhile[OF assms(3), of i, symmetric] by (simp add: add.commute)
qed

text \<open>
  \<^bold>\<open>C22\<close>. Loading an explicit extended identifier into a table that is not full either inserts it at
  its place in the sorted extended section, keeps every section before it, moves the sections
  behind it up by one word, and counts the entry; or, when the words before the section and the
  words in use together exceed the 512 words of the filter RAM, the shift runs past its end.
\<close>

theorem load_extended_entry:
  assumes "length (CANAF_RAM_mask h) = 512" "af_total a < 512" "sorted (ext_ids a (CANAF_RAM_mask h))"
    and "entry = i OR push_bit 29 (ctrl_num c)"
  shows "(if 512 \<le> ext_base a + af_total a then CAN_LoadExplicitEntry c i EXT_ID_FORMAT a h = None
    else \<exists>a' h'. CAN_LoadExplicitEntry c i EXT_ID_FORMAT a h = Some (CAN_OK, a', h') \<and>
      a' = a\<lparr>CANAF_ext_cnt := CANAF_ext_cnt a + 1\<rparr> \<and>
      take (ext_base a) (CANAF_RAM_mask h') = take (ext_base a) (CANAF_RAM_mask h) \<and>
      ext_ids a' (CANAF_RAM_mask h') = insort entry (ext_ids a (CANAF_RAM_mask h)) \<and>
      behind_ext a' (CANAF_RAM_mask h') = behind_ext a (CANAF_RAM_mask h))"
proof -
  let ?ram = "CANAF_RAM_mask h" and ?tot = "af_total a"
  define k where "k = length (takeWhile (\<lambda>e. e \<le> entry) (ext_ids a ?ram))"
  have kle: "k \<le> CANAF_ext_cnt a" using ext_split(2)[OF assms(1,2)] length_takeWhile_le k_def by metis
  have c: "total16 ?tot = Some ?tot" using assms(2) by (simp add: total16_def)
  have inc: "inc16 (CANAF_ext_cnt a) = CANAF_ext_cnt a + 1" using assms(2) by (simp add: inc16_def af_total_ext)
  have call: "CAN_LoadExplicitEntry c i EXT_ID_FORMAT a h =
     (case shift_up (?tot - k) (ext_base a + k) (?ram ! (ext_base a + k)) (?ram[ext_base a + k := entry]) of
        None \<Rightarrow> None
      | Some ram2 \<Rightarrow> Some (CAN_OK, a\<lparr>CANAF_ext_cnt := CANAF_ext_cnt a + 1\<rparr>,
          af_upd (\<lambda>r. r\<lparr>AFMR := (if CANAF_FullCAN_cnt a = 0 then 0 else 4)\<rparr>)
           (af_upd (\<lambda>r. r\<lparr>EFF_GRP_sa := EFF_GRP_sa r + 4, ENDofTable := ENDofTable r + 4\<rparr>)
            ((af_upd (\<lambda>r. r\<lparr>AFMR := 1\<rparr>) h)\<lparr>CANAF_RAM_mask := ram2\<rparr>))))"
    if "ext_base a + k < 512"
    using that assms(1,2) ext_search_ram[OF assms(1,2), of entry] c
    by (simp add: CAN_LoadExplicitEntry_def load_explicit_ext_def Let_def inc assms(4)[symmetric] k_def[symmetric]
      ext_base_def[symmetric] af_upd_def bind_eq_Some_conv split: option.split)
  have in_ram: "ext_base a + k < 512" using kle assms(2) by (simp add: af_total_ext)
  show ?thesis
  proof (cases "512 \<le> ext_base a + ?tot")
    case True
    then have "shift_up (?tot - k) (ext_base a + k) (?ram ! (ext_base a + k)) (?ram[ext_base a + k := entry]) = None"
      using kle assms(1,2) by (intro shift_up_out) (auto simp: af_total_ext)
    then show ?thesis using True call[OF in_ram] by simp
  next
    case False
    then obtain zs where sh: "shift_up (?tot - k) (ext_base a + k) (?ram ! (ext_base a + k)) (?ram[ext_base a + k := entry]) =
      Some (take (ext_base a) ?ram @ insort entry (ext_ids a ?ram) @ behind_ext a ?ram @ zs)"
      using ext_shift[OF assms(1-3) _ k_def] by auto
    have lens: "length (take (ext_base a) ?ram) = ext_base a" "length (insort entry (ext_ids a ?ram)) = CANAF_ext_cnt a + 1"
      "length (behind_ext a ?ram) = 2 * CANAF_gext_cnt a + CANAF_FullCAN_cnt a * 3"
      using assms(1,2) ext_split(2)[OF assms(1,2)] by (simp_all add: af_total_ext behind_ext_def)
    have "ext_base (a\<lparr>CANAF_ext_cnt := n\<rparr>) = ext_base a" for n by (simp add: ext_base_def fc_words_def std_words_def)
    then show ?thesis
      unfolding call[OF in_ram] sh using False lens
      by (simp add: af_upd_def ext_ids_def[of "a\<lparr>CANAF_ext_cnt := n\<rparr>" for n] behind_ext_def[of "a\<lparr>CANAF_ext_cnt := n\<rparr>" for n])
  qed
qed

definition filter_hw0 :: can_hw where
  "filter_hw0 = can_hw0\<lparr>CANAF_RAM_mask := [5, 9] @ replicate 510 0\<rparr>"

theorem load_extended_entry_witness:
  "\<exists>a' h'. CAN_LoadExplicitEntry CAN1 7 EXT_ID_FORMAT (af_cnt0\<lparr>CANAF_ext_cnt := 2\<rparr>) filter_hw0 = Some (CAN_OK, a', h') \<and>
    ext_ids a' (CANAF_RAM_mask h') = [5, 7, 9]"
  using load_extended_entry[of filter_hw0 "af_cnt0\<lparr>CANAF_ext_cnt := 2\<rparr>" 7 7 CAN1]
  by (auto simp: filter_hw0_def af_total_ext ext_ids_def ext_base_def af_cnt0_def fc_words_def std_words_def ctrl_num_def)

section \<open>Insertion of a standard identifier\<close>

definition hiw :: "u32 \<Rightarrow> u16" where "hiw w = ucast (drop_bit 16 w)"

definition low :: "u32 \<Rightarrow> u16" where "low w = ucast w"

definition mkw :: "u16 \<Rightarrow> u16 \<Rightarrow> u32" where "mkw h l = push_bit 16 (ucast h) OR ucast l"

definition halves :: "u32 list \<Rightarrow> u16 list" where
  "halves ws = concat (map (\<lambda>w. [hiw w, low w]) ws)"

lemma u16_high: "16 \<le> n \<Longrightarrow> \<not> bit (a :: u16) n"
  by (auto dest: bit_imp_le_length)

lemma hiw_mkw [simp]: "hiw (mkw h l) = h" and low_mkw [simp]: "low (mkw h l) = l"
  unfolding hiw_def low_def mkw_def by (auto intro!: bit_word_eqI simp: bit_simps u16_high)

lemma low_ucast [simp]: "low (ucast x) = x"
  unfolding low_def by (auto intro!: bit_word_eqI simp: bit_simps)

lemma FFFF_bit: "bit (0xFFFF :: u32) n \<longleftrightarrow> n < 16"
  using bit_mask_iff[of 16 n, where 'a = u32] by (auto simp: mask_numerals)

lemma FFFF0000_bit: "bit (0xFFFF0000 :: u32) n \<longleftrightarrow> 16 \<le> n \<and> n < 32"
proof -
  have "(0xFFFF0000 :: u32) = push_bit 16 0xFFFF" by simp
  then show ?thesis unfolding \<open>0xFFFF0000 = _\<close> bit_push_bit_iff FFFF_bit by auto
qed

lemma u32_high: "32 \<le> n \<Longrightarrow> \<not> bit (a :: u32) n"
  by (auto dest: bit_imp_le_length)

lemma word_exprs:
  "0x0000FFFF OR push_bit 16 (ucast x) = mkw x 0xFFFF"
  "drop_bit 16 w OR push_bit 16 (ucast x) = mkw x (hiw w)"
  "push_bit 16 (ucast x) OR drop_bit 16 w = mkw x (hiw w)"
  "(w AND 0xFFFF0000) OR ucast x = mkw (hiw w) x"
  "drop_bit 16 w OR push_bit 16 b = mkw (low b) (hiw w)"
  "push_bit 16 b OR 0x0000FFFF = mkw (low b) 0xFFFF"
proof -
  note bits = bit_simps FFFF_bit u16_high u32_high mkw_def hiw_def low_def
  show "0x0000FFFF OR push_bit 16 (ucast x) = mkw x 0xFFFF"
    by (rule bit_word_eqI) (auto simp: bits)
  show "drop_bit 16 w OR push_bit 16 (ucast x) = mkw x (hiw w)"
    by (rule bit_word_eqI) (auto simp: bits)
  show "push_bit 16 (ucast x) OR drop_bit 16 w = mkw x (hiw w)"
    by (rule bit_word_eqI) (auto simp: bits)
  show "drop_bit 16 w OR push_bit 16 b = mkw (low b) (hiw w)"
    by (rule bit_word_eqI) (auto simp: bits)
  show "push_bit 16 b OR 0x0000FFFF = mkw (low b) 0xFFFF"
    by (rule bit_word_eqI) (auto simp: bits)
  show "(w AND 0xFFFF0000) OR ucast x = mkw (hiw w) x"
    by (rule bit_word_eqI, unfold bit_or_iff bit_and_iff FFFF0000_bit) (auto simp: bits)
qed


lemma unat_up16: "unat (ucast (x :: u16) :: u32) = unat x"
proof -
  have "unat x < 2 ^ 32" by (rule less_trans[OF unat_u16_lt]) simp
  then show ?thesis by (simp add: unsigned_ucast_eq take_bit_nat_eq_self)
qed

lemma unat_hiw: "unat (hiw w) = unat (drop_bit 16 w)" and unat_low: "unat (low w) = unat (w AND 0xFFFF)"
proof -
  have "drop_bit 16 w = ucast (hiw w)"
    unfolding hiw_def by (rule bit_word_eqI) (auto simp: bit_simps dest: bit_imp_le_length)
  moreover have "w AND 0xFFFF = ucast (low w)"
    unfolding low_def by (rule bit_word_eqI, unfold bit_and_iff FFFF_bit) (auto simp: bit_simps)
  ultimately show "unat (hiw w) = unat (drop_bit 16 w)" "unat (low w) = unat (w AND 0xFFFF)"
    by (simp_all add: unat_up16)
qed

lemma half_cmp: "ucast x < drop_bit 16 w \<longleftrightarrow> x < hiw w" "ucast x < w AND 0x0000FFFF \<longleftrightarrow> x < low w"
  for x :: u16
  by (simp_all add: word_less_nat_alt unat_hiw unat_low unat_up16)

lemma halves_simps [simp]: "halves [] = []" "halves (w # ws) = hiw w # low w # halves ws"
  "halves (xs @ ys) = halves xs @ halves ys" "length (halves ws) = 2 * length ws"
  by (simp_all add: halves_def length_concat comp_def sum_list_triv)

lemma half_search_eq:
  "length ws = k \<Longrightarrow> p = length (takeWhile (\<lambda>e. e \<le> x) (halves ws)) \<Longrightarrow>
   half_search k (length xs) c2 (ucast x) (xs @ ws @ zs) =
    Some (if p = 2 * k then (length xs + k, c2) else (length xs + p div 2, 2 * (length xs + p div 2) + p mod 2))"
proof (induction ws arbitrary: k p xs)
  case (Cons w ws)
  show ?case
  proof (cases "hiw w \<le> x \<and> low w \<le> x")
    case True
    define q where "q = length (takeWhile (\<lambda>e. e \<le> x) (halves ws))"
    have p: "p = q + 2" using Cons.prems True by (simp add: q_def)
    have "half_search k (length xs) c2 (ucast x) (xs @ (w # ws) @ zs) =
        half_search (length ws) (length (xs @ [w])) c2 (ucast x) ((xs @ [w]) @ ws @ zs)"
      using Cons.prems True by (auto simp: half_cmp)
    also have "\<dots> = Some (if q = 2 * length ws then (length (xs @ [w]) + length ws, c2)
        else (length (xs @ [w]) + q div 2, 2 * (length (xs @ [w]) + q div 2) + q mod 2))"
      by (rule Cons.IH) (simp_all add: q_def)
    finally have e: "half_search k (length xs) c2 (ucast x) (xs @ (w # ws) @ zs) = \<dots>" .
    show ?thesis unfolding e p using Cons.prems(1) by auto
  next
    case False
    then show ?thesis using Cons.prems by (auto simp: half_cmp not_le)
  qed
qed simp

fun shw :: "u32 \<Rightarrow> u32 list \<Rightarrow> u32 list" where
  "shw b [] = []"
| "shw b (w # ws) = mkw (low b) (hiw w) # shw w ws"

lemma halves_shw: "halves (shw b ws) @ [low (last (b # ws))] = low b # halves ws"
  by (induction b ws rule: shw.induct) auto

lemma length_shw [simp]: "length (shw b ws) = length ws"
  by (induction b ws rule: shw.induct) auto

lemma half_shift_eq:
  "length ws = n \<Longrightarrow> half_shift n (length xs) b (xs @ y # ws @ zs) =
    Some (length xs + n, last (b # ws), xs @ y # shw b ws @ zs)"
proof (induction ws arbitrary: n xs y b)
  case (Cons w ws)
  let ?v = "mkw (low b) (hiw w)"
  have "half_shift n (length xs) b (xs @ y # (w # ws) @ zs) =
      half_shift (length ws) (length (xs @ [y])) w ((xs @ [y]) @ ?v # ws @ zs)"
    using Cons.prems wr_app[of "xs @ [y]" w "ws @ zs" ?v] rd_app[of "xs @ [y]" w "ws @ zs"]
    by (auto simp: word_exprs)
  also have "\<dots> = Some (length (xs @ [y]) + length ws, last (w # ws), (xs @ [y]) @ ?v # shw w ws @ zs)"
    by (rule Cons.IH) simp
  finally show ?case using Cons.prems by auto
qed simp

lemma halves_insert:
  assumes "ws = ws1 @ b0 # ws2" "p div 2 = length ws1" "p = length (takeWhile (\<lambda>e. e \<le> x) (halves ws))"
    and "y = (if even p then mkw x (hiw b0) else mkw (hiw b0) x)"
  shows "halves (ws1 @ y # shw b0 ws2) @ [low (last (b0 # ws2))] =
    takeWhile (\<lambda>e. e \<le> x) (halves ws) @ x # dropWhile (\<lambda>e. e \<le> x) (halves ws)"
proof -
  have td: "takeWhile (\<lambda>e. e \<le> x) (halves ws) = take p (halves ws)" "dropWhile (\<lambda>e. e \<le> x) (halves ws) = drop p (halves ws)"
    unfolding assms(3) by (rule takeWhile_eq_take, rule dropWhile_eq_drop)
  show ?thesis
  proof (cases "even p")
    case True
    then have "p = 2 * length ws1" using assms(2) by presburger
    then show ?thesis unfolding td unfolding assms(1) using assms(4) True halves_shw[of b0 ws2] by simp
  next
    case False
    then have "p = Suc (2 * length ws1)" using assms(2) by presburger
    then show ?thesis unfolding td unfolding assms(1) using assms(4) False halves_shw[of b0 ws2] by simp
  qed
qed

lemma std_insert_found:
  assumes "1 < n" "length ws = (n + 1) div 2" "length us = (if even n then 1 else 0)"
    and "p = length (takeWhile (\<lambda>e. e \<le> x) (halves ws))" "p < 2 * length ws"
  shows "\<exists>ws'. std_insert (length xs) n (ucast x) (xs @ ws @ us @ zs) = Some (xs @ ws' @ zs) \<and>
    length ws' = length ws + length us \<and>
    halves ws' = (let t = takeWhile (\<lambda>e. e \<le> x) (halves ws) @ x # dropWhile (\<lambda>e. e \<le> x) (halves ws)
      in if even n then t @ [0xFFFF] else butlast t)"
proof -
  define ws1 where "ws1 = take (p div 2) ws"
  obtain b0 ws2 where ws: "ws = ws1 @ b0 # ws2" "p div 2 = length ws1"
    using assms(5) id_take_nth_drop[of "p div 2" ws] unfolding ws1_def by fastforce
  define b where "b = last (b0 # ws2)"
  define y where "y = (if even p then mkw x (hiw b0) else mkw (hiw b0) x)"
  have srch: "half_search (length ws) (length xs) n (ucast x) (xs @ ws @ us @ zs) =
      Some (length xs + length ws1, 2 * (length xs + length ws1) + p mod 2)"
    using half_search_eq[OF refl assms(4), of xs n "us @ zs"] assms(5) ws(2) by simp
  have ev: "even (2 * (length xs + length ws1) + p mod 2) = even p" by presburger
  have sh: "half_shift (length ws2) (length xs + length ws1) b0 (xs @ ws1 @ y # ws2 @ us @ zs) =
      Some (length xs + length ws1 + length ws2, b, xs @ ws1 @ y # shw b0 ws2 @ us @ zs)"
    using half_shift_eq[OF refl, of ws2 "xs @ ws1" b0 y "us @ zs"] unfolding b_def by simp
  note hi = halves_insert[OF ws assms(4) y_def, folded b_def]
  have ins: "std_insert (length xs) n (ucast x) (xs @ ws @ us @ zs) =
    (if even n then wr (xs @ ws1 @ y # shw b0 ws2 @ us @ zs) (length xs + length ws1 + length ws2 + 1) (mkw (low (b)) 0xFFFF)
     else Some (xs @ ws1 @ y # shw b0 ws2 @ us @ zs))"
  proof -
    have r: "xs @ ws @ us @ zs = (xs @ ws1) @ b0 # ws2 @ us @ zs" using ws(1) by simp
    have "wr (xs @ ws @ us @ zs) (length xs + length ws1) y = Some (xs @ ws1 @ y # ws2 @ us @ zs)"
      "rd (xs @ ws @ us @ zs) (length xs + length ws1) = Some b0"
      unfolding r using wr_app[of "xs @ ws1"] rd_app[of "xs @ ws1"] by simp_all
    moreover have "length xs + (n + 1) div 2 - length xs = length ws" "length xs + (n + 1) div 2 - 1 - (length xs + length ws1) = length ws2"
      "length xs + length ws1 \<noteq> length xs + (n + 1) div 2"
      unfolding assms(2)[symmetric] ws(1) by simp_all
    ultimately show ?thesis
      using assms(1) srch sh ev unfolding std_insert_def Let_def word_exprs
      by (simp add: word_exprs y_def[symmetric] del: half_shift.simps half_search.simps wr_in rd_in split del: if_split)
  qed
  show ?thesis
  proof (cases "even n")
    case True
    then obtain v where v: "us = [v]" using assms(3) by (auto simp: length_Suc_conv)
    let ?ws = "ws1 @ y # shw b0 ws2 @ [mkw (low (b)) 0xFFFF]"
    have "std_insert (length xs) n (ucast x) (xs @ ws @ us @ zs) = Some (xs @ ?ws @ zs)"
      unfolding ins using True wr_app[of "xs @ ws1 @ y # shw b0 ws2" v zs] v by (simp add: add.assoc)
    moreover have "halves ?ws = (halves (ws1 @ y # shw b0 ws2) @ [low (b)]) @ [0xFFFF]" by simp
    ultimately show ?thesis using True ws v hi by (intro exI[of _ ?ws]) simp
  next
    case False
    then have "std_insert (length xs) n (ucast x) (xs @ ws @ us @ zs) = Some (xs @ (ws1 @ y # shw b0 ws2) @ zs)"
      unfolding ins using assms(3) by simp
    moreover have "halves (ws1 @ y # shw b0 ws2) = butlast (halves (ws1 @ y # shw b0 ws2) @ [low (b)])"
      by (rule butlast_snoc[symmetric])
    ultimately show ?thesis unfolding hi[symmetric] using False ws assms(3) by (intro exI[of _ "ws1 @ y # shw b0 ws2"]) simp
  qed
qed

lemma takeWhile_le_snoc:
  "x < m \<Longrightarrow> takeWhile (\<lambda>e. e \<le> x) (H @ [m]) = takeWhile (\<lambda>e. e \<le> x) H"
  "x < m \<Longrightarrow> dropWhile (\<lambda>e. e \<le> x) (H @ [m]) = dropWhile (\<lambda>e. e \<le> x) H @ [m]"
  for m :: "'a :: linorder"
  by (induction H) auto

lemma std_insert_eq:
  assumes "length ws = (n + 1) div 2" "length us = (if even n then 1 else 0)" "x < 0xFFFF"
    and "sorted H" "halves ws = H @ (if even n then [] else [0xFFFF])"
  shows "\<exists>ws'. std_insert (length xs) n (ucast x) (xs @ ws @ us @ zs) = Some (xs @ ws' @ zs) \<and>
    length ws' = length ws + length us \<and>
    halves ws' = insort x H @ (if even n then [0xFFFF] else [])"
proof -
  let ?p = "length (takeWhile (\<lambda>e. e \<le> x) (halves ws))"
  have lH: "length H = n" using arg_cong[OF assms(5), of length] assms(1) by (auto split: if_splits)
  consider "n = 0" | "n = 1" | "1 < n" "?p < 2 * length ws" | "1 < n" "?p = 2 * length ws"
    using length_takeWhile_le[of "\<lambda>e. e \<le> x" "halves ws"] by force
  then show ?thesis
  proof cases
    case 1
    then obtain v where "us = [v]" "ws = []" "H = []" using assms(1,2) lH by (auto simp: length_Suc_conv)
    then show ?thesis using 1 by (intro exI[of _ "[mkw x 0xFFFF]"]) (simp add: std_insert_def word_exprs)
  next
    case 2
    then obtain w where "us = []" "ws = [w]" using assms(1,2) by (auto simp: length_Suc_conv)
    moreover from this have "H = [hiw w]" using 2 assms(5) by (simp add: Cons_eq_append_conv)
    ultimately show ?thesis
      using 2 by (intro exI[of _ "[if hiw w > x then mkw x (hiw w) else mkw (hiw w) x]"])
        (auto simp: std_insert_def word_exprs half_cmp)
  next
    case 3
    have it: "takeWhile (\<lambda>e. e \<le> x) (halves ws) @ x # dropWhile (\<lambda>e. e \<le> x) (halves ws) =
        insort x H @ (if even n then [] else [0xFFFF])"
      unfolding assms(5) insert_takeWhile[OF assms(4), symmetric]
      using assms(3) by (simp add: takeWhile_le_snoc)
    show ?thesis
      using std_insert_found[OF 3(1) assms(1,2) refl 3(2), of xs zs] unfolding Let_def it by (auto split: if_splits)
  next
    case 4
    have all: "takeWhile (\<lambda>e. e \<le> x) (halves ws) = halves ws"
      using 4(2) takeWhile_eq_take[of "\<lambda>e. e \<le> x" "halves ws"] by simp
    then have "\<forall>e \<in> set (halves ws). e \<le> x" by (simp add: takeWhile_eq_all_conv)
    then have ev: "even n" and le: "\<forall>e \<in> set H. e \<le> x" using assms(3,5) by (auto split: if_splits)
    then obtain v where v: "us = [v]" using assms(2) by (auto simp: length_Suc_conv)
    have "half_search (length ws) (length xs) n (ucast x) (xs @ ws @ v # zs) = Some (length xs + length ws, n)"
      using half_search_eq[OF refl refl, of ws xs n x "v # zs"] 4(2) by simp
    moreover have "wr (xs @ ws @ v # zs) (length xs + length ws) (mkw x 0xFFFF) = Some (xs @ ws @ mkw x 0xFFFF # zs)"
      using wr_app[of "xs @ ws" v zs] by simp
    moreover have "length xs + (n + 1) div 2 - length xs = length ws" "length xs + (n + 1) div 2 = length xs + length ws"
      using assms(1) by simp_all
    ultimately have "std_insert (length xs) n (ucast x) (xs @ ws @ us @ zs) = Some (xs @ (ws @ [mkw x 0xFFFF]) @ zs)"
      using 4(1) ev v by (simp add: std_insert_def Let_def word_exprs del: half_search.simps wr_in)
    moreover have "takeWhile (\<lambda>e. e \<le> x) H = H" "dropWhile (\<lambda>e. e \<le> x) H = []"
      using le by (simp_all add: takeWhile_eq_all_conv)
    then have "insort x H = H @ [x]" unfolding insert_takeWhile[OF assms(4), of x, symmetric] by (simp only:)
    ultimately show ?thesis using ev v assms(5) by (intro exI[of _ "ws @ [mkw x 0xFFFF]"]) simp
  qed
qed

text \<open>The standard identifiers in the table, the padding of the last word, and the sections behind them.\<close>

definition std_area :: "af_cnt \<Rightarrow> u32 list \<Rightarrow> u16 list" where
  "std_area a ram = halves (take (std_words a) (drop (fc_words a) ram))"

definition std_ids :: "af_cnt \<Rightarrow> u32 list \<Rightarrow> u16 list" where
  "std_ids a ram = take (CANAF_std_cnt a) (std_area a ram)"

definition std_pad :: "af_cnt \<Rightarrow> u32 list \<Rightarrow> u16 list" where
  "std_pad a ram = drop (CANAF_std_cnt a) (std_area a ram)"

definition behind_std :: "af_cnt \<Rightarrow> u32 list \<Rightarrow> u32 list" where
  "behind_std a ram = take (CANAF_gstd_cnt a + CANAF_ext_cnt a + 2 * CANAF_gext_cnt a + CANAF_FullCAN_cnt a * 3)
     (drop (fc_words a + std_words a) ram)"

definition pad_ok :: "af_cnt \<Rightarrow> u32 list \<Rightarrow> bool" where
  "pad_ok a ram \<longleftrightarrow> std_pad a ram = (if even (CANAF_std_cnt a) then [] else [0xFFFF])"

definition std_entry :: "CANx \<Rightarrow> u32 \<Rightarrow> u16" where
  "std_entry c i = ucast ((i AND 0x07FF) OR push_bit 13 (ctrl_num c))"

lemma bit_7FF: "bit (0x7FF :: u32) n \<longleftrightarrow> n < 11"
proof -
  have "(0x7FF :: u32) = mask 11" by (simp add: mask_eq_exp_minus_1)
  then show ?thesis unfolding \<open>0x7FF = _\<close> by (auto simp: bit_mask_iff)
qed

lemma ucast_std_entry: "ucast (std_entry c i) = (i AND 0x07FF) OR push_bit 13 (ctrl_num c)"
  and std_entry_lt: "std_entry c i < 0xFFFF"
proof -
  have b: "bit (ctrl_num c) n \<longleftrightarrow> n = 0 \<and> c = CAN2" for n by (cases c) (auto simp: ctrl_num_def bit_simps)
  show "ucast (std_entry c i) = (i AND 0x07FF) OR push_bit 13 (ctrl_num c)"
    unfolding std_entry_def
    by (rule bit_word_eqI, unfold bit_unsigned_iff bit_or_iff bit_and_iff bit_7FF bit_push_bit_iff b) (auto simp: b)
  have "\<not> bit (std_entry c i) 15"
    unfolding std_entry_def bit_unsigned_iff bit_or_iff bit_and_iff bit_7FF bit_push_bit_iff b by auto
  moreover have "bit (0xFFFF :: u16) 15" by simp
  ultimately have "std_entry c i \<noteq> 0xFFFF" by metis
  moreover have "unat x \<le> 65535" for x :: u16 using unat_u16_lt[of x] by linarith
  then have "x \<le> 0xFFFF" for x :: u16 by (simp add: word_le_nat_alt)
  ultimately show "std_entry c i < 0xFFFF" by (simp add: order_less_le)
qed

lemma std_split:
  assumes "length ram = 512" "af_total a < 512"
  obtains xs ws where "ram = xs @ ws @ drop (fc_words a + std_words a) ram" "length xs = fc_words a"
    "length ws = std_words a" "std_area a ram = halves ws" "xs = take (fc_words a) ram"
proof (rule that)
  show "ram = take (fc_words a) ram @ take (std_words a) (drop (fc_words a) ram) @ drop (fc_words a + std_words a) ram"
    using split_drop[of "fc_words a" ram "std_words a"] append_take_drop_id[of "fc_words a" ram] by metis
qed (use assms in \<open>simp_all add: af_total_def af_words_def std_area_def\<close>)

text \<open>The effect on the table of the standard branch: the shift of the later sections, then the insertion.\<close>

lemma std_table:
  assumes "length ram = 512" "af_total a < 512" "sorted (std_ids a ram)" "pad_ok a ram" "x < 0xFFFF"
    and ram1: "ram1 = (if even (CANAF_std_cnt a) then
        shift_up (af_total a - (fc_words a + std_words a)) (fc_words a + std_words a) (ram ! (fc_words a + std_words a)) ram
      else Some ram)"
  shows "\<exists>ws' zs. ram1 \<bind> std_insert (fc_words a) (CANAF_std_cnt a) (ucast x) =
      Some (take (fc_words a) ram @ ws' @ behind_std a ram @ zs) \<and>
    length ws' = (CANAF_std_cnt a + 2) div 2 \<and>
    halves ws' = insort x (std_ids a ram) @ (if even (CANAF_std_cnt a) then [0xFFFF] else [])"
proof -
  obtain xs ws where r: "ram = xs @ ws @ drop (fc_words a + std_words a) ram" "length xs = fc_words a"
    "length ws = std_words a" "std_area a ram = halves ws" "xs = take (fc_words a) ram"
    using std_split[OF assms(1,2)] .
  let ?c = "fc_words a + std_words a" and ?n = "CANAF_std_cnt a"
  define m where "m = CANAF_gstd_cnt a + CANAF_ext_cnt a + 2 * CANAF_gext_cnt a + CANAF_FullCAN_cnt a * 3"
  have m: "af_total a = ?c + m" by (simp add: af_total_def af_words_def m_def)
  have h: "halves ws = std_ids a ram @ (if even ?n then [] else [0xFFFF])"
    using assms(4) append_take_drop_id[of ?n "std_area a ram"] unfolding r(4)[symmetric] pad_ok_def std_pad_def std_ids_def by simp
  note ins = std_insert_eq[OF r(3)[unfolded std_words_def] _ assms(5,3) h]
  show ?thesis
  proof (cases "even ?n")
    case True
    have "ram1 = Some (take ?c ram @ ram ! ?c # behind_std a ram @ drop (?c + m + 1) ram)"
      using True shift_insert[of ?c m ram "ram ! ?c"] assms(1,2) m unfolding ram1 behind_std_def m_def[symmetric] by simp
    moreover have "take ?c ram = xs @ ws"
      using take_drop_app[of "xs @ ws" "drop ?c ram" ram ?c] r(1-3) by simp
    ultimately have "ram1 = Some (xs @ ws @ [ram ! ?c] @ behind_std a ram @ drop (?c + m + 1) ram)" by simp
    with ins[of "[ram ! ?c]" xs "behind_std a ram @ drop (?c + m + 1) ram"] True r(2,3,5) show ?thesis
      by (auto simp: std_words_def)
  next
    case False
    have "drop ?c ram = behind_std a ram @ drop (?c + m) ram"
      unfolding behind_std_def m_def[symmetric] by (rule split_drop)
    then have "ram1 = Some (xs @ ws @ [] @ behind_std a ram @ drop (?c + m) ram)"
      using False r(1) unfolding ram1 by simp
    with ins[of "[]" xs "behind_std a ram @ drop (?c + m) ram"] False r(2,3,5) show ?thesis
      by (auto simp: std_words_def)
  qed
qed

text \<open>
  \<^bold>\<open>C21\<close>. Loading an explicit standard identifier into a table that is not full never leaves the
  filter RAM: it inserts the identifier, tagged with its controller, at its place in the sorted
  list of 16-bit entries, keeps the padding of an unused half word, keeps the FullCAN section
  before it and every section behind it, and counts the entry.
\<close>

theorem load_standard_entry:
  assumes "length (CANAF_RAM_mask h) = 512" "af_total a < 512"
    and "sorted (std_ids a (CANAF_RAM_mask h))" "pad_ok a (CANAF_RAM_mask h)"
  shows "\<exists>a' h'. CAN_LoadExplicitEntry c i STD_ID_FORMAT a h = Some (CAN_OK, a', h') \<and>
    a' = a\<lparr>CANAF_std_cnt := CANAF_std_cnt a + 1\<rparr> \<and>
    take (fc_words a) (CANAF_RAM_mask h') = take (fc_words a) (CANAF_RAM_mask h) \<and>
    std_ids a' (CANAF_RAM_mask h') = insort (std_entry c i) (std_ids a (CANAF_RAM_mask h)) \<and>
    pad_ok a' (CANAF_RAM_mask h') \<and>
    behind_std a' (CANAF_RAM_mask h') = behind_std a (CANAF_RAM_mask h)"
proof -
  let ?ram = "CANAF_RAM_mask h" and ?c = "fc_words a + std_words a" and ?n = "CANAF_std_cnt a"
  let ?a = "a\<lparr>CANAF_std_cnt := ?n + 1\<rparr>"
  have c: "?c < 512" "total16 (af_total a) = Some (af_total a)" using assms(2) by (simp_all add: total16_def af_total_def af_words_def)
  have n2: "?n < 65535" using assms(2) by (simp add: af_total_def af_words_def std_words_def)
  obtain ws zs where t: "(if even ?n then shift_up (af_total a - ?c) ?c (?ram ! ?c) ?ram else Some ?ram) \<bind>
      std_insert (fc_words a) ?n (ucast (std_entry c i)) = Some (take (fc_words a) ?ram @ ws @ behind_std a ?ram @ zs)"
    "length ws = (?n + 2) div 2" "halves ws = insort (std_entry c i) (std_ids a ?ram) @ (if even ?n then [0xFFFF] else [])"
    using std_table[OF assms std_entry_lt[of c i] refl] by blast
  have "\<exists>h'. CAN_LoadExplicitEntry c i STD_ID_FORMAT a h = Some (CAN_OK, ?a, h') \<and>
      CANAF_RAM_mask h' = take (fc_words a) ?ram @ ws @ behind_std a ?ram @ zs"
    using t(1) c assms(1,2) n2 unfolding ucast_std_entry
    by (auto simp: CAN_LoadExplicitEntry_def load_explicit_std_def Let_def inc16_def af_upd_def bind_eq_Some_conv
      split: if_splits)
  then obtain h' where h': "CAN_LoadExplicitEntry c i STD_ID_FORMAT a h = Some (CAN_OK, ?a, h')"
    "CANAF_RAM_mask h' = take (fc_words a) ?ram @ ws @ behind_std a ?ram @ zs" by blast
  have w: "fc_words ?a = fc_words a" "std_words ?a = length ws" "length (take (fc_words a) ?ram) = fc_words a"
    using t(2) assms(1,2) by (simp_all add: fc_words_def std_words_def af_total_def af_words_def)
  have "length (std_ids a ?ram) = ?n"
    using arg_cong[OF t(3), of length] t(2) by (auto split: if_splits)
  moreover have "std_area ?a (CANAF_RAM_mask h') = halves ws"
    unfolding std_area_def h'(2) w using w(3) by simp
  ultimately have "std_ids ?a (CANAF_RAM_mask h') = insort (std_entry c i) (std_ids a ?ram)" "pad_ok ?a (CANAF_RAM_mask h')"
    unfolding std_ids_def[of ?a] pad_ok_def std_pad_def t(3) by simp_all
  moreover have "behind_std ?a (CANAF_RAM_mask h') = behind_std a ?ram"
  proof -
    have "length (behind_std a ?ram) = CANAF_gstd_cnt a + CANAF_ext_cnt a + 2 * CANAF_gext_cnt a + CANAF_FullCAN_cnt a * 3"
      using assms(1,2) by (simp add: behind_std_def af_total_def af_words_def)
    then show ?thesis unfolding behind_std_def[of ?a] h'(2) w using w(3) by simp
  qed
  moreover have "take (fc_words a) (CANAF_RAM_mask h') = take (fc_words a) ?ram" unfolding h'(2) using w(3) by simp
  ultimately show ?thesis using h'(1) by blast
qed

definition filter_hw1 :: can_hw where
  "filter_hw1 = can_hw0\<lparr>CANAF_RAM_mask := [0x0300FFFF] @ replicate 511 0\<rparr>"

theorem load_standard_entry_witness:
  "\<exists>a' h'. CAN_LoadExplicitEntry CAN1 0x2AA STD_ID_FORMAT (af_cnt0\<lparr>CANAF_std_cnt := 1\<rparr>) filter_hw1 = Some (CAN_OK, a', h') \<and>
    std_ids a' (CANAF_RAM_mask h') = [0x2AA, 0x300]"
proof -
  let ?a = "af_cnt0\<lparr>CANAF_std_cnt := 1\<rparr>"
  have "std_ids ?a (CANAF_RAM_mask filter_hw1) = [0x300]" "pad_ok ?a (CANAF_RAM_mask filter_hw1)" "std_entry CAN1 0x2AA = 0x2AA"
    by code_simp+
  moreover have "af_total ?a < 512" by code_simp
  moreover have "length (CANAF_RAM_mask filter_hw1) = 512" by (simp add: filter_hw1_def)
  ultimately show ?thesis using load_standard_entry[of filter_hw1 ?a CAN1 "0x2AA"] by auto
qed
end
