(* ===== verification/Gateway.thy ===== *)
theory Gateway
  imports Canpt CanFilter Pins "HOL-Library.Sublist"
begin

unbundle bit_operations_syntax

text \<open>
  The CAN gateway as a whole: \<^verbatim>\<open>canpt_init\<close> of \<^verbatim>\<open>Lib_Board/src/canpt.c\<close> over the filter
  table and the pin configuration, the path of one frame from the receive registers of CAN1 to the
  transmit registers of CAN2, and the interleaving of the receive interrupt with the forwarding
  task as a transition system.

  In the transition system the task is split where an interrupt can change what it sees: it fetches
  a slot of the queue (\<^verbatim>\<open>q_get\<close> returns a pointer), and it later hands that slot to
  \<^verbatim>\<open>CAN_SendMsg\<close>. The interrupt handler may run any number of times in between, and the step
  \<open>env\<close> lets the hardware set its registers to anything at any time. The fields \<open>accepted\<close>,
  \<open>taken\<close>, \<open>sent\<close> and \<open>lost\<close> record the history.
\<close>

section \<open>Initialisation\<close>

abbreviation (input) CAN_IRQn :: nat where "CAN_IRQn \<equiv> 25"

definition canpt_init ::
  "u8 \<times> u8 \<Rightarrow> u8 \<times> u8 \<Rightarrow> LPC_PINCON_TypeDef \<Rightarrow> af_cnt \<Rightarrow> can_hw \<Rightarrow> canpt_state
    \<Rightarrow> (LPC_PINCON_TypeDef \<times> af_cnt \<times> can_hw \<times> canpt_state) option" where
  "canpt_init g1 g2 pc a h s = do {
     pc1 \<leftarrow> can1_pinConfig (fst g1) (snd g1) pc;
     pc2 \<leftarrow> can2_pinConfig (fst g2) (snd g2) pc1;
     h1 \<leftarrow> CAN_Init CAN1 CANPT_CAN1_BAUDRATE h;
     h2 \<leftarrow> CAN_Init CAN2 CANPT_CAN2_BAUDRATE h1;
     (e1, a1, h3) \<leftarrow> CAN_LoadExplicitEntry CAN2 CANPT_CAN2_ID STD_ID_FORMAT a h2;
     (e2, a2, h4) \<leftarrow> CAN_LoadGroupEntry CAN2 0x000 0x00F STD_ID_FORMAT a1 h3;
     (e3, a3, h5) \<leftarrow> CAN_LoadExplicitEntry CAN1 0x20000 EXT_ID_FORMAT a2 h4;
     (e4, a4, h6) \<leftarrow> CAN_LoadGroupEntry CAN1 0x1FFFF 0x20001 EXT_ID_FORMAT a3 h5;
     let h7 = af_upd (\<lambda>r. r\<lparr>AFMR := 0x04\<rparr>) h6;
     let s1 = s\<lparr>txMsg := (txMsg s)\<lparr>format := STD_ID_FORMAT, msg_type := DATA_FRAME\<rparr>,
                rxMsg := (rxMsg s)\<lparr>msg_id := 0, format := 0, msg_type := 0, msg_len := 0\<rparr>\<rparr>;
     let h8 = CAN_IRQCmd CAN1 CANINT_RIE ENABLE h7;
     let h9 = CAN_IRQCmd CAN2 CANINT_RIE ENABLE h8;
     Some (pc2, a4, h9\<lparr>NVIC_enabled := insert CAN_IRQn (NVIC_enabled h9)\<rparr>, s1)
   }"

lemma config_pins_Some:
  "pincon_wf pc \<Longrightarrow> Portnum cfg < 5 \<Longrightarrow> list_all (\<lambda>p. p < 32) ps \<Longrightarrow>
    \<exists>pc'. config_pins cfg ps pc = Some pc' \<and> pincon_wf pc'"
proof (induction ps arbitrary: pc)
  case (Cons p ps)
  have "unat p < 32" "unat (Portnum cfg) < 5" using Cons.prems by (simp_all add: word_less_nat_alt)
  then have "\<exists>pc'. PINSEL_ConfigPin (cfg\<lparr>Pinnum := p\<rparr>) pc = Some pc' \<and> pincon_wf pc'"
    using Cons.prems(1)
    by (auto simp: PINSEL_ConfigPin_def PINSEL_SetPinFunc_def PINSEL_SetResistorMode_def
        PINSEL_SetOpenDrainMode_def reg_pos_def pincon_wf_def)
  then show ?case using Cons by auto
qed simp

lemmas af_defs = total16_def af_total_def af_words_def fc_words_def std_words_def inc16_def af_upd_def
  ctrl_num_def af_cnt0_def

lemma init_load_1:
  assumes "CANAF_RAM_mask h = replicate 512 0"
    "LPC_CANAF h = r\<lparr>SFF_sa := 0, SFF_GRP_sa := 0, EFF_sa := 0, EFF_GRP_sa := 0, ENDofTable := 0, AFMR := 0\<rparr>"
  shows "CAN_LoadExplicitEntry CAN2 0x20 0 af_cnt0 h = Some (CAN_OK, af_cnt0\<lparr>CANAF_std_cnt := Suc 0\<rparr>,
    h\<lparr>LPC_CANAF := r\<lparr>SFF_sa := 0, SFF_GRP_sa := 4, EFF_sa := 4, EFF_GRP_sa := 4, ENDofTable := 4, AFMR := 0\<rparr>,
      CANAF_RAM_mask := (replicate 512 0)[0 := 0x2020FFFF]\<rparr>)"
  using assms by (simp add: CAN_LoadExplicitEntry_def load_explicit_std_def std_insert_def af_defs)

lemma init_load_2:
  assumes "CANAF_RAM_mask h = (replicate 512 0)[0 := 0x2020FFFF]"
    "LPC_CANAF h = r\<lparr>SFF_sa := 0, SFF_GRP_sa := 4, EFF_sa := 4, EFF_GRP_sa := 4, ENDofTable := 4, AFMR := 0\<rparr>"
  shows "CAN_LoadGroupEntry CAN2 0 0xF 0 (af_cnt0\<lparr>CANAF_std_cnt := Suc 0\<rparr>) h =
    Some (CAN_OK, af_cnt0\<lparr>CANAF_std_cnt := Suc 0, CANAF_gstd_cnt := Suc 0\<rparr>,
    h\<lparr>LPC_CANAF := r\<lparr>SFF_sa := 0, SFF_GRP_sa := 4, EFF_sa := 8, EFF_GRP_sa := 8, ENDofTable := 8, AFMR := 4\<rparr>,
      CANAF_RAM_mask := (replicate 512 0)[0 := 0x2020FFFF, Suc 0 := 0x2000200F]\<rparr>)"
  using assms by (simp add: CAN_LoadGroupEntry_def load_group_std_def af_defs)

lemma init_load_3:
  assumes "CANAF_RAM_mask h = (replicate 512 0)[0 := 0x2020FFFF, Suc 0 := 0x2000200F]"
    "LPC_CANAF h = r\<lparr>SFF_sa := 0, SFF_GRP_sa := 4, EFF_sa := 8, EFF_GRP_sa := 8, ENDofTable := 8, AFMR := 4\<rparr>"
  shows "CAN_LoadExplicitEntry CAN1 0x20000 1 (af_cnt0\<lparr>CANAF_std_cnt := Suc 0, CANAF_gstd_cnt := Suc 0\<rparr>) h =
    Some (CAN_OK, af_cnt0\<lparr>CANAF_std_cnt := Suc 0, CANAF_gstd_cnt := Suc 0, CANAF_ext_cnt := Suc 0\<rparr>,
    h\<lparr>LPC_CANAF := r\<lparr>SFF_sa := 0, SFF_GRP_sa := 4, EFF_sa := 8, EFF_GRP_sa := 12, ENDofTable := 12, AFMR := 0\<rparr>,
      CANAF_RAM_mask := (replicate 512 0)[0 := 0x2020FFFF, Suc 0 := 0x2000200F, 2 := 0x20000]\<rparr>)"
proof -
  have upd_same: "xs ! i = v \<Longrightarrow> xs[i := v] = xs" for xs :: "u32 list" and i v by auto
  have sh: "shift_up 2 c b ram = do { b1 \<leftarrow> rd ram (c + 1); ram1 \<leftarrow> wr ram (c + 1) b;
      b2 \<leftarrow> rd ram1 (c + 2); wr ram1 (c + 2) b1 }" for c b ram
    unfolding numeral_2_eq_2 by (auto split: bind_splits)
  show ?thesis
    using assms
    by (simp add: CAN_LoadExplicitEntry_def load_explicit_ext_def af_defs sh upd_same flip: numeral_2_eq_2)
qed

lemma init_load_4:
  assumes "CANAF_RAM_mask h = (replicate 512 0)[0 := 0x2020FFFF, Suc 0 := 0x2000200F, 2 := 0x20000]"
    "LPC_CANAF h = r\<lparr>SFF_sa := 0, SFF_GRP_sa := 4, EFF_sa := 8, EFF_GRP_sa := 12, ENDofTable := 12, AFMR := 0\<rparr>"
  shows "CAN_LoadGroupEntry CAN1 0x1FFFF 0x20001 1
      (af_cnt0\<lparr>CANAF_std_cnt := Suc 0, CANAF_gstd_cnt := Suc 0, CANAF_ext_cnt := Suc 0\<rparr>) h =
    Some (CAN_OK, af_cnt0\<lparr>CANAF_std_cnt := Suc 0, CANAF_gstd_cnt := Suc 0, CANAF_ext_cnt := Suc 0, CANAF_gext_cnt := Suc 0\<rparr>,
    h\<lparr>LPC_CANAF := r\<lparr>SFF_sa := 0, SFF_GRP_sa := 4, EFF_sa := 8, EFF_GRP_sa := 12, ENDofTable := 20, AFMR := 4\<rparr>,
      CANAF_RAM_mask := (replicate 512 0)[0 := 0x2020FFFF, Suc 0 := 0x2000200F, 2 := 0x20000, 3 := 0x1FFFF, 4 := 0x20001]\<rparr>)"
  using assms by (simp add: CAN_LoadGroupEntry_def load_group_ext_def af_defs flip: numeral_2_eq_2)

text \<open>
  After reset \<^verbatim>\<open>canpt_init\<close> returns; the filter table holds the standard identifier
  \<open>0x20\<close> and the group \<open>0..0xF\<close> for CAN2, the extended identifier \<open>0x20000\<close> and the group
  \<open>0x1FFFF..0x20001\<close> for CAN1 and nothing else, the section addresses are the byte offsets of these
  words, the filter runs in mode 4, and exactly the receive interrupt of both controllers and the
  CAN interrupt line are enabled.
\<close>

lemma canpt_init_result:
  assumes "pincon_wf pc"
  shows "\<exists>pc' a' h' s'. canpt_init g1 g2 pc af_cnt0 h s = Some (pc', a', h', s') \<and>
    CANAF_RAM_mask h' = [0x2020FFFF, 0x2000200F, 0x00020000, 0x0001FFFF, 0x00020001] @ replicate 507 0 \<and>
    (SFF_sa (LPC_CANAF h'), SFF_GRP_sa (LPC_CANAF h'), EFF_sa (LPC_CANAF h'),
      EFF_GRP_sa (LPC_CANAF h'), ENDofTable (LPC_CANAF h')) = (0, 4, 8, 12, 20) \<and>
    AFMR (LPC_CANAF h') = 4 \<and> IER (LPC_CAN1 h') = 1 \<and> IER (LPC_CAN2 h') = 1 \<and>
    NVIC_enabled h' = insert 25 (NVIC_enabled h) \<and>
    rxMsgs s' = rxMsgs s \<and> rxMsgIn s' = rxMsgIn s \<and> rxMsgOut s' = rxMsgOut s"
proof -
  obtain pc1 where pc1: "can1_pinConfig (fst g1) (snd g1) pc = Some pc1" "pincon_wf pc1"
    using config_pins_Some[OF assms, of "\<lparr>Portnum = 0, Pinnum = 0, Funcnum = 1, Pinmode = fst g1, OpenDrain = snd g1\<rparr>" "[0, 1]"]
    by (auto simp: can1_pinConfig_def)
  obtain pc2 where pc2: "can2_pinConfig (fst g2) (snd g2) pc1 = Some pc2"
    using config_pins_Some[OF pc1(2), of "\<lparr>Portnum = 2, Pinnum = 7, Funcnum = 1, Pinmode = fst g2, OpenDrain = snd g2\<rparr>" "[7, 8]"]
    by (auto simp: can2_pinConfig_def)
  obtain h1 where h1: "CAN_Init CAN1 33333 h = Some h1" "IER (can_get CAN1 h1) = 0" "NVIC_enabled h1 = NVIC_enabled h"
    by (rule CAN_Init_Some[of 33333 CAN1 h]) simp_all
  obtain h2 where h2: "CAN_Init CAN2 33333 h1 = Some h2" "CANAF_RAM_mask h2 = replicate 512 0"
    "LPC_CANAF h2 = (LPC_CANAF h1)\<lparr>SFF_sa := 0, SFF_GRP_sa := 0, EFF_sa := 0, EFF_GRP_sa := 0,
       ENDofTable := 0, AFMR := 0\<rparr>" "IER (can_get CAN2 h2) = 0" "can_get CAN1 h2 = can_get CAN1 h1"
     "NVIC_enabled h2 = NVIC_enabled h1"
    by (rule CAN_Init_Some[of 33333 CAN2 h1]) simp_all
  have ram: "(replicate 512 0)[0 := 0x2020FFFF, Suc 0 := 0x2000200F, 2 := 0x20000, 3 := 0x1FFFF, 4 := 0x20001] =
     [0x2020FFFF, 0x2000200F, 0x00020000, 0x0001FFFF, 0x00020001] @ replicate 507 (0 :: u32)"
  proof -
    have "replicate 512 (0 :: u32) = [0, 0, 0, 0, 0] @ replicate 507 0"
      using replicate_add[of 5 507 "0 :: u32"] by (simp add: numeral_eq_Suc)
    then show ?thesis by simp
  qed
  have ier: "IER (LPC_CAN1 h2) = 0" "IER (LPC_CAN2 h2) = 0"
    using h1(2) h2(4,5) by (simp_all add: can_get_def)
  show ?thesis
    unfolding canpt_init_def
    by (simp add: pc1 pc2 h1 h2 ier ram[simplified] init_load_1[OF h2(2,3)] init_load_2[where r = "LPC_CANAF h1"]
        init_load_3[where r = "LPC_CANAF h1"] init_load_4[where r = "LPC_CANAF h1"]
        CAN_IRQCmd_def can_upd_def af_upd_def)
qed

lemma canpt_init_result_example:
  "\<exists>pc' a' h' s'. canpt_init (0, 0) (0, 0) pincon0 af_cnt0 can_hw0 canpt_state0 = Some (pc', a', h', s') \<and>
    AFMR (LPC_CANAF h') = 4 \<and> IER (LPC_CAN1 h') = 1 \<and> IER (LPC_CAN2 h') = 1"
proof -
  have "pincon_wf pincon0" by code_simp
  from canpt_init_result[OF this, of "(0, 0)" "(0, 0)" can_hw0 canpt_state0] show ?thesis by blast
qed

section \<open>One frame through the gateway\<close>

text \<open>
  A data frame that CAN1 signals by its receive interrupt is, when the queue is empty and
  transmit buffer 1 of CAN2 is free, loaded into that buffer by the next run of the task: same
  identifier, same data words, same length, format and frame type bits; the other bits of the frame
  information register keep their value, and a transmission request is written to CAN2.
\<close>

theorem gateway_forwards_frame:
  assumes "q_inv s" "q_list s = []" "length (dataA (rxMsg s)) = 4" "length (dataB (rxMsg s)) = 4"
    and "bit (ICR (LPC_CAN1 h)) 0" "bit (SR (LPC_CAN1 h)) 0" "\<not> bit (RFS (LPC_CAN1 h)) 30"
    and "drop_bit (if bit (RFS (LPC_CAN1 h)) 31 then 29 else 11) (RID (LPC_CAN1 h)) = 0"
    and "CAN_IRQHandler h s = (h1, s1)"
    and "bit (SR (LPC_CAN2 h1)) 2"
    and "ts = t0 # ts'" "k < length gs" "Suc k < length ts'" "t0 + 500 \<le> ts' ! k"
  shows "\<exists>err h2 s2. canpt_task gs ts h1 s1 = Some (Some err, h2, s2) \<and> err \<noteq> ERR_CAN_SEND \<and>
    TID1 (LPC_CAN2 h2) = RID (LPC_CAN1 h) \<and> TDA1 (LPC_CAN2 h2) = RDA (LPC_CAN1 h) \<and>
    TDB1 (LPC_CAN2 h2) = RDB (LPC_CAN1 h) \<and>
    TFI1 (LPC_CAN2 h2) = (TFI1 (LPC_CAN2 h1) AND NOT 0xC00F0000) OR (RFS (LPC_CAN1 h) AND 0xC00F0000) \<and>
    CMR (LPC_CAN2 h2) = 0x21 \<and> CMR (LPC_CAN1 h2) = 0x04 \<and> q_list s2 = []"
proof -
  define m where "m = (rfs_msg (LPC_CAN1 h) (rxMsg s))\<lparr>dataA := unpack_data (RDA (LPC_CAN1 h)),
    dataB := unpack_data (RDB (LPC_CAN1 h))\<rparr>"
  have rcv: "CAN_ReceiveMsg CAN1 (rxMsg s) h = (SUCCESS, m, can_upd CAN1 (\<lambda>r. r\<lparr>CMR := 0x04\<rparr>) h)"
    using assms(6,7) by (simp add: CAN_ReceiveMsg_alt can_get_def m_def Let_def)
  have wf: "msg_wf m"
    using ReceiveMsg_wf[OF rcv assms(3,4)] assms(8) by (simp add: can_get_def)
  have "ICR (LPC_CAN1 h) AND 1 \<noteq> 0" using assms(5) rx1 by blast
  then have irq: "h1 = can_upd CAN1 (\<lambda>r. r\<lparr>CMR := 0x04\<rparr>) h" "s1 = q_put m (s\<lparr>rxMsg := m\<rparr>)"
    using assms(9) rcv by (simp_all add: CAN_IRQHandler_def)
  have inv: "q_inv (s\<lparr>rxMsg := m\<rparr>)" "q_list (s\<lparr>rxMsg := m\<rparr>) = []"
    using assms(1,2) by (simp_all add: q_inv_def q_list_def)
  have q1: "q_inv s1" "q_list s1 = [m]"
    using inv canq.put_elems[OF inv(1)] canq.put_inv[OF inv(1)] by (simp_all add: irq)
  obtain s2 where s2: "q_list s2 = []" "canpt_task gs ts h1 s1 =
       map_option (\<lambda>(err, h'). (Some err, h', s2)) (send_and_wait CAN2 m (t0 + 500) gs ts' h1)"
    using canpt_task_Cons[OF q1 assms(11)] by metis
  obtain err where err: "err \<in> {ERR_OK, ERR_TIMEOUT}"
    "send_and_wait CAN2 m (t0 + 500) gs ts' h1 = Some (err, can_upd CAN2 (load_tx1 m) h1)"
    using send_and_wait_returns[OF wf assms(12-14), of CAN2 h1] assms(10) by (auto simp: can_get_def)
  have "tfi_update m (TFI1 (LPC_CAN2 h1)) =
      (TFI1 (LPC_CAN2 h1) AND NOT 0xC00F0000) OR (RFS (LPC_CAN1 h) AND 0xC00F0000)"
    by (rule tfi_rfs) (simp_all add: m_def rfs_msg_def)
  then show ?thesis
    using s2 err by (auto simp: load_tx1_def can_upd_def irq m_def rfs_msg_def pack_unpack)
qed

section \<open>Interleaving of reception and forwarding\<close>

datatype task_pc = Idle | Fetched nat

record gw =
  hw :: can_hw
  st :: canpt_state
  pc :: task_pc
  accepted :: "CAN_MSG_Type list"
  taken :: "CAN_MSG_Type list"
  sent :: "CAN_MSG_Type list"
  lost :: nat

definition rx_pending :: "can_hw \<Rightarrow> CANx option" where
  "rx_pending h = (if ICR (LPC_CAN1 h) AND 0x01 \<noteq> 0 then Some CAN1
     else if ICR (LPC_CAN2 h) AND 0x01 \<noteq> 0 then Some CAN2 else None)"

inductive gw_step :: "gw \<Rightarrow> gw \<Rightarrow> bool" where
  env: "gw_step g (g\<lparr>hw := h\<rparr>)"
| irq: "CAN_IRQHandler (hw g) (st g) = (h', s') \<Longrightarrow> rx_pending (hw g) = Some c \<Longrightarrow>
    gw_step g (g\<lparr>hw := h', st := s',
      accepted := accepted g @ (if length (q_list (st g)) < 4 then [rxMsg s'] else [])\<rparr>)"
| fetch: "pc g = Idle \<Longrightarrow> \<not> q_isEmpty (st g) \<Longrightarrow> q_get (st g) = (Some i, s') \<Longrightarrow>
    gw_step g (g\<lparr>st := s', pc := Fetched i, taken := taken g @ [rxMsgs s' ! i]\<rparr>)"
| send: "pc g = Fetched i \<Longrightarrow> CAN_SendMsg CAN2 (rxMsgs (st g) ! i) (hw g) = Some (SUCCESS, h') \<Longrightarrow>
    gw_step g (g\<lparr>hw := h', pc := Idle, sent := sent g @ [rxMsgs (st g) ! i]\<rparr>)"
| drop: "pc g = Fetched i \<Longrightarrow> CAN_SendMsg CAN2 (rxMsgs (st g) ! i) (hw g) = Some (ERROR, h') \<Longrightarrow>
    gw_step g (g\<lparr>hw := h', pc := Idle, lost := lost g + 1\<rparr>)"

inductive_cases gw_stepE: "gw_step g g'"

definition gw_init :: "can_hw \<Rightarrow> canpt_state \<Rightarrow> gw" where
  "gw_init h s = \<lparr>hw = h, st = s, pc = Idle, accepted = q_list s, taken = [], sent = [], lost = 0\<rparr>"

definition gw_inv :: "gw \<Rightarrow> bool" where
  "gw_inv g \<longleftrightarrow> q_inv (st g) \<and> accepted g = taken g @ q_list (st g) \<and>
     (case pc g of
        Idle \<Rightarrow> subseq (sent g) (taken g) \<and> length (taken g) = length (sent g) + lost g
      | Fetched i \<Rightarrow> \<exists>ms m. taken g = ms @ [m] \<and> subseq (sent g) ms \<and> length ms = length (sent g) + lost g \<and>
          i < 5 \<and> rxMsgs (st g) ! i = m \<and> unat (rxMsgOut (st g)) = ring_next 5 i)"

lemma q_put_fields [simp]: "rxMsg (q_put d s) = rxMsg s" "rxMsgOut (q_put d s) = rxMsgOut s"
  by (simp_all add: q_put_def)

lemma IRQHandler_put:
  assumes "CAN_IRQHandler h s = (h', s')" "rx_pending h = Some c"
  shows "\<exists>m. s' = q_put m (s\<lparr>rxMsg := m\<rparr>)"
  using assms
  by (cases "CAN_ReceiveMsg c (rxMsg s) h") (auto simp: CAN_IRQHandler_def rx_pending_def split: if_splits)

lemma q_put_keeps_slot:
  assumes "q_inv s" "i < 5" "unat (rxMsgOut s) = ring_next 5 i"
  shows "rxMsgs (q_put d s) ! i = rxMsgs s ! i"
  using assms ring_next_inj[of "unat (rxMsgIn s)" 5 i]
  by (auto simp: q_put_alt) (auto simp: q_inv_def intro!: nth_list_update_neq)

lemma gw_inv_irq:
  assumes "gw_inv g" "CAN_IRQHandler (hw g) (st g) = (h', s')" "rx_pending (hw g) = Some c"
  shows "gw_inv (g\<lparr>hw := h', st := s',
      accepted := accepted g @ (if length (q_list (st g)) < 4 then [rxMsg s'] else [])\<rparr>)"
proof -
  obtain m where s': "s' = q_put m (st g\<lparr>rxMsg := m\<rparr>)" using IRQHandler_put[OF assms(2,3)] by blast
  have inv: "q_inv (st g\<lparr>rxMsg := m\<rparr>)" "q_list (st g\<lparr>rxMsg := m\<rparr>) = q_list (st g)"
    using assms(1) by (simp_all add: gw_inv_def q_inv_def q_list_def)
  have "q_list s' = q_list (st g) @ (if length (q_list (st g)) < 4 then [rxMsg s'] else [])"
    using canq.put_elems[OF inv(1)] canq.put_full[OF inv(1)] canq.elems_cap[OF inv(1)] inv(2)
    by (auto simp: s')
  moreover have "q_inv s'" using canq.put_inv[OF inv(1)] by (simp add: s')
  moreover have "rxMsgs s' ! i = rxMsgs (st g) ! i" if "i < 5" "unat (rxMsgOut (st g)) = ring_next 5 i" for i
    using q_put_keeps_slot[OF inv(1) that(1)] that(2) by (simp add: s')
  moreover have "rxMsgOut s' = rxMsgOut (st g)" by (simp add: s')
  ultimately show ?thesis
    using assms(1) by (cases "pc g") (auto simp: gw_inv_def)
qed

lemma gw_inv_fetch:
  assumes "gw_inv g" "pc g = Idle" "q_get (st g) = (Some i, s')"
  shows "gw_inv (g\<lparr>st := s', pc := Fetched i, taken := taken g @ [rxMsgs s' ! i]\<rparr>)"
proof -
  have inv: "q_inv (st g)" using assms(1) by (simp add: gw_inv_def)
  have "q_list (st g) \<noteq> []"
    using assms(3) q_list_Nil_iff[OF inv] by (auto simp: q_get_def split: if_splits)
  then obtain m ms where q: "q_list (st g) = m # ms" by (cases "q_list (st g)") auto
  have s': "rxMsgs s' ! i = m" "q_list s' = ms" "q_inv s'" "i < 5"
    using q_get_Cons[OF inv q] assms(3) by auto
  moreover have "unat (rxMsgOut s') = ring_next 5 i"
    using assms(3) inv unat_ring_next5 by (auto simp: q_get_alt q_inv_def split: if_splits)
  ultimately show ?thesis
    using assms(1,2) q by (auto simp: gw_inv_def)
qed

lemma gw_inv_step: "gw_step g g' \<Longrightarrow> gw_inv g \<Longrightarrow> gw_inv g'"
proof (induction rule: gw_step.induct)
  case (env g h)
  then show ?case by (cases "pc g") (auto simp: gw_inv_def)
next
  case (irq g h' s' c)
  then show ?case by (blast intro: gw_inv_irq)
next
  case (fetch g i s')
  then show ?case by (blast intro: gw_inv_fetch)
next
  case (send g i h')
  then show ?case by (auto simp: gw_inv_def intro: list_emb_append_mono)
next
  case (drop g i h')
  then show ?case by (auto simp: gw_inv_def)
qed

lemma gw_inv_reachable: "gw_step\<^sup>*\<^sup>* g g' \<Longrightarrow> gw_inv g \<Longrightarrow> gw_inv g'"
  by (induction rule: rtranclp_induct) (auto intro: gw_inv_step)

lemma gw_inv_init: "q_inv s \<Longrightarrow> gw_inv (gw_init h s)"
  by (simp add: gw_inv_def gw_init_def)


definition demo_hw :: can_hw where
  "demo_hw = can_hw0\<lparr>LPC_CAN1 := can_regs0\<lparr>ICR := 1, SR := 1, RFS := 0x80000, RID := 0x123,
       RDA := 0x04030201, RDB := 0x08070605\<rparr>, LPC_CAN2 := can_regs0\<lparr>SR := 4\<rparr>\<rparr>"


text \<open>
  Every run of \<^verbatim>\<open>canpt_task\<close> that returns is a sequence of steps of this transition
  system that ends with an idle task: the two-phase description of the task is faithful to the
  function.
\<close>

lemma canpt_task_steps:
  assumes "canpt_task gs ts (hw g) (st g) = Some (r, h', s')" "pc g = Idle"
  shows "\<exists>g'. gw_step\<^sup>*\<^sup>* g g' \<and> hw g' = h' \<and> st g' = s' \<and> pc g' = Idle \<and>
    (sent g' \<noteq> sent g \<longleftrightarrow> (r = Some ERR_OK \<or> r = Some ERR_TIMEOUT))"
proof (cases "q_isEmpty (st g)")
  case True
  then show ?thesis using assms by (intro exI[of _ g]) (auto simp: canpt_task_def)
next
  case False
  then obtain i s1 where g: "q_get (st g) = (Some i, s1)" by (auto simp: q_get_def q_isEmpty_def)
  let ?m = "rxMsgs s1 ! i"
  obtain st' h1 where send: "CAN_SendMsg CAN2 ?m (hw g) = Some (st', h1)" "h' = h1" "s' = s1"
    "st' = SUCCESS \<longleftrightarrow> r = Some ERR_OK \<or> r = Some ERR_TIMEOUT"
    using assms(1) False g
    by (auto simp: canpt_task_def send_and_wait_def split: bind_splits if_splits prod.splits)
  let ?g1 = "g\<lparr>st := s1, pc := Fetched i, taken := taken g @ [?m]\<rparr>"
  have 1: "gw_step g ?g1" using assms(2) False g by (rule gw_step.fetch)
  show ?thesis
  proof (cases st')
    case SUCCESS
    then have "gw_step ?g1 (?g1\<lparr>hw := h1, pc := Idle, sent := sent ?g1 @ [rxMsgs (st ?g1) ! i]\<rparr>)"
      using send by (intro gw_step.send) simp_all
    then have "gw_step\<^sup>*\<^sup>* g (?g1\<lparr>hw := h1, pc := Idle, sent := sent ?g1 @ [rxMsgs (st ?g1) ! i]\<rparr>)"
      using 1 by (meson converse_rtranclp_into_rtranclp rtranclp.rtrancl_refl)
    then show ?thesis using send SUCCESS
      by (intro exI[of _ "?g1\<lparr>hw := h1, pc := Idle, sent := sent ?g1 @ [rxMsgs (st ?g1) ! i]\<rparr>"]) simp
  next
    case ERROR
    then have "gw_step ?g1 (?g1\<lparr>hw := h1, pc := Idle, lost := lost ?g1 + 1\<rparr>)"
      using send by (intro gw_step.drop) simp_all
    then have "gw_step\<^sup>*\<^sup>* g (?g1\<lparr>hw := h1, pc := Idle, lost := lost ?g1 + 1\<rparr>)"
      using 1 by (meson converse_rtranclp_into_rtranclp rtranclp.rtrancl_refl)
    then show ?thesis using send ERROR
      by (intro exI[of _ "?g1\<lparr>hw := h1, pc := Idle, lost := lost ?g1 + 1\<rparr>"]) simp
  qed
qed

lemma canpt_task_steps_example:
  "\<exists>g'. gw_step\<^sup>*\<^sup>* (gw_init demo_hw (q_put (msg0\<lparr>msg_id := 7\<rparr>) canpt_state0)) g' \<and> pc g' = Idle \<and> sent g' \<noteq> []"
proof -
  let ?s = "q_put (msg0\<lparr>msg_id := 7\<rparr>) canpt_state0"
  let ?g = "gw_init demo_hw ?s"
  let ?r = "canpt_task [8] [100, 200] demo_hw ?s"
  have r: "?r = Some (Some ERR_OK, fst (snd (the ?r)), snd (snd (the ?r)))" by code_simp
  have g: "hw ?g = demo_hw" "st ?g = ?s" "pc ?g = Idle" "sent ?g = []" by (simp_all add: gw_init_def)
  obtain g' where "gw_step\<^sup>*\<^sup>* ?g g'" "pc g' = Idle" "sent g' \<noteq> sent ?g"
    using canpt_task_steps[of "[8]" "[100, 200]" ?g, unfolded g, OF r refl] by (metis g(4))
  then show ?thesis unfolding g by blast
qed

theorem gateway_forwards_frame_example:
  "\<exists>err h2 s2. canpt_task [8] [100, 600, 601] (fst (CAN_IRQHandler demo_hw canpt_state0))
      (snd (CAN_IRQHandler demo_hw canpt_state0)) = Some (Some err, h2, s2) \<and>
    TID1 (LPC_CAN2 h2) = 0x123 \<and> TDA1 (LPC_CAN2 h2) = 0x04030201 \<and> TDB1 (LPC_CAN2 h2) = 0x08070605"
proof -
  let ?r = "CAN_IRQHandler demo_hw canpt_state0"
  have a: "q_inv canpt_state0" "q_list canpt_state0 = []" "length (dataA (rxMsg canpt_state0)) = 4"
    "length (dataB (rxMsg canpt_state0)) = 4" "bit (ICR (LPC_CAN1 demo_hw)) 0" "bit (SR (LPC_CAN1 demo_hw)) 0"
    "\<not> bit (RFS (LPC_CAN1 demo_hw)) 30"
    "drop_bit (if bit (RFS (LPC_CAN1 demo_hw)) 31 then 29 else 11) (RID (LPC_CAN1 demo_hw)) = 0"
    "?r = (fst ?r, snd ?r)" "bit (SR (LPC_CAN2 (fst ?r))) 2"
    by code_simp+
  have "RID (LPC_CAN1 demo_hw) = 0x123" "RDA (LPC_CAN1 demo_hw) = 0x04030201" "RDB (LPC_CAN1 demo_hw) = 0x08070605"
    by code_simp+
  moreover have "100 + 500 \<le> [600, 601 :: u32] ! 0" by simp
  ultimately show ?thesis
    using gateway_forwards_frame[OF a refl, of 0 "[8]" "[600, 601]" 100] by auto
qed

end
