(* ===== verification/AndroidHost.thy ===== *)
theory AndroidHost
  imports Accessory Gateway
begin

unbundle bit_operations_syntax

text \<open>
  The accessory application \<^verbatim>\<open>demo_aoa_can/src/AndroidAccessoryHost.c\<close>: commands from and to the
  Android device over the two data pipes, the call-backs it registers with the CAN node protocol,
  its table of subscriptions, and the handlers of the USB events. The file-static variables are the
  record \<open>aoa\<close>; the world of the call-backs is the state of the node protocol, the state of the USB
  stack and \<open>aoa\<close>. \<^verbatim>\<open>getMsTicks()\<close> is the argument \<open>now\<close>. The text output on the console, which has
  no other effect, is not modelled; nor is \<^verbatim>\<open>EVENT_USB_Host_HostError\<close>, which the stack never
  raises in this configuration.
\<close>

record subscription_t =
  sub_reqId :: u8
  sub_subId :: u8

record aoa =
  connected :: u8
  doDisconnect :: u8
  scheduleDisconnect :: u32
  subs :: "subscription_t list"
  attachedCoreNum :: u8

type_synonym 'h world = "canpt_state \<times> 'h usb \<times> aoa"

abbreviation (input) CMD_NODE_ADD :: u8 where "CMD_NODE_ADD \<equiv> 0"
abbreviation (input) CMD_NODE_REMOVE :: u8 where "CMD_NODE_REMOVE \<equiv> 1"
abbreviation (input) CMD_NODE_VALUE :: u8 where "CMD_NODE_VALUE \<equiv> 2"
abbreviation (input) CMD_SET_VALUE :: u8 where "CMD_SET_VALUE \<equiv> 10"
abbreviation (input) CMD_CONNECT :: u8 where "CMD_CONNECT \<equiv> 98"
abbreviation (input) CMD_DISCONNECT :: u8 where "CMD_DISCONNECT \<equiv> 99"
abbreviation (input) MAX_NUM_SUBSCRIPTIONS :: nat where "MAX_NUM_SUBSCRIPTIONS \<equiv> 50"

definition aoa0 :: aoa where
  "aoa0 = \<lparr>connected = 0, doDisconnect = 0, scheduleDisconnect = 0,
     subs = replicate MAX_NUM_SUBSCRIPTIONS \<lparr>sub_reqId = 0, sub_subId = 0\<rparr>, attachedCoreNum = -1\<rparr>"

section \<open>Messages to the device\<close>

definition sendCommand :: "'h hcd \<Rightarrow> u8 \<Rightarrow> u8 \<Rightarrow> u8 list \<Rightarrow> u8 \<Rightarrow> 'h usb \<Rightarrow> 'h usb option" where
  "sendCommand d c cmd data len u = do {
     hs \<leftarrow> rd (USB_HostState u) (unat c);
     (if hs \<noteq> HOST_STATE_Configured then Some u
      else do {
        u \<leftarrow> Pipe_SelectPipe c ANDROID_DATA_OUT_PIPE u;
        (ok, u) \<leftarrow> Pipe_IsReadWriteAllowed d c u;
        (if ok then do {
           u \<leftarrow> Pipe_Write_8 c cmd u;
           (_, u) \<leftarrow> Pipe_Write_Stream_LE c data (ucast len) None u;
           Pipe_ClearOUT d c u
         }
         else Some u)
      })
   }"

definition setNodeValue :: "u8 \<Rightarrow> u8 \<Rightarrow> u8 \<Rightarrow> u8 \<Rightarrow> canpt_state \<Rightarrow> canpt_state" where
  "setNodeValue nodeId devId d0 d1 s =
     (if devId = CANPT_MSG_DEV_RGB then snd (canpt_setRgb nodeId d0 (if d1 \<noteq> 0 then 1 else 0) s)
      else if devId = CANPT_MSG_DEV_LED then snd (canpt_setLed nodeId d1 s)
      else s)"

fun read_array :: "u8 list \<Rightarrow> nat list \<Rightarrow> u8 list option" where
  "read_array xs [] = Some []"
| "read_array xs (i # is) = do { v \<leftarrow> rd xs i; vs \<leftarrow> read_array xs is; Some (v # vs) }"

text \<open>The message is the first \<open>2 + numCaps\<close> bytes of the local array \<^verbatim>\<open>data\<close>.\<close>

definition sendNodeAttached :: "'h hcd \<Rightarrow> u8 \<Rightarrow> u8 \<Rightarrow> u8 list \<Rightarrow> u8 \<Rightarrow> 'h usb \<Rightarrow> 'h usb option" where
  "sendNodeAttached d c r cs numCaps u = do {
     let n = (if numCaps > 12 then 12 else numCaps);
     vs \<leftarrow> read_array cs [0..<unat n];
     sendCommand d c CMD_NODE_ADD (r # n # vs) (2 + n) u
   }"

definition sendNodeDetached :: "'h hcd \<Rightarrow> u8 \<Rightarrow> u8 \<Rightarrow> 'h usb \<Rightarrow> 'h usb option" where
  "sendNodeDetached d c r u = sendCommand d c CMD_NODE_REMOVE [r] 1 u"

section \<open>Nodes coming and going\<close>

fun subscribe_caps :: "u8 \<Rightarrow> u8 list \<Rightarrow> nat list \<Rightarrow> canpt_state \<Rightarrow> canpt_state option" where
  "subscribe_caps r buf [] s = Some s"
| "subscribe_caps r buf (i # is) s = do {
     p \<leftarrow> rd buf i;
     s \<leftarrow> (if p = CANPT_MSG_DEV_TEMP then do {
             (_, s) \<leftarrow> canpt_subscribe r p CANPT_MSG_SUB_DIF [0, 50] 2 (snd (canpt_getTemperature r s)); Some s }
           else if p = CANPT_MSG_DEV_LIGHT then do {
             (_, s) \<leftarrow> canpt_subscribe r p CANPT_MSG_SUB_DIF [0, 10] 2 (snd (canpt_getLight r s)); Some s }
           else if p = CANPT_MSG_DEV_BTN then do {
             (_, s) \<leftarrow> canpt_subscribe r p CANPT_MSG_SUB_DIF [0] 1 (snd (canpt_getButton r s)); Some s }
           else Some s);
     subscribe_caps r buf is s
   }"

text \<open>\<open>buf0\<close> and \<open>n0\<close> are the initial contents of the locals \<^verbatim>\<open>buf\<close> and \<^verbatim>\<open>numCaps\<close>.\<close>

definition handleNodeAttached ::
  "'h hcd \<Rightarrow> u8 list \<Rightarrow> u8 \<Rightarrow> u8 \<Rightarrow> u8 \<Rightarrow> 'h world \<Rightarrow> 'h world option" where
  "handleNodeAttached d buf0 n0 c r w = (case w of (s, u, a) \<Rightarrow> do {
     (err, buf, numCaps) \<leftarrow> canpt_getNodeCaps r (Some buf0) 12 (Some n0) s;
     buf \<leftarrow> buf;
     n \<leftarrow> numCaps;
     (if err = ERR_OK \<and> n > 0 \<and> n \<le> 12 then do {
        s \<leftarrow> subscribe_caps r buf [0..<unat n] s;
        u \<leftarrow> sendNodeAttached d c r buf n u;
        Some (s, u, a)
      }
      else Some (s, u, a))
   })"

definition handleNodeDetached :: "'h hcd \<Rightarrow> u8 \<Rightarrow> u8 \<Rightarrow> 'h world \<Rightarrow> 'h world option" where
  "handleNodeDetached d c r w = (case w of (s, u, a) \<Rightarrow> do {
     let a = a\<lparr>subs := map (\<lambda>x. if sub_reqId x \<noteq> 0 then x\<lparr>sub_reqId := 0, sub_subId := 0\<rparr> else x) (subs a)\<rparr>;
     u \<leftarrow> sendNodeDetached d c r u;
     Some (s, u, a)
   })"

section \<open>Call-backs of the node protocol\<close>

definition nodeAttached_cb :: "'h hcd \<Rightarrow> u8 list \<Rightarrow> u8 \<Rightarrow> u8 \<Rightarrow> 'h world \<Rightarrow> 'h world option" where
  "nodeAttached_cb d buf0 n0 r w = (case w of (s, u, a) \<Rightarrow>
     if connected a = 0 then Some w else handleNodeAttached d buf0 n0 (attachedCoreNum a) r w)"

definition nodeDetached_cb :: "'h hcd \<Rightarrow> u8 \<Rightarrow> 'h world \<Rightarrow> 'h world option" where
  "nodeDetached_cb d r w = (case w of (s, u, a) \<Rightarrow>
     if connected a = 0 then Some w else handleNodeDetached d (attachedCoreNum a) r w)"

definition valueUpdate :: "'h hcd \<Rightarrow> u8 \<Rightarrow> u8 \<Rightarrow> u8 list \<Rightarrow> u8 \<Rightarrow> 'h world \<Rightarrow> 'h world option" where
  "valueUpdate d r periphId buf len w = (case w of (s, u, a) \<Rightarrow>
     if connected a = 0 then Some w
     else do {
       data \<leftarrow> (if len < 2 then do { v \<leftarrow> rd buf 0; Some [r, periphId, 0, v] }
                else do { v0 \<leftarrow> rd buf 0; v1 \<leftarrow> rd buf 1; Some [r, periphId, v0, v1] });
       u \<leftarrow> sendCommand d (attachedCoreNum a) CMD_NODE_VALUE data 4 u;
       Some (s, u, a)
     })"

definition subStarted_cb :: "u8 \<Rightarrow> u8 \<Rightarrow> 'h world \<Rightarrow> 'h world option" where
  "subStarted_cb r subId w = (case w of (s, u, a) \<Rightarrow>
     case find_idx (\<lambda>x. sub_reqId x = 0) (subs a) of
       None \<Rightarrow> Some w
     | Some i \<Rightarrow> Some (s, u, a\<lparr>subs := (subs a)[i := \<lparr>sub_reqId = r, sub_subId = subId\<rparr>]\<rparr>))"

definition callbacks :: "'h hcd \<Rightarrow> u8 list \<Rightarrow> u8 \<Rightarrow> 'h world canpt_callb_t" where
  "callbacks d buf0 n0 = \<lparr>nodeAttached = Some (nodeAttached_cb d buf0 n0), nodeDetached = Some (nodeDetached_cb d),
     value_cb = Some (valueUpdate d), subStarted = Some subStarted_cb\<rparr>"

section \<open>The device coming and going\<close>

fun attach_all :: "'h hcd \<Rightarrow> u8 list \<Rightarrow> u8 \<Rightarrow> u8 \<Rightarrow> u8 list \<Rightarrow> nat list \<Rightarrow> 'h world \<Rightarrow> 'h world option" where
  "attach_all d buf0 n0 c ids [] w = Some w"
| "attach_all d buf0 n0 c ids (i # is) w = do {
     r \<leftarrow> rd ids i;
     w \<leftarrow> handleNodeAttached d buf0 n0 c r w;
     attach_all d buf0 n0 c ids is w
   }"

definition handleDeviceConnected ::
  "'h hcd \<Rightarrow> u8 list \<Rightarrow> u8 \<Rightarrow> u8 list \<Rightarrow> u8 \<Rightarrow> 'h world \<Rightarrow> 'h world option" where
  "handleDeviceConnected d buf0 n0 ids0 c w = do {
     (err, ids, n) \<leftarrow> canpt_getNodes (Some ids0) 10 (Some 0) (fst w);
     ids \<leftarrow> ids;
     n \<leftarrow> n;
     (if err = ERR_OK \<and> n > 0 then attach_all d buf0 n0 c ids [0..<unat n] w else Some w)
   }"

fun cancel_subs :: "nat list \<Rightarrow> canpt_state \<times> subscription_t list \<Rightarrow> (canpt_state \<times> subscription_t list) option" where
  "cancel_subs [] w = Some w"
| "cancel_subs (i # is) (s, ss) = do {
     x \<leftarrow> rd ss i;
     (if sub_reqId x \<noteq> 0
      then cancel_subs is (snd (canpt_unsubscribe (sub_reqId x) (sub_subId x) s), ss[i := \<lparr>sub_reqId = 0, sub_subId = 0\<rparr>])
      else cancel_subs is (s, ss))
   }"

definition handleDeviceDisconnected :: "'h world \<Rightarrow> 'h world option" where
  "handleDeviceDisconnected w = (case w of (s, u, a) \<Rightarrow> do {
     (s, ss) \<leftarrow> cancel_subs [0..<MAX_NUM_SUBSCRIPTIONS] (s, subs a);
     Some (s, u, a\<lparr>subs := ss\<rparr>)
   })"

section \<open>Tasks\<close>

definition monitor_task :: "'h hcd \<Rightarrow> u32 \<Rightarrow> 'h world \<Rightarrow> 'h world option" where
  "monitor_task d now w = do {
     w \<leftarrow> (case w of (s, u, a) \<Rightarrow>
            if scheduleDisconnect a > 0 \<and> scheduleDisconnect a < now
            then handleDeviceDisconnected (s, u, a\<lparr>scheduleDisconnect := 0\<rparr>) else Some w);
     (case w of (s, u, a) \<Rightarrow>
        if connected a = 0 then Some w
        else if doDisconnect a \<noteq> 0 then do {
          u \<leftarrow> sendCommand d (attachedCoreNum a) CMD_DISCONNECT [] 0 u;
          Some (s, u, a\<lparr>doDisconnect := 0, connected := 0\<rparr>)
        }
        else Some w)
   }"

definition androidHost_init ::
  "u8 \<times> u8 \<Rightarrow> u8 \<times> u8 \<Rightarrow> LPC_PINCON_TypeDef \<Rightarrow> af_cnt \<Rightarrow> can_hw \<Rightarrow> 'h world
    \<Rightarrow> (LPC_PINCON_TypeDef \<times> af_cnt \<times> can_hw \<times> 'h world) option" where
  "androidHost_init g1 g2 pins cnt h w = (case w of (s, u, a) \<Rightarrow> do {
     (pins, cnt, h, s) \<leftarrow> canpt_init g1 g2 pins cnt h s;
     Some (pins, cnt, h, s, u, a\<lparr>subs := map (\<lambda>x. x\<lparr>sub_reqId := 0\<rparr>) (subs a)\<rparr>)
   })"

fun read_n :: "u8 \<Rightarrow> nat \<Rightarrow> 'h usb \<Rightarrow> (u8 list \<times> 'h usb) option" where
  "read_n c 0 u = Some ([], u)"
| "read_n c (Suc n) u = do { (v, u) \<leftarrow> Pipe_Read_8 c u; (vs, u) \<leftarrow> read_n c n u; Some (v # vs, u) }"

text \<open>
  The command in a received packet. The four arguments of \<^verbatim>\<open>setNodeValue\<close> are calls that read
  the next byte, and C leaves their order open: the list \<open>ord\<close> tells which of the four bytes each
  parameter receives (\<open>[0, 1, 2, 3]\<close> when they are evaluated from left to right).
\<close>

definition handle_command ::
  "'h hcd \<Rightarrow> u8 list \<Rightarrow> u8 \<Rightarrow> u8 list \<Rightarrow> nat list \<Rightarrow> u8 \<Rightarrow> u8 \<Rightarrow> 'h world \<Rightarrow> 'h world option" where
  "handle_command d buf0 n0 ids0 ord cn numBytes w = (case w of (s, u, a) \<Rightarrow> do {
     (c, u) \<leftarrow> Pipe_Read_8 cn u;
     let numBytes = numBytes - 1;
     (if c = CMD_SET_VALUE then
        (if numBytes = 4 then do {
           (vs, u) \<leftarrow> read_n cn 4 u;
           Some (setNodeValue (vs ! (ord ! 0)) (vs ! (ord ! 1)) (vs ! (ord ! 2)) (vs ! (ord ! 3)) s, u, a)
         }
         else Some (s, u, a))
      else if c = CMD_CONNECT then handleDeviceConnected d buf0 n0 ids0 cn (s, u, a\<lparr>connected := 1\<rparr>)
      else if c = CMD_DISCONNECT then Some (s, u, a\<lparr>doDisconnect := 1\<rparr>)
      else do { (_, u) \<leftarrow> read_n cn (unat numBytes) u; Some (s, u, a) })
   })"

definition androidHost_task ::
  "'h hcd \<Rightarrow> u8 list \<Rightarrow> u8 \<Rightarrow> u8 list \<Rightarrow> nat list \<Rightarrow> u32 \<Rightarrow> 'h world \<Rightarrow> 'h world option" where
  "androidHost_task d buf0 n0 ids0 ord now w = do {
     (s, u, a) \<leftarrow> monitor_task d now w;
     (if uint (attachedCoreNum a) = -1 then Some (s, u, a)
      else do {
        let c = attachedCoreNum a;
        hs \<leftarrow> rd (USB_HostState u) (unat c);
        (if hs \<noteq> HOST_STATE_Configured then Some (s, u, a)
         else do {
           u \<leftarrow> Pipe_SelectPipe c ANDROID_DATA_IN_PIPE u;
           (received, u) \<leftarrow> Pipe_IsINReceived d c u;
           (if received then do {
              (ok, u) \<leftarrow> Pipe_IsReadWriteAllowed d c u;
              (s, u, a) \<leftarrow> (if ok then do {
                  n \<leftarrow> Pipe_BytesInPipe c u;
                  (if (ucast n :: u8) > 0 then handle_command d buf0 n0 ids0 ord c (ucast n) (s, u, a)
                   else Some (s, u, a))
                }
                else Some (s, u, a));
              u \<leftarrow> Pipe_ClearIN (attachedCoreNum a) u;
              Some (s, u, a)
            }
            else Some (s, u, a))
         })
      })
   }"

section \<open>USB events\<close>

text \<open>The handler of a host error does not return: the definition is the state in which it loops forever.\<close>

definition EVENT_USB_Host_HostError :: "'h hcd \<Rightarrow> u8 \<Rightarrow> u8 \<Rightarrow> 'h usb \<Rightarrow> 'h usb" where
  "EVENT_USB_Host_HostError d corenum ErrorCode u = USB_Disable d u"

definition EVENT_USB_Host_DeviceAttached :: "u8 \<Rightarrow> aoa \<Rightarrow> aoa" where
  "EVENT_USB_Host_DeviceAttached c a = a\<lparr>attachedCoreNum := c\<rparr>"

definition EVENT_USB_Host_DeviceUnattached :: "u32 \<Rightarrow> u8 \<Rightarrow> aoa \<Rightarrow> aoa" where
  "EVENT_USB_Host_DeviceUnattached now c a = a\<lparr>connected := 0, scheduleDisconnect := now + 1000\<rparr>"

definition ascii :: "string \<Rightarrow> u8 list" where
  "ascii s = map (\<lambda>ch. word_of_nat (of_char ch)) s"

definition accessory_strings :: "(u8 \<times> u8 list) list" where
  "accessory_strings =
     [(0, ascii ''Embedded Artists AB''), (0, ascii ''Embedded Artists AB''), (1, ascii ''AOA Board - Nodes''),
      (2, ascii ''Demo - AOA Nodes''), (3, ascii ''1.0''),
      (4, ascii ''http://www.embeddedartists.com/_aoa/Demo_AOA_Nodes.apk''), (5, ascii ''N/A'')]"

fun send_strings :: "'h hcd \<Rightarrow> u8 \<Rightarrow> (u8 \<times> u8 list) list \<Rightarrow> 'h usb \<Rightarrow> 'h usb option" where
  "send_strings d c [] u = Some u"
| "send_strings d c ((i, str) # ss) u = do { (_, u) \<leftarrow> Android_SendString d c i str u; send_strings d c ss u }"

definition EVENT_USB_Host_DeviceEnumerationComplete ::
  "'h hcd \<Rightarrow> u8 list \<Rightarrow> u16 \<Rightarrow> u8 list \<Rightarrow> u8 list \<Rightarrow> u8 \<Rightarrow> 'h usb \<Rightarrow> 'h usb option" where
  "EVENT_USB_Host_DeviceEnumerationComplete d dev0 proto0 hdr0 cfg0 c u = do {
     (e, u) \<leftarrow> ProcessDeviceDescriptor d c dev0 u;
     (if e \<noteq> AccessoryModeAndroidDevice \<and> e \<noteq> NonAccessoryModeAndroidDevice then Some u
      else if e = NonAccessoryModeAndroidDevice then do {
        (e, proto, u) \<leftarrow> Android_GetAccessoryProtocol d c proto0 u;
        (if e \<noteq> HOST_SENDCONTROL_Successful then Some u
         else if proto = 0 \<or> proto > ANDROID_PROTOCOL_Accessory then Some u
         else do {
           u \<leftarrow> send_strings d c accessory_strings u;
           (_, u) \<leftarrow> Android_StartAccessoryMode d c u;
           Some u
         })
      }
      else do {
        (e, u) \<leftarrow> ProcessConfigurationDescriptor d c hdr0 cfg0 u;
        (if e \<noteq> SuccessfulConfigRead then Some u
         else do {
           (_, u) \<leftarrow> USB_Host_SetDeviceConfiguration d c 1 u;
           Some u
         })
      })
   }"

text \<open>The handlers as the events of the stack.\<close>

definition android_events ::
  "'h hcd \<Rightarrow> u8 list \<Rightarrow> u16 \<Rightarrow> u8 list \<Rightarrow> u8 list \<Rightarrow> u32 \<Rightarrow> ('h, aoa) host_events" where
  "android_events d dev0 proto0 hdr0 cfg0 now = \<lparr>
     EVENT_DeviceAttached = (\<lambda>c (u, a). Some (u, EVENT_USB_Host_DeviceAttached c a)),
     EVENT_DeviceUnattached = (\<lambda>c (u, a). Some (u, EVENT_USB_Host_DeviceUnattached now c a)),
     EVENT_DeviceEnumerationComplete = (\<lambda>c (u, a). do {
        u \<leftarrow> EVENT_USB_Host_DeviceEnumerationComplete d dev0 proto0 hdr0 cfg0 c u; Some (u, a) }),
     EVENT_DeviceEnumerationFailed = (\<lambda>c e sub w. Some w)\<rparr>"

section \<open>Sending a message\<close>

text \<open>
  The data-out pipe is open, empty and bound to an OUT end point, the device is configured and the
  last transfer of the pipe has completed.
\<close>

definition out_ready :: "'h hcd \<Rightarrow> nat \<Rightarrow> 'h usb \<Rightarrow> bool" where
  "out_ready d k u \<longleftrightarrow> usb_ok u \<and> USB_HostState u = [HOST_STATE_Configured] \<and> Buffer (row u ! 2) \<noteq> None \<and>
     ByteTransfered (row u ! 2) = 0 \<and> k \<le> unat (BufferSize (row u ! 2)) \<and>
     EndponitAddress (row u ! 2) AND PIPE_EPDIR_MASK = 0 \<and>
     fst (HcdGetPipeStatus d (PipeHandle (row u ! 2)) (hcd_state u)) = HCD_STATUS_OK"

text \<open>
  The bytes are handed to the host controller: the driver's transfer is called on the handle of the
  data-out pipe with a buffer that holds exactly these bytes, and the pipe is empty afterwards.
\<close>

definition handed :: "'h hcd \<Rightarrow> u8 list \<Rightarrow> 'h usb \<Rightarrow> 'h usb \<Rightarrow> bool" where
  "handed d bytes u u' \<longleftrightarrow> (\<exists>b. Buffer (row u ! 2) = Some b \<and> take (length bytes) (drop b (usb_pool u')) = bytes \<and>
     hcd_state u' = HcdDataTransfer d (PipeHandle (row u ! 2)) (Some b) (usb_pool u') (word_of_nat (length bytes)) False
        (snd (HcdGetPipeStatus d (PipeHandle (row u ! 2)) (hcd_state u)))) \<and>
     usb_ok u' \<and> row u' = (row u)[2 := clear_pipe (row u ! 2)] \<and> USB_HostState u' = USB_HostState u"

lemma put_bytes_write: "length data = unat (len :: u8) \<Longrightarrow>
    Pipe_Write_Stream_LE c data (ucast len) None u = do { u \<leftarrow> put_bytes c data u; Some (PIPE_RWSTREAM_NoError, u) }"
proof -
  assume l: "length data = unat len"
  have "unat len < 2 ^ 16" by (rule order.strict_trans[OF unat_u8_lt]) simp
  then have "unat (ucast len :: u16) = unat len" by (simp add: unsigned_ucast_eq take_bit_nat_eq_self)
  then show ?thesis using write_bytes_put[of 0 "unat len" data c u] l by (simp add: Pipe_Write_Stream_LE_def)
qed

lemma ucast_of_nat_u16: "n < 65536 \<Longrightarrow> (ucast (word_of_nat n :: u16) :: u32) = word_of_nat n"
  by (simp add: word_unat_eq_iff unat_ucast_u16 unat_of_nat_u16 unat_of_nat take_bit_nat_eq_self)

lemma sendCommand_handed:
  assumes r: "out_ready d (Suc (length data)) u" and l: "length data = unat len"
  shows "\<exists>u'. sendCommand d 0 cmd data len u = Some u' \<and> handed d (cmd # data) u u'"
proof -
  let ?p = "row u ! 2"
  obtain st h where st: "HcdGetPipeStatus d (PipeHandle ?p) (hcd_state u) = (st, h)" by (cases "HcdGetPipeStatus d (PipeHandle ?p) (hcd_state u)")
  have u: "usb_ok u" and hs: "USB_HostState u = [HOST_STATE_Configured]" and bt: "ByteTransfered ?p = 0"
    and bs: "Suc (length data) \<le> unat (BufferSize ?p)" and ea: "EndponitAddress ?p AND PIPE_EPDIR_MASK = 0" and ok: "st = HCD_STATUS_OK"
    using r st by (auto simp: out_ready_def)
  obtain b where b: "Buffer ?p = Some b" using r by (auto simp: out_ready_def)
  let ?u1 = "u\<lparr>pipeselected := [2], hcd_state := h\<rparr>"
  have u1: "usb_ok ?u1" "usb_shape (u\<lparr>pipeselected := [2]\<rparr>)" using select_ok[OF u, of 2] by (auto simp: usb_okD(3))
  note sh = usb_okD(3)[OF u1(1)]
  have len: "length (row u) = 8" using usb_shapeD(2)[OF usb_okD(3)[OF u]] .
  have "pipe_ok (usb_pool u) ?p" using usb_okD(2)[OF u] by (simp add: row_ok_def)
  then obtain ds where ds: "pool_owns (usb_pool u) b ds" "unat (BufferSize ?p) \<le> length ds" using pipe_ok_open[OF b] by auto
  have "0 < BufferSize ?p" using bs by (simp add: word_less_nat_alt)
  then have allowed: "Pipe_IsReadWriteAllowed d 0 (u\<lparr>pipeselected := [2]\<rparr>) = Some (True, ?u1)"
    using u1 sh st ok bt ea by (simp add: Pipe_IsReadWriteAllowed_def Pipe_GetPipeToken_def Pipe_IsOUTReady_def get_status_def)
  obtain m u2 where m: "put_bytes 0 (cmd # data) ?u1 = Some u2"
     "u2 = ?u1\<lparr>usb_pool := m, PipeInfo := [(row u)[2 := ?p\<lparr>ByteTransfered := word_of_nat (Suc (length data))\<rparr>]]\<rparr>"
     "usb_ok u2" "pool_owns m b ((cmd # data) @ drop (Suc (length data)) ds)"
    using put_bytes_ok[OF u1(1), of ?p b ds "cmd # data"] b ds bt bs by auto
  let ?h = "HcdDataTransfer d (PipeHandle ?p) (Some b) m (word_of_nat (Suc (length data))) False h"
  let ?u3 = "u2\<lparr>hcd_state := ?h, PipeInfo := [(row u)[2 := clear_pipe ?p]]\<rparr>"
  have "Suc (length data) < 65536" by (rule order.strict_trans1[OF bs unat_u16_lt])
  then have uc: "(ucast (word_of_nat (Suc (length data)) :: u16) :: u32) = word_of_nat (Suc (length data))" by (rule ucast_of_nat_u16)
  have sh2: "usb_shape u2" using usb_okD(3)[OF m(3)] .
  have f: "row u2 = (row u)[2 := ?p\<lparr>ByteTransfered := word_of_nat (Suc (length data))\<rparr>]" "sel u2 = 2" "usb_pool u2 = m" "hcd_state u2 = h"
    by (simp_all add: m(2))
  have "Pipe_ClearOUT d 0 u2 = Some ?u3"
    using sh2 len b uc by (simp add: Pipe_ClearOUT_def f clear_pipe_def del: of_nat_Suc)
  moreover have "sendCommand d 0 cmd data len u = Pipe_ClearOUT d 0 u2"
    using hs allowed m(1) select_ok[OF u, of 2] by (cases "Pipe_Write_8 0 cmd ?u1") (auto simp: sendCommand_def put_bytes_write[OF l])
  moreover have "usb_ok ?u3"
    using clear_ok[of "u2\<lparr>hcd_state := ?h\<rparr>"] m(3) len by (simp add: f clear_pipe_def)
  moreover have "take (Suc (length data)) (drop b m) = cmd # data"
  proof (rule nth_equalityI)
    show "length (take (Suc (length data)) (drop b m)) = length (cmd # data)"
      using pool.owns_nth[OF m(4), of "length data"] by (auto simp: min_def)
    fix i assume "i < length (take (Suc (length data)) (drop b m))"
    then show "take (Suc (length data)) (drop b m) ! i = (cmd # data) ! i"
      using pool.owns_nth[OF m(4), of i] by (simp add: nth_append nth_Cons' split: if_splits)
  qed
  ultimately show ?thesis using b st by (simp add: handed_def m(2) del: of_nat_Suc)
qed


text \<open>A message is dropped when the pipe is still busy or halted.\<close>

lemma sendCommand_busy:
  assumes "usb_ok u" "USB_HostState u = [HOST_STATE_Configured]" "EndponitAddress (row u ! 2) AND PIPE_EPDIR_MASK = 0"
    and "HcdGetPipeStatus d (PipeHandle (row u ! 2)) (hcd_state u) = (e, h)" "e \<noteq> HCD_STATUS_OK"
  shows "sendCommand d 0 cmd data len u = Some (u\<lparr>pipeselected := [2], hcd_state := h\<rparr>)"
  using assms select_ok[OF assms(1), of 2]
  by (auto simp: sendCommand_def Pipe_IsReadWriteAllowed_def Pipe_GetPipeToken_def Pipe_IsOUTReady_def get_status_def usb_okD(3))

section \<open>From the CAN bus to the device\<close>

lemma payload_nth: "length (dataA m) = 4 \<Longrightarrow> length (dataB m) = 4 \<Longrightarrow>
    rd (payload m) 0 = Some (dataA m ! 2) \<and> rd (payload m) 1 = Some (dataA m ! 3)"
  by (auto simp: payload_def nth_append)


lemma set_data_nodes [simp]: "nodes (set_dataA i v s) = nodes s" "nodes (set_dataB i v s) = nodes s"
  by (simp_all add: set_dataA_def set_dataB_def)

lemma sub_values_nodes:
  "\<forall>i \<in> set is. i < length vals \<Longrightarrow> \<exists>s'. sub_values vals is inB pos s = Some s' \<and> nodes s' = nodes s"
  by (induction vals "is" inB pos s rule: sub_values.induct) (auto simp: Let_def split: prod.splits if_splits)

lemma subscribe_nodes:
  assumes "unat len \<le> length vals"
  shows "\<exists>e s'. canpt_subscribe r p act vals len s = Some (e, s') \<and> nodes s' = nodes s"
proof -
  have "\<exists>s'. sub_values vals [0..<unat len] False 3 (set_dataA 2 p (set_dataA 1 (CANPT_MSG_SUB OR act) s)) = Some s' \<and> nodes s' = nodes s"
    using sub_values_nodes[of "[0..<unat len]" vals False 3 "set_dataA 2 p (set_dataA 1 (CANPT_MSG_SUB OR act) s)"] assms by simp
  then show ?thesis by (auto simp: canpt_subscribe_def)
qed

lemma get_value_nodes: "nodes (snd (canpt_getValue r p s)) = nodes s"
  by (simp add: canpt_getValue_def)

lemma subscribe_caps_nodes:
  "\<forall>i \<in> set is. i < length buf \<Longrightarrow> \<exists>s'. subscribe_caps r buf is s = Some s' \<and> nodes s' = nodes s"
proof (induction "is" arbitrary: s)
  case (Cons i "is")
  let ?t = "snd (canpt_getTemperature r s)" and ?l = "snd (canpt_getLight r s)" and ?b = "snd (canpt_getButton r s)"
  have n: "nodes ?t = nodes s" "nodes ?l = nodes s" "nodes ?b = nodes s"
    by (simp_all add: canpt_getTemperature_def canpt_getLight_def canpt_getButton_def get_value_nodes)
  obtain e1 s1 where 1: "canpt_subscribe r (buf ! i) CANPT_MSG_SUB_DIF [0, 50] 2 ?t = Some (e1, s1)" "nodes s1 = nodes ?t"
    using subscribe_nodes[of 2 "[0, 50]"] by fastforce
  obtain e2 s2 where 2: "canpt_subscribe r (buf ! i) CANPT_MSG_SUB_DIF [0, 10] 2 ?l = Some (e2, s2)" "nodes s2 = nodes ?l"
    using subscribe_nodes[of 2 "[0, 10]"] by fastforce
  obtain e3 s3 where 3: "canpt_subscribe r (buf ! i) CANPT_MSG_SUB_DIF [0] 1 ?b = Some (e3, s3)" "nodes s3 = nodes ?b"
    using subscribe_nodes[of 1 "[0]"] by fastforce
  have i: "rd buf i = Some (buf ! i)" using Cons.prems by simp
  have IH: "\<exists>s'. subscribe_caps r buf is x = Some s' \<and> nodes s' = nodes x" for x using Cons by simp
  show ?case using i n 1 2 3 IH[of s] IH[of s1] IH[of s2] IH[of s3] by auto
qed simp


lemma read_array_take: "n \<le> length xs \<Longrightarrow> k \<le> n \<Longrightarrow> read_array xs [k..<n] = Some (take (n - k) (drop k xs))"
proof (induction "n - k" arbitrary: k)
  case (Suc m)
  then have k: "k < n" "k < length xs" by auto
  have "read_array xs [Suc k..<n] = Some (take (n - Suc k) (drop (Suc k) xs))" using Suc k by (intro Suc.hyps) auto
  moreover have "take (n - k) (drop k xs) = xs ! k # take (n - Suc k) (drop (Suc k) xs)"
    using k by (simp add: Cons_nth_drop_Suc[symmetric] Suc_diff_Suc[symmetric])
  ultimately show ?case using k by (simp add: upt_conv_Cons)
qed simp

lemma handleNodeAttached_sends:
  assumes "nodes_inv s" "find_idx (\<lambda>n. reqId n = r) (nodes s) = Some i" "length buf0 = 12" "out_ready d 15 u"
    and cs: "cs = takeWhile (\<lambda>c. c \<noteq> 0) (caps (nodes s ! i))" "cs \<noteq> []"
  shows "\<exists>s' u'. handleNodeAttached d buf0 n0 0 r (s, u, a) = Some (s', u', a) \<and> nodes s' = nodes s \<and>
    handed d (CMD_NODE_ADD # r # word_of_nat (length cs) # cs) u u'"
proof -
  have i: "i < length (nodes s)" using find_idx_SomeD[OF assms(2)] by simp
  then have "length (caps (nodes s ! i)) = 12" using assms(1) by (auto simp: nodes_inv_def)
  then have lc: "length cs \<le> 12" unfolding cs(1) by (metis length_takeWhile_le)
  then have tk: "take 12 cs = cs" by simp
  let ?n = "word_of_nat (length cs) :: u8" and ?b = "cs @ drop (length cs) buf0"
  have un: "unat ?n = length cs" using lc by (simp add: unat_of_nat_u8)
  then have n: "?n > 0" "?n \<le> 12" "\<not> ?n > 12" using lc cs(2) by (simp_all add: word_less_nat_alt word_le_nat_alt)
  have g: "canpt_getNodeCaps r (Some buf0) 12 (Some n0) s = Some (ERR_OK, Some ?b, Some ?n)"
    using assms(1-3) tk by (simp add: canpt_getNodeCaps_def get_caps_loop_eq Let_def cs(1)[symmetric])
  have lb: "length ?b = 12" using lc assms(3) by simp
  obtain s' where s': "subscribe_caps r ?b [0..<length cs] s = Some s'" "nodes s' = nodes s"
    using subscribe_caps_nodes[of "[0..<length cs]" ?b r s] lb lc by auto
  have ra: "read_array ?b [0..<length cs] = Some cs" using read_array_take[of "length cs" ?b 0] lb lc by simp
  have u2: "unat (2 + ?n) = 2 + length cs" using lc un by (simp add: unat_word_ariths)
  have "out_ready d (Suc (length (r # ?n # cs))) u" using assms(4) lc by (auto simp: out_ready_def)
  then obtain u' where u': "sendCommand d 0 CMD_NODE_ADD (r # ?n # cs) (2 + ?n) u = Some u'" "handed d (CMD_NODE_ADD # r # ?n # cs) u u'"
    using sendCommand_handed[of d "r # ?n # cs" u "2 + ?n" CMD_NODE_ADD] u2 by auto
  have "sendNodeAttached d 0 r ?b ?n u = Some u'" using n(3) un ra u'(1) by (simp add: sendNodeAttached_def Let_def)
  then have "handleNodeAttached d buf0 n0 0 r (s, u, a) = Some (s', u', a)"
    using g n(1,2) un s'(1) by (simp add: handleNodeAttached_def)
  then show ?thesis using s'(2) u'(2) by blast
qed

text \<open>
  \<^bold>\<open>C7\<close>. A node that announces itself on the CAN bus is reported to the connected Android device: when
  its identifier is new and the table has room, processing the announcement registers the node in the
  first free entry, goes through its subscriptions, and hands the message with the node's identifier
  and its capabilities (up to the first empty one) to the host controller.
\<close>

theorem announcement_reaches_device:
  assumes "nodes_inv s" "r \<noteq> 0" "r \<notin> reqId ` set (nodes s)" "find_idx (\<lambda>n. reqId n = 0) (nodes s) = Some i"
    and "len \<le> 6" "unat len \<le> length buf" "connected a \<noteq> 0" "attachedCoreNum a = 0" "length buf0 = 12" "out_ready d 15 u"
    and "s1 = register_node i r buf len now s"
    and "cs = takeWhile (\<lambda>c. c \<noteq> 0) (caps (nodes s1 ! i))" "cs \<noteq> []"
  shows "\<exists>s' u'. handlePublish (Some (callbacks d buf0 n0)) r buf len now (s, u, a) = Some (s', u', a) \<and>
    nodes s' = nodes s1 \<and> handed d (CMD_NODE_ADD # r # word_of_nat (length cs) # cs) u u'"
proof -
  have i: "i < length (nodes s)" using find_idx_SomeD[OF assms(4)] by simp
  have hp: "handlePublish None r buf len now (s, u, a) = Some (s1, u, a)"
    unfolding assms(11) by (rule handlePublish_new[OF assms(1,3-6)])
  have "find_idx (\<lambda>n. reqId n = r) (nodes s) = None" using assms(3) by (auto simp: find_idx_None_iff)
  then have h: "handlePublish (Some (callbacks d buf0 n0)) r buf len now (s, u, a) = nodeAttached_cb d buf0 n0 r (s1, u, a)"
    using hp assms(4) by (auto simp: handlePublish_def callbacks_def bind_eq_Some_conv Let_def split: option.splits)
  have "nodes_inv s1" unfolding assms(11) using find_idx_SomeD[OF assms(4)] in_node_ids[OF assms(2)] assms(3,5,6)
    by (intro register_node_ids(2)[OF assms(1,2)]) (simp_all add: word_le_nat_alt)
  moreover have "find_idx (\<lambda>n. reqId n = r) (nodes s1) = Some i"
    using i assms(3) by (auto simp: assms(11) register_node_def find_idx_Some_iff nth_list_update)
  ultimately show ?thesis
    using handleNodeAttached_sends[OF _ _ assms(9,10,12,13), of r n0 a] h assms(7,8) by (simp add: nodeAttached_cb_def)
qed

section \<open>Removal of the device\<close>

definition live_subs :: "subscription_t list \<Rightarrow> subscription_t list" where
  "live_subs ss = filter (\<lambda>x. sub_reqId x \<noteq> 0) ss"

definition cancelled :: "subscription_t list \<Rightarrow> subscription_t list" where
  "cancelled ss = map (\<lambda>x. if sub_reqId x \<noteq> 0 then \<lparr>sub_reqId = 0, sub_subId = 0\<rparr> else x) ss"

definition unsubscribe_all :: "subscription_t list \<Rightarrow> canpt_state \<Rightarrow> canpt_state" where
  "unsubscribe_all ss s = fold (\<lambda>x s. snd (canpt_unsubscribe (sub_reqId x) (sub_subId x) s)) ss s"

lemma cancel_subs_from:
  "k \<le> length ss \<Longrightarrow> cancel_subs [k..<length ss] (s, ss) =
     Some (unsubscribe_all (live_subs (drop k ss)) s, take k ss @ cancelled (drop k ss))"
proof (induction "length ss - k" arbitrary: k s ss)
  case 0
  then show ?case by (simp add: live_subs_def cancelled_def unsubscribe_all_def)
next
  case (Suc n)
  then have k: "k < length ss" by simp
  have d: "drop k ss = ss ! k # drop (Suc k) ss" using k by (simp add: Cons_nth_drop_Suc)
  let ?z = "\<lparr>sub_reqId = 0, sub_subId = 0\<rparr>"
  show ?case
  proof (cases "sub_reqId (ss ! k) \<noteq> 0")
    case True
    let ?s = "snd (canpt_unsubscribe (sub_reqId (ss ! k)) (sub_subId (ss ! k)) s)" and ?ss = "ss[k := ?z]"
    have "cancel_subs [Suc k..<length ?ss] (?s, ?ss) =
        Some (unsubscribe_all (live_subs (drop (Suc k) ?ss)) ?s, take (Suc k) ?ss @ cancelled (drop (Suc k) ?ss))"
      using Suc k by (intro Suc.hyps) auto
    moreover have "take (Suc k) ?ss = take k ss @ [?z]" using k by (simp add: take_Suc_conv_app_nth)
    ultimately show ?thesis using True k d
      by (simp add: upt_conv_Cons live_subs_def cancelled_def unsubscribe_all_def)
  next
    case False
    have "cancel_subs [Suc k..<length ss] (s, ss) =
        Some (unsubscribe_all (live_subs (drop (Suc k) ss)) s, take (Suc k) ss @ cancelled (drop (Suc k) ss))"
      using Suc k by (intro Suc.hyps) auto
    then show ?thesis using False k d
      by (simp add: upt_conv_Cons live_subs_def cancelled_def unsubscribe_all_def take_Suc_conv_app_nth)
  qed
qed

lemma disconnected_cancels:
  "length (subs a) = 50 \<Longrightarrow> handleDeviceDisconnected (s, u, a) =
     Some (unsubscribe_all (live_subs (subs a)) s, u, a\<lparr>subs := cancelled (subs a)\<rparr>)"
  using cancel_subs_from[of 0 "subs a" s] by (simp add: handleDeviceDisconnected_def)

text \<open>
  \<^bold>\<open>C36\<close>. When the device is removed, the application stops forwarding at once and cancels the
  subscriptions one second later: values of the nodes are ignored, every run of the monitor up to
  1000 ms after the removal changes nothing, and the first run after that cancels every live
  subscription, in the order of the table, and frees its entry. (The clock must not wrap around in
  between: at the wrap-around to zero the cancellation would never be due.)
\<close>

theorem removal_cancels_subscriptions:
  assumes "a' = EVENT_USB_Host_DeviceUnattached t 0 a" "unat t + 1000 < 2 ^ 32" "length (subs a) = 50"
  shows "valueUpdate d r p buf len (s, u, a') = Some (s, u, a') \<and>
    monitor_task d now (s, u, a') = Some (if unat now \<le> unat t + 1000 then (s, u, a')
      else (unsubscribe_all (live_subs (subs a)) s, u, a'\<lparr>scheduleDisconnect := 0, subs := cancelled (subs a)\<rparr>)) \<and>
    live_subs (cancelled (subs a)) = []"
proof (intro conjI)
  show "valueUpdate d r p buf len (s, u, a') = Some (s, u, a')"
    by (simp add: valueUpdate_def assms(1) EVENT_USB_Host_DeviceUnattached_def)
  have t: "unat (t + 1000) = unat t + 1000" using assms(2) by (simp add: unat_word_ariths)
  then have p: "0 < t + 1000" by (simp add: word_less_nat_alt)
  have lt: "t + 1000 < now \<longleftrightarrow> \<not> unat now \<le> unat t + 1000" using t by (simp add: word_less_nat_alt not_le)
  show "monitor_task d now (s, u, a') = Some (if unat now \<le> unat t + 1000 then (s, u, a')
      else (unsubscribe_all (live_subs (subs a)) s, u, a'\<lparr>scheduleDisconnect := 0, subs := cancelled (subs a)\<rparr>))"
    using p lt assms(3) disconnected_cancels[of "a'\<lparr>scheduleDisconnect := 0\<rparr>" s u]
    by (simp add: monitor_task_def assms(1) EVENT_USB_Host_DeviceUnattached_def)
  show "live_subs (cancelled (subs a)) = []" by (auto simp: live_subs_def cancelled_def filter_empty_conv)
qed

section \<open>A device that is connected\<close>

definition usb_out :: "unit usb" where
  "usb_out = (usb_idle ())\<lparr>usb_pool := enc_hdr (header 6 False 0) @ replicate 24 0, USB_HostState := [HOST_STATE_Configured],
     PipeInfo := [(replicate 8 pipe0)[2 := pipe0\<lparr>PipeHandle := 7, Buffer := Some 4, BufferSize := 24, EndponitAddress := 1\<rparr>]]\<rparr>"

definition aoa_connected :: aoa where
  "aoa_connected = aoa0\<lparr>connected := 1, attachedCoreNum := 0\<rparr>"

lemma usb_out_owns: "pool_owns (usb_pool usb_out) 4 (replicate 24 0)"
proof -
  have "heap (usb_pool usb_out) [Used (replicate 24 0)]"
    by (simp add: heap_def usb_out_def hd_at_def hdr.length_enc hdr.dec_enc span_def)
  then show ?thesis unfolding pool_owns_def by (intro exI conjI) (assumption, simp)
qed

lemma usb_out_ready: "k \<le> 24 \<Longrightarrow> out_ready hcd_ideal k usb_out"
proof -
  have "pool_ok (usb_pool usb_out)" using usb_out_owns by (auto simp: pool_ok_def pool_owns_def)
  moreover have "row_ok (usb_pool usb_out) (row usb_out)"
    using usb_out_owns by (auto simp: row_ok_def pipe_ok_def usb_out_def pipe0_def nth_list_update)
  moreover have "usb_shape usb_out" by (simp add: usb_shape_def usb_out_def usb_idle_def)
  ultimately have "usb_ok usb_out" by (simp add: usb_ok_def)
  then show "k \<le> 24 \<Longrightarrow> out_ready hcd_ideal k usb_out"
    by (simp add: out_ready_def usb_out_def hcd_ideal_def pipe0_def)
qed


theorem announcement_reaches_device_witness:
  "out_ready hcd_ideal 15 usb_out \<and>
   (\<exists>s' u'. handlePublish (Some (callbacks hcd_ideal (replicate 12 0) 0)) 0x21 [0x12] 1 100 (canpt_state0, usb_out, aoa_connected) =
      Some (s', u', aoa_connected) \<and> handed hcd_ideal [0, 0x21, 2, 0x10, 0x20] usb_out u')"
proof
  show r: "out_ready hcd_ideal 15 usb_out" by (rule usb_out_ready) simp
  have "find_idx (\<lambda>n. reqId n = 0) (nodes canpt_state0) = Some 0" "0x21 \<notin> reqId ` set (nodes canpt_state0)"
    "takeWhile (\<lambda>c. c \<noteq> 0) (caps (nodes (register_node 0 0x21 [0x12] 1 100 canpt_state0) ! 0)) = [0x10, 0x20]"
    by code_simp+
  from announcement_reaches_device[OF nodes_inv_canpt_state0 _ this(2,1) _ _ _ _ _ r refl refl, of 1 "[0x12]" aoa_connected "replicate 12 0" 100 0] this(3)
  show "\<exists>s' u'. handlePublish (Some (callbacks hcd_ideal (replicate 12 0) 0)) 0x21 [0x12] 1 100 (canpt_state0, usb_out, aoa_connected) =
      Some (s', u', aoa_connected) \<and> handed hcd_ideal [0, 0x21, 2, 0x10, 0x20] usb_out u'"
    by (auto simp: aoa_connected_def)
qed

theorem removal_cancels_subscriptions_witness:
  "monitor_task hcd_ideal 2000 (canpt_state0, usb_out,
     EVENT_USB_Host_DeviceUnattached 5 0 (aoa_connected\<lparr>subs := (subs aoa0)[3 := \<lparr>sub_reqId = 0x21, sub_subId = 9\<rparr>]\<rparr>)) =
   Some (snd (canpt_unsubscribe 0x21 9 canpt_state0), usb_out, aoa0\<lparr>attachedCoreNum := 0\<rparr>)"
proof -
  let ?a = "aoa_connected\<lparr>subs := (subs aoa0)[3 := \<lparr>sub_reqId = 0x21, sub_subId = 9\<rparr>]\<rparr>"
  have c: "live_subs (subs ?a) = [\<lparr>sub_reqId = 0x21, sub_subId = 9\<rparr>]" "cancelled (subs ?a) = subs aoa0" by code_simp+
  have "monitor_task hcd_ideal 2000 (canpt_state0, usb_out, EVENT_USB_Host_DeviceUnattached 5 0 ?a) =
    Some (if unat (2000 :: u32) \<le> unat (5 :: u32) + 1000 then (canpt_state0, usb_out, EVENT_USB_Host_DeviceUnattached 5 0 ?a)
      else (unsubscribe_all (live_subs (subs ?a)) canpt_state0, usb_out,
        (EVENT_USB_Host_DeviceUnattached 5 0 ?a)\<lparr>scheduleDisconnect := 0, subs := cancelled (subs ?a)\<rparr>))"
    by (rule removal_cancels_subscriptions[THEN conjunct2, THEN conjunct1, OF refl]) (simp_all add: aoa0_def)
  then show ?thesis unfolding c
    by (simp add: unsubscribe_all_def EVENT_USB_Host_DeviceUnattached_def aoa_connected_def aoa0_def)
qed

end
