(* ===== verification/AccessoryMode.thy ===== *)
theory AccessoryMode
  imports AndroidHost
begin

unbundle bit_operations_syntax

text \<open>
  The whole way of an Android device in accessory mode, from its attachment to two open data
  pipes: the enumeration of \<^verbatim>\<open>Host_LPC.c\<close>, the event handler of \<^verbatim>\<open>AndroidAccessoryHost.c\<close>, the
  descriptor processing of \<^verbatim>\<open>Lib_AOA\<close> and the pipe layer together.
\<close>

section \<open>A device that answers with given descriptors\<close>

text \<open>
  As \<^const>\<open>hcd_answers\<close>; in addition a request that reads from the device leaves the device's answer
  at the start of the buffer.
\<close>

definition device :: "'h hcd \<Rightarrow> (USB_Request_Header_t \<Rightarrow> u8 list) \<Rightarrow> bool" where
  "device d ans \<longleftrightarrow>
     (\<forall>c a s e ty dir sz h. \<exists>x h'. HcdOpenPipe d c a s e ty dir sz h = (HCD_STATUS_OK, Some x, h')) \<and>
     (\<forall>hdl r m h pre ds post. heap m (pre @ Used ds # post) \<longrightarrow> unat (wLength r) \<le> length ds \<longrightarrow>
        (\<exists>m' h' ds'. HcdControlTransfer d hdl r (Some (addr pre + 4)) m h = (HCD_STATUS_OK, m', h') \<and>
           length ds' = length ds \<and> heap m' (pre @ Used ds' # post) \<and>
           (bmRequestType r AND 0x80 = 0x80 \<longrightarrow> length (ans r) \<le> unat (wLength r) \<longrightarrow> take (length (ans r)) ds' = ans r)))"

lemma device_answers: "device d ans \<Longrightarrow> hcd_answers d"
  unfolding device_def hcd_answers_def by blast

lemma device_transfer:
  assumes "device d ans" "heap m (Used ds # post)" "length ds = 512" "unat (wLength r) \<le> 512"
    and "bmRequestType r AND 0x80 = 0x80" "length (ans r) = unat (wLength r)"
  obtains m' h' ds' where "HcdControlTransfer d hdl r (Some 4) m h = (HCD_STATUS_OK, m', h')" "length ds' = 512"
    "heap m' (Used ds' # post)" "take (unat (wLength r)) ds' = ans r"
proof -
  have "heap m ([] @ Used ds # post)" using assms(2) by simp
  with assms(1) obtain m' h' ds' where "HcdControlTransfer d hdl r (Some (addr [] + 4)) m h = (HCD_STATUS_OK, m', h')"
      "length ds' = length ds" "heap m' ([] @ Used ds' # post)" "take (length (ans r)) ds' = ans r"
    unfolding device_def using assms(3-6) by (metis order_refl)
  then show ?thesis using that[of m' h' ds'] assms(3,6) by simp
qed

lemma device_in:
  assumes "device d ans" "ctl_has post u" "sel u = 0" "bmRequestType (USB_ControlRequest u) AND 0x80 = 0x80"
    and "length (ans (USB_ControlRequest u)) = unat (wLength (USB_ControlRequest u))"
    and "unat (wLength (USB_ControlRequest u)) \<le> 512" "unat (wLength (USB_ControlRequest u)) \<le> length buf"
  shows "\<exists>u'. USB_Host_SendControlRequest d 0 (Some buf) u = Some (HOST_SENDCONTROL_Successful,
      Some (ans (USB_ControlRequest u) @ drop (unat (wLength (USB_ControlRequest u))) buf), u') \<and> same_host u u' \<and> ctl_has post u'"
proof -
  obtain ds where ds: "length ds = 512" and h: "heap (usb_pool u) (Used ds # post)"
    using assms(2) by (auto simp: ctl_has_def)
  obtain m h' ds' where t: "HcdControlTransfer d (PipeHandle (row u ! 0)) (USB_ControlRequest u) (Some 4) (usb_pool u) (hcd_state u)
      = (HCD_STATUS_OK, m, h')" "length ds' = 512" "heap m (Used ds' # post)"
      "take (unat (wLength (USB_ControlRequest u))) ds' = ans (USB_ControlRequest u)"
    by (rule device_transfer[OF assms(1) h ds assms(6,4,5)])
  show ?thesis using ctl_in_has[OF assms(2-4) refl assms(6,7) t(1-3)] t(4) by simp
qed

lemma request_in:
  assumes "device d ans" "ctl_has post u" "bmRequestType r AND 0x80 = 0x80" "length (ans r) = unat (wLength r)"
    "unat (wLength r) \<le> 512" "unat (wLength r) \<le> length buf"
  shows "\<exists>u'. control_request d 0 r (Some buf) u = Some (HOST_SENDCONTROL_Successful, Some (ans r @ drop (length (ans r)) buf), u') \<and>
    same_host (u\<lparr>USB_ControlRequest := r, pipeselected := [0]\<rparr>) u' \<and> ctl_has post u'"
proof -
  let ?u = "u\<lparr>USB_ControlRequest := r, pipeselected := [0]\<rparr>"
  have sh: "usb_shape u" using assms(2) by (simp add: ctl_has_def)
  have c: "ctl_has post ?u" using assms(2) sh by simp
  have "Pipe_SelectPipe 0 0 (u\<lparr>USB_ControlRequest := r\<rparr>) = Some ?u"
    using usb_shapeD[OF sh] by (auto simp: Pipe_SelectPipe_def usb_shape_def length_Suc_conv)
  then show ?thesis using device_in[OF assms(1) c] assms(3-6) by (simp add: control_request_def)
qed


section \<open>Descriptors\<close>

abbreviation dev_req :: USB_Request_Header_t where "dev_req \<equiv> request 0x80 REQ_GetDescriptor 0x100 0 18"
abbreviation cfg_req :: "u16 \<Rightarrow> USB_Request_Header_t" where "cfg_req n \<equiv> request 0x80 REQ_GetDescriptor 0x200 0 n"

text \<open>
  The device is an Android device in accessory mode, and the descriptors of its configuration are
  \<open>ds\<close>, the first of which carries the total length; they leave room for two bytes in the buffer of
  512 bytes.
\<close>

definition accessory_device :: "(USB_Request_Header_t \<Rightarrow> u8 list) \<Rightarrow> u8 list list \<Rightarrow> bool" where
  "accessory_device ans ds \<longleftrightarrow> length (ans dev_req) = 18 \<and> ans dev_req ! 1 = DTYPE_Device \<and>
     le16 (ans dev_req ! 10) (ans dev_req ! 11) \<in> {ANDROID_ACCESSORY_PRODUCT_ID, ANDROID_ACCESSORY_ADB_PRODUCT_ID} \<and>
     ans (cfg_req 9) = take 9 (concat ds) \<and> ans (cfg_req (left ds)) = concat ds \<and>
     9 \<le> length (concat ds) \<and> length (concat ds) \<le> 510 \<and> concat ds ! 1 = DTYPE_Configuration \<and>
     le16 (concat ds ! 2) (concat ds ! 3) = left ds \<and> (\<forall>e \<in> set ds. desc_ok e)"

text \<open>What the requests on the control pipe leave alone; they leave the control pipe selected.\<close>

definition kept :: "'h usb \<Rightarrow> 'h usb \<Rightarrow> bool" where
  "kept u v \<longleftrightarrow> USB_HostState v = USB_HostState u \<and> hostportspeed v = hostportspeed u \<and> drop 1 (row v) = drop 1 (row u) \<and>
     pipeselected v = [0]"

lemma kept_trans: "kept u v \<Longrightarrow> kept v w \<Longrightarrow> kept u w" by (simp add: kept_def)

lemma kept_same: "same_host (u\<lparr>USB_ControlRequest := r, pipeselected := [0]\<rparr>) v \<Longrightarrow> kept u v"
  by (simp add: kept_def same_host_def)

lemma device_classified:
  assumes "device d ans" "accessory_device ans ds" "ctl_has post u" "length dev0 = 18"
  shows "\<exists>u'. ProcessDeviceDescriptor d 0 dev0 u = Some (AccessoryModeAndroidDevice, u') \<and> kept u u' \<and> ctl_has post u'"
proof -
  have l: "length (ans dev_req) = unat (wLength dev_req)" "bmRequestType dev_req AND 0x80 = 0x80"
    "unat (wLength dev_req) \<le> 512" "unat (wLength dev_req) \<le> length dev0"
    using assms(2,4) by (auto simp: accessory_device_def request_def)
  from request_in[OF assms(1,3) l(2,1,3,4)] obtain u' where
    u': "control_request d 0 dev_req (Some dev0) u = Some (0, Some (ans dev_req @ drop (length (ans dev_req)) dev0), u')"
      "kept u u'" "ctl_has post u'" using kept_same by blast
  then show ?thesis using assms(2)
    by (auto simp: ProcessDeviceDescriptor_def USB_Host_GetDeviceDescriptor_def accessory_device_def nth_append)
qed

lemma config_read:
  assumes "device d ans" "accessory_device ans ds" "ctl_has post u" "length hdr0 = 9" "length cfg0 = 512"
  shows "\<exists>u'. USB_Host_GetDeviceConfigDescriptor d 0 1 hdr0 cfg0 512 u = Some (HOST_GETCONFIG_Successful, Some (left ds),
      concat ds @ drop (length (concat ds)) cfg0, u') \<and> kept u u' \<and> ctl_has post u'"
proof -
  let ?n = "length (concat ds)"
  have a: "ans (cfg_req 9) = take 9 (concat ds)" "ans (cfg_req (left ds)) = concat ds" "9 \<le> ?n" "?n \<le> 510"
    "concat ds ! 1 = DTYPE_Configuration" "le16 (concat ds ! 2) (concat ds ! 3) = left ds"
    using assms(2) by (simp_all add: accessory_device_def)
  have un: "unat (left ds) = ?n" using a(4) by (simp add: unat_of_nat_u16)
  have l: "length (ans (cfg_req 9)) = unat (wLength (cfg_req 9))" "bmRequestType (cfg_req 9) AND 0x80 = 0x80"
    "unat (wLength (cfg_req 9)) \<le> 512" "unat (wLength (cfg_req 9)) \<le> length hdr0"
    using a(1,3) assms(4) by (simp_all add: request_def)
  from request_in[OF assms(1,3) l(2,1,3,4)] obtain u1 where
    u1: "control_request d 0 (cfg_req 9) (Some hdr0) u = Some (0, Some (take 9 (concat ds)), u1)"
      "same_host (u\<lparr>USB_ControlRequest := cfg_req 9, pipeselected := [0]\<rparr>) u1" "ctl_has post u1"
    using a(1,3) assms(4) by auto
  let ?u1 = "u1\<lparr>USB_ControlRequest := (USB_ControlRequest u1)\<lparr>wLength := left ds\<rparr>\<rparr>"
  have r: "USB_ControlRequest ?u1 = cfg_req (left ds)" using u1(2) by (simp add: same_host_def request_def)
  have c: "ctl_has post ?u1" "sel ?u1 = 0" using u1(2,3) by (simp_all add: same_host_def)
  have l2: "length (ans (cfg_req (left ds))) = unat (wLength (cfg_req (left ds)))" "bmRequestType (cfg_req (left ds)) AND 0x80 = 0x80"
    "unat (wLength (cfg_req (left ds))) \<le> 512" "unat (wLength (cfg_req (left ds))) \<le> length cfg0"
    unfolding a(2) using un a(4) assms(5) by (simp_all add: request_def)
  from device_in[OF assms(1) c, unfolded r, OF l2(2,1,3,4)] obtain u2 where
    u2: "USB_Host_SendControlRequest d 0 (Some cfg0) ?u1 = Some (0, Some (concat ds @ drop ?n cfg0), u2)" "same_host ?u1 u2" "ctl_has post u2"
    unfolding a(2) by (auto simp: request_def un)
  have t: "take 9 (concat ds) ! 2 = concat ds ! 2" "take 9 (concat ds) ! 3 = concat ds ! 3" "length (take 9 (concat ds)) = 9"
    using a(3) by simp_all
  have b: "\<not> left ds > 512" using un a(4) by (simp add: word_less_nat_alt not_less)
  have "(concat ds @ drop ?n cfg0) ! 1 = DTYPE_Configuration" "1 < length (concat ds @ drop ?n cfg0)" using a(3,5) by (simp_all add: nth_append)
  then have "USB_Host_GetDeviceConfigDescriptor d 0 1 hdr0 cfg0 512 u = Some (0, Some (left ds), concat ds @ drop ?n cfg0, u2)"
    using u1(1) u2(1) t b a(6)[unfolded le16_def]
    unfolding USB_Host_GetDeviceConfigDescriptor_def Let_def by (simp del: length_concat length_take length_append)
  moreover have "kept u u2" using u1(2) u2(2) by (simp add: kept_def same_host_def)
  ultimately show ?thesis using u2(3) by blast
qed

section \<open>Data pipes\<close>

lemma data_pipe_opened:
  assumes "device d ans" "usb_ok u" "unat n < 8" "heap (usb_pool u) (map Used us @ [Free k])" "k > 129"
  shows "\<exists>u' ds q. Pipe_ConfigurePipe d 0 n EP_TYPE_BULK tok ep sz u = Some (True, u') \<and> usb_ok u' \<and>
    heap (usb_pool u') (map Used (us @ [ds]) @ [Free (k - 129)]) \<and> row u' = (row u)[unat n := q] \<and>
    Buffer q \<noteq> None \<and> BufferSize q = PIPE_MAX_SIZE \<and> ByteTransfered q = 0 \<and> StartIdx q = 0 \<and> EndponitAddress q = ep \<and>
    USB_HostState u' = USB_HostState u \<and> pipeselected u' = pipeselected u \<and> hostportspeed u' = hostportspeed u"
proof -
  obtain x h where o: "HcdOpenPipe d 0 1 (hostportspeed u ! 0) ep EP_TYPE_BULK tok sz (hcd_state u) = (HCD_STATUS_OK, Some x, h)"
    using assms(1) unfolding device_def by blast
  have hp: "heap (usb_pool u) (map Used us @ Free k # [])" using assms(4) by simp
  obtain m ds where a: "USB_Memory_Alloc 512 (usb_pool u) = Some (Some (addr (map Used us) + 4), m)" "heap m (map Used us @ Used ds # [Free (k - 129)])"
    using alloc_fit[OF hp, of 512 128] assms(5) by (auto split: if_splits)
  have c: "ucast (buf_size EP_TYPE_BULK sz) = (512 :: u32)" by (simp add: buf_size_def)
  show ?thesis
    using configure_cases(3)[OF assms(2,3), of d EP_TYPE_BULK ep tok sz HCD_STATUS_OK "Some x" h, OF _ refl refl, of "addr (map Used us) + 4" m] o a c
    by (auto simp: buf_size_def)
qed

definition data_pipe :: "USB_Pipe_Data_t \<Rightarrow> u8 \<Rightarrow> bool" where
  "data_pipe q ep \<longleftrightarrow> Buffer q \<noteq> None \<and> BufferSize q = PIPE_MAX_SIZE \<and> ByteTransfered q = 0 \<and> StartIdx q = 0 \<and> EndponitAddress q = ep"

definition closed_pipes :: "USB_Pipe_Data_t list \<Rightarrow> bool" where
  "closed_pipes ps \<longleftrightarrow> (\<forall>p \<in> set ps. Buffer p = None \<and> BufferSize p = 0)"

lemma row_drop: "usb_shape u \<Longrightarrow> usb_shape v \<Longrightarrow> drop 1 (row v) = drop 1 (row u) \<Longrightarrow> 0 < i \<Longrightarrow> i < 8 \<Longrightarrow> row v ! i = row u ! i"
proof -
  assume a: "usb_shape u" "usb_shape v" "drop 1 (row v) = drop 1 (row u)" "0 < i" "i < 8"
  then have "length (row u) = 8" "length (row v) = 8" using usb_shapeD(2) by blast+
  then have "row v ! i = drop 1 (row v) ! (i - 1)" "row u ! i = drop 1 (row u) ! (i - 1)" using a(4,5) by simp_all
  then show ?thesis using a(3) by simp
qed

lemma ctl_owns: "ctl_has post u \<Longrightarrow> \<exists>ds. length ds = 512 \<and> pool_owns (usb_pool u) 4 ds"
  unfolding ctl_has_def pool_owns_def by (metis (no_types, lifting) UnI1 add_0 block.simps(6) insertI1 owned.simps(2))

lemma ctl_closed_ok:
  assumes "ctl_has post u" "closed_pipes (drop 1 (row u))"
  shows "usb_ok u"
proof -
  have sh: "usb_shape u" and b: "Buffer (row u ! 0) = Some 4" "BufferSize (row u ! 0) = 512" "StartIdx (row u ! 0) = 0" "ByteTransfered (row u ! 0) = 0"
    using assms(1) by (auto simp: ctl_has_def)
  have len: "length (row u) = 8" using usb_shapeD(2)[OF sh] .
  have cl: "Buffer (row u ! i) = None \<and> BufferSize (row u ! i) = 0" if "0 < i" "i < 8" for i
  proof -
    have "row u ! i = drop 1 (row u) ! (i - 1)" "i - 1 < length (drop 1 (row u))" using that len by auto
    then show ?thesis using assms(2) nth_mem unfolding closed_pipes_def by metis
  qed
  have "pipe_ok (usb_pool u) (row u ! i)" if "i < 8" for i
    using cl[of i] that b ctl_owns[OF assms(1)] by (cases "i = 0") (auto simp: pipe_ok_def)
  moreover have "Buffer (row u ! i) \<noteq> Buffer (row u ! j)" if "i < 8" "j < 8" "i \<noteq> j" "Buffer (row u ! i) \<noteq> None" for i j
    using cl[of i] cl[of j] that by (cases "i = 0"; cases "j = 0") auto
  moreover have "pool_ok (usb_pool u)" using assms(1) by (auto simp: ctl_has_def pool_ok_def)
  ultimately show ?thesis using sh len by (simp add: usb_ok_def row_ok_def)
qed

lemma ctl_same_ok:
  assumes "usb_ok u" "ctl_has post u" "ctl_has post v" "drop 1 (row v) = drop 1 (row u)"
  shows "usb_ok v"
proof -
  have sh: "usb_shape u" "usb_shape v" using assms(2,3) by (auto simp: ctl_has_def)
  have b: "Buffer (row u ! 0) = Some 4" "Buffer (row v ! 0) = Some 4" "BufferSize (row v ! 0) = 512" "StartIdx (row v ! 0) = 0" "ByteTransfered (row v ! 0) = 0"
    using assms(2,3) by (auto simp: ctl_has_def)
  note r = row_drop[OF sh assms(4)]
  note k = usb_okD[OF assms(1)]
  obtain ds where ds: "length ds = 512" "heap (usb_pool u) (Used ds # post)" using assms(2) by (auto simp: ctl_has_def)
  obtain ds' where ds': "length ds' = 512" "heap (usb_pool v) (Used ds' # post)" using assms(3) by (auto simp: ctl_has_def)
  have own: "pool_owns (usb_pool v) q es" if "q \<noteq> 4" "pool_owns (usb_pool u) q es" for q es
  proof -
    from that(2) obtain bs where "heap (usb_pool u) bs" "(q, es) \<in> owned 0 bs" by (auto simp: pool_owns_def)
    then have "(q, es) \<in> owned 0 (Used ds # post)" using heap_unique[OF ds(2)] by simp
    then have "(q, es) \<in> owned 0 (Used ds' # post)" using that(1) ds(1) ds'(1) by (simp add: span_def)
    then show ?thesis using ds'(2) by (auto simp: pool_owns_def)
  qed
  have nb: "Buffer (row u ! i) \<noteq> Some 4" if "0 < i" "i < 8" for i
    using row_ok_buffers[OF k(2), of 0 i] that b(1) by auto
  have "pipe_ok (usb_pool v) (row v ! i)" if i: "i < 8" for i
  proof (cases "i = 0")
    case True
    then show ?thesis using b ctl_owns[OF assms(3)] by (auto simp: pipe_ok_def)
  next
    case False
    have "pipe_ok (usb_pool u) (row u ! i)" using k(2) i by (simp add: row_ok_def)
    then have "pipe_ok (usb_pool v) (row u ! i)"
    proof (rule pipe_ok_keep)
      fix q es assume q: "Buffer (row u ! i) = Some q" and o: "pool_owns (usb_pool u) q es"
      have "q \<noteq> 4" using nb[of i] i False q by auto
      then show "pool_owns (usb_pool v) q es" using o by (rule own)
    qed
    then show ?thesis using r[of i] i False by simp
  qed
  moreover have "Buffer (row v ! i) \<noteq> Buffer (row v ! j)" if "i < 8" "j < 8" "i \<noteq> j" "Buffer (row v ! i) \<noteq> None" for i j
  proof -
    have eq: "Buffer (row v ! l) = Buffer (row u ! l)" if "l < 8" for l using r[of l] that b by (cases "l = 0") simp_all
    from that(4) obtain q where "Buffer (row v ! i) = Some q" by auto
    then show ?thesis using eq[OF that(1)] eq[OF that(2)] row_ok_buffers[OF k(2) that(1-3)] by simp
  qed
  moreover have "pool_ok (usb_pool v)" using ds'(2) by (auto simp: pool_ok_def)
  ultimately show ?thesis using sh(2) usb_shapeD(2)[OF sh(2)] by (simp add: usb_ok_def row_ok_def)
qed


section \<open>From the event to the open data pipes\<close>

lemma set_configuration:
  assumes "hcd_answers d" "ctl_has post u"
  shows "\<exists>u'. USB_Host_SetDeviceConfiguration d 0 1 u = Some (0, u') \<and> USB_HostState u' = [HOST_STATE_Configured] \<and>
    ctl_has post u' \<and> drop 1 (row u') = drop 1 (row u)"
proof -
  let ?r = "request 0 REQ_SetConfiguration 1 0 0" and ?u = "u\<lparr>USB_ControlRequest := request 0 REQ_SetConfiguration 1 0 0, pipeselected := [0]\<rparr>"
  have sh: "usb_shape u" using assms(2) by (simp add: ctl_has_def)
  have c: "ctl_has post ?u" "sel ?u = 0" "bmRequestType (USB_ControlRequest ?u) AND 0x80 = 0" "wLength (USB_ControlRequest ?u) = 0"
    using assms(2) sh by (simp_all add: request_def)
  have "Pipe_SelectPipe 0 0 (u\<lparr>USB_ControlRequest := ?r\<rparr>) = Some ?u"
    using usb_shapeD[OF sh] by (auto simp: Pipe_SelectPipe_def usb_shape_def length_Suc_conv)
  moreover obtain u1 where u1: "USB_Host_SendControlRequest d 0 None ?u = Some (0, None, u1)" "same_host ?u u1" "ctl_has post u1"
    using ctl_out_has[OF assms(1) c] by blast
  moreover have "length (USB_HostState u1) = 1" using u1(3) by (simp add: ctl_has_def usb_shape_def)
  then obtain hs where "USB_HostState u1 = [hs]" by (auto simp: length_Suc_conv)
  ultimately have "USB_Host_SetDeviceConfiguration d 0 1 u =
      Some (0, u1\<lparr>USB_Host_ConfigurationNumber := 1, USB_HostState := [HOST_STATE_Configured]\<rparr>)"
    by (simp add: USB_Host_SetDeviceConfiguration_def control_request_def)
  then show ?thesis using u1(2,3) by (simp add: same_host_def ctl_has_def)
qed

lemma ctl_has_pipe:
  assumes "ctl_has post u" "usb_ok u'" "heap (usb_pool u') (Used ds # post')" "length ds = 512" "row u' = (row u)[n := q]" "0 < n"
  shows "ctl_has post' u'"
  using assms usb_okD(3)[OF assms(2)] by (auto simp: ctl_has_def)

lemma accessory_configured:
  assumes "device d ans" "accessory_device ans ds" "accessory_endpoints ds = Some (i, out)"
    and "ctl_has [Free k] u" "k > 258" "closed_pipes (drop 1 (row u))"
    and "length dev0 = 18" "length hdr0 = 9" "length cfg0 = 512"
    and "quiet (concat ds @ drop (length (concat ds)) cfg0) (length (concat ds))"
  shows "\<exists>u'. EVENT_USB_Host_DeviceEnumerationComplete d dev0 proto0 hdr0 cfg0 0 u = Some u' \<and>
    USB_HostState u' = [HOST_STATE_Configured] \<and> usb_ok u' \<and> data_pipe (row u' ! 1) (i ! 2) \<and> data_pipe (row u' ! 2) (out ! 2)"
proof -
  obtain u1 where u1: "ProcessDeviceDescriptor d 0 dev0 u = Some (5, u1)" "kept u u1" "ctl_has [Free k] u1"
    using device_classified[OF assms(1,2,4,7)] by blast
  obtain u2 where u2: "USB_Host_GetDeviceConfigDescriptor d 0 1 hdr0 cfg0 512 u1 = Some (0, Some (left ds),
      concat ds @ drop (length (concat ds)) cfg0, u2)" "kept u1 u2" "ctl_has [Free k] u2"
    using config_read[OF assms(1,2) u1(3) assms(8,9)] by blast
  have ad: "\<forall>e \<in> set ds. desc_ok e" "9 \<le> length (concat ds)" "length (concat ds) \<le> 510" using assms(2) by (simp_all add: accessory_device_def)
  then have "ds \<noteq> []" "length (concat ds) < 65536" by auto
  from process_config[OF u2(1) refl this(1) ad(1) this(2) assms(10)] have pc: "ProcessConfigurationDescriptor d 0 hdr0 cfg0 u1 = do {
        (_, u2) \<leftarrow> Pipe_ConfigurePipe d 0 1 2 1 (i ! 2) (desc_size i) u2;
        (_, u3) \<leftarrow> Pipe_ConfigurePipe d 0 2 2 2 (out ! 2) (desc_size out) u2;
        Some (0, u3) }" using assms(3) by simp
  have cl: "closed_pipes (drop 1 (row u2))" using assms(6) u1(2) u2(2) by (simp add: kept_def)
  have ok2: "usb_ok u2" by (rule ctl_closed_ok[OF u2(3) cl])
  obtain c where c: "length c = 512" "heap (usb_pool u2) (map Used [c] @ [Free k])" using u2(3) by (auto simp: ctl_has_def)
  have k2: "k - 129 > 129" using assms(5) by simp
  have n1: "unat (1 :: u8) < 8" "unat (2 :: u8) < 8" by simp_all
  obtain u3 e1 q1 where u3: "Pipe_ConfigurePipe d 0 1 2 1 (i ! 2) (desc_size i) u2 = Some (True, u3)" "usb_ok u3"
      "heap (usb_pool u3) (map Used [c, e1] @ [Free (k - 129)])" "row u3 = (row u2)[1 := q1]" "data_pipe q1 (i ! 2)"
    using data_pipe_opened[OF assms(1) ok2 n1(1) c(2), of 1 "i ! 2" "desc_size i"] assms(5) by (auto simp: data_pipe_def)
  obtain u4 e2 q2 where u4: "Pipe_ConfigurePipe d 0 2 2 2 (out ! 2) (desc_size out) u3 = Some (True, u4)" "usb_ok u4"
      "heap (usb_pool u4) (map Used [c, e1, e2] @ [Free (k - 129 - 129)])" "row u4 = (row u3)[2 := q2]" "data_pipe q2 (out ! 2)"
    using data_pipe_opened[OF assms(1) u3(2) n1(2) u3(3) k2, of 2 "out ! 2" "desc_size out"] by (auto simp: data_pipe_def)
  have h3: "ctl_has [Used e1, Free (k - 129)] u3" using u3(3) by (intro ctl_has_pipe[OF u2(3) u3(2) _ c(1) u3(4)]) simp_all
  have h4: "ctl_has [Used e1, Used e2, Free (k - 129 - 129)] u4" using u4(3) by (intro ctl_has_pipe[OF h3 u4(2) _ c(1) u4(4)]) simp_all
  obtain u5 where u5: "USB_Host_SetDeviceConfiguration d 0 1 u4 = Some (0, u5)" "USB_HostState u5 = [HOST_STATE_Configured]"
     "ctl_has [Used e1, Used e2, Free (k - 129 - 129)] u5" "drop 1 (row u5) = drop 1 (row u4)"
    using set_configuration[OF device_answers[OF assms(1)] h4] by blast
  have ok5: "usb_ok u5" by (rule ctl_same_ok[OF u4(2) h4 u5(3,4)])
  have "row u5 ! j = row u4 ! j" if "0 < j" "j < 8" for j
    using row_drop[OF usb_okD(3)[OF u4(2)] usb_okD(3)[OF ok5] u5(4) that] .
  then have "row u5 ! 1 = q1" "row u5 ! 2 = q2"
    using u3(4) u4(4) usb_shapeD(2)[OF usb_okD(3)[OF ok2]] by simp_all
  moreover have "EVENT_USB_Host_DeviceEnumerationComplete d dev0 proto0 hdr0 cfg0 0 u = Some u5"
    using u1(1) pc u3(1) u4(1) u5(1) by (simp add: EVENT_USB_Host_DeviceEnumerationComplete_def)
  ultimately show ?thesis using u5(2) ok5 u3(5) u4(5) by auto
qed



section \<open>An example device\<close>

text \<open>
  A device with one accessory interface and its two bulk end points, and a host controller that
  stores the device's answer at the start of the buffer.
\<close>

definition example_ans :: "USB_Request_Header_t \<Rightarrow> u8 list" where
  "example_ans r = (if wValue r = 0x100 then [18, 1, 0, 2, 0, 0, 0, 64, 0xD1, 0x18, 0x00, 0x2D, 0, 1, 1, 2, 3, 1]
     else if wValue r = 0x200 then take (unat (wLength r)) (concat config32) else [])"

fun store_at :: "nat \<Rightarrow> u8 list \<Rightarrow> u8 list \<Rightarrow> u8 list" where
  "store_at b [] m = m"
| "store_at b (v # vs) m = store_at (Suc b) vs (m[b := v])"

definition hcd_example :: "unit hcd" where
  "hcd_example = hcd_ideal\<lparr>HcdControlTransfer := (\<lambda>_ r p m h. (HCD_STATUS_OK,
     case p of None \<Rightarrow> m | Some b \<Rightarrow> if bmRequestType r AND 0x80 = 0x80 \<and> length (example_ans r) \<le> unat (wLength r)
       then store_at b (example_ans r) m else m, h))\<rparr>"

lemma store_used:
  "heap m (pre @ Used ds # post) \<Longrightarrow> k + length vs \<le> length ds \<Longrightarrow>
     heap (store_at (addr pre + 4 + k) vs m) (pre @ Used (take k ds @ vs @ drop (k + length vs) ds) # post)"
proof (induction vs arbitrary: m ds k)
  case (Cons v vs)
  let ?ds = "ds[k := v]"
  have "heap (m[addr pre + 4 + k := v]) (pre @ Used ?ds # post)" using Cons.prems by (intro write_used) auto
  from Cons.IH[OF this, of "Suc k"] have "heap (store_at (addr pre + 4 + Suc k) vs (m[addr pre + 4 + k := v]))
      (pre @ Used (take (Suc k) ?ds @ vs @ drop (Suc k + length vs) ?ds) # post)" using Cons.prems by simp
  moreover have "take (Suc k) ?ds @ vs @ drop (Suc k + length vs) ?ds = take k ds @ (v # vs) @ drop (k + length (v # vs)) ds"
    using Cons.prems by (simp add: take_Suc_conv_app_nth)
  ultimately show ?case by simp
qed simp

lemma hcd_example_device: "device hcd_example example_ans"
  unfolding device_def
proof (intro conjI allI impI)
  fix c a s e ty dir sz h
  show "\<exists>x h'. HcdOpenPipe hcd_example c a s e ty dir sz h = (HCD_STATUS_OK, Some x, h')" by (simp add: hcd_example_def hcd_ideal_def)
next
  fix hdl and r :: USB_Request_Header_t and m h pre ds post
  assume hp: "heap m (pre @ Used ds # post)" and w: "unat (wLength r) \<le> length ds"
  let ?b = "bmRequestType r AND 0x80 = 0x80 \<and> length (example_ans r) \<le> unat (wLength r)"
  show "\<exists>m' h' ds'. HcdControlTransfer hcd_example hdl r (Some (addr pre + 4)) m h = (HCD_STATUS_OK, m', h') \<and>
      length ds' = length ds \<and> heap m' (pre @ Used ds' # post) \<and>
      (bmRequestType r AND 0x80 = 0x80 \<longrightarrow> length (example_ans r) \<le> unat (wLength r) \<longrightarrow> take (length (example_ans r)) ds' = example_ans r)"
  proof (cases ?b)
    case True
    have "heap (store_at (addr pre + 4) (example_ans r) m) (pre @ Used (example_ans r @ drop (length (example_ans r)) ds) # post)"
      using store_used[OF hp, of 0 "example_ans r"] True w by simp
    then show ?thesis using True w
      by (intro exI[of _ "store_at (addr pre + 4) (example_ans r) m"] exI[of _ h] exI[of _ "example_ans r @ drop (length (example_ans r)) ds"])
        (simp add: hcd_example_def)
  next
    case False
    then have "HcdControlTransfer hcd_example hdl r (Some (addr pre + 4)) m h = (HCD_STATUS_OK, m, h)" by (auto simp: hcd_example_def)
    then show ?thesis using hp False by blast
  qed
qed

lemma example_accessory:
  "accessory_device example_ans config32" "accessory_endpoints config32 = Some ([7, 5, 0x81, 2, 64, 0, 0], [7, 5, 0x02, 2, 64, 0, 0])"
  "quiet (concat config32 @ drop (length (concat config32)) (replicate 512 0)) (length (concat config32))"
  by code_simp+



end
