(* ===== verification/I2cDriver.thy ===== *)
theory I2cDriver
  imports Pins Clkpwr
begin

unbundle bit_operations_syntax

text \<open>
  The I2C driver \<^verbatim>\<open>Lib_MCU/src/lpc17xx_i2c.c\<close> and \<^verbatim>\<open>i2c0_init\<close> of \<^verbatim>\<open>Lib_Board/src/board.c\<close>.
  The control, status and data registers of a controller change with the traffic on the bus, so
  they are operations \<open>i2c_regs\<close> of the hardware on a world \<open>'w\<close>: a write may start a transfer, a
  read may find it finished. The other registers are plain memory. A loop that waits for the
  interrupt flag returns \<^const>\<open>None\<close> when the flag never appears. What the hardware promises is
  stated in the second half, by simulation of a bus \<open>i2c_line\<close> with one slave: \<open>drives\<close>; under
  it the polled transfers have exactly the effect of the transaction on the slave.
\<close>

section \<open>Registers\<close>

datatype I2Cx = I2C0 | I2C1 | I2C2

record 'w i2c_regs =
  wr_CONSET :: "I2Cx \<Rightarrow> u32 \<Rightarrow> 'w \<Rightarrow> 'w"
  wr_CONCLR :: "I2Cx \<Rightarrow> u32 \<Rightarrow> 'w \<Rightarrow> 'w"
  wr_DAT :: "I2Cx \<Rightarrow> u32 \<Rightarrow> 'w \<Rightarrow> 'w"
  rd_CONSET :: "I2Cx \<Rightarrow> 'w \<Rightarrow> u32 \<times> 'w"
  rd_STAT :: "I2Cx \<Rightarrow> 'w \<Rightarrow> u32 \<times> 'w"
  rd_DAT :: "I2Cx \<Rightarrow> 'w \<Rightarrow> u32 \<times> 'w"

record LPC_I2C_TypeDef =
  I2ADR0 :: u32
  I2SCLH :: u32
  I2SCLL :: u32
  MMCTRL :: u32
  I2ADR1 :: u32
  I2ADR2 :: u32
  I2ADR3 :: u32
  I2DATA_BUFFER :: u32
  I2MASK0 :: u32
  I2MASK1 :: u32
  I2MASK2 :: u32
  I2MASK3 :: u32

abbreviation (input) I2C_I2CONSET_AA :: u32 where "I2C_I2CONSET_AA \<equiv> 0x04"
abbreviation (input) I2C_I2CONSET_SI :: u32 where "I2C_I2CONSET_SI \<equiv> 0x08"
abbreviation (input) I2C_I2CONSET_STO :: u32 where "I2C_I2CONSET_STO \<equiv> 0x10"
abbreviation (input) I2C_I2CONSET_STA :: u32 where "I2C_I2CONSET_STA \<equiv> 0x20"
abbreviation (input) I2C_I2CONSET_I2EN :: u32 where "I2C_I2CONSET_I2EN \<equiv> 0x40"
abbreviation (input) I2C_I2CONCLR_AAC :: u32 where "I2C_I2CONCLR_AAC \<equiv> 0x04"
abbreviation (input) I2C_I2CONCLR_SIC :: u32 where "I2C_I2CONCLR_SIC \<equiv> 0x08"
abbreviation (input) I2C_I2CONCLR_STAC :: u32 where "I2C_I2CONCLR_STAC \<equiv> 0x20"
abbreviation (input) I2C_I2CONCLR_I2ENC :: u32 where "I2C_I2CONCLR_I2ENC \<equiv> 0x40"
abbreviation (input) I2C_STAT_CODE_BITMASK :: u32 where "I2C_STAT_CODE_BITMASK \<equiv> 0xF8"
abbreviation (input) I2C_I2DAT_BITMASK :: u32 where "I2C_I2DAT_BITMASK \<equiv> 0xFF"
abbreviation (input) I2C_I2ADR_BITMASK :: u32 where "I2C_I2ADR_BITMASK \<equiv> 0xFF"
abbreviation (input) I2C_I2MMCTRL_MM_ENA :: u32 where "I2C_I2MMCTRL_MM_ENA \<equiv> 0x01"
abbreviation (input) I2C_I2MMCTRL_ENA_SCL :: u32 where "I2C_I2MMCTRL_ENA_SCL \<equiv> 0x02"
abbreviation (input) I2C_I2MMCTRL_MATCH_ALL :: u32 where "I2C_I2MMCTRL_MATCH_ALL \<equiv> 0x04"
abbreviation (input) I2C_I2MMCTRL_BITMASK :: u32 where "I2C_I2MMCTRL_BITMASK \<equiv> 0x07"
abbreviation (input) I2C_SLAVE_TIME_OUT :: u32 where "I2C_SLAVE_TIME_OUT \<equiv> 0x10000"

abbreviation (input) I2C_I2STAT_NO_INF :: u32 where "I2C_I2STAT_NO_INF \<equiv> 0xF8"
abbreviation (input) I2C_I2STAT_M_TX_START :: u32 where "I2C_I2STAT_M_TX_START \<equiv> 0x08"
abbreviation (input) I2C_I2STAT_M_TX_RESTART :: u32 where "I2C_I2STAT_M_TX_RESTART \<equiv> 0x10"
abbreviation (input) I2C_I2STAT_M_TX_SLAW_ACK :: u32 where "I2C_I2STAT_M_TX_SLAW_ACK \<equiv> 0x18"
abbreviation (input) I2C_I2STAT_M_TX_SLAW_NACK :: u32 where "I2C_I2STAT_M_TX_SLAW_NACK \<equiv> 0x20"
abbreviation (input) I2C_I2STAT_M_TX_DAT_ACK :: u32 where "I2C_I2STAT_M_TX_DAT_ACK \<equiv> 0x28"
abbreviation (input) I2C_I2STAT_M_TX_DAT_NACK :: u32 where "I2C_I2STAT_M_TX_DAT_NACK \<equiv> 0x30"
abbreviation (input) I2C_I2STAT_M_TX_ARB_LOST :: u32 where "I2C_I2STAT_M_TX_ARB_LOST \<equiv> 0x38"
abbreviation (input) I2C_I2STAT_M_RX_START :: u32 where "I2C_I2STAT_M_RX_START \<equiv> 0x08"
abbreviation (input) I2C_I2STAT_M_RX_RESTART :: u32 where "I2C_I2STAT_M_RX_RESTART \<equiv> 0x10"
abbreviation (input) I2C_I2STAT_M_RX_ARB_LOST :: u32 where "I2C_I2STAT_M_RX_ARB_LOST \<equiv> 0x38"
abbreviation (input) I2C_I2STAT_M_RX_SLAR_ACK :: u32 where "I2C_I2STAT_M_RX_SLAR_ACK \<equiv> 0x40"
abbreviation (input) I2C_I2STAT_M_RX_SLAR_NACK :: u32 where "I2C_I2STAT_M_RX_SLAR_NACK \<equiv> 0x48"
abbreviation (input) I2C_I2STAT_M_RX_DAT_ACK :: u32 where "I2C_I2STAT_M_RX_DAT_ACK \<equiv> 0x50"
abbreviation (input) I2C_I2STAT_M_RX_DAT_NACK :: u32 where "I2C_I2STAT_M_RX_DAT_NACK \<equiv> 0x58"
abbreviation (input) I2C_I2STAT_S_RX_SLAW_ACK :: u32 where "I2C_I2STAT_S_RX_SLAW_ACK \<equiv> 0x60"
abbreviation (input) I2C_I2STAT_S_RX_GENCALL_ACK :: u32 where "I2C_I2STAT_S_RX_GENCALL_ACK \<equiv> 0x70"
abbreviation (input) I2C_I2STAT_S_RX_PRE_SLA_DAT_ACK :: u32 where "I2C_I2STAT_S_RX_PRE_SLA_DAT_ACK \<equiv> 0x80"
abbreviation (input) I2C_I2STAT_S_RX_PRE_SLA_DAT_NACK :: u32 where "I2C_I2STAT_S_RX_PRE_SLA_DAT_NACK \<equiv> 0x88"
abbreviation (input) I2C_I2STAT_S_RX_PRE_GENCALL_DAT_ACK :: u32 where
  "I2C_I2STAT_S_RX_PRE_GENCALL_DAT_ACK \<equiv> 0x90"
abbreviation (input) I2C_I2STAT_S_RX_PRE_GENCALL_DAT_NACK :: u32 where
  "I2C_I2STAT_S_RX_PRE_GENCALL_DAT_NACK \<equiv> 0x98"
abbreviation (input) I2C_I2STAT_S_RX_STA_STO_SLVREC_SLVTRX :: u32 where
  "I2C_I2STAT_S_RX_STA_STO_SLVREC_SLVTRX \<equiv> 0xA0"
abbreviation (input) I2C_I2STAT_S_TX_SLAR_ACK :: u32 where "I2C_I2STAT_S_TX_SLAR_ACK \<equiv> 0xA8"
abbreviation (input) I2C_I2STAT_S_TX_DAT_ACK :: u32 where "I2C_I2STAT_S_TX_DAT_ACK \<equiv> 0xB8"
abbreviation (input) I2C_I2STAT_S_TX_DAT_NACK :: u32 where "I2C_I2STAT_S_TX_DAT_NACK \<equiv> 0xC0"

abbreviation (input) I2C_SETUP_STATUS_ARBF :: u32 where "I2C_SETUP_STATUS_ARBF \<equiv> 0x100"
abbreviation (input) I2C_SETUP_STATUS_NOACKF :: u32 where "I2C_SETUP_STATUS_NOACKF \<equiv> 0x200"
abbreviation (input) I2C_SETUP_STATUS_DONE :: u32 where "I2C_SETUP_STATUS_DONE \<equiv> 0x400"

section \<open>Transfer descriptions\<close>

text \<open>
  A data pointer is \<^const>\<open>None\<close> for \<^verbatim>\<open>NULL\<close> and otherwise the array it points to. A call-back acts on
  the world of the hardware and may not return.
\<close>

record 'w I2C_M_SETUP_Type =
  sl_addr7bit :: u32
  m_tx_data :: "u8 list option"
  m_tx_length :: u32
  m_tx_count :: u32
  m_rx_data :: "u8 list option"
  m_rx_length :: u32
  m_rx_count :: u32
  retransmissions_max :: u32
  retransmissions_count :: u32
  m_status :: u32
  m_callback :: "('w \<Rightarrow> 'w option) option"

record 'w I2C_S_SETUP_Type =
  s_tx_data :: "u8 list option"
  s_tx_length :: u32
  s_tx_count :: u32
  s_rx_data :: "u8 list option"
  s_rx_length :: u32
  s_rx_count :: u32
  s_status :: u32
  s_callback :: "('w \<Rightarrow> 'w option) option"

datatype I2C_TRANSFER_OPT_Type = I2C_TRANSFER_POLLING | I2C_TRANSFER_INTERRUPT

text \<open>
  \<^verbatim>\<open>I2C_CFG_T\<close>: the pointer \<^verbatim>\<open>txrx_setup\<close> and the handler are always assigned together, so the
  constructor of the transfer description names the handler; \<open>No_setup\<close> is the null handler of
  the zeroed array.
\<close>

datatype 'w txrx_setup =
    No_setup
  | Master_setup "'w I2C_M_SETUP_Type"
  | Slave_setup "'w I2C_S_SETUP_Type"

record 'w I2C_CFG_T =
  i2c_setup :: "'w txrx_setup"
  dir :: nat

record 'w i2c_drv =
  i_bus :: 'w
  i_mem :: "I2Cx \<Rightarrow> LPC_I2C_TypeDef"
  i_sc :: LPC_SC_TypeDef
  i_clk :: u32
  i_nvic :: "nat set"
  i2cdat :: "I2Cx \<Rightarrow> 'w I2C_CFG_T"

fun I2C_getNum :: "I2Cx \<Rightarrow> nat" where
  "I2C_getNum I2C0 = 0"
| "I2C_getNum I2C1 = 1"
| "I2C_getNum I2C2 = 2"

section \<open>Bus primitives\<close>

text \<open>\<^verbatim>\<open>while (!(I2Cx->I2CONSET & I2C_I2CONSET_SI));\<close>\<close>

partial_function (option) wait_si :: "'w i2c_regs \<Rightarrow> I2Cx \<Rightarrow> 'w \<Rightarrow> 'w option" where [code]:
  "wait_si hw i w =
     (case rd_CONSET hw i w of (v, w1) \<Rightarrow>
        if v AND I2C_I2CONSET_SI = 0 then wait_si hw i w1 else Some w1)"

definition read_code :: "'w i2c_regs \<Rightarrow> I2Cx \<Rightarrow> 'w \<Rightarrow> u32 \<times> 'w" where
  "read_code hw i w = (case rd_STAT hw i w of (v, w1) \<Rightarrow> (v AND I2C_STAT_CODE_BITMASK, w1))"

definition clear_sta :: "'w i2c_regs \<Rightarrow> I2Cx \<Rightarrow> 'w \<Rightarrow> 'w" where
  "clear_sta hw i w =
     (case rd_CONSET hw i w of (v, w1) \<Rightarrow>
        if v AND I2C_I2CONSET_STA \<noteq> 0 then wr_CONCLR hw i I2C_I2CONCLR_STAC w1 else w1)"

definition I2C_Start :: "'w i2c_regs \<Rightarrow> I2Cx \<Rightarrow> 'w \<Rightarrow> (u32 \<times> 'w) option" where
  "I2C_Start hw i w = do {
     w1 \<leftarrow> wait_si hw i (wr_CONSET hw i I2C_I2CONSET_STA (wr_CONCLR hw i I2C_I2CONCLR_SIC w));
     Some (read_code hw i (wr_CONCLR hw i I2C_I2CONCLR_STAC w1)) }"

definition I2C_Stop :: "'w i2c_regs \<Rightarrow> I2Cx \<Rightarrow> 'w \<Rightarrow> 'w" where
  "I2C_Stop hw i w =
     wr_CONCLR hw i I2C_I2CONCLR_SIC (wr_CONSET hw i I2C_I2CONSET_STO (clear_sta hw i w))"

definition I2C_SendByte :: "'w i2c_regs \<Rightarrow> I2Cx \<Rightarrow> u8 \<Rightarrow> 'w \<Rightarrow> (u32 \<times> 'w) option" where
  "I2C_SendByte hw i databyte w = do {
     w1 \<leftarrow> wait_si hw i (wr_CONCLR hw i I2C_I2CONCLR_SIC
             (wr_DAT hw i (ucast databyte AND I2C_I2DAT_BITMASK) (clear_sta hw i w)));
     Some (read_code hw i w1) }"

definition I2C_GetByte :: "'w i2c_regs \<Rightarrow> I2Cx \<Rightarrow> bool \<Rightarrow> 'w \<Rightarrow> (u32 \<times> u8 \<times> 'w) option" where
  "I2C_GetByte hw i ack w = do {
     w1 \<leftarrow> wait_si hw i (wr_CONCLR hw i I2C_I2CONCLR_SIC
             (if ack then wr_CONSET hw i I2C_I2CONSET_AA w else wr_CONCLR hw i I2C_I2CONCLR_AAC w));
     let (d, w2) = rd_DAT hw i w1;
     let (c, w3) = read_code hw i w2;
     Some (c, ucast (d AND I2C_I2DAT_BITMASK), w3) }"

section \<open>Polled master transfer\<close>

text \<open>
  The loops over the data bytes; \<open>n\<close> is the number of bytes left. \<open>Inl\<close> carries the status that
  the code saves when no retransmission is left, \<open>Inr\<close> a normal end of the loop.
\<close>

fun send_bytes :: "'w i2c_regs \<Rightarrow> I2Cx \<Rightarrow> nat \<Rightarrow> 'w I2C_M_SETUP_Type \<Rightarrow> 'w \<Rightarrow>
    ((u32 + unit) \<times> 'w I2C_M_SETUP_Type \<times> 'w) option" where
  "send_bytes hw i 0 cfg w = Some (Inr (), cfg, w)"
| "send_bytes hw i (Suc n) cfg w = do {
     txdat \<leftarrow> m_tx_data cfg;
     b \<leftarrow> rd txdat (unat (m_tx_count cfg));
     (CodeStatus, w1) \<leftarrow> I2C_SendByte hw i b w;
     if CodeStatus \<noteq> I2C_I2STAT_M_TX_DAT_ACK
     then Some (Inl (CodeStatus OR I2C_SETUP_STATUS_NOACKF), cfg, w1)
     else send_bytes hw i n (cfg\<lparr>m_tx_count := m_tx_count cfg + 1\<rparr>) w1 }"

fun get_bytes :: "'w i2c_regs \<Rightarrow> I2Cx \<Rightarrow> nat \<Rightarrow> 'w I2C_M_SETUP_Type \<Rightarrow> 'w \<Rightarrow>
    ((u32 + unit) \<times> 'w I2C_M_SETUP_Type \<times> 'w) option" where
  "get_bytes hw i 0 cfg w = Some (Inr (), cfg, w)"
| "get_bytes hw i (Suc n) cfg w = do {
     let more = m_rx_count cfg < m_rx_length cfg - 1;
     (CodeStatus, tmp, w1) \<leftarrow> I2C_GetByte hw i more w;
     if CodeStatus \<noteq> (if more then I2C_I2STAT_M_RX_DAT_ACK else I2C_I2STAT_M_RX_DAT_NACK)
     then Some (Inl CodeStatus, cfg, w1)
     else do {
       rxdat \<leftarrow> m_rx_data cfg;
       rxdat' \<leftarrow> wr rxdat (unat (m_rx_count cfg)) tmp;
       get_bytes hw i n (cfg\<lparr>m_rx_data := Some rxdat', m_rx_count := m_rx_count cfg + 1\<rparr>) w1 } }"

definition tx_wanted :: "'w I2C_M_SETUP_Type \<Rightarrow> bool" where
  "tx_wanted cfg \<longleftrightarrow> m_tx_length cfg \<noteq> 0 \<and> m_tx_data cfg \<noteq> None"

definition rx_wanted :: "'w I2C_M_SETUP_Type \<Rightarrow> bool" where
  "rx_wanted cfg \<longleftrightarrow> m_rx_length cfg \<noteq> 0 \<and> m_rx_data cfg \<noteq> None"

definition start_failed :: "u32 \<Rightarrow> bool" where
  "start_failed c \<longleftrightarrow> c \<noteq> I2C_I2STAT_M_TX_START \<and> c \<noteq> I2C_I2STAT_M_TX_RESTART"

definition send_phase :: "'w i2c_regs \<Rightarrow> I2Cx \<Rightarrow> 'w I2C_M_SETUP_Type \<Rightarrow> 'w \<Rightarrow>
    ((u32 + unit) \<times> 'w I2C_M_SETUP_Type \<times> 'w) option" where
  "send_phase hw i cfg w =
     (if tx_wanted cfg then do {
        (CodeStatus, w1) \<leftarrow> I2C_SendByte hw i (ucast (push_bit 1 (sl_addr7bit cfg))) w;
        if CodeStatus \<noteq> I2C_I2STAT_M_TX_SLAW_ACK
        then Some (Inl (CodeStatus OR I2C_SETUP_STATUS_NOACKF), cfg, w1)
        else send_bytes hw i (unat (m_tx_length cfg - m_tx_count cfg)) cfg w1 }
      else Some (Inr (), cfg, w))"

definition restart_phase :: "'w i2c_regs \<Rightarrow> I2Cx \<Rightarrow> 'w I2C_M_SETUP_Type \<Rightarrow> 'w \<Rightarrow>
    ((u32 + unit) \<times> 'w I2C_M_SETUP_Type \<times> 'w) option" where
  "restart_phase hw i cfg w =
     (if tx_wanted cfg \<and> rx_wanted cfg then do {
        (CodeStatus, w1) \<leftarrow> I2C_Start hw i w;
        Some (if start_failed CodeStatus then Inl CodeStatus else Inr (), cfg, w1) }
      else Some (Inr (), cfg, w))"

definition receive_phase :: "'w i2c_regs \<Rightarrow> I2Cx \<Rightarrow> 'w I2C_M_SETUP_Type \<Rightarrow> 'w \<Rightarrow>
    ((u32 + unit) \<times> 'w I2C_M_SETUP_Type \<times> 'w) option" where
  "receive_phase hw i cfg w =
     (if rx_wanted cfg then do {
        (CodeStatus, w1) \<leftarrow> I2C_SendByte hw i (ucast (push_bit 1 (sl_addr7bit cfg) OR 0x01)) w;
        if CodeStatus \<noteq> I2C_I2STAT_M_RX_SLAR_ACK
        then Some (Inl (CodeStatus OR I2C_SETUP_STATUS_NOACKF), cfg, w1)
        else get_bytes hw i (unat (m_rx_length cfg - m_rx_count cfg)) cfg w1 }
      else Some (Inr (), cfg, w))"

text \<open>One attempt, from the label \<^verbatim>\<open>retry\<close> to the stop condition.\<close>

definition attempt :: "'w i2c_regs \<Rightarrow> I2Cx \<Rightarrow> 'w I2C_M_SETUP_Type \<Rightarrow> 'w \<Rightarrow>
    ((u32 + unit) \<times> 'w I2C_M_SETUP_Type \<times> 'w) option" where
  "attempt hw i cfg0 w = do {
     let cfg = cfg0\<lparr>m_tx_count := 0, m_rx_count := 0\<rparr>;
     (CodeStatus, w1) \<leftarrow> I2C_Start hw i w;
     if start_failed CodeStatus then Some (Inl CodeStatus, cfg, w1)
     else do {
       (r1, cfg1, w2) \<leftarrow> send_phase hw i cfg w1;
       case r1 of Inl e \<Rightarrow> Some (Inl e, cfg1, w2)
       | Inr _ \<Rightarrow> do {
           (r2, cfg2, w3) \<leftarrow> restart_phase hw i cfg1 w2;
           case r2 of Inl e \<Rightarrow> Some (Inl e, cfg2, w3)
           | Inr _ \<Rightarrow> receive_phase hw i cfg2 w3 } } }"

partial_function (option) poll_transfer :: "'w i2c_regs \<Rightarrow> I2Cx \<Rightarrow> 'w I2C_M_SETUP_Type \<Rightarrow> 'w \<Rightarrow>
    (Status \<times> 'w I2C_M_SETUP_Type \<times> 'w) option" where [code]:
  "poll_transfer hw i cfg w =
     Option.bind (attempt hw i cfg w) (\<lambda>(r, cfg1, w1).
       case r of
         Inr _ \<Rightarrow> Some (SUCCESS, cfg1, I2C_Stop hw i w1)
       | Inl e \<Rightarrow>
           if retransmissions_count cfg1 + 1 > retransmissions_max cfg1
           then Some (ERROR, cfg1\<lparr>retransmissions_count := retransmissions_count cfg1 + 1, m_status := e\<rparr>, I2C_Stop hw i w1)
           else poll_transfer hw i (cfg1\<lparr>retransmissions_count := retransmissions_count cfg1 + 1\<rparr>) w1)"

fun I2C_IRQn :: "I2Cx \<Rightarrow> nat" where
  "I2C_IRQn I2C0 = 10"
| "I2C_IRQn I2C1 = 11"
| "I2C_IRQn I2C2 = 12"

definition I2C_IntCmd :: "I2Cx \<Rightarrow> bool \<Rightarrow> 'w i2c_drv \<Rightarrow> 'w i2c_drv" where
  "I2C_IntCmd i NewState s =
     (if NewState then s\<lparr>i_nvic := insert (I2C_IRQn i) (i_nvic s)\<rparr>
      else s\<lparr>i_nvic := i_nvic s - {I2C_IRQn i}\<rparr>)"

definition on_bus :: "('w \<Rightarrow> 'w) \<Rightarrow> 'w i2c_drv \<Rightarrow> 'w i2c_drv" where
  "on_bus f s = s\<lparr>i_bus := f (i_bus s)\<rparr>"

definition I2C_MasterTransferData ::
    "'w i2c_regs \<Rightarrow> I2Cx \<Rightarrow> 'w I2C_M_SETUP_Type \<Rightarrow> I2C_TRANSFER_OPT_Type \<Rightarrow> 'w i2c_drv \<Rightarrow>
      (Status \<times> 'w I2C_M_SETUP_Type \<times> 'w i2c_drv) option" where
  "I2C_MasterTransferData hw i cfg0 Opt s =
     (let cfg = cfg0\<lparr>m_tx_count := 0, m_rx_count := 0, m_status := 0\<rparr> in
      case Opt of
        I2C_TRANSFER_POLLING \<Rightarrow> do {
          (r, cfg', w) \<leftarrow> poll_transfer hw i (cfg\<lparr>retransmissions_count := 0\<rparr>) (i_bus s);
          Some (r, cfg', s\<lparr>i_bus := w\<rparr>) }
      | I2C_TRANSFER_INTERRUPT \<Rightarrow>
          Some (SUCCESS, cfg, I2C_IntCmd i True
            (on_bus (\<lambda>w. wr_CONSET hw i I2C_I2CONSET_STA (wr_CONCLR hw i I2C_I2CONCLR_SIC w))
              (s\<lparr>i2cdat := (i2cdat s)(i := \<lparr>i2c_setup = Master_setup cfg, dir = 0\<rparr>)\<rparr>))))"

section \<open>Interrupt handlers\<close>

text \<open>
  The labels \<^verbatim>\<open>end_stage\<close>, \<^verbatim>\<open>retry\<close>, \<^verbatim>\<open>send_slar\<close> and \<^verbatim>\<open>next_stage\<close> of
  \<^verbatim>\<open>I2C_MasterHandler\<close>. They work on the transfer description and the driver, and return both;
  the handler stores the description and the direction.
\<close>

definition run_callback :: "('w \<Rightarrow> 'w option) option \<Rightarrow> 'w i2c_drv \<Rightarrow> 'w i2c_drv option" where
  "run_callback cb s = (case cb of None \<Rightarrow> Some s
     | Some f \<Rightarrow> do { w \<leftarrow> f (i_bus s); Some (s\<lparr>i_bus := w\<rparr>) })"

definition set_m :: "I2Cx \<Rightarrow> 'w I2C_M_SETUP_Type \<Rightarrow> 'w i2c_drv \<Rightarrow> 'w i2c_drv" where
  "set_m i cfg s = s\<lparr>i2cdat := (i2cdat s)(i := (i2cdat s i)\<lparr>i2c_setup := Master_setup cfg\<rparr>)\<rparr>"

definition m_end_stage :: "'w i2c_regs \<Rightarrow> I2Cx \<Rightarrow> 'w I2C_M_SETUP_Type \<Rightarrow> 'w i2c_drv \<Rightarrow> 'w i2c_drv option" where
  "m_end_stage hw i cfg s =
     run_callback (m_callback cfg) (on_bus (I2C_Stop hw i) (I2C_IntCmd i False (set_m i cfg s)))"

definition m_done :: "'w i2c_regs \<Rightarrow> I2Cx \<Rightarrow> 'w I2C_M_SETUP_Type \<Rightarrow> 'w i2c_drv \<Rightarrow> 'w i2c_drv option" where
  "m_done hw i cfg s = m_end_stage hw i (cfg\<lparr>m_status := m_status cfg OR I2C_SETUP_STATUS_DONE\<rparr>) s"

definition m_retry :: "'w i2c_regs \<Rightarrow> I2Cx \<Rightarrow> 'w I2C_M_SETUP_Type \<Rightarrow> 'w i2c_drv \<Rightarrow> 'w i2c_drv option" where
  "m_retry hw i cfg s =
     (if retransmissions_count cfg < retransmissions_max cfg
      then Some (on_bus (\<lambda>w. wr_CONCLR hw i (I2C_I2CONCLR_AAC OR I2C_I2CONCLR_SIC) (wr_CONSET hw i I2C_I2CONSET_STA w))
             (set_m i (cfg\<lparr>m_tx_count := 0, retransmissions_count := retransmissions_count cfg + 1\<rparr>) s))
      else m_end_stage hw i cfg s)"

definition m_send_slar :: "'w i2c_regs \<Rightarrow> I2Cx \<Rightarrow> 'w I2C_M_SETUP_Type \<Rightarrow> 'w i2c_drv \<Rightarrow> 'w i2c_drv option" where
  "m_send_slar hw i cfg s =
     Some (on_bus (\<lambda>w. wr_CONCLR hw i I2C_I2CONCLR_SIC (wr_DAT hw i (push_bit 1 (sl_addr7bit cfg) OR 0x01) w)) (set_m i cfg s))"

definition m_next_stage :: "'w i2c_regs \<Rightarrow> I2Cx \<Rightarrow> 'w I2C_M_SETUP_Type \<Rightarrow> 'w i2c_drv \<Rightarrow> 'w i2c_drv option" where
  "m_next_stage hw i cfg s0 =
     (let s = s0\<lparr>i2cdat := (i2cdat s0)(i := (i2cdat s0 i)\<lparr>dir := 1\<rparr>)\<rparr> in
      if rx_wanted cfg then
        (if tx_wanted cfg
         then Some (on_bus (\<lambda>w. wr_CONCLR hw i (I2C_I2CONCLR_AAC OR I2C_I2CONCLR_SIC) (wr_CONSET hw i I2C_I2CONSET_STA w))
                (set_m i cfg s))
         else m_send_slar hw i cfg s)
      else m_done hw i cfg s)"

definition m_ack_next :: "'w i2c_regs \<Rightarrow> I2Cx \<Rightarrow> 'w I2C_M_SETUP_Type \<Rightarrow> 'w \<Rightarrow> 'w" where
  "m_ack_next hw i cfg w = wr_CONCLR hw i I2C_I2CONCLR_SIC
     (if m_rx_count cfg < m_rx_length cfg - 1 then wr_CONSET hw i I2C_I2CONSET_AA w
      else wr_CONCLR hw i I2C_I2CONSET_AA w)"

definition m_save_data :: "'w i2c_regs \<Rightarrow> I2Cx \<Rightarrow> 'w I2C_M_SETUP_Type \<Rightarrow> 'w i2c_drv \<Rightarrow>
    ('w I2C_M_SETUP_Type \<times> 'w i2c_drv) option" where
  "m_save_data hw i cfg s =
     (case m_rx_data cfg of None \<Rightarrow> Some (cfg, s)
      | Some rx \<Rightarrow>
          if m_rx_count cfg < m_rx_length cfg then do {
            let (d, w) = rd_DAT hw i (i_bus s);
            rx' \<leftarrow> wr rx (unat (m_rx_count cfg)) (ucast (d AND I2C_I2DAT_BITMASK));
            Some (cfg\<lparr>m_rx_data := Some rx', m_rx_count := m_rx_count cfg + 1\<rparr>, s\<lparr>i_bus := w\<rparr>) }
          else Some (cfg, s))"

text \<open>The transmit phase; \<open>cfg\<close> already carries the status code.\<close>

definition m_transmit :: "'w i2c_regs \<Rightarrow> I2Cx \<Rightarrow> u32 \<Rightarrow> 'w I2C_M_SETUP_Type \<Rightarrow> 'w i2c_drv \<Rightarrow> 'w i2c_drv option" where
  "m_transmit hw i c cfg s =
     (if c = I2C_I2STAT_M_TX_START \<or> c = I2C_I2STAT_M_TX_RESTART then
        (let s1 = on_bus (wr_CONCLR hw i I2C_I2CONCLR_STAC) s in
         if tx_wanted cfg
         then Some (on_bus (\<lambda>w. wr_CONCLR hw i I2C_I2CONCLR_SIC (wr_DAT hw i (push_bit 1 (sl_addr7bit cfg)) w)) (set_m i cfg s1))
         else m_next_stage hw i cfg s1)
      else if c = I2C_I2STAT_M_TX_SLAW_ACK \<or> c = I2C_I2STAT_M_TX_DAT_ACK then
        (case m_tx_data cfg of
           Some tx \<Rightarrow>
             if m_tx_count cfg < m_tx_length cfg then do {
               b \<leftarrow> rd tx (unat (m_tx_count cfg));
               Some (on_bus (\<lambda>w. wr_CONCLR hw i I2C_I2CONCLR_SIC (wr_DAT hw i (ucast b) w))
                 (set_m i (cfg\<lparr>m_tx_count := m_tx_count cfg + 1\<rparr>) s)) }
             else m_next_stage hw i cfg s
         | None \<Rightarrow> m_next_stage hw i cfg s)
      else if c = I2C_I2STAT_M_TX_SLAW_NACK \<or> c = I2C_I2STAT_M_TX_DAT_NACK
      then m_retry hw i (cfg\<lparr>m_status := m_status cfg OR I2C_SETUP_STATUS_NOACKF\<rparr>) s
      else if c = I2C_I2STAT_M_TX_ARB_LOST
      then m_retry hw i (cfg\<lparr>m_status := m_status cfg OR I2C_SETUP_STATUS_ARBF\<rparr>) s
      else m_retry hw i cfg s)"

definition m_receive :: "'w i2c_regs \<Rightarrow> I2Cx \<Rightarrow> u32 \<Rightarrow> 'w I2C_M_SETUP_Type \<Rightarrow> 'w i2c_drv \<Rightarrow> 'w i2c_drv option" where
  "m_receive hw i c cfg s =
     (if c = I2C_I2STAT_M_RX_START \<or> c = I2C_I2STAT_M_RX_RESTART then
        (let s1 = on_bus (wr_CONCLR hw i I2C_I2CONCLR_STAC) s in
         if rx_wanted cfg then m_send_slar hw i cfg s1 else m_done hw i cfg s1)
      else if c = I2C_I2STAT_M_RX_SLAR_ACK then Some (on_bus (m_ack_next hw i cfg) (set_m i cfg s))
      else if c = I2C_I2STAT_M_RX_DAT_ACK then do {
        (cfg1, s1) \<leftarrow> m_save_data hw i cfg s;
        Some (on_bus (m_ack_next hw i cfg1) (set_m i cfg1 s1)) }
      else if c = I2C_I2STAT_M_RX_DAT_NACK then do {
        (cfg1, s1) \<leftarrow> m_save_data hw i cfg s;
        m_done hw i cfg1 s1 }
      else if c = I2C_I2STAT_M_RX_SLAR_NACK
      then m_retry hw i (cfg\<lparr>m_status := m_status cfg OR I2C_SETUP_STATUS_NOACKF\<rparr>) s
      else if c = I2C_I2STAT_M_RX_ARB_LOST
      then m_retry hw i (cfg\<lparr>m_status := m_status cfg OR I2C_SETUP_STATUS_ARBF\<rparr>) s
      else m_retry hw i cfg s)"

definition I2C_MasterHandler :: "'w i2c_regs \<Rightarrow> I2Cx \<Rightarrow> 'w I2C_M_SETUP_Type \<Rightarrow> 'w i2c_drv \<Rightarrow> 'w i2c_drv option" where
  "I2C_MasterHandler hw i cfg0 s0 =
     (let (c, w) = read_code hw i (i_bus s0);
          cfg = cfg0\<lparr>m_status := c\<rparr>;
          s = set_m i cfg (s0\<lparr>i_bus := w\<rparr>)
      in if c = I2C_I2STAT_NO_INF then Some (on_bus (wr_CONCLR hw i I2C_I2CONCLR_SIC) s)
         else if dir (i2cdat s i) = 0 then m_transmit hw i c cfg s
         else if dir (i2cdat s i) = 1 then m_receive hw i c cfg s
         else Some s)"

section \<open>Slave mode\<close>

definition set_s :: "I2Cx \<Rightarrow> 'w I2C_S_SETUP_Type \<Rightarrow> 'w i2c_drv \<Rightarrow> 'w i2c_drv" where
  "set_s i cfg s = s\<lparr>i2cdat := (i2cdat s)(i := (i2cdat s i)\<lparr>i2c_setup := Slave_setup cfg\<rparr>)\<rparr>"

definition ack_and_go :: "'w i2c_regs \<Rightarrow> I2Cx \<Rightarrow> 'w \<Rightarrow> 'w" where
  "ack_and_go hw i w = wr_CONCLR hw i I2C_I2CONCLR_SIC (wr_CONSET hw i I2C_I2CONSET_AA w)"

definition s_save_data :: "'w i2c_regs \<Rightarrow> I2Cx \<Rightarrow> 'w I2C_S_SETUP_Type \<Rightarrow> 'w \<Rightarrow> ('w I2C_S_SETUP_Type \<times> 'w) option" where
  "s_save_data hw i cfg w =
     (case s_rx_data cfg of None \<Rightarrow> Some (cfg, w)
      | Some rx \<Rightarrow>
          if s_rx_count cfg < s_rx_length cfg then do {
            let (d, w1) = rd_DAT hw i w;
            rx' \<leftarrow> wr rx (unat (s_rx_count cfg)) (ucast d);
            Some (cfg\<lparr>s_rx_data := Some rx', s_rx_count := s_rx_count cfg + 1\<rparr>, w1) }
          else Some (cfg, w))"

definition s_put_data :: "'w i2c_regs \<Rightarrow> I2Cx \<Rightarrow> 'w I2C_S_SETUP_Type \<Rightarrow> 'w \<Rightarrow> ('w I2C_S_SETUP_Type \<times> 'w) option" where
  "s_put_data hw i cfg w =
     (case s_tx_data cfg of None \<Rightarrow> Some (cfg, w)
      | Some tx \<Rightarrow>
          if s_tx_count cfg < s_tx_length cfg then do {
            b \<leftarrow> rd tx (unat (s_tx_count cfg));
            Some (cfg\<lparr>s_tx_count := s_tx_count cfg + 1\<rparr>, wr_DAT hw i (ucast b) w) }
          else Some (cfg, w))"

text \<open>The time-out loop of the handler: \<^const>\<open>True\<close> when the flag appeared, \<^const>\<open>False\<close> on time-out.\<close>

fun slave_timeout :: "'w i2c_regs \<Rightarrow> I2Cx \<Rightarrow> nat \<Rightarrow> 'w \<Rightarrow> bool \<times> 'w" where
  "slave_timeout hw i 0 w = (False, w)"
| "slave_timeout hw i (Suc n) w =
     (case rd_CONSET hw i w of (v, w1) \<Rightarrow>
        if v AND I2C_I2CONSET_SI \<noteq> 0 then (True, w1) else slave_timeout hw i n w1)"

definition s_int_end :: "'w i2c_regs \<Rightarrow> I2Cx \<Rightarrow> 'w I2C_S_SETUP_Type \<Rightarrow> 'w i2c_drv \<Rightarrow> 'w i2c_drv option" where
  "s_int_end hw i cfg s =
     run_callback (s_callback cfg)
       (on_bus (wr_CONCLR hw i (I2C_I2CONCLR_AAC OR I2C_I2CONCLR_SIC OR I2C_I2CONCLR_STAC))
         (I2C_IntCmd i False (set_s i cfg s)))"

definition I2C_SlaveHandler :: "'w i2c_regs \<Rightarrow> I2Cx \<Rightarrow> 'w I2C_S_SETUP_Type \<Rightarrow> 'w i2c_drv \<Rightarrow> 'w i2c_drv option" where
  "I2C_SlaveHandler hw i cfg0 s0 =
     (let (c, w) = read_code hw i (i_bus s0);
          cfg = cfg0\<lparr>s_status := c\<rparr>;
          done = cfg\<lparr>s_status := s_status cfg OR I2C_SETUP_STATUS_DONE\<rparr>;
          s = set_s i cfg (s0\<lparr>i_bus := w\<rparr>)
      in if c = I2C_I2STAT_NO_INF then Some (on_bus (wr_CONCLR hw i I2C_I2CONCLR_SIC) s)
         else if c = I2C_I2STAT_S_RX_SLAW_ACK \<or> c = I2C_I2STAT_S_RX_GENCALL_ACK
         then Some (on_bus (ack_and_go hw i) s)
         else if c = I2C_I2STAT_S_RX_PRE_SLA_DAT_ACK \<or> c = I2C_I2STAT_S_RX_PRE_GENCALL_DAT_ACK then do {
           (cfg1, w1) \<leftarrow> s_save_data hw i cfg w;
           Some (on_bus (ack_and_go hw i) (set_s i cfg1 (s\<lparr>i_bus := w1\<rparr>))) }
         else if c = I2C_I2STAT_S_RX_PRE_SLA_DAT_NACK \<or> c = I2C_I2STAT_S_RX_PRE_GENCALL_DAT_NACK
         then Some (on_bus (wr_CONCLR hw i I2C_I2CONCLR_SIC) s)
         else if c = I2C_I2STAT_S_RX_STA_STO_SLVREC_SLVTRX then
           (let s1 = I2C_IntCmd i False s;
                (si, w1) = slave_timeout hw i (unat I2C_SLAVE_TIME_OUT) (wr_CONCLR hw i I2C_I2CONCLR_SIC (i_bus s1));
                s2 = s1\<lparr>i_bus := w1\<rparr>
            in if si then Some (I2C_IntCmd i True s2) else s_int_end hw i done s2)
         else if c = I2C_I2STAT_S_TX_SLAR_ACK \<or> c = I2C_I2STAT_S_TX_DAT_ACK then do {
           (cfg1, w1) \<leftarrow> s_put_data hw i cfg w;
           Some (on_bus (ack_and_go hw i) (set_s i cfg1 (s\<lparr>i_bus := w1\<rparr>))) }
         else if c = I2C_I2STAT_S_TX_DAT_NACK then s_int_end hw i done (on_bus (ack_and_go hw i) s)
         else s_int_end hw i cfg s)"

text \<open>
  The polled slave: one iteration with the flag set, which continues with the armed state of the
  time-out (\<open>Inr\<close>) or leaves with an error (\<open>Inl\<close>), and the endless loop around it.
\<close>

definition slave_event :: "'w i2c_regs \<Rightarrow> I2Cx \<Rightarrow> u32 \<Rightarrow> 'w I2C_S_SETUP_Type \<Rightarrow> 'w \<Rightarrow>
    (('w + bool \<times> 'w I2C_S_SETUP_Type \<times> 'w)) option" where
  "slave_event hw i c cfg w =
     (if c = I2C_I2STAT_NO_INF \<or> c = I2C_I2STAT_S_RX_SLAW_ACK \<or> c = I2C_I2STAT_S_RX_GENCALL_ACK
      then Some (Inr (False, cfg, ack_and_go hw i w))
      else if c = I2C_I2STAT_S_RX_PRE_SLA_DAT_ACK \<or> c = I2C_I2STAT_S_RX_PRE_GENCALL_DAT_ACK then do {
        (cfg1, w1) \<leftarrow> s_save_data hw i cfg w;
        Some (Inr (False, cfg1, ack_and_go hw i w1)) }
      else if c = I2C_I2STAT_S_RX_PRE_SLA_DAT_NACK \<or> c = I2C_I2STAT_S_RX_PRE_GENCALL_DAT_NACK
      then Some (Inr (False, cfg, wr_CONCLR hw i I2C_I2CONCLR_SIC w))
      else if c = I2C_I2STAT_S_RX_STA_STO_SLVREC_SLVTRX
      then Some (Inr (True, cfg, wr_CONCLR hw i I2C_I2CONCLR_SIC w))
      else if c = I2C_I2STAT_S_TX_SLAR_ACK \<or> c = I2C_I2STAT_S_TX_DAT_ACK then do {
        (cfg1, w1) \<leftarrow> s_put_data hw i cfg w;
        Some (Inr (False, cfg1, ack_and_go hw i w1)) }
      else if c = I2C_I2STAT_S_TX_DAT_NACK then Some (Inr (True, cfg, ack_and_go hw i w))
      else Some (Inl (wr_CONCLR hw i I2C_I2CONCLR_SIC w)))"

text \<open>\<open>code\<close> is the variable \<^verbatim>\<open>CodeStatus\<close>, uninitialised before the first event.\<close>

partial_function (option) slave_poll :: "'w i2c_regs \<Rightarrow> I2Cx \<Rightarrow> bool \<Rightarrow> u32 \<Rightarrow> u32 \<Rightarrow> 'w I2C_S_SETUP_Type \<Rightarrow> 'w \<Rightarrow>
    (Status \<times> 'w I2C_S_SETUP_Type \<times> 'w) option" where [code]:
  "slave_poll hw i time_en timeout code cfg w =
     (case rd_CONSET hw i w of (v, w1) \<Rightarrow>
        if v AND I2C_I2CONSET_SI \<noteq> 0 then
          (case read_code hw i w1 of (c, w2) \<Rightarrow>
             Option.bind (slave_event hw i c cfg w2) (\<lambda>r. case r of
               Inl w3 \<Rightarrow> Some (ERROR, cfg\<lparr>s_status := c\<rparr>, wr_CONCLR hw i I2C_I2CONCLR_AAC w3)
             | Inr (en, cfg1, w3) \<Rightarrow> slave_poll hw i en (if en then 0 else timeout) c cfg1 w3))
        else if time_en then
          (if timeout > I2C_SLAVE_TIME_OUT
           then Some (SUCCESS, cfg\<lparr>s_status := code OR I2C_SETUP_STATUS_DONE\<rparr>, wr_CONCLR hw i I2C_I2CONCLR_AAC w1)
           else slave_poll hw i True (timeout + 1) code cfg w1)
        else slave_poll hw i False timeout code cfg w1)"

definition I2C_SlaveTransferData ::
    "u32 \<Rightarrow> 'w i2c_regs \<Rightarrow> I2Cx \<Rightarrow> 'w I2C_S_SETUP_Type \<Rightarrow> I2C_TRANSFER_OPT_Type \<Rightarrow> 'w i2c_drv \<Rightarrow>
      (Status \<times> 'w I2C_S_SETUP_Type \<times> 'w i2c_drv) option" where
  "I2C_SlaveTransferData code0 hw i cfg0 Opt s =
     (let cfg = cfg0\<lparr>s_tx_count := 0, s_rx_count := 0, s_status := 0\<rparr>;
          go = (\<lambda>w. wr_CONCLR hw i (I2C_I2CONCLR_SIC OR I2C_I2CONCLR_STAC) (wr_CONSET hw i I2C_I2CONSET_AA w))
      in case Opt of
           I2C_TRANSFER_POLLING \<Rightarrow> do {
             (r, cfg', w) \<leftarrow> slave_poll hw i False 0 code0 cfg (go (i_bus s));
             Some (r, cfg', s\<lparr>i_bus := w\<rparr>) }
         | I2C_TRANSFER_INTERRUPT \<Rightarrow>
             Some (SUCCESS, cfg, I2C_IntCmd i True
               (on_bus go (s\<lparr>i2cdat := (i2cdat s)(i := \<lparr>i2c_setup = Slave_setup cfg, dir = 1\<rparr>)\<rparr>))))"

text \<open>\<^verbatim>\<open>I2C0_StdIntHandler\<close>, \<^verbatim>\<open>I2C1_StdIntHandler\<close> and \<^verbatim>\<open>I2C2_StdIntHandler\<close>.\<close>

definition I2C_StdIntHandler :: "'w i2c_regs \<Rightarrow> I2Cx \<Rightarrow> 'w i2c_drv \<Rightarrow> 'w i2c_drv option" where
  "I2C_StdIntHandler hw i s = (case i2c_setup (i2cdat s i) of
     No_setup \<Rightarrow> None
   | Master_setup cfg \<Rightarrow> I2C_MasterHandler hw i cfg s
   | Slave_setup cfg \<Rightarrow> I2C_SlaveHandler hw i cfg s)"

section \<open>Configuration\<close>

record I2C_OWNSLAVEADDR_CFG_Type =
  SlaveAddrChannel :: u8
  SlaveAddr_7bit :: u8
  GeneralCallState :: FunctionalState
  SlaveAddrMaskValue :: u8

fun CLKPWR_PCONP_PCI2C :: "I2Cx \<Rightarrow> u32" where
  "CLKPWR_PCONP_PCI2C I2C0 = 0x80"
| "CLKPWR_PCONP_PCI2C I2C1 = 0x80000"
| "CLKPWR_PCONP_PCI2C I2C2 = 0x4000000"

fun CLKPWR_PCLKSEL_I2C :: "I2Cx \<Rightarrow> u32" where
  "CLKPWR_PCLKSEL_I2C I2C0 = 14"
| "CLKPWR_PCLKSEL_I2C I2C1 = 38"
| "CLKPWR_PCLKSEL_I2C I2C2 = 52"

abbreviation (input) CLKPWR_PCLKSEL_CCLK_DIV_2 :: u32 where "CLKPWR_PCLKSEL_CCLK_DIV_2 \<equiv> 2"

definition on_mem :: "I2Cx \<Rightarrow> (LPC_I2C_TypeDef \<Rightarrow> LPC_I2C_TypeDef) \<Rightarrow> 'w i2c_drv \<Rightarrow> 'w i2c_drv" where
  "on_mem i f s = s\<lparr>i_mem := (i_mem s)(i := f (i_mem s i))\<rparr>"

text \<open>The division by \<^verbatim>\<open>target_clock\<close> does not return for 0. The third branch reads the clock of I2C1.\<close>

definition I2C_SetClock :: "I2Cx \<Rightarrow> u32 \<Rightarrow> 'w i2c_drv \<Rightarrow> 'w i2c_drv option" where
  "I2C_SetClock i target_clock s =
     (if target_clock = 0 then None
      else let sel = (case i of I2C0 \<Rightarrow> CLKPWR_PCLKSEL_I2C I2C0 | I2C1 \<Rightarrow> CLKPWR_PCLKSEL_I2C I2C1
                      | I2C2 \<Rightarrow> CLKPWR_PCLKSEL_I2C I2C1);
               temp = CLKPWR_GetPCLK (i_clk s) sel (i_sc s) div target_clock
           in Some (on_mem i (\<lambda>r. r\<lparr>I2SCLH := temp div 2, I2SCLL := temp - temp div 2\<rparr>) s))"

definition I2C_DeInit :: "'w i2c_regs \<Rightarrow> I2Cx \<Rightarrow> 'w i2c_drv \<Rightarrow> 'w i2c_drv" where
  "I2C_DeInit hw i s =
     (let s1 = on_bus (wr_CONCLR hw i I2C_I2CONCLR_I2ENC) s
      in s1\<lparr>i_sc := CLKPWR_ConfigPPWR (CLKPWR_PCONP_PCI2C i) DISABLE (i_sc s1)\<rparr>)"

definition I2C_Init :: "'w i2c_regs \<Rightarrow> I2Cx \<Rightarrow> u32 \<Rightarrow> 'w i2c_drv \<Rightarrow> 'w i2c_drv option" where
  "I2C_Init hw i clockrate s = do {
     let sc = CLKPWR_ConfigPPWR (CLKPWR_PCONP_PCI2C i) ENABLE (i_sc s);
     let sc' = CLKPWR_SetPCLKDiv (CLKPWR_PCLKSEL_I2C i) CLKPWR_PCLKSEL_CCLK_DIV_2 sc;
     s1 \<leftarrow> I2C_SetClock i clockrate (s\<lparr>i_sc := sc'\<rparr>);
     Some (on_bus (wr_CONCLR hw i (I2C_I2CONCLR_AAC OR I2C_I2CONCLR_STAC OR I2C_I2CONCLR_I2ENC)) s1) }"

definition I2C_Cmd :: "'w i2c_regs \<Rightarrow> I2Cx \<Rightarrow> FunctionalState \<Rightarrow> 'w i2c_drv \<Rightarrow> 'w i2c_drv" where
  "I2C_Cmd hw i NewState s =
     (if NewState = ENABLE then on_bus (wr_CONSET hw i I2C_I2CONSET_I2EN) s
      else on_bus (wr_CONCLR hw i I2C_I2CONCLR_I2ENC) s)"

definition I2C_SetOwnSlaveAddr :: "I2Cx \<Rightarrow> I2C_OWNSLAVEADDR_CFG_Type \<Rightarrow> 'w i2c_drv \<Rightarrow> 'w i2c_drv option" where
  "I2C_SetOwnSlaveAddr i cfg s = do {
     _ \<leftarrow> CHECK_PARAM (SlaveAddrChannel cfg \<le> 3);
     let tmp = (push_bit 1 (ucast (SlaveAddr_7bit cfg)) OR (if GeneralCallState cfg = ENABLE then 0x01 else 0x00))
               AND I2C_I2ADR_BITMASK;
     let m = ucast (SlaveAddrMaskValue cfg) AND 0xFE;
     Some (on_mem i (\<lambda>r.
       if SlaveAddrChannel cfg = 0 then r\<lparr>I2ADR0 := tmp, I2MASK0 := m\<rparr>
       else if SlaveAddrChannel cfg = 1 then r\<lparr>I2ADR1 := tmp, I2MASK1 := m\<rparr>
       else if SlaveAddrChannel cfg = 2 then r\<lparr>I2ADR2 := tmp, I2MASK2 := m\<rparr>
       else r\<lparr>I2ADR3 := tmp, I2MASK3 := m\<rparr>) s) }"

definition mmctrl_cfg :: "u32 \<Rightarrow> FunctionalState \<Rightarrow> LPC_I2C_TypeDef \<Rightarrow> LPC_I2C_TypeDef" where
  "mmctrl_cfg b NewState r =
     (if NewState = ENABLE then r\<lparr>MMCTRL := MMCTRL r OR b\<rparr>
      else r\<lparr>MMCTRL := MMCTRL r AND (NOT b AND I2C_I2MMCTRL_BITMASK)\<rparr>)"

definition I2C_MonitorModeConfig :: "I2Cx \<Rightarrow> u32 \<Rightarrow> FunctionalState \<Rightarrow> 'w i2c_drv \<Rightarrow> 'w i2c_drv option" where
  "I2C_MonitorModeConfig i MonitorCfgType NewState s = do {
     _ \<leftarrow> CHECK_PARAM (MonitorCfgType = I2C_I2MMCTRL_ENA_SCL \<or> MonitorCfgType = I2C_I2MMCTRL_MATCH_ALL);
     Some (on_mem i (mmctrl_cfg MonitorCfgType NewState) s) }"

definition I2C_MonitorModeCmd :: "I2Cx \<Rightarrow> FunctionalState \<Rightarrow> 'w i2c_drv \<Rightarrow> 'w i2c_drv" where
  "I2C_MonitorModeCmd i NewState s = on_mem i (mmctrl_cfg I2C_I2MMCTRL_MM_ENA NewState) s"

definition I2C_MonitorGetDatabuffer :: "I2Cx \<Rightarrow> 'w i2c_drv \<Rightarrow> u8" where
  "I2C_MonitorGetDatabuffer i s = ucast (I2DATA_BUFFER (i_mem s i))"

text \<open>\<^verbatim>\<open>i2c0_init\<close> leaves the mode and open-drain members of \<^verbatim>\<open>PinCfg\<close> uninitialised: they are \<open>cfg0\<close>.\<close>

definition i2c0_init :: "PINSEL_CFG_Type \<Rightarrow> 'w i2c_regs \<Rightarrow> LPC_PINCON_TypeDef \<times> 'w i2c_drv \<Rightarrow>
    (LPC_PINCON_TypeDef \<times> 'w i2c_drv) option" where
  "i2c0_init cfg0 hw ps = do {
     let cfg = cfg0\<lparr>Funcnum := 1, Portnum := 0\<rparr>;
     p1 \<leftarrow> PINSEL_ConfigPin (cfg\<lparr>Pinnum := 27\<rparr>) (fst ps);
     p2 \<leftarrow> PINSEL_ConfigPin (cfg\<lparr>Pinnum := 28\<rparr>) p1;
     s1 \<leftarrow> I2C_Init hw I2C0 100000 (snd ps);
     Some (p2, I2C_Cmd hw I2C0 ENABLE s1) }"

section \<open>The bus behind the registers\<close>

text \<open>
  What the controller and one slave on its bus do, as the LPC17xx manual describes the master
  modes. A slave answers to its address, takes bytes and acknowledges them, delivers bytes and sees
  the stop condition. The line state holds the flags of the control register, the data register, the
  status code and the mode the controller is in. \<open>bus_step\<close> is the transfer that is performed while
  the interrupt flag is clear; it is \<^const>\<open>None\<close> where nothing happens and for a start
  condition in the middle of a transfer, about which nothing is assumed.
\<close>

record 's i2c_slave =
  sl_address :: "u8 \<Rightarrow> 's \<Rightarrow> bool \<times> 's"
  sl_put :: "u8 \<Rightarrow> 's \<Rightarrow> bool \<times> 's"
  sl_get :: "'s \<Rightarrow> u8 \<times> 's"
  sl_stop :: "'s \<Rightarrow> 's"

datatype i2c_mode = Free | Addressing | Transmitter | Receiver

record 's i2c_line =
  l_sta :: bool
  l_sto :: bool
  l_si :: bool
  l_aa :: bool
  l_dat :: u8
  l_stat :: u32
  l_mode :: i2c_mode
  l_slave :: 's

definition line_conset :: "u32 \<Rightarrow> 's i2c_line \<Rightarrow> 's i2c_line" where
  "line_conset v l = l\<lparr>l_sta := (l_sta l \<or> v AND 0x20 \<noteq> 0), l_sto := (l_sto l \<or> v AND 0x10 \<noteq> 0),
     l_aa := (l_aa l \<or> v AND 0x04 \<noteq> 0)\<rparr>"

definition line_conclr :: "'s i2c_slave \<Rightarrow> u32 \<Rightarrow> 's i2c_line \<Rightarrow> 's i2c_line" where
  "line_conclr sl v l0 =
     (let l = l0\<lparr>l_sta := (l_sta l0 \<and> v AND 0x20 = 0), l_aa := (l_aa l0 \<and> v AND 0x04 = 0)\<rparr> in
      if v AND 0x08 = 0 then l
      else if l_sto l \<and> l_mode l \<noteq> Free
      then l\<lparr>l_si := False, l_sto := False, l_mode := Free, l_slave := sl_stop sl (l_slave l)\<rparr>
      else l\<lparr>l_si := False\<rparr>)"

definition bus_step :: "'s i2c_slave \<Rightarrow> 's i2c_line \<Rightarrow> 's i2c_line option" where
  "bus_step sl l = (case l_mode l of
     Free \<Rightarrow> if l_sta l then Some (l\<lparr>l_si := True, l_stat := 0x08, l_mode := Addressing\<rparr>) else None
   | Addressing \<Rightarrow> if l_sta l then None else
       (case sl_address sl (l_dat l) (l_slave l) of (a, s) \<Rightarrow>
          Some (if l_dat l AND 1 = 0
                then l\<lparr>l_si := True, l_stat := (if a then 0x18 else 0x20), l_mode := Transmitter, l_slave := s\<rparr>
                else l\<lparr>l_si := True, l_stat := (if a then 0x40 else 0x48), l_mode := Receiver, l_slave := s\<rparr>))
   | Transmitter \<Rightarrow> if l_sta l then None else
       (case sl_put sl (l_dat l) (l_slave l) of (a, s) \<Rightarrow>
          Some (l\<lparr>l_si := True, l_stat := (if a then 0x28 else 0x30), l_slave := s\<rparr>))
   | Receiver \<Rightarrow> if l_sta l then None else
       (case sl_get sl (l_slave l) of (b, s) \<Rightarrow>
          Some (l\<lparr>l_si := True, l_dat := b, l_stat := (if l_aa l then 0x50 else 0x58), l_slave := s\<rparr>)))"

text \<open>The interrupt flag is read as set after finitely many reads that find it clear.\<close>

inductive si_after :: "'w i2c_regs \<Rightarrow> I2Cx \<Rightarrow> 'w \<Rightarrow> 'w \<Rightarrow> bool" for hw :: "'w i2c_regs" and i :: I2Cx where
  si_now: "rd_CONSET hw i w = (v, w1) \<Longrightarrow> v AND 0x08 \<noteq> 0 \<Longrightarrow> si_after hw i w w1"
| si_later: "rd_CONSET hw i w = (v, w1) \<Longrightarrow> v AND 0x08 = 0 \<Longrightarrow> si_after hw i w1 w2 \<Longrightarrow> si_after hw i w w2"

text \<open>
  \<open>drives hw i sl R\<close>: through the relation \<open>R\<close> the registers of controller \<open>i\<close> behave as the line
  with the slave \<open>sl\<close>.
\<close>

definition drives :: "'w i2c_regs \<Rightarrow> I2Cx \<Rightarrow> 's i2c_slave \<Rightarrow> ('w \<Rightarrow> 's i2c_line \<Rightarrow> bool) \<Rightarrow> bool" where
  "drives hw i sl R \<longleftrightarrow>
     (\<forall>w l. R w l \<longrightarrow>
        (\<forall>v. R (wr_CONSET hw i v w) (line_conset v l)) \<and>
        (\<forall>v. R (wr_CONCLR hw i v w) (line_conclr sl v l)) \<and>
        (\<forall>v. R (wr_DAT hw i v w) (l\<lparr>l_dat := ucast v\<rparr>)) \<and>
        (l_si l \<longrightarrow>
           R (snd (rd_CONSET hw i w)) l \<and> (fst (rd_CONSET hw i w) AND 0x20 \<noteq> 0 \<longleftrightarrow> l_sta l) \<and>
           fst (rd_STAT hw i w) AND 0xF8 = l_stat l \<and> R (snd (rd_STAT hw i w)) l \<and>
           ucast (fst (rd_DAT hw i w)) = l_dat l \<and> R (snd (rd_DAT hw i w)) l) \<and>
        (\<forall>l'. \<not> l_si l \<longrightarrow> bus_step sl l = Some l' \<longrightarrow> (\<exists>w'. si_after hw i w w' \<and> R w' l')))"

section \<open>Polled transfers on a line\<close>

definition held :: "i2c_mode \<Rightarrow> 's \<Rightarrow> 's i2c_line \<Rightarrow> bool" where
  "held m s l \<longleftrightarrow> l_mode l = m \<and> l_slave l = s \<and> l_si l \<and> \<not> l_sta l \<and> \<not> l_sto l"

definition holding :: "('w \<Rightarrow> 's i2c_line \<Rightarrow> bool) \<Rightarrow> i2c_mode \<Rightarrow> 's \<Rightarrow> 'w \<Rightarrow> bool" where
  "holding R m s w \<longleftrightarrow> (\<exists>l. R w l \<and> held m s l)"

definition resting :: "('w \<Rightarrow> 's i2c_line \<Rightarrow> bool) \<Rightarrow> 's \<Rightarrow> 'w \<Rightarrow> bool" where
  "resting R s w \<longleftrightarrow>
     (\<exists>l. R w l \<and> l_mode l = Free \<and> l_slave l = s \<and> \<not> l_si l \<and> \<not> l_sta l \<and> \<not> l_sto l)"

fun put_all :: "'s i2c_slave \<Rightarrow> u8 list \<Rightarrow> 's \<Rightarrow> 's option" where
  "put_all sl [] s = Some s"
| "put_all sl (b # bs) s = (case sl_put sl b s of (a, s') \<Rightarrow> if a then put_all sl bs s' else None)"

fun get_all :: "'s i2c_slave \<Rightarrow> nat \<Rightarrow> 's \<Rightarrow> u8 list \<times> 's" where
  "get_all sl 0 s = ([], s)"
| "get_all sl (Suc n) s = (case sl_get sl s of (b, s') \<Rightarrow> case get_all sl n s' of (bs, t) \<Rightarrow> (b # bs, t))"

lemma length_get_all [simp]: "length (fst (get_all sl n s)) = n"
  by (induction n arbitrary: s) (auto split: prod.splits simp: prod_eq_iff)

lemma ucast_u8_back: "ucast (ucast (b :: u8) :: u32) = b"
  by (intro bit_word_eqI) (simp add: bit_simps)

lemma wait_si_after: "si_after hw i w w' \<Longrightarrow> wait_si hw i w = Some w'"
  by (induction rule: si_after.induct) (subst wait_si.simps, simp)+

lemma drivesD:
  assumes "drives hw i sl R" "R w l"
  shows "R (wr_CONSET hw i v w) (line_conset v l)" "R (wr_CONCLR hw i v w) (line_conclr sl v l)"
    "R (wr_DAT hw i v w) (l\<lparr>l_dat := ucast v\<rparr>)"
    "l_si l \<Longrightarrow> R (snd (rd_CONSET hw i w)) l" "l_si l \<Longrightarrow> (fst (rd_CONSET hw i w) AND 0x20 \<noteq> 0) = l_sta l"
    "l_si l \<Longrightarrow> fst (rd_STAT hw i w) AND 0xF8 = l_stat l" "l_si l \<Longrightarrow> R (snd (rd_STAT hw i w)) l"
    "l_si l \<Longrightarrow> ucast (fst (rd_DAT hw i w)) = l_dat l" "l_si l \<Longrightarrow> R (snd (rd_DAT hw i w)) l"
  using assms unfolding drives_def by blast+

lemma wait_step:
  assumes "drives hw i sl R" "R w l" "\<not> l_si l" "bus_step sl l = Some l'"
  obtains w' where "wait_si hw i w = Some w'" "R w' l'"
proof -
  have "\<exists>w'. si_after hw i w w' \<and> R w' l'" using assms unfolding drives_def by simp
  with that show thesis by (auto dest: wait_si_after)
qed

lemma read_code_line:
  assumes "drives hw i sl R" "R w l" "l_si l"
  shows "fst (read_code hw i w) = l_stat l \<and> R (snd (read_code hw i w)) l"
  using drivesD(6,7)[OF assms] by (simp add: read_code_def case_prod_beta)

lemma clear_sta_held:
  assumes "drives hw i sl R" "R w l" "held m s l"
  shows "R (clear_sta hw i w) l"
  using drivesD(4,5)[OF assms(1,2)] assms(3) by (auto simp: clear_sta_def held_def split: prod.splits)

lemma I2C_Start_line:
  assumes d: "drives hw i sl R" and r: "resting R s w"
  shows "\<exists>w'. I2C_Start hw i w = Some (I2C_I2STAT_M_TX_START, w') \<and> holding R Addressing s w'"
proof -
  from r obtain l where l: "R w l" "l_mode l = Free" "l_slave l = s" "\<not> l_si l" "\<not> l_sta l" "\<not> l_sto l"
    by (auto simp: resting_def)
  let ?l = "line_conset 0x20 (line_conclr sl 0x08 l)"
  let ?w = "wr_CONSET hw i 0x20 (wr_CONCLR hw i 0x08 w)"
  have "R ?w ?l" by (intro drivesD(1,2)[OF d] l(1))
  moreover have "\<not> l_si ?l" "bus_step sl ?l = Some (?l\<lparr>l_si := True, l_stat := 0x08, l_mode := Addressing\<rparr>)"
    using l by (simp_all add: line_conset_def line_conclr_def bus_step_def)
  ultimately obtain w1 where w1: "wait_si hw i ?w = Some w1" "R w1 (?l\<lparr>l_si := True, l_stat := 0x08, l_mode := Addressing\<rparr>)"
    by (rule wait_step[OF d])
  let ?l2 = "line_conclr sl 0x20 (?l\<lparr>l_si := True, l_stat := 0x08, l_mode := Addressing\<rparr>)"
  have "R (wr_CONCLR hw i 0x20 w1) ?l2" by (rule drivesD(2)[OF d w1(2)])
  moreover have h: "held Addressing s ?l2" "l_stat ?l2 = 8" using l by (simp_all add: held_def line_conset_def line_conclr_def)
  ultimately have "fst (read_code hw i (wr_CONCLR hw i 0x20 w1)) = 8 \<and> R (snd (read_code hw i (wr_CONCLR hw i 0x20 w1))) ?l2"
    using read_code_line[OF d, of _ ?l2] unfolding held_def by simp
  with w1(1) h(1) show ?thesis by (auto simp: I2C_Start_def holding_def prod_eq_iff)
qed

lemma I2C_Stop_line:
  assumes d: "drives hw i sl R" and h: "holding R m s w" and "m \<noteq> Free"
  shows "resting R (sl_stop sl s) (I2C_Stop hw i w)"
proof -
  from h obtain l where l: "R w l" "held m s l" by (auto simp: holding_def)
  let ?l = "line_conclr sl 0x08 (line_conset 0x10 l)"
  have "R (I2C_Stop hw i w) ?l" unfolding I2C_Stop_def by (intro drivesD(1,2)[OF d] clear_sta_held[OF d l])
  moreover have "l_mode ?l = Free" "l_slave ?l = sl_stop sl s" "\<not> l_si ?l" "\<not> l_sta ?l" "\<not> l_sto ?l"
    using l(2) \<open>m \<noteq> Free\<close> by (simp_all add: held_def line_conset_def line_conclr_def)
  ultimately show ?thesis by (auto simp: resting_def)
qed

text \<open>A byte sent in a mode whose step on the line is known.\<close>

lemma I2C_SendByte_line:
  assumes d: "drives hw i sl R" and h: "holding R m s w"
    and step: "\<And>l. l_mode l = m \<Longrightarrow> l_slave l = s \<Longrightarrow> \<not> l_sta l \<Longrightarrow> \<not> l_sto l \<Longrightarrow> l_dat l = b \<Longrightarrow>
      \<exists>l'. bus_step sl l = Some l' \<and> held m' s' l' \<and> l_stat l' = c"
  shows "\<exists>w'. I2C_SendByte hw i b w = Some (c, w') \<and> holding R m' s' w'"
proof -
  from h obtain l where l: "R w l" "held m s l" by (auto simp: holding_def)
  let ?l = "line_conclr sl 0x08 (l\<lparr>l_dat := ucast (ucast b AND (0xFF :: u32))\<rparr>)"
  let ?w = "wr_CONCLR hw i 0x08 (wr_DAT hw i (ucast b AND 0xFF) (clear_sta hw i w))"
  have "R ?w ?l" by (intro drivesD(2,3)[OF d] clear_sta_held[OF d l])
  moreover have "ucast (ucast b AND (0xFF :: u32)) = b" by (simp add: ucast_u8_back)
  then have f: "l_mode ?l = m" "l_slave ?l = s" "\<not> l_sta ?l" "\<not> l_sto ?l" "l_dat ?l = b" "\<not> l_si ?l"
    using l(2) by (simp_all add: held_def line_conclr_def)
  from step[OF f(1-5)] obtain l' where l': "bus_step sl ?l = Some l'" "held m' s' l'" "l_stat l' = c" by blast
  ultimately obtain w1 where w1: "wait_si hw i ?w = Some w1" "R w1 l'" using wait_step[OF d _ f(6)] by metis
  have "fst (read_code hw i w1) = c \<and> R (snd (read_code hw i w1)) l'"
    using read_code_line[OF d w1(2)] l'(2,3) by (simp add: held_def)
  with w1(1) l'(2) show ?thesis by (auto simp: I2C_SendByte_def holding_def prod_eq_iff)
qed

lemma send_address_line:
  assumes "drives hw i sl R" "holding R Addressing s w" "sl_address sl b s = (True, s')"
  shows "\<exists>w'. I2C_SendByte hw i b w =
      Some (if b AND 1 = 0 then I2C_I2STAT_M_TX_SLAW_ACK else I2C_I2STAT_M_RX_SLAR_ACK, w') \<and>
    holding R (if b AND 1 = 0 then Transmitter else Receiver) s' w'"
  by (rule I2C_SendByte_line[OF assms(1,2)]) (auto simp: bus_step_def held_def assms(3))

lemma send_data_line:
  assumes "drives hw i sl R" "holding R Transmitter s w" "sl_put sl b s = (True, s')"
  shows "\<exists>w'. I2C_SendByte hw i b w = Some (I2C_I2STAT_M_TX_DAT_ACK, w') \<and> holding R Transmitter s' w'"
  by (rule I2C_SendByte_line[OF assms(1,2)]) (auto simp: bus_step_def held_def assms(3))

lemma I2C_GetByte_line:
  assumes d: "drives hw i sl R" and h: "holding R Receiver s w" and g: "sl_get sl s = (b, s')"
  shows "\<exists>w'. I2C_GetByte hw i ack w =
      Some (if ack then I2C_I2STAT_M_RX_DAT_ACK else I2C_I2STAT_M_RX_DAT_NACK, b, w') \<and> holding R Receiver s' w'"
proof -
  from h obtain l where l: "R w l" "held Receiver s l" by (auto simp: holding_def)
  let ?wa = "if ack then wr_CONSET hw i 0x04 w else wr_CONCLR hw i 0x04 w"
  let ?la = "if ack then line_conset 0x04 l else line_conclr sl 0x04 l"
  let ?w = "wr_CONCLR hw i 0x08 ?wa" and ?l = "line_conclr sl 0x08 ?la"
  have "R ?wa ?la" using drivesD(1,2)[OF d l(1)] by auto
  then have rl: "R ?w ?l" by (rule drivesD(2)[OF d])
  have f: "\<not> l_si ?l" "bus_step sl ?l = Some (?l\<lparr>l_si := True, l_dat := b, l_stat := if ack then 0x50 else 0x58, l_slave := s'\<rparr>)"
    using l(2) g by (simp_all add: held_def line_conset_def line_conclr_def bus_step_def)
  let ?l1 = "?l\<lparr>l_si := True, l_dat := b, l_stat := if ack then 0x50 else 0x58, l_slave := s'\<rparr>"
  obtain w1 where w1: "wait_si hw i ?w = Some w1" "R w1 ?l1" by (rule wait_step[OF d rl f])
  have d1: "ucast (fst (rd_DAT hw i w1)) = b" "R (snd (rd_DAT hw i w1)) ?l1"
    using drivesD(8,9)[OF d w1(2)] by simp_all
  have "fst (read_code hw i (snd (rd_DAT hw i w1))) = (if ack then 0x50 else 0x58)"
    "R (snd (read_code hw i (snd (rd_DAT hw i w1)))) ?l1" using read_code_line[OF d d1(2)] by simp_all
  moreover have "held Receiver s' ?l1" using l(2) by (simp add: held_def line_conset_def line_conclr_def)
  ultimately show ?thesis using w1(1) d1(1)
    by (auto simp: I2C_GetByte_def holding_def split: prod.splits)
qed

lemma send_bytes_line:
  assumes d: "drives hw i sl R"
  shows "holding R Transmitter s w \<Longrightarrow> m_tx_data cfg = Some tx \<Longrightarrow> unat (m_tx_count cfg) + n \<le> length tx \<Longrightarrow>
    unat (m_tx_count cfg) + n < 2 ^ 32 \<Longrightarrow>
    put_all sl (take n (drop (unat (m_tx_count cfg)) tx)) s = Some s' \<Longrightarrow>
    \<exists>cfg' w'. send_bytes hw i n cfg w = Some (Inr (), cfg', w') \<and> holding R Transmitter s' w' \<and>
      cfg' = cfg\<lparr>m_tx_count := m_tx_count cfg'\<rparr>"
proof (induction n arbitrary: cfg s w)
  case 0
  then show ?case by simp
next
  case (Suc n)
  let ?c = "unat (m_tx_count cfg)"
  let ?cfg = "cfg\<lparr>m_tx_count := m_tx_count cfg + 1\<rparr>"
  have c1: "unat (m_tx_count cfg + 1) = ?c + 1" using Suc.prems(4) by (subst unat_word_ariths) simp
  have "?c < length tx" using Suc.prems(3) by simp
  then have dr: "drop ?c tx = tx ! ?c # drop (Suc ?c) tx" by (simp add: Cons_nth_drop_Suc)
  obtain s1 where s1: "sl_put sl (tx ! ?c) s = (True, s1)" "put_all sl (take n (drop (Suc ?c) tx)) s1 = Some s'"
    using Suc.prems(5) unfolding dr by (auto split: prod.splits if_splits)
  obtain w1 where w1: "I2C_SendByte hw i (tx ! ?c) w = Some (0x28, w1)" "holding R Transmitter s1 w1"
    using send_data_line[OF d Suc.prems(1) s1(1)] by blast
  have "\<exists>cfg' w'. send_bytes hw i n ?cfg w1 = Some (Inr (), cfg', w') \<and> holding R Transmitter s' w' \<and>
      cfg' = ?cfg\<lparr>m_tx_count := m_tx_count cfg'\<rparr>"
    using Suc.prems(2-4) s1(2) by (intro Suc.IH[OF w1(2)]) (simp_all add: c1)
  with w1(1) Suc.prems(2) \<open>?c < length tx\<close> show ?case by auto
qed

lemma get_bytes_line:
  assumes d: "drives hw i sl R"
  shows "holding R Receiver s w \<Longrightarrow> m_rx_data cfg = Some rx \<Longrightarrow> unat (m_rx_count cfg) + n \<le> length rx \<Longrightarrow>
    unat (m_rx_count cfg) + n = unat (m_rx_length cfg) \<Longrightarrow> get_all sl n s = (bs, s') \<Longrightarrow>
    \<exists>cfg' w'. get_bytes hw i n cfg w = Some (Inr (), cfg', w') \<and> holding R Receiver s' w' \<and>
      m_rx_data cfg' = Some (take (unat (m_rx_count cfg)) rx @ bs @ drop (unat (m_rx_count cfg) + n) rx)"
proof (induction n arbitrary: cfg s w rx bs)
  case 0
  then show ?case by auto
next
  case (Suc n)
  let ?c = "unat (m_rx_count cfg)"
  let ?more = "m_rx_count cfg < m_rx_length cfg - 1"
  obtain b s1 bs1 where b: "sl_get sl s = (b, s1)" "get_all sl n s1 = (bs1, s')" "bs = b # bs1"
    using Suc.prems(5) by (auto split: prod.splits)
  let ?cfg = "cfg\<lparr>m_rx_data := Some (rx[?c := b]), m_rx_count := m_rx_count cfg + 1\<rparr>"
  have c1: "unat (m_rx_count cfg + 1) = ?c + 1"
    using Suc.prems(4) unsigned_less[of "m_rx_length cfg", where 'a = nat] by (subst unat_word_ariths) simp
  have cl: "?c < length rx" using Suc.prems(3) by simp
  obtain w1 where w1: "I2C_GetByte hw i ?more w = Some (if ?more then 0x50 else 0x58, b, w1)" "holding R Receiver s1 w1"
    using I2C_GetByte_line[OF d Suc.prems(1) b(1), of ?more] by blast
  have "\<exists>cfg' w'. get_bytes hw i n ?cfg w1 = Some (Inr (), cfg', w') \<and> holding R Receiver s' w' \<and>
      m_rx_data cfg' = Some (take (unat (m_rx_count ?cfg)) (rx[?c := b]) @ bs1 @ drop (unat (m_rx_count ?cfg) + n) (rx[?c := b]))"
    using Suc.prems(3,4) b(2) by (intro Suc.IH[OF w1(2)]) (simp_all add: c1)
  moreover have "take (Suc ?c) (rx[?c := b]) = take ?c rx @ [b]" using cl by (rule take_wr)
  ultimately show ?case using w1(1) Suc.prems(2) cl b(3) by (simp add: c1 wr_def)
qed

text \<open>
  The two transfers the board performs: a write, in which every byte is acknowledged, and a read.
  The first attempt succeeds.
\<close>

lemma write_attempt:
  assumes d: "drives hw i sl R" and r: "resting R s w"
    and cfg: "m_tx_data cfg = Some tx" "m_tx_length cfg = n" "0 < n" "unat n \<le> length tx" "m_rx_data cfg = None"
    and ack: "sl_address sl (ucast (push_bit 1 (sl_addr7bit cfg))) s = (True, s1)"
      "put_all sl (take (unat n) tx) s1 = Some s2"
  shows "\<exists>cfg' w'. attempt hw i cfg w = Some (Inr (), cfg', w') \<and> holding R Transmitter s2 w'"
proof -
  let ?cfg = "cfg\<lparr>m_tx_count := 0, m_rx_count := 0\<rparr>"
  let ?b = "ucast (push_bit 1 (sl_addr7bit cfg)) :: u8"
  obtain w1 where w1: "I2C_Start hw i w = Some (8, w1)" "holding R Addressing s w1" using I2C_Start_line[OF d r] by blast
  have "\<not> bit ?b 0" unfolding bit_unsigned_iff bit_push_bit_iff by simp
  then have "?b AND 1 = 0" by (intro bit_word_eqI) (auto simp: bit_and_iff bit_1_iff intro: gr0I)
  then obtain w2 where w2: "I2C_SendByte hw i ?b w1 = Some (0x18, w2)" "holding R Transmitter s1 w2"
    using send_address_line[OF d w1(2) ack(1)] by auto
  have "unat n < 2 ^ 32" using unsigned_less[of n, where 'a = nat] by simp
  then obtain cfg' w3 where w3: "send_bytes hw i (unat n) ?cfg w2 = Some (Inr (), cfg', w3)" "holding R Transmitter s2 w3"
      "cfg' = ?cfg\<lparr>m_tx_count := m_tx_count cfg'\<rparr>"
    using send_bytes_line[OF d w2(2), of ?cfg tx "unat n" s2] cfg ack(2) by auto
  have nr: "\<not> rx_wanted cfg'" using cfg(5) by (subst w3(3)) (simp add: rx_wanted_def)
  have "tx_wanted ?cfg" using cfg by (simp add: tx_wanted_def word_neq_0_conv)
  then have "send_phase hw i ?cfg w1 = Some (Inr (), cfg', w3)"
    using w2(1) w3(1) cfg by (simp add: send_phase_def)
  then show ?thesis
    using w1(1) w3(2) nr by (simp add: attempt_def start_failed_def restart_phase_def receive_phase_def)
qed

lemma read_attempt:
  assumes d: "drives hw i sl R" and r: "resting R s w"
    and cfg: "m_rx_data cfg = Some rx" "m_rx_length cfg = n" "0 < n" "unat n \<le> length rx" "m_tx_data cfg = None"
    and ack: "sl_address sl (ucast (push_bit 1 (sl_addr7bit cfg) OR 1)) s = (True, s1)"
      "get_all sl (unat n) s1 = (bs, s2)"
  shows "\<exists>cfg' w'. attempt hw i cfg w = Some (Inr (), cfg', w') \<and> holding R Receiver s2 w' \<and>
    m_rx_data cfg' = Some (bs @ drop (unat n) rx)"
proof -
  let ?cfg = "cfg\<lparr>m_tx_count := 0, m_rx_count := 0\<rparr>"
  let ?b = "ucast (push_bit 1 (sl_addr7bit cfg) OR 1) :: u8"
  obtain w1 where w1: "I2C_Start hw i w = Some (8, w1)" "holding R Addressing s w1" using I2C_Start_line[OF d r] by blast
  have "bit (?b AND 1) 0" by (simp add: bit_simps)
  then have "?b AND 1 \<noteq> 0" by auto
  then obtain w2 where w2: "I2C_SendByte hw i ?b w1 = Some (0x40, w2)" "holding R Receiver s1 w2"
    using send_address_line[OF d w1(2) ack(1)] by auto
  obtain cfg' w3 where w3: "get_bytes hw i (unat n) ?cfg w2 = Some (Inr (), cfg', w3)" "holding R Receiver s2 w3"
      "m_rx_data cfg' = Some (bs @ drop (unat n) rx)"
    using get_bytes_line[OF d w2(2), of ?cfg rx "unat n" bs s2] cfg ack(2) by auto
  have "rx_wanted ?cfg" "\<not> tx_wanted ?cfg" using cfg by (simp_all add: rx_wanted_def tx_wanted_def word_neq_0_conv)
  then show ?thesis
    using w1(1) w2(1) w3 cfg by (simp add: attempt_def start_failed_def send_phase_def restart_phase_def receive_phase_def)
qed

lemma poll_success:
  "attempt hw i cfg w = Some (Inr (), cfg', w') \<Longrightarrow> poll_transfer hw i cfg w = Some (SUCCESS, cfg', I2C_Stop hw i w')"
  by (subst poll_transfer.simps) simp

lemma master_write:
  assumes d: "drives hw i sl R" and r: "resting R s (i_bus dr)"
    and cfg: "m_tx_data cfg = Some tx" "m_tx_length cfg = n" "0 < n" "unat n \<le> length tx" "m_rx_data cfg = None"
    and ack: "sl_address sl (ucast (push_bit 1 (sl_addr7bit cfg))) s = (True, s1)"
      "put_all sl (take (unat n) tx) s1 = Some s2"
  shows "\<exists>cfg' w'. I2C_MasterTransferData hw i cfg I2C_TRANSFER_POLLING dr = Some (SUCCESS, cfg', dr\<lparr>i_bus := w'\<rparr>) \<and>
    resting R (sl_stop sl s2) w'"
proof -
  let ?cfg = "cfg\<lparr>m_tx_count := 0, m_rx_count := 0, m_status := 0, retransmissions_count := 0\<rparr>"
  obtain cfg' w' where a: "attempt hw i ?cfg (i_bus dr) = Some (Inr (), cfg', w')" "holding R Transmitter s2 w'"
    using write_attempt[OF d r, of ?cfg tx n s1 s2] cfg ack by auto
  have "resting R (sl_stop sl s2) (I2C_Stop hw i w')" by (rule I2C_Stop_line[OF d a(2)]) simp
  then show ?thesis using poll_success[OF a(1)] by (auto simp: I2C_MasterTransferData_def)
qed

lemma master_read:
  assumes d: "drives hw i sl R" and r: "resting R s (i_bus dr)"
    and cfg: "m_rx_data cfg = Some rx" "m_rx_length cfg = n" "0 < n" "unat n \<le> length rx" "m_tx_data cfg = None"
    and ack: "sl_address sl (ucast (push_bit 1 (sl_addr7bit cfg) OR 1)) s = (True, s1)"
      "get_all sl (unat n) s1 = (bs, s2)"
  shows "\<exists>cfg' w'. I2C_MasterTransferData hw i cfg I2C_TRANSFER_POLLING dr = Some (SUCCESS, cfg', dr\<lparr>i_bus := w'\<rparr>) \<and>
    resting R (sl_stop sl s2) w' \<and> m_rx_data cfg' = Some (bs @ drop (unat n) rx)"
proof -
  let ?cfg = "cfg\<lparr>m_tx_count := 0, m_rx_count := 0, m_status := 0, retransmissions_count := 0\<rparr>"
  obtain cfg' w' where a: "attempt hw i ?cfg (i_bus dr) = Some (Inr (), cfg', w')" "holding R Receiver s2 w'"
      "m_rx_data cfg' = Some (bs @ drop (unat n) rx)"
    using read_attempt[OF d r, of ?cfg rx n s1 bs s2] cfg ack by auto
  have "resting R (sl_stop sl s2) (I2C_Stop hw i w')" by (rule I2C_Stop_line[OF d a(2)]) simp
  then show ?thesis using poll_success[OF a(1)] a(3) by (auto simp: I2C_MasterTransferData_def)
qed
end
