(* ===== verification/Eeprom.thy ===== *)
theory Eeprom
  imports I2cDriver
begin

unbundle bit_operations_syntax

text \<open>
  The EEPROM driver \<^verbatim>\<open>Lib_Board/src/eeprom.c\<close> on the polled I2C master. The hardware \<open>hw\<close> and the
  effect \<open>elapse n\<close> of the time that an empty loop of \<open>n\<close> iterations takes are parameters. The two
  memories the board may carry are described in the second half as slaves of \<open>I2cDriver\<close>, with the
  page-wise writes and the write cycle of their data sheets. Shown: writing and reading back through the
  driver is the identity, and a write changes no other byte, because the driver cuts the data at the
  page boundaries of the memory; and the detection of the memory with an EUI-48.
\<close>

section \<open>Driver\<close>

record 'w eeprom_drv =
  eeprom_total_size :: u32
  eeprom_page_size :: u32
  eeprom_24aa02e48t :: bool
  e_i2c :: "'w i2c_drv"

abbreviation (input) EEPROM_I2C_ADDR :: u8 where "EEPROM_I2C_ADDR \<equiv> 0x50"
abbreviation (input) EEPROM_24AA_TOTAL_SIZE :: u32 where "EEPROM_24AA_TOTAL_SIZE \<equiv> 128"
abbreviation (input) EEPROM_24AA_PAGE_SIZE :: u32 where "EEPROM_24AA_PAGE_SIZE \<equiv> 8"
abbreviation (input) EEPROM_24LC_TOTAL_SIZE :: u32 where "EEPROM_24LC_TOTAL_SIZE \<equiv> 4096"
abbreviation (input) EEPROM_24LC_PAGE_SIZE :: u32 where "EEPROM_24LC_PAGE_SIZE \<equiv> 32"

definition eui48_org_id :: "u8 list" where
  "eui48_org_id = [0x00, 0x04, 0xa3]"

definition eepromDelay :: "(nat \<Rightarrow> 'w \<Rightarrow> 'w) \<Rightarrow> 'w i2c_drv \<Rightarrow> 'w i2c_drv" where
  "eepromDelay elapse d = on_bus (elapse 0x20000) d"

text \<open>The members of the transfer description that are not assigned are those of \<open>x0\<close>.\<close>

definition I2CRead :: "'w I2C_M_SETUP_Type \<Rightarrow> 'w i2c_regs \<Rightarrow> u8 \<Rightarrow> u8 list \<Rightarrow> u32 \<Rightarrow> 'w i2c_drv \<Rightarrow>
    (int \<times> u8 list \<times> 'w i2c_drv) option" where
  "I2CRead x0 hw addr buf len d = do {
     let rxsetup = x0\<lparr>sl_addr7bit := ucast addr, m_tx_data := None, m_tx_length := 0,
           m_rx_data := Some buf, m_rx_length := len, retransmissions_max := 3\<rparr>;
     (r, cfg, d1) \<leftarrow> I2C_MasterTransferData hw I2C0 rxsetup I2C_TRANSFER_POLLING d;
     buf' \<leftarrow> m_rx_data cfg;
     Some (if r = SUCCESS then 0 else -1, buf', d1) }"

definition I2CWrite :: "'w I2C_M_SETUP_Type \<Rightarrow> 'w i2c_regs \<Rightarrow> u8 \<Rightarrow> u8 list \<Rightarrow> u32 \<Rightarrow> 'w i2c_drv \<Rightarrow>
    (int \<times> 'w i2c_drv) option" where
  "I2CWrite x0 hw addr buf len d = do {
     let txsetup = x0\<lparr>sl_addr7bit := ucast addr, m_tx_data := Some buf, m_tx_length := len,
           m_rx_data := None, m_rx_length := 0, retransmissions_max := 3\<rparr>;
     (r, _, d1) \<leftarrow> I2C_MasterTransferData hw I2C0 txsetup I2C_TRANSFER_POLLING d;
     Some (if r = SUCCESS then 0 else -1, d1) }"

text \<open>The address bytes that precede the data; \<open>a\<close> is the array they are stored in.\<close>

definition put_offset :: "bool \<Rightarrow> u16 \<Rightarrow> u8 list \<Rightarrow> u8 list option" where
  "put_offset is24aa off a =
     (if is24aa then wr a 0 (ucast (off AND 0xff))
      else do { a1 \<leftarrow> wr a 0 (ucast (drop_bit 8 off AND 0xff)); wr a1 1 (ucast (off AND 0xff)) })"

definition offset_len :: "bool \<Rightarrow> nat" where
  "offset_len is24aa = (if is24aa then 1 else 2)"

definition out_of_range :: "u16 \<Rightarrow> u16 \<Rightarrow> 'w eeprom_drv \<Rightarrow> bool" where
  "out_of_range offset len e \<longleftrightarrow>
     ucast len > eeprom_total_size e \<or> ucast offset + ucast len > eeprom_total_size e"

definition eeprom_read :: "'w I2C_M_SETUP_Type \<Rightarrow> 'w i2c_regs \<Rightarrow> (nat \<Rightarrow> 'w \<Rightarrow> 'w) \<Rightarrow> u8 list \<Rightarrow>
    u8 list \<Rightarrow> u16 \<Rightarrow> u16 \<Rightarrow> 'w eeprom_drv \<Rightarrow> (int \<times> u8 list \<times> 'w eeprom_drv) option" where
  "eeprom_read x0 hw elapse off0 buf offset len e =
     (if out_of_range offset len e then Some (-1, buf, e)
      else do {
        off \<leftarrow> put_offset (eeprom_24aa02e48t e) offset off0;
        (_, d1) \<leftarrow> I2CWrite x0 hw EEPROM_I2C_ADDR off (word_of_nat (offset_len (eeprom_24aa02e48t e))) (e_i2c e);
        let d2 = on_bus (elapse 0x2000) d1;
        (_, buf', d3) \<leftarrow> I2CRead x0 hw EEPROM_I2C_ADDR buf (ucast len) d2;
        Some (sint len, buf', e\<lparr>e_i2c := d3\<rparr>) })"

text \<open>\<^verbatim>\<open>memcpy(&dst[k], &src[pos], n)\<close> within the arrays.\<close>

definition copy_at :: "u8 list \<Rightarrow> nat \<Rightarrow> u8 list \<Rightarrow> nat \<Rightarrow> nat \<Rightarrow> u8 list option" where
  "copy_at dst k src pos n =
     (if k + n \<le> length dst \<and> pos + n \<le> length src
      then Some (take k dst @ take n (drop pos src) @ drop (k + n) dst) else None)"

text \<open>The loop of \<^verbatim>\<open>eeprom_write\<close>; it does not end when \<open>wLen\<close> is 0 and bytes are left.\<close>

partial_function (option) write_loop :: "'w I2C_M_SETUP_Type \<Rightarrow> 'w i2c_regs \<Rightarrow> (nat \<Rightarrow> 'w \<Rightarrow> 'w) \<Rightarrow> u8 list \<Rightarrow>
    u8 list \<Rightarrow> u16 \<Rightarrow> u16 \<Rightarrow> u16 \<Rightarrow> u16 \<Rightarrow> 'w eeprom_drv \<Rightarrow> (int \<times> 'w eeprom_drv) option" where [code]:
  "write_loop x0 hw elapse buf tmp off len written wLen e =
     (if len = 0 then Some (sint written, e)
      else if sint written < 0 then None
      else let k = offset_len (eeprom_24aa02e48t e) in
        Option.bind (put_offset (eeprom_24aa02e48t e) off tmp) (\<lambda>tmp1.
        Option.bind (copy_at tmp1 k buf (unat written) (unat wLen)) (\<lambda>tmp2.
        Option.bind (I2CWrite x0 hw EEPROM_I2C_ADDR tmp2 (ucast wLen + word_of_nat k) (e_i2c e)) (\<lambda>(_, d1).
        let e1 = e\<lparr>e_i2c := eepromDelay elapse d1\<rparr>;
            len1 = len - wLen
        in write_loop x0 hw elapse buf tmp2 (off + wLen) len1 (written + wLen)
             (if eeprom_page_size e1 < ucast len1 then ucast (eeprom_page_size e1) else len1) e1))))"

definition eeprom_write :: "'w I2C_M_SETUP_Type \<Rightarrow> (nat \<Rightarrow> u8) \<Rightarrow> 'w i2c_regs \<Rightarrow> (nat \<Rightarrow> 'w \<Rightarrow> 'w) \<Rightarrow>
    u8 list \<Rightarrow> u16 \<Rightarrow> u16 \<Rightarrow> 'w eeprom_drv \<Rightarrow> (int \<times> 'w eeprom_drv) option" where
  "eeprom_write x0 tmp0 hw elapse buf offset len e =
     (if out_of_range offset len e then Some (-1, e)
      else if eeprom_page_size e = 0 then None
      else let w0 = ucast (eeprom_page_size e - ucast offset mod eeprom_page_size e) :: u16;
               wLen = (if w0 < len then w0 else len)
           in write_loop x0 hw elapse buf (map tmp0 [0..<unat (eeprom_page_size e + 2)]) offset len 0 wLen e)"

definition eeprom_readEui48 :: "'w I2C_M_SETUP_Type \<Rightarrow> 'w i2c_regs \<Rightarrow> (nat \<Rightarrow> 'w \<Rightarrow> 'w) \<Rightarrow> u8 list \<Rightarrow>
    'w eeprom_drv \<Rightarrow> (bool \<times> u8 list \<times> 'w eeprom_drv) option" where
  "eeprom_readEui48 x0 hw elapse buf e = do {
     (_, d1) \<leftarrow> I2CWrite x0 hw EEPROM_I2C_ADDR [0xFA] 1 (e_i2c e);
     let d2 = on_bus (elapse 0x2000) d1;
     (_, buf', d3) \<leftarrow> I2CRead x0 hw EEPROM_I2C_ADDR buf 6 d2;
     Some (take 3 buf' = eui48_org_id, buf', e\<lparr>e_i2c := d3\<rparr>) }"

definition eeprom_init :: "'w I2C_M_SETUP_Type \<Rightarrow> 'w i2c_regs \<Rightarrow> (nat \<Rightarrow> 'w \<Rightarrow> 'w) \<Rightarrow> u8 list \<Rightarrow>
    'w eeprom_drv \<Rightarrow> 'w eeprom_drv option" where
  "eeprom_init x0 hw elapse eui0 e = do {
     (euiOk, _, e1) \<leftarrow> eeprom_readEui48 x0 hw elapse eui0 e;
     let e2 = (if euiOk then e1\<lparr>eeprom_24aa02e48t := True\<rparr> else e1);
     Some (if eeprom_24aa02e48t e2
       then e2\<lparr>eeprom_total_size := EEPROM_24AA_TOTAL_SIZE, eeprom_page_size := EEPROM_24AA_PAGE_SIZE\<rparr>
       else e2\<lparr>eeprom_total_size := EEPROM_24LC_TOTAL_SIZE, eeprom_page_size := EEPROM_24LC_PAGE_SIZE\<rparr>) }"

section \<open>The memories\<close>

text \<open>
  The 24AA02E48 has one address byte, pages of 8 bytes and a write-protected upper half; the 24LC32A two
  address bytes and pages of 32 bytes. A write collects bytes until the stop condition; data bytes are
  then stored from the address on, wrapping to the start of the page at its end, and the memory does not
  acknowledge its address during the write cycle. A write without data bytes sets the address of the
  next read.
\<close>

record chip_type =
  ct_abytes :: nat
  ct_page :: nat
  ct_size :: nat
  ct_writable :: nat

record chip =
  c_mem :: "u8 list"
  c_ptr :: nat
  c_in :: "u8 list"
  c_busy :: bool

definition M24AA02E48 :: chip_type where
  "M24AA02E48 = \<lparr>ct_abytes = 1, ct_page = 8, ct_size = 256, ct_writable = 128\<rparr>"

definition M24LC32 :: chip_type where
  "M24LC32 = \<lparr>ct_abytes = 2, ct_page = 32, ct_size = 4096, ct_writable = 4096\<rparr>"

definition page_next :: "chip_type \<Rightarrow> nat \<Rightarrow> nat" where
  "page_next ct a = (if (a + 1) mod ct_page ct = 0 then a + 1 - ct_page ct else a + 1)"

fun page_write :: "chip_type \<Rightarrow> nat \<Rightarrow> u8 list \<Rightarrow> u8 list \<Rightarrow> u8 list" where
  "page_write ct a [] mem = mem"
| "page_write ct a (d # ds) mem =
     page_write ct (page_next ct a) ds (if a < ct_writable ct then mem[a := d] else mem)"

definition chip_addr :: "chip_type \<Rightarrow> u8 list \<Rightarrow> nat" where
  "chip_addr ct bs = foldl (\<lambda>a b. 256 * a + unat b) 0 (take (ct_abytes ct) bs) mod ct_size ct"

definition chip_stop :: "chip_type \<Rightarrow> chip \<Rightarrow> chip" where
  "chip_stop ct c =
     (if length (c_in c) < ct_abytes ct then c\<lparr>c_in := []\<rparr>
      else let a = chip_addr ct (c_in c); ds = drop (ct_abytes ct) (c_in c)
           in c\<lparr>c_mem := page_write ct a ds (c_mem c), c_ptr := (page_next ct ^^ length ds) a, c_in := [],
                c_busy := ds \<noteq> []\<rparr>)"

definition chip_slave :: "chip_type \<Rightarrow> chip i2c_slave" where
  "chip_slave ct = \<lparr>
     sl_address = (\<lambda>b c. if c_busy c \<or> drop_bit 1 b \<noteq> 0x50 then (False, c) else (True, c\<lparr>c_in := []\<rparr>)),
     sl_put = (\<lambda>b c. (True, c\<lparr>c_in := c_in c @ [b]\<rparr>)),
     sl_get = (\<lambda>c. (c_mem c ! c_ptr c, c\<lparr>c_ptr := (c_ptr c + 1) mod ct_size ct\<rparr>)),
     sl_stop = chip_stop ct\<rparr>"

text \<open>The write cycle is over after the delay loop; time alone changes nothing else.\<close>

definition cycle_ends :: "(nat \<Rightarrow> 'w \<Rightarrow> 'w) \<Rightarrow> ('w \<Rightarrow> chip i2c_line \<Rightarrow> bool) \<Rightarrow> bool" where
  "cycle_ends elapse R \<longleftrightarrow>
     (\<forall>w c n. resting R c w \<longrightarrow> \<not> c_busy c \<or> n \<ge> 0x20000 \<longrightarrow> resting R (c\<lparr>c_busy := False\<rparr>) (elapse n w))"

text \<open>The configuration of the driver is the one of the memory on the board.\<close>

definition configured :: "chip_type \<Rightarrow> 'w eeprom_drv \<Rightarrow> bool" where
  "configured ct e \<longleftrightarrow>
     (if eeprom_24aa02e48t e
      then ct = M24AA02E48 \<and> eeprom_total_size e = EEPROM_24AA_TOTAL_SIZE \<and> eeprom_page_size e = EEPROM_24AA_PAGE_SIZE
      else ct = M24LC32 \<and> eeprom_total_size e = EEPROM_24LC_TOTAL_SIZE \<and> eeprom_page_size e = EEPROM_24LC_PAGE_SIZE)"

section \<open>Transfers to a memory\<close>

definition present :: "chip_type \<Rightarrow> ('w \<Rightarrow> chip i2c_line \<Rightarrow> bool) \<Rightarrow> chip \<Rightarrow> 'w \<Rightarrow> bool" where
  "present ct R c w \<longleftrightarrow> resting R c w \<and> \<not> c_busy c \<and> length (c_mem c) = ct_size ct"

definition overwrite :: "nat \<Rightarrow> 'a list \<Rightarrow> 'a list \<Rightarrow> 'a list" where
  "overwrite a ds mem = take a mem @ ds @ drop (a + length ds) mem"

lemma length_overwrite [simp]: "a + length ds \<le> length mem \<Longrightarrow> length (overwrite a ds mem) = length mem"
  by (simp add: overwrite_def)

lemma overwrite_Nil [simp]: "overwrite a [] mem = mem"
  by (simp add: overwrite_def)

lemma overwrite_Cons:
  "a + length (d # ds) \<le> length mem \<Longrightarrow> overwrite (a + 1) ds (mem[a := d]) = overwrite a (d # ds) mem"
  by (simp add: overwrite_def take_wr)

lemma overwrite_append:
  "a + length xs + length ys \<le> length mem \<Longrightarrow>
    overwrite (a + length xs) ys (overwrite a xs mem) = overwrite a (xs @ ys) mem"
  by (cases xs) (auto simp: overwrite_def min_def ac_simps)

lemma take_drop_overwrite: "a \<le> length mem \<Longrightarrow> take (length ds) (drop a (overwrite a ds mem)) = ds"
  by (simp add: overwrite_def)

text \<open>Inside a page a write stores the bytes one after the other.\<close>

lemma page_write_inside:
  "a mod ct_page ct + length ds \<le> ct_page ct \<Longrightarrow> a + length ds \<le> ct_writable ct \<Longrightarrow> a + length ds \<le> length mem \<Longrightarrow>
    page_write ct a ds mem = overwrite a ds mem"
proof (induction ds arbitrary: a mem)
  case Nil
  then show ?case by simp
next
  case (Cons d ds)
  show ?case
  proof (cases ds)
    case Nil
    then show ?thesis using Cons.prems overwrite_Cons[of a d "[]" mem] by simp
  next
    case (Cons d' ds')
    then have m: "a mod ct_page ct + 1 < ct_page ct" using Cons.prems(1) by simp
    then have "(a + 1) mod ct_page ct = a mod ct_page ct + 1" by (simp add: mod_Suc)
    then show ?thesis
      using Cons.prems Cons.IH[of "a + 1" "mem[a := d]"] m overwrite_Cons[of a d ds mem] by (simp add: page_next_def)
  qed
qed

lemma put_all_chip: "put_all (chip_slave ct) bs c = Some (c\<lparr>c_in := c_in c @ bs\<rparr>)"
  by (induction bs arbitrary: c) (simp_all add: chip_slave_def)

lemma get_all_chip:
  "c_ptr c + n \<le> ct_size ct \<Longrightarrow> length (c_mem c) = ct_size ct \<Longrightarrow>
    \<exists>p. get_all (chip_slave ct) n c = (take n (drop (c_ptr c) (c_mem c)), c\<lparr>c_ptr := p\<rparr>)"
proof (induction n arbitrary: c)
  case 0
  then show ?case by (auto intro: exI[of _ "c_ptr c"])
next
  case (Suc n)
  let ?c = "c\<lparr>c_ptr := (c_ptr c + 1) mod ct_size ct\<rparr>"
  have g: "sl_get (chip_slave ct) c = (c_mem c ! c_ptr c, ?c)" by (simp add: chip_slave_def)
  have dr: "drop (c_ptr c) (c_mem c) = c_mem c ! c_ptr c # drop (c_ptr c + 1) (c_mem c)"
    using Suc.prems by (simp add: Cons_nth_drop_Suc)
  show ?case
  proof (cases "n = 0")
    case True
    then show ?thesis using g dr by auto
  next
    case False
    then have "(c_ptr c + 1) mod ct_size ct = c_ptr c + 1" using Suc.prems(1) by simp
    then obtain p where "get_all (chip_slave ct) n ?c = (take n (drop (c_ptr c + 1) (c_mem c)), ?c\<lparr>c_ptr := p\<rparr>)"
      using Suc.IH[of ?c] Suc.prems by auto
    then show ?thesis using g dr by auto
  qed
qed

lemma chip_address_ack:
  "\<not> c_busy c \<Longrightarrow> sl_address (chip_slave ct) 0xA0 c = (True, c\<lparr>c_in := []\<rparr>)"
  "\<not> c_busy c \<Longrightarrow> sl_address (chip_slave ct) 0xA1 c = (True, c\<lparr>c_in := []\<rparr>)"
  by (simp_all add: chip_slave_def)

lemma I2CWrite_chip:
  assumes "drives hw I2C0 (chip_slave ct) R" "present ct R c (i_bus d)" "0 < n" "unat n \<le> length buf"
  shows "\<exists>w'. I2CWrite x0 hw EEPROM_I2C_ADDR buf n d = Some (0, d\<lparr>i_bus := w'\<rparr>) \<and>
    resting R (chip_stop ct (c\<lparr>c_in := take (unat n) buf\<rparr>)) w'"
proof -
  let ?cfg = "x0\<lparr>sl_addr7bit := ucast EEPROM_I2C_ADDR, m_tx_data := Some buf, m_tx_length := n,
    m_rx_data := None, m_rx_length := 0, retransmissions_max := 3\<rparr>"
  have c: "resting R c (i_bus d)" "\<not> c_busy c" using assms(2) by (simp_all add: present_def)
  have "\<exists>cfg' w'. I2C_MasterTransferData hw I2C0 ?cfg I2C_TRANSFER_POLLING d = Some (SUCCESS, cfg', d\<lparr>i_bus := w'\<rparr>) \<and>
    resting R (sl_stop (chip_slave ct) (c\<lparr>c_in := take (unat n) buf\<rparr>)) w'"
    by (rule master_write[OF assms(1) c(1), where tx = buf and n = n and ?s1.0 = "c\<lparr>c_in := []\<rparr>"])
      (use assms(3,4) chip_address_ack(1)[OF c(2)] in \<open>simp_all add: put_all_chip\<close>)
  then show ?thesis by (auto simp: I2CWrite_def chip_slave_def)
qed

lemma I2CRead_chip:
  assumes "drives hw I2C0 (chip_slave ct) R" "present ct R c (i_bus d)" "0 < n" "unat n \<le> length buf"
    and "c_ptr c + unat n \<le> ct_size ct" "0 < ct_abytes ct"
  shows "\<exists>w' p. I2CRead x0 hw EEPROM_I2C_ADDR buf n d =
      Some (0, take (unat n) (drop (c_ptr c) (c_mem c)) @ drop (unat n) buf, d\<lparr>i_bus := w'\<rparr>) \<and>
    present ct R (c\<lparr>c_ptr := p, c_in := []\<rparr>) w'"
proof -
  let ?cfg = "x0\<lparr>sl_addr7bit := ucast EEPROM_I2C_ADDR, m_tx_data := None, m_tx_length := 0,
    m_rx_data := Some buf, m_rx_length := n, retransmissions_max := 3\<rparr>"
  have c: "resting R c (i_bus d)" "\<not> c_busy c" "length (c_mem c) = ct_size ct" using assms(2) by (simp_all add: present_def)
  obtain p where p: "get_all (chip_slave ct) (unat n) (c\<lparr>c_in := []\<rparr>) =
      (take (unat n) (drop (c_ptr c) (c_mem c)), c\<lparr>c_in := [], c_ptr := p\<rparr>)"
    using get_all_chip[of "c\<lparr>c_in := []\<rparr>" "unat n" ct] assms(5) c(3) by auto
  have "\<exists>cfg' w'. I2C_MasterTransferData hw I2C0 ?cfg I2C_TRANSFER_POLLING d = Some (SUCCESS, cfg', d\<lparr>i_bus := w'\<rparr>) \<and>
    resting R (sl_stop (chip_slave ct) (c\<lparr>c_in := [], c_ptr := p\<rparr>)) w' \<and>
    m_rx_data cfg' = Some (take (unat n) (drop (c_ptr c) (c_mem c)) @ drop (unat n) buf)"
    by (rule master_read[OF assms(1) c(1), where rx = buf and n = n and ?s1.0 = "c\<lparr>c_in := []\<rparr>"])
      (use assms(3,4) chip_address_ack(2)[OF c(2)] p in simp_all)
  moreover have "sl_stop (chip_slave ct) (c\<lparr>c_in := [], c_ptr := p\<rparr>) = c\<lparr>c_ptr := p, c_in := []\<rparr>"
    using assms(6) by (simp add: chip_slave_def chip_stop_def)
  ultimately show ?thesis using c by (auto simp: I2CRead_def present_def)
qed

lemma elapse_present:
  "cycle_ends elapse R \<Longrightarrow> resting R c w \<Longrightarrow> \<not> c_busy c \<or> n \<ge> 0x20000 \<Longrightarrow> length (c_mem c) = ct_size ct \<Longrightarrow>
    present ct R (c\<lparr>c_busy := False\<rparr>) (elapse n w)"
  by (simp add: cycle_ends_def present_def)

section \<open>Writing and reading back\<close>

lemma unat_byte_of: "unat (ucast (x AND 0xff) :: u8) = unat (x :: u16) mod 256"
proof -
  have "(ucast (x AND 0xff) :: u8) = ucast x" unfolding mask_numerals by (intro bit_word_eqI) (auto simp: bit_simps)
  then show ?thesis by (simp add: unsigned_ucast_eq take_bit_eq_mod)
qed

lemma unat_of_nat_u32: "n < 2 ^ 32 \<Longrightarrow> unat (word_of_nat n :: u32) = n"
  by (simp add: unat_of_nat take_bit_nat_eq_self)

lemma unat_drop_bit_8: "unat (drop_bit 8 (x :: u16)) = unat x div 256"
  by (simp add: unat_div drop_bit_eq_div)

lemma put_offset_addr:
  assumes "configured ct e" "offset_len (eeprom_24aa02e48t e) \<le> length a" "unat off < ct_size ct"
  shows "\<exists>a1. put_offset (eeprom_24aa02e48t e) off a = Some a1 \<and> length a1 = length a \<and>
    chip_addr ct (take (offset_len (eeprom_24aa02e48t e)) a1 @ ds) = unat off"
proof (cases "eeprom_24aa02e48t e")
  case True
  then have "ct = M24AA02E48" "0 < length a" using assms by (auto simp: configured_def offset_len_def)
  then show ?thesis using True assms(3)
    by (simp add: put_offset_def offset_len_def chip_addr_def M24AA02E48_def take_Suc unat_byte_of)
      (cases a; simp add: unat_byte_of)
next
  case False
  then have ct: "ct = M24LC32" "Suc 0 < length a" using assms by (auto simp: configured_def offset_len_def split: if_splits)
  then obtain x y zs where "a = x # y # zs" by (cases a; cases "tl a") auto
  moreover have "256 * (unat off div 256 mod 256) + unat off mod 256 = unat off"
    using assms(3) ct(1) by (simp add: M24LC32_def)
  ultimately show ?thesis using False assms(3) ct(1)
    by (simp add: put_offset_def offset_len_def chip_addr_def M24LC32_def wr_def unat_byte_of unat_drop_bit_8 numeral_2_eq_2)
qed

lemma configured_facts:
  assumes "configured ct e"
  shows "ct_abytes ct = offset_len (eeprom_24aa02e48t e)" "ct_page ct = unat (eeprom_page_size e)"
    "ct_writable ct = unat (eeprom_total_size e)" "unat (eeprom_total_size e) \<le> ct_size ct"
    "unat (eeprom_total_size e) \<le> 4096" "0 < unat (eeprom_page_size e)" "unat (eeprom_page_size e) \<le> 32"
    "0 < offset_len (eeprom_24aa02e48t e)" "offset_len (eeprom_24aa02e48t e) \<le> 2"
    "unat (eeprom_page_size e) dvd unat (eeprom_total_size e)"
  using assms by (auto simp: configured_def M24AA02E48_def M24LC32_def offset_len_def split: if_splits)

text \<open>One pass of the loop: a piece that lies inside a page reaches the memory unchanged.\<close>

lemma write_piece:
  fixes wLen :: u16
  assumes d: "drives hw I2C0 (chip_slave ct) R" and el: "cycle_ends elapse R" and cf: "configured ct e"
    and pr: "present ct R c (i_bus (e_i2c e))"
    and tmp: "length tmp = unat (eeprom_page_size e) + 2"
    and pg: "unat off mod unat (eeprom_page_size e) + unat wLen \<le> unat (eeprom_page_size e)" "0 < wLen"
    and fit: "unat off + unat wLen \<le> unat (eeprom_total_size e)" "pos + unat wLen \<le> length buf"
  shows "\<exists>tmp1 tmp2 w' c'. put_offset (eeprom_24aa02e48t e) off tmp = Some tmp1 \<and>
    copy_at tmp1 (offset_len (eeprom_24aa02e48t e)) buf pos (unat wLen) = Some tmp2 \<and> length tmp2 = length tmp \<and>
    I2CWrite x0 hw EEPROM_I2C_ADDR tmp2 (ucast wLen + word_of_nat (offset_len (eeprom_24aa02e48t e))) (e_i2c e) =
      Some (0, (e_i2c e)\<lparr>i_bus := w'\<rparr>) \<and>
    present ct R c' (elapse 0x20000 w') \<and>
    c_mem c' = overwrite (unat off) (take (unat wLen) (drop pos buf)) (c_mem c)"
proof -
  let ?k = "offset_len (eeprom_24aa02e48t e)" and ?ds = "take (unat wLen) (drop pos buf)"
  note f = configured_facts[OF cf]
  have w0: "0 < unat wLen" using pg(2) by (simp add: word_less_nat_alt)
  have lds: "length ?ds = unat wLen" using fit(2) by simp
  obtain tmp1 where t1: "put_offset (eeprom_24aa02e48t e) off tmp = Some tmp1" "length tmp1 = length tmp"
      "chip_addr ct (take ?k tmp1 @ ?ds) = unat off"
    using put_offset_addr[OF cf, of tmp off ?ds] tmp f(4,9) fit(1) w0 by auto
  let ?t2 = "take ?k tmp1 @ ?ds @ drop (?k + unat wLen) tmp1"
  have t2: "copy_at tmp1 ?k buf pos (unat wLen) = Some ?t2" "length ?t2 = length tmp"
    using t1(2) tmp pg(1) f(9) fit(2) by (simp_all add: copy_at_def)
  let ?n = "ucast wLen + word_of_nat ?k :: u32"
  have n: "unat ?n = unat wLen + ?k"
  proof -
    have "?n = word_of_nat (unat wLen + ?k)" by (simp add: unsigned_ucast_eq)
    moreover have "unat wLen + ?k < 2 ^ 32" using f(7,9) pg(1) by simp
    ultimately show ?thesis by (simp only: unat_of_nat_u32)
  qed
  have "0 < ?n" using n w0 by (simp add: word_less_nat_alt)
  moreover have "unat ?n \<le> length ?t2" unfolding n t2(2) tmp using pg(1) f(9) by linarith
  ultimately obtain w' where w': "I2CWrite x0 hw EEPROM_I2C_ADDR ?t2 ?n (e_i2c e) = Some (0, (e_i2c e)\<lparr>i_bus := w'\<rparr>)"
      "resting R (chip_stop ct (c\<lparr>c_in := take (unat ?n) ?t2\<rparr>)) w'"
    using I2CWrite_chip[OF d pr, of ?n ?t2 x0] by blast
  have "length (take ?k tmp1 @ ?ds) = unat ?n" using n lds t1(2) tmp f(9) by simp
  then have tk: "take (unat ?n) ?t2 = take ?k tmp1 @ ?ds" by (metis append_assoc append_eq_conv_conj)
  have lm: "length (c_mem c) = ct_size ct" using pr by (simp add: present_def)
  have dk: "drop ?k (take ?k tmp1 @ ?ds) = ?ds" using t1(2) tmp f(9) by simp
  let ?c = "chip_stop ct (c\<lparr>c_in := take ?k tmp1 @ ?ds\<rparr>)"
  have "page_write ct (unat off) ?ds (c_mem c) = overwrite (unat off) ?ds (c_mem c)"
    using pg(1) fit(1) lds lm f(2-4) by (intro page_write_inside) simp_all
  then have m: "c_mem ?c = overwrite (unat off) ?ds (c_mem c)"
    using t1(2,3) tmp dk f(1,9) by (simp add: chip_stop_def Let_def)
  have "present ct R (?c\<lparr>c_busy := False\<rparr>) (elapse 0x20000 w')"
    using w'(2) lm fit(1) f(4) lds unfolding tk by (intro elapse_present[OF el]) (simp_all add: m)
  then show ?thesis using t1(1) t2 w'(1) m by (intro exI[of _ tmp1] exI[of _ ?t2] exI[of _ w']) auto
qed

lemma sint_small: "unat (x :: u16) < 32768 \<Longrightarrow> sint x = int (unat x)"
proof -
  assume "unat x < 32768"
  then have "int (unat x) < 32768" by linarith
  then have "uint x < 32768" by simp
  then have "signed_take_bit 15 (uint x) = uint x" by (intro signed_take_bit_int_eq_self) (auto intro: order_trans[OF _ uint_ge_0])
  then show ?thesis by (simp add: sint_uint)
qed

lemma unat_add_small: "unat x + unat y < 65536 \<Longrightarrow> unat (x + y :: u16) = unat x + unat y"
  by (simp add: unat_word_ariths)

lemma unat_ucast_u32: "unat (ucast (x :: u16) :: u32) = unat x"
  by (simp add: unsigned_ucast_eq take_bit_nat_eq_self less_trans[OF unat_u16_lt])

lemma min_page:
  fixes P :: u32 and n :: u16
  assumes "unat P \<le> 32"
  shows "unat (if P < ucast n then ucast P else n) = min (unat P) (unat n)"
proof -
  have "unat (ucast P :: u16) = unat P" using assms by (simp add: unsigned_ucast_eq take_bit_nat_eq_self)
  then show ?thesis by (simp add: word_less_nat_alt min_def unat_ucast_u32)
qed

text \<open>The loop writes the rest of the data and leaves the driver as it was, up to the bus.\<close>

lemma write_loop_correct:
  fixes wLen len written off :: u16
  assumes d: "drives hw I2C0 (chip_slave ct) R" and el: "cycle_ends elapse R"
  shows "configured ct e \<Longrightarrow> present ct R c (i_bus (e_i2c e)) \<Longrightarrow>
    length tmp = unat (eeprom_page_size e) + 2 \<Longrightarrow>
    unat off mod unat (eeprom_page_size e) + unat wLen \<le> unat (eeprom_page_size e) \<Longrightarrow>
    (len \<noteq> 0 \<longrightarrow> 0 < wLen) \<Longrightarrow> wLen \<le> len \<Longrightarrow>
    (wLen < len \<longrightarrow> unat off mod unat (eeprom_page_size e) + unat wLen = unat (eeprom_page_size e)) \<Longrightarrow>
    unat off + unat len \<le> unat (eeprom_total_size e) \<Longrightarrow>
    unat written + unat len \<le> length buf \<Longrightarrow> unat written \<le> unat off \<Longrightarrow>
    \<exists>w' c'. write_loop x0 hw elapse buf tmp off len written wLen e =
        Some (int (unat written + unat len), e\<lparr>e_i2c := (e_i2c e)\<lparr>i_bus := w'\<rparr>\<rparr>) \<and>
      present ct R c' w' \<and>
      c_mem c' = overwrite (unat off) (take (unat len) (drop (unat written) buf)) (c_mem c)"
proof (induction "unat len" arbitrary: len off written wLen tmp e c rule: less_induct)
  case less
  note f = configured_facts[OF less.prems(1)]
  let ?P = "unat (eeprom_page_size e)"
  have wr: "unat written + unat len \<le> 4096" using less.prems(8,10) f(5) by linarith
  show ?case
  proof (cases "len = 0")
    case True
    then have "write_loop x0 hw elapse buf tmp off len written wLen e = Some (sint written, e)"
      by (subst write_loop.simps) simp
    moreover have "sint written = int (unat written)" using wr by (intro sint_small) simp
    ultimately show ?thesis using True less.prems(2) by (auto intro!: exI[of _ "i_bus (e_i2c e)"])
  next
    case False
    then have w0: "0 < wLen" using less.prems(5) by simp
    have wl: "unat wLen \<le> unat len" using less.prems(6) by (simp add: word_le_nat_alt)
    obtain tmp1 tmp2 w1 c1 where p: "put_offset (eeprom_24aa02e48t e) off tmp = Some tmp1"
        "copy_at tmp1 (offset_len (eeprom_24aa02e48t e)) buf (unat written) (unat wLen) = Some tmp2" "length tmp2 = length tmp"
        "I2CWrite x0 hw EEPROM_I2C_ADDR tmp2 (ucast wLen + word_of_nat (offset_len (eeprom_24aa02e48t e))) (e_i2c e) =
          Some (0, (e_i2c e)\<lparr>i_bus := w1\<rparr>)"
        "present ct R c1 (elapse 0x20000 w1)"
        "c_mem c1 = overwrite (unat off) (take (unat wLen) (drop (unat written) buf)) (c_mem c)"
      using write_piece[OF d el less.prems(1-4) w0, of "unat written" buf x0] less.prems(8,9) wl by auto
    let ?e1 = "e\<lparr>e_i2c := (e_i2c e)\<lparr>i_bus := elapse 0x20000 w1\<rparr>\<rparr>"
    let ?len1 = "len - wLen"
    let ?wl1 = "if eeprom_page_size e < ucast ?len1 then ucast (eeprom_page_size e) else ?len1"
    have st: "write_loop x0 hw elapse buf tmp off len written wLen e =
        write_loop x0 hw elapse buf tmp2 (off + wLen) ?len1 (written + wLen) ?wl1 ?e1"
    proof -
      have "0 \<le> sint written" using wr sint_small[of written] by simp
      then show ?thesis using False p(1,2,4)
        by (subst write_loop.simps) (simp add: Let_def eepromDelay_def on_bus_def)
    qed
    have l1: "unat ?len1 = unat len - unat wLen" using less.prems(6) by (simp add: unat_sub word_le_nat_alt)
    have o1: "unat (off + wLen) = unat off + unat wLen" "unat (written + wLen) = unat written + unat wLen"
      using less.prems(8,10) wl f(5) by (simp_all add: unat_add_small)
    have u: "unat ?wl1 = min ?P (unat ?len1)" by (rule min_page) (rule f(7))
    have z: "(unat off + unat wLen) mod ?P = 0" if "?len1 \<noteq> 0"
    proof -
      have "wLen < len" using that less.prems(6) by (auto simp: less_le)
      then have "unat off mod ?P + unat wLen = ?P" using less.prems(7) by simp
      then show ?thesis by (metis mod_add_left_eq mod_self)
    qed
    have lt: "unat ?len1 < unat len" using l1 w0 wl by (simp add: word_less_nat_alt)
    have "\<exists>w' c'. write_loop x0 hw elapse buf tmp2 (off + wLen) ?len1 (written + wLen) ?wl1 ?e1 =
        Some (int (unat (written + wLen) + unat ?len1), ?e1\<lparr>e_i2c := (e_i2c ?e1)\<lparr>i_bus := w'\<rparr>\<rparr>) \<and>
      present ct R c' w' \<and>
      c_mem c' = overwrite (unat (off + wLen)) (take (unat ?len1) (drop (unat (written + wLen)) buf)) (c_mem c1)"
    proof (rule less.hyps[OF lt])
      show "configured ct ?e1" using less.prems(1) by (simp add: configured_def)
      show "present ct R c1 (i_bus (e_i2c ?e1))" using p(5) by simp
      show "length tmp2 = unat (eeprom_page_size ?e1) + 2" using p(3) less.prems(3) by simp
      show "unat (off + wLen) mod unat (eeprom_page_size ?e1) + unat ?wl1 \<le> unat (eeprom_page_size ?e1)"
        using z f(6) by (cases "?len1 = 0") (simp_all add: o1 u less_imp_le)
      show "?len1 \<noteq> 0 \<longrightarrow> 0 < ?wl1" using u f(6) by (simp add: word_less_nat_alt unat_gt_0 del: less_iff_diff_less_0)
      show "?wl1 \<le> ?len1" using u by (simp add: word_le_nat_alt)
      show "?wl1 < ?len1 \<longrightarrow> unat (off + wLen) mod unat (eeprom_page_size ?e1) + unat ?wl1 = unat (eeprom_page_size ?e1)"
        using z u by (cases "?len1 = 0") (simp_all add: o1 word_less_nat_alt min_def)
      show "unat (off + wLen) + unat ?len1 \<le> unat (eeprom_total_size ?e1)" using less.prems(8) wl by (simp add: o1 l1)
      show "unat (written + wLen) + unat ?len1 \<le> length buf" using less.prems(9) wl by (simp add: o1 l1)
      show "unat (written + wLen) \<le> unat (off + wLen)" using less.prems(10) by (simp add: o1)
    qed
    then obtain w2 c2 where r: "write_loop x0 hw elapse buf tmp2 (off + wLen) ?len1 (written + wLen) ?wl1 ?e1 =
        Some (int (unat (written + wLen) + unat ?len1), ?e1\<lparr>e_i2c := (e_i2c ?e1)\<lparr>i_bus := w2\<rparr>\<rparr>)" "present ct R c2 w2"
      "c_mem c2 = overwrite (unat (off + wLen)) (take (unat ?len1) (drop (unat (written + wLen)) buf)) (c_mem c1)"
      by blast
    have "c_mem c2 = overwrite (unat off) (take (unat len) (drop (unat written) buf)) (c_mem c)"
    proof -
      let ?b = "drop (unat written) buf"
      let ?xs = "take (unat wLen) ?b" and ?ys = "take (unat len - unat wLen) (drop (unat written + unat wLen) buf)"
      have l: "length ?xs = unat wLen" "length ?ys = unat len - unat wLen" using less.prems(9) wl by simp_all
      have "unat off + unat len \<le> length (c_mem c)" using less.prems(2,8) f(4) by (simp add: present_def)
      then have "overwrite (unat off + unat wLen) ?ys (overwrite (unat off) ?xs (c_mem c)) = overwrite (unat off) (?xs @ ?ys) (c_mem c)"
        using overwrite_append[of "unat off" ?xs ?ys "c_mem c"] l wl by simp
      moreover have "take (unat len) ?b = ?xs @ ?ys"
        using take_add[of "unat wLen" "unat len - unat wLen" ?b] wl by (simp add: add.commute)
      ultimately show ?thesis by (simp only: r(3) p(6) o1 l1)
    qed
    then show ?thesis using r(1,2) wl unfolding st by (intro exI[of _ w2] exI[of _ c2]) (simp add: o1 l1)
  qed
qed

lemma out_range:
  assumes "\<not> unat offset + unat len \<le> unat (eeprom_total_size e)"
  shows "out_of_range offset len e"
proof -
  have "unat (ucast offset + ucast len :: u32) = unat offset + unat len"
    using less_trans[OF add_strict_mono[OF unat_u16_lt[of offset] unat_u16_lt[of len]], of "2 ^ 32"]
    by (simp add: unat_word_ariths unat_ucast_u32)
  then show ?thesis using assms by (simp add: out_of_range_def word_less_nat_alt unat_ucast_u32)
qed

lemma in_range:
  assumes "configured ct e" "unat offset + unat len \<le> unat (eeprom_total_size e)"
  shows "\<not> out_of_range offset len e"
proof -
  have "unat (ucast offset + ucast len :: u32) = unat offset + unat len"
    using configured_facts(5)[OF assms(1)] assms(2) by (simp add: unat_word_ariths unat_ucast_u32)
  then show ?thesis using assms(2) by (simp add: out_of_range_def word_less_nat_alt unat_ucast_u32)
qed

lemma eeprom_write_correct:
  assumes d: "drives hw I2C0 (chip_slave ct) R" and el: "cycle_ends elapse R" and cf: "configured ct e"
    and pr: "present ct R c (i_bus (e_i2c e))"
    and fit: "unat offset + unat len \<le> unat (eeprom_total_size e)" "unat len \<le> length buf"
  shows "\<exists>w' c'. eeprom_write x0 tmp0 hw elapse buf offset len e =
      Some (int (unat len), e\<lparr>e_i2c := (e_i2c e)\<lparr>i_bus := w'\<rparr>\<rparr>) \<and> present ct R c' w' \<and>
    c_mem c' = overwrite (unat offset) (take (unat len) buf) (c_mem c)"
proof -
  note f = configured_facts[OF cf]
  let ?P = "eeprom_page_size e"
  let ?first = "ucast (?P - ucast offset mod ?P) :: u16"
  let ?wl = "if ?first < len then ?first else len"
  have p0: "?P \<noteq> 0" using f(6) by (simp add: unat_gt_0)
  have m: "unat (ucast offset mod ?P) = unat offset mod unat ?P"
    by (simp add: unat_mod unat_ucast_u32)
  have ml: "unat offset mod unat ?P < unat ?P" using f(6) by simp
  have "unat (?P - ucast offset mod ?P) = unat ?P - unat offset mod unat ?P"
    using ml m by (subst unat_sub) (simp_all add: word_le_nat_alt)
  then have w0: "unat ?first = unat ?P - unat offset mod unat ?P"
    using f(7) by (simp add: unsigned_ucast_eq take_bit_nat_eq_self)
  have t: "length (map tmp0 [0..<unat (?P + 2)]) = unat ?P + 2" using f(7) by (simp add: unat_word_ariths)
  have "\<exists>w' c'. write_loop x0 hw elapse buf (map tmp0 [0..<unat (?P + 2)]) offset len 0 ?wl e =
        Some (int (unat (0 :: u16) + unat len), e\<lparr>e_i2c := (e_i2c e)\<lparr>i_bus := w'\<rparr>\<rparr>) \<and> present ct R c' w' \<and>
      c_mem c' = overwrite (unat offset) (take (unat len) (drop (unat (0 :: u16)) buf)) (c_mem c)"
    by (rule write_loop_correct[OF d el cf pr t])
      (use w0 ml fit in \<open>auto simp: word_less_nat_alt word_le_nat_alt unat_gt_0\<close>)
  then show ?thesis using in_range[OF cf fit(1)] p0 by (simp add: eeprom_write_def Let_def)
qed

lemma eeprom_read_correct:
  assumes d: "drives hw I2C0 (chip_slave ct) R" and el: "cycle_ends elapse R" and cf: "configured ct e"
    and pr: "present ct R c (i_bus (e_i2c e))" and off0: "length off0 = 2"
    and fit: "unat offset + unat len \<le> unat (eeprom_total_size e)" "0 < len" "unat len \<le> length buf"
  shows "\<exists>w' c'. eeprom_read x0 hw elapse off0 buf offset len e =
      Some (int (unat len), take (unat len) (drop (unat offset) (c_mem c)) @ drop (unat len) buf,
        e\<lparr>e_i2c := (e_i2c e)\<lparr>i_bus := w'\<rparr>\<rparr>) \<and> present ct R c' w' \<and> c_mem c' = c_mem c"
proof -
  let ?k = "offset_len (eeprom_24aa02e48t e)"
  note f = configured_facts[OF cf]
  have l0: "0 < unat len" using fit(2) by (simp add: word_less_nat_alt)
  have lm: "length (c_mem c) = ct_size ct" "\<not> c_busy c" using pr by (simp_all add: present_def)
  obtain a1 where a1: "put_offset (eeprom_24aa02e48t e) offset off0 = Some a1" "length a1 = 2"
      "chip_addr ct (take ?k a1 @ []) = unat offset"
    using put_offset_addr[OF cf, of off0 offset "[]"] off0 f(4,9) fit(1) l0 by auto
  have k: "unat (word_of_nat ?k :: u32) = ?k" using f(9) by (simp add: unat_of_nat_u32)
  have "0 < (word_of_nat ?k :: u32)" using k f(8) by (simp add: word_less_nat_alt)
  then obtain w1 where w1: "I2CWrite x0 hw EEPROM_I2C_ADDR a1 (word_of_nat ?k) (e_i2c e) = Some (0, (e_i2c e)\<lparr>i_bus := w1\<rparr>)"
      "resting R (chip_stop ct (c\<lparr>c_in := take ?k a1\<rparr>)) w1"
    using I2CWrite_chip[OF d pr, of "word_of_nat ?k" a1 x0] a1(2) f(9) unfolding k by auto
  let ?c1 = "chip_stop ct (c\<lparr>c_in := take ?k a1\<rparr>)"
  have c1: "c_mem ?c1 = c_mem c" "c_ptr ?c1 = unat offset" "\<not> c_busy ?c1"
    using a1(2,3) f(1,9) by (simp_all add: chip_stop_def Let_def)
  have pr2: "present ct R (?c1\<lparr>c_busy := False\<rparr>) (elapse 0x2000 w1)"
    using c1 lm by (intro elapse_present[OF el w1(2)]) simp_all
  let ?d = "(e_i2c e)\<lparr>i_bus := elapse 0x2000 w1\<rparr>"
  have u: "unat (ucast len :: u32) = unat len" by (rule unat_ucast_u32)
  have "0 < (ucast len :: u32)" using l0 u by (simp add: word_less_nat_alt)
  then obtain w2 p where w2: "I2CRead x0 hw EEPROM_I2C_ADDR buf (ucast len) ?d =
      Some (0, take (unat len) (drop (unat offset) (c_mem c)) @ drop (unat len) buf, ?d\<lparr>i_bus := w2\<rparr>)"
      "present ct R (?c1\<lparr>c_busy := False, c_ptr := p, c_in := []\<rparr>) w2"
    using I2CRead_chip[OF d, of "?c1\<lparr>c_busy := False\<rparr>" ?d "ucast len" buf x0] pr2 fit f(1,4,8) c1 unfolding u by auto
  have "sint len = int (unat len)" using fit(1) f(5) by (intro sint_small) linarith
  then show ?thesis
    using in_range[OF cf fit(1)] a1(1) w1(1) w2 c1(1)
    by (intro exI[of _ w2] exI[of _ "?c1\<lparr>c_busy := False, c_ptr := p, c_in := []\<rparr>"]) (simp add: eeprom_read_def on_bus_def)
qed

text \<open>The EUI-48 of a 24AA02E48 selects the sizes of that memory.\<close>

lemma eeprom_init_24aa:
  assumes d: "drives hw I2C0 (chip_slave M24AA02E48) R" and el: "cycle_ends elapse R"
    and pr: "present M24AA02E48 R c (i_bus (e_i2c e))" and buf: "length eui0 = 6"
    and eui: "take 3 (drop 0xFA (c_mem c)) = eui48_org_id"
  shows "\<exists>e' c'. eeprom_init x0 hw elapse eui0 e = Some e' \<and> configured M24AA02E48 e' \<and>
    present M24AA02E48 R c' (i_bus (e_i2c e')) \<and> c_mem c' = c_mem c"
proof -
  have lm: "length (c_mem c) = 256" "\<not> c_busy c" using pr by (simp_all add: present_def M24AA02E48_def)
  obtain w1 where w1: "I2CWrite x0 hw EEPROM_I2C_ADDR [0xFA] 1 (e_i2c e) = Some (0, (e_i2c e)\<lparr>i_bus := w1\<rparr>)"
      "resting R (chip_stop M24AA02E48 (c\<lparr>c_in := [0xFA]\<rparr>)) w1"
    using I2CWrite_chip[OF d pr, of 1 "[0xFA]" x0] by auto
  let ?c1 = "chip_stop M24AA02E48 (c\<lparr>c_in := [0xFA]\<rparr>)"
  have c1: "c_mem ?c1 = c_mem c" "c_ptr ?c1 = 0xFA" "\<not> c_busy ?c1"
    by (simp_all add: chip_stop_def M24AA02E48_def chip_addr_def)
  have pr2: "present M24AA02E48 R (?c1\<lparr>c_busy := False\<rparr>) (elapse 0x2000 w1)"
    using c1 lm by (intro elapse_present[OF el w1(2)]) (simp_all add: M24AA02E48_def)
  let ?d = "(e_i2c e)\<lparr>i_bus := elapse 0x2000 w1\<rparr>"
  let ?r = "take 6 (drop 0xFA (c_mem c)) @ drop 6 eui0"
  obtain w2 p where w2: "I2CRead x0 hw EEPROM_I2C_ADDR eui0 6 ?d = Some (0, ?r, ?d\<lparr>i_bus := w2\<rparr>)"
      "present M24AA02E48 R (?c1\<lparr>c_busy := False, c_ptr := p, c_in := []\<rparr>) w2"
    using I2CRead_chip[OF d, of "?c1\<lparr>c_busy := False\<rparr>" ?d 6 eui0 x0] pr2 c1 buf by (auto simp: M24AA02E48_def)
  have t: "take 3 ?r = eui48_org_id" using eui lm(1) by simp
  let ?e = "e\<lparr>e_i2c := ?d\<lparr>i_bus := w2\<rparr>, eeprom_24aa02e48t := True,
    eeprom_total_size := EEPROM_24AA_TOTAL_SIZE, eeprom_page_size := EEPROM_24AA_PAGE_SIZE\<rparr>"
  have "eeprom_init x0 hw elapse eui0 e = Some ?e"
    using w1(1) w2(1) t by (simp add: eeprom_init_def eeprom_readEui48_def on_bus_def)
  moreover have "configured M24AA02E48 ?e" by (simp add: configured_def)
  ultimately show ?thesis using w2(2) c1(1) by (intro exI[of _ ?e]) auto
qed

text \<open>
  \<^bold>\<open>C32\<close>. Write and read back. Let the registers of I2C0 drive a bus with the memory for which the
  driver is configured, at rest and outside a write cycle. Then \<^verbatim>\<open>eeprom_write\<close> of any range
  inside the memory returns the number of bytes; the memory holds the data at the offset and every
  other byte is unchanged, although the memory itself wraps at page ends; and \<^verbatim>\<open>eeprom_read\<close> of that
  range returns the data in the buffer, leaving the rest of the buffer alone. A range that leaves the
  memory is refused by both with -1 and without effect.
\<close>

theorem eeprom_roundtrip:
  fixes offset len :: u16
  assumes "drives hw I2C0 (chip_slave ct) R" "cycle_ends elapse R" "configured ct e"
    and "present ct R c (i_bus (e_i2c e))"
    and "0 < len" "unat len \<le> length buf" "unat len \<le> length rbuf" "length off0 = 2"
  shows "if unat offset + unat len \<le> unat (eeprom_total_size e)
    then \<exists>e1 e2 c1 c2.
      eeprom_write x0 tmp0 hw elapse buf offset len e = Some (int (unat len), e1) \<and>
      present ct R c1 (i_bus (e_i2c e1)) \<and>
      c_mem c1 = overwrite (unat offset) (take (unat len) buf) (c_mem c) \<and>
      eeprom_read x0 hw elapse off0 rbuf offset len e1 =
        Some (int (unat len), take (unat len) buf @ drop (unat len) rbuf, e2) \<and>
      present ct R c2 (i_bus (e_i2c e2)) \<and> c_mem c2 = c_mem c1
    else eeprom_write x0 tmp0 hw elapse buf offset len e = Some (-1, e) \<and>
      eeprom_read x0 hw elapse off0 rbuf offset len e = Some (-1, rbuf, e)"
proof (cases "unat offset + unat len \<le> unat (eeprom_total_size e)")
  case True
  note f = configured_facts[OF assms(3)]
  obtain w1 c1 where w: "eeprom_write x0 tmp0 hw elapse buf offset len e =
      Some (int (unat len), e\<lparr>e_i2c := (e_i2c e)\<lparr>i_bus := w1\<rparr>\<rparr>)" "present ct R c1 w1"
      "c_mem c1 = overwrite (unat offset) (take (unat len) buf) (c_mem c)"
    using eeprom_write_correct[OF assms(1-4) True assms(6)] by blast
  let ?e1 = "e\<lparr>e_i2c := (e_i2c e)\<lparr>i_bus := w1\<rparr>\<rparr>"
  have e1: "configured ct ?e1" "present ct R c1 (i_bus (e_i2c ?e1))"
      "unat offset + unat len \<le> unat (eeprom_total_size ?e1)"
    using assms(3) w(2) True by (simp_all add: configured_def)
  have "unat offset \<le> length (c_mem c)" using True assms(4) f(4) by (simp add: present_def)
  then have t: "take (unat len) (drop (unat offset) (c_mem c1)) = take (unat len) buf"
    using take_drop_overwrite[of "unat offset" "c_mem c" "take (unat len) buf"] assms(6) w(3) by simp
  obtain w2 c2 where r: "eeprom_read x0 hw elapse off0 rbuf offset len ?e1 =
      Some (int (unat len), take (unat len) buf @ drop (unat len) rbuf, ?e1\<lparr>e_i2c := (e_i2c ?e1)\<lparr>i_bus := w2\<rparr>\<rparr>)"
      "present ct R c2 w2" "c_mem c2 = c_mem c1"
    using eeprom_read_correct[OF assms(1,2) e1(1,2) assms(8) e1(3) assms(5,7)] unfolding t by blast
  let ?e2 = "?e1\<lparr>e_i2c := (e_i2c ?e1)\<lparr>i_bus := w2\<rparr>\<rparr>"
  have "present ct R c2 (i_bus (e_i2c ?e2))" using r(2) by simp
  with w(1,3) e1(2) r(1,3) show ?thesis
    unfolding if_P[OF True] by (intro exI[of _ ?e1] exI[of _ ?e2] exI[of _ c1] exI[of _ c2] conjI)
next
  case False
  then have "out_of_range offset len e" by (rule out_range)
  with False show ?thesis by (simp add: eeprom_write_def eeprom_read_def)
qed

text \<open>A line with a memory on it, whose interrupt flag is seen at the second read.\<close>

definition line_hw :: "'s i2c_slave \<Rightarrow> 's i2c_line i2c_regs" where
  "line_hw sl = \<lparr>wr_CONSET = (\<lambda>_. line_conset), wr_CONCLR = (\<lambda>_. line_conclr sl),
     wr_DAT = (\<lambda>_ v l. l\<lparr>l_dat := ucast v\<rparr>),
     rd_CONSET = (\<lambda>_ l. if l_si l then (if l_sta l then 0x28 else 0x08, l)
       else (0, case bus_step sl l of None \<Rightarrow> l | Some l' \<Rightarrow> l')),
     rd_STAT = (\<lambda>_ l. (l_stat l, l)), rd_DAT = (\<lambda>_ l. (ucast (l_dat l), l))\<rparr>"

definition line_is :: "'s i2c_line \<Rightarrow> 's i2c_line \<Rightarrow> bool" where
  "line_is w l \<longleftrightarrow> w = l \<and> l_stat l AND 0xF8 = l_stat l"

lemma line_step:
  assumes "\<not> l_si l" "bus_step sl l = Some l'"
  shows "l_stat l' AND 0xF8 = l_stat l' \<and> si_after (line_hw sl) i l l'"
proof -
  have s: "l_stat l' AND 0xF8 = l_stat l'" "l_si l'"
    using assms(2) by (auto simp: bus_step_def split: i2c_mode.splits if_splits prod.splits)
  have "si_after (line_hw sl) i l' l'"
    by (rule si_now[of _ _ _ "if l_sta l' then 0x28 else 0x08"]) (use s(2) in \<open>simp_all add: line_hw_def\<close>)
  then have "si_after (line_hw sl) i l l'"
    by (rule si_later[of _ _ _ 0, rotated 2]) (use assms in \<open>simp_all add: line_hw_def\<close>)
  with s(1) show ?thesis by simp
qed

lemma line_hw_drives: "drives (line_hw sl) i sl line_is"
  unfolding drives_def
proof (intro allI impI conjI)
  fix w l :: "'a i2c_line" and l'
  assume r: "line_is w l"
  then have w: "w = l" "l_stat l AND 0xF8 = l_stat l" by (simp_all add: line_is_def)
  show "line_is (wr_CONSET (line_hw sl) i v w) (line_conset v l)" for v
    using w by (simp add: line_is_def line_hw_def line_conset_def)
  show "line_is (wr_CONCLR (line_hw sl) i v w) (line_conclr sl v l)" for v
    using w by (simp add: line_is_def line_hw_def line_conclr_def Let_def)
  show "line_is (wr_DAT (line_hw sl) i v w) (l\<lparr>l_dat := ucast v\<rparr>)" for v
    using w by (simp add: line_is_def line_hw_def)
  show "\<exists>w'. si_after (line_hw sl) i w w' \<and> line_is w' l'" if "\<not> l_si l" "bus_step sl l = Some l'"
    using line_step[OF that] w(1) by (auto simp: line_is_def)
qed (simp_all add: line_is_def line_hw_def ucast_u8_back)

definition chip_time :: "nat \<Rightarrow> chip i2c_line \<Rightarrow> chip i2c_line" where
  "chip_time n l = l\<lparr>l_slave := (l_slave l)\<lparr>c_busy := False\<rparr>\<rparr>"

lemma chip_time_ends: "cycle_ends chip_time line_is"
  by (auto simp: cycle_ends_def resting_def line_is_def chip_time_def)

definition ee_example :: "chip i2c_line eeprom_drv" where
  "ee_example = \<lparr>eeprom_total_size = 4096, eeprom_page_size = 32, eeprom_24aa02e48t = False,
     e_i2c = \<lparr>i_bus = \<lparr>l_sta = False, l_sto = False, l_si = False, l_aa = False, l_dat = 0, l_stat = 0xF8,
         l_mode = Free, l_slave = \<lparr>c_mem = replicate 4096 0xFF, c_ptr = 0, c_in = [], c_busy = False\<rparr>\<rparr>,
       i_mem = (\<lambda>_. \<lparr>I2ADR0 = 0, I2SCLH = 0, I2SCLL = 0, MMCTRL = 0, I2ADR1 = 0, I2ADR2 = 0, I2ADR3 = 0,
         I2DATA_BUFFER = 0, I2MASK0 = 0, I2MASK1 = 0, I2MASK2 = 0, I2MASK3 = 0\<rparr>),
       i_sc = \<lparr>PCLKSEL0 = 0, PCLKSEL1 = 0, PCONP = 0\<rparr>, i_clk = 100000000, i_nvic = {},
       i2cdat = (\<lambda>_. \<lparr>i2c_setup = No_setup, dir = 0\<rparr>)\<rparr>\<rparr>"

definition setup_example :: "chip i2c_line I2C_M_SETUP_Type" where
  "setup_example = \<lparr>sl_addr7bit = 0, m_tx_data = None, m_tx_length = 0, m_tx_count = 0, m_rx_data = None,
     m_rx_length = 0, m_rx_count = 0, retransmissions_max = 0, retransmissions_count = 0, m_status = 0, m_callback = None\<rparr>"

text \<open>Forty bytes at offset 30 of a 24LC32 go into three pages.\<close>

theorem eeprom_roundtrip_witness:
  "\<exists>e1 e2. eeprom_write setup_example (\<lambda>_. 0) (line_hw (chip_slave M24LC32)) chip_time (replicate 40 0x5A) 30 40 ee_example =
      Some (40, e1) \<and>
    eeprom_read setup_example (line_hw (chip_slave M24LC32)) chip_time [0, 0] (replicate 41 0) 30 40 e1 =
      Some (40, replicate 40 0x5A @ [0], e2)"
proof -
  let ?c = "\<lparr>c_mem = replicate 4096 0xFF, c_ptr = 0, c_in = [], c_busy = False\<rparr>"
  have p: "present M24LC32 line_is ?c (i_bus (e_i2c ee_example))"
    by (simp add: present_def resting_def line_is_def ee_example_def M24LC32_def)
  have c: "configured M24LC32 ee_example" by (simp add: configured_def ee_example_def)
  have t: "eeprom_total_size ee_example = 4096" by (simp add: ee_example_def)
  have d: "drop 40 (replicate 41 0) = [0 :: u8]" by (simp add: drop_replicate)
  show ?thesis
    using eeprom_roundtrip[OF line_hw_drives chip_time_ends c p, of 40 "replicate 40 0x5A" "replicate 41 0" "[0, 0]" 30
        setup_example "\<lambda>_. 0"] d
    by (auto simp: t simp del: drop_replicate)
qed
end
