(* ===== verification/Timers.thy ===== *)
theory Timers
  imports BoardIo
begin

unbundle bit_operations_syntax

text \<open>
  The general purpose timers: the driver \<^verbatim>\<open>Lib_MCU/src/lpc17xx_timer.c\<close>, the start of the millisecond
  clock \<^verbatim>\<open>time_init\<close> (\<^verbatim>\<open>Lib_Board/src/time.c\<close>) and the timer helpers of the demo
  (\<^verbatim>\<open>demo_aoa_can/src/timer.c\<close>). A 1 written to the interrupt register clears the flag; a busy wait on
  a register is a list of the values it reads. Shown: the period of the millisecond clock; which timer a
  delay really programs; which match bits a configuration destroys.
\<close>

section \<open>Registers\<close>

datatype TIMx = TIM0 | TIM1 | TIM2 | TIM3

record LPC_TIM_TypeDef =
  T_IR :: u32
  T_TCR :: u32
  T_TC :: u32
  T_PR :: u32
  T_PC :: u32
  T_MCR :: u32
  T_MR0 :: u32
  T_MR1 :: u32
  T_CCR :: u32
  T_CR0 :: u32
  T_CR1 :: u32
  T_EMR :: u32

record tim_hw =
  tims :: "TIMx \<Rightarrow> LPC_TIM_TypeDef"
  t_sc :: LPC_SC_TypeDef
  t_clk :: u32
  t_nvic :: "nat set"
  t_pins :: LPC_PINCON_TypeDef

definition t_upd :: "TIMx \<Rightarrow> (LPC_TIM_TypeDef \<Rightarrow> LPC_TIM_TypeDef) \<Rightarrow> tim_hw \<Rightarrow> tim_hw" where
  "t_upd t f h = h\<lparr>tims := (tims h)(t := f (tims h t))\<rparr>"

definition wr_IR :: "u32 \<Rightarrow> LPC_TIM_TypeDef \<Rightarrow> LPC_TIM_TypeDef" where
  "wr_IR v r = r\<lparr>T_IR := T_IR r AND NOT v\<rparr>"

fun TIM_ConverPtrToTimeNum :: "TIMx \<Rightarrow> nat" where
  "TIM_ConverPtrToTimeNum TIM0 = 0"
| "TIM_ConverPtrToTimeNum TIM1 = 1"
| "TIM_ConverPtrToTimeNum TIM2 = 2"
| "TIM_ConverPtrToTimeNum TIM3 = 3"

fun CLKPWR_PCLKSEL_TIMER :: "TIMx \<Rightarrow> u32" where
  "CLKPWR_PCLKSEL_TIMER TIM0 = 2"
| "CLKPWR_PCLKSEL_TIMER TIM1 = 4"
| "CLKPWR_PCLKSEL_TIMER TIM2 = 44"
| "CLKPWR_PCLKSEL_TIMER TIM3 = 46"

fun CLKPWR_PCONP_PCTIM :: "TIMx \<Rightarrow> u32" where
  "CLKPWR_PCONP_PCTIM TIM0 = 0x2"
| "CLKPWR_PCONP_PCTIM TIM1 = 0x4"
| "CLKPWR_PCONP_PCTIM TIM2 = 0x400000"
| "CLKPWR_PCONP_PCTIM TIM3 = 0x800000"

section \<open>Driver\<close>

datatype TIM_PRESCALE_OPT = TIM_PRESCALE_TICKVAL | TIM_PRESCALE_USVAL

record TIM_TIMERCFG_Type =
  PrescaleOption :: TIM_PRESCALE_OPT
  PrescaleValue :: u32

record TIM_COUNTERCFG_Type =
  CountInputSelect :: u8

record TIM_MATCHCFG_Type =
  MatchChannel :: u8
  IntOnMatch :: bool
  StopOnMatch :: bool
  ResetOnMatch :: bool
  ExtMatchOutputType :: u8
  MatchValue :: u32

record TIM_CAPTURECFG_Type =
  CaptureChannel :: u8
  RisingEdge :: bool
  FallingEdge :: bool
  IntOnCaption :: bool

text \<open>The configuration behind the \<^verbatim>\<open>void*\<close> of \<^verbatim>\<open>TIM_Init\<close>, which the mode selects.\<close>

datatype TIM_CFG = Timer_cfg TIM_TIMERCFG_Type | Counter_cfg u8 TIM_COUNTERCFG_Type

definition TIM_GetPClock :: "TIMx \<Rightarrow> tim_hw \<Rightarrow> u32" where
  "TIM_GetPClock t h = CLKPWR_GetPCLK (t_clk h) (CLKPWR_PCLKSEL_TIMER t) (t_sc h)"

definition TIM_ConverUSecToVal :: "TIMx \<Rightarrow> u32 \<Rightarrow> tim_hw \<Rightarrow> u32" where
  "TIM_ConverUSecToVal t usec h =
     ucast ((ucast (TIM_GetPClock t h) * ucast usec) div (1000000 :: 64 word))"

definition TIM_GetIntStatus :: "TIMx \<Rightarrow> u8 \<Rightarrow> tim_hw \<Rightarrow> bool option" where
  "TIM_GetIntStatus t IntFlag h = do {
     _ \<leftarrow> CHECK_PARAM (IntFlag \<le> 5);
     Some (ucast (T_IR (tims h t) AND push_bit (unat IntFlag) 1) \<noteq> (0 :: u8)) }"

definition TIM_GetIntCaptureStatus :: "TIMx \<Rightarrow> u8 \<Rightarrow> tim_hw \<Rightarrow> bool option" where
  "TIM_GetIntCaptureStatus t IntFlag h = do {
     _ \<leftarrow> CHECK_PARAM (IntFlag \<le> 5);
     Some (ucast (T_IR (tims h t) AND push_bit (4 + unat IntFlag) 1) \<noteq> (0 :: u8)) }"

definition TIM_ClearIntPending :: "TIMx \<Rightarrow> u8 \<Rightarrow> tim_hw \<Rightarrow> tim_hw option" where
  "TIM_ClearIntPending t IntFlag h = do {
     _ \<leftarrow> CHECK_PARAM (IntFlag \<le> 5);
     Some (t_upd t (\<lambda>r. wr_IR (T_IR r OR push_bit (unat IntFlag) 1) r) h) }"

definition TIM_ClearIntCapturePending :: "TIMx \<Rightarrow> u8 \<Rightarrow> tim_hw \<Rightarrow> tim_hw option" where
  "TIM_ClearIntCapturePending t IntFlag h = do {
     _ \<leftarrow> CHECK_PARAM (IntFlag \<le> 5);
     Some (t_upd t (\<lambda>r. wr_IR (T_IR r OR push_bit (4 + unat IntFlag) 1) r) h) }"

definition TIM_ConfigStructInit :: "u8 \<Rightarrow> TIM_COUNTERCFG_Type \<Rightarrow> TIM_CFG" where
  "TIM_ConfigStructInit TimerCounterMode c0 =
     (if TimerCounterMode = 0 then Timer_cfg \<lparr>PrescaleOption = TIM_PRESCALE_USVAL, PrescaleValue = 1\<rparr>
      else Counter_cfg TimerCounterMode (c0\<lparr>CountInputSelect := 0\<rparr>))"

text \<open>
  The parameter check accepts the modes 0 and 1 only. The function writes the mode and the count input to
  CCR; the manual has them in CTCR.
\<close>

definition TIM_Init :: "TIMx \<Rightarrow> TIM_CFG \<Rightarrow> tim_hw \<Rightarrow> tim_hw option" where
  "TIM_Init t cfg h = do {
     _ \<leftarrow> CHECK_PARAM (case cfg of Timer_cfg _ \<Rightarrow> True | Counter_cfg m _ \<Rightarrow> m = 1);
     let h1 = h\<lparr>t_sc := CLKPWR_SetPCLKDiv (CLKPWR_PCLKSEL_TIMER t) CLKPWR_PCLKSEL_CCLK_DIV_4
                 (CLKPWR_ConfigPPWR (CLKPWR_PCONP_PCTIM t) ENABLE (t_sc h))\<rparr>;
     let h2 = t_upd t (\<lambda>r. r\<lparr>T_CCR := (T_CCR r AND NOT 0x3) OR 0, T_TC := 0, T_PC := 0, T_PR := 0\<rparr>) h1;
     let h3 = (case cfg of
         Timer_cfg c \<Rightarrow>
           (case PrescaleOption c of
              TIM_PRESCALE_TICKVAL \<Rightarrow> t_upd t (\<lambda>r. r\<lparr>T_PR := PrescaleValue c - 1\<rparr>) h2
            | TIM_PRESCALE_USVAL \<Rightarrow> t_upd t (\<lambda>r. r\<lparr>T_PR := TIM_ConverUSecToVal t (PrescaleValue c) h2 - 1\<rparr>) h2)
       | Counter_cfg _ c \<Rightarrow>
           t_upd t (\<lambda>r. r\<lparr>T_CCR := (if CountInputSelect c = 1 then (T_CCR r AND NOT 0xC) OR 0x4 else T_CCR r AND NOT 0xC)\<rparr>) h2);
     Some (t_upd t (wr_IR 0xFFFFFFFF) h3) }"

text \<open>The branch for timer 3 switches off the power of timer 2.\<close>

definition TIM_DeInit :: "TIMx \<Rightarrow> tim_hw \<Rightarrow> tim_hw" where
  "TIM_DeInit t h =
     (let h1 = t_upd t (\<lambda>r. r\<lparr>T_TCR := 0\<rparr>) h;
          p = (case t of TIM3 \<Rightarrow> CLKPWR_PCONP_PCTIM TIM2 | _ \<Rightarrow> CLKPWR_PCONP_PCTIM t)
      in h1\<lparr>t_sc := CLKPWR_ConfigPPWR p DISABLE (t_sc h1)\<rparr>)"

definition TIM_Cmd :: "TIMx \<Rightarrow> FunctionalState \<Rightarrow> tim_hw \<Rightarrow> tim_hw" where
  "TIM_Cmd t NewState h =
     t_upd t (\<lambda>r. r\<lparr>T_TCR := (if NewState = ENABLE then T_TCR r OR 0x1 else T_TCR r AND NOT 0x1)\<rparr>) h"

definition TIM_ResetCounter :: "TIMx \<Rightarrow> tim_hw \<Rightarrow> tim_hw" where
  "TIM_ResetCounter t h = t_upd t (\<lambda>r. r\<lparr>T_TCR := (T_TCR r OR 0x2) AND NOT 0x2\<rparr>) h"

text \<open>The channel mask is \<^verbatim>\<open>7 << n\<close>, while the bits of channel \<open>n\<close> start at \<open>3 * n\<close>.\<close>

definition TIM_MCR_CHANNEL_MASKBIT :: "u8 \<Rightarrow> u32" where
  "TIM_MCR_CHANNEL_MASKBIT n = push_bit (unat n) 7"

definition set_bit_if :: "bool \<Rightarrow> nat \<Rightarrow> u32 \<Rightarrow> u32" where
  "set_bit_if b n w = (if b then w OR push_bit n 1 else w)"

definition TIM_ConfigMatch :: "TIMx \<Rightarrow> TIM_MATCHCFG_Type \<Rightarrow> tim_hw \<Rightarrow> tim_hw option" where
  "TIM_ConfigMatch t cfg h = do {
     _ \<leftarrow> CHECK_PARAM (ExtMatchOutputType cfg \<le> 3);
     let n = unat (MatchChannel cfg);
     Some (t_upd t (\<lambda>r0.
       let r = (if n = 0 then r0\<lparr>T_MR0 := MatchValue cfg\<rparr> else if n = 1 then r0\<lparr>T_MR1 := MatchValue cfg\<rparr> else r0)
       in r\<lparr>T_MCR := set_bit_if (StopOnMatch cfg) (n * 3 + 2) (set_bit_if (ResetOnMatch cfg) (n * 3 + 1)
              (set_bit_if (IntOnMatch cfg) (n * 3) (T_MCR r AND NOT (TIM_MCR_CHANNEL_MASKBIT (MatchChannel cfg))))),
            T_EMR := push_bit (n * 2 + 4) (ucast (ExtMatchOutputType cfg) AND 0x3)\<rparr>) h) }"

definition TIM_ConfigCapture :: "TIMx \<Rightarrow> TIM_CAPTURECFG_Type \<Rightarrow> tim_hw \<Rightarrow> tim_hw" where
  "TIM_ConfigCapture t cfg h =
     (let n = unat (CaptureChannel cfg) in
      t_upd t (\<lambda>r. r\<lparr>T_CCR := set_bit_if (IntOnCaption cfg) (n * 3 + 2) (set_bit_if (FallingEdge cfg) (n * 3 + 1)
        (set_bit_if (RisingEdge cfg) (n * 3) (T_CCR r AND NOT (push_bit n 7))))\<rparr>) h)"

definition TIM_GetCaptureValue :: "TIMx \<Rightarrow> u8 \<Rightarrow> tim_hw \<Rightarrow> u32 option" where
  "TIM_GetCaptureValue t ch h = do {
     _ \<leftarrow> CHECK_PARAM (ch \<le> 1);
     Some (if ch = 0 then T_CR0 (tims h t) else T_CR1 (tims h t)) }"

text \<open>The wait for the match flag; the elements are the values read from the interrupt register of timer 0.\<close>

fun wait_match :: "u32 list \<Rightarrow> tim_hw \<Rightarrow> tim_hw option" where
  "wait_match [] h = None"
| "wait_match (v # vs) h = do {
     let h1 = t_upd TIM0 (\<lambda>r. r\<lparr>T_IR := v\<rparr>) h;
     b \<leftarrow> TIM_GetIntStatus TIM0 0 h1;
     (if b then TIM_ClearIntPending TIM0 0 h1 else wait_match vs h1) }"

definition timer0_wait_with :: "u32 \<Rightarrow> u32 \<Rightarrow> u32 list \<Rightarrow> tim_hw \<Rightarrow> tim_hw option" where
  "timer0_wait_with prescale time obs h = do {
     h1 \<leftarrow> TIM_Init TIM0 (Timer_cfg \<lparr>PrescaleOption = TIM_PRESCALE_USVAL, PrescaleValue = prescale\<rparr>) h;
     h2 \<leftarrow> TIM_ConfigMatch TIM0 \<lparr>MatchChannel = 0, IntOnMatch = True, StopOnMatch = True, ResetOnMatch = False,
             ExtMatchOutputType = 0, MatchValue = time\<rparr> h1;
     wait_match obs (TIM_Cmd TIM0 ENABLE h2) }"

definition Timer0_Wait :: "u32 \<Rightarrow> u32 list \<Rightarrow> tim_hw \<Rightarrow> tim_hw option" where
  "Timer0_Wait time = timer0_wait_with 1000 time"

definition Timer0_us_Wait :: "u32 \<Rightarrow> u32 list \<Rightarrow> tim_hw \<Rightarrow> tim_hw option" where
  "Timer0_us_Wait time = timer0_wait_with 1 time"

section \<open>The millisecond clock\<close>

definition time_init :: "tim_hw \<Rightarrow> tim_hw option" where
  "time_init h = do {
     h1 \<leftarrow> TIM_Init TIM1 (Timer_cfg \<lparr>PrescaleOption = TIM_PRESCALE_USVAL, PrescaleValue = 100\<rparr>) h;
     h2 \<leftarrow> TIM_ConfigMatch TIM1 \<lparr>MatchChannel = 0, IntOnMatch = True, StopOnMatch = False, ResetOnMatch = True,
             ExtMatchOutputType = 0, MatchValue = 10\<rparr> h1;
     Some (TIM_Cmd TIM1 ENABLE (h2\<lparr>t_nvic := insert 2 (t_nvic h2)\<rparr>)) }"

section \<open>Timer helpers of the demo\<close>

record tim_counters =
  m0_counter :: u32
  m1_counter :: u32
  capture0 :: u32
  capture1 :: u32

text \<open>A timer number above 3 selects no timer.\<close>

definition timer_of :: "u8 \<Rightarrow> TIMx option" where
  "timer_of n = (if n = 0 then Some TIM0 else if n = 1 then Some TIM1 else if n = 2 then Some TIM2
     else if n = 3 then Some TIM3 else None)"

text \<open>\<^verbatim>\<open>while (LPC_TIMn->TCR & 0x01);\<close> over the values read.\<close>

fun wait_stopped :: "u32 list \<Rightarrow> unit option" where
  "wait_stopped [] = None"
| "wait_stopped (v # vs) = (if v AND 0x01 \<noteq> 0 then wait_stopped vs else Some ())"

text \<open>
  The match value goes to timer 0 for every timer number. The divisions by a delay of 0 and, for a
  delay above 1000, by \<^verbatim>\<open>1000 / delayInMs\<close> have no result.
\<close>

definition delayMs :: "u8 \<Rightarrow> u32 \<Rightarrow> u32 list \<Rightarrow> tim_hw \<Rightarrow> tim_hw option" where
  "delayMs timer_num delayInMs obs h =
     (case timer_of timer_num of None \<Rightarrow> Some h
      | Some t \<Rightarrow>
          if delayInMs = 0 \<or> 1000 div delayInMs = 0 then None
          else do {
            let h1 = t_upd t (\<lambda>r. r\<lparr>T_TCR := 0x02, T_PR := 0\<rparr>) h;
            let h2 = t_upd TIM0 (\<lambda>r. r\<lparr>T_MR0 := (t_clk h div 4) div (1000 div delayInMs)\<rparr>) h1;
            let h3 = t_upd t (\<lambda>r. (wr_IR 0xff r)\<lparr>T_MCR := 0x04, T_TCR := 0x01\<rparr>) h2;
            _ \<leftarrow> wait_stopped obs;
            Some h3 })"

text \<open>The four interrupt routines; each test reads the register again.\<close>

definition count_flag :: "nat \<Rightarrow> (tim_counters \<Rightarrow> tim_counters) \<Rightarrow> LPC_TIM_TypeDef \<times> tim_counters \<Rightarrow>
    LPC_TIM_TypeDef \<times> tim_counters" where
  "count_flag n f rc = (if T_IR (fst rc) AND push_bit n 1 \<noteq> 0 then (wr_IR (push_bit n 1) (fst rc), f (snd rc)) else rc)"

definition TIMER_interrupt :: "LPC_TIM_TypeDef \<times> tim_counters \<Rightarrow> LPC_TIM_TypeDef \<times> tim_counters" where
  "TIMER_interrupt rc =
     count_flag 5 (\<lambda>c. c\<lparr>capture1 := capture1 c + 1\<rparr>) (count_flag 4 (\<lambda>c. c\<lparr>capture0 := capture0 c + 1\<rparr>)
       (count_flag 1 (\<lambda>c. c\<lparr>m1_counter := m1_counter c + 1\<rparr>) (count_flag 0 (\<lambda>c. c\<lparr>m0_counter := m0_counter c + 1\<rparr>) rc)))"

definition enable_timer :: "u8 \<Rightarrow> tim_hw \<Rightarrow> tim_hw" where
  "enable_timer n h = (case timer_of n of None \<Rightarrow> h | Some t \<Rightarrow> t_upd t (\<lambda>r. r\<lparr>T_TCR := 1\<rparr>) h)"

definition disable_timer :: "u8 \<Rightarrow> tim_hw \<Rightarrow> tim_hw" where
  "disable_timer n h = (case timer_of n of None \<Rightarrow> h
     | Some t \<Rightarrow> t_upd (if t = TIM3 then TIM2 else t) (\<lambda>r. r\<lparr>T_TCR := 0\<rparr>) h)"

definition reset_timer :: "u8 \<Rightarrow> tim_hw \<Rightarrow> tim_hw" where
  "reset_timer n h = (case timer_of n of None \<Rightarrow> h | Some t \<Rightarrow> t_upd t (\<lambda>r. r\<lparr>T_TCR := T_TCR r OR 0x02\<rparr>) h)"

text \<open>The clock computed by \<^verbatim>\<open>TimerInit\<close> is not used. Timers 1, 2 and 3 share the pins of timer 1.\<close>

definition TimerInit :: "u8 \<Rightarrow> u32 \<Rightarrow> tim_hw \<times> (TIMx \<Rightarrow> tim_counters) \<Rightarrow>
    (bool \<times> tim_hw \<times> (TIMx \<Rightarrow> tim_counters)) option" where
  "TimerInit timer_num TimerInterval hc = (case timer_of timer_num of None \<Rightarrow> Some (False, hc)
     | Some t \<Rightarrow> do {
         let h = fst hc;
         let cs = (snd hc)(t := \<lparr>m0_counter = 0, m1_counter = 0, capture0 = 0, capture1 = 0\<rparr>);
         let m = (if t = TIM0 then push_bit 24 3 OR push_bit 26 3 else push_bit 12 3 OR push_bit 18 3 :: u32);
         w \<leftarrow> rd (PINSEL (t_pins h)) 3;
         ws \<leftarrow> wr (PINSEL (t_pins h)) 3 ((w AND NOT m) OR m);
         let h1 = h\<lparr>t_sc := (t_sc h)\<lparr>PCONP := PCONP (t_sc h) OR CLKPWR_PCONP_PCTIM t\<rparr>,
                    t_pins := (t_pins h)\<lparr>PINSEL := ws\<rparr>\<rparr>;
         let h2 = t_upd t (\<lambda>r. (wr_IR 0x0F r)\<lparr>T_PR := 0, T_MR0 := TimerInterval div 4, T_MR1 := TimerInterval div 4,
                    T_EMR := (T_EMR r AND NOT (push_bit 4 0xFF)) OR (push_bit 4 3 OR push_bit 6 3),
                    T_MCR := 3 OR push_bit 3 3\<rparr>) h1;
         Some (True, h2\<lparr>t_nvic := insert (Suc (TIM_ConverPtrToTimeNum t)) (t_nvic h2)\<rparr>, cs) })"

section \<open>Effects\<close>

lemma t_upd_simps [simp]:
  "tims (t_upd t f h) t' = (if t' = t then f (tims h t) else tims h t')"
  "t_sc (t_upd t f h) = t_sc h" "t_clk (t_upd t f h) = t_clk h" "t_nvic (t_upd t f h) = t_nvic h"
  by (simp_all add: t_upd_def)

text \<open>With the divider that \<^verbatim>\<open>TIM_Init\<close> selects a timer runs at a quarter of the core clock.\<close>

lemma pclksel_div4: "CLKPWR_GetPCLKSEL k (CLKPWR_SetPCLKDiv k CLKPWR_PCLKSEL_CCLK_DIV_4 sc) = 0"
proof -
  have m: "(3 :: u32) = mask 2" by (simp add: mask_eq_exp_minus_1)
  have "drop_bit i ((x AND NOT (push_bit i 3)) OR push_bit i 0) AND 3 = 0" for i and x :: u32
    unfolding m by (rule bit_word_eqI) (auto simp: bit_simps)
  then show ?thesis
    by (simp only: CLKPWR_GetPCLKSEL_def CLKPWR_SetPCLKDiv_def shl_reg_def shr_reg_def Let_def
        LPC_SC_TypeDef.simps LPC_SC_TypeDef.update_convs if_True if_False split: if_splits) simp
qed

lemma timer_pclk:
  "t_sc h = CLKPWR_SetPCLKDiv (CLKPWR_PCLKSEL_TIMER t) CLKPWR_PCLKSEL_CCLK_DIV_4 sc \<Longrightarrow> TIM_GetPClock t h = t_clk h div 4"
  by (simp add: TIM_GetPClock_def CLKPWR_GetPCLK_def pclksel_div4)

lemma usec_val:
  assumes "TIM_GetPClock t h = c div 4"
  shows "unat (TIM_ConverUSecToVal t 100 h) = unat c div 4 * 100 div 1000000"
proof -
  let ?n = "unat c div 4 * 100 div 1000000"
  have b: "unat c < 4294967296" using unsigned_less[of c, where 'a = nat] by simp
  have "unat (ucast (c div 4) * 100 :: 64 word) = unat c div 4 * 100"
    using b by (simp add: unat_word_ariths unsigned_ucast_eq unat_div take_bit_nat_eq_self)
  then have "unat ((ucast (c div 4) * 100) div (1000000 :: 64 word)) = ?n" by (simp add: unat_div)
  moreover have "?n < 4294967296" using b by linarith
  ultimately show ?thesis
    using assms by (simp add: TIM_ConverUSecToVal_def unsigned_ucast_eq take_bit_nat_eq_self)
qed

lemma mcr_bits:
  "bit (7 :: u32) n \<longleftrightarrow> n < 3" "bit (3 :: u32) n \<longleftrightarrow> n < 2" "bit (2 :: u32) n \<longleftrightarrow> n = 1"
proof -
  have "(7 :: u32) = mask 3" "(3 :: u32) = mask 2" "(2 :: u32) = push_bit 1 1" by (simp_all add: mask_eq_exp_minus_1)
  note e = this
  show "bit (7 :: u32) n \<longleftrightarrow> n < 3" unfolding e(1) bit_mask_iff by auto
  show "bit (3 :: u32) n \<longleftrightarrow> n < 2" unfolding e(2) bit_mask_iff by auto
  show "bit (2 :: u32) n \<longleftrightarrow> n = 1" unfolding e(3) bit_push_bit_iff bit_1_iff by auto
qed

text \<open>
  \<^verbatim>\<open>time_init\<close> starts timer 1 with a prescaler of exactly the clock periods in 100 microseconds
  (rounded down), a match value of 10 that interrupts and resets the counter and does not stop it,
  cleared counters and flags and the interrupt enabled; the other timers are not touched. The comments
  of the source call this 1000 interrupts per second and timer 0.
\<close>

lemma time_init_period:
  assumes "40000 \<le> t_clk h"
  shows "\<exists>h'. time_init h = Some h' \<and>
    unat (T_PR (tims h' TIM1)) + 1 = unat (t_clk h) div 4 * 100 div 1000000 \<and>
    T_MR0 (tims h' TIM1) = 10 \<and> T_MCR (tims h' TIM1) AND 7 = 3 \<and> bit (T_TCR (tims h' TIM1)) 0 \<and>
    T_TC (tims h' TIM1) = 0 \<and> T_PC (tims h' TIM1) = 0 \<and> T_IR (tims h' TIM1) = 0 \<and>
    2 \<in> t_nvic h' \<and> (\<forall>t \<in> - {TIM1}. tims h' t = tims h t)"
proof -
  let ?sc = "CLKPWR_ConfigPPWR (CLKPWR_PCONP_PCTIM TIM1) ENABLE (t_sc h)"
  let ?h2 = "t_upd TIM1 (\<lambda>r. r\<lparr>T_CCR := (T_CCR r AND NOT 0x3) OR 0, T_TC := 0, T_PC := 0, T_PR := 0\<rparr>)
    (h\<lparr>t_sc := CLKPWR_SetPCLKDiv (CLKPWR_PCLKSEL_TIMER TIM1) CLKPWR_PCLKSEL_CCLK_DIV_4 ?sc\<rparr>)"
  let ?v = "TIM_ConverUSecToVal TIM1 100 ?h2"
  have pc: "TIM_GetPClock TIM1 ?h2 = t_clk h div 4" using timer_pclk[of ?h2 TIM1 ?sc] by simp
  have v: "unat ?v = unat (t_clk h) div 4 * 100 div 1000000" by (rule usec_val[OF pc])
  have "10000 * 100 \<le> unat (t_clk h) div 4 * 100"
    using assms by (intro mult_right_mono) (simp_all add: word_le_nat_alt)
  then have "1 \<le> unat ?v" unfolding v using div_le_mono[of 1000000 "unat (t_clk h) div 4 * 100" 1000000] by simp
  then have p: "unat (?v - 1) + 1 = unat ?v" by (simp add: unat_sub_if' )
  have m: "((x AND NOT 7) OR 1 OR 2) AND 7 = (3 :: u32)" for x :: u32
  proof (rule bit_word_eqI)
    fix n :: nat
    show "bit (((x AND NOT 7) OR 1 OR 2) AND 7) n = bit (3 :: u32) n"
      unfolding bit_and_iff bit_or_iff bit_not_iff mcr_bits bit_1_iff by auto
  qed
  have ir: "(- 4294967296 :: u32) = 0" by transfer simp
  obtain h' where h': "time_init h = Some h'" "T_PR (tims h' TIM1) = ?v - 1"
      "T_MCR (tims h' TIM1) = (T_MCR (tims h TIM1) AND NOT 7) OR 1 OR 2"
      "T_MR0 (tims h' TIM1) = 10" "bit (T_TCR (tims h' TIM1)) 0" "T_TC (tims h' TIM1) = 0" "T_PC (tims h' TIM1) = 0"
      "T_IR (tims h' TIM1) = 0" "2 \<in> t_nvic h'" "\<forall>t \<in> - {TIM1}. tims h' t = tims h t"
    by (simp add: time_init_def TIM_Init_def TIM_ConfigMatch_def TIM_Cmd_def set_bit_if_def wr_IR_def
        TIM_MCR_CHANNEL_MASKBIT_def Let_def bit_simps or.assoc ir)
  show ?thesis using h' v p m[of "T_MCR (tims h TIM1)"] by (intro exI[of _ h']) simp
qed

definition tim_example :: tim_hw where
  "tim_example = \<lparr>tims = (\<lambda>_. \<lparr>T_IR = 0, T_TCR = 0, T_TC = 7, T_PR = 0, T_PC = 0, T_MCR = 0x12, T_MR0 = 0, T_MR1 = 0,
       T_CCR = 0, T_CR0 = 0, T_CR1 = 0, T_EMR = 0\<rparr>),
     t_sc = \<lparr>PCLKSEL0 = 0xFFFFFFFF, PCLKSEL1 = 0, PCONP = 0\<rparr>, t_clk = 100000000, t_nvic = {},
     t_pins = \<lparr>PINSEL = replicate 11 0, PINMODE = replicate 10 0, PINMODE_OD = replicate 5 0, I2CPADCFG = 0\<rparr>\<rparr>"

lemma time_init_period_example:
  "\<exists>h'. time_init tim_example = Some h' \<and> unat (T_PR (tims h' TIM1)) + 1 = 2500"
proof -
  have "40000 \<le> t_clk tim_example" "t_clk tim_example = 100000000" by (simp_all add: tim_example_def)
  with time_init_period[of tim_example] show ?thesis by auto
qed

text \<open>A delay on timer 1, 2 or 3 leaves the match value of that timer alone and overwrites the one of timer 0.\<close>

lemma delayMs_programs_timer0:
  assumes "timer_of n = Some t" "t \<noteq> TIM0" "delayMs n ms obs h = Some h'"
  shows "T_MR0 (tims h' t) = T_MR0 (tims h t)"
    "T_MR0 (tims h' TIM0) = (t_clk h div 4) div (1000 div ms)"
  using assms by (auto simp: delayMs_def wr_IR_def split: if_splits bind_splits)

text \<open>A delay returns when the timer is seen stopped, for every delay from 1 to 1000 milliseconds.\<close>

lemma delayMs_returns:
  assumes "1 \<le> ms" "ms \<le> 1000" "v AND 1 = 0" "\<forall>x \<in> set vs. x AND 1 \<noteq> 0"
  shows "\<exists>h'. delayMs n ms (vs @ [v]) h = Some h'"
proof -
  have "wait_stopped (vs @ [v]) = Some ()" using assms(3,4) by (induction vs) auto
  moreover have "1000 div ms \<noteq> 0"
  proof -
    have "unat ms \<le> 1000" "0 < unat ms" using assms(1,2) by (simp_all add: word_le_nat_alt)
    then have "0 < 1000 div unat ms" by (simp add: div_greater_zero_iff)
    then show ?thesis by (simp add: word_unat_eq_iff unat_div)
  qed
  moreover have "ms \<noteq> 0" using assms(1) by auto
  ultimately show ?thesis by (auto simp: delayMs_def split: option.splits)
qed

text \<open>Configuring channel 1 clears the reset and stop bits of channel 0 and keeps its own old reset and stop bits.\<close>

lemma TIM_ConfigMatch_channel1:
  assumes "MatchChannel cfg = 1" "TIM_ConfigMatch t cfg h = Some h'"
  shows "\<not> bit (T_MCR (tims h' t)) 1 \<and> \<not> bit (T_MCR (tims h' t)) 2 \<and>
    (bit (T_MCR (tims h t)) 4 \<longrightarrow> bit (T_MCR (tims h' t)) 4) \<and> (bit (T_MCR (tims h t)) 5 \<longrightarrow> bit (T_MCR (tims h' t)) 5)"
proof -
  have b: "bit (push_bit (Suc 0) (7 :: u32)) n \<longleftrightarrow> 1 \<le> n \<and> n < 4" for n
    unfolding bit_push_bit_iff mcr_bits by auto
  have "T_MCR (tims h' t) = set_bit_if (StopOnMatch cfg) 5 (set_bit_if (ResetOnMatch cfg) 4
      (set_bit_if (IntOnMatch cfg) 3 (T_MCR (tims h t) AND NOT (push_bit 1 7))))"
    using assms by (auto simp: TIM_ConfigMatch_def TIM_MCR_CHANNEL_MASKBIT_def Let_def CHECK_PARAM_def split: if_splits)
  then show ?thesis
    by (simp add: set_bit_if_def bit_or_iff bit_and_iff bit_not_iff b bit_push_bit_iff bit_1_iff del: push_bit_of_1)
qed
end
