(* ===== verification/DemoMain.thy ===== *)
theory DemoMain
  imports BoardIo
begin

unbundle bit_operations_syntax

text \<open>
  The demo application: \<^verbatim>\<open>demo_aoa_can/src/main.c\<close> with its PWM helpers \<^verbatim>\<open>pwm.c\<close> and the pin helpers
  \<^verbatim>\<open>GPIO.c\<close>. The endless loop of \<^verbatim>\<open>main\<close> is a state machine whose control points are the
  statements of the six fade loops; the SysTick interrupt, the PWM interrupt and the hardware that
  raises PWM match flags may act between any two of them. Shown: the brightness levels every
  interleaving can reach and their rate, the completion of the fade cycle, and agreement of the pin
  helpers with the pin connect driver.
\<close>

section \<open>PWM\<close>

record LPC_PWM_TypeDef =
  PW_IR :: u32
  PW_TCR :: u32
  PW_PR :: u32
  PW_MCR :: u32
  PW_MR :: "nat \<Rightarrow> u32"
  PW_PCR :: u32
  PW_LER :: u32

record SysTick_Type =
  ST_LOAD :: u32
  ST_VAL :: u32
  ST_CTRL :: u32

record demo =
  pwm1 :: LPC_PWM_TypeDef
  match_counter1 :: u32
  demo_pins :: LPC_PINCON_TypeDef
  demo_nvic :: "nat set"
  systick :: SysTick_Type
  msTicks :: u32

abbreviation (input) MR0_INT :: u32 where "MR0_INT \<equiv> 0x1"
abbreviation (input) TCR_CNT_EN :: u32 where "TCR_CNT_EN \<equiv> 0x1"
abbreviation (input) TCR_RESET :: u32 where "TCR_RESET \<equiv> 0x2"
abbreviation (input) TCR_PWM_EN :: u32 where "TCR_PWM_EN \<equiv> 0x8"
abbreviation (input) PWMMR0I :: u32 where "PWMMR0I \<equiv> 0x1"
abbreviation (input) PWM1_IRQn :: nat where "PWM1_IRQn \<equiv> 9"

text \<open>Writing a 1 to a bit of the interrupt register clears it, so \<^verbatim>\<open>IR |= regVal\<close> clears every flag.\<close>

definition PWM1_IRQHandler :: "demo \<Rightarrow> demo" where
  "PWM1_IRQHandler s =
     (let regVal = PW_IR (pwm1 s);
          s1 = (if regVal AND MR0_INT \<noteq> 0 then s\<lparr>match_counter1 := match_counter1 s + 1\<rparr> else s)
      in s1\<lparr>pwm1 := (pwm1 s1)\<lparr>PW_IR := PW_IR (pwm1 s1) AND NOT (PW_IR (pwm1 s1) OR regVal)\<rparr>\<rparr>)"

definition PWM_Init :: "u32 \<Rightarrow> u32 \<Rightarrow> u32 \<Rightarrow> demo \<Rightarrow> (bool \<times> demo) option" where
  "PWM_Init ChannelNum PWMPortNum cycle s =
     (if ChannelNum = 1 then do {
        w \<leftarrow> rd (PINSEL (demo_pins s)) 4;
        ws \<leftarrow> wr (PINSEL (demo_pins s)) 4
          (if 1 \<le> PWMPortNum \<and> PWMPortNum \<le> 6 then w OR push_bit (2 * (unat PWMPortNum - 1)) 1 else w);
        Some (True, s\<lparr>match_counter1 := 0, demo_pins := (demo_pins s)\<lparr>PINSEL := ws\<rparr>,
          pwm1 := (pwm1 s)\<lparr>PW_TCR := TCR_RESET, PW_PR := 0, PW_MCR := PWMMR0I,
            PW_MR := (PW_MR (pwm1 s))(0 := cycle), PW_LER := 0x7F\<rparr>,
          demo_nvic := insert PWM1_IRQn (demo_nvic s)\<rparr>) }
      else Some (False, s))"

definition PWM_Set :: "u32 \<Rightarrow> u32 \<Rightarrow> u32 \<Rightarrow> demo \<Rightarrow> demo" where
  "PWM_Set ChannelNum PWMPortNum offset s =
     (if ChannelNum = 1 \<and> 1 \<le> PWMPortNum \<and> PWMPortNum \<le> 6
      then s\<lparr>pwm1 := (pwm1 s)\<lparr>PW_MR := (PW_MR (pwm1 s))(unat PWMPortNum := offset),
             PW_LER := push_bit (unat PWMPortNum) 1\<rparr>\<rparr>
      else s)"

definition PWM_Start :: "u32 \<Rightarrow> demo \<Rightarrow> demo" where
  "PWM_Start channelNum s =
     (if channelNum = 1
      then s\<lparr>pwm1 := (pwm1 s)\<lparr>PW_PCR := 0x7E00, PW_TCR := TCR_CNT_EN OR TCR_PWM_EN\<rparr>\<rparr> else s)"

definition PWM_Stop :: "u32 \<Rightarrow> demo \<Rightarrow> demo" where
  "PWM_Stop channelNum s =
     (if channelNum = 1 then s\<lparr>pwm1 := (pwm1 s)\<lparr>PW_PCR := 0, PW_TCR := 0\<rparr>\<rparr> else s)"

section \<open>Main program\<close>

text \<open>\<^verbatim>\<open>SysTick_Config\<close> of \<^verbatim>\<open>core_cm3.h\<close>, without the interrupt priority.\<close>

definition SysTick_Config :: "u32 \<Rightarrow> SysTick_Type \<Rightarrow> bool \<times> SysTick_Type" where
  "SysTick_Config ticks t =
     (if ticks > 0xFFFFFF then (False, t)
      else (True, t\<lparr>ST_LOAD := (ticks AND 0xFFFFFF) - 1, ST_VAL := 0, ST_CTRL := 0x7\<rparr>))"

definition SysTick_Handler :: "demo \<Rightarrow> demo" where
  "SysTick_Handler s = (if msTicks s \<noteq> 0 then s\<lparr>msTicks := msTicks s - 1\<rparr> else s)"

text \<open>The statements of \<^verbatim>\<open>main\<close> before its endless loop.\<close>

definition main_setup :: "u32 \<Rightarrow> demo \<Rightarrow> demo option" where
  "main_setup SystemCoreClock s0 = do {
     let s = s0\<lparr>systick := snd (SysTick_Config (SystemCoreClock div 1000) (systick s0))\<rparr>;
     (_, s1) \<leftarrow> PWM_Init 1 4 1000 s;
     (_, s2) \<leftarrow> PWM_Init 1 5 1000 s1;
     (_, s3) \<leftarrow> PWM_Init 1 6 1000 s2;
     Some (PWM_Start 1 (PWM_Set 1 6 1000 (PWM_Set 1 5 1000 (PWM_Set 1 4 1000 s3)))) }"

text \<open>
  The six loops. Loop \<open>p\<close> drives PWM channel \<open>loop_chan p\<close>; the first three count from 1000 down
  while the value is above 1, the others from 0 up while it is below 1000. A control point carries
  the loop and the value of its variable: before the loop condition, before \<^verbatim>\<open>msTicks = 1\<close>, and in
  \<^verbatim>\<open>while(msTicks);\<close>.
\<close>

datatype fade_loop = Green_on | Blue_on | Red_on | Green_off | Blue_off | Red_off

fun loop_chan :: "fade_loop \<Rightarrow> u32" where
  "loop_chan Green_on = 4" | "loop_chan Blue_on = 5" | "loop_chan Red_on = 6"
| "loop_chan Green_off = 4" | "loop_chan Blue_off = 5" | "loop_chan Red_off = 6"

fun next_loop :: "fade_loop \<Rightarrow> fade_loop" where
  "next_loop Green_on = Blue_on" | "next_loop Blue_on = Red_on" | "next_loop Red_on = Green_off"
| "next_loop Green_off = Blue_off" | "next_loop Blue_off = Red_off" | "next_loop Red_off = Green_on"

fun fades_on :: "fade_loop \<Rightarrow> bool" where
  "fades_on Green_on = True" | "fades_on Blue_on = True" | "fades_on Red_on = True"
| "fades_on Green_off = False" | "fades_on Blue_off = False" | "fades_on Red_off = False"

definition loop_init :: "fade_loop \<Rightarrow> u32" where
  "loop_init p = (if fades_on p then 1000 else 0)"

definition loop_cond :: "fade_loop \<Rightarrow> u32 \<Rightarrow> bool" where
  "loop_cond p v = (if fades_on p then v > 1 else v < 1000)"

definition loop_next :: "fade_loop \<Rightarrow> u32 \<Rightarrow> u32" where
  "loop_next p v = (if fades_on p then v - 1 else v + 1)"

datatype demo_point = At_cond fade_loop u32 | At_tick fade_loop u32 | At_wait fade_loop u32

fun main_step :: "demo_point \<times> demo \<Rightarrow> demo_point \<times> demo" where
  "main_step (At_cond p v, s) =
     (if loop_cond p v then (At_tick p v, PWM_Set 1 (loop_chan p) v s)
      else (At_cond (next_loop p) (loop_init (next_loop p)), s))"
| "main_step (At_tick p v, s) = (At_wait p v, s\<lparr>msTicks := 1\<rparr>)"
| "main_step (At_wait p v, s) =
     (if msTicks s \<noteq> 0 then (At_wait p v, s) else (At_cond p (loop_next p v), s))"

text \<open>What may happen next; \<open>Match m\<close> is the PWM counter raising match flags.\<close>

datatype demo_event = Main | SysTick | Match u32 | PWM_irq

fun demo_next :: "demo_event \<Rightarrow> demo_point \<times> demo \<Rightarrow> demo_point \<times> demo" where
  "demo_next Main c = main_step c"
| "demo_next SysTick c = (fst c, SysTick_Handler (snd c))"
| "demo_next (Match m) c =
     (fst c, (snd c)\<lparr>pwm1 := (pwm1 (snd c))\<lparr>PW_IR := PW_IR (pwm1 (snd c)) OR m\<rparr>\<rparr>)"
| "demo_next PWM_irq c = (fst c, PWM1_IRQHandler (snd c))"

definition demo_run :: "demo_event list \<Rightarrow> demo_point \<times> demo \<Rightarrow> demo_point \<times> demo" where
  "demo_run es c = fold demo_next es c"

section \<open>Pin helpers\<close>

definition GPIO_SetPinFunc :: "u8 \<Rightarrow> u8 \<Rightarrow> u8 \<Rightarrow> LPC_PINCON_TypeDef \<Rightarrow> LPC_PINCON_TypeDef option" where
  "GPIO_SetPinFunc portNum pinNum func pc = (case reg_pos portNum pinNum of (idx, p) \<Rightarrow>
     if p \<ge> 16 then None
     else do {
       w \<leftarrow> rd (PINSEL pc) idx;
       ws \<leftarrow> wr (PINSEL pc) idx (set_field p func w);
       Some (pc\<lparr>PINSEL := ws\<rparr>) })"

definition GPIO_SetResistorMode :: "u8 \<Rightarrow> u8 \<Rightarrow> u8 \<Rightarrow> LPC_PINCON_TypeDef \<Rightarrow> LPC_PINCON_TypeDef option" where
  "GPIO_SetResistorMode portNum pinNum resMode pc =
     (if portNum = 0 \<and> 27 \<le> pinNum \<and> pinNum \<le> 30 then Some pc
      else case reg_pos portNum pinNum of (idx, p) \<Rightarrow>
        if p \<ge> 16 then None
        else do {
          w \<leftarrow> rd (PINMODE pc) idx;
          ws \<leftarrow> wr (PINMODE pc) idx (set_field p resMode w);
          Some (pc\<lparr>PINMODE := ws\<rparr>) })"

abbreviation (input) OPEN_DRAIN :: u8 where "OPEN_DRAIN \<equiv> 1"

definition GPIO_SetOpenDrainMode :: "u8 \<Rightarrow> u8 \<Rightarrow> u8 \<Rightarrow> LPC_PINCON_TypeDef \<Rightarrow> LPC_PINCON_TypeDef option" where
  "GPIO_SetOpenDrainMode portNum pinNum odMode pc =
     (if portNum = 0 \<and> 27 \<le> pinNum \<and> pinNum \<le> 28 then Some pc
      else if unat pinNum \<ge> 32 then None
      else do {
        w \<leftarrow> rd (PINMODE_OD pc) (unat portNum);
        ws \<leftarrow> wr (PINMODE_OD pc) (unat portNum)
               (if odMode = OPEN_DRAIN then w OR push_bit (unat pinNum) 1
                else w AND NOT (push_bit (unat pinNum) 1));
        Some (pc\<lparr>PINMODE_OD := ws\<rparr>) })"

text \<open>The macros on the port registers address the port without a check.\<close>

definition GPIO_SETpINdIR :: "u8 \<Rightarrow> u8 \<Rightarrow> bool \<Rightarrow> gpio_ports \<Rightarrow> gpio_ports option" where
  "GPIO_SETpINdIR portNum pinNum dir_out g =
     (if unat portNum > 4 \<or> unat pinNum \<ge> 32 then None
      else let p = g (unat portNum); m = push_bit (unat pinNum) 1
           in Some (g(unat portNum := p\<lparr>FIODIR := (if dir_out then FIODIR p OR m else FIODIR p AND NOT m)\<rparr>)))"

definition GPIO_InitPinAsGPIO :: "u8 \<Rightarrow> u8 \<Rightarrow> bool \<Rightarrow> u8 \<Rightarrow> u8 \<Rightarrow>
    LPC_PINCON_TypeDef \<times> gpio_ports \<Rightarrow> (LPC_PINCON_TypeDef \<times> gpio_ports) option" where
  "GPIO_InitPinAsGPIO portNum pinNum dir_out resMode odMode pg = do {
     p1 \<leftarrow> GPIO_SetPinFunc portNum pinNum 0 (fst pg);
     g \<leftarrow> GPIO_SETpINdIR portNum pinNum dir_out (snd pg);
     p2 \<leftarrow> GPIO_SetResistorMode portNum pinNum resMode p1;
     p3 \<leftarrow> GPIO_SetOpenDrainMode portNum pinNum odMode p2;
     Some (p3, g) }"

definition GPIO_InitPinNotAsGPIO :: "u8 \<Rightarrow> u8 \<Rightarrow> u8 \<Rightarrow> u8 \<Rightarrow> u8 \<Rightarrow>
    LPC_PINCON_TypeDef \<Rightarrow> LPC_PINCON_TypeDef option" where
  "GPIO_InitPinNotAsGPIO portNum pinNum func resMode odMode pc = do {
     p1 \<leftarrow> GPIO_SetPinFunc portNum pinNum func pc;
     p2 \<leftarrow> GPIO_SetResistorMode portNum pinNum resMode p1;
     GPIO_SetOpenDrainMode portNum pinNum odMode p2 }"

section \<open>Levels of the fade\<close>

text \<open>The level of a channel while another loop runs: 1000 (first round) or 999 is off, 2 is on.\<close>

fun settled :: "fade_loop \<Rightarrow> u32 set \<times> u32 set \<times> u32 set" where
  "settled Green_on = ({}, {999, 1000}, {999, 1000})"
| "settled Blue_on = ({2}, {}, {999, 1000})"
| "settled Red_on = ({2}, {2}, {})"
| "settled Green_off = ({}, {2}, {2})"
| "settled Blue_off = ({999}, {}, {2})"
| "settled Red_off = ({999}, {999}, {})"

definition others_settled :: "fade_loop \<Rightarrow> (nat \<Rightarrow> u32) \<Rightarrow> bool" where
  "others_settled p m = (case settled p of (G, B, R) \<Rightarrow>
     (loop_chan p \<noteq> 4 \<longrightarrow> m 4 \<in> G) \<and> (loop_chan p \<noteq> 5 \<longrightarrow> m 5 \<in> B) \<and> (loop_chan p \<noteq> 6 \<longrightarrow> m 6 \<in> R))"

definition own_level :: "fade_loop \<Rightarrow> u32 \<Rightarrow> u32 \<Rightarrow> bool" where
  "own_level p v r =
     (if fades_on p then 1 \<le> v \<and> v \<le> 1000 \<and> (if v = 1000 then r \<in> {999, 1000} else r = v + 1)
      else v \<le> 1000 \<and> (if v = 0 then r = 2 else r = v - 1))"

definition point_inv :: "demo_point \<Rightarrow> demo \<Rightarrow> bool" where
  "point_inv pt s = (case pt of
     At_cond p v \<Rightarrow> others_settled p (PW_MR (pwm1 s)) \<and> own_level p v (PW_MR (pwm1 s) (unat (loop_chan p))) \<and> msTicks s = 0
   | At_tick p v \<Rightarrow> others_settled p (PW_MR (pwm1 s)) \<and> loop_cond p v \<and> v \<le> 1000 \<and>
       PW_MR (pwm1 s) (unat (loop_chan p)) = v \<and> msTicks s = 0
   | At_wait p v \<Rightarrow> others_settled p (PW_MR (pwm1 s)) \<and> loop_cond p v \<and> v \<le> 1000 \<and>
       PW_MR (pwm1 s) (unat (loop_chan p)) = v \<and> msTicks s \<le> 1)"

definition pwm_running :: "demo \<Rightarrow> bool" where
  "pwm_running s \<longleftrightarrow> PW_MR (pwm1 s) 0 = 1000 \<and> PW_PCR (pwm1 s) = 0x7E00 \<and> PW_TCR (pwm1 s) = 0x9"

definition demo_inv :: "demo_point \<times> demo \<Rightarrow> bool" where
  "demo_inv c \<longleftrightarrow> point_inv (fst c) (snd c) \<and> pwm_running (snd c)"

lemma PWM_Set_MR:
  "PW_MR (pwm1 (PWM_Set 1 (loop_chan p) v s)) = (PW_MR (pwm1 s))(unat (loop_chan p) := v)"
  by (cases p) (simp_all add: PWM_Set_def)

lemma PWM_Set_frame [simp]:
  "msTicks (PWM_Set c p v s) = msTicks s"
  "pwm_running (PWM_Set 1 (loop_chan q) v s) = pwm_running s"
  "demo_nvic (PWM_Set c p v s) = demo_nvic s" "demo_pins (PWM_Set c p v s) = demo_pins s"
  by (auto simp: PWM_Set_def pwm_running_def split: if_splits) (cases q; simp)+

lemma others_settled_upd [simp]:
  "others_settled p (m(unat (loop_chan p) := v)) = others_settled p m"
  by (cases p) (simp_all add: others_settled_def)

text \<open>Leaving a loop: its channel has the level that the next loops expect.\<close>

lemma loop_exit:
  assumes "others_settled p m" "own_level p v (m (unat (loop_chan p)))" "\<not> loop_cond p v"
  shows "others_settled (next_loop p) m \<and>
    own_level (next_loop p) (loop_init (next_loop p)) (m (unat (loop_chan (next_loop p))))"
proof -
  have "v = 1" if "fades_on p" using assms(2,3) that by (auto simp: own_level_def loop_cond_def intro: antisym)
  moreover have "v = 1000" if "\<not> fades_on p" using assms(2,3) that by (auto simp: own_level_def loop_cond_def)
  ultimately show ?thesis using assms(1,2)
    by (cases p) (auto simp: others_settled_def own_level_def loop_init_def)
qed

lemma loop_go_on:
  assumes "loop_cond p v" "v \<le> 1000"
  shows "own_level p (loop_next p v) v"
proof (cases "fades_on p")
  case True
  then have "1 < v" using assms(1) by (simp add: loop_cond_def)
  then have "1 \<le> v - 1" "v - 1 < v" by (simp_all add: word_less_nat_alt word_le_nat_alt unat_sub_if')
  moreover have "v - 1 \<noteq> 1000" using calculation(2) assms(2) by auto
  ultimately show ?thesis using True assms(2) by (simp add: own_level_def loop_next_def)
next
  case False
  then have v: "v < 1000" using assms(1) by (simp add: loop_cond_def)
  then have "unat (v + 1) = unat v + 1" "unat v < 1000" by (simp_all add: word_less_nat_alt unat_word_ariths)
  then have "v + 1 \<le> 1000" "v + 1 \<noteq> 0" by (auto simp: word_le_nat_alt)
  then show ?thesis using False by (simp add: own_level_def loop_next_def)
qed

lemma main_step_inv:
  assumes "demo_inv c"
  shows "demo_inv (main_step c)"
proof -
  obtain pt s where c: "c = (pt, s)" by (cases c)
  have i: "point_inv pt s" "pwm_running s" using assms c by (simp_all add: demo_inv_def)
  show ?thesis
  proof (cases pt)
    case (At_cond p v)
    show ?thesis
    proof (cases "loop_cond p v")
      case True
      then have "v \<le> 1000" using i(1) At_cond by (auto simp: point_inv_def own_level_def split: if_splits)
      then show ?thesis using True i At_cond c by (simp add: demo_inv_def point_inv_def PWM_Set_MR)
    next
      case False
      then show ?thesis using i At_cond c loop_exit[of p "PW_MR (pwm1 s)" v] by (simp add: demo_inv_def point_inv_def)
    qed
  next
    case (At_tick p v)
    then show ?thesis using i c by (simp add: demo_inv_def point_inv_def pwm_running_def)
  next
    case (At_wait p v)
    then show ?thesis using i c loop_go_on[of p v] by (auto simp: demo_inv_def point_inv_def)
  qed
qed

lemma demo_next_inv: "demo_inv c \<Longrightarrow> demo_inv (demo_next e c)"
proof (cases e)
  case SysTick
  assume "demo_inv c"
  then have i: "point_inv (fst c) (snd c)" "pwm_running (snd c)" by (simp_all add: demo_inv_def)
  have "msTicks (snd c) - 1 = 0" if "msTicks (snd c) \<le> 1" "msTicks (snd c) \<noteq> 0"
  proof -
    have "unat (msTicks (snd c)) = 1" using that by (simp add: word_le_nat_alt le_Suc_eq unat_eq_0)
    then have "msTicks (snd c) = 1" by (simp add: word_unat_eq_iff)
    then show ?thesis by simp
  qed
  then show ?thesis using i SysTick
    by (auto simp: demo_inv_def point_inv_def pwm_running_def SysTick_Handler_def split: demo_point.splits)
next
  case (Match m)
  assume "demo_inv c"
  then show ?thesis using Match by (auto simp: demo_inv_def point_inv_def pwm_running_def split: demo_point.splits)
next
  case PWM_irq
  assume "demo_inv c"
  then show ?thesis using PWM_irq
    by (auto simp: demo_inv_def point_inv_def pwm_running_def PWM1_IRQHandler_def Let_def split: demo_point.splits)
qed (simp add: main_step_inv)

lemma demo_run_inv: "demo_inv c \<Longrightarrow> demo_inv (demo_run es c)"
  by (induction es arbitrary: c) (simp_all add: demo_run_def demo_next_inv)

text \<open>The state in which the endless loop starts.\<close>

lemma main_setup_inv:
  assumes "4 < length (PINSEL (demo_pins s0))" "msTicks s0 = 0"
  shows "\<exists>s. main_setup clk s0 = Some s \<and> demo_inv (At_cond Green_on 1000, s)"
  using assms
  by (simp add: main_setup_def PWM_Init_def wr_def PWM_Set_def PWM_Start_def demo_inv_def point_inv_def
      others_settled_def own_level_def pwm_running_def)

lemma point_level:
  assumes "point_inv pt s"
  obtains p where "others_settled p (PW_MR (pwm1 s))" "PW_MR (pwm1 s) (unat (loop_chan p)) \<le> 1000"
proof (cases pt)
  case (At_cond p v)
  let ?r = "PW_MR (pwm1 s) (unat (loop_chan p))"
  have o: "others_settled p (PW_MR (pwm1 s))" "own_level p v ?r" using assms At_cond by (simp_all add: point_inv_def)
  have "?r \<le> 1000"
  proof (cases "v = 1000 \<or> v = 0")
    case True
    then show ?thesis using o(2) by (auto simp: own_level_def split: if_splits)
  next
    case False
    have "v \<le> 1000" using o(2) by (simp add: own_level_def split: if_splits)
    then have "v < 1000" using False by (simp add: less_le)
    then have "unat v < 1000" "0 < unat v" using False by (simp_all add: word_less_nat_alt unat_gt_0)
    then have "v + 1 \<le> 1000" "v - 1 \<le> 1000" by (simp_all add: word_le_nat_alt unat_word_ariths unat_sub_if')
    then show ?thesis using o(2) False by (auto simp: own_level_def split: if_splits)
  qed
  with o(1) that show thesis by blast
qed (use assms that in \<open>auto simp: point_inv_def\<close>)

text \<open>The number of brightness settings and of timer ticks in a run.\<close>

fun sets :: "demo_event list \<Rightarrow> demo_point \<times> demo \<Rightarrow> nat" where
  "sets [] c = 0"
| "sets (e # es) c =
     (case (e, fst c) of (Main, At_cond p v) \<Rightarrow> (if loop_cond p v then 1 else 0) | _ \<Rightarrow> 0) + sets es (demo_next e c)"

definition may_set :: "demo_point \<times> demo \<Rightarrow> nat" where
  "may_set c = (case fst c of At_cond p v \<Rightarrow> 1 | At_tick p v \<Rightarrow> 0 | At_wait p v \<Rightarrow> if msTicks (snd c) = 0 then 1 else 0)"

lemma sets_bound: "sets es c \<le> count_list es SysTick + may_set c"
proof (induction es arbitrary: c)
  case Nil
  then show ?case by simp
next
  case (Cons e es)
  obtain pt s where c: "c = (pt, s)" by (cases c)
  have IH: "sets es (demo_next e c) \<le> count_list es SysTick + may_set (demo_next e c)" by (rule Cons.IH)
  show ?case
  proof (cases e)
    case Main
    then show ?thesis using IH c by (cases pt) (auto simp: may_set_def split: if_splits)
  next
    case SysTick
    have "may_set (demo_next e c) \<le> 1" by (simp add: may_set_def split: demo_point.splits)
    then show ?thesis using IH SysTick by simp
  next
    case (Match m)
    then show ?thesis using IH c by (cases pt) (auto simp: may_set_def)
  next
    case PWM_irq
    then show ?thesis using IH c by (cases pt) (auto simp: may_set_def PWM1_IRQHandler_def Let_def)
  qed
qed

text \<open>
  \<^bold>\<open>C38\<close>. In every interleaving of the main program with the SysTick interrupt, the PWM interrupt and
  the match hardware, the PWM stays enabled with its cycle of 1000, no channel gets a level above the
  cycle, the two colours that are not being faded rest at 2, 999 or 1000, and the brightness is
  set at most once per tick of the millisecond timer (once more at the start).
\<close>

theorem demo_levels:
  assumes "4 < length (PINSEL (demo_pins s0))" "msTicks s0 = 0"
  shows "\<exists>s. main_setup clk s0 = Some s \<and>
    (\<forall>es pt s'. demo_run es (At_cond Green_on 1000, s) = (pt, s') \<longrightarrow>
      pwm_running s' \<and> (\<forall>ch \<in> {4, 5, 6}. PW_MR (pwm1 s') ch \<le> PW_MR (pwm1 s') 0) \<and>
      (\<exists>p. \<forall>ch \<in> {4, 5, 6} - {unat (loop_chan p)}. PW_MR (pwm1 s') ch \<in> {2, 999, 1000}) \<and>
      sets es (At_cond Green_on 1000, s) \<le> count_list es SysTick + 1)"
proof -
  obtain s where s: "main_setup clk s0 = Some s" "demo_inv (At_cond Green_on 1000, s)"
    using main_setup_inv[OF assms] by blast
  show ?thesis
  proof (intro exI[of _ s] conjI s(1) allI impI)
    fix es pt s'
    assume r: "demo_run es (At_cond Green_on 1000, s) = (pt, s')"
    have i: "point_inv pt s'" "pwm_running s'" using demo_run_inv[OF s(2), of es] r by (simp_all add: demo_inv_def)
    show "pwm_running s'" by (rule i(2))
    obtain p where p: "others_settled p (PW_MR (pwm1 s'))" "PW_MR (pwm1 s') (unat (loop_chan p)) \<le> 1000"
      using point_level[OF i(1)] by blast
    show "\<exists>p. \<forall>ch \<in> {4, 5, 6} - {unat (loop_chan p)}. PW_MR (pwm1 s') ch \<in> {2, 999, 1000}"
      by (rule exI[of _ p]) (use p(1) in \<open>cases p; auto simp: others_settled_def\<close>)
    show "\<forall>ch \<in> {4, 5, 6}. PW_MR (pwm1 s') ch \<le> PW_MR (pwm1 s') 0"
      using p i(2) by (cases p) (auto simp: others_settled_def pwm_running_def)
    show "sets es (At_cond Green_on 1000, s) \<le> count_list es SysTick + 1"
      using sets_bound[of es "(At_cond Green_on 1000, s)"] by (simp add: may_set_def)
  qed
qed

definition demo0 :: demo where
  "demo0 = \<lparr>pwm1 = \<lparr>PW_IR = 0, PW_TCR = 0, PW_PR = 0, PW_MCR = 0, PW_MR = (\<lambda>_. 0), PW_PCR = 0, PW_LER = 0\<rparr>,
     match_counter1 = 0,
     demo_pins = \<lparr>PINSEL = replicate 11 0, PINMODE = replicate 10 0, PINMODE_OD = replicate 5 0, I2CPADCFG = 0\<rparr>,
     demo_nvic = {}, systick = \<lparr>ST_LOAD = 0, ST_VAL = 0, ST_CTRL = 0\<rparr>, msTicks = 0\<rparr>"

theorem demo_levels_witness:
  "\<exists>s. main_setup 100000000 demo0 = Some s \<and>
    sets [Main, SysTick, Main, Main] (At_cond Green_on 1000, s) \<le> 2"
  using demo_levels[of demo0 100000000] by (auto simp: demo0_def)

section \<open>Completion of the fade\<close>

text \<open>One pass of a loop body with the tick that ends its wait, a whole loop, and the six loops.\<close>

definition body_events :: "demo_event list" where
  "body_events = [Main, Main, SysTick, Main]"

definition loop_events :: "fade_loop \<Rightarrow> demo_event list" where
  "loop_events p = concat (replicate (if fades_on p then 999 else 1000) body_events) @ [Main]"

definition cycle_events :: "demo_event list" where
  "cycle_events = concat (map loop_events [Green_on, Blue_on, Red_on, Green_off, Blue_off, Red_off])"

lemma demo_run_append: "demo_run (xs @ ys) c = demo_run ys (demo_run xs c)"
  by (simp add: demo_run_def)

lemma body_run:
  assumes "loop_cond p v" "msTicks s = 0"
  shows "demo_run body_events (At_cond p v, s) = (At_cond p (loop_next p v), PWM_Set 1 (loop_chan p) v s)"
proof -
  have "s\<lparr>msTicks := 0\<rparr> = s" if "msTicks s = 0" for s :: demo using that by (cases s) simp
  then show ?thesis using assms by (simp add: demo_run_def body_events_def SysTick_Handler_def)
qed

lemma PWM_Set_twice: "PWM_Set 1 (loop_chan p) v (PWM_Set 1 (loop_chan p) u s) = PWM_Set 1 (loop_chan p) v s"
  by (cases p) (simp_all add: PWM_Set_def)

lemma bodies_run:
  assumes "\<And>k. k < n \<Longrightarrow> loop_cond p ((loop_next p ^^ k) v)"
  shows "msTicks s = 0 \<Longrightarrow> 0 < n \<Longrightarrow>
    demo_run (concat (replicate n body_events)) (At_cond p v, s) =
      (At_cond p ((loop_next p ^^ n) v), PWM_Set 1 (loop_chan p) ((loop_next p ^^ (n - 1)) v) s)"
  using assms
proof (induction n arbitrary: v s)
  case (Suc n)
  have r: "demo_run body_events (At_cond p v, s) = (At_cond p (loop_next p v), PWM_Set 1 (loop_chan p) v s)"
    using Suc.prems(3)[of 0] by (intro body_run Suc.prems) simp
  have h: "loop_cond p ((loop_next p ^^ k) (loop_next p v))" if "k < n" for k
    using Suc.prems(3)[of "Suc k"] that by (simp add: funpow_swap1)
  show ?case
  proof (cases n)
    case (Suc m)
    have "demo_run (concat (replicate n body_events)) (At_cond p (loop_next p v), PWM_Set 1 (loop_chan p) v s) =
        (At_cond p ((loop_next p ^^ n) (loop_next p v)), PWM_Set 1 (loop_chan p) ((loop_next p ^^ (n - 1)) (loop_next p v)) s)"
      using Suc.IH[of "PWM_Set 1 (loop_chan p) v s" "loop_next p v"] h Suc Suc.prems(1) by (simp add: PWM_Set_twice)
    then show ?thesis using r Suc by (simp add: demo_run_append funpow_swap1)
  qed (use r in simp)
qed simp

lemma loop_values:
  assumes "k \<le> 1000"
  shows "(loop_next p ^^ k) (loop_init p) = word_of_nat (if fades_on p then 1000 - k else k)"
  using assms
proof (induction k)
  case 0
  then show ?case by (simp add: loop_init_def)
next
  case (Suc k)
  then have "(1000 - k :: nat) = Suc (1000 - Suc k)" by simp
  then have "word_of_nat (1000 - k) - 1 = (word_of_nat (1000 - Suc k) :: u32)" by (metis add_diff_cancel_left' of_nat_Suc)
  moreover have "(loop_next p ^^ Suc k) (loop_init p) = loop_next p (word_of_nat (if fades_on p then 1000 - k else k))"
    using Suc by simp
  ultimately show ?case unfolding loop_next_def by (auto simp: add.commute simp del: of_nat_diff funpow.simps)
qed

lemma loop_holds:
  assumes "k < (if fades_on p then 999 else 1000)"
  shows "loop_cond p ((loop_next p ^^ k) (loop_init p))"
proof -
  have "unat (word_of_nat n :: u32) = n" if "n \<le> 1000" for n
    using that by (simp add: unat_of_nat take_bit_nat_eq_self)
  then have u: "unat (word_of_nat (1000 - k) :: u32) = 1000 - k" "unat (word_of_nat k :: u32) = k"
    using assms by (simp_all split: if_splits del: of_nat_diff)
  have "(loop_next p ^^ k) (loop_init p) = word_of_nat (if fades_on p then 1000 - k else k)"
    using assms by (intro loop_values) (simp split: if_splits)
  then show ?thesis using assms u by (simp add: loop_cond_def word_less_nat_alt del: of_nat_diff split: if_splits)
qed

lemma loop_run:
  assumes "msTicks s = 0"
  shows "demo_run (loop_events p) (At_cond p (loop_init p), s) =
    (At_cond (next_loop p) (loop_init (next_loop p)), PWM_Set 1 (loop_chan p) (if fades_on p then 2 else 999) s)"
proof -
  let ?n = "if fades_on p then 999 else 1000 :: nat"
  have r: "demo_run (concat (replicate ?n body_events)) (At_cond p (loop_init p), s) =
      (At_cond p ((loop_next p ^^ ?n) (loop_init p)), PWM_Set 1 (loop_chan p) ((loop_next p ^^ (?n - 1)) (loop_init p)) s)"
    by (rule bodies_run[OF loop_holds assms]) simp_all
  have v: "(loop_next p ^^ ?n) (loop_init p) = (if fades_on p then 1 else 1000)"
      "(loop_next p ^^ (?n - 1)) (loop_init p) = (if fades_on p then 2 else 999)"
    using loop_values[of ?n p] loop_values[of "?n - 1" p] by (simp_all split: if_splits)
  have "\<not> loop_cond p (if fades_on p then 1 else 1000)" by (simp add: loop_cond_def)
  then have "demo_run [Main] (At_cond p (if fades_on p then 1 else 1000), s') =
      (At_cond (next_loop p) (loop_init (next_loop p)), s')" for s'
    by (simp add: demo_run_def)
  then show ?thesis unfolding loop_events_def demo_run_append r v by simp
qed

definition faded :: "demo \<Rightarrow> demo" where
  "faded s = s\<lparr>pwm1 := (pwm1 s)\<lparr>PW_MR := (PW_MR (pwm1 s))(4 := 999, 5 := 999, 6 := 999), PW_LER := 0x40\<rparr>\<rparr>"

lemma cycle_run:
  assumes "msTicks s = 0"
  shows "demo_run cycle_events (At_cond Green_on 1000, s) = (At_cond Green_on 1000, faded s)"
proof -
  have i: "loop_init Green_on = 1000" by (simp add: loop_init_def)
  show ?thesis
    using loop_run[OF assms, of Green_on] loop_run[of _ Blue_on] loop_run[of _ Red_on] loop_run[of _ Green_off]
      loop_run[of _ Blue_off] loop_run[of _ Red_off] assms
    by (simp add: cycle_events_def demo_run_append i, simp add: PWM_Set_def faded_def fun_upd_twist)
qed



section \<open>Pin helpers and the pin connect driver\<close>

definition cfg_of :: "u8 \<Rightarrow> u8 \<Rightarrow> u8 \<Rightarrow> u8 \<Rightarrow> u8 \<Rightarrow> PINSEL_CFG_Type" where
  "cfg_of portNum pinNum func resMode odMode =
     \<lparr>Portnum = portNum, Pinnum = pinNum, Funcnum = func, Pinmode = resMode, OpenDrain = odMode\<rparr>"

text \<open>
  The pin helper \<^verbatim>\<open>GPIO_InitPinNotAsGPIO\<close> is equivalent to \<^verbatim>\<open>PINSEL_ConfigPin\<close> of the driver library
  on every pin of every port except P0[27] to P0[30]; on P0[27] and P0[28] it sets the pin function only,
  on P0[29] and P0[30] the pin function and the open-drain mode.
\<close>

lemma GPIO_InitPin_equiv:
  "GPIO_InitPinNotAsGPIO portNum pinNum func resMode odMode pc =
    (if portNum = 0 \<and> pinNum \<in> {27, 28} then PINSEL_SetPinFunc portNum pinNum func pc
     else if portNum = 0 \<and> pinNum \<in> {29, 30}
     then Option.bind (PINSEL_SetPinFunc portNum pinNum func pc) (PINSEL_SetOpenDrainMode portNum pinNum odMode)
     else PINSEL_ConfigPin (cfg_of portNum pinNum func resMode odMode) pc)"
proof -
  have f: "GPIO_SetPinFunc a b c = PINSEL_SetPinFunc a b c" for a b c
    by (intro ext) (simp add: GPIO_SetPinFunc_def PINSEL_SetPinFunc_def)
  have r: "GPIO_SetResistorMode a b c pc = (if a = 0 \<and> b \<in> {27, 28, 29, 30} then Some pc else PINSEL_SetResistorMode a b c pc)" for a b c pc
  proof -
    have "27 \<le> b \<and> b \<le> 30 \<longleftrightarrow> b \<in> {27, 28, 29, 30}"
      by (auto simp: word_le_nat_alt word_unat_eq_iff)
    then show ?thesis by (auto simp: GPIO_SetResistorMode_def PINSEL_SetResistorMode_def)
  qed
  have o: "GPIO_SetOpenDrainMode a b c pc = (if a = 0 \<and> b \<in> {27, 28} then Some pc else PINSEL_SetOpenDrainMode a b c pc)" for a b c pc
  proof -
    have "27 \<le> b \<and> b \<le> 28 \<longleftrightarrow> b \<in> {27, 28}" by (auto simp: word_le_nat_alt word_unat_eq_iff)
    then show ?thesis by (auto simp: GPIO_SetOpenDrainMode_def PINSEL_SetOpenDrainMode_def)
  qed
  show ?thesis
    by (cases "portNum = 0") (auto simp: GPIO_InitPinNotAsGPIO_def PINSEL_ConfigPin_def cfg_of_def f r o)
qed
end
