(* ===== verification/FastGpio.thy ===== *)
theory FastGpio
  imports BoardIo
begin

unbundle bit_operations_syntax

text \<open>
  The rest of \<^verbatim>\<open>Lib_MCU/src/lpc17xx_gpio.c\<close>: the stubs for word access and the half-word and byte
  access to the fast GPIO registers. The structures \<^verbatim>\<open>GPIO_HalfWord_TypeDef\<close> and
  \<^verbatim>\<open>GPIO_Byte_TypeDef\<close> overlay the word registers of a port, so that a part of a register is a lane
  of the 32-bit word (the processor is little-endian). A store to a part of FIOSET or FIOCLR acts
  on the pins of that lane, except the masked ones.
\<close>

section \<open>Lanes of a register\<close>

definition lane :: "nat \<Rightarrow> u32 \<Rightarrow> 'a::len word" where
  "lane k w = ucast (drop_bit k w)"

definition set_lane :: "nat \<Rightarrow> 'a::len word \<Rightarrow> u32 \<Rightarrow> u32" where
  "set_lane k v w = (w AND NOT (push_bit k (mask LENGTH('a)))) OR push_bit k (ucast v)"

definition half_off :: "u8 \<Rightarrow> nat" where
  "half_off halfwordNum = (if halfwordNum \<noteq> 0 then 16 else 0)"

definition byte_off :: "u8 \<Rightarrow> nat" where
  "byte_off byteNum = 8 * unat byteNum"

section \<open>Effect of a store on a port\<close>

definition dir_lane :: "nat \<Rightarrow> 'a::len word \<Rightarrow> u8 \<Rightarrow> LPC_GPIO_TypeDef \<Rightarrow> LPC_GPIO_TypeDef" where
  "dir_lane k v dir p = p\<lparr>FIODIR := set_lane k
     (if dir \<noteq> 0 then lane k (FIODIR p) OR v else lane k (FIODIR p) AND NOT v) (FIODIR p)\<rparr>"

definition mask_lane :: "nat \<Rightarrow> 'a::len word \<Rightarrow> u8 \<Rightarrow> LPC_GPIO_TypeDef \<Rightarrow> LPC_GPIO_TypeDef" where
  "mask_lane k v m p = p\<lparr>FIOMASK := set_lane k
     (if m \<noteq> 0 then lane k (FIOMASK p) OR v else lane k (FIOMASK p) AND NOT v) (FIOMASK p)\<rparr>"

definition store_set :: "nat \<Rightarrow> 'a::len word \<Rightarrow> LPC_GPIO_TypeDef \<Rightarrow> LPC_GPIO_TypeDef" where
  "store_set k v p = p\<lparr>FIOLATCH := set_lane k
     (lane k (FIOLATCH p) OR (v AND NOT (lane k (FIOMASK p)))) (FIOLATCH p)\<rparr>"

definition store_clr :: "nat \<Rightarrow> 'a::len word \<Rightarrow> LPC_GPIO_TypeDef \<Rightarrow> LPC_GPIO_TypeDef" where
  "store_clr k v p = p\<lparr>FIOLATCH := set_lane k
     (lane k (FIOLATCH p) AND NOT (v AND NOT (lane k (FIOMASK p)))) (FIOLATCH p)\<rparr>"

section \<open>Word access\<close>

definition FIO_SetDir :: "u8 \<Rightarrow> u32 \<Rightarrow> u8 \<Rightarrow> gpio_ports \<Rightarrow> gpio_ports" where
  "FIO_SetDir portNum bitValue dir = GPIO_SetDir portNum bitValue dir"

definition FIO_SetValue :: "u8 \<Rightarrow> u32 \<Rightarrow> gpio_ports \<Rightarrow> gpio_ports" where
  "FIO_SetValue portNum bitValue = GPIO_SetValue portNum bitValue"

definition FIO_ClearValue :: "u8 \<Rightarrow> u32 \<Rightarrow> gpio_ports \<Rightarrow> gpio_ports" where
  "FIO_ClearValue portNum bitValue = GPIO_ClearValue portNum bitValue"

definition FIO_ReadValue :: "u8 \<Rightarrow> u32 \<Rightarrow> u32" where
  "FIO_ReadValue portNum pin = GPIO_ReadValue portNum pin"

section \<open>Half-word access\<close>

definition FIO_HalfWordSetDir :: "u8 \<Rightarrow> u8 \<Rightarrow> u16 \<Rightarrow> u8 \<Rightarrow> gpio_ports \<Rightarrow> gpio_ports" where
  "FIO_HalfWordSetDir portNum halfwordNum bitValue dir =
     with_port portNum (dir_lane (half_off halfwordNum) bitValue dir)"

definition FIO_HalfWordSetMask :: "u8 \<Rightarrow> u8 \<Rightarrow> u16 \<Rightarrow> u8 \<Rightarrow> gpio_ports \<Rightarrow> gpio_ports" where
  "FIO_HalfWordSetMask portNum halfwordNum bitValue maskValue =
     with_port portNum (mask_lane (half_off halfwordNum) bitValue maskValue)"

definition FIO_HalfWordSetValue :: "u8 \<Rightarrow> u8 \<Rightarrow> u16 \<Rightarrow> gpio_ports \<Rightarrow> gpio_ports" where
  "FIO_HalfWordSetValue portNum halfwordNum bitValue =
     with_port portNum (store_set (half_off halfwordNum) bitValue)"

definition FIO_HalfWordClearValue :: "u8 \<Rightarrow> u8 \<Rightarrow> u16 \<Rightarrow> gpio_ports \<Rightarrow> gpio_ports" where
  "FIO_HalfWordClearValue portNum halfwordNum bitValue =
     with_port portNum (store_clr (half_off halfwordNum) bitValue)"

definition FIO_HalfWordReadValue :: "u8 \<Rightarrow> u8 \<Rightarrow> u32 \<Rightarrow> u16" where
  "FIO_HalfWordReadValue portNum halfwordNum pin =
     (if unat portNum \<le> 4 then lane (half_off halfwordNum) pin else 0)"

section \<open>Byte access\<close>

definition FIO_ByteSetDir :: "u8 \<Rightarrow> u8 \<Rightarrow> u8 \<Rightarrow> u8 \<Rightarrow> gpio_ports \<Rightarrow> gpio_ports" where
  "FIO_ByteSetDir portNum byteNum bitValue dir = with_port portNum (\<lambda>p.
     if byteNum \<le> 3 then dir_lane (byte_off byteNum) bitValue dir p else p)"

definition FIO_ByteSetMask :: "u8 \<Rightarrow> u8 \<Rightarrow> u8 \<Rightarrow> u8 \<Rightarrow> gpio_ports \<Rightarrow> gpio_ports" where
  "FIO_ByteSetMask portNum byteNum bitValue maskValue = with_port portNum (\<lambda>p.
     if byteNum \<le> 3 then mask_lane (byte_off byteNum) bitValue maskValue p else p)"

definition FIO_ByteSetValue :: "u8 \<Rightarrow> u8 \<Rightarrow> u8 \<Rightarrow> gpio_ports \<Rightarrow> gpio_ports" where
  "FIO_ByteSetValue portNum byteNum bitValue = with_port portNum (\<lambda>p.
     if byteNum \<le> 3 then store_set (byte_off byteNum) bitValue p else p)"

definition FIO_ByteClearValue :: "u8 \<Rightarrow> u8 \<Rightarrow> u8 \<Rightarrow> gpio_ports \<Rightarrow> gpio_ports" where
  "FIO_ByteClearValue portNum byteNum bitValue = with_port portNum (\<lambda>p.
     if byteNum \<le> 3 then store_clr (byte_off byteNum) bitValue p else p)"

definition FIO_ByteReadValue :: "u8 \<Rightarrow> u8 \<Rightarrow> u32 \<Rightarrow> u8" where
  "FIO_ByteReadValue portNum byteNum pin =
     (if unat portNum \<le> 4 \<and> byteNum \<le> 3 then lane (byte_off byteNum) pin else 0)"

section \<open>Lanes and words\<close>

lemma bit_lane: "bit (lane k w :: 'a::len word) n \<longleftrightarrow> n < LENGTH('a) \<and> bit w (k + n)"
  by (auto simp: lane_def bit_simps dest: bit_imp_le_length)

lemma bit_lane_word: "bit (push_bit k (ucast v) :: u32) n \<longleftrightarrow> n < 32 \<and> k \<le> n \<and> bit v (n - k)"
  for v :: "'a::len word"
  by (auto simp: bit_simps)

lemma bit_set_lane:
  "n < 32 \<Longrightarrow> bit (set_lane k v w) n \<longleftrightarrow> (if k \<le> n \<and> n < k + LENGTH('a) then bit v (n - k) else bit w n)"
  for v :: "'a::len word"
  by (auto simp: set_lane_def bit_simps dest: bit_imp_le_length)

lemma set_lane_or: "set_lane k (lane k w OR v) w = w OR push_bit k (ucast v)" for v :: "'a::len word"
proof (rule bit_word_eqI)
  fix n :: nat
  assume "n < LENGTH(32)"
  then show "bit (set_lane k (lane k w OR v) w) n = bit (w OR push_bit k (ucast v)) n"
    by (auto simp: bit_set_lane bit_or_iff bit_lane bit_lane_word dest: bit_imp_le_length)
qed

lemma set_lane_andnot: "set_lane k (lane k w AND NOT v) w = w AND NOT (push_bit k (ucast v))" for v :: "'a::len word"
proof (rule bit_word_eqI)
  fix n :: nat
  assume "n < LENGTH(32)"
  then show "bit (set_lane k (lane k w AND NOT v) w) n = bit (w AND NOT (push_bit k (ucast v))) n"
    by (auto simp: bit_set_lane bit_and_iff bit_not_iff bit_lane bit_lane_word dest: bit_imp_le_length)
qed

lemma unmasked_lane:
  "push_bit k (ucast (v AND NOT (lane k m))) = push_bit k (ucast v) AND NOT (m :: u32)" for v :: "'a::len word"
  by (rule bit_word_eqI)
     (auto simp: bit_and_iff bit_not_iff bit_lane bit_lane_word dest: bit_imp_le_length)

lemmas lane_word = set_lane_or set_lane_andnot unmasked_lane

lemma lane_ops:
  "dir_lane k v dir = (\<lambda>p. if dir \<noteq> 0 then p\<lparr>FIODIR := FIODIR p OR push_bit k (ucast v)\<rparr>
     else p\<lparr>FIODIR := FIODIR p AND NOT (push_bit k (ucast v))\<rparr>)"
  "mask_lane k v mv = (\<lambda>p. if mv \<noteq> 0 then p\<lparr>FIOMASK := FIOMASK p OR push_bit k (ucast v)\<rparr>
     else p\<lparr>FIOMASK := FIOMASK p AND NOT (push_bit k (ucast v))\<rparr>)"
  "store_set k v = (\<lambda>p. p\<lparr>FIOLATCH := FIOLATCH p OR (push_bit k (ucast v) AND NOT (FIOMASK p))\<rparr>)"
  "store_clr k v = (\<lambda>p. p\<lparr>FIOLATCH := FIOLATCH p AND NOT (push_bit k (ucast v) AND NOT (FIOMASK p))\<rparr>)"
  unfolding fun_eq_iff dir_lane_def mask_lane_def store_set_def store_clr_def
  by (simp_all add: lane_word del: bit.de_Morgan_conj)

lemma with_port_id: "with_port portNum (\<lambda>p. p) g = g"
  by (simp add: with_port_def)

lemmas gpio_access = GPIO_SetDir_def GPIO_SetValue_def GPIO_ClearValue_def FIO_SetMask_def lane_ops

section \<open>Properties\<close>

text \<open>
  Half-word access is word access on the shifted value: for every port number, half-word number
  and bit pattern, the four half-word operations have the effect of the word operation whose
  argument has the pattern at bits 0 to 15 or 16 to 31, so that the other half of the port is never
  changed, and the value read is that half of the word read.
\<close>

lemma FIO_HalfWord_equiv:
  "FIO_HalfWordSetDir portNum hw v d g = GPIO_SetDir portNum (push_bit (half_off hw) (ucast v)) d g \<and>
   FIO_HalfWordSetMask portNum hw v m g = FIO_SetMask portNum (push_bit (half_off hw) (ucast v)) m g \<and>
   FIO_HalfWordSetValue portNum hw v g = GPIO_SetValue portNum (push_bit (half_off hw) (ucast v)) g \<and>
   FIO_HalfWordClearValue portNum hw v g = GPIO_ClearValue portNum (push_bit (half_off hw) (ucast v)) g \<and>
   FIO_HalfWordReadValue portNum hw pin = ucast (drop_bit (half_off hw) (GPIO_ReadValue portNum pin))"
  by (simp add: FIO_HalfWordSetDir_def FIO_HalfWordSetMask_def FIO_HalfWordSetValue_def
      FIO_HalfWordClearValue_def FIO_HalfWordReadValue_def GPIO_ReadValue_def gpio_access lane_def)

text \<open>
  The same for byte access; a byte number above 3 leaves the port unchanged and reads as 0.
\<close>

lemma FIO_Byte_equiv:
  "FIO_ByteSetDir portNum b v d g = (if b \<le> 3 then GPIO_SetDir portNum (push_bit (byte_off b) (ucast v)) d g else g)"
  "FIO_ByteSetMask portNum b v m g = (if b \<le> 3 then FIO_SetMask portNum (push_bit (byte_off b) (ucast v)) m g else g)"
  "FIO_ByteSetValue portNum b v g = (if b \<le> 3 then GPIO_SetValue portNum (push_bit (byte_off b) (ucast v)) g else g)"
  "FIO_ByteClearValue portNum b v g = (if b \<le> 3 then GPIO_ClearValue portNum (push_bit (byte_off b) (ucast v)) g else g)"
  "FIO_ByteReadValue portNum b pin = (if b \<le> 3 then ucast (drop_bit (byte_off b) (GPIO_ReadValue portNum pin)) else 0)"
  by (simp_all add: FIO_ByteSetDir_def FIO_ByteSetMask_def FIO_ByteSetValue_def FIO_ByteClearValue_def
      FIO_ByteReadValue_def GPIO_ReadValue_def gpio_access lane_def with_port_id)

end
