(* ===== verification/UartModes.thy ===== *)
theory UartModes
  imports UartDriver
begin

unbundle bit_operations_syntax

text \<open>
  The special modes of \<^verbatim>\<open>Lib_MCU/src/lpc17xx_uart.c\<close>: IrDA (UART3), auto-baud, the modem lines and
  RS-485 (UART1). In multi-drop mode the parity bit of a frame tells address frames from data
  frames; \<^verbatim>\<open>UART_RS485Send\<close> chooses it by switching the stick parity for the time of the
  transmission.
\<close>

section \<open>IrDA\<close>

abbreviation (input) UART_ICR_IRDAEN :: u32 where "UART_ICR_IRDAEN \<equiv> 0x01"
abbreviation (input) UART_ICR_IRDAINV :: u32 where "UART_ICR_IRDAINV \<equiv> 0x02"
abbreviation (input) UART_ICR_FIXPULSE_EN :: u32 where "UART_ICR_FIXPULSE_EN \<equiv> 0x04"
abbreviation (input) UART_ICR_BITMASK :: u32 where "UART_ICR_BITMASK \<equiv> 0x3F"

definition UART_IrDAInvtInputCmd :: "UARTx \<Rightarrow> FunctionalState \<Rightarrow> uart_hw \<Rightarrow> uart_hw option" where
  "UART_IrDAInvtInputCmd u st h = do {
     CHECK_PARAM (u = UART3);
     Some (u_upd u (\<lambda>r. r\<lparr>U_ICR := (case st of
         ENABLE \<Rightarrow> U_ICR r OR UART_ICR_IRDAINV
       | DISABLE \<Rightarrow> U_ICR r AND ((NOT UART_ICR_IRDAINV) AND UART_ICR_BITMASK))\<rparr>) h)
   }"

definition UART_IrDACmd :: "UARTx \<Rightarrow> FunctionalState \<Rightarrow> uart_hw \<Rightarrow> uart_hw option" where
  "UART_IrDACmd u st h = do {
     CHECK_PARAM (u = UART3);
     Some (u_upd u (\<lambda>r. r\<lparr>U_ICR := (if st = ENABLE then U_ICR r OR UART_ICR_IRDAEN
       else U_ICR r AND ((NOT UART_ICR_IRDAEN) AND UART_ICR_BITMASK))\<rparr>) h)
   }"

definition UART_ICR_PULSEDIV :: "u32 \<Rightarrow> u32" where
  "UART_ICR_PULSEDIV n = push_bit 3 (n AND 0x07)"

definition UART_IrDAPulseDivConfig :: "UARTx \<Rightarrow> u32 \<Rightarrow> uart_hw \<Rightarrow> uart_hw option" where
  "UART_IrDAPulseDivConfig u PulseDiv h = do {
     CHECK_PARAM (u = UART3);
     CHECK_PARAM (PulseDiv \<le> 7);
     Some (u_upd u (\<lambda>r. r\<lparr>U_ICR :=
       ((U_ICR r AND NOT (UART_ICR_PULSEDIV 7)) OR (UART_ICR_PULSEDIV PulseDiv OR UART_ICR_FIXPULSE_EN))
         AND UART_ICR_BITMASK\<rparr>) h)
   }"

section \<open>Auto-baud\<close>

datatype UART_AB_MODE_Type = UART_AUTOBAUD_MODE0 | UART_AUTOBAUD_MODE1

record UART_AB_CFG_Type =
  ABMode :: UART_AB_MODE_Type
  AutoRestart :: FunctionalState

definition UART_ABCmd :: "UARTx \<Rightarrow> UART_AB_CFG_Type \<Rightarrow> FunctionalState \<Rightarrow> uart_hw \<Rightarrow> uart_hw" where
  "UART_ABCmd u c st =
     (let tmp = (if st = ENABLE then
                   (if ABMode c = UART_AUTOBAUD_MODE1 then 0x02 else 0) OR
                   (if AutoRestart c = ENABLE then 0x04 else 0)
                 else 0)
      in u_upd u (\<lambda>r. if st = ENABLE
           then r\<lparr>U_LCR := (U_LCR r OR UART_LCR_DLAB_EN) AND NOT UART_LCR_DLAB_EN,
                  U_DLL := 0, U_DLM := 0, U_FDR := 0x10, U_ACR := 0x01 OR tmp\<rparr>
           else r\<lparr>U_ACR := 0\<rparr>))"

section \<open>Modem lines\<close>

datatype UART1_SignalState = INACTIVE | ACTIVE
datatype UART_MODEM_PIN_Type = UART1_MODEM_PIN_DTR | UART1_MODEM_PIN_RTS
datatype UART_MODEM_MODE_Type = UART1_MODEM_MODE_LOOPBACK | UART1_MODEM_MODE_AUTO_RTS | UART1_MODEM_MODE_AUTO_CTS

abbreviation (input) UART1_MCR_BITMASK :: u32 where "UART1_MCR_BITMASK \<equiv> 0xF3"

definition UART_FullModemForcePinState ::
  "UARTx \<Rightarrow> UART_MODEM_PIN_Type \<Rightarrow> UART1_SignalState \<Rightarrow> uart_hw \<Rightarrow> uart_hw option" where
  "UART_FullModemForcePinState u Pin st h = do {
     CHECK_PARAM (u = UART1);
     let tmp = (case Pin of UART1_MODEM_PIN_DTR \<Rightarrow> 0x01 | UART1_MODEM_PIN_RTS \<Rightarrow> 0x02);
     Some (u_upd u (\<lambda>r. r\<lparr>U_MCR :=
       (if st = ACTIVE then U_MCR r OR tmp else U_MCR r AND ((NOT tmp) AND UART1_MCR_BITMASK))\<rparr>) h)
   }"

definition UART_FullModemConfigMode ::
  "UARTx \<Rightarrow> UART_MODEM_MODE_Type \<Rightarrow> FunctionalState \<Rightarrow> uart_hw \<Rightarrow> uart_hw option" where
  "UART_FullModemConfigMode u Mode st h = do {
     CHECK_PARAM (u = UART1);
     let tmp = (case Mode of UART1_MODEM_MODE_LOOPBACK \<Rightarrow> 0x10 | UART1_MODEM_MODE_AUTO_RTS \<Rightarrow> 0x40
                | UART1_MODEM_MODE_AUTO_CTS \<Rightarrow> 0x80);
     Some (u_upd u (\<lambda>r. r\<lparr>U_MCR :=
       (if st = ENABLE then U_MCR r OR tmp else U_MCR r AND ((NOT tmp) AND UART1_MCR_BITMASK))\<rparr>) h)
   }"

definition UART_FullModemGetStatus :: "UARTx \<Rightarrow> u8 \<Rightarrow> u8 option" where
  "UART_FullModemGetStatus u msr = do {
     CHECK_PARAM (u = UART1);
     Some (msr AND 0xFF)
   }"

section \<open>RS-485\<close>

datatype UART_RS485_DIRCTRL_PIN_Type = UART1_RS485_DIRCTRL_RTS | UART1_RS485_DIRCTRL_DTR

record UART1_RS485_CTRLCFG_Type =
  NormalMultiDropMode_State :: FunctionalState
  Rx_State :: FunctionalState
  AutoAddrDetect_State :: FunctionalState
  AutoDirCtrl_State :: FunctionalState
  DirCtrlPin :: UART_RS485_DIRCTRL_PIN_Type
  DirCtrlPol_Level :: bool
  MatchAddrValue :: u8
  DelayValue :: u8

abbreviation (input) UART_LCR_PARITY_EN :: u32 where "UART_LCR_PARITY_EN \<equiv> 0x08"
abbreviation (input) UART_LCR_PARITY_EVEN :: u32 where "UART_LCR_PARITY_EVEN \<equiv> 0x10"
abbreviation (input) UART_LCR_PARITY_F_1 :: u32 where "UART_LCR_PARITY_F_1 \<equiv> 0x20"
abbreviation (input) UART_LCR_PARITY_F_0 :: u32 where "UART_LCR_PARITY_F_0 \<equiv> 0x30"
abbreviation (input) UART1_RS485CTRL_RX_DIS :: u32 where "UART1_RS485CTRL_RX_DIS \<equiv> 0x02"

definition UART_RS485Config :: "UARTx \<Rightarrow> UART1_RS485_CTRLCFG_Type \<Rightarrow> uart_hw \<Rightarrow> uart_hw option" where
  "UART_RS485Config u c h = do {
     CHECK_PARAM (u = UART1);
     CHECK_PARAM (DelayValue c < 0xFF);
     CHECK_PARAM (MatchAddrValue c < 0xFF);
     let t1 = (if AutoDirCtrl_State c = ENABLE then
                 0x10 OR (if DirCtrlPol_Level c then 0x20 else 0) OR
                 (if DirCtrlPin c = UART1_RS485_DIRCTRL_DTR then 0x08 else 0)
               else 0);
     let h1 = (if AutoDirCtrl_State c = ENABLE
               then u_upd u (\<lambda>r. r\<lparr>U_RS485DLY := ucast (DelayValue c) AND 0xFF\<rparr>) h else h);
     let t2 = (if NormalMultiDropMode_State c = ENABLE then t1 OR 0x01 else t1);
     let t3 = (if AutoAddrDetect_State c = ENABLE then t2 OR 0x04 else t2);
     let h2 = (if AutoAddrDetect_State c = ENABLE
               then u_upd u (\<lambda>r. r\<lparr>U_ADRMATCH := ucast (MatchAddrValue c) AND 0xFF\<rparr>) h1 else h1);
     let t4 = (if Rx_State c = DISABLE then t3 OR UART1_RS485CTRL_RX_DIS else t3);
     Some (u_upd u (\<lambda>r. r\<lparr>U_RS485CTRL := t4 AND 0x3F,
       U_LCR := U_LCR r OR (UART_LCR_PARITY_F_0 OR UART_LCR_PARITY_EN)\<rparr>) h2)
   }"

definition UART_RS485ReceiverCmd :: "UARTx \<Rightarrow> FunctionalState \<Rightarrow> uart_hw \<Rightarrow> uart_hw" where
  "UART_RS485ReceiverCmd u st = u_upd u (\<lambda>r. r\<lparr>U_RS485CTRL :=
     (if st = ENABLE then U_RS485CTRL r AND NOT UART1_RS485CTRL_RX_DIS
      else U_RS485CTRL r OR UART1_RS485CTRL_RX_DIS)\<rparr>)"

text \<open>
  \<^verbatim>\<open>while (!(UARTx->LSR & UART_LSR_TEMT));\<close> on the values that follow those the send routine reads.
\<close>

fun wait_temt :: "u8 list \<Rightarrow> u8 list option" where
  "wait_temt [] = None"
| "wait_temt (l # ls) = (if l AND UART_LSR_TEMT \<noteq> 0 then Some ls else wait_temt ls)"

definition UART_RS485Send ::
  "UARTx \<Rightarrow> u8 list \<Rightarrow> nat \<Rightarrow> u8 \<Rightarrow> u8 list \<Rightarrow> u8 list \<Rightarrow> uart_hw \<Rightarrow> (nat \<times> uart_hw) option" where
  "UART_RS485Send u pDatFrm frmlen ParityStick lsr temt h =
     (if ParityStick \<noteq> 0 then do {
        let save = U_LCR (u_regs h u) AND UART_LCR_BITMASK;
        let tmp = save AND NOT UART_LCR_PARITY_EVEN;
        (cnt, h') \<leftarrow> UART_Send u pDatFrm frmlen BLOCKING lsr (u_upd u (\<lambda>r. r\<lparr>U_LCR := tmp\<rparr>) h);
        _ \<leftarrow> wait_temt temt;
        Some (cnt, u_upd u (\<lambda>r. r\<lparr>U_LCR := save\<rparr>) h')
      } else do {
        (cnt, h') \<leftarrow> UART_Send u pDatFrm frmlen BLOCKING lsr h;
        _ \<leftarrow> wait_temt temt;
        Some (cnt, h')
      })"

definition UART_RS485SendSlvAddr :: "UARTx \<Rightarrow> u8 \<Rightarrow> u8 list \<Rightarrow> u8 list \<Rightarrow> uart_hw \<Rightarrow> uart_hw option" where
  "UART_RS485SendSlvAddr u SlvAddr lsr temt h = map_option snd (UART_RS485Send u [SlvAddr] 1 1 lsr temt h)"

definition UART_RS485SendData ::
  "UARTx \<Rightarrow> u8 list \<Rightarrow> nat \<Rightarrow> u8 list \<Rightarrow> u8 list \<Rightarrow> uart_hw \<Rightarrow> (nat \<times> uart_hw) option" where
  "UART_RS485SendData u pData frmlen lsr temt h = UART_RS485Send u pData frmlen 0 lsr temt h"

section \<open>Call-backs and interrupt handlers\<close>

text \<open>
  \<^verbatim>\<open>UART_SetupCbs\<close> takes an untyped pointer; the branches for the auto-baud, the error and the modem
  call-back (\<^verbatim>\<open>CbType\<close> 2, 3 and 4) are one definition each, at the type of function they store.
\<close>

definition UART_SetupABCbs ::
  "UARTx \<Rightarrow> (u32 \<Rightarrow> 'w \<Rightarrow> 'w option) option \<Rightarrow> 'w uart_cb_state \<Rightarrow> 'w uart_cb_state" where
  "UART_SetupABCbs u f cs = cs\<lparr>uartCbsDat := (uartCbsDat cs)(u := (uartCbsDat cs u)\<lparr>pfnABCbs := f\<rparr>)\<rparr>"

definition UART_SetupErrCbs ::
  "UARTx \<Rightarrow> (u32 \<Rightarrow> 'w \<Rightarrow> 'w option) option \<Rightarrow> 'w uart_cb_state \<Rightarrow> 'w uart_cb_state" where
  "UART_SetupErrCbs u f cs = cs\<lparr>uartCbsDat := (uartCbsDat cs)(u := (uartCbsDat cs u)\<lparr>pfnErrCbs := f\<rparr>)\<rparr>"

definition UART_SetupModemCbs ::
  "UARTx \<Rightarrow> (u8 \<Rightarrow> 'w \<Rightarrow> 'w option) option \<Rightarrow> 'w uart_cb_state \<Rightarrow> 'w uart_cb_state" where
  "UART_SetupModemCbs u f cs = cs\<lparr>pfnModemCbs := f\<rparr>"

definition UART0_StdIntHandler ::
  "u32 \<Rightarrow> u32 \<Rightarrow> u8 \<Rightarrow> (uart_hw \<times> 'c) uart_cb_state \<Rightarrow> uart_hw \<times> 'c \<Rightarrow> (uart_hw \<times> 'c) option" where
  "UART0_StdIntHandler = UART_GenIntHandler UART0"

definition UART1_StdIntHandler ::
  "u32 \<Rightarrow> u32 \<Rightarrow> u8 \<Rightarrow> (uart_hw \<times> 'c) uart_cb_state \<Rightarrow> uart_hw \<times> 'c \<Rightarrow> (uart_hw \<times> 'c) option" where
  "UART1_StdIntHandler = UART_GenIntHandler UART1"

definition UART2_StdIntHandler ::
  "u32 \<Rightarrow> u32 \<Rightarrow> u8 \<Rightarrow> (uart_hw \<times> 'c) uart_cb_state \<Rightarrow> uart_hw \<times> 'c \<Rightarrow> (uart_hw \<times> 'c) option" where
  "UART2_StdIntHandler = UART_GenIntHandler UART2"

definition UART3_StdIntHandler ::
  "u32 \<Rightarrow> u32 \<Rightarrow> u8 \<Rightarrow> (uart_hw \<times> 'c) uart_cb_state \<Rightarrow> uart_hw \<times> 'c \<Rightarrow> (uart_hw \<times> 'c) option" where
  "UART3_StdIntHandler = UART_GenIntHandler UART3"

section \<open>Properties\<close>

lemma send_blocking_only_thr:
  "send_blocking u lsr bs h = Some (n, h') \<Longrightarrow>
    u_regs h' v = (if v = u then (u_regs h u)\<lparr>U_THR := U_THR (u_regs h' u)\<rparr> else u_regs h v)"
proof (induction u lsr bs h arbitrary: n h' rule: send_blocking.induct)
  case (1 u lsr bs h)
  show ?case
  proof (cases "bs = []")
    case True
    then show ?thesis using 1(2) by (auto simp: send_blocking.simps[of u lsr])
  next
    case False
    with 1(2) obtain t lsr' where w: "wait_thre_to UART_BLOCKING_TIMEOUT lsr = Some (t, lsr')"
      by (auto simp: send_blocking.simps[of u lsr] split: bind_splits)
    show ?thesis
    proof (cases "t = 0")
      case True
      then show ?thesis using 1(2) False w by (auto simp: send_blocking.simps[of u lsr])
    next
      case t: False
      with 1(2) False w obtain k where
        k: "send_blocking u lsr' (drop 16 bs) (fold (UART_SendData u) (take 16 bs) h) = Some (k, h')"
        by (auto simp: send_blocking.simps[of u lsr] split: bind_splits)
      from 1(1)[OF False w refl t k] show ?thesis
        by (auto simp: fold_UART_SendData split: if_splits)
    qed
  qed
qed

text \<open>The parity bit that the line control register gives every frame, if parity is enabled and stuck.\<close>

definition stick_parity :: "u32 \<Rightarrow> bool option" where
  "stick_parity lcr =
     (if lcr AND (UART_LCR_PARITY_EN OR UART_LCR_PARITY_F_1) = (UART_LCR_PARITY_EN OR UART_LCR_PARITY_F_1)
      then Some (lcr AND UART_LCR_PARITY_EVEN = 0) else None)"

lemma wait_temt_returns: "\<exists>l \<in> set temt. l AND UART_LSR_TEMT \<noteq> 0 \<Longrightarrow> wait_temt temt \<noteq> None"
  by (induction temt) auto

lemma lcr_bit_facts:
  "((lcr :: u32) AND - 17) AND 0x28 = lcr AND 0x28"
  "((lcr :: u32) AND - 17) AND UART_LCR_PARITY_EVEN = 0"
  by (simp_all add: and.assoc)

lemma RS485Config_stick:
  assumes "UART_RS485Config u c h = Some h'"
  shows "stick_parity (U_LCR (u_regs h' u)) = Some False"
proof -
  have l: "((l :: u32) OR 0x38) AND 0x28 = 0x28" "(l OR 0x38) AND 0x10 = 0x10" for l
    using bit.conj_disj_distrib2[of l "0x38" "0x28"] bit.conj_disj_distrib2[of l "0x38" "0x10"]
    by (simp_all add: or.commute)
  show ?thesis using assms
    by (auto simp: UART_RS485Config_def CHECK_PARAM_def Let_def u_upd_def stick_parity_def l split: bind_splits if_splits)
qed

text \<open>
  Sending a frame in RS-485 mode: with the line control register as \<^verbatim>\<open>UART_RS485Config\<close> leaves it, the
  bytes are written while the parity bit is stuck at 1 for an address frame and at 0 for data, all of
  them are written, and the line control register is as before afterwards. The transmitter is
  observed ready each time, and finally empty.
\<close>

lemma UART_RS485Send_frame:
  assumes lcr: "stick_parity (U_LCR (u_regs h u)) = Some False" "U_LCR (u_regs h u) AND UART_LCR_BITMASK = U_LCR (u_regs h u)"
    and len: "n \<le> length dat" "n \<le> 16 * length lsr"
    and thre: "\<forall>l \<in> set lsr. l AND UART_LSR_THRE \<noteq> 0" and temt: "\<exists>l \<in> set temt. l AND UART_LSR_TEMT \<noteq> 0"
  shows "\<exists>h1 h2 h'. UART_Send u dat n BLOCKING lsr h1 = Some (n, h2) \<and>
    stick_parity (U_LCR (u_regs h1 u)) = Some (stk \<noteq> 0) \<and>
    UART_RS485Send u dat n stk lsr temt h = Some (n, h') \<and>
    U_THR (u_regs h' u) = U_THR (u_regs h u) @ take n dat \<and> U_LCR (u_regs h' u) = U_LCR (u_regs h u)"
proof -
  let ?l = "U_LCR (u_regs h u)"
  define h1 where "h1 = (if stk \<noteq> 0 then u_upd u (\<lambda>r. r\<lparr>U_LCR := ?l AND NOT UART_LCR_PARITY_EVEN\<rparr>) h else h)"
  have "length (take n dat) = n" using len(1) by simp
  then obtain h2 where s: "UART_Send u dat n BLOCKING lsr h1 = Some (n, h2)"
    using send_all[OF thre, of "take n dat" u h1] len by (auto simp: UART_Send_def)
  then have frame: "u_regs h2 u = (u_regs h1 u)\<lparr>U_THR := U_THR (u_regs h2 u)\<rparr>"
    using send_blocking_only_thr[of u lsr "take n dat" h1 n h2 u] by (auto simp: UART_Send_def split: if_splits)
  have lcr2: "U_LCR (u_regs h2 u) = U_LCR (u_regs h1 u)" by (subst frame) simp
  have thr: "U_THR (u_regs h2 u) = U_THR (u_regs h u) @ take n dat"
    using UART_Send_prefix[OF s] by (simp add: h1_def u_upd_def split: if_splits)
  have p: "stick_parity (U_LCR (u_regs h1 u)) = Some (stk \<noteq> 0)"
    using lcr(1) by (simp add: h1_def u_upd_def stick_parity_def lcr_bit_facts split: if_splits)
  obtain ls where w: "wait_temt temt = Some ls" using wait_temt_returns[OF temt] by auto
  show ?thesis
  proof (cases "stk = 0")
    case True
    then have "UART_RS485Send u dat n stk lsr temt h = Some (n, h2)"
      using s w by (simp add: UART_RS485Send_def h1_def)
    then show ?thesis using s p thr lcr2 True by (auto simp: h1_def)
  next
    case False
    then have "UART_RS485Send u dat n stk lsr temt h = Some (n, u_upd u (\<lambda>r. r\<lparr>U_LCR := ?l\<rparr>) h2)"
      using s w lcr(2) by (simp add: UART_RS485Send_def h1_def)
    then show ?thesis using s p thr by (auto simp: u_upd_def)
  qed
qed

text \<open>
  The error call-back installed for a UART is called with the error bits of the line status, exactly
  when a line status interrupt reports an error.
\<close>

lemma err_callback_called:
  assumes "lsr AND 0x9E \<noteq> 0"
  shows "UART_GenIntHandler UART0 0x06 lsr msr (UART_SetupErrCbs UART0 (Some f) cs) w = f (lsr AND 0x9E) w"
  using assms by (simp add: UART_GenIntHandler_def UART_SetupErrCbs_def Let_def)

end
