(* ===== verification/UsbStreams.thy ===== *)
theory UsbStreams
  imports UsbPipe
begin

unbundle bit_operations_syntax

text \<open>
  The reading and discarding streams of \<^verbatim>\<open>PipeStream_LPC.c\<close>. A transfer completes by an interrupt
  while \<^verbatim>\<open>Pipe_WaitUntilReady\<close> waits, so the streams take the interrupts that happen, in order, and
  return those that are left. The loops end when the bytes have arrived, which depends on the
  host controller driver: they are partial functions.
\<close>

section \<open>Streams\<close>

text \<open>\<open>buf\<close> is the memory behind \<^verbatim>\<open>Buffer\<close> and \<open>k\<close> the distance of \<^verbatim>\<open>DataStream\<close> from its start.\<close>

partial_function (option) read_loop ::
  "'h hcd \<Rightarrow> u8 \<Rightarrow> ('h usb \<Rightarrow> 'h usb) list \<Rightarrow> u16 \<Rightarrow> nat \<Rightarrow> u8 list \<Rightarrow> 'h usb
    \<Rightarrow> (u8 \<times> ('h usb \<Rightarrow> 'h usb) list \<times> u8 list \<times> 'h usb) option" where
  "read_loop d c irqs Length k buf u =
     (if Length = 0 then Some (PIPE_RWSTREAM_NoError, irqs, buf, u)
      else do {
        (ok, u) \<leftarrow> Pipe_IsReadWriteAllowed d c u;
        (if ok then do {
           (v, u) \<leftarrow> Pipe_Read_8 c u;
           buf \<leftarrow> wr buf k v;
           read_loop d c irqs (Length - 1) (k + 1) buf u
         }
         else do {
           u \<leftarrow> Pipe_ClearIN c u;
           p \<leftarrow> cur_pipe c u;
           let u = u\<lparr>hcd_state := HcdDataTransfer d (PipeHandle p) (Buffer p) (usb_pool u)
                       (ucast (if Length < BufferSize p then Length else BufferSize p)) True (hcd_state u)\<rparr>;
           (e, irqs, u) \<leftarrow> Pipe_WaitUntilReady d c irqs u;
           (if e \<noteq> 0 then Some (e, irqs, buf, u) else read_loop d c irqs Length k buf u)
         })
      })"

definition Pipe_Read_Stream_LE ::
  "'h hcd \<Rightarrow> u8 \<Rightarrow> u8 list \<Rightarrow> u16 \<Rightarrow> u16 option \<Rightarrow> ('h usb \<Rightarrow> 'h usb) list \<Rightarrow> 'h usb
    \<Rightarrow> (u8 \<times> ('h usb \<Rightarrow> 'h usb) list \<times> u8 list \<times> 'h usb) option" where
  "Pipe_Read_Stream_LE d c buf Length BytesProcessed irqs u = do {
     (e, irqs, u) \<leftarrow> Pipe_WaitUntilReady d c irqs u;
     (if e \<noteq> 0 then Some (e, irqs, buf, u)
      else case BytesProcessed of
        None \<Rightarrow> read_loop d c irqs Length 0 buf u
      | Some n \<Rightarrow> read_loop d c irqs (Length - n) (unat n) buf u)
   }"

text \<open>The body of \<^verbatim>\<open>Pipe_Discard_8\<close> is empty.\<close>

definition Pipe_Discard_8 :: "'h usb \<Rightarrow> 'h usb" where
  "Pipe_Discard_8 u = u"

partial_function (option) discard_loop ::
  "'h hcd \<Rightarrow> u8 \<Rightarrow> ('h usb \<Rightarrow> 'h usb) list \<Rightarrow> u16 \<Rightarrow> u16 \<Rightarrow> u16 option \<Rightarrow> 'h usb
    \<Rightarrow> (u8 \<times> ('h usb \<Rightarrow> 'h usb) list \<times> u16 option \<times> 'h usb) option" where
  "discard_loop d c irqs Length BytesInTransfer BytesProcessed u =
     (if Length = 0 then Some (PIPE_RWSTREAM_NoError, irqs, BytesProcessed, u)
      else do {
        (ok, u) \<leftarrow> Pipe_IsReadWriteAllowed d c u;
        (if \<not> ok then do {
           u \<leftarrow> Pipe_ClearIN c u;
           (case BytesProcessed of
              Some n \<Rightarrow> Some (PIPE_RWSTREAM_IncompleteTransfer, irqs, Some (n + BytesInTransfer), u)
            | None \<Rightarrow> do {
                (e, irqs, u) \<leftarrow> Pipe_WaitUntilReady d c irqs u;
                (if e \<noteq> 0 then Some (e, irqs, None, u)
                 else discard_loop d c irqs Length BytesInTransfer None u)
              })
         }
         else discard_loop d c irqs (Length - 1) (BytesInTransfer + 1) BytesProcessed (Pipe_Discard_8 u))
      })"

definition Pipe_Discard_Stream ::
  "'h hcd \<Rightarrow> u8 \<Rightarrow> u16 \<Rightarrow> u16 option \<Rightarrow> ('h usb \<Rightarrow> 'h usb) list \<Rightarrow> 'h usb
    \<Rightarrow> (u8 \<times> ('h usb \<Rightarrow> 'h usb) list \<times> u16 option \<times> 'h usb) option" where
  "Pipe_Discard_Stream d c Length BytesProcessed irqs u = do {
     (e, irqs, u) \<leftarrow> Pipe_WaitUntilReady d c irqs u;
     (if e \<noteq> 0 then Some (e, irqs, BytesProcessed, u)
      else discard_loop d c irqs (case BytesProcessed of None \<Rightarrow> Length | Some n \<Rightarrow> Length - n) 0 BytesProcessed u)
   }"

text \<open>
  The streams \<^verbatim>\<open>Pipe_Write_Stream_BE\<close>, \<^verbatim>\<open>Pipe_Read_Stream_BE\<close>, and the \<^verbatim>\<open>PStream\<close> and \<^verbatim>\<open>EStream\<close> variants
  have all the same body: they touch nothing and report success.
\<close>

definition stub_stream :: "u8 list \<Rightarrow> u16 \<Rightarrow> u16 option \<Rightarrow> u8 \<times> u8 list" where
  "stub_stream buf Length BytesProcessed = (PIPE_RWSTREAM_NoError, buf)"

section \<open>The selected pipe as a source of bytes\<close>

text \<open>
  \<open>in_pipe hdl b bs rest u\<close>: the selected pipe is an IN pipe of the attached device whose buffer, at
  \<open>b\<close> in the pool, holds the bytes \<open>rest\<close> that have not been read.
\<close>

definition in_pipe :: "u32 \<Rightarrow> nat \<Rightarrow> u16 \<Rightarrow> u8 list \<Rightarrow> 'h usb \<Rightarrow> bool" where
  "in_pipe hdl b bs rest u \<longleftrightarrow> usb_shape u \<and> USB_HostState u ! 0 \<noteq> HOST_STATE_Unattached \<and>
     PipeHandle (row u ! sel u) = hdl \<and> Buffer (row u ! sel u) = Some b \<and> BufferSize (row u ! sel u) = bs \<and>
     EndponitAddress (row u ! sel u) AND PIPE_EPDIR_MASK \<noteq> 0 \<and> b + unat bs \<le> length (usb_pool u) \<and>
     unat (ByteTransfered (row u ! sel u)) = unat (StartIdx (row u ! sel u)) + length rest \<and>
     unat (ByteTransfered (row u ! sel u)) \<le> unat bs \<and>
     take (length rest) (drop (b + unat (StartIdx (row u ! sel u))) (usb_pool u)) = rest"

text \<open>
  The interrupt that completes a transfer: the controller has stored the packet \<open>pk\<close> in the buffer and
  its length behind the pointer given to \<^verbatim>\<open>HcdDataTransfer\<close>; \<open>g\<close> is what the driver does to its own state.
\<close>

definition deliver :: "('h \<Rightarrow> 'h) \<Rightarrow> u8 list \<Rightarrow> 'h usb \<Rightarrow> 'h usb" where
  "deliver g pk u = (let p = row u ! sel u; b = the (Buffer p) in
     u\<lparr>hcd_state := g (hcd_state u),
       usb_pool := take b (usb_pool u) @ pk @ drop (b + length pk) (usb_pool u),
       PipeInfo := [(row u)[sel u := p\<lparr>ByteTransfered := word_of_nat (length pk)\<rparr>]]\<rparr>)"

text \<open>A driver whose status of the pipe is ready or queued, as its own state says.\<close>

definition status_of :: "'h hcd \<Rightarrow> u32 \<Rightarrow> ('h \<Rightarrow> bool) \<Rightarrow> bool" where
  "status_of d hdl ready \<longleftrightarrow> (\<forall>s. HcdGetPipeStatus d hdl s =
     (if ready s then HCD_STATUS_OK else HCD_STATUS_TRANSFER_QUEUED, s))"

lemma in_pipe_status:
  "in_pipe hdl b bs rest u \<Longrightarrow> status_of d hdl ready \<Longrightarrow>
    get_status d 0 u = Some (if ready (hcd_state u) then HCD_STATUS_OK else HCD_STATUS_TRANSFER_QUEUED, u)"
  by (simp add: in_pipe_def status_of_def get_status_def)

lemma in_pipe_allowed:
  assumes "in_pipe hdl b bs rest u" "status_of d hdl ready"
  shows "Pipe_IsReadWriteAllowed d 0 u = Some (ready (hcd_state u) \<and> rest \<noteq> [], u)"
proof -
  let ?p = "row u ! sel u"
  have "ByteTransfered ?p - StartIdx ?p \<noteq> 0 \<longleftrightarrow> rest \<noteq> []"
  proof -
    have "unat (ByteTransfered ?p) = unat (StartIdx ?p) + length rest" using assms(1) by (simp add: in_pipe_def)
    then have "ByteTransfered ?p = StartIdx ?p \<longleftrightarrow> rest = []" by (metis add_cancel_right_right length_0_conv word_unat_eq_iff)
    then show ?thesis by simp
  qed
  then show ?thesis using assms(1)
    by (simp add: Pipe_IsReadWriteAllowed_def in_pipe_status[OF assms] Pipe_GetPipeToken_def Pipe_BytesInPipe_def in_pipe_def)
qed

lemma wait_ready:
  assumes "in_pipe hdl b bs rest u" "status_of d hdl ready" "rest \<noteq> []" "ready (hcd_state u)"
  shows "Pipe_WaitUntilReady d 0 irqs u = Some (0, irqs, u)"
  using assms(3,4) by (simp add: wait_round_def in_pipe_allowed[OF assms(1,2)])

lemma wait_interrupt:
  assumes "in_pipe hdl b bs [] u" "status_of d hdl ready"
  shows "Pipe_WaitUntilReady d 0 (f # fs) u = Pipe_WaitUntilReady d 0 fs (f u)"
proof -
  have "wait_round d 0 u = Some (None, u)"
    using assms(1) by (simp add: wait_round_def in_pipe_allowed[OF assms] in_pipe_status[OF assms] Pipe_IsStalled_def
        in_pipe_def usb_shape_def rd_def)
  then show ?thesis by simp
qed

lemma in_pipe_hcd: "in_pipe hdl b bs rest (u\<lparr>hcd_state := h\<rparr>) = in_pipe hdl b bs rest u"
  by (simp add: in_pipe_def)

lemma in_pipe_read:
  assumes "in_pipe hdl b bs (v # rest) u"
  shows "\<exists>u'. Pipe_Read_8 0 u = Some (v, u') \<and> in_pipe hdl b bs rest u' \<and> hcd_state u' = hcd_state u"
proof -
  let ?p = "row u ! sel u"
  let ?u = "u\<lparr>PipeInfo := [(row u)[sel u := ?p\<lparr>StartIdx := StartIdx ?p + 1\<rparr>]]\<rparr>"
  from assms have s: "usb_shape u" and B: "Buffer ?p = Some b" and n: "unat (ByteTransfered ?p) = unat (StartIdx ?p) + Suc (length rest)"
    and t: "take (Suc (length rest)) (drop (b + unat (StartIdx ?p)) (usb_pool u)) = v # rest"
    and le: "unat (ByteTransfered ?p) \<le> unat bs" "b + unat bs \<le> length (usb_pool u)"
    by (simp_all add: in_pipe_def)
  have lt: "StartIdx ?p < ByteTransfered ?p" using n by (simp add: word_less_nat_alt)
  have i: "b + unat (StartIdx ?p) < length (usb_pool u)" using n le by linarith
  have dr: "drop (b + unat (StartIdx ?p)) (usb_pool u) = usb_pool u ! (b + unat (StartIdx ?p)) # drop (Suc (b + unat (StartIdx ?p))) (usb_pool u)"
    by (rule Cons_nth_drop_Suc[OF i, symmetric])
  have "Pipe_Read_8 0 u = Some (v, ?u)"
    using s lt B i t unfolding dr by (simp add: Pipe_Read_8_def rd_def)
  moreover have "in_pipe hdl b bs rest ?u"
    using assms n t u16_succ[OF lt] usb_shapeD[OF s] unfolding dr in_pipe_def by simp
  ultimately show ?thesis by auto
qed

lemma in_pipe_deliver:
  assumes "in_pipe hdl b bs [] u" "StartIdx (row u ! sel u) = 0" "length pk \<le> unat bs"
  shows "in_pipe hdl b bs pk (deliver g pk u)" "hcd_state (deliver g pk u) = g (hcd_state u)"
proof -
  have "length pk < 65536" using assms(3) unat_u16_lt[of bs] by linarith
  then have "unat (word_of_nat (length pk) :: u16) = length pk" by (simp add: unat_of_nat)
  moreover have "b + length pk \<le> length (usb_pool u)" "b \<le> length (usb_pool u)"
    using assms by (simp_all add: in_pipe_def)
  ultimately show "in_pipe hdl b bs pk (deliver g pk u)"
    using assms usb_shapeD[of u] by (simp add: in_pipe_def deliver_def Let_def)
  show "hcd_state (deliver g pk u) = g (hcd_state u)" by (simp add: deliver_def Let_def)
qed

lemma in_pipe_clear:
  assumes "in_pipe hdl b bs [] u"
  shows "\<exists>u'. Pipe_ClearIN 0 u = Some u' \<and> in_pipe hdl b bs [] u' \<and> StartIdx (row u' ! sel u') = 0"
  using assms usb_shapeD[of u] by (auto simp: Pipe_ClearIN_def in_pipe_def clear_pipe_def)

section \<open>Properties\<close>

text \<open>Storing \<open>vs\<close> at position \<open>k\<close> of a buffer.\<close>

abbreviation store_at :: "nat \<Rightarrow> u8 list \<Rightarrow> u8 list \<Rightarrow> u8 list" where
  "store_at k vs buf \<equiv> take k buf @ vs @ drop (k + length vs) buf"

lemma store_at_Cons: "k < length buf \<Longrightarrow> store_at (Suc k) vs (buf[k := v]) = store_at k (v # vs) buf"
  by (simp add: take_Suc_conv_app_nth)

lemma store_at_append:
  "k + length vs \<le> length buf \<Longrightarrow> store_at (k + length vs) ws (store_at k vs buf) = store_at k (vs @ ws) buf"
  by (simp add: add.assoc add.commute add.left_commute)

lemma unat_sub_of_nat: "n \<le> unat (len :: u16) \<Longrightarrow> unat (len - word_of_nat n) = unat len - n"
proof -
  assume n: "n \<le> unat len"
  then have "n < 65536" using unat_u16_lt[of len] by linarith
  then have "unat (word_of_nat n :: u16) = n" by (simp add: unat_of_nat)
  with n show ?thesis using unat_sub[of "word_of_nat n" len] by (simp add: word_le_nat_alt)
qed

text \<open>The bytes at hand are copied to the buffer.\<close>

lemma read_loop_packet:
  assumes "status_of d hdl ready"
  shows "in_pipe hdl b bs rest u \<Longrightarrow> ready (hcd_state u) \<Longrightarrow> length rest \<le> unat len \<Longrightarrow> k + length rest \<le> length buf \<Longrightarrow>
    \<exists>u'. in_pipe hdl b bs [] u' \<and> hcd_state u' = hcd_state u \<and> read_loop d 0 irqs len k buf u =
      read_loop d 0 irqs (len - word_of_nat (length rest)) (k + length rest) (store_at k rest buf) u'"
proof (induction rest arbitrary: u len k buf)
  case Nil
  then show ?case by auto
next
  case (Cons v rest)
  obtain u1 where u1: "Pipe_Read_8 0 u = Some (v, u1)" "in_pipe hdl b bs rest u1" "hcd_state u1 = hcd_state u"
    using in_pipe_read[OF Cons.prems(1)] by auto
  have len: "len \<noteq> 0" using Cons.prems(3) by auto
  have len1: "unat (len - 1) = unat len - 1" using len by (rule unat_minus_one)
  have step: "read_loop d 0 irqs len k buf u = read_loop d 0 irqs (len - 1) (Suc k) (buf[k := v]) u1"
    using Cons.prems len u1(1) by (subst read_loop.simps) (simp add: in_pipe_allowed[OF Cons.prems(1) assms] wr_def)
  have "ready (hcd_state u1)" "length rest \<le> unat (len - 1)" "Suc k + length rest \<le> length (buf[k := v])"
    using Cons.prems u1(3) len1 by simp_all
  from Cons.IH[OF u1(2) this] obtain u' where u': "in_pipe hdl b bs [] u'" "hcd_state u' = hcd_state u"
    "read_loop d 0 irqs (len - 1) (Suc k) (buf[k := v]) u1 =
      read_loop d 0 irqs (len - 1 - word_of_nat (length rest)) (Suc k + length rest) (store_at (Suc k) rest (buf[k := v])) u'"
    using u1(3) by auto
  have "k < length buf" using Cons.prems(4) by simp
  from store_at_Cons[OF this, where vs = rest and v = v]
  have "read_loop d 0 irqs len k buf u = read_loop d 0 irqs (len - word_of_nat (length (v # rest))) (k + length (v # rest))
    (store_at k (v # rest) buf) u'"
    unfolding step u'(3) by (simp add: diff_diff_add)
  then show ?case using u'(1,2) by blast
qed

text \<open>Further packets are requested and copied, one interrupt each.\<close>

lemma read_loop_packets:
  assumes st: "status_of d hdl ready" and g: "\<forall>s. ready (g s)"
  shows "in_pipe hdl b bs [] u \<Longrightarrow> \<forall>pk \<in> set pks. pk \<noteq> [] \<and> length pk \<le> unat bs \<Longrightarrow>
    unat len = length (concat pks) \<Longrightarrow> k + length (concat pks) \<le> length buf \<Longrightarrow>
    \<exists>u'. read_loop d 0 (map (deliver g) pks) len k buf u = Some (PIPE_RWSTREAM_NoError, [], store_at k (concat pks) buf, u')"
proof (induction pks arbitrary: u len k buf)
  case Nil
  then have "len = 0" by (simp add: unat_eq_zero)
  then show ?case by (auto simp: read_loop.simps)
next
  case (Cons pk pks)
  let ?irqs = "map (deliver g) pks"
  have pk: "pk \<noteq> []" "length pk \<le> unat bs" using Cons.prems(2) by auto
  then have len: "len \<noteq> 0" using Cons.prems(3) by auto
  obtain u1 where u1: "Pipe_ClearIN 0 u = Some u1" "in_pipe hdl b bs [] u1" "StartIdx (row u1 ! sel u1) = 0"
    using in_pipe_clear[OF Cons.prems(1)] by auto
  have c: "cur_pipe 0 u1 = Some (row u1 ! sel u1)" using u1(2) by (simp add: in_pipe_def)
  define u2 where "u2 = u1\<lparr>hcd_state := HcdDataTransfer d (PipeHandle (row u1 ! sel u1)) (Buffer (row u1 ! sel u1)) (usb_pool u1)
    (ucast (if len < BufferSize (row u1 ! sel u1) then len else BufferSize (row u1 ! sel u1))) True (hcd_state u1)\<rparr>"
  have u2: "in_pipe hdl b bs [] u2" "StartIdx (row u2 ! sel u2) = 0" using u1(2,3) by (simp_all add: u2_def in_pipe_hcd)
  note u3 = in_pipe_deliver[OF u2 pk(2), of g]
  have r3: "ready (hcd_state (deliver g pk u2))" using g u3(2) by simp
  have w: "Pipe_WaitUntilReady d 0 (deliver g pk # ?irqs) u2 = Some (0, ?irqs, deliver g pk u2)"
    using wait_interrupt[OF u2(1) st] wait_ready[OF u3(1) st pk(1) r3] by simp
  have step: "read_loop d 0 (deliver g pk # ?irqs) len k buf u = read_loop d 0 ?irqs len k buf (deliver g pk u2)"
    using len u1(1) c w by (subst read_loop.simps) (simp add: in_pipe_allowed[OF Cons.prems(1) st] u2_def[symmetric] del: Pipe_WaitUntilReady.simps)
  obtain u4 where u4: "in_pipe hdl b bs [] u4" "read_loop d 0 ?irqs len k buf (deliver g pk u2) =
      read_loop d 0 ?irqs (len - word_of_nat (length pk)) (k + length pk) (store_at k pk buf) u4"
    using read_loop_packet[OF st u3(1) r3, of len k buf ?irqs] Cons.prems(3,4) by auto
  have l: "length pk \<le> unat len" using Cons.prems(3) by simp
  then have n: "unat (len - word_of_nat (length pk)) = length (concat pks)"
    using Cons.prems(3) by (simp add: unat_sub_of_nat)
  have fits: "k + length pk + length (concat pks) \<le> length (store_at k pk buf)" using Cons.prems(4) by simp
  have pks: "\<forall>pk \<in> set pks. pk \<noteq> [] \<and> length pk \<le> unat bs" using Cons.prems(2) by simp
  obtain u' where "read_loop d 0 ?irqs (len - word_of_nat (length pk)) (k + length pk) (store_at k pk buf) u4 =
      Some (PIPE_RWSTREAM_NoError, [], store_at (k + length pk) (concat pks) (store_at k pk buf), u')"
    using Cons.IH[OF u4(1) pks n fits] by blast
  then show ?case using step u4(2) store_at_append[of k pk buf "concat pks"] Cons.prems(4) by simp
qed


text \<open>A driver that is busy from the request of a transfer to its completion, and an IN pipe on it.\<close>

definition busy_hcd :: "bool hcd" where
  "busy_hcd = \<lparr>HcdOpenPipe = (\<lambda>_ _ _ _ _ _ _ s. (HCD_STATUS_OK, Some 1, s)), HcdClosePipe = (\<lambda>_ s. s),
     HcdGetPipeStatus = (\<lambda>_ s. (if s then HCD_STATUS_OK else HCD_STATUS_TRANSFER_QUEUED, s)),
     HcdDataTransfer = (\<lambda>_ _ _ _ _ _. False), HcdControlTransfer = (\<lambda>_ _ _ m s. (HCD_STATUS_OK, m, s)),
     HcdClearEndpointHalt = (\<lambda>_ s. s), HcdRhPortReset = (\<lambda>_ s. s), HcdGetDeviceSpeed = (\<lambda>_ s. (None, s)),
     HcdInitDriver = (\<lambda>_ s. (HCD_STATUS_OK, s)), HcdDeInitDriver = (\<lambda>_ s. s)\<rparr>"

definition usb_in :: "bool usb" where
  "usb_in = (usb_idle False)\<lparr>usb_pool := replicate 16 0, USB_HostState := [HOST_STATE_Configured],
     PipeInfo := [replicate 8 (pipe0\<lparr>PipeHandle := 1, Buffer := Some 4, BufferSize := 8, EndponitAddress := 0x81\<rparr>)]\<rparr>"


text \<open>
  \<^verbatim>\<open>Pipe_Discard_Stream\<close> discards nothing: when data is at hand it reports success, whatever the
  number of bytes asked for, and leaves every byte in the pipe.
\<close>

lemma discard_stream_keeps:
  assumes "status_of d hdl ready" "in_pipe hdl b bs rest u" "rest \<noteq> []" "ready (hcd_state u)"
  shows "Pipe_Discard_Stream d 0 len None irqs u = Some (PIPE_RWSTREAM_NoError, irqs, None, u)"
proof -
  have "discard_loop d 0 irqs len n None u = Some (PIPE_RWSTREAM_NoError, irqs, None, u)" for n
  proof (induction "unat len" arbitrary: len n)
    case 0
    then have "len = 0" by (simp add: unat_eq_zero)
    then show ?case by (simp add: discard_loop.simps)
  next
    case (Suc m)
    then have len: "len \<noteq> 0" by auto
    then have "m = unat (len - 1)" using Suc(2) unat_minus_one[OF len] by simp
    from Suc(1)[OF this] show ?case using len assms(3,4)
      by (subst discard_loop.simps) (simp add: in_pipe_allowed[OF assms(2,1)] Pipe_Discard_8_def)
  qed
  then show ?thesis using wait_ready[OF assms(2,1,3,4)] by (simp add: Pipe_Discard_Stream_def del: Pipe_WaitUntilReady.simps)
qed

end
