(* ===== verification/SspDriver.thy ===== *)
theory SspDriver
  imports Clkpwr Pins
begin

unbundle bit_operations_syntax

text \<open>
  The SSP driver \<^verbatim>\<open>Lib_MCU/src/lpc17xx_ssp.c\<close> and \<^verbatim>\<open>ssp1_init\<close> of \<^verbatim>\<open>Lib_Board/src/board.c\<close>. The data,
  status and raw interrupt registers change with the traffic on the line: they are operations
  \<open>ssp_regs\<close> of the hardware on a world \<open>'w\<close>. The other registers are plain memory. What the port
  promises is stated in the second half (\<open>ssp_port\<close>): two queues of eight words between which the
  words are exchanged with a peer, at most one word from one register access to the next. Under it a polled
  transfer exchanges exactly the words of the buffers.
\<close>

section \<open>Registers and transfer descriptions\<close>

datatype SSPx = SSP0 | SSP1

record 'w ssp_regs =
  rd_SR :: "SSPx \<Rightarrow> 'w \<Rightarrow> u32 \<times> 'w"
  rd_DR :: "SSPx \<Rightarrow> 'w \<Rightarrow> u32 \<times> 'w"
  wr_DR :: "SSPx \<Rightarrow> u32 \<Rightarrow> 'w \<Rightarrow> 'w"
  rd_RIS :: "SSPx \<Rightarrow> 'w \<Rightarrow> u32 \<times> 'w"
  rd_MIS :: "SSPx \<Rightarrow> 'w \<Rightarrow> u32 \<times> 'w"
  wr_ICR :: "SSPx \<Rightarrow> u32 \<Rightarrow> 'w \<Rightarrow> 'w"

record LPC_SSP_TypeDef =
  CR0 :: u32
  CR1 :: u32
  CPSR :: u32
  IMSC :: u32
  DMACR :: u32

abbreviation (input) SSP_CR0_BITMASK :: u32 where "SSP_CR0_BITMASK \<equiv> 0xFFFF"
abbreviation (input) SSP_CR1_LBM_EN :: u32 where "SSP_CR1_LBM_EN \<equiv> 0x01"
abbreviation (input) SSP_CR1_SSP_EN :: u32 where "SSP_CR1_SSP_EN \<equiv> 0x02"
abbreviation (input) SSP_CR1_SO_DISABLE :: u32 where "SSP_CR1_SO_DISABLE \<equiv> 0x08"
abbreviation (input) SSP_CR1_BITMASK :: u32 where "SSP_CR1_BITMASK \<equiv> 0x0F"
abbreviation (input) SSP_SR_TNF :: u32 where "SSP_SR_TNF \<equiv> 0x02"
abbreviation (input) SSP_SR_RNE :: u32 where "SSP_SR_RNE \<equiv> 0x04"
abbreviation (input) SSP_CPSR_BITMASK :: u32 where "SSP_CPSR_BITMASK \<equiv> 0xFF"
abbreviation (input) SSP_IMSC_BITMASK :: u32 where "SSP_IMSC_BITMASK \<equiv> 0x0F"
abbreviation (input) SSP_RIS_ROR :: u32 where "SSP_RIS_ROR \<equiv> 0x01"
abbreviation (input) SSP_ICR_BITMASK :: u32 where "SSP_ICR_BITMASK \<equiv> 0x03"
abbreviation (input) SSP_DMA_BITMASK :: u32 where "SSP_DMA_BITMASK \<equiv> 0x03"
abbreviation (input) SSP_DMA_TX :: u32 where "SSP_DMA_TX \<equiv> 0x01"
abbreviation (input) SSP_DMA_RX :: u32 where "SSP_DMA_RX \<equiv> 0x02"
abbreviation (input) SSP_DATABIT_8 :: u32 where "SSP_DATABIT_8 \<equiv> 7"
abbreviation (input) SSP_STAT_DONE :: u32 where "SSP_STAT_DONE \<equiv> 0x100"
abbreviation (input) SSP_STAT_ERROR :: u32 where "SSP_STAT_ERROR \<equiv> 0x200"

record SSP_CFG_Type =
  Databit :: u32
  CPHA :: u32
  CPOL :: u32
  Mode :: u32
  FrameFormat :: u32
  ClockRate :: u32

text \<open>
  A data pointer is \<^const>\<open>None\<close> for \<^verbatim>\<open>NULL\<close> and otherwise the bytes it points to; 16-bit words are
  stored with the low byte first. A call-back acts on the world of the hardware.
\<close>

record 'w SSP_DATA_SETUP_Type =
  tx_data :: "u8 list option"
  tx_cnt :: u32
  rx_data :: "u8 list option"
  rx_cnt :: u32
  xlength :: u32
  xstatus :: u32
  callback :: "('w \<Rightarrow> 'w option) option"

datatype SSP_TRANSFER_Type = SSP_TRANSFER_POLLING | SSP_TRANSFER_INTERRUPT

text \<open>
  \<^verbatim>\<open>SSP_CFG_T\<close>: the handler and the pointer \<^verbatim>\<open>txrx_setup\<close> are assigned together, so that one option holds
  both; it is \<^const>\<open>None\<close> for the null handler of the zeroed array.
\<close>

record 'w SSP_CFG_T =
  dataword :: int
  txrx_setup :: "'w SSP_DATA_SETUP_Type option"

record 'w ssp_drv =
  ssp_mem :: "SSPx \<Rightarrow> LPC_SSP_TypeDef"
  sspdat :: "SSPx \<Rightarrow> 'w SSP_CFG_T"
  ssp_sc :: LPC_SC_TypeDef
  ssp_clk :: u32
  ssp_w :: 'w

definition s_upd :: "SSPx \<Rightarrow> (LPC_SSP_TypeDef \<Rightarrow> LPC_SSP_TypeDef) \<Rightarrow> 'w ssp_drv \<Rightarrow> 'w ssp_drv" where
  "s_upd x f s = s\<lparr>ssp_mem := (ssp_mem s)(x := f (ssp_mem s x))\<rparr>"

fun SSP_getNum :: "SSPx \<Rightarrow> nat" where
  "SSP_getNum SSP0 = 0"
| "SSP_getNum SSP1 = 1"

fun CLKPWR_PCLKSEL_SSP :: "SSPx \<Rightarrow> u32" where
  "CLKPWR_PCLKSEL_SSP SSP0 = 42"
| "CLKPWR_PCLKSEL_SSP SSP1 = 20"

fun CLKPWR_PCONP_PCSSP :: "SSPx \<Rightarrow> u32" where
  "CLKPWR_PCONP_PCSSP SSP0 = 0x200000"
| "CLKPWR_PCONP_PCSSP SSP1 = 0x400"

section \<open>Configuration\<close>

text \<open>The search of \<^verbatim>\<open>SSP_SetClock\<close> for a prescaler and a divider; a wrapped product divides by zero.\<close>

partial_function (option) find_clock :: "u32 \<Rightarrow> u32 \<Rightarrow> u32 \<Rightarrow> u32 \<Rightarrow> (u32 \<times> u32) option" where
  "find_clock clk target cr0_div prescale =
     (if (cr0_div + 1) * prescale = 0 then None
      else if clk div ((cr0_div + 1) * prescale) > target then
        (if cr0_div + 1 > 0xFF then find_clock clk target 0 (prescale + 2)
         else find_clock clk target (cr0_div + 1) prescale)
      else Some (cr0_div, prescale))"

definition SSP_CR0_SCR :: "u32 \<Rightarrow> u32" where
  "SSP_CR0_SCR n = push_bit 8 (n AND 0xFF)"

definition SSP_SetClock :: "SSPx \<Rightarrow> u32 \<Rightarrow> 'w ssp_drv \<Rightarrow> 'w ssp_drv option" where
  "SSP_SetClock x target_clock s = do {
     let clk = CLKPWR_GetPCLK (ssp_clk s) (CLKPWR_PCLKSEL_SSP x) (ssp_sc s);
     (cr0_div, prescale) \<leftarrow> (if target_clock = 0xFFFFFFFF then Some (0, 2) else find_clock clk target_clock 0 2);
     Some (s_upd x (\<lambda>r. r\<lparr>
       CR0 := (CR0 r AND ((NOT (SSP_CR0_SCR 0xFF)) AND SSP_CR0_BITMASK)) OR (SSP_CR0_SCR cr0_div AND SSP_CR0_BITMASK),
       CPSR := prescale AND SSP_CPSR_BITMASK\<rparr>) s)
   }"

definition SSP_DeInit :: "SSPx \<Rightarrow> 'w ssp_drv \<Rightarrow> 'w ssp_drv" where
  "SSP_DeInit x s = s\<lparr>ssp_sc := CLKPWR_ConfigPPWR (CLKPWR_PCONP_PCSSP x) DISABLE (ssp_sc s)\<rparr>"

definition SSP_Init :: "SSPx \<Rightarrow> SSP_CFG_Type \<Rightarrow> 'w ssp_drv \<Rightarrow> 'w ssp_drv option" where
  "SSP_Init x cfg s = do {
     let s = s\<lparr>ssp_sc := CLKPWR_ConfigPPWR (CLKPWR_PCONP_PCSSP x) ENABLE (ssp_sc s)\<rparr>;
     let s = s_upd x (\<lambda>r. r\<lparr>CR0 := (CPHA cfg OR CPOL cfg OR FrameFormat cfg OR Databit cfg) AND SSP_CR0_BITMASK\<rparr>) s;
     let s = s\<lparr>sspdat := (sspdat s)(x := (sspdat s x)\<lparr>dataword := (if Databit cfg > SSP_DATABIT_8 then 1 else 0)\<rparr>)\<rparr>;
     let s = s_upd x (\<lambda>r. r\<lparr>CR1 := Mode cfg AND SSP_CR1_BITMASK\<rparr>) s;
     SSP_SetClock x (ClockRate cfg) s
   }"

definition SSP_ConfigStructInit :: SSP_CFG_Type where
  "SSP_ConfigStructInit = \<lparr>Databit = SSP_DATABIT_8, CPHA = 0, CPOL = 0, Mode = 0, FrameFormat = 0, ClockRate = 1000000\<rparr>"

definition SSP_Cmd :: "SSPx \<Rightarrow> FunctionalState \<Rightarrow> 'w ssp_drv \<Rightarrow> 'w ssp_drv" where
  "SSP_Cmd x st = s_upd x (\<lambda>r. r\<lparr>CR1 := (if st = ENABLE then CR1 r OR SSP_CR1_SSP_EN
     else CR1 r AND ((NOT SSP_CR1_SSP_EN) AND SSP_CR1_BITMASK))\<rparr>)"

definition SSP_LoopBackCmd :: "SSPx \<Rightarrow> FunctionalState \<Rightarrow> 'w ssp_drv \<Rightarrow> 'w ssp_drv" where
  "SSP_LoopBackCmd x st = s_upd x (\<lambda>r. r\<lparr>CR1 := (if st = ENABLE then CR1 r OR SSP_CR1_LBM_EN
     else CR1 r AND ((NOT SSP_CR1_LBM_EN) AND SSP_CR1_BITMASK))\<rparr>)"

definition SSP_SlaveOutputCmd :: "SSPx \<Rightarrow> FunctionalState \<Rightarrow> 'w ssp_drv \<Rightarrow> 'w ssp_drv" where
  "SSP_SlaveOutputCmd x st = s_upd x (\<lambda>r. r\<lparr>CR1 := (if st = ENABLE
     then CR1 r AND ((NOT SSP_CR1_SO_DISABLE) AND SSP_CR1_BITMASK) else CR1 r OR SSP_CR1_SO_DISABLE)\<rparr>)"

section \<open>Transfers\<close>

definition SSP_SendData :: "'w ssp_regs \<Rightarrow> SSPx \<Rightarrow> u16 \<Rightarrow> 'w \<Rightarrow> 'w" where
  "SSP_SendData hw x d w = wr_DR hw x (ucast d AND 0xFFFF) w"

definition SSP_ReceiveData :: "'w ssp_regs \<Rightarrow> SSPx \<Rightarrow> 'w \<Rightarrow> u16 \<times> 'w" where
  "SSP_ReceiveData hw x w = (let (v, w') = rd_DR hw x w in (ucast (v AND 0xFFFF), w'))"

definition read16 :: "u8 list \<Rightarrow> nat \<Rightarrow> u16 option" where
  "read16 b i = do { l \<leftarrow> rd b i; h \<leftarrow> rd b (i + 1); Some (push_bit 8 (ucast h) OR ucast l) }"

definition write16 :: "u8 list \<Rightarrow> nat \<Rightarrow> u16 \<Rightarrow> u8 list option" where
  "write16 b i v = do { b \<leftarrow> wr b i (ucast v); wr b (i + 1) (ucast (drop_bit 8 v)) }"

text \<open>Sending the next word, or ones when there is no transmit buffer.\<close>

definition send_word :: "'w ssp_regs \<Rightarrow> SSPx \<Rightarrow> int \<Rightarrow> 'w SSP_DATA_SETUP_Type \<Rightarrow> 'w
    \<Rightarrow> ('w SSP_DATA_SETUP_Type \<times> 'w) option" where
  "send_word hw x dw c w = (case tx_data c of
     None \<Rightarrow> if dw = 0 then Some (c\<lparr>tx_cnt := tx_cnt c + 1\<rparr>, SSP_SendData hw x 0xFF w)
             else Some (c\<lparr>tx_cnt := tx_cnt c + 2\<rparr>, SSP_SendData hw x 0xFFFF w)
   | Some b \<Rightarrow> if dw = 0 then do {
                 v \<leftarrow> rd b (unat (tx_cnt c));
                 Some (c\<lparr>tx_cnt := tx_cnt c + 1\<rparr>, SSP_SendData hw x (ucast v) w)
               } else do {
                 v \<leftarrow> read16 b (unat (tx_cnt c));
                 Some (c\<lparr>tx_cnt := tx_cnt c + 2\<rparr>, SSP_SendData hw x v w)
               })"

definition store_word :: "int \<Rightarrow> u16 \<Rightarrow> 'w SSP_DATA_SETUP_Type \<Rightarrow> 'w SSP_DATA_SETUP_Type option" where
  "store_word dw tmp c = do {
     d \<leftarrow> (case rx_data c of
        None \<Rightarrow> Some None
      | Some b \<Rightarrow> map_option Some (if dw = 0 then wr b (unat (rx_cnt c)) (ucast tmp) else write16 b (unat (rx_cnt c)) tmp));
     Some (c\<lparr>rx_data := d, rx_cnt := (if dw = 0 then rx_cnt c + 1 else rx_cnt c + 2)\<rparr>)
   }"

text \<open>\<^verbatim>\<open>while ((SR & RNE) && (rx_cnt != length))\<close>\<close>

partial_function (option) recv_loop :: "'w ssp_regs \<Rightarrow> SSPx \<Rightarrow> int \<Rightarrow> 'w SSP_DATA_SETUP_Type \<Rightarrow> 'w
    \<Rightarrow> ('w SSP_DATA_SETUP_Type \<times> 'w) option" where
  "recv_loop hw x dw c w =
     (let (sr, w) = rd_SR hw x w in
      if sr AND SSP_SR_RNE \<noteq> 0 \<and> rx_cnt c \<noteq> xlength c then do {
        let (tmp, w) = SSP_ReceiveData hw x w;
        c \<leftarrow> store_word dw tmp c;
        recv_loop hw x dw c w
      }
      else Some (c, w))"

partial_function (option) clear_rx :: "'w ssp_regs \<Rightarrow> SSPx \<Rightarrow> 'w \<Rightarrow> 'w option" where
  "clear_rx hw x w =
     (let (sr, w) = rd_SR hw x w in
      if sr AND SSP_SR_RNE \<noteq> 0 then clear_rx hw x (snd (SSP_ReceiveData hw x w)) else Some w)"

text \<open>The loop of the polling mode; \<open>Inl\<close> is the return on an overrun.\<close>

partial_function (option) poll_loop :: "'w ssp_regs \<Rightarrow> SSPx \<Rightarrow> int \<Rightarrow> 'w SSP_DATA_SETUP_Type \<Rightarrow> 'w
    \<Rightarrow> (u32 option \<times> 'w SSP_DATA_SETUP_Type \<times> 'w) option" where
  "poll_loop hw x dw c w =
     (if tx_cnt c = xlength c \<and> rx_cnt c = xlength c then Some (None, c, w)
      else do {
        let (sr, w) = rd_SR hw x w;
        (c, w) \<leftarrow> (if sr AND SSP_SR_TNF \<noteq> 0 \<and> tx_cnt c \<noteq> xlength c then send_word hw x dw c w else Some (c, w));
        let (stat, w) = rd_RIS hw x w;
        (if stat AND SSP_RIS_ROR \<noteq> 0 then Some (Some stat, c, w)
         else do {
           (c, w) \<leftarrow> recv_loop hw x dw c w;
           poll_loop hw x dw c w
         })
      })"

text \<open>The loop of the interrupt mode, in \<^verbatim>\<open>SSP_ReadWrite\<close> and in the handler.\<close>

partial_function (option) fill_loop :: "'w ssp_regs \<Rightarrow> SSPx \<Rightarrow> int \<Rightarrow> 'w SSP_DATA_SETUP_Type \<Rightarrow> 'w
    \<Rightarrow> (u32 option \<times> 'w SSP_DATA_SETUP_Type \<times> 'w) option" where
  "fill_loop hw x dw c w =
     (let (sr, w) = rd_SR hw x w in
      if sr AND SSP_SR_TNF \<noteq> 0 \<and> tx_cnt c \<noteq> xlength c then do {
        (c, w) \<leftarrow> send_word hw x dw c w;
        let (stat, w) = rd_RIS hw x w;
        (if stat AND SSP_RIS_ROR \<noteq> 0 then Some (Some stat, c, w)
         else do {
           (c, w) \<leftarrow> recv_loop hw x dw c w;
           fill_loop hw x dw c w
         })
      }
      else Some (None, c, w))"

text \<open>The result is the returned value with the updated description.\<close>

definition SSP_ReadWrite :: "'w ssp_regs \<Rightarrow> SSPx \<Rightarrow> 'w SSP_DATA_SETUP_Type \<Rightarrow> SSP_TRANSFER_Type \<Rightarrow> 'w ssp_drv
    \<Rightarrow> (int \<times> 'w SSP_DATA_SETUP_Type \<times> 'w ssp_drv) option" where
  "SSP_ReadWrite hw x c xf s = do {
     let c = c\<lparr>rx_cnt := 0, tx_cnt := 0, xstatus := 0\<rparr>;
     w \<leftarrow> clear_rx hw x (ssp_w s);
     let w = wr_ICR hw x SSP_ICR_BITMASK w;
     let dw = dataword (sspdat s x);
     (case xf of
        SSP_TRANSFER_POLLING \<Rightarrow> do {
          (e, c, w) \<leftarrow> poll_loop hw x dw c w;
          (case e of
             Some stat \<Rightarrow> Some (-1, c\<lparr>xstatus := stat OR SSP_STAT_ERROR\<rparr>, s\<lparr>ssp_w := w\<rparr>)
           | None \<Rightarrow> Some (if tx_data c \<noteq> None then sint (tx_cnt c) else if rx_data c \<noteq> None then sint (rx_cnt c) else 0,
               c\<lparr>xstatus := SSP_STAT_DONE\<rparr>, s\<lparr>ssp_w := w\<rparr>))
        }
      | SSP_TRANSFER_INTERRUPT \<Rightarrow> do {
          (e, c, w) \<leftarrow> fill_loop hw x dw c w;
          let put = (\<lambda>c. s\<lparr>sspdat := (sspdat s)(x := (sspdat s x)\<lparr>txrx_setup := Some c\<rparr>), ssp_w := w\<rparr>);
          (case e of
             Some stat \<Rightarrow> let c = c\<lparr>xstatus := stat OR SSP_STAT_ERROR\<rparr> in Some (-1, c, put c)
           | None \<Rightarrow>
               if rx_cnt c \<noteq> xlength c \<or> tx_cnt c \<noteq> xlength c
               then Some (0, c, s_upd x (\<lambda>r. r\<lparr>IMSC := SSP_IMSC_BITMASK\<rparr>) (put c))
               else let c = c\<lparr>xstatus := SSP_STAT_DONE\<rparr> in Some (0, c, put c))
        })
   }"

definition run_callback :: "('w \<Rightarrow> 'w option) option \<Rightarrow> 'w ssp_drv \<Rightarrow> 'w ssp_drv option" where
  "run_callback cb s = (case cb of None \<Rightarrow> Some s | Some f \<Rightarrow> do { w \<leftarrow> f (ssp_w s); Some (s\<lparr>ssp_w := w\<rparr>) })"

text \<open>The handler; a null \<^verbatim>\<open>txrx_setup\<close> is dereferenced: \<^const>\<open>None\<close>.\<close>

definition SSP_IntHandler :: "'w ssp_regs \<Rightarrow> SSPx \<Rightarrow> 'w ssp_drv \<Rightarrow> 'w ssp_drv option" where
  "SSP_IntHandler hw x s = do {
     let s = s_upd x (\<lambda>r. r\<lparr>IMSC := 0\<rparr>) s;
     c \<leftarrow> txrx_setup (sspdat s x);
     let dw = dataword (sspdat s x);
     let (ris, w) = rd_RIS hw x (ssp_w s);
     let tmp = (ucast ris :: u16);
     let c = c\<lparr>xstatus := ucast tmp\<rparr>;
     let put = (\<lambda>c w. s\<lparr>sspdat := (sspdat s)(x := (sspdat s x)\<lparr>txrx_setup := Some c\<rparr>), ssp_w := w\<rparr>);
     (if tmp AND ucast SSP_RIS_ROR \<noteq> 0
      then run_callback (callback c) (put (c\<lparr>xstatus := xstatus c OR SSP_STAT_ERROR\<rparr>) (wr_ICR hw x SSP_RIS_ROR w))
      else do {
        (e, c, w) \<leftarrow> (if tx_cnt c \<noteq> xlength c \<or> rx_cnt c \<noteq> xlength c then do {
             (c, w) \<leftarrow> recv_loop hw x dw c w;
             fill_loop hw x dw c w
           } else Some (None, c, w));
        (if e \<noteq> None then run_callback (callback c) (put (c\<lparr>xstatus := xstatus c OR SSP_STAT_ERROR\<rparr>) w)
         else if rx_cnt c \<noteq> xlength c \<or> tx_cnt c \<noteq> xlength c
         then Some (s_upd x (\<lambda>r. r\<lparr>IMSC := SSP_IMSC_BITMASK\<rparr>) (put c w))
         else run_callback (callback c) (put (c\<lparr>xstatus := SSP_STAT_DONE\<rparr>) w))
      })
   }"

section \<open>Status, interrupts and DMA\<close>

definition SSP_GetStatus :: "'w ssp_regs \<Rightarrow> SSPx \<Rightarrow> u32 \<Rightarrow> 'w \<Rightarrow> (bool \<times> 'w) option" where
  "SSP_GetStatus hw x FlagType w = do {
     CHECK_PARAM (FlagType \<in> {0x01, 0x02, 0x04, 0x08, 0x10});
     let (v, w) = rd_SR hw x w;
     Some (v AND FlagType \<noteq> 0, w)
   }"

definition SSP_IntConfig :: "SSPx \<Rightarrow> u32 \<Rightarrow> FunctionalState \<Rightarrow> 'w ssp_drv \<Rightarrow> 'w ssp_drv option" where
  "SSP_IntConfig x IntType st s = do {
     CHECK_PARAM (IntType \<in> {0x01, 0x02, 0x04, 0x08});
     Some (s_upd x (\<lambda>r. r\<lparr>IMSC := (if st = ENABLE then IMSC r OR IntType
       else IMSC r AND ((NOT IntType) AND SSP_IMSC_BITMASK))\<rparr>) s)
   }"

definition SSP_GetRawIntStatus :: "'w ssp_regs \<Rightarrow> SSPx \<Rightarrow> u32 \<Rightarrow> 'w \<Rightarrow> (bool \<times> 'w) option" where
  "SSP_GetRawIntStatus hw x RawIntType w = do {
     CHECK_PARAM (RawIntType \<in> {0x01, 0x02, 0x04, 0x08});
     let (v, w) = rd_RIS hw x w;
     Some (v AND RawIntType \<noteq> 0, w)
   }"

definition SSP_GetIntStatus :: "'w ssp_regs \<Rightarrow> SSPx \<Rightarrow> u32 \<Rightarrow> 'w \<Rightarrow> (bool \<times> 'w) option" where
  "SSP_GetIntStatus hw x IntType w = do {
     CHECK_PARAM (IntType \<in> {0x01, 0x02, 0x04, 0x08});
     let (v, w) = rd_MIS hw x w;
     Some (v AND IntType \<noteq> 0, w)
   }"

definition SSP_ClearIntPending :: "'w ssp_regs \<Rightarrow> SSPx \<Rightarrow> u32 \<Rightarrow> 'w \<Rightarrow> 'w option" where
  "SSP_ClearIntPending hw x IntType w = do {
     CHECK_PARAM (IntType \<in> {0x01, 0x02});
     Some (wr_ICR hw x IntType w)
   }"

definition SSP_DMACmd :: "SSPx \<Rightarrow> u32 \<Rightarrow> FunctionalState \<Rightarrow> 'w ssp_drv \<Rightarrow> 'w ssp_drv option" where
  "SSP_DMACmd x DMAMode st s = do {
     CHECK_PARAM (DMAMode = SSP_DMA_TX \<or> DMAMode = SSP_DMA_RX);
     Some (s_upd x (\<lambda>r. r\<lparr>DMACR := (if st = ENABLE then DMACR r OR DMAMode
       else DMACR r AND ((NOT DMAMode) AND SSP_DMA_BITMASK))\<rparr>) s)
   }"

definition SSP0_StdIntHandler :: "'w ssp_regs \<Rightarrow> 'w ssp_drv \<Rightarrow> 'w ssp_drv option" where
  "SSP0_StdIntHandler hw = SSP_IntHandler hw SSP0"

definition SSP1_StdIntHandler :: "'w ssp_regs \<Rightarrow> 'w ssp_drv \<Rightarrow> 'w ssp_drv option" where
  "SSP1_StdIntHandler hw = SSP_IntHandler hw SSP1"

text \<open>\<^verbatim>\<open>ssp1_init\<close> leaves the mode and open-drain members of \<^verbatim>\<open>PinCfg\<close> uninitialised: they are \<open>cfg0\<close>.\<close>

definition ssp1_init :: "PINSEL_CFG_Type \<Rightarrow> LPC_PINCON_TypeDef \<times> 'w ssp_drv \<Rightarrow> (LPC_PINCON_TypeDef \<times> 'w ssp_drv) option" where
  "ssp1_init cfg0 ps = do {
     let cfg = cfg0\<lparr>Funcnum := 2, Portnum := 0\<rparr>;
     p1 \<leftarrow> PINSEL_ConfigPin (cfg\<lparr>Pinnum := 7\<rparr>) (fst ps);
     p2 \<leftarrow> PINSEL_ConfigPin (cfg\<lparr>Pinnum := 8\<rparr>) p1;
     p3 \<leftarrow> PINSEL_ConfigPin (cfg\<lparr>Pinnum := 9\<rparr>) p2;
     s \<leftarrow> SSP_Init SSP1 (SSP_ConfigStructInit\<lparr>ClockRate := 10000000\<rparr>) (snd ps);
     Some (p3, SSP_Cmd SSP1 ENABLE s)
   }"

section \<open>The port behind the registers\<close>

text \<open>
  The port holds eight words to be sent and eight received ones. For each word sent it receives
  one from its peer; a word received while the receive queue is full is lost and sets the overrun
  flag. \<open>xch\<close> is the behaviour of the peer.
\<close>

record 's ssp_fifo =
  txq :: "u16 list"
  rxq :: "u16 list"
  ovr :: bool
  peer :: 's

definition shift1 :: "('s \<Rightarrow> u16 \<Rightarrow> u16 \<times> 's) \<Rightarrow> 's ssp_fifo \<Rightarrow> 's ssp_fifo" where
  "shift1 xch f = (case txq f of
     [] \<Rightarrow> f
   | v # vs \<Rightarrow> let (r, s) = xch (peer f) v in
       if length (rxq f) < 8 then f\<lparr>txq := vs, rxq := rxq f @ [r], peer := s\<rparr>
       else f\<lparr>txq := vs, ovr := True, peer := s\<rparr>)"

definition moved :: "('s \<Rightarrow> u16 \<Rightarrow> u16 \<times> 's) \<Rightarrow> 's ssp_fifo \<Rightarrow> 's ssp_fifo \<Rightarrow> bool" where
  "moved xch f f' \<longleftrightarrow> f' = f \<or> txq f \<noteq> [] \<and> f' = shift1 xch f"

text \<open>
  \<open>ssp_port hw x xch R lag\<close>: through the relation \<open>R\<close> the registers of port \<open>x\<close> show the state of the
  queues. Before each access at most one word is exchanged, which is the case when the processor
  polls the port faster than it shifts; and a word that is waiting is exchanged after finitely many
  status reads, as \<open>lag\<close> counts.
\<close>

definition ssp_port :: "'w ssp_regs \<Rightarrow> SSPx \<Rightarrow> ('s \<Rightarrow> u16 \<Rightarrow> u16 \<times> 's) \<Rightarrow> ('w \<Rightarrow> 's ssp_fifo \<Rightarrow> bool) \<Rightarrow> ('w \<Rightarrow> nat) \<Rightarrow> bool" where
  "ssp_port hw x xch R lag \<longleftrightarrow> (\<forall>w f. R w f \<longrightarrow>
     (\<exists>f'. moved xch f f' \<and> R (snd (rd_SR hw x w)) f' \<and> (f' = f \<and> txq f \<noteq> [] \<longrightarrow> lag (snd (rd_SR hw x w)) < lag w) \<and>
        (fst (rd_SR hw x w) AND SSP_SR_TNF \<noteq> 0 \<longleftrightarrow> length (txq f') < 8) \<and>
        (fst (rd_SR hw x w) AND SSP_SR_RNE \<noteq> 0 \<longleftrightarrow> rxq f' \<noteq> [])) \<and>
     (\<exists>f'. moved xch f f' \<and> R (snd (rd_RIS hw x w)) f' \<and> (f' = f \<and> txq f \<noteq> [] \<longrightarrow> lag (snd (rd_RIS hw x w)) < lag w) \<and>
        (fst (rd_RIS hw x w) AND SSP_RIS_ROR \<noteq> 0 \<longleftrightarrow> ovr f')) \<and>
     (\<forall>v. \<exists>f'. moved xch f f' \<and> (length (txq f') < 8 \<longrightarrow> R (wr_DR hw x v w) (f'\<lparr>txq := txq f' @ [ucast v]\<rparr>))) \<and>
     (\<exists>f'. moved xch f f' \<and> (\<forall>r rs. rxq f' = r # rs \<longrightarrow>
        ucast (fst (rd_DR hw x w)) = r \<and> R (snd (rd_DR hw x w)) (f'\<lparr>rxq := rs\<rparr>))) \<and>
     (\<forall>v. \<exists>f'. moved xch f f' \<and> R (wr_ICR hw x v w) (f'\<lparr>ovr := ovr f' \<and> v AND 1 = 0\<rparr>)))"

lemma ssp_port_sr:
  assumes "ssp_port hw x xch R lag" "R w f"
  obtains f1 where "moved xch f f1" "R (snd (rd_SR hw x w)) f1" "f1 = f \<Longrightarrow> txq f \<noteq> [] \<Longrightarrow> lag (snd (rd_SR hw x w)) < lag w"
      "fst (rd_SR hw x w) AND SSP_SR_TNF \<noteq> 0 \<longleftrightarrow> length (txq f1) < 8" "fst (rd_SR hw x w) AND SSP_SR_RNE \<noteq> 0 \<longleftrightarrow> rxq f1 \<noteq> []"
  using assms(1)[unfolded ssp_port_def, THEN spec, THEN spec, THEN mp, OF assms(2), THEN conjunct1] that by blast

lemma ssp_port_ris:
  assumes "ssp_port hw x xch R lag" "R w f"
  obtains f1 where "moved xch f f1" "R (snd (rd_RIS hw x w)) f1" "f1 = f \<Longrightarrow> txq f \<noteq> [] \<Longrightarrow> lag (snd (rd_RIS hw x w)) < lag w"
      "fst (rd_RIS hw x w) AND SSP_RIS_ROR \<noteq> 0 \<longleftrightarrow> ovr f1"
  using assms(1)[unfolded ssp_port_def, THEN spec, THEN spec, THEN mp, OF assms(2), THEN conjunct2, THEN conjunct1] that by blast

lemma ssp_port_write:
  assumes "ssp_port hw x xch R lag" "R w f"
  obtains f1 where "moved xch f f1" "length (txq f1) < 8 \<Longrightarrow> R (wr_DR hw x v w) (f1\<lparr>txq := txq f1 @ [ucast v]\<rparr>)"
  using assms(1)[unfolded ssp_port_def, THEN spec, THEN spec, THEN mp, OF assms(2), THEN conjunct2, THEN conjunct2, THEN conjunct1] that by blast

lemma ssp_port_read:
  assumes "ssp_port hw x xch R lag" "R w f"
  obtains f1 where "moved xch f f1" "\<And>r rs. rxq f1 = r # rs \<Longrightarrow> ucast (fst (rd_DR hw x w)) = r"
    "\<And>r rs. rxq f1 = r # rs \<Longrightarrow> R (snd (rd_DR hw x w)) (f1\<lparr>rxq := rs\<rparr>)"
  using assms(1)[unfolded ssp_port_def, THEN spec, THEN spec, THEN mp, OF assms(2), THEN conjunct2, THEN conjunct2, THEN conjunct2, THEN conjunct1] that by blast

lemma ssp_port_icr:
  assumes "ssp_port hw x xch R lag" "R w f"
  obtains f1 where "moved xch f f1" "R (wr_ICR hw x v w) (f1\<lparr>ovr := ovr f1 \<and> v AND 1 = 0\<rparr>)"
  using assms(1)[unfolded ssp_port_def, THEN spec, THEN spec, THEN mp, OF assms(2), THEN conjunct2, THEN conjunct2, THEN conjunct2, THEN conjunct2] that by blast

section \<open>Words sent and received\<close>

fun answers :: "('s \<Rightarrow> u16 \<Rightarrow> u16 \<times> 's) \<Rightarrow> 's \<Rightarrow> u16 list \<Rightarrow> u16 list" where
  "answers xch s [] = []"
| "answers xch s (v # vs) = fst (xch s v) # answers xch (snd (xch s v)) vs"

fun after :: "('s \<Rightarrow> u16 \<Rightarrow> u16 \<times> 's) \<Rightarrow> 's \<Rightarrow> u16 list \<Rightarrow> 's" where
  "after xch s [] = s"
| "after xch s (v # vs) = after xch (snd (xch s v)) vs"

lemma answers_append: "answers xch s (vs @ us) = answers xch s vs @ answers xch (after xch s vs) us"
  by (induction vs arbitrary: s) auto

lemma after_append: "after xch s (vs @ us) = after xch (after xch s vs) us"
  by (induction vs arbitrary: s) auto

lemma length_answers [simp]: "length (answers xch s vs) = length vs"
  by (induction vs arbitrary: s) auto

text \<open>The words sent so far are those exchanged and those waiting; the answers are read or waiting.\<close>

definition sync :: "('s \<Rightarrow> u16 \<Rightarrow> u16 \<times> 's) \<Rightarrow> 's \<Rightarrow> u16 list \<Rightarrow> u16 list \<Rightarrow> 's ssp_fifo \<Rightarrow> bool" where
  "sync xch s sent got f \<longleftrightarrow> (\<exists>mid. sent = mid @ txq f \<and> answers xch s mid = got @ rxq f \<and>
     peer f = after xch s mid \<and> \<not> ovr f)"

text \<open>
  Room for the words under way: nine of them can be in the port, because the status is read before
  the ninth is written, but then at most \<open>m\<close> of them have arrived.
\<close>

definition room :: "nat \<Rightarrow> 's ssp_fifo \<Rightarrow> bool" where
  "room m f \<longleftrightarrow> length (txq f) \<le> 8 \<and> length (txq f) + length (rxq f) \<le> 9 \<and>
     (length (rxq f) \<le> m \<or> length (txq f) + length (rxq f) \<le> 8)"

lemma sync_length: "sync xch s sent got f \<Longrightarrow> length sent = length got + length (rxq f) + length (txq f)"
  unfolding sync_def by (metis length_answers length_append)

lemma sync_done:
  assumes "sync xch s sent got f" "length got = length sent"
  shows "txq f = []" "rxq f = []" "got = answers xch s sent" "peer f = after xch s sent"
proof -
  show e: "txq f = []" "rxq f = []" using sync_length[OF assms(1)] assms(2) by simp_all
  from assms(1) show "got = answers xch s sent" "peer f = after xch s sent" by (auto simp: sync_def e)
qed

text \<open>The amount of work under way, which every exchange reduces.\<close>

definition load :: "'s ssp_fifo \<Rightarrow> nat" where
  "load f = 2 * length (txq f) + length (rxq f)"

lemma moved_sync:
  assumes "moved xch f f'" "sync xch s sent got f" "room m f" "m \<le> 7"
  shows "sync xch s sent got f'" "room (Suc m) f'" "length (txq f') + length (rxq f') = length (txq f) + length (rxq f)"
    "length (txq f') \<le> length (txq f)" "length (rxq f) \<le> length (rxq f')" "f' = f \<or> load f' < load f"
    "length (rxq f') \<le> Suc (length (rxq f))"
proof -
  have "sync xch s sent got f' \<and> room (Suc m) f' \<and> length (txq f') + length (rxq f') = length (txq f) + length (rxq f) \<and>
    length (txq f') \<le> length (txq f) \<and> length (rxq f) \<le> length (rxq f') \<and> (f' = f \<or> load f' < load f) \<and>
    length (rxq f') \<le> Suc (length (rxq f))"
  proof (cases "f' = f")
    case True
    then show ?thesis using assms(2,3) by (auto simp: room_def)
  next
    case False
    then obtain v vs where q: "txq f = v # vs" and f': "f' = shift1 xch f" using assms(1) by (auto simp: moved_def neq_Nil_conv)
    have l: "length (rxq f) < 8" using assms(3,4) q by (auto simp: room_def)
    obtain r p where x: "xch (peer f) v = (r, p)" by force
    have f'': "f' = f\<lparr>txq := vs, rxq := rxq f @ [r], peer := p\<rparr>" using f' q x l by (simp add: shift1_def)
    obtain mid where mid: "sent = mid @ txq f" "answers xch s mid = got @ rxq f" "peer f = after xch s mid" "\<not> ovr f"
      using assms(2) by (auto simp: sync_def)
    have "sent = (mid @ [v]) @ txq f'" "answers xch s (mid @ [v]) = got @ rxq f'" "peer f' = after xch s (mid @ [v])" "\<not> ovr f'"
      using mid q x by (simp_all add: f'' answers_append after_append)
    then have "sync xch s sent got f'" unfolding sync_def by blast
    then show ?thesis using assms(3) q by (auto simp: f'' room_def load_def)
  qed
  then show "sync xch s sent got f'" "room (Suc m) f'" "length (txq f') + length (rxq f') = length (txq f) + length (rxq f)"
    "length (txq f') \<le> length (txq f)" "length (rxq f) \<le> length (rxq f')" "f' = f \<or> load f' < load f"
    "length (rxq f') \<le> Suc (length (rxq f))" by blast+
qed

lemma sync_push:
  "sync xch s sent got f \<Longrightarrow> sync xch s (sent @ [v]) got (f\<lparr>txq := txq f @ [v]\<rparr>)"
  by (auto simp: sync_def)

lemma sync_pop:
  "sync xch s sent got f \<Longrightarrow> rxq f = r # rs \<Longrightarrow> sync xch s sent (got @ [r]) (f\<lparr>rxq := rs\<rparr>)"
  by (auto simp: sync_def)

section \<open>A polled transfer of bytes\<close>

text \<open>The description of a transfer \<open>c\<close> when \<open>t\<close> bytes were sent and the words \<open>got\<close> were read.\<close>

definition view :: "'w SSP_DATA_SETUP_Type \<Rightarrow> nat \<Rightarrow> u16 list \<Rightarrow> 'w SSP_DATA_SETUP_Type" where
  "view c t got = c\<lparr>tx_cnt := word_of_nat t,
     rx_data := map_option (\<lambda>b. map ucast got @ drop (length got) b) (rx_data c),
     rx_cnt := word_of_nat (length got)\<rparr>"

definition words_out :: "'w SSP_DATA_SETUP_Type \<Rightarrow> u16 list" where
  "words_out c = (case tx_data c of
     None \<Rightarrow> replicate (unat (xlength c)) 0xFF
   | Some b \<Rightarrow> map ucast (take (unat (xlength c)) b))"

text \<open>The buffers have the length of the transfer.\<close>

definition buffers_ok :: "'w SSP_DATA_SETUP_Type \<Rightarrow> bool" where
  "buffers_ok c \<longleftrightarrow> (\<forall>b. tx_data c = Some b \<longrightarrow> unat (xlength c) \<le> length b) \<and>
     (\<forall>b. rx_data c = Some b \<longrightarrow> unat (xlength c) \<le> length b)"

lemma length_words_out: "buffers_ok c \<Longrightarrow> length (words_out c) = unat (xlength c)"
  by (auto simp: buffers_ok_def words_out_def split: option.splits)

lemma word16_mask:
  "(ucast (v :: u16) :: u32) AND 0xFFFF = ucast v" "(ucast (w AND 0xFFFF :: u32) :: u16) = ucast w"
  "(ucast (ucast v :: u32) :: u16) = v"
proof -
  have m: "(0xFFFF :: u32) = mask 16" by (simp add: mask_eq_exp_minus_1)
  show "(ucast v :: u32) AND 0xFFFF = ucast v" "(ucast (w AND 0xFFFF) :: u16) = ucast w"
    "(ucast (ucast v :: u32) :: u16) = v"
    unfolding m by (rule bit_word_eqI, auto simp: bit_simps dest: bit_imp_le_length)+
qed

lemma u32_of_nat: "k \<le> unat (n :: u32) \<Longrightarrow> unat (word_of_nat k :: u32) = k"
proof -
  assume "k \<le> unat n"
  also have "unat n < 2 ^ 32" using unsigned_less[of n] by simp
  finally show ?thesis by (simp add: unat_of_nat)
qed

lemma view_count:
  "k \<le> unat (n :: u32) \<Longrightarrow> (word_of_nat k = n) = (k = unat n)"
  using u32_of_nat[of k n] by (metis word_unat_eq_iff)

lemma store_view:
  assumes "buffers_ok c" "length got < unat (xlength c)"
  shows "store_word 0 v (view c t got) = Some (view c t (got @ [v]))"
proof -
  have l: "unat (word_of_nat (length got) :: u32) = length got" using u32_of_nat[of "length got" "xlength c"] assms(2) by simp
  show ?thesis
  proof (cases "rx_data c")
    case None
    then show ?thesis by (simp add: store_word_def view_def)
  next
    case (Some b)
    then have b: "length got < length b" using assms by (auto simp: buffers_ok_def)
    then have "(map ucast got @ drop (length got) b)[length got := ucast v] = map ucast (got @ [v]) @ drop (length (got @ [v])) b"
      by (simp add: list_update_append Cons_nth_drop_Suc[symmetric])
    then show ?thesis using Some b l by (simp add: store_word_def view_def)
  qed
qed

lemma send_view:
  assumes "buffers_ok c" "t < unat (xlength c)"
  shows "send_word hw x 0 (view c t got) w = Some (view c (Suc t) got, wr_DR hw x (ucast (words_out c ! t)) w)"
proof -
  have l: "unat (word_of_nat t :: u32) = t" using u32_of_nat[of t "xlength c"] assms(2) by simp
  show ?thesis
  proof (cases "tx_data c")
    case None
    then show ?thesis using assms(2) by (simp add: send_word_def view_def SSP_SendData_def words_out_def)
  next
    case (Some b)
    then have "t < length b" using assms by (auto simp: buffers_ok_def)
    then show ?thesis using Some l assms(2) by (simp add: send_word_def view_def SSP_SendData_def words_out_def word16_mask)
  qed
qed

lemma recv_loop_ok:
  assumes port: "ssp_port hw x xch R lag" and buf: "buffers_ok c" and sent: "length sent \<le> unat (xlength c)"
  shows "R w f \<Longrightarrow> sync xch s sent got f \<Longrightarrow> room 3 f \<Longrightarrow>
    \<exists>got' w' f'. recv_loop hw x 0 (view c t got) w = Some (view c t got', w') \<and> R w' f' \<and> sync xch s sent got' f' \<and>
      rxq f' = [] \<and> length (txq f') \<le> 8 \<and>
      (load f' < load f \<or> f' = f \<and> (txq f \<noteq> [] \<longrightarrow> lag w' < lag w))"
proof (induction "unat (xlength c) - length got" arbitrary: w f got rule: less_induct)
  case less
  note R = less.prems(1) and sy = less.prems(2) and ro = less.prems(3)
  have cnt: "(rx_cnt (view c t got) = xlength c) = (length got = unat (xlength c))"
    using view_count[of "length got" "xlength c"] sync_length[OF sy] sent by (simp add: view_def)
  have len: "xlength (view c t got) = xlength c" by (simp add: view_def)
  obtain f1 where f1: "moved xch f f1" "R (snd (rd_SR hw x w)) f1" "f1 = f \<Longrightarrow> txq f \<noteq> [] \<Longrightarrow> lag (snd (rd_SR hw x w)) < lag w"
      "fst (rd_SR hw x w) AND SSP_SR_RNE \<noteq> 0 \<longleftrightarrow> rxq f1 \<noteq> []" by (rule ssp_port_sr[OF port R]) blast
  note m1 = moved_sync[OF f1(1) sy ro, simplified]
  show ?case
  proof (cases "rxq f1 = []")
    case True
    then have "recv_loop hw x 0 (view c t got) w = Some (view c t got, snd (rd_SR hw x w))"
      using f1(4) by (subst recv_loop.simps) (simp add: case_prod_beta)
    moreover have "length (txq f1) \<le> 8" using m1(2) by (simp add: room_def)
    moreover have "load f1 < load f \<or> f1 = f \<and> (txq f \<noteq> [] \<longrightarrow> lag (snd (rd_SR hw x w)) < lag w)"
      using m1(6) f1(3) by blast
    ultimately show ?thesis using f1(2) m1(1) True by blast
  next
    case False
    have lt: "length got < unat (xlength c)" using sync_length[OF m1(1)] False sent by (cases "rxq f1") auto
    let ?w1 = "snd (rd_SR hw x w)"
    obtain f2 where f2: "moved xch f1 f2" "\<And>r rs. rxq f2 = r # rs \<Longrightarrow> ucast (fst (rd_DR hw x ?w1)) = r"
      "\<And>r rs. rxq f2 = r # rs \<Longrightarrow> R (snd (rd_DR hw x ?w1)) (f2\<lparr>rxq := rs\<rparr>)"
      by (rule ssp_port_read[OF port f1(2)]) blast
    note m2 = moved_sync[OF f2(1) m1(1,2), simplified]
    obtain r rs where r: "rxq f2 = r # rs" using False m2(5) by (cases "rxq f2") auto
    let ?w2 = "snd (rd_DR hw x ?w1)" and ?f3 = "f2\<lparr>rxq := rs\<rparr>"
    have rec: "SSP_ReceiveData hw x ?w1 = (r, ?w2)"
      using f2(2)[OF r] by (simp add: SSP_ReceiveData_def case_prod_beta word16_mask)
    have step: "recv_loop hw x 0 (view c t got) w = recv_loop hw x 0 (view c t (got @ [r])) ?w2"
      using f1(4) False lt cnt len store_view[OF buf lt, of r t]
      by (subst recv_loop.simps) (simp add: case_prod_beta rec)
    have sy3: "sync xch s sent (got @ [r]) ?f3" by (rule sync_pop[OF m2(1) r])
    have ro3: "room 3 ?f3" using m2(2) r by (auto simp: room_def)
    have "unat (xlength c) - length (got @ [r]) < unat (xlength c) - length got" using lt by simp
    from less.hyps[OF this f2(3)[OF r] sy3 ro3] obtain got' w' f' where
      "recv_loop hw x 0 (view c t (got @ [r])) ?w2 = Some (view c t got', w')" "R w' f'" "sync xch s sent got' f'"
      "rxq f' = []" "length (txq f') \<le> 8" and l: "load f' < load ?f3 \<or> f' = ?f3" by blast
    moreover have "load ?f3 < load f" using m1(6) m2(6) r by (auto simp: load_def)
    then have "load f' < load f" using l by auto
    ultimately show ?thesis using step by auto
  qed
qed

text \<open>The first half of a round of the polling loop: the next byte is written if there is room.\<close>

lemma poll_send_ok:
  assumes port: "ssp_port hw x xch R lag" and buf: "buffers_ok c" and ws: "ws = words_out c"
    and R: "R w f" and sy: "sync xch s (take t ws) got f" and q: "rxq f = []" "length (txq f) \<le> 8"
    and t: "t \<le> length ws" "\<not> (t = length ws \<and> length got = length ws)"
  shows "\<exists>t2 w2 f2. (if fst (rd_SR hw x w) AND SSP_SR_TNF \<noteq> 0 \<and> t \<noteq> length ws
      then send_word hw x 0 (view c t got) (snd (rd_SR hw x w)) else Some (view c t got, snd (rd_SR hw x w))) = Some (view c t2 got, w2) \<and>
    R w2 f2 \<and> sync xch s (take t2 ws) got f2 \<and> room 2 f2 \<and> t2 \<le> length ws \<and>
    (3 * (length ws - t2) + load f2 < 3 * (length ws - t) + load f \<or> t2 = t \<and> f2 = f \<and> txq f \<noteq> [] \<and> lag w2 < lag w)"
proof -
  let ?w1 = "snd (rd_SR hw x w)"
  have ro: "room 0 f" using q by (simp add: room_def)
  obtain f1 where f1: "moved xch f f1" "R ?w1 f1" "f1 = f \<Longrightarrow> txq f \<noteq> [] \<Longrightarrow> lag ?w1 < lag w"
    "fst (rd_SR hw x w) AND SSP_SR_TNF \<noteq> 0 \<longleftrightarrow> length (txq f1) < 8" by (rule ssp_port_sr[OF port R]) blast
  note m1 = moved_sync[OF f1(1) sy ro, simplified]
  show ?thesis
  proof (cases "length (txq f1) < 8 \<and> t \<noteq> length ws")
    case True
    then have tl: "t < length ws" using t by simp
    then have sw: "send_word hw x 0 (view c t got) ?w1 = Some (view c (Suc t) got, wr_DR hw x (ucast (ws ! t)) ?w1)"
      using send_view[OF buf, of t] length_words_out[OF buf] ws by simp
    obtain g where g: "moved xch f1 g" "length (txq g) < 8 \<Longrightarrow> R (wr_DR hw x (ucast (ws ! t)) ?w1) (g\<lparr>txq := txq g @ [ucast (ucast (ws ! t) :: u32)]\<rparr>)"
      by (rule ssp_port_write[OF port f1(2)]) blast
    note mg = moved_sync[OF g(1) m1(1,2), simplified]
    let ?g = "g\<lparr>txq := txq g @ [ws ! t]\<rparr>"
    have g8: "length (txq g) < 8" using True mg(4) by simp
    have "take (Suc t) ws = take t ws @ [ws ! t]" using tl by (simp add: take_Suc_conv_app_nth)
    then have "sync xch s (take (Suc t) ws) got ?g" using sync_push[OF mg(1)] by simp
    moreover have "R (wr_DR hw x (ucast (ws ! t)) ?w1) ?g" using g(2)[OF g8] by (simp add: word16_mask)
    moreover have "room 2 ?g" using mg(3,7) m1(3,7) g8 q by (simp add: room_def)
    moreover have "load ?g \<le> load f + 2" using m1(6) mg(6) by (auto simp: load_def)
    then have "3 * (length ws - Suc t) + load ?g < 3 * (length ws - t) + load f" using tl by linarith
    ultimately show ?thesis using sw True tl f1(4)
      by (intro exI[of _ "Suc t"] exI[of _ "wr_DR hw x (ucast (ws ! t)) ?w1"] exI[of _ ?g]) simp
  next
    case False
    have "txq f \<noteq> []"
    proof
      assume e: "txq f = []"
      then have "t = length ws" using False m1(4) t by auto
      then show False using sync_length[OF sy] q e t by simp
    qed
    then have "load f1 < load f \<or> f1 = f \<and> txq f \<noteq> [] \<and> lag ?w1 < lag w" using m1(6) f1(3) by auto
    moreover have "room 2 f1" using m1(2) by (auto simp: room_def)
    ultimately show ?thesis using False f1(2,4) m1(1) t(1)
      by (intro exI[of _ t] exI[of _ ?w1] exI[of _ f1]) auto
  qed
qed

lemma poll_loop_ok:
  assumes port: "ssp_port hw x xch R lag" and buf: "buffers_ok c" and ws: "ws = words_out c"
  shows "R w f \<Longrightarrow> sync xch s (take t ws) got f \<Longrightarrow> rxq f = [] \<Longrightarrow> length (txq f) \<le> 8 \<Longrightarrow> t \<le> length ws \<Longrightarrow>
    \<exists>w' f'. poll_loop hw x 0 (view c t got) w = Some (None, view c (length ws) (answers xch s ws), w') \<and> R w' f' \<and>
      txq f' = [] \<and> rxq f' = [] \<and> peer f' = after xch s ws"
proof (induction "(3 * (length ws - t) + load f, lag w)" arbitrary: w f t got
    rule: wf_induct_rule[OF wf_lex_prod[OF wf_less_than wf_less_than]])
  case 1
  note hyp = 1(1) and R = 1(2) and sy = 1(3) and q = 1(4,5) and t = 1(6)
  have n: "length ws = unat (xlength c)" using length_words_out[OF buf] ws by simp
  have "length got \<le> length ws" using sync_length[OF sy] t by simp
  then have cnt: "(tx_cnt (view c t got) = xlength c) = (t = length ws)" "(rx_cnt (view c t got) = xlength c) = (length got = length ws)"
    using view_count[of _ "xlength c"] t n by (simp_all add: view_def)
  have len: "xlength (view c k g) = xlength c" for k g by (simp add: view_def)
  show ?case
  proof (cases "t = length ws \<and> length got = length ws")
    case True
    then have "take t ws = ws" "length got = length (take t ws)" by simp_all
    note d = sync_done[OF sy this(2)]
    show ?thesis using True R d cnt len by (subst poll_loop.simps) (auto simp: case_prod_beta)
  next
    case False
    obtain t2 w2 f2 where s2: "(if fst (rd_SR hw x w) AND SSP_SR_TNF \<noteq> 0 \<and> t \<noteq> length ws
        then send_word hw x 0 (view c t got) (snd (rd_SR hw x w)) else Some (view c t got, snd (rd_SR hw x w))) = Some (view c t2 got, w2)"
      "R w2 f2" "sync xch s (take t2 ws) got f2" "room 2 f2" "t2 \<le> length ws"
      and p2: "3 * (length ws - t2) + load f2 < 3 * (length ws - t) + load f \<or> t2 = t \<and> f2 = f \<and> txq f \<noteq> [] \<and> lag w2 < lag w"
      using poll_send_ok[OF port buf ws R sy q t False] by blast
    obtain f3 where f3: "moved xch f2 f3" "R (snd (rd_RIS hw x w2)) f3" "f3 = f2 \<Longrightarrow> txq f2 \<noteq> [] \<Longrightarrow> lag (snd (rd_RIS hw x w2)) < lag w2"
      "fst (rd_RIS hw x w2) AND SSP_RIS_ROR \<noteq> 0 \<longleftrightarrow> ovr f3" by (rule ssp_port_ris[OF port s2(2)]) blast
    note m3 = moved_sync[OF f3(1) s2(3,4), simplified]
    have "room 3 f3" using m3(2) by (simp add: numeral_3_eq_3)
    moreover have "length (take t2 ws) \<le> unat (xlength c)" using n s2(5) by simp
    ultimately obtain got' w4 f4 where f4: "recv_loop hw x 0 (view c t2 got) (snd (rd_RIS hw x w2)) = Some (view c t2 got', w4)" "R w4 f4"
      "sync xch s (take t2 ws) got' f4" "rxq f4 = []" "length (txq f4) \<le> 8"
      "load f4 < load f3 \<or> f4 = f3 \<and> (txq f3 \<noteq> [] \<longrightarrow> lag w4 < lag (snd (rd_RIS hw x w2)))"
      using recv_loop_ok[OF port buf _ f3(2) m3(1), of t2] by blast
    have no: "fst (rd_RIS hw x w2) AND SSP_RIS_ROR = 0" using f3(4) m3(1) by (auto simp: sync_def)
    have step: "poll_loop hw x 0 (view c t got) w = poll_loop hw x 0 (view c t2 got') w4"
      using False cnt len s2(1) no f4(1) by (subst poll_loop.simps) (auto simp: case_prod_beta)
    have "((3 * (length ws - t2) + load f4, lag w4), (3 * (length ws - t) + load f, lag w)) \<in> less_than <*lex*> less_than"
      using p2 m3(6) f3(3) f4(6) by auto
    from hyp[OF this f4(2,3,4,5) s2(5)] show ?thesis using step by simp
  qed
qed

lemma clear_rx_ok:
  assumes port: "ssp_port hw x xch R lag"
  shows "R w f \<Longrightarrow> txq f = [] \<Longrightarrow> \<exists>w'. clear_rx hw x w = Some w' \<and> R w' (f\<lparr>rxq := []\<rparr>)"
proof (induction "rxq f" arbitrary: w f)
  case Nil
  obtain f1 where "moved xch f f1" "R (snd (rd_SR hw x w)) f1" "fst (rd_SR hw x w) AND SSP_SR_RNE \<noteq> 0 \<longleftrightarrow> rxq f1 \<noteq> []"
    by (rule ssp_port_sr[OF port Nil(2)]) blast
  then have "R (snd (rd_SR hw x w)) f" "fst (rd_SR hw x w) AND SSP_SR_RNE = 0"
    using Nil(1)[symmetric] Nil(3) by (auto simp: moved_def)
  then have "R (snd (rd_SR hw x w)) f" "clear_rx hw x w = Some (snd (rd_SR hw x w))"
    by (simp, subst clear_rx.simps, simp add: case_prod_beta)
  moreover have "f\<lparr>rxq := []\<rparr> = f" using Nil(1) by (cases f) simp
  ultimately show ?case by simp
next
  case (Cons r rs)
  obtain f1 where f1: "moved xch f f1" "R (snd (rd_SR hw x w)) f1" "fst (rd_SR hw x w) AND SSP_SR_RNE \<noteq> 0 \<longleftrightarrow> rxq f1 \<noteq> []"
    by (rule ssp_port_sr[OF port Cons(3)]) blast
  then have e: "f1 = f" using Cons(4) by (simp add: moved_def)
  obtain f2 where f2: "moved xch f f2" "\<And>r rs. rxq f2 = r # rs \<Longrightarrow> R (snd (rd_DR hw x (snd (rd_SR hw x w)))) (f2\<lparr>rxq := rs\<rparr>)"
    by (rule ssp_port_read[OF port f1(2)[unfolded e]]) blast
  then have "f2 = f" using Cons(4) by (simp add: moved_def)
  then have R: "R (snd (rd_DR hw x (snd (rd_SR hw x w)))) (f\<lparr>rxq := rs\<rparr>)" using f2(2) Cons(2)[symmetric] by blast
  have "clear_rx hw x w = clear_rx hw x (snd (rd_DR hw x (snd (rd_SR hw x w))))"
    using f1(3) e Cons(2)[symmetric] by (subst clear_rx.simps) (simp add: case_prod_beta SSP_ReceiveData_def)
  moreover have "rs = rxq (f\<lparr>rxq := rs\<rparr>)" "txq (f\<lparr>rxq := rs\<rparr>) = []" using Cons(4) by simp_all
  ultimately show ?case using Cons(1)[OF _ R] by simp
qed

lemma polled_transfer_ok:
  assumes "ssp_port hw x xch R lag" "R (ssp_w s) f" "txq f = []"
    and "dataword (sspdat s x) = 0" "buffers_ok c" "xlength c < 0x80000000"
  shows "\<exists>c' w' f'. SSP_ReadWrite hw x c SSP_TRANSFER_POLLING s =
      Some (if tx_data c \<noteq> None \<or> rx_data c \<noteq> None then uint (xlength c) else 0, c', s\<lparr>ssp_w := w'\<rparr>) \<and>
    rx_data c' = map_option (\<lambda>b. map ucast (answers xch (peer f) (words_out c)) @ drop (unat (xlength c)) b) (rx_data c) \<and>
    xstatus c' = SSP_STAT_DONE \<and> R w' f' \<and> txq f' = [] \<and> peer f' = after xch (peer f) (words_out c)"
proof -
  let ?c = "c\<lparr>rx_cnt := 0, tx_cnt := 0, xstatus := 0\<rparr>" and ?ws = "words_out c"
  obtain w1 where w1: "clear_rx hw x (ssp_w s) = Some w1" "R w1 (f\<lparr>rxq := []\<rparr>)" using clear_rx_ok[OF assms(1,2,3)] by auto
  obtain f2 where f2: "moved xch (f\<lparr>rxq := []\<rparr>) f2" "R (wr_ICR hw x SSP_ICR_BITMASK w1) (f2\<lparr>ovr := ovr f2 \<and> SSP_ICR_BITMASK AND 1 = 0\<rparr>)"
    by (rule ssp_port_icr[OF assms(1) w1(2)]) blast
  then have e: "f2 = f\<lparr>rxq := []\<rparr>" using assms(3) by (simp add: moved_def)
  let ?w2 = "wr_ICR hw x SSP_ICR_BITMASK w1" and ?f2 = "f\<lparr>rxq := [], ovr := False\<rparr>"
  have R2: "R ?w2 ?f2" using f2(2) by (simp add: e)
  have buf: "buffers_ok ?c" using assms(5) by (simp add: buffers_ok_def)
  have ws: "?ws = words_out ?c" by (simp add: words_out_def split: option.split)
  have sy: "sync xch (peer f) (take 0 ?ws) [] ?f2" using assms(3) by (simp add: sync_def)
  have v0: "view ?c 0 [] = ?c" by (simp add: view_def option.map_ident)
  have n: "length ?ws = unat (xlength c)" by (rule length_words_out[OF assms(5)])
  obtain w3 f3 where p: "poll_loop hw x 0 ?c ?w2 = Some (None, view ?c (length ?ws) (answers xch (peer f) ?ws), w3)" "R w3 f3"
    "txq f3 = []" "peer f3 = after xch (peer f) ?ws"
    using poll_loop_ok[OF assms(1) buf ws R2 sy] assms(3) unfolding v0 by auto
  have si: "sint (xlength c) = uint (xlength c)"
  proof -
    have "- (2 ^ 31) \<le> uint (xlength c)" by (rule order_trans[of _ 0]) simp_all
    then show ?thesis using assms(6) signed_take_bit_int_eq_self[of 31 "uint (xlength c)"] by (simp add: sint_uint word_less_def)
  qed
  let ?c' = "(view ?c (length ?ws) (answers xch (peer f) ?ws))\<lparr>xstatus := SSP_STAT_DONE\<rparr>"
  have "SSP_ReadWrite hw x c SSP_TRANSFER_POLLING s =
      Some (if tx_data c \<noteq> None \<or> rx_data c \<noteq> None then uint (xlength c) else 0, ?c', s\<lparr>ssp_w := w3\<rparr>)"
    using w1(1) p(1) assms(4) n si by (auto simp: SSP_ReadWrite_def view_def)
  moreover have "rx_data ?c' = map_option (\<lambda>b. map ucast (answers xch (peer f) ?ws) @ drop (unat (xlength c)) b) (rx_data c)"
    by (simp add: view_def n)
  ultimately show ?thesis using p(2-4) by fastforce
qed

text \<open>
  \<^bold>\<open>C35\<close>. A polled transfer of \<^verbatim>\<open>SSP_ReadWrite\<close> in the 8-bit mode returns and exchanges exactly the bytes of
  its buffers: the words sent are those of the transmit buffer, or ones without it, in order; the
  answers of the peer fill the receive buffer, in order, and nothing beyond it; words that were
  received before are dropped; the description reports completion, and no overrun can occur, provided that
  the port exchanges at most one word from one register access to the next.
\<close>

theorem polled_transfer_exchanges:
  assumes "ssp_port hw x xch R lag" "R (ssp_w s) f" "txq f = []"
    and "dataword (sspdat s x) = 0" "buffers_ok c" "xlength c < 0x80000000"
  shows "\<exists>c' w' f'. SSP_ReadWrite hw x c SSP_TRANSFER_POLLING s =
      Some (if tx_data c \<noteq> None \<or> rx_data c \<noteq> None then uint (xlength c) else 0, c', s\<lparr>ssp_w := w'\<rparr>) \<and>
    rx_data c' = map_option (\<lambda>b. map ucast (answers xch (peer f) (words_out c)) @ drop (unat (xlength c)) b) (rx_data c) \<and>
    xstatus c' = SSP_STAT_DONE \<and> R w' f' \<and> txq f' = [] \<and> peer f' = after xch (peer f) (words_out c)"
  by (rule polled_transfer_ok[OF assms])

text \<open>A port that exchanges one word at every access, with a peer that returns the word before.\<close>

definition tick :: "('s \<Rightarrow> u16 \<Rightarrow> u16 \<times> 's) \<Rightarrow> 's ssp_fifo \<Rightarrow> 's ssp_fifo" where
  "tick xch f = shift1 xch f"

definition sim_port :: "('s \<Rightarrow> u16 \<Rightarrow> u16 \<times> 's) \<Rightarrow> ('s ssp_fifo) ssp_regs" where
  "sim_port xch = \<lparr>
     rd_SR = (\<lambda>_ f. let f' = tick xch f in
       ((if length (txq f') < 8 then SSP_SR_TNF else 0) OR (if rxq f' \<noteq> [] then SSP_SR_RNE else 0), f')),
     rd_DR = (\<lambda>_ f. let f' = tick xch f in (case rxq f' of [] \<Rightarrow> (0, f') | r # rs \<Rightarrow> (ucast r, f'\<lparr>rxq := rs\<rparr>))),
     wr_DR = (\<lambda>_ v f. let f' = tick xch f in if length (txq f') < 8 then f'\<lparr>txq := txq f' @ [ucast v]\<rparr> else f'),
     rd_RIS = (\<lambda>_ f. let f' = tick xch f in (if ovr f' then SSP_RIS_ROR else 0, f')),
     rd_MIS = (\<lambda>_ f. let f' = tick xch f in (0, f')),
     wr_ICR = (\<lambda>_ v f. let f' = tick xch f in f'\<lparr>ovr := ovr f' \<and> v AND 1 = 0\<rparr>)\<rparr>"

lemma moved_tick: "moved xch f (tick xch f)" "tick xch f = f \<longrightarrow> txq f = []"
proof -
  show "moved xch f (tick xch f)" by (cases "txq f") (simp_all add: moved_def tick_def shift1_def)
  have "txq (tick xch f) = tl (txq f)" by (cases "txq f") (simp_all add: tick_def shift1_def case_prod_beta)
  then show "tick xch f = f \<longrightarrow> txq f = []" by (cases "txq f") auto
qed

lemma sim_port_ok: "ssp_port (sim_port xch) x xch (\<lambda>w f. w = f) (\<lambda>_. 0)"
proof -
  have b: "((if p then SSP_SR_TNF else 0) OR (if q then SSP_SR_RNE else 0)) AND SSP_SR_TNF \<noteq> (0 :: u32) \<longleftrightarrow> p"
    "((if p then SSP_SR_TNF else 0) OR (if q then SSP_SR_RNE else 0)) AND SSP_SR_RNE \<noteq> (0 :: u32) \<longleftrightarrow> q" for p q
    by auto
  show ?thesis
    unfolding ssp_port_def
  proof (intro allI impI conjI)
    fix w f :: "'a ssp_fifo"
    assume w: "w = f"
    show "\<exists>f'. moved xch f f' \<and> snd (rd_SR (sim_port xch) x w) = f' \<and>
        (f' = f \<and> txq f \<noteq> [] \<longrightarrow> 0 < (0 :: nat)) \<and>
        (fst (rd_SR (sim_port xch) x w) AND SSP_SR_TNF \<noteq> 0 \<longleftrightarrow> length (txq f') < 8) \<and>
        (fst (rd_SR (sim_port xch) x w) AND SSP_SR_RNE \<noteq> 0 \<longleftrightarrow> rxq f' \<noteq> [])"
      using moved_tick[where xch = xch and f = f] b w by (intro exI[of _ "tick xch f"]) (simp add: sim_port_def Let_def)
    show "\<exists>f'. moved xch f f' \<and> snd (rd_RIS (sim_port xch) x w) = f' \<and>
        (f' = f \<and> txq f \<noteq> [] \<longrightarrow> 0 < (0 :: nat)) \<and> (fst (rd_RIS (sim_port xch) x w) AND SSP_RIS_ROR \<noteq> 0 \<longleftrightarrow> ovr f')"
      using moved_tick[where xch = xch and f = f] w by (intro exI[of _ "tick xch f"]) (simp add: sim_port_def Let_def)
    show "\<exists>f'. moved xch f f' \<and> (length (txq f') < 8 \<longrightarrow> wr_DR (sim_port xch) x v w = f'\<lparr>txq := txq f' @ [ucast v]\<rparr>)" for v
      using moved_tick[where xch = xch and f = f] w by (intro exI[of _ "tick xch f"]) (simp add: sim_port_def Let_def)
    show "\<exists>f'. moved xch f f' \<and> (\<forall>r rs. rxq f' = r # rs \<longrightarrow>
        ucast (fst (rd_DR (sim_port xch) x w)) = r \<and> snd (rd_DR (sim_port xch) x w) = f'\<lparr>rxq := rs\<rparr>)"
      using moved_tick[where xch = xch and f = f] w by (intro exI[of _ "tick xch f"]) (simp add: sim_port_def Let_def word16_mask)
    show "\<exists>f'. moved xch f f' \<and> wr_ICR (sim_port xch) x v w = f'\<lparr>ovr := ovr f' \<and> v AND 1 = 0\<rparr>" for v
      using moved_tick[where xch = xch and f = f] w by (intro exI[of _ "tick xch f"]) (simp add: sim_port_def Let_def)
  qed
qed

definition ssp_idle :: "'w \<Rightarrow> 'w ssp_drv" where
  "ssp_idle w = \<lparr>ssp_mem = (\<lambda>_. \<lparr>CR0 = 0, CR1 = 0, CPSR = 0, IMSC = 0, DMACR = 0\<rparr>),
     sspdat = (\<lambda>_. \<lparr>dataword = 0, txrx_setup = None\<rparr>),
     ssp_sc = \<lparr>PCLKSEL0 = 0, PCLKSEL1 = 0, PCONP = 0\<rparr>, ssp_clk = 100000000, ssp_w = w\<rparr>"

theorem polled_transfer_exchanges_witness:
  "\<exists>c' s'. SSP_ReadWrite (sim_port (\<lambda>s v. (s, v))) SSP1
      \<lparr>tx_data = Some [1, 2, 3], tx_cnt = 9, rx_data = Some [7, 7, 7, 7], rx_cnt = 9, xlength = 3, xstatus = 9, callback = None\<rparr>
      SSP_TRANSFER_POLLING (ssp_idle \<lparr>txq = [], rxq = [5], ovr = True, peer = 0xFF\<rparr>) = Some (3, c', s') \<and>
    rx_data c' = Some [0xFF, 1, 2, 7]"
proof -
  let ?c = "\<lparr>tx_data = Some [1, 2, 3], tx_cnt = 9, rx_data = Some [7, 7, 7, 7], rx_cnt = 9, xlength = 3, xstatus = 9,
    callback = None\<rparr> :: u16 ssp_fifo SSP_DATA_SETUP_Type"
  let ?f = "\<lparr>txq = [], rxq = [5], ovr = True, peer = 0xFF\<rparr> :: u16 ssp_fifo"
  have b: "buffers_ok ?c" by (simp add: buffers_ok_def)
  show ?thesis
    using polled_transfer_exchanges[OF sim_port_ok[of "\<lambda>s v. (s, v)" SSP1], of "ssp_idle ?f" ?f ?c] b
    by (auto simp: ssp_idle_def words_out_def)
qed

section \<open>The clock rate\<close>

lemma find_clock_ok:
  assumes "unat clk < 2 ^ 31"
  shows "unat d \<le> 255 \<Longrightarrow> 2 \<le> unat p \<Longrightarrow> unat p < 2 ^ 23 + 2 \<Longrightarrow>
    \<exists>d' p'. find_clock clk target d p = Some (d', p') \<and> unat d' \<le> 255 \<and> 2 \<le> unat p' \<and>
      unat clk div ((unat d' + 1) * unat p') \<le> unat target \<and>
      (p' = p \<or> unat target < unat clk div (256 * (unat p' - 2)))"
proof (induction "256 * (2 ^ 23 + 2 - unat p) + (255 - unat d)" arbitrary: d p rule: less_induct)
  case less
  note d = less.prems(1) and p = less.prems(2,3)
  have d1: "unat (d + 1) = unat d + 1" using d by (simp add: unat_word_ariths)
  have "(unat d + 1) * unat p \<le> 256 * (2 ^ 23 + 1)" using d p by (intro mult_le_mono) auto
  then have m: "unat ((d + 1) * p) = (unat d + 1) * unat p" using unat_word_ariths(2)[of "d + 1" p] d1 by simp
  have nz: "(d + 1) * p \<noteq> 0" using m p(1) by (auto simp: word_unat_eq_iff)
  have q: "(target < clk div ((d + 1) * p)) = (unat target < unat clk div ((unat d + 1) * unat p))"
    by (simp add: word_less_nat_alt unat_div m)
  show ?case
  proof (cases "unat target < unat clk div ((unat d + 1) * unat p)")
    case False
    then have "find_clock clk target d p = Some (d, p)" using nz q by (subst find_clock.simps) simp
    then show ?thesis using False d p(1) by auto
  next
    case big: True
    show ?thesis
    proof (cases "unat d = 255")
      case True
      then have g: "0xFF < d + 1" using d1 by (simp add: word_less_nat_alt)
      have "0 < unat clk div (256 * unat p)" using big True by simp
      then have "256 * unat p \<le> unat clk" by (simp add: div_greater_zero_iff)
      then have p23: "unat p < 2 ^ 23" using assms by simp
      then have p2: "unat (p + 2) = unat p + 2" by (simp add: unat_word_ariths)
      have "256 * (2 ^ 23 + 2 - unat (p + 2)) + (255 - unat (0 :: u32)) < 256 * (2 ^ 23 + 2 - unat p) + (255 - unat d)"
        using p2 p23 by simp
      from less.hyps[OF this] obtain d' p' where h: "find_clock clk target 0 (p + 2) = Some (d', p')" "unat d' \<le> 255" "2 \<le> unat p'"
        "unat clk div ((unat d' + 1) * unat p') \<le> unat target"
        "p' = p + 2 \<or> unat target < unat clk div (256 * (unat p' - 2))" using p2 p23 by auto
      have "unat target < unat clk div (256 * (unat p' - 2))" using h(5) big True p2 by auto
      then show ?thesis using h nz q big g by (subst find_clock.simps) auto
    next
      case False
      then have g: "\<not> 0xFF < d + 1" using d d1 by (simp add: word_less_nat_alt)
      have "256 * (2 ^ 23 + 2 - unat p) + (255 - unat (d + 1)) < 256 * (2 ^ 23 + 2 - unat p) + (255 - unat d)"
        using d1 d False by simp
      from less.hyps[OF this] obtain d' p' where h: "find_clock clk target (d + 1) p = Some (d', p')" "unat d' \<le> 255" "2 \<le> unat p'"
        "unat clk div ((unat d' + 1) * unat p') \<le> unat target"
        "p' = p \<or> unat target < unat clk div (256 * (unat p' - 2))" using d1 d False p by auto
      then show ?thesis using nz q big g by (subst find_clock.simps) auto
    qed
  qed
qed

lemma low_byte: "unat (d :: u32) \<le> 255 \<Longrightarrow> take_bit 8 d = d" "unat d \<le> 255 \<Longrightarrow> d AND 0xFF = d"
proof -
  assume "unat d \<le> 255"
  then have "take_bit 8 (unat d) = unat d" by (simp add: take_bit_nat_eq_self)
  then show "take_bit 8 d = d" by (simp add: word_unat_eq_iff unsigned_take_bit_eq)
  then show "d AND 0xFF = d" by (simp add: take_bit_eq_mask mask_eq_exp_minus_1)
qed

lemma cr0_fields:
  fixes r d :: u32
  assumes "unat d \<le> 255"
  defines "v \<equiv> (r AND ((NOT (SSP_CR0_SCR 0xFF)) AND SSP_CR0_BITMASK)) OR (SSP_CR0_SCR d AND SSP_CR0_BITMASK)"
  shows "drop_bit 8 v AND 0xFF = d" "v AND 0xFF = r AND 0xFF"
proof -
  have m: "(0xFF :: u32) = mask 8" "(0xFFFF :: u32) = mask 16" by (simp_all add: mask_eq_exp_minus_1)
  have "take_bit 8 d = d" by (rule low_byte(1)[OF assms(1)])
  then have b: "bit d n \<Longrightarrow> n < 8" for n by (metis bit_take_bit_iff)
  show "drop_bit 8 v AND 0xFF = d" "v AND 0xFF = r AND 0xFF"
    unfolding v_def SSP_CR0_SCR_def m by (rule bit_word_eqI, auto simp: bit_simps dest: b)+
qed

text \<open>
  \<^verbatim>\<open>SSP_SetClock\<close> returns for every clock of the peripheral below 2 GHz, and when the wanted rate can be
  reached with an 8-bit prescaler, the divider and the prescaler it programs give a rate that does
  not exceed the wanted one; the prescaler is at least 2 and the frame format is kept.
\<close>

theorem ssp_clock_within:
  assumes "clk = CLKPWR_GetPCLK (ssp_clk s) (CLKPWR_PCLKSEL_SSP x) (ssp_sc s)"
    and "unat clk < 2 ^ 31" "unat clk div 65024 \<le> unat target"
  shows "\<exists>s'. SSP_SetClock x target s = Some s' \<and>
    unat clk div ((unat (drop_bit 8 (CR0 (ssp_mem s' x)) AND 0xFF) + 1) * unat (CPSR (ssp_mem s' x))) \<le> unat target \<and>
    2 \<le> unat (CPSR (ssp_mem s' x)) \<and> CR0 (ssp_mem s' x) AND 0xFF = CR0 (ssp_mem s x) AND 0xFF"
proof -
  obtain d p where r: "(if target = 0xFFFFFFFF then Some (0, 2) else find_clock clk target 0 2) = Some (d, p)"
    and dp: "unat d \<le> 255" "2 \<le> unat p" "unat clk div ((unat d + 1) * unat p) \<le> unat target"
      "p = 2 \<or> unat target < unat clk div (256 * (unat p - 2))"
  proof (cases "target = 0xFFFFFFFF")
    case True
    have "unat clk div 2 \<le> unat target" using assms(2) True by simp
    then show ?thesis using that[of 0 2] True by simp
  next
    case False
    then show ?thesis using that find_clock_ok[OF assms(2), of 0 2 target] by auto
  qed
  have "unat p \<le> 255"
  proof (rule ccontr)
    assume "\<not> unat p \<le> 255"
    then have "65024 \<le> 256 * (unat p - 2)" "p \<noteq> 2" by auto
    then have "unat clk div (256 * (unat p - 2)) \<le> unat clk div 65024" by (intro div_le_mono2) auto
    then show False using dp(4) \<open>p \<noteq> 2\<close> assms(3) by linarith
  qed
  then have p: "p AND 0xFF = p" by (rule low_byte(2))
  have "SSP_SetClock x target s = Some (s_upd x (\<lambda>r. r\<lparr>
       CR0 := (CR0 r AND ((NOT (SSP_CR0_SCR 0xFF)) AND SSP_CR0_BITMASK)) OR (SSP_CR0_SCR d AND SSP_CR0_BITMASK),
       CPSR := p\<rparr>) s)"
    using p unfolding SSP_SetClock_def Let_def assms(1)[symmetric] r by simp
  then show ?thesis using dp cr0_fields[OF dp(1), of "CR0 (ssp_mem s x)"] by (auto simp: s_upd_def)
qed

theorem ssp_clock_within_example:
  "\<exists>s'. SSP_SetClock SSP1 10000000 (ssp_idle ()) = Some s' \<and>
    25000000 div ((unat (drop_bit 8 (CR0 (ssp_mem s' SSP1)) AND 0xFF) + 1) * unat (CPSR (ssp_mem s' SSP1))) \<le> 10000000"
proof -
  have "(25000000 :: u32) = CLKPWR_GetPCLK (ssp_clk (ssp_idle ())) (CLKPWR_PCLKSEL_SSP SSP1) (ssp_sc (ssp_idle ()))"
    by (simp add: ssp_idle_def CLKPWR_GetPCLK_def CLKPWR_GetPCLKSEL_def shr_reg_def)
  from ssp_clock_within[OF this, of 10000000] show ?thesis by auto
qed

text \<open>The clock of the board: 25 MHz gives 6.25 MHz, the prescaler 2 and the divider 2.\<close>

lemma ssp1_init_rate: "find_clock 25000000 10000000 0 2 = Some (1, 2)"
  by (subst find_clock.simps, simp, subst find_clock.simps, simp)

text \<open>The constants for the DMA directions are swapped: the request for transmission enables the receive channel.\<close>

lemma ssp_dma_swapped:
  "map_option (\<lambda>s. DMACR (ssp_mem s x)) (SSP_DMACmd x SSP_DMA_TX ENABLE s) = Some (DMACR (ssp_mem s x) OR 0x01)"
  by (simp add: SSP_DMACmd_def s_upd_def)

end
