(* ===== verification/SdCard.thy ===== *)
theory SdCard
  imports SspDriver BoardIo
begin

unbundle bit_operations_syntax

text \<open>
  The driver of the memory card, \<^verbatim>\<open>Lib_FatFs_SD/src/mmc.c\<close>, on the polled transfers of the SSP. The chip
  select and the power of the socket are GPIO pins: besides the port registers a write to them
  reaches the card, which is an operation of the hardware \<open>sd_hw\<close>. The timer interrupt
  \<^verbatim>\<open>disk_timerproc\<close> may happen while a loop waits: \<open>ticks\<close> lists, for each round of such a loop, the
  values of port 0 that its calls find. A loop that never ends is \<^const>\<open>None\<close>.
\<close>

section \<open>State\<close>

record 'w sd_hw =
  sd_ssp :: "'w ssp_regs"
  cs_line :: "bool \<Rightarrow> 'w \<Rightarrow> 'w"
  pwr_line :: "bool \<Rightarrow> 'w \<Rightarrow> 'w"
  pins0 :: "'w \<Rightarrow> u32"

record 'w sd =
  sd_drv :: "'w ssp_drv"
  sd_gpio :: gpio_ports
  Stat :: u8
  Timer1 :: u8
  Timer2 :: u8
  CardType :: u8
  pv :: u8
  ticks :: "u32 list list"

datatype DRESULT = RES_OK | RES_ERROR | RES_WRPRT | RES_NOTRDY | RES_PARERR

abbreviation (input) STA_NOINIT :: u8 where "STA_NOINIT \<equiv> 0x01"
abbreviation (input) STA_NODISK :: u8 where "STA_NODISK \<equiv> 0x02"
abbreviation (input) STA_PROTECT :: u8 where "STA_PROTECT \<equiv> 0x04"
abbreviation (input) CT_MMC :: u8 where "CT_MMC \<equiv> 0x01"
abbreviation (input) CT_SD1 :: u8 where "CT_SD1 \<equiv> 0x02"
abbreviation (input) CT_SD2 :: u8 where "CT_SD2 \<equiv> 0x04"
abbreviation (input) CT_SDC :: u8 where "CT_SDC \<equiv> 0x06"
abbreviation (input) CT_BLOCK :: u8 where "CT_BLOCK \<equiv> 0x08"
abbreviation (input) CMD0 :: u8 where "CMD0 \<equiv> 0x40"
abbreviation (input) CMD1 :: u8 where "CMD1 \<equiv> 0x41"
abbreviation (input) ACMD41 :: u8 where "ACMD41 \<equiv> 0xE9"
abbreviation (input) CMD8 :: u8 where "CMD8 \<equiv> 0x48"
abbreviation (input) CMD9 :: u8 where "CMD9 \<equiv> 0x49"
abbreviation (input) CMD10 :: u8 where "CMD10 \<equiv> 0x4A"
abbreviation (input) CMD12 :: u8 where "CMD12 \<equiv> 0x4C"
abbreviation (input) ACMD13 :: u8 where "ACMD13 \<equiv> 0xCD"
abbreviation (input) CMD16 :: u8 where "CMD16 \<equiv> 0x50"
abbreviation (input) CMD17 :: u8 where "CMD17 \<equiv> 0x51"
abbreviation (input) CMD18 :: u8 where "CMD18 \<equiv> 0x52"
abbreviation (input) ACMD23 :: u8 where "ACMD23 \<equiv> 0xD7"
abbreviation (input) CMD24 :: u8 where "CMD24 \<equiv> 0x58"
abbreviation (input) CMD25 :: u8 where "CMD25 \<equiv> 0x59"
abbreviation (input) CMD55 :: u8 where "CMD55 \<equiv> 0x77"
abbreviation (input) CMD58 :: u8 where "CMD58 \<equiv> 0x7A"
abbreviation (input) CTRL_SYNC :: u8 where "CTRL_SYNC \<equiv> 0"
abbreviation (input) GET_SECTOR_COUNT :: u8 where "GET_SECTOR_COUNT \<equiv> 1"
abbreviation (input) GET_SECTOR_SIZE :: u8 where "GET_SECTOR_SIZE \<equiv> 2"
abbreviation (input) GET_BLOCK_SIZE :: u8 where "GET_BLOCK_SIZE \<equiv> 3"
abbreviation (input) CTRL_POWER :: u8 where "CTRL_POWER \<equiv> 4"
abbreviation (input) MMC_GET_TYPE :: u8 where "MMC_GET_TYPE \<equiv> 10"
abbreviation (input) MMC_GET_CSD :: u8 where "MMC_GET_CSD \<equiv> 11"
abbreviation (input) MMC_GET_CID :: u8 where "MMC_GET_CID \<equiv> 12"
abbreviation (input) MMC_GET_OCR :: u8 where "MMC_GET_OCR \<equiv> 13"
abbreviation (input) MMC_GET_SDSTAT :: u8 where "MMC_GET_SDSTAT \<equiv> 14"

section \<open>Bytes and pins\<close>

text \<open>The members of \<^verbatim>\<open>xferConfig\<close> that the functions do not set are not read in the polling mode.\<close>

definition SSPSend :: "'w sd_hw \<Rightarrow> u8 list \<Rightarrow> u32 \<Rightarrow> 'w sd \<Rightarrow> 'w sd option" where
  "SSPSend hw buf Length s = do {
     (r, c, d) \<leftarrow> SSP_ReadWrite (sd_ssp hw) SSP1 \<lparr>tx_data = Some buf, tx_cnt = 0, rx_data = None, rx_cnt = 0,
       xlength = Length, xstatus = 0, callback = None\<rparr> SSP_TRANSFER_POLLING (sd_drv s);
     Some (s\<lparr>sd_drv := d\<rparr>)
   }"

definition SSPReceive :: "'w sd_hw \<Rightarrow> u8 list \<Rightarrow> u32 \<Rightarrow> 'w sd \<Rightarrow> (u8 list option \<times> 'w sd) option" where
  "SSPReceive hw buf Length s = do {
     (r, c, d) \<leftarrow> SSP_ReadWrite (sd_ssp hw) SSP1 \<lparr>tx_data = None, tx_cnt = 0, rx_data = Some buf, rx_cnt = 0,
       xlength = Length, xstatus = 0, callback = None\<rparr> SSP_TRANSFER_POLLING (sd_drv s);
     Some (rx_data c, s\<lparr>sd_drv := d\<rparr>)
   }"

definition xmit_spi :: "'w sd_hw \<Rightarrow> u8 \<Rightarrow> 'w sd \<Rightarrow> 'w sd option" where
  "xmit_spi hw dat s = SSPSend hw [dat] 1 s"

definition rcvr_spi :: "'w sd_hw \<Rightarrow> 'w sd \<Rightarrow> (u8 \<times> 'w sd) option" where
  "rcvr_spi hw s = do {
     (b, s) \<leftarrow> SSPReceive hw [0] 1 s;
     d \<leftarrow> b;
     v \<leftarrow> rd d 0;
     Some (v, s)
   }"

definition on_world :: "('w \<Rightarrow> 'w) \<Rightarrow> 'w sd \<Rightarrow> 'w sd" where
  "on_world f s = s\<lparr>sd_drv := (sd_drv s)\<lparr>ssp_w := f (ssp_w (sd_drv s))\<rparr>\<rparr>"

definition CS_LOW :: "'w sd_hw \<Rightarrow> 'w sd \<Rightarrow> 'w sd" where
  "CS_LOW hw s = on_world (cs_line hw False) (s\<lparr>sd_gpio := GPIO_ClearValue 0 (push_bit 6 1) (sd_gpio s)\<rparr>)"

definition CS_HIGH :: "'w sd_hw \<Rightarrow> 'w sd \<Rightarrow> 'w sd" where
  "CS_HIGH hw s = on_world (cs_line hw True) (s\<lparr>sd_gpio := GPIO_SetValue 0 (push_bit 6 1) (sd_gpio s)\<rparr>)"

definition power_on :: "'w sd_hw \<Rightarrow> 'w sd \<Rightarrow> 'w sd" where
  "power_on hw s = on_world (pwr_line hw False) (s\<lparr>sd_gpio := GPIO_ClearValue 0 (push_bit 18 1) (sd_gpio s)\<rparr>)"

definition power_off :: "'w sd_hw \<Rightarrow> 'w sd \<Rightarrow> 'w sd" where
  "power_off hw s = on_world (pwr_line hw True) (s\<lparr>sd_gpio := GPIO_SetValue 0 (push_bit 18 1) (sd_gpio s)\<rparr>)"

definition chk_power :: "'w sd_hw \<Rightarrow> 'w sd \<Rightarrow> bool" where
  "chk_power hw s \<longleftrightarrow> GPIO_ReadValue 0 (pins0 hw (ssp_w (sd_drv s))) AND push_bit 18 1 = 0"

section \<open>Timer interrupt\<close>

definition count_down :: "u8 \<Rightarrow> u8" where
  "count_down n = (if n \<noteq> 0 then n - 1 else n)"

definition disk_timerproc :: "u32 \<Rightarrow> 'w sd \<Rightarrow> 'w sd" where
  "disk_timerproc pin s =
     (let n = pv s;
          p = (if GPIO_ReadValue 0 pin AND push_bit 19 1 \<noteq> 0 then 1 else 0);
          s = s\<lparr>Timer1 := count_down (Timer1 s), Timer2 := count_down (Timer2 s), pv := p\<rparr>
      in if n = p then
           (if p \<noteq> 0 then s\<lparr>Stat := Stat s OR (STA_NODISK OR STA_NOINIT)\<rparr> else s\<lparr>Stat := Stat s AND NOT STA_NODISK\<rparr>)
         else s)"

text \<open>The interrupts during one round of a waiting loop.\<close>

definition timer_calls :: "'w sd \<Rightarrow> 'w sd" where
  "timer_calls s = (case ticks s of
     [] \<Rightarrow> s
   | ps # pss \<Rightarrow> fold disk_timerproc ps (s\<lparr>ticks := pss\<rparr>))"

section \<open>Selecting the card\<close>

partial_function (option) ready_loop :: "'w sd_hw \<Rightarrow> 'w sd \<Rightarrow> (u8 \<times> 'w sd) option" where
  "ready_loop hw s = do {
     (res, s) \<leftarrow> rcvr_spi hw s;
     let s = timer_calls s;
     (if res \<noteq> 0xFF \<and> Timer2 s \<noteq> 0 then ready_loop hw s else Some (res, s))
   }"

definition wait_ready :: "'w sd_hw \<Rightarrow> 'w sd \<Rightarrow> (u8 \<times> 'w sd) option" where
  "wait_ready hw s = do {
     (_, s) \<leftarrow> rcvr_spi hw (s\<lparr>Timer2 := 50\<rparr>);
     ready_loop hw s
   }"

definition deselect :: "'w sd_hw \<Rightarrow> 'w sd \<Rightarrow> 'w sd option" where
  "deselect hw s = do { (_, s) \<leftarrow> rcvr_spi hw (CS_HIGH hw s); Some s }"

definition select :: "'w sd_hw \<Rightarrow> 'w sd \<Rightarrow> (bool \<times> 'w sd) option" where
  "select hw s = do {
     (r, s) \<leftarrow> wait_ready hw (CS_LOW hw s);
     (if r \<noteq> 0xFF then do { s \<leftarrow> deselect hw s; Some (False, s) } else Some (True, s))
   }"

section \<open>Data packets\<close>

partial_function (option) token_loop :: "'w sd_hw \<Rightarrow> 'w sd \<Rightarrow> (u8 \<times> 'w sd) option" where
  "token_loop hw s = do {
     (token, s) \<leftarrow> rcvr_spi hw s;
     let s = timer_calls s;
     (if token = 0xFF \<and> Timer1 s \<noteq> 0 then token_loop hw s else Some (token, s))
   }"

text \<open>\<open>n\<close> bytes received to \<open>buf\<close> from position \<open>k\<close> on, one transfer each.\<close>

fun recv_bytes :: "'w sd_hw \<Rightarrow> nat \<Rightarrow> nat \<Rightarrow> u8 list \<Rightarrow> 'w sd \<Rightarrow> (u8 list \<times> 'w sd) option" where
  "recv_bytes hw 0 k buf s = Some (buf, s)"
| "recv_bytes hw (Suc n) k buf s = do {
     v0 \<leftarrow> rd buf k;
     (b, s) \<leftarrow> SSPReceive hw [v0] 1 s;
     d \<leftarrow> b;
     v \<leftarrow> rd d 0;
     buf \<leftarrow> wr buf k v;
     recv_bytes hw n (k + 1) buf s
   }"

text \<open>
  The loop receives four bytes at a time until the count is 0: a count that is 0 or not a multiple of 4
  would wrap round and is \<^const>\<open>None\<close>.
\<close>

definition rcvr_datablock :: "'w sd_hw \<Rightarrow> nat \<Rightarrow> u8 list \<Rightarrow> nat \<Rightarrow> 'w sd \<Rightarrow> (bool \<times> u8 list \<times> 'w sd) option" where
  "rcvr_datablock hw k buf btr s = do {
     (token, s) \<leftarrow> token_loop hw (s\<lparr>Timer1 := 20\<rparr>);
     (if token \<noteq> 0xFE then Some (False, buf, s)
      else if btr = 0 \<or> btr mod 4 \<noteq> 0 then None
      else do {
        (buf, s) \<leftarrow> recv_bytes hw btr k buf s;
        (_, s) \<leftarrow> rcvr_spi hw s;
        (_, s) \<leftarrow> rcvr_spi hw s;
        Some (True, buf, s)
      })
   }"

fun xmit_bytes :: "'w sd_hw \<Rightarrow> nat \<Rightarrow> nat \<Rightarrow> u8 list \<Rightarrow> 'w sd \<Rightarrow> 'w sd option" where
  "xmit_bytes hw 0 k buf s = Some s"
| "xmit_bytes hw (Suc n) k buf s = do {
     v \<leftarrow> rd buf k;
     s \<leftarrow> xmit_spi hw v s;
     xmit_bytes hw n (k + 1) buf s
   }"

text \<open>The byte counter \<^verbatim>\<open>wc\<close> starts at 0 and wraps, so that 256 pairs are sent.\<close>

definition xmit_datablock :: "'w sd_hw \<Rightarrow> nat \<Rightarrow> u8 list \<Rightarrow> u8 \<Rightarrow> 'w sd \<Rightarrow> (bool \<times> 'w sd) option" where
  "xmit_datablock hw k buff token s = do {
     (r, s) \<leftarrow> wait_ready hw s;
     (if r \<noteq> 0xFF then Some (False, s)
      else do {
        s \<leftarrow> xmit_spi hw token s;
        (if token \<noteq> 0xFD then do {
           s \<leftarrow> xmit_bytes hw 512 k buff s;
           s \<leftarrow> xmit_spi hw 0xFF s;
           s \<leftarrow> xmit_spi hw 0xFF s;
           (resp, s) \<leftarrow> rcvr_spi hw s;
           Some (resp AND 0x1F = 0x05, s)
         }
         else Some (True, s))
      })
   }"

section \<open>Commands\<close>

fun resp_loop :: "'w sd_hw \<Rightarrow> nat \<Rightarrow> 'w sd \<Rightarrow> (u8 \<times> 'w sd) option" where
  "resp_loop hw 0 s = None"
| "resp_loop hw (Suc n) s = do {
     (res, s) \<leftarrow> rcvr_spi hw s;
     (if res AND 0x80 \<noteq> 0 \<and> n \<noteq> 0 then resp_loop hw n s else Some (res, s))
   }"

definition command_crc :: "u8 \<Rightarrow> u8" where
  "command_crc cmd = (if cmd = CMD8 then 0x87 else if cmd = CMD0 then 0x95 else 0x01)"

text \<open>The part of \<^verbatim>\<open>send_cmd\<close> after the prefix of an application command.\<close>

definition send_plain :: "'w sd_hw \<Rightarrow> u8 \<Rightarrow> u32 \<Rightarrow> 'w sd \<Rightarrow> (u8 \<times> 'w sd) option" where
  "send_plain hw cmd arg s = do {
     s \<leftarrow> deselect hw s;
     (ok, s) \<leftarrow> select hw s;
     (if \<not> ok then Some (0xFF, s)
      else do {
        s \<leftarrow> xmit_spi hw cmd s;
        s \<leftarrow> xmit_spi hw (ucast (drop_bit 24 arg)) s;
        s \<leftarrow> xmit_spi hw (ucast (drop_bit 16 arg)) s;
        s \<leftarrow> xmit_spi hw (ucast (drop_bit 8 arg)) s;
        s \<leftarrow> xmit_spi hw (ucast arg) s;
        s \<leftarrow> xmit_spi hw (command_crc cmd) s;
        s \<leftarrow> (if cmd = CMD12 then map_option snd (rcvr_spi hw s) else Some s);
        resp_loop hw 10 s
      })
   }"

definition send_cmd :: "'w sd_hw \<Rightarrow> u8 \<Rightarrow> u32 \<Rightarrow> 'w sd \<Rightarrow> (u8 \<times> 'w sd) option" where
  "send_cmd hw cmd arg s =
     (if cmd AND 0x80 \<noteq> 0 then do {
        (res, s) \<leftarrow> send_plain hw CMD55 0 s;
        (if res > 1 then Some (res, s) else send_plain hw (cmd AND 0x7F) arg s)
      }
      else send_plain hw cmd arg s)"

section \<open>Initialisation\<close>

fun dummy_clocks :: "'w sd_hw \<Rightarrow> nat \<Rightarrow> 'w sd \<Rightarrow> 'w sd option" where
  "dummy_clocks hw 0 s = Some s"
| "dummy_clocks hw (Suc n) s = do { (_, s) \<leftarrow> rcvr_spi hw s; dummy_clocks hw n s }"

text \<open>\<^verbatim>\<open>while (Timer1 && send_cmd(cmd, arg));\<close>\<close>

partial_function (option) leave_idle :: "'w sd_hw \<Rightarrow> u8 \<Rightarrow> u32 \<Rightarrow> 'w sd \<Rightarrow> 'w sd option" where
  "leave_idle hw cmd arg s =
     (if Timer1 s = 0 then Some s
      else do {
        (r, s) \<leftarrow> send_cmd hw cmd arg s;
        (if r \<noteq> 0 then leave_idle hw cmd arg s else Some s)
      })"

definition read4 :: "'w sd_hw \<Rightarrow> 'w sd \<Rightarrow> (u8 list \<times> 'w sd) option" where
  "read4 hw s = do {
     (a, s) \<leftarrow> rcvr_spi hw s;
     (b, s) \<leftarrow> rcvr_spi hw s;
     (c, s) \<leftarrow> rcvr_spi hw s;
     (d, s) \<leftarrow> rcvr_spi hw s;
     Some ([a, b, c, d], s)
   }"

text \<open>The card of version 2, after its answer to \<^verbatim>\<open>CMD8\<close>, and the older cards: the type found.\<close>

definition identify_v2 :: "'w sd_hw \<Rightarrow> 'w sd \<Rightarrow> (u8 \<times> 'w sd) option" where
  "identify_v2 hw s = do {
     (ocr, s) \<leftarrow> read4 hw s;
     (if ocr ! 2 = 0x01 \<and> ocr ! 3 = 0xAA then do {
        s \<leftarrow> leave_idle hw ACMD41 (push_bit 30 1) s;
        (if Timer1 s \<noteq> 0 then do {
           (r, s) \<leftarrow> send_cmd hw CMD58 0 s;
           (if r = 0 then do {
              (ocr, s) \<leftarrow> read4 hw s;
              Some (if ocr ! 0 AND 0x40 \<noteq> 0 then CT_SD2 OR CT_BLOCK else CT_SD2, s)
            }
            else Some (0, s))
         }
         else Some (0, s))
      }
      else Some (0, s))
   }"

definition identify_v1 :: "'w sd_hw \<Rightarrow> 'w sd \<Rightarrow> (u8 \<times> 'w sd) option" where
  "identify_v1 hw s = do {
     (r, s) \<leftarrow> send_cmd hw ACMD41 0 s;
     let (ty, cmd) = (if r \<le> 1 then (CT_SD1, ACMD41) else (CT_MMC, CMD1));
     s \<leftarrow> leave_idle hw cmd 0 s;
     (if Timer1 s = 0 then Some (0, s)
      else do {
        (r, s) \<leftarrow> send_cmd hw CMD16 512 s;
        Some (if r \<noteq> 0 then 0 else ty, s)
      })
   }"

definition disk_initialize :: "'w sd_hw \<Rightarrow> u8 \<Rightarrow> 'w sd \<Rightarrow> (u8 \<times> 'w sd) option" where
  "disk_initialize hw drv s = do {
     let g = GPIO_SetDir 0 (push_bit 19 1) 0 (GPIO_SetDir 0 (push_bit 6 1) 1 (GPIO_SetDir 0 (push_bit 18 1) 1 (sd_gpio s)));
     let s = s\<lparr>sd_gpio := g\<rparr>;
     (if drv \<noteq> 0 then Some (STA_NOINIT, s)
      else if Stat s AND STA_NODISK \<noteq> 0 then Some (Stat s, s)
      else do {
        s \<leftarrow> dummy_clocks hw 10 (power_on hw s);
        (r, s) \<leftarrow> send_cmd hw CMD0 0 s;
        (ty, s) \<leftarrow> (if r = 1 then do {
             (r, s) \<leftarrow> send_cmd hw CMD8 0x1AA (s\<lparr>Timer1 := 100\<rparr>);
             (if r = 1 then identify_v2 hw s else identify_v1 hw s)
           } else Some (0, s));
        s \<leftarrow> deselect hw (s\<lparr>CardType := ty\<rparr>);
        let s = (if ty \<noteq> 0 then s\<lparr>Stat := Stat s AND NOT STA_NOINIT\<rparr> else power_off hw s);
        Some (Stat s, s)
      })
   }"

definition disk_status :: "u8 \<Rightarrow> 'w sd \<Rightarrow> u8" where
  "disk_status drv s = (if drv \<noteq> 0 then STA_NOINIT else Stat s)"

section \<open>Sectors\<close>

definition card_address :: "u32 \<Rightarrow> 'w sd \<Rightarrow> u32" where
  "card_address sector s = (if CardType s AND CT_BLOCK = 0 then sector * 512 else sector)"

text \<open>The blocks of a multiple transfer; the result is the number of blocks that are left.\<close>

fun read_blocks :: "'w sd_hw \<Rightarrow> nat \<Rightarrow> nat \<Rightarrow> u8 list \<Rightarrow> 'w sd \<Rightarrow> (nat \<times> u8 list \<times> 'w sd) option" where
  "read_blocks hw 0 k buff s = Some (0, buff, s)"
| "read_blocks hw (Suc n) k buff s = do {
     (ok, buff, s) \<leftarrow> rcvr_datablock hw k buff 512 s;
     (if ok then read_blocks hw n (k + 512) buff s else Some (Suc n, buff, s))
   }"

fun write_blocks :: "'w sd_hw \<Rightarrow> nat \<Rightarrow> nat \<Rightarrow> u8 list \<Rightarrow> 'w sd \<Rightarrow> (nat \<times> 'w sd) option" where
  "write_blocks hw 0 k buff s = Some (0, s)"
| "write_blocks hw (Suc n) k buff s = do {
     (ok, s) \<leftarrow> xmit_datablock hw k buff 0xFC s;
     (if ok then write_blocks hw n (k + 512) buff s else Some (Suc n, s))
   }"

definition disk_read :: "'w sd_hw \<Rightarrow> u8 \<Rightarrow> u8 list \<Rightarrow> u32 \<Rightarrow> u8 \<Rightarrow> 'w sd \<Rightarrow> (DRESULT \<times> u8 list \<times> 'w sd) option" where
  "disk_read hw drv buff sector count s =
     (if drv \<noteq> 0 \<or> count = 0 then Some (RES_PARERR, buff, s)
      else if Stat s AND STA_NOINIT \<noteq> 0 then Some (RES_NOTRDY, buff, s)
      else do {
        let addr = card_address sector s;
        (left, buff, s) \<leftarrow> (if count = 1 then do {
             (r, s) \<leftarrow> send_cmd hw CMD17 addr s;
             (if r = 0 then do {
                (ok, buff, s) \<leftarrow> rcvr_datablock hw 0 buff 512 s;
                Some (if ok then 0 else 1, buff, s)
              }
              else Some (1, buff, s))
           } else do {
             (r, s) \<leftarrow> send_cmd hw CMD18 addr s;
             (if r = 0 then do {
                (left, buff, s) \<leftarrow> read_blocks hw (unat count) 0 buff s;
                (_, s) \<leftarrow> send_cmd hw CMD12 0 s;
                Some (left, buff, s)
              }
              else Some (unat count, buff, s))
           });
        s \<leftarrow> deselect hw s;
        Some (if left \<noteq> 0 then RES_ERROR else RES_OK, buff, s)
      })"

definition disk_write :: "'w sd_hw \<Rightarrow> u8 \<Rightarrow> u8 list \<Rightarrow> u32 \<Rightarrow> u8 \<Rightarrow> 'w sd \<Rightarrow> (DRESULT \<times> 'w sd) option" where
  "disk_write hw drv buff sector count s =
     (if drv \<noteq> 0 \<or> count = 0 then Some (RES_PARERR, s)
      else if Stat s AND STA_NOINIT \<noteq> 0 then Some (RES_NOTRDY, s)
      else if Stat s AND STA_PROTECT \<noteq> 0 then Some (RES_WRPRT, s)
      else do {
        let addr = card_address sector s;
        (left, s) \<leftarrow> (if count = 1 then do {
             (r, s) \<leftarrow> send_cmd hw CMD24 addr s;
             (if r = 0 then do {
                (ok, s) \<leftarrow> xmit_datablock hw 0 buff 0xFE s;
                Some (if ok then 0 else 1, s)
              }
              else Some (1, s))
           } else do {
             s \<leftarrow> (if CardType s AND CT_SDC \<noteq> 0 then map_option snd (send_cmd hw ACMD23 (ucast count) s) else Some s);
             (r, s) \<leftarrow> send_cmd hw CMD25 addr s;
             (if r = 0 then do {
                (left, s) \<leftarrow> write_blocks hw (unat count) 0 buff s;
                (ok, s) \<leftarrow> xmit_datablock hw 0 [] 0xFD s;
                Some (if ok then left else 1, s)
              }
              else Some (unat count, s))
           });
        s \<leftarrow> deselect hw s;
        Some (if left \<noteq> 0 then RES_ERROR else RES_OK, s)
      })"

section \<open>Control operations\<close>

text \<open>A 16-bit and a 32-bit value stored at the start of a buffer.\<close>

definition store16 :: "u8 list \<Rightarrow> u16 \<Rightarrow> u8 list option" where
  "store16 buff v = do { b \<leftarrow> wr buff 0 (ucast v); wr b 1 (ucast (drop_bit 8 v)) }"

definition store32 :: "u8 list \<Rightarrow> u32 \<Rightarrow> u8 list option" where
  "store32 buff v = do {
     b \<leftarrow> wr buff 0 (ucast v);
     b \<leftarrow> wr b 1 (ucast (drop_bit 8 v));
     b \<leftarrow> wr b 2 (ucast (drop_bit 16 v));
     wr b 3 (ucast (drop_bit 24 v))
   }"

text \<open>A left shift of a 32-bit value; a negative amount is undefined.\<close>

definition shift32 :: "u32 \<Rightarrow> int \<Rightarrow> u32 option" where
  "shift32 v n = (if n < 0 \<or> 32 \<le> n then None else Some (push_bit (nat n) v))"

text \<open>The number of sectors from the card-specific data, in the 16 bits of \<^verbatim>\<open>csize\<close>.\<close>

definition csd_sectors :: "u8 list \<Rightarrow> u32 option" where
  "csd_sectors csd =
     (if drop_bit 6 (csd ! 0) = 1 then
        let csize = ucast (csd ! 9) + push_bit 8 (ucast (csd ! 8)) + 1 :: u16
        in Some (push_bit 10 (ucast csize))
      else
        let n = (csd ! 5 AND 15) + drop_bit 7 (csd ! 10 AND 128) + push_bit 1 (csd ! 9 AND 3) + 2;
            csize = ucast (drop_bit 6 (csd ! 8)) + push_bit 2 (ucast (csd ! 7)) + push_bit 10 (ucast (csd ! 6 AND 3)) + 1 :: u16
        in shift32 (ucast csize) (uint n - 9))"

text \<open>The erase block size of the cards of version 1 and of MMC.\<close>

definition csd_block_size :: "u8 \<Rightarrow> u8 list \<Rightarrow> u32 option" where
  "csd_block_size ty csd =
     (if ty AND CT_SD1 \<noteq> 0 then
        shift32 (push_bit 1 (ucast (csd ! 10 AND 63)) + drop_bit 7 (ucast (csd ! 11 AND 128)) + 1) (uint (drop_bit 6 (csd ! 13)) - 1)
      else Some ((ucast (drop_bit 2 (csd ! 10 AND 124)) + 1) *
        (push_bit 3 (ucast (csd ! 11 AND 3)) + drop_bit 5 (ucast (csd ! 11 AND 224)) + 1)))"

text \<open>A register of the card read as a data block of \<open>n\<close> bytes to \<open>buf\<close>.\<close>

definition read_register :: "'w sd_hw \<Rightarrow> u8 \<Rightarrow> u8 list \<Rightarrow> nat \<Rightarrow> 'w sd \<Rightarrow> (bool \<times> u8 list \<times> 'w sd) option" where
  "read_register hw cmd buf n s = do {
     (r, s) \<leftarrow> send_cmd hw cmd 0 s;
     (if r = 0 then rcvr_datablock hw 0 buf n s else Some (False, buf, s))
   }"

text \<open>The status of an SD card, whose response has a second byte.\<close>

definition read_sdstat :: "'w sd_hw \<Rightarrow> u8 list \<Rightarrow> nat \<Rightarrow> 'w sd \<Rightarrow> (bool \<times> u8 list \<times> 'w sd) option" where
  "read_sdstat hw buf n s = do {
     (r, s) \<leftarrow> send_cmd hw ACMD13 0 s;
     (if r = 0 then do { (_, s) \<leftarrow> rcvr_spi hw s; rcvr_datablock hw 0 buf n s } else Some (False, buf, s))
   }"

definition power_ioctl :: "'w sd_hw \<Rightarrow> u8 list \<Rightarrow> 'w sd \<Rightarrow> (DRESULT \<times> u8 list \<times> 'w sd) option" where
  "power_ioctl hw buff s = do {
     sub \<leftarrow> rd buff 0;
     (if sub = 0 then Some (RES_OK, buff, if chk_power hw s then power_off hw s else s)
      else if sub = 1 then Some (RES_OK, buff, power_on hw s)
      else if sub = 2 then do { b \<leftarrow> wr buff 1 (if chk_power hw s then 1 else 0); Some (RES_OK, b, s) }
      else Some (RES_PARERR, buff, s))
   }"

definition get_block_size :: "'w sd_hw \<Rightarrow> u8 list \<Rightarrow> 'w sd \<Rightarrow> (DRESULT \<times> u8 list \<times> 'w sd) option" where
  "get_block_size hw buff s =
     (if CardType s AND CT_SD2 \<noteq> 0 then do {
        (ok, csd, s) \<leftarrow> read_sdstat hw (replicate 16 0) 16 s;
        (if ok then do {
           s \<leftarrow> dummy_clocks hw 48 s;
           b \<leftarrow> store32 buff (push_bit (unat (drop_bit 4 (csd ! 10))) 16);
           Some (RES_OK, b, s)
         }
         else Some (RES_ERROR, buff, s))
      }
      else do {
        (ok, csd, s) \<leftarrow> read_register hw CMD9 (replicate 16 0) 16 s;
        (if ok then do {
           v \<leftarrow> csd_block_size (CardType s) csd;
           b \<leftarrow> store32 buff v;
           Some (RES_OK, b, s)
         }
         else Some (RES_ERROR, buff, s))
      })"

text \<open>The local array \<^verbatim>\<open>csd\<close> is filled before it is read; the zeros stand for its contents on entry.\<close>

definition disk_ioctl :: "'w sd_hw \<Rightarrow> u8 \<Rightarrow> u8 \<Rightarrow> u8 list \<Rightarrow> 'w sd \<Rightarrow> (DRESULT \<times> u8 list \<times> 'w sd) option" where
  "disk_ioctl hw drv ctrl buff s =
     (if drv \<noteq> 0 then Some (RES_PARERR, buff, s)
      else if ctrl = CTRL_POWER then power_ioctl hw buff s
      else if Stat s AND STA_NOINIT \<noteq> 0 then Some (RES_NOTRDY, buff, s)
      else do {
        (res, buff, s) \<leftarrow>
          (if ctrl = CTRL_SYNC then do {
             (ok, s) \<leftarrow> select hw s;
             (if ok then do { s \<leftarrow> deselect hw s; Some (RES_OK, buff, s) } else Some (RES_ERROR, buff, s))
           }
           else if ctrl = GET_SECTOR_COUNT then do {
             (ok, csd, s) \<leftarrow> read_register hw CMD9 (replicate 16 0) 16 s;
             (if ok then do { v \<leftarrow> csd_sectors csd; b \<leftarrow> store32 buff v; Some (RES_OK, b, s) }
              else Some (RES_ERROR, buff, s))
           }
           else if ctrl = GET_SECTOR_SIZE then do { b \<leftarrow> store16 buff 512; Some (RES_OK, b, s) }
           else if ctrl = GET_BLOCK_SIZE then get_block_size hw buff s
           else if ctrl = MMC_GET_TYPE then do { b \<leftarrow> wr buff 0 (CardType s); Some (RES_OK, b, s) }
           else if ctrl = MMC_GET_CSD then do {
             (ok, b, s) \<leftarrow> read_register hw CMD9 buff 16 s;
             Some (if ok then RES_OK else RES_ERROR, b, s)
           }
           else if ctrl = MMC_GET_CID then do {
             (ok, b, s) \<leftarrow> read_register hw CMD10 buff 16 s;
             Some (if ok then RES_OK else RES_ERROR, b, s)
           }
           else if ctrl = MMC_GET_OCR then do {
             (r, s) \<leftarrow> send_cmd hw CMD58 0 s;
             (if r = 0 then do {
                (v, s) \<leftarrow> read4 hw s;
                (if 4 \<le> length buff then Some (RES_OK, v @ drop 4 buff, s) else None)
              }
              else Some (RES_ERROR, buff, s))
           }
           else if ctrl = MMC_GET_SDSTAT then do {
             (ok, b, s) \<leftarrow> read_sdstat hw buff 64 s;
             Some (if ok then RES_OK else RES_ERROR, b, s)
           }
           else Some (RES_PARERR, buff, s));
        s \<leftarrow> deselect hw s;
        Some (res, buff, s)
      })"

end
