(* ===== verification/SdSectors.thy ===== *)
theory SdSectors
  imports SdCard
begin

unbundle bit_operations_syntax

text \<open>
  A memory card behind the SSP, as its specification describes the SPI mode, and the sector operations
  of \<^verbatim>\<open>mmc.c\<close> on it.
\<close>

section \<open>The link to the card\<close>

text \<open>
  \<open>sd_link\<close>: the second SSP exchanges bytes with the card as \<^const>\<open>ssp_port\<close> says, and the chip select
  reaches the card while no byte is on its way.
\<close>

definition sd_link :: "'w sd_hw \<Rightarrow> ('s \<Rightarrow> u16 \<Rightarrow> u16 \<times> 's) \<Rightarrow> (bool \<Rightarrow> 's \<Rightarrow> 's) \<Rightarrow> ('w \<Rightarrow> 's ssp_fifo \<Rightarrow> bool) \<Rightarrow> ('w \<Rightarrow> nat) \<Rightarrow> bool" where
  "sd_link hw xch cs R lag \<longleftrightarrow> ssp_port (sd_ssp hw) SSP1 xch R lag \<and>
     (\<forall>w f b. R w f \<longrightarrow> txq f = [] \<longrightarrow> R (cs_line hw b w) (f\<lparr>peer := cs b (peer f)\<rparr>))"

text \<open>Bytes written to the card and bytes read from it, which are clocked out by ones.\<close>

definition got :: "('s \<Rightarrow> u16 \<Rightarrow> u16 \<times> 's) \<Rightarrow> 's \<Rightarrow> u8" where
  "got xch c = ucast (fst (xch c 0xFF))"

definition fetched :: "('s \<Rightarrow> u16 \<Rightarrow> u16 \<times> 's) \<Rightarrow> 's \<Rightarrow> 's" where
  "fetched xch c = snd (xch c 0xFF)"

fun writes :: "('s \<Rightarrow> u16 \<Rightarrow> u16 \<times> 's) \<Rightarrow> 's \<Rightarrow> u8 list \<Rightarrow> 's" where
  "writes xch c [] = c"
| "writes xch c (b # bs) = writes xch (snd (xch c (ucast b))) bs"

fun reads :: "('s \<Rightarrow> u16 \<Rightarrow> u16 \<times> 's) \<Rightarrow> 's \<Rightarrow> u8 list \<Rightarrow> 's \<Rightarrow> bool" where
  "reads xch c [] c' \<longleftrightarrow> c' = c"
| "reads xch c (b # bs) c' \<longleftrightarrow> got xch c = b \<and> reads xch (fetched xch c) bs c'"

text \<open>The number of calls of the timer interrupt that are to come.\<close>

definition left :: "'w sd \<Rightarrow> nat" where
  "left s = length (concat (ticks s))"

text \<open>
  What an operation starts from: the type of the card, the bits \<^const>\<open>STA_NOINIT\<close> and
  \<^const>\<open>STA_PROTECT\<close> of the status, a bound on the timer interrupts to come, and whether \<^verbatim>\<open>Timer1\<close> outlasts them.
\<close>

record sd_context =
  c_type :: u8
  c_stat :: u8
  c_due :: nat
  c_timed :: bool

text \<open>
  The driver is set up, no byte is on its way to a card in state \<open>c\<close>, and while the driver waits the timer
  interrupt happens less often than the bound says, which is at most 500 ms, and finds the card in its socket.
\<close>

definition present :: "'w sd \<Rightarrow> bool" where
  "present s \<longleftrightarrow> (\<forall>p \<in> set (concat (ticks s)). p AND push_bit 19 1 = 0)"

definition sees :: "('w \<Rightarrow> 's ssp_fifo \<Rightarrow> bool) \<Rightarrow> sd_context \<Rightarrow> 's \<Rightarrow> 'w sd \<Rightarrow> bool" where
  "sees R k c s \<longleftrightarrow> (\<exists>f. R (ssp_w (sd_drv s)) f \<and> txq f = [] \<and> peer f = c) \<and> dataword (sspdat (sd_drv s) SSP1) = 0 \<and>
     CardType s = c_type k \<and> Stat s AND 5 = c_stat k \<and> left s < c_due k \<and> c_due k \<le> 50 \<and>
     (c_timed k \<longrightarrow> left s < unat (Timer1 s)) \<and> present s"

lemma left_drv [simp]: "left (s\<lparr>sd_drv := d\<rparr>) = left s" "left (s\<lparr>Timer1 := t\<rparr>) = left s" "left (s\<lparr>Timer2 := t\<rparr>) = left s"
  "left (s\<lparr>sd_gpio := g\<rparr>) = left s" "left (s\<lparr>CardType := v\<rparr>) = left s" "left (s\<lparr>Stat := v\<rparr>) = left s"
  by (simp_all add: left_def)

lemma present_drv [simp]: "present (s\<lparr>sd_drv := d\<rparr>) = present s" "present (s\<lparr>Timer1 := t\<rparr>) = present s"
  "present (s\<lparr>Timer2 := t\<rparr>) = present s" "present (s\<lparr>sd_gpio := g\<rparr>) = present s"
  "present (s\<lparr>CardType := v\<rparr>) = present s" "present (s\<lparr>Stat := v\<rparr>) = present s"
  by (simp_all add: present_def)

lemma sees_fields:
  "\<not> c_timed K \<Longrightarrow> sees R K c (s\<lparr>Timer1 := t\<rparr>) = sees R K c s" "sees R K c (s\<lparr>Timer2 := t\<rparr>) = sees R K c s"
  "sees R K c (s\<lparr>sd_gpio := g\<rparr>) = sees R K c s"
  by (simp_all add: sees_def)

lemma SSPSend_ok:
  assumes "sd_link hw xch cs R lag" "sees R K c s"
  shows "\<exists>d. xmit_spi hw b s = Some (s\<lparr>sd_drv := d\<rparr>) \<and> sees R K (snd (xch c (ucast b))) (s\<lparr>sd_drv := d\<rparr>)"
proof -
  let ?x = "\<lparr>tx_data = Some [b], tx_cnt = 0, rx_data = None, rx_cnt = 0, xlength = 1, xstatus = 0, callback = None\<rparr> :: 'a SSP_DATA_SETUP_Type"
  obtain f where f: "R (ssp_w (sd_drv s)) f" "txq f = []" "peer f = c" using assms(2) by (auto simp: sees_def)
  have "buffers_ok ?x" "dataword (sspdat (sd_drv s) SSP1) = 0" "xlength ?x < 0x80000000"
    using assms(2) by (simp_all add: buffers_ok_def sees_def)
  from polled_transfer_ok[OF assms(1)[unfolded sd_link_def, THEN conjunct1] f(1,2) this(2,1,3)]
  obtain c' w' f' r where e: "SSP_ReadWrite (sd_ssp hw) SSP1 ?x SSP_TRANSFER_POLLING (sd_drv s) = Some (r, c', (sd_drv s)\<lparr>ssp_w := w'\<rparr>)"
    "R w' f'" "txq f' = []" "peer f' = after xch c (words_out ?x)" using f(3) by blast
  have p: "peer f' = snd (xch c (ucast b))" using e(4) by (simp add: words_out_def)
  have "sees R K (snd (xch c (ucast b))) (s\<lparr>sd_drv := (sd_drv s)\<lparr>ssp_w := w'\<rparr>\<rparr>)"
    using assms(2) e(2,3) p by (auto simp: sees_def)
  then show ?thesis using e(1) by (auto simp: xmit_spi_def SSPSend_def)
qed

lemma SSPReceive_ok:
  assumes "sd_link hw xch cs R lag" "sees R K c s"
  shows "\<exists>d. SSPReceive hw [v] 1 s = Some (Some [got xch c], s\<lparr>sd_drv := d\<rparr>) \<and> sees R K (fetched xch c) (s\<lparr>sd_drv := d\<rparr>)"
proof -
  let ?x = "\<lparr>tx_data = None, tx_cnt = 0, rx_data = Some [v], rx_cnt = 0, xlength = 1, xstatus = 0, callback = None\<rparr> :: 'a SSP_DATA_SETUP_Type"
  obtain f where f: "R (ssp_w (sd_drv s)) f" "txq f = []" "peer f = c" using assms(2) by (auto simp: sees_def)
  have "buffers_ok ?x" "dataword (sspdat (sd_drv s) SSP1) = 0" "xlength ?x < 0x80000000"
    using assms(2) by (simp_all add: buffers_ok_def sees_def)
  from polled_transfer_ok[OF assms(1)[unfolded sd_link_def, THEN conjunct1] f(1,2) this(2,1,3)]
  obtain c' w' f' r where e: "SSP_ReadWrite (sd_ssp hw) SSP1 ?x SSP_TRANSFER_POLLING (sd_drv s) = Some (r, c', (sd_drv s)\<lparr>ssp_w := w'\<rparr>)"
    "R w' f'" "txq f' = []" "peer f' = after xch c (words_out ?x)"
    "rx_data c' = map_option (\<lambda>b. map ucast (answers xch c (words_out ?x)) @ drop (unat (xlength ?x)) b) (rx_data ?x)" using f(3) by blast
  have p: "peer f' = fetched xch c" "rx_data c' = Some [got xch c]"
    using e(4,5) by (simp_all add: words_out_def fetched_def got_def)
  have "sees R K (fetched xch c) (s\<lparr>sd_drv := (sd_drv s)\<lparr>ssp_w := w'\<rparr>\<rparr>)"
    using assms(2) e(2,3) p(1) by (auto simp: sees_def)
  then show ?thesis using e(1) p(2) by (auto simp: SSPReceive_def)
qed

lemma rcvr_spi_ok:
  assumes "sd_link hw xch cs R lag" "sees R K c s"
  shows "\<exists>d. rcvr_spi hw s = Some (got xch c, s\<lparr>sd_drv := d\<rparr>) \<and> sees R K (fetched xch c) (s\<lparr>sd_drv := d\<rparr>)"
  using SSPReceive_ok[OF assms, of 0] by (auto simp: rcvr_spi_def)

lemma CS_ok:
  assumes "sd_link hw xch cs R lag" "sees R K c s"
  shows "sees R K (cs False c) (CS_LOW hw s)" "sees R K (cs True c) (CS_HIGH hw s)"
proof -
  obtain f where f: "R (ssp_w (sd_drv s)) f" "txq f = []" "peer f = c" using assms(2) by (auto simp: sees_def)
  have "R (cs_line hw b (ssp_w (sd_drv s))) (f\<lparr>peer := cs b c\<rparr>)" for b
    using assms(1)[unfolded sd_link_def] f by blast
  then have "\<exists>f'. R (cs_line hw b (ssp_w (sd_drv s))) f' \<and> txq f' = [] \<and> peer f' = cs b c" for b
    using f(2) by (intro exI[of _ "f\<lparr>peer := cs b c\<rparr>"]) simp
  then show "sees R K (cs False c) (CS_LOW hw s)" "sees R K (cs True c) (CS_HIGH hw s)"
    using assms(2) by (simp_all add: sees_def CS_LOW_def CS_HIGH_def on_world_def)
qed

section \<open>The timer interrupt\<close>

lemma disk_timerproc_present:
  assumes "p AND push_bit 19 1 = 0"
  shows "disk_timerproc p s = s\<lparr>Timer1 := count_down (Timer1 s), Timer2 := count_down (Timer2 s), pv := 0,
    Stat := if pv s = 0 then Stat s AND NOT STA_NODISK else Stat s\<rparr>"
  using assms by (simp add: disk_timerproc_def GPIO_ReadValue_def Let_def)

lemma count_down_unat: "unat (count_down n) = unat n - 1"
  by (simp add: count_down_def unat_minus_one)

lemma timer_fold:
  assumes "\<forall>p \<in> set ps. p AND push_bit 19 1 = 0"
  shows "\<exists>t1 t2 v st. fold disk_timerproc ps s = s\<lparr>Timer1 := t1, Timer2 := t2, pv := v, Stat := st\<rparr> \<and>
    unat t1 = unat (Timer1 s) - length ps \<and> unat t2 = unat (Timer2 s) - length ps \<and> st AND 5 = Stat s AND 5"
  using assms
proof (induction ps arbitrary: s)
  case Nil
  then show ?case by (intro exI[of _ "Timer1 s"] exI[of _ "Timer2 s"] exI[of _ "pv s"] exI[of _ "Stat s"]) simp
next
  case (Cons p ps)
  let ?s = "disk_timerproc p s"
  have p: "p AND push_bit 19 1 = 0" using Cons(2) by simp
  have st: "Stat ?s AND 5 = Stat s AND 5" by (simp add: disk_timerproc_present[OF p] and.assoc)
  from Cons(1)[of ?s] Cons(2) obtain t1 t2 v st where
    "fold disk_timerproc ps ?s = ?s\<lparr>Timer1 := t1, Timer2 := t2, pv := v, Stat := st\<rparr>"
    "unat t1 = unat (Timer1 ?s) - length ps" "unat t2 = unat (Timer2 ?s) - length ps" "st AND 5 = Stat ?s AND 5" by auto
  then show ?case using st
    by (intro exI[of _ t1] exI[of _ t2] exI[of _ v] exI[of _ st]) (simp add: disk_timerproc_present[OF p] count_down_unat)
qed

lemma timer_calls_ok:
  assumes "sees R K c s"
  shows "sees R K c (timer_calls s)" "left s < unat (Timer1 s) \<Longrightarrow> left (timer_calls s) < unat (Timer1 (timer_calls s))"
    "left s < unat (Timer2 s) \<Longrightarrow> left (timer_calls s) < unat (Timer2 (timer_calls s))"
proof -
  have "sees R K c (timer_calls s) \<and> (left s < unat (Timer1 s) \<longrightarrow> left (timer_calls s) < unat (Timer1 (timer_calls s))) \<and>
    (left s < unat (Timer2 s) \<longrightarrow> left (timer_calls s) < unat (Timer2 (timer_calls s)))"
  proof (cases "ticks s")
    case Nil
    then show ?thesis using assms by (simp add: timer_calls_def)
  next
    case (Cons ps pss)
    let ?s = "s\<lparr>ticks := pss\<rparr>"
    have p: "\<forall>p \<in> set ps. p AND push_bit 19 1 = 0" "present ?s" "left s = length ps + left ?s"
      using assms Cons by (auto simp: sees_def present_def left_def)
    obtain t1 t2 v st where "timer_calls s = ?s\<lparr>Timer1 := t1, Timer2 := t2, pv := v, Stat := st\<rparr>"
      "unat t1 = unat (Timer1 s) - length ps" "unat t2 = unat (Timer2 s) - length ps" "st AND 5 = Stat s AND 5"
      using timer_fold[OF p(1), of ?s] Cons by (auto simp: timer_calls_def)
    then show ?thesis using assms p(2,3) by (auto simp: sees_def present_def left_def)
  qed
  then show "sees R K c (timer_calls s)" "left s < unat (Timer1 s) \<Longrightarrow> left (timer_calls s) < unat (Timer1 (timer_calls s))"
    "left s < unat (Timer2 s) \<Longrightarrow> left (timer_calls s) < unat (Timer2 (timer_calls s))" by blast+
qed

section \<open>The card\<close>

datatype phase = Deselected | Selected | Listening | DataDue u32 | DataOpen u32

text \<open>A command as it is sent.\<close>

definition packet :: "u8 \<Rightarrow> u32 \<Rightarrow> u8 list" where
  "packet cmd arg = [cmd, ucast (drop_bit 24 arg), ucast (drop_bit 16 arg), ucast (drop_bit 8 arg), ucast arg, command_crc cmd]"

text \<open>
  \<open>waits\<close>: a card in phase \<open>P\<close> that is clocked stays in it and sends something else than ones finitely many
  times; when it sends ones it is in phase \<open>Q\<close> too.
\<close>

definition waits :: "('s \<Rightarrow> u16 \<Rightarrow> u16 \<times> 's) \<Rightarrow> ('s \<Rightarrow> nat) \<Rightarrow> ('s \<Rightarrow> bool) \<Rightarrow> ('s \<Rightarrow> bool) \<Rightarrow> bool" where
  "waits xch busy P Q \<longleftrightarrow> (\<forall>c. P c \<longrightarrow> P (fetched xch c) \<and>
     (if got xch c = 0xFF then Q (fetched xch c) else busy (fetched xch c) < busy c))"

text \<open>At most nine bytes with bit 7 set before the response \<open>0\<close>.\<close>

definition gap_ok :: "u8 list \<Rightarrow> bool" where
  "gap_ok gap \<longleftrightarrow> length gap < 10 \<and> (\<forall>g \<in> set gap. g AND 0x80 \<noteq> 0)"

text \<open>
  \<open>station\<close>: a card in \<open>D\<close> is deselected, in \<open>S\<close> selected, in \<open>L\<close> it listens to a command.
\<close>

definition station :: "('s \<Rightarrow> u16 \<Rightarrow> u16 \<times> 's) \<Rightarrow> (bool \<Rightarrow> 's \<Rightarrow> 's) \<Rightarrow> ('s \<Rightarrow> nat) \<Rightarrow> ('s \<Rightarrow> bool) \<Rightarrow> ('s \<Rightarrow> bool) \<Rightarrow> ('s \<Rightarrow> bool) \<Rightarrow> bool" where
  "station xch cs busy D S L \<longleftrightarrow> (\<forall>c. S c \<or> D c \<longrightarrow> D (cs True c)) \<and>
     (\<forall>c. D c \<longrightarrow> D (fetched xch c) \<and> S (cs False c)) \<and> waits xch busy S L"

text \<open>
  \<open>sd_card xch cs V A busy\<close>: \<open>A m p c\<close> states that the card \<open>c\<close> is in phase \<open>p\<close> and holds the sectors \<open>m\<close> at
  the addresses \<open>V\<close>. The laws are those of the SPI mode: a deselected card keeps its contents and is
  selected by its chip select; a selected card may be busy for some time before it sends ones and listens
  to a command; a read command is answered with a response, the token \<open>0xFE\<close>, the 512 bytes of the
  sector and two bytes of checksum; a write command is answered with a response, after which the card
  accepts a packet with a checksum it ignores, stores it and acknowledges it.
\<close>

definition sd_card :: "('s \<Rightarrow> u16 \<Rightarrow> u16 \<times> 's) \<Rightarrow> (bool \<Rightarrow> 's \<Rightarrow> 's) \<Rightarrow> u32 set \<Rightarrow>
    ((u32 \<Rightarrow> u8 list) \<Rightarrow> phase \<Rightarrow> 's \<Rightarrow> bool) \<Rightarrow> ('s \<Rightarrow> nat) \<Rightarrow> bool" where
  "sd_card xch cs V A busy \<longleftrightarrow>
     (\<forall>m. station xch cs busy (A m Deselected) (A m Selected) (A m Listening)) \<and>
     (\<forall>m a. waits xch busy (A m (DataDue a)) (A m (DataOpen a))) \<and>
     (\<forall>m c. \<forall>a \<in> V. A m Listening c \<longrightarrow> (\<exists>gap j crc c'. gap_ok gap \<and> length crc = 2 \<and> length (m a) = 512 \<and>
        reads xch (writes xch c (packet CMD17 a)) (gap @ [0] @ replicate j 0xFF @ [0xFE] @ m a @ crc) c' \<and> A m Selected c')) \<and>
     (\<forall>m c. \<forall>a \<in> V. A m Listening c \<longrightarrow> (\<exists>gap c'. gap_ok gap \<and>
        reads xch (writes xch c (packet CMD24 a)) (gap @ [0]) c' \<and> A m (DataDue a) c')) \<and>
     (\<forall>m c a d. A m (DataOpen a) c \<longrightarrow> length d = 512 \<longrightarrow> (let c' = writes xch c ([0xFE] @ d @ [0xFF, 0xFF]) in
        got xch c' AND 0x1F = 0x05 \<and> A (m(a := d)) Selected (fetched xch c')))"

lemma station_cs:
  assumes "station xch cs busy D S L"
  shows "S c \<or> D c \<Longrightarrow> D (cs True c)" "D c \<Longrightarrow> D (fetched xch c)" "D c \<Longrightarrow> S (cs False c)" "waits xch busy S L"
  using assms unfolding station_def by blast+

lemma sd_card_station:
  assumes "sd_card xch cs V A busy"
  shows "station xch cs busy (A m Deselected) (A m Selected) (A m Listening)" "waits xch busy (A m (DataDue a)) (A m (DataOpen a))"
  using assms unfolding sd_card_def by blast+

lemma sd_card_read:
  assumes "sd_card xch cs V A busy" "a \<in> V" "A m Listening c"
  obtains gap j crc c' where "gap_ok gap" "length crc = 2" "length (m a) = 512"
    "reads xch (writes xch c (packet CMD17 a)) (gap @ [0] @ replicate j 0xFF @ [0xFE] @ m a @ crc) c'" "A m Selected c'"
  using assms(1)[unfolded sd_card_def, THEN conjunct2, THEN conjunct2, THEN conjunct1] assms(2,3) that
  by blast

lemma sd_card_write:
  assumes "sd_card xch cs V A busy" "a \<in> V" "A m Listening c"
  obtains gap c' where "gap_ok gap" "reads xch (writes xch c (packet CMD24 a)) (gap @ [0]) c'" "A m (DataDue a) c'"
  using assms(1)[unfolded sd_card_def, THEN conjunct2, THEN conjunct2, THEN conjunct2, THEN conjunct1] assms(2,3) that
  by blast

lemma sd_card_data:
  assumes "sd_card xch cs V A busy" "A m (DataOpen a) c" "length d = 512"
  shows "got xch (writes xch c ([0xFE] @ d @ [0xFF, 0xFF])) AND 0x1F = 0x05"
    "A (m(a := d)) Selected (fetched xch (writes xch c ([0xFE] @ d @ [0xFF, 0xFF])))"
  using assms(1)[unfolded sd_card_def Let_def, THEN conjunct2, THEN conjunct2, THEN conjunct2, THEN conjunct2] assms(2,3)
  by blast+

section \<open>Loops\<close>

lemma ready_loop_ok:
  assumes "sd_link hw xch cs R lag" "waits xch busy P Q" "P c" "sees R K c s" "left s < unat (Timer2 s)"
  shows "\<exists>s' c'. ready_loop hw s = Some (0xFF, s') \<and> sees R K c' s' \<and> Q c'"
  using assms(3-)
proof (induction "busy c" arbitrary: c s rule: less_induct)
  case less
  obtain d where d: "rcvr_spi hw s = Some (got xch c, s\<lparr>sd_drv := d\<rparr>)" "sees R K (fetched xch c) (s\<lparr>sd_drv := d\<rparr>)"
    using rcvr_spi_ok[OF assms(1) less(3)] by blast
  let ?s = "timer_calls (s\<lparr>sd_drv := d\<rparr>)"
  have s: "sees R K (fetched xch c) ?s" "left ?s < unat (Timer2 ?s)"
    using timer_calls_ok(1,3)[OF d(2)] less(4) by simp_all
  have w: "P (fetched xch c)" "if got xch c = 0xFF then Q (fetched xch c) else busy (fetched xch c) < busy c"
    using assms(2) less(2) unfolding waits_def by blast+
  show ?case
  proof (cases "got xch c = 0xFF")
    case True
    then show ?thesis using d(1) s(1) w(2) by (subst ready_loop.simps) (auto simp: Let_def)
  next
    case False
    then have "busy (fetched xch c) < busy c" using w(2) by simp
    moreover have "Timer2 ?s \<noteq> 0" using s(2) by auto
    ultimately show ?thesis using less(1)[OF _ w(1) s] d(1) False by (subst ready_loop.simps) (simp add: Let_def)
  qed
qed

lemma wait_ready_ok:
  assumes "sd_link hw xch cs R lag" "waits xch busy P Q" "P c" "sees R K c s"
  shows "\<exists>s' c'. wait_ready hw s = Some (0xFF, s') \<and> sees R K c' s' \<and> Q c'"
proof -
  have "sees R K c (s\<lparr>Timer2 := 50\<rparr>)" using assms(4) by (simp add: sees_fields)
  from rcvr_spi_ok[OF assms(1) this] obtain d where
    d: "rcvr_spi hw (s\<lparr>Timer2 := 50\<rparr>) = Some (got xch c, s\<lparr>Timer2 := 50, sd_drv := d\<rparr>)"
    "sees R K (fetched xch c) (s\<lparr>Timer2 := 50, sd_drv := d\<rparr>)" by auto
  have "P (fetched xch c)" using assms(2,3) unfolding waits_def by blast
  moreover have "left (s\<lparr>Timer2 := 50, sd_drv := d\<rparr>) < unat (Timer2 (s\<lparr>Timer2 := 50, sd_drv := d\<rparr>))"
    using assms(4) by (simp add: left_def sees_def)
  ultimately show ?thesis using ready_loop_ok[OF assms(1,2) _ d(2)] d(1) by (simp add: wait_ready_def)
qed

lemma token_loop_ok:
  assumes "sd_link hw xch cs R lag" "t \<noteq> 0xFF"
    and "reads xch c (replicate j 0xFF @ [t] @ rest) c'" "sees R K c s" "left s < unat (Timer1 s)"
  shows "\<exists>s' c1. token_loop hw s = Some (t, s') \<and> sees R K c1 s' \<and> reads xch c1 rest c'"
  using assms(3-)
proof (induction j arbitrary: c s)
  case 0
  obtain d where d: "rcvr_spi hw s = Some (got xch c, s\<lparr>sd_drv := d\<rparr>)" "sees R K (fetched xch c) (s\<lparr>sd_drv := d\<rparr>)"
    using rcvr_spi_ok[OF assms(1) 0(2)] by blast
  then show ?case using 0(1) assms(2) timer_calls_ok(1)[OF d(2)] by (subst token_loop.simps) auto
next
  case (Suc j)
  obtain d where d: "rcvr_spi hw s = Some (got xch c, s\<lparr>sd_drv := d\<rparr>)" "sees R K (fetched xch c) (s\<lparr>sd_drv := d\<rparr>)"
    using rcvr_spi_ok[OF assms(1) Suc(3)] by blast
  let ?s = "timer_calls (s\<lparr>sd_drv := d\<rparr>)"
  have s: "sees R K (fetched xch c) ?s" "left ?s < unat (Timer1 ?s)"
    using timer_calls_ok(1,2)[OF d(2)] Suc(4) by simp_all
  have r: "got xch c = 0xFF" "reads xch (fetched xch c) (replicate j 0xFF @ [t] @ rest) c'" using Suc(2) by simp_all
  have "Timer1 ?s \<noteq> 0" using s(2) by auto
  then show ?case using Suc(1)[OF r(2) s] d(1) r(1) by (subst token_loop.simps) (simp add: Let_def)
qed

lemma recv_bytes_ok:
  assumes "sd_link hw xch cs R lag"
    and "reads xch c (bs @ rest) c'" "sees R K c s" "k + length bs \<le> length buf"
  shows "\<exists>s' c1. recv_bytes hw (length bs) k buf s = Some (take k buf @ bs @ drop (k + length bs) buf, s') \<and>
    sees R K c1 s' \<and> reads xch c1 rest c'"
  using assms(2-)
proof (induction bs arbitrary: c s k buf)
  case Nil
  then show ?case by auto
next
  case (Cons b bs)
  have k: "k < length buf" using Cons(4) by simp
  obtain d where d: "SSPReceive hw [buf ! k] 1 s = Some (Some [got xch c], s\<lparr>sd_drv := d\<rparr>)"
    "sees R K (fetched xch c) (s\<lparr>sd_drv := d\<rparr>)" using SSPReceive_ok[OF assms(1) Cons(3)] by blast
  have r: "got xch c = b" "reads xch (fetched xch c) (bs @ rest) c'" using Cons(2) by simp_all
  have e: "take (k + 1) (buf[k := b]) @ bs @ drop (k + 1 + length bs) (buf[k := b]) = take k buf @ (b # bs) @ drop (k + length (b # bs)) buf"
    using k by (simp add: take_Suc_conv_app_nth take_update_cancel)
  from Cons(1)[OF r(2) d(2), of "k + 1" "buf[k := b]"] Cons(4) have
    "\<exists>s' c1. recv_bytes hw (length bs) (k + 1) (buf[k := b]) (s\<lparr>sd_drv := d\<rparr>) = Some (take k buf @ (b # bs) @ drop (k + length (b # bs)) buf, s') \<and>
      sees R K c1 s' \<and> reads xch c1 rest c'" unfolding e[symmetric] by simp
  then show ?case using d(1) k r(1) by simp
qed

lemma xmit_bytes_ok:
  assumes "sd_link hw xch cs R lag"
    and "sees R K c s" "k + n \<le> length buf"
  shows "\<exists>s'. xmit_bytes hw n k buf s = Some s' \<and> sees R K (writes xch c (take n (drop k buf))) s'"
  using assms(2-)
proof (induction n arbitrary: c s k)
  case 0
  then show ?case by simp
next
  case (Suc n)
  have k: "k < length buf" using Suc(3) by simp
  obtain d where d: "xmit_spi hw (buf ! k) s = Some (s\<lparr>sd_drv := d\<rparr>)" "sees R K (snd (xch c (ucast (buf ! k)))) (s\<lparr>sd_drv := d\<rparr>)"
    using SSPSend_ok[OF assms(1) Suc(2)] by blast
  have "take (Suc n) (drop k buf) = buf ! k # take n (drop (k + 1) buf)" using k by (simp add: Cons_nth_drop_Suc[symmetric])
  then show ?case using Suc(1)[OF d(2), of "k + 1"] Suc(3) d(1) k by simp
qed

lemma resp_loop_ok:
  assumes "sd_link hw xch cs R lag" "r AND 0x80 = 0"
    and "reads xch c (gap @ [r] @ rest) c'" "sees R K c s" "length gap < n" "\<forall>g \<in> set gap. g AND 0x80 \<noteq> 0"
  shows "\<exists>s' c1. resp_loop hw n s = Some (r, s') \<and> sees R K c1 s' \<and> reads xch c1 rest c'"
  using assms(3-)
proof (induction gap arbitrary: c s n)
  case Nil
  obtain d where "rcvr_spi hw s = Some (got xch c, s\<lparr>sd_drv := d\<rparr>)" "sees R K (fetched xch c) (s\<lparr>sd_drv := d\<rparr>)"
    using rcvr_spi_ok[OF assms(1) Nil(2)] by blast
  then show ?case using Nil assms(2) by (cases n) auto
next
  case (Cons g gap)
  obtain d where d: "rcvr_spi hw s = Some (got xch c, s\<lparr>sd_drv := d\<rparr>)" "sees R K (fetched xch c) (s\<lparr>sd_drv := d\<rparr>)"
    using rcvr_spi_ok[OF assms(1) Cons(3)] by blast
  obtain n' where n: "n = Suc n'" "length gap < n'" using Cons(4) by (cases n) auto
  have "got xch c = g" "g AND 0x80 \<noteq> 0" "reads xch (fetched xch c) (gap @ [r] @ rest) c'" using Cons(2,5) by simp_all
  then show ?case using Cons(1)[OF _ d(2) n(2)] Cons(5) d(1) n by auto
qed

section \<open>Commands\<close>

lemma deselect_ok:
  assumes "sd_link hw xch cs R lag" "station xch cs busy D S L" "sees R K c s" "S c \<or> D c"
  shows "\<exists>s' c'. deselect hw s = Some s' \<and> sees R K c' s' \<and> D c'"
proof -
  obtain d where "rcvr_spi hw (CS_HIGH hw s) = Some (got xch (cs True c), (CS_HIGH hw s)\<lparr>sd_drv := d\<rparr>)"
    "sees R K (fetched xch (cs True c)) ((CS_HIGH hw s)\<lparr>sd_drv := d\<rparr>)"
    using rcvr_spi_ok[OF assms(1) CS_ok(2)[OF assms(1,3)]] by blast
  then show ?thesis using station_cs(1,2)[OF assms(2)] assms(4) by (auto simp: deselect_def)
qed

lemma card_select_ok:
  assumes "sd_link hw xch cs R lag" "station xch cs busy D S L" "sees R K c s" "D c"
  shows "\<exists>s' c'. select hw s = Some (True, s') \<and> sees R K c' s' \<and> L c'"
proof -
  obtain s' c' where "wait_ready hw (CS_LOW hw s) = Some (0xFF, s')" "sees R K c' s'" "L c'"
    using wait_ready_ok[OF assms(1) station_cs(4)[OF assms(2)] station_cs(3)[OF assms(2,4)] CS_ok(1)[OF assms(1,3)]] by blast
  then show ?thesis by (auto simp: select_def)
qed

text \<open>A command reaches the card when it listens, and its response is returned.\<close>

lemma send_cmd_ok:
  assumes "sd_link hw xch cs R lag" "station xch cs busy D S L" "sees R K c s" "S c \<or> D c"
    and "cmd AND 0x80 = 0" "cmd \<noteq> CMD12" "r AND 0x80 = 0"
    and "\<And>c. L c \<Longrightarrow> \<exists>gap rest c'. gap_ok gap \<and> reads xch (writes xch c (packet cmd arg)) (gap @ [r] @ rest) c' \<and> Q rest c'"
  shows "\<exists>s' c1 rest c'. send_cmd hw cmd arg s = Some (r, s') \<and> sees R K c1 s' \<and> reads xch c1 rest c' \<and> Q rest c'"
proof -
  obtain s1 c1 where 1: "deselect hw s = Some s1" "sees R K c1 s1" "D c1" using deselect_ok[OF assms(1-4)] by blast
  obtain s2 c2 where 2: "select hw s1 = Some (True, s2)" "sees R K c2 s2" "L c2" using card_select_ok[OF assms(1,2) 1(2,3)] by blast
  obtain gap rest c' where l: "gap_ok gap" "reads xch (writes xch c2 (packet cmd arg)) (gap @ [r] @ rest) c'" "Q rest c'"
    using assms(8)[OF 2(3)] by blast
  note x = SSPSend_ok[OF assms(1)]
  let ?b = "\<lambda>n. ucast (drop_bit n arg) :: u8"
  obtain s3 where 3: "xmit_spi hw cmd s2 = Some s3" "sees R K (writes xch c2 [cmd]) s3" using x[OF 2(2)] by auto
  obtain s4 where 4: "xmit_spi hw (?b 24) s3 = Some s4" "sees R K (writes xch c2 [cmd, ?b 24]) s4" using x[OF 3(2)] by auto
  obtain s5 where 5: "xmit_spi hw (?b 16) s4 = Some s5" "sees R K (writes xch c2 [cmd, ?b 24, ?b 16]) s5" using x[OF 4(2)] by auto
  obtain s6 where 6: "xmit_spi hw (?b 8) s5 = Some s6" "sees R K (writes xch c2 [cmd, ?b 24, ?b 16, ?b 8]) s6" using x[OF 5(2)] by auto
  obtain s7 where 7: "xmit_spi hw (ucast arg) s6 = Some s7" "sees R K (writes xch c2 [cmd, ?b 24, ?b 16, ?b 8, ucast arg]) s7" using x[OF 6(2)] by auto
  obtain s8 where 8: "xmit_spi hw (command_crc cmd) s7 = Some s8" "sees R K (writes xch c2 (packet cmd arg)) s8"
    using x[OF 7(2)] unfolding packet_def by auto
  have "\<exists>s' c1. resp_loop hw 10 s8 = Some (r, s') \<and> sees R K c1 s' \<and> reads xch c1 rest c'"
    using resp_loop_ok[OF assms(1,7) l(2) 8(2)] l(1) by (simp add: gap_ok_def)
  then show ?thesis using 1(1) 2(1) 3(1) 4(1) 5(1) 6(1) 7(1) 8(1) l(3) assms(5,6) by (auto simp: send_cmd_def send_plain_def simp del: resp_loop.simps)
qed

section \<open>Sectors\<close>

lemma rcvr_datablock_ok:
  assumes "sd_link hw xch cs R lag" "reads xch c (replicate j 0xFF @ [0xFE] @ d @ crc) c'" "sees R K c s"
    and "length crc = 2" "length d = 512" "512 \<le> length buf" "\<not> c_timed K" "c_due K \<le> 20"
  shows "\<exists>s'. rcvr_datablock hw 0 buf 512 s = Some (True, d @ drop 512 buf, s') \<and> sees R K c' s'"
proof -
  have s: "sees R K c (s\<lparr>Timer1 := 20\<rparr>)" using assms(3,7) by (simp add: sees_fields)
  have "left (s\<lparr>Timer1 := 20\<rparr>) < unat (Timer1 (s\<lparr>Timer1 := 20\<rparr>))" using assms(3,8) by (simp add: sees_def)
  then obtain s1 c1 where 1: "token_loop hw (s\<lparr>Timer1 := 20\<rparr>) = Some (0xFE, s1)" "sees R K c1 s1" "reads xch c1 (d @ crc) c'"
    using token_loop_ok[OF assms(1) _ assms(2) s] by auto
  obtain s2 c2 where 2: "recv_bytes hw 512 0 buf s1 = Some (d @ drop 512 buf, s2)" "sees R K c2 s2" "reads xch c2 crc c'"
    using recv_bytes_ok[OF assms(1) 1(3,2), of 0 buf] assms(5,6) by auto
  obtain x y where crc: "crc = [x, y]" using assms(4) by (auto simp: length_Suc_conv numeral_2_eq_2)
  obtain s3 where 3: "rcvr_spi hw s2 = Some (x, s3)" "sees R K (fetched xch c2) s3" using rcvr_spi_ok[OF assms(1) 2(2)] 2(3) crc by auto
  obtain s4 where 4: "rcvr_spi hw s3 = Some (y, s4)" "sees R K c' s4" using rcvr_spi_ok[OF assms(1) 3(2)] 2(3) crc by auto
  show ?thesis using 1(1) 2(1) 3(1) 4 by (simp add: rcvr_datablock_def)
qed

lemma xmit_datablock_ok:
  assumes "sd_link hw xch cs R lag" "sd_card xch cs V A busy" "A m (DataDue a) c" "sees R K c s" "512 \<le> length buf"
  shows "\<exists>s' c'. xmit_datablock hw 0 buf 0xFE s = Some (True, s') \<and> sees R K c' s' \<and> A (m(a := take 512 buf)) Selected c'"
proof -
  obtain s1 c1 where 1: "wait_ready hw s = Some (0xFF, s1)" "sees R K c1 s1" "A m (DataOpen a) c1"
    using wait_ready_ok[OF assms(1) sd_card_station(2)[OF assms(2)] assms(3,4)] by blast
  note x = SSPSend_ok[OF assms(1)]
  have w: "writes xch (writes xch c bs) cs = writes xch c (bs @ cs)" for c bs cs by (induction bs arbitrary: c) simp_all
  obtain s2 where 2: "xmit_spi hw 0xFE s1 = Some s2" "sees R K (writes xch c1 [0xFE]) s2" using x[OF 1(2), of "0xFE"] by auto
  obtain s3 where 3: "xmit_bytes hw 512 0 buf s2 = Some s3" "sees R K (writes xch c1 ([0xFE] @ take 512 buf)) s3"
    using xmit_bytes_ok[OF assms(1) 2(2), of 0 512 buf] assms(5) w[of c1 "[0xFE]"] by auto
  obtain s4 where 4: "xmit_spi hw 0xFF s3 = Some s4" "sees R K (writes xch (writes xch c1 ([0xFE] @ take 512 buf)) [0xFF]) s4"
    using x[OF 3(2), of "0xFF"] by auto
  obtain s5 where 5: "xmit_spi hw 0xFF s4 = Some s5" "sees R K (writes xch (writes xch c1 ([0xFE] @ take 512 buf)) [0xFF, 0xFF]) s5"
    using x[OF 4(2), of "0xFF"] by auto
  let ?c = "writes xch c1 ([0xFE] @ take 512 buf @ [0xFF, 0xFF])"
  have "sees R K ?c s5" using 5(2) unfolding w by simp
  then obtain s6 where 6: "rcvr_spi hw s5 = Some (got xch ?c, s6)" "sees R K (fetched xch ?c) s6" using rcvr_spi_ok[OF assms(1)] by blast
  have "got xch ?c AND 0x1F = 0x05" "A (m(a := take 512 buf)) Selected (fetched xch ?c)"
    using sd_card_data[OF assms(2) 1(3), of "take 512 buf"] assms(5) by (simp_all del: writes.simps fun_upd_apply)
  then show ?thesis using 1(1) 2(1) 3(1) 4(1) 5(1) 6 by (intro exI[of _ s6] exI[of _ "fetched xch ?c"]) (simp add: xmit_datablock_def del: writes.simps)
qed

lemma ready_stat: "(x :: u8) AND 5 = 0 \<Longrightarrow> x AND STA_NOINIT = 0 \<and> x AND STA_PROTECT = 0"
proof -
  assume "x AND 5 = 0"
  then have "(x AND 5) AND 1 = 0" "(x AND 5) AND 4 = 0" by simp_all
  then show ?thesis by (simp add: and.assoc)
qed

definition sector_address :: "u8 \<Rightarrow> u32 \<Rightarrow> u32" where
  "sector_address ty sector = (if ty AND CT_BLOCK = 0 then sector * 512 else sector)"

text \<open>The state between the operations: the driver is initialised and fewer than 20 timer interrupts are to come.\<close>

definition at_rest :: "u8 \<Rightarrow> sd_context" where
  "at_rest ty = \<lparr>c_type = ty, c_stat = 0, c_due = 20, c_timed = False\<rparr>"

lemma disk_read_ok:
  assumes "sd_link hw xch cs R lag" "sd_card xch cs V A busy" "sees R (at_rest ty) c s" "A m Selected c \<or> A m Deselected c"
    and "sector_address ty sector \<in> V" "512 \<le> length buff"
  shows "\<exists>s' c'. disk_read hw 0 buff sector 1 s = Some (RES_OK, m (sector_address ty sector) @ drop 512 buff, s') \<and>
    sees R (at_rest ty) c' s' \<and> A m Deselected c'"
proof -
  let ?a = "sector_address ty sector"
  let ?Q = "\<lambda>rest c'. \<exists>j crc. rest = replicate j 0xFF @ [0xFE] @ m ?a @ crc \<and> length crc = 2 \<and> length (m ?a) = 512 \<and> A m Selected c'"
  have "\<exists>gap rest c'. gap_ok gap \<and> reads xch (writes xch c (packet CMD17 ?a)) (gap @ [0] @ rest) c' \<and> ?Q rest c'" if l: "A m Listening c" for c
  proof -
    obtain gap j crc c' where "gap_ok gap" "length crc = 2" "length (m ?a) = 512" "A m Selected c'"
      "reads xch (writes xch c (packet CMD17 ?a)) (gap @ [0] @ replicate j 0xFF @ [0xFE] @ m ?a @ crc) c'"
      using sd_card_read[OF assms(2,5) l] by metis
    then show ?thesis by blast
  qed
  from send_cmd_ok[OF assms(1) sd_card_station(1)[OF assms(2)] assms(3,4) _ _ _ this] obtain s1 c1 j crc c' where 1: "send_cmd hw CMD17 ?a s = Some (0, s1)" "sees R (at_rest ty) c1 s1"
    "reads xch c1 (replicate j 0xFF @ [0xFE] @ m ?a @ crc) c'" "length crc = 2" "length (m ?a) = 512" "A m Selected c'" by auto
  obtain s2 where 2: "rcvr_datablock hw 0 buff 512 s1 = Some (True, m ?a @ drop 512 buff, s2)" "sees R (at_rest ty) c' s2"
    using rcvr_datablock_ok[OF assms(1) 1(3,2,4,5) assms(6)] by (auto simp: at_rest_def)
  obtain s3 c3 where 3: "deselect hw s2 = Some s3" "sees R (at_rest ty) c3 s3" "A m Deselected c3"
    using deselect_ok[OF assms(1) sd_card_station(1)[OF assms(2)] 2(2)] 1(6) by blast
  have "Stat s AND STA_NOINIT = 0" "card_address sector s = ?a"
    using assms(3) ready_stat by (auto simp: sees_def at_rest_def card_address_def sector_address_def)
  then show ?thesis using 1(1) 2(1) 3 by (auto simp: disk_read_def)
qed

lemma disk_write_ok:
  assumes "sd_link hw xch cs R lag" "sd_card xch cs V A busy" "sees R (at_rest ty) c s" "A m Selected c \<or> A m Deselected c"
    and "sector_address ty sector \<in> V" "512 \<le> length buff"
  shows "\<exists>s' c'. disk_write hw 0 buff sector 1 s = Some (RES_OK, s') \<and>
    sees R (at_rest ty) c' s' \<and> A (m(sector_address ty sector := take 512 buff)) Deselected c'"
proof -
  let ?a = "sector_address ty sector"
  let ?Q = "\<lambda>rest c'. rest = [] \<and> A m (DataDue ?a) c'"
  have "\<exists>gap rest c'. gap_ok gap \<and> reads xch (writes xch c (packet CMD24 ?a)) (gap @ [0] @ rest) c' \<and> ?Q rest c'" if l: "A m Listening c" for c
  proof -
    obtain gap c' where "gap_ok gap" "reads xch (writes xch c (packet CMD24 ?a)) (gap @ [0]) c'" "A m (DataDue ?a) c'"
      using sd_card_write[OF assms(2,5) l] by metis
    then show ?thesis by (intro exI[of _ gap] exI[of _ "[]"] exI[of _ c']) simp
  qed
  from send_cmd_ok[OF assms(1) sd_card_station(1)[OF assms(2)] assms(3,4) _ _ _ this] obtain s1 c1 where 1: "send_cmd hw CMD24 ?a s = Some (0, s1)" "sees R (at_rest ty) c1 s1"
    "A m (DataDue ?a) c1" by auto
  obtain s2 c2 where 2: "xmit_datablock hw 0 buff 0xFE s1 = Some (True, s2)" "sees R (at_rest ty) c2 s2" "A (m(?a := take 512 buff)) Selected c2"
    using xmit_datablock_ok[OF assms(1,2) 1(3,2) assms(6)] by blast
  obtain s3 c3 where 3: "deselect hw s2 = Some s3" "sees R (at_rest ty) c3 s3" "A (m(?a := take 512 buff)) Deselected c3"
    using deselect_ok[OF assms(1) sd_card_station(1)[OF assms(2)] 2(2)] 2(3) by blast
  have "Stat s AND STA_NOINIT = 0" "Stat s AND STA_PROTECT = 0" "card_address sector s = ?a"
    using assms(3) ready_stat by (auto simp: sees_def at_rest_def card_address_def sector_address_def)
  then show ?thesis using 1(1) 2(1) 3 by (auto simp: disk_write_def)
qed

text \<open>
  \<^bold>\<open>C33\<close>. A sector written to a card that follows the protocol of the SPI mode is stored and read back:
  \<^verbatim>\<open>disk_write\<close> returns \<^const>\<open>RES_OK\<close>, a \<^verbatim>\<open>disk_read\<close> of the same sector into any buffer then returns the
  512 bytes written, and a \<^verbatim>\<open>disk_read\<close> of any other sector returns what the card held before, if the
  timer interrupt finds the card in its socket and happens fewer than 20 times, which is 200 ms. The address
  sent is the sector number or, for a card without block addressing, the byte position.
\<close>

theorem sector_roundtrip:
  assumes "sd_link hw xch cs R lag" "sd_card xch cs V A busy" "sees R (at_rest ty) c s" "A m Selected c \<or> A m Deselected c"
    and "sector_address ty sector \<in> V" "512 \<le> length data"
  shows "\<exists>s'. disk_write hw 0 data sector 1 s = Some (RES_OK, s') \<and>
    (\<forall>n buff. sector_address ty n \<in> V \<longrightarrow> 512 \<le> length buff \<longrightarrow>
      (\<exists>s''. disk_read hw 0 buff n 1 s' =
        Some (RES_OK, (if sector_address ty n = sector_address ty sector then take 512 data else m (sector_address ty n)) @ drop 512 buff, s'')))"
proof -
  obtain s' c' where w: "disk_write hw 0 data sector 1 s = Some (RES_OK, s')" "sees R (at_rest ty) c' s'"
    "A (m(sector_address ty sector := take 512 data)) Deselected c'" using disk_write_ok[OF assms] by blast
  show ?thesis using w(1) disk_read_ok[OF assms(1,2) w(2) disjI2[OF w(3)], unfolded fun_upd_apply] by blast
qed

section \<open>Start of the card\<close>

text \<open>
  The stages of a card of version 2 from power-up; the number bounds how often it still answers that it is
  initialising.
\<close>

datatype stage = PowerUp | IdleState | Checked nat | AppCmd nat | Working

text \<open>After \<open>cmd\<close> a card in \<open>L\<close> answers with \<open>r\<close>, followed by \<open>rest\<close>.\<close>

definition replies :: "('s \<Rightarrow> u16 \<Rightarrow> u16 \<times> 's) \<Rightarrow> ('s \<Rightarrow> bool) \<Rightarrow> u8 \<Rightarrow> u32 \<Rightarrow> u8 \<Rightarrow> u8 list \<Rightarrow> ('s \<Rightarrow> bool) \<Rightarrow> bool" where
  "replies xch L cmd arg r rest Q \<longleftrightarrow> (\<forall>c. L c \<longrightarrow>
     (\<exists>gap c'. gap_ok gap \<and> reads xch (writes xch c (packet cmd arg)) (gap @ [r] @ rest) c' \<and> Q c'))"

text \<open>
  \<open>sd_start xch cs B busy ocr\<close>: a card that is started by its commands. \<open>CMD0\<close> leads to the idle state, \<open>CMD8\<close>
  is answered with the check pattern, \<open>CMD55\<close> and \<open>ACMD41\<close> are repeated until the card works, and \<open>CMD58\<close> returns \<open>ocr\<close>.
\<close>

definition sd_start :: "('s \<Rightarrow> u16 \<Rightarrow> u16 \<times> 's) \<Rightarrow> (bool \<Rightarrow> 's \<Rightarrow> 's) \<Rightarrow> (stage \<Rightarrow> phase \<Rightarrow> 's \<Rightarrow> bool) \<Rightarrow> ('s \<Rightarrow> nat) \<Rightarrow> nat \<Rightarrow> u8 list \<Rightarrow> bool" where
  "sd_start xch cs B busy n ocr \<longleftrightarrow>
     (\<forall>i. station xch cs busy (B i Deselected) (B i Selected) (B i Listening)) \<and>
     replies xch (B PowerUp Listening) CMD0 0 1 [] (B IdleState Selected) \<and>
     (\<exists>x y. replies xch (B IdleState Listening) CMD8 0x1AA 1 [x, y, 1, 0xAA] (B (Checked n) Selected)) \<and>
     (\<forall>k. replies xch (B (Checked k) Listening) CMD55 0 1 [] (B (AppCmd k) Selected)) \<and>
     (\<forall>k. replies xch (B (AppCmd (Suc k)) Listening) 0x69 0x40000000 1 [] (B (Checked k) Selected)) \<and>
     replies xch (B (AppCmd 0) Listening) 0x69 0x40000000 0 [] (B Working Selected) \<and>
     replies xch (B Working Listening) CMD58 0 0 ocr (B Working Selected) \<and> length ocr = 4"

lemma replies_ok:
  assumes "sd_link hw xch cs R lag" "station xch cs busy D S L" "replies xch L cmd arg r rest Q"
    and "sees R K c s" "S c \<or> D c" "cmd AND 0x80 = 0" "cmd \<noteq> CMD12" "r AND 0x80 = 0"
  shows "\<exists>s' c1 c'. send_cmd hw cmd arg s = Some (r, s') \<and> send_plain hw cmd arg s = Some (r, s') \<and> sees R K c1 s' \<and>
    reads xch c1 rest c' \<and> Q c'"
proof -
  let ?Q = "\<lambda>rs c'. rs = rest \<and> Q c'"
  have "\<exists>gap rs c'. gap_ok gap \<and> reads xch (writes xch c (packet cmd arg)) (gap @ [r] @ rs) c' \<and> ?Q rs c'" if "L c" for c
    using assms(3) that unfolding replies_def by blast
  from send_cmd_ok[OF assms(1,2,4,5,6,7,8) this] show ?thesis using assms(6) by (auto simp: send_cmd_def)
qed

lemma read4_ok:
  assumes "sd_link hw xch cs R lag" "sees R K c s" "reads xch c bs c'" "length bs = 4"
  shows "\<exists>s'. read4 hw s = Some (bs, s') \<and> sees R K c' s'"
proof -
  obtain a b x y where bs: "bs = [a, b, x, y]" using assms(4) by (auto simp: length_Suc_conv eval_nat_numeral)
  note r = rcvr_spi_ok[OF assms(1)]
  obtain s1 where 1: "rcvr_spi hw s = Some (a, s1)" "sees R K (fetched xch c) s1" using r[OF assms(2)] assms(3) bs by auto
  obtain s2 where 2: "rcvr_spi hw s1 = Some (b, s2)" "sees R K (fetched xch (fetched xch c)) s2" using r[OF 1(2)] assms(3) bs by auto
  obtain s3 where 3: "rcvr_spi hw s2 = Some (x, s3)" "sees R K (fetched xch (fetched xch (fetched xch c))) s3" using r[OF 2(2)] assms(3) bs by auto
  obtain s4 where 4: "rcvr_spi hw s3 = Some (y, s4)" "sees R K c' s4" using r[OF 3(2)] assms(3) bs by auto
  show ?thesis using 1(1) 2(1) 3(1) 4 bs by (simp add: read4_def)
qed

lemma dummy_clocks_ok:
  assumes "sd_link hw xch cs R lag" "\<And>c. P c \<Longrightarrow> P (fetched xch c)" "P c" "sees R K c s"
  shows "\<exists>s' c'. dummy_clocks hw n s = Some s' \<and> sees R K c' s' \<and> P c'"
  using assms(3,4)
proof (induction n arbitrary: c s)
  case 0
  then show ?case by auto
next
  case (Suc n)
  obtain d where d: "rcvr_spi hw s = Some (got xch c, s\<lparr>sd_drv := d\<rparr>)" "sees R K (fetched xch c) (s\<lparr>sd_drv := d\<rparr>)"
    using rcvr_spi_ok[OF assms(1) Suc(3)] by blast
  from Suc(1)[OF assms(2)[OF Suc(2)] d(2)] show ?case using d(1) by simp
qed

lemma timed: "sees R K c s \<Longrightarrow> c_timed K \<Longrightarrow> Timer1 s \<noteq> 0"
  by (auto simp: sees_def)

text \<open>\<^verbatim>\<open>ACMD41\<close> is repeated until the card works.\<close>

lemma leave_idle_ok:
  assumes "sd_link hw xch cs R lag" "sd_start xch cs B busy m ocr" "c_timed K"
    and "sees R K c s" "B (Checked n) Selected c \<or> B (Checked n) Deselected c"
  shows "\<exists>s' c'. leave_idle hw ACMD41 (push_bit 30 1) s = Some s' \<and> sees R K c' s' \<and> B Working Selected c'"
  using assms(4,5)
proof (induction n arbitrary: c s)
  case 0
  have st: "station xch cs busy (B i Deselected) (B i Selected) (B i Listening)" for i using assms(2) by (simp add: sd_start_def)
  have r: "replies xch (B (Checked 0) Listening) CMD55 0 1 [] (B (AppCmd 0) Selected)"
    "replies xch (B (AppCmd 0) Listening) 0x69 0x40000000 0 [] (B Working Selected)" using assms(2) by (simp_all add: sd_start_def)
  obtain s1 c1 where 1: "send_plain hw CMD55 0 s = Some (1, s1)" "sees R K c1 s1" "B (AppCmd 0) Selected c1"
    using replies_ok[OF assms(1) st r(1) 0] by auto
  obtain s2 c2 where 2: "send_plain hw 0x69 0x40000000 s1 = Some (0, s2)" "sees R K c2 s2" "B Working Selected c2"
    using replies_ok[OF assms(1) st r(2) 1(2) disjI1[OF 1(3)]] by auto
  have "send_cmd hw ACMD41 (push_bit 30 1) s = Some (0, s2)" using 1(1) 2(1) by (simp add: send_cmd_def)
  then show ?case using timed[OF 0(1) assms(3)] 2(2,3) by (subst leave_idle.simps) auto
next
  case (Suc n)
  have st: "station xch cs busy (B i Deselected) (B i Selected) (B i Listening)" for i using assms(2) by (simp add: sd_start_def)
  have r: "replies xch (B (Checked (Suc n)) Listening) CMD55 0 1 [] (B (AppCmd (Suc n)) Selected)"
    "replies xch (B (AppCmd (Suc n)) Listening) 0x69 0x40000000 1 [] (B (Checked n) Selected)" using assms(2) by (simp_all add: sd_start_def)
  obtain s1 c1 where 1: "send_plain hw CMD55 0 s = Some (1, s1)" "sees R K c1 s1" "B (AppCmd (Suc n)) Selected c1"
    using replies_ok[OF assms(1) st r(1) Suc(2,3)] by auto
  obtain s2 c2 where 2: "send_plain hw 0x69 0x40000000 s1 = Some (1, s2)" "sees R K c2 s2" "B (Checked n) Selected c2"
    using replies_ok[OF assms(1) st r(2) 1(2) disjI1[OF 1(3)]] by auto
  have "send_cmd hw ACMD41 (push_bit 30 1) s = Some (1, s2)" using 1(1) 2(1) by (simp add: send_cmd_def)
  then show ?case using timed[OF Suc(2) assms(3)] Suc(1)[OF 2(2) disjI1[OF 2(3)]] by (subst leave_idle.simps) simp
qed

text \<open>The type of the card by the operation conditions register.\<close>

definition v2_type :: "u8 list \<Rightarrow> u8" where
  "v2_type ocr = (if ocr ! 0 AND 0x40 \<noteq> 0 then CT_SD2 OR CT_BLOCK else CT_SD2)"

lemma identify_v2_ok:
  assumes "sd_link hw xch cs R lag" "sd_start xch cs B busy n ocr" "c_timed K"
    and "sees R K c s" "reads xch c [x, y, 1, 0xAA] c'" "B (Checked n) Selected c'"
  shows "\<exists>s' c'. identify_v2 hw s = Some (v2_type ocr, s') \<and> sees R K c' s' \<and> B Working Selected c'"
proof -
  have st: "station xch cs busy (B i Deselected) (B i Selected) (B i Listening)" for i using assms(2) by (simp add: sd_start_def)
  have r: "replies xch (B Working Listening) CMD58 0 0 ocr (B Working Selected)" "length ocr = 4" using assms(2) by (simp_all add: sd_start_def)
  obtain s1 where 1: "read4 hw s = Some ([x, y, 1, 0xAA], s1)" "sees R K c' s1" using read4_ok[OF assms(1,4,5)] by auto
  obtain s2 c2 where 2: "leave_idle hw ACMD41 (push_bit 30 1) s1 = Some s2" "sees R K c2 s2" "B Working Selected c2"
    using leave_idle_ok[OF assms(1,2,3) 1(2) disjI1[OF assms(6)]] by blast
  obtain s3 c3 c4 where 3: "send_cmd hw CMD58 0 s2 = Some (0, s3)" "sees R K c3 s3" "reads xch c3 ocr c4" "B Working Selected c4"
    using replies_ok[OF assms(1) st r(1) 2(2) disjI1[OF 2(3)]] by auto
  obtain s4 where 4: "read4 hw s3 = Some (ocr, s4)" "sees R K c4 s4" using read4_ok[OF assms(1) 3(2,3) r(2)] by blast
  show ?thesis using 1(1) 2(1) 3(1) 4 timed[OF 2(2) assms(3)] 3(4) by (auto simp: identify_v2_def v2_type_def)
qed

text \<open>The power switch of the socket reaches the card like the chip select.\<close>

definition sd_power :: "'w sd_hw \<Rightarrow> (bool \<Rightarrow> 's \<Rightarrow> 's) \<Rightarrow> ('w \<Rightarrow> 's ssp_fifo \<Rightarrow> bool) \<Rightarrow> bool" where
  "sd_power hw pw R \<longleftrightarrow> (\<forall>w f b. R w f \<longrightarrow> txq f = [] \<longrightarrow> R (pwr_line hw b w) (f\<lparr>peer := pw b (peer f)\<rparr>))"

lemma power_ok:
  assumes "sd_power hw pw R" "sees R K c s"
  shows "sees R K (pw False c) (power_on hw s)"
proof -
  obtain f where f: "R (ssp_w (sd_drv s)) f" "txq f = []" "peer f = c" using assms(2) by (auto simp: sees_def)
  then have "\<exists>f'. R (pwr_line hw False (ssp_w (sd_drv s))) f' \<and> txq f' = [] \<and> peer f' = pw False c"
    using assms(1) by (intro exI[of _ "f\<lparr>peer := pw False c\<rparr>"]) (auto simp: sd_power_def)
  then show ?thesis using assms(2) by (simp add: sees_def power_on_def on_world_def)
qed

lemma and_parts: "((x :: u8) AND NOT 1) AND 5 = (x AND 5) AND 4" "(x AND 5) AND 4 = x AND 4" "(x AND NOT 1) AND 1 = 0"
  by (simp_all add: and.assoc)

lemma disk_initialize_ok:
  assumes "sd_link hw xch cs R lag" "sd_power hw pw R" "sd_start xch cs B busy n ocr" "sees R K c s" "\<not> c_timed K"
    and "B PowerUp Selected (pw False c) \<or> B PowerUp Deselected (pw False c)" "Stat s AND STA_NODISK = 0"
  shows "\<exists>s' c'. disk_initialize hw 0 s = Some (Stat s', s') \<and> Stat s' AND STA_NOINIT = 0 \<and> B Working Deselected c' \<and>
    sees R (K\<lparr>c_type := v2_type ocr, c_timed := True, c_stat := Stat s AND 4\<rparr>) c' s'"
proof -
  have st: "station xch cs busy (B i Deselected) (B i Selected) (B i Listening)" for i using assms(3) by (simp add: sd_start_def)
  obtain x y where r: "replies xch (B PowerUp Listening) CMD0 0 1 [] (B IdleState Selected)"
    "replies xch (B IdleState Listening) CMD8 0x1AA 1 [x, y, 1, 0xAA] (B (Checked n) Selected)" using assms(3) by (auto simp: sd_start_def)
  let ?g = "GPIO_SetDir 0 (push_bit 19 1) 0 (GPIO_SetDir 0 (push_bit 6 1) 1 (GPIO_SetDir 0 (push_bit 18 1) 1 (sd_gpio s)))"
  let ?K = "K\<lparr>c_timed := True\<rparr>"
  have 0: "sees R K (pw False c) (power_on hw (s\<lparr>sd_gpio := ?g\<rparr>))" using power_ok[OF assms(2)] assms(4) by (simp add: sees_fields)
  have "B PowerUp Selected (fetched xch c) \<or> B PowerUp Deselected (fetched xch c)" if "B PowerUp Selected c \<or> B PowerUp Deselected c" for c
    using st[of PowerUp] that unfolding station_def waits_def by blast
  from dummy_clocks_ok[OF assms(1) this assms(6) 0] obtain s1 c1 where 1: "dummy_clocks hw 10 (power_on hw (s\<lparr>sd_gpio := ?g\<rparr>)) = Some s1"
    "sees R K c1 s1" "B PowerUp Selected c1 \<or> B PowerUp Deselected c1" by blast
  obtain s2 c2 where 2: "send_cmd hw CMD0 0 s1 = Some (1, s2)" "sees R K c2 s2" "B IdleState Selected c2"
    using replies_ok[OF assms(1) st r(1) 1(2,3)] by auto
  have t: "sees R ?K c2 (s2\<lparr>Timer1 := 100\<rparr>)" using 2(2) by (simp add: sees_def)
  obtain s3 c3 c3' where 3: "send_cmd hw CMD8 0x1AA (s2\<lparr>Timer1 := 100\<rparr>) = Some (1, s3)" "sees R ?K c3 s3"
    "reads xch c3 [x, y, 1, 0xAA] c3'" "B (Checked n) Selected c3'"
    using replies_ok[OF assms(1) st r(2) t disjI1[OF 2(3)]] by (auto simp del: reads.simps)
  obtain s4 c4 where 4: "identify_v2 hw s3 = Some (v2_type ocr, s4)" "sees R ?K c4 s4" "B Working Selected c4"
    using identify_v2_ok[OF assms(1,3) _ 3(2-4)] by auto
  have "sees R (?K\<lparr>c_type := v2_type ocr\<rparr>) c4 (s4\<lparr>CardType := v2_type ocr\<rparr>)" using 4(2) by (simp add: sees_def)
  from deselect_ok[OF assms(1) st this disjI1[OF 4(3)]] obtain s5 c5 where 5: "deselect hw (s4\<lparr>CardType := v2_type ocr\<rparr>) = Some s5"
    "sees R (?K\<lparr>c_type := v2_type ocr\<rparr>) c5 s5" "B Working Deselected c5" by blast
  let ?s = "s5\<lparr>Stat := Stat s5 AND NOT STA_NOINIT\<rparr>"
  have "v2_type ocr \<noteq> 0" by (simp add: v2_type_def)
  then have "disk_initialize hw 0 s = Some (Stat ?s, ?s)"
    using 1(1) 2(1) 3(1) 4(1) 5(1) assms(7) by (simp add: disk_initialize_def)
  moreover have "Stat s5 AND 5 = Stat s AND 5" using 5(2) assms(4) by (simp add: sees_def)
  then have "sees R (K\<lparr>c_type := v2_type ocr, c_timed := True, c_stat := Stat s AND 4\<rparr>) c5 ?s"
    using 5(2) and_parts(1)[of "Stat s5"] and_parts(2)[of "Stat s"] by (simp add: sees_def)
  ultimately show ?thesis using 5(3) and_parts(3) by (intro exI[of _ ?s] exI[of _ c5]) simp
qed

text \<open>
  \<^bold>\<open>C34\<close>. A memory card of version 2 that answers the commands of the start sequence is started by
  \<^verbatim>\<open>disk_initialize\<close>, however often it first reports that it is busy initialising: the call returns a status
  without \<^const>\<open>STA_NOINIT\<close>, the card type follows the operation conditions register, and the sectors of the card can then be
  read. Fewer than 50 timer interrupts happen meanwhile, fewer than 20 for the reading, and find the card in its socket.
\<close>

theorem card_starts:
  assumes "sd_link hw xch cs R lag" "sd_power hw pw R" "sd_start xch cs B busy n ocr" "sees R K c s" "\<not> c_timed K"
    and "B PowerUp Selected (pw False c) \<or> B PowerUp Deselected (pw False c)" "Stat s AND STA_NODISK = 0" "Stat s AND STA_PROTECT = 0"
    and "sd_card xch cs V A busy" "\<forall>c. B Working Deselected c \<longrightarrow> A m Deselected c"
  shows "\<exists>s'. disk_initialize hw 0 s = Some (Stat s', s') \<and> Stat s' AND STA_NOINIT = 0 \<and> CardType s' = v2_type ocr \<and>
    (c_due K \<le> 20 \<longrightarrow> (\<forall>sector buff. sector_address (v2_type ocr) sector \<in> V \<longrightarrow> 512 \<le> length buff \<longrightarrow>
      (\<exists>s''. disk_read hw 0 buff sector 1 s' = Some (RES_OK, m (sector_address (v2_type ocr) sector) @ drop 512 buff, s''))))"
proof -
  obtain s' c' where i: "disk_initialize hw 0 s = Some (Stat s', s')" "Stat s' AND STA_NOINIT = 0" "B Working Deselected c'"
    "sees R (K\<lparr>c_type := v2_type ocr, c_timed := True, c_stat := Stat s AND 4\<rparr>) c' s'"
    using disk_initialize_ok[OF assms(1-7)] by blast
  have "A m Selected c' \<or> A m Deselected c'" using assms(10) i(3) by blast
  moreover have "sees R (at_rest (v2_type ocr)) c' s'" if "c_due K \<le> 20"
    using i(4) that assms(8) by (simp add: sees_def at_rest_def)
  ultimately have "c_due K \<le> 20 \<Longrightarrow> sector_address (v2_type ocr) sector \<in> V \<Longrightarrow> 512 \<le> length buff \<Longrightarrow>
    \<exists>s''. disk_read hw 0 buff sector 1 s' = Some (RES_OK, m (sector_address (v2_type ocr) sector) @ drop 512 buff, s'')" for sector buff
    using disk_read_ok[OF assms(1,9)] by blast
  moreover have "CardType s' = v2_type ocr" using i(4) by (simp add: sees_def)
  ultimately show ?thesis using i(1,2) by blast
qed

section \<open>A concrete card\<close>

text \<open>What the card does with the next byte: collect a command, send bytes, collect a data packet.\<close>

datatype card_mode = Command "u8 list" | Sending "u8 list" "u32 option" | Packet u32 "u8 list"

record card =
  chosen :: bool
  cells :: "u32 \<Rightarrow> u8 list"
  mode :: card_mode
  tries :: nat

definition decode_arg :: "u8 list \<Rightarrow> u32" where
  "decode_arg p = push_bit 24 (ucast (p ! 1)) OR (push_bit 16 (ucast (p ! 2)) OR (push_bit 8 (ucast (p ! 3)) OR ucast (p ! 4)))"

definition obey :: "u8 list \<Rightarrow> card \<Rightarrow> card" where
  "obey p c = (let send = (\<lambda>xs next. c\<lparr>mode := Sending xs next\<rparr>) in
     if p ! 0 = CMD17 then send ([0xFF, 0, 0xFF, 0xFE] @ cells c (decode_arg p) @ [0xAA, 0x55]) None
     else if p ! 0 = CMD24 then send [0xFF, 0] (Some (decode_arg p))
     else if p ! 0 = CMD0 then send [0xFF, 1] None
     else if p ! 0 = CMD8 then send [1, 0, 0, 1, 0xAA] None
     else if p ! 0 = CMD55 then send [1] None
     else if p ! 0 = 0x69 then c\<lparr>mode := Sending [if tries c = 0 then 0 else 1] None, tries := tries c - 1\<rparr>
     else if p ! 0 = CMD58 then send [0, 0xC0, 0xFF, 0x80, 0] None
     else send [0x05] None)"

fun card_byte :: "card \<Rightarrow> u8 \<Rightarrow> u8 \<times> card" where
  "card_byte c b = (if \<not> chosen c then (0xFF, c) else (case mode c of
     Command bs \<Rightarrow> (0xFF, if bs = [] \<and> b = 0xFF then c
       else if length bs < 5 then c\<lparr>mode := Command (bs @ [b])\<rparr> else obey (bs @ [b]) (c\<lparr>mode := Command []\<rparr>))
   | Sending xs next \<Rightarrow> (hd xs, c\<lparr>mode := if tl xs \<noteq> [] then Sending (tl xs) next
       else (case next of None \<Rightarrow> Command [] | Some a \<Rightarrow> Packet a [])\<rparr>)
   | Packet a bs \<Rightarrow> (0xFF, if bs = [] \<and> b = 0xFF then c
       else if length bs < 514 then c\<lparr>mode := Packet a (bs @ [b])\<rparr>
       else c\<lparr>cells := (cells c)(a := take 512 (drop 1 bs)), mode := Sending [0xE5, 0, 0] None\<rparr>)))"

definition card_xch :: "card \<Rightarrow> u16 \<Rightarrow> u16 \<times> card" where
  "card_xch c v = (let (r, c) = card_byte c (ucast v) in (ucast r, c))"

definition card_cs :: "bool \<Rightarrow> card \<Rightarrow> card" where
  "card_cs high c = c\<lparr>chosen := \<not> high, mode := Command []\<rparr>"

definition card_in :: "(u32 \<Rightarrow> u8 list) \<Rightarrow> phase \<Rightarrow> card \<Rightarrow> bool" where
  "card_in m p c \<longleftrightarrow> cells c = m \<and> (\<forall>a. length (m a) = 512) \<and> (case p of
     Deselected \<Rightarrow> \<not> chosen c
   | Selected \<Rightarrow> chosen c \<and> (mode c = Command [] \<or> (\<exists>x xs. mode c = Sending (x # xs) None \<and> 0xFF \<notin> set (x # xs)))
   | Listening \<Rightarrow> chosen c \<and> mode c = Command []
   | DataDue a \<Rightarrow> chosen c \<and> mode c = Packet a []
   | DataOpen a \<Rightarrow> chosen c \<and> mode c = Packet a [])"

definition card_busy :: "card \<Rightarrow> nat" where
  "card_busy c = (case mode c of Sending xs n \<Rightarrow> length xs | _ \<Rightarrow> 0)"

lemma byte_casts: "(ucast (ucast (b :: u8) :: u16) :: u8) = b"
  by (rule bit_word_eqI) (auto simp: bit_simps dest: bit_imp_le_length)

lemma decode_packet: "decode_arg (packet cmd a) = a"
proof -
  have "decode_arg (packet cmd a) = push_bit 24 (ucast (ucast (drop_bit 24 a) :: u8)) OR (push_bit 16 (ucast (ucast (drop_bit 16 a) :: u8)) OR
    (push_bit 8 (ucast (ucast (drop_bit 8 a) :: u8)) OR ucast (ucast a :: u8)))"
    by (simp add: decode_arg_def packet_def)
  also have "\<dots> = a"
  proof (rule bit_word_eqI)
    fix n assume "n < LENGTH(32)"
    then consider "n < 8" | k where "n = 8 + k" "k < 8" | k where "n = 16 + k" "k < 8" | k where "n = 24 + k" "k < 8"
    proof -
      assume a: "n < 8 \<Longrightarrow> thesis" "\<And>k. n = 8 + k \<Longrightarrow> k < 8 \<Longrightarrow> thesis" "\<And>k. n = 16 + k \<Longrightarrow> k < 8 \<Longrightarrow> thesis"
        "\<And>k. n = 24 + k \<Longrightarrow> k < 8 \<Longrightarrow> thesis"
      from \<open>n < LENGTH(32)\<close> have "n < 8 \<or> n = 8 + (n - 8) \<and> n - 8 < 8 \<or> n = 16 + (n - 16) \<and> n - 16 < 8 \<or> n = 24 + (n - 24) \<and> n - 24 < 8"
        by auto
      then show thesis using a by blast
    qed
    then show "bit (push_bit 24 (ucast (ucast (drop_bit 24 a) :: u8)) OR (push_bit 16 (ucast (ucast (drop_bit 16 a) :: u8)) OR
      (push_bit 8 (ucast (ucast (drop_bit 8 a) :: u8)) OR ucast (ucast a :: u8))) :: u32) n = bit a n"
      by cases (auto simp: bit_simps)
  qed
  finally show ?thesis .
qed

lemma card_fetch:
  "got card_xch c = fst (card_byte c 0xFF)" "fetched card_xch c = snd (card_byte c 0xFF)"
  "snd (card_xch c (ucast b)) = snd (card_byte c b)"
  by (simp_all add: got_def fetched_def card_xch_def case_prod_beta byte_casts del: card_byte.simps)

lemma card_packet:
  assumes "chosen c" "mode c = Command []" "cmd \<noteq> 0xFF"
  shows "writes card_xch c (packet cmd a) = obey (packet cmd a) c"
proof -
  have "obey p (c\<lparr>mode := x\<rparr>) = obey p c" for p x by (simp add: obey_def Let_def)
  then show ?thesis using assms unfolding packet_def by (simp add: card_fetch)
qed

lemma card_sends:
  assumes "chosen c" "mode c = Sending xs n" "xs \<noteq> []"
  shows "reads card_xch c xs (c\<lparr>mode := case n of None \<Rightarrow> Command [] | Some a \<Rightarrow> Packet a []\<rparr>)"
  using assms
proof (induction xs arbitrary: c)
  case Nil
  then show ?case by simp
next
  case (Cons x xs)
  show ?case
  proof (cases "xs = []")
    case True
    then show ?thesis using Cons(2,3) by (simp add: card_fetch)
  next
    case False
    then show ?thesis using Cons(1)[of "c\<lparr>mode := Sending xs n\<rparr>"] Cons(2,3) by (simp add: card_fetch)
  qed
qed

lemma card_collects:
  assumes "chosen c" "mode c = Packet a acc" "acc \<noteq> []" "length acc + length bs \<le> 514"
  shows "writes card_xch c bs = c\<lparr>mode := Packet a (acc @ bs)\<rparr>"
  using assms
proof (induction bs arbitrary: c acc)
  case Nil
  then show ?case by simp
next
  case (Cons b bs)
  then show ?case using Cons(1)[of "c\<lparr>mode := Packet a (acc @ [b])\<rparr>" "acc @ [b]"] by (simp add: card_fetch)
qed

lemma reads_append: "reads xch c (xs @ ys) c' \<longleftrightarrow> (\<exists>c1. reads xch c xs c1 \<and> reads xch c1 ys c')"
  by (induction xs arbitrary: c) auto

lemma card_in_waits: "waits card_xch card_busy (card_in m Selected) (card_in m Listening)"
  unfolding waits_def
proof (intro allI impI)
  fix c
  assume c: "card_in m Selected c"
  then consider "mode c = Command []" | x xs where "mode c = Sending (x # xs) None" "0xFF \<notin> set (x # xs)"
    by (auto simp: card_in_def)
  then show "card_in m Selected (fetched card_xch c) \<and>
    (if got card_xch c = 0xFF then card_in m Listening (fetched card_xch c) else card_busy (fetched card_xch c) < card_busy c)"
  proof cases
    case 1
    then show ?thesis using c by (simp add: card_fetch card_in_def)
  next
    case 2
    then show ?thesis using c by (cases xs) (simp_all add: card_fetch card_in_def card_busy_def)
  qed
qed

lemma card_in_data:
  assumes "card_in m (DataOpen a) c" "length d = 512"
  shows "got card_xch (writes card_xch c ([0xFE] @ d @ [0xFF, 0xFF])) AND 0x1F = 0x05"
    "card_in (m(a := d)) Selected (fetched card_xch (writes card_xch c ([0xFE] @ d @ [0xFF, 0xFF])))"
proof -
  let ?c = "c\<lparr>mode := Packet a [0xFE]\<rparr>"
  have c: "chosen c" "mode c = Packet a []" "cells c = m" "\<forall>a. length (m a) = 512" using assms(1) by (simp_all add: card_in_def)
  have w: "writes xch (writes xch c bs) cs = writes xch c (bs @ cs)" for xch :: "card \<Rightarrow> u16 \<Rightarrow> u16 \<times> card" and c bs cs
    by (induction bs arbitrary: c) simp_all
  have "writes card_xch c ([0xFE] @ d @ [0xFF, 0xFF]) = writes card_xch (writes card_xch ?c (d @ [0xFF])) [0xFF]"
    unfolding w using c card_fetch(3)[of c "0xFE"] by simp
  also have "writes card_xch ?c (d @ [0xFF]) = ?c\<lparr>mode := Packet a ([0xFE] @ d @ [0xFF])\<rparr>"
    using card_collects[of ?c a "[0xFE]" "d @ [0xFF]"] c(1) assms(2) by simp
  also have "writes card_xch (?c\<lparr>mode := Packet a ([0xFE] @ d @ [0xFF])\<rparr>) [0xFF] = c\<lparr>cells := m(a := d), mode := Sending [0xE5, 0, 0] None\<rparr>"
    using c assms(2) card_fetch(3)[of "?c\<lparr>mode := Packet a ([0xFE] @ d @ [0xFF])\<rparr>" "0xFF"] by simp
  finally have e: "writes card_xch c ([0xFE] @ d @ [0xFF, 0xFF]) = c\<lparr>cells := m(a := d), mode := Sending [0xE5, 0, 0] None\<rparr>" .
  show "got card_xch (writes card_xch c ([0xFE] @ d @ [0xFF, 0xFF])) AND 0x1F = 0x05"
    "card_in (m(a := d)) Selected (fetched card_xch (writes card_xch c ([0xFE] @ d @ [0xFF, 0xFF])))"
    unfolding e using c assms(2) by (simp_all add: card_fetch card_in_def)
qed

lemma card_in_read:
  assumes "card_in m Listening c"
  shows "\<exists>gap j crc c'. gap_ok gap \<and> length crc = 2 \<and> length (m a) = 512 \<and>
    reads card_xch (writes card_xch c (packet CMD17 a)) (gap @ [0] @ replicate j 0xFF @ [0xFE] @ m a @ crc) c' \<and> card_in m Selected c'"
proof -
  have c: "chosen c" "mode c = Command []" "cells c = m" "\<forall>a. length (m a) = 512" using assms by (simp_all add: card_in_def)
  let ?xs = "[0xFF, 0, 0xFF, 0xFE] @ m a @ [0xAA, 0x55]"
  have "obey (packet CMD17 a) c = c\<lparr>mode := Sending ?xs None\<rparr>" by (simp add: obey_def Let_def decode_packet c(3)) (simp add: packet_def)
  then have w: "writes card_xch c (packet CMD17 a) = c\<lparr>mode := Sending ?xs None\<rparr>" using card_packet[OF c(1,2), of CMD17 a] by simp
  have "reads card_xch (c\<lparr>mode := Sending ?xs None\<rparr>) ?xs (c\<lparr>mode := Command []\<rparr>)"
    using card_sends[of "c\<lparr>mode := Sending ?xs None\<rparr>" ?xs None] c(1) by (simp del: reads.simps)
  moreover have "?xs = [0xFF] @ [0] @ replicate 1 0xFF @ [0xFE] @ m a @ [0xAA, 0x55]" by simp
  moreover have "card_in m Selected (c\<lparr>mode := Command []\<rparr>)" "gap_ok [0xFF]" using c by (simp_all add: card_in_def gap_ok_def)
  ultimately show ?thesis unfolding w using c(4)
    by (intro exI[of _ "[0xFF]"] exI[of _ "1 :: nat"] exI[of _ "[0xAA, 0x55]"] exI[of _ "c\<lparr>mode := Command []\<rparr>"]) (simp del: reads.simps)
qed

lemma card_in_write:
  assumes "card_in m Listening c"
  shows "\<exists>gap c'. gap_ok gap \<and> reads card_xch (writes card_xch c (packet CMD24 a)) (gap @ [0]) c' \<and> card_in m (DataDue a) c'"
proof -
  have c: "chosen c" "mode c = Command []" "cells c = m" "\<forall>a. length (m a) = 512" using assms by (simp_all add: card_in_def)
  have "obey (packet CMD24 a) c = c\<lparr>mode := Sending [0xFF, 0] (Some a)\<rparr>" by (simp add: obey_def Let_def decode_packet) (simp add: packet_def)
  then have w: "writes card_xch c (packet CMD24 a) = c\<lparr>mode := Sending [0xFF, 0] (Some a)\<rparr>" using card_packet[OF c(1,2), of CMD24 a] by simp
  have "reads card_xch (c\<lparr>mode := Sending [0xFF, 0] (Some a)\<rparr>) ([0xFF] @ [0]) (c\<lparr>mode := Packet a []\<rparr>)"
    using card_sends[of "c\<lparr>mode := Sending [0xFF, 0] (Some a)\<rparr>" "[0xFF, 0]" "Some a"] c(1) by (simp del: reads.simps)
  moreover have "card_in m (DataDue a) (c\<lparr>mode := Packet a []\<rparr>)" "gap_ok [0xFF]" using c by (simp_all add: card_in_def gap_ok_def)
  ultimately show ?thesis unfolding w by blast
qed

lemma card_ok: "sd_card card_xch card_cs UNIV card_in card_busy"
proof -
  have due: "waits card_xch card_busy (card_in m (DataDue a)) (card_in m (DataOpen a))" for m a
    by (simp add: waits_def card_fetch card_in_def)
  have "station card_xch card_cs card_busy (card_in m Deselected) (card_in m Selected) (card_in m Listening)" for m
    unfolding station_def using card_in_waits by (auto simp: card_cs_def card_in_def card_fetch)
  then show ?thesis unfolding sd_card_def Let_def
    using due card_in_read card_in_write card_in_data by blast
qed

definition card_hw :: "card ssp_fifo sd_hw" where
  "card_hw = \<lparr>sd_ssp = sim_port card_xch, cs_line = (\<lambda>b w. w\<lparr>peer := card_cs b (peer w)\<rparr>), pwr_line = (\<lambda>_ w. w), pins0 = (\<lambda>_. 0)\<rparr>"

definition card_blank :: "card ssp_fifo sd" where
  "card_blank = \<lparr>sd_drv = ssp_idle \<lparr>txq = [], rxq = [], ovr = False,
       peer = \<lparr>chosen = False, cells = (\<lambda>_. replicate 512 7), mode = Command [], tries = 2\<rparr>\<rparr>,
     sd_gpio = (\<lambda>_. \<lparr>FIODIR = 0, FIOMASK = 0, FIOLATCH = 0\<rparr>), Stat = 0, Timer1 = 0, Timer2 = 0, CardType = CT_SD2, pv = 0,
     ticks = [[], [0], [], [0, 0]]\<rparr>"

lemma card_hw_link: "sd_link card_hw card_xch card_cs (\<lambda>w f. w = f) (\<lambda>_. 0)"
  using sim_port_ok by (simp add: sd_link_def card_hw_def)

theorem sector_roundtrip_witness:
  "\<exists>s' s2 s3. disk_write card_hw 0 (replicate 512 3) 2 1 card_blank = Some (RES_OK, s') \<and>
    disk_read card_hw 0 (replicate 512 0) 2 1 s' = Some (RES_OK, replicate 512 3, s2) \<and>
    disk_read card_hw 0 (replicate 512 0) 5 1 s' = Some (RES_OK, replicate 512 7, s3)"
proof -
  define full :: "u8 \<Rightarrow> u8 list" where "full = replicate 512"
  define c where "c = \<lparr>chosen = False, cells = (\<lambda>_. full 7), mode = Command [], tries = 2\<rparr>"
  have l: "length (full v) = 512" "take 512 (full v) = full v" "drop 512 (full v) = []" for v
    unfolding full_def by (simp_all only: length_replicate take_replicate drop_replicate min.idem diff_self_eq_0 replicate_0)
  have s: "sees (\<lambda>w f. w = f) (at_rest CT_SD2) c card_blank"
    unfolding c_def full_def by (simp add: sees_def card_blank_def ssp_idle_def at_rest_def left_def present_def del: replicate.simps)
  have c: "card_in (\<lambda>_. full 7) Selected c \<or> card_in (\<lambda>_. full 7) Deselected c" by (simp add: card_in_def c_def l)
  have "512 \<le> length (full v)" for v by (simp add: l)
  then obtain s' where w: "disk_write card_hw 0 (full 3) 2 1 card_blank = Some (RES_OK, s')"
    and r: "\<forall>n buff. sector_address CT_SD2 n \<in> UNIV \<longrightarrow> 512 \<le> length buff \<longrightarrow> (\<exists>s''. disk_read card_hw 0 buff n 1 s' = Some (RES_OK,
      (if sector_address CT_SD2 n = sector_address CT_SD2 2 then take 512 (full 3) else full 7) @ drop 512 buff, s''))"
    using sector_roundtrip[OF card_hw_link card_ok s c, of 2 "full 3"] by blast
  show ?thesis using w r[THEN spec, of 2, THEN spec, of "full 0"] r[THEN spec, of 5, THEN spec, of "full 0"] unfolding full_def[symmetric]
    by (auto simp: sector_address_def l)
qed

text \<open>The same card from power-up; it reports twice that it is initialising.\<close>

definition card_at :: "(u32 \<Rightarrow> u8 list) \<Rightarrow> stage \<Rightarrow> phase \<Rightarrow> card \<Rightarrow> bool" where
  "card_at m i p c \<longleftrightarrow> card_in m p c \<and>
     (case i of PowerUp \<Rightarrow> tries c = 2 | IdleState \<Rightarrow> tries c = 2 | Checked n \<Rightarrow> tries c = n | AppCmd n \<Rightarrow> tries c = n | Working \<Rightarrow> True)"

lemma card_poll_tries:
  assumes "card_in m p c" "p = Selected \<or> p = Deselected"
  shows "tries (fetched card_xch c) = tries c"
  using assms by (auto simp: card_in_def card_fetch)

lemma card_at_station: "station card_xch card_cs card_busy (card_at m i Deselected) (card_at m i Selected) (card_at m i Listening)"
proof -
  have w: "waits card_xch card_busy (card_at m i Selected) (card_at m i Listening)"
    using card_in_waits[of m] card_poll_tries[of m Selected] unfolding waits_def card_at_def by (cases i) auto
  have d: "card_at m i Deselected (fetched card_xch c) \<and> card_at m i Selected (card_cs False c)" if "card_at m i Deselected c" for c
    using that by (cases i) (simp_all add: card_at_def card_in_def card_cs_def card_fetch)
  have "card_at m i Deselected (card_cs True c)" if "card_at m i Selected c \<or> card_at m i Deselected c" for c
    using that by (cases i) (auto simp: card_at_def card_in_def card_cs_def)
  then show ?thesis unfolding station_def using w d by blast
qed

lemma card_replies:
  assumes "\<And>c. tries c = t \<or> any \<Longrightarrow> obey (packet cmd a) c = c\<lparr>mode := Sending (gap @ [r] @ rest) None, tries := u (tries c)\<rparr>"
    and "cmd \<noteq> 0xFF" "gap_ok gap" "\<And>c. card_at m i Listening c \<Longrightarrow> tries c = t \<or> any"
    and "\<And>c. card_at m i Listening c \<Longrightarrow> card_at m j Selected (c\<lparr>tries := u (tries c), mode := Command []\<rparr>)"
  shows "replies card_xch (card_at m i Listening) cmd a r rest (card_at m j Selected)"
  unfolding replies_def
proof (intro allI impI)
  fix c
  assume l: "card_at m i Listening c"
  then have c: "chosen c" "mode c = Command []" by (simp_all add: card_at_def card_in_def)
  let ?c = "c\<lparr>mode := Sending (gap @ [r] @ rest) None, tries := u (tries c)\<rparr>"
  have "writes card_xch c (packet cmd a) = ?c" using card_packet[OF c assms(2)] assms(1)[OF assms(4)[OF l]] by simp
  moreover have "reads card_xch ?c (gap @ [r] @ rest) (?c\<lparr>mode := Command []\<rparr>)"
    using card_sends[of ?c "gap @ [r] @ rest" None] c(1) by (simp del: reads.simps)
  ultimately show "\<exists>gap c'. gap_ok gap \<and> reads card_xch (writes card_xch c (packet cmd a)) (gap @ [r] @ rest) c' \<and> card_at m j Selected c'"
    using assms(3) assms(5)[OF l] by (intro exI[of _ gap] exI[of _ "?c\<lparr>mode := Command []\<rparr>"]) simp
qed

lemma packet_0: "packet cmd a ! 0 = cmd"
  by (simp add: packet_def)

lemma card_start: "sd_start card_xch card_cs (card_at m) card_busy 2 [0xC0, 0xFF, 0x80, 0]"
proof -
  have g: "gap_ok [0xFF]" "gap_ok []" by (simp_all add: gap_ok_def)
  note o = obey_def Let_def packet_0
  have 1: "replies card_xch (card_at m PowerUp Listening) CMD0 0 1 [] (card_at m IdleState Selected)"
    by (rule card_replies[where u = "\<lambda>n. n" and any = True and gap = "[0xFF]"]) (auto simp: o g card_at_def card_in_def)
  have 2: "replies card_xch (card_at m IdleState Listening) CMD8 0x1AA 1 [0, 0, 1, 0xAA] (card_at m (Checked 2) Selected)"
    by (rule card_replies[where u = "\<lambda>n. n" and any = True and gap = "[]"]) (auto simp: o g card_at_def card_in_def)
  have 3: "replies card_xch (card_at m (Checked k) Listening) CMD55 0 1 [] (card_at m (AppCmd k) Selected)" for k
    by (rule card_replies[where u = "\<lambda>n. n" and any = True and gap = "[]"]) (auto simp: o g card_at_def card_in_def)
  have 4: "replies card_xch (card_at m (AppCmd (Suc k)) Listening) 0x69 0x40000000 1 [] (card_at m (Checked k) Selected)" for k
    by (rule card_replies[where u = "\<lambda>n. n - 1" and t = "Suc k" and any = False and gap = "[]"]) (auto simp: o g card_at_def card_in_def)
  have 5: "replies card_xch (card_at m (AppCmd 0) Listening) 0x69 0x40000000 0 [] (card_at m Working Selected)"
    by (rule card_replies[where u = "\<lambda>n. n - 1" and t = 0 and any = False and gap = "[]"]) (auto simp: o g card_at_def card_in_def)
  have 6: "replies card_xch (card_at m Working Listening) CMD58 0 0 [0xC0, 0xFF, 0x80, 0] (card_at m Working Selected)"
    by (rule card_replies[where u = "\<lambda>n. n" and any = True and gap = "[]"]) (auto simp: o g card_at_def card_in_def)
  show ?thesis unfolding sd_start_def using card_at_station 1 2 3 4 5 6 by auto
qed

theorem card_starts_witness:
  "\<exists>s' s''. disk_initialize card_hw 0 (card_blank\<lparr>Stat := STA_NOINIT\<rparr>) = Some (Stat s', s') \<and> CardType s' = CT_SD2 OR CT_BLOCK \<and>
    disk_read card_hw 0 (replicate 512 0) 9 1 s' = Some (RES_OK, replicate 512 7, s'')"
proof -
  define full :: "u8 \<Rightarrow> u8 list" where "full = replicate 512"
  define c where "c = \<lparr>chosen = False, cells = (\<lambda>_. full 7), mode = Command [], tries = 2\<rparr>"
  let ?s = "card_blank\<lparr>Stat := STA_NOINIT\<rparr>" and ?K = "\<lparr>c_type = CT_SD2, c_stat = 1, c_due = 20, c_timed = False\<rparr>"
  have l: "length (full v) = 512" "drop 512 (full v) = []" for v
    unfolding full_def by (simp_all only: length_replicate drop_replicate diff_self_eq_0 replicate_0)
  have p: "sd_power card_hw (\<lambda>_ c. c) (\<lambda>w f. w = f)" by (simp add: sd_power_def card_hw_def)
  have s: "sees (\<lambda>w f. w = f) ?K c ?s"
    unfolding c_def full_def by (simp add: sees_def card_blank_def ssp_idle_def left_def present_def del: replicate.simps)
  have b: "card_at (\<lambda>_. full 7) PowerUp Selected c \<or> card_at (\<lambda>_. full 7) PowerUp Deselected c"
    by (simp add: card_at_def card_in_def c_def l)
  have "\<forall>c. card_at (\<lambda>_. full 7) Working Deselected c \<longrightarrow> card_in (\<lambda>_. full 7) Deselected c" by (simp add: card_at_def)
  from card_starts[OF card_hw_link p card_start s _ b _ _ card_ok this] obtain s' where
    i: "disk_initialize card_hw 0 ?s = Some (Stat s', s')" "CardType s' = CT_SD2 OR CT_BLOCK"
    and r: "(\<forall>n buff. sector_address 12 n \<in> UNIV \<longrightarrow> 512 \<le> length buff \<longrightarrow>
      (\<exists>s''. disk_read card_hw 0 buff n 1 s' = Some (RES_OK, full 7 @ drop 512 buff, s'')))"
    by (auto simp: v2_type_def)
  have "\<exists>s''. disk_read card_hw 0 (full 0) 9 1 s' = Some (RES_OK, full 7, s'')"
    using r[THEN spec, of 9, THEN spec, of "full 0"] by (simp add: l)
  then show ?thesis using i unfolding full_def[symmetric] by blast
qed

end
