(* ===== verification/EmacDriver.thy ===== *)
theory EmacDriver
  imports Clkpwr Ring
begin

unbundle bit_operations_syntax

text \<open>
  The Ethernet driver, \<^verbatim>\<open>lpc17xx_emac.c\<close>. The descriptor rings and the packet buffers in the second SRAM bank
  are shared with the bus master: the descriptors are lists, the buffers one area of bytes that their
  addresses select, so that a packet longer than its buffer runs into the next one. The management port of the
  PHY is the hardware \<open>mii_regs\<close>. A call-back acts on the world \<open>'w\<close> of the application and the PHY.
\<close>

section \<open>State\<close>

record LPC_EMAC_TypeDef =
  MAC1 :: u32
  MAC2 :: u32
  IPGT :: u32
  IPGR :: u32
  CLRT :: u32
  MAXF :: u32
  SUPP :: u32
  MCFG :: u32
  SA0 :: u32
  SA1 :: u32
  SA2 :: u32
  Command :: u32
  RxDescriptor :: u32
  RxStatus :: u32
  RxDescriptorNumber :: u32
  RxProduceIndex :: u32
  RxConsumeIndex :: u32
  TxDescriptor :: u32
  TxStatus :: u32
  TxDescriptorNumber :: u32
  TxProduceIndex :: u32
  TxConsumeIndex :: u32
  RxFilterCtrl :: u32
  RxFilterWoLStatus :: u32
  RxFilterWoLClear :: u32
  HashFilterL :: u32
  HashFilterH :: u32
  IntStatus :: u32
  IntEnable :: u32
  IntClear :: u32

record DMA_Desc =
  Packet :: u32
  Ctrl :: u32

record RX_Stat =
  Info :: u32
  HashCRC :: u32

record 'w mii_regs =
  wr_MADR :: "u32 \<Rightarrow> 'w \<Rightarrow> 'w"
  wr_MWTD :: "u32 \<Rightarrow> 'w \<Rightarrow> 'w"
  wr_MCMD :: "u32 \<Rightarrow> 'w \<Rightarrow> 'w"
  rd_MIND :: "'w \<Rightarrow> u32 \<times> 'w"
  rd_MRDD :: "'w \<Rightarrow> u32 \<times> 'w"
  wait_ms :: "u32 \<Rightarrow> 'w \<Rightarrow> 'w"

record 'w emac =
  LPC_EMAC :: LPC_EMAC_TypeDef
  RX_DESC :: "DMA_Desc list"
  RX_STAT :: "RX_Stat list"
  TX_DESC :: "DMA_Desc list"
  TX_STAT :: "u32 list"
  emac_buf :: "u8 list"
  pfnIntCbDat :: "('w \<Rightarrow> 'w option) option list"
  detectedPhy :: u32
  emac_sc :: LPC_SC_TypeDef
  emac_w :: 'w

datatype EMAC_Status = EMAC_SUCCESS | EMAC_LINK_DOWN | EMAC_ERROR

record EMAC_CFG_Type =
  Mode :: u32
  pbEMAC_Addr :: "u8 list"

record EMAC_PACKETBUF_Type =
  ulDataLen :: u32
  pbDataBuf :: "u8 list option"

abbreviation (input) EMAC_NUM_RX_FRAG :: u32 where "EMAC_NUM_RX_FRAG \<equiv> 4"
abbreviation (input) EMAC_NUM_TX_FRAG :: u32 where "EMAC_NUM_TX_FRAG \<equiv> 3"
abbreviation (input) EMAC_ETH_MAX_FLEN :: u32 where "EMAC_ETH_MAX_FLEN \<equiv> 1536"
abbreviation (input) RX_DESC_BASE :: u32 where "RX_DESC_BASE \<equiv> 0x20080000"
abbreviation (input) RX_STAT_BASE :: u32 where "RX_STAT_BASE \<equiv> 0x20080020"
abbreviation (input) TX_DESC_BASE :: u32 where "TX_DESC_BASE \<equiv> 0x20080040"
abbreviation (input) TX_STAT_BASE :: u32 where "TX_STAT_BASE \<equiv> 0x20080058"
abbreviation (input) RX_BUF_BASE :: u32 where "RX_BUF_BASE \<equiv> 0x20080064"
abbreviation (input) TX_BUF_BASE :: u32 where "TX_BUF_BASE \<equiv> 0x20081864"
abbreviation (input) EMAC_RCTRL_INT :: u32 where "EMAC_RCTRL_INT \<equiv> 0x80000000"
abbreviation (input) EMAC_TCTRL_INT :: u32 where "EMAC_TCTRL_INT \<equiv> 0x80000000"
abbreviation (input) EMAC_TCTRL_LAST :: u32 where "EMAC_TCTRL_LAST \<equiv> 0x40000000"
abbreviation (input) EMAC_RINFO_SIZE :: u32 where "EMAC_RINFO_SIZE \<equiv> 0x7FF"
abbreviation (input) EMAC_MII_TOUT :: nat where "EMAC_MII_TOUT \<equiv> 0x50000"
abbreviation (input) EMAC_PHY_ADR :: u32 where "EMAC_PHY_ADR \<equiv> 0x100"
abbreviation (input) BMCR :: u32 where "BMCR \<equiv> 0"
abbreviation (input) BMSR :: u32 where "BMSR \<equiv> 1"
abbreviation (input) IDR1 :: u32 where "IDR1 \<equiv> 2"
abbreviation (input) IDR2 :: u32 where "IDR2 \<equiv> 3"
abbreviation (input) EMAC_DP83848C_ID :: u32 where "EMAC_DP83848C_ID \<equiv> 0x20005C90"
abbreviation (input) EMAC_LAN8720_ID :: u32 where "EMAC_LAN8720_ID \<equiv> 0x0007C0F0"
abbreviation (input) EMAC_PHY_STAT_LINK :: u32 where "EMAC_PHY_STAT_LINK \<equiv> 0"
abbreviation (input) EMAC_PHY_STAT_SPEED :: u32 where "EMAC_PHY_STAT_SPEED \<equiv> 1"
abbreviation (input) EMAC_PHY_STAT_DUP :: u32 where "EMAC_PHY_STAT_DUP \<equiv> 2"

definition e_upd :: "(LPC_EMAC_TypeDef \<Rightarrow> LPC_EMAC_TypeDef) \<Rightarrow> 'w emac \<Rightarrow> 'w emac" where
  "e_upd f e = e\<lparr>LPC_EMAC := f (LPC_EMAC e)\<rparr>"

section \<open>Management port of the PHY\<close>

text \<open>Waits until the port is not busy; at most \<open>n\<close> reads of the indicator.\<close>

fun mii_wait :: "'w mii_regs \<Rightarrow> nat \<Rightarrow> 'w \<Rightarrow> bool \<times> 'w" where
  "mii_wait hw 0 w = (False, w)"
| "mii_wait hw (Suc n) w = (let (m, w) = rd_MIND hw w in if m AND 1 = 0 then (True, w) else mii_wait hw n w)"

definition write_PHY :: "'w mii_regs \<Rightarrow> u32 \<Rightarrow> u16 \<Rightarrow> 'w \<Rightarrow> u32 \<times> 'w" where
  "write_PHY hw PhyReg Value w =
     (let w = wr_MWTD hw (ucast Value) (wr_MADR hw (EMAC_PHY_ADR OR PhyReg) w);
          (ok, w) = mii_wait hw EMAC_MII_TOUT w
      in (if ok then 0 else -1, w))"

definition read_PHY :: "'w mii_regs \<Rightarrow> u32 \<Rightarrow> 'w \<Rightarrow> u32 \<times> 'w" where
  "read_PHY hw PhyReg w =
     (let w = wr_MCMD hw 1 (wr_MADR hw (EMAC_PHY_ADR OR PhyReg) w);
          (ok, w) = mii_wait hw EMAC_MII_TOUT w
      in if ok then rd_MRDD hw (wr_MCMD hw 0 w) else (-1, w))"

definition emac_delay_ms :: "'w mii_regs \<Rightarrow> u32 \<Rightarrow> 'w \<Rightarrow> 'w" where
  "emac_delay_ms hw ms w = wait_ms hw ms w"

definition EMAC_CheckPHYStatus :: "'w mii_regs \<Rightarrow> u32 \<Rightarrow> 'w emac \<Rightarrow> u32 \<times> 'w emac" where
  "EMAC_CheckPHYStatus hw ulPHYState e =
     (let (regv, w) = read_PHY hw BMSR (emac_w e)
      in (if ulPHYState = EMAC_PHY_STAT_LINK then (if regv AND 0x0004 \<noteq> 0 then 1 else 0)
          else if ulPHYState = EMAC_PHY_STAT_SPEED then (if regv AND 0xE000 \<noteq> 0 then 1 else 0)
          else if ulPHYState = EMAC_PHY_STAT_DUP then (if regv AND 0x5000 \<noteq> 0 then 1 else 0)
          else -1, e\<lparr>emac_w := w\<rparr>))"

text \<open>
  \<^verbatim>\<open>for (tout = n; tout; tout--)\<close> with a delay and a read of a PHY register, left when the bits of \<open>mask\<close>
  have the wanted value. Inside the loop \<^verbatim>\<open>tout\<close> is never 0, so its time-out branch is never taken.
\<close>

fun phy_poll :: "'w mii_regs \<Rightarrow> nat \<Rightarrow> u32 \<Rightarrow> u32 \<Rightarrow> (u32 \<Rightarrow> bool) \<Rightarrow> 'w \<Rightarrow> 'w" where
  "phy_poll hw 0 ms reg done w = w"
| "phy_poll hw (Suc n) ms reg done w =
     (let (regv, w) = read_PHY hw reg (emac_delay_ms hw ms w) in if done regv then w else phy_poll hw n ms reg done w)"

definition EMAC_UpdatePHYStatus :: "'w mii_regs \<Rightarrow> 'w emac \<Rightarrow> EMAC_Status \<times> 'w emac" where
  "EMAC_UpdatePHYStatus hw e =
     (let e = e\<lparr>emac_w := phy_poll hw 10 100 BMSR (\<lambda>v. v AND 0x0004 \<noteq> 0) (emac_w e)\<rparr>;
          (dup, e) = EMAC_CheckPHYStatus hw EMAC_PHY_STAT_DUP e;
          e = (if dup = 1 then e_upd (\<lambda>r. r\<lparr>MAC2 := MAC2 r OR 0x1, Command := Command r OR 0x400, IPGT := 0x15\<rparr>) e
               else e_upd (\<lambda>r. r\<lparr>IPGT := 0x12\<rparr>) e);
          (speed, e) = EMAC_CheckPHYStatus hw EMAC_PHY_STAT_SPEED e
      in (EMAC_SUCCESS, e_upd (\<lambda>r. r\<lparr>SUPP := if speed = 0 then 0 else 0x100\<rparr>) e))"

definition EMAC_SetPHYMode :: "'w mii_regs \<Rightarrow> u32 \<Rightarrow> 'w emac \<Rightarrow> EMAC_Status \<times> 'w emac" where
  "EMAC_SetPHYMode hw ulPHYMode e =
     (let write = (\<lambda>v. EMAC_UpdatePHYStatus hw (e\<lparr>emac_w := snd (write_PHY hw BMCR v (emac_w e))\<rparr>))
      in if ulPHYMode = 0 then write 0x3000
         else if ulPHYMode = 1 then write 0x0100
         else if ulPHYMode = 2 then write 0x0000
         else if ulPHYMode = 3 then write 0x2100
         else if ulPHYMode = 4 then write 0x2000
         else (EMAC_ERROR, e))"

section \<open>Initialisation\<close>

definition RX_BUF :: "nat \<Rightarrow> u32" where
  "RX_BUF i = RX_BUF_BASE + EMAC_ETH_MAX_FLEN * of_nat i"

definition TX_BUF :: "nat \<Rightarrow> u32" where
  "TX_BUF i = TX_BUF_BASE + EMAC_ETH_MAX_FLEN * of_nat i"

definition rx_descr_init :: "'w emac \<Rightarrow> 'w emac" where
  "rx_descr_init e = e_upd (\<lambda>r. r\<lparr>RxDescriptor := RX_DESC_BASE, RxStatus := RX_STAT_BASE,
       RxDescriptorNumber := EMAC_NUM_RX_FRAG - 1, RxConsumeIndex := 0\<rparr>)
     (e\<lparr>RX_DESC := map (\<lambda>i. \<lparr>Packet = RX_BUF i, Ctrl = EMAC_RCTRL_INT OR (EMAC_ETH_MAX_FLEN - 1)\<rparr>) [0..<4],
        RX_STAT := replicate 4 \<lparr>Info = 0, HashCRC = 0\<rparr>\<rparr>)"

definition tx_descr_init :: "'w emac \<Rightarrow> 'w emac" where
  "tx_descr_init e = e_upd (\<lambda>r. r\<lparr>TxDescriptor := TX_DESC_BASE, TxStatus := TX_STAT_BASE,
       TxDescriptorNumber := EMAC_NUM_TX_FRAG - 1, TxProduceIndex := 0\<rparr>)
     (e\<lparr>TX_DESC := map (\<lambda>i. \<lparr>Packet = TX_BUF i, Ctrl = 0\<rparr>) [0..<3], TX_STAT := replicate 3 0\<rparr>)"

definition setEmacAddr :: "u8 list \<Rightarrow> 'w emac \<Rightarrow> 'w emac option" where
  "setEmacAddr a e = (if length a < 6 then None
     else Some (e_upd (\<lambda>r. r\<lparr>SA0 := push_bit 8 (ucast (a ! 5)) OR ucast (a ! 4),
       SA1 := push_bit 8 (ucast (a ! 3)) OR ucast (a ! 2), SA2 := push_bit 8 (ucast (a ! 1)) OR ucast (a ! 0)\<rparr>) e))"

definition EMAC_clkdiv :: "u32 list" where
  "EMAC_clkdiv = [4, 6, 8, 10, 14, 20, 28]"

text \<open>The index of the first divider that is large enough, or the length of the list.\<close>

fun clkdiv_index :: "u32 \<Rightarrow> u32 list \<Rightarrow> nat" where
  "clkdiv_index t [] = 0"
| "clkdiv_index t (d # ds) = (if d \<ge> t then 0 else Suc (clkdiv_index t ds))"

text \<open>
  The register values up to the reset of the PHY, and those after its configuration; the values that are
  written first to reset the controller are overwritten.
\<close>

definition emac_reset :: "u32 \<Rightarrow> 'w emac \<Rightarrow> 'w emac" where
  "emac_reset SystemCoreClock e =
     e_upd (\<lambda>r. r\<lparr>MAC1 := 0x2, MAC2 := 0x30, MAXF := EMAC_ETH_MAX_FLEN,
       MCFG := (push_bit 2 (of_nat (clkdiv_index (SystemCoreClock div 2500000) EMAC_clkdiv + 1) AND 0xF) OR 0x8000) AND NOT 0x8000,
       CLRT := 0x370F, IPGR := 0x12, Command := 0x240, SUPP := 0x800\<rparr>)
       (e\<lparr>emac_sc := CLKPWR_ConfigPPWR 0x40000000 ENABLE (emac_sc e)\<rparr>)"

definition emac_start :: "'w emac \<Rightarrow> 'w emac" where
  "emac_start e = e_upd (\<lambda>r. r\<lparr>RxFilterCtrl := 0x26, IntEnable := 0x88, IntClear := 0xFFFF,
     Command := Command r OR 0x3, MAC1 := MAC1 r OR 0x1\<rparr>) e"

text \<open>
  For a PHY that is not supported the code returns \<^verbatim>\<open>ERROR\<close>, a constant of another enumeration: its value 0 is
  that of \<^const>\<open>EMAC_SUCCESS\<close>.
\<close>

definition EMAC_Init :: "'w mii_regs \<Rightarrow> u32 \<Rightarrow> EMAC_CFG_Type \<Rightarrow> 'w emac \<Rightarrow> (EMAC_Status \<times> 'w emac) option" where
  "EMAC_Init hw SystemCoreClock cfg e = do {
     let e = emac_reset SystemCoreClock e;
     let e = e_upd (\<lambda>r. r\<lparr>SUPP := 0\<rparr>) (e\<lparr>emac_w := emac_delay_ms hw 100 (emac_w e)\<rparr>);
     let (_, w) = write_PHY hw BMCR 0x8000 (emac_w e);
     let w = phy_poll hw 500 10 BMCR (\<lambda>v. v AND 0x8800 = 0) w;
     let (id1, w) = read_PHY hw IDR1 w;
     let (id2, w) = read_PHY hw IDR2 w;
     let e = e\<lparr>emac_w := w\<rparr>;
     let phyid = push_bit 16 id1 OR (id2 AND 0xFFF0);
     (if phyid \<noteq> EMAC_DP83848C_ID \<and> phyid \<noteq> EMAC_LAN8720_ID then Some (EMAC_SUCCESS, e)
      else do {
        let (status, e) = EMAC_SetPHYMode hw (Mode cfg) (e\<lparr>detectedPhy := phyid\<rparr>);
        e \<leftarrow> setEmacAddr (pbEMAC_Addr cfg) e;
        Some (status, emac_start (tx_descr_init (rx_descr_init e)))
      })
   }"

definition EMAC_DeInit :: "'w emac \<Rightarrow> 'w emac" where
  "EMAC_DeInit e = (e_upd (\<lambda>r. r\<lparr>IntEnable := 0, IntClear := 0xFF OR (0x1000 OR 0x2000)\<rparr>) e)
     \<lparr>emac_sc := CLKPWR_ConfigPPWR 0x40000000 DISABLE (emac_sc e)\<rparr>"

section \<open>Filters\<close>

text \<open>The checksum of the source, four bits of the frame at a time.\<close>

definition crc_nibble :: "u32 \<Rightarrow> u8 \<Rightarrow> u32" where
  "crc_nibble crc byte =
     (let q3 = (if (drop_bit 28 crc XOR ucast (drop_bit 3 byte)) AND 1 \<noteq> 0 then 0x04C11DB7 else 0);
          q2 = (if (drop_bit 29 crc XOR ucast (drop_bit 2 byte)) AND 1 \<noteq> 0 then 0x09823B6E else 0);
          q1 = (if (drop_bit 30 crc XOR ucast (drop_bit 1 byte)) AND 1 \<noteq> 0 then 0x130476DC else 0);
          q0 = (if (drop_bit 31 crc XOR ucast byte) AND 1 \<noteq> 0 then 0x2608EDB8 else 0)
      in push_bit 4 crc XOR q3 XOR q2 XOR q1 XOR q0)"

definition EMAC_CRCCalc :: "u8 list \<Rightarrow> nat \<Rightarrow> u32 option" where
  "EMAC_CRCCalc frame_no_fcs frame_len = (if length frame_no_fcs < frame_len then None
     else Some (fold (\<lambda>b crc. crc_nibble (crc_nibble crc b) (drop_bit 4 b)) (take frame_len frame_no_fcs) 0xFFFFFFFF))"

definition EMAC_SetHashFilter :: "u8 list \<Rightarrow> FunctionalState \<Rightarrow> 'w emac \<Rightarrow> 'w emac option" where
  "EMAC_SetHashFilter dst NewState e = do {
     c \<leftarrow> EMAC_CRCCalc dst 6;
     let crc = drop_bit 23 c AND 0x3F;
     let set = (\<lambda>v tmp. if NewState = ENABLE then v OR push_bit (unat tmp) 1 else v AND NOT (push_bit (unat (tmp :: u32)) (1 :: u32)));
     let e = (if crc > 31 then e_upd (\<lambda>r. r\<lparr>HashFilterH := set (HashFilterH r) (crc - 32)\<rparr>) e
              else e_upd (\<lambda>r. r\<lparr>HashFilterL := set (HashFilterL r) crc\<rparr>) e);
     Some (e_upd (\<lambda>r. r\<lparr>Command := Command r AND NOT 0x80\<rparr>) e)
   }"

definition EMAC_SetFilterMode :: "u32 \<Rightarrow> FunctionalState \<Rightarrow> 'w emac \<Rightarrow> 'w emac" where
  "EMAC_SetFilterMode m st e = e_upd (\<lambda>r. r\<lparr>RxFilterCtrl := if st = ENABLE then RxFilterCtrl r OR m else RxFilterCtrl r AND NOT m\<rparr>) e"

definition EMAC_GetWoLStatus :: "u32 \<Rightarrow> 'w emac \<Rightarrow> bool \<times> 'w emac" where
  "EMAC_GetWoLStatus m e = (if RxFilterWoLStatus (LPC_EMAC e) AND m \<noteq> 0 then (True, e_upd (\<lambda>r. r\<lparr>RxFilterWoLClear := m\<rparr>) e) else (False, e))"

section \<open>Packets\<close>

text \<open>The place of an address in the buffers.\<close>

definition buf_at :: "u32 \<Rightarrow> nat" where
  "buf_at a = unat (a - RX_BUF_BASE)"

text \<open>Bytes copied to a place in the buffers, and from it; outside the buffers the access fails.\<close>

definition put_bytes :: "nat \<Rightarrow> u8 list \<Rightarrow> u8 list \<Rightarrow> u8 list option" where
  "put_bytes k bs buf = (if k + length bs \<le> length buf then Some (take k buf @ bs @ drop (k + length bs) buf) else None)"

definition get_bytes :: "nat \<Rightarrow> nat \<Rightarrow> u8 list \<Rightarrow> u8 list option" where
  "get_bytes k n buf = (if k + n \<le> length buf then Some (take n (drop k buf)) else None)"

text \<open>The number of bytes that are copied as words.\<close>

definition word_bytes :: "u32 \<Rightarrow> nat" where
  "word_bytes len = 4 * unat (drop_bit 2 (len + 3))"

definition EMAC_WritePacketBuffer :: "EMAC_PACKETBUF_Type \<Rightarrow> 'w emac \<Rightarrow> 'w emac option" where
  "EMAC_WritePacketBuffer p e = do {
     let idx = unat (TxProduceIndex (LPC_EMAC e));
     desc \<leftarrow> rd (TX_DESC e) idx;
     src \<leftarrow> pbDataBuf p;
     bs \<leftarrow> get_bytes 0 (word_bytes (ulDataLen p)) src;
     buf \<leftarrow> put_bytes (buf_at (Packet desc)) bs (emac_buf e);
     Some (e\<lparr>emac_buf := buf, TX_DESC := (TX_DESC e)[idx := desc\<lparr>Ctrl := (ulDataLen p - 1) OR (EMAC_TCTRL_INT OR EMAC_TCTRL_LAST)\<rparr>]\<rparr>)
   }"

definition EMAC_ReadPacketBuffer :: "EMAC_PACKETBUF_Type \<Rightarrow> 'w emac \<Rightarrow> EMAC_PACKETBUF_Type option" where
  "EMAC_ReadPacketBuffer p e = do {
     desc \<leftarrow> rd (RX_DESC e) (unat (RxConsumeIndex (LPC_EMAC e)));
     (case pbDataBuf p of
        None \<Rightarrow> Some p
      | Some d \<Rightarrow> do {
          bs \<leftarrow> get_bytes (buf_at (Packet desc)) (word_bytes (ulDataLen p)) (emac_buf e);
          d \<leftarrow> put_bytes 0 bs d;
          Some (p\<lparr>pbDataBuf := Some d\<rparr>)
        })
   }"

definition EMAC_CheckReceiveIndex :: "'w emac \<Rightarrow> bool" where
  "EMAC_CheckReceiveIndex e \<longleftrightarrow> RxConsumeIndex (LPC_EMAC e) \<noteq> RxProduceIndex (LPC_EMAC e)"

definition EMAC_CheckTransmitIndex :: "'w emac \<Rightarrow> bool" where
  "EMAC_CheckTransmitIndex e \<longleftrightarrow> TxProduceIndex (LPC_EMAC e) \<noteq> TxConsumeIndex (LPC_EMAC e) - 1"

definition EMAC_CheckReceiveDataStatus :: "u32 \<Rightarrow> 'w emac \<Rightarrow> bool option" where
  "EMAC_CheckReceiveDataStatus m e = do {
     st \<leftarrow> rd (RX_STAT e) (unat (RxConsumeIndex (LPC_EMAC e)));
     Some (Info st AND m \<noteq> 0)
   }"

definition EMAC_GetReceiveDataSize :: "'w emac \<Rightarrow> u32 option" where
  "EMAC_GetReceiveDataSize e = do {
     st \<leftarrow> rd (RX_STAT e) (unat (RxConsumeIndex (LPC_EMAC e)));
     Some (Info st AND EMAC_RINFO_SIZE)
   }"

definition EMAC_UpdateRxConsumeIndex :: "'w emac \<Rightarrow> 'w emac" where
  "EMAC_UpdateRxConsumeIndex e = e_upd (\<lambda>r. let idx = RxConsumeIndex r + 1 in
     r\<lparr>RxConsumeIndex := if idx = EMAC_NUM_RX_FRAG then 0 else idx\<rparr>) e"

definition EMAC_UpdateTxProduceIndex :: "'w emac \<Rightarrow> 'w emac" where
  "EMAC_UpdateTxProduceIndex e = e_upd (\<lambda>r. let idx = TxProduceIndex r + 1 in
     r\<lparr>TxProduceIndex := if idx = EMAC_NUM_TX_FRAG then 0 else idx\<rparr>) e"

section \<open>Interrupts\<close>

definition call_back :: "nat \<Rightarrow> 'w emac \<Rightarrow> 'w emac option" where
  "call_back n e = do {
     cb \<leftarrow> rd (pfnIntCbDat e) n;
     (case cb of None \<Rightarrow> Some e | Some f \<Rightarrow> do { w \<leftarrow> f (emac_w e); Some (e\<lparr>emac_w := w\<rparr>) })
   }"

fun call_backs :: "u32 \<Rightarrow> nat list \<Rightarrow> 'w emac \<Rightarrow> 'w emac option" where
  "call_backs st [] e = Some e"
| "call_backs st (n # ns) e = do {
     e \<leftarrow> (if st AND push_bit n 1 \<noteq> 0 then call_back n e else Some e);
     call_backs st ns e
   }"

text \<open>The list holds the values of \<^verbatim>\<open>IntStatus\<close> that the loop reads.\<close>

fun EMAC_StandardIRQHandler :: "u32 list \<Rightarrow> 'w emac \<Rightarrow> 'w emac option" where
  "EMAC_StandardIRQHandler [] e = None"
| "EMAC_StandardIRQHandler (s # ss) e =
     (let st = s AND IntEnable (LPC_EMAC e) in
      if st = 0 then Some e
      else do {
        e \<leftarrow> call_backs st [0..<8] (e_upd (\<lambda>r. r\<lparr>IntClear := st\<rparr>) e);
        e \<leftarrow> (if st AND 0x1000 \<noteq> 0 then call_back 8 e else Some e);
        e \<leftarrow> (if st AND 0x2000 \<noteq> 0 then do {
             cb \<leftarrow> rd (pfnIntCbDat e) 9;
             (if cb \<noteq> None then call_back 9 (e_upd (\<lambda>r. r\<lparr>RxFilterWoLClear := 0x1BF\<rparr>) e) else Some e)
           } else Some e);
        EMAC_StandardIRQHandler ss e
      })"

definition EMAC_SetupIntCBS :: "u32 \<Rightarrow> ('w \<Rightarrow> 'w option) option \<Rightarrow> 'w emac \<Rightarrow> 'w emac option" where
  "EMAC_SetupIntCBS t cb e =
     (let install = (\<lambda>n. do { l \<leftarrow> wr (pfnIntCbDat e) n cb; Some (e\<lparr>pfnIntCbDat := l\<rparr>) })
      in if t \<le> 0x80 then (case List.find (\<lambda>n. t AND push_bit n 1 \<noteq> 0) [0..<8] of None \<Rightarrow> Some e | Some n \<Rightarrow> install n)
         else if t AND 0x1000 \<noteq> 0 then install 8
         else if t AND 0x2000 \<noteq> 0 then install 9
         else Some e)"

definition EMAC_IntCmd :: "u32 \<Rightarrow> FunctionalState \<Rightarrow> 'w emac \<Rightarrow> 'w emac" where
  "EMAC_IntCmd t st e = e_upd (\<lambda>r. r\<lparr>IntEnable := if st = ENABLE then IntEnable r OR t else IntEnable r AND NOT t\<rparr>) e"

definition EMAC_IntGetStatus :: "u32 \<Rightarrow> 'w emac \<Rightarrow> bool \<times> 'w emac" where
  "EMAC_IntGetStatus t e = (if IntStatus (LPC_EMAC e) AND t \<noteq> 0 then (True, e_upd (\<lambda>r. r\<lparr>IntClear := t\<rparr>) e) else (False, e))"

section \<open>The checksum as a division\<close>

text \<open>The serial form: one bit of the frame at a time, the lowest bit of a byte first.\<close>

definition crc_bit :: "bool \<Rightarrow> u32 \<Rightarrow> u32" where
  "crc_bit b crc = push_bit 1 crc XOR (if bit crc 31 \<noteq> b then 0x04C11DB7 else 0)"

definition serial_crc :: "u8 list \<Rightarrow> u32" where
  "serial_crc bs = fold (\<lambda>b. fold (\<lambda>i. crc_bit (bit b i)) [0..<8]) bs 0xFFFFFFFF"

lemma crc_bit_high:
  assumes "i \<in> {29, 30, 31}"
  shows "bit (crc_bit b c) i = bit c (i - 1)"
proof -
  have "\<not> bit (0x04C11DB7 :: u32) 29" "\<not> bit (0x04C11DB7 :: u32) 30" "\<not> bit (0x04C11DB7 :: u32) 31" by simp_all
  moreover have "bit (push_bit 1 c) i = bit c (i - 1)" using assms by (auto simp only: bit_push_bit_iff) auto
  ultimately show ?thesis using assms unfolding crc_bit_def bit_xor_iff by auto
qed

lemma low_bit: "(x :: u32) AND 1 \<noteq> 0 \<longleftrightarrow> bit x 0"
  by (simp add: bit_iff_odd and_one_eq odd_iff_mod_2_eq_one)

lemma crc_nibble_serial:
  "crc_nibble c b = crc_bit (bit b 3) (crc_bit (bit b 2) (crc_bit (bit b 1) (crc_bit (bit b 0) c)))"
proof -
  let ?f = "\<lambda>i. bit c (31 - i) \<noteq> bit b i"
  have t: "bit (crc_bit (bit b 0) c) 31 = bit c 30" "bit (crc_bit (bit b 1) (crc_bit (bit b 0) c)) 31 = bit c 29"
    "bit (crc_bit (bit b 2) (crc_bit (bit b 1) (crc_bit (bit b 0) c))) 31 = bit c 28"
    by (simp_all add: crc_bit_high)
  have q: "(drop_bit (31 - i) c XOR ucast (drop_bit i b)) AND 1 \<noteq> 0 \<longleftrightarrow> ?f i" for i
    unfolding low_bit by (auto simp: bit_simps)
  have x: "push_bit 1 (v XOR w) = push_bit 1 v XOR push_bit 1 (w :: u32)" for v w by (rule push_bit_xor)
  have i: "push_bit 1 (if p then v else 0) = (if p then push_bit 1 v else (0 :: u32))" for p v by simp
  have n: "push_bit 1 0x04C11DB7 = (0x09823B6E :: u32)" "push_bit 1 0x09823B6E = (0x130476DC :: u32)" "push_bit 1 0x130476DC = (0x2608EDB8 :: u32)"
    by simp_all
  have n4: "push_bit 1 (push_bit 1 (push_bit 1 (push_bit 1 c))) = push_bit 4 c" by (simp add: push_bit_eq_mult mult.assoc)
  let ?c1 = "crc_bit (bit b 0) c" let ?c2 = "crc_bit (bit b 1) ?c1" let ?c3 = "crc_bit (bit b 2) ?c2" let ?c4 = "crc_bit (bit b 3) ?c3"
  have "?c1 = push_bit 1 c XOR (if bit c 31 \<noteq> bit b 0 then 0x04C11DB7 else 0)" "?c2 = push_bit 1 ?c1 XOR (if bit c 30 \<noteq> bit b 1 then 0x04C11DB7 else 0)"
    "?c3 = push_bit 1 ?c2 XOR (if bit c 29 \<noteq> bit b 2 then 0x04C11DB7 else 0)" "?c4 = push_bit 1 ?c3 XOR (if bit c 28 \<noteq> bit b 3 then 0x04C11DB7 else 0)"
    using t unfolding crc_bit_def by simp_all
  then have "?c4 = push_bit 4 c XOR (if bit c 31 \<noteq> bit b 0 then 0x2608EDB8 else 0) XOR (if bit c 30 \<noteq> bit b 1 then 0x130476DC else 0) XOR
      (if bit c 29 \<noteq> bit b 2 then 0x09823B6E else 0) XOR (if bit c 28 \<noteq> bit b 3 then 0x04C11DB7 else 0)"
    by (simp only: x i n n4 xor.assoc)
  moreover have "crc_nibble c b = push_bit 4 c XOR (if bit c 28 \<noteq> bit b 3 then 0x04C11DB7 else 0) XOR (if bit c 29 \<noteq> bit b 2 then 0x09823B6E else 0) XOR
      (if bit c 30 \<noteq> bit b 1 then 0x130476DC else 0) XOR (if bit c 31 \<noteq> bit b 0 then 0x2608EDB8 else 0)"
    using q[of 3] q[of 2] q[of 1] q[of 0] by (simp add: crc_nibble_def Let_def)
  ultimately show ?thesis by (simp only: ac_simps)
qed

lemma crc_byte: "crc_nibble (crc_nibble c b) (drop_bit 4 b) = fold (\<lambda>i. crc_bit (bit b i)) [0..<8] c"
proof -
  have "[0..<8] = [0, 1, 2, 3, 4, 5, 6, 7]" by (simp add: upt_rec)
  then show ?thesis by (simp add: crc_nibble_serial bit_drop_bit_eq)
qed

text \<open>
  \<^bold>\<open>C40\<close>. \<^verbatim>\<open>EMAC_CRCCalc\<close>, which takes four bits at a time with precomputed multiples of the polynomial, is
  equivalent to the serial division by \<open>0x04C11DB7\<close> that takes one bit at a time, lowest first,
  on every frame; it only reads beyond a frame that is shorter than the given length.
\<close>

theorem crc_is_serial:
  "EMAC_CRCCalc frame n = (if n \<le> length frame then Some (serial_crc (take n frame)) else None)"
  by (simp add: EMAC_CRCCalc_def serial_crc_def crc_byte)

end
