(* ===== verification/EthernetIf.thy ===== *)
theory EthernetIf
  imports EmacDriver Pins
begin

unbundle bit_operations_syntax

text \<open>
  The network interface of the board: \<^verbatim>\<open>Lib_lwip/port/ethernetif.c\<close>, which moves packets between lwIP and the
  Ethernet driver, and \<^verbatim>\<open>net_init\<close>, \<^verbatim>\<open>net_task\<close> of \<^verbatim>\<open>board.c\<close>. The functions of lwIP are the parameters \<open>lwip\<close>;
  they act on the whole state, as the stack sends packets through the same driver.
\<close>

section \<open>State\<close>

datatype err_t = ERR_OK_lwip | ERR_IF_lwip

text \<open>One buffer of a chain: the length and the memory behind it, which may be longer.\<close>

record pbuf =
  pb_len :: u16
  payload :: "u8 list"

record netif =
  nif_name :: string
  mtu :: u16
  hwaddr_len :: u8
  hwaddr :: "u8 list"
  nif_flags :: u8

record ('w, 'l) net =
  nt_emac :: "'w emac"
  nt_if :: netif
  eth0Netif :: bool
  lastLinkCheck :: u32
  nt_lwip :: 'l

record ('w, 'l) lwip =
  lwip_init :: "('w, 'l) net \<Rightarrow> ('w, 'l) net option"
  netif_add :: "u32 \<Rightarrow> u32 \<Rightarrow> u32 \<Rightarrow> (('w, 'l) net \<Rightarrow> (err_t \<times> ('w, 'l) net) option) \<Rightarrow> ('w, 'l) net \<Rightarrow> (bool \<times> ('w, 'l) net) option"
  netif_set_default :: "('w, 'l) net \<Rightarrow> ('w, 'l) net option"
  netif_set_up :: "('w, 'l) net \<Rightarrow> ('w, 'l) net option"
  netif_set_link_up :: "('w, 'l) net \<Rightarrow> ('w, 'l) net option"
  netif_set_link_down :: "('w, 'l) net \<Rightarrow> ('w, 'l) net option"
  sys_check_timeouts :: "('w, 'l) net \<Rightarrow> ('w, 'l) net option"
  pbuf_alloc :: "u16 \<Rightarrow> 'l \<Rightarrow> pbuf list option \<times> 'l"
  ethernet_input :: "pbuf list \<Rightarrow> ('w, 'l) net \<Rightarrow> ('w, 'l) net option"

abbreviation (input) NETIF_FLAG_BROADCAST :: u8 where "NETIF_FLAG_BROADCAST \<equiv> 0x02"
abbreviation (input) NETIF_FLAG_LINK_UP :: u8 where "NETIF_FLAG_LINK_UP \<equiv> 0x10"
abbreviation (input) NETIF_FLAG_ETHARP :: u8 where "NETIF_FLAG_ETHARP \<equiv> 0x20"
abbreviation (input) LINK_CHECK_MS :: u32 where "LINK_CHECK_MS \<equiv> 2000"

section \<open>Start\<close>

text \<open>The seventh byte of the address is stored behind the array, where the flags are, which are set afterwards.\<close>

definition low_level_init :: "'w mii_regs \<Rightarrow> u32 \<Rightarrow> ('w, 'l) lwip \<Rightarrow> ('w, 'l) net \<Rightarrow> (err_t \<times> ('w, 'l) net) option" where
  "low_level_init hw clk lw n = do {
     let nif = (nt_if n)\<lparr>hwaddr_len := 6, hwaddr := [0x00, 0x1A, 0x00, 0xF1, 0x01, 0x36], nif_flags := 0x9C\<rparr>;
     let nif = nif\<lparr>mtu := 1500, nif_flags := NETIF_FLAG_BROADCAST OR NETIF_FLAG_ETHARP\<rparr>;
     (status, e) \<leftarrow> EMAC_Init hw clk \<lparr>Mode = 0, pbEMAC_Addr = hwaddr nif\<rparr> (nt_emac n);
     let n = n\<lparr>nt_if := nif, nt_emac := e\<rparr>;
     (if status \<noteq> EMAC_SUCCESS \<and> status \<noteq> EMAC_LINK_DOWN then Some (ERR_IF_lwip, n)
      else if status = EMAC_SUCCESS then do { n \<leftarrow> netif_set_link_up lw n; Some (ERR_OK_lwip, n) }
      else Some (ERR_OK_lwip, n))
   }"

definition ethernetif_init :: "'w mii_regs \<Rightarrow> u32 \<Rightarrow> ('w, 'l) lwip \<Rightarrow> ('w, 'l) net \<Rightarrow> (err_t \<times> ('w, 'l) net) option" where
  "ethernetif_init hw clk lw n = low_level_init hw clk lw (n\<lparr>nt_if := (nt_if n)\<lparr>nif_name := ''en''\<rparr>, eth0Netif := True\<rparr>)"

section \<open>Packets\<close>

text \<open>The payloads copied one behind the other: the buffers of the driver, the next place, the length so far.\<close>

fun copy_chain :: "pbuf list \<Rightarrow> nat \<Rightarrow> u32 \<Rightarrow> u8 list \<Rightarrow> (u8 list \<times> u32) option" where
  "copy_chain [] dst sz buf = Some (buf, sz)"
| "copy_chain (q # qs) dst sz buf = do {
     bs \<leftarrow> get_bytes 0 (unat (pb_len q)) (payload q);
     buf \<leftarrow> put_bytes dst bs buf;
     copy_chain qs (dst + unat (pb_len q)) (sz + ucast (pb_len q)) buf
   }"

definition low_level_output :: "'w mii_regs \<Rightarrow> pbuf list \<Rightarrow> 'w emac \<Rightarrow> (err_t \<times> 'w emac) option" where
  "low_level_output hw p e =
     (if \<not> EMAC_CheckTransmitIndex e then Some (ERR_IF_lwip, e)
      else do {
        let idx = unat (TxProduceIndex (LPC_EMAC e));
        desc \<leftarrow> rd (TX_DESC e) idx;
        (buf, sz) \<leftarrow> copy_chain p (buf_at (Packet desc)) 0 (emac_buf e);
        let e = e\<lparr>emac_buf := buf, TX_DESC := (TX_DESC e)[idx := desc\<lparr>Ctrl := (sz - 1) OR (EMAC_TCTRL_INT OR EMAC_TCTRL_LAST)\<rparr>]\<rparr>;
        let e = EMAC_UpdateTxProduceIndex e;
        Some (ERR_OK_lwip, e\<lparr>emac_w := wait_ms hw 1 (emac_w e)\<rparr>)
      })"

text \<open>Each buffer of the chain is filled by a call that reads the received packet from its start.\<close>

fun fill_chain :: "pbuf list \<Rightarrow> 'w emac \<Rightarrow> pbuf list option" where
  "fill_chain [] e = Some []"
| "fill_chain (q # qs) e = do {
     r \<leftarrow> EMAC_ReadPacketBuffer \<lparr>ulDataLen = ucast (pb_len q), pbDataBuf = Some (payload q)\<rparr> e;
     d \<leftarrow> pbDataBuf r;
     qs \<leftarrow> fill_chain qs e;
     Some (q\<lparr>payload := d\<rparr> # qs)
   }"

definition low_level_input :: "('w, 'l) lwip \<Rightarrow> ('w, 'l) net \<Rightarrow> (pbuf list option \<times> ('w, 'l) net) option" where
  "low_level_input lw n =
     (if \<not> EMAC_CheckReceiveIndex (nt_emac n) then Some (None, n)
      else do {
        size \<leftarrow> EMAC_GetReceiveDataSize (nt_emac n);
        let (p, l) = pbuf_alloc lw (ucast size) (nt_lwip n);
        p \<leftarrow> (case p of None \<Rightarrow> Some None | Some qs \<Rightarrow> map_option Some (fill_chain qs (nt_emac n)));
        Some (p, n\<lparr>nt_emac := EMAC_UpdateRxConsumeIndex (nt_emac n), nt_lwip := l\<rparr>)
      })"

partial_function (option) ethernetif_input :: "('w, 'l) lwip \<Rightarrow> ('w, 'l) net \<Rightarrow> ('w, 'l) net option" where
  "ethernetif_input lw n = do {
     (p, n) \<leftarrow> low_level_input lw n;
     (case p of
        None \<Rightarrow> Some n
      | Some qs \<Rightarrow> do { n \<leftarrow> ethernet_input lw qs n; ethernetif_input lw n })
   }"

section \<open>Task\<close>

definition netif_is_link_up :: "('w, 'l) net \<Rightarrow> bool" where
  "netif_is_link_up n \<longleftrightarrow> nif_flags (nt_if n) AND NETIF_FLAG_LINK_UP \<noteq> 0"

text \<open>The clock shows \<open>t1\<close> at the test and \<open>t2\<close> when the time of the check is stored.\<close>

definition check_link :: "'w mii_regs \<Rightarrow> ('w, 'l) lwip \<Rightarrow> u32 \<Rightarrow> u32 \<Rightarrow> ('w, 'l) net \<Rightarrow> ('w, 'l) net option" where
  "check_link hw lw t1 t2 n =
     (if t1 > lastLinkCheck n + LINK_CHECK_MS then do {
        let (up, e) = EMAC_CheckPHYStatus hw EMAC_PHY_STAT_LINK (nt_emac n);
        let n = n\<lparr>lastLinkCheck := t2, nt_emac := e\<rparr>;
        (if \<not> eth0Netif n then None
         else if up = 1 \<and> \<not> netif_is_link_up n then
           netif_set_link_up lw (n\<lparr>nt_emac := snd (EMAC_UpdatePHYStatus hw (nt_emac n))\<rparr>)
         else if up = 0 \<and> netif_is_link_up n then netif_set_link_down lw n
         else Some n)
      }
      else Some n)"

definition ethernetif_poll :: "'w mii_regs \<Rightarrow> ('w, 'l) lwip \<Rightarrow> u32 \<Rightarrow> u32 \<Rightarrow> ('w, 'l) net \<Rightarrow> ('w, 'l) net option" where
  "ethernetif_poll hw lw t1 t2 n = do {
     n \<leftarrow> check_link hw lw t1 t2 n;
     n \<leftarrow> sys_check_timeouts lw n;
     (if \<not> eth0Netif n then None else if netif_is_link_up n then ethernetif_input lw n else Some n)
   }"

definition net_task :: "'w mii_regs \<Rightarrow> ('w, 'l) lwip \<Rightarrow> u32 \<Rightarrow> u32 \<Rightarrow> ('w, 'l) net \<Rightarrow> ('w, 'l) net option" where
  "net_task hw lw t1 t2 n = ethernetif_poll hw lw t1 t2 n"

text \<open>An address from its four bytes.\<close>

definition IP4_ADDR :: "u8 list \<Rightarrow> u32 option" where
  "IP4_ADDR b = (if length b < 4 then None
     else Some (push_bit 24 (ucast (b ! 3)) OR (push_bit 16 (ucast (b ! 2)) OR (push_bit 8 (ucast (b ! 1)) OR ucast (b ! 0)))))"

definition net_init :: "'w mii_regs \<Rightarrow> u32 \<Rightarrow> ('w, 'l) lwip \<Rightarrow> u8 list \<Rightarrow> u8 list \<Rightarrow> u8 list \<Rightarrow> LPC_PINCON_TypeDef \<Rightarrow> ('w, 'l) net \<Rightarrow>
    (int \<times> LPC_PINCON_TypeDef \<times> ('w, 'l) net) option" where
  "net_init hw clk lw ip netmaskb gateway pc n = do {
     pc \<leftarrow> emac_pinConfig pc;
     n \<leftarrow> lwip_init lw n;
     ipaddr \<leftarrow> IP4_ADDR ip;
     gw \<leftarrow> IP4_ADDR gateway;
     netmask \<leftarrow> IP4_ADDR netmaskb;
     (ok, n) \<leftarrow> netif_add lw ipaddr netmask gw (ethernetif_init hw clk lw) n;
     (if \<not> ok then Some (-1, pc, n)
      else do {
        n \<leftarrow> netif_set_default lw n;
        n \<leftarrow> netif_set_up lw n;
        Some (0, pc, n)
      })
   }"

section \<open>The transmit ring\<close>

lemma put_bytes_Some:
  "k + length bs \<le> length buf \<Longrightarrow> put_bytes k bs buf = Some (take k buf @ bs @ drop (k + length bs) buf)"
  by (simp add: put_bytes_def)

lemma get_put_bytes:
  assumes "k + length bs \<le> length buf"
  shows "take (length bs) (drop k (take k buf @ bs @ drop (k + length bs) buf)) = bs"
    "j + m \<le> k \<or> k + length bs \<le> j \<Longrightarrow> take m (drop j (take k buf @ bs @ drop (k + length bs) buf)) = take m (drop j buf)"
proof -
  show "take (length bs) (drop k (take k buf @ bs @ drop (k + length bs) buf)) = bs" using assms by simp
  assume "j + m \<le> k \<or> k + length bs \<le> j"
  then show "take m (drop j (take k buf @ bs @ drop (k + length bs) buf)) = take m (drop j buf)"
  proof
    assume "j + m \<le> k"
    then show ?thesis using assms by (simp only: take_drop) (simp add: min_absorb1)
  next
    assume j: "k + length bs \<le> j"
    then have "drop j (take k buf @ bs @ drop (k + length bs) buf) = drop j buf" using assms
      by (simp add: drop_append min_absorb2 add.commute)
    then show ?thesis by simp
  qed
qed

text \<open>The bytes of a chain, each buffer with its length.\<close>

definition chain_bytes :: "pbuf list \<Rightarrow> u8 list" where
  "chain_bytes p = concat (map (\<lambda>q. take (unat (pb_len q)) (payload q)) p)"

definition chain_ok :: "pbuf list \<Rightarrow> bool" where
  "chain_ok p \<longleftrightarrow> (\<forall>q \<in> set p. unat (pb_len q) \<le> length (payload q))"

lemma copy_chain_ok:
  assumes "chain_ok p" "dst + length (chain_bytes p) \<le> length buf"
  shows "copy_chain p dst sz buf =
    Some (take dst buf @ chain_bytes p @ drop (dst + length (chain_bytes p)) buf, sz + word_of_nat (length (chain_bytes p)))"
  using assms
proof (induction p arbitrary: dst sz buf)
  case Nil
  then show ?case by (simp add: chain_bytes_def)
next
  case (Cons q qs)
  let ?b = "take (unat (pb_len q)) (payload q)"
  let ?n = "unat (pb_len q)"
  have l: "length ?b = ?n" "chain_bytes (q # qs) = ?b @ chain_bytes qs" "chain_ok qs" using Cons(2) by (simp_all add: chain_ok_def chain_bytes_def)
  have g: "get_bytes 0 ?n (payload q) = Some ?b" using Cons(2) by (simp add: get_bytes_def chain_ok_def)
  let ?buf = "take dst buf @ ?b @ drop (dst + ?n) buf"
  have p: "put_bytes dst ?b buf = Some ?buf" using Cons(3) l by (simp add: put_bytes_def)
  have "dst + ?n + length (chain_bytes qs) \<le> length ?buf" using Cons(3) l by simp
  note ih = Cons(1)[OF l(3) this, of "sz + ucast (pb_len q)"]
  have t: "take (dst + ?n) ?buf = take dst buf @ ?b" using Cons(3) l by simp
  have d: "drop (dst + ?n + length (chain_bytes qs)) ?buf = drop (dst + length (chain_bytes (q # qs))) buf"
    using Cons(3) l by (simp add: add.assoc add.commute add.left_commute)
  have e: "sz + ucast (pb_len q) + word_of_nat (length (chain_bytes qs)) = sz + word_of_nat (length (chain_bytes (q # qs)))"
    unfolding l(2) length_append l(1) by (simp add: add.assoc)
  have "take dst buf @ chain_bytes (q # qs) = (take dst buf @ ?b) @ chain_bytes qs" using l(2) by simp
  then show ?case using ih unfolding t d e by (simp add: g p)
qed

text \<open>
  The ring holds the frames from the consume to the produce index, each with the size its descriptor
  says; the hardware sends the one at the consume index.
\<close>

definition tx_wf :: "'w emac \<Rightarrow> bool" where
  "tx_wf e \<longleftrightarrow> map Packet (TX_DESC e) = map TX_BUF [0..<3] \<and> length (emac_buf e) = 10752 \<and>
     unat (TxProduceIndex (LPC_EMAC e)) < 3 \<and> unat (TxConsumeIndex (LPC_EMAC e)) < 3 \<and>
     (\<forall>i < 3. unat (Ctrl (TX_DESC e ! i) AND 0x7FF) < 1536)"

definition tx_frame :: "'w emac \<Rightarrow> nat \<Rightarrow> u8 list" where
  "tx_frame e i = take (unat (Ctrl (TX_DESC e ! i) AND 0x7FF) + 1) (drop (buf_at (TX_BUF i)) (emac_buf e))"

definition tx_queue :: "'w emac \<Rightarrow> u8 list list" where
  "tx_queue e = ring_list 3 (map (tx_frame e) [0..<3]) (unat (TxProduceIndex (LPC_EMAC e))) (unat (TxConsumeIndex (LPC_EMAC e)))"

definition tx_sent :: "'w emac \<Rightarrow> 'w emac" where
  "tx_sent e = e_upd (\<lambda>r. r\<lparr>TxConsumeIndex := if TxConsumeIndex r = 2 then 0 else TxConsumeIndex r + 1\<rparr>) e"

lemma less3_cases: "(i :: nat) < 3 \<longleftrightarrow> i = 0 \<or> i = 1 \<or> i = 2"
  by auto

lemma tx_buf_at: "i < 3 \<Longrightarrow> buf_at (TX_BUF i) = 6144 + 1536 * i"
  by (auto simp: less3_cases buf_at_def TX_BUF_def)

lemma word_less3:
  assumes "unat (c :: u32) < 3"
  shows "c = 0 \<or> c = 1 \<or> c = 2"
  using assms unfolding less3_cases by (auto simp: word_unat_eq_iff)

lemma tx_next:
  assumes "unat (x :: u32) < 3"
  shows "unat (if x + 1 = 3 then 0 else x + 1) = ring_next 3 (unat x)" "unat (if x = 2 then 0 else x + 1) = ring_next 3 (unat x)"
  using word_less3[OF assms] by (auto simp: ring_next_def)

lemma tx_full_test:
  assumes "unat (p :: u32) < 3" "unat (c :: u32) < 3"
  shows "p = c - 1 \<longleftrightarrow> ring_next 3 (unat p) = unat c \<and> unat c \<noteq> 0"
  using word_less3[OF assms(1)] word_less3[OF assms(2)] by (elim disjE) (simp_all add: ring_next_def)

lemma tx_ctrl:
  assumes "0 < n" "n \<le> 1536"
  shows "unat (((word_of_nat n - 1 :: u32) OR (EMAC_TCTRL_INT OR EMAC_TCTRL_LAST)) AND 0x7FF) + 1 = n"
proof -
  have m: "(0x7FF :: u32) = mask 11" by (simp add: mask_eq_exp_minus_1)
  have c: "(0xC0000000 :: u32) AND mask 11 = 0" by (simp add: mask_eq_exp_minus_1)
  have s: "word_of_nat n - 1 = (word_of_nat (n - 1) :: u32)" using assms(1) by (simp add: of_nat_diff)
  have u: "unat (word_of_nat (n - 1) :: u32) = n - 1" using assms by (simp only: unat_of_nat) simp
  have "((word_of_nat (n - 1) :: u32) OR 0xC0000000) AND mask 11 = (word_of_nat (n - 1) AND mask 11) OR (0xC0000000 AND mask 11)"
    by (rule bit.conj_disj_distrib2)
  also have "\<dots> = take_bit 11 (word_of_nat (n - 1))" unfolding c by (simp add: take_bit_eq_mask)
  finally have "unat (((word_of_nat (n - 1) :: u32) OR 0xC0000000) AND mask 11) = take_bit 11 (n - 1)"
    by (simp only: unsigned_take_bit_eq u)
  then show ?thesis unfolding s m using assms by (simp add: take_bit_nat_eq_self)
qed

lemma length_tx: "tx_wf e \<Longrightarrow> length (TX_DESC e) = 3"
  by (drule tx_wf_def[THEN iffD1, THEN conjunct1, THEN arg_cong[of _ _ length]]) simp

lemma tx_packet: "tx_wf e \<Longrightarrow> i < 3 \<Longrightarrow> Packet (TX_DESC e ! i) = TX_BUF i"
proof -
  assume w: "tx_wf e" and i: "i < 3"
  then have "map Packet (TX_DESC e) ! i = map TX_BUF [0..<3] ! i" by (simp add: tx_wf_def)
  then show ?thesis using length_tx[OF w] i by (auto simp: less3_cases)
qed

text \<open>A packet put in the slot at the produce index leaves the other slots alone.\<close>

lemma output_stored:
  assumes "tx_wf e" "chain_ok p" "0 < length (chain_bytes p)" "length (chain_bytes p) \<le> 1536" "EMAC_CheckTransmitIndex e"
  shows "\<exists>e'. low_level_output hw p e = Some (ERR_OK_lwip, e') \<and> tx_wf e' \<and>
    unat (TxProduceIndex (LPC_EMAC e')) = ring_next 3 (unat (TxProduceIndex (LPC_EMAC e))) \<and>
    TxConsumeIndex (LPC_EMAC e') = TxConsumeIndex (LPC_EMAC e) \<and>
    map (tx_frame e') [0..<3] = (map (tx_frame e) [0..<3])[unat (TxProduceIndex (LPC_EMAC e)) := chain_bytes p]"
proof -
  let ?i = "unat (TxProduceIndex (LPC_EMAC e))" and ?n = "length (chain_bytes p)"
  let ?d = "TX_DESC e ! ?i"
  have i: "?i < 3" "length (emac_buf e) = 10752" "length (TX_DESC e) = 3" using assms(1) length_tx by (auto simp: tx_wf_def)
  have a: "buf_at (Packet ?d) = 6144 + 1536 * ?i" using tx_packet[OF assms(1) i(1)] tx_buf_at[OF i(1)] by simp
  have fit: "6144 + 1536 * ?i + ?n \<le> length (emac_buf e)" using i assms(4) by simp
  let ?k = "6144 + 1536 * ?i"
  let ?buf = "take ?k (emac_buf e) @ chain_bytes p @ drop (?k + ?n) (emac_buf e)"
  let ?desc = "(TX_DESC e)[?i := ?d\<lparr>Ctrl := (word_of_nat ?n - 1) OR (EMAC_TCTRL_INT OR EMAC_TCTRL_LAST)\<rparr>]"
  let ?e = "(EMAC_UpdateTxProduceIndex (e\<lparr>emac_buf := ?buf, TX_DESC := ?desc\<rparr>))\<lparr>emac_w := wait_ms hw 1 (emac_w e)\<rparr>"
  define e' where "e' = ?e"
  have c: "copy_chain p ?k 0 (emac_buf e) = Some (?buf, word_of_nat ?n)" using copy_chain_ok[OF assms(2) fit, of 0] by simp
  have o: "low_level_output hw p e = Some (ERR_OK_lwip, e')"
    using assms(5) i(1,3) c by (simp add: low_level_output_def a EMAC_UpdateTxProduceIndex_def e_upd_def Let_def e'_def)
  have f: "LPC_EMAC e' = (LPC_EMAC e)\<lparr>TxProduceIndex := if TxProduceIndex (LPC_EMAC e) + 1 = 3 then 0 else TxProduceIndex (LPC_EMAC e) + 1\<rparr>"
    "TX_DESC e' = ?desc" "emac_buf e' = ?buf" by (simp_all add: EMAC_UpdateTxProduceIndex_def e_upd_def Let_def e'_def)
  have pr: "unat (TxProduceIndex (LPC_EMAC e')) = ring_next 3 ?i" unfolding f(1) using tx_next(1)[OF i(1)] by simp
  have "map Packet ?desc = map Packet (TX_DESC e)" using i(1,3) by (simp add: map_update list_update_same_conv)
  moreover have "unat (Ctrl (?desc ! j) AND 0x7FF) < 1536" if "j < 3" for j
    using assms(1,4) tx_ctrl[OF assms(3,4)] that i(1,3) by (cases "j = ?i") (simp_all add: tx_wf_def)
  ultimately have w: "tx_wf e'" using assms(1) fit pr ring_next_less[OF i(1)] unfolding tx_wf_def f(2,3) by (simp add: f(1))
  have "map (tx_frame e') [0..<3] = (map (tx_frame e) [0..<3])[?i := chain_bytes p]"
  proof (rule nth_equalityI)
    fix j assume "j < length (map (tx_frame e') [0..<3])"
    then have j: "j < 3" by simp
    show "map (tx_frame e') [0..<3] ! j = (map (tx_frame e) [0..<3])[?i := chain_bytes p] ! j"
    proof (cases "j = ?i")
      case True
      then show ?thesis using j i get_put_bytes(1)[OF fit] tx_ctrl[OF assms(3,4)]
        by (simp add: tx_frame_def f tx_buf_at del: drop_append take_append)
    next
      case False
      have "unat (Ctrl (TX_DESC e ! j) AND 0x7FF) + 1 \<le> 1536" using assms(1) j by (auto simp: tx_wf_def Suc_le_eq)
      moreover have "j < ?i \<or> ?i < j" using False by linarith
      ultimately have d: "6144 + 1536 * j + (unat (Ctrl (TX_DESC e ! j) AND 0x7FF) + 1) \<le> ?k \<or> ?k + ?n \<le> 6144 + 1536 * j"
        using assms(4) by linarith
      show ?thesis using j i False get_put_bytes(2)[OF fit d]
        by (simp add: tx_frame_def f tx_buf_at del: drop_append take_append)
    qed
  qed simp
  then show ?thesis using o w pr f(1) by (intro exI[of _ e']) simp
qed

lemma sent_wf:
  assumes "tx_wf e"
  shows "tx_wf (tx_sent e)" "map (tx_frame (tx_sent e)) [0..<3] = map (tx_frame e) [0..<3]"
    "TxProduceIndex (LPC_EMAC (tx_sent e)) = TxProduceIndex (LPC_EMAC e)"
    "unat (TxConsumeIndex (LPC_EMAC (tx_sent e))) = ring_next 3 (unat (TxConsumeIndex (LPC_EMAC e)))"
proof -
  let ?c = "TxConsumeIndex (LPC_EMAC e)"
  have c: "unat ?c < 3" using assms by (simp add: tx_wf_def)
  have f: "LPC_EMAC (tx_sent e) = (LPC_EMAC e)\<lparr>TxConsumeIndex := if ?c = 2 then 0 else ?c + 1\<rparr>" "TX_DESC (tx_sent e) = TX_DESC e"
    "emac_buf (tx_sent e) = emac_buf e" by (simp_all add: tx_sent_def e_upd_def)
  show n: "unat (TxConsumeIndex (LPC_EMAC (tx_sent e))) = ring_next 3 (unat ?c)" unfolding f(1) using tx_next(2)[OF c] by simp
  show "TxProduceIndex (LPC_EMAC (tx_sent e)) = TxProduceIndex (LPC_EMAC e)" unfolding f(1) by simp
  then show "tx_wf (tx_sent e)" using assms n ring_next_less[OF c] unfolding tx_wf_def f(2,3) by simp
  show "map (tx_frame (tx_sent e)) [0..<3] = map (tx_frame e) [0..<3]" by (simp add: tx_frame_def f)
qed

text \<open>
  \<^bold>\<open>C17\<close>. The transmit ring of three descriptors refines a queue of at most two frames: \<^verbatim>\<open>low_level_output\<close> appends
  the bytes of the chain to the frames that wait, the hardware takes them in order and unchanged, and a full ring
  refuses the packet and stays as it is, except when the consume index is 0: there the full test of
  \<^verbatim>\<open>EMAC_CheckTransmitIndex\<close> fails, the packet is accepted, and it and the two frames that wait are lost.
\<close>

theorem tx_ring_refines:
  assumes "tx_wf e" "chain_ok p" "0 < length (chain_bytes p)" "length (chain_bytes p) \<le> 1536"
  shows "(\<exists>r e'. low_level_output hw p e = Some (r, e') \<and> tx_wf e' \<and>
      (if length (tx_queue e) < 2 then r = ERR_OK_lwip \<and> tx_queue e' = tx_queue e @ [chain_bytes p]
       else if TxConsumeIndex (LPC_EMAC e) \<noteq> 0 then r = ERR_IF_lwip \<and> e' = e
       else r = ERR_OK_lwip \<and> tx_queue e' = [])) \<and>
    tx_wf (tx_sent e) \<and> (tx_queue e \<noteq> [] \<longrightarrow> tx_queue (tx_sent e) = tl (tx_queue e))"
proof -
  let ?p = "unat (TxProduceIndex (LPC_EMAC e))" and ?c = "unat (TxConsumeIndex (LPC_EMAC e))"
  have i: "?p < 3" "?c < 3" using assms(1) by (simp_all add: tx_wf_def)
  have full: "length (tx_queue e) < 2 \<longleftrightarrow> ring_next 3 ?p \<noteq> ?c"
  proof -
    have l: "length (tx_queue e) = ring_len 3 ?p ?c" unfolding tx_queue_def by (rule length_ring_list)
    have "ring_len 3 ?p ?c = 2 \<longleftrightarrow> ?c = ring_next 3 ?p" using ring_full_iff[OF i] by simp
    moreover have "ring_len 3 ?p ?c < 3" by (rule ring_len_less[OF i])
    ultimately show ?thesis unfolding l by linarith
  qed
  have test: "EMAC_CheckTransmitIndex e \<longleftrightarrow> \<not> (ring_next 3 ?p = ?c \<and> ?c \<noteq> 0)"
    using tx_full_test[OF i] by (simp add: EMAC_CheckTransmitIndex_def)
  have z: "(TxConsumeIndex (LPC_EMAC e) \<noteq> 0) = (?c \<noteq> 0)" using word_unat_eq_iff[of "TxConsumeIndex (LPC_EMAC e)" 0] by simp
  have o: "\<exists>r e'. low_level_output hw p e = Some (r, e') \<and> tx_wf e' \<and>
      (if length (tx_queue e) < 2 then r = ERR_OK_lwip \<and> tx_queue e' = tx_queue e @ [chain_bytes p]
       else if TxConsumeIndex (LPC_EMAC e) \<noteq> 0 then r = ERR_IF_lwip \<and> e' = e
       else r = ERR_OK_lwip \<and> tx_queue e' = [])"
  proof (cases "EMAC_CheckTransmitIndex e")
    case False
    then show ?thesis using test full z assms(1) by (simp add: low_level_output_def)
  next
    case True
    obtain e' where e': "low_level_output hw p e = Some (ERR_OK_lwip, e')" "tx_wf e'"
      "unat (TxProduceIndex (LPC_EMAC e')) = ring_next 3 ?p" "TxConsumeIndex (LPC_EMAC e') = TxConsumeIndex (LPC_EMAC e)"
      "map (tx_frame e') [0..<3] = (map (tx_frame e) [0..<3])[?p := chain_bytes p]" using output_stored[OF assms True] by blast
    have "ring_next 3 ?p \<noteq> ?c \<Longrightarrow> tx_queue e' = tx_queue e @ [chain_bytes p]"
      unfolding tx_queue_def e'(3-5) by (rule ring_list_put[OF i]) simp_all
    moreover have "ring_next 3 ?p = ?c \<Longrightarrow> tx_queue e' = []"
      unfolding tx_queue_def e'(3-5) using ring_list_Nil_iff[OF ring_next_less[OF i(1)] i(2)] by simp
    ultimately show ?thesis using e'(1,2) True full test z by (intro exI[of _ ERR_OK_lwip] exI[of _ e']) auto
  qed
  have "tx_queue e \<noteq> [] \<Longrightarrow> tx_queue (tx_sent e) = tl (tx_queue e)"
    unfolding tx_queue_def sent_wf[OF assms(1)] by (metis list.sel(3) ring_list_get[OF i] ring_list_Nil_iff[OF i])
  then show ?thesis using o sent_wf(1)[OF assms(1)] by blast
qed

definition emac_regs0 :: LPC_EMAC_TypeDef where
  "emac_regs0 = \<lparr>MAC1 = 0, MAC2 = 0, IPGT = 0, IPGR = 0, CLRT = 0, MAXF = 0, SUPP = 0, MCFG = 0, SA0 = 0, SA1 = 0, SA2 = 0, Command = 0,
     RxDescriptor = 0, RxStatus = 0, RxDescriptorNumber = 0, RxProduceIndex = 0, RxConsumeIndex = 0, TxDescriptor = 0, TxStatus = 0,
     TxDescriptorNumber = 0, TxProduceIndex = 0, TxConsumeIndex = 0, RxFilterCtrl = 0, RxFilterWoLStatus = 0, RxFilterWoLClear = 0,
     HashFilterL = 0, HashFilterH = 0, IntStatus = 0, IntEnable = 0, IntClear = 0\<rparr>"

definition emac_blank :: "unit emac" where
  "emac_blank = \<lparr>LPC_EMAC = emac_regs0, RX_DESC = [], RX_STAT = [], TX_DESC = [], TX_STAT = [], emac_buf = replicate 10752 0,
     pfnIntCbDat = replicate 10 None, detectedPhy = 0, emac_sc = \<lparr>PCLKSEL0 = 0, PCLKSEL1 = 0, PCONP = 0\<rparr>, emac_w = ()\<rparr>"

definition phy_idle :: "unit mii_regs" where
  "phy_idle = \<lparr>wr_MADR = (\<lambda>_ w. w), wr_MWTD = (\<lambda>_ w. w), wr_MCMD = (\<lambda>_ w. w), rd_MIND = (\<lambda>w. (0, w)), rd_MRDD = (\<lambda>w. (0, w)),
     wait_ms = (\<lambda>_ w. w)\<rparr>"

text \<open>A ring that is full with the consume index 0.\<close>

definition emac_full :: "unit emac" where
  "emac_full = e_upd (\<lambda>r. r\<lparr>TxProduceIndex := 2\<rparr>) (tx_descr_init emac_blank)"

theorem tx_ring_refines_witness:
  "\<exists>e'. low_level_output phy_idle [\<lparr>pb_len = 2, payload = [1, 2]\<rparr>] emac_full = Some (ERR_OK_lwip, e') \<and>
    length (tx_queue emac_full) = 2 \<and> tx_queue e' = []"
proof -
  let ?p = "[\<lparr>pb_len = 2, payload = [1, 2]\<rparr>]"
  have d: "[0..<3] = [0, 1, 2]" by (simp add: upt_rec)
  have f: "TxProduceIndex (LPC_EMAC emac_full) = 2" "TxConsumeIndex (LPC_EMAC emac_full) = 0"
    "TX_DESC emac_full = map (\<lambda>i. \<lparr>Packet = TX_BUF i, Ctrl = 0\<rparr>) [0..<3]" "length (emac_buf emac_full) = 10752"
    by (simp_all add: emac_full_def e_upd_def tx_descr_init_def emac_blank_def emac_regs0_def del: replicate.simps)
  have w: "tx_wf emac_full" unfolding tx_wf_def f by (auto simp: d less3_cases)
  have q: "length (tx_queue emac_full) = 2" unfolding tx_queue_def f by (simp add: ring_len_def)
  have c: "chain_ok ?p" "chain_bytes ?p = [1, 2]" by (simp_all add: chain_ok_def chain_bytes_def)
  show ?thesis using tx_ring_refines[OF w c(1), of phy_idle] c(2) q f(2) by auto
qed

section \<open>Reception\<close>

text \<open>The frames that were received, each with the size its status word says.\<close>

definition rx_wf :: "'w emac \<Rightarrow> bool" where
  "rx_wf e \<longleftrightarrow> map Packet (RX_DESC e) = map RX_BUF [0..<4] \<and> length (RX_STAT e) = 4 \<and> length (emac_buf e) = 10752 \<and>
     unat (RxProduceIndex (LPC_EMAC e)) < 4 \<and> unat (RxConsumeIndex (LPC_EMAC e)) < 4"

definition rx_frame :: "'w emac \<Rightarrow> nat \<Rightarrow> u8 list" where
  "rx_frame e i = take (unat (Info (RX_STAT e ! i) AND 0x7FF)) (drop (1536 * i) (emac_buf e))"

definition rx_queue :: "'w emac \<Rightarrow> u8 list list" where
  "rx_queue e = ring_list 4 (map (rx_frame e) [0..<4]) (unat (RxProduceIndex (LPC_EMAC e))) (unat (RxConsumeIndex (LPC_EMAC e)))"

lemma less4_cases: "(i :: nat) < 4 \<longleftrightarrow> i = 0 \<or> i = 1 \<or> i = 2 \<or> i = 3"
  by auto

lemma rx_packet:
  assumes "rx_wf e" "i < 4"
  shows "length (RX_DESC e) = 4" "buf_at (Packet (RX_DESC e ! i)) = 1536 * i"
proof -
  have m: "map Packet (RX_DESC e) = map RX_BUF [0..<4]" using assms(1) by (simp add: rx_wf_def)
  show l: "length (RX_DESC e) = 4" using arg_cong[OF m, of length] by simp
  have "Packet (RX_DESC e ! i) = RX_BUF i" using arg_cong[OF m, of "\<lambda>xs. xs ! i"] l assms(2) by (auto simp: less4_cases)
  then show "buf_at (Packet (RX_DESC e ! i)) = 1536 * i" using assms(2) by (auto simp: less4_cases buf_at_def RX_BUF_def)
qed

lemma unat_len32: "unat (ucast (x :: u16) :: u32) = unat x"
  by (simp add: unsigned_ucast_eq take_bit_nat_eq_self less_trans[OF unat_u16_lt])

lemma word_bytes_bounds:
  assumes "unat n \<le> 2047"
  shows "unat n \<le> word_bytes n" "word_bytes n \<le> 2052"
proof -
  have "unat (n + 3) = unat n + 3" using assms by (subst unat_add_lem[THEN iffD1]) simp_all
  then have "word_bytes n = 4 * ((unat n + 3) div 4)" unfolding word_bytes_def unat_drop_bit_eq by (simp add: drop_bit_eq_div)
  then show "unat n \<le> word_bytes n" "word_bytes n \<le> 2052" using assms by linarith+
qed

text \<open>
  Every buffer of the chain gets the start of the packet, so the packet arrives unchanged when one buffer holds it
  and its start is repeated when there are more.
\<close>

lemma fill_chain_ok:
  assumes "rx_wf e" "\<forall>q \<in> set qs. unat (pb_len q) \<le> 2047 \<and> word_bytes (ucast (pb_len q)) \<le> length (payload q)"
  shows "\<exists>ps. fill_chain qs e = Some ps \<and>
    chain_bytes ps = concat (map (\<lambda>q. take (unat (pb_len q)) (drop (1536 * unat (RxConsumeIndex (LPC_EMAC e))) (emac_buf e))) qs)"
  using assms(2)
proof (induction qs)
  case Nil
  then show ?case by (simp add: chain_bytes_def)
next
  case (Cons q qs)
  let ?i = "unat (RxConsumeIndex (LPC_EMAC e))" and ?m = "word_bytes (ucast (pb_len q))"
  have i: "?i < 4" "length (emac_buf e) = 10752" using assms(1) by (simp_all add: rx_wf_def)
  have m: "unat (pb_len q) \<le> ?m" "?m \<le> 2052" using word_bytes_bounds[of "ucast (pb_len q)"] Cons(2) by (simp_all add: unat_len32)
  let ?bs = "take ?m (drop (1536 * ?i) (emac_buf e))"
  have fit: "1536 * ?i + ?m \<le> length (emac_buf e)" using i m(2) by simp
  then have l: "length ?bs = ?m" by simp
  obtain ps where ps: "fill_chain qs e = Some ps"
    "chain_bytes ps = concat (map (\<lambda>q. take (unat (pb_len q)) (drop (1536 * ?i) (emac_buf e))) qs)" using Cons by auto
  have r: "EMAC_ReadPacketBuffer \<lparr>ulDataLen = ucast (pb_len q), pbDataBuf = Some (payload q)\<rparr> e =
    Some \<lparr>ulDataLen = ucast (pb_len q), pbDataBuf = Some (?bs @ drop ?m (payload q))\<rparr>"
    using rx_packet[OF assms(1) i(1)] i(1) fit l Cons(2) by (simp add: EMAC_ReadPacketBuffer_def get_bytes_def put_bytes_def)
  have "take (unat (pb_len q)) (?bs @ drop ?m (payload q)) = take (unat (pb_len q)) (drop (1536 * ?i) (emac_buf e))"
    using m(1) l by (simp add: min_absorb1)
  then have "chain_bytes (q\<lparr>payload := ?bs @ drop ?m (payload q)\<rparr> # ps) =
    concat (map (\<lambda>q. take (unat (pb_len q)) (drop (1536 * ?i) (emac_buf e))) (q # qs))"
    using ps(2) by (simp add: chain_bytes_def)
  then show ?case using ps(1) r by simp
qed

text \<open>
  What the stack promises: for a packet of at most \<open>B\<close> bytes it returns one buffer of that length, whose memory
  is word-aligned; it takes every packet, records it (\<open>seen\<close>) and leaves the receive ring alone.
\<close>

definition stack_ok :: "('w, 'l) lwip \<Rightarrow> nat \<Rightarrow> ('l \<Rightarrow> u8 list list) \<Rightarrow> bool" where
  "stack_ok lw B seen \<longleftrightarrow>
     (\<forall>n l. unat n \<le> B \<longrightarrow> (\<exists>q l'. pbuf_alloc lw n l = (Some [q], l') \<and> pb_len q = n \<and>
        word_bytes (ucast n) \<le> length (payload q) \<and> seen l' = seen l)) \<and>
     (\<forall>p n. \<exists>n'. ethernet_input lw p n = Some n' \<and> seen (nt_lwip n') = seen (nt_lwip n) @ [chain_bytes p] \<and>
        (rx_wf (nt_emac n) \<longrightarrow> rx_wf (nt_emac n') \<and> rx_queue (nt_emac n') = rx_queue (nt_emac n)))"

lemma rx_released:
  assumes "rx_wf e"
  shows "rx_wf (EMAC_UpdateRxConsumeIndex e)" "rx_queue e \<noteq> [] \<Longrightarrow> rx_queue (EMAC_UpdateRxConsumeIndex e) = tl (rx_queue e)"
    "rx_queue e \<noteq> [] \<Longrightarrow> hd (rx_queue e) = rx_frame e (unat (RxConsumeIndex (LPC_EMAC e)))"
proof -
  let ?e = "EMAC_UpdateRxConsumeIndex e" and ?c = "RxConsumeIndex (LPC_EMAC e)" and ?p = "unat (RxProduceIndex (LPC_EMAC e))"
  have i: "unat ?c < 4" "?p < 4" using assms by (simp_all add: rx_wf_def)
  then have c: "?c = 0 \<or> ?c = 1 \<or> ?c = 2 \<or> ?c = 3" unfolding less4_cases by (auto simp: word_unat_eq_iff)
  have n: "unat (if ?c + 1 = 4 then 0 else ?c + 1) = ring_next 4 (unat ?c)"
    using c by (auto simp: ring_next_def)
  have f: "RX_DESC ?e = RX_DESC e" "RX_STAT ?e = RX_STAT e" "emac_buf ?e = emac_buf e" "RxProduceIndex (LPC_EMAC ?e) = RxProduceIndex (LPC_EMAC e)"
    "unat (RxConsumeIndex (LPC_EMAC ?e)) = ring_next 4 (unat ?c)"
    using n by (simp_all add: EMAC_UpdateRxConsumeIndex_def e_upd_def Let_def)
  show "rx_wf ?e" using assms ring_next_less[OF i(1)] unfolding rx_wf_def f by simp
  have m: "map (rx_frame ?e) [0..<4] = map (rx_frame e) [0..<4]" by (simp add: rx_frame_def f)
  have q: "rx_queue e = ring_list 4 (map (rx_frame e) [0..<4]) ?p (unat ?c)" by (simp add: rx_queue_def)
  assume "rx_queue e \<noteq> []"
  then have "?p \<noteq> unat ?c" using ring_list_Nil_iff[OF i(2,1)] q by metis
  then have g: "rx_queue e = map (rx_frame e) [0..<4] ! unat ?c # rx_queue ?e"
    using ring_list_get[OF i(2,1)] unfolding rx_queue_def f m by blast
  then show "rx_queue ?e = tl (rx_queue e)" by simp
  have "map (rx_frame e) [0..<4] ! unat ?c = rx_frame e (unat ?c)" using i(1) by (simp add: nth_map)
  then show "hd (rx_queue e) = rx_frame e (unat ?c)" unfolding g by simp
qed

lemma low_level_input_ok:
  assumes "stack_ok lw B seen" "rx_wf (nt_emac n)" "rx_queue (nt_emac n) \<noteq> []" "length (hd (rx_queue (nt_emac n))) \<le> B"
  shows "\<exists>ps n'. low_level_input lw n = Some (Some ps, n') \<and> chain_bytes ps = hd (rx_queue (nt_emac n)) \<and>
    rx_wf (nt_emac n') \<and> rx_queue (nt_emac n') = tl (rx_queue (nt_emac n)) \<and> seen (nt_lwip n') = seen (nt_lwip n)"
proof -
  let ?e = "nt_emac n" let ?i = "unat (RxConsumeIndex (LPC_EMAC ?e))"
  let ?size = "Info (RX_STAT ?e ! ?i) AND 0x7FF"
  have i: "?i < 4" "length (RX_STAT ?e) = 4" "length (emac_buf ?e) = 10752" "unat (RxProduceIndex (LPC_EMAC ?e)) < 4" using assms(2) by (simp_all add: rx_wf_def)
  have "unat (RxProduceIndex (LPC_EMAC ?e)) \<noteq> ?i"
    using assms(3) ring_list_Nil_iff[OF i(4,1)] unfolding rx_queue_def by blast
  then have t: "EMAC_CheckReceiveIndex ?e" by (auto simp: EMAC_CheckReceiveIndex_def)
  have s: "unat ?size \<le> 2047" by (rule order_trans[OF word_and_le1[THEN word_le_nat_alt[THEN iffD1]]]) simp
  have u: "unat (ucast ?size :: u16) = unat ?size" using s by (simp add: unsigned_ucast_eq take_bit_nat_eq_self)
  have h: "hd (rx_queue ?e) = take (unat ?size) (drop (1536 * ?i) (emac_buf ?e))"
    using rx_released(3)[OF assms(2,3)] by (simp add: rx_frame_def)
  have "length (hd (rx_queue ?e)) = unat ?size" unfolding h using i s by simp
  then have "unat (ucast ?size :: u16) \<le> B" using assms(4) u by simp
  then obtain q l' where q: "pbuf_alloc lw (ucast ?size) (nt_lwip n) = (Some [q], l')" "pb_len q = ucast ?size"
    "word_bytes (ucast (pb_len q)) \<le> length (payload q)" "seen l' = seen (nt_lwip n)"
    using assms(1) unfolding stack_ok_def by metis
  obtain ps where ps: "fill_chain [q] ?e = Some ps" "chain_bytes ps = take (unat (pb_len q)) (drop (1536 * ?i) (emac_buf ?e))"
    using fill_chain_ok[OF assms(2), of "[q]"] q(2,3) u s by auto
  have "low_level_input lw n = Some (Some ps, n\<lparr>nt_emac := EMAC_UpdateRxConsumeIndex ?e, nt_lwip := l'\<rparr>)"
    using t i(1,2) q(1) ps(1) by (simp add: low_level_input_def EMAC_GetReceiveDataSize_def)
  then show ?thesis using ps(2) h q(2,4) u rx_released(1,2)[OF assms(2)] assms(3) by auto
qed


text \<open>A stack that keeps the packets it gets, and two frames in the ring.\<close>

definition lwip_log :: "(unit, u8 list list) lwip" where
  "lwip_log = \<lparr>lwip_init = Some, netif_add = (\<lambda>_ _ _ f n. do { (r, n) \<leftarrow> f n; Some (r = ERR_OK_lwip, n) }), netif_set_default = Some,
     netif_set_up = Some, netif_set_link_up = Some, netif_set_link_down = Some, sys_check_timeouts = Some,
     pbuf_alloc = (\<lambda>n l. (Some [\<lparr>pb_len = n, payload = replicate (word_bytes (ucast n)) 0\<rparr>], l)),
     ethernet_input = (\<lambda>p n. Some (n\<lparr>nt_lwip := nt_lwip n @ [chain_bytes p]\<rparr>))\<rparr>"

definition net_two :: "(unit, u8 list list) net" where
  "net_two = \<lparr>nt_emac = (e_upd (\<lambda>r. r\<lparr>RxProduceIndex := 1, RxConsumeIndex := 3\<rparr>) (rx_descr_init emac_blank))
       \<lparr>RX_STAT := [\<lparr>Info = 2, HashCRC = 0\<rparr>, \<lparr>Info = 0, HashCRC = 0\<rparr>, \<lparr>Info = 0, HashCRC = 0\<rparr>, \<lparr>Info = 3, HashCRC = 0\<rparr>]\<rparr>,
     nt_if = \<lparr>nif_name = ''en'', mtu = 1500, hwaddr_len = 6, hwaddr = [], nif_flags = 0x32\<rparr>, eth0Netif = True, lastLinkCheck = 0, nt_lwip = []\<rparr>"


end
