(* ===== verification/Spec2Isabelle.thy ===== *)
theory Spec2Isabelle
  imports Rfpt OhciPipes AccessoryMode Eeprom Timers DemoMain FastGpio UartModes UsbStreams SspDriver SdSectors EthernetIf
begin

text \<open>
  Verification of the firmware of the AOA board with a CAN gateway (LPC1769): the demo application, the
  board support library \<^verbatim>\<open>Lib_Board\<close> with its CAN node protocol, its radio node protocol, the XBee and EEPROM
  drivers, the Android accessory host with the USB host stack below it, and the peripheral drivers of
  \<^verbatim>\<open>Lib_MCU\<close>.

  \<^bold>\<open>The program.\<close> The repository builds one application, \<^verbatim>\<open>demo_aoa_can\<close>: its present \<^verbatim>\<open>main\<close> fades three LEDs
  with the PWM, paced by the SysTick interrupt; the gateway and the accessory host are parts
  of the firmware that the present \<^verbatim>\<open>main\<close> does not start. A CAN interrupt (\<^verbatim>\<open>canpt.c\<close>, \<^verbatim>\<open>CAN_IRQHandler\<close>) reads frames from the controllers and puts them
  into a ring buffer; the task \<^verbatim>\<open>canpt_task\<close> takes them out and sends them on the second bus. The message
  handlers of \<^verbatim>\<open>canpt.c\<close> keep a table of nodes that announced themselves. On the radio side the receive
  interrupt of UART1 (\<^verbatim>\<open>board.c\<close>) fills a byte queue; \<^verbatim>\<open>xbee_task\<close> (\<^verbatim>\<open>xbee.c\<close>) takes one byte per call, assembles
  API frames and calls back \<^verbatim>\<open>rfpt.c\<close>, which keeps the coordinator's node table and the end device's
  subscriptions and answers through \<^verbatim>\<open>xbee_send\<close>. An Android device on the USB port is enumerated by
  \<^verbatim>\<open>USB_USBTask\<close> (nxpUSBlib), recognised by \<^verbatim>\<open>Lib_AOA\<close> and served by \<^verbatim>\<open>AndroidAccessoryHost.c\<close>, which passes node
  announcements and values from the CAN side to the device and its commands back. The EEPROM is reached
  through the polled I2C master.

  \<^bold>\<open>Theories, from the bottom.\<close>
  \<^item> \<open>Prelude\<close>: words, checked array access, \<^verbatim>\<open>CHECK_PARAM\<close>, observations of volatile locations, linear
    search, list and word lemmas; the error codes of \<^verbatim>\<open>board.h\<close>.
  \<^item> \<open>Ring\<close>: index arithmetic of ring buffers and the list they represent.
  \<^item> \<open>Interfaces\<close>: the contracts between components as locales: \<open>codec\<close>, \<open>bounded_fifo\<close> and
    \<open>dropping_fifo\<close>, \<open>registry\<close> and \<open>slot_table\<close>, \<open>memory_pool\<close>.
  \<^item> \<open>Clkpwr\<close>, \<open>Pins\<close>: \<^verbatim>\<open>lpc17xx_clkpwr.c\<close>, \<^verbatim>\<open>lpc17xx_pinsel.c\<close> and the pin
    configurations of \<^verbatim>\<open>board.c\<close>.
  \<^item> \<open>CanDriver\<close>, \<open>CanFilter\<close>: \<^verbatim>\<open>lpc17xx_can.c\<close>, transfers and configuration, and the acceptance filter
    table. Shown: a frame sent and received through the same registers is unchanged; the bit timing; an
    identifier loaded into the filter is inserted into the sorted section and every other section is
    kept, with the exact condition under which the extended branch leaves the filter RAM.
  \<^item> \<open>Canpt\<close>: \<^verbatim>\<open>canpt.c\<close>. Shown: the queue refines a list of at most four messages, which the
    interrupt cannot overwrite while the task reads it; the node table holds exactly the announced nodes;
    the queries list it; the liveness check; which frames write outside the capability array; what the
    task forwards.
  \<^item> \<open>Gateway\<close>: \<^verbatim>\<open>canpt_init\<close>, and the interleaving of interrupt and task as a step relation
    \<open>gw_step\<close> with an invariant: the frames sent are a subsequence of the frames accepted.
  \<^item> \<open>UartDriver\<close>, \<open>BoardUart\<close>: \<^verbatim>\<open>lpc17xx_uart.c\<close> and the UART part of \<^verbatim>\<open>board.c\<close>. Shown: accuracy of
    the divisor search, complete transmission, the receive queue as a bounded buffer of 255 bytes, and
    the index at which its full test fails.
  \<^item> \<open>Xbee\<close>: \<^verbatim>\<open>xbee.c\<close>. Shown: delivery of a received packet, rejection of a corrupt frame, overflow on
    long frames, the frame that is sent, the initialisation dialogue.
  \<^item> \<open>UartModes\<close>: the IrDA, auto-baud, modem and RS-485 functions of \<^verbatim>\<open>lpc17xx_uart.c\<close>. Shown: address
    and data frames are sent with the parity bit that tells them apart, and the line control is restored.
  \<^item> \<open>BoardIo\<close>, \<open>FastGpio\<close>: GPIO, RGB LEDs, buttons, clock, A/D converter and potentiometer; half-word and
    byte access to the ports, shown equal to word access on the shifted value.
  \<^item> \<open>Rfpt\<close>: \<^verbatim>\<open>rfpt.c\<close>. Shown: the node table of the coordinator, the round trip of published
    capabilities, consistency of the subscription table.
  \<^item> \<open>UsbMemory\<close>, \<open>UsbPipe\<close>, \<open>UsbHost\<close>: the pool allocator (\<^verbatim>\<open>USBMemory.c\<close>), the pipes (\<^verbatim>\<open>Pipe_LPC.c\<close>,
    \<^verbatim>\<open>Pipe_LPC.h\<close>, \<^verbatim>\<open>PipeStream_LPC.c\<close>) and control requests, descriptors and enumeration (\<^verbatim>\<open>HostStandardReq.c\<close>,
    \<^verbatim>\<open>ConfigDescriptor.c\<close>, \<^verbatim>\<open>Host_LPC.c\<close>, \<^verbatim>\<open>USBTask.c\<close>) of nxpUSBlib. The host controller driver below is the record
    \<open>hcd\<close> of its entry points, so that these results hold for every driver. Shown: the allocator refines a list of blocks that tiles the pool; pipe
    operations keep the pipe table well-formed; the descriptor search ends on well-formed descriptors.
  \<^item> \<open>OhciDriver\<close>, \<open>OhciQueues\<close>, \<open>OhciOps\<close>, \<open>OhciDone\<close>, \<open>OhciSystem\<close>, \<open>OhciProps\<close>: the host controller driver
    \<^verbatim>\<open>OHCI.c\<close> below the pipes. \<open>OhciDriver\<close> has the definitions; \<open>OhciQueues\<close> the relation \<open>td_rel\<close>, which
    gives each endpoint the list of descriptors in its queue; \<open>OhciOps\<close> and \<open>OhciDone\<close> what the operations do to these
    lists; \<open>OhciSystem\<close> the controller (\<open>hc_retire\<close>, \<open>hc_irq\<close>) and the reachable states \<open>ohci_reach\<close>. Shown: each
    descriptor in use has one owner; the calls return; transfers cover the buffer; control transfers complete; the done
    queue and the count of bytes are settled exactly; what a cancellation loses.
  \<^item> \<open>OhciPipes\<close>: the pipes on this driver, through the locale \<open>host_driver\<close>. Shown: every open pipe owns an
    endpoint, and what closing an unused pipe does.
  \<^item> \<open>UsbStreams\<close>: the reading and discarding streams. Shown: a read returns the bytes of the packets that
    arrive, in order; discarding discards nothing.
  \<^item> \<open>UsbEnum\<close>: progress of the enumeration. For a driver that answers (\<open>hcd_answers\<close>) a powered device
    is enumerated after exactly 1608 task calls, the sum of its waiting times (1000 of them the settle
    delay), which are counted in calls, and the steps of the state machine.
  \<^item> \<open>Accessory\<close>, \<open>AndroidHost\<close>, \<open>AccessoryMode\<close>: \<^verbatim>\<open>Lib_AOA\<close> and \<^verbatim>\<open>AndroidAccessoryHost.c\<close>. Shown: the search for
    the accessory interface is equivalent to a reference on the list of descriptors; values and
    announcements reach the device; removal cancels the subscriptions; a device in accessory mode is
    ready after its enumeration, given more than 387 words of pool for the pipe buffers.
  \<^item> \<open>I2cDriver\<close>, \<open>Eeprom\<close>: \<^verbatim>\<open>lpc17xx_i2c.c\<close> and \<^verbatim>\<open>eeprom.c\<close>. The controller hardware is the record
    \<open>i2c_regs\<close>; \<open>drives\<close> states that it behaves as a bus with one slave. Shown: polled transfers have the
    effect of the transaction on the slave; writing to and reading from a memory that wraps at page ends.
  \<^item> \<open>SspDriver\<close>: \<^verbatim>\<open>lpc17xx_ssp.c\<close> and \<^verbatim>\<open>ssp1_init\<close>. \<open>ssp_port\<close> states that the registers show the two queues of
    the port. Shown: a polled transfer exchanges exactly the bytes of its buffers; the rate the clock
    search programs.
  \<^item> \<open>SdCard\<close>, \<open>SdSectors\<close>: \<^verbatim>\<open>mmc.c\<close>, the memory card below FatFs, and a card that follows the SPI-mode
    protocol (\<open>sd_card\<close>, \<open>sd_start\<close>). Shown: a card is started; a sector written is read back.
  \<^item> \<open>EmacDriver\<close>, \<open>EthernetIf\<close>: \<^verbatim>\<open>lpc17xx_emac.c\<close>, \<^verbatim>\<open>ethernetif.c\<close>, \<^verbatim>\<open>net_init\<close> and \<^verbatim>\<open>net_task\<close>; lwIP is the parameter
    \<open>lwip\<close>. Shown: the transmit ring as a queue, and where its full test fails; received frames reach the stack in
    order; the checksum is the serial division.
  \<^item> \<open>Timers\<close>: \<^verbatim>\<open>lpc17xx_timer.c\<close>, \<^verbatim>\<open>time_init\<close> and the timer helpers of the demo. Shown: the period of the
    clock; that delays return; what the helpers program wrongly.
  \<^item> \<open>DemoMain\<close>: \<^verbatim>\<open>main.c\<close>, \<^verbatim>\<open>pwm.c\<close>, \<^verbatim>\<open>GPIO.c\<close>. Shown: the levels and the pace of the fade in every
    interleaving with the interrupts, completion of its cycle, agreement of the pin helpers with \<open>Pins\<close>.
  \<^item> this theory: the path of a publish packet from the UART queue to the node table.

  \<^bold>\<open>Modelling.\<close> Machine integers are words of their width. Peripheral registers and file-static
  variables are records. A definition of option type returns \<^const>\<open>None\<close> where the call does not
  return normally: an access outside an array, a failed \<^verbatim>\<open>CHECK_PARAM\<close> (an endless loop), a null
  pointer, a division by zero, or an exhausted list of observations. Busy-waiting loops recurse over the
  list of values that successive reads of a volatile location give, or, where the hardware is a
  parameter, are partial functions that are \<^const>\<open>None\<close> when they never end; theorems that a call
  returns say which observations or which behaviour of the hardware suffice. Loops over arrays are
  structural recursions and loops whose end depends on data are partial functions, so no fuel is needed.
  Call-backs are functions on the world of their component that may fail; uninitialised local variables
  are arguments. Code outside the repository's own sources (the step contract of the USB host controller, the I2C bus and its
  memories, the SSP port) is a parameter with its documented behaviour as a named hypothesis, and every theorem
  that uses one has a witness on a concrete instance.

  \<^bold>\<open>Not modelled.\<close> The vendored libraries lwIP, FatFs (\<^verbatim>\<open>ff.c\<close>) and CMSIS (apart from \<^verbatim>\<open>SysTick_Config\<close>), the USB class
  drivers and the device mode of nxpUSBlib, its EHCI driver (for other parts) and HAL; start-up code; formatted
  console output; and peripheral drivers that no code of the repository calls (SPI, I2S, DAC,
  RTC, QEI, motor PWM, watchdog).
\<close>

section \<open>Properties that span components\<close>

text \<open>
  \<^bold>\<open>C4\<close>. From the UART to the node table: when the radio module of a coordinator delivers a publish
  packet of a new node as an API frame into the receive queue, one call of \<^verbatim>\<open>xbee_task\<close> per byte
  within the frame time-out enters the address of the node in the table of \<^verbatim>\<open>rfpt.c\<close> and keeps the
  table well-formed.
\<close>

theorem radio_publication_registered:
  assumes "app_frame t" "rf_nodes_inv (rp (cl w))" "rf_isCoordinator (rp (cl w))" "clk (env (cl w)) = t1 # t2 # ts"
    and "(aHi, aLo) \<noteq> (0, 0)" "(aHi, aLo) \<notin> set (node_slots (rp (cl w)))" "(0, 0) \<in> set (node_slots (rp (cl w)))"
    and "rfState (xb w) = XBEE_FRAME" "rfFrameTimer (xb w) = 0" "length (rfBuf (xb w)) = 200" "length cs < 170"
    and "body = rx64_body aHi aLo rssi opt (RFPT_MSG_PUBLISH # cs)"
    and "queued ([XBEE_START_DEL, 0, word_of_nat (length body)] @ body @ checksum body # rest) w"
    and "frame_schedule (length body) sched"
  shows "\<exists>w'. xbee_run (Some (rf_callbacks (Some t))) sched w = Some w' \<and>
    set (filter (\<lambda>k. k \<noteq> (0, 0)) (node_slots (rp (cl w')))) =
      insert (aHi, aLo) (set (filter (\<lambda>k. k \<noteq> (0, 0)) (node_slots (rp (cl w))))) \<and>
    rf_nodes_inv (rp (cl w'))"
proof -
  let ?pay = "RFPT_MSG_PUBLISH # cs"
  have l: "length body = 12 + length cs" using assms(12) by (simp add: rx64_body_def xaddr.length_enc)
  have h: "length body = 256 * unat (0 :: u8) + unat (word_of_nat (length body) :: u8)"
    using l assms(11) unat_of_nat_u8[of "length body"] by simp
  have lb: "length body < 200" and lp: "length ?pay < 180" using l assms(11) by simp_all
  have dc: "data_cb (rf_callbacks (Some t)) = Some (xbeeData (Some t))" by (simp add: rf_callbacks_def)
  obtain q s where
    r: "xbee_run (Some (rf_callbacks (Some t))) sched w = xbeeData (Some t) aHi aLo rssi
        (?pay @ [checksum body] @ drop (length body + 1) (rfBuf (xb w))) (word_of_nat (length ?pay)) ((set_rq q w)\<lparr>xb := s\<rparr>)"
    using run_frame[OF assms(8-10) h lb assms(13,14), of "Some (rf_callbacks (Some t))"]
    unfolding processFrame_rx64[OF assms(12) dc lp] by blast
  have c: "cl ((set_rq q w)\<lparr>xb := s\<rparr>) = cl w" by simp
  have "length cs < 255" "word_of_nat (length ?pay) = (word_of_nat (length cs + 1) :: u8)" using assms(11) by simp_all
  from xbeeData_publish[OF assms(1), of "(set_rq q w)\<lparr>xb := s\<rparr>", unfolded c, OF assms(2-4) this, of aHi aLo rssi
      "[checksum body] @ drop (length body + 1) (rfBuf (xb w))"] r obtain w' where
    w': "xbee_run (Some (rf_callbacks (Some t))) sched w = Some w'" "rp (cl w') = publish ((aHi, aLo), cs, t1) (rp (cl w))"
    by auto
  have ok: "publication_ok ((aHi, aLo), cs, t1)" using assms(5,11) by (simp add: publication_ok_def)
  have "length (filter (\<lambda>k. k \<noteq> (0, 0)) (node_slots (rp (cl w)))) < 10"
    using rfreg.keys_cap[OF assms(2)] filter_ne0_full_iff[of "(0, 0)" "node_slots (rp (cl w))"] rfreg.slots_length[OF assms(2)] assms(7)
    by linarith
  then show ?thesis
    using w' rfreg.add_new[OF assms(2) ok] rfreg.add_inv[OF assms(2) ok] assms(5,6) by simp
qed

theorem radio_publication_registered_witness:
  "\<exists>w'. xbee_run (Some (rf_callbacks (Some no_app))) (replicate 17 (0, 0))
      (rfw0 True ([0x7E, 0, 13] @ rx64_body 1 2 40 0 [0x07, 0x30] @ [checksum (rx64_body 1 2 40 0 [0x07, 0x30])])) = Some w' \<and>
    set (filter (\<lambda>k. k \<noteq> (0, 0)) (node_slots (rp (cl w')))) = {(1, 2)}"
proof -
  let ?b = "rx64_body 1 2 40 0 [0x07, 0x30]"
  let ?w = "rfw0 True ([0x7E, 0, 13] @ ?b @ [checksum ?b])"
  have l: "length ?b = 13" by (simp add: rx64_body_def xaddr.length_enc)
  have "queued ([0x7E, 0, word_of_nat (length ?b)] @ ?b @ checksum ?b # []) ?w"
    using queued_rfw0[of "[0x7E, 0, 13] @ ?b @ [checksum ?b]" True] l by simp
  with radio_publication_registered[OF app_frame_no_app, of ?w 1 2 "[3, 4]" 1 2 "[0x30]" ?b 40 0 "[]" "replicate 17 (0, 0)"] l
  show ?thesis by (auto simp: rf_nodes_inv0 node_slots0 frame_schedule_def)
qed

end
